(* ===== verification/Prelude.thy ===== *)
theory Prelude
  imports Main "HOL-Library.AList"
begin

text \<open>
  What every component of the development shares: the JavaScript \<open>Map\<close> and \<open>Set\<close> as lists
  in insertion order, strings with \<open>toLowerCase\<close>, the truncating division of \<open>bigint\<close>, and the
  fixed-point constants of the program.

  \<^item> A \<open>Map\<close> is an association list without repeated keys. \<open>set\<close> on a present key keeps the
    key's place and on an absent key appends, \<open>delete\<close> drops the entry, iteration follows the
    list: the order matters where the program iterates, sorts stably or slices.
  \<^item> A \<open>bigint\<close> is an \<open>int\<close>. Its division truncates towards zero and throws on a zero divisor;
    every division of the modelled code stands behind a test that its divisor is not zero.
  \<^item> A \<open>Number\<close> that counts, or that is a time in milliseconds or seconds, is an \<open>int\<close> or a
    \<open>nat\<close>: these values stay far below \<open>2^53\<close>, where a double is exact.
\<close>

named_theorems js_simps \<open>lookup, membership and size after an update of a Map or a Set\<close>
named_theorems wf_intros \<open>preservation of well-formedness by the operations\<close>

section \<open>Errors\<close>

text \<open>A thrown exception carries its message.\<close>

datatype exn = Exn (exn_message: string)

section \<open>Strings\<close>

text \<open>\<open>String.prototype.toLowerCase\<close> on the ASCII strings the program keys its maps with.\<close>

definition lower_char :: "char \<Rightarrow> char" where
  "lower_char c = (let n = (of_char c :: nat) in if 65 \<le> n \<and> n \<le> 90 then char_of (n + 32) else c)"

text \<open>The same test on the bits of the character, for evaluation.\<close>

lemma lower_char_code [code]:
  "lower_char (Char b0 b1 b2 b3 b4 b5 b6 b7) =
     (if b6 \<and> \<not> b7 \<and> \<not> b5 \<and> (b0 \<or> b1 \<or> b2 \<or> b3 \<or> b4) \<and> \<not> (b4 \<and> b3 \<and> (b2 \<or> (b1 \<and> b0)))
      then Char b0 b1 b2 b3 b4 True b6 b7 else Char b0 b1 b2 b3 b4 b5 b6 b7)"
  by (cases b0; cases b1; cases b2; cases b3; cases b4; cases b5; cases b6; cases b7) (simp_all add: lower_char_def char_of_def bit_iff_odd)

definition to_lower :: "string \<Rightarrow> string" where
  "to_lower s = map lower_char s"

type_synonym address = string

lemma lower_char_idem [simp]: "lower_char (lower_char c) = lower_char c"
  by (simp add: lower_char_def Let_def)

lemma to_lower_idem [simp]: "to_lower (to_lower s) = to_lower s"
  by (simp add: to_lower_def)

lemma length_to_lower [simp]: "length (to_lower s) = length s"
  by (simp add: to_lower_def)

lemma to_lower_Nil [simp]: "to_lower [] = []"
  by (simp add: to_lower_def)

text \<open>\<open>String.prototype.includes\<close> and \<open>startsWith\<close>\<close>

definition str_startsWith :: "string \<Rightarrow> string \<Rightarrow> bool" where
  "str_startsWith sub s = (take (length sub) s = sub)"

definition str_includes :: "string \<Rightarrow> string \<Rightarrow> bool" where
  "str_includes sub s = list_ex (\<lambda>n. str_startsWith sub (drop n s)) [0..<Suc (length s)]"

section \<open>JavaScript maps\<close>

type_synonym ('k, 'v) jsmap = "('k \<times> 'v) list"

definition js_get :: "('k, 'v) jsmap \<Rightarrow> 'k \<Rightarrow> 'v option" where
  "js_get m k = map_of m k"

definition js_has :: "('k, 'v) jsmap \<Rightarrow> 'k \<Rightarrow> bool" where
  "js_has m k = (map_of m k \<noteq> None)"

definition js_set :: "'k \<Rightarrow> 'v \<Rightarrow> ('k, 'v) jsmap \<Rightarrow> ('k, 'v) jsmap" where
  "js_set k v m = AList.update k v m"

definition js_delete :: "'k \<Rightarrow> ('k, 'v) jsmap \<Rightarrow> ('k, 'v) jsmap" where
  "js_delete k m = filter (\<lambda>e. fst e \<noteq> k) m"

definition js_keys :: "('k, 'v) jsmap \<Rightarrow> 'k list" where
  "js_keys m = map fst m"

definition js_values :: "('k, 'v) jsmap \<Rightarrow> 'v list" where
  "js_values m = map snd m"

text \<open>What a JavaScript \<open>Map\<close> guarantees by itself: no key twice.\<close>

definition js_wf :: "('k, 'v) jsmap \<Rightarrow> bool" where
  "js_wf m = distinct (map fst m)"

lemma js_get_Nil [simp, js_simps]: "js_get [] k = None"
  by (simp add: js_get_def)

lemma js_has_iff [js_simps]: "js_has m k = (js_get m k \<noteq> None)"
  by (simp add: js_has_def js_get_def)

lemma js_get_set [simp, js_simps]: "js_get (js_set k v m) k' = (if k' = k then Some v else js_get m k')"
  by (simp add: js_get_def js_set_def update_conv)

lemma js_get_delete [simp, js_simps]: "js_get (js_delete k m) k' = (if k' = k then None else js_get m k')"
  unfolding js_get_def js_delete_def
  by (induction m) auto

lemma js_get_SomeD: "js_get m k = Some v \<Longrightarrow> (k, v) \<in> set m"
  by (simp add: js_get_def map_of_SomeD)

lemma js_get_iff: "js_wf m \<Longrightarrow> js_get m k = Some v \<longleftrightarrow> (k, v) \<in> set m"
  by (simp add: js_get_def js_wf_def)

lemma js_get_None_iff: "js_get m k = None \<longleftrightarrow> k \<notin> set (js_keys m)"
  by (simp add: js_get_def js_keys_def map_of_eq_None_iff)

lemma js_keys_set: "set (js_keys (js_set k v m)) = insert k (set (js_keys m))"
  unfolding js_keys_def js_set_def by (simp add: dom_update)

lemma js_keys_set_eq:
  "js_keys (js_set k v m) = (if js_has m k then js_keys m else js_keys m @ [k])"
  unfolding js_keys_def js_set_def js_has_def
  by (induction m) auto

lemma js_keys_delete: "js_keys (js_delete k m) = filter (\<lambda>x. x \<noteq> k) (js_keys m)"
  unfolding js_keys_def js_delete_def by (induction m) auto

lemma js_wf_Nil [simp, wf_intros]: "js_wf []"
  by (simp add: js_wf_def)

lemma js_wf_set [simp, wf_intros]: "js_wf m \<Longrightarrow> js_wf (js_set k v m)"
  by (simp add: js_wf_def js_set_def distinct_update)

lemma js_wf_delete [simp, wf_intros]: "js_wf m \<Longrightarrow> js_wf (js_delete k m)"
  by (simp add: js_wf_def js_delete_def distinct_map_filter)

lemma js_wf_filter [wf_intros]: "js_wf m \<Longrightarrow> js_wf (filter P m)"
  by (simp add: js_wf_def distinct_map_filter)

lemma length_js_set: "length (js_set k v m) = (if js_has m k then length m else Suc (length m))"
  unfolding js_set_def js_has_def by (induction m) auto

lemma length_js_delete_le: "length (js_delete k m) \<le> length m"
  by (simp add: js_delete_def)

lemma length_js_delete: "js_wf m \<Longrightarrow> js_has m k \<Longrightarrow> Suc (length (js_delete k m)) = length m"
proof (induction m)
  case Nil
  then show ?case by (simp add: js_has_def)
next
  case (Cons e m)
  show ?case
  proof (cases "fst e = k")
    case True
    with Cons.prems have "filter (\<lambda>e. fst e \<noteq> k) m = m"
      by (intro filter_True) (metis distinct.simps(2) image_eqI js_wf_def list.map(2) list.set_map)
    with True show ?thesis by (simp add: js_delete_def)
  next
    case False
    with Cons show ?thesis
      by (cases e) (simp add: js_wf_def js_has_def js_delete_def)
  qed
qed

lemma js_delete_absent: "js_get m k = None \<Longrightarrow> js_delete k m = m"
  unfolding js_get_def js_delete_def by (induction m) (auto split: if_splits)

lemma js_delete_subset: "set (js_delete k m) \<subseteq> set m"
  by (auto simp: js_delete_def)

lemma js_set_subset: "set (js_set k v m) \<subseteq> insert (k, v) (set m)"
  unfolding js_set_def by (induction m) auto

lemma js_delete_set_absent: "js_get m k = None \<Longrightarrow> js_delete k (js_set k v m) = m"
  unfolding js_get_def js_delete_def js_set_def by (induction m) (auto split: if_splits)

text \<open>Extensional equality: two maps that answer every lookup alike.\<close>

lemma js_get_map_values:
  "js_get (map (\<lambda>(k, v). (k, f k v)) m) k = map_option (f k) (js_get m k)"
  unfolding js_get_def by (induction m) auto

section \<open>JavaScript sets\<close>

definition js_add :: "'a \<Rightarrow> 'a list \<Rightarrow> 'a list" where
  "js_add x xs = (if x \<in> set xs then xs else xs @ [x])"

definition js_remove :: "'a \<Rightarrow> 'a list \<Rightarrow> 'a list" where
  "js_remove x xs = filter (\<lambda>y. y \<noteq> x) xs"

definition js_of_list :: "'a list \<Rightarrow> 'a list" where
  "js_of_list xs = fold js_add xs []"

lemma set_js_add [simp, js_simps]: "set (js_add x xs) = insert x (set xs)"
  by (auto simp: js_add_def)

lemma distinct_js_add [simp, wf_intros]: "distinct xs \<Longrightarrow> distinct (js_add x xs)"
  by (simp add: js_add_def)

lemma set_js_remove [simp, js_simps]: "set (js_remove x xs) = set xs - {x}"
  by (auto simp: js_remove_def)

lemma distinct_js_remove [simp, wf_intros]: "distinct xs \<Longrightarrow> distinct (js_remove x xs)"
  by (simp add: js_remove_def)

lemma fold_js_add: "set (fold js_add xs acc) = set acc \<union> set xs \<and> (distinct acc \<longrightarrow> distinct (fold js_add xs acc))"
  by (induction xs arbitrary: acc) auto

lemma set_js_of_list [simp, js_simps]: "set (js_of_list xs) = set xs"
  by (simp add: js_of_list_def fold_js_add)

lemma distinct_js_of_list [simp, wf_intros]: "distinct (js_of_list xs)"
  by (simp add: js_of_list_def fold_js_add)

section \<open>bigint arithmetic\<close>

text \<open>The quotient of two \<open>bigint\<close>s, rounded towards zero.\<close>

definition bdiv :: "int \<Rightarrow> int \<Rightarrow> int" where
  "bdiv a b = sgn a * sgn b * (\<bar>a\<bar> div \<bar>b\<bar>)"

lemma div_less_iff: "0 < b \<Longrightarrow> a div b < c \<longleftrightarrow> a < c * b" for a b c :: int
proof
  assume b: "0 < b"
  show "a < c * b" if "a div b < c"
  proof -
    have "(a div b + 1) * b \<le> c * b" using b that by (intro mult_right_mono) simp_all
    moreover have "a < (a div b + 1) * b"
      unfolding distrib_right using pos_mod_bound [OF b, of a] div_mult_mod_eq [of a b] by linarith
    ultimately show ?thesis by simp
  qed
  show "a div b < c" if less: "a < c * b"
  proof (rule ccontr)
    assume "\<not> a div b < c"
    then have "c * b \<le> a div b * b" using b by (intro mult_right_mono) simp_all
    moreover have "a div b * b \<le> a"
      using pos_mod_sign [OF b, of a] div_mult_mod_eq [of a b] by linarith
    ultimately show False using less by simp
  qed
qed

lemma bdiv_nonneg_eq: "0 \<le> a \<Longrightarrow> 0 < b \<Longrightarrow> bdiv a b = a div b"
  by (cases "a = 0") (simp_all add: bdiv_def)

lemma bdiv_less_iff: "0 \<le> a \<Longrightarrow> 0 < b \<Longrightarrow> bdiv a b < c \<longleftrightarrow> a < c * b"
  by (simp add: bdiv_nonneg_eq div_less_iff)

lemma bdiv_nonneg: "0 \<le> a \<Longrightarrow> 0 \<le> b \<Longrightarrow> 0 \<le> bdiv a b"
  by (simp add: bdiv_def pos_imp_zdiv_nonneg_iff sgn_if)

lemma bdiv_0 [simp]: "bdiv 0 b = 0"
  by (simp add: bdiv_def)

lemma bdiv_mono: "0 \<le> a \<Longrightarrow> a \<le> b \<Longrightarrow> 0 < c \<Longrightarrow> bdiv a c \<le> bdiv b c"
  by (simp add: bdiv_nonneg_eq zdiv_mono1)

lemma bdiv_mult_le: "0 \<le> a \<Longrightarrow> 0 < b \<Longrightarrow> bdiv a b * b \<le> a"
  by (metis bdiv_nonneg_eq Euclidean_Rings.pos_mod_sign diff_ge_0_iff_ge
      minus_div_mult_eq_mod)

definition WAD :: int where
  "WAD = 1000000000000000000"

definition BPS :: int where
  "BPS = 10000"

definition MAX_UINT256 :: int where
  "MAX_UINT256 = 2 ^ 256 - 1"

lemma WAD_pos [simp]: "0 < WAD"
  by (simp add: WAD_def)

lemma BPS_pos [simp]: "0 < BPS"
  by (simp add: BPS_def)

lemma MAX_UINT256_pos [simp]: "0 < MAX_UINT256"
  by (simp add: MAX_UINT256_def)

end
