(* ===== verification/Effects.thy ===== *)
theory Effects
  imports Prelude
begin

text \<open>
  Effects of asynchronous methods. A computation takes the state and returns either the exception it
  throws or its value, with the state it leaves in both cases: what was changed before a \<open>throw\<close>
  stays changed, as in the program. \<open>io_bind\<close> is sequencing, \<open>io_catch\<close> is \<open>try\<close>/\<open>catch\<close>.
  \<open>io_valid\<close> is the triple of a precondition and two postconditions, for a returned value and for a
  thrown exception; its rules are collected in \<open>io_rules\<close>.
\<close>

named_theorems io_rules \<open>rules for triples of effectful computations\<close>

type_synonym ('s, 'a) io = "'s \<Rightarrow> (exn + 'a) \<times> 's"

definition io_return :: "'a \<Rightarrow> ('s, 'a) io" where
  "io_return a = (\<lambda>s. (Inr a, s))"

definition io_throw :: "exn \<Rightarrow> ('s, 'a) io" where
  "io_throw e = (\<lambda>s. (Inl e, s))"

definition io_bind :: "('s, 'a) io \<Rightarrow> ('a \<Rightarrow> ('s, 'b) io) \<Rightarrow> ('s, 'b) io" where
  "io_bind m f = (\<lambda>s. case m s of (Inl e, s') \<Rightarrow> (Inl e, s') | (Inr a, s') \<Rightarrow> f a s')"

definition io_then :: "('s, 'a) io \<Rightarrow> ('s, 'b) io \<Rightarrow> ('s, 'b) io" where
  "io_then m n = io_bind m (\<lambda>_. n)"

definition io_catch :: "('s, 'a) io \<Rightarrow> (exn \<Rightarrow> ('s, 'a) io) \<Rightarrow> ('s, 'a) io" where
  "io_catch m h = (\<lambda>s. case m s of (Inl e, s') \<Rightarrow> h e s' | (Inr a, s') \<Rightarrow> (Inr a, s'))"

definition io_modify :: "('s \<Rightarrow> 's) \<Rightarrow> ('s, unit) io" where
  "io_modify f = (\<lambda>s. (Inr (), f s))"

definition io_get :: "('s \<Rightarrow> 'a) \<Rightarrow> ('s, 'a) io" where
  "io_get f = (\<lambda>s. (Inr (f s), s))"

definition io_lift :: "exn + 'a \<Rightarrow> ('s, 'a) io" where
  "io_lift r = (\<lambda>s. (r, s))"

definition io_valid ::
  "('s \<Rightarrow> bool) \<Rightarrow> ('s, 'a) io \<Rightarrow> ('a \<Rightarrow> 's \<Rightarrow> bool) \<Rightarrow> (exn \<Rightarrow> 's \<Rightarrow> bool) \<Rightarrow> bool" where
  "io_valid P m Q E \<longleftrightarrow> (\<forall>s. P s \<longrightarrow> (case m s of (Inr a, s') \<Rightarrow> Q a s' | (Inl e, s') \<Rightarrow> E e s'))"

lemma io_validI:
  assumes "\<And>s a s'. P s \<Longrightarrow> m s = (Inr a, s') \<Longrightarrow> Q a s'" "\<And>s e s'. P s \<Longrightarrow> m s = (Inl e, s') \<Longrightarrow> E e s'"
  shows "io_valid P m Q E"
  using assms by (auto simp: io_valid_def split: prod.splits sum.splits)

lemma io_validD:
  assumes "io_valid P m Q E" "P s"
  shows "m s = (Inr a, s') \<Longrightarrow> Q a s'" "m s = (Inl e, s') \<Longrightarrow> E e s'"
  using assms by (auto simp: io_valid_def split: prod.splits sum.splits)

lemma io_valid_weaken:
  assumes "io_valid P m Q E" "\<And>s. P' s \<Longrightarrow> P s" "\<And>a s. Q a s \<Longrightarrow> Q' a s" "\<And>e s. E e s \<Longrightarrow> E' e s"
  shows "io_valid P' m Q' E'"
  using assms by (fastforce simp: io_valid_def split: prod.splits sum.splits)

lemma io_valid_bind:
  assumes "io_valid P m R E" "\<And>a. io_valid (R a) (f a) Q E"
  shows "io_valid P (io_bind m f) Q E"
  using assms by (fastforce simp: io_valid_def io_bind_def split: prod.splits sum.splits)

lemma io_valid_then:
  assumes "io_valid P m (\<lambda>_. R) E" "io_valid R n Q E"
  shows "io_valid P (io_then m n) Q E"
  unfolding io_then_def using assms by (intro io_valid_bind) auto

lemma io_valid_catch:
  assumes "io_valid P m Q R" "\<And>e. io_valid (R e) (h e) Q E"
  shows "io_valid P (io_catch m h) Q E"
  using assms by (fastforce simp: io_valid_def io_catch_def split: prod.splits sum.splits)

lemma io_valid_return: "(\<And>s. P s \<Longrightarrow> Q a s) \<Longrightarrow> io_valid P (io_return a) Q E"
  by (simp add: io_valid_def io_return_def)

lemma io_valid_throw: "(\<And>s. P s \<Longrightarrow> E e s) \<Longrightarrow> io_valid P (io_throw e) Q E"
  by (simp add: io_valid_def io_throw_def)

lemma io_valid_modify: "(\<And>s. P s \<Longrightarrow> Q () (f s)) \<Longrightarrow> io_valid P (io_modify f) Q E"
  by (simp add: io_valid_def io_modify_def)

lemma io_valid_get: "(\<And>s. P s \<Longrightarrow> Q (f s) s) \<Longrightarrow> io_valid P (io_get f) Q E"
  by (simp add: io_valid_def io_get_def)

lemma io_valid_lift:
  "(\<And>s a. P s \<Longrightarrow> r = Inr a \<Longrightarrow> Q a s) \<Longrightarrow> (\<And>s e. P s \<Longrightarrow> r = Inl e \<Longrightarrow> E e s) \<Longrightarrow> io_valid P (io_lift r) Q E"
  by (cases r) (auto simp: io_valid_def io_lift_def)

lemma io_valid_if:
  "(b \<Longrightarrow> io_valid P m Q E) \<Longrightarrow> (\<not> b \<Longrightarrow> io_valid P n Q E) \<Longrightarrow> io_valid P (if b then m else n) Q E"
  by simp

lemma io_valid_option:
  "(x = None \<Longrightarrow> io_valid P m Q E) \<Longrightarrow> (\<And>y. x = Some y \<Longrightarrow> io_valid P (f y) Q E) \<Longrightarrow>
   io_valid P (case x of None \<Rightarrow> m | Some y \<Rightarrow> f y) Q E"
  by (cases x) auto

lemma io_valid_False: "io_valid (\<lambda>s. False) m Q E"
  by (simp add: io_valid_def)

lemma io_valid_conj:
  "io_valid P m Q E \<Longrightarrow> io_valid P' m Q' E' \<Longrightarrow>
   io_valid (\<lambda>s. P s \<and> P' s) m (\<lambda>a s. Q a s \<and> Q' a s) (\<lambda>e s. E e s \<and> E' e s)"
  by (auto simp: io_valid_def split: prod.splits sum.splits)

lemma io_bind_Inr:
  "io_bind m f s = (Inr b, s') \<longleftrightarrow> (\<exists>a s1. m s = (Inr a, s1) \<and> f a s1 = (Inr b, s'))"
  by (auto simp: io_bind_def split: prod.splits sum.splits)

lemma io_then_Inr:
  "io_then m n s = (Inr b, s') \<longleftrightarrow> (\<exists>a s1. m s = (Inr a, s1) \<and> n s1 = (Inr b, s'))"
  by (simp add: io_then_def io_bind_Inr)

lemma io_simps:
  "io_return a s = (Inr a, s)" "io_throw e s = (Inl e, s)" "io_modify f s = (Inr (), f s)" "io_get g s = (Inr (g s), s)"
  "io_lift r s = (r, s)"
  by (simp_all add: io_return_def io_throw_def io_modify_def io_get_def io_lift_def)

lemma io_bind_run:
  "m s = (Inr a, s1) \<Longrightarrow> io_bind m f s = f a s1" "m s = (Inl e, s1) \<Longrightarrow> io_bind m f s = (Inl e, s1)"
  by (simp_all add: io_bind_def)

lemma io_then_run:
  "m s = (Inr a, s1) \<Longrightarrow> io_then m n s = n s1" "m s = (Inl e, s1) \<Longrightarrow> io_then m n s = (Inl e, s1)"
  by (simp_all add: io_then_def io_bind_def)

text \<open>A computation that keeps a property of the state whether it returns or throws.\<close>

definition io_keeps :: "('s \<Rightarrow> bool) \<Rightarrow> ('s, 'a) io \<Rightarrow> bool" where
  "io_keeps P m \<longleftrightarrow> io_valid P m (\<lambda>_. P) (\<lambda>_. P)"

lemma io_keepsD: "io_keeps P m \<Longrightarrow> P s \<Longrightarrow> P (snd (m s))"
  unfolding io_keeps_def io_valid_def by (cases "m s"; cases "fst (m s)") fastforce+

lemma io_keeps_return [io_rules]: "io_keeps P (io_return a)"
  by (simp add: io_keeps_def io_valid_return)

lemma io_keeps_throw [io_rules]: "io_keeps P (io_throw e)"
  by (simp add: io_keeps_def io_valid_throw)

lemma io_keeps_get [io_rules]: "io_keeps P (io_get f)"
  by (simp add: io_keeps_def io_valid_get)

lemma io_keeps_lift [io_rules]: "io_keeps P (io_lift r)"
  by (simp add: io_keeps_def io_valid_lift)

lemma io_keeps_modify [io_rules]: "(\<And>s. P s \<Longrightarrow> P (f s)) \<Longrightarrow> io_keeps P (io_modify f)"
  by (simp add: io_keeps_def io_valid_modify)

lemma io_keeps_bind [io_rules]: "io_keeps P m \<Longrightarrow> (\<And>a. io_keeps P (f a)) \<Longrightarrow> io_keeps P (io_bind m f)"
  unfolding io_keeps_def by (rule io_valid_bind)

lemma io_keeps_then [io_rules]: "io_keeps P m \<Longrightarrow> io_keeps P n \<Longrightarrow> io_keeps P (io_then m n)"
  unfolding io_keeps_def by (rule io_valid_then)

lemma io_keeps_catch [io_rules]: "io_keeps P m \<Longrightarrow> (\<And>e. io_keeps P (h e)) \<Longrightarrow> io_keeps P (io_catch m h)"
  unfolding io_keeps_def by (rule io_valid_catch)

lemma io_keeps_if [io_rules]: "(b \<Longrightarrow> io_keeps P m) \<Longrightarrow> (\<not> b \<Longrightarrow> io_keeps P n) \<Longrightarrow> io_keeps P (if b then m else n)"
  by simp

lemma io_keeps_option [io_rules]:
  "(x = None \<Longrightarrow> io_keeps P m) \<Longrightarrow> (\<And>y. x = Some y \<Longrightarrow> io_keeps P (f y)) \<Longrightarrow>
   io_keeps P (case x of None \<Rightarrow> m | Some y \<Rightarrow> f y)"
  by (cases x) auto

text \<open>A computation that never throws, whatever the state.\<close>

named_theorems total_rules \<open>rules for computations that never throw\<close>

definition io_total :: "('s, 'a) io \<Rightarrow> bool" where
  "io_total m \<longleftrightarrow> (\<forall>s. \<not> isl (fst (m s)))"

lemma io_totalD: "io_total m \<Longrightarrow> \<exists>a s'. m s = (Inr a, s')"
  unfolding io_total_def by (cases "m s"; cases "fst (m s)") (auto dest: spec [of _ s])

lemma io_totalI: "(\<And>s. \<exists>a s'. m s = (Inr a, s')) \<Longrightarrow> io_total m"
  unfolding io_total_def by (metis fst_conv sum.disc(2))

lemma io_total_return [total_rules]: "io_total (io_return a)"
  by (simp add: io_total_def io_return_def)

lemma io_total_get [total_rules]: "io_total (io_get f)"
  by (simp add: io_total_def io_get_def)

lemma io_total_modify [total_rules]: "io_total (io_modify f)"
  by (simp add: io_total_def io_modify_def)

lemma io_total_lift [total_rules]: "io_total (io_lift (Inr a))"
  by (simp add: io_total_def io_lift_def)

lemma io_total_bind [total_rules]:
  assumes "io_total m" "\<And>a. io_total (f a)"
  shows "io_total (io_bind m f)"
proof (rule io_totalI)
  fix s
  obtain a s1 where "m s = (Inr a, s1)" using io_totalD [OF assms(1)] by blast
  moreover obtain b s2 where "f a s1 = (Inr b, s2)" using io_totalD [OF assms(2)] by blast
  ultimately show "\<exists>b s'. io_bind m f s = (Inr b, s')" by (simp add: io_bind_def)
qed

lemma io_total_then [total_rules]: "io_total m \<Longrightarrow> io_total n \<Longrightarrow> io_total (io_then m n)"
  unfolding io_then_def by (rule io_total_bind)

lemma io_total_catch:
  assumes "\<And>e. io_total (h e)"
  shows "io_total (io_catch m h)"
proof (rule io_totalI)
  fix s
  show "\<exists>a s'. io_catch m h s = (Inr a, s')"
  proof (cases "m s")
    case (Pair r s')
    then show ?thesis using io_totalD [OF assms] by (cases r) (auto simp: io_catch_def)
  qed
qed

lemma io_total_catch_body [total_rules]: "io_total m \<Longrightarrow> io_total (io_catch m h)"
  by (auto simp: io_total_def io_catch_def split: prod.split sum.split) (metis fst_conv sum.disc(1))

lemma io_total_if [total_rules]: "(b \<Longrightarrow> io_total m) \<Longrightarrow> (\<not> b \<Longrightarrow> io_total n) \<Longrightarrow> io_total (if b then m else n)"
  by simp

lemma io_total_option [total_rules]:
  "(x = None \<Longrightarrow> io_total m) \<Longrightarrow> (\<And>y. x = Some y \<Longrightarrow> io_total (f y)) \<Longrightarrow> io_total (case x of None \<Rightarrow> m | Some y \<Rightarrow> f y)"
  by (cases x) auto

lemma io_total_prod [total_rules]:
  "(\<And>a b. x = (a, b) \<Longrightarrow> io_total (f a b)) \<Longrightarrow> io_total (case x of (a, b) \<Rightarrow> f a b)"
  by (cases x) auto

text \<open>\<open>try\<close>/\<open>finally\<close>, and a computation for every element of a list, in order.\<close>

definition io_finally :: "('s, 'a) io \<Rightarrow> ('s \<Rightarrow> 's) \<Rightarrow> ('s, 'a) io" where
  "io_finally m f s = (case m s of (r, s') \<Rightarrow> (r, f s'))"

lemma io_total_finally [total_rules]: "io_total m \<Longrightarrow> io_total (io_finally m f)"
  by (auto simp: io_total_def io_finally_def split: prod.split) (metis fst_conv)

fun io_map :: "('a \<Rightarrow> ('s, 'b) io) \<Rightarrow> 'a list \<Rightarrow> ('s, 'b list) io" where
  "io_map f [] = io_return []"
| "io_map f (x # xs) = io_bind (f x) (\<lambda>y. io_bind (io_map f xs) (\<lambda>ys. io_return (y # ys)))"

lemma io_total_map [total_rules]: "(\<And>x. x \<in> set xs \<Longrightarrow> io_total (f x)) \<Longrightarrow> io_total (io_map f xs)"
  by (induction xs) (auto intro!: total_rules)

lemma io_map_cong [fundef_cong]:
  "xs = ys \<Longrightarrow> (\<And>x. x \<in> set ys \<Longrightarrow> f x = g x) \<Longrightarrow> io_map f xs = io_map g ys"
proof -
  assume "xs = ys" and eq: "\<And>x. x \<in> set ys \<Longrightarrow> f x = g x"
  have "(\<And>x. x \<in> set zs \<Longrightarrow> f x = g x) \<Longrightarrow> io_map f zs = io_map g zs" for zs by (induction zs) auto
  with \<open>xs = ys\<close> eq show "io_map f xs = io_map g ys" by simp
qed

text \<open>A loop that awaits an effect for every element, in order; an exception ends it.\<close>

fun io_each :: "('a \<Rightarrow> ('s, unit) io) \<Rightarrow> 'a list \<Rightarrow> ('s, unit) io" where
  "io_each f [] = io_return ()"
| "io_each f (x # xs) = io_then (f x) (io_each f xs)"

lemma io_total_each [total_rules]: "(\<And>x. x \<in> set xs \<Longrightarrow> io_total (f x)) \<Longrightarrow> io_total (io_each f xs)"
  by (induction xs) (auto intro!: total_rules)

lemma io_keeps_each [io_rules]: "(\<And>x. x \<in> set xs \<Longrightarrow> io_keeps P (f x)) \<Longrightarrow> io_keeps P (io_each f xs)"
  by (induction xs) (auto intro!: io_rules)

lemma io_then_assoc: "io_then (io_then a b) c = io_then a (io_then b c)"
  by (rule ext) (auto simp: io_then_def io_bind_def split: prod.split sum.split)

lemma io_then_return [simp]: "io_then (io_return ()) m = m"
  by (rule ext) (simp add: io_then_def io_bind_def io_return_def)

lemma io_each_append: "io_each f (xs @ ys) = io_then (io_each f xs) (io_each f ys)"
  by (induction xs) (simp_all add: io_then_assoc)

lemma io_each_cong:
  "xs = ys \<Longrightarrow> (\<And>x. x \<in> set ys \<Longrightarrow> f x = g x) \<Longrightarrow> io_each f xs = io_each g ys"
  by (induction xs arbitrary: ys) auto

lemma io_keeps_finally [io_rules]: "io_keeps P m \<Longrightarrow> (\<And>s. P s \<Longrightarrow> P (f s)) \<Longrightarrow> io_keeps P (io_finally m f)"
  by (auto simp: io_keeps_def io_valid_def io_finally_def split: prod.splits sum.splits)

lemma io_keeps_map [io_rules]: "(\<And>x. io_keeps P (f x)) \<Longrightarrow> io_keeps P (io_map f xs)"
  by (induction xs) (auto intro!: io_rules)

lemma io_keeps_prod [io_rules]: "(\<And>a b. x = (a, b) \<Longrightarrow> io_keeps P (f a b)) \<Longrightarrow> io_keeps P (case x of (a, b) \<Rightarrow> f a b)"
  by (cases x) auto

end
