(* ===== verification/Nonce_Manager.thy ===== *)
theory Nonce_Manager
  imports Prelude
begin

text \<open>
  \<open>src/executors/nonceManager.ts\<close>: the local nonce allocator of the transaction executor.

  \<open>LocalNonceManager\<close> keeps one mutable state object per chain and account. A reservation first
  awaits the object's \<open>initialized\<close> promise, so other calls run between the look-up of the object
  and its use, and \<open>resync\<close> may replace the object in between. The model therefore has a heap of
  state objects (an object is its index) and a map from keys to objects. The pieces of code
  between two awaits are the definitions; \<open>nm_step\<close> interleaves them; \<open>reserve\<close> is the
  run in which nothing else happens between the look-up and the use.
\<close>

section \<open>State\<close>

datatype init_promise = InitPending | InitResolved | InitRejected exn

text \<open>The key is what the initialisation callbacks of \<open>createState\<close> close over.\<close>

record nonce_state =
  ns_key :: string
  ns_initialized :: init_promise
  ns_nextNonce :: "nat option"
  ns_released :: "nat list"
  ns_active :: "nat list"

record nonce_manager =
  nm_heap :: "nonce_state list"
  nm_states :: "(string, nat) jsmap"

record nonce_reservation =
  rv_chain :: string
  rv_account :: address
  rv_nonce :: nat

definition empty_manager :: nonce_manager where
  "empty_manager = \<lparr>nm_heap = [], nm_states = []\<rparr>"

definition nonceKey :: "string \<Rightarrow> address \<Rightarrow> string" where
  "nonceKey chain account = chain @ '':'' @ to_lower account"

section \<open>Operations\<close>

definition createState :: "string \<Rightarrow> nonce_manager \<Rightarrow> nat \<times> nonce_manager" where
  "createState key m =
     (let oid = length (nm_heap m);
          st = \<lparr>ns_key = key, ns_initialized = InitPending, ns_nextNonce = None,
                ns_released = [], ns_active = []\<rparr>
      in (oid, m\<lparr>nm_heap := nm_heap m @ [st], nm_states := js_set key oid (nm_states m)\<rparr>))"

text \<open>\<open>this.states.get(key) ?? this.createState(key, getPendingNonce)\<close>\<close>

definition reserve_lookup :: "string \<Rightarrow> nonce_manager \<Rightarrow> nat \<times> nonce_manager" where
  "reserve_lookup key m =
     (case js_get (nm_states m) key of Some oid \<Rightarrow> (oid, m) | None \<Rightarrow> createState key m)"

definition update_state :: "nat \<Rightarrow> (nonce_state \<Rightarrow> nonce_state) \<Rightarrow> nonce_manager \<Rightarrow> nonce_manager" where
  "update_state oid f m = m\<lparr>nm_heap := (nm_heap m)[oid := f (nm_heap m ! oid)]\<rparr>"

text \<open>
  How \<open>getPendingNonce\<close> ends: it resolves, and the object gets its first nonce, or it rejects, and
  the manager forgets the key the object was created for.
\<close>

fun settle_init :: "nat \<Rightarrow> exn + nat \<Rightarrow> nonce_manager \<Rightarrow> nonce_manager" where
  "settle_init oid (Inr nonce) m =
     update_state oid (\<lambda>st. st\<lparr>ns_nextNonce := Some nonce, ns_initialized := InitResolved\<rparr>) m"
| "settle_init oid (Inl e) m =
     update_state oid (\<lambda>st. st\<lparr>ns_initialized := InitRejected e\<rparr>)
       (m\<lparr>nm_states := js_delete (ns_key (nm_heap m ! oid)) (nm_states m)\<rparr>)"

text \<open>The part of \<open>reserve\<close> after the await.\<close>

definition take_nonce :: "nonce_state \<Rightarrow> (exn + nat) \<times> nonce_state" where
  "take_nonce st =
     (case ns_released st of
        released # rest \<Rightarrow>
          (Inr released, st\<lparr>ns_released := rest, ns_active := js_add released (ns_active st)\<rparr>)
      | [] \<Rightarrow>
          (case ns_nextNonce st of
             None \<Rightarrow> (Inl (Exn (''Nonce state was not initialized for '' @ ns_key st)), st)
           | Some nonce \<Rightarrow>
               (Inr nonce, st\<lparr>ns_nextNonce := Some (Suc nonce),
                              ns_active := js_add nonce (ns_active st)\<rparr>)))"

definition reserve_resume :: "nat \<Rightarrow> nonce_manager \<Rightarrow> (exn + nat) \<times> nonce_manager" where
  "reserve_resume oid m =
     (case ns_initialized (nm_heap m ! oid) of
        InitRejected e \<Rightarrow> (Inl e, m)
      | _ \<Rightarrow> (let (r, st) = take_nonce (nm_heap m ! oid) in (r, update_state oid (\<lambda>_. st) m)))"

definition settle_pending :: "nat \<Rightarrow> exn + nat \<Rightarrow> nonce_manager \<Rightarrow> nonce_manager" where
  "settle_pending oid pending m =
     (if ns_initialized (nm_heap m ! oid) = InitPending then settle_init oid pending m else m)"

text \<open>
  \<open>reserve\<close> with nothing in between: if the object still waits for its first nonce, \<open>pending\<close> is
  how that request ends.
\<close>

definition reserve ::
  "string \<Rightarrow> address \<Rightarrow> exn + nat \<Rightarrow> nonce_manager \<Rightarrow> (exn + nonce_reservation) \<times> nonce_manager" where
  "reserve chain account pending m =
     (let (oid, m1) = reserve_lookup (nonceKey chain account) m;
          (result, m2) = reserve_resume oid (settle_pending oid pending m1)
      in (map_sum id (\<lambda>nonce. \<lparr>rv_chain = chain, rv_account = account, rv_nonce = nonce\<rparr>) result, m2))"

definition give_back :: "nat \<Rightarrow> nonce_state \<Rightarrow> nonce_state" where
  "give_back nonce st =
     (if nonce \<in> set (ns_active st)
      then st\<lparr>ns_active := js_remove nonce (ns_active st),
              ns_released := sort (ns_released st @ [nonce])\<rparr>
      else st)"

definition release :: "nonce_reservation \<Rightarrow> nonce_manager \<Rightarrow> nonce_manager" where
  "release reservation m =
     (case js_get (nm_states m) (nonceKey (rv_chain reservation) (rv_account reservation)) of
        None \<Rightarrow> m
      | Some oid \<Rightarrow> update_state oid (give_back (rv_nonce reservation)) m)"

definition resync :: "string \<Rightarrow> address \<Rightarrow> nat \<Rightarrow> nonce_manager \<Rightarrow> nonce_manager" where
  "resync chain account nextNonce m =
     (let key = nonceKey chain account;
          st = \<lparr>ns_key = key, ns_initialized = InitResolved, ns_nextNonce = Some nextNonce,
                ns_released = [], ns_active = []\<rparr>
      in m\<lparr>nm_heap := nm_heap m @ [st],
           nm_states := js_set key (length (nm_heap m)) (nm_states m)\<rparr>)"

section \<open>The invariant of a state object\<close>

text \<open>
  The nonces an object has handed out since it was initialised are an interval that ends at
  \<open>nextNonce\<close>; each of them is either active or released, never both, and the released ones are
  kept in ascending order.
\<close>

definition ns_inv :: "nonce_state \<Rightarrow> bool" where
  "ns_inv st \<longleftrightarrow>
     sorted (ns_released st) \<and> distinct (ns_released st) \<and> distinct (ns_active st) \<and>
     set (ns_released st) \<inter> set (ns_active st) = {} \<and>
     (case ns_nextNonce st of
        None \<Rightarrow> ns_released st = [] \<and> ns_active st = [] \<and> ns_initialized st \<noteq> InitResolved
      | Some n \<Rightarrow> ns_initialized st = InitResolved \<and>
          (\<exists>b\<le>n. set (ns_released st) \<union> set (ns_active st) = {b..<n}))"

text \<open>The first nonce the object was given.\<close>

definition ns_base :: "nonce_state \<Rightarrow> nat" where
  "ns_base st =
     (case ns_nextNonce st of
        None \<Rightarrow> 0
      | Some n \<Rightarrow> n - (length (ns_released st) + length (ns_active st)))"

lemma ns_inv_nextD: "ns_inv st \<Longrightarrow> ns_nextNonce st = None \<Longrightarrow> ns_initialized st \<noteq> InitResolved"
  by (simp add: ns_inv_def)

lemma ns_inv_base:
  assumes "ns_inv st" and next_eq: "ns_nextNonce st = Some n"
  shows "ns_base st \<le> n \<and> set (ns_released st) \<union> set (ns_active st) = {ns_base st..<n}"
proof -
  from assms obtain b where b: "b \<le> n" "set (ns_released st) \<union> set (ns_active st) = {b..<n}"
    by (auto simp: ns_inv_def)
  have "length (ns_released st) + length (ns_active st) = card (set (ns_released st) \<union> set (ns_active st))"
    using assms(1) by (simp add: ns_inv_def distinct_card card_Un_disjoint)
  also have "\<dots> = n - b" using b by simp
  finally have "ns_base st = b" using b next_eq by (simp add: ns_base_def)
  with b show ?thesis by simp
qed

lemma ns_inv_fresh [wf_intros]:
  "ns_inv \<lparr>ns_key = k, ns_initialized = InitPending, ns_nextNonce = None, ns_released = [], ns_active = []\<rparr>"
  "ns_inv \<lparr>ns_key = k, ns_initialized = InitResolved, ns_nextNonce = Some n, ns_released = [], ns_active = []\<rparr>"
  by (auto simp: ns_inv_def)

lemma ns_inv_settled [wf_intros]:
  assumes "ns_inv st" and "ns_initialized st = InitPending"
  shows "ns_inv (st\<lparr>ns_nextNonce := Some n, ns_initialized := InitResolved\<rparr>)"
    and "ns_inv (st\<lparr>ns_initialized := InitRejected e\<rparr>)"
  using assms by (auto simp: ns_inv_def split: option.splits)

lemma ns_inv_take [wf_intros]:
  assumes "ns_inv st"
  shows "ns_inv (snd (take_nonce st))"
proof (cases "ns_released st")
  case (Cons r rest)
  with assms obtain n b where "ns_nextNonce st = Some n"
    and "b \<le> n" "insert r (set rest \<union> set (ns_active st)) = {b..<n}"
    by (auto simp: ns_inv_def split: option.splits)
  with assms Cons show ?thesis
    by (auto simp: take_nonce_def ns_inv_def intro!: exI [of _ b])
next
  case Nil
  show ?thesis
  proof (cases "ns_nextNonce st")
    case None
    with assms Nil show ?thesis by (simp add: take_nonce_def)
  next
    case (Some n)
    with assms Nil obtain b where "b \<le> n" "set (ns_active st) = {b..<n}"
      by (auto simp: ns_inv_def)
    with assms Nil Some show ?thesis
      by (auto simp: take_nonce_def ns_inv_def intro!: exI [of _ b])
  qed
qed

lemma ns_inv_give_back [wf_intros]:
  assumes "ns_inv st"
  shows "ns_inv (give_back nonce st)"
proof (cases "nonce \<in> set (ns_active st)")
  case True
  with assms obtain n b where "ns_nextNonce st = Some n" "b \<le> n"
    "set (ns_released st) \<union> set (ns_active st) = {b..<n}"
    by (auto simp: ns_inv_def split: option.splits)
  with assms True show ?thesis
    by (auto simp: give_back_def ns_inv_def distinct_insort intro!: exI [of _ b])
qed (use assms in \<open>simp add: give_back_def\<close>)

section \<open>What a reservation returns\<close>

lemma take_nonce_least_cons:
  assumes inv: "ns_inv st" and next_eq: "ns_nextNonce st = Some n"
    and rel: "ns_released st = r # rest"
  shows "r = (LEAST x. ns_base st \<le> x \<and> x \<notin> set (ns_active st))"
proof -
  note base = ns_inv_base [OF inv next_eq]
  from base rel have "r \<in> {ns_base st..<n}" by (metis UnI1 list.set_intros(1))
  moreover from inv rel have "r \<notin> set (ns_active st)" by (auto simp: ns_inv_def)
  ultimately have r: "ns_base st \<le> r" "r < n" "r \<notin> set (ns_active st)" by auto
  have "r \<le> x" if "ns_base st \<le> x \<and> x \<notin> set (ns_active st)" for x
  proof (cases "x < n")
    case True
    with that base have "x \<in> set (ns_released st)" by auto
    with inv rel show ?thesis by (auto simp: ns_inv_def)
  qed (use r in simp)
  with r show ?thesis by (intro Least_equality [symmetric]) auto
qed

lemma take_nonce_least_nil:
  assumes inv: "ns_inv st" and next_eq: "ns_nextNonce st = Some n" and rel: "ns_released st = []"
  shows "n = (LEAST x. ns_base st \<le> x \<and> x \<notin> set (ns_active st))"
proof -
  note base = ns_inv_base [OF inv next_eq]
  then have act: "set (ns_active st) = {ns_base st..<n}" using rel by simp
  have "n \<le> x" if "ns_base st \<le> x \<and> x \<notin> set (ns_active st)" for x
    using that act by auto
  with base act show ?thesis by (intro Least_equality [symmetric]) simp_all
qed

lemma take_nonce_cases:
  assumes inv: "ns_inv st" and next_eq: "ns_nextNonce st = Some n"
  obtains k st' where "take_nonce st = (Inr k, st')"
    "k = (LEAST x. ns_base st \<le> x \<and> x \<notin> set (ns_active st))"
    "k \<notin> set (ns_active st)" "ns_active st' = ns_active st @ [k]"
    "ns_base st' = ns_base st" "ns_key st' = ns_key st" "ns_initialized st' = ns_initialized st"
proof (cases "ns_released st")
  case (Cons r rest)
  with inv have fresh: "r \<notin> set (ns_active st)" by (auto simp: ns_inv_def)
  show ?thesis
  proof (rule that)
    show "take_nonce st = (Inr r, st\<lparr>ns_released := rest, ns_active := ns_active st @ [r]\<rparr>)"
      using Cons fresh by (simp add: take_nonce_def js_add_def)
    show "r = (LEAST x. ns_base st \<le> x \<and> x \<notin> set (ns_active st))"
      by (rule take_nonce_least_cons [OF inv next_eq Cons])
    show "ns_base (st\<lparr>ns_released := rest, ns_active := ns_active st @ [r]\<rparr>) = ns_base st"
      using Cons next_eq by (simp add: ns_base_def)
  qed (use fresh in simp_all)
next
  case Nil
  with ns_inv_base [OF inv next_eq] have fresh: "n \<notin> set (ns_active st)" by auto
  show ?thesis
  proof (rule that)
    show "take_nonce st = (Inr n, st\<lparr>ns_nextNonce := Some (Suc n), ns_active := ns_active st @ [n]\<rparr>)"
      using Nil next_eq fresh by (simp add: take_nonce_def js_add_def)
    show "n = (LEAST x. ns_base st \<le> x \<and> x \<notin> set (ns_active st))"
      by (rule take_nonce_least_nil [OF inv next_eq Nil])
    show "ns_base (st\<lparr>ns_nextNonce := Some (Suc n), ns_active := ns_active st @ [n]\<rparr>) = ns_base st"
      using Nil next_eq by (simp add: ns_base_def)
  qed (use fresh in simp_all)
qed

lemma take_nonce_frame:
  "ns_key (snd (take_nonce st)) = ns_key st" "ns_initialized (snd (take_nonce st)) = ns_initialized st"
  by (auto simp: take_nonce_def split: list.splits option.splits)

lemma give_back_frame [simp]:
  "ns_key (give_back k st) = ns_key st" "ns_initialized (give_back k st) = ns_initialized st"
  "ns_nextNonce (give_back k st) = ns_nextNonce st"
  by (auto simp: give_back_def)

lemma set_active_give_back [simp]: "set (ns_active (give_back k st)) = set (ns_active st) - {k}"
  by (auto simp: give_back_def)

section \<open>The invariant of the manager\<close>

text \<open>Every entry of \<open>states\<close> points to an object that was created for that key.\<close>

definition nm_inv :: "nonce_manager \<Rightarrow> bool" where
  "nm_inv m \<longleftrightarrow>
     (\<forall>key oid. js_get (nm_states m) key = Some oid \<longrightarrow>
        oid < length (nm_heap m) \<and> ns_key (nm_heap m ! oid) = key) \<and>
     (\<forall>oid<length (nm_heap m). ns_inv (nm_heap m ! oid))"

lemma nm_invD:
  assumes "nm_inv m"
  shows "js_get (nm_states m) key = Some oid \<Longrightarrow> oid < length (nm_heap m)"
    and "js_get (nm_states m) key = Some oid \<Longrightarrow> ns_key (nm_heap m ! oid) = key"
    and "oid < length (nm_heap m) \<Longrightarrow> ns_inv (nm_heap m ! oid)"
  using assms by (auto simp: nm_inv_def)

lemma nm_inv_empty [wf_intros]: "nm_inv empty_manager"
  by (simp add: nm_inv_def empty_manager_def)

lemma update_state_simps [simp]:
  "nm_states (update_state oid f m) = nm_states m"
  "length (nm_heap (update_state oid f m)) = length (nm_heap m)"
  "oid < length (nm_heap m) \<Longrightarrow>
     nm_heap (update_state oid f m) ! i = (if i = oid then f (nm_heap m ! oid) else nm_heap m ! i)"
  by (auto simp: update_state_def)

lemma nm_inv_update [wf_intros]:
  assumes "nm_inv m" "oid < length (nm_heap m)" "ns_key (f (nm_heap m ! oid)) = ns_key (nm_heap m ! oid)"
    and "ns_inv (f (nm_heap m ! oid))"
  shows "nm_inv (update_state oid f m)"
  using assms by (simp add: nm_inv_def)

lemma nm_inv_append:
  assumes "nm_inv m" "ns_inv st" "ns_key st = key"
  shows "nm_inv (m\<lparr>nm_heap := nm_heap m @ [st],
                   nm_states := js_set key (length (nm_heap m)) (nm_states m)\<rparr>)"
  using assms by (auto simp: nm_inv_def nth_append less_Suc_eq)

lemma nm_inv_lookup [wf_intros]:
  assumes "nm_inv m" "reserve_lookup key m = (oid, m')"
  shows "nm_inv m' \<and> oid < length (nm_heap m') \<and> js_get (nm_states m') key = Some oid"
proof (cases "js_get (nm_states m) key")
  case None
  with assms show ?thesis
    by (auto simp: reserve_lookup_def createState_def Let_def
        intro!: nm_inv_append ns_inv_fresh)
next
  case (Some i)
  with assms show ?thesis by (auto simp: reserve_lookup_def dest: nm_invD)
qed

lemma settle_init_frame [simp]:
  "length (nm_heap (settle_init oid result m)) = length (nm_heap m)"
  by (cases result) auto

lemma nm_inv_settle [wf_intros]:
  assumes "nm_inv m" "oid < length (nm_heap m)" "ns_initialized (nm_heap m ! oid) = InitPending"
  shows "nm_inv (settle_init oid result m)"
proof (cases result)
  case (Inr n)
  with assms show ?thesis by (auto intro!: nm_inv_update ns_inv_settled dest: nm_invD)
next
  case (Inl e)
  have "nm_inv (m\<lparr>nm_states := js_delete (ns_key (nm_heap m ! oid)) (nm_states m)\<rparr>)"
    using assms by (auto simp: nm_inv_def split: if_splits)
  with assms Inl show ?thesis by (auto intro!: nm_inv_update ns_inv_settled dest: nm_invD)
qed

lemma nm_inv_resume [wf_intros]:
  assumes "nm_inv m" "oid < length (nm_heap m)"
  shows "nm_inv (snd (reserve_resume oid m))"
  using assms take_nonce_frame [of "nm_heap m ! oid"] ns_inv_take [of "nm_heap m ! oid"]
  by (auto simp: reserve_resume_def split: init_promise.splits prod.splits
      intro!: nm_inv_update dest: nm_invD)

lemma nm_inv_release [wf_intros]: "nm_inv m \<Longrightarrow> nm_inv (release r m)"
  by (auto simp: release_def split: option.splits intro!: nm_inv_update ns_inv_give_back dest: nm_invD)

lemma nm_inv_resync [wf_intros]: "nm_inv m \<Longrightarrow> nm_inv (resync chain account n m)"
  by (auto simp: resync_def Let_def intro!: nm_inv_append ns_inv_fresh)

lemma nm_inv_reserve [wf_intros]:
  assumes "nm_inv m"
  shows "nm_inv (snd (reserve chain account pending m))"
proof -
  obtain oid m1 where l: "reserve_lookup (nonceKey chain account) m = (oid, m1)" by fastforce
  have "nm_inv m1" "oid < length (nm_heap m1)" using nm_inv_lookup [OF assms l] by auto
  then have "nm_inv (settle_pending oid pending m1)" "oid < length (nm_heap (settle_pending oid pending m1))"
    by (simp_all add: settle_pending_def nm_inv_settle)
  then have "nm_inv (snd (reserve_resume oid (settle_pending oid pending m1)))" by (rule nm_inv_resume)
  then show ?thesis by (simp add: reserve_def l case_prod_unfold Let_def)
qed

section \<open>Interleaving\<close>

text \<open>
  A system is the manager together with the reservations that have looked up their object and
  still await it. One step is one piece of code between two awaits: a call of \<open>reserve\<close> up to
  its await, the end of a \<open>getPendingNonce\<close> request, an awaiting reservation going on, a call of
  \<open>release\<close> with any reservation at all, or a call of \<open>resync\<close>.
\<close>

record nm_system =
  sys_manager :: nonce_manager
  sys_waiting :: "(nat \<times> string \<times> address) list"

definition init_system :: nm_system where
  "init_system = \<lparr>sys_manager = empty_manager, sys_waiting = []\<rparr>"

datatype nm_event =
    Lookup string address
  | Settle nat "exn + nat"
  | Resume nat string address "exn + nat"
  | Release nonce_reservation
  | Resync string address nat

inductive nm_step :: "nm_system \<Rightarrow> nm_event \<Rightarrow> nm_system \<Rightarrow> bool" where
  lookup: "reserve_lookup (nonceKey chain account) m = (oid, m') \<Longrightarrow>
     nm_step \<lparr>sys_manager = m, sys_waiting = w\<rparr> (Lookup chain account)
       \<lparr>sys_manager = m', sys_waiting = w @ [(oid, chain, account)]\<rparr>"
| settle: "oid < length (nm_heap m) \<Longrightarrow> ns_initialized (nm_heap m ! oid) = InitPending \<Longrightarrow>
     nm_step \<lparr>sys_manager = m, sys_waiting = w\<rparr> (Settle oid result)
       \<lparr>sys_manager = settle_init oid result m, sys_waiting = w\<rparr>"
| resume: "(oid, chain, account) \<in> set w \<Longrightarrow> ns_initialized (nm_heap m ! oid) \<noteq> InitPending \<Longrightarrow>
     reserve_resume oid m = (result, m') \<Longrightarrow>
     nm_step \<lparr>sys_manager = m, sys_waiting = w\<rparr> (Resume oid chain account result)
       \<lparr>sys_manager = m', sys_waiting = remove1 (oid, chain, account) w\<rparr>"
| release: "nm_step \<lparr>sys_manager = m, sys_waiting = w\<rparr> (Release r)
       \<lparr>sys_manager = release r m, sys_waiting = w\<rparr>"
| resync: "nm_step \<lparr>sys_manager = m, sys_waiting = w\<rparr> (Resync chain account n)
       \<lparr>sys_manager = resync chain account n m, sys_waiting = w\<rparr>"

inductive_cases nm_step_resumeE: "nm_step s (Resume oid chain account result) s'"

inductive nm_reachable :: "nm_system \<Rightarrow> bool" where
  init: "nm_reachable init_system"
| step: "nm_reachable s \<Longrightarrow> nm_step s e s' \<Longrightarrow> nm_reachable s'"

definition sys_inv :: "nm_system \<Rightarrow> bool" where
  "sys_inv s \<longleftrightarrow> nm_inv (sys_manager s) \<and>
     (\<forall>(oid, c, a) \<in> set (sys_waiting s). oid < length (nm_heap (sys_manager s)))"

lemma length_heap_mono:
  "reserve_lookup key m = (oid, m') \<Longrightarrow> length (nm_heap m) \<le> length (nm_heap m')"
  "length (nm_heap (snd (reserve_resume oid2 m))) = length (nm_heap m)"
  "length (nm_heap (release r m)) = length (nm_heap m)"
  "length (nm_heap m) \<le> length (nm_heap (resync c a n m))"
  by (auto simp: reserve_lookup_def createState_def Let_def reserve_resume_def release_def resync_def
      split: option.splits init_promise.splits prod.splits)

lemma sys_inv_step: "nm_step s e s' \<Longrightarrow> sys_inv s \<Longrightarrow> sys_inv s'"
proof (induction rule: nm_step.induct)
  case (lookup chain account m oid m' w)
  then show ?case
    using nm_inv_lookup [OF _ lookup(1)] length_heap_mono(1) [OF lookup(1)]
    by (fastforce simp: sys_inv_def)
next
  case (settle oid m w result)
  then show ?case by (simp add: sys_inv_def nm_inv_settle)
next
  case (resume oid chain account w m result m')
  then have "nm_inv m'" "length (nm_heap m') = length (nm_heap m)"
    using nm_inv_resume [of m oid] length_heap_mono(2) [of oid m] by (fastforce simp: sys_inv_def)+
  with resume show ?case by (auto simp: sys_inv_def dest: set_remove1_subset [THEN subsetD])
next
  case (release m w r)
  then show ?case by (simp add: sys_inv_def nm_inv_release length_heap_mono)
next
  case (resync m w chain account n)
  then show ?case
    using length_heap_mono(4) [of m chain account n] by (fastforce simp: sys_inv_def nm_inv_resync)
qed

lemma sys_inv_reachable: "nm_reachable s \<Longrightarrow> sys_inv s"
proof (induction rule: nm_reachable.induct)
  case init
  show ?case by (simp add: init_system_def sys_inv_def nm_inv_empty)
next
  case (step s e s')
  then show ?case by (blast intro: sys_inv_step)
qed


section \<open>The contract the executor relies on\<close>

text \<open>The nonces of a chain and account that are handed out and not yet given back.\<close>

definition outstanding :: "nonce_manager \<Rightarrow> string \<Rightarrow> nat set" where
  "outstanding m key =
     (case js_get (nm_states m) key of
        None \<Rightarrow> {} | Some oid \<Rightarrow> set (ns_active (nm_heap m ! oid)))"

locale nonce_provider =
  fixes reserve_op :: "string \<Rightarrow> address \<Rightarrow> exn + nat \<Rightarrow> 's \<Rightarrow> (exn + nonce_reservation) \<times> 's"
    and release_op :: "nonce_reservation \<Rightarrow> 's \<Rightarrow> 's"
    and resync_op :: "string \<Rightarrow> address \<Rightarrow> nat \<Rightarrow> 's \<Rightarrow> 's"
    and out :: "'s \<Rightarrow> string \<Rightarrow> nat set"
    and inv :: "'s \<Rightarrow> bool"
  assumes reserve_ok: "inv s \<Longrightarrow> reserve_op c a p s = (Inr r, s') \<Longrightarrow>
      inv s' \<and> rv_chain r = c \<and> rv_account r = a \<and> rv_nonce r \<notin> out s (nonceKey c a) \<and>
      out s' = (out s)(nonceKey c a := insert (rv_nonce r) (out s (nonceKey c a)))"
    and reserve_fail: "inv s \<Longrightarrow> reserve_op c a p s = (Inl e, s') \<Longrightarrow> inv s' \<and> out s' = out s"
    and release_out: "inv s \<Longrightarrow> inv (release_op r s) \<and>
      out (release_op r s) = (out s)(nonceKey (rv_chain r) (rv_account r) :=
        out s (nonceKey (rv_chain r) (rv_account r)) - {rv_nonce r})"
    and resync_out: "inv s \<Longrightarrow> inv (resync_op c a n s) \<and> out (resync_op c a n s) = (out s)(nonceKey c a := {})"
begin

text \<open>A reservation that is given back leaves no trace.\<close>

lemma reserve_release:
  assumes "inv s" "reserve_op c a p s = (Inr r, s')"
  shows "out (release_op r s') = out s" "inv (release_op r s')"
  using reserve_ok [OF assms] release_out [of s' r] by auto

lemma release_inv: "inv s \<Longrightarrow> inv (release_op r s)"
  using release_out by blast

end

lemma outstanding_update:
  assumes "nm_inv m" "js_get (nm_states m) key = Some oid"
  shows "outstanding (update_state oid f m) = (outstanding m)(key := set (ns_active (f (nm_heap m ! oid))))"
proof
  fix key'
  show "outstanding (update_state oid f m) key' =
      ((outstanding m)(key := set (ns_active (f (nm_heap m ! oid))))) key'"
  proof (cases "js_get (nm_states m) key'")
    case None
    with assms show ?thesis by (auto simp: outstanding_def)
  next
    case (Some oid')
    have "oid < length (nm_heap m)" using nm_invD(1) assms by blast
    moreover have "oid' = oid \<Longrightarrow> key' = key" using nm_invD(2) assms Some by metis
    ultimately show ?thesis using assms Some by (auto simp: outstanding_def)
  qed
qed

lemma outstanding_append [simp]:
  assumes "nm_inv m"
  shows "outstanding (m\<lparr>nm_heap := nm_heap m @ [st],
      nm_states := js_set key (length (nm_heap m)) (nm_states m)\<rparr>) = (outstanding m)(key := set (ns_active st))"
proof
  fix key'
  show "outstanding (m\<lparr>nm_heap := nm_heap m @ [st],
      nm_states := js_set key (length (nm_heap m)) (nm_states m)\<rparr>) key' =
      ((outstanding m)(key := set (ns_active st))) key'"
    using nm_invD(1) [OF assms, of key']
    by (auto simp: outstanding_def nth_append split: option.splits)
qed

lemma outstanding_lookup:
  assumes "nm_inv m" "reserve_lookup key m = (oid, m1)"
  shows "outstanding m1 = outstanding m"
  using assms by (auto simp: reserve_lookup_def createState_def Let_def split: option.splits)
    (simp add: outstanding_def fun_upd_idem)

lemma settle_pending_spec:
  assumes inv: "nm_inv m" and key: "js_get (nm_states m) key = Some oid"
    and eq: "m2 = settle_pending oid p m"
  shows "nm_inv m2" "outstanding m2 = outstanding m" "oid < length (nm_heap m2)"
    and "ns_initialized (nm_heap m2 ! oid) = InitResolved \<Longrightarrow> js_get (nm_states m2) key = Some oid"
    and "ns_initialized (nm_heap m2 ! oid) \<noteq> InitPending"
proof -
  have oid: "oid < length (nm_heap m)" "ns_key (nm_heap m ! oid) = key" "ns_inv (nm_heap m ! oid)"
    using nm_invD [OF inv] key by auto
  show "nm_inv m2" "oid < length (nm_heap m2)"
    using inv oid(1) eq by (auto simp: settle_pending_def intro: nm_inv_settle)
  show "ns_initialized (nm_heap m2 ! oid) = InitResolved \<Longrightarrow> js_get (nm_states m2) key = Some oid"
    using key eq oid(1) by (cases p) (auto simp: settle_pending_def split: if_splits)
  show "ns_initialized (nm_heap m2 ! oid) \<noteq> InitPending"
    using eq oid(1) by (cases p) (auto simp: settle_pending_def)
  show "outstanding m2 = outstanding m"
  proof (cases "ns_initialized (nm_heap m ! oid) = InitPending")
    case True
    then have none: "ns_active (nm_heap m ! oid) = []"
      using oid(3) by (auto simp: ns_inv_def split: option.splits)
    show ?thesis
    proof (cases p)
      case (Inr n)
      then show ?thesis
        using True eq none key by (simp add: settle_pending_def outstanding_update [OF inv key])
          (simp add: outstanding_def fun_upd_idem)
    next
      case (Inl e)
      have "ns_active (nm_heap m2 ! i) = ns_active (nm_heap m ! i)" for i
        using Inl True eq oid(1) by (simp add: settle_pending_def update_state_def nth_list_update)
      moreover have "nm_states m2 = js_delete key (nm_states m)"
        using Inl True eq oid(2) by (simp add: settle_pending_def)
      ultimately show ?thesis
        using key none by (intro ext) (simp add: outstanding_def split: option.splits)
    qed
  qed (simp add: eq settle_pending_def)
qed


text \<open>A resumed reservation takes a nonce that was not out, or fails and takes none.\<close>

lemma reserve_resume_spec:
  assumes inv: "nm_inv m" and oid: "oid < length (nm_heap m)"
    and npend: "ns_initialized (nm_heap m ! oid) \<noteq> InitPending"
    and resume: "reserve_resume oid m = (result, m')"
  shows "case result of
      Inl e \<Rightarrow> m' = m \<and> ns_initialized (nm_heap m ! oid) = InitRejected e
    | Inr k \<Rightarrow> ns_initialized (nm_heap m ! oid) = InitResolved \<and>
        k \<notin> set (ns_active (nm_heap m ! oid)) \<and>
        (\<exists>st. m' = update_state oid (\<lambda>_. st) m \<and> set (ns_active st) = insert k (set (ns_active (nm_heap m ! oid))))"
proof (cases "ns_initialized (nm_heap m ! oid)")
  case InitResolved
  then obtain n where n: "ns_nextNonce (nm_heap m ! oid) = Some n"
    using nm_invD(3) [OF inv oid] ns_inv_nextD by blast
  obtain k st where take: "take_nonce (nm_heap m ! oid) = (Inr k, st)"
    "k \<notin> set (ns_active (nm_heap m ! oid))" "ns_active st = ns_active (nm_heap m ! oid) @ [k]"
    using take_nonce_cases [OF nm_invD(3) [OF inv oid] n] by metis
  have "result = Inr k" "m' = update_state oid (\<lambda>_. st) m"
    using resume InitResolved take(1) by (simp_all add: reserve_resume_def)
  then show ?thesis using take(2,3) InitResolved by auto
qed (use npend resume in \<open>auto simp: reserve_resume_def\<close>)

lemma reserve_spec:
  assumes inv: "nm_inv m" and res: "reserve c a p m = (result, m')"
  shows "case result of
      Inl e \<Rightarrow> outstanding m' = outstanding m
    | Inr r \<Rightarrow> rv_chain r = c \<and> rv_account r = a \<and> rv_nonce r \<notin> outstanding m (nonceKey c a) \<and>
        outstanding m' = (outstanding m)(nonceKey c a := insert (rv_nonce r) (outstanding m (nonceKey c a)))"
proof -
  obtain oid m1 where l: "reserve_lookup (nonceKey c a) m = (oid, m1)" by fastforce
  note m1 = nm_inv_lookup [OF inv l] outstanding_lookup [OF inv l]
  define m2 where "m2 = settle_pending oid p m1"
  note m2 = settle_pending_spec [OF conjunct1 [OF m1(1)] _ m2_def, of "nonceKey c a"]
  obtain r m3 where r: "reserve_resume oid m2 = (r, m3)" by fastforce
  have res_eq: "result = map_sum id (\<lambda>n. \<lparr>rv_chain = c, rv_account = a, rv_nonce = n\<rparr>) r" "m' = m3"
    using res by (simp_all add: reserve_def l m2_def [symmetric] r)
  have key: "js_get (nm_states m1) (nonceKey c a) = Some oid" using m1 by blast
  note spec = reserve_resume_spec [OF m2(1) [OF key] m2(3) [OF key] m2(5) [OF key] r]
  show ?thesis
  proof (cases r)
    case (Inl e)
    with spec m1 m2(2) [OF key] show ?thesis by (simp add: res_eq)
  next
    case (Inr k)
    with spec m2(4) [OF key] have key2: "js_get (nm_states m2) (nonceKey c a) = Some oid" by simp
    have "outstanding m2 (nonceKey c a) = set (ns_active (nm_heap m2 ! oid))"
      using key2 by (simp add: outstanding_def)
    with Inr spec m1(2) m2(2) [OF key] outstanding_update [OF m2(1) [OF key] key2] show ?thesis
      by (auto simp: res_eq)
  qed
qed

interpretation nonces: nonce_provider reserve release resync outstanding nm_inv
proof unfold_locales
  fix s c a p r s'
  assume "nm_inv s" "reserve c a p s = (Inr r, s')"
  then show "nm_inv s' \<and> rv_chain r = c \<and> rv_account r = a \<and> rv_nonce r \<notin> outstanding s (nonceKey c a) \<and>
      outstanding s' = (outstanding s)(nonceKey c a := insert (rv_nonce r) (outstanding s (nonceKey c a)))"
    using nm_inv_reserve [of s c a p] reserve_spec [of s c a p "Inr r" s'] by simp
next
  fix s c a p e s'
  assume "nm_inv s" "reserve c a p s = (Inl e, s')"
  then show "nm_inv s' \<and> outstanding s' = outstanding s"
    using nm_inv_reserve [of s c a p] reserve_spec [of s c a p "Inl e" s'] by simp
next
  fix s r
  assume "nm_inv s"
  then show "nm_inv (release r s) \<and> outstanding (release r s) =
      (outstanding s)(nonceKey (rv_chain r) (rv_account r) :=
        outstanding s (nonceKey (rv_chain r) (rv_account r)) - {rv_nonce r})"
    by (cases "js_get (nm_states s) (nonceKey (rv_chain r) (rv_account r))")
      (simp_all add: nm_inv_release, simp_all add: release_def outstanding_update,
       simp_all add: outstanding_def fun_upd_idem)
next
  fix s c a n
  assume "nm_inv s"
  then show "nm_inv (resync c a n s) \<and> outstanding (resync c a n s) = (outstanding s)(nonceKey c a := {})"
    by (simp add: nm_inv_resync) (simp add: resync_def Let_def)
qed

section \<open>Properties\<close>

text \<open>In every reachable state of the manager, whatever the interleaving of reservations,
  releases, resyncs and the ends of \<open>getPendingNonce\<close>, every initialised state object has handed
  out exactly the nonces from its first one up to \<open>nextNonce\<close>, each of them either active or
  released, never both: the local nonce sequence has no gap and no double use.\<close>

theorem nonce_no_gap:
  assumes "nm_reachable s" and "oid < length (nm_heap (sys_manager s))"
    and "ns_nextNonce (nm_heap (sys_manager s) ! oid) = Some n"
  shows "\<exists>b\<le>n. set (ns_released (nm_heap (sys_manager s) ! oid)) \<union> set (ns_active (nm_heap (sys_manager s) ! oid)) = {b..<n}
      \<and> set (ns_released (nm_heap (sys_manager s) ! oid)) \<inter> set (ns_active (nm_heap (sys_manager s) ! oid)) = {}
      \<and> sorted (ns_released (nm_heap (sys_manager s) ! oid))"
proof -
  from assms have "ns_inv (nm_heap (sys_manager s) ! oid)"
    using sys_inv_reachable by (auto simp: sys_inv_def dest: nm_invD)
  with assms(3) show ?thesis by (auto simp: ns_inv_def)
qed

text \<open>A first run of the system, for the witnesses: one reservation that waits, then gets nonce 7.\<close>

definition waiting_sys :: nm_system where
  "waiting_sys = \<lparr>sys_manager = settle_init 0 (Inr 7) (snd (createState (nonceKey ''base'' ''0xA'') empty_manager)),
     sys_waiting = [(0, ''base'', ''0xA'')]\<rparr>"

definition granted_sys :: nm_system where
  "granted_sys = \<lparr>sys_manager = snd (reserve_resume 0 (sys_manager waiting_sys)), sys_waiting = []\<rparr>"

lemma reachable_waiting_sys: "nm_reachable waiting_sys"
proof -
  let ?m = "snd (createState (nonceKey ''base'' ''0xA'') empty_manager)"
  have "nm_step init_system (Lookup ''base'' ''0xA'') \<lparr>sys_manager = ?m, sys_waiting = [(0, ''base'', ''0xA'')]\<rparr>"
    using nm_step.lookup [of "''base''" "''0xA''" empty_manager 0 ?m "[]"]
    by (simp add: init_system_def reserve_lookup_def empty_manager_def createState_def)
  then have "nm_reachable \<lparr>sys_manager = ?m, sys_waiting = [(0, ''base'', ''0xA'')]\<rparr>"
    by (rule nm_reachable.step [OF nm_reachable.init])
  moreover have "nm_step \<lparr>sys_manager = ?m, sys_waiting = [(0, ''base'', ''0xA'')]\<rparr> (Settle 0 (Inr 7)) waiting_sys"
    unfolding waiting_sys_def
    by (rule nm_step.settle) (simp_all add: createState_def empty_manager_def)
  ultimately show ?thesis by (rule nm_reachable.step)
qed

lemma step_granted_sys: "nm_step waiting_sys (Resume 0 ''base'' ''0xA'' (Inr 7)) granted_sys"
proof -
  have "fst (reserve_resume 0 (sys_manager waiting_sys)) = Inr 7" by code_simp
  moreover have "ns_initialized (nm_heap (sys_manager waiting_sys) ! 0) \<noteq> InitPending" by code_simp
  ultimately show ?thesis
    using nm_step.resume [of 0 "''base''" "''0xA''" "sys_waiting waiting_sys" "sys_manager waiting_sys" "Inr 7"
        "sys_manager granted_sys"]
    by (simp add: granted_sys_def prod_eq_iff) (simp add: waiting_sys_def)
qed

theorem nonce_no_gap_witness:
  "nm_reachable granted_sys \<and> ns_nextNonce (nm_heap (sys_manager granted_sys) ! 0) = Some 8 \<and>
   (\<exists>b\<le>8. set (ns_released (nm_heap (sys_manager granted_sys) ! 0)) \<union>
      set (ns_active (nm_heap (sys_manager granted_sys) ! 0)) = {b..<8})"
proof -
  have r: "nm_reachable granted_sys"
    by (rule nm_reachable.step [OF reachable_waiting_sys step_granted_sys])
  have l: "0 < length (nm_heap (sys_manager granted_sys))" by code_simp
  have n: "ns_nextNonce (nm_heap (sys_manager granted_sys) ! 0) = Some 8" by code_simp
  show ?thesis using r n nonce_no_gap [OF r l n] by blast
qed

text \<open>A reservation that goes on after its await gets the smallest nonce, from the first one
  the object was given, that is not active: a released nonce is used again before a new one.\<close>

theorem nonce_grant_least:
  assumes "nm_reachable s" and "nm_step s (Resume oid chain account (Inr k)) s'"
  shows "k = (LEAST x. ns_base (nm_heap (sys_manager s) ! oid) \<le> x \<and> x \<notin> set (ns_active (nm_heap (sys_manager s) ! oid)))
    \<and> set (ns_active (nm_heap (sys_manager s') ! oid)) = insert k (set (ns_active (nm_heap (sys_manager s) ! oid)))"
proof -
  obtain m w m' where s: "sys_manager s = m" "sys_waiting s = w" "sys_manager s' = m'"
    and w: "(oid, chain, account) \<in> set w" and np: "ns_initialized (nm_heap m ! oid) \<noteq> InitPending"
    and res: "reserve_resume oid m = (Inr k, m')"
    using assms(2) by (elim nm_step_resumeE) auto
  have inv: "nm_inv m" "oid < length (nm_heap m)"
    using sys_inv_reachable [OF assms(1)] s w by (auto simp: sys_inv_def)
  then have ns: "ns_inv (nm_heap m ! oid)" by (blast dest: nm_invD)
  from reserve_resume_spec [OF inv np res] have ready: "ns_initialized (nm_heap m ! oid) = InitResolved" by simp
  with ns obtain n where n: "ns_nextNonce (nm_heap m ! oid) = Some n" using ns_inv_nextD by blast
  obtain k' st' where take: "take_nonce (nm_heap m ! oid) = (Inr k', st')"
    "k' = (LEAST x. ns_base (nm_heap m ! oid) \<le> x \<and> x \<notin> set (ns_active (nm_heap m ! oid)))"
    "ns_active st' = ns_active (nm_heap m ! oid) @ [k']"
    by (rule take_nonce_cases [OF ns n])
  have k: "k = k'" and m': "m' = update_state oid (\<lambda>_. st') m"
    using res ready take(1) by (simp_all add: reserve_resume_def)
  have "set (ns_active (nm_heap m' ! oid)) = insert k (set (ns_active (nm_heap m ! oid)))"
    unfolding k m' using inv(2) take(3) by simp
  then show ?thesis unfolding s k by (intro conjI take(2))
qed

theorem nonce_grant_least_witness:
  "7 = (LEAST x. ns_base (nm_heap (sys_manager waiting_sys) ! 0) \<le> x \<and>
     x \<notin> set (ns_active (nm_heap (sys_manager waiting_sys) ! 0)))"
  using nonce_grant_least [OF reachable_waiting_sys step_granted_sys] by blast

text \<open>Giving a reservation back undoes it: the nonces out are what they were before, for every
  chain and account.\<close>

theorem nonce_reserve_release:
  assumes "nm_inv m" and "reserve chain account pending m = (Inr r, m')"
  shows "outstanding (release r m') = outstanding m"
  by (rule nonces.reserve_release [OF assms])

theorem nonce_reserve_release_witness:
  "outstanding (release \<lparr>rv_chain = ''base'', rv_account = ''0xA'', rv_nonce = 5\<rparr>
     (snd (reserve ''base'' ''0xA'' (Inr 5) empty_manager))) = outstanding empty_manager"
proof -
  have "fst (reserve ''base'' ''0xA'' (Inr 5) empty_manager) = Inr \<lparr>rv_chain = ''base'', rv_account = ''0xA'', rv_nonce = 5\<rparr>"
    by code_simp
  then have "reserve ''base'' ''0xA'' (Inr 5) empty_manager =
      (Inr \<lparr>rv_chain = ''base'', rv_account = ''0xA'', rv_nonce = 5\<rparr>, snd (reserve ''base'' ''0xA'' (Inr 5) empty_manager))"
    by (metis prod.collapse)
  then show ?thesis by (rule nonce_reserve_release [OF nm_inv_empty])
qed

definition resync_race :: "nonce_manager \<Rightarrow> (exn + nonce_reservation) list" where
  "resync_race m0 =
     (let (r1, m1) = reserve ''base'' ''0xA'' (Inr 5) m0;
          (r2, m2) = reserve ''base'' ''0xA'' (Inr 5) m1;
          (r3, m3) = reserve ''base'' ''0xA'' (Inr 5) (resync ''base'' ''0xA'' 5 m2);
          (r4, m4) = reserve ''base'' ''0xA'' (Inr 5) m3
      in [r1, r2, r3, r4])"

text \<open>\<open>resync\<close> forgets the reservations in flight. Two executions of one account hold nonces 5
  and 6, the first fails to send and resyncs to the chain's pending nonce 5: the second of the next
  two reservations gets 6 again, which the other execution still holds.\<close>

theorem nonce_resync_duplicates:
  "map (map_sum id rv_nonce) (resync_race empty_manager) = [Inr 5, Inr 6, Inr 5, Inr 6]"
  by code_simp

end
