(* ===== verification/Asset_Math.thy ===== *)
theory Asset_Math
  imports Complex_Main Prelude
begin

text \<open>
  \<open>src/utils/typedAssetMath.ts\<close>: amounts of typed assets. Every operation checks that its
  operands are of one asset and that no amount goes below zero, and throws otherwise; a thrown error
  is \<open>Inl\<close>. The schema of an asset (non-empty symbol, 0 to 36 decimals) is the test in
  \<open>createAsset\<close>. The minimum margin is a JavaScript number, hence a rational here; the code refuses
  it unless it is a non-negative integer.
\<close>

record asset =
  as_symbol :: string
  as_decimals :: int

record asset_amount =
  am_asset :: asset
  am_raw :: int

record net_profit_input =
  np_revenue :: asset_amount
  np_debt :: asset_amount
  np_gas :: asset_amount
  np_flashLoanFee :: asset_amount
  np_swapCost :: asset_amount
  np_slippageBuffer :: "asset_amount option"
  np_safetyBuffer :: "asset_amount option"

definition createAsset :: "asset \<Rightarrow> exn + asset" where
  "createAsset a =
     (if as_symbol a \<noteq> [] \<and> 0 \<le> as_decimals a \<and> as_decimals a \<le> 36 then Inr a
      else Inl (Exn ''ZodError''))"

definition createAssetAmount :: "asset \<Rightarrow> int \<Rightarrow> exn + asset_amount" where
  "createAssetAmount a raw =
     (if raw < 0 then Inl (Exn ''Asset amount cannot be negative'')
      else (case createAsset a of Inl e \<Rightarrow> Inl e | Inr a' \<Rightarrow> Inr \<lparr>am_asset = a', am_raw = raw\<rparr>))"

definition assertSameAsset :: "asset_amount \<Rightarrow> asset_amount \<Rightarrow> exn + unit" where
  "assertSameAsset left right =
     (if as_symbol (am_asset left) \<noteq> as_symbol (am_asset right) \<or>
         as_decimals (am_asset left) \<noteq> as_decimals (am_asset right)
      then Inl (Exn (''Asset mismatch: '' @ as_symbol (am_asset left) @ '' != '' @ as_symbol (am_asset right)))
      else Inr ())"

text \<open>A negative exponent of a \<open>bigint\<close> power throws.\<close>

definition convertToQuote :: "asset_amount \<Rightarrow> asset_amount \<Rightarrow> exn + asset_amount" where
  "convertToQuote amount pricePerWholeToken =
     (if as_decimals (am_asset amount) < 0 then Inl (Exn ''RangeError'')
      else createAssetAmount (am_asset pricePerWholeToken)
             (bdiv (am_raw amount * am_raw pricePerWholeToken) (10 ^ nat (as_decimals (am_asset amount)))))"

fun addAssetAmounts :: "asset_amount \<Rightarrow> asset_amount list \<Rightarrow> exn + asset_amount" where
  "addAssetAmounts acc [] = Inr acc"
| "addAssetAmounts acc (amount # rest) =
     (case assertSameAsset acc amount of
        Inl e \<Rightarrow> Inl e
      | Inr _ \<Rightarrow>
          (case createAssetAmount (am_asset acc) (am_raw acc + am_raw amount) of
             Inl e \<Rightarrow> Inl e
           | Inr acc' \<Rightarrow> addAssetAmounts acc' rest))"

definition subtractAssetAmounts :: "asset_amount \<Rightarrow> asset_amount \<Rightarrow> exn + asset_amount" where
  "subtractAssetAmounts left right =
     (case assertSameAsset left right of
        Inl e \<Rightarrow> Inl e
      | Inr _ \<Rightarrow>
          (if am_raw left < am_raw right then Inl (Exn ''Asset subtraction would be negative'')
           else createAssetAmount (am_asset left) (am_raw left - am_raw right)))"

text \<open>\<open>buffer ?? createAssetAmount(debt.asset, 0n)\<close>\<close>

definition or_zero :: "asset \<Rightarrow> asset_amount option \<Rightarrow> exn + asset_amount" where
  "or_zero a buffer = (case buffer of Some b \<Rightarrow> Inr b | None \<Rightarrow> createAssetAmount a 0)"

definition calculateNetProfit :: "net_profit_input \<Rightarrow> exn + asset_amount" where
  "calculateNetProfit i =
     (case or_zero (am_asset (np_debt i)) (np_slippageBuffer i) of
        Inl e \<Rightarrow> Inl e
      | Inr slippage \<Rightarrow>
          (case or_zero (am_asset (np_debt i)) (np_safetyBuffer i) of
             Inl e \<Rightarrow> Inl e
           | Inr safety \<Rightarrow>
               (case addAssetAmounts (np_debt i) [np_gas i, np_flashLoanFee i, np_swapCost i, slippage, safety] of
                  Inl e \<Rightarrow> Inl e
                | Inr costs \<Rightarrow> subtractAssetAmounts (np_revenue i) costs)))"

definition calculateMarginBps :: "asset_amount \<Rightarrow> asset_amount \<Rightarrow> exn + int" where
  "calculateMarginBps netProfit capitalAtRisk =
     (case assertSameAsset netProfit capitalAtRisk of
        Inl e \<Rightarrow> Inl e
      | Inr _ \<Rightarrow>
          (if am_raw capitalAtRisk = 0 then Inr 0
           else Inr (bdiv (am_raw netProfit * BPS) (am_raw capitalAtRisk))))"

definition meetsMinimumProfitMargin :: "asset_amount \<Rightarrow> asset_amount \<Rightarrow> rat \<Rightarrow> exn + bool" where
  "meetsMinimumProfitMargin netProfit capitalAtRisk minimumMarginBps =
     (case assertSameAsset netProfit capitalAtRisk of
        Inl e \<Rightarrow> Inl e
      | Inr _ \<Rightarrow>
          (if minimumMarginBps < 0 \<or> of_int \<lfloor>minimumMarginBps\<rfloor> \<noteq> minimumMarginBps
           then Inl (Exn ''minimumMarginBps must be a non-negative integer'')
           else if am_raw capitalAtRisk = 0 then Inr False
           else Inr (am_raw capitalAtRisk * \<lfloor>minimumMarginBps\<rfloor> \<le> am_raw netProfit * BPS)))"

section \<open>Lemmas\<close>

text \<open>What the schema accepts, and amounts that were made by \<open>createAssetAmount\<close>.\<close>

definition amount_ok :: "asset_amount \<Rightarrow> bool" where
  "amount_ok a \<longleftrightarrow> 0 \<le> am_raw a \<and> createAsset (am_asset a) = Inr (am_asset a)"

lemma createAsset_Inr: "createAsset a = Inr a' \<Longrightarrow> a' = a"
  by (auto simp: createAsset_def split: if_splits)

lemma createAssetAmount_Inr_iff:
  "createAssetAmount a raw = Inr x \<longleftrightarrow> 0 \<le> raw \<and> createAsset a = Inr a \<and> x = \<lparr>am_asset = a, am_raw = raw\<rparr>"
  by (auto simp: createAssetAmount_def dest: createAsset_Inr split: sum.splits)

lemma createAssetAmount_amount_ok [wf_intros]: "createAssetAmount a raw = Inr x \<Longrightarrow> amount_ok x"
  by (auto simp: createAssetAmount_Inr_iff amount_ok_def)

lemma assertSameAsset_iff: "assertSameAsset x y = Inr u \<longleftrightarrow> am_asset x = am_asset y"
  by (cases "am_asset x"; cases "am_asset y") (auto simp: assertSameAsset_def)

lemma addAssetAmounts_Inr_iff:
  assumes "amount_ok s" "\<forall>a \<in> set as. 0 \<le> am_raw a"
  shows "addAssetAmounts s as = Inr x \<longleftrightarrow>
    (\<forall>a \<in> set as. am_asset a = am_asset s) \<and>
    x = s\<lparr>am_raw := am_raw s + sum_list (map am_raw as)\<rparr>"
  using assms
proof (induction as arbitrary: s)
  case (Cons a as)
  show ?case
  proof (cases "am_asset a = am_asset s")
    case True
    let ?s = "\<lparr>am_asset = am_asset s, am_raw = am_raw s + am_raw a\<rparr>"
    have ok: "amount_ok ?s" using Cons.prems by (simp add: amount_ok_def)
    have "createAssetAmount (am_asset s) (am_raw s + am_raw a) = Inr ?s"
      using Cons.prems by (simp add: createAssetAmount_Inr_iff amount_ok_def)
    moreover have "assertSameAsset s a = Inr ()" using True by (simp add: assertSameAsset_iff)
    ultimately show ?thesis
      using Cons.IH [OF ok] Cons.prems True by (cases s) (auto simp: add.assoc)
  next
    case False
    then have "assertSameAsset s a \<noteq> Inr u" for u by (simp add: assertSameAsset_iff)
    then show ?thesis using False by (cases "assertSameAsset s a") auto
  qed
qed auto

lemma subtractAssetAmounts_Inr_iff:
  assumes "amount_ok l"
  shows "subtractAssetAmounts l r = Inr x \<longleftrightarrow>
    am_asset r = am_asset l \<and> am_raw r \<le> am_raw l \<and> x = l\<lparr>am_raw := am_raw l - am_raw r\<rparr>"
proof (cases "assertSameAsset l r")
  case (Inl e)
  then have "am_asset r \<noteq> am_asset l" using assertSameAsset_iff [of l r "()"] by auto
  with Inl show ?thesis by (simp add: subtractAssetAmounts_def)
next
  case (Inr u)
  then have "am_asset r = am_asset l" using assertSameAsset_iff [of l r u] by auto
  with Inr assms show ?thesis
    by (cases l) (auto simp: subtractAssetAmounts_def createAssetAmount_Inr_iff amount_ok_def)
qed

text \<open>The costs of a trade, and the assets they are in.\<close>

definition np_costs :: "net_profit_input \<Rightarrow> asset_amount list" where
  "np_costs i = [np_debt i, np_gas i, np_flashLoanFee i, np_swapCost i] @
     (case np_slippageBuffer i of None \<Rightarrow> [] | Some a \<Rightarrow> [a]) @
     (case np_safetyBuffer i of None \<Rightarrow> [] | Some a \<Rightarrow> [a])"

lemma net_profit_iff:
  assumes "amount_ok (np_revenue i)" and "\<forall>a \<in> set (np_costs i). amount_ok a"
  shows "calculateNetProfit i = Inr p \<longleftrightarrow>
    (\<forall>a \<in> set (np_costs i). am_asset a = am_asset (np_revenue i)) \<and>
    sum_list (map am_raw (np_costs i)) \<le> am_raw (np_revenue i) \<and>
    p = (np_revenue i)\<lparr>am_raw := am_raw (np_revenue i) - sum_list (map am_raw (np_costs i))\<rparr>"
proof -
  have debt: "amount_ok (np_debt i)" using assms(2) by (simp add: np_costs_def)
  then have zero: "createAssetAmount (am_asset (np_debt i)) 0 = Inr \<lparr>am_asset = am_asset (np_debt i), am_raw = 0\<rparr>"
    by (simp add: createAssetAmount_Inr_iff amount_ok_def)
  define sl where "sl = (case np_slippageBuffer i of None \<Rightarrow> \<lparr>am_asset = am_asset (np_debt i), am_raw = 0\<rparr> | Some a \<Rightarrow> a)"
  define sf where "sf = (case np_safetyBuffer i of None \<Rightarrow> \<lparr>am_asset = am_asset (np_debt i), am_raw = 0\<rparr> | Some a \<Rightarrow> a)"
  define rest where "rest = [np_gas i, np_flashLoanFee i, np_swapCost i, sl, sf]"
  have nonneg: "\<forall>a \<in> set rest. 0 \<le> am_raw a"
    using assms(2) by (auto simp: rest_def np_costs_def amount_ok_def sl_def sf_def split: option.splits)
  have calc: "calculateNetProfit i =
      (case addAssetAmounts (np_debt i) rest of Inl e \<Rightarrow> Inl e | Inr c \<Rightarrow> subtractAssetAmounts (np_revenue i) c)"
    by (simp only: rest_def) (simp add: calculateNetProfit_def or_zero_def zero sl_def sf_def split: option.splits)
  have raw: "sum_list (map am_raw (np_costs i)) = am_raw (np_debt i) + sum_list (map am_raw rest)"
    by (simp add: rest_def np_costs_def sl_def sf_def split: option.splits)
  have assets: "(\<forall>a \<in> set (np_costs i). am_asset a = A) \<longleftrightarrow>
      am_asset (np_debt i) = A \<and> (\<forall>a \<in> set rest. am_asset a = am_asset (np_debt i))" for A
    by (auto simp: rest_def np_costs_def sl_def sf_def split: option.splits)
  note add_iff = addAssetAmounts_Inr_iff [OF debt nonneg]
  show ?thesis
  proof (cases "addAssetAmounts (np_debt i) rest")
    case (Inl e)
    then have "\<not> (\<forall>a \<in> set rest. am_asset a = am_asset (np_debt i))"
      using add_iff [of "(np_debt i)\<lparr>am_raw := am_raw (np_debt i) + sum_list (map am_raw rest)\<rparr>"] by auto
    then show ?thesis using Inl calc assets [of "am_asset (np_revenue i)"] by auto
  next
    case (Inr c)
    then have c: "\<forall>a \<in> set rest. am_asset a = am_asset (np_debt i)"
      "am_asset c = am_asset (np_debt i)" "am_raw c = am_raw (np_debt i) + sum_list (map am_raw rest)"
      using add_iff [of c] by auto
    then show ?thesis
      using Inr calc assets [of "am_asset (np_revenue i)"] raw subtractAssetAmounts_Inr_iff [OF assms(1), of c p]
      by auto
  qed
qed

section \<open>Properties\<close>

text \<open>The net profit is computed exactly when every amount is of one asset and the costs do not
  exceed the revenue, and then it is the revenue less the sum of all costs; in every other case an
  error is thrown. Missing buffers count as zero.\<close>

theorem net_profit_correct:
  assumes "amount_ok (np_revenue i)" and "\<forall>a \<in> set (np_costs i). amount_ok a"
  shows "calculateNetProfit i = Inr p \<longleftrightarrow>
    (\<forall>a \<in> set (np_costs i). am_asset a = am_asset (np_revenue i)) \<and>
    sum_list (map am_raw (np_costs i)) \<le> am_raw (np_revenue i) \<and>
    p = (np_revenue i)\<lparr>am_raw := am_raw (np_revenue i) - sum_list (map am_raw (np_costs i))\<rparr>"
  by (rule net_profit_iff [OF assms])

definition usdc :: asset where
  "usdc = \<lparr>as_symbol = ''USDC'', as_decimals = 6\<rparr>"

definition usdc_amount :: "int \<Rightarrow> asset_amount" where
  "usdc_amount raw = \<lparr>am_asset = usdc, am_raw = raw\<rparr>"

lemma usdc_amount_ok: "0 \<le> raw \<Longrightarrow> amount_ok (usdc_amount raw)"
  by (simp add: amount_ok_def usdc_amount_def usdc_def createAsset_def)

lemma usdc_amount_simps [simp]:
  "am_asset (usdc_amount raw) = usdc" "am_raw (usdc_amount raw) = raw"
  "usdc_amount raw\<lparr>am_raw := r\<rparr> = usdc_amount r"
  by (simp_all add: usdc_amount_def)

definition sample_trade :: net_profit_input where
  "sample_trade = \<lparr>np_revenue = usdc_amount 1000, np_debt = usdc_amount 900, np_gas = usdc_amount 10,
     np_flashLoanFee = usdc_amount 5, np_swapCost = usdc_amount 20, np_slippageBuffer = Some (usdc_amount 1),
     np_safetyBuffer = None\<rparr>"

theorem net_profit_correct_witness: "calculateNetProfit sample_trade = Inr (usdc_amount 64)"
proof -
  have "amount_ok (np_revenue sample_trade)" "\<forall>a \<in> set (np_costs sample_trade). amount_ok a"
    by (simp_all add: sample_trade_def np_costs_def usdc_amount_ok)
  note iff = net_profit_correct [OF this, of "usdc_amount 64"]
  show ?thesis unfolding iff by (simp add: sample_trade_def np_costs_def)
qed

lemma le_div_iff:
  fixes a c m :: int
  assumes "0 < c"
  shows "c * m \<le> a \<longleftrightarrow> m \<le> a div c"
proof
  assume "c * m \<le> a"
  then have "(c * m) div c \<le> a div c" using assms by (rule zdiv_mono1)
  then show "m \<le> a div c" using assms by simp
next
  assume "m \<le> a div c"
  then have "c * m \<le> c * (a div c)" using assms by simp
  also have "\<dots> \<le> a" using assms by (metis Euclidean_Rings.pos_mod_sign diff_ge_0_iff_ge minus_mult_div_eq_mod)
  finally show "c * m \<le> a" .
qed

text \<open>The margin test, which multiplies across, agrees with the margin the code reports, which
  divides and rounds: the test passes exactly if the reported basis points reach the minimum.\<close>

theorem margin_test_agrees:
  assumes "calculateMarginBps netProfit capital = Inr m" and "0 \<le> am_raw netProfit" and "0 < am_raw capital"
    and "0 \<le> minimum"
  shows "meetsMinimumProfitMargin netProfit capital (of_int minimum) = Inr (minimum \<le> m)"
proof -
  have same: "assertSameAsset netProfit capital = Inr ()" and m: "m = bdiv (am_raw netProfit * BPS) (am_raw capital)"
    using assms(1,3) by (auto simp: calculateMarginBps_def split: sum.splits)
  have "am_raw capital * minimum \<le> am_raw netProfit * BPS \<longleftrightarrow> minimum \<le> m"
    using assms(2,3) by (simp add: m bdiv_nonneg_eq BPS_def le_div_iff)
  then show ?thesis using assms(3,4) same by (simp add: meetsMinimumProfitMargin_def)
qed

theorem margin_test_agrees_witness:
  "meetsMinimumProfitMargin (usdc_amount 64) (usdc_amount 900) (of_int 50) = Inr (50 \<le> (711::int))"
proof -
  have "calculateMarginBps (usdc_amount 64) (usdc_amount 900) = Inr 711"
    by (simp add: calculateMarginBps_def assertSameAsset_def bdiv_def BPS_def)
  from margin_test_agrees [OF this, of 50] show ?thesis by simp
qed

lemma div_add_split:
  fixes a b s :: int
  assumes "0 < s"
  shows "a div s + b div s \<le> (a + b) div s \<and> (a + b) div s \<le> a div s + b div s + 1"
proof -
  have "(a + b) div s = a div s + b div s + (a mod s + b mod s) div s" by (rule div_add1_eq)
  moreover have m: "0 \<le> a mod s" "0 \<le> b mod s" "a mod s < s" "b mod s < s" using assms by simp_all
  have "0 \<le> (a mod s + b mod s) div s" using m assms by (simp add: pos_imp_zdiv_nonneg_iff)
  moreover have "\<not> s * 2 \<le> a mod s + b mod s" using m by linarith
  ultimately show ?thesis using le_div_iff [OF assms, of 2 "a mod s + b mod s"] by auto
qed

text \<open>Converting to the quote asset never gains by splitting: the value of two parts, each rounded
  down, is at most the value of the whole, and by at most one unit less.\<close>

theorem convert_split_loss:
  assumes "convertToQuote \<lparr>am_asset = a, am_raw = x\<rparr> price = Inr vx"
    and "convertToQuote \<lparr>am_asset = a, am_raw = y\<rparr> price = Inr vy"
    and "convertToQuote \<lparr>am_asset = a, am_raw = x + y\<rparr> price = Inr v"
    and "0 \<le> x" and "0 \<le> y" and "0 \<le> am_raw price"
  shows "am_raw vx + am_raw vy \<le> am_raw v \<and> am_raw v \<le> am_raw vx + am_raw vy + 1"
proof -
  let ?s = "10 ^ nat (as_decimals a) :: int" and ?p = "am_raw price"
  have val: "am_raw w = (z * ?p) div ?s"
    if "convertToQuote \<lparr>am_asset = a, am_raw = z\<rparr> price = Inr w" "0 \<le> z" for z w
    using that assms(6)
    by (auto simp: convertToQuote_def createAssetAmount_Inr_iff bdiv_nonneg_eq split: if_splits)
  have pos: "0 < ?s" by simp
  note div_add_split [OF pos, of "x * ?p" "y * ?p"]
  then show ?thesis
    using val [OF assms(1,4)] val [OF assms(2,5)] val [OF assms(3)] assms(4,5) by (simp add: distrib_right)
qed

theorem convert_split_loss_witness:
  "am_raw (usdc_amount 1) + am_raw (usdc_amount 1) \<le> am_raw (usdc_amount 3)"
proof -
  have "convertToQuote \<lparr>am_asset = usdc, am_raw = 1500000\<rparr> (usdc_amount 1) = Inr (usdc_amount 1)"
    "convertToQuote \<lparr>am_asset = usdc, am_raw = 1500000 + 1500000\<rparr> (usdc_amount 1) = Inr (usdc_amount 3)"
    by (simp_all add: convertToQuote_def usdc_def usdc_amount_def createAssetAmount_def createAsset_def bdiv_def)
  from convert_split_loss [OF this(1) this(1) this(2)] show ?thesis by simp
qed

end
