(* ===== verification/Chain_Registry.thy ===== *)
theory Chain_Registry
  imports Prelude
begin

text \<open>
  \<open>src/config/chainRegistry.ts\<close>: the registry of the chains the bot runs on, with the circuit
  breaker states every stage of the pipeline consults, and the two breakers that trip:
  \<open>src/executors/simFailureCircuitBreaker.ts\<close>, which opens the execution breaker of a chain after
  repeated failed final simulations, and \<open>src/monitors/rescanCircuitBreaker.ts\<close>, which sheds
  watchlist rescans. The schema validation of the input (zod) is not modelled: the input is what it
  returns. The static configuration of a chain (\<open>getChainConfig\<close>) is an argument.
\<close>

section \<open>Data\<close>

datatype flash_provider = AaveV3 | Balancer | UniswapV3

datatype breaker_name = BreakerRpc | BreakerSubgraph | BreakerExecution

datatype breaker_status = Closed | Open | HalfOpen

record breaker_state =
  cb_status :: breaker_status
  cb_failures :: nat
  cb_openedAtMs :: "int option"

record circuit_breakers =
  cbs_rpc :: breaker_state
  cbs_subgraph :: breaker_state
  cbs_execution :: breaker_state

record gas_profile =
  gp_gasLimit :: int
  gp_updatedAtMs :: int

record aave_addresses =
  aa_pool :: address
  aa_poolAddressesProvider :: address
  aa_uiPoolDataProvider :: address

text \<open>The optional members of \<open>ChainRuntimeInput\<close>.\<close>

record detection_input =
  di_wsPrimary :: "string option"
  di_wsSecondary :: "string option"
  di_wsTertiary :: "string option"
  di_flashblocksEnabled :: "bool option"

record execution_input =
  ei_httpPrimary :: "string option"
  ei_fallbacks :: "string list option"

record sequencer_input =
  si_uptimeFeed :: "string option"
  si_directRpc :: "string option"

record resolved_aave_input =
  ra_pool :: "address option"
  ra_poolAddressesProvider :: "address option"
  ra_uiPoolDataProvider :: "address option"

record chain_runtime_input =
  ci_chain :: string
  ci_rpcUrl :: string
  ci_fallbackRpcUrls :: "string list"
  ci_wsRpcUrl :: "string option"
  ci_detection :: "detection_input option"
  ci_execution :: "execution_input option"
  ci_sequencer :: "sequencer_input option"
  ci_resolvedAave :: "resolved_aave_input option"
  ci_aaveSubgraphUrl :: string
  ci_flashLoanProviders :: "flash_provider list option"
  ci_protocolHooks :: "(string \<times> string) list option"

record registered_chain =
  rc_name :: string
  rc_aave :: aave_addresses
  rc_primaryUrl :: string
  rc_fallbackUrls :: "string list"
  rc_wsUrl :: "string option"
  rc_wsPrimary :: "string option"
  rc_wsSecondary :: "string option"
  rc_wsTertiary :: "string option"
  rc_flashblocksEnabled :: bool
  rc_httpPrimary :: string
  rc_executionFallbacks :: "string list"
  rc_uptimeFeed :: "string option"
  rc_directRpc :: "string option"
  rc_aaveSubgraphUrl :: string
  rc_flashLoanProviders :: "flash_provider list"
  rc_protocolHooks :: "(string \<times> string) list"
  rc_gasProfileCache :: "(string, gas_profile) jsmap"
  rc_circuitBreakers :: circuit_breakers

type_synonym registry = "(string, registered_chain) jsmap"

section \<open>Creation\<close>

definition closed_breaker :: breaker_state where
  "closed_breaker = \<lparr>cb_status = Closed, cb_failures = 0, cb_openedAtMs = None\<rparr>"

definition default_breakers :: circuit_breakers where
  "default_breakers = \<lparr>cbs_rpc = closed_breaker, cbs_subgraph = closed_breaker, cbs_execution = closed_breaker\<rparr>"

text \<open>\<open>a ?? b\<close>\<close>

definition or_else :: "'a option \<Rightarrow> 'a \<Rightarrow> 'a" where
  "or_else x y = (case x of Some v \<Rightarrow> v | None \<Rightarrow> y)"

definition createRegisteredChain :: "(string \<Rightarrow> aave_addresses) \<Rightarrow> chain_runtime_input \<Rightarrow> registered_chain" where
  "createRegisteredChain getChainConfig input =
     (let base = getChainConfig (ci_chain input);
          primaryWs = (case Option.bind (ci_detection input) di_wsPrimary of Some w \<Rightarrow> Some w | None \<Rightarrow> ci_wsRpcUrl input)
      in \<lparr>rc_name = ci_chain input,
          rc_aave = \<lparr>aa_pool = or_else (Option.bind (ci_resolvedAave input) ra_pool) (aa_pool base),
                     aa_poolAddressesProvider = or_else (Option.bind (ci_resolvedAave input) ra_poolAddressesProvider) (aa_poolAddressesProvider base),
                     aa_uiPoolDataProvider = or_else (Option.bind (ci_resolvedAave input) ra_uiPoolDataProvider) (aa_uiPoolDataProvider base)\<rparr>,
          rc_primaryUrl = ci_rpcUrl input,
          rc_fallbackUrls = ci_fallbackRpcUrls input,
          rc_wsUrl = ci_wsRpcUrl input,
          rc_wsPrimary = primaryWs,
          rc_wsSecondary = Option.bind (ci_detection input) di_wsSecondary,
          rc_wsTertiary = Option.bind (ci_detection input) di_wsTertiary,
          rc_flashblocksEnabled = or_else (Option.bind (ci_detection input) di_flashblocksEnabled) False,
          rc_httpPrimary = or_else (Option.bind (ci_execution input) ei_httpPrimary) (ci_rpcUrl input),
          rc_executionFallbacks = or_else (Option.bind (ci_execution input) ei_fallbacks) (ci_fallbackRpcUrls input),
          rc_uptimeFeed = Option.bind (ci_sequencer input) si_uptimeFeed,
          rc_directRpc = Option.bind (ci_sequencer input) si_directRpc,
          rc_aaveSubgraphUrl = ci_aaveSubgraphUrl input,
          rc_flashLoanProviders = or_else (ci_flashLoanProviders input) [AaveV3],
          rc_protocolHooks = or_else (ci_protocolHooks input) [],
          rc_gasProfileCache = [],
          rc_circuitBreakers = default_breakers\<rparr>)"

fun register_chains :: "(string \<Rightarrow> aave_addresses) \<Rightarrow> chain_runtime_input list \<Rightarrow> registry \<Rightarrow> exn + registry" where
  "register_chains cfg [] entries = Inr entries"
| "register_chains cfg (input # rest) entries =
     (if js_has entries (ci_chain input)
      then Inl (Exn (''Duplicate chain registry entry: '' @ ci_chain input))
      else register_chains cfg rest (js_set (ci_chain input) (createRegisteredChain cfg input) entries))"

definition createChainRegistry :: "(string \<Rightarrow> aave_addresses) \<Rightarrow> chain_runtime_input list \<Rightarrow> exn + registry" where
  "createChainRegistry cfg inputs = register_chains cfg inputs []"

section \<open>Operations\<close>

definition registry_listChains :: "registry \<Rightarrow> string list" where
  "registry_listChains r = js_keys r"

definition registry_get :: "registry \<Rightarrow> string \<Rightarrow> exn + registered_chain" where
  "registry_get r chain =
     (case js_get r chain of
        None \<Rightarrow> Inl (Exn (''Chain is not registered: '' @ chain))
      | Some entry \<Rightarrow> Inr entry)"

definition registry_getResolvedAave :: "registry \<Rightarrow> string \<Rightarrow> exn + aave_addresses" where
  "registry_getResolvedAave r chain = map_sum id rc_aave (registry_get r chain)"

fun breaker :: "breaker_name \<Rightarrow> circuit_breakers \<Rightarrow> breaker_state" where
  "breaker BreakerRpc b = cbs_rpc b"
| "breaker BreakerSubgraph b = cbs_subgraph b"
| "breaker BreakerExecution b = cbs_execution b"

fun set_breaker :: "breaker_name \<Rightarrow> breaker_state \<Rightarrow> circuit_breakers \<Rightarrow> circuit_breakers" where
  "set_breaker BreakerRpc s b = b\<lparr>cbs_rpc := s\<rparr>"
| "set_breaker BreakerSubgraph s b = b\<lparr>cbs_subgraph := s\<rparr>"
| "set_breaker BreakerExecution s b = b\<lparr>cbs_execution := s\<rparr>"

definition updateCircuitBreakerState ::
  "registered_chain \<Rightarrow> breaker_name \<Rightarrow> breaker_state \<Rightarrow> registered_chain" where
  "updateCircuitBreakerState chain name state =
     chain\<lparr>rc_circuitBreakers := set_breaker name state (rc_circuitBreakers chain)\<rparr>"

definition registry_setCircuitBreakerState ::
  "registry \<Rightarrow> string \<Rightarrow> breaker_name \<Rightarrow> breaker_state \<Rightarrow> exn + registry" where
  "registry_setCircuitBreakerState r chain name state =
     (case registry_get r chain of
        Inl e \<Rightarrow> Inl e
      | Inr entry \<Rightarrow> Inr (js_set chain (updateCircuitBreakerState entry name state) r))"

lemma breaker_set [simp]: "breaker n (set_breaker n' s b) = (if n = n' then s else breaker n b)"
  by (cases n; cases n') auto

lemma registry_get_iff [simp]: "registry_get r c = Inr e \<longleftrightarrow> js_get r c = Some e"
  by (auto simp: registry_get_def split: option.splits)

lemma register_chains_keys:
  "register_chains cfg inputs entries = Inr r \<Longrightarrow>
   js_keys r = js_keys entries @ map ci_chain inputs \<and> distinct (map ci_chain inputs) \<and>
   set (map ci_chain inputs) \<inter> set (js_keys entries) = {}"
proof (induction inputs arbitrary: entries)
  case (Cons i rest)
  then have new: "js_get entries (ci_chain i) = None"
    by (auto simp: js_has_iff split: if_splits)
  with Cons.prems Cons.IH [of "js_set (ci_chain i) (createRegisteredChain cfg i) entries"] show ?case
    by (auto simp: js_has_iff js_keys_set_eq js_get_None_iff)
qed simp

lemma register_chains_get:
  "register_chains cfg inputs entries = Inr r \<Longrightarrow>
   js_get r c = (case find (\<lambda>i. ci_chain i = c) inputs of
      None \<Rightarrow> js_get entries c | Some i \<Rightarrow> Some (createRegisteredChain cfg i))"
proof (induction inputs arbitrary: entries)
  case (Cons i rest)
  let ?entries = "js_set (ci_chain i) (createRegisteredChain cfg i) entries"
  from Cons.prems have reg: "register_chains cfg rest ?entries = Inr r" by (auto split: if_splits)
  show ?case
  proof (cases "ci_chain i = c")
    case True
    have "ci_chain i \<notin> ci_chain ` set rest"
      using register_chains_keys [OF reg] by (auto simp: js_keys_set)
    with True have "find (\<lambda>i. ci_chain i = c) rest = None" by (auto simp: find_None_iff) (metis image_eqI)
    with True Cons.IH [OF reg] show ?thesis by simp
  next
    case False
    with Cons.IH [OF reg] show ?thesis by (simp split: option.splits)
  qed
qed simp

text \<open>A registry lists the chains of its input in order, once each, and every one of them
  starts with all three breakers closed and an empty gas cache.\<close>

theorem registry_created:
  assumes "createChainRegistry cfg inputs = Inr r"
  shows "registry_listChains r = map ci_chain inputs \<and> distinct (registry_listChains r) \<and>
    (\<forall>c \<in> set (registry_listChains r). \<exists>e. registry_get r c = Inr e \<and> rc_name e = c \<and>
       rc_gasProfileCache e = [] \<and> (\<forall>n. cb_status (breaker n (rc_circuitBreakers e)) = Closed))"
proof -
  from assms have reg: "register_chains cfg inputs [] = Inr r" by (simp add: createChainRegistry_def)
  have keys: "registry_listChains r = map ci_chain inputs" "distinct (map ci_chain inputs)"
    using register_chains_keys [OF reg] by (simp_all add: registry_listChains_def js_keys_def)
  have "\<exists>e. registry_get r c = Inr e \<and> rc_name e = c \<and>
       rc_gasProfileCache e = [] \<and> (\<forall>n. cb_status (breaker n (rc_circuitBreakers e)) = Closed)"
    if "c \<in> set (map ci_chain inputs)" for c
  proof -
    from that obtain i where i: "find (\<lambda>i. ci_chain i = c) inputs = Some i"
      by (cases "find (\<lambda>i. ci_chain i = c) inputs") (auto simp: find_None_iff)
    then have "ci_chain i = c" by (auto simp: find_Some_iff)
    moreover have "cb_status (breaker n default_breakers) = Closed" for n
      by (cases n) (simp_all add: default_breakers_def closed_breaker_def)
    ultimately show ?thesis
      using register_chains_get [OF reg, of c] i
      by (simp add: createRegisteredChain_def Let_def)
  qed
  with keys show ?thesis by simp
qed


text \<open>A one-chain input, for witnesses here and in the components that use the registry.\<close>

definition base_input :: chain_runtime_input where
  "base_input = \<lparr>ci_chain = ''base'', ci_rpcUrl = ''http://rpc'', ci_fallbackRpcUrls = [], ci_wsRpcUrl = None,
     ci_detection = None, ci_execution = None, ci_sequencer = None, ci_resolvedAave = None,
     ci_aaveSubgraphUrl = ''http://graph'', ci_flashLoanProviders = Some [AaveV3, Balancer], ci_protocolHooks = None\<rparr>"

definition zero_aave :: "string \<Rightarrow> aave_addresses" where
  "zero_aave _ = \<lparr>aa_pool = ''0x0'', aa_poolAddressesProvider = ''0x0'', aa_uiPoolDataProvider = ''0x0''\<rparr>"

definition base_registry :: registry where
  "base_registry = [(''base'', createRegisteredChain zero_aave base_input)]"

lemma base_registry_created: "createChainRegistry zero_aave [base_input] = Inr base_registry"
  by (simp add: createChainRegistry_def base_registry_def js_has_iff js_set_def base_input_def)

theorem registry_created_witness:
  "registry_listChains base_registry = [''base''] \<and> distinct (registry_listChains base_registry)"
  using registry_created [OF base_registry_created] by (simp add: base_input_def)

section \<open>The contract of the registry\<close>

locale breaker_registry =
  fixes get_op :: "'r \<Rightarrow> string \<Rightarrow> exn + registered_chain"
    and set_op :: "'r \<Rightarrow> string \<Rightarrow> breaker_name \<Rightarrow> breaker_state \<Rightarrow> exn + 'r"
    and list_op :: "'r \<Rightarrow> string list"
  assumes set_known: "get_op r c = Inr e \<Longrightarrow>
      \<exists>r'. set_op r c n s = Inr r' \<and> get_op r' c = Inr (updateCircuitBreakerState e n s) \<and>
        (\<forall>c'. c' \<noteq> c \<longrightarrow> get_op r' c' = get_op r c') \<and> list_op r' = list_op r"
    and set_unknown: "get_op r c = Inl x \<Longrightarrow> set_op r c n s = Inl x"

interpretation reg: breaker_registry registry_get registry_setCircuitBreakerState registry_listChains
proof unfold_locales
  fix r c e n s
  assume "registry_get r c = Inr e"
  then show "\<exists>r'. registry_setCircuitBreakerState r c n s = Inr r' \<and>
      registry_get r' c = Inr (updateCircuitBreakerState e n s) \<and>
      (\<forall>c'. c' \<noteq> c \<longrightarrow> registry_get r' c' = registry_get r c') \<and>
      registry_listChains r' = registry_listChains r"
    by (simp add: registry_setCircuitBreakerState_def registry_get_def registry_listChains_def
        js_keys_set_eq js_has_iff split: option.splits)
next
  fix r c x n s
  assume "registry_get r c = Inl x"
  then show "registry_setCircuitBreakerState r c n s = Inl x"
    by (simp add: registry_setCircuitBreakerState_def)
qed

section \<open>SimFailureCircuitBreaker\<close>

text \<open>
  The breaker counts failed final simulations. Its registry is the interface it is given, so the
  operations take the registry's look-up and update. The timer is the time it will fire at. The
  \<open>onOpen\<close> callback and the logger are not modelled.
\<close>

record sim_breaker =
  sb_consecutive :: nat
  sb_reopenAtMs :: "int option"

definition sb_new :: sim_breaker where
  "sb_new = \<lparr>sb_consecutive = 0, sb_reopenAtMs = None\<rparr>"

definition sim_openCircuit ::
  "('r \<Rightarrow> string \<Rightarrow> exn + registered_chain) \<Rightarrow> ('r \<Rightarrow> string \<Rightarrow> breaker_name \<Rightarrow> breaker_state \<Rightarrow> exn + 'r) \<Rightarrow>
   string \<Rightarrow> int option \<Rightarrow> int \<Rightarrow> sim_breaker \<Rightarrow> 'r \<Rightarrow> (exn + unit) \<times> sim_breaker \<times> 'r" where
  "sim_openCircuit get_op set_op chain openMs now b r =
     (case get_op r chain of
        Inl e \<Rightarrow> (Inl e, b, r)
      | Inr c \<Rightarrow>
          (case set_op r chain BreakerExecution
                  \<lparr>cb_status = Open, cb_failures = cb_failures (cbs_execution (rc_circuitBreakers c)) + 1,
                   cb_openedAtMs = Some now\<rparr> of
             Inl e \<Rightarrow> (Inl e, b, r)
           | Inr r' \<Rightarrow> (Inr (), b\<lparr>sb_reopenAtMs := Some (now + or_else openMs 60000)\<rparr>, r')))"

definition sim_recordSimFailure ::
  "('r \<Rightarrow> string \<Rightarrow> exn + registered_chain) \<Rightarrow> ('r \<Rightarrow> string \<Rightarrow> breaker_name \<Rightarrow> breaker_state \<Rightarrow> exn + 'r) \<Rightarrow>
   string \<Rightarrow> nat option \<Rightarrow> int option \<Rightarrow> int \<Rightarrow> string \<Rightarrow> sim_breaker \<Rightarrow> 'r \<Rightarrow>
   (exn + unit) \<times> sim_breaker \<times> 'r" where
  "sim_recordSimFailure get_op set_op chain threshold openMs now reason b r =
     (if reason \<noteq> ''final_simulation_failed'' then (Inr (), b, r)
      else (let b' = b\<lparr>sb_consecutive := sb_consecutive b + 1\<rparr> in
            if sb_consecutive b' < or_else threshold 3 then (Inr (), b', r)
            else sim_openCircuit get_op set_op chain openMs now b' r))"

definition sim_recordSuccess :: "sim_breaker \<Rightarrow> sim_breaker" where
  "sim_recordSuccess b = b\<lparr>sb_consecutive := 0\<rparr>"

text \<open>The callback of the timer that \<open>openCircuit\<close> starts.\<close>

definition sim_reopen ::
  "('r \<Rightarrow> string \<Rightarrow> breaker_name \<Rightarrow> breaker_state \<Rightarrow> exn + 'r) \<Rightarrow> string \<Rightarrow> sim_breaker \<Rightarrow> 'r \<Rightarrow>
   (exn + unit) \<times> sim_breaker \<times> 'r" where
  "sim_reopen set_op chain b r =
     (let b' = b\<lparr>sb_reopenAtMs := None\<rparr> in
      case set_op r chain BreakerExecution closed_breaker of
        Inl e \<Rightarrow> (Inl e, b', r)
      | Inr r' \<Rightarrow> (Inr (), b'\<lparr>sb_consecutive := 0\<rparr>, r'))"

datatype sim_event = SimFailure string int | SimSuccess | SimTimer

definition sim_step ::
  "('r \<Rightarrow> string \<Rightarrow> exn + registered_chain) \<Rightarrow> ('r \<Rightarrow> string \<Rightarrow> breaker_name \<Rightarrow> breaker_state \<Rightarrow> exn + 'r) \<Rightarrow>
   string \<Rightarrow> nat option \<Rightarrow> int option \<Rightarrow> sim_event \<Rightarrow> sim_breaker \<times> 'r \<Rightarrow> sim_breaker \<times> 'r" where
  "sim_step get_op set_op chain threshold openMs ev = (\<lambda>(b, r).
     case ev of
       SimFailure reason now \<Rightarrow> snd (sim_recordSimFailure get_op set_op chain threshold openMs now reason b r)
     | SimSuccess \<Rightarrow> (sim_recordSuccess b, r)
     | SimTimer \<Rightarrow> (if sb_reopenAtMs b = None then (b, r) else snd (sim_reopen set_op chain b r)))"

definition exec_status :: "('r \<Rightarrow> string \<Rightarrow> exn + registered_chain) \<Rightarrow> 'r \<Rightarrow> string \<Rightarrow> breaker_status option" where
  "exec_status get_op r chain =
     (case get_op r chain of Inl _ \<Rightarrow> None | Inr c \<Rightarrow> Some (cb_status (cbs_execution (rc_circuitBreakers c))))"

definition final_failures :: "int list \<Rightarrow> sim_event list" where
  "final_failures ts = map (SimFailure ''final_simulation_failed'') ts"

context breaker_registry begin

text \<open>Below the threshold nothing but the counter moves; at the threshold the execution breaker
  opens and the timer is set.\<close>

lemma failure_below:
  "sb_consecutive b + 1 < or_else threshold 3 \<Longrightarrow>
   sim_step get_op set_op c threshold openMs (SimFailure ''final_simulation_failed'' t) (b, r) =
     (b\<lparr>sb_consecutive := sb_consecutive b + 1\<rparr>, r)"
  by (simp add: sim_step_def sim_recordSimFailure_def Let_def)

lemma failure_trips:
  assumes "or_else threshold 3 \<le> sb_consecutive b + 1" and "get_op r c = Inr e"
  shows "\<exists>r'. sim_step get_op set_op c threshold openMs (SimFailure ''final_simulation_failed'' t) (b, r) =
      (b\<lparr>sb_consecutive := sb_consecutive b + 1, sb_reopenAtMs := Some (t + or_else openMs 60000)\<rparr>, r') \<and>
      exec_status get_op r' c = Some Open \<and> (\<forall>c'. c' \<noteq> c \<longrightarrow> get_op r' c' = get_op r c') \<and>
      (\<exists>e'. get_op r' c = Inr e')"
proof -
  let ?open = "\<lparr>cb_status = Open, cb_failures = cb_failures (cbs_execution (rc_circuitBreakers e)) + 1,
    cb_openedAtMs = Some t\<rparr>"
  obtain r' where r': "set_op r c BreakerExecution ?open = Inr r'"
    "get_op r' c = Inr (updateCircuitBreakerState e BreakerExecution ?open)"
    "\<forall>c'. c' \<noteq> c \<longrightarrow> get_op r' c' = get_op r c'"
    using set_known [OF assms(2)] by blast
  then have "sim_step get_op set_op c threshold openMs (SimFailure ''final_simulation_failed'' t) (b, r) =
      (b\<lparr>sb_consecutive := sb_consecutive b + 1, sb_reopenAtMs := Some (t + or_else openMs 60000)\<rparr>, r')"
    using assms by (simp add: sim_step_def sim_recordSimFailure_def sim_openCircuit_def)
  moreover have "exec_status get_op r' c = Some Open"
    using r'(2) by (simp add: exec_status_def updateCircuitBreakerState_def)
  ultimately show ?thesis using r' by blast
qed

lemma trips_after_threshold:
  assumes "0 < or_else threshold 3" "length ts = or_else threshold 3" "get_op r c = Inr e"
  shows "exec_status get_op (snd (fold (sim_step get_op set_op c threshold openMs) (final_failures ts) (sb_new, r))) c = Some Open"
proof -
  have below: "fold (sim_step get_op set_op c threshold openMs) (final_failures us) (b, r) =
      (b\<lparr>sb_consecutive := sb_consecutive b + length us\<rparr>, r)"
    if "sb_consecutive b + length us < or_else threshold 3" for us b
    using that by (induction us arbitrary: b) (simp_all add: final_failures_def failure_below)
  obtain us t where ts: "ts = us @ [t]" using assms(1,2) by (cases ts rule: rev_cases) auto
  have us: "Suc (length us) = or_else threshold 3" using assms(2) ts by simp
  have run: "fold (sim_step get_op set_op c threshold openMs) (final_failures us) (sb_new, r) =
      (sb_new\<lparr>sb_consecutive := length us\<rparr>, r)"
    using below [of sb_new us] us by (simp add: sb_new_def)
  have "or_else threshold 3 \<le> sb_consecutive (sb_new\<lparr>sb_consecutive := length us\<rparr>) + 1"
    using us by simp
  from failure_trips [OF this assms(3), of openMs t] show ?thesis
    using run by (fastforce simp: ts final_failures_def)
qed

lemma timer_closes:
  assumes "get_op r c = Inr e" and "sb_reopenAtMs b \<noteq> None"
  shows "\<exists>r'. sim_step get_op set_op c threshold openMs SimTimer (b, r) =
      (b\<lparr>sb_reopenAtMs := None, sb_consecutive := 0\<rparr>, r') \<and>
      exec_status get_op r' c = Some Closed \<and> (\<exists>e'. get_op r' c = Inr e')"
proof -
  obtain r' where r': "set_op r c BreakerExecution closed_breaker = Inr r'"
    "get_op r' c = Inr (updateCircuitBreakerState e BreakerExecution closed_breaker)"
    using set_known [OF assms(1)] by blast
  then have "sim_step get_op set_op c threshold openMs SimTimer (b, r) =
      (b\<lparr>sb_reopenAtMs := None, sb_consecutive := 0\<rparr>, r')"
    using assms(2) by (auto simp: sim_step_def sim_reopen_def)
  moreover have "exec_status get_op r' c = Some Closed"
    using r'(2) by (simp add: exec_status_def updateCircuitBreakerState_def closed_breaker_def)
  ultimately show ?thesis using r'(2) by blast
qed

text \<open>An execution breaker that this component opened always has its timer running.\<close>

lemma open_has_timer_step:
  assumes inv: "exec_status get_op r c = Some Open \<longrightarrow> sb_reopenAtMs b \<noteq> None" and e: "get_op r c = Inr e"
    and step: "sim_step get_op set_op c threshold openMs ev (b, r) = (b', r')"
  shows "(exec_status get_op r' c = Some Open \<longrightarrow> sb_reopenAtMs b' \<noteq> None) \<and> (\<exists>e'. get_op r' c = Inr e')"
proof (cases ev)
  case (SimFailure reason t)
  show ?thesis
  proof (cases "reason = ''final_simulation_failed'' \<and> or_else threshold 3 \<le> sb_consecutive b + 1")
    case True
    with failure_trips [of threshold b r c e openMs t] SimFailure e step show ?thesis by auto
  next
    case False
    then have "r' = r \<and> sb_reopenAtMs b' = sb_reopenAtMs b"
      using SimFailure step
      by (cases "reason = ''final_simulation_failed''") (auto simp: sim_step_def sim_recordSimFailure_def Let_def)
    with inv e show ?thesis by auto
  qed
next
  case SimSuccess
  with inv e step show ?thesis by (auto simp: sim_step_def sim_recordSuccess_def)
next
  case SimTimer
  show ?thesis
  proof (cases "sb_reopenAtMs b")
    case None
    with SimTimer inv e step show ?thesis by (auto simp: sim_step_def)
  next
    case (Some t)
    with timer_closes [OF e, of b threshold openMs] SimTimer step show ?thesis by auto
  qed
qed

lemma open_has_timer:
  "exec_status get_op r c = Some Open \<longrightarrow> sb_reopenAtMs b \<noteq> None \<Longrightarrow> get_op r c = Inr e \<Longrightarrow>
   fold (sim_step get_op set_op c threshold openMs) evs (b, r) = (b', r') \<Longrightarrow>
   exec_status get_op r' c = Some Open \<longrightarrow> sb_reopenAtMs b' \<noteq> None"
proof (induction evs arbitrary: b r e)
  case (Cons ev evs)
  obtain b1 r1 where s: "sim_step get_op set_op c threshold openMs ev (b, r) = (b1, r1)" by fastforce
  from open_has_timer_step [OF Cons.prems(1,2) s] Cons.IH [of r1 b1] Cons.prems(3) s show ?case by auto
qed simp

end


text \<open>As many failed final simulations in a row as the threshold (3 unless configured) open the
  execution breaker of the chain.\<close>

theorem sim_breaker_trips:
  assumes "0 < or_else threshold 3" and "length ts = or_else threshold 3" and "registry_get r c = Inr e"
  shows "exec_status registry_get
    (snd (fold (sim_step registry_get registry_setCircuitBreakerState c threshold openMs) (final_failures ts) (sb_new, r))) c
    = Some Open"
  by (rule reg.trips_after_threshold [OF assms])

theorem sim_breaker_trips_witness:
  "exec_status registry_get
    (snd (fold (sim_step registry_get registry_setCircuitBreakerState ''base'' None None) (final_failures [1, 2, 3]) (sb_new, base_registry))) ''base''
    = Some Open"
proof -
  have e: "registry_get base_registry ''base'' = Inr (createRegisteredChain zero_aave base_input)"
    by (simp add: base_registry_def js_get_def)
  show ?thesis by (rule sim_breaker_trips [OF _ _ e]) (simp_all add: or_else_def)
qed

text \<open>The breaker never stays open by itself: in every run of failures, successes and timer
  callbacks from a closed breaker, whenever the execution breaker is open its reopening timer runs,
  and the timer's callback closes it and clears the counter.\<close>

theorem sim_breaker_recovers:
  assumes "registry_get r c = Inr e" and "exec_status registry_get r c = Some Closed"
    and "fold (sim_step registry_get registry_setCircuitBreakerState c threshold openMs) evs (sb_new, r) = (b', r')"
    and "exec_status registry_get r' c = Some Open"
  shows "sb_reopenAtMs b' \<noteq> None \<and>
    exec_status registry_get
      (snd (sim_step registry_get registry_setCircuitBreakerState c threshold openMs SimTimer (b', r'))) c = Some Closed"
proof -
  have timer: "sb_reopenAtMs b' \<noteq> None"
    using reg.open_has_timer [OF _ assms(1,3)] assms(2,4) by simp
  obtain e' where e': "registry_get r' c = Inr e'"
    using assms(4) by (auto simp: exec_status_def split: sum.splits)
  show ?thesis using timer reg.timer_closes [OF e' timer, of threshold openMs] by auto
qed

theorem sim_breaker_recovers_witness:
  "exec_status registry_get
      (snd (sim_step registry_get registry_setCircuitBreakerState ''base'' (Some 1) None SimTimer
        (fold (sim_step registry_get registry_setCircuitBreakerState ''base'' (Some 1) None)
          (final_failures [7]) (sb_new, base_registry)))) ''base'' = Some Closed"
proof -
  let ?run = "fold (sim_step registry_get registry_setCircuitBreakerState ''base'' (Some 1) None)
          (final_failures [7]) (sb_new, base_registry)"
  have e: "registry_get base_registry ''base'' = Inr (createRegisteredChain zero_aave base_input)"
    by (simp add: base_registry_def js_get_def)
  have c: "exec_status registry_get base_registry ''base'' = Some Closed" by code_simp
  have o: "exec_status registry_get (snd ?run) ''base'' = Some Open" by code_simp
  have r: "?run = (fst ?run, snd ?run)" by simp
  show ?thesis using sim_breaker_recovers [OF e c r o] by simp
qed

section \<open>RescanCircuitBreaker\<close>

text \<open>
  \<open>execute\<close> awaits the rescan it guards, so other executions, the timer and \<open>stop\<close> may run in
  between: its part before the await is \<open>rb_begin\<close>, its part after it \<open>rb_finish\<close>.
\<close>

record rescan_breaker =
  rb_failures :: nat
  rb_coolingDown :: bool
  rb_cooldownTimer :: "int option"

definition rb_new :: rescan_breaker where
  "rb_new = \<lparr>rb_failures = 0, rb_coolingDown = False, rb_cooldownTimer = None\<rparr>"

definition rb_begin :: "rescan_breaker \<Rightarrow> bool" where
  "rb_begin b = (\<not> rb_coolingDown b)"

definition rb_openCircuit :: "int option \<Rightarrow> int \<Rightarrow> rescan_breaker \<Rightarrow> rescan_breaker" where
  "rb_openCircuit cooldownMs now b =
     (if rb_coolingDown b then b
      else b\<lparr>rb_coolingDown := True, rb_cooldownTimer := Some (now + or_else cooldownMs 30000)\<rparr>)"

text \<open>The first component says whether \<open>onFailure\<close> is called.\<close>

definition rb_finish :: "nat option \<Rightarrow> int option \<Rightarrow> int \<Rightarrow> bool \<Rightarrow> rescan_breaker \<Rightarrow> bool \<times> rescan_breaker" where
  "rb_finish threshold cooldownMs now success b =
     (if success then (False, b\<lparr>rb_failures := 0\<rparr>)
      else (let b1 = b\<lparr>rb_failures := rb_failures b + 1\<rparr>;
                notify = (rb_failures b1 \<le> or_else threshold 3)
            in (notify, if or_else threshold 3 \<le> rb_failures b1 then rb_openCircuit cooldownMs now b1 else b1)))"

definition rb_timer :: "rescan_breaker \<Rightarrow> rescan_breaker" where
  "rb_timer b = \<lparr>rb_failures = 0, rb_coolingDown = False, rb_cooldownTimer = None\<rparr>"

definition rb_stop :: "rescan_breaker \<Rightarrow> rescan_breaker" where
  "rb_stop b = \<lparr>rb_failures = 0, rb_coolingDown = False, rb_cooldownTimer = None\<rparr>"

datatype rescan_event = RescanFinish bool int | RescanTimer | RescanStop

definition rb_step :: "nat option \<Rightarrow> int option \<Rightarrow> rescan_event \<Rightarrow> rescan_breaker \<Rightarrow> rescan_breaker" where
  "rb_step threshold cooldownMs ev b =
     (case ev of
        RescanFinish success now \<Rightarrow> snd (rb_finish threshold cooldownMs now success b)
      | RescanTimer \<Rightarrow> (if rb_cooldownTimer b = None then b else rb_timer b)
      | RescanStop \<Rightarrow> rb_stop b)"

definition rb_inv :: "nat option \<Rightarrow> rescan_breaker \<Rightarrow> bool" where
  "rb_inv threshold b \<longleftrightarrow> rb_coolingDown b = (rb_cooldownTimer b \<noteq> None) \<and>
     (rb_begin b \<longrightarrow> rb_failures b < or_else threshold 3)"

lemma rb_inv_step: "0 < or_else threshold 3 \<Longrightarrow> rb_inv threshold b \<Longrightarrow> rb_inv threshold (rb_step threshold cd ev b)"
  by (cases ev) (auto simp: rb_inv_def rb_begin_def rb_step_def rb_finish_def rb_openCircuit_def rb_timer_def rb_stop_def Let_def)

text \<open>Whatever the order in which overlapping rescans end, the timer fires and the breaker is
  stopped: the breaker lets a rescan start only while fewer failures than the threshold are counted,
  and it sheds rescans exactly while its cooldown timer runs, so it never sheds for ever.\<close>

theorem rescan_breaker_sound:
  assumes "0 < or_else threshold 3"
  shows "rb_inv threshold (fold (rb_step threshold cooldownMs) evs rb_new)"
proof -
  have "rb_inv threshold b \<Longrightarrow> rb_inv threshold (fold (rb_step threshold cooldownMs) evs b)" for b
    by (induction evs arbitrary: b) (simp_all add: rb_inv_step assms)
  moreover have "rb_inv threshold rb_new" using assms by (simp add: rb_inv_def rb_new_def)
  ultimately show ?thesis by blast
qed

theorem rescan_breaker_sound_witness:
  "rb_inv None (fold (rb_step None None) [RescanFinish False 1, RescanFinish False 2, RescanFinish False 3] rb_new)"
  by (rule rescan_breaker_sound) (simp add: or_else_def)

end
