(* ===== verification/Profitability.thy ===== *)
theory Profitability
  imports Asset_Math Chain_Registry
begin

text \<open>
  \<open>src/profitability/profitabilityEngine.ts\<close> and \<open>flashLoanProviderRouter.ts\<close>: the decision whether a
  liquidation pays, and through which flash-loan provider; and the gas limit table
  \<open>src/config/liquidationGasLimits.ts\<close>. The \<open>eth_call\<close> simulator is an argument: a function of the
  input it is given, which either throws or answers.
\<close>

section \<open>Data\<close>

record route_selection_input =
  ri_chain :: string
  ri_opportunityId :: string
  ri_revenue :: asset_amount
  ri_debt :: asset_amount
  ri_gas :: asset_amount
  ri_swapCost :: asset_amount
  ri_slippageBuffer :: asset_amount
  ri_safetyBuffer :: asset_amount
  ri_capitalAtRisk :: asset_amount
  ri_minimumMarginBps :: rat

record profit_simulation_input = route_selection_input +
  ps_provider :: flash_provider
  ps_flashLoanFee :: asset_amount

datatype eth_call_result = EthCallOk asset_amount asset_amount asset_amount | EthCallFailed string

datatype profit_reject_reason = BelowMinProfitMargin | SimulationFailed

datatype profit_result =
    Approved flash_provider asset_amount int
  | Rejected flash_provider profit_reject_reason asset_amount int

datatype route_reject_reason = NoProfitableProvider | ExecutionCircuitOpen

datatype route_result =
    RouteSelected (route_provider: flash_provider) (route_netProfit: asset_amount) (route_marginBps: int)
  | RouteRejected route_reject_reason

section \<open>ProfitabilityEngine\<close>

definition net_profit_of :: "profit_simulation_input \<Rightarrow> net_profit_input" where
  "net_profit_of i = \<lparr>np_revenue = ri_revenue i, np_debt = ri_debt i, np_gas = ri_gas i,
     np_flashLoanFee = ps_flashLoanFee i, np_swapCost = ri_swapCost i,
     np_slippageBuffer = Some (ri_slippageBuffer i), np_safetyBuffer = Some (ri_safetyBuffer i)\<rparr>"

definition calculateDeterministicProfit :: "profit_simulation_input \<Rightarrow> exn + asset_amount" where
  "calculateDeterministicProfit i =
     (case calculateNetProfit (net_profit_of i) of
        Inr p \<Rightarrow> Inr p
      | Inl e \<Rightarrow>
          (if str_includes ''Asset subtraction would be negative'' (exn_message e)
           then createAssetAmount (am_asset (ri_revenue i)) 0
           else Inl e))"

definition meetsMargin :: "asset_amount \<Rightarrow> profit_simulation_input \<Rightarrow> exn + bool" where
  "meetsMargin netProfit i = meetsMinimumProfitMargin netProfit (ri_capitalAtRisk i) (ri_minimumMarginBps i)"

definition reject ::
  "profit_simulation_input \<Rightarrow> profit_reject_reason \<Rightarrow> asset_amount \<Rightarrow> exn + profit_result" where
  "reject i reason netProfit =
     (case calculateMarginBps netProfit (ri_capitalAtRisk i) of
        Inl e \<Rightarrow> Inl e | Inr m \<Rightarrow> Inr (Rejected (ps_provider i) reason netProfit m))"

definition evaluate_simulated ::
  "profit_simulation_input \<Rightarrow> asset_amount \<Rightarrow> asset_amount \<Rightarrow> asset_amount \<Rightarrow> exn + profit_result" where
  "evaluate_simulated i revenue gas swapCost =
     (let simulatedInput = i\<lparr>ri_revenue := revenue, ri_gas := gas, ri_swapCost := swapCost\<rparr> in
      case calculateDeterministicProfit simulatedInput of
        Inl e \<Rightarrow> Inl e
      | Inr simulated \<Rightarrow>
          (case meetsMargin simulated simulatedInput of
             Inl e \<Rightarrow> Inl e
           | Inr False \<Rightarrow> reject i BelowMinProfitMargin simulated
           | Inr True \<Rightarrow>
               (case calculateMarginBps simulated (ri_capitalAtRisk i) of
                  Inl e \<Rightarrow> Inl e | Inr m \<Rightarrow> Inr (Approved (ps_provider i) simulated m))))"

definition evaluate ::
  "registry \<Rightarrow> (profit_simulation_input \<Rightarrow> exn + eth_call_result) \<Rightarrow> profit_simulation_input \<Rightarrow> exn + profit_result" where
  "evaluate registry simulate i =
     (case registry_get registry (ri_chain i) of
        Inl e \<Rightarrow> Inl e
      | Inr _ \<Rightarrow>
          (case calculateDeterministicProfit i of
             Inl e \<Rightarrow> Inl e
           | Inr deterministic \<Rightarrow>
               (case meetsMargin deterministic i of
                  Inl e \<Rightarrow> Inl e
                | Inr False \<Rightarrow> reject i BelowMinProfitMargin deterministic
                | Inr True \<Rightarrow>
                    (case simulate i of
                       Inl e \<Rightarrow> Inl e
                     | Inr (EthCallFailed _) \<Rightarrow> reject i SimulationFailed deterministic
                     | Inr (EthCallOk revenue gas swapCost) \<Rightarrow> evaluate_simulated i revenue gas swapCost))))"

section \<open>FlashLoanProviderRouter\<close>

text \<open>
  The route cache is keyed by the chain, the opportunity, the raw amounts and the margin, which the
  code joins into one string.
\<close>

type_synonym route_key = "string \<times> string \<times> int list \<times> rat"

record router =
  fr_providerFees :: "flash_provider \<Rightarrow> asset_amount option"
  fr_routeCache :: "(route_key, route_result \<times> int) jsmap"

definition routeCacheTtlMs :: int where
  "routeCacheTtlMs = 30000"

definition new_router :: "(flash_provider \<Rightarrow> asset_amount option) \<Rightarrow> router" where
  "new_router fees = \<lparr>fr_providerFees = fees, fr_routeCache = []\<rparr>"

definition setProviderFee :: "flash_provider \<Rightarrow> asset_amount \<Rightarrow> router \<Rightarrow> router" where
  "setProviderFee provider fee rt = rt\<lparr>fr_providerFees := (fr_providerFees rt)(provider := Some fee)\<rparr>"

definition clearRouteCache :: "router \<Rightarrow> router" where
  "clearRouteCache rt = rt\<lparr>fr_routeCache := []\<rparr>"

definition cacheKey :: "route_selection_input \<Rightarrow> route_key" where
  "cacheKey i = (ri_chain i, ri_opportunityId i,
     [am_raw (ri_revenue i), am_raw (ri_debt i), am_raw (ri_gas i), am_raw (ri_swapCost i),
      am_raw (ri_slippageBuffer i), am_raw (ri_safetyBuffer i), am_raw (ri_capitalAtRisk i)],
     ri_minimumMarginBps i)"

fun provider_name :: "flash_provider \<Rightarrow> string" where
  "provider_name AaveV3 = ''aaveV3''"
| "provider_name Balancer = ''balancer''"
| "provider_name UniswapV3 = ''uniswapV3''"

definition toSimulationInput ::
  "router \<Rightarrow> route_selection_input \<Rightarrow> flash_provider \<Rightarrow> exn + profit_simulation_input" where
  "toSimulationInput rt i provider =
     (case fr_providerFees rt provider of
        None \<Rightarrow> Inl (Exn (''Missing flash-loan fee quote for provider: '' @ provider_name provider))
      | Some fee \<Rightarrow> Inr (route_selection_input.extend i (profit_simulation_input.fields provider fee)))"

fun approved_routes ::
  "registry \<Rightarrow> (profit_simulation_input \<Rightarrow> exn + eth_call_result) \<Rightarrow> router \<Rightarrow> route_selection_input \<Rightarrow>
   flash_provider list \<Rightarrow> exn + route_result list" where
  "approved_routes registry simulate rt i [] = Inr []"
| "approved_routes registry simulate rt i (p # ps) =
     (case toSimulationInput rt i p of
        Inl e \<Rightarrow> Inl e
      | Inr si \<Rightarrow>
          (case evaluate registry simulate si of
             Inl e \<Rightarrow> Inl e
           | Inr (Rejected _ _ _ _) \<Rightarrow> approved_routes registry simulate rt i ps
           | Inr (Approved provider profit margin) \<Rightarrow>
               map_sum id (\<lambda>rest. RouteSelected provider profit margin # rest)
                 (approved_routes registry simulate rt i ps)))"

definition cache_route :: "route_key \<Rightarrow> route_result \<Rightarrow> int \<Rightarrow> router \<Rightarrow> router" where
  "cache_route key result now rt = rt\<lparr>fr_routeCache := js_set key (result, now) (fr_routeCache rt)\<rparr>"

text \<open>The clock is read on entry (\<open>now\<close>) and when the result is cached (\<open>later\<close>).\<close>

definition selectBestRoute ::
  "registry \<Rightarrow> (profit_simulation_input \<Rightarrow> exn + eth_call_result) \<Rightarrow> int \<Rightarrow> int \<Rightarrow> route_selection_input \<Rightarrow>
   router \<Rightarrow> (exn + route_result) \<times> router" where
  "selectBestRoute registry simulate now later i rt =
     (let evaluate_fresh =
        (case registry_get registry (ri_chain i) of
           Inl e \<Rightarrow> (Inl e, rt)
         | Inr chain \<Rightarrow>
             (if cb_status (cbs_execution (rc_circuitBreakers chain)) = Open
              then (Inr (RouteRejected ExecutionCircuitOpen),
                    cache_route (cacheKey i) (RouteRejected ExecutionCircuitOpen) later rt)
              else (case approved_routes registry simulate rt i (rc_flashLoanProviders chain) of
                      Inl e \<Rightarrow> (Inl e, rt)
                    | Inr approved \<Rightarrow>
                        (let result = (case sort_key (\<lambda>r. - am_raw (route_netProfit r)) approved of
                                         [] \<Rightarrow> RouteRejected NoProfitableProvider
                                       | best # _ \<Rightarrow> best)
                         in (Inr result, cache_route (cacheKey i) result later rt)))))
      in case js_get (fr_routeCache rt) (cacheKey i) of
           Some (result, cachedAtMs) \<Rightarrow>
             (if now - cachedAtMs < routeCacheTtlMs then (Inr result, rt) else evaluate_fresh)
         | None \<Rightarrow> evaluate_fresh)"

section \<open>Gas limits\<close>

definition pairOverrides :: "(string, int) jsmap" where
  "pairOverrides =
     [(''0x4200000000000000000000000000000000000006:0x833589fcd6ede6e08f4c7c32d4f71b54bda02913:aaveV3'', 1100000),
      (''0x4200000000000000000000000000000000000006:0x833589fcd6ede6e08f4c7c32d4f71b54bda02913:balancer'', 1200000)]"

definition resolveLiquidationGasLimit :: "address \<Rightarrow> address \<Rightarrow> flash_provider \<Rightarrow> bool \<Rightarrow> int \<times> bool" where
  "resolveLiquidationGasLimit collateralAsset debtAsset provider usesFlashWrapper =
     (case js_get pairOverrides (to_lower collateralAsset @ '':'' @ to_lower debtAsset @ '':'' @ provider_name provider) of
        Some override \<Rightarrow> (override, True)
      | None \<Rightarrow>
          (if provider = Balancer then (1250000, False)
           else if usesFlashWrapper then (1150000, False)
           else (650000, False)))"

section \<open>Lemmas\<close>

lemma str_includes_self: "str_includes s s"
  by (auto simp: str_includes_def str_startsWith_def list_ex_iff intro!: bexI [of _ 0])

text \<open>The input's amounts are well-formed.\<close>

definition input_ok :: "profit_simulation_input \<Rightarrow> bool" where
  "input_ok i \<longleftrightarrow> amount_ok (ri_revenue i) \<and> (\<forall>a \<in> set (np_costs (net_profit_of i)). amount_ok a)"

definition total_cost :: "profit_simulation_input \<Rightarrow> int" where
  "total_cost i = sum_list (map am_raw (np_costs (net_profit_of i)))"

lemma deterministic_profit_positive:
  assumes "input_ok i" and "calculateDeterministicProfit i = Inr p" and "0 < am_raw p"
  shows "am_raw p = am_raw (ri_revenue i) - total_cost i \<and> am_asset p = am_asset (ri_revenue i)"
proof (cases "calculateNetProfit (net_profit_of i)")
  case (Inl e)
  with assms(2,3) have False
    by (auto simp: calculateDeterministicProfit_def createAssetAmount_Inr_iff split: if_splits)
  then show ?thesis ..
next
  case (Inr q)
  with assms(2) have "q = p" by (simp add: calculateDeterministicProfit_def)
  with Inr net_profit_iff [of "net_profit_of i" p] assms(1) show ?thesis
    by (auto simp: input_ok_def total_cost_def net_profit_of_def)
qed

text \<open>What an approval says of the simulated amounts.\<close>

lemma evaluate_approved:
  assumes "evaluate registry simulate i = Inr (Approved provider profit margin)"
  obtains revenue gas swapCost where "simulate i = Inr (EthCallOk revenue gas swapCost)"
    "provider = ps_provider i"
    "calculateDeterministicProfit (i\<lparr>ri_revenue := revenue, ri_gas := gas, ri_swapCost := swapCost\<rparr>) = Inr profit"
    "meetsMinimumProfitMargin profit (ri_capitalAtRisk i) (ri_minimumMarginBps i) = Inr True"
    "calculateMarginBps profit (ri_capitalAtRisk i) = Inr margin"
  using assms
  by (auto simp: evaluate_def evaluate_simulated_def Let_def meetsMargin_def reject_def
      split: sum.splits bool.splits eth_call_result.splits)

text \<open>A trade in one asset whose costs reach its revenue is rejected for its margin.\<close>

lemma deterministic_profit_zero:
  assumes "input_ok i" and "\<forall>a \<in> set (np_costs (net_profit_of i)). am_asset a = am_asset (ri_revenue i)"
    and "am_raw (ri_revenue i) \<le> total_cost i"
  shows "calculateDeterministicProfit i = Inr \<lparr>am_asset = am_asset (ri_revenue i), am_raw = 0\<rparr>"
proof -
  let ?n = "net_profit_of i" and ?zero = "\<lparr>am_asset = am_asset (ri_revenue i), am_raw = 0\<rparr>"
  have ok: "amount_ok (ri_revenue i)" "\<forall>a \<in> set (np_costs ?n). amount_ok a"
    using assms(1) by (simp_all add: input_ok_def)
  have zero: "createAssetAmount (am_asset (ri_revenue i)) 0 = Inr ?zero"
    using ok(1) by (simp add: createAssetAmount_Inr_iff amount_ok_def)
  define rest where "rest = [ri_gas i, ps_flashLoanFee i, ri_swapCost i, ri_slippageBuffer i, ri_safetyBuffer i]"
  define costs where "costs = (ri_debt i)\<lparr>am_raw := am_raw (ri_debt i) + sum_list (map am_raw rest)\<rparr>"
  have mem: "set (np_costs ?n) = insert (ri_debt i) (set rest)"
    by (auto simp: np_costs_def net_profit_of_def rest_def)
  have debt: "amount_ok (ri_debt i)" and nonneg: "\<forall>a \<in> set rest. 0 \<le> am_raw a"
    using ok(2) unfolding mem amount_ok_def by blast+
  have "\<forall>a \<in> set rest. am_asset a = am_asset (ri_debt i)"
    using assms(2) unfolding mem by simp
  then have "addAssetAmounts (ri_debt i) rest = Inr costs"
    unfolding addAssetAmounts_Inr_iff [OF debt nonneg] costs_def by blast
  then have "calculateNetProfit ?n = subtractAssetAmounts (ri_revenue i) costs"
    by (simp add: calculateNetProfit_def or_zero_def net_profit_of_def rest_def)
  moreover have asset: "am_asset costs = am_asset (ri_revenue i)" and raw: "am_raw costs = total_cost i"
    using assms(2) by (simp_all add: costs_def rest_def total_cost_def np_costs_def net_profit_of_def)
  moreover have "assertSameAsset (ri_revenue i) costs = Inr ()"
    using asset by (simp add: assertSameAsset_iff)
  ultimately have net: "calculateNetProfit ?n =
      (if am_raw (ri_revenue i) < total_cost i then Inl (Exn ''Asset subtraction would be negative'')
       else createAssetAmount (am_asset (ri_revenue i)) (am_raw (ri_revenue i) - total_cost i))"
    by (simp add: subtractAssetAmounts_def)
  show ?thesis
  proof (cases "am_raw (ri_revenue i) < total_cost i")
    case True
    then show ?thesis
      unfolding calculateDeterministicProfit_def net if_P [OF True] sum.case exn.sel
      by (simp only: str_includes_self if_True zero)
  next
    case False
    then have "calculateNetProfit ?n = Inr ?zero" using net assms(3) zero by simp
    then show ?thesis by (simp add: calculateDeterministicProfit_def)
  qed
qed

lemma evaluate_rejects_loss:
  assumes "registry_get registry (ri_chain i) = Inr chain" and "input_ok i"
    and "\<forall>a \<in> set (np_costs (net_profit_of i)). am_asset a = am_asset (ri_revenue i)"
    and "am_raw (ri_revenue i) \<le> total_cost i"
    and "am_asset (ri_capitalAtRisk i) = am_asset (ri_revenue i)"
    and "ri_minimumMarginBps i = of_int margin" "1 \<le> margin \<or> am_raw (ri_capitalAtRisk i) = 0"
    and "0 \<le> margin" "0 \<le> am_raw (ri_capitalAtRisk i)"
  shows "\<exists>m. evaluate registry simulate i =
    Inr (Rejected (ps_provider i) BelowMinProfitMargin \<lparr>am_asset = am_asset (ri_revenue i), am_raw = 0\<rparr> m)"
proof -
  let ?zero = "\<lparr>am_asset = am_asset (ri_revenue i), am_raw = 0\<rparr>"
  note det = deterministic_profit_zero [OF assms(2-4)]
  have same: "assertSameAsset ?zero (ri_capitalAtRisk i) = Inr ()"
    using assms(5) by (simp add: assertSameAsset_iff)
  have "meetsMargin ?zero i = Inr False"
    using same assms(6-9) by (auto simp: meetsMargin_def meetsMinimumProfitMargin_def mult_le_0_iff)
  moreover obtain m where "calculateMarginBps ?zero (ri_capitalAtRisk i) = Inr m"
    using same by (simp add: calculateMarginBps_def split: if_splits)
  ultimately show ?thesis unfolding evaluate_def assms(1) det by (simp add: reject_def)
qed

lemma approved_routes_none:
  assumes "\<And>p. p \<in> set ps \<Longrightarrow> \<exists>si q n m r. toSimulationInput rt i p = Inr si \<and>
    evaluate registry simulate si = Inr (Rejected q r n m)"
  shows "approved_routes registry simulate rt i ps = Inr []"
  using assms
proof (induction ps)
  case (Cons p ps)
  from Cons.prems [of p] obtain si q n m r where "toSimulationInput rt i p = Inr si"
    "evaluate registry simulate si = Inr (Rejected q r n m)" by auto
  with Cons show ?case by simp
qed simp

lemma meets_positive:
  assumes "meetsMinimumProfitMargin p c m = Inr True" and "1 \<le> m" and "0 < am_raw c"
  shows "0 < am_raw p"
proof -
  have "am_raw c * \<lfloor>m\<rfloor> \<le> am_raw p * BPS" and "1 \<le> \<lfloor>m\<rfloor>"
    using assms by (auto simp: meetsMinimumProfitMargin_def split: sum.splits if_splits)
  moreover have "0 < am_raw c * \<lfloor>m\<rfloor>" using assms(3) \<open>1 \<le> \<lfloor>m\<rfloor>\<close> by simp
  ultimately have "0 < am_raw p * BPS" by linarith
  then show ?thesis by (simp add: BPS_def)
qed


lemma approved_routes_mem:
  assumes "approved_routes registry simulate rt i ps = Inr rs" and "r \<in> set rs"
  shows "\<exists>p si q n m. p \<in> set ps \<and> toSimulationInput rt i p = Inr si \<and>
    evaluate registry simulate si = Inr (Approved q n m) \<and> r = RouteSelected q n m"
  using assms
proof (induction ps arbitrary: rs)
  case (Cons p ps)
  obtain si where si: "toSimulationInput rt i p = Inr si"
    using Cons.prems(1) by (cases "toSimulationInput rt i p") auto
  then obtain res where res: "evaluate registry simulate si = Inr res"
    using Cons.prems(1) by (cases "evaluate registry simulate si") auto
  show ?case
  proof (cases res)
    case (Approved q n m)
    with si res Cons.prems obtain rest where rest: "approved_routes registry simulate rt i ps = Inr rest"
      "rs = RouteSelected q n m # rest"
      by (cases "approved_routes registry simulate rt i ps") auto
    show ?thesis
    proof (cases "r \<in> set rest")
      case True
      with Cons.IH [OF rest(1)] show ?thesis by auto
    next
      case False
      with rest Cons.prems(2) si res Approved show ?thesis by auto
    qed
  next
    case Rejected
    with si res Cons.prems Cons.IH show ?thesis by fastforce
  qed
qed simp

lemma approved_routes_complete:
  assumes "approved_routes registry simulate rt i ps = Inr rs"
    and "p \<in> set ps" "toSimulationInput rt i p = Inr si" "evaluate registry simulate si = Inr (Approved q n m)"
  shows "RouteSelected q n m \<in> set rs"
  using assms(1,2)
proof (induction ps arbitrary: rs)
  case (Cons x ps)
  obtain sx rx where x: "toSimulationInput rt i x = Inr sx" "evaluate registry simulate sx = Inr rx"
    using Cons.prems(1) by (auto split: sum.splits)
  show ?case
  proof (cases "p = x")
    case True
    with x Cons.prems(1) assms(3,4) show ?thesis
      by (cases "approved_routes registry simulate rt i ps") auto
  next
    case False
    with Cons.prems have p: "p \<in> set ps" by simp
    have "\<exists>rest. approved_routes registry simulate rt i ps = Inr rest \<and> set rest \<subseteq> set rs"
      using x Cons.prems(1)
      by (cases rx; cases "approved_routes registry simulate rt i ps") auto
    then obtain rest where rest: "approved_routes registry simulate rt i ps = Inr rest" "set rest \<subseteq> set rs"
      by blast
    from Cons.IH [OF rest(1) p] rest(2) show ?thesis by blast
  qed
qed simp

lemma sort_key_hd:
  assumes "sort_key f xs = x # rest"
  shows "x \<in> set xs \<and> (\<forall>y \<in> set xs. f x \<le> f y)"
proof -
  have "set xs = set (x # rest)" by (metis assms set_sort)
  moreover have "sorted (map f (x # rest))" by (metis assms sorted_sort_key)
  ultimately show ?thesis by auto
qed

section \<open>Properties\<close>

text \<open>An approved route really pays: with a minimum margin of at least one basis point and capital
  at risk, the profit it reports is the simulated revenue less every cost, the flash-loan fee
  included, and it is positive.\<close>

theorem approved_is_profitable:
  assumes "evaluate registry simulate i = Inr (Approved provider profit margin)"
    and "simulate i = Inr (EthCallOk revenue gas swapCost)"
    and "input_ok (i\<lparr>ri_revenue := revenue, ri_gas := gas, ri_swapCost := swapCost\<rparr>)"
    and "1 \<le> ri_minimumMarginBps i" and "0 < am_raw (ri_capitalAtRisk i)"
  shows "0 < am_raw profit \<and> am_raw profit = am_raw revenue -
    total_cost (i\<lparr>ri_revenue := revenue, ri_gas := gas, ri_swapCost := swapCost\<rparr>)"
proof -
  let ?i = "i\<lparr>ri_revenue := revenue, ri_gas := gas, ri_swapCost := swapCost\<rparr>"
  have calc: "calculateDeterministicProfit ?i = Inr profit"
    and meets: "meetsMinimumProfitMargin profit (ri_capitalAtRisk i) (ri_minimumMarginBps i) = Inr True"
    using evaluate_approved [OF assms(1)] assms(2) by auto
  have pos: "0 < am_raw profit" by (rule meets_positive [OF meets assms(4,5)])
  then show ?thesis using deterministic_profit_positive [OF assms(3) calc pos] by simp
qed

text \<open>A concrete request, for the witnesses: revenue 1000, debt 900.\<close>

definition sample_request :: "rat \<Rightarrow> route_selection_input" where
  "sample_request m = \<lparr>ri_chain = ''base'', ri_opportunityId = ''op'', ri_revenue = usdc_amount 1000,
     ri_debt = usdc_amount 900, ri_gas = usdc_amount 10, ri_swapCost = usdc_amount 20,
     ri_slippageBuffer = usdc_amount 0, ri_safetyBuffer = usdc_amount 0, ri_capitalAtRisk = usdc_amount 900,
     ri_minimumMarginBps = m\<rparr>"

definition sample_sim :: "rat \<Rightarrow> profit_simulation_input" where
  "sample_sim m = route_selection_input.extend (sample_request m) (profit_simulation_input.fields AaveV3 (usdc_amount 5))"

definition faithful_call :: "profit_simulation_input \<Rightarrow> exn + eth_call_result" where
  "faithful_call i = Inr (EthCallOk (ri_revenue i) (ri_gas i) (ri_swapCost i))"

lemma base_registry_get: "registry_get base_registry ''base'' = Inr (createRegisteredChain zero_aave base_input)"
  by (simp add: base_registry_def js_get_def)

lemma same_usdc [simp]: "assertSameAsset (usdc_amount a) (usdc_amount b) = Inr ()"
  by (simp add: assertSameAsset_def)

lemma create_usdc [simp]: "0 \<le> a \<Longrightarrow> createAssetAmount usdc a = Inr (usdc_amount a)"
  by (simp add: createAssetAmount_def createAsset_def usdc_def usdc_amount_def)

lemmas sample_simps = sample_sim_def sample_request_def route_selection_input.defs profit_simulation_input.defs
  faithful_call_def evaluate_def evaluate_simulated_def calculateDeterministicProfit_def net_profit_of_def
  calculateNetProfit_def or_zero_def subtractAssetAmounts_def meetsMargin_def meetsMinimumProfitMargin_def
  calculateMarginBps_def bdiv_def BPS_def

lemma sample_approved:
  "evaluate base_registry faithful_call (sample_sim 50) = Inr (Approved AaveV3 (usdc_amount 65) 722)"
  by (simp add: sample_simps base_registry_get)

theorem approved_is_profitable_witness: "0 < am_raw (usdc_amount 65) \<and> am_raw (usdc_amount 65) = 1000 - 935"
proof -
  have ok: "input_ok (sample_sim 50)"
    by (simp add: input_ok_def sample_simps np_costs_def usdc_amount_ok)
  have same: "sample_sim 50\<lparr>ri_revenue := usdc_amount 1000, ri_gas := usdc_amount 10, ri_swapCost := usdc_amount 20\<rparr> = sample_sim 50"
    by (simp add: sample_simps)
  have call: "faithful_call (sample_sim 50) = Inr (EthCallOk (usdc_amount 1000) (usdc_amount 10) (usdc_amount 20))"
    by (simp add: sample_simps)
  have "total_cost (sample_sim 50) = 935"
    by (simp add: total_cost_def sample_simps np_costs_def)
  with approved_is_profitable [OF sample_approved call] ok same show ?thesis
    by (simp add: sample_simps)
qed

text \<open>With a minimum margin of zero the engine approves a trade at a loss: a negative profit is
  replaced by zero before the margin test, and zero meets a zero margin. Here the costs are 1035
  against a revenue of 1000, and the route is approved with profit zero.\<close>

theorem zero_margin_approves_loss:
  "let i = sample_sim 0\<lparr>ps_flashLoanFee := usdc_amount 105\<rparr> in
     total_cost i = 1035 \<and> am_raw (ri_revenue i) = 1000 \<and>
     evaluate base_registry faithful_call i = Inr (Approved AaveV3 (usdc_amount 0) 0)"
proof -
  have neg: "str_includes ''Asset subtraction would be negative'' ''Asset subtraction would be negative''"
    by (rule str_includes_self)
  show ?thesis
    unfolding Let_def
    by (intro conjI) (simp_all add: sample_simps base_registry_get neg total_cost_def np_costs_def)
qed


definition sample_fees :: "flash_provider \<Rightarrow> asset_amount option" where
  "sample_fees p = (case p of AaveV3 \<Rightarrow> Some (usdc_amount 5) | Balancer \<Rightarrow> Some (usdc_amount 0) | UniswapV3 \<Rightarrow> None)"

lemma sample_selected:
  "fst (selectBestRoute base_registry faithful_call 1000 1000 (sample_request 50) (new_router sample_fees)) =
     Inr (RouteSelected Balancer (usdc_amount 70) 777)"
  by code_simp


text \<open>The route cache outlives what it was computed from: a route selected at most 30 seconds
  before is returned again although the provider's fee has been raised or the execution breaker has
  been opened since.\<close>

theorem route_cache_stale:
  assumes "selectBestRoute registry simulate now later i rt = (Inr result, rt')"
    and "js_get (fr_routeCache rt) (cacheKey i) = None"
    and "now2 - later < routeCacheTtlMs"
  shows "fst (selectBestRoute registry2 simulate2 now2 later2 i (setProviderFee p fee rt')) = Inr result"
proof -
  have "js_get (fr_routeCache rt') (cacheKey i) = Some (result, later)"
    using assms(1,2) by (auto simp: selectBestRoute_def Let_def cache_route_def split: sum.splits if_splits)
  with assms(3) show ?thesis by (simp add: selectBestRoute_def setProviderFee_def)
qed

theorem route_cache_stale_witness:
  "fst (selectBestRoute [] (\<lambda>_. Inl (Exn ''down'')) 30000 30000 (sample_request 50)
      (setProviderFee Balancer (usdc_amount 1000000)
        (snd (selectBestRoute base_registry faithful_call 1000 1000 (sample_request 50) (new_router sample_fees))))) =
    Inr (RouteSelected Balancer (usdc_amount 70) 777)"
proof -
  have sel: "selectBestRoute base_registry faithful_call 1000 1000 (sample_request 50) (new_router sample_fees) =
      (Inr (RouteSelected Balancer (usdc_amount 70) 777),
       snd (selectBestRoute base_registry faithful_call 1000 1000 (sample_request 50) (new_router sample_fees)))"
    using sample_selected by (simp add: prod_eq_iff)
  show ?thesis
    by (rule route_cache_stale [OF sel]) (simp_all add: new_router_def routeCacheTtlMs_def)
qed

definition BASE_USDC_ADDRESS :: address where
  "BASE_USDC_ADDRESS = ''0x833589fCD6eDb6E08f4c7C32D4f71b54bdA02913''"

definition BASE_WETH_ADDRESS :: address where
  "BASE_WETH_ADDRESS = ''0x4200000000000000000000000000000000000006''"

text \<open>The gas limits profiled for WETH collateral and USDC debt on Base are never used: the table's
  key misspells the USDC address, so the pair gets the provider's default limit.\<close>

theorem gas_table_misses_usdc:
  "\<not> snd (resolveLiquidationGasLimit BASE_WETH_ADDRESS BASE_USDC_ADDRESS AaveV3 True) \<and>
   \<not> snd (resolveLiquidationGasLimit BASE_WETH_ADDRESS BASE_USDC_ADDRESS Balancer True) \<and>
   fst (resolveLiquidationGasLimit BASE_WETH_ADDRESS BASE_USDC_ADDRESS AaveV3 True) = 1150000 \<and>
   fst (resolveLiquidationGasLimit BASE_WETH_ADDRESS BASE_USDC_ADDRESS Balancer True) = 1250000"
  by code_simp

end
