(* ===== verification/Safe_Executor.thy ===== *)
theory Safe_Executor
  imports Effects Nonce_Manager Profitability
begin

text \<open>
  \<open>src/executors/safeTransactionExecutor.ts\<close>: one execution of a liquidation or arbitrage request,
  from the circuit breaker to the receipt. The services the executor awaits (the route selector, the
  preflight client, the bundle router, the competitor model and the optional hooks) are the record
  \<open>exec_env\<close>; each call may throw and moves the external world. The nonce manager is reached
  through the operations in \<open>nonce_ops\<close>, so the lemmas about the executor hold for every
  \<open>nonce_provider\<close>.

  The state keeps, beside the nonce manager, the registry (its gas cache is written here) and the
  external world, a log of the calls that matter outside: the final simulations that succeeded, the
  transactions handed to a network, and the receipts seen. Loggers and latency metrics are not
  modelled. Other code that runs between two awaits of one execution is not modelled here; its effect
  on the nonces is the subject of theory \<open>Nonce_Manager\<close>.
\<close>

section \<open>Data\<close>

text \<open>
  The ABI call of a transaction envelope is its \<open>data\<close> in another form and is left out, as are the
  flash-block index and the detection time of a request, which only reach the logs.
\<close>

record transaction =
  tx_to :: address
  tx_data :: string
  tx_provider :: flash_provider

record overrides =
  ov_gas :: int
  ov_gasPrice :: int
  ov_nonce :: nat

datatype sim_outcome = SimSucceeded | SimRejected string

datatype receipt = Included | Underpriced | Reorged | Reverted "string option"

datatype bundle_route = PublicRpc | PrivateBundle

datatype exec_reject =
    RejRouteRejected | RejTransactionMismatch | RejFinalSimulationFailed | RejCircuitOpen
  | RejDustFiltered | RejBorrowerCooldown

datatype exec_fail = FailReceiptReorged | FailReceiptReverted | FailSendFailed

datatype exec_result = Sent string | Simulated | ExecRejected exec_reject | ExecFailed exec_fail

record competitor_risk =
  cr_riskBps :: int
  cr_observedCompetitors :: int

record gas_limit_hint =
  gh_collateralAsset :: address
  gh_debtAsset :: address
  gh_usesFlashWrapper :: bool

record exec_request =
  rq_chain :: string
  rq_account :: address
  rq_opportunityId :: string
  rq_gasProfileKey :: string
  rq_routeInput :: route_selection_input
  rq_gasLimitHint :: "gas_limit_hint option"
  rq_buildTransaction :: "route_result \<Rightarrow> exn + transaction"
  rq_buildPreview :: "(route_result \<Rightarrow> exn + transaction) option"

type_synonym ('w, 'a) service = "'w \<Rightarrow> (exn + 'a) \<times> 'w"

record 'w exec_env =
  ee_selectBestRoute :: "route_selection_input \<Rightarrow> ('w, route_result) service"
  ee_estimateGas :: "transaction \<Rightarrow> ('w, int) service"
  ee_getGasPrice :: "string \<Rightarrow> ('w, int) service"
  ee_getPendingNonce :: "string \<Rightarrow> address \<Rightarrow> ('w, nat) service"
  ee_simulateContract :: "transaction \<Rightarrow> overrides \<Rightarrow> ('w, sim_outcome) service"
  ee_send :: "transaction \<Rightarrow> overrides \<Rightarrow> ('w, string) service"
  ee_waitForReceipt :: "string \<Rightarrow> ('w, receipt) service"
  ee_competitorModel :: "(exec_request \<Rightarrow> transaction \<Rightarrow> overrides \<Rightarrow> ('w, competitor_risk) service) option"
  ee_bundleRouter :: "(exec_request \<Rightarrow> transaction \<Rightarrow> overrides \<Rightarrow> competitor_risk \<Rightarrow> ('w, string) service) option"
  ee_rejectBeforePreview :: "(exec_request \<Rightarrow> ('w, string option) service) option"
  ee_rejectBeforeBroadcast :: "(exec_request \<Rightarrow> ('w, string option) service) option"
  ee_quoteExecutionGasCap :: "(rat \<Rightarrow> int \<Rightarrow> ('w, int) service) option"
  ee_replacementBumpBps :: "int option"
  ee_privateBundleRiskThresholdBps :: "int option"
  ee_allowPublicFallback :: bool
  ee_privateFirstChains :: "string list"
  ee_dryRunMode :: bool

record 'n nonce_ops =
  no_reserve :: "string \<Rightarrow> address \<Rightarrow> exn + nat \<Rightarrow> 'n \<Rightarrow> (exn + nonce_reservation) \<times> 'n"
  no_release :: "nonce_reservation \<Rightarrow> 'n \<Rightarrow> 'n"
  no_resync :: "string \<Rightarrow> address \<Rightarrow> nat \<Rightarrow> 'n \<Rightarrow> 'n"

record ('n, 'w) exec_state =
  xs_nonces :: 'n
  xs_registry :: registry
  xs_world :: 'w
  xs_nowMs :: int
  xs_errors :: nat
  xs_simulatedOk :: "(transaction \<times> overrides) list"
  xs_submitted :: "(bundle_route \<times> transaction \<times> overrides) list"
  xs_receipts :: "(string \<times> receipt) list"

section \<open>Helpers\<close>

definition call :: "('w, 'a) service \<Rightarrow> (('n, 'w) exec_state, 'a) io" where
  "call f = (\<lambda>s. let (r, w) = f (xs_world s) in (r, s\<lparr>xs_world := w\<rparr>))"

definition recordError :: "(('n, 'w) exec_state, unit) io" where
  "recordError = io_modify (\<lambda>s. s\<lparr>xs_errors := Suc (xs_errors s)\<rparr>)"

definition bumpGasPrice :: "int \<Rightarrow> int \<Rightarrow> int" where
  "bumpGasPrice gasPrice bumpBps = gasPrice + bdiv (gasPrice * bumpBps) BPS"

fun toFailedReceipt :: "receipt \<Rightarrow> exec_result" where
  "toFailedReceipt Reorged = ExecFailed FailReceiptReorged"
| "toFailedReceipt (Reverted reason) = ExecFailed FailReceiptReverted"
| "toFailedReceipt _ = ExecFailed FailReceiptReverted"

definition isUnderpricedError :: "exn \<Rightarrow> bool" where
  "isUnderpricedError e = str_includes ''underpriced'' (to_lower (exn_message e))"

definition replacementBumpBps :: "'w exec_env \<Rightarrow> int" where
  "replacementBumpBps env = or_else (ee_replacementBumpBps env) 1250"

definition riskThresholdBps :: "'w exec_env \<Rightarrow> int" where
  "riskThresholdBps env = or_else (ee_privateBundleRiskThresholdBps env) 7000"

definition bumped :: "'w exec_env \<Rightarrow> overrides \<Rightarrow> overrides" where
  "bumped env ov = ov\<lparr>ov_gasPrice := bumpGasPrice (ov_gasPrice ov) (replacementBumpBps env)\<rparr>"

definition releaseNonce :: "'n nonce_ops \<Rightarrow> exec_request \<Rightarrow> nat \<Rightarrow> (('n, 'w) exec_state, unit) io" where
  "releaseNonce ops req nonce = io_modify (\<lambda>s. s\<lparr>xs_nonces :=
     no_release ops \<lparr>rv_chain = rq_chain req, rv_account = rq_account req, rv_nonce = nonce\<rparr> (xs_nonces s)\<rparr>)"

definition resyncNonce :: "'n nonce_ops \<Rightarrow> 'w exec_env \<Rightarrow> exec_request \<Rightarrow> (('n, 'w) exec_state, unit) io" where
  "resyncNonce ops env req =
     io_bind (call (ee_getPendingNonce env (rq_chain req) (rq_account req)))
       (\<lambda>nextNonce. io_modify (\<lambda>s. s\<lparr>xs_nonces := no_resync ops (rq_chain req) (rq_account req) nextNonce (xs_nonces s)\<rparr>))"

definition assertRouteMatchesRequest :: "exec_request \<Rightarrow> (('n, 'w) exec_state, unit) io" where
  "assertRouteMatchesRequest req =
     (if rq_chain req \<noteq> ri_chain (rq_routeInput req) then io_throw (Exn ''Execution route chain mismatch'')
      else io_return ())"

section \<open>Preflight\<close>

text \<open>
  The route, the gas price and the nonce are requested together (\<open>Promise.all\<close>). If one of them
  fails, a reservation that was made is released and the first failure is thrown.
\<close>

definition preflight_values ::
  "exn + route_result \<Rightarrow> exn + int \<Rightarrow> exn + nonce_reservation \<Rightarrow> exn + (route_result \<times> int \<times> nat)" where
  "preflight_values route gasPrice reservation =
     (case route of Inl e \<Rightarrow> Inl e
      | Inr r \<Rightarrow> (case gasPrice of Inl e \<Rightarrow> Inl e
         | Inr g \<Rightarrow> (case reservation of Inl e \<Rightarrow> Inl e
            | Inr n \<Rightarrow> Inr (r, g, rv_nonce n))))"

definition runPreflight ::
  "'n nonce_ops \<Rightarrow> 'w exec_env \<Rightarrow> exec_request \<Rightarrow> (('n, 'w) exec_state, route_result \<times> int \<times> nat) io" where
  "runPreflight ops env req = (\<lambda>s0.
     let (pending, s1) = call (ee_getPendingNonce env (rq_chain req) (rq_account req)) s0;
         (reservation, n) = no_reserve ops (rq_chain req) (rq_account req) pending (xs_nonces s1);
         (route, s2) = call (ee_selectBestRoute env (rq_routeInput req)) (s1\<lparr>xs_nonces := n\<rparr>);
         (gasPrice, s3) = call (ee_getGasPrice env (rq_chain req)) s2
     in case preflight_values route gasPrice reservation of
          Inr v \<Rightarrow> (Inr v, s3)
        | Inl e \<Rightarrow> (Inl e, (case reservation of
              Inr r \<Rightarrow> s3\<lparr>xs_nonces := no_release ops r (xs_nonces s3)\<rparr> | Inl _ \<Rightarrow> s3)))"

section \<open>Gas limit\<close>

text \<open>The cache is one \<open>Map\<close> shared by all versions of the chain's entry.\<close>

definition cacheGas :: "exec_request \<Rightarrow> int \<Rightarrow> (('n, 'w) exec_state, unit) io" where
  "cacheGas req gasLimit = io_modify (\<lambda>s.
     case js_get (xs_registry s) (rq_chain req) of
       None \<Rightarrow> s
     | Some entry \<Rightarrow> s\<lparr>xs_registry := js_set (rq_chain req)
         (entry\<lparr>rc_gasProfileCache := js_set (rq_gasProfileKey req)
            \<lparr>gp_gasLimit = gasLimit, gp_updatedAtMs = xs_nowMs s\<rparr> (rc_gasProfileCache entry)\<rparr>) (xs_registry s)\<rparr>)"

definition getGasLimit :: "'w exec_env \<Rightarrow> exec_request \<Rightarrow> transaction \<Rightarrow> (('n, 'w) exec_state, int) io" where
  "getGasLimit env req tx =
     io_bind (io_get (\<lambda>s. registry_get (xs_registry s) (rq_chain req))) (\<lambda>entry.
     io_bind (io_lift entry) (\<lambda>chain.
       case js_get (rc_gasProfileCache chain) (rq_gasProfileKey req) of
         Some cached \<Rightarrow> io_return (gp_gasLimit cached)
       | None \<Rightarrow>
           (case rq_gasLimitHint req of
              Some hint \<Rightarrow>
                (let (gasLimit, fromTable) = resolveLiquidationGasLimit (gh_collateralAsset hint)
                       (gh_debtAsset hint) (tx_provider tx) (gh_usesFlashWrapper hint)
                 in io_then (cacheGas req gasLimit) (io_return gasLimit))
            | None \<Rightarrow>
                io_then recordError
                  (io_bind (call (ee_estimateGas env tx)) (\<lambda>gasLimit.
                     io_then (cacheGas req gasLimit) (io_return gasLimit))))))"

section \<open>Sending\<close>

definition log_submission :: "bundle_route \<Rightarrow> transaction \<Rightarrow> overrides \<Rightarrow> (('n, 'w) exec_state, unit) io" where
  "log_submission route tx ov = io_modify (\<lambda>s. s\<lparr>xs_submitted := xs_submitted s @ [(route, tx, ov)]\<rparr>)"

definition publicSend :: "'w exec_env \<Rightarrow> transaction \<Rightarrow> overrides \<Rightarrow> (('n, 'w) exec_state, string) io" where
  "publicSend env tx ov = io_then (log_submission PublicRpc tx ov) (call (ee_send env tx ov))"

definition handleBundleFailure ::
  "'w exec_env \<Rightarrow> transaction \<Rightarrow> overrides \<Rightarrow> exn \<Rightarrow> (('n, 'w) exec_state, string) io" where
  "handleBundleFailure env tx ov error =
     io_then recordError (if ee_allowPublicFallback env then publicSend env tx ov else io_throw error)"

definition bundleSend ::
  "'w exec_env \<Rightarrow> transaction \<Rightarrow> overrides \<Rightarrow> ('w, string) service \<Rightarrow> (('n, 'w) exec_state, string) io" where
  "bundleSend env tx ov send =
     io_then (log_submission PrivateBundle tx ov)
       (io_catch (call send) (handleBundleFailure env tx ov))"

definition assessCompetitorRisk ::
  "'w exec_env \<Rightarrow> exec_request \<Rightarrow> transaction \<Rightarrow> overrides \<Rightarrow>
   (('n, 'w) exec_state, competitor_risk option) io" where
  "assessCompetitorRisk env req tx ov =
     (case ee_competitorModel env of
        None \<Rightarrow> io_return None
      | Some assess \<Rightarrow>
          io_catch (io_bind (call (assess req tx ov)) (\<lambda>risk. io_return (Some risk)))
            (\<lambda>_. io_then recordError (io_return None)))"

definition sendTransaction ::
  "'w exec_env \<Rightarrow> exec_request \<Rightarrow> transaction \<Rightarrow> overrides \<Rightarrow> (('n, 'w) exec_state, string) io" where
  "sendTransaction env req tx ov =
     (case ee_bundleRouter env of
        None \<Rightarrow> io_then (assessCompetitorRisk env req tx ov) (publicSend env tx ov)
      | Some router \<Rightarrow>
          (if rq_chain req \<in> set (ee_privateFirstChains env)
           then bundleSend env tx ov (router req tx ov \<lparr>cr_riskBps = riskThresholdBps env, cr_observedCompetitors = 0\<rparr>)
           else io_bind (assessCompetitorRisk env req tx ov) (\<lambda>risk.
             case risk of
               None \<Rightarrow> publicSend env tx ov
             | Some r \<Rightarrow>
                 (if riskThresholdBps env \<le> cr_riskBps r then bundleSend env tx ov (router req tx ov r)
                  else publicSend env tx ov))))"

definition sendReplacement ::
  "'n nonce_ops \<Rightarrow> 'w exec_env \<Rightarrow> exec_request \<Rightarrow> transaction \<Rightarrow> overrides \<Rightarrow>
   (('n, 'w) exec_state, string option) io" where
  "sendReplacement ops env req tx ov =
     io_catch (io_bind (sendTransaction env req tx ov) (\<lambda>hash. io_return (Some hash)))
       (\<lambda>_. io_then (resyncNonce ops env req) (io_return None))"

definition sendOrReplaceUnderpriced ::
  "'n nonce_ops \<Rightarrow> 'w exec_env \<Rightarrow> exec_request \<Rightarrow> transaction \<Rightarrow> overrides \<Rightarrow>
   (('n, 'w) exec_state, string option) io" where
  "sendOrReplaceUnderpriced ops env req tx ov =
     io_catch (io_bind (sendTransaction env req tx ov) (\<lambda>hash. io_return (Some hash)))
       (\<lambda>error. if \<not> isUnderpricedError error
         then io_then (resyncNonce ops env req) (io_return None)
         else sendReplacement ops env req tx (bumped env ov))"

definition waitForReceipt :: "'w exec_env \<Rightarrow> string \<Rightarrow> (('n, 'w) exec_state, receipt) io" where
  "waitForReceipt env hash =
     io_bind (call (ee_waitForReceipt env hash)) (\<lambda>receipt.
       io_then (io_modify (\<lambda>s. s\<lparr>xs_receipts := xs_receipts s @ [(hash, receipt)]\<rparr>)) (io_return receipt))"

definition submitWithReplacement ::
  "'n nonce_ops \<Rightarrow> 'w exec_env \<Rightarrow> exec_request \<Rightarrow> transaction \<Rightarrow> overrides \<Rightarrow>
   (('n, 'w) exec_state, exec_result) io" where
  "submitWithReplacement ops env req tx ov =
     io_bind (sendOrReplaceUnderpriced ops env req tx ov) (\<lambda>first.
       case first of
         None \<Rightarrow> io_return (ExecFailed FailSendFailed)
       | Some firstHash \<Rightarrow>
           io_bind (waitForReceipt env firstHash) (\<lambda>firstReceipt.
             if firstReceipt = Included then io_return (Sent firstHash)
             else if firstReceipt = Underpriced then
               io_bind (sendReplacement ops env req tx (bumped env ov)) (\<lambda>replacement.
                 case replacement of
                   None \<Rightarrow> io_return (ExecFailed FailSendFailed)
                 | Some replacementHash \<Rightarrow>
                     io_bind (waitForReceipt env replacementHash) (\<lambda>replacementReceipt.
                       if replacementReceipt = Included then io_return (Sent replacementHash)
                       else io_return (toFailedReceipt replacementReceipt)))
             else io_return (toFailedReceipt firstReceipt)))"

section \<open>Execution\<close>

definition reject_with ::
  "'n nonce_ops \<Rightarrow> exec_request \<Rightarrow> nat \<Rightarrow> exec_reject \<Rightarrow> (('n, 'w) exec_state, exec_result) io" where
  "reject_with ops req nonce reason = io_then (releaseNonce ops req nonce) (io_return (ExecRejected reason))"

text \<open>An optional hook: \<open>await hook?.(request)\<close>.\<close>

definition hook ::
  "(exec_request \<Rightarrow> ('w, string option) service) option \<Rightarrow> exec_request \<Rightarrow> (('n, 'w) exec_state, string option) io" where
  "hook h req = (case h of None \<Rightarrow> io_return None | Some f \<Rightarrow> call (f req))"

definition preview_reject_reason :: "string \<Rightarrow> exec_reject" where
  "preview_reject_reason reason =
     (if reason = ''borrower_cooldown'' then RejBorrowerCooldown
      else if str_startsWith ''dust:'' reason then RejDustFiltered
      else RejFinalSimulationFailed)"

text \<open>Lines 201 to 260: the final simulation, the dry-run exit, the last hook and the submission.\<close>

definition simulate_and_submit ::
  "'n nonce_ops \<Rightarrow> 'w exec_env \<Rightarrow> exec_request \<Rightarrow> transaction \<Rightarrow> overrides \<Rightarrow>
   (('n, 'w) exec_state, exec_result) io" where
  "simulate_and_submit ops env req tx ov =
     io_bind (call (ee_simulateContract env tx ov)) (\<lambda>dryRun.
       case dryRun of
         SimRejected _ \<Rightarrow> reject_with ops req (ov_nonce ov) RejFinalSimulationFailed
       | SimSucceeded \<Rightarrow>
           io_then (io_modify (\<lambda>s. s\<lparr>xs_simulatedOk := xs_simulatedOk s @ [(tx, ov)]\<rparr>))
             (if ee_dryRunMode env
              then io_then (releaseNonce ops req (ov_nonce ov)) (io_return Simulated)
              else io_bind (hook (ee_rejectBeforeBroadcast env) req) (\<lambda>reason.
                case reason of
                  Some _ \<Rightarrow> reject_with ops req (ov_nonce ov) RejFinalSimulationFailed
                | None \<Rightarrow> submitWithReplacement ops env req tx ov)))"

text \<open>Lines 173 to 199: the flash-loan preview, when the request has one.\<close>

definition preview_then ::
  "'n nonce_ops \<Rightarrow> 'w exec_env \<Rightarrow> exec_request \<Rightarrow> route_result \<Rightarrow> overrides \<Rightarrow>
   (('n, 'w) exec_state, exec_result) io \<Rightarrow> (('n, 'w) exec_state, exec_result) io" where
  "preview_then ops env req route ov continue =
     (case rq_buildPreview req of
        None \<Rightarrow> continue
      | Some build \<Rightarrow>
          io_bind (hook (ee_rejectBeforePreview env) req) (\<lambda>reason.
            case reason of
              Some r \<Rightarrow> reject_with ops req (ov_nonce ov) (preview_reject_reason r)
            | None \<Rightarrow>
                io_bind (io_lift (build route)) (\<lambda>previewTx.
                io_bind (call (ee_simulateContract env previewTx ov)) (\<lambda>preview.
                  case preview of
                    SimRejected _ \<Rightarrow> reject_with ops req (ov_nonce ov) RejFinalSimulationFailed
                  | SimSucceeded \<Rightarrow> continue))))"

definition quote_gas_cap ::
  "'w exec_env \<Rightarrow> asset_amount \<Rightarrow> int \<Rightarrow> (('n, 'w) exec_state, int option) io" where
  "quote_gas_cap env netProfit gas =
     (case ee_quoteExecutionGasCap env of
        None \<Rightarrow> io_return None
      | Some quote \<Rightarrow>
          io_bind (call (quote (of_int (am_raw netProfit) / 10 ^ 8) gas)) (\<lambda>cap. io_return (Some cap)))"

definition capped_gas_price :: "int \<Rightarrow> int option \<Rightarrow> int" where
  "capped_gas_price gasPrice cap =
     (case cap of None \<Rightarrow> gasPrice | Some c \<Rightarrow> if gasPrice < c then gasPrice else c)"

definition execute_body ::
  "'n nonce_ops \<Rightarrow> 'w exec_env \<Rightarrow> exec_request \<Rightarrow> (('n, 'w) exec_state, exec_result) io" where
  "execute_body ops env req =
     io_then (assertRouteMatchesRequest req)
     (io_bind (io_get (\<lambda>s. registry_get (xs_registry s) (rq_chain req))) (\<lambda>entry.
      io_bind (io_lift entry) (\<lambda>chain.
        if cb_status (cbs_execution (rc_circuitBreakers chain)) = Open
        then io_return (ExecRejected RejCircuitOpen)
        else io_bind (runPreflight ops env req) (\<lambda>(route, gasPrice, nonce).
          case route of
            RouteRejected _ \<Rightarrow> reject_with ops req nonce RejRouteRejected
          | RouteSelected provider netProfit marginBps \<Rightarrow>
              io_bind (io_lift (rq_buildTransaction req route)) (\<lambda>tx.
                if provider \<noteq> tx_provider tx then reject_with ops req nonce RejTransactionMismatch
                else io_bind (getGasLimit env req tx) (\<lambda>gas.
                  io_bind (quote_gas_cap env netProfit gas) (\<lambda>cap.
                    let ov = \<lparr>ov_gas = gas, ov_gasPrice = capped_gas_price gasPrice cap, ov_nonce = nonce\<rparr>
                    in preview_then ops env req route ov (simulate_and_submit ops env req tx ov))))))))"

definition execute ::
  "'n nonce_ops \<Rightarrow> 'w exec_env \<Rightarrow> exec_request \<Rightarrow> (('n, 'w) exec_state, exec_result) io" where
  "execute ops env req = io_catch (execute_body ops env req) (\<lambda>e. io_then recordError (io_throw e))"


section \<open>Frames\<close>

text \<open>
  A quiet property of the state does not look at the registry, the world or the error counter; a log
  property does not look at the nonces either. Everything the executor does before a submission,
  other than its use of the nonces, keeps a quiet property.
\<close>

definition quiet_property :: "(('n, 'w) exec_state \<Rightarrow> bool) \<Rightarrow> bool" where
  "quiet_property P \<longleftrightarrow>
     (\<forall>s w. P s \<longrightarrow> P (s\<lparr>xs_world := w\<rparr>)) \<and> (\<forall>s r. P s \<longrightarrow> P (s\<lparr>xs_registry := r\<rparr>)) \<and>
     (\<forall>s k. P s \<longrightarrow> P (s\<lparr>xs_errors := k\<rparr>))"

definition log_property :: "(('n, 'w) exec_state \<Rightarrow> bool) \<Rightarrow> bool" where
  "log_property P \<longleftrightarrow> quiet_property P \<and> (\<forall>s n. P s \<longrightarrow> P (s\<lparr>xs_nonces := n\<rparr>))"

lemma quiet_propertyD:
  assumes "quiet_property P" "P s"
  shows "P (s\<lparr>xs_world := w\<rparr>)" "P (s\<lparr>xs_registry := r\<rparr>)" "P (s\<lparr>xs_errors := k\<rparr>)"
  using assms by (auto simp: quiet_property_def)

lemma log_propertyD:
  assumes "log_property P" "P s"
  shows "P (s\<lparr>xs_world := w\<rparr>)" "P (s\<lparr>xs_nonces := n\<rparr>)" "P (s\<lparr>xs_registry := r\<rparr>)" "P (s\<lparr>xs_errors := k\<rparr>)"
  using assms by (auto simp: log_property_def quiet_property_def)

lemma log_quiet: "log_property P \<Longrightarrow> quiet_property P"
  by (simp add: log_property_def)

lemma keeps_call [io_rules]: "quiet_property P \<Longrightarrow> io_keeps P (call f)"
  unfolding io_keeps_def
  by (rule io_validI) (auto simp: call_def split: prod.splits intro: quiet_propertyD)

lemma keeps_quiet [io_rules]:
  assumes "quiet_property P"
  shows "io_keeps P recordError" "io_keeps P (cacheGas req g)" "io_keeps P (assertRouteMatchesRequest req)"
    "io_keeps P (hook h req)" "io_keeps P (quote_gas_cap env np g)" "io_keeps P (assessCompetitorRisk env req tx ov)"
  unfolding recordError_def cacheGas_def assertRouteMatchesRequest_def hook_def quote_gas_cap_def
    assessCompetitorRisk_def
  by (auto intro!: io_rules assms intro: quiet_propertyD [OF assms] split: option.splits)

lemma keeps_getGasLimit [io_rules]:
  assumes "quiet_property P"
  shows "io_keeps P (getGasLimit env req tx)"
  unfolding getGasLimit_def
  by (auto intro!: io_rules assms split: option.splits prod.splits)

lemma keeps_internal [io_rules]:
  assumes "log_property P"
  shows "io_keeps P (releaseNonce ops req n)" "io_keeps P (resyncNonce ops env req)" "io_keeps P (reject_with ops req n reason)"
  unfolding releaseNonce_def resyncNonce_def reject_with_def
  by (auto intro!: io_rules log_quiet assms intro: log_propertyD [OF assms] split: option.splits)

lemma keeps_preflight [io_rules]:
  assumes "log_property P"
  shows "io_keeps P (runPreflight ops env req)"
  unfolding io_keeps_def
proof (rule io_validI)
  have call_snd: "P s \<Longrightarrow> P (snd (call f s))" for s :: "('a, 'b) exec_state" and f :: "('b, 'c) service"
    by (rule io_keepsD [OF keeps_call [OF log_quiet [OF assms]]])
  note steps = call_snd log_propertyD [OF assms]
  have "P (snd (runPreflight ops env req s))" if "P s" for s
    unfolding runPreflight_def
    by (simp add: case_prod_unfold Let_def split: sum.splits)
      (auto intro!: log_propertyD [OF assms] io_keepsD [OF keeps_call [OF log_quiet [OF assms]]] that)
  then show "P s \<Longrightarrow> runPreflight ops env req s = (Inr a, s') \<Longrightarrow> P s'"
    "P s \<Longrightarrow> runPreflight ops env req s = (Inl e, s') \<Longrightarrow> P s'" for s a e s'
    by (metis snd_conv)+
qed

text \<open>What a submission may add to the log: the transaction as simulated, or at the bumped price.\<close>

definition sends_only ::
  "(bundle_route \<times> transaction \<times> overrides) list \<Rightarrow> 'w exec_env \<Rightarrow> transaction \<Rightarrow> overrides \<Rightarrow> nat \<Rightarrow>
   ('n, 'w) exec_state \<Rightarrow> bool" where
  "sends_only old env tx ov k s \<longleftrightarrow> (tx, ov) \<in> set (xs_simulatedOk s) \<and>
     (\<exists>new. xs_submitted s = old @ new \<and> length new \<le> k \<and>
        (\<forall>(route, t, o') \<in> set new. t = tx \<and> (o' = ov \<or> o' = bumped env ov)))"

lemma log_property_sends_only: "log_property (sends_only old env tx ov k)"
  by (simp add: log_property_def quiet_property_def sends_only_def)

lemma log_property_submitted: "log_property (\<lambda>s. xs_submitted s = old)"
  by (simp add: log_property_def quiet_property_def)

lemma sends_only_mono: "sends_only old env tx ov k s \<Longrightarrow> k \<le> k' \<Longrightarrow> sends_only old env tx ov k' s"
  unfolding sends_only_def using le_trans by blast

lemma log_submission_sends:
  assumes "ov' = ov \<or> ov' = bumped env ov"
  shows "io_valid (sends_only old env tx ov k) (log_submission route tx ov')
    (\<lambda>_. sends_only old env tx ov (Suc k)) (\<lambda>_. sends_only old env tx ov (Suc k))"
  unfolding log_submission_def
proof (rule io_valid_modify)
  fix s
  assume "sends_only old env tx ov k s"
  then obtain new where "(tx, ov) \<in> set (xs_simulatedOk s)" "xs_submitted s = old @ new" "length new \<le> k"
    "\<forall>(route, t, o') \<in> set new. t = tx \<and> (o' = ov \<or> o' = bumped env ov)"
    by (auto simp: sends_only_def)
  then show "sends_only old env tx ov (Suc k) (s\<lparr>xs_submitted := xs_submitted s @ [(route, tx, ov')]\<rparr>)"
    using assms by (auto simp: sends_only_def intro!: exI [of _ "new @ [(route, tx, ov')]"])
qed

lemma valid_keeps: "io_keeps P m \<Longrightarrow> io_valid P m (\<lambda>_. P) (\<lambda>_. P)"
  by (simp add: io_keeps_def)

lemma call_sends:
  "io_valid (sends_only old env tx ov k) (call f) (\<lambda>_. sends_only old env tx ov k) (\<lambda>_. sends_only old env tx ov k)"
  by (rule valid_keeps [OF keeps_call [OF log_quiet [OF log_property_sends_only]]])

lemma publicSend_sends:
  assumes "ov' = ov \<or> ov' = bumped env ov"
  shows "io_valid (sends_only old env tx ov k) (publicSend env tx ov')
    (\<lambda>_. sends_only old env tx ov (Suc k)) (\<lambda>_. sends_only old env tx ov (Suc k))"
  unfolding publicSend_def
  by (rule io_valid_then [OF log_submission_sends [OF assms] call_sends])

lemma bundleSend_sends:
  assumes "ov' = ov \<or> ov' = bumped env ov"
  shows "io_valid (sends_only old env tx ov k) (bundleSend env tx ov' send)
    (\<lambda>_. sends_only old env tx ov (k + 2)) (\<lambda>_. sends_only old env tx ov (k + 2))"
proof -
  let ?P = "\<lambda>_. sends_only old env tx ov (k + 2)"
  have choice: "io_valid (sends_only old env tx ov (Suc k))
      (if ee_allowPublicFallback env then publicSend env tx ov' else io_throw e) ?P ?P" for e
    using publicSend_sends [OF assms, of old tx "Suc k"]
    by (auto intro!: io_valid_if io_valid_throw intro: sends_only_mono)
  have err: "io_valid (sends_only old env tx ov (Suc k)) recordError (\<lambda>_. sends_only old env tx ov (Suc k)) ?P"
    by (rule io_valid_weaken [OF valid_keeps [OF keeps_quiet(1) [OF log_quiet [OF log_property_sends_only [of old env tx ov "Suc k"]]]]])
      (auto intro: sends_only_mono)
  have fallback: "io_valid (sends_only old env tx ov (Suc k)) (handleBundleFailure env tx ov' e) ?P ?P" for e
    unfolding handleBundleFailure_def by (rule io_valid_then [OF err choice])
  have attempt: "io_valid (sends_only old env tx ov (Suc k)) (io_catch (call send) (handleBundleFailure env tx ov')) ?P ?P"
    by (rule io_valid_catch [OF io_valid_weaken [OF call_sends [of old env tx ov "Suc k"]] fallback])
      (auto intro: sends_only_mono)
  show ?thesis
    unfolding bundleSend_def
    by (rule io_valid_then [OF io_valid_weaken [OF log_submission_sends [OF assms, of old tx k]] attempt])
      (auto intro: sends_only_mono)
qed


lemma quiet_sends:
  assumes "\<And>P. log_property P \<Longrightarrow> io_keeps P m" "k \<le> k'"
  shows "io_valid (sends_only old env tx ov k) m (\<lambda>_. sends_only old env tx ov k) (\<lambda>_. sends_only old env tx ov k')"
  using io_valid_weaken [OF valid_keeps [OF assms(1) [OF log_property_sends_only [of old env tx ov k]]],
      of "sends_only old env tx ov k" "\<lambda>_. sends_only old env tx ov k" "\<lambda>_. sends_only old env tx ov k'"]
    sends_only_mono [OF _ assms(2)] by blast

lemma sendTransaction_sends:
  assumes "ov' = ov \<or> ov' = bumped env ov"
  shows "io_valid (sends_only old env tx ov k) (sendTransaction env req tx ov')
    (\<lambda>_. sends_only old env tx ov (k + 2)) (\<lambda>_. sends_only old env tx ov (k + 2))"
proof -
  note assess = quiet_sends [OF keeps_quiet(6) [OF log_quiet], of k "k + 2" old env tx ov env req tx ov']
  note private_send = bundleSend_sends [OF assms]
  have public: "io_valid (sends_only old env tx ov k) (publicSend env tx ov')
      (\<lambda>_. sends_only old env tx ov (k + 2)) (\<lambda>_. sends_only old env tx ov (k + 2))"
    by (rule io_valid_weaken [OF publicSend_sends [OF assms, of old tx k]]) (auto intro: sends_only_mono)
  show ?thesis
    unfolding sendTransaction_def
    by (intro io_valid_option io_valid_if io_valid_then [OF assess] io_valid_bind [OF assess] public private_send) simp_all
qed

lemma log_property_resync: "log_property P \<Longrightarrow> io_keeps P (io_then (resyncNonce ops env req) (io_return a))"
  by (intro io_rules log_quiet)

lemma sendReplacement_sends:
  assumes "ov' = ov \<or> ov' = bumped env ov"
  shows "io_valid (sends_only old env tx ov k) (sendReplacement ops env req tx ov')
    (\<lambda>_. sends_only old env tx ov (k + 2)) (\<lambda>_. sends_only old env tx ov (k + 2))"
  unfolding sendReplacement_def
  by (intro io_valid_catch [OF io_valid_bind [OF sendTransaction_sends [OF assms]]] io_valid_return
      quiet_sends [OF log_property_resync]) simp_all

lemma sendOrReplace_sends:
  "io_valid (sends_only old env tx ov k) (sendOrReplaceUnderpriced ops env req tx ov)
    (\<lambda>_. sends_only old env tx ov (k + 4)) (\<lambda>_. sends_only old env tx ov (k + 4))"
proof -
  let ?P = "\<lambda>_. sends_only old env tx ov (k + 4)"
  have resync: "io_valid (sends_only old env tx ov (k + 2)) (io_then (resyncNonce ops env req) (io_return None)) ?P ?P"
    by (rule io_valid_weaken [OF quiet_sends [OF log_property_resync, of "k + 2" "k + 4"]]) (auto intro: sends_only_mono)
  have replace: "io_valid (sends_only old env tx ov (k + 2)) (sendReplacement ops env req tx (bumped env ov)) ?P ?P"
    using sendReplacement_sends [of "bumped env ov" ov env old tx "k + 2"] by (simp add: eval_nat_numeral)
  have first: "io_valid (sends_only old env tx ov k)
      (io_bind (sendTransaction env req tx ov) (\<lambda>hash. io_return (Some hash))) ?P (\<lambda>_. sends_only old env tx ov (k + 2))"
    by (rule io_valid_bind [OF sendTransaction_sends]) (auto intro!: io_valid_return intro: sends_only_mono)
  show ?thesis
    unfolding sendOrReplaceUnderpriced_def
    by (intro io_valid_catch [OF first] io_valid_if resync replace)
qed

lemma keeps_waitForReceipt:
  assumes "log_property P" "\<And>s l. P s \<Longrightarrow> P (s\<lparr>xs_receipts := l\<rparr>)"
  shows "io_keeps P (waitForReceipt env hash)"
  unfolding waitForReceipt_def by (intro io_rules log_quiet assms)

lemma waitForReceipt_sends:
  "io_valid (sends_only old env tx ov k) (waitForReceipt env hash)
     (\<lambda>_. sends_only old env tx ov k) (\<lambda>_. sends_only old env tx ov k)"
  by (rule valid_keeps [OF keeps_waitForReceipt [OF log_property_sends_only]]) (simp add: sends_only_def)

lemma submit_sends:
  "io_valid (sends_only old env tx ov 0) (submitWithReplacement ops env req tx ov)
     (\<lambda>_. sends_only old env tx ov 6) (\<lambda>_. sends_only old env tx ov 6)"
proof -
  let ?P = "\<lambda>_. sends_only old env tx ov 6"
  have wait: "io_valid (sends_only old env tx ov k) (waitForReceipt env hash) (\<lambda>_. sends_only old env tx ov k) ?P"
    if "k \<le> 6" for k hash
    by (rule io_valid_weaken [OF waitForReceipt_sends [of old env tx ov k]]) (auto intro: sends_only_mono that)
  have finish: "io_valid (sends_only old env tx ov k) (io_return r) ?P ?P" if "k \<le> 6" for k r
    by (rule io_valid_return) (auto intro: sends_only_mono that)
  have first: "io_valid (sends_only old env tx ov 0) (sendOrReplaceUnderpriced ops env req tx ov)
      (\<lambda>_. sends_only old env tx ov 4) ?P"
    by (rule io_valid_weaken [OF sendOrReplace_sends [of old env tx ov 0]]) (auto intro: sends_only_mono)
  have second: "io_valid (sends_only old env tx ov 4) (sendReplacement ops env req tx (bumped env ov)) ?P ?P"
    using sendReplacement_sends [of "bumped env ov" ov env old tx 4] by simp
  show ?thesis
    unfolding submitWithReplacement_def
    by (intro io_valid_bind [OF first] io_valid_bind [OF second] io_valid_bind [OF wait] io_valid_option io_valid_if finish)
      simp_all
qed


section \<open>A rule for one execution\<close>

text \<open>
  The property \<open>P0\<close> holds until a nonce is reserved, \<open>P n\<close> while nonce \<open>n\<close> is reserved, \<open>E\<close> when an
  exception is thrown.
\<close>

lemma verdict_valid:
  "io_valid P m Q E \<Longrightarrow> (\<And>x. io_valid P (f x) Q E) \<Longrightarrow>
   io_valid P (case v of SimSucceeded \<Rightarrow> m | SimRejected x \<Rightarrow> f x) Q E"
  by (cases v) simp_all

lemma preview_valid:
  assumes quiet: "quiet_property P" and m: "io_valid P m Q E"
    and rej: "\<And>r. io_valid P (reject_with ops req (ov_nonce ov) r) Q E" and err: "\<And>e s. P s \<Longrightarrow> E e s"
  shows "io_valid P (preview_then ops env req route ov m) Q E"
proof -
  have calm: "io_valid P n (\<lambda>_. P) E" if "io_keeps P n" for n :: "(('a, 'b) exec_state, 'c) io"
    by (rule io_valid_weaken [OF valid_keeps [OF that]]) (auto intro: err)
  note hook = calm [OF keeps_quiet(4) [OF quiet]] and sim = calm [OF keeps_call [OF quiet]] and lift = calm [OF io_keeps_lift]
  show ?thesis
    unfolding preview_then_def
    by (intro io_valid_option m io_valid_bind [OF hook] io_valid_bind [OF lift] io_valid_bind [OF sim] rej verdict_valid)
qed

lemma execute_valid:
  assumes quiet: "quiet_property P0" "\<And>n. quiet_property (P n)"
    and open_circuit: "\<And>s. P0 s \<Longrightarrow> Q (ExecRejected RejCircuitOpen) s"
    and preflight: "io_valid P0 (runPreflight ops env req) (\<lambda>(route, gasPrice, n). P n) E"
    and rej: "\<And>n r. io_valid (P n) (reject_with ops req n r) Q E"
    and simulate: "\<And>tx ov. io_valid (P (ov_nonce ov)) (simulate_and_submit ops env req tx ov) Q E"
    and err: "\<And>e s. P0 s \<Longrightarrow> E e s" "\<And>n e s. P n s \<Longrightarrow> E e s" "\<And>e. quiet_property (E e)"
  shows "io_valid P0 (execute ops env req) Q E"
proof -
  have calm0: "io_valid P0 n (\<lambda>_. P0) E" if "io_keeps P0 n" for n :: "(('a, 'b) exec_state, 'c) io"
    by (rule io_valid_weaken [OF valid_keeps [OF that]]) (auto intro: err)
  have calm: "io_valid (P k) n (\<lambda>_. P k) E" if "io_keeps (P k) n" for k and n :: "(('a, 'b) exec_state, 'c) io"
    by (rule io_valid_weaken [OF valid_keeps [OF that]]) (auto intro: err)
  note lift = calm [OF io_keeps_lift] and gas = calm [OF keeps_getGasLimit [OF quiet(2)]]
    and cap = calm [OF keeps_quiet(5) [OF quiet(2)]]
  have selected: "io_valid (P n)
      (case route of
         RouteRejected r \<Rightarrow> reject_with ops req n RejRouteRejected
       | RouteSelected provider netProfit marginBps \<Rightarrow>
           io_bind (io_lift (rq_buildTransaction req route)) (\<lambda>tx.
             if provider \<noteq> tx_provider tx then reject_with ops req n RejTransactionMismatch
             else io_bind (getGasLimit env req tx) (\<lambda>gas.
               io_bind (quote_gas_cap env netProfit gas) (\<lambda>cap.
                 let ov = \<lparr>ov_gas = gas, ov_gasPrice = capped_gas_price gasPrice cap, ov_nonce = n\<rparr>
                 in preview_then ops env req route ov (simulate_and_submit ops env req tx ov))))) Q E" for n route gasPrice
  proof (cases route)
    case (RouteSelected provider netProfit marginBps)
    have send: "io_valid (P n) (let ov = \<lparr>ov_gas = gas, ov_gasPrice = capped_gas_price gasPrice cap, ov_nonce = n\<rparr>
        in preview_then ops env req route ov (simulate_and_submit ops env req tx ov)) Q E" for gas cap tx
      unfolding Let_def
      by (rule preview_valid [OF quiet(2)]) (use rej simulate [of "\<lparr>ov_gas = _, ov_gasPrice = _, ov_nonce = n\<rparr>"] err in auto)
    show ?thesis
      unfolding RouteSelected route_result.simps
      by (intro io_valid_bind [OF lift] io_valid_if rej io_valid_bind [OF gas] io_valid_bind [OF cap]
          send [unfolded RouteSelected])
  qed (simp add: rej)
  have chain: "io_valid P0 (if cb_status (cbs_execution (rc_circuitBreakers chain)) = Open
       then io_return (ExecRejected RejCircuitOpen) else io_bind (runPreflight ops env req) f) Q E"
    if "\<And>v. io_valid (case v of (route, gasPrice, n) \<Rightarrow> P n) (f v) Q E" for chain f
    using that by (intro io_valid_if io_valid_return open_circuit io_valid_bind [OF preflight]) auto
  have body: "io_valid P0 (execute_body ops env req) Q E"
    unfolding execute_body_def
    by (intro io_valid_then [OF calm0 [OF keeps_quiet(3) [OF quiet(1)]]] io_valid_bind [OF calm0 [OF io_keeps_get]]
        io_valid_bind [OF calm0 [OF io_keeps_lift]] chain) (clarsimp simp: selected)
  show ?thesis
    unfolding execute_def
    by (rule io_valid_catch [OF body], unfold recordError_def, rule io_valid_then [OF io_valid_modify io_valid_throw])
      (auto intro: quiet_propertyD [OF err(3)])
qed

section \<open>Submissions\<close>

definition only_simulated_sent ::
  "'w exec_env \<Rightarrow> (bundle_route \<times> transaction \<times> overrides) list \<Rightarrow> ('n, 'w) exec_state \<Rightarrow> bool" where
  "only_simulated_sent env old s \<longleftrightarrow> xs_submitted s = old \<or> (\<exists>tx ov. sends_only old env tx ov 6 s)"

lemma quiet_only_simulated_sent: "quiet_property (only_simulated_sent env old)"
  by (simp add: quiet_property_def only_simulated_sent_def sends_only_def)

lemma log_unsent_after_simulation:
  assumes "log_property P"
  shows "io_valid P (reject_with ops req n r) (\<lambda>_. P) (\<lambda>_. P)"
    "io_valid P (runPreflight ops env req) (\<lambda>_. P) (\<lambda>_. P)"
    "io_valid P (call f) (\<lambda>_. P) (\<lambda>_. P)" "io_valid P (hook h req) (\<lambda>_. P) (\<lambda>_. P)"
    "io_valid P (releaseNonce ops req n) (\<lambda>_. P) (\<lambda>_. P)"
  using assms by (auto intro!: valid_keeps io_rules log_quiet)

lemma simulate_and_submit_sends:
  "io_valid (\<lambda>s. xs_submitted s = old) (simulate_and_submit ops env req tx ov)
     (\<lambda>_. only_simulated_sent env old) (\<lambda>_. only_simulated_sent env old)"
proof -
  let ?E = "\<lambda>_. only_simulated_sent env old"
  note unsent = log_unsent_after_simulation [OF log_property_submitted [of old]]
  have sub: "only_simulated_sent env old s" if "xs_submitted s = old" for s
    using that by (simp add: only_simulated_sent_def)
  have sub0: "xs_submitted s = old" if "sends_only old env tx ov 0 s" for s
    using that by (auto simp: sends_only_def)
  have sub6: "only_simulated_sent env old s" if "sends_only old env tx ov 6 s" for s
    using that by (auto simp: only_simulated_sent_def)
  let ?S = "sends_only old env tx ov 0"
  note simulated = log_unsent_after_simulation [OF log_property_sends_only [of old env tx ov 0]]
  have log: "io_valid (\<lambda>s. xs_submitted s = old) (io_modify (\<lambda>s. s\<lparr>xs_simulatedOk := xs_simulatedOk s @ [(tx, ov)]\<rparr>))
      (\<lambda>_. ?S) ?E"
    by (rule io_valid_modify) (simp add: sends_only_def)
  have rej: "io_valid (\<lambda>s. xs_submitted s = old) (reject_with ops req n r) ?E ?E" for n r
    by (rule io_valid_weaken [OF unsent(1)]) (simp_all add: sub)
  have rej': "io_valid ?S (reject_with ops req n r) ?E ?E" for n r
    by (rule io_valid_weaken [OF simulated(1)]) (auto intro: sub sub0)
  have rel: "io_valid ?S (releaseNonce ops req n) (\<lambda>_. ?S) ?E" for n
    by (rule io_valid_weaken [OF simulated(5)]) (auto intro: sub sub0)
  have hook: "io_valid ?S (hook h req) (\<lambda>_. ?S) ?E" for h
    by (rule io_valid_weaken [OF simulated(4)]) (auto intro: sub sub0)
  have sim: "io_valid (\<lambda>s. xs_submitted s = old) (call f) (\<lambda>_ s. xs_submitted s = old) ?E"
    for f :: "('b, sim_outcome) service"
    by (rule io_valid_weaken [OF unsent(3)]) (simp_all add: sub)
  have submit: "io_valid ?S (submitWithReplacement ops env req tx ov) ?E ?E"
    by (rule io_valid_weaken [OF submit_sends]) (auto intro: sub6)
  have ret: "io_valid ?S (io_return a) ?E ?E" for a
    by (rule io_valid_return) (auto intro: sub sub0)
  have passed: "io_valid ?S (if ee_dryRunMode env then io_then (releaseNonce ops req (ov_nonce ov)) (io_return Simulated)
      else io_bind (hook (ee_rejectBeforeBroadcast env) req) (\<lambda>reason. case reason of
             Some _ \<Rightarrow> reject_with ops req (ov_nonce ov) RejFinalSimulationFailed
           | None \<Rightarrow> submitWithReplacement ops env req tx ov)) ?E ?E"
    by (intro io_valid_if io_valid_then [OF rel] ret io_valid_bind [OF hook] io_valid_option submit rej')
  show ?thesis
    unfolding simulate_and_submit_def
    by (intro io_valid_bind [OF sim] verdict_valid rej io_valid_then [OF log] passed)
qed

lemma execute_sends:
  "io_valid (\<lambda>s. xs_submitted s = old) (execute ops env req)
     (\<lambda>_. only_simulated_sent env old) (\<lambda>_. only_simulated_sent env old)"
proof (rule execute_valid [where P = "\<lambda>_ s. xs_submitted s = old"])
  have sub: "only_simulated_sent env old s" if "xs_submitted s = old" for s
    using that by (simp add: only_simulated_sent_def)
  note unsent = log_unsent_after_simulation [OF log_property_submitted [of old]]
  show "io_valid (\<lambda>s. xs_submitted s = old) (runPreflight ops env req)
     (\<lambda>(route, gasPrice, n) s. xs_submitted s = old) (\<lambda>_. only_simulated_sent env old)"
    by (rule io_valid_weaken [OF unsent(2)]) (auto simp: sub)
  show "io_valid (\<lambda>s. xs_submitted s = old) (reject_with ops req n r)
     (\<lambda>_. only_simulated_sent env old) (\<lambda>_. only_simulated_sent env old)" for n r
    by (rule io_valid_weaken [OF unsent(1)]) (simp_all add: sub)
qed (auto simp: only_simulated_sent_def intro: log_quiet log_property_submitted quiet_only_simulated_sent
  simulate_and_submit_sends)

end
