(* ===== verification/Executor_Safety.thy ===== *)
theory Executor_Safety
  imports Safe_Executor
begin

text \<open>
  The properties of one execution (\<open>src/executors/safeTransactionExecutor.ts\<close>) that follow from the
  rule \<open>execute_valid\<close> of theory \<open>Safe_Executor\<close>: the dry-run mode, what may be submitted, which
  receipts back a \<open>sent\<close> result, and which nonces stay reserved. The accounting of the nonces is
  proved for every \<open>nonce_provider\<close> and then read off for the program's own nonce manager.
\<close>

section \<open>Dry runs\<close>

lemma dry_run_unsent:
  assumes "ee_dryRunMode env"
  shows "io_valid (\<lambda>s. xs_submitted s = old) (execute ops env req)
     (\<lambda>r s. xs_submitted s = old \<and> (\<nexists>h. r = Sent h)) (\<lambda>_ s. xs_submitted s = old)"
proof (rule execute_valid [where P = "\<lambda>_ s. xs_submitted s = old"])
  note unsent = log_unsent_after_simulation [OF log_property_submitted [of old]]
  let ?Q = "\<lambda>r s. xs_submitted s = old \<and> (\<nexists>h. r = Sent h)"
  show "io_valid (\<lambda>s. xs_submitted s = old) (runPreflight ops env req)
     (\<lambda>(route, gasPrice, n) s. xs_submitted s = old) (\<lambda>_ s. xs_submitted s = old)"
    by (rule io_valid_weaken [OF unsent(2)]) auto
  show rej: "io_valid (\<lambda>s. xs_submitted s = old) (reject_with ops req n r) ?Q (\<lambda>_ s. xs_submitted s = old)" for n r
    unfolding reject_with_def
    by (rule io_valid_then [OF unsent(5)]) (simp add: io_valid_return)
  show "io_valid (\<lambda>s. xs_submitted s = old) (simulate_and_submit ops env req tx ov) ?Q (\<lambda>_ s. xs_submitted s = old)" for tx ov
  proof -
    have log: "io_valid (\<lambda>s. xs_submitted s = old) (io_modify (\<lambda>s. s\<lparr>xs_simulatedOk := xs_simulatedOk s @ [(tx, ov)]\<rparr>))
        (\<lambda>_ s. xs_submitted s = old) (\<lambda>_ s. xs_submitted s = old)"
      by (rule io_valid_modify) simp
    have ret: "io_valid (\<lambda>s. xs_submitted s = old) (io_return Simulated) ?Q (\<lambda>_ s. xs_submitted s = old)"
      by (rule io_valid_return) simp
    show ?thesis
      unfolding simulate_and_submit_def if_P [OF assms]
      by (intro io_valid_bind [OF unsent(3)] verdict_valid rej io_valid_then [OF log] io_valid_then [OF unsent(5)] ret)
  qed
qed (auto intro: log_quiet log_property_submitted)

section \<open>Receipts\<close>

text \<open>The result \<open>Sent hash\<close> is backed by the last receipt.\<close>

definition receipt_backed :: "exec_result \<Rightarrow> ('n, 'w) exec_state \<Rightarrow> bool" where
  "receipt_backed r s \<longleftrightarrow>
     (\<forall>hash. r = Sent hash \<longrightarrow> xs_receipts s \<noteq> [] \<and> last (xs_receipts s) = (hash, Included))"

abbreviation "always \<equiv> \<lambda>_. True"

lemma always_valid: "io_valid P m (\<lambda>_. always) (\<lambda>_. always)"
  by (simp add: io_valid_def split: prod.splits sum.splits)

lemma waitForReceipt_backed:
  "io_valid P (waitForReceipt env hash)
     (\<lambda>receipt s. xs_receipts s \<noteq> [] \<and> last (xs_receipts s) = (hash, receipt)) (\<lambda>_. always)"
  unfolding waitForReceipt_def
  by (rule io_valid_bind [OF always_valid]) (auto simp: io_valid_def io_then_def io_bind_def io_modify_def io_return_def)

lemma not_sent_backed: "(\<And>h. r \<noteq> Sent h) \<Longrightarrow> io_valid P (io_return r) receipt_backed (\<lambda>_. always)"
  by (rule io_valid_return) (simp add: receipt_backed_def)

lemma toFailedReceipt_not_sent: "toFailedReceipt r \<noteq> Sent h"
  by (cases r) auto

lemma failed_backed:
  "io_valid P (io_return (ExecFailed r)) receipt_backed (\<lambda>_. always)"
  "io_valid P (io_return (toFailedReceipt receipt)) receipt_backed (\<lambda>_. always)"
  by (simp_all add: not_sent_backed toFailedReceipt_not_sent)

lemma included_backed:
  "receipt = Included \<Longrightarrow> io_valid (\<lambda>s. xs_receipts s \<noteq> [] \<and> last (xs_receipts s) = (hash, receipt))
     (io_return (Sent hash)) receipt_backed (\<lambda>_. always)"
  by (rule io_valid_return) (simp add: receipt_backed_def)

lemma submit_backed: "io_valid P (submitWithReplacement ops env req tx ov) receipt_backed (\<lambda>_. always)"
  unfolding submitWithReplacement_def
  by (intro io_valid_bind [OF always_valid] io_valid_option io_valid_bind [OF waitForReceipt_backed] io_valid_if
      failed_backed included_backed)

lemma reject_backed: "io_valid P (reject_with ops req n r) receipt_backed (\<lambda>_. always)"
  unfolding reject_with_def io_then_def
  by (rule io_valid_weaken [OF io_valid_bind [OF always_valid not_sent_backed]]) simp_all

lemma simulate_backed: "io_valid P (simulate_and_submit ops env req tx ov) receipt_backed (\<lambda>_. always)"
proof -
  show ?thesis
    unfolding simulate_and_submit_def
    by (intro io_valid_bind [OF always_valid] verdict_valid io_valid_then [OF always_valid] io_valid_if io_valid_option
        not_sent_backed reject_backed submit_backed) simp
qed

lemma execute_backed: "io_valid always (execute ops env req) receipt_backed (\<lambda>_. always)"
  by (rule execute_valid [where P = "\<lambda>_. always"])
    (auto simp: quiet_property_def receipt_backed_def simulate_backed
       intro: reject_backed io_valid_weaken [OF always_valid])

section \<open>Nonce accounting\<close>

text \<open>
  What an execution leaves reserved, by its result: nothing more than before when it was rejected or
  only simulated, nothing at all for the account when sending failed (the nonces are resynced), and
  one more nonce when the transaction reached the network.
\<close>

definition nonce_account ::
  "('n \<Rightarrow> string \<Rightarrow> nat set) \<Rightarrow> (string \<Rightarrow> nat set) \<Rightarrow> string \<Rightarrow> exec_result \<Rightarrow> 'n \<Rightarrow> bool" where
  "nonce_account out before key result n =
     (case result of
        ExecRejected _ \<Rightarrow> out n = before
      | Simulated \<Rightarrow> out n = before
      | ExecFailed FailSendFailed \<Rightarrow> out n = before(key := {})
      | _ \<Rightarrow> (\<exists>k. k \<notin> before key \<and> out n = before(key := insert k (before key))))"

lemma preflight_values_Inr:
  "preflight_values route g res = Inr v \<longleftrightarrow>
     (\<exists>a b n. route = Inr a \<and> g = Inr b \<and> res = Inr n \<and> v = (a, b, rv_nonce n))"
  by (auto simp: preflight_values_def split: sum.splits)

lemma call_nonces: "call f s = (r, s') \<Longrightarrow> xs_nonces s' = xs_nonces s"
  by (auto simp: call_def Let_def case_prod_unfold)

lemma runPreflight_cases:
  obtains p res n' route g where "no_reserve ops (rq_chain req) (rq_account req) p (xs_nonces s) = (res, n')"
    and "fst (runPreflight ops env req s) = preflight_values route g res"
    and "xs_nonces (snd (runPreflight ops env req s)) =
      (case preflight_values route g res of
         Inr _ \<Rightarrow> n' | Inl _ \<Rightarrow> (case res of Inr r \<Rightarrow> no_release ops r n' | Inl _ \<Rightarrow> n'))"
proof -
  obtain pending s1 where 1: "call (ee_getPendingNonce env (rq_chain req) (rq_account req)) s = (pending, s1)"
    by fastforce
  obtain res n' where 2: "no_reserve ops (rq_chain req) (rq_account req) pending (xs_nonces s1) = (res, n')"
    by fastforce
  obtain route s2 where 3: "call (ee_selectBestRoute env (rq_routeInput req)) (s1\<lparr>xs_nonces := n'\<rparr>) = (route, s2)"
    by fastforce
  obtain g s3 where 4: "call (ee_getGasPrice env (rq_chain req)) s2 = (g, s3)"
    by fastforce
  have s3: "xs_nonces s3 = n'" using call_nonces [OF 3] call_nonces [OF 4] by simp
  show thesis
    by (rule that [OF 2 [unfolded call_nonces [OF 1]], of route g])
      (simp_all add: runPreflight_def 1 2 3 4 s3 split: sum.splits)
qed

lemma keeps_sendTransaction:
  assumes "quiet_property P" "\<And>s l. P s \<Longrightarrow> P (s\<lparr>xs_submitted := l\<rparr>)"
  shows "io_keeps P (sendTransaction env req tx ov)"
  unfolding sendTransaction_def bundleSend_def publicSend_def handleBundleFailure_def log_submission_def
  by (auto intro!: io_rules assms split: option.splits)

context nonce_provider
begin

definition holding :: "(string \<Rightarrow> nat set) \<Rightarrow> string \<Rightarrow> nat \<Rightarrow> ('s, 'w) exec_state \<Rightarrow> bool" where
  "holding before key k s \<longleftrightarrow>
     inv (xs_nonces s) \<and> k \<notin> before key \<and> out (xs_nonces s) = before(key := insert k (before key))"

definition free :: "(string \<Rightarrow> nat set) \<Rightarrow> ('s, 'w) exec_state \<Rightarrow> bool" where
  "free before s \<longleftrightarrow> inv (xs_nonces s) \<and> out (xs_nonces s) = before"

definition accounted :: "(string \<Rightarrow> nat set) \<Rightarrow> string \<Rightarrow> exec_result \<Rightarrow> ('s, 'w) exec_state \<Rightarrow> bool" where
  "accounted before key r s \<longleftrightarrow> inv (xs_nonces s) \<and> nonce_account out before key r (xs_nonces s)"

lemma quiet_nonces: "quiet_property (holding before key k)" "quiet_property (free before)"
  by (simp_all add: quiet_property_def holding_def free_def)

abbreviation "ops \<equiv> \<lparr>no_reserve = reserve_op, no_release = release_op, no_resync = resync_op\<rparr>"

abbreviation "req_key req \<equiv> nonceKey (rq_chain req) (rq_account req)"

lemma release_holding:
  "io_valid (holding before (req_key req) k) (releaseNonce ops req k) (\<lambda>_. free before) E"
  unfolding releaseNonce_def
  by (rule io_valid_modify) (auto simp: holding_def free_def release_out)

lemma resync_holding:
  "io_valid (holding before (req_key req) k) (resyncNonce ops env req)
     (\<lambda>_ s. inv (xs_nonces s) \<and> out (xs_nonces s) = before(req_key req := {})) (\<lambda>_. always)"
  unfolding resyncNonce_def
  by (rule io_valid_bind [OF io_valid_weaken [OF valid_keeps [OF keeps_call [OF quiet_nonces(1)]]] io_valid_modify])
    (auto simp: holding_def resync_out)

lemma reject_accounted:
  "io_valid (holding before (req_key req) k) (reject_with ops req k r) (accounted before (req_key req)) (\<lambda>_. always)"
  unfolding reject_with_def
  by (rule io_valid_then [OF release_holding io_valid_return]) (auto simp: free_def accounted_def nonce_account_def)

lemma preflight_accounted:
  "io_valid (free before) (runPreflight ops env req)
     (\<lambda>(route, gasPrice, k). holding before (req_key req) k) (\<lambda>_. free before)"
proof -
  have "case runPreflight ops env req s of (Inr a, s') \<Rightarrow> (case a of (route, gasPrice, k) \<Rightarrow> holding before (req_key req) k) s'
      | (Inl e, s') \<Rightarrow> free before s'" if pre: "free before s" for s
  proof -
    have inv: "inv (xs_nonces s)" "out (xs_nonces s) = before" using pre by (auto simp: free_def)
    obtain p res n' route g where res: "reserve_op (rq_chain req) (rq_account req) p (xs_nonces s) = (res, n')"
      and run: "fst (runPreflight ops env req s) = preflight_values route g res"
        "xs_nonces (snd (runPreflight ops env req s)) =
          (case preflight_values route g res of
             Inr _ \<Rightarrow> n' | Inl _ \<Rightarrow> (case res of Inr r \<Rightarrow> release_op r n' | Inl _ \<Rightarrow> n'))"
      using runPreflight_cases [of ops req s env, unfolded nonce_ops.simps] by blast
    have failed: "inv (case res of Inr r \<Rightarrow> release_op r n' | Inl _ \<Rightarrow> n') \<and>
        out (case res of Inr r \<Rightarrow> release_op r n' | Inl _ \<Rightarrow> n') = before"
    proof (cases res)
      case (Inl e)
      then show ?thesis using reserve_fail [OF inv(1) res [unfolded Inl]] inv(2) by simp
    next
      case (Inr r)
      then show ?thesis using reserve_release [OF inv(1) res [unfolded Inr]] inv(2) by simp
    qed
    show ?thesis
    proof (cases "preflight_values route g res")
      case (Inl e)
      with failed run show ?thesis by (simp add: case_prod_unfold free_def)
    next
      case (Inr v)
      then obtain a b r where v: "res = Inr r" "v = (a, b, rv_nonce r)" by (auto simp: preflight_values_Inr)
      with Inr run reserve_ok [OF inv(1) res [unfolded v(1)]] inv(2) show ?thesis
        by (simp add: case_prod_unfold holding_def)
    qed
  qed
  then show ?thesis unfolding io_valid_def by blast
qed

lemma submit_accounted:
  "io_valid (holding before (req_key req) k) (submitWithReplacement ops env req tx ov)
     (accounted before (req_key req)) (\<lambda>_. always)"
proof -
  let ?H = "holding before (req_key req) k"
  let ?F = "\<lambda>s. inv (xs_nonces s) \<and> out (xs_nonces s) = before(req_key req := {})"
  have calm: "io_valid ?H m (\<lambda>_. ?H) (\<lambda>_. ?H)" if "\<And>P. quiet_property P \<Longrightarrow> io_keeps P m"
    for m :: "(('s, 'd) exec_state, 'c) io"
    by (rule valid_keeps [OF that [OF quiet_nonces(1)]])
  have quiet: "io_valid ?H m (\<lambda>_. ?H) (\<lambda>_. always)" if "io_keeps ?H m"
    for m :: "(('s, 'd) exec_state, 'c) io"
    by (rule io_valid_weaken [OF valid_keeps [OF that]]) simp_all
  have sent: "io_valid ?H (sendTransaction env req tx o') (\<lambda>_. ?H) (\<lambda>_. ?H)" for o'
    by (rule valid_keeps) (intro keeps_sendTransaction quiet_nonces, simp add: holding_def)
  have failed: "io_valid ?H (io_then (resyncNonce ops env req) (io_return None))
      (\<lambda>h. case h of None \<Rightarrow> ?F | Some _ \<Rightarrow> ?H) (\<lambda>_. always)"
    by (rule io_valid_then [OF resync_holding io_valid_return]) simp
  have some: "io_valid ?H (io_bind (sendTransaction env req tx o') (\<lambda>h. io_return (Some h)))
      (\<lambda>h. case h of None \<Rightarrow> ?F | Some _ \<Rightarrow> ?H) (\<lambda>_. ?H)" for o'
    by (rule io_valid_bind [OF sent io_valid_return]) simp
  have replace: "io_valid ?H (sendReplacement ops env req tx o') (\<lambda>h. case h of None \<Rightarrow> ?F | Some _ \<Rightarrow> ?H) (\<lambda>_. always)" for o'
    unfolding sendReplacement_def by (rule io_valid_catch [OF some failed])
  have first: "io_valid ?H (sendOrReplaceUnderpriced ops env req tx ov)
      (\<lambda>h. case h of None \<Rightarrow> ?F | Some _ \<Rightarrow> ?H) (\<lambda>_. always)"
    unfolding sendOrReplaceUnderpriced_def by (intro io_valid_catch [OF some] io_valid_if failed replace)
  have wait: "io_valid ?H (waitForReceipt env h) (\<lambda>_. ?H) (\<lambda>_. always)" for h
    unfolding waitForReceipt_def
    by (intro quiet io_rules quiet_nonces) (simp add: holding_def)
  have send_failed: "h = None \<Longrightarrow> io_valid (case h of None \<Rightarrow> ?F | Some _ \<Rightarrow> ?H) (io_return (ExecFailed FailSendFailed))
      (accounted before (req_key req)) (\<lambda>_. always)" for h :: "string option"
    by (rule io_valid_return) (simp add: accounted_def nonce_account_def)
  have went_out: "io_valid ?H (io_return r) (accounted before (req_key req)) (\<lambda>_. always)"
    if "(\<exists>h. r = Sent h) \<or> (\<exists>f. r = ExecFailed f \<and> f \<noteq> FailSendFailed)" for r
    using that by (intro io_valid_return) (auto simp: holding_def accounted_def nonce_account_def split: exec_fail.splits)
  have failed_receipt: "(\<exists>f. toFailedReceipt x = ExecFailed f \<and> f \<noteq> FailSendFailed)" for x
    by (cases x) auto
  note receipt = io_valid_bind [OF wait io_valid_if [OF went_out went_out]]
  have after_first: "io_valid (case h of None \<Rightarrow> ?F | Some _ \<Rightarrow> ?H)
      (case h of None \<Rightarrow> io_return (ExecFailed FailSendFailed) | Some hash \<Rightarrow> f hash) (accounted before (req_key req)) (\<lambda>_. always)"
    if "\<And>hash. io_valid ?H (f hash) (accounted before (req_key req)) (\<lambda>_. always)" for h f
    using that send_failed by (cases h) simp_all
  have replaced: "io_valid ?H (io_bind (sendReplacement ops env req tx (bumped env ov)) (\<lambda>replacement.
       case replacement of
         None \<Rightarrow> io_return (ExecFailed FailSendFailed)
       | Some hash \<Rightarrow> io_bind (waitForReceipt env hash) (\<lambda>receipt.
           if receipt = Included then io_return (Sent hash) else io_return (toFailedReceipt receipt))))
      (accounted before (req_key req)) (\<lambda>_. always)"
    by (intro io_valid_bind [OF replace] after_first receipt) (simp_all add: failed_receipt)
  show ?thesis
    unfolding submitWithReplacement_def
    by (intro io_valid_bind [OF first] after_first io_valid_bind [OF wait] io_valid_if replaced went_out)
      (simp_all add: failed_receipt)
qed

lemma simulate_accounted:
  "io_valid (holding before (req_key req) (ov_nonce ov)) (simulate_and_submit ops env req tx ov)
     (accounted before (req_key req)) (\<lambda>_. always)"
proof -
  let ?H = "holding before (req_key req) (ov_nonce ov)"
  have quiet: "io_valid ?H m (\<lambda>_. ?H) (\<lambda>_. always)" if "io_keeps ?H m"
    for m :: "(('s, 'd) exec_state, 'c) io"
    by (rule io_valid_weaken [OF valid_keeps [OF that]]) simp_all
  note sim = quiet [OF keeps_call [OF quiet_nonces(1)]] and hook = quiet [OF keeps_quiet(4) [OF quiet_nonces(1)]]
  have log: "io_valid ?H (io_modify (\<lambda>s. s\<lparr>xs_simulatedOk := xs_simulatedOk s @ [(tx, ov)]\<rparr>)) (\<lambda>_. ?H) (\<lambda>_. always)"
    by (rule io_valid_modify) (simp add: holding_def)
  have dry: "io_valid (free before) (io_return Simulated) (accounted before (req_key req)) (\<lambda>_. always)"
    by (rule io_valid_return) (simp add: free_def accounted_def nonce_account_def)
  show ?thesis
    unfolding simulate_and_submit_def
    by (intro io_valid_bind [OF sim] verdict_valid reject_accounted io_valid_then [OF log] io_valid_if
        io_valid_then [OF release_holding dry] io_valid_bind [OF hook] io_valid_option submit_accounted)
qed

lemma execute_accounted:
  "io_valid (free before) (execute ops env req) (accounted before (req_key req)) (\<lambda>_. always)"
proof (rule execute_valid [where P = "holding before (req_key req)"])
  show "io_valid (free before) (runPreflight ops env req) (\<lambda>(route, gasPrice, k). holding before (req_key req) k) (\<lambda>_. always)"
    by (rule io_valid_weaken [OF preflight_accounted]) simp_all
qed (auto intro: quiet_nonces reject_accounted simulate_accounted simp: free_def accounted_def nonce_account_def,
  auto simp: quiet_property_def)

end

section \<open>Properties\<close>

definition manager_ops :: "nonce_manager nonce_ops" where
  "manager_ops = \<lparr>no_reserve = reserve, no_release = release, no_resync = resync\<rparr>"

text \<open>The external world of the sample runs counts the transactions sent.\<close>

definition sample_env :: "nat exec_env" where
  "sample_env = \<lparr>
     ee_selectBestRoute = (\<lambda>i w. (Inr (RouteSelected Balancer (usdc_amount 70) 777), w)),
     ee_estimateGas = (\<lambda>tx w. (Inr 500000, w)),
     ee_getGasPrice = (\<lambda>chain w. (Inr 150, w)),
     ee_getPendingNonce = (\<lambda>chain account w. (Inr 5, w)),
     ee_simulateContract = (\<lambda>tx ov w. (Inr SimSucceeded, w)),
     ee_send = (\<lambda>tx ov w. (Inr ''0xhash'', Suc w)),
     ee_waitForReceipt = (\<lambda>hash w. (Inr Included, w)),
     ee_competitorModel = None, ee_bundleRouter = None,
     ee_rejectBeforePreview = None, ee_rejectBeforeBroadcast = None,
     ee_quoteExecutionGasCap = Some (\<lambda>profit gas w. (Inr 100, w)),
     ee_replacementBumpBps = None, ee_privateBundleRiskThresholdBps = None, ee_allowPublicFallback = False,
     ee_privateFirstChains = [], ee_dryRunMode = False\<rparr>"

definition sample_tx :: transaction where
  "sample_tx = \<lparr>tx_to = ''0xPool'', tx_data = ''0x'', tx_provider = Balancer\<rparr>"

definition sample_exec_request :: exec_request where
  "sample_exec_request = \<lparr>rq_chain = ''base'', rq_account = ''0xA'', rq_opportunityId = ''op-1'',
     rq_gasProfileKey = ''liq'', rq_routeInput = sample_request 50, rq_gasLimitHint = None,
     rq_buildTransaction = (\<lambda>route. Inr sample_tx), rq_buildPreview = None\<rparr>"

definition sample_exec_state :: "(nonce_manager, nat) exec_state" where
  "sample_exec_state = \<lparr>xs_nonces = empty_manager, xs_registry = base_registry, xs_world = 0, xs_nowMs = 1000,
     xs_errors = 0, xs_simulatedOk = [], xs_submitted = [], xs_receipts = []\<rparr>"

abbreviation "run_sample env \<equiv> execute manager_ops env sample_exec_request sample_exec_state"

text \<open>In dry-run mode an execution hands nothing to a network, whatever the services it awaits
  return or throw.\<close>

theorem dry_run_sends_nothing:
  assumes "ee_dryRunMode env"
  shows "xs_submitted (snd (execute ops env req s)) = xs_submitted s"
proof (cases "execute ops env req s")
  case (Pair r s')
  have "xs_submitted s' = xs_submitted s"
  proof (cases r)
    case (Inl e)
    show ?thesis by (rule io_validD(2) [OF dry_run_unsent [OF assms] refl Pair [unfolded Inl]])
  next
    case (Inr a)
    show ?thesis using io_validD(1) [OF dry_run_unsent [OF assms] refl Pair [unfolded Inr]] by blast
  qed
  then show ?thesis by (simp add: Pair)
qed

lemma sample_dry: "ee_dryRunMode (sample_env\<lparr>ee_dryRunMode := True\<rparr>)"
  by simp

lemma sample_unsent: "xs_submitted sample_exec_state = []" "xs_simulatedOk sample_exec_state = []"
  by (simp_all add: sample_exec_state_def)

theorem dry_run_sends_nothing_witness:
  "xs_submitted (snd (run_sample (sample_env\<lparr>ee_dryRunMode := True\<rparr>))) = []"
  using sample_unsent(1) by (rule trans [OF dry_run_sends_nothing [OF sample_dry]])

text \<open>C3. Whatever an execution submits is the transaction of a final simulation that succeeded in
  this execution, with the gas and the nonce of that simulation, at its gas price or at the price
  bumped once; and it is submitted at most six times.\<close>

theorem only_simulated_is_sent:
  assumes "execute ops env req s = (r, s')" and "xs_simulatedOk s = []" and "xs_submitted s' \<noteq> xs_submitted s"
  shows "\<exists>tx ov new. (tx, ov) \<in> set (xs_simulatedOk s') \<and> xs_submitted s' = xs_submitted s @ new \<and> length new \<le> 6 \<and>
    (\<forall>(route, t, o') \<in> set new. t = tx \<and> ov_nonce o' = ov_nonce ov \<and> ov_gas o' = ov_gas ov \<and>
       ov_gasPrice o' \<in> {ov_gasPrice ov, bumpGasPrice (ov_gasPrice ov) (replacementBumpBps env)})"
proof -
  have "only_simulated_sent env (xs_submitted s) s'"
  proof (cases r)
    case (Inl e)
    show ?thesis by (rule io_validD(2) [OF execute_sends refl assms(1) [unfolded Inl]])
  next
    case (Inr a)
    show ?thesis by (rule io_validD(1) [OF execute_sends refl assms(1) [unfolded Inr]])
  qed
  with assms(3) obtain tx ov where "sends_only (xs_submitted s) env tx ov 6 s'"
    by (auto simp: only_simulated_sent_def)
  then obtain new where new: "(tx, ov) \<in> set (xs_simulatedOk s')" "xs_submitted s' = xs_submitted s @ new" "length new \<le> 6"
    "\<forall>(route, t, o') \<in> set new. t = tx \<and> (o' = ov \<or> o' = bumped env ov)"
    by (auto simp: sends_only_def)
  have "\<forall>(route, t, o') \<in> set new. t = tx \<and> ov_nonce o' = ov_nonce ov \<and> ov_gas o' = ov_gas ov \<and>
       ov_gasPrice o' \<in> {ov_gasPrice ov, bumpGasPrice (ov_gasPrice ov) (replacementBumpBps env)}"
    using new(4) by (auto simp: bumped_def)
  with new(1-3) show ?thesis by blast
qed

lemma sample_run:
  "fst (run_sample sample_env) = Inr (Sent ''0xhash'')"
  "xs_submitted (snd (run_sample sample_env)) = [(PublicRpc, sample_tx, \<lparr>ov_gas = 500000, ov_gasPrice = 100, ov_nonce = 5\<rparr>)]"
  by code_simp+

lemma sample_run_pair: "run_sample sample_env = (Inr (Sent ''0xhash''), snd (run_sample sample_env))"
  unfolding sample_run(1) [symmetric] by (rule prod.collapse [symmetric])

theorem only_simulated_is_sent_witness:
  "\<exists>tx ov new. (tx, ov) \<in> set (xs_simulatedOk (snd (run_sample sample_env))) \<and>
     xs_submitted (snd (run_sample sample_env)) = new \<and> new \<noteq> [] \<and> length new \<le> 6"
proof -
  have "xs_submitted (snd (run_sample sample_env)) \<noteq> xs_submitted sample_exec_state"
    unfolding sample_run(2) sample_unsent by simp
  from only_simulated_is_sent [OF sample_run_pair sample_unsent(2) this]
  obtain tx ov new where "(tx, ov) \<in> set (xs_simulatedOk (snd (run_sample sample_env)))"
    "xs_submitted (snd (run_sample sample_env)) = xs_submitted sample_exec_state @ new" "length new \<le> 6"
    by blast
  moreover have "xs_submitted (snd (run_sample sample_env)) \<noteq> []" unfolding sample_run(2) by simp
  ultimately show ?thesis unfolding sample_unsent(1) append_Nil by metis
qed

text \<open>An execution answers \<open>sent\<close> with a hash only when the last receipt it waited for is the
  inclusion of that hash.\<close>

theorem sent_is_included:
  assumes "execute ops env req s = (Inr (Sent hash), s')"
  shows "xs_receipts s' \<noteq> [] \<and> last (xs_receipts s') = (hash, Included)"
  using io_validD(1) [OF execute_backed TrueI assms] by (simp add: receipt_backed_def)

theorem sent_is_included_witness: "last (xs_receipts (snd (run_sample sample_env))) = (''0xhash'', Included)"
  using sent_is_included [OF sample_run_pair] by blast

text \<open>C2. The accounting of the nonces of one execution over the program's nonce manager: rejected and
  dry-run executions leave every account's reservations as they were, a failed send leaves none for
  the account, and an execution that reached the network keeps exactly one more nonce.\<close>

theorem execution_nonce_accounting:
  assumes "nm_inv (xs_nonces s)" and "execute manager_ops env req s = (Inr r, s')"
  shows "nm_inv (xs_nonces s') \<and> nonce_account outstanding (outstanding (xs_nonces s))
    (nonceKey (rq_chain req) (rq_account req)) r (xs_nonces s')"
  using io_validD(1) [OF nonces.execute_accounted [folded manager_ops_def], of "outstanding (xs_nonces s)" s env req r s'] assms
  by (simp add: nonces.free_def nonces.accounted_def)

theorem execution_nonce_accounting_witness:
  "\<exists>k. k \<notin> outstanding empty_manager ''base:0xa'' \<and>
     outstanding (xs_nonces (snd (run_sample sample_env))) =
       (outstanding empty_manager)(''base:0xa'' := insert k (outstanding empty_manager ''base:0xa''))"
proof -
  have key: "nonceKey (rq_chain sample_exec_request) (rq_account sample_exec_request) = ''base:0xa''" by code_simp
  have nonces: "xs_nonces sample_exec_state = empty_manager" by (simp add: sample_exec_state_def)
  have inv: "nm_inv (xs_nonces sample_exec_state)" unfolding nonces by (rule nm_inv_empty)
  show ?thesis
    using execution_nonce_accounting [OF inv sample_run_pair] unfolding key nonces nonce_account_def exec_result.case by blast
qed

definition throwing_env :: "nat exec_env" where
  "throwing_env = sample_env\<lparr>ee_simulateContract := (\<lambda>tx ov w. (Inl (Exn ''timeout''), w))\<rparr>"

text \<open>When the final simulation throws, the execution throws and the reserved nonce stays out:
  no handler gives it back.\<close>

theorem simulation_throw_leaks_nonce:
  "fst (run_sample throwing_env) = Inl (Exn ''timeout'') \<and>
   outstanding (xs_nonces (snd (run_sample throwing_env))) ''base:0xa'' = {5}"
proof
  show "fst (run_sample throwing_env) = Inl (Exn ''timeout'')" by code_simp
  show "outstanding (xs_nonces (snd (run_sample throwing_env))) ''base:0xa'' = {5}" by code_simp
qed

definition underpriced_env :: "nat exec_env" where
  "underpriced_env = sample_env\<lparr>
     ee_send := (\<lambda>tx ov w. (if w = 0 then Inl (Exn ''replacement transaction underpriced'') else Inr ''0xhash'', Suc w)),
     ee_waitForReceipt := (\<lambda>hash w. (if w < 3 then Inr Underpriced else Inr Included, w))\<rparr>"

text \<open>The gas price cap binds the first submission only. The cap quoted is 100; the first send
  fails as underpriced, its replacement is accepted and its receipt is \<open>underpriced\<close> again: both
  replacements are sent at 112, above the cap, and the second one does not raise the price.\<close>

theorem replacement_price_repeats:
  "map (\<lambda>(route, tx, ov). ov_gasPrice ov) (xs_submitted (snd (run_sample underpriced_env))) = [100, 112, 112]"
  by code_simp

end
