(* ===== verification/Bounded_Buffers.thy ===== *)
theory Bounded_Buffers
  imports Prelude
begin

text \<open>
  The bounded in-memory structures of the bot: the event deduplication ring
  (\<open>src/utils/fixedSizeDedupe.ts\<close>), the dead-letter queue of the pipeline
  (\<open>src/orchestrator/pipelineOrchestrator.ts\<close>), the arbitrage queue
  (\<open>src/monitors/arbitrageOpportunityQueue.ts\<close>), the watchlist
  (\<open>src/monitors/boundedWatchlist.ts\<close>) and the staleness guard
  (\<open>src/monitors/stalenessGuard.ts\<close>). The first three share one contract, \<open>bounded_fifo\<close>:
  they keep the last entries that were put in, in order, up to a capacity.
\<close>

section \<open>The contract of a bounded first-in first-out buffer\<close>

definition last_n :: "nat \<Rightarrow> 'a list \<Rightarrow> 'a list" where
  "last_n n xs = drop (length xs - n) xs"

lemma length_last_n [simp]: "length (last_n n xs) = min n (length xs)"
  by (simp add: last_n_def)

lemma last_n_id [simp]: "length xs \<le> n \<Longrightarrow> last_n n xs = xs"
  by (simp add: last_n_def)

lemma last_n_append: "last_n n (last_n n xs @ ys) = last_n n (xs @ ys)"
proof (cases "length xs \<le> n")
  case False
  then show ?thesis by (cases "length ys \<le> n") (simp_all add: last_n_def drop_append add.commute)
qed simp

lemma set_last_n: "set (last_n n xs) \<subseteq> set xs"
  by (simp add: last_n_def set_drop_subset)

lemma distinct_last_n: "distinct xs \<Longrightarrow> distinct (last_n n xs)"
  by (simp add: last_n_def distinct_drop)

locale bounded_fifo =
  fixes push :: "'a \<Rightarrow> 'q \<Rightarrow> 'q" and items :: "'q \<Rightarrow> 'a list" and cap :: nat
  assumes cap_pos: "0 < cap"
    and items_push: "length (items q) \<le> cap \<Longrightarrow> items (push x q) = last_n cap (items q @ [x])"
begin

lemma bound: "length (items q) \<le> cap \<Longrightarrow> length (items (push x q)) \<le> cap"
  by (simp add: items_push)

text \<open>After any number of insertions the buffer holds the last ones, in order.\<close>

lemma items_pushes: "length (items q) \<le> cap \<Longrightarrow> items (fold push xs q) = last_n cap (items q @ xs)"
proof (induction xs arbitrary: q)
  case (Cons x xs)
  from Cons.IH [OF bound [OF Cons.prems]] show ?case
    using last_n_append [of cap "items q @ [x]" xs] by (simp add: items_push Cons.prems)
qed simp

lemma newest_kept: "length (items q) \<le> cap \<Longrightarrow> x \<in> set (items (push x q))"
  using cap_pos by (cases cap) (simp_all add: items_push last_n_def drop_append Suc_diff_le)

end

section \<open>FixedSizeDedupe\<close>

record dedupe =
  dd_keys :: "string list"
  dd_seen :: "string list"

definition dd_empty :: dedupe where
  "dd_empty = \<lparr>dd_keys = [], dd_seen = []\<rparr>"

definition dd_has :: "string \<Rightarrow> dedupe \<Rightarrow> bool" where
  "dd_has key d = (key \<in> set (dd_seen d))"

definition dd_evict :: "nat \<Rightarrow> dedupe \<Rightarrow> dedupe" where
  "dd_evict capacity d =
     (if capacity \<le> length (dd_keys d)
      then (case dd_keys d of
              [] \<Rightarrow> d
            | evicted # rest \<Rightarrow> \<lparr>dd_keys = rest, dd_seen = js_remove evicted (dd_seen d)\<rparr>)
      else d)"

definition dd_add :: "nat \<Rightarrow> string \<Rightarrow> dedupe \<Rightarrow> bool \<times> dedupe" where
  "dd_add capacity key d =
     (if key \<in> set (dd_seen d) then (False, d)
      else (let d' = dd_evict capacity d
            in (True, \<lparr>dd_keys = dd_keys d' @ [key], dd_seen = js_add key (dd_seen d')\<rparr>)))"

definition dd_clear :: "dedupe \<Rightarrow> dedupe" where
  "dd_clear d = \<lparr>dd_keys = [], dd_seen = []\<rparr>"

definition dd_size :: "dedupe \<Rightarrow> nat" where
  "dd_size d = length (dd_seen d)"

text \<open>The array and the set hold the same keys, each once.\<close>

definition dd_inv :: "dedupe \<Rightarrow> bool" where
  "dd_inv d \<longleftrightarrow> distinct (dd_keys d) \<and> distinct (dd_seen d) \<and> set (dd_seen d) = set (dd_keys d)"

lemma dd_inv_empty [wf_intros]: "dd_inv dd_empty" "dd_inv (dd_clear d)"
  by (simp_all add: dd_inv_def dd_empty_def dd_clear_def)

lemma dd_inv_evict [wf_intros]: "dd_inv d \<Longrightarrow> dd_inv (dd_evict capacity d)"
  by (auto simp: dd_inv_def dd_evict_def split: list.splits)

lemma dd_inv_add [wf_intros]:
  assumes "dd_inv d"
  shows "dd_inv (snd (dd_add capacity key d))"
proof (cases "key \<in> set (dd_seen d)")
  case False
  have "set (dd_keys (dd_evict capacity d)) \<subseteq> set (dd_keys d)"
    by (auto simp: dd_evict_def split: list.splits)
  with False assms dd_inv_evict [OF assms, of capacity] show ?thesis
    by (auto simp: dd_add_def Let_def dd_inv_def)
qed (use assms in \<open>simp add: dd_add_def\<close>)

lemma dd_size_eq: "dd_inv d \<Longrightarrow> dd_size d = length (dd_keys d)"
  unfolding dd_inv_def dd_size_def by (metis distinct_card)

text \<open>An accepted key goes through the ring as through a bounded queue.\<close>

definition dd_accept :: "nat \<Rightarrow> string \<Rightarrow> dedupe \<Rightarrow> dedupe" where
  "dd_accept capacity key d =
     (let d' = dd_evict capacity d
      in \<lparr>dd_keys = dd_keys d' @ [key], dd_seen = js_add key (dd_seen d')\<rparr>)"

interpretation ring: bounded_fifo "dd_accept (Suc n)" dd_keys "Suc n" for n
proof unfold_locales
  fix q :: dedupe and x
  assume "length (dd_keys q) \<le> Suc n"
  then show "dd_keys (dd_accept (Suc n) x q) = last_n (Suc n) (dd_keys q @ [x])"
    by (cases "dd_keys q") (auto simp: dd_accept_def dd_evict_def Let_def last_n_def)
qed simp

lemma dd_add_accept:
  "dd_add capacity key d = (if dd_has key d then (False, d) else (True, dd_accept capacity key d))"
  by (simp add: dd_add_def dd_has_def dd_accept_def Let_def)

text \<open>A stream of keys; the second component is the keys that were accepted, in order.\<close>

fun dd_run :: "nat \<Rightarrow> string list \<Rightarrow> dedupe \<Rightarrow> string list \<times> dedupe" where
  "dd_run capacity [] d = ([], d)"
| "dd_run capacity (k # ks) d =
     (let (fresh, d') = dd_add capacity k d; (acc, d'') = dd_run capacity ks d'
      in (if fresh then k # acc else acc, d''))"

lemma dd_run_keys:
  assumes "length (dd_keys d) \<le> Suc n"
  shows "dd_keys (snd (dd_run (Suc n) ks d)) = last_n (Suc n) (dd_keys d @ fst (dd_run (Suc n) ks d))"
  using assms
proof (induction ks arbitrary: d)
  case (Cons k ks)
  show ?case
  proof (cases "dd_has k d")
    case True
    then show ?thesis using Cons by (simp add: dd_add_accept case_prod_unfold Let_def)
  next
    case False
    note IH = Cons.IH [OF ring.bound [OF Cons.prems, of k]]
    have "last_n (Suc n) (dd_keys (dd_accept (Suc n) k d) @ acc) = last_n (Suc n) (dd_keys d @ k # acc)" for acc
      using ring.items_push [OF Cons.prems, of k] last_n_append [of "Suc n" "dd_keys d @ [k]" acc] by simp
    with False IH show ?thesis by (simp add: dd_add_accept case_prod_unfold Let_def)
  qed
qed simp

text \<open>The ring refines the window of the last accepted keys: after any stream, it holds the
  last \<open>capacity\<close> keys it accepted, and a further key is accepted exactly if it is not among them.\<close>

theorem dedupe_window:
  "fst (dd_add (Suc n) key (snd (dd_run (Suc n) ks dd_empty))) \<longleftrightarrow>
     key \<notin> set (last_n (Suc n) (fst (dd_run (Suc n) ks dd_empty)))"
proof -
  have "dd_inv (snd (dd_run (Suc n) ks d))" if "dd_inv d" for d
    using that
  proof (induction ks arbitrary: d)
    case (Cons k ks)
    from Cons.IH [OF dd_inv_add [OF Cons.prems, of "Suc n" k]] show ?case by (simp add: case_prod_unfold Let_def)
  qed simp
  then have "set (dd_seen (snd (dd_run (Suc n) ks dd_empty))) = set (dd_keys (snd (dd_run (Suc n) ks dd_empty)))"
    using dd_inv_empty(1) by (auto simp: dd_inv_def)
  moreover have "dd_keys (snd (dd_run (Suc n) ks dd_empty)) = last_n (Suc n) (fst (dd_run (Suc n) ks dd_empty))"
    using dd_run_keys [of dd_empty n ks] by (simp add: dd_empty_def)
  ultimately show ?thesis by (simp add: dd_add_def Let_def)
qed

section \<open>PipelineDeadLetterQueue\<close>

record dead_letter =
  dl_chain :: string
  dl_opportunityId :: string
  dl_account :: address
  dl_reason :: string
  dl_createdAtMs :: int

record dead_letter_queue =
  dq_entries :: "dead_letter list"
  dq_dropped :: nat

text \<open>The constructor refuses a capacity below one.\<close>

definition dq_new :: "nat option \<Rightarrow> exn + dead_letter_queue" where
  "dq_new maxEntries =
     (case maxEntries of
        Some n \<Rightarrow> if n < 1 then Inl (Exn ''maxEntries must be positive'')
                  else Inr \<lparr>dq_entries = [], dq_dropped = 0\<rparr>
      | None \<Rightarrow> Inr \<lparr>dq_entries = [], dq_dropped = 0\<rparr>)"

text \<open>The loop that shifts while the queue is full, over the array and the drop counter.\<close>

fun dq_shift :: "nat \<Rightarrow> dead_letter list \<Rightarrow> nat \<Rightarrow> dead_letter list \<times> nat" where
  "dq_shift maxEntries [] dropped = ([], dropped)"
| "dq_shift maxEntries (e # es) dropped =
     (if maxEntries \<le> length (e # es) then dq_shift maxEntries es (Suc dropped) else (e # es, dropped))"

definition dq_enqueue :: "nat option \<Rightarrow> dead_letter \<Rightarrow> dead_letter_queue \<Rightarrow> dead_letter_queue" where
  "dq_enqueue maxEntries entry q =
     (let (es, dropped) = dq_shift (case maxEntries of None \<Rightarrow> 1000 | Some n \<Rightarrow> n) (dq_entries q) (dq_dropped q)
      in \<lparr>dq_entries = es @ [entry], dq_dropped = dropped\<rparr>)"

lemma dq_shift_eq:
  "dq_shift (Suc n) es dropped = (last_n n es, dropped + (length es - n))"
  by (induction es arbitrary: dropped) (auto simp: last_n_def Suc_diff_le)

interpretation letters: bounded_fifo "dq_enqueue (Some (Suc n))" dq_entries "Suc n" for n
  by unfold_locales (auto simp: dq_enqueue_def dq_shift_eq last_n_def Suc_diff_le)

text \<open>The dead-letter queue keeps the newest entries in order, never more than its capacity,
  and counts every entry it loses: entries kept and entries dropped add up to those enqueued.\<close>

theorem dead_letters_keep_last:
  assumes "dq_new (Some (Suc n)) = Inr q"
  shows "dq_entries (fold (dq_enqueue (Some (Suc n))) es q) = last_n (Suc n) es \<and>
    dq_dropped (fold (dq_enqueue (Some (Suc n))) es q) + length (last_n (Suc n) es) = length es"
proof -
  from assms have q: "dq_entries q = []" "dq_dropped q = 0" by (auto simp: dq_new_def)
  have "dq_dropped (fold (dq_enqueue (Some (Suc n))) es q') + length (dq_entries (fold (dq_enqueue (Some (Suc n))) es q'))
      = dq_dropped q' + length (dq_entries q') + length es" if "length (dq_entries q') \<le> Suc n" for q'
    using that
  proof (induction es arbitrary: q')
    case (Cons e es)
    from Cons.IH [OF letters.bound [OF Cons.prems, of e]] Cons.prems show ?case
      by (auto simp: dq_enqueue_def dq_shift_eq)
  qed simp
  from this [of q] show ?thesis
    using q letters.items_pushes [of q n es] by simp
qed

theorem dead_letters_keep_last_witness:
  "\<exists>q. dq_new (Some (Suc 1)) = Inr q \<and> (\<forall>a b c. dq_entries (fold (dq_enqueue (Some (Suc 1))) [a, b, c] q) = [b, c])"
proof -
  have new: "dq_new (Some (Suc 1)) = Inr \<lparr>dq_entries = [], dq_dropped = 0\<rparr>" by (simp add: dq_new_def)
  have "dq_entries (fold (dq_enqueue (Some (Suc 1))) [a, b, c] \<lparr>dq_entries = [], dq_dropped = 0\<rparr>) = [b, c]" for a b c
    by (subst conjunct1 [OF dead_letters_keep_last [OF new]]) (simp add: last_n_def)
  with new show ?thesis by blast
qed


section \<open>ArbitrageOpportunityQueue\<close>

text \<open>Only the identifier and the chain of an opportunity matter to the queue; the other fields of
  \<open>ArbitrageOpportunity\<close> are the extension of the record.\<close>

record arb_opportunity =
  ao_opportunityId :: string
  ao_chain :: string

record 'o arb_queue =
  aq_opportunities :: "(string, 'o list) jsmap"
  aq_seen :: "(string, int) jsmap"

definition aq_empty :: "'o arb_queue" where
  "aq_empty = \<lparr>aq_opportunities = [], aq_seen = []\<rparr>"

definition aq_pruneSeen :: "int \<Rightarrow> int \<Rightarrow> 'o arb_queue \<Rightarrow> 'o arb_queue" where
  "aq_pruneSeen dedupeWindowMs now q =
     q\<lparr>aq_seen := filter (\<lambda>(key, seenAt). \<not> seenAt < now - dedupeWindowMs) (aq_seen q)\<rparr>"

definition aq_queue :: "string \<Rightarrow> 'o arb_queue \<Rightarrow> 'o list" where
  "aq_queue chain q = (case js_get (aq_opportunities q) chain of None \<Rightarrow> [] | Some os \<Rightarrow> os)"

text \<open>The loop that shifts while the queue is longer than allowed.\<close>

fun aq_shift :: "nat \<Rightarrow> 'o list \<Rightarrow> 'o list" where
  "aq_shift maxEntries [] = []"
| "aq_shift maxEntries (x # xs) =
     (if maxEntries < length (x # xs) then aq_shift maxEntries xs else x # xs)"

definition aq_push ::
  "nat \<Rightarrow> int \<Rightarrow> int \<Rightarrow> 'a arb_opportunity_scheme \<Rightarrow> 'a arb_opportunity_scheme arb_queue \<Rightarrow>
   'a arb_opportunity_scheme arb_queue" where
  "aq_push maxEntries dedupeWindowMs now opportunity q0 =
     (let q = aq_pruneSeen dedupeWindowMs now q0 in
      if js_has (aq_seen q) (ao_opportunityId opportunity) then q
      else (let queue = aq_queue (ao_chain opportunity) q @ [opportunity]
            in q\<lparr>aq_seen := js_set (ao_opportunityId opportunity) now (aq_seen q),
                 aq_opportunities := js_set (ao_chain opportunity) (aq_shift maxEntries queue) (aq_opportunities q)\<rparr>))"

definition aq_drain :: "string \<Rightarrow> 'o arb_queue \<Rightarrow> 'o list \<times> 'o arb_queue" where
  "aq_drain chain q = (aq_queue chain q, q\<lparr>aq_opportunities := js_set chain [] (aq_opportunities q)\<rparr>)"

definition aq_stop :: "'o arb_queue \<Rightarrow> 'o arb_queue" where
  "aq_stop q = q\<lparr>aq_seen := []\<rparr>"

lemma aq_shift_eq: "aq_shift n xs = last_n n xs"
  by (induction xs) (auto simp: last_n_def Suc_diff_le)

lemma aq_queue_push:
  "aq_queue chain (aq_push maxEntries w now o1 q) =
     (if ao_chain o1 = chain \<and> \<not> js_has (aq_seen (aq_pruneSeen w now q)) (ao_opportunityId o1)
      then last_n maxEntries (aq_queue chain q @ [o1]) else aq_queue chain q)"
  by (simp add: aq_push_def Let_def aq_queue_def aq_pruneSeen_def aq_shift_eq)

text \<open>An opportunity seen within the deduplication window is not queued again: after a push at
  time \<open>t\<close>, a push of the same identifier no later than the window leaves every chain's queue
  as it is.\<close>

theorem arb_dedupe_window:
  assumes "js_wf (aq_seen q)" and "now2 \<le> now1 + w"
    and "ao_opportunityId o2 = ao_opportunityId o1"
    and "\<not> js_has (aq_seen (aq_pruneSeen w now1 q)) (ao_opportunityId o1)"
  shows "aq_queue chain (aq_push maxEntries w now2 o2 (aq_push maxEntries w now1 o1 q)) =
    aq_queue chain (aq_push maxEntries w now1 o1 q)"
proof -
  let ?q1 = "aq_push maxEntries w now1 o1 q"
  have seen: "js_get (aq_seen ?q1) (ao_opportunityId o1) = Some now1"
    using assms(4) by (simp add: aq_push_def Let_def)
  have "js_wf (aq_seen (aq_pruneSeen w now1 q))"
    using assms(1) by (simp add: aq_pruneSeen_def js_wf_filter)
  then have wf: "js_wf (aq_seen ?q1)" by (simp add: aq_push_def Let_def)
  have "(ao_opportunityId o1, now1) \<in> set (aq_seen (aq_pruneSeen w now2 ?q1))"
    using js_get_SomeD [OF seen] assms(2) by (simp add: aq_pruneSeen_def)
  moreover have "js_wf (aq_seen (aq_pruneSeen w now2 ?q1))"
    using wf by (simp add: aq_pruneSeen_def js_wf_filter)
  ultimately have "js_has (aq_seen (aq_pruneSeen w now2 ?q1)) (ao_opportunityId o1)"
    by (simp add: js_has_iff js_get_iff [THEN iffD2])
  with assms(3) show ?thesis by (simp add: aq_queue_push [of chain maxEntries w now2 o2])
qed

theorem arb_dedupe_window_witness:
  "aq_queue ''base'' (aq_push 500 60000 1500 \<lparr>ao_opportunityId = ''x'', ao_chain = ''base''\<rparr>
     (aq_push 500 60000 1000 \<lparr>ao_opportunityId = ''x'', ao_chain = ''base''\<rparr> aq_empty)) =
   aq_queue ''base'' (aq_push 500 60000 1000 \<lparr>ao_opportunityId = ''x'', ao_chain = ''base''\<rparr> aq_empty)"
  by (rule arb_dedupe_window) (simp_all add: aq_empty_def aq_pruneSeen_def js_has_iff)

section \<open>BoundedWatchlist\<close>

record watch_entry =
  we_lastSeen :: int
  we_lastHealthFactor :: "int option"

type_synonym watchlist = "(address, watch_entry) jsmap"

definition wl_evictStale :: "int \<Rightarrow> int \<Rightarrow> watchlist \<Rightarrow> watchlist" where
  "wl_evictStale staleBlocks currentBlock w =
     filter (\<lambda>(addr, entry). \<not> staleBlocks < currentBlock - we_lastSeen entry) w"

definition wl_add :: "nat \<Rightarrow> int \<Rightarrow> address \<Rightarrow> int \<Rightarrow> int option \<Rightarrow> watchlist \<Rightarrow> watchlist" where
  "wl_add maxSize staleBlocks address blockNumber lastHealthFactor w0 =
     (let key = to_lower address;
          w = (if maxSize \<le> length w0 then wl_evictStale staleBlocks blockNumber w0 else w0);
          hf = (case lastHealthFactor of Some h \<Rightarrow> Some h
                | None \<Rightarrow> (case js_get w key of None \<Rightarrow> None | Some e \<Rightarrow> we_lastHealthFactor e))
      in js_set key \<lparr>we_lastSeen = blockNumber, we_lastHealthFactor = hf\<rparr> w)"

definition wl_updateHealthFactor :: "address \<Rightarrow> int \<Rightarrow> watchlist \<Rightarrow> watchlist" where
  "wl_updateHealthFactor address healthFactor w =
     (case js_get w (to_lower address) of
        None \<Rightarrow> w
      | Some e \<Rightarrow> js_set (to_lower address) (e\<lparr>we_lastHealthFactor := Some healthFactor\<rparr>) w)"

definition wl_remove :: "address \<Rightarrow> watchlist \<Rightarrow> bool \<times> watchlist" where
  "wl_remove address w = (js_has w (to_lower address), js_delete (to_lower address) w)"

definition wl_addresses :: "watchlist \<Rightarrow> address list" where
  "wl_addresses w = js_keys w"

definition wl_size :: "watchlist \<Rightarrow> nat" where
  "wl_size w = length w"

text \<open>No borrower that is fresh is ever lost: adding an address drops only entries last seen more
  than \<open>staleBlocks\<close> blocks ago, and only when the list is full; the added address is then listed
  with the block it was seen at.\<close>

theorem watchlist_drops_only_stale:
  assumes "js_wf w" and "js_get w k = Some e" and "k \<noteq> to_lower address"
  shows "js_get (wl_add maxSize staleBlocks address blockNumber hf w) k =
      (if maxSize \<le> length w \<and> staleBlocks < blockNumber - we_lastSeen e then None else Some e)
    \<and> (\<exists>h. js_get (wl_add maxSize staleBlocks address blockNumber hf w) (to_lower address) =
         Some \<lparr>we_lastSeen = blockNumber, we_lastHealthFactor = h\<rparr>)"
proof -
  have mem: "(k, e) \<in> set w" using assms(2) by (rule js_get_SomeD)
  have "js_get (wl_evictStale staleBlocks blockNumber w) k =
      (if staleBlocks < blockNumber - we_lastSeen e then None else Some e)"
  proof (cases "staleBlocks < blockNumber - we_lastSeen e")
    case True
    have "(k, x) \<notin> set (wl_evictStale staleBlocks blockNumber w)" for x
      using True assms(1,2) by (auto simp: wl_evictStale_def js_get_iff [OF assms(1), symmetric])
    with True show ?thesis
      using js_get_SomeD [of "wl_evictStale staleBlocks blockNumber w" k] by (auto intro: option.exhaust)
  next
    case False
    with mem assms(1) show ?thesis
      by (simp add: wl_evictStale_def js_get_iff js_wf_filter)
  qed
  with assms(2,3) show ?thesis by (simp add: wl_add_def Let_def)
qed

theorem watchlist_drops_only_stale_witness:
  "js_get (wl_add 1 50 ''0xB'' 200 None [(''0xa'', \<lparr>we_lastSeen = 100, we_lastHealthFactor = None\<rparr>)]) ''0xa'' = None"
proof -
  have wf: "js_wf [(''0xa'', \<lparr>we_lastSeen = (100::int), we_lastHealthFactor = None\<rparr>)]" by (simp add: js_wf_def)
  have get: "js_get [(''0xa'', \<lparr>we_lastSeen = (100::int), we_lastHealthFactor = None\<rparr>)] ''0xa'' =
      Some \<lparr>we_lastSeen = 100, we_lastHealthFactor = None\<rparr>" by (simp add: js_get_def)
  have ne: "''0xa'' \<noteq> to_lower ''0xB''" by code_simp
  show ?thesis using watchlist_drops_only_stale [OF wf get ne, of 1 50 200 None] by simp
qed

text \<open>The list is not bounded by \<open>maxSize\<close>: distinct addresses seen at one block are all kept,
  however many there are.\<close>

theorem watchlist_exceeds_max:
  assumes "distinct (map to_lower as)" and "0 \<le> staleBlocks"
  shows "wl_size (fold (\<lambda>a. wl_add maxSize staleBlocks a blockNumber None) as []) = length as"
proof -
  have fresh: "wl_evictStale staleBlocks blockNumber w = w" if "\<forall>(k, e) \<in> set w. we_lastSeen e = blockNumber" for w
    using that assms(2) by (auto simp: wl_evictStale_def intro!: filter_True)
  have "length (fold (\<lambda>a. wl_add maxSize staleBlocks a blockNumber None) as w) = length w + length as"
    if "distinct (map to_lower as)" "\<forall>(k, e) \<in> set w. we_lastSeen e = blockNumber"
      "\<forall>a \<in> set as. js_get w (to_lower a) = None" for w :: watchlist and as
    using that
  proof (induction as arbitrary: w)
    case (Cons a as)
    define w' where "w' = wl_add maxSize staleBlocks a blockNumber None w"
    have w': "w' = js_set (to_lower a) \<lparr>we_lastSeen = blockNumber, we_lastHealthFactor = None\<rparr> w"
      using Cons.prems by (simp add: w'_def wl_add_def Let_def fresh)
    have len: "length w' = Suc (length w)"
      using Cons.prems(3) by (simp add: w' length_js_set js_has_iff)
    have "\<forall>(k, e) \<in> set w'. we_lastSeen e = blockNumber"
      using Cons.prems(2) js_set_subset [of "to_lower a" _ w] by (fastforce simp: w')
    moreover have "\<forall>b \<in> set as. js_get w' (to_lower b) = None"
      using Cons.prems(1,3) by (auto simp: w') (metis image_eqI)
    ultimately show ?case
      using Cons.IH [of w'] Cons.prems(1) len by (simp add: w'_def [symmetric])
  qed simp
  from this [of as "[]"] assms(1) show ?thesis by (simp add: wl_size_def)
qed

theorem watchlist_exceeds_max_witness:
  "wl_size (fold (\<lambda>a. wl_add 1 50400 a 100 None) [''0xA'', ''0xB'', ''0xC''] []) = 3"
proof -
  have "distinct (map to_lower [''0xA'', ''0xB'', ''0xC''])" by code_simp
  from watchlist_exceeds_max [OF this, of 50400 1 100] show ?thesis by simp
qed

section \<open>StalenessGuard\<close>

datatype staleness_status = Fresh | Stale | Critical

definition sg_check :: "int \<Rightarrow> int \<Rightarrow> int \<Rightarrow> staleness_status" where
  "sg_check maxStaleMs lastUpdate now =
     (let age = now - lastUpdate in
      if age < maxStaleMs then Fresh else if age < maxStaleMs * 3 then Stale else Critical)"

definition sg_ageMs :: "int \<Rightarrow> int \<Rightarrow> int" where
  "sg_ageMs lastUpdate now = now - lastUpdate"

end
