(* ===== verification/Health_Factor.thy ===== *)
theory Health_Factor
  imports Prelude
begin

text \<open>
  \<open>calculateHealthFactor\<close> of \<open>src/protocols/aaveV3.ts\<close>, the position record of
  \<open>src/monitors/localPositionModel.ts\<close> and the policy of \<open>src/monitors/localPositionHfPolicy.ts\<close>
  that decides which health factor a position gets: the one recomputed from reserves, the one of
  its last on-chain aggregate, or the one it already has. A health factor is a \<open>bigint\<close> with 18
  decimals; the \<open>BPS\<close> ratios converted to \<open>Number\<close> by the code are kept as integers.
\<close>

section \<open>The health factor of an account\<close>

definition calculateHealthFactor :: "int \<Rightarrow> int \<Rightarrow> int \<Rightarrow> int option \<Rightarrow> int" where
  "calculateHealthFactor totalCollateralBase totalDebtBase currentLiquidationThreshold healthFactor =
     (case healthFactor of
        Some hf \<Rightarrow> hf
      | None \<Rightarrow>
          if totalDebtBase = 0 then MAX_UINT256
          else bdiv (totalCollateralBase * currentLiquidationThreshold * WAD) (totalDebtBase * BPS))"

section \<open>Positions\<close>

datatype position_confidence = HighConfidence | LowConfidence

datatype position_tier = Healthy | Watch | Urgent | Liquidatable

record user_position =
  up_account :: address
  up_collateral :: "(address, int) jsmap"
  up_debt :: "(address, int) jsmap"
  up_collateralIndexAtUpdate :: "(address, int) jsmap"
  up_debtIndexAtUpdate :: "(address, int) jsmap"
  up_cachedHfWad :: int
  up_confidence :: position_confidence
  up_isFullySeeded :: bool
  up_lastConfirmedBlock :: int
  up_lastActivityBlock :: int
  up_eModeCategoryId :: int
  up_lastTotalCollateralBase :: "int option"
  up_lastTotalDebtBase :: "int option"
  up_lastLiquidationThreshold :: "int option"

datatype hf_result =
    HfOk int
  | HfPriceIncomplete "address list"
  | HfPriceStale "address list"
  | HfNoDebt
  | HfError string

section \<open>The policy\<close>

definition HF_POLICY_CAP_WAD :: int where
  "HF_POLICY_CAP_WAD = 1000 * WAD"

definition HF_DANGER_ZONE_MAX_WAD :: int where
  "HF_DANGER_ZONE_MAX_WAD = bdiv (3 * WAD) 2"

definition HF_DIVERGENCE_RATIO_BPS :: int where
  "HF_DIVERGENCE_RATIO_BPS = 5000"

definition MIN_ON_CHAIN_HF_WAD_FOR_DRIFT :: int where
  "MIN_ON_CHAIN_HF_WAD_FOR_DRIFT = 1000000000000000"

definition MAX_SHADOW_DRIFT_BPS :: int where
  "MAX_SHADOW_DRIFT_BPS = 10000"

definition DUST_DEBT_BASE_THRESHOLD :: int where
  "DUST_DEBT_BASE_THRESHOLD = 1000000"

definition aggregateHfWad :: "user_position \<Rightarrow> int option" where
  "aggregateHfWad p =
     (case (up_lastTotalCollateralBase p, up_lastTotalDebtBase p, up_lastLiquidationThreshold p) of
        (Some c, Some d, Some lt) \<Rightarrow> Some (calculateHealthFactor c d lt None)
      | _ \<Rightarrow> None)"

definition isDangerZoneHf :: "int \<Rightarrow> bool" where
  "isDangerZoneHf hfWad =
     (if MAX_UINT256 \<le> hfWad then False
      else if hfWad < HF_DANGER_ZONE_MAX_WAD then True
      else (let delta = (if WAD < hfWad then hfWad - WAD else WAD - hfWad) in delta < bdiv WAD 2))"

definition relativeDivergenceBps :: "int \<Rightarrow> int \<Rightarrow> int" where
  "relativeDivergenceBps baseline proposed =
     (if baseline = 0 \<or> MAX_UINT256 \<le> baseline then 0
      else (let diff = (if proposed < baseline then baseline - proposed else proposed - baseline)
            in bdiv (diff * BPS) baseline))"

definition capPerReserveHf :: "int \<Rightarrow> user_position \<Rightarrow> int" where
  "capPerReserveHf hfWad p =
     (if HF_POLICY_CAP_WAD < hfWad then HF_POLICY_CAP_WAD
      else case up_lastTotalDebtBase p of
             None \<Rightarrow> hfWad
           | Some debtBase \<Rightarrow>
               if 0 < debtBase \<and> debtBase < DUST_DEBT_BASE_THRESHOLD \<and> HF_DANGER_ZONE_MAX_WAD < hfWad
               then HF_POLICY_CAP_WAD else hfWad)"

definition shouldRejectPerReserveOverwrite :: "user_position \<Rightarrow> int \<Rightarrow> bool" where
  "shouldRejectPerReserveOverwrite p proposedHf =
     (if up_confidence p \<noteq> HighConfidence then False
      else if up_lastTotalDebtBase p = None \<or> up_lastTotalCollateralBase p = None then False
      else HF_DIVERGENCE_RATIO_BPS < relativeDivergenceBps (up_cachedHfWad p) proposedHf)"

definition effective_without_danger :: "user_position \<Rightarrow> int \<Rightarrow> int option \<Rightarrow> int" where
  "effective_without_danger p capped aggregate =
     (if up_confidence p = HighConfidence \<and>
         (case aggregate of None \<Rightarrow> False
          | Some a \<Rightarrow> HF_DIVERGENCE_RATIO_BPS < relativeDivergenceBps a capped)
      then the aggregate
      else if shouldRejectPerReserveOverwrite p capped then up_cachedHfWad p
      else capped)"

definition resolveEffectiveHfWad :: "user_position \<Rightarrow> int \<Rightarrow> int" where
  "resolveEffectiveHfWad p perReserveHf =
     (let capped = capPerReserveHf perReserveHf p; aggregate = aggregateHfWad p
      in case aggregate of
           Some a \<Rightarrow> if isDangerZoneHf a then a else effective_without_danger p capped aggregate
         | None \<Rightarrow> effective_without_danger p capped aggregate)"

fun resolveHfFromResult :: "user_position \<Rightarrow> hf_result \<Rightarrow> int option" where
  "resolveHfFromResult p (HfPriceIncomplete _) = None"
| "resolveHfFromResult p (HfPriceStale _) = None"
| "resolveHfFromResult p (HfError _) = None"
| "resolveHfFromResult p HfNoDebt =
     (if (case up_lastTotalDebtBase p of Some d \<Rightarrow> 0 < d | None \<Rightarrow> False)
      then (case aggregateHfWad p of
              Some aggregate \<Rightarrow> Some (resolveEffectiveHfWad p aggregate)
            | None \<Rightarrow> Some (up_cachedHfWad p))
      else Some MAX_UINT256)"
| "resolveHfFromResult p (HfOk hf) = Some (resolveEffectiveHfWad p hf)"

definition computeShadowDriftBps :: "int \<Rightarrow> int \<Rightarrow> int" where
  "computeShadowDriftBps localHfWad onChainHfWad =
     (if onChainHfWad = 0 then MAX_SHADOW_DRIFT_BPS
      else (let denom = (if onChainHfWad < MIN_ON_CHAIN_HF_WAD_FOR_DRIFT
                         then MIN_ON_CHAIN_HF_WAD_FOR_DRIFT else onChainHfWad);
                diff = (if onChainHfWad < localHfWad then localHfWad - onChainHfWad else onChainHfWad - localHfWad)
            in min (bdiv (diff * BPS) denom) MAX_SHADOW_DRIFT_BPS))"

section \<open>Facts about the policy\<close>

lemma HF_DANGER_ZONE_MAX: "HF_DANGER_ZONE_MAX_WAD = 1500000000000000000"
  by (simp add: HF_DANGER_ZONE_MAX_WAD_def WAD_def bdiv_def)

lemma relativeDivergenceBps_self [simp]: "relativeDivergenceBps b b = 0"
  by (simp add: relativeDivergenceBps_def)

lemma capPerReserveHf_le: "capPerReserveHf hf p \<le> HF_POLICY_CAP_WAD"
  by (auto simp: capPerReserveHf_def split: option.splits)

lemma capPerReserveHf_danger: "hf \<le> HF_DANGER_ZONE_MAX_WAD \<Longrightarrow> capPerReserveHf hf p = hf"
  by (auto simp: capPerReserveHf_def HF_DANGER_ZONE_MAX HF_POLICY_CAP_WAD_def WAD_def split: option.splits)

lemma resolveEffective_danger:
  "aggregateHfWad p = Some a \<Longrightarrow> isDangerZoneHf a \<Longrightarrow> resolveEffectiveHfWad p hf = a"
  by (simp add: resolveEffectiveHfWad_def)

lemma isDangerZone_below: "isDangerZoneHf hf \<longleftrightarrow> hf < HF_DANGER_ZONE_MAX_WAD"
  by (auto simp: isDangerZoneHf_def HF_DANGER_ZONE_MAX WAD_def MAX_UINT256_def bdiv_def Let_def)

lemma resolveEffective_cases:
  obtains (aggregate) a where "aggregateHfWad p = Some a" "resolveEffectiveHfWad p hf = a"
  | (cached) "resolveEffectiveHfWad p hf = up_cachedHfWad p"
  | (capped) "resolveEffectiveHfWad p hf = capPerReserveHf hf p"
      "\<And>a. up_confidence p = HighConfidence \<Longrightarrow> aggregateHfWad p = Some a \<Longrightarrow>
         relativeDivergenceBps a (capPerReserveHf hf p) \<le> HF_DIVERGENCE_RATIO_BPS \<and>
         relativeDivergenceBps (up_cachedHfWad p) (capPerReserveHf hf p) \<le> HF_DIVERGENCE_RATIO_BPS"
proof (cases "aggregateHfWad p")
  case None
  then have "resolveEffectiveHfWad p hf = (if shouldRejectPerReserveOverwrite p (capPerReserveHf hf p)
      then up_cachedHfWad p else capPerReserveHf hf p)"
    by (simp add: resolveEffectiveHfWad_def effective_without_danger_def)
  with None show thesis using cached capped by (metis option.distinct(1))
next
  case (Some a)
  have known: "up_lastTotalDebtBase p \<noteq> None \<and> up_lastTotalCollateralBase p \<noteq> None"
    using Some by (auto simp: aggregateHfWad_def split: option.splits)
  show thesis
  proof (cases "resolveEffectiveHfWad p hf = a \<or> resolveEffectiveHfWad p hf = up_cachedHfWad p")
    case True
    then show thesis using aggregate [OF Some] cached by blast
  next
    case False
    then have "resolveEffectiveHfWad p hf = capPerReserveHf hf p"
      "up_confidence p = HighConfidence \<Longrightarrow> relativeDivergenceBps a (capPerReserveHf hf p) \<le> HF_DIVERGENCE_RATIO_BPS"
      "\<not> shouldRejectPerReserveOverwrite p (capPerReserveHf hf p)"
      by (auto simp: resolveEffectiveHfWad_def effective_without_danger_def Some split: if_splits)
    then show thesis
      using known Some by (intro capped) (auto simp: shouldRejectPerReserveOverwrite_def split: if_splits)
  qed
qed

section \<open>Properties\<close>

text \<open>The health factor is below one exactly when the debt, in basis points, exceeds the collateral
  weighted by the liquidation threshold: rounding down never turns a healthy account into a
  liquidatable one.\<close>

theorem health_factor_below_one:
  assumes "0 \<le> c" and "0 \<le> lt" and "0 < d"
  shows "calculateHealthFactor c d lt None < WAD \<longleftrightarrow> c * lt < d * BPS"
proof -
  have "calculateHealthFactor c d lt None < WAD \<longleftrightarrow> c * lt * WAD < WAD * (d * BPS)"
    using assms bdiv_less_iff [of "c * lt * WAD" "d * BPS" WAD] by (simp add: calculateHealthFactor_def WAD_def BPS_def)
  also have "\<dots> \<longleftrightarrow> c * lt < d * BPS"
    using mult_less_cancel_right_pos [of WAD "c * lt" "d * BPS"] by (simp add: mult.commute)
  finally show ?thesis .
qed

theorem health_factor_below_one_witness:
  "calculateHealthFactor 1000 825 8250 None \<ge> WAD \<and> calculateHealthFactor 1000 826 8250 None < WAD"
proof
  show "calculateHealthFactor 1000 825 8250 None \<ge> WAD"
    using health_factor_below_one [of 1000 8250 825] by (simp add: BPS_def)
  show "calculateHealthFactor 1000 826 8250 None < WAD"
    using health_factor_below_one [of 1000 8250 826] by (simp add: BPS_def)
qed

text \<open>A position whose last on-chain aggregate is below 1.5 keeps that aggregate as its health
  factor whatever the local recomputation says, as long as prices are known: a local error cannot
  hide a liquidation.\<close>

theorem danger_zone_uses_aggregate:
  assumes "aggregateHfWad p = Some a" and "a < HF_DANGER_ZONE_MAX_WAD" and "0 < the (up_lastTotalDebtBase p)"
  shows "resolveHfFromResult p (HfOk hf) = Some a \<and> resolveHfFromResult p HfNoDebt = Some a"
proof -
  from assms(1) obtain d where "up_lastTotalDebtBase p = Some d"
    by (auto simp: aggregateHfWad_def split: option.splits)
  with assms show ?thesis by (simp add: resolveEffective_danger isDangerZone_below)
qed

definition sample_position :: user_position where
  "sample_position = \<lparr>up_account = ''0xA'', up_collateral = [(''weth'', 10)], up_debt = [(''usdc'', 5)],
     up_collateralIndexAtUpdate = [], up_debtIndexAtUpdate = [], up_cachedHfWad = 2 * WAD,
     up_confidence = HighConfidence, up_isFullySeeded = True, up_lastConfirmedBlock = 1, up_lastActivityBlock = 1,
     up_eModeCategoryId = 0, up_lastTotalCollateralBase = Some 1000000000, up_lastTotalDebtBase = Some 850000000,
     up_lastLiquidationThreshold = Some 8000\<rparr>"

theorem danger_zone_uses_aggregate_witness:
  "resolveHfFromResult sample_position (HfOk (5 * WAD)) = Some 941176470588235294"
  using danger_zone_uses_aggregate [of sample_position 941176470588235294 "5 * WAD"]
  by (simp add: sample_position_def aggregateHfWad_def calculateHealthFactor_def WAD_def BPS_def bdiv_def HF_DANGER_ZONE_MAX)

text \<open>The health factor committed after a successful recomputation of a high-confidence position
  with an on-chain aggregate is the aggregate, the cached one, or a capped value within half of both:
  a single recomputation never moves the position further.\<close>

theorem high_confidence_guard:
  assumes "up_confidence p = HighConfidence" and "aggregateHfWad p = Some a" and "resolveHfFromResult p (HfOk hf) = Some r"
  shows "r = a \<or> r = up_cachedHfWad p \<or>
    (r \<le> HF_POLICY_CAP_WAD \<and> relativeDivergenceBps a r \<le> HF_DIVERGENCE_RATIO_BPS \<and>
     relativeDivergenceBps (up_cachedHfWad p) r \<le> HF_DIVERGENCE_RATIO_BPS)"
proof -
  have r: "r = resolveEffectiveHfWad p hf" using assms(3) by simp
  show ?thesis
    by (cases rule: resolveEffective_cases [of p hf]) (use assms(1,2) r capPerReserveHf_le in auto)
qed

definition safe_position :: user_position where
  "safe_position = sample_position\<lparr>up_lastTotalDebtBase := Some 400000000\<rparr>"

theorem high_confidence_guard_witness:
  "2100000000000000000 \<le> HF_POLICY_CAP_WAD \<and>
   relativeDivergenceBps (2 * WAD) 2100000000000000000 \<le> HF_DIVERGENCE_RATIO_BPS"
proof -
  have a: "aggregateHfWad safe_position = Some (2 * WAD)" and h: "up_confidence safe_position = HighConfidence"
    by (simp_all add: safe_position_def sample_position_def aggregateHfWad_def calculateHealthFactor_def WAD_def BPS_def bdiv_def)
  have r: "resolveHfFromResult safe_position (HfOk 2100000000000000000) = Some 2100000000000000000"
    by code_simp
  show ?thesis using high_confidence_guard [OF h a r] by (simp add: WAD_def safe_position_def sample_position_def)
qed

text \<open>The drift between a local and an on-chain health factor lies between 0 and 10000 basis points
  and is 0 when they agree on a position that has a health factor.\<close>

theorem shadow_drift_bounded:
  assumes "0 \<le> l" and "0 \<le> h"
  shows "computeShadowDriftBps l h \<in> {0..10000} \<and> (0 < h \<longrightarrow> computeShadowDriftBps h h = 0)"
proof
  have "0 \<le> bdiv (x * BPS) y" if "0 \<le> x" "0 \<le> y" for x y
    using that by (intro bdiv_nonneg mult_nonneg_nonneg) (simp_all add: BPS_def)
  then show "computeShadowDriftBps l h \<in> {0..10000}"
    using assms by (auto simp: computeShadowDriftBps_def Let_def MAX_SHADOW_DRIFT_BPS_def MIN_ON_CHAIN_HF_WAD_FOR_DRIFT_def)
  show "0 < h \<longrightarrow> computeShadowDriftBps h h = 0"
    by (auto simp: computeShadowDriftBps_def Let_def MAX_SHADOW_DRIFT_BPS_def)
qed

theorem shadow_drift_bounded_witness:
  "computeShadowDriftBps (2 * WAD) WAD \<in> {0..10000} \<and> computeShadowDriftBps WAD WAD = 0"
  using shadow_drift_bounded [of "2 * WAD" WAD] less_imp_le [OF WAD_pos] by simp

text \<open>The danger-zone test is the plain comparison with 1.5: its second half, the distance from
  one, never decides.\<close>

theorem danger_zone_is_threshold: "isDangerZoneHf hf = (hf < HF_DANGER_ZONE_MAX_WAD)"
  using isDangerZone_below by simp

end
