(* ===== verification/Peg_Prices.thy ===== *)
theory Peg_Prices
  imports Complex_Main Prelude
begin

text \<open>
  Prices of the pegged asset: \<open>src/oracle/pegPriceNormalizer.ts\<close>, \<open>src/oracle/healthyPegAsset.ts\<close> and the
  constants they read from \<open>src/config/oracleBootstrap.ts\<close> and \<open>src/oracle/baseReserveAssets.ts\<close>. USDbC is
  priced at the USDC price while that price is fresh. Prices are \<open>bigint\<close>s with 18 decimals; the price
  1 stands for an unknown price. The freshness multiplier is read from the process environment by
  the code; here it is a field of the input.
\<close>

section \<open>Constants and feeds\<close>

definition BASE_USDC :: address where
  "BASE_USDC = ''0x833589fCD6eDb6E08f4c7C32D4f71b54bdA02913''"

definition BASE_USDBC :: address where
  "BASE_USDBC = ''0xd9aaEC86B65d86f6A7B5B1b0c42FFA531710B6CA''"

definition FEED_HEARTBEATS :: "(address, int) jsmap" where
  "FEED_HEARTBEATS =
     [(''0x71041dddad3595f9ced3dccfbe3d1f4b0a16bb70'', 3600),
      (''0x7e860098f58bbfc8648a4311b374b1d669a2bc6b'', 86400),
      (''0x07da0e54543a844a80abe69c8a12f22b3aa59f9d'', 3600)]"

definition feed_heartbeat :: "address \<Rightarrow> int" where
  "feed_heartbeat feed = (case js_get FEED_HEARTBEATS (to_lower feed) of Some h \<Rightarrow> h | None \<Rightarrow> 3600)"

datatype price_source = FromChainlink | FromAave | FromPeg

record feed_state =
  fs_answer :: int
  fs_decimals :: int
  fs_updatedAt :: int
  fs_feedAddress :: address
  fs_asset :: address
  fs_source :: "price_source option"

record peg_health_input =
  ph_prices :: "(address, int) jsmap"
  ph_feedStates :: "(address, feed_state) jsmap"
  ph_nowSec :: int
  ph_multiplier :: rat

section \<open>The peg\<close>

definition pegUsdbcFromUsdcPrice :: "int \<Rightarrow> int" where
  "pegUsdbcFromUsdcPrice usdcNormalizedPriceWad18 = usdcNormalizedPriceWad18"

definition isUsdbcAsset :: "address \<Rightarrow> bool" where
  "isUsdbcAsset a = (to_lower a = to_lower BASE_USDBC)"

definition pegReferenceAsset :: "address \<Rightarrow> address option" where
  "pegReferenceAsset a = (if isUsdbcAsset a then Some BASE_USDC else None)"

definition pegAssetsDerivedFrom :: "address \<Rightarrow> address list" where
  "pegAssetsDerivedFrom referenceAsset =
     (if to_lower referenceAsset = to_lower BASE_USDC then [BASE_USDBC] else [])"

definition resolvePegPriceWad18 :: "address \<Rightarrow> (address, int) jsmap \<Rightarrow> int option" where
  "resolvePegPriceWad18 a prices =
     (case pegReferenceAsset a of
        None \<Rightarrow> None
      | Some reference \<Rightarrow>
          (case js_get prices (to_lower reference) of
             None \<Rightarrow> None
           | Some referencePrice \<Rightarrow>
               if referencePrice \<le> 1 then None
               else if isUsdbcAsset a then Some (pegUsdbcFromUsdcPrice referencePrice) else None))"

definition isPegTrackedAsset :: "address \<Rightarrow> bool" where
  "isPegTrackedAsset a = (pegReferenceAsset a \<noteq> None)"

definition MAX_PEG_DIVERGENCE_BPS :: int where
  "MAX_PEG_DIVERGENCE_BPS = 50"

definition pegDivergenceBps :: "int \<Rightarrow> int \<Rightarrow> int" where
  "pegDivergenceBps pegPriceWad18 aavePriceBase8 =
     (if aavePriceBase8 = 0 then BPS
      else (let aaveWad18 = aavePriceBase8 * 10 ^ 10;
                diff = (if aaveWad18 < pegPriceWad18 then pegPriceWad18 - aaveWad18 else aaveWad18 - pegPriceWad18)
            in bdiv (diff * BPS) aaveWad18))"

definition isPegDivergenceAcceptable :: "int \<Rightarrow> int \<Rightarrow> bool" where
  "isPegDivergenceAcceptable pegPriceWad18 aavePriceBase8 =
     (pegDivergenceBps pegPriceWad18 aavePriceBase8 \<le> MAX_PEG_DIVERGENCE_BPS)"

section \<open>Fresh pegs\<close>

text \<open>
  \<open>configured\<close> is the finite number that \<open>PEG_DERIVATION_FRESHNESS_MULTIPLIER\<close> parses to, \<open>None\<close> when the
  variable is unset, empty or no finite number.
\<close>

definition DEFAULT_PEG_DERIVATION_FRESHNESS_MULTIPLIER :: rat where
  "DEFAULT_PEG_DERIVATION_FRESHNESS_MULTIPLIER = 5 / 2"

definition pegDerivationFreshnessMultiplier :: "rat option \<Rightarrow> rat" where
  "pegDerivationFreshnessMultiplier configured =
     (case configured of
        None \<Rightarrow> DEFAULT_PEG_DERIVATION_FRESHNESS_MULTIPLIER
      | Some parsed \<Rightarrow> if parsed \<le> 0 then DEFAULT_PEG_DERIVATION_FRESHNESS_MULTIPLIER else parsed)"

definition isUsdcFreshEnoughForPegDerivation :: "rat \<Rightarrow> feed_state \<Rightarrow> int \<Rightarrow> bool" where
  "isUsdcFreshEnoughForPegDerivation multiplier usdcFeed nowSec =
     (of_int (nowSec - fs_updatedAt usdcFeed) \<le> of_int (feed_heartbeat (fs_feedAddress usdcFeed)) * multiplier)"

definition shouldRelaxFreshnessForHealthyPeg :: "address \<Rightarrow> peg_health_input \<Rightarrow> bool" where
  "shouldRelaxFreshnessForHealthyPeg a input =
     (if \<not> isUsdbcAsset a then False
      else case js_get (ph_prices input) (to_lower BASE_USDC) of
        None \<Rightarrow> False
      | Some usdcPrice \<Rightarrow>
          if usdcPrice \<le> 1 then False
          else case js_get (ph_feedStates input) (to_lower BASE_USDC) of
            None \<Rightarrow> True
          | Some usdcFeed \<Rightarrow>
              if fs_source usdcFeed = Some FromAave \<or> fs_source usdcFeed = Some FromPeg then True
              else isUsdcFreshEnoughForPegDerivation (ph_multiplier input) usdcFeed (ph_nowSec input))"

definition resolveHealthyPegPriceWad18 :: "address \<Rightarrow> peg_health_input \<Rightarrow> int option" where
  "resolveHealthyPegPriceWad18 a input =
     (if \<not> shouldRelaxFreshnessForHealthyPeg a input then None else resolvePegPriceWad18 a (ph_prices input))"

definition resolveEffectiveAssetPriceWad18 :: "address \<Rightarrow> peg_health_input \<Rightarrow> int option" where
  "resolveEffectiveAssetPriceWad18 a input =
     (case js_get (ph_prices input) (to_lower a) of
        Some direct \<Rightarrow> if 1 < direct then Some direct else resolveHealthyPegPriceWad18 a input
      | None \<Rightarrow> resolveHealthyPegPriceWad18 a input)"

definition filterHealthyPegAssetsFromGapList :: "address list \<Rightarrow> peg_health_input \<Rightarrow> address list" where
  "filterHealthyPegAssetsFromGapList missingAssets input =
     filter (\<lambda>a. \<not> shouldRelaxFreshnessForHealthyPeg a input) missingAssets"

definition pegUsdbcPriceFromHealthyReference :: "peg_health_input \<Rightarrow> int option" where
  "pegUsdbcPriceFromHealthyReference input =
     (if \<not> shouldRelaxFreshnessForHealthyPeg BASE_USDBC input then None
      else case js_get (ph_prices input) (to_lower BASE_USDC) of
        None \<Rightarrow> None
      | Some usdcPrice \<Rightarrow> if usdcPrice \<le> 1 then None else Some (pegUsdbcFromUsdcPrice usdcPrice))"

section \<open>Facts\<close>

lemma usdbc_not_usdc [simp]: "to_lower BASE_USDBC \<noteq> to_lower BASE_USDC"
  by code_simp

lemma isUsdbc_self [simp]: "isUsdbcAsset BASE_USDBC" "isUsdbcAsset (to_lower BASE_USDBC)"
  by (simp_all add: isUsdbcAsset_def)

lemma resolvePegPrice_iff:
  "resolvePegPriceWad18 a prices = Some u \<longleftrightarrow>
     isUsdbcAsset a \<and> js_get prices (to_lower BASE_USDC) = Some u \<and> 1 < u"
  by (auto simp: resolvePegPriceWad18_def pegReferenceAsset_def pegUsdbcFromUsdcPrice_def split: option.splits)

lemma healthyReference_price:
  "pegUsdbcPriceFromHealthyReference input = Some u \<Longrightarrow> js_get (ph_prices input) (to_lower BASE_USDC) = Some u \<and> 1 < u"
  by (auto simp: pegUsdbcPriceFromHealthyReference_def pegUsdbcFromUsdcPrice_def split: option.splits if_splits)

section \<open>Properties\<close>

text \<open>An effective price is always a known price, above the placeholder 1; it is the asset's own
  price, or, for USDbC without a price of its own, exactly the USDC price, and then the USDC feed,
  when it is a Chainlink feed, is not older than the allowed multiple of its heartbeat.\<close>

theorem effective_price_sound:
  assumes "resolveEffectiveAssetPriceWad18 a input = Some u"
  shows "1 < u \<and>
    (js_get (ph_prices input) (to_lower a) = Some u \<or>
     (isUsdbcAsset a \<and> js_get (ph_prices input) (to_lower BASE_USDC) = Some u \<and>
      (\<forall>feed. js_get (ph_feedStates input) (to_lower BASE_USDC) = Some feed \<and>
         fs_source feed \<noteq> Some FromAave \<and> fs_source feed \<noteq> Some FromPeg \<longrightarrow>
         of_int (ph_nowSec input - fs_updatedAt feed) \<le> of_int (feed_heartbeat (fs_feedAddress feed)) * ph_multiplier input)))"
  using assms
  by (auto simp: resolveEffectiveAssetPriceWad18_def resolveHealthyPegPriceWad18_def resolvePegPrice_iff
      shouldRelaxFreshnessForHealthyPeg_def isUsdcFreshEnoughForPegDerivation_def split: option.splits if_splits)

definition usdc_feed :: "int \<Rightarrow> feed_state" where
  "usdc_feed t = \<lparr>fs_answer = 100000000, fs_decimals = 8, fs_updatedAt = t,
     fs_feedAddress = ''0x7e860098F58bBFC8648a4311b374B1D669a2bc6B'', fs_asset = BASE_USDC, fs_source = Some FromChainlink\<rparr>"

definition usdc_only :: peg_health_input where
  "usdc_only = \<lparr>ph_prices = [(to_lower BASE_USDC, 1000000000000000000)], ph_feedStates = [(to_lower BASE_USDC, usdc_feed 0)],
     ph_nowSec = 200000, ph_multiplier = 5 / 2\<rparr>"

lemma usdc_heartbeat: "feed_heartbeat (fs_feedAddress (usdc_feed t)) = 86400"
proof -
  have "fs_feedAddress (usdc_feed t) = ''0x7e860098F58bBFC8648a4311b374B1D669a2bc6B''" by (simp add: usdc_feed_def)
  moreover have "feed_heartbeat ''0x7e860098F58bBFC8648a4311b374B1D669a2bc6B'' = 86400" by code_simp
  ultimately show ?thesis by simp
qed

theorem effective_price_sound_witness:
  "resolveEffectiveAssetPriceWad18 BASE_USDBC usdc_only = Some 1000000000000000000 \<and> (1::int) < 1000000000000000000"
proof
  show price: "resolveEffectiveAssetPriceWad18 BASE_USDBC usdc_only = Some 1000000000000000000"
    using usdc_heartbeat [of 0]
    by (simp add: resolveEffectiveAssetPriceWad18_def usdc_only_def js_get_def resolveHealthyPegPriceWad18_def
        shouldRelaxFreshnessForHealthyPeg_def isUsdcFreshEnoughForPegDerivation_def resolvePegPrice_iff)
      (simp add: usdc_feed_def)
  show "(1::int) < 1000000000000000000" using effective_price_sound [OF price] by blast
qed

text \<open>The peg is accepted exactly when its price lies less than 51 basis points from Aave's.\<close>

theorem peg_divergence_band:
  assumes "0 < aave8"
  shows "isPegDivergenceAcceptable peg aave8 \<longleftrightarrow> \<bar>peg - aave8 * 10 ^ 10\<bar> * 10000 < 51 * (aave8 * 10 ^ 10)"
proof -
  let ?a = "aave8 * 10 ^ 10"
  have a: "0 < ?a" using assms by simp
  have "pegDivergenceBps peg aave8 = \<bar>peg - ?a\<bar> * BPS div ?a"
    using a assms by (auto simp: pegDivergenceBps_def Let_def bdiv_nonneg_eq BPS_def)
  then have "isPegDivergenceAcceptable peg aave8 \<longleftrightarrow> \<bar>peg - ?a\<bar> * 10000 div ?a < 51"
    by (auto simp: isPegDivergenceAcceptable_def MAX_PEG_DIVERGENCE_BPS_def BPS_def)
  also have "\<dots> \<longleftrightarrow> \<bar>peg - ?a\<bar> * 10000 < 51 * ?a"
    using div_less_iff [OF a] by blast
  finally show ?thesis .
qed

theorem peg_divergence_band_witness:
  "isPegDivergenceAcceptable 1005000000000000000 100000000 \<and> \<not> isPegDivergenceAcceptable 1005100000000000000 100000000"
  using peg_divergence_band [of 100000000 1005000000000000000] peg_divergence_band [of 100000000 1005100000000000000]
  by simp

end
