(* ===== verification/Position_Model.thy ===== *)
theory Position_Model
  imports Health_Factor Peg_Prices
begin

text \<open>
  \<open>src/monitors/localPositionModel.ts\<close>: the in-memory mirror of the Aave positions, driven by pool events
  and price feeds, and \<open>HfPriceGapAggregator\<close> of \<open>src/utils/logRateLimiter.ts\<close>, which it reports price
  gaps to. This theory holds the state and the operations; the recursion between the recomputation of
  one position and the peg prices is studied in \<open>Position_Recompute\<close>, the invariants and evictions in
  \<open>Position_Invariants\<close>.

  A position object is the value stored under its account's key; the code mutates it in place, the
  model stores the new value under the key. \<open>Date.now()\<close> is the argument \<open>nowMs\<close>, one reading for one
  call. Thresholds given as decimal fractions in the configuration are fields in the units the code
  converts them to. Strings in exported snapshots are kept as the integers they print. Only the
  logger is left out.
\<close>

section \<open>State\<close>

record reserve_config =
  rs_asset :: address
  rs_liquidationThresholdBps :: int
  rs_liquidityIndex :: int
  rs_variableBorrowIndex :: int
  rs_indexUpdatedAtBlock :: int
  rs_liquidationBonus :: "int option"

record model_config =
  mc_urgentHfWad :: int
  mc_watchHfWad :: int
  mc_reserveAllowlist :: "address list option"
  mc_hardCap :: nat
  mc_evictionHfWad :: int
  mc_evictionInactiveBlocks :: int
  mc_reserveIndexRefreshBlocks :: int
  mc_pegMultiplier :: rat

record tier_change =
  tc_account :: address
  tc_tier :: position_tier
  tc_localHfWad :: int
  tc_isNew :: bool
  tc_isFullySeeded :: bool

record apply_result =
  ar_changes :: "tier_change list"
  ar_firstTouchReconcile :: "address option"

record gap_bucket =
  gb_skipCount :: nat
  gb_accounts :: "string list"

record gap_aggregator =
  ga_windowStartMs :: int
  ga_totalSkips :: nat
  ga_gaps :: "(string, gap_bucket) jsmap"

record gap_summary =
  gs_windowSec :: int
  gs_gaps :: "(string \<times> nat \<times> nat) list"
  gs_totalSkips :: nat

record position_model =
  pm_positions :: "(address, user_position) jsmap"
  pm_prices :: "(address, int) jsmap"
  pm_feedStates :: "(address, feed_state) jsmap"
  pm_reserveConfig :: "(address, reserve_config) jsmap"
  pm_flashblockTickCount :: int
  pm_evictionTotal :: nat
  pm_pricesBootstrapped :: bool
  pm_gapAggregator :: gap_aggregator

section \<open>Events\<close>

datatype pool_event_name = Supply | Withdraw | Borrow | Repay | LiquidationCall | ReserveDataUpdated

record pool_event =
  ev_name :: pool_event_name
  ev_blockNumber :: int
  ev_reserve :: address
  ev_collateralAsset :: "address option"
  ev_debtAsset :: "address option"
  ev_user :: "address option"
  ev_onBehalfOf :: "address option"
  ev_amount :: "int option"
  ev_debtToCover :: "int option"
  ev_liquidatedCollateralAmount :: "int option"
  ev_liquidityIndex :: "int option"
  ev_variableBorrowIndex :: "int option"

record price_event =
  pe_feed :: address
  pe_asset :: address
  pe_price :: int
  pe_oracleUpdatedAtSec :: int

section \<open>The gap aggregator\<close>

definition gap_new :: "int \<Rightarrow> gap_aggregator" where
  "gap_new nowMs = \<lparr>ga_windowStartMs = nowMs, ga_totalSkips = 0, ga_gaps = []\<rparr>"

definition gap_flush :: "int \<Rightarrow> int \<Rightarrow> gap_aggregator \<Rightarrow> gap_summary \<times> gap_aggregator" where
  "gap_flush windowSec nowMs g =
     (\<lparr>gs_windowSec = windowSec,
       gs_gaps = map (\<lambda>(a, b). (a, gb_skipCount b, length (gb_accounts b))) (ga_gaps g),
       gs_totalSkips = ga_totalSkips g\<rparr>,
      \<lparr>ga_windowStartMs = nowMs, ga_totalSkips = 0, ga_gaps = []\<rparr>)"

definition gap_bump :: "string \<Rightarrow> address \<Rightarrow> (string, gap_bucket) jsmap \<Rightarrow> (string, gap_bucket) jsmap" where
  "gap_bump accountKey a gaps =
     (let assetKey = to_lower a;
          bucket = (case js_get gaps assetKey of Some b \<Rightarrow> b | None \<Rightarrow> \<lparr>gb_skipCount = 0, gb_accounts = []\<rparr>)
      in js_set assetKey \<lparr>gb_skipCount = Suc (gb_skipCount bucket), gb_accounts = js_add accountKey (gb_accounts bucket)\<rparr> gaps)"

definition gap_record ::
  "int \<Rightarrow> int \<Rightarrow> address \<Rightarrow> address list \<Rightarrow> gap_aggregator \<Rightarrow> gap_summary option \<times> gap_aggregator" where
  "gap_record windowSec nowMs account missingAssets g =
     (let g1 = g\<lparr>ga_totalSkips := Suc (ga_totalSkips g),
                 ga_gaps := fold (gap_bump (to_lower account)) missingAssets (ga_gaps g)\<rparr>
      in if 0 < windowSec \<and> nowMs - ga_windowStartMs g < windowSec * 1000 then (None, g1)
         else (let (summary, g2) = gap_flush windowSec nowMs g1 in (Some summary, g2)))"

section \<open>Construction, reserves and prices\<close>

definition BASE_LT_BPS :: int where
  "BASE_LT_BPS = 8500"

definition ZERO_ADDRESS :: address where
  "ZERO_ADDRESS = ''0x0000000000000000000000000000000000000000''"

definition new_model :: "int \<Rightarrow> position_model" where
  "new_model nowMs = \<lparr>pm_positions = [], pm_prices = [], pm_feedStates = [], pm_reserveConfig = [],
     pm_flashblockTickCount = 0, pm_evictionTotal = 0, pm_pricesBootstrapped = False,
     pm_gapAggregator = gap_new nowMs\<rparr>"

definition allowlistSet :: "model_config \<Rightarrow> address list option" where
  "allowlistSet cfg =
     (case mc_reserveAllowlist cfg of
        None \<Rightarrow> None
      | Some l \<Rightarrow> if l \<noteq> [] then Some (js_of_list (map to_lower l)) else None)"

definition markPricesBootstrapped :: "position_model \<Rightarrow> position_model" where
  "markPricesBootstrapped m = m\<lparr>pm_pricesBootstrapped := True\<rparr>"

definition registerPriceFeed :: "address \<Rightarrow> address \<Rightarrow> int \<Rightarrow> position_model \<Rightarrow> position_model" where
  "registerPriceFeed feed a initialPrice m = m\<lparr>pm_prices := js_set (to_lower a) initialPrice (pm_prices m)\<rparr>"

definition registerBootstrapPrice :: "address \<Rightarrow> int \<Rightarrow> feed_state \<Rightarrow> position_model \<Rightarrow> position_model" where
  "registerBootstrapPrice a normalizedPrice feedState m =
     m\<lparr>pm_prices := js_set (to_lower a) normalizedPrice (pm_prices m),
       pm_feedStates := js_set (to_lower a) feedState (pm_feedStates m)\<rparr>"

definition fresh_reserve :: "address \<Rightarrow> int \<Rightarrow> int option \<Rightarrow> reserve_config" where
  "fresh_reserve a lt bonus = \<lparr>rs_asset = a, rs_liquidationThresholdBps = lt, rs_liquidityIndex = WAD,
     rs_variableBorrowIndex = WAD, rs_indexUpdatedAtBlock = 0, rs_liquidationBonus = bonus\<rparr>"

definition setReserveLiquidationBonus :: "address \<Rightarrow> int option \<Rightarrow> position_model \<Rightarrow> position_model" where
  "setReserveLiquidationBonus a bonus m =
     (case js_get (pm_reserveConfig m) (to_lower a) of
        None \<Rightarrow> m\<lparr>pm_reserveConfig := js_set (to_lower a) (fresh_reserve a BASE_LT_BPS bonus) (pm_reserveConfig m)\<rparr>
      | Some r \<Rightarrow> m\<lparr>pm_reserveConfig := js_set (to_lower a) (r\<lparr>rs_liquidationBonus := bonus\<rparr>) (pm_reserveConfig m)\<rparr>)"

definition registerReserve :: "address \<Rightarrow> int \<Rightarrow> position_model \<Rightarrow> position_model" where
  "registerReserve a liquidationThresholdBps m =
     (if js_has (pm_reserveConfig m) (to_lower a) then m
      else m\<lparr>pm_reserveConfig := js_set (to_lower a) (fresh_reserve a liquidationThresholdBps None) (pm_reserveConfig m)\<rparr>)"

definition onFlashblockTick :: "model_config \<Rightarrow> position_model \<Rightarrow> bool \<times> position_model" where
  "onFlashblockTick cfg m =
     (let t = pm_flashblockTickCount m + 1
      in (t mod mc_reserveIndexRefreshBlocks cfg = 0, m\<lparr>pm_flashblockTickCount := t\<rparr>))"

definition applyReserveIndexUpdate :: "pool_event \<Rightarrow> position_model \<Rightarrow> position_model" where
  "applyReserveIndexUpdate e m =
     (case js_get (pm_reserveConfig m) (to_lower (ev_reserve e)) of
        None \<Rightarrow> m
      | Some r \<Rightarrow> m\<lparr>pm_reserveConfig := js_set (to_lower (ev_reserve e))
          (r\<lparr>rs_liquidityIndex := (case ev_liquidityIndex e of Some i \<Rightarrow> i | None \<Rightarrow> rs_liquidityIndex r),
             rs_variableBorrowIndex := (case ev_variableBorrowIndex e of Some i \<Rightarrow> i | None \<Rightarrow> rs_variableBorrowIndex r),
             rs_indexUpdatedAtBlock := ev_blockNumber e\<rparr>) (pm_reserveConfig m)\<rparr>)"

section \<open>One position\<close>

definition get_or :: "int \<Rightarrow> int option \<Rightarrow> int" where
  "get_or d x = (case x of Some v \<Rightarrow> v | None \<Rightarrow> d)"

definition getOrCreate :: "address \<Rightarrow> int \<Rightarrow> position_model \<Rightarrow> user_position \<times> position_model" where
  "getOrCreate account blockNumber m =
     (case js_get (pm_positions m) (to_lower account) of
        Some existing \<Rightarrow> (existing, m)
      | None \<Rightarrow>
          (let created = \<lparr>up_account = account, up_collateral = [], up_debt = [], up_collateralIndexAtUpdate = [],
                 up_debtIndexAtUpdate = [], up_cachedHfWad = MAX_UINT256, up_confidence = LowConfidence,
                 up_isFullySeeded = False, up_lastConfirmedBlock = 0, up_lastActivityBlock = blockNumber,
                 up_eModeCategoryId = 0, up_lastTotalCollateralBase = None, up_lastTotalDebtBase = None,
                 up_lastLiquidationThreshold = None\<rparr>
           in (created, m\<lparr>pm_positions := js_set (to_lower account) created (pm_positions m)\<rparr>)))"

definition put_position :: "address \<Rightarrow> user_position \<Rightarrow> position_model \<Rightarrow> position_model" where
  "put_position key p m = m\<lparr>pm_positions := js_set key p (pm_positions m)\<rparr>"

definition drop_position :: "address \<Rightarrow> position_model \<Rightarrow> position_model" where
  "drop_position key m = m\<lparr>pm_positions := js_delete key (pm_positions m)\<rparr>"

definition addCollateral :: "position_model \<Rightarrow> address \<Rightarrow> int \<Rightarrow> user_position \<Rightarrow> user_position" where
  "addCollateral m a amount p =
     (let key = to_lower a; prev = get_or 0 (js_get (up_collateral p) key)
      in p\<lparr>up_collateral := js_set key (prev + amount) (up_collateral p),
           up_collateralIndexAtUpdate := js_set key
             (get_or WAD (map_option rs_liquidityIndex (js_get (pm_reserveConfig m) key))) (up_collateralIndexAtUpdate p)\<rparr>)"

definition subCollateral :: "address \<Rightarrow> int \<Rightarrow> user_position \<Rightarrow> user_position" where
  "subCollateral a amount p =
     (let key = to_lower a; prev = get_or 0 (js_get (up_collateral p) key);
          nxt = (if amount < prev then prev - amount else 0)
      in if nxt = 0
         then p\<lparr>up_collateral := js_delete key (up_collateral p),
                up_collateralIndexAtUpdate := js_delete key (up_collateralIndexAtUpdate p)\<rparr>
         else p\<lparr>up_collateral := js_set key nxt (up_collateral p)\<rparr>)"

definition addDebt :: "position_model \<Rightarrow> address \<Rightarrow> int \<Rightarrow> user_position \<Rightarrow> user_position" where
  "addDebt m a amount p =
     (let key = to_lower a; prev = get_or 0 (js_get (up_debt p) key)
      in p\<lparr>up_debt := js_set key (prev + amount) (up_debt p),
           up_debtIndexAtUpdate := js_set key
             (get_or WAD (map_option rs_variableBorrowIndex (js_get (pm_reserveConfig m) key))) (up_debtIndexAtUpdate p)\<rparr>)"

definition subDebt :: "address \<Rightarrow> int \<Rightarrow> user_position \<Rightarrow> user_position" where
  "subDebt a amount p =
     (let key = to_lower a; prev = get_or 0 (js_get (up_debt p) key);
          nxt = (if amount < prev then prev - amount else 0)
      in if nxt = 0
         then p\<lparr>up_debt := js_delete key (up_debt p),
                up_debtIndexAtUpdate := js_delete key (up_debtIndexAtUpdate p)\<rparr>
         else p\<lparr>up_debt := js_set key nxt (up_debt p)\<rparr>)"

definition scaleCollateralAmount :: "user_position \<Rightarrow> address \<Rightarrow> int \<Rightarrow> reserve_config \<Rightarrow> int" where
  "scaleCollateralAmount p assetKey amount reserve =
     (let storedIndex = get_or WAD (js_get (up_collateralIndexAtUpdate p) assetKey)
      in if storedIndex = 0 \<or> rs_liquidityIndex reserve = storedIndex then amount
         else bdiv (amount * rs_liquidityIndex reserve) storedIndex)"

definition scaleDebtAmount :: "user_position \<Rightarrow> address \<Rightarrow> int \<Rightarrow> reserve_config \<Rightarrow> int" where
  "scaleDebtAmount p assetKey amount reserve =
     (let storedIndex = get_or WAD (js_get (up_debtIndexAtUpdate p) assetKey)
      in if storedIndex = 0 \<or> rs_variableBorrowIndex reserve = storedIndex then amount
         else bdiv (amount * rs_variableBorrowIndex reserve) storedIndex)"

definition classifyTier :: "model_config \<Rightarrow> int \<Rightarrow> position_tier" where
  "classifyTier cfg localHfWad =
     (if localHfWad < WAD then Liquidatable
      else if localHfWad \<le> mc_urgentHfWad cfg then Urgent
      else if localHfWad \<le> mc_watchHfWad cfg then Watch
      else Healthy)"

definition toTierChange :: "model_config \<Rightarrow> user_position \<Rightarrow> bool \<Rightarrow> tier_change" where
  "toTierChange cfg p isNew = \<lparr>tc_account = up_account p, tc_tier = classifyTier cfg (up_cachedHfWad p),
     tc_localHfWad = up_cachedHfWad p, tc_isNew = isNew, tc_isFullySeeded = up_isFullySeeded p\<rparr>"

definition positionTouchesAsset :: "user_position \<Rightarrow> address \<Rightarrow> bool" where
  "positionTouchesAsset p a =
     (0 < get_or 0 (js_get (up_collateral p) (to_lower a)) \<or> 0 < get_or 0 (js_get (up_debt p) (to_lower a)))"

definition collectPositionAssets :: "user_position \<Rightarrow> address list" where
  "collectPositionAssets p =
     js_keys (filter (\<lambda>(k, amount). 0 < amount) (up_collateral p)) @
     js_keys (filter (\<lambda>(k, amount). 0 < amount) (up_debt p))"

text \<open>The keys of both maps with a non-zero amount, each once.\<close>

definition active_assets :: "user_position \<Rightarrow> address list" where
  "active_assets p =
     filter (\<lambda>k. get_or 0 (js_get (up_collateral p) k) \<noteq> 0 \<or> get_or 0 (js_get (up_debt p) k) \<noteq> 0)
       (js_of_list (js_keys (up_collateral p) @ js_keys (up_debt p)))"

definition collectMissingPriceAssets :: "user_position \<Rightarrow> peg_health_input \<Rightarrow> address list" where
  "collectMissingPriceAssets p input =
     filter (\<lambda>k. resolveEffectiveAssetPriceWad18 k input = None) (active_assets p)"

definition feed_is_stale :: "int \<Rightarrow> feed_state \<Rightarrow> bool" where
  "feed_is_stale nowSec fs =
     (if fs_source fs = Some FromAave \<or> fs_source fs = Some FromPeg then False
      else 3 * feed_heartbeat (fs_feedAddress fs) < 2 * (nowSec - fs_updatedAt fs))"

definition collectStalePriceAssets :: "user_position \<Rightarrow> (address, feed_state) jsmap \<Rightarrow> int \<Rightarrow> address list" where
  "collectStalePriceAssets p feedStates nowSec =
     filter (\<lambda>k. case js_get feedStates k of None \<Rightarrow> False | Some fs \<Rightarrow> feed_is_stale nowSec fs) (active_assets p)"

section \<open>Recomputing a health factor\<close>

definition pegHealthInput :: "model_config \<Rightarrow> int \<Rightarrow> position_model \<Rightarrow> peg_health_input" where
  "pegHealthInput cfg nowSec m = \<lparr>ph_prices = pm_prices m, ph_feedStates = pm_feedStates m, ph_nowSec = nowSec,
     ph_multiplier = mc_pegMultiplier cfg\<rparr>"

definition collateral_term :: "user_position \<Rightarrow> peg_health_input \<Rightarrow> position_model \<Rightarrow> address \<Rightarrow> int \<Rightarrow> int" where
  "collateral_term p input m k amount =
     (case (js_get (pm_reserveConfig m) k, resolveEffectiveAssetPriceWad18 k input) of
        (Some reserve, Some price) \<Rightarrow>
          if amount = 0 then 0
          else bdiv (scaleCollateralAmount p k amount reserve * price * rs_liquidationThresholdBps reserve) BPS
      | _ \<Rightarrow> 0)"

definition debt_term :: "user_position \<Rightarrow> peg_health_input \<Rightarrow> position_model \<Rightarrow> address \<Rightarrow> int \<Rightarrow> int" where
  "debt_term p input m k amount =
     (case (js_get (pm_reserveConfig m) k, resolveEffectiveAssetPriceWad18 k input) of
        (Some reserve, Some price) \<Rightarrow> if amount = 0 then 0 else scaleDebtAmount p k amount reserve * price
      | _ \<Rightarrow> 0)"

definition hf_of_prices :: "user_position \<Rightarrow> peg_health_input \<Rightarrow> position_model \<Rightarrow> hf_result" where
  "hf_of_prices p input m =
     (let missing = collectMissingPriceAssets p input;
          stale = collectStalePriceAssets p (pm_feedStates m) (ph_nowSec input);
          weightedCollateral = sum_list (map (\<lambda>(k, amount). collateral_term p input m k amount) (up_collateral p));
          totalDebt = sum_list (map (\<lambda>(k, amount). debt_term p input m k amount) (up_debt p))
      in if missing \<noteq> [] then HfPriceIncomplete missing
         else if stale \<noteq> [] then HfPriceStale stale
         else if totalDebt = 0 then HfNoDebt
         else HfOk (bdiv (weightedCollateral * WAD) totalDebt))"

definition materializeHealthyPegPrices :: "model_config \<Rightarrow> int \<Rightarrow> position_model \<Rightarrow> position_model" where
  "materializeHealthyPegPrices cfg nowSec m =
     (case pegUsdbcPriceFromHealthyReference (pegHealthInput cfg nowSec m) of
        None \<Rightarrow> m
      | Some pegPrice \<Rightarrow>
          if js_get (pm_prices m) (to_lower BASE_USDBC) = Some pegPrice then m
          else registerBootstrapPrice BASE_USDBC pegPrice
            \<lparr>fs_answer = bdiv pegPrice (10 ^ 10), fs_decimals = 8,
             fs_updatedAt = (case js_get (pm_feedStates m) (to_lower BASE_USDC) of
                Some usdcState \<Rightarrow> fs_updatedAt usdcState | None \<Rightarrow> nowSec),
             fs_feedAddress = BASE_USDC, fs_asset = BASE_USDBC, fs_source = Some FromPeg\<rparr> m)"

definition commitHfFromRecompute :: "address \<Rightarrow> hf_result \<Rightarrow> position_model \<Rightarrow> int option \<times> position_model" where
  "commitHfFromRecompute key result m =
     (case js_get (pm_positions m) key of
        None \<Rightarrow> (None, m)
      | Some p \<Rightarrow>
          (case resolveHfFromResult p result of
             None \<Rightarrow> (None, m)
           | Some effective \<Rightarrow> (Some effective, put_position key (p\<lparr>up_cachedHfWad := effective\<rparr>) m)))"

definition recordPriceGap :: "int \<Rightarrow> address \<Rightarrow> address list \<Rightarrow> position_model \<Rightarrow> position_model" where
  "recordPriceGap nowMs account missingAssets m =
     m\<lparr>pm_gapAggregator := snd (gap_record 60 nowMs account missingAssets (pm_gapAggregator m))\<rparr>"

text \<open>The bookkeeping after a recomputation that gave no health factor.\<close>

definition report_gap :: "model_config \<Rightarrow> int \<Rightarrow> int \<Rightarrow> address \<Rightarrow> hf_result \<Rightarrow> position_model \<Rightarrow> position_model" where
  "report_gap cfg nowMs nowSec account result m =
     (case result of
        HfPriceIncomplete missing \<Rightarrow>
          (let gapAssets = filterHealthyPegAssetsFromGapList missing (pegHealthInput cfg nowSec m)
           in if gapAssets \<noteq> [] then recordPriceGap nowMs account gapAssets m else m)
      | _ \<Rightarrow> m)"

text \<open>
  \<open>recomputeTierChangesForAsset\<close>, \<open>recomputeHf\<close> and \<open>syncDerivedPegPrices\<close> call each other. The two loops
  take the next function of the cycle as the argument \<open>next\<close>; \<open>None\<close> means that \<open>next\<close> did not return.
\<close>

type_synonym ('i, 'o) model_call = "'i \<Rightarrow> position_model \<Rightarrow> ('o \<times> position_model) option"

fun sync_loop ::
  "(address, tier_change list) model_call \<Rightarrow> int \<Rightarrow> address list \<Rightarrow> tier_change list \<Rightarrow> position_model \<Rightarrow>
   (tier_change list \<times> position_model) option" where
  "sync_loop next nowSec [] changes m = Some (changes, m)"
| "sync_loop next nowSec (pegAsset # rest) changes m =
     (case (resolvePegPriceWad18 pegAsset (pm_prices m), pegReferenceAsset pegAsset) of
        (Some pegPrice, Some reference) \<Rightarrow>
          if js_get (pm_prices m) (to_lower pegAsset) = Some pegPrice then sync_loop next nowSec rest changes m
          else (case next pegAsset (registerBootstrapPrice pegAsset pegPrice
                  \<lparr>fs_answer = bdiv pegPrice (10 ^ 10), fs_decimals = 8, fs_updatedAt = nowSec,
                   fs_feedAddress = reference, fs_asset = pegAsset, fs_source = Some FromPeg\<rparr> m) of
                  None \<Rightarrow> None
                | Some (nested, m') \<Rightarrow> sync_loop next nowSec rest (changes @ nested) m')
      | _ \<Rightarrow> sync_loop next nowSec rest changes m)"

definition syncDerivedPegPrices_with ::
  "(address, tier_change list) model_call \<Rightarrow> int \<Rightarrow> address option \<Rightarrow> position_model \<Rightarrow>
   (tier_change list \<times> position_model) option" where
  "syncDerivedPegPrices_with next nowSec updatedReferenceAsset m =
     (let pegAssets = (case updatedReferenceAsset of
            Some a \<Rightarrow> pegAssetsDerivedFrom a
          | None \<Rightarrow> filter (\<lambda>a. pegReferenceAsset a \<noteq> None) (js_keys (pm_prices m)))
      in sync_loop next nowSec pegAssets [] m)"

definition recomputeHf_with ::
  "(address, tier_change list) model_call \<Rightarrow> model_config \<Rightarrow> int \<Rightarrow> (user_position, hf_result) model_call" where
  "recomputeHf_with next cfg nowSec p m =
     (if \<not> pm_pricesBootstrapped m then Some (HfPriceIncomplete (collectPositionAssets p), m)
      else (case syncDerivedPegPrices_with next nowSec None m of
              None \<Rightarrow> None
            | Some (_, m1) \<Rightarrow>
                (let m2 = materializeHealthyPegPrices cfg nowSec m1
                 in Some (hf_of_prices p (pegHealthInput cfg nowSec m2) m2, m2))))"

fun tier_loop ::
  "(user_position, hf_result) model_call \<Rightarrow> model_config \<Rightarrow> int \<Rightarrow> int \<Rightarrow> address \<Rightarrow> address list \<Rightarrow>
   tier_change list \<Rightarrow> position_model \<Rightarrow> (tier_change list \<times> position_model) option" where
  "tier_loop next cfg nowMs nowSec a [] changes m = Some (changes, m)"
| "tier_loop next cfg nowMs nowSec a (key # rest) changes m =
     (case js_get (pm_positions m) key of
        None \<Rightarrow> tier_loop next cfg nowMs nowSec a rest changes m
      | Some p \<Rightarrow>
          if \<not> up_isFullySeeded p \<or> \<not> positionTouchesAsset p a
          then tier_loop next cfg nowMs nowSec a rest changes m
          else (case next p m of
                  None \<Rightarrow> None
                | Some (result, m1) \<Rightarrow>
                    (let (committed, m2) = commitHfFromRecompute key result m1;
                         changes' = (case (committed, js_get (pm_positions m2) key) of
                           (Some _, Some p') \<Rightarrow> changes @ [toTierChange cfg p' False] | _ \<Rightarrow> changes)
                     in tier_loop next cfg nowMs nowSec a rest changes'
                          (report_gap cfg nowMs nowSec (up_account p) result m2))))"

primrec recompute_tier ::
  "nat \<Rightarrow> model_config \<Rightarrow> int \<Rightarrow> int \<Rightarrow> (address, tier_change list) model_call" where
  "recompute_tier 0 = (\<lambda>cfg nowMs nowSec a m. None)"
| "recompute_tier (Suc n) = (\<lambda>cfg nowMs nowSec a m.
     tier_loop (recomputeHf_with (recompute_tier n cfg nowMs nowSec) cfg nowSec) cfg nowMs nowSec a
       (js_keys (pm_positions m)) [] m)"

text \<open>Two rounds of the cycle are enough: \<open>Position_Recompute\<close> shows that the second never calls a third.\<close>

definition recompute_fuel :: nat where
  "recompute_fuel = 2"

definition recomputeTierChangesForAsset ::
  "model_config \<Rightarrow> int \<Rightarrow> int \<Rightarrow> (address, tier_change list) model_call" where
  "recomputeTierChangesForAsset = recompute_tier recompute_fuel"

definition syncDerivedPegPrices ::
  "model_config \<Rightarrow> int \<Rightarrow> int \<Rightarrow> address option \<Rightarrow> position_model \<Rightarrow> (tier_change list \<times> position_model) option" where
  "syncDerivedPegPrices cfg nowMs nowSec = syncDerivedPegPrices_with (recomputeTierChangesForAsset cfg nowMs nowSec) nowSec"

definition recomputeHf :: "model_config \<Rightarrow> int \<Rightarrow> int \<Rightarrow> (user_position, hf_result) model_call" where
  "recomputeHf cfg nowMs nowSec = recomputeHf_with (recomputeTierChangesForAsset cfg nowMs nowSec) cfg nowSec"

section \<open>Evictions\<close>

text \<open>The positions by their last activity, oldest first; the sort is stable.\<close>

definition by_activity :: "position_model \<Rightarrow> user_position list" where
  "by_activity m = sort_key up_lastActivityBlock (js_values (pm_positions m))"

definition evict :: "address \<Rightarrow> position_model \<Rightarrow> position_model" where
  "evict key m = m\<lparr>pm_positions := js_delete key (pm_positions m), pm_evictionTotal := Suc (pm_evictionTotal m)\<rparr>"

definition inactive_healthy :: "model_config \<Rightarrow> int \<Rightarrow> user_position \<Rightarrow> bool" where
  "inactive_healthy cfg blockNumber p =
     (mc_evictionHfWad cfg \<le> up_cachedHfWad p \<and>
      mc_evictionInactiveBlocks cfg \<le> blockNumber - up_lastActivityBlock p)"

definition evictInactiveHealthy :: "model_config \<Rightarrow> int \<Rightarrow> position_model \<Rightarrow> position_model" where
  "evictInactiveHealthy cfg blockNumber m =
     fold (\<lambda>(key, p) m. if inactive_healthy cfg blockNumber p then evict key m else m) (pm_positions m) m"

fun evict_oldest :: "nat \<Rightarrow> user_position list \<Rightarrow> position_model \<Rightarrow> position_model" where
  "evict_oldest cap [] m = m"
| "evict_oldest cap (victim # others) m =
     (if cap < length (pm_positions m) then evict_oldest cap others (evict (to_lower (up_account victim)) m) else m)"

definition enforceHardCap :: "model_config \<Rightarrow> int \<Rightarrow> position_model \<Rightarrow> position_model" where
  "enforceHardCap cfg blockNumber m =
     (if length (pm_positions m) \<le> mc_hardCap cfg then evictInactiveHealthy cfg blockNumber m
      else evictInactiveHealthy cfg blockNumber (evict_oldest (mc_hardCap cfg) (by_activity m) m))"

fun evict_pressure :: "model_config \<Rightarrow> nat \<Rightarrow> user_position list \<Rightarrow> position_model \<Rightarrow> position_model" where
  "evict_pressure cfg pressureCap [] m = m"
| "evict_pressure cfg pressureCap (p # others) m =
     (if length (pm_positions m) \<le> pressureCap then m
      else if classifyTier cfg (up_cachedHfWad p) \<in> {Urgent, Watch, Liquidatable} then evict_pressure cfg pressureCap others m
      else if up_cachedHfWad p < bdiv (3 * WAD) 2 then evict_pressure cfg pressureCap others m
      else evict_pressure cfg pressureCap others (evict (to_lower (up_account p)) m))"

definition evictUnderMemoryPressure :: "model_config \<Rightarrow> int \<Rightarrow> position_model \<Rightarrow> int \<times> position_model" where
  "evictUnderMemoryPressure cfg blockNumber m =
     (let pressureCap = mc_hardCap cfg * 3 div 4;
          m' = evictInactiveHealthy cfg blockNumber (evict_pressure cfg pressureCap (by_activity m) m)
      in (int (length (pm_positions m)) - int (length (pm_positions m')), m'))"

section \<open>Pool events\<close>

definition isReserveInAllowlist :: "model_config \<Rightarrow> address \<Rightarrow> bool" where
  "isReserveInAllowlist cfg reserve =
     (case allowlistSet cfg of None \<Rightarrow> True | Some s \<Rightarrow> to_lower reserve \<in> set s)"

definition resolveUserAddress :: "pool_event \<Rightarrow> address option" where
  "resolveUserAddress e =
     (let raw = (if ev_name e = LiquidationCall then ev_user e
                 else case ev_onBehalfOf e of Some a \<Rightarrow> Some a | None \<Rightarrow> ev_user e)
      in case raw of
           None \<Rightarrow> None
         | Some a \<Rightarrow> if to_lower a = ZERO_ADDRESS then None else Some a)"

definition liquidated_position :: "pool_event \<Rightarrow> user_position \<Rightarrow> user_position" where
  "liquidated_position e p =
     (let debtAsset = (case ev_debtAsset e of Some a \<Rightarrow> a | None \<Rightarrow> ev_reserve e);
          collateralAsset = (case ev_collateralAsset e of Some a \<Rightarrow> a | None \<Rightarrow> ev_reserve e);
          p1 = (case ev_debtToCover e of Some d \<Rightarrow> subDebt debtAsset d p | None \<Rightarrow> p)
      in case ev_liquidatedCollateralAmount e of Some c \<Rightarrow> subCollateral collateralAsset c p1 | None \<Rightarrow> p1)"

definition applyLiquidation :: "address \<Rightarrow> user_position \<Rightarrow> pool_event \<Rightarrow> position_model \<Rightarrow> position_model" where
  "applyLiquidation key p e m =
     (let p' = liquidated_position e p; m' = put_position key p' m
      in if \<forall>v \<in> set (js_values (up_debt p')). v = 0 then drop_position (to_lower (up_account p')) m' else m')"

definition with_amount :: "(int \<Rightarrow> user_position \<Rightarrow> user_position) \<Rightarrow> int option \<Rightarrow> user_position \<Rightarrow> user_position" where
  "with_amount f amount p = (case amount of None \<Rightarrow> p | Some a \<Rightarrow> f a p)"

definition apply_user_event :: "address \<Rightarrow> user_position \<Rightarrow> pool_event \<Rightarrow> position_model \<Rightarrow> position_model" where
  "apply_user_event key p e m =
     (case ev_name e of
        Supply \<Rightarrow> put_position key (with_amount (addCollateral m (ev_reserve e)) (ev_amount e) p) m
      | Withdraw \<Rightarrow> put_position key (with_amount (subCollateral (ev_reserve e)) (ev_amount e) p) m
      | Borrow \<Rightarrow> put_position key (with_amount (addDebt m (ev_reserve e)) (ev_amount e) p) m
      | Repay \<Rightarrow> put_position key (with_amount (subDebt (ev_reserve e)) (ev_amount e) p) m
      | LiquidationCall \<Rightarrow> applyLiquidation key p e m
      | ReserveDataUpdated \<Rightarrow> m)"

definition no_changes :: apply_result where
  "no_changes = \<lparr>ar_changes = [], ar_firstTouchReconcile = None\<rparr>"

definition applyHfResult ::
  "model_config \<Rightarrow> int \<Rightarrow> address \<Rightarrow> user_position \<Rightarrow> bool \<Rightarrow> position_model \<Rightarrow> (apply_result \<times> position_model) option" where
  "applyHfResult cfg nowMs key p isNew m =
     (let nowSec = nowMs div 1000
      in case recomputeHf cfg nowMs nowSec p m of
           None \<Rightarrow> None
         | Some (result, m1) \<Rightarrow>
             (let (committed, m2) = commitHfFromRecompute key result m1
              in case (committed, js_get (pm_positions m2) key) of
                   (Some _, Some p') \<Rightarrow> Some (no_changes\<lparr>ar_changes := [toTierChange cfg p' isNew]\<rparr>, m2)
                 | _ \<Rightarrow> Some (no_changes, report_gap cfg nowMs nowSec (up_account p) result m2)))"

definition after_user_event ::
  "model_config \<Rightarrow> int \<Rightarrow> pool_event \<Rightarrow> address \<Rightarrow> bool \<Rightarrow> position_model \<Rightarrow> (apply_result \<times> position_model) option" where
  "after_user_event cfg nowMs e account isNew m =
     (case js_get (pm_positions m) (to_lower account) of
        None \<Rightarrow> Some (no_changes, m)
      | Some p \<Rightarrow>
          if \<not> up_isFullySeeded p
          then Some (no_changes\<lparr>ar_firstTouchReconcile := Some account\<rparr>, enforceHardCap cfg (ev_blockNumber e) m)
          else (case applyHfResult cfg nowMs (to_lower account) p isNew m of
                  None \<Rightarrow> None
                | Some (r, m') \<Rightarrow> Some (r, enforceHardCap cfg (ev_blockNumber e) m')))"

definition applyAaveEvent ::
  "model_config \<Rightarrow> int \<Rightarrow> pool_event \<Rightarrow> position_model \<Rightarrow> (apply_result \<times> position_model) option" where
  "applyAaveEvent cfg nowMs e m =
     (if ev_name e = ReserveDataUpdated
      then Some (no_changes, applyReserveIndexUpdate e (registerReserve (ev_reserve e) BASE_LT_BPS m))
      else case resolveUserAddress e of
        None \<Rightarrow> Some (no_changes, m)
      | Some account \<Rightarrow>
          (let key = to_lower account; existing = js_get (pm_positions m) key
           in if existing = None \<and> \<not> isReserveInAllowlist cfg (ev_reserve e) then Some (no_changes, m)
              else (let m1 = registerReserve (ev_reserve e) BASE_LT_BPS m;
                        (p, m2) = getOrCreate account (ev_blockNumber e) m1;
                        p' = p\<lparr>up_lastActivityBlock := ev_blockNumber e\<rparr>
                    in after_user_event cfg nowMs e account (existing = None) (apply_user_event key p' e m2))))"

section \<open>Price updates\<close>

fun merge_changes :: "string list \<Rightarrow> tier_change list \<Rightarrow> tier_change list \<Rightarrow> tier_change list" where
  "merge_changes seen merged [] = merged"
| "merge_changes seen merged (c # rest) =
     (if to_lower (tc_account c) \<in> set seen then merge_changes seen merged rest
      else merge_changes (js_add (to_lower (tc_account c)) seen) (merged @ [c]) rest)"

definition store_feed_price :: "address \<Rightarrow> address \<Rightarrow> int \<Rightarrow> int \<Rightarrow> int \<Rightarrow> position_model \<Rightarrow> position_model" where
  "store_feed_price a feed answer decimals updatedAtSec m =
     registerBootstrapPrice a (answer * 10 ^ nat (18 - decimals))
       \<lparr>fs_answer = answer, fs_decimals = decimals, fs_updatedAt = updatedAtSec, fs_feedAddress = feed,
        fs_asset = a, fs_source = None\<rparr> m"

definition applyFeedPriceUpdate ::
  "model_config \<Rightarrow> int \<Rightarrow> address \<Rightarrow> address \<Rightarrow> int \<Rightarrow> int \<Rightarrow> int \<Rightarrow> position_model \<Rightarrow>
   (tier_change list \<times> position_model) option" where
  "applyFeedPriceUpdate cfg nowMs a feed answer decimals updatedAtSec m =
     (if answer \<le> 0 then Some ([], m)
      else if 18 < decimals then Some ([], m)
      else (case syncDerivedPegPrices cfg nowMs updatedAtSec (Some a)
                   (store_feed_price a feed answer decimals updatedAtSec m) of
              None \<Rightarrow> None
            | Some (pegChanges, m1) \<Rightarrow>
                (case recomputeTierChangesForAsset cfg nowMs updatedAtSec a m1 of
                   None \<Rightarrow> None
                 | Some (directChanges, m2) \<Rightarrow>
                     Some (if pegChanges = [] then directChanges
                           else merge_changes (js_of_list (map (\<lambda>c. to_lower (tc_account c)) directChanges)) directChanges pegChanges,
                           m2))))"

definition applyPriceEvent ::
  "model_config \<Rightarrow> int \<Rightarrow> price_event \<Rightarrow> position_model \<Rightarrow> (tier_change list \<times> position_model) option" where
  "applyPriceEvent cfg nowMs e m =
     (let decimals = (case js_get (pm_feedStates m) (to_lower (pe_asset e)) of Some fs \<Rightarrow> fs_decimals fs | None \<Rightarrow> 8)
      in applyFeedPriceUpdate cfg nowMs (pe_asset e) (pe_feed e) (pe_price e) decimals (pe_oracleUpdatedAtSec e) m)"

section \<open>On-chain snapshots\<close>

definition confirmOnChain ::
  "address \<Rightarrow> int \<Rightarrow> int \<Rightarrow> int \<Rightarrow> int \<Rightarrow> int \<Rightarrow> int \<Rightarrow> position_model \<Rightarrow> position_model" where
  "confirmOnChain account totalCollateralBase totalDebtBase liquidationThreshold healthFactor blockNumber eModeCategoryId m =
     (let (p, m1) = getOrCreate account blockNumber m
      in put_position (to_lower account)
           (p\<lparr>up_confidence := HighConfidence, up_isFullySeeded := True, up_lastConfirmedBlock := blockNumber,
              up_eModeCategoryId := eModeCategoryId, up_lastTotalCollateralBase := Some totalCollateralBase,
              up_lastTotalDebtBase := Some totalDebtBase, up_lastLiquidationThreshold := Some liquidationThreshold,
              up_cachedHfWad := (if 0 < healthFactor then healthFactor
                else calculateHealthFactor totalCollateralBase totalDebtBase liquidationThreshold None)\<rparr>) m1)"

record seed_row =
  sr_asset :: address
  sr_scaledCollateral :: int
  sr_scaledDebt :: int

record seed_input =
  si_account :: address
  si_blockNumber :: int
  si_eModeCategoryId :: int
  si_healthFactorWad :: int
  si_totalCollateralBase :: int
  si_totalDebtBase :: int
  si_liquidationThreshold :: int
  si_reserves :: "seed_row list"

definition seed_row_into :: "seed_row \<Rightarrow> user_position \<times> position_model \<Rightarrow> user_position \<times> position_model" where
  "seed_row_into row pm =
     (let (p, m) = pm; key = to_lower (sr_asset row); m1 = registerReserve (sr_asset row) BASE_LT_BPS m
      in case js_get (pm_reserveConfig m1) key of
           None \<Rightarrow> (p, m1)
         | Some reserve \<Rightarrow>
             (let p1 = (if 0 < sr_scaledCollateral row
                        then p\<lparr>up_collateral := js_set key (sr_scaledCollateral row) (up_collateral p),
                               up_collateralIndexAtUpdate := js_set key (rs_liquidityIndex reserve) (up_collateralIndexAtUpdate p)\<rparr>
                        else p);
                  p2 = (if 0 < sr_scaledDebt row
                        then p1\<lparr>up_debt := js_set key (sr_scaledDebt row) (up_debt p1),
                                up_debtIndexAtUpdate := js_set key (rs_variableBorrowIndex reserve) (up_debtIndexAtUpdate p1)\<rparr>
                        else p1)
              in (p2, m1)))"

definition seedFromOnChainSnapshot :: "model_config \<Rightarrow> seed_input \<Rightarrow> position_model \<Rightarrow> position_model" where
  "seedFromOnChainSnapshot cfg input m =
     (let (p, m1) = getOrCreate (si_account input) (si_blockNumber input) m;
          cleared = p\<lparr>up_collateral := [], up_debt := [], up_collateralIndexAtUpdate := [], up_debtIndexAtUpdate := []\<rparr>;
          (p2, m2) = fold seed_row_into (si_reserves input) (cleared, m1);
          p3 = p2\<lparr>up_eModeCategoryId := si_eModeCategoryId input, up_confidence := HighConfidence, up_isFullySeeded := True,
                  up_lastConfirmedBlock := si_blockNumber input, up_lastActivityBlock := si_blockNumber input,
                  up_lastTotalCollateralBase := Some (si_totalCollateralBase input),
                  up_lastTotalDebtBase := Some (si_totalDebtBase input),
                  up_lastLiquidationThreshold := Some (si_liquidationThreshold input),
                  up_cachedHfWad := (if 0 < si_healthFactorWad input then si_healthFactorWad input
                    else calculateHealthFactor (si_totalCollateralBase input) (si_totalDebtBase input)
                           (si_liquidationThreshold input) None)\<rparr>
      in enforceHardCap cfg (si_blockNumber input) (put_position (to_lower (si_account input)) p3 m2))"

section \<open>Queries and exports\<close>

definition isFullySeeded :: "address \<Rightarrow> position_model \<Rightarrow> bool" where
  "isFullySeeded account m =
     (case js_get (pm_positions m) (to_lower account) of Some p \<Rightarrow> up_isFullySeeded p | None \<Rightarrow> False)"

definition removePosition :: "address \<Rightarrow> position_model \<Rightarrow> position_model" where
  "removePosition account m = drop_position (to_lower account) m"

definition tierChangeForAccount :: "model_config \<Rightarrow> address \<Rightarrow> bool \<Rightarrow> position_model \<Rightarrow> tier_change option" where
  "tierChangeForAccount cfg account isNew m =
     map_option (\<lambda>p. toTierChange cfg p isNew) (js_get (pm_positions m) (to_lower account))"

text \<open>An exported snapshot has the fields of a seed except the block number.\<close>

definition exported_rows :: "user_position \<Rightarrow> seed_row list" where
  "exported_rows p =
     map (\<lambda>k. \<lparr>sr_asset = k, sr_scaledCollateral = get_or 0 (js_get (up_collateral p) k),
               sr_scaledDebt = get_or 0 (js_get (up_debt p) k)\<rparr>) (active_assets p)"

definition export_position :: "user_position \<Rightarrow> seed_input" where
  "export_position p = \<lparr>si_account = up_account p, si_blockNumber = 0, si_eModeCategoryId = up_eModeCategoryId p,
     si_healthFactorWad = up_cachedHfWad p, si_totalCollateralBase = get_or 0 (up_lastTotalCollateralBase p),
     si_totalDebtBase = get_or 1 (up_lastTotalDebtBase p), si_liquidationThreshold = get_or 0 (up_lastLiquidationThreshold p),
     si_reserves = exported_rows p\<rparr>"

definition exportBootstrapSnapshots :: "position_model \<Rightarrow> seed_input list" where
  "exportBootstrapSnapshots m =
     map export_position (filter (\<lambda>p. up_isFullySeeded p \<and> up_debt p \<noteq> []) (js_values (pm_positions m)))"

end
