(* ===== verification/Position_Recompute.thy ===== *)
theory Position_Recompute
  imports Position_Model
begin

text \<open>
  The cycle \<open>recomputeTierChangesForAsset\<close> - \<open>recomputeHf\<close> - \<open>syncDerivedPegPrices\<close> of
  \<open>src/monitors/localPositionModel.ts\<close> always returns: a call that finds a stale peg price stores the new
  one before it goes round, and in a model whose peg price is settled nothing goes round. Two rounds
  are therefore enough and more fuel changes nothing. The second half shows what a price update
  reports.
\<close>

section \<open>Settled peg prices\<close>

definition usdc_key :: address where
  "usdc_key = to_lower BASE_USDC"

definition usdbc_key :: address where
  "usdbc_key = to_lower BASE_USDBC"

lemma peg_keys [simp]: "to_lower BASE_USDC = usdc_key" "to_lower BASE_USDBC = usdbc_key" "usdbc_key \<noteq> usdc_key" "usdc_key \<noteq> usdbc_key"
  unfolding usdc_key_def usdbc_key_def by (simp_all only: usdbc_not_usdc usdbc_not_usdc [symmetric] not_False_eq_True)

lemma isUsdbc_iff: "isUsdbcAsset a \<longleftrightarrow> to_lower a = usdbc_key"
  by (simp add: isUsdbcAsset_def)

lemma resolvePeg_iff [simp]:
  "resolvePegPriceWad18 a prices = Some u \<longleftrightarrow> to_lower a = usdbc_key \<and> js_get prices usdc_key = Some u \<and> 1 < u"
  by (simp add: resolvePegPrice_iff isUsdbc_iff)

definition settled :: "position_model \<Rightarrow> bool" where
  "settled m \<longleftrightarrow> (\<forall>u. js_get (pm_prices m) usdc_key = Some u \<longrightarrow> 1 < u \<longrightarrow>
     (\<forall>a \<in> set (js_keys (pm_prices m)). to_lower a = usdbc_key \<longrightarrow> js_get (pm_prices m) usdbc_key = Some u))"

lemma settled_cong: "pm_prices m' = pm_prices m \<Longrightarrow> settled m' = settled m"
  by (simp add: settled_def)

lemma registerBootstrapPrice_simps [simp]:
  "pm_positions (registerBootstrapPrice a u fs m) = pm_positions m"
  "pm_prices (registerBootstrapPrice a u fs m) = js_set (to_lower a) u (pm_prices m)"
  "pm_reserveConfig (registerBootstrapPrice a u fs m) = pm_reserveConfig m"
  "pm_pricesBootstrapped (registerBootstrapPrice a u fs m) = pm_pricesBootstrapped m"
  "pm_evictionTotal (registerBootstrapPrice a u fs m) = pm_evictionTotal m"
  by (simp_all add: registerBootstrapPrice_def)

lemma settled_register:
  assumes "to_lower a = usdbc_key" "js_get (pm_prices m) usdc_key = Some u"
  shows "settled (registerBootstrapPrice a u fs m)"
  using assms by (simp add: settled_def)

section \<open>Frames\<close>

lemma materialize_frame [simp]:
  "pm_positions (materializeHealthyPegPrices cfg nowSec m) = pm_positions m"
  "pm_reserveConfig (materializeHealthyPegPrices cfg nowSec m) = pm_reserveConfig m"
  "pm_pricesBootstrapped (materializeHealthyPegPrices cfg nowSec m) = pm_pricesBootstrapped m"
  "pm_evictionTotal (materializeHealthyPegPrices cfg nowSec m) = pm_evictionTotal m"
  by (simp_all add: materializeHealthyPegPrices_def split: option.splits)

lemma materialize_settled:
  assumes "settled m"
  shows "settled (materializeHealthyPegPrices cfg nowSec m)"
proof (cases "pegUsdbcPriceFromHealthyReference (pegHealthInput cfg nowSec m)")
  case (Some u)
  then have "js_get (pm_prices m) usdc_key = Some u"
    using healthyReference_price [OF Some] by (simp add: pegHealthInput_def)
  with Some assms show ?thesis by (simp add: materializeHealthyPegPrices_def settled_register)
qed (simp add: materializeHealthyPegPrices_def assms)

lemma commit_frame:
  assumes "commitHfFromRecompute key r m = (c, m')"
  shows "pm_prices m' = pm_prices m" "pm_feedStates m' = pm_feedStates m" "pm_reserveConfig m' = pm_reserveConfig m"
    "pm_pricesBootstrapped m' = pm_pricesBootstrapped m" "js_keys (pm_positions m') = js_keys (pm_positions m)"
    "pm_evictionTotal m' = pm_evictionTotal m"
  using assms
  by (auto simp: commitHfFromRecompute_def put_position_def js_keys_set_eq js_has_iff split: option.splits)

lemma report_gap_frame [simp]:
  "pm_positions (report_gap cfg nowMs nowSec account r m) = pm_positions m"
  "pm_prices (report_gap cfg nowMs nowSec account r m) = pm_prices m"
  "pm_feedStates (report_gap cfg nowMs nowSec account r m) = pm_feedStates m"
  "pm_reserveConfig (report_gap cfg nowMs nowSec account r m) = pm_reserveConfig m"
  "pm_pricesBootstrapped (report_gap cfg nowMs nowSec account r m) = pm_pricesBootstrapped m"
  "pm_evictionTotal (report_gap cfg nowMs nowSec account r m) = pm_evictionTotal m"
  by (simp_all add: report_gap_def recordPriceGap_def Let_def split: hf_result.splits)

section \<open>Returning\<close>

definition returns_settled :: "('i, 'o) model_call \<Rightarrow> bool" where
  "returns_settled f \<longleftrightarrow> (\<forall>i m. settled m \<longrightarrow> (\<exists>r m'. f i m = Some (r, m') \<and> settled m'))"

definition agree_settled :: "('i, 'o) model_call \<Rightarrow> ('i, 'o) model_call \<Rightarrow> bool" where
  "agree_settled f g \<longleftrightarrow> (\<forall>i m. settled m \<longrightarrow> f i m = g i m)"

lemma sync_loop_nop:
  assumes "\<forall>a \<in> set l. \<forall>u. to_lower a = usdbc_key \<and> js_get (pm_prices m) usdc_key = Some u \<and> 1 < u \<longrightarrow>
    js_get (pm_prices m) usdbc_key = Some u"
  shows "sync_loop next nowSec l changes m = Some (changes, m)"
  using assms by (induction l) (auto split: option.splits)

lemma peg_filter: "filter (\<lambda>a. pegReferenceAsset a \<noteq> None) l = filter (\<lambda>a. to_lower a = usdbc_key) l"
  by (rule filter_cong) (simp_all add: pegReferenceAsset_def isUsdbc_iff)

lemma sync_settled: "settled m \<Longrightarrow> syncDerivedPegPrices_with next nowSec None m = Some ([], m)"
  unfolding syncDerivedPegPrices_with_def Let_def option.case peg_filter
  by (rule sync_loop_nop) (auto simp: settled_def)

text \<open>An asset of the loop either needs nothing, or goes round in a settled model.\<close>

lemma sync_loop_step:
  assumes "to_lower a = usdbc_key"
  obtains (idle) "settled m" "\<And>next changes. sync_loop next nowSec (a # rest) changes m = sync_loop next nowSec rest changes m"
  | (round) m1 where "settled m1" "pm_positions m1 = pm_positions m" "pm_reserveConfig m1 = pm_reserveConfig m"
      "pm_evictionTotal m1 = pm_evictionTotal m"
      "\<And>next changes. sync_loop next nowSec (a # rest) changes m =
         (case next a m1 of None \<Rightarrow> None | Some (nested, m') \<Rightarrow> sync_loop next nowSec rest (changes @ nested) m')"
proof (cases "\<exists>u. js_get (pm_prices m) usdc_key = Some u \<and> 1 < u \<and> js_get (pm_prices m) usdbc_key \<noteq> Some u")
  case False
  show thesis
  proof (rule idle)
    show "settled m" using False by (auto simp: settled_def)
    show "sync_loop next nowSec (a # rest) changes m = sync_loop next nowSec rest changes m" for "next" changes
      using False assms by (auto split: option.splits)
  qed
next
  case True
  then obtain u where u: "js_get (pm_prices m) usdc_key = Some u" "1 < u" "js_get (pm_prices m) usdbc_key \<noteq> Some u"
    by blast
  then have peg: "resolvePegPriceWad18 a (pm_prices m) = Some u" "pegReferenceAsset a = Some BASE_USDC"
    using assms by (simp_all add: pegReferenceAsset_def isUsdbc_iff)
  let ?m1 = "registerBootstrapPrice a u \<lparr>fs_answer = bdiv u (10 ^ 10), fs_decimals = 8, fs_updatedAt = nowSec,
            fs_feedAddress = BASE_USDC, fs_asset = a, fs_source = Some FromPeg\<rparr> m"
  show thesis
  proof (rule round [of ?m1])
    show "settled ?m1" by (rule settled_register [OF assms u(1)])
    show "sync_loop next nowSec (a # rest) changes m =
       (case next a ?m1 of None \<Rightarrow> None | Some (nested, m') \<Rightarrow> sync_loop next nowSec rest (changes @ nested) m')"
      for "next" changes
      unfolding sync_loop.simps peg using u(3) assms by simp
  qed simp_all
qed

lemma sync_loop_returns:
  assumes "returns_settled next" "\<forall>a \<in> set l. to_lower a = usdbc_key"
  shows "\<exists>ch m'. sync_loop next nowSec l changes m = Some (ch, m') \<and> (settled m \<or> l \<noteq> [] \<longrightarrow> settled m')"
  using assms(2)
proof (induction l arbitrary: changes m)
  case (Cons a rest)
  then have a: "to_lower a = usdbc_key" by simp
  show ?case
  proof (rule sync_loop_step [OF a, of m nowSec rest], goal_cases)
    case 1
    have "\<exists>ch m'. sync_loop next nowSec rest changes m = Some (ch, m') \<and> (settled m \<or> rest \<noteq> [] \<longrightarrow> settled m')"
      using Cons.prems by (intro Cons.IH) simp
    with 1(1) show ?thesis unfolding 1(2) by blast
  next
    case (2 m1)
    obtain nested m2 where n: "next a m1 = Some (nested, m2)" "settled m2"
      using assms(1) [unfolded returns_settled_def, rule_format, OF 2(1)] by blast
    have "\<exists>ch m'. sync_loop next nowSec rest (changes @ nested) m2 = Some (ch, m') \<and> (settled m2 \<or> rest \<noteq> [] \<longrightarrow> settled m')"
      using Cons.prems by (intro Cons.IH) simp
    with n show ?thesis unfolding 2(5) by auto
  qed
qed simp

lemma sync_loop_agree:
  assumes "agree_settled f g" "\<forall>a \<in> set l. to_lower a = usdbc_key"
  shows "sync_loop f nowSec l changes m = sync_loop g nowSec l changes m"
  using assms(2)
proof (induction l arbitrary: changes m)
  case (Cons a rest)
  then have a: "to_lower a = usdbc_key" by simp
  show ?case
  proof (rule sync_loop_step [OF a, of m nowSec rest], goal_cases)
    case 1
    show ?thesis unfolding 1(2) using Cons.prems by (intro Cons.IH) simp
  next
    case (2 m1)
    have fg: "f a m1 = g a m1" using assms(1) 2(1) by (simp add: agree_settled_def)
    have "sync_loop f nowSec rest (changes @ nested) m2 = sync_loop g nowSec rest (changes @ nested) m2" for nested m2
      using Cons.prems by (intro Cons.IH) simp
    then show ?thesis unfolding 2(5) fg by (simp split: option.splits)
  qed
qed simp

lemma derived_peg: "\<forall>b \<in> set (pegAssetsDerivedFrom a). to_lower b = usdbc_key"
  by (simp add: pegAssetsDerivedFrom_def)

lemma sync_returns:
  assumes "returns_settled next"
  shows "\<exists>ch m'. syncDerivedPegPrices_with next nowSec x m = Some (ch, m') \<and> (settled m \<or> x = None \<longrightarrow> settled m')"
proof (cases x)
  case None
  have empty: "settled m" if "filter (\<lambda>a. to_lower a = usdbc_key) (js_keys (pm_prices m)) = []"
    using that by (auto simp: settled_def filter_empty_conv)
  show ?thesis
    using sync_loop_returns [OF assms, of "filter (\<lambda>a. to_lower a = usdbc_key) (js_keys (pm_prices m))" nowSec "[]" m] empty
    unfolding syncDerivedPegPrices_with_def Let_def None option.case peg_filter by auto
next
  case (Some a)
  show ?thesis
    using sync_loop_returns [OF assms derived_peg, of nowSec a "[]" m]
    unfolding syncDerivedPegPrices_with_def Let_def Some option.case by auto
qed

lemma sync_agree:
  "agree_settled f g \<Longrightarrow> syncDerivedPegPrices_with f nowSec x m = syncDerivedPegPrices_with g nowSec x m"
  unfolding syncDerivedPegPrices_with_def Let_def
  by (rule sync_loop_agree) (auto simp: pegReferenceAsset_def isUsdbc_iff derived_peg split: option.splits if_splits)

lemma recomputeHf_with_returns:
  assumes "returns_settled next"
  shows "\<exists>r m'. recomputeHf_with next cfg nowSec p m = Some (r, m') \<and> (settled m \<longrightarrow> settled m')"
proof (cases "pm_pricesBootstrapped m")
  case True
  obtain ch m1 where "syncDerivedPegPrices_with next nowSec None m = Some (ch, m1)" "settled m1"
    using sync_returns [OF assms, of nowSec None m] by auto
  with True show ?thesis by (simp add: recomputeHf_with_def Let_def materialize_settled)
qed (simp add: recomputeHf_with_def)

lemma recomputeHf_with_settled:
  "settled m \<Longrightarrow> recomputeHf_with f cfg nowSec p m = recomputeHf_with g cfg nowSec p m"
  by (simp add: recomputeHf_with_def sync_settled)

lemma recomputeHf_settled_returns: "returns_settled (recomputeHf_with next cfg nowSec)"
  unfolding returns_settled_def
  by (auto simp: recomputeHf_with_def sync_settled Let_def materialize_settled)

lemma tier_loop_returns:
  assumes "\<And>p m. \<exists>r m'. next p m = Some (r, m') \<and> (settled m \<longrightarrow> settled m')"
  shows "\<exists>ch m'. tier_loop next cfg nowMs nowSec a keys changes m = Some (ch, m') \<and> (settled m \<longrightarrow> settled m')"
proof (induction keys arbitrary: changes m)
  case (Cons key rest)
  show ?case
  proof (cases "js_get (pm_positions m) key")
    case None
    with Cons show ?thesis by simp
  next
    case (Some p)
    obtain r m1 where r: "next p m = Some (r, m1)" "settled m \<longrightarrow> settled m1" using assms by blast
    obtain c m2 where c: "commitHfFromRecompute key r m1 = (c, m2)" by fastforce
    let ?m3 = "report_gap cfg nowMs nowSec (up_account p) r m2"
    let ?ch = "case (c, js_get (pm_positions m2) key) of
        (Some _, Some p') \<Rightarrow> changes @ [toTierChange cfg p' False] | _ \<Rightarrow> changes"
    have "settled ?m3 = settled m1" by (rule settled_cong) (simp add: commit_frame [OF c])
    moreover obtain ch m4 where "tier_loop next cfg nowMs nowSec a rest ?ch ?m3 = Some (ch, m4)" "settled ?m3 \<longrightarrow> settled m4"
      using Cons.IH by blast
    moreover obtain ch' m4' where "tier_loop next cfg nowMs nowSec a rest changes m = Some (ch', m4')" "settled m \<longrightarrow> settled m4'"
      using Cons.IH by blast
    ultimately show ?thesis using Some r c by simp
  qed
qed simp

lemma tier_loop_settled_returns:
  assumes "returns_settled next" "settled m"
  shows "\<exists>ch m'. tier_loop next cfg nowMs nowSec a keys changes m = Some (ch, m') \<and> settled m'"
  using assms(2)
proof (induction keys arbitrary: changes m)
  case (Cons key rest)
  show ?case
  proof (cases "js_get (pm_positions m) key")
    case None
    with Cons show ?thesis by simp
  next
    case (Some p)
    obtain r m1 where r: "next p m = Some (r, m1)" "settled m1"
      using assms(1) [unfolded returns_settled_def, rule_format, OF Cons.prems] by blast
    obtain c m2 where c: "commitHfFromRecompute key r m1 = (c, m2)" by fastforce
    have "settled (report_gap cfg nowMs nowSec (up_account p) r m2)"
      using r(2) settled_cong [of "report_gap cfg nowMs nowSec (up_account p) r m2" m1]
      by (simp add: commit_frame [OF c])
    with Some Cons r c show ?thesis by simp
  qed
qed simp

lemma tier_loop_agree:
  assumes "agree_settled f g" "returns_settled f" "settled m"
  shows "tier_loop f cfg nowMs nowSec a keys changes m = tier_loop g cfg nowMs nowSec a keys changes m"
  using assms(3)
proof (induction keys arbitrary: changes m)
  case (Cons key rest)
  show ?case
  proof (cases "js_get (pm_positions m) key")
    case None
    with Cons show ?thesis by simp
  next
    case (Some p)
    obtain r m1 where r: "f p m = Some (r, m1)" "settled m1"
      using assms(2) [unfolded returns_settled_def, rule_format, OF Cons.prems] by blast
    then have g: "g p m = Some (r, m1)" using assms(1) Cons.prems by (simp add: agree_settled_def)
    obtain c m2 where c: "commitHfFromRecompute key r m1 = (c, m2)" by fastforce
    have "settled (report_gap cfg nowMs nowSec (up_account p) r m2)"
      using r(2) settled_cong [of "report_gap cfg nowMs nowSec (up_account p) r m2" m1]
      by (simp add: commit_frame [OF c])
    with Some Cons r g c show ?thesis by simp
  qed
qed simp

lemma recompute_tier_settled: "returns_settled (recompute_tier (Suc n) cfg nowMs nowSec)"
  unfolding returns_settled_def
  by (auto intro!: tier_loop_settled_returns recomputeHf_settled_returns)

lemma recompute_tier_agree: "agree_settled (recompute_tier (Suc n) cfg nowMs nowSec) (recompute_tier (Suc k) cfg nowMs nowSec)"
  unfolding agree_settled_def
  by (auto intro!: tier_loop_agree recomputeHf_settled_returns simp: agree_settled_def intro: recomputeHf_with_settled)

text \<open>With two rounds of fuel every call returns, and more fuel gives the same.\<close>

lemma recompute_tier_returns: "\<exists>ch m'. recompute_tier (Suc (Suc n)) cfg nowMs nowSec a m = Some (ch, m')"
proof -
  have "\<exists>r m'. recomputeHf_with (recompute_tier (Suc n) cfg nowMs nowSec) cfg nowSec p m = Some (r, m') \<and> (settled m \<longrightarrow> settled m')"
    for p m
    by (rule recomputeHf_with_returns [OF recompute_tier_settled])
  from tier_loop_returns [of "recomputeHf_with (recompute_tier (Suc n) cfg nowMs nowSec) cfg nowSec", OF this] show ?thesis
    unfolding recompute_tier.simps(2) [of "Suc n"] by blast
qed

lemma recompute_tier_fuel: "recompute_tier (Suc (Suc n)) = recompute_tier (Suc (Suc k))"
proof -
  have "recomputeHf_with (recompute_tier (Suc n) cfg nowMs nowSec) cfg nowSec
      = recomputeHf_with (recompute_tier (Suc k) cfg nowMs nowSec) cfg nowSec" for cfg nowMs nowSec
    by (intro ext) (simp only: recomputeHf_with_def sync_agree [OF recompute_tier_agree [of n cfg nowMs nowSec k]])
  then show ?thesis unfolding recompute_tier.simps(2) [of "Suc n"] recompute_tier.simps(2) [of "Suc k"] by simp
qed

section \<open>What a recomputation may change\<close>

text \<open>Apart from prices and the gap counters, a recomputation changes cached health factors only.\<close>

definition forget_hf :: "user_position \<Rightarrow> user_position" where
  "forget_hf p = p\<lparr>up_cachedHfWad := 0\<rparr>"

definition hf_only :: "position_model \<Rightarrow> position_model \<Rightarrow> bool" where
  "hf_only m m' \<longleftrightarrow> map (\<lambda>(k, p). (k, forget_hf p)) (pm_positions m') = map (\<lambda>(k, p). (k, forget_hf p)) (pm_positions m) \<and>
     pm_reserveConfig m' = pm_reserveConfig m \<and> pm_evictionTotal m' = pm_evictionTotal m"

lemma hf_only_refl [simp]: "hf_only m m"
  by (simp add: hf_only_def)

lemma hf_only_trans [trans]: "hf_only m m1 \<Longrightarrow> hf_only m1 m2 \<Longrightarrow> hf_only m m2"
  by (simp add: hf_only_def)

lemma hf_only_same:
  "pm_positions m' = pm_positions m \<Longrightarrow> pm_reserveConfig m' = pm_reserveConfig m \<Longrightarrow>
   pm_evictionTotal m' = pm_evictionTotal m \<Longrightarrow> hf_only m m'"
  by (simp add: hf_only_def)

lemma js_get_map_snd: "js_get (map (\<lambda>(k, p). (k, f p)) l) k = map_option f (js_get l k)"
  unfolding js_get_def by (induction l) auto

lemma hf_only_get:
  assumes "hf_only m m'"
  shows "map_option forget_hf (js_get (pm_positions m') k) = map_option forget_hf (js_get (pm_positions m) k)"
  using assms js_get_map_snd [of forget_hf] unfolding hf_only_def by metis

lemma hf_only_keys:
  assumes "hf_only m m'"
  shows "js_keys (pm_positions m') = js_keys (pm_positions m)"
proof -
  have "map fst (map (\<lambda>(k, p). (k, forget_hf p)) l) = js_keys l" for l :: "(address, user_position) jsmap"
    by (simp add: js_keys_def case_prod_unfold)
  then show ?thesis using assms unfolding hf_only_def by metis
qed

lemma map_update_absorb:
  assumes "map_of l k = Some p" "f p' = f p"
  shows "map (\<lambda>(k, p). (k, f p)) (AList.update k p' l) = map (\<lambda>(k, p). (k, f p)) l"
  using assms by (induction l) auto

lemma commit_hf_only:
  assumes "commitHfFromRecompute key r m = (c, m')"
  shows "hf_only m m'"
  using assms
  by (auto simp: commitHfFromRecompute_def put_position_def hf_only_def js_set_def js_get_def forget_hf_def
      intro!: map_update_absorb split: option.splits)

definition keeps_but_hf :: "('i, 'o) model_call \<Rightarrow> bool" where
  "keeps_but_hf f \<longleftrightarrow> (\<forall>i m r m'. f i m = Some (r, m') \<longrightarrow> hf_only m m')"

lemma sync_loop_hf_only:
  assumes "keeps_but_hf next" "sync_loop next nowSec l changes m = Some (ch, m')"
  shows "hf_only m m'"
  using assms(2)
proof (induction l arbitrary: changes m)
  case (Cons a rest)
  have round: "hf_only m m2" if "next a (registerBootstrapPrice a u fs m) = Some (x, m2)" for u fs x m2
  proof -
    have "hf_only m (registerBootstrapPrice a u fs m)" by (simp add: hf_only_same)
    also have "hf_only \<dots> m2" using assms(1) that by (auto simp: keeps_but_hf_def)
    finally show ?thesis .
  qed
  show ?case
    using Cons.prems
    by (auto split: option.splits if_splits prod.splits dest!: round Cons.IH intro: hf_only_trans)
qed simp

lemma sync_hf_only:
  "keeps_but_hf next \<Longrightarrow> syncDerivedPegPrices_with next nowSec x m = Some (ch, m') \<Longrightarrow> hf_only m m'"
  unfolding syncDerivedPegPrices_with_def Let_def by (erule sync_loop_hf_only)

lemma materialize_hf_only: "hf_only m (materializeHealthyPegPrices cfg nowSec m)"
  by (simp add: hf_only_same)

lemma recomputeHf_with_hf_only:
  assumes "keeps_but_hf next"
  shows "keeps_but_hf (recomputeHf_with next cfg nowSec)"
  unfolding keeps_but_hf_def recomputeHf_with_def
  using sync_hf_only [OF assms] hf_only_trans [OF _ materialize_hf_only]
  by (auto simp: Let_def split: option.splits if_splits)

lemma tier_loop_hf_only:
  assumes "keeps_but_hf next" "tier_loop next cfg nowMs nowSec a keys changes m = Some (ch, m')"
  shows "hf_only m m'"
  using assms(2)
proof (induction keys arbitrary: changes m)
  case (Cons key rest)
  show ?case
  proof (cases "js_get (pm_positions m) key")
    case None
    with Cons show ?thesis by simp
  next
    case (Some p)
    show ?thesis
    proof (cases "\<not> up_isFullySeeded p \<or> \<not> positionTouchesAsset p a")
      case True
      with Some Cons show ?thesis by auto
    next
      case False
      with Some Cons.prems obtain r m1 where r: "next p m = Some (r, m1)"
        by (auto split: option.splits)
      obtain c m2 where c: "commitHfFromRecompute key r m1 = (c, m2)" by fastforce
      have "hf_only m m1" using r assms(1) by (auto simp: keeps_but_hf_def)
      also have "hf_only m1 m2" by (rule commit_hf_only [OF c])
      also have "hf_only m2 (report_gap cfg nowMs nowSec (up_account p) r m2)"
        by (simp add: hf_only_same)
      also have "hf_only (report_gap cfg nowMs nowSec (up_account p) r m2) m'"
        using Cons.prems Some False r c Cons.IH by (simp add: Let_def)
      finally show ?thesis .
    qed
  qed
qed simp

lemma recompute_tier_hf_only: "keeps_but_hf (recompute_tier n cfg nowMs nowSec)"
proof (induction n)
  case (Suc n)
  show ?case
    using tier_loop_hf_only [OF recomputeHf_with_hf_only [OF Suc]] by (auto simp: keeps_but_hf_def)
qed (simp add: keeps_but_hf_def)

section \<open>What is reported\<close>

definition keyed :: "position_model \<Rightarrow> bool" where
  "keyed m \<longleftrightarrow> (\<forall>k p. js_get (pm_positions m) k = Some p \<longrightarrow> to_lower (up_account p) = k)"

lemma hf_only_forgetD:
  assumes "hf_only m m'" "js_get (pm_positions m') k = Some p'"
  obtains p where "js_get (pm_positions m) k = Some p" "forget_hf p' = forget_hf p"
proof -
  have "map_option forget_hf (js_get (pm_positions m) k) = Some (forget_hf p')"
    using hf_only_get [OF assms(1), of k] assms(2) by simp
  then obtain p where "js_get (pm_positions m) k = Some p" "forget_hf p = forget_hf p'" by blast
  then show thesis using that by simp
qed

lemma forget_hf_eqD:
  assumes "forget_hf p' = forget_hf p"
  shows "up_account p' = up_account p" "up_isFullySeeded p' = up_isFullySeeded p" "up_collateral p' = up_collateral p"
    "up_debt p' = up_debt p" "up_collateralIndexAtUpdate p' = up_collateralIndexAtUpdate p"
    "up_debtIndexAtUpdate p' = up_debtIndexAtUpdate p" "up_lastActivityBlock p' = up_lastActivityBlock p"
proof -
  have "f (forget_hf p') = f (forget_hf p)" for f :: "user_position \<Rightarrow> 'a" using assms by simp
  from this [of up_account] this [of up_isFullySeeded] this [of up_collateral] this [of up_debt]
    this [of up_collateralIndexAtUpdate] this [of up_debtIndexAtUpdate] this [of up_lastActivityBlock]
  show "up_account p' = up_account p" "up_isFullySeeded p' = up_isFullySeeded p" "up_collateral p' = up_collateral p"
    "up_debt p' = up_debt p" "up_collateralIndexAtUpdate p' = up_collateralIndexAtUpdate p"
    "up_debtIndexAtUpdate p' = up_debtIndexAtUpdate p" "up_lastActivityBlock p' = up_lastActivityBlock p"
    using assms by (simp_all add: forget_hf_def)
qed

lemma hf_only_keyed: "hf_only m m' \<Longrightarrow> keyed m \<Longrightarrow> keyed m'"
  unfolding keyed_def by (metis hf_only_forgetD forget_hf_eqD(1))

definition reported :: "model_config \<Rightarrow> tier_change list \<Rightarrow> position_model \<Rightarrow> bool" where
  "reported cfg ch m \<longleftrightarrow> (\<forall>c \<in> set ch. \<exists>p. js_get (pm_positions m) (to_lower (tc_account c)) = Some p \<and>
     up_isFullySeeded p \<and> c = toTierChange cfg p False)"

abbreviation "accts ch \<equiv> map (\<lambda>c. to_lower (tc_account c)) ch"

lemma reported_same:
  assumes "reported cfg ch m" "\<And>c. c \<in> set ch \<Longrightarrow>
    js_get (pm_positions m') (to_lower (tc_account c)) = js_get (pm_positions m) (to_lower (tc_account c))"
  shows "reported cfg ch m'"
  using assms by (simp add: reported_def)

lemma commit_cases:
  assumes "commitHfFromRecompute key r m = (c, m')" "js_get (pm_positions m) key = Some p"
  obtains (none) "c = None" "m' = m" "resolveHfFromResult p r = None"
  | (some) e where "c = Some e" "m' = put_position key (p\<lparr>up_cachedHfWad := e\<rparr>) m" "resolveHfFromResult p r = Some e"
proof (cases "resolveHfFromResult p r")
  case None
  then show thesis using assms by (intro none) (simp_all add: commitHfFromRecompute_def)
next
  case (Some e)
  then show thesis using assms by (intro some [of e]) (simp_all add: commitHfFromRecompute_def)
qed

definition quiet_when_settled :: "('i, 'o) model_call \<Rightarrow> bool" where
  "quiet_when_settled f \<longleftrightarrow>
     (\<forall>i m r m'. settled m \<longrightarrow> f i m = Some (r, m') \<longrightarrow> settled m' \<and> pm_positions m' = pm_positions m)"

definition settles :: "(user_position, hf_result) model_call \<Rightarrow> bool" where
  "settles f \<longleftrightarrow> (\<forall>p m r m'. f p m = Some (r, m') \<longrightarrow> settled m' \<or> (\<forall>q. resolveHfFromResult q r = None))"

lemma tier_loop_reports:
  assumes "next": "quiet_when_settled next" "keeps_but_hf next" "settles next"
    and "tier_loop next cfg nowMs nowSec a keys changes m = Some (ch, m')"
    and "keyed m" "distinct keys" "changes = [] \<or> settled m" "reported cfg changes m" "distinct (accts changes)"
      "set (accts changes) \<inter> set keys = {}"
  shows "reported cfg ch m' \<and> distinct (accts ch) \<and> set (accts changes) \<subseteq> set (accts ch) \<and>
    (settled m \<longrightarrow> (\<forall>k. k \<notin> set (accts ch) \<longrightarrow> js_get (pm_positions m') k = js_get (pm_positions m) k))"
  using assms(4-)
proof (induction keys arbitrary: changes m)
  case (Cons key rest)
  note prems = Cons.prems and IH = Cons.IH
  show ?case
  proof (cases "\<exists>p. js_get (pm_positions m) key = Some p \<and> up_isFullySeeded p \<and> positionTouchesAsset p a")
    case False
    then have "tier_loop next cfg nowMs nowSec a (key # rest) changes m = tier_loop next cfg nowMs nowSec a rest changes m"
      by (auto split: option.splits)
    with prems show ?thesis by (intro IH) auto
  next
    case True
    then obtain p where p: "js_get (pm_positions m) key = Some p" "up_isFullySeeded p" "positionTouchesAsset p a"
      by blast
    then obtain r m1 where r: "next p m = Some (r, m1)"
      using prems(1) by (auto split: option.splits)
    have ho: "hf_only m m1" using r "next"(2) by (auto simp: keeps_but_hf_def)
    then obtain p1 where p1: "js_get (pm_positions m1) key = Some p1" "forget_hf p1 = forget_hf p"
      using hf_only_get [OF ho, of key] p(1) by auto
    have sm: "settled m \<Longrightarrow> settled m1 \<and> pm_positions m1 = pm_positions m"
      using r "next"(1) by (auto simp: quiet_when_settled_def)
    obtain c m2 where c: "commitHfFromRecompute key r m1 = (c, m2)" by fastforce
    let ?m3 = "report_gap cfg nowMs nowSec (up_account p) r m2"
    have k1: "keyed m1" by (rule hf_only_keyed [OF ho prems(2)])
    show ?thesis
    proof (cases rule: commit_cases [OF c p1(1), case_names none some])
      case none
      have loop: "tier_loop next cfg nowMs nowSec a rest changes ?m3 = Some (ch, m')"
        using prems(1) p r c none by simp
      have s3: "settled m \<Longrightarrow> settled ?m3" using sm settled_cong [of ?m3 m1] none by simp
      have rep: "reported cfg changes ?m3"
        using prems(4,5) sm none by (auto simp: reported_def)
      have "keyed ?m3" using k1 none by (simp add: keyed_def)
      from IH [OF loop this] prems rep s3 sm none show ?thesis by auto
    next
      case (some e)
      let ?p' = "p1\<lparr>up_cachedHfWad := e\<rparr>"
      have get: "js_get (pm_positions m2) k = (if k = key then Some ?p' else js_get (pm_positions m1) k)" for k
        using some(2) by (simp add: put_position_def)
      let ?c = "toTierChange cfg ?p' False"
      have acct: "to_lower (tc_account ?c) = key"
        using k1 p1(1) by (simp add: toTierChange_def keyed_def)
      have loop: "tier_loop next cfg nowMs nowSec a rest (changes @ [?c]) ?m3 = Some (ch, m')"
        using prems(1) p r c some by (simp add: put_position_def)
      have "settled m1" using "next"(3) r some(3) unfolding settles_def by (metis option.distinct(1))
      then have s3: "settled ?m3" using settled_cong [of ?m3 m1] some(2) by (simp add: put_position_def)
      have seeded: "up_isFullySeeded ?p'" using p(2) forget_hf_eqD(2) [OF p1(2)] by simp
      have fresh: "key \<notin> set (accts changes)" using prems(7) by auto
      have rep: "reported cfg (changes @ [?c]) ?m3"
      proof -
        have "reported cfg changes ?m3"
          using prems(4,5) sm fresh by (auto simp: reported_def get image_iff)
        then show ?thesis using acct seeded by (auto simp: reported_def get)
      qed
      have k3: "keyed ?m3"
        using k1 acct by (auto simp: keyed_def get toTierChange_def)
      have "reported cfg ch m' \<and> distinct (accts ch) \<and> set (accts (changes @ [?c])) \<subseteq> set (accts ch) \<and>
          (settled ?m3 \<longrightarrow> (\<forall>k. k \<notin> set (accts ch) \<longrightarrow> js_get (pm_positions m') k = js_get (pm_positions ?m3) k))"
        using prems(3,6,7) fresh acct s3 rep by (intro IH [OF loop k3]) auto
      then show ?thesis using s3 sm acct get by auto
    qed
  qed
qed auto

lemma recomputeHf_quiet: "quiet_when_settled (recomputeHf_with next cfg nowSec)"
  unfolding quiet_when_settled_def
  by (auto simp: recomputeHf_with_def sync_settled Let_def materialize_settled split: if_splits)

lemma recomputeHf_settles:
  assumes "returns_settled next"
  shows "settles (recomputeHf_with next cfg nowSec)"
  unfolding settles_def
proof (intro allI impI)
  fix p m r m'
  assume run: "recomputeHf_with next cfg nowSec p m = Some (r, m')"
  show "settled m' \<or> (\<forall>q. resolveHfFromResult q r = None)"
  proof (cases "pm_pricesBootstrapped m")
    case True
    obtain ch m1 where "syncDerivedPegPrices_with next nowSec None m = Some (ch, m1)" "settled m1"
      using sync_returns [OF assms, of nowSec None m] by auto
    with True run show ?thesis by (auto simp: recomputeHf_with_def Let_def materialize_settled)
  qed (use run in \<open>auto simp: recomputeHf_with_def\<close>)
qed

lemmas next_facts = recomputeHf_quiet recomputeHf_with_hf_only [OF recompute_tier_hf_only]
  recomputeHf_settles [OF recompute_tier_settled]

lemma recompute_reports:
  assumes "recompute_tier (Suc (Suc n)) cfg nowMs nowSec a m = Some (ch, m')" "keyed m" "js_wf (pm_positions m)"
  shows "reported cfg ch m' \<and> distinct (accts ch) \<and>
    (settled m \<longrightarrow> (\<forall>k. k \<notin> set (accts ch) \<longrightarrow> js_get (pm_positions m') k = js_get (pm_positions m) k))"
proof -
  have "tier_loop (recomputeHf_with (recompute_tier (Suc n) cfg nowMs nowSec) cfg nowSec) cfg nowMs nowSec a
      (js_keys (pm_positions m)) [] m = Some (ch, m')"
    using assms(1) unfolding recompute_tier.simps(2) [of "Suc n"] .
  from tier_loop_reports [OF next_facts this assms(2)] show ?thesis
    using assms(3) by (simp add: js_keys_def js_wf_def reported_def)
qed

lemma js_wf_hf_only: "hf_only m m' \<Longrightarrow> js_wf (pm_positions m') = js_wf (pm_positions m)"
  using hf_only_keys [of m m'] by (simp add: js_wf_def js_keys_def)

lemma merge_changes_sound:
  "set (merge_changes seen merged cs) \<subseteq> set merged \<union> {c \<in> set cs. to_lower (tc_account c) \<notin> set seen}"
  by (induction cs arbitrary: seen merged) (fastforce split: if_splits)+

lemma merge_changes_distinct:
  "distinct (accts merged) \<Longrightarrow> set (accts merged) \<subseteq> set seen \<Longrightarrow> distinct (accts (merge_changes seen merged cs))"
proof (induction cs arbitrary: seen merged)
  case (Cons c cs)
  show ?case
  proof (cases "to_lower (tc_account c) \<in> set seen")
    case False
    have "distinct (accts (merged @ [c]))" using Cons.prems False by auto
    moreover have "set (accts (merged @ [c])) \<subseteq> set (js_add (to_lower (tc_account c)) seen)"
      using Cons.prems by auto
    ultimately have "distinct (accts (merge_changes (js_add (to_lower (tc_account c)) seen) (merged @ [c]) cs))"
      by (rule Cons.IH)
    with False show ?thesis by simp
  qed (use Cons in simp)
qed simp

text \<open>The peg changes of a price update: at most one round, in a settled model.\<close>

lemma sync_reports:
  assumes "syncDerivedPegPrices cfg nowMs nowSec (Some a) m = Some (ch, m')" "keyed m" "js_wf (pm_positions m)"
  shows "reported cfg ch m' \<and> distinct (accts ch) \<and> (ch \<noteq> [] \<longrightarrow> settled m')"
proof (cases "pegAssetsDerivedFrom a = []")
  case True
  with assms(1) show ?thesis
    by (auto simp: syncDerivedPegPrices_def syncDerivedPegPrices_with_def reported_def)
next
  case False
  let ?next = "recompute_tier (Suc (Suc 0)) cfg nowMs nowSec"
  have fuel: "recomputeTierChangesForAsset cfg nowMs nowSec = ?next"
    by (simp add: recomputeTierChangesForAsset_def recompute_fuel_def numeral_2_eq_2)
  from False assms(1) have run: "sync_loop ?next nowSec (BASE_USDBC # []) [] m = Some (ch, m')"
    unfolding syncDerivedPegPrices_def syncDerivedPegPrices_with_def fuel
    by (simp add: pegAssetsDerivedFrom_def del: sync_loop.simps split: if_splits)
  have key: "to_lower BASE_USDBC = usdbc_key" by simp
  show ?thesis
  proof (rule sync_loop_step [OF key, of m nowSec "[]"], goal_cases)
    case 1
    from run [unfolded 1(2)] show ?thesis by (simp add: reported_def)
  next
    case (2 m1)
    from run [unfolded 2(5)] obtain m2 where r: "?next BASE_USDBC m1 = Some (ch, m2)" "m' = m2"
      by (auto split: option.splits)
    have k1: "keyed m1" "js_wf (pm_positions m1)" using assms(2,3) 2(2) by (simp_all add: keyed_def)
    have "settled m2"
      using recompute_tier_settled [of "Suc 0" cfg nowMs nowSec, unfolded returns_settled_def, rule_format, OF 2(1), of BASE_USDBC] r(1)
      by auto
    then show ?thesis using recompute_reports [OF r(1) k1] r(2) by simp
  qed
qed

lemma fuel_2: "recomputeTierChangesForAsset cfg nowMs nowSec = recompute_tier (Suc (Suc 0)) cfg nowMs nowSec"
  by (simp add: recomputeTierChangesForAsset_def recompute_fuel_def numeral_2_eq_2)

lemma sync_pegs_returns: "\<exists>ch m'. syncDerivedPegPrices cfg nowMs nowSec x m = Some (ch, m')"
  unfolding syncDerivedPegPrices_def fuel_2
  using sync_returns [OF recompute_tier_settled, of "Suc 0" cfg nowMs nowSec nowSec x m] by blast

lemma recomputeHf_returns: "\<exists>r m'. recomputeHf cfg nowMs nowSec p m = Some (r, m')"
  unfolding recomputeHf_def fuel_2
  using recomputeHf_with_returns [OF recompute_tier_settled, of "Suc 0" cfg nowMs nowSec cfg nowSec p m] by blast

lemma applyFeedPriceUpdate_returns:
  "\<exists>r m'. applyFeedPriceUpdate cfg nowMs a feed answer decimals nowSec m = Some (r, m')"
proof -
  obtain ch m1 where "syncDerivedPegPrices cfg nowMs nowSec (Some a) (store_feed_price a feed answer decimals nowSec m) = Some (ch, m1)"
    using sync_pegs_returns by blast
  moreover obtain ch' m2 where "recomputeTierChangesForAsset cfg nowMs nowSec a m1 = Some (ch', m2)"
    unfolding fuel_2 using recompute_tier_returns [of 0] by blast
  ultimately show ?thesis by (simp add: applyFeedPriceUpdate_def)
qed

section \<open>Properties\<close>

text \<open>C8. Every call returns: the cycle between the recomputation of positions and the peg prices goes
  round at most twice, so any more fuel gives the same result.\<close>

theorem recompute_terminates:
  "(\<exists>r m'. applyFeedPriceUpdate cfg nowMs a feed answer decimals nowSec m = Some (r, m')) \<and>
   (\<exists>r m'. recomputeHf cfg nowMs nowSec p m = Some (r, m')) \<and>
   recompute_tier (recompute_fuel + n) = recompute_tier recompute_fuel"
  using applyFeedPriceUpdate_returns recomputeHf_returns recompute_tier_fuel [of n 0]
  by (simp add: recompute_fuel_def numeral_2_eq_2)

text \<open>A price update reports each account at most once, only positions seeded from the chain, and
  exactly the health factor and tier the model holds for the account when the update is done: a change
  that a later recomputation in the same update has overtaken is not reported.\<close>

theorem price_update_reports_stored:
  assumes "keyed m" and "js_wf (pm_positions m)"
    and "applyFeedPriceUpdate cfg nowMs a feed answer decimals nowSec m = Some (ch, m')"
  shows "distinct (map (\<lambda>c. to_lower (tc_account c)) ch) \<and>
    (\<forall>c \<in> set ch. \<exists>p. js_get (pm_positions m') (to_lower (tc_account c)) = Some p \<and> up_isFullySeeded p \<and>
       tc_localHfWad c = up_cachedHfWad p \<and> tc_tier c = classifyTier cfg (up_cachedHfWad p))"
proof -
  have goal: ?thesis if "distinct (accts ch)" "reported cfg ch m'"
    using that by (force simp: reported_def toTierChange_def)
  show ?thesis
  proof (cases "answer \<le> 0 \<or> 18 < decimals")
    case True
    with assms(3) show ?thesis by (auto simp: applyFeedPriceUpdate_def split: if_splits)
  next
    case False
    have fuel: "recomputeTierChangesForAsset cfg nowMs nowSec = recompute_tier (Suc (Suc 0)) cfg nowMs nowSec"
      by (simp add: recomputeTierChangesForAsset_def recompute_fuel_def numeral_2_eq_2)
    let ?m0 = "store_feed_price a feed answer decimals nowSec m"
    obtain ch1 m1 ch2 where sync: "syncDerivedPegPrices cfg nowMs nowSec (Some a) ?m0 = Some (ch1, m1)"
      and direct: "recomputeTierChangesForAsset cfg nowMs nowSec a m1 = Some (ch2, m')"
      and ch: "ch = (if ch1 = [] then ch2 else merge_changes (js_of_list (accts ch2)) ch2 ch1)"
      using assms(3) False by (auto simp: applyFeedPriceUpdate_def split: option.splits if_splits)
    have "pm_positions ?m0 = pm_positions m" by (simp add: store_feed_price_def)
    then have k0: "keyed ?m0" "js_wf (pm_positions ?m0)" using assms(1,2) by (simp_all add: keyed_def)
    have ho: "hf_only ?m0 m1"
      using sync_hf_only [OF recompute_tier_hf_only] sync unfolding syncDerivedPegPrices_def fuel by blast
    have k1: "keyed m1" "js_wf (pm_positions m1)"
      using hf_only_keyed [OF ho k0(1)] k0(2) js_wf_hf_only [OF ho] by simp_all
    note one = sync_reports [OF sync k0]
    note two = recompute_reports [OF direct [unfolded fuel] k1]
    show ?thesis
    proof (cases "ch1 = []")
      case True
      then show ?thesis using two ch goal by simp
    next
      case False
      have seen: "set (accts ch2) \<subseteq> set (js_of_list (accts ch2))" by simp
      have "distinct (accts ch)"
        using ch False merge_changes_distinct [OF _ seen] two by simp
      moreover have "reported cfg ch m'"
        unfolding reported_def
      proof
        fix c
        assume "c \<in> set ch"
        then consider "c \<in> set ch2" | "c \<in> set ch1" "to_lower (tc_account c) \<notin> set (accts ch2)"
          using ch False merge_changes_sound [of "js_of_list (accts ch2)" ch2 ch1] by auto
        then show "\<exists>p. js_get (pm_positions m') (to_lower (tc_account c)) = Some p \<and> up_isFullySeeded p \<and>
            c = toTierChange cfg p False"
        proof cases
          case 1
          then show ?thesis using two by (simp add: reported_def)
        next
          case 2
          then have "js_get (pm_positions m') (to_lower (tc_account c)) = js_get (pm_positions m1) (to_lower (tc_account c))"
            using two one False by simp
          then show ?thesis using 2(1) one by (simp add: reported_def)
        qed
      qed
      ultimately show ?thesis by (rule goal)
    qed
  qed
qed

definition sample_cfg :: model_config where
  "sample_cfg = \<lparr>mc_urgentHfWad = 1050000000000000000, mc_watchHfWad = 1100000000000000000, mc_reserveAllowlist = None,
     mc_hardCap = 2, mc_evictionHfWad = 1500000000000000000, mc_evictionInactiveBlocks = 100,
     mc_reserveIndexRefreshBlocks = 100, mc_pegMultiplier = 5 / 2\<rparr>"

definition borrower :: user_position where
  "borrower = \<lparr>up_account = ''0xA'', up_collateral = [(''weth'', 10)], up_debt = [(''dai'', 100)],
     up_collateralIndexAtUpdate = [(''weth'', WAD)], up_debtIndexAtUpdate = [(''dai'', WAD)], up_cachedHfWad = 2 * WAD,
     up_confidence = LowConfidence, up_isFullySeeded = True, up_lastConfirmedBlock = 1, up_lastActivityBlock = 1,
     up_eModeCategoryId = 0, up_lastTotalCollateralBase = None, up_lastTotalDebtBase = None,
     up_lastLiquidationThreshold = None\<rparr>"

definition sample_model :: position_model where
  "sample_model = \<lparr>pm_positions = [(''0xa'', borrower)], pm_prices = [(''weth'', 20 * WAD), (''dai'', WAD)], pm_feedStates = [],
     pm_reserveConfig = [(''weth'', fresh_reserve ''weth'' 8000 None), (''dai'', fresh_reserve ''dai'' 8000 None)],
     pm_flashblockTickCount = 0, pm_evictionTotal = 0, pm_pricesBootstrapped = True, pm_gapAggregator = gap_new 0\<rparr>"

lemma sample_keyed: "keyed sample_model" "js_wf (pm_positions sample_model)"
proof -
  have "to_lower ''0xA'' = ''0xa''" by code_simp
  then show "keyed sample_model" "js_wf (pm_positions sample_model)"
    by (auto simp: keyed_def sample_model_def borrower_def js_get_def js_wf_def split: if_splits)
qed

lemma sample_price_update:
  "map_option fst (applyFeedPriceUpdate sample_cfg 0 ''weth'' ''feed'' 1200000000 8 0 sample_model) =
     Some [\<lparr>tc_account = ''0xA'', tc_tier = Liquidatable, tc_localHfWad = 960000000000000000, tc_isNew = False,
            tc_isFullySeeded = True\<rparr>]"
  by code_simp

theorem price_update_reports_stored_witness:
  "\<exists>m' p. map_option snd (applyFeedPriceUpdate sample_cfg 0 ''weth'' ''feed'' 1200000000 8 0 sample_model) = Some m' \<and>
     js_get (pm_positions m') ''0xa'' = Some p \<and> up_cachedHfWad p = 960000000000000000"
proof -
  let ?c = "\<lparr>tc_account = ''0xA'', tc_tier = Liquidatable, tc_localHfWad = 960000000000000000, tc_isNew = False,
            tc_isFullySeeded = True\<rparr>"
  obtain m' where run: "applyFeedPriceUpdate sample_cfg 0 ''weth'' ''feed'' 1200000000 8 0 sample_model = Some ([?c], m')"
    using sample_price_update by auto
  have key: "to_lower ''0xA'' = ''0xa''" by code_simp
  from price_update_reports_stored [OF sample_keyed run]
  obtain p where "js_get (pm_positions m') ''0xa'' = Some p" "up_cachedHfWad p = 960000000000000000"
    by (auto simp: key)
  with run show ?thesis by auto
qed

definition usdbc_borrower :: user_position where
  "usdbc_borrower = borrower\<lparr>up_account := ''0xB'', up_collateral := [(''dai'', 100)], up_debt := [(to_lower BASE_USDBC, 100)],
     up_collateralIndexAtUpdate := [(''dai'', WAD)], up_debtIndexAtUpdate := [(to_lower BASE_USDBC, WAD)]\<rparr>"

definition peg_model :: position_model where
  "peg_model = sample_model\<lparr>pm_positions := [(''0xa'', borrower), (''0xb'', usdbc_borrower)],
     pm_prices := [(''weth'', 20 * WAD), (''dai'', WAD), (to_lower BASE_USDC, 2 * WAD), (to_lower BASE_USDBC, WAD)],
     pm_reserveConfig := pm_reserveConfig sample_model @ [(to_lower BASE_USDBC, fresh_reserve BASE_USDBC 8000 None)]\<rparr>"

text \<open>A peg price that changes inside the recomputation of another position updates the positions
  that hold the pegged asset without reporting them: here an update of WETH makes the USDbC borrower
  liquidatable, its stored health factor drops from 2 to 0.4, and only the WETH borrower is reported.\<close>

theorem nested_peg_change_unreported:
  "case applyFeedPriceUpdate sample_cfg 0 ''weth'' ''feed'' 2000000000 8 0 peg_model of
     None \<Rightarrow> False
   | Some (ch, m') \<Rightarrow> map tc_account ch = [''0xA''] \<and>
       map_option up_cachedHfWad (js_get (pm_positions m') ''0xb'') = Some 400000000000000000"
  by code_simp

definition decimals_position :: user_position where
  "decimals_position = borrower\<lparr>up_collateral := [(''weth'', 1000000000000000000)], up_debt := [(''dai'', 1000000000)]\<rparr>"

definition decimals_model :: position_model where
  "decimals_model = sample_model\<lparr>pm_prices := [(''weth'', 2000 * WAD), (''dai'', WAD)]\<rparr>"

text \<open>The recomputed health factor does not know the decimals of a token: one WETH (18 decimals) at 2000
  against 1000 USDC (6 decimals) is healthy at 1.6 on chain, and at 1.6 * 10^12 here.\<close>

theorem recompute_ignores_decimals:
  "map_option fst (recomputeHf sample_cfg 0 0 decimals_position decimals_model) = Some (HfOk (1600000000000 * WAD))"
  by code_simp

end
