(* ===== verification/Position_Invariants.thy ===== *)
theory Position_Invariants
  imports Position_Recompute
begin

text \<open>
  The invariant of the position model (\<open>src/monitors/localPositionModel.ts\<close>), its evictions and its
  pool events: every operation keeps the maps of the model consistent, the cache is bounded after an
  event or a seed, evictions take the least recently active position, and memory pressure spares the
  positions at risk.
\<close>

section \<open>Consistency of the maps\<close>

definition pos_wf :: "user_position \<Rightarrow> bool" where
  "pos_wf p \<longleftrightarrow> js_wf (up_collateral p) \<and> js_wf (up_debt p) \<and>
     js_wf (up_collateralIndexAtUpdate p) \<and> js_wf (up_debtIndexAtUpdate p) \<and>
     set (js_keys (up_collateralIndexAtUpdate p)) = set (js_keys (up_collateral p)) \<and>
     set (js_keys (up_debtIndexAtUpdate p)) = set (js_keys (up_debt p))"

definition entry_ok :: "(address, reserve_config) jsmap \<Rightarrow> address \<Rightarrow> user_position \<Rightarrow> bool" where
  "entry_ok rc k p \<longleftrightarrow> k = to_lower (up_account p) \<and> pos_wf p \<and>
     set (js_keys (up_collateral p)) \<subseteq> set (js_keys rc) \<and> set (js_keys (up_debt p)) \<subseteq> set (js_keys rc)"

definition model_wf :: "position_model \<Rightarrow> bool" where
  "model_wf m \<longleftrightarrow> js_wf (pm_positions m) \<and> js_wf (pm_reserveConfig m) \<and>
     (\<forall>(k, p) \<in> set (pm_positions m). entry_ok (pm_reserveConfig m) k p)"

lemma entry_ok_mono: "entry_ok rc k p \<Longrightarrow> set (js_keys rc) \<subseteq> set (js_keys rc') \<Longrightarrow> entry_ok rc' k p"
  by (auto simp: entry_ok_def)

lemma entry_ok_forget: "entry_ok rc k (forget_hf p) = entry_ok rc k p"
  by (simp add: entry_ok_def pos_wf_def forget_hf_def)

lemma model_wf_get: "model_wf m \<Longrightarrow> js_get (pm_positions m) k = Some p \<Longrightarrow> entry_ok (pm_reserveConfig m) k p"
  by (auto simp: model_wf_def dest: js_get_SomeD)

lemma model_wf_keyed: "model_wf m \<Longrightarrow> keyed m"
  by (auto simp: keyed_def entry_ok_def dest: model_wf_get)

lemma model_wf_put [wf_intros]:
  assumes "model_wf m" "entry_ok (pm_reserveConfig m) key p"
  shows "model_wf (put_position key p m)"
proof -
  have "set (js_set key p (pm_positions m)) \<subseteq> insert (key, p) (set (pm_positions m))" by (rule js_set_subset)
  with assms show ?thesis by (auto simp: model_wf_def put_position_def)
qed

definition shrinks :: "position_model \<Rightarrow> position_model \<Rightarrow> bool" where
  "shrinks m m' \<longleftrightarrow> (\<exists>P. pm_positions m' = filter P (pm_positions m)) \<and> pm_reserveConfig m' = pm_reserveConfig m"

lemma shrinks_refl [simp]: "shrinks m m"
  unfolding shrinks_def using filter_True [of "pm_positions m" "\<lambda>_. True"] by metis

lemma shrinks_trans [trans]: "shrinks m m1 \<Longrightarrow> shrinks m1 m2 \<Longrightarrow> shrinks m m2"
  by (auto simp: shrinks_def filter_filter)

lemma shrinks_wf [wf_intros]: "model_wf m \<Longrightarrow> shrinks m m' \<Longrightarrow> model_wf m'"
  by (auto simp: model_wf_def shrinks_def js_wf_filter)

lemma hf_only_wf [wf_intros]:
  assumes "hf_only m m'" "model_wf m"
  shows "model_wf m'"
proof -
  have rc: "pm_reserveConfig m' = pm_reserveConfig m" using assms(1) by (simp add: hf_only_def)
  have all: "(\<forall>(k, p) \<in> set l. entry_ok rc k p) \<longleftrightarrow> (\<forall>(k, p) \<in> set (map (\<lambda>(k, p). (k, forget_hf p)) l). entry_ok rc k p)" for l rc
    by (auto simp: entry_ok_forget)
  have "\<forall>(k, p) \<in> set (pm_positions m'). entry_ok (pm_reserveConfig m) k p"
    using assms unfolding model_wf_def all [of "pm_positions m'"] all [of "pm_positions m"] hf_only_def by metis
  then show ?thesis using assms(2) js_wf_hf_only [OF assms(1)] rc by (simp add: model_wf_def)
qed

lemma evict_shrinks: "shrinks m (evict key m)"
  by (auto simp: shrinks_def evict_def js_delete_def)

lemma drop_shrinks: "shrinks m (drop_position key m)"
  by (auto simp: shrinks_def drop_position_def js_delete_def)

lemma evict_oldest_shrinks: "shrinks m (evict_oldest cap l m)"
  by (induction cap l m rule: evict_oldest.induct) (auto intro: shrinks_trans [OF evict_shrinks])

lemma evict_pressure_shrinks: "shrinks m (evict_pressure cfg cap l m)"
  by (induction cfg cap l m rule: evict_pressure.induct) (auto intro: shrinks_trans [OF evict_shrinks])

lemma evictInactive_shrinks: "shrinks m (evictInactiveHealthy cfg b m)"
proof -
  have "shrinks m (fold (\<lambda>(key, p) m. if inactive_healthy cfg b p then evict key m else m) l m)" for l m
  proof (induction l arbitrary: m)
    case (Cons e l)
    then show ?case
      using shrinks_trans [OF evict_shrinks [of m "fst e"] Cons.IH [of "evict (fst e) m"]] by (cases e) simp
  qed simp
  then show ?thesis by (simp add: evictInactiveHealthy_def)
qed

lemma enforceHardCap_shrinks: "shrinks m (enforceHardCap cfg b m)"
  by (simp add: enforceHardCap_def evictInactive_shrinks shrinks_trans [OF evict_oldest_shrinks evictInactive_shrinks])

section \<open>Operations on one position\<close>

lemma registerReserve_simps [simp]:
  "pm_positions (registerReserve a lt m) = pm_positions m"
  "to_lower a \<in> set (js_keys (pm_reserveConfig (registerReserve a lt m)))"
  using js_get_None_iff [of "pm_reserveConfig m" "to_lower a"]
  by (simp_all add: registerReserve_def js_keys_set js_has_iff)

lemma registerReserve_grows: "set (js_keys (pm_reserveConfig m)) \<subseteq> set (js_keys (pm_reserveConfig (registerReserve a lt m)))"
  by (auto simp: registerReserve_def js_keys_set)

lemma registerReserve_wf [wf_intros]:
  assumes "model_wf m"
  shows "model_wf (registerReserve a lt m)"
proof -
  have "entry_ok (pm_reserveConfig (registerReserve a lt m)) k p" if "(k, p) \<in> set (pm_positions m)" for k p
    by (rule entry_ok_mono [OF _ registerReserve_grows]) (use assms that in \<open>auto simp: model_wf_def\<close>)
  moreover have "js_wf (pm_reserveConfig (registerReserve a lt m))"
    using assms by (simp add: model_wf_def registerReserve_def)
  ultimately show ?thesis using assms by (simp add: model_wf_def case_prod_unfold)
qed

lemma js_keys_delete_set: "set (js_keys (js_delete k m)) = set (js_keys m) - {k}"
  by (auto simp: js_keys_delete)

lemma present_if_larger: "0 \<le> n \<Longrightarrow> n < get_or 0 (js_get l k) \<Longrightarrow> k \<in> set (js_keys l)"
  using js_get_None_iff [of l k] by (cases "js_get l k") (auto simp: get_or_def)

lemma pos_wf_add [wf_intros]:
  assumes "pos_wf p"
  shows "pos_wf (addCollateral m a n p)" "pos_wf (addDebt m a n p)"
  using assms by (simp_all add: pos_wf_def addCollateral_def addDebt_def Let_def js_keys_set)

lemma pos_wf_sub [wf_intros]:
  assumes "pos_wf p" "0 \<le> n"
  shows "pos_wf (subCollateral a n p)" "pos_wf (subDebt a n p)"
  using assms present_if_larger [of n "up_collateral p" "to_lower a"] present_if_larger [of n "up_debt p" "to_lower a"]
  by (auto simp: pos_wf_def subCollateral_def subDebt_def Let_def js_keys_set js_keys_delete_set)

lemma entry_ok_add [wf_intros]:
  assumes "entry_ok rc k p" "to_lower a \<in> set (js_keys rc)"
  shows "entry_ok rc k (addCollateral m a n p)" "entry_ok rc k (addDebt m a n p)"
  using assms pos_wf_add [of p m a n]
  by (auto simp: entry_ok_def) (auto simp: addCollateral_def addDebt_def Let_def js_keys_set)

lemma entry_ok_sub [wf_intros]:
  assumes "entry_ok rc k p" "0 \<le> n"
  shows "entry_ok rc k (subCollateral a n p)" "entry_ok rc k (subDebt a n p)"
  using assms pos_wf_sub [of p n a] present_if_larger [of n "up_collateral p" "to_lower a"]
    present_if_larger [of n "up_debt p" "to_lower a"]
  by (auto simp: entry_ok_def)
    (auto simp: subCollateral_def subDebt_def Let_def js_keys_set js_keys_delete_set split: if_splits)

section \<open>Operations on the model\<close>

text \<open>The amounts of a pool event are unsigned words on chain.\<close>

definition event_ok :: "pool_event \<Rightarrow> bool" where
  "event_ok e \<longleftrightarrow> 0 \<le> get_or 0 (ev_amount e) \<and> 0 \<le> get_or 0 (ev_debtToCover e) \<and>
     0 \<le> get_or 0 (ev_liquidatedCollateralAmount e)"

lemma getOrCreate_ok:
  assumes "model_wf m" "getOrCreate account b m = (p, m')"
  shows "model_wf m'" "entry_ok (pm_reserveConfig m') (to_lower account) p" "pm_reserveConfig m' = pm_reserveConfig m"
proof -
  have "model_wf m' \<and> entry_ok (pm_reserveConfig m') (to_lower account) p \<and> pm_reserveConfig m' = pm_reserveConfig m"
  proof (cases "js_get (pm_positions m) (to_lower account)")
    case None
    then have p: "entry_ok (pm_reserveConfig m) (to_lower account) p" and m': "m' = put_position (to_lower account) p m"
      using assms(2) by (auto simp: getOrCreate_def Let_def entry_ok_def pos_wf_def js_keys_def put_position_def)
    then show ?thesis using model_wf_put [OF assms(1) p] by (simp add: put_position_def)
  next
    case (Some q)
    then show ?thesis using assms model_wf_get [OF assms(1) Some] by (simp add: getOrCreate_def)
  qed
  then show "model_wf m'" "entry_ok (pm_reserveConfig m') (to_lower account) p" "pm_reserveConfig m' = pm_reserveConfig m"
    by blast+
qed

lemma entry_ok_fields [simp]:
  "entry_ok rc k (p\<lparr>up_lastActivityBlock := b\<rparr>) = entry_ok rc k p"
  "entry_ok rc k (p\<lparr>up_cachedHfWad := h\<rparr>) = entry_ok rc k p"
  by (simp_all add: entry_ok_def pos_wf_def)

lemma entry_ok_liquidated:
  assumes "event_ok e" "entry_ok rc k p"
  shows "entry_ok rc k (liquidated_position e p)"
  using assms unfolding liquidated_position_def Let_def event_ok_def
  by (auto split: option.splits simp: get_or_def intro!: entry_ok_sub)

lemma apply_user_event_wf:
  assumes "event_ok e" "model_wf m" "entry_ok (pm_reserveConfig m) key p"
    and "to_lower (ev_reserve e) \<in> set (js_keys (pm_reserveConfig m))"
  shows "model_wf (apply_user_event key p e m)"
proof -
  have ops: "entry_ok (pm_reserveConfig m) key (with_amount f (ev_amount e) p)"
    if "\<And>n. 0 \<le> n \<Longrightarrow> entry_ok (pm_reserveConfig m) key (f n p)" for f
    using that assms(1,3) by (cases "ev_amount e") (auto simp: with_amount_def event_ok_def get_or_def)
  have liq: "model_wf (applyLiquidation key p e m)"
    using shrinks_wf [OF model_wf_put [OF assms(2) entry_ok_liquidated [OF assms(1,3)]] drop_shrinks]
      model_wf_put [OF assms(2) entry_ok_liquidated [OF assms(1,3)]]
    by (simp add: applyLiquidation_def Let_def)
  show ?thesis
    using assms liq
    by (cases "ev_name e") (auto simp: apply_user_event_def intro!: model_wf_put ops entry_ok_add entry_ok_sub)
qed

lemma recomputeHf_hf_only: "recomputeHf cfg nowMs nowSec p m = Some (r, m') \<Longrightarrow> hf_only m m'"
  using recomputeHf_with_hf_only [OF recompute_tier_hf_only] unfolding recomputeHf_def fuel_2 keeps_but_hf_def by blast

lemma recompute_asset_hf_only: "recomputeTierChangesForAsset cfg nowMs nowSec a m = Some (r, m') \<Longrightarrow> hf_only m m'"
  using recompute_tier_hf_only unfolding fuel_2 keeps_but_hf_def by blast

lemma sync_pegs_hf_only: "syncDerivedPegPrices cfg nowMs nowSec x m = Some (ch, m') \<Longrightarrow> hf_only m m'"
  using sync_hf_only [OF recompute_tier_hf_only] unfolding syncDerivedPegPrices_def fuel_2 by blast

lemma applyHfResult_hf_only:
  assumes "applyHfResult cfg nowMs key p isNew m = Some (r, m')"
  shows "hf_only m m'"
proof -
  obtain result m1 where run: "recomputeHf cfg nowMs (nowMs div 1000) p m = Some (result, m1)"
    using recomputeHf_returns by blast
  obtain c m2 where c: "commitHfFromRecompute key result m1 = (c, m2)" by fastforce
  have "hf_only m m1" by (rule recomputeHf_hf_only [OF run])
  also have "hf_only m1 m2" by (rule commit_hf_only [OF c])
  also have "hf_only m2 m'"
    using assms run c by (auto simp: applyHfResult_def Let_def hf_only_same split: option.splits)
  finally show ?thesis .
qed

lemma applyHfResult_returns: "\<exists>r m'. applyHfResult cfg nowMs key p isNew m = Some (r, m')"
proof -
  obtain result m1 where "recomputeHf cfg nowMs (nowMs div 1000) p m = Some (result, m1)"
    using recomputeHf_returns by blast
  moreover obtain c m2 where "commitHfFromRecompute key result m1 = (c, m2)" by fastforce
  ultimately show ?thesis by (simp add: applyHfResult_def Let_def split: option.splits)
qed

lemma after_user_event_wf:
  assumes "model_wf m" "after_user_event cfg nowMs e account isNew m = Some (r, m')"
  shows "model_wf m'"
proof -
  have cap: "model_wf (enforceHardCap cfg b m1)" if "model_wf m1" for b m1
    by (rule shrinks_wf [OF that enforceHardCap_shrinks])
  show ?thesis
    using assms cap hf_only_wf [OF applyHfResult_hf_only assms(1)]
    by (auto simp: after_user_event_def split: option.splits if_splits)
qed

lemma after_user_event_returns: "\<exists>r m'. after_user_event cfg nowMs e account isNew m = Some (r, m')"
proof (cases "js_get (pm_positions m) (to_lower account)")
  case (Some p)
  obtain r m' where "applyHfResult cfg nowMs (to_lower account) p isNew m = Some (r, m')"
    using applyHfResult_returns by blast
  with Some show ?thesis by (simp add: after_user_event_def)
qed (simp add: after_user_event_def)

lemma applyReserveIndexUpdate_wf:
  assumes "model_wf m"
  shows "model_wf (applyReserveIndexUpdate e m)"
proof (cases "js_get (pm_reserveConfig m) (to_lower (ev_reserve e))")
  case (Some r)
  have "entry_ok (js_set k v (pm_reserveConfig m)) k' p" if "(k', p) \<in> set (pm_positions m)" for k v k' p
    by (rule entry_ok_mono [of "pm_reserveConfig m"]) (use assms that in \<open>auto simp: model_wf_def js_keys_set\<close>)
  with assms Some show ?thesis by (simp add: applyReserveIndexUpdate_def model_wf_def case_prod_unfold)
qed (simp add: applyReserveIndexUpdate_def assms)

lemma applyAaveEvent_wf:
  assumes "event_ok e" "model_wf m" "applyAaveEvent cfg nowMs e m = Some (r, m')"
  shows "model_wf m'"
proof (cases "ev_name e = ReserveDataUpdated")
  case True
  with assms show ?thesis
    by (auto simp: applyAaveEvent_def intro: applyReserveIndexUpdate_wf registerReserve_wf)
next
  case False
  show ?thesis
  proof (cases "resolveUserAddress e")
    case None
    with False assms show ?thesis by (simp add: applyAaveEvent_def)
  next
    case (Some account)
    let ?m1 = "registerReserve (ev_reserve e) BASE_LT_BPS m"
    obtain p m2 where p: "getOrCreate account (ev_blockNumber e) ?m1 = (p, m2)" by fastforce
    note ok = getOrCreate_ok [OF registerReserve_wf [OF assms(2)] p]
    let ?m3 = "apply_user_event (to_lower account) (p\<lparr>up_lastActivityBlock := ev_blockNumber e\<rparr>) e m2"
    have "model_wf ?m3" using ok by (intro apply_user_event_wf [OF assms(1)]) simp_all
    with False Some assms p show ?thesis
      by (auto simp: applyAaveEvent_def Let_def split: if_splits dest: after_user_event_wf)
  qed
qed

lemma applyAaveEvent_returns: "\<exists>r m'. applyAaveEvent cfg nowMs e m = Some (r, m')"
  using after_user_event_returns
  by (auto simp: applyAaveEvent_def Let_def case_prod_unfold split: option.splits)

lemma applyFeedPriceUpdate_hf_only:
  assumes "applyFeedPriceUpdate cfg nowMs a feed answer decimals nowSec m = Some (ch, m')"
  shows "hf_only m m'"
proof (cases "answer \<le> 0 \<or> 18 < decimals")
  case True
  with assms show ?thesis by (auto simp: applyFeedPriceUpdate_def split: if_splits)
next
  case False
  let ?m0 = "store_feed_price a feed answer decimals nowSec m"
  from assms False obtain ch1 m1 ch2 where sync: "syncDerivedPegPrices cfg nowMs nowSec (Some a) ?m0 = Some (ch1, m1)"
    and direct: "recomputeTierChangesForAsset cfg nowMs nowSec a m1 = Some (ch2, m')"
    by (auto simp: applyFeedPriceUpdate_def split: option.splits if_splits)
  have "hf_only m ?m0" by (simp add: hf_only_same store_feed_price_def)
  also have "hf_only ?m0 m1" by (rule sync_pegs_hf_only [OF sync])
  also have "hf_only m1 m'" by (rule recompute_asset_hf_only [OF direct])
  finally show ?thesis .
qed

lemma confirmOnChain_wf:
  assumes "model_wf m"
  shows "model_wf (confirmOnChain account c d lt hf b em m)"
proof -
  obtain p m1 where p: "getOrCreate account b m = (p, m1)" by fastforce
  note ok = getOrCreate_ok [OF assms p]
  show ?thesis
    unfolding confirmOnChain_def p Let_def prod.case
    by (rule model_wf_put [OF ok(1)]) (use ok(2) in \<open>simp add: entry_ok_def pos_wf_def\<close>)
qed

lemma seed_row_into_ok:
  assumes "model_wf m" "entry_ok (pm_reserveConfig m) key p" "seed_row_into row (p, m) = (p', m')"
  shows "model_wf m' \<and> entry_ok (pm_reserveConfig m') key p'"
proof -
  let ?m1 = "registerReserve (sr_asset row) BASE_LT_BPS m"
  have m': "m' = ?m1" using assms(3) by (auto simp: seed_row_into_def Let_def split: option.splits)
  have wf: "model_wf ?m1" by (rule registerReserve_wf [OF assms(1)])
  have ok: "entry_ok (pm_reserveConfig ?m1) key p" by (rule entry_ok_mono [OF assms(2) registerReserve_grows])
  have reg: "to_lower (sr_asset row) \<in> set (js_keys (pm_reserveConfig ?m1))" by simp
  have "entry_ok (pm_reserveConfig ?m1) key p'"
    using ok reg assms(3)
    by (auto simp: seed_row_into_def Let_def entry_ok_def pos_wf_def js_keys_set split: option.splits if_splits)
  with wf show ?thesis by (simp add: m')
qed

lemma seed_rows_ok:
  assumes "model_wf m" "entry_ok (pm_reserveConfig m) key p" "fold seed_row_into rows (p, m) = (p', m')"
  shows "model_wf m' \<and> entry_ok (pm_reserveConfig m') key p'"
  using assms
proof (induction rows arbitrary: p m)
  case (Cons row rows)
  obtain p1 m1 where step: "seed_row_into row (p, m) = (p1, m1)" by fastforce
  have rest: "fold seed_row_into rows (p1, m1) = (p', m')" using Cons.prems(3) step by simp
  show ?case
    using seed_row_into_ok [OF Cons.prems(1,2) step] Cons.IH [OF _ _ rest] by blast
qed auto

lemma seedFromOnChainSnapshot_wf:
  assumes "model_wf m"
  shows "model_wf (seedFromOnChainSnapshot cfg input m)"
proof -
  obtain p m1 where p: "getOrCreate (si_account input) (si_blockNumber input) m = (p, m1)" by fastforce
  note ok = getOrCreate_ok [OF assms p]
  let ?cleared = "p\<lparr>up_collateral := [], up_debt := [], up_collateralIndexAtUpdate := [], up_debtIndexAtUpdate := []\<rparr>"
  obtain p2 m2 where rows: "fold seed_row_into (si_reserves input) (?cleared, m1) = (p2, m2)" by fastforce
  have "entry_ok (pm_reserveConfig m1) (to_lower (si_account input)) ?cleared"
    using ok(2) by (simp add: entry_ok_def pos_wf_def js_keys_def)
  note two = seed_rows_ok [OF ok(1) this rows]
  show ?thesis
    unfolding seedFromOnChainSnapshot_def p Let_def prod.case rows
    by (rule shrinks_wf [OF model_wf_put enforceHardCap_shrinks]) (use two in \<open>auto simp: entry_ok_def pos_wf_def\<close>)
qed

lemma evictUnderMemoryPressure_shrinks: "shrinks m (snd (evictUnderMemoryPressure cfg b m))"
  by (simp add: evictUnderMemoryPressure_def Let_def shrinks_trans [OF evict_pressure_shrinks evictInactive_shrinks])

section \<open>The model as a system\<close>

datatype model_op =
    OpEvent int pool_event
  | OpFeedPrice int address address int int int
  | OpPriceEvent int price_event
  | OpSyncPegs int int
  | OpConfirm address int int int int int int
  | OpSeed seed_input
  | OpMemoryPressure int
  | OpRemove address
  | OpReserve address int
  | OpBonus address "int option"
  | OpBootstrapPrice address int feed_state
  | OpPriceFeed address address int
  | OpTick
  | OpBootstrapped

fun run_op :: "model_config \<Rightarrow> model_op \<Rightarrow> position_model \<Rightarrow> position_model option" where
  "run_op cfg (OpEvent nowMs e) m = map_option snd (applyAaveEvent cfg nowMs e m)"
| "run_op cfg (OpFeedPrice nowMs a feed answer decimals t) m = map_option snd (applyFeedPriceUpdate cfg nowMs a feed answer decimals t m)"
| "run_op cfg (OpPriceEvent nowMs e) m = map_option snd (applyPriceEvent cfg nowMs e m)"
| "run_op cfg (OpSyncPegs nowMs nowSec) m = map_option snd (syncDerivedPegPrices cfg nowMs nowSec None m)"
| "run_op cfg (OpConfirm account c d lt hf b em) m = Some (confirmOnChain account c d lt hf b em m)"
| "run_op cfg (OpSeed input) m = Some (seedFromOnChainSnapshot cfg input m)"
| "run_op cfg (OpMemoryPressure b) m = Some (snd (evictUnderMemoryPressure cfg b m))"
| "run_op cfg (OpRemove account) m = Some (removePosition account m)"
| "run_op cfg (OpReserve a lt) m = Some (registerReserve a lt m)"
| "run_op cfg (OpBonus a bonus) m = Some (setReserveLiquidationBonus a bonus m)"
| "run_op cfg (OpBootstrapPrice a price fs) m = Some (registerBootstrapPrice a price fs m)"
| "run_op cfg (OpPriceFeed feed a price) m = Some (registerPriceFeed feed a price m)"
| "run_op cfg OpTick m = Some (snd (onFlashblockTick cfg m))"
| "run_op cfg OpBootstrapped m = Some (markPricesBootstrapped m)"

fun run_ops :: "model_config \<Rightarrow> model_op list \<Rightarrow> position_model \<Rightarrow> position_model option" where
  "run_ops cfg [] m = Some m"
| "run_ops cfg (op # ops) m = (case run_op cfg op m of None \<Rightarrow> None | Some m' \<Rightarrow> run_ops cfg ops m')"

definition op_ok :: "model_op \<Rightarrow> bool" where
  "op_ok op \<longleftrightarrow> (case op of OpEvent _ e \<Rightarrow> event_ok e | _ \<Rightarrow> True)"

lemma applyPriceEvent_hf_only: "applyPriceEvent cfg nowMs e m = Some (ch, m') \<Longrightarrow> hf_only m m'"
  unfolding applyPriceEvent_def Let_def by (rule applyFeedPriceUpdate_hf_only)

lemma setReserveLiquidationBonus_wf:
  assumes "model_wf m"
  shows "model_wf (setReserveLiquidationBonus a bonus m)"
proof -
  have "entry_ok (js_set k v (pm_reserveConfig m)) k' p" if "(k', p) \<in> set (pm_positions m)" for k v k' p
    by (rule entry_ok_mono [of "pm_reserveConfig m"]) (use assms that in \<open>auto simp: model_wf_def js_keys_set\<close>)
  with assms show ?thesis by (simp add: setReserveLiquidationBonus_def model_wf_def case_prod_unfold split: option.splits)
qed

lemma model_wf_same:
  "model_wf m \<Longrightarrow> pm_positions m' = pm_positions m \<Longrightarrow> pm_reserveConfig m' = pm_reserveConfig m \<Longrightarrow> model_wf m'"
  by (simp add: model_wf_def)

lemma run_op_wf:
  assumes "op_ok op" "model_wf m" "run_op cfg op m = Some m'"
  shows "model_wf m'"
proof (cases op)
  case (OpEvent nowMs e)
  with assms show ?thesis by (auto simp: op_ok_def intro: applyAaveEvent_wf)
next
  case (OpFeedPrice nowMs a feed answer decimals t)
  with assms show ?thesis by (auto intro: hf_only_wf applyFeedPriceUpdate_hf_only)
next
  case (OpPriceEvent nowMs e)
  with assms show ?thesis by (auto intro: hf_only_wf applyPriceEvent_hf_only)
next
  case (OpSyncPegs nowMs nowSec)
  with assms show ?thesis by (auto intro: hf_only_wf sync_pegs_hf_only)
next
  case (OpMemoryPressure b)
  with assms show ?thesis using shrinks_wf [OF assms(2) evictUnderMemoryPressure_shrinks] by auto
next
  case (OpRemove account)
  with assms show ?thesis using shrinks_wf [OF assms(2) drop_shrinks] by (auto simp: removePosition_def)
next
  case (OpBootstrapPrice a price fs)
  with assms show ?thesis by (auto intro: model_wf_same)
next
  case (OpPriceFeed feed a price)
  with assms show ?thesis by (auto simp: registerPriceFeed_def intro: model_wf_same)
next
  case OpTick
  with assms show ?thesis by (auto simp: onFlashblockTick_def Let_def intro: model_wf_same)
next
  case OpBootstrapped
  with assms show ?thesis by (auto simp: markPricesBootstrapped_def intro: model_wf_same)
qed (use assms in \<open>auto intro: confirmOnChain_wf seedFromOnChainSnapshot_wf registerReserve_wf setReserveLiquidationBonus_wf\<close>)

lemma run_op_returns: "\<exists>m'. run_op cfg op m = Some m'"
proof (cases op)
  case (OpEvent nowMs e)
  then show ?thesis using applyAaveEvent_returns [of cfg nowMs e m] by auto
next
  case (OpFeedPrice nowMs a feed answer decimals t)
  then show ?thesis using applyFeedPriceUpdate_returns [of cfg nowMs a feed answer decimals t m] by auto
next
  case (OpPriceEvent nowMs e)
  obtain ch m' where "applyPriceEvent cfg nowMs e m = Some (ch, m')"
    unfolding applyPriceEvent_def Let_def using applyFeedPriceUpdate_returns by blast
  then show ?thesis by (simp add: OpPriceEvent)
next
  case (OpSyncPegs nowMs nowSec)
  then show ?thesis using sync_pegs_returns [of cfg nowMs nowSec None m] by auto
qed simp_all

section \<open>Evictions\<close>

lemma evict_positions: "pm_positions (evict k m) = filter (\<lambda>e. fst e \<noteq> k) (pm_positions m)"
  by (simp add: evict_def js_delete_def)

lemma evictInactive_fold:
  "pm_positions (fold (\<lambda>(key, p) m. if inactive_healthy cfg b p then evict key m else m) l m) =
     filter (\<lambda>e. \<not> (\<exists>p. (fst e, p) \<in> set l \<and> inactive_healthy cfg b p)) (pm_positions m)"
proof (induction l arbitrary: m)
  case (Cons e l)
  obtain k p where e: "e = (k, p)" by fastforce
  show ?case
    by (auto simp: e Cons evict_positions intro!: filter_cong)
qed simp

lemma evictInactive_positions:
  assumes "js_wf (pm_positions m)"
  shows "pm_positions (evictInactiveHealthy cfg b m) = filter (\<lambda>(k, p). \<not> inactive_healthy cfg b p) (pm_positions m)"
proof -
  have unique: "p' = p" if "(k, p) \<in> set (pm_positions m)" "(k, p') \<in> set (pm_positions m)" for k p p'
    using assms that by (metis js_get_iff option.inject)
  show ?thesis
    unfolding evictInactiveHealthy_def evictInactive_fold
    by (rule filter_cong) (auto dest: unique)
qed

abbreviation "pos_key p \<equiv> to_lower (up_account p)"

lemma by_activity_set: "set (by_activity m) = set (js_values (pm_positions m))"
  by (simp add: by_activity_def)

lemma evict_oldest_positions:
  assumes "js_wf (pm_positions m)" "distinct (map pos_key l)" "\<forall>p \<in> set l. js_has (pm_positions m) (pos_key p)"
  shows "pm_positions (evict_oldest cap l m) =
    filter (\<lambda>e. fst e \<notin> pos_key ` set (take (length (pm_positions m) - cap) l)) (pm_positions m)"
  using assms
proof (induction l arbitrary: m)
  case (Cons p l)
  let ?n = "length (pm_positions m) - cap"
  show ?case
  proof (cases "cap < length (pm_positions m)")
    case False
    then show ?thesis by simp
  next
    case True
    let ?m1 = "evict (pos_key p) m"
    have len: "Suc (length (pm_positions ?m1)) = length (pm_positions m)"
      using Cons.prems(1,3) length_js_delete [of "pm_positions m" "pos_key p"] by (simp add: evict_def)
    then have n: "?n = Suc (length (pm_positions ?m1) - cap)" using True by simp
    have still: "js_has (pm_positions ?m1) (pos_key q)" if "q \<in> set l" for q
    proof -
      have "pos_key p \<notin> pos_key ` set l" using Cons.prems(2) by simp
      then have "pos_key q \<noteq> pos_key p" using that by (metis image_eqI)
      moreover have "js_has (pm_positions m) (pos_key q)" using Cons.prems(3) that by simp
      ultimately show ?thesis by (simp add: evict_def js_has_iff)
    qed
    have wf: "js_wf (pm_positions ?m1)" using Cons.prems(1) by (simp add: evict_def)
    have "pm_positions (evict_oldest cap l ?m1) =
        filter (\<lambda>e. fst e \<notin> pos_key ` set (take (length (pm_positions ?m1) - cap) l)) (pm_positions ?m1)"
      using Cons.prems(2) still wf by (intro Cons.IH) auto
    then show ?thesis using True by (auto simp: n evict_positions intro!: filter_cong)
  qed
qed simp

lemma model_wf_values:
  assumes "model_wf m"
  shows "map pos_key (js_values (pm_positions m)) = js_keys (pm_positions m)"
  using assms by (auto simp: model_wf_def js_values_def js_keys_def entry_ok_def)

lemma by_activity_distinct:
  assumes "model_wf m"
  shows "distinct (map pos_key (by_activity m))"
proof -
  have "distinct (map pos_key (js_values (pm_positions m)))"
    using assms unfolding model_wf_values [OF assms] by (simp add: model_wf_def js_wf_def js_keys_def)
  then show ?thesis unfolding by_activity_def distinct_map distinct_sort set_sort .
qed

lemma by_activity_present: "model_wf m \<Longrightarrow> p \<in> set (by_activity m) \<Longrightarrow> js_has (pm_positions m) (pos_key p)"
  using js_get_None_iff [of "pm_positions m" "pos_key p"] model_wf_values [of m]
  by (auto simp: js_has_iff by_activity_set) (metis image_eqI image_set)

lemma in_by_activity: "(k, p) \<in> set (pm_positions m) \<Longrightarrow> p \<in> set (by_activity m)"
  by (force simp: by_activity_set js_values_def)

lemma length_by_activity: "length (by_activity m) = length (pm_positions m)"
  by (simp add: by_activity_def js_values_def)

lemma filter_keys_length:
  assumes "distinct (map fst l)" "set ks \<subseteq> set (map fst l)" "distinct ks"
  shows "length (filter (\<lambda>e. fst e \<notin> set ks) l) = length l - length ks"
proof -
  have "length (filter (\<lambda>e. fst e \<notin> set ks) l) = length (filter (\<lambda>k. k \<notin> set ks) (map fst l))"
    by (simp add: filter_map comp_def)
  also have "\<dots> = card (set (map fst l) - set ks)"
    using assms(1) by (subst distinct_card [symmetric]) (auto simp: set_diff_eq)
  also have "\<dots> = length l - length ks"
    using assms by (simp add: card_Diff_subset distinct_card del: set_map)
  finally show ?thesis .
qed

lemma evict_oldest_length:
  assumes "model_wf m"
  shows "length (pm_positions (evict_oldest cap (by_activity m) m)) = min cap (length (pm_positions m))"
proof -
  let ?ks = "map pos_key (take (length (pm_positions m) - cap) (by_activity m))"
  have wf: "js_wf (pm_positions m)" using assms by (simp add: model_wf_def)
  have eq: "pm_positions (evict_oldest cap (by_activity m) m) = filter (\<lambda>e. fst e \<notin> set ?ks) (pm_positions m)"
    using evict_oldest_positions [OF wf by_activity_distinct [OF assms]] by_activity_present [OF assms] by simp
  have "set ?ks \<subseteq> set (map fst (pm_positions m))"
    using by_activity_present [OF assms] js_get_None_iff [of "pm_positions m"]
    by (auto simp: js_has_iff js_keys_def dest!: in_set_takeD)
  moreover have "distinct ?ks" using by_activity_distinct [OF assms] by (metis distinct_take take_map)
  ultimately have "length (filter (\<lambda>e. fst e \<notin> set ?ks) (pm_positions m)) = length (pm_positions m) - length ?ks"
    using wf by (intro filter_keys_length) (simp_all add: js_wf_def)
  then show ?thesis unfolding eq by (simp add: length_by_activity)
qed

lemma enforceHardCap_length:
  assumes "model_wf m"
  shows "length (pm_positions (enforceHardCap cfg b m)) \<le> mc_hardCap cfg"
proof -
  have shrink: "length (pm_positions m') \<le> length (pm_positions m)" if "shrinks m m'" for m m'
    using that by (auto simp: shrinks_def)
  show ?thesis
    using shrink [OF evictInactive_shrinks [of m cfg b]] evict_oldest_length [OF assms, of "mc_hardCap cfg"]
      shrink [OF evictInactive_shrinks [of "evict_oldest (mc_hardCap cfg) (by_activity m) m" cfg b]]
    by (auto simp: enforceHardCap_def)
qed

lemma sorted_take_drop: "sorted (map f l) \<Longrightarrow> x \<in> set (take n l) \<Longrightarrow> y \<in> set (drop n l) \<Longrightarrow> f x \<le> f y"
  using sorted_append [of "map f (take n l)" "map f (drop n l)"]
  unfolding map_append [symmetric] append_take_drop_id by auto

lemma pos_key_inj:
  assumes "model_wf m" "(k, p) \<in> set (pm_positions m)" "(k', q) \<in> set (pm_positions m)" "pos_key p = pos_key q"
  shows "p = q"
proof -
  have "k = pos_key p" "k' = pos_key q" using assms(1-3) by (auto simp: model_wf_def entry_ok_def)
  then show ?thesis
    using assms js_get_iff [of "pm_positions m"] by (metis model_wf_def option.inject)
qed

lemma evict_oldest_order:
  assumes "model_wf m" "(k, p) \<in> set (pm_positions m)" "(k', q) \<in> set (pm_positions m)"
    and "(k, p) \<notin> set (pm_positions (evict_oldest cap (by_activity m) m))"
    and "(k', q) \<in> set (pm_positions (evict_oldest cap (by_activity m) m))"
  shows "up_lastActivityBlock p \<le> up_lastActivityBlock q"
proof -
  let ?n = "length (pm_positions m) - cap"
  have wf: "js_wf (pm_positions m)" and keys: "k = pos_key p" "k' = pos_key q"
    using assms(1-3) by (auto simp: model_wf_def entry_ok_def)
  have eq: "pm_positions (evict_oldest cap (by_activity m) m) =
      filter (\<lambda>e. fst e \<notin> pos_key ` set (take ?n (by_activity m))) (pm_positions m)"
    using evict_oldest_positions [OF wf by_activity_distinct [OF assms(1)]] by_activity_present [OF assms(1)] by simp
  obtain p' where p': "p' \<in> set (take ?n (by_activity m))" "pos_key p' = pos_key p"
    using assms(2,4) by (auto simp: eq keys)
  have "p' \<in> set (by_activity m)" using p'(1) by (rule in_set_takeD)
  then obtain k'' where "(k'', p') \<in> set (pm_positions m)" by (auto simp: by_activity_set js_values_def)
  then have "p' = p" using pos_key_inj [OF assms(1) _ assms(2)] p'(2) by blast
  then have p: "p \<in> set (take ?n (by_activity m))" using p'(1) by simp
  have "q \<in> set (by_activity m)" by (rule in_by_activity [OF assms(3)])
  moreover have "q \<notin> set (take ?n (by_activity m))" using assms(5) by (auto simp: eq keys)
  ultimately have "q \<in> set (drop ?n (by_activity m))"
    by (metis Un_iff append_take_drop_id set_append)
  with p show ?thesis
    by (intro sorted_take_drop [of up_lastActivityBlock "by_activity m" p ?n q]) (simp_all add: by_activity_def)
qed

lemma evict_pressure_kept:
  assumes "e \<in> set (pm_positions m)" "e \<notin> set (pm_positions (evict_pressure cfg cap l m))"
  shows "\<exists>p \<in> set l. fst e = pos_key p \<and> classifyTier cfg (up_cachedHfWad p) = Healthy \<and> bdiv (3 * WAD) 2 \<le> up_cachedHfWad p"
  using assms
proof (induction cfg cap l m rule: evict_pressure.induct)
  case (2 cfg cap p l m)
  show ?case
  proof (cases "length (pm_positions m) \<le> cap \<or> classifyTier cfg (up_cachedHfWad p) \<in> {Urgent, Watch, Liquidatable} \<or>
      up_cachedHfWad p < bdiv (3 * WAD) 2")
    case True
    with 2 show ?thesis by (auto split: if_splits)
  next
    case False
    then have healthy: "classifyTier cfg (up_cachedHfWad p) = Healthy"
      by (cases "classifyTier cfg (up_cachedHfWad p)") auto
    show ?thesis
    proof (cases "fst e = pos_key p")
      case True
      with healthy False show ?thesis by auto
    next
      case other: False
      then have "e \<in> set (pm_positions (evict (pos_key p) m))" using 2(4) by (simp add: evict_positions)
      moreover have "e \<notin> set (pm_positions (evict_pressure cfg cap l (evict (pos_key p) m)))"
        using 2(5) False by auto
      ultimately show ?thesis using 2(3) False by auto
    qed
  qed
qed simp

section \<open>Properties\<close>

text \<open>Whatever sequence of events, prices, snapshots and evictions reaches a new model, every
  operation returns and the maps stay consistent: one entry per account under its lower-case address,
  an index for exactly the assets with an amount, and a reserve configuration for each of them.\<close>

theorem model_stays_consistent:
  assumes "list_all op_ok ops"
  shows "\<exists>m. run_ops cfg ops (new_model nowMs) = Some m \<and> model_wf m"
proof -
  have "\<exists>m'. run_ops cfg ops m = Some m' \<and> model_wf m'" if "model_wf m" for m
    using assms that
  proof (induction ops arbitrary: m)
    case (Cons op ops)
    obtain m1 where m1: "run_op cfg op m = Some m1" using run_op_returns by blast
    have "model_wf m1" by (rule run_op_wf [OF _ Cons.prems(2) m1]) (use Cons.prems(1) in simp)
    then obtain m' where "run_ops cfg ops m1 = Some m' \<and> model_wf m'" using Cons by auto
    with m1 show ?case by simp
  qed simp
  then show ?thesis by (simp add: new_model_def model_wf_def)
qed

definition supply_event :: "address \<Rightarrow> int \<Rightarrow> int \<Rightarrow> pool_event" where
  "supply_event account amount block = \<lparr>ev_name = Supply, ev_blockNumber = block, ev_reserve = ''0xWETH'',
     ev_collateralAsset = None, ev_debtAsset = None, ev_user = None, ev_onBehalfOf = Some account, ev_amount = Some amount,
     ev_debtToCover = None, ev_liquidatedCollateralAmount = None, ev_liquidityIndex = None, ev_variableBorrowIndex = None\<rparr>"

theorem model_stays_consistent_witness:
  "\<exists>m. run_ops sample_cfg [OpEvent 0 (supply_event ''0xA'' 5 1), OpMemoryPressure 2] (new_model 0) = Some m \<and> model_wf m"
  by (rule model_stays_consistent) (simp add: op_ok_def event_ok_def supply_event_def get_or_def)

text \<open>Under the hard cap an eviction takes the position with the oldest activity: a position that
  enforcing the cap removes was inactive and healthy, or no position that stays was active earlier.\<close>

theorem hard_cap_evicts_oldest:
  assumes "model_wf m" and "(k, p) \<in> set (pm_positions m)" and "(k, p) \<notin> set (pm_positions (enforceHardCap cfg b m))"
    and "(k', q) \<in> set (pm_positions (enforceHardCap cfg b m))"
  shows "length (pm_positions (enforceHardCap cfg b m)) \<le> mc_hardCap cfg \<and>
    (inactive_healthy cfg b p \<or> up_lastActivityBlock p \<le> up_lastActivityBlock q)"
proof (cases "length (pm_positions m) \<le> mc_hardCap cfg")
  case True
  have "js_wf (pm_positions m)" using assms(1) by (simp add: model_wf_def)
  with True assms(2,3) have "inactive_healthy cfg b p"
    by (auto simp: enforceHardCap_def evictInactive_positions)
  then show ?thesis using enforceHardCap_length [OF assms(1)] by blast
next
  case False
  let ?m1 = "evict_oldest (mc_hardCap cfg) (by_activity m) m"
  have wf1: "js_wf (pm_positions ?m1)"
    using shrinks_wf [OF assms(1) evict_oldest_shrinks] by (simp add: model_wf_def)
  have eq: "pm_positions (enforceHardCap cfg b m) = filter (\<lambda>(k, p). \<not> inactive_healthy cfg b p) (pm_positions ?m1)"
    using False by (simp add: enforceHardCap_def evictInactive_positions [OF wf1])
  have q: "(k', q) \<in> set (pm_positions ?m1)" using assms(4) by (simp add: eq)
  moreover have "(k', q) \<in> set (pm_positions m)"
    using q evict_oldest_shrinks [of m "mc_hardCap cfg" "by_activity m"] by (auto simp: shrinks_def)
  ultimately have "inactive_healthy cfg b p \<or> up_lastActivityBlock p \<le> up_lastActivityBlock q"
    using evict_oldest_order [OF assms(1,2)] assms(3) by (auto simp: eq)
  then show ?thesis using enforceHardCap_length [OF assms(1)] by blast
qed

definition aged :: "address \<Rightarrow> int \<Rightarrow> int \<Rightarrow> user_position" where
  "aged account hf block = borrower\<lparr>up_account := account, up_collateral := [], up_debt := [],
     up_collateralIndexAtUpdate := [], up_debtIndexAtUpdate := [], up_cachedHfWad := hf, up_lastActivityBlock := block\<rparr>"

definition full_model :: position_model where
  "full_model = sample_model\<lparr>pm_positions :=
     [(''a'', aged ''a'' 900000000000000000 1), (''b'', aged ''b'' (2 * WAD) 3), (''c'', aged ''c'' (2 * WAD) 2)]\<rparr>"

lemma full_model_wf: "model_wf full_model"
proof -
  have "to_lower ''a'' = ''a'' \<and> to_lower ''b'' = ''b'' \<and> to_lower ''c'' = ''c''" by code_simp
  then show ?thesis
    by (simp add: model_wf_def full_model_def sample_model_def aged_def entry_ok_def pos_wf_def js_wf_def js_keys_def)
qed

lemma full_model_capped: "js_keys (pm_positions (enforceHardCap sample_cfg 4 full_model)) = [''b'', ''c'']"
  by code_simp

lemma full_model_evicted:
  "(''a'', aged ''a'' 900000000000000000 1) \<notin> set (pm_positions (enforceHardCap sample_cfg 4 full_model))"
  "(''c'', aged ''c'' (2 * WAD) 2) \<in> set (pm_positions (enforceHardCap sample_cfg 4 full_model))"
proof -
  let ?m = "enforceHardCap sample_cfg 4 full_model"
  obtain P where P: "pm_positions ?m = filter P (pm_positions full_model)"
    using enforceHardCap_shrinks [of full_model sample_cfg 4] unfolding shrinks_def by blast
  show "(''a'', aged ''a'' 900000000000000000 1) \<notin> set (pm_positions ?m)"
    using full_model_capped by (auto simp: js_keys_def dest: arg_cong [of _ _ set])
  have "''c'' \<in> fst ` set (pm_positions ?m)"
    using arg_cong [OF full_model_capped, of set] by (simp add: js_keys_def)
  then obtain q where q: "(''c'', q) \<in> set (pm_positions ?m)" by force
  then have "(''c'', q) \<in> set (pm_positions full_model)" unfolding P by simp
  then have "q = aged ''c'' (2 * WAD) 2" by (simp add: full_model_def)
  with q show "(''c'', aged ''c'' (2 * WAD) 2) \<in> set (pm_positions ?m)" by simp
qed

theorem hard_cap_evicts_oldest_witness:
  "length (pm_positions (enforceHardCap sample_cfg 4 full_model)) \<le> mc_hardCap sample_cfg"
  using hard_cap_evicts_oldest [OF full_model_wf _ full_model_evicted] by (simp add: full_model_def)

text \<open>Under memory pressure only positions that are healthy and at 1.5 or more, or inactive and above
  the eviction threshold, are removed: a position to watch, urgent or liquidatable stays unless it
  passes the inactivity test, and the number returned is the number removed.\<close>

theorem memory_pressure_spares_risk:
  assumes "model_wf m" and "evictUnderMemoryPressure cfg b m = (n, m')"
    and "(k, p) \<in> set (pm_positions m)" and "(k, p) \<notin> set (pm_positions m')"
  shows "n = int (length (pm_positions m)) - int (length (pm_positions m')) \<and>
    ((classifyTier cfg (up_cachedHfWad p) = Healthy \<and> 15 * WAD \<le> 10 * up_cachedHfWad p) \<or> inactive_healthy cfg b p)"
proof -
  let ?cap = "mc_hardCap cfg * 3 div 4"
  let ?m1 = "evict_pressure cfg ?cap (by_activity m) m"
  have m': "m' = evictInactiveHealthy cfg b ?m1" and n: "n = int (length (pm_positions m)) - int (length (pm_positions m'))"
    using assms(2) by (auto simp: evictUnderMemoryPressure_def Let_def)
  have wf1: "js_wf (pm_positions ?m1)"
    using shrinks_wf [OF assms(1) evict_pressure_shrinks] by (simp add: model_wf_def)
  show ?thesis
  proof (cases "(k, p) \<in> set (pm_positions ?m1)")
    case True
    then have "inactive_healthy cfg b p" using assms(4) by (auto simp: m' evictInactive_positions [OF wf1])
    with n show ?thesis by simp
  next
    case False
    from evict_pressure_kept [OF assms(3) False] obtain q where q: "q \<in> set (by_activity m)" "k = pos_key q"
      "classifyTier cfg (up_cachedHfWad q) = Healthy" "bdiv (3 * WAD) 2 \<le> up_cachedHfWad q" by auto
    obtain k' where "(k', q) \<in> set (pm_positions m)" using q(1) by (auto simp: by_activity_set js_values_def)
    then have "q = p"
      using pos_key_inj [OF assms(1) _ assms(3)] q(2) assms(1,3) by (auto simp: model_wf_def entry_ok_def)
    with q n show ?thesis by (simp add: bdiv_def WAD_def)
  qed
qed

lemma full_model_pressure:
  "js_keys (pm_positions (snd (evictUnderMemoryPressure sample_cfg 4 full_model))) = [''a'']"
  by code_simp

theorem memory_pressure_spares_risk_witness:
  "classifyTier sample_cfg (2 * WAD) = Healthy \<or> inactive_healthy sample_cfg 4 (aged ''b'' (2 * WAD) 3)"
proof -
  let ?r = "evictUnderMemoryPressure sample_cfg 4 full_model"
  have run: "evictUnderMemoryPressure sample_cfg 4 full_model = (fst ?r, snd ?r)" by simp
  have gone: "(''b'', aged ''b'' (2 * WAD) 3) \<notin> set (pm_positions (snd ?r))"
    using full_model_pressure by (auto simp: js_keys_def dest: arg_cong [of _ _ set])
  have "(''b'', aged ''b'' (2 * WAD) 3) \<in> set (pm_positions full_model)" by (simp add: full_model_def)
  from memory_pressure_spares_risk [OF full_model_wf run this gone] show ?thesis by (auto simp: aged_def)
qed

text \<open>The hard cap, unlike the memory-pressure eviction, does not look at the health factor: it removes
  a liquidatable position and keeps two healthy ones.\<close>

theorem hard_cap_evicts_liquidatable:
  "classifyTier sample_cfg (up_cachedHfWad (aged ''a'' 900000000000000000 1)) = Liquidatable \<and>
   js_get (pm_positions full_model) ''a'' = Some (aged ''a'' 900000000000000000 1) \<and>
   js_keys (pm_positions (enforceHardCap sample_cfg 4 full_model)) = [''b'', ''c'']"
  by (intro conjI) (code_simp | simp add: full_model_def js_get_def)+

definition weth_at :: "int \<Rightarrow> position_model" where
  "weth_at index = sample_model\<lparr>pm_reserveConfig :=
     [(''weth'', (fresh_reserve ''weth'' 8000 None)\<lparr>rs_liquidityIndex := index\<rparr>)]\<rparr>"

definition collateral_now :: "position_model \<Rightarrow> user_position \<Rightarrow> int" where
  "collateral_now m p = scaleCollateralAmount p ''weth'' (get_or 0 (js_get (up_collateral p) ''weth''))
     (the (js_get (pm_reserveConfig m) ''weth''))"

text \<open>A supply after the reserve index has moved loses the interest of the amount supplied before:
  100 units at index 1 are worth 110 at index 1.1, but after one more unit the model counts 101.\<close>

theorem supply_forgets_interest:
  "let p = addCollateral (weth_at WAD) ''weth'' 100 (aged ''a'' WAD 0);
       later = weth_at 1100000000000000000
   in collateral_now later p = 110 \<and> collateral_now later (addCollateral later ''weth'' 1 p) = 101"
  by code_simp

end
