(* ===== verification/Cooldown.thy ===== *)
theory Cooldown
  imports Prelude
begin

text \<open>
  \<open>src/utils/borrowerCooldown.ts\<close> and \<open>src/utils/borrowerCooldownPolicy.ts\<close>: after a failed execution a
  borrower is left alone for a while. The registry keeps, per chain and account, the time until which
  the borrower is blocked and the reason of the last block; an expired entry is dropped by the query
  that meets it. The injected clock is the argument \<open>now\<close> of each operation.

  The locale \<open>borrower_gate\<close> states what the gate and the orchestrator need of such a registry and
  proves once that its answers are those of the history of blocks; it is interpreted on the registry.
\<close>

section \<open>The registry\<close>

definition defaultCooldownMs :: int where
  "defaultCooldownMs = 10 * 60 * 1000"

definition minCooldownMs :: int where
  "minCooldownMs = 5 * 60 * 1000"

definition maxCooldownMs :: int where
  "maxCooldownMs = 15 * 60 * 1000"

record cooldown_registry =
  bc_blockedUntilMs :: "(string, int) jsmap"
  bc_lastReason :: "(string, string) jsmap"
  bc_cooldownMs :: int

definition clampBorrowerCooldownMs :: "int \<Rightarrow> int" where
  "clampBorrowerCooldownMs v = min maxCooldownMs (max minCooldownMs v)"

definition bc_new :: "int option \<Rightarrow> cooldown_registry" where
  "bc_new requested = \<lparr>bc_blockedUntilMs = [], bc_lastReason = [],
     bc_cooldownMs = min maxCooldownMs (max minCooldownMs (case requested of Some c \<Rightarrow> c | None \<Rightarrow> defaultCooldownMs))\<rparr>"

definition borrowerKey :: "string \<Rightarrow> address \<Rightarrow> string" where
  "borrowerKey chain account = chain @ '':'' @ to_lower account"

definition blockBorrower :: "int \<Rightarrow> string \<Rightarrow> address \<Rightarrow> string \<Rightarrow> cooldown_registry \<Rightarrow> cooldown_registry" where
  "blockBorrower now chain account reason r =
     (let key = borrowerKey chain account
      in r\<lparr>bc_blockedUntilMs := js_set key (now + bc_cooldownMs r) (bc_blockedUntilMs r),
           bc_lastReason := js_set key reason (bc_lastReason r)\<rparr>)"

definition isBorrowerBlocked :: "int \<Rightarrow> string \<Rightarrow> address \<Rightarrow> cooldown_registry \<Rightarrow> bool \<times> cooldown_registry" where
  "isBorrowerBlocked now chain account r =
     (let key = borrowerKey chain account
      in case js_get (bc_blockedUntilMs r) key of
           None \<Rightarrow> (False, r)
         | Some until_ms \<Rightarrow>
             (if until_ms \<le> now
              then (False, r\<lparr>bc_blockedUntilMs := js_delete key (bc_blockedUntilMs r),
                             bc_lastReason := js_delete key (bc_lastReason r)\<rparr>)
              else (True, r)))"

definition remainingMs :: "int \<Rightarrow> string \<Rightarrow> address \<Rightarrow> cooldown_registry \<Rightarrow> int" where
  "remainingMs now chain account r =
     (case js_get (bc_blockedUntilMs r) (borrowerKey chain account) of
        None \<Rightarrow> 0
      | Some until_ms \<Rightarrow> max 0 (until_ms - now))"

text \<open>The loop over the entries deletes each expired one from both maps.\<close>

definition prune_entry :: "int \<Rightarrow> string \<times> int \<Rightarrow> cooldown_registry \<Rightarrow> cooldown_registry" where
  "prune_entry now e r =
     (if snd e \<le> now
      then r\<lparr>bc_blockedUntilMs := js_delete (fst e) (bc_blockedUntilMs r), bc_lastReason := js_delete (fst e) (bc_lastReason r)\<rparr>
      else r)"

definition pruneExpired :: "int \<Rightarrow> cooldown_registry \<Rightarrow> cooldown_registry" where
  "pruneExpired now r = fold (prune_entry now) (bc_blockedUntilMs r) r"

definition blockedCount :: "int \<Rightarrow> cooldown_registry \<Rightarrow> nat \<times> cooldown_registry" where
  "blockedCount now r = (let r1 = pruneExpired now r in (length (bc_blockedUntilMs r1), r1))"

definition lastBlockReason :: "string \<Rightarrow> address \<Rightarrow> cooldown_registry \<Rightarrow> string option" where
  "lastBlockReason chain account r = js_get (bc_lastReason r) (borrowerKey chain account)"

definition cooldownEligibleDeadLetterReasons :: "string list" where
  "cooldownEligibleDeadLetterReasons =
     [''final_simulation_failed'', ''receipt_reverted'', ''executor_exception'', ''send_failed'']"

definition shouldApplyBorrowerCooldown :: "string \<Rightarrow> bool" where
  "shouldApplyBorrowerCooldown reason = (reason \<in> set cooldownEligibleDeadLetterReasons)"

section \<open>Invariant\<close>

text \<open>A reason is kept exactly for the borrowers with an entry, and no key is stored twice.\<close>

definition bc_inv :: "cooldown_registry \<Rightarrow> bool" where
  "bc_inv r \<longleftrightarrow> js_wf (bc_blockedUntilMs r) \<and> js_wf (bc_lastReason r) \<and>
     (\<forall>k. js_get (bc_lastReason r) k = None \<longleftrightarrow> js_get (bc_blockedUntilMs r) k = None) \<and>
     minCooldownMs \<le> bc_cooldownMs r \<and> bc_cooldownMs r \<le> maxCooldownMs"

lemma bc_inv_new [wf_intros]: "bc_inv (bc_new requested)"
  by (simp add: bc_inv_def bc_new_def minCooldownMs_def maxCooldownMs_def)

lemma bc_inv_block [wf_intros]: "bc_inv r \<Longrightarrow> bc_inv (blockBorrower now chain account reason r)"
  by (simp add: bc_inv_def blockBorrower_def Let_def)

lemma bc_inv_query [wf_intros]: "bc_inv r \<Longrightarrow> bc_inv (snd (isBorrowerBlocked now chain account r))"
  by (simp add: bc_inv_def isBorrowerBlocked_def Let_def split: option.splits)

lemma bc_inv_prune [wf_intros]:
  assumes "bc_inv r"
  shows "bc_inv (pruneExpired now r)"
proof -
  have "bc_inv r' \<Longrightarrow> bc_inv (fold (prune_entry now) es r')" for es r'
    by (induction es arbitrary: r') (simp_all add: bc_inv_def prune_entry_def)
  with assms show ?thesis by (simp add: pruneExpired_def)
qed

text \<open>What pruning leaves: the entries that have not expired.\<close>

lemma prune_fold_get:
  "js_get (bc_blockedUntilMs (fold (prune_entry now) es r)) k =
     (if \<exists>v. (k, v) \<in> set es \<and> v \<le> now then None else js_get (bc_blockedUntilMs r) k)"
  by (induction es arbitrary: r) (auto simp: prune_entry_def)

lemma prune_get:
  assumes "bc_inv r"
  shows "js_get (bc_blockedUntilMs (pruneExpired now r)) k =
    (case js_get (bc_blockedUntilMs r) k of None \<Rightarrow> None | Some u \<Rightarrow> if u \<le> now then None else Some u)"
proof -
  have "js_wf (bc_blockedUntilMs r)" using assms by (simp add: bc_inv_def)
  then show ?thesis
    by (auto simp: pruneExpired_def prune_fold_get js_get_iff [symmetric] split: option.splits)
qed

lemma cooldown_frame [simp]:
  "bc_cooldownMs (blockBorrower now chain account reason r) = bc_cooldownMs r"
  "bc_cooldownMs (snd (isBorrowerBlocked now chain account r)) = bc_cooldownMs r"
  "bc_cooldownMs (pruneExpired now r) = bc_cooldownMs r"
proof -
  show "bc_cooldownMs (blockBorrower now chain account reason r) = bc_cooldownMs r"
    by (simp add: blockBorrower_def Let_def)
  show "bc_cooldownMs (snd (isBorrowerBlocked now chain account r)) = bc_cooldownMs r"
    by (simp add: isBorrowerBlocked_def Let_def split: option.splits)
  have "bc_cooldownMs (fold (prune_entry now) es r') = bc_cooldownMs r'" for es r'
    by (induction es arbitrary: r') (simp_all add: prune_entry_def)
  then show "bc_cooldownMs (pruneExpired now r) = bc_cooldownMs r" by (simp add: pruneExpired_def)
qed

section \<open>The interface\<close>

text \<open>
  An answer \<open>blocked s now b\<close>, and three operations: \<open>block\<close> starts the period for one borrower,
  \<open>query\<close> and \<open>count\<close> may forget expired entries. Their laws: a block is answered for exactly the period,
  the borrowers with other keys are untouched, and forgetting at one time is not visible at any later
  time.
\<close>

datatype 'b gate_event = GateBlock int 'b string | GateQuery int 'b | GateCount int

fun gate_time :: "'b gate_event \<Rightarrow> int" where
  "gate_time (GateBlock now b reason) = now"
| "gate_time (GateQuery now b) = now"
| "gate_time (GateCount now) = now"

fun gate_run ::
  "(int \<Rightarrow> 'b \<Rightarrow> string \<Rightarrow> 's \<Rightarrow> 's) \<Rightarrow> (int \<Rightarrow> 'b \<Rightarrow> 's \<Rightarrow> 's) \<Rightarrow> (int \<Rightarrow> 's \<Rightarrow> 's) \<Rightarrow> 'b gate_event list \<Rightarrow> 's \<Rightarrow> 's" where
  "gate_run block query count [] s = s"
| "gate_run block query count (GateBlock now b reason # es) s = gate_run block query count es (block now b reason s)"
| "gate_run block query count (GateQuery now b # es) s = gate_run block query count es (query now b s)"
| "gate_run block query count (GateCount now # es) s = gate_run block query count es (count now s)"

text \<open>The abstract specification: the time of the last block of a borrower in a history.\<close>

fun last_block :: "('b \<Rightarrow> 'k) \<Rightarrow> 'b \<Rightarrow> 'b gate_event list \<Rightarrow> int option \<Rightarrow> int option" where
  "last_block key b [] acc = acc"
| "last_block key b (GateBlock now b' reason # es) acc = last_block key b es (if key b' = key b then Some now else acc)"
| "last_block key b (e # es) acc = last_block key b es acc"

definition in_period :: "int \<Rightarrow> int \<Rightarrow> int option \<Rightarrow> bool" where
  "in_period period t since = (case since of None \<Rightarrow> False | Some u \<Rightarrow> t < u + period)"

locale borrower_gate =
  fixes good :: "'s \<Rightarrow> bool"
    and period :: "'s \<Rightarrow> int"
    and key :: "'b \<Rightarrow> 'k"
    and blocked :: "int \<Rightarrow> 'b \<Rightarrow> 's \<Rightarrow> bool"
    and block :: "int \<Rightarrow> 'b \<Rightarrow> string \<Rightarrow> 's \<Rightarrow> 's"
    and query :: "int \<Rightarrow> 'b \<Rightarrow> 's \<Rightarrow> 's"
    and count :: "int \<Rightarrow> 's \<Rightarrow> 's"
  assumes good_block: "good s \<Longrightarrow> good (block now b reason s)"
    and good_query: "good s \<Longrightarrow> good (query now b s)"
    and good_count: "good s \<Longrightarrow> good (count now s)"
    and period_block: "period (block now b reason s) = period s"
    and period_query: "period (query now b s) = period s"
    and period_count: "period (count now s) = period s"
    and blocked_block: "good s \<Longrightarrow>
      blocked t b' (block now b reason s) = (if key b = key b' then t < now + period s else blocked t b' s)"
    and blocked_query: "good s \<Longrightarrow> now \<le> t \<Longrightarrow> blocked t b' (query now b s) = blocked t b' s"
    and blocked_count: "good s \<Longrightarrow> now \<le> t \<Longrightarrow> blocked t b' (count now s) = blocked t b' s"
begin

lemma good_run: "good s \<Longrightarrow> good (gate_run block query count es s)"
proof (induction es arbitrary: s)
  case (Cons e es)
  then show ?case by (cases e) (simp_all add: good_block good_query good_count)
qed simp

lemma period_run: "period (gate_run block query count es s) = period s"
proof (induction es arbitrary: s)
  case (Cons e es)
  then show ?case by (cases e) (simp_all add: period_block period_query period_count)
qed simp

text \<open>The answers after any history are those of the last block in it.\<close>

lemma blocked_run:
  assumes "good s" "\<forall>e \<in> set es. gate_time e \<le> t" "blocked t b s = in_period (period s) t acc"
  shows "blocked t b (gate_run block query count es s) = in_period (period s) t (last_block key b es acc)"
  using assms
proof (induction es arbitrary: s acc)
  case (Cons e es)
  show ?case
  proof (cases e)
    case (GateBlock now b' reason)
    have "blocked t b (gate_run block query count es (block now b' reason s)) =
        in_period (period (block now b' reason s)) t (last_block key b es (if key b' = key b then Some now else acc))"
      using Cons.prems by (intro Cons.IH) (simp_all add: good_block blocked_block period_block in_period_def)
    then show ?thesis by (simp add: GateBlock period_block)
  next
    case (GateQuery now b')
    have "blocked t b (gate_run block query count es (query now b' s)) =
        in_period (period (query now b' s)) t (last_block key b es acc)"
      using Cons.prems by (intro Cons.IH) (simp_all add: GateQuery good_query blocked_query period_query)
    then show ?thesis by (simp add: GateQuery period_query)
  next
    case (GateCount now)
    have "blocked t b (gate_run block query count es (count now s)) =
        in_period (period (count now s)) t (last_block key b es acc)"
      using Cons.prems by (intro Cons.IH) (simp_all add: GateCount good_count blocked_count period_count)
    then show ?thesis by (simp add: GateCount period_count)
  qed
qed simp

end

section \<open>The registry implements the interface\<close>

type_synonym borrower = "string \<times> address"

definition bc_key :: "borrower \<Rightarrow> string" where
  "bc_key b = borrowerKey (fst b) (snd b)"

definition bc_blocked :: "int \<Rightarrow> borrower \<Rightarrow> cooldown_registry \<Rightarrow> bool" where
  "bc_blocked now b r = fst (isBorrowerBlocked now (fst b) (snd b) r)"

definition bc_block :: "int \<Rightarrow> borrower \<Rightarrow> string \<Rightarrow> cooldown_registry \<Rightarrow> cooldown_registry" where
  "bc_block now b reason r = blockBorrower now (fst b) (snd b) reason r"

definition bc_query :: "int \<Rightarrow> borrower \<Rightarrow> cooldown_registry \<Rightarrow> cooldown_registry" where
  "bc_query now b r = snd (isBorrowerBlocked now (fst b) (snd b) r)"

lemma bc_blocked_eq:
  "bc_blocked now b r = (case js_get (bc_blockedUntilMs r) (bc_key b) of None \<Rightarrow> False | Some u \<Rightarrow> now < u)"
  by (auto simp: bc_blocked_def bc_key_def isBorrowerBlocked_def Let_def split: option.splits)

lemma query_get:
  "js_get (bc_blockedUntilMs (snd (isBorrowerBlocked now chain account r))) k =
     (case js_get (bc_blockedUntilMs r) k of
        None \<Rightarrow> None | Some u \<Rightarrow> if k = borrowerKey chain account \<and> u \<le> now then None else Some u)"
  by (auto simp: isBorrowerBlocked_def Let_def split: option.splits)

interpretation cooldowns: borrower_gate bc_inv bc_cooldownMs bc_key bc_blocked bc_block bc_query pruneExpired
proof unfold_locales
  fix r now t and b b' :: borrower and reason
  assume inv: "bc_inv r"
  show "bc_blocked t b' (bc_block now b reason r) = (if bc_key b = bc_key b' then t < now + bc_cooldownMs r else bc_blocked t b' r)"
    by (auto simp: bc_blocked_eq bc_block_def bc_key_def blockBorrower_def Let_def)
  assume "now \<le> t"
  then show "bc_blocked t b' (bc_query now b r) = bc_blocked t b' r" "bc_blocked t b' (pruneExpired now r) = bc_blocked t b' r"
    by (auto simp: bc_blocked_eq bc_query_def query_get prune_get [OF inv] split: option.splits)
qed (simp_all add: bc_block_def bc_query_def wf_intros)

text \<open>A borrower is refused exactly during the period after its last block: after any history of
  blocks, queries and counts, at any time not before them, the registry answers \<open>blocked\<close> just when
  the last block of that chain and account (in any letter case) is less than the period ago; and the
  period of a registry, whatever was requested, is between five and fifteen minutes.\<close>

theorem cooldown_is_last_block:
  assumes "\<forall>e \<in> set es. gate_time e \<le> t"
    and r: "r = gate_run bc_block bc_query pruneExpired es (bc_new requested)"
  shows "(fst (isBorrowerBlocked t chain account r) \<longleftrightarrow>
      in_period (bc_cooldownMs r) t (last_block (\<lambda>(c, a). borrowerKey c a) (chain, account) es None)) \<and>
    300000 \<le> bc_cooldownMs r \<and> bc_cooldownMs r \<le> 900000"
proof -
  have inv: "bc_inv (bc_new requested)" by (rule bc_inv_new)
  have start: "bc_blocked t (chain, account) (bc_new requested) = in_period (bc_cooldownMs (bc_new requested)) t None"
    by (simp add: bc_blocked_eq bc_new_def in_period_def)
  have key: "bc_key = (\<lambda>(c, a). borrowerKey c a)" by (auto simp: bc_key_def)
  have "bc_blocked t (chain, account) r = in_period (bc_cooldownMs r) t (last_block bc_key (chain, account) es None)"
    using cooldowns.blocked_run [OF inv assms(1) start] by (simp add: r cooldowns.period_run)
  moreover have "bc_inv r" unfolding r using inv by (rule cooldowns.good_run)
  ultimately show ?thesis
    by (simp add: bc_blocked_def key bc_inv_def minCooldownMs_def maxCooldownMs_def)
qed

text \<open>A borrower blocked at 1000 by a registry asked for one minute: still blocked at 300999 although
  another account was queried and the entries counted, free at 301000.\<close>

definition sample_history :: "borrower gate_event list" where
  "sample_history = [GateBlock 1000 (''base'', ''0xAb'') ''send_failed'', GateQuery 2000 (''base'', ''0xcd''), GateCount 3000]"

definition sample_registry :: cooldown_registry where
  "sample_registry = gate_run bc_block bc_query pruneExpired sample_history (bc_new (Some 60000))"

theorem cooldown_is_last_block_witness:
  "fst (isBorrowerBlocked 300999 ''base'' ''0xaB'' sample_registry) \<and>
   \<not> fst (isBorrowerBlocked 301000 ''base'' ''0xaB'' sample_registry)"
proof -
  have "\<forall>e \<in> set sample_history. gate_time e \<le> 300999" "\<forall>e \<in> set sample_history. gate_time e \<le> 301000"
    by (simp_all add: sample_history_def)
  note rule = this [THEN cooldown_is_last_block [where requested = "Some 60000" and chain = "''base''" and account = "''0xaB''"],
      folded sample_registry_def, OF refl, THEN conjunct1]
  have "in_period (bc_cooldownMs sample_registry) 300999 (last_block (\<lambda>(c, a). borrowerKey c a) (''base'', ''0xaB'') sample_history None)"
    "\<not> in_period (bc_cooldownMs sample_registry) 301000 (last_block (\<lambda>(c, a). borrowerKey c a) (''base'', ''0xaB'') sample_history None)"
    by code_simp+
  then show ?thesis using rule by blast
qed

end
