(* ===== verification/Borrower_Cache.thy ===== *)
theory Borrower_Cache
  imports Complex_Main Asset_Math Bounded_Buffers "HOL-Library.Multiset"
begin

text \<open>
  \<open>src/monitors/reserveAwareBorrowerCache.ts\<close>: the borrowers seen with their reserves, an index from a
  reserve to the accounts that hold it, and a count per chain; \<open>createReserveAwareCandidates\<close>, which
  turns the unhealthy borrowers into liquidation candidates (\<open>LiquidationCandidate\<close> of
  \<open>src/protocols/aaveV3.ts\<close>); and the snapshot that \<open>src/orchestrator/pipelineDetectionAdapter.ts\<close>
  builds back from a candidate.

  \<open>Date.now()\<close> is the argument \<open>now\<close>. A \<open>Number\<close> holding an amount in dollars is a rational: the
  rounding of doubles is not modelled.
\<close>

section \<open>Data\<close>

record liquidation_candidate =
  lc_account :: address
  lc_collateralAsset :: address
  lc_debtAsset :: address
  lc_debtToCover :: int
  lc_repayValueUsd :: rat
  lc_liquidationBonusBps :: int
  lc_effectiveLiquidationBonusBps :: "int option"
  lc_closeFactorBps :: "int option"
  lc_collateralReceivedWei :: "int option"
  lc_bonusPercentage :: "rat option"
  lc_gasEstimate :: "int option"
  lc_gasPrice :: "int option"
  lc_healthFactor :: int

record borrower_reserve =
  br_assetAddress :: address
  br_asset :: asset
  br_collateralBalance :: asset_amount
  br_variableDebt :: asset_amount
  br_stableDebt :: asset_amount
  br_priceInQuote :: asset_amount
  br_usageAsCollateralEnabled :: bool
  br_liquidationBonusBps :: int

datatype lending_protocol = Aave | Moonwell | Morpho

record borrower_snapshot =
  bs_chain :: string
  bs_account :: address
  bs_protocol :: "lending_protocol option"
  bs_healthFactor :: int
  bs_reserves :: "borrower_reserve list"
  bs_updatedAtMs :: int

record borrower_cache =
  ca_snapshots :: "(string, borrower_snapshot) jsmap"
  ca_reserveToAccounts :: "(string, address list) jsmap"
  ca_chainCounts :: "(string, int) jsmap"
  ca_maxEntries :: nat
  ca_ttlMs :: int

section \<open>The cache\<close>

definition ca_new :: "nat option \<Rightarrow> int option \<Rightarrow> borrower_cache" where
  "ca_new maxEntries ttlMs = \<lparr>ca_snapshots = [], ca_reserveToAccounts = [], ca_chainCounts = [],
     ca_maxEntries = (case maxEntries of Some n \<Rightarrow> n | None \<Rightarrow> 50000),
     ca_ttlMs = (case ttlMs of Some t \<Rightarrow> t | None \<Rightarrow> 30 * 60000)\<rparr>"

definition snapshotKey :: "string \<Rightarrow> address \<Rightarrow> string" where
  "snapshotKey chain account = chain @ '':'' @ to_lower account"

definition reserveKey :: "string \<Rightarrow> address \<Rightarrow> string" where
  "reserveKey chain reserve = chain @ '':'' @ to_lower reserve"

definition attach_one :: "address \<Rightarrow> string \<Rightarrow> (string, address list) jsmap \<Rightarrow> (string, address list) jsmap" where
  "attach_one account key index =
     js_set key (js_add account (case js_get index key of Some accounts \<Rightarrow> accounts | None \<Rightarrow> [])) index"

definition detach_one :: "address \<Rightarrow> string \<Rightarrow> (string, address list) jsmap \<Rightarrow> (string, address list) jsmap" where
  "detach_one account key index =
     (case js_get index key of
        None \<Rightarrow> index
      | Some accounts \<Rightarrow>
          (let rest = js_remove account accounts
           in if rest = [] then js_delete key index else js_set key rest index))"

definition snapshot_keys :: "borrower_snapshot \<Rightarrow> string list" where
  "snapshot_keys s = map (\<lambda>r. reserveKey (bs_chain s) (br_assetAddress r)) (bs_reserves s)"

definition attachReserveIndex :: "borrower_snapshot \<Rightarrow> borrower_cache \<Rightarrow> borrower_cache" where
  "attachReserveIndex s c = c\<lparr>ca_reserveToAccounts := fold (attach_one (bs_account s)) (snapshot_keys s) (ca_reserveToAccounts c)\<rparr>"

definition detachReserveIndex :: "borrower_snapshot \<Rightarrow> borrower_cache \<Rightarrow> borrower_cache" where
  "detachReserveIndex s c = c\<lparr>ca_reserveToAccounts := fold (detach_one (bs_account s)) (snapshot_keys s) (ca_reserveToAccounts c)\<rparr>"

definition chain_count :: "int \<Rightarrow> string \<Rightarrow> borrower_cache \<Rightarrow> int" where
  "chain_count absent chain c = (case js_get (ca_chainCounts c) chain of Some n \<Rightarrow> n | None \<Rightarrow> absent)"

definition deleteSnapshot :: "string \<Rightarrow> borrower_snapshot \<Rightarrow> borrower_cache \<Rightarrow> borrower_cache" where
  "deleteSnapshot key s c =
     (let c1 = detachReserveIndex s (c\<lparr>ca_snapshots := js_delete key (ca_snapshots c)\<rparr>);
          left = chain_count 1 (bs_chain s) c1 - 1
      in c1\<lparr>ca_chainCounts :=
           (if left \<le> 0 then js_delete (bs_chain s) (ca_chainCounts c1)
            else js_set (bs_chain s) left (ca_chainCounts c1))\<rparr>)"

text \<open>Only timestamps of this millennium's clock take part in the expiry.\<close>

definition ttlEligibleFloorMs :: int where
  "ttlEligibleFloorMs = 1500000000000"

definition expired :: "int \<Rightarrow> int \<Rightarrow> borrower_snapshot \<Rightarrow> bool" where
  "expired ttlMs now s \<longleftrightarrow> ttlEligibleFloorMs \<le> bs_updatedAtMs s \<and> ttlMs < now - bs_updatedAtMs s"

definition expire_entry :: "int \<Rightarrow> string \<times> borrower_snapshot \<Rightarrow> borrower_cache \<Rightarrow> borrower_cache" where
  "expire_entry now e c = (if expired (ca_ttlMs c) now (snd e) then deleteSnapshot (fst e) (snd e) c else c)"

lemma deleteSnapshot_snapshots [simp]: "ca_snapshots (deleteSnapshot key s c) = js_delete key (ca_snapshots c)"
  by (simp add: deleteSnapshot_def detachReserveIndex_def Let_def)

lemma deleteSnapshot_config [simp]:
  "ca_maxEntries (deleteSnapshot key s c) = ca_maxEntries c" "ca_ttlMs (deleteSnapshot key s c) = ca_ttlMs c"
  by (simp_all add: deleteSnapshot_def detachReserveIndex_def Let_def)

text \<open>The loop that deletes the first entry while there are too many.\<close>

function shrink :: "borrower_cache \<Rightarrow> borrower_cache" where
  "shrink c =
     (if ca_maxEntries c < length (ca_snapshots c)
      then (case ca_snapshots c of [] \<Rightarrow> c | (key, s) # _ \<Rightarrow> shrink (deleteSnapshot key s c))
      else c)"
  by pat_completeness auto

termination
proof (relation "measure (\<lambda>c. length (ca_snapshots c))")
  fix c :: borrower_cache and e es key s
  assume "ca_snapshots c = e # es" "(key, s) = e"
  then have "length (js_delete key (ca_snapshots c)) \<le> length es" by (auto simp: js_delete_def)
  with \<open>ca_snapshots c = e # es\<close> show "(deleteSnapshot key s c, c) \<in> measure (\<lambda>c. length (ca_snapshots c))" by simp
qed simp

declare shrink.simps [simp del]

definition prune :: "int \<Rightarrow> borrower_cache \<Rightarrow> borrower_cache" where
  "prune now c = shrink (fold (expire_entry now) (ca_snapshots c) c)"

definition upsert :: "int \<Rightarrow> borrower_snapshot \<Rightarrow> borrower_cache \<Rightarrow> borrower_cache" where
  "upsert now s c =
     (let key = snapshotKey (bs_chain s) (bs_account s);
          c1 = (case js_get (ca_snapshots c) key of
                  Some previous \<Rightarrow> detachReserveIndex previous c
                | None \<Rightarrow> c\<lparr>ca_chainCounts := js_set (bs_chain s) (chain_count 0 (bs_chain s) c + 1) (ca_chainCounts c)\<rparr>);
          c2 = c1\<lparr>ca_snapshots := js_set key s (ca_snapshots c1)\<rparr>
      in prune now (attachReserveIndex s c2))"

definition cache_size :: "string \<Rightarrow> borrower_cache \<Rightarrow> int" where
  "cache_size chain c = chain_count 0 chain c"

definition cache_get :: "string \<Rightarrow> address \<Rightarrow> borrower_cache \<Rightarrow> borrower_snapshot option" where
  "cache_get chain account c = js_get (ca_snapshots c) (snapshotKey chain account)"

definition listSnapshots :: "int \<Rightarrow> string \<Rightarrow> borrower_cache \<Rightarrow> borrower_snapshot list \<times> borrower_cache" where
  "listSnapshots now chain c =
     (let c1 = prune now c in (filter (\<lambda>s. bs_chain s = chain) (js_values (ca_snapshots c1)), c1))"

definition listAccounts :: "int \<Rightarrow> string \<Rightarrow> borrower_cache \<Rightarrow> address list \<times> borrower_cache" where
  "listAccounts now chain c = (let (snapshots, c1) = listSnapshots now chain c in (map bs_account snapshots, c1))"

definition listAccountsForReserve :: "int \<Rightarrow> string \<Rightarrow> address \<Rightarrow> borrower_cache \<Rightarrow> address list \<times> borrower_cache" where
  "listAccountsForReserve now chain reserve c =
     (let c1 = prune now c
      in (case js_get (ca_reserveToAccounts c1) (reserveKey chain reserve) of None \<Rightarrow> [] | Some accounts \<Rightarrow> accounts, c1))"

section \<open>Candidates\<close>

definition liquidationHealthFactor :: int where
  "liquidationHealthFactor = 1000000000000000000"

definition totalDebt :: "borrower_reserve \<Rightarrow> exn + asset_amount" where
  "totalDebt r = createAssetAmount (br_asset r) (am_raw (br_variableDebt r) + am_raw (br_stableDebt r))"

definition quoteReserveCollateral :: "borrower_reserve \<Rightarrow> exn + asset_amount" where
  "quoteReserveCollateral r = convertToQuote (br_collateralBalance r) (br_priceInQuote r)"

definition toDecimalNumber :: "asset_amount \<Rightarrow> rat" where
  "toDecimalNumber a = of_int (am_raw a) / 10 ^ nat (as_decimals (am_asset a))"

text \<open>A \<open>map\<close> whose function may throw.\<close>

fun traverse :: "('a \<Rightarrow> exn + 'b) \<Rightarrow> 'a list \<Rightarrow> exn + 'b list" where
  "traverse f [] = Inr []"
| "traverse f (x # xs) =
     (case f x of
        Inl e \<Rightarrow> Inl e
      | Inr y \<Rightarrow> (case traverse f xs of Inl e \<Rightarrow> Inl e | Inr ys \<Rightarrow> Inr (y # ys)))"

definition quote_raw :: "borrower_reserve \<Rightarrow> int" where
  "quote_raw r = (case quoteReserveCollateral r of Inl _ \<Rightarrow> 0 | Inr q \<Rightarrow> am_raw q)"

text \<open>
  The head of the collaterals in descending order of value. The comparator, and with it the
  conversion that may throw, runs only when there are two collaterals to compare.
\<close>

definition bestCollateral :: "borrower_reserve list \<Rightarrow> exn + borrower_reserve option" where
  "bestCollateral collaterals =
     (case collaterals of
        [] \<Rightarrow> Inr None
      | [r] \<Rightarrow> Inr (Some r)
      | _ \<Rightarrow>
          (case traverse quoteReserveCollateral collaterals of
             Inl e \<Rightarrow> Inl e
           | Inr _ \<Rightarrow> Inr (Some (hd (sort_key (\<lambda>r. - quote_raw r) collaterals)))))"

definition toCandidate :: "borrower_snapshot \<Rightarrow> borrower_reserve \<Rightarrow> borrower_reserve \<Rightarrow> exn + liquidation_candidate" where
  "toCandidate s best r =
     (case totalDebt r of
        Inl e \<Rightarrow> Inl e
      | Inr debt \<Rightarrow>
          (case convertToQuote debt (br_priceInQuote r) of
             Inl e \<Rightarrow> Inl e
           | Inr quote \<Rightarrow>
               Inr \<lparr>lc_account = bs_account s, lc_collateralAsset = br_assetAddress best,
                    lc_debtAsset = br_assetAddress r, lc_debtToCover = am_raw debt,
                    lc_repayValueUsd = toDecimalNumber quote,
                    lc_liquidationBonusBps = br_liquidationBonusBps best,
                    lc_effectiveLiquidationBonusBps = None, lc_closeFactorBps = None,
                    lc_collateralReceivedWei = None, lc_bonusPercentage = None,
                    lc_gasEstimate = None, lc_gasPrice = None, lc_healthFactor = bs_healthFactor s\<rparr>))"

definition collaterals_of :: "borrower_snapshot \<Rightarrow> borrower_reserve list" where
  "collaterals_of s = filter (\<lambda>r. br_usageAsCollateralEnabled r \<and> 0 < am_raw (br_collateralBalance r)) (bs_reserves s)"

definition debt_raw :: "borrower_reserve \<Rightarrow> int" where
  "debt_raw r = am_raw (br_variableDebt r) + am_raw (br_stableDebt r)"

definition toCandidates :: "borrower_snapshot \<Rightarrow> exn + liquidation_candidate list" where
  "toCandidates s =
     (if liquidationHealthFactor \<le> bs_healthFactor s then Inr []
      else case traverse totalDebt (bs_reserves s) of
             Inl e \<Rightarrow> Inl e
           | Inr _ \<Rightarrow>
               (case bestCollateral (collaterals_of s) of
                  Inl e \<Rightarrow> Inl e
                | Inr None \<Rightarrow> Inr []
                | Inr (Some best) \<Rightarrow> traverse (toCandidate s best) (filter (\<lambda>r. 0 < debt_raw r) (bs_reserves s))))"

definition createReserveAwareCandidates ::
  "int \<Rightarrow> string \<Rightarrow> borrower_cache \<Rightarrow> (exn + liquidation_candidate list) \<times> borrower_cache" where
  "createReserveAwareCandidates now chain c =
     (let (snapshots, c1) = listSnapshots now chain c
      in (map_sum id concat (traverse toCandidates snapshots), c1))"

section \<open>The snapshot kept by the detection adapter\<close>

definition usd_asset :: asset where
  "usd_asset = \<lparr>as_symbol = ''USD'', as_decimals = 8\<rparr>"

definition weth_asset :: asset where
  "weth_asset = \<lparr>as_symbol = ''WETH'', as_decimals = 18\<rparr>"

definition usdc_asset :: asset where
  "usdc_asset = \<lparr>as_symbol = ''USDC'', as_decimals = 6\<rparr>"

definition amount :: "asset \<Rightarrow> int \<Rightarrow> asset_amount" where
  "amount a raw = \<lparr>am_asset = a, am_raw = raw\<rparr>"

text \<open>The constant amounts are valid; the two that depend on the candidate may be refused.\<close>

definition toSnapshot :: "int \<Rightarrow> string \<Rightarrow> liquidation_candidate \<Rightarrow> exn + borrower_snapshot" where
  "toSnapshot now chain c =
     (let debtRaw = lc_debtToCover c;
          collateralRaw = debtRaw + bdiv (debtRaw * lc_liquidationBonusBps c) 10000
      in case createAssetAmount weth_asset collateralRaw of
           Inl e \<Rightarrow> Inl e
         | Inr collateral \<Rightarrow>
             (case createAssetAmount usdc_asset debtRaw of
                Inl e \<Rightarrow> Inl e
              | Inr debt \<Rightarrow>
                  Inr \<lparr>bs_chain = chain, bs_account = lc_account c, bs_protocol = Some Aave,
                    bs_healthFactor = lc_healthFactor c,
                    bs_reserves =
                      [\<lparr>br_assetAddress = lc_collateralAsset c, br_asset = weth_asset, br_collateralBalance = collateral,
                        br_variableDebt = amount weth_asset 0, br_stableDebt = amount weth_asset 0,
                        br_priceInQuote = amount usd_asset 300000000000, br_usageAsCollateralEnabled = True,
                        br_liquidationBonusBps = lc_liquidationBonusBps c\<rparr>,
                       \<lparr>br_assetAddress = lc_debtAsset c, br_asset = usdc_asset, br_collateralBalance = amount usdc_asset 0,
                        br_variableDebt = debt, br_stableDebt = amount usdc_asset 0,
                        br_priceInQuote = amount usd_asset 100000000, br_usageAsCollateralEnabled = False,
                        br_liquidationBonusBps = 0\<rparr>],
                    bs_updatedAtMs = now\<rparr>))"

text \<open>The loop over the candidates of a scan.\<close>

fun refreshCandidates :: "int \<Rightarrow> string \<Rightarrow> liquidation_candidate list \<Rightarrow> borrower_cache \<Rightarrow> (exn + unit) \<times> borrower_cache" where
  "refreshCandidates now chain [] c = (Inr (), c)"
| "refreshCandidates now chain (x # xs) c =
     (case toSnapshot now chain x of
        Inl e \<Rightarrow> (Inl e, c)
      | Inr s \<Rightarrow> refreshCandidates now chain xs (upsert now s c))"

section \<open>Maps as multisets of entries\<close>

lemma mset_js_delete:
  assumes "js_wf m" "(k, v) \<in> set m"
  shows "mset m = add_mset (k, v) (mset (js_delete k m))"
  using assms
proof (induction m)
  case (Cons e m)
  show ?case
  proof (cases "fst e = k")
    case True
    with Cons.prems have "e = (k, v)" by (cases e) (force simp: js_wf_def)
    moreover have "js_get m k = None"
      using Cons.prems True by (simp add: js_wf_def js_get_None_iff js_keys_def)
    ultimately show ?thesis using js_delete_absent [of m k] by (simp add: js_delete_def)
  next
    case False
    with Cons show ?thesis by (auto simp: js_wf_def js_delete_def)
  qed
qed simp

lemma mset_js_set:
  assumes "js_wf m"
  shows "mset (js_set k v m) = add_mset (k, v) (mset (js_delete k m))"
proof -
  have "js_delete k (js_set k v m) = js_delete k m"
    unfolding js_delete_def js_set_def by (induction m) auto
  moreover have "(k, v) \<in> set (js_set k v m)" by (rule js_get_SomeD) simp
  ultimately show ?thesis using mset_js_delete [of "js_set k v m" k v] assms by simp
qed

lemma set_js_set: "js_wf m \<Longrightarrow> set (js_set k v m) = insert (k, v) (set (js_delete k m))"
  using mset_js_set [of m k v] by (metis set_mset_add_mset_insert set_mset_mset)

lemma count_js_set:
  "js_wf m \<Longrightarrow> length (filter P (js_set k v m)) = length (filter P (js_delete k m)) + (if P (k, v) then 1 else 0)"
  using arg_cong [OF mset_js_set, of m "\<lambda>M. size (filter_mset P M)" k v] by (auto simp flip: mset_filter)

lemma count_js_delete:
  "js_wf m \<Longrightarrow> (k, v) \<in> set m \<Longrightarrow> length (filter P m) = length (filter P (js_delete k m)) + (if P (k, v) then 1 else 0)"
  using arg_cong [OF mset_js_delete, of m k v "\<lambda>M. size (filter_mset P M)"] by (auto simp flip: mset_filter)

section \<open>Keys\<close>

text \<open>A chain name holds no colon, so a key determines its chain and its address up to case.\<close>

definition chain_ok :: "string \<Rightarrow> bool" where
  "chain_ok chain \<longleftrightarrow> CHR '':'' \<notin> set chain"

lemma colon_split:
  assumes "c @ CHR '':'' # a = c' @ CHR '':'' # a'" "chain_ok c" "chain_ok c'"
  shows "c = c' \<and> a = a'"
  using assms
proof (induction c arbitrary: c')
  case Nil
  then show ?case by (cases c') (auto simp: chain_ok_def)
next
  case (Cons x c)
  then show ?case by (cases c') (auto simp: chain_ok_def)
qed

lemma snapshotKey_inj:
  "chain_ok c \<Longrightarrow> chain_ok c' \<Longrightarrow> snapshotKey c a = snapshotKey c' a' \<longleftrightarrow> c = c' \<and> to_lower a = to_lower a'"
  using colon_split [of c "to_lower a" c' "to_lower a'"] by (auto simp: snapshotKey_def)

lemma reserveKey_inj:
  "chain_ok c \<Longrightarrow> chain_ok c' \<Longrightarrow> reserveKey c a = reserveKey c' a' \<longleftrightarrow> c = c' \<and> to_lower a = to_lower a'"
  using colon_split [of c "to_lower a" c' "to_lower a'"] by (auto simp: reserveKey_def)

section \<open>The index\<close>

definition indexed :: "(string, address list) jsmap \<Rightarrow> string \<Rightarrow> address set" where
  "indexed index key = (case js_get index key of None \<Rightarrow> {} | Some accounts \<Rightarrow> set accounts)"

definition index_wf :: "(string, address list) jsmap \<Rightarrow> bool" where
  "index_wf index \<longleftrightarrow> (\<forall>key accounts. js_get index key = Some accounts \<longrightarrow> accounts \<noteq> [] \<and> distinct accounts)"

lemma indexed_attach_one: "indexed (attach_one a k index) key = (if key = k then insert a (indexed index key) else indexed index key)"
  by (auto simp: indexed_def attach_one_def split: option.splits)

lemma indexed_detach_one: "indexed (detach_one a k index) key = (if key = k then indexed index key - {a} else indexed index key)"
proof -
  have "js_remove a accounts = [] \<longleftrightarrow> set accounts - {a} = {}" for accounts :: "address list"
    by (metis set_empty set_js_remove)
  then show ?thesis
    by (auto simp: indexed_def detach_one_def Let_def split: option.splits)
qed

lemma index_wf_attach_one: "index_wf index \<Longrightarrow> index_wf (attach_one a k index)"
  by (auto simp: index_wf_def attach_one_def js_add_def split: option.splits if_splits)

lemma index_wf_detach_one: "index_wf index \<Longrightarrow> index_wf (detach_one a k index)"
  by (auto simp: index_wf_def detach_one_def Let_def js_remove_def split: option.splits if_splits)

lemma indexed_attach: "indexed (fold (attach_one a) ks index) key = indexed index key \<union> (if key \<in> set ks then {a} else {})"
  by (induction ks arbitrary: index) (auto simp: indexed_attach_one)

lemma indexed_detach: "indexed (fold (detach_one a) ks index) key = indexed index key - (if key \<in> set ks then {a} else {})"
  by (induction ks arbitrary: index) (auto simp: indexed_detach_one)

lemma index_wf_attach: "index_wf index \<Longrightarrow> index_wf (fold (attach_one a) ks index)"
  by (induction ks arbitrary: index) (simp_all add: index_wf_attach_one)

lemma index_wf_detach: "index_wf index \<Longrightarrow> index_wf (fold (detach_one a) ks index)"
  by (induction ks arbitrary: index) (simp_all add: index_wf_detach_one)

section \<open>Invariant\<close>

text \<open>The index and the counts are what the snapshots determine.\<close>

definition holders :: "(string, borrower_snapshot) jsmap \<Rightarrow> string \<Rightarrow> address set" where
  "holders m key = {bs_account s | k s. (k, s) \<in> set m \<and> key \<in> set (snapshot_keys s)}"

definition on_chain :: "string \<Rightarrow> string \<times> borrower_snapshot \<Rightarrow> bool" where
  "on_chain chain e = (bs_chain (snd e) = chain)"

definition entries_ok :: "(string, borrower_snapshot) jsmap \<Rightarrow> bool" where
  "entries_ok m \<longleftrightarrow> js_wf m \<and> (\<forall>(k, s) \<in> set m. k = snapshotKey (bs_chain s) (bs_account s) \<and> chain_ok (bs_chain s))"

definition counts_ok :: "(string, borrower_snapshot) jsmap \<Rightarrow> (string, int) jsmap \<Rightarrow> bool" where
  "counts_ok m counts \<longleftrightarrow>
     (\<forall>chain. js_get counts chain =
        (let n = length (filter (on_chain chain) m) in if n = 0 then None else Some (int n)))"

definition cache_inv :: "borrower_cache \<Rightarrow> bool" where
  "cache_inv c \<longleftrightarrow> entries_ok (ca_snapshots c) \<and> index_wf (ca_reserveToAccounts c) \<and>
     (\<forall>key. indexed (ca_reserveToAccounts c) key = holders (ca_snapshots c) key) \<and>
     counts_ok (ca_snapshots c) (ca_chainCounts c)"

lemma cache_inv_new [wf_intros]: "cache_inv (ca_new maxEntries ttlMs)"
  by (simp add: cache_inv_def ca_new_def entries_ok_def index_wf_def indexed_def holders_def counts_ok_def)

lemma entries_ok_delete: "entries_ok m \<Longrightarrow> entries_ok (js_delete k m)"
  using js_delete_subset [of k m] by (auto simp: entries_ok_def)

lemma snapshot_key_chain:
  assumes "chain_ok (bs_chain s)" "chain_ok (bs_chain s')" "key \<in> set (snapshot_keys s)" "key \<in> set (snapshot_keys s')"
  shows "bs_chain s = bs_chain s'"
  using assms by (auto simp: snapshot_keys_def reserveKey_inj)

text \<open>Two entries of one account under one reserve key are the same entry.\<close>

lemma holder_unique:
  assumes "entries_ok m" "(k, s) \<in> set m" "(k', s') \<in> set m" "bs_account s = bs_account s'"
    and "key \<in> set (snapshot_keys s)" "key \<in> set (snapshot_keys s')"
  shows "k = k'"
proof -
  have s: "k = snapshotKey (bs_chain s) (bs_account s)" "chain_ok (bs_chain s)"
    and s': "k' = snapshotKey (bs_chain s') (bs_account s')" "chain_ok (bs_chain s')"
    using assms(1-3) by (auto simp: entries_ok_def)
  have "bs_chain s = bs_chain s'" using snapshot_key_chain [OF s(2) s'(2) assms(5,6)] .
  then show ?thesis using s(1) s'(1) assms(4) by simp
qed

lemma holders_delete:
  assumes "entries_ok m" "(k, s) \<in> set m"
  shows "holders (js_delete k m) key = holders m key - (if key \<in> set (snapshot_keys s) then {bs_account s} else {})"
proof -
  have wf: "js_wf m" using assms(1) by (simp add: entries_ok_def)
  have split: "set m = insert (k, s) (set (js_delete k m))"
    using mset_js_delete [OF wf assms(2)] by (metis set_mset_add_mset_insert set_mset_mset)
  have absent: "(k', s') \<in> set (js_delete k m) \<Longrightarrow> k' \<noteq> k" for k' s' by (auto simp: js_delete_def)
  have other: "bs_account s' \<noteq> bs_account s"
    if "(k', s') \<in> set (js_delete k m)" "key \<in> set (snapshot_keys s')" "key \<in> set (snapshot_keys s)" for k' s'
    using holder_unique [OF assms(1,2), of k' s' key] that absent [OF that(1)] split by auto
  have "holders m key = holders (js_delete k m) key \<union> (if key \<in> set (snapshot_keys s) then {bs_account s} else {})"
    unfolding holders_def split by auto
  moreover have "bs_account s \<notin> holders (js_delete k m) key" if "key \<in> set (snapshot_keys s)"
    using other [OF _ _ that] by (fastforce simp: holders_def)
  ultimately show ?thesis by auto
qed

text \<open>The two steps every operation is made of: dropping an entry and storing one.\<close>

lemma cache_inv_deleteSnapshot:
  assumes inv: "cache_inv c" and e: "(k, s) \<in> set (ca_snapshots c)"
  shows "cache_inv (deleteSnapshot k s c)"
proof -
  let ?m = "ca_snapshots c" and ?m' = "js_delete k (ca_snapshots c)" and ?ch = "bs_chain s"
  have ok: "entries_ok ?m" and wf: "js_wf ?m" using inv by (simp_all add: cache_inv_def entries_ok_def)
  have index: "ca_reserveToAccounts (deleteSnapshot k s c) = fold (detach_one (bs_account s)) (snapshot_keys s) (ca_reserveToAccounts c)"
    by (simp add: deleteSnapshot_def detachReserveIndex_def Let_def)
  have before: "length (filter (on_chain chain) ?m) = length (filter (on_chain chain) ?m') + (if ?ch = chain then 1 else 0)" for chain
    using count_js_delete [OF wf e, of "on_chain chain"] by (simp add: on_chain_def)
  have counts: "js_get (ca_chainCounts c) chain = (let n = length (filter (on_chain chain) ?m) in if n = 0 then None else Some (int n))" for chain
    using inv by (simp add: cache_inv_def counts_ok_def)
  have "counts_ok ?m' (ca_chainCounts (deleteSnapshot k s c))"
    unfolding counts_ok_def
    using before counts [of ?ch] counts
    by (auto simp: deleteSnapshot_def detachReserveIndex_def chain_count_def Let_def)
  then show ?thesis
    using inv by (simp add: cache_inv_def index index_wf_detach indexed_detach holders_delete [OF ok e] entries_ok_delete)
qed

definition store :: "borrower_snapshot \<Rightarrow> borrower_cache \<Rightarrow> borrower_cache" where
  "store s c =
     (let key = snapshotKey (bs_chain s) (bs_account s);
          c1 = (case js_get (ca_snapshots c) key of
                  Some previous \<Rightarrow> detachReserveIndex previous c
                | None \<Rightarrow> c\<lparr>ca_chainCounts := js_set (bs_chain s) (chain_count 0 (bs_chain s) c + 1) (ca_chainCounts c)\<rparr>);
          c2 = c1\<lparr>ca_snapshots := js_set key s (ca_snapshots c1)\<rparr>
      in attachReserveIndex s c2)"

lemma upsert_store: "upsert now s c = prune now (store s c)"
  by (simp add: upsert_def store_def Let_def)

lemma store_snapshots [simp]:
  "ca_snapshots (store s c) = js_set (snapshotKey (bs_chain s) (bs_account s)) s (ca_snapshots c)"
  "ca_maxEntries (store s c) = ca_maxEntries c" "ca_ttlMs (store s c) = ca_ttlMs c"
  by (simp_all add: store_def attachReserveIndex_def detachReserveIndex_def Let_def split: option.splits)

lemma store_index:
  "indexed (ca_reserveToAccounts (store s c)) key =
     (indexed (ca_reserveToAccounts c) key -
       (case js_get (ca_snapshots c) (snapshotKey (bs_chain s) (bs_account s)) of
          None \<Rightarrow> {} | Some p \<Rightarrow> if key \<in> set (snapshot_keys p) then {bs_account p} else {})) \<union>
     (if key \<in> set (snapshot_keys s) then {bs_account s} else {})"
  by (simp add: store_def attachReserveIndex_def detachReserveIndex_def Let_def indexed_attach indexed_detach split: option.splits)

lemma cache_inv_store:
  assumes inv: "cache_inv c" and chain: "chain_ok (bs_chain s)"
  shows "cache_inv (store s c)"
proof -
  let ?k = "snapshotKey (bs_chain s) (bs_account s)" and ?m = "ca_snapshots c" and ?ch = "bs_chain s"
  have ok: "entries_ok ?m" and wf: "js_wf ?m" using inv by (simp_all add: cache_inv_def entries_ok_def)
  have entries: "entries_ok (js_set ?k s ?m)"
    using entries_ok_delete [OF ok, of ?k] chain wf by (auto simp: entries_ok_def set_js_set)
  have "holders (js_set ?k s ?m) key = holders (js_delete ?k ?m) key \<union> (if key \<in> set (snapshot_keys s) then {bs_account s} else {})" for key
    unfolding holders_def set_js_set [OF wf] by auto
  moreover have "holders (js_delete ?k ?m) key = holders ?m key -
      (case js_get ?m ?k of None \<Rightarrow> {} | Some p \<Rightarrow> if key \<in> set (snapshot_keys p) then {bs_account p} else {})" for key
    using js_delete_absent [of ?m ?k] holders_delete [OF ok] js_get_SomeD [of ?m ?k] by (simp split: option.splits)
  ultimately have index: "indexed (ca_reserveToAccounts (store s c)) key = holders (js_set ?k s ?m) key" for key
    using inv by (simp add: store_index cache_inv_def)
  have index_wf: "index_wf (ca_reserveToAccounts (store s c))"
    using inv by (simp add: store_def attachReserveIndex_def detachReserveIndex_def cache_inv_def Let_def
      index_wf_attach index_wf_detach split: option.splits)
  have counts: "js_get (ca_chainCounts c) chain = (let n = length (filter (on_chain chain) ?m) in if n = 0 then None else Some (int n))" for chain
    using inv by (simp add: cache_inv_def counts_ok_def)
  have after: "length (filter (on_chain chain) (js_set ?k s ?m)) = length (filter (on_chain chain) (js_delete ?k ?m)) + (if ?ch = chain then 1 else 0)" for chain
    using count_js_set [OF wf, of "on_chain chain" ?k s] by (simp add: on_chain_def)
  have "counts_ok (js_set ?k s ?m) (ca_chainCounts (store s c))"
  proof (cases "js_get ?m ?k")
    case None
    then have "ca_chainCounts (store s c) = js_set ?ch (chain_count 0 ?ch c + 1) (ca_chainCounts c)"
      by (simp add: store_def attachReserveIndex_def Let_def)
    then show ?thesis
      using after counts js_delete_absent [OF None] by (auto simp: counts_ok_def chain_count_def Let_def)
  next
    case (Some p)
    then have same: "ca_chainCounts (store s c) = ca_chainCounts c"
      by (simp add: store_def attachReserveIndex_def detachReserveIndex_def Let_def)
    have p: "(?k, p) \<in> set ?m" using Some by (rule js_get_SomeD)
    then have "bs_chain p = ?ch" using ok chain by (auto simp: entries_ok_def snapshotKey_inj)
    then have "length (filter (on_chain chain) ?m) = length (filter (on_chain chain) (js_set ?k s ?m))" for chain
      using count_js_delete [OF wf p, of "on_chain chain"] after by (simp add: on_chain_def)
    then show ?thesis using counts by (simp add: counts_ok_def same)
  qed
  then show ?thesis using entries index index_wf by (simp add: cache_inv_def)
qed

text \<open>Expiry drops the expired entries, and shrinking the oldest ones.\<close>

lemma expire_fold:
  assumes "cache_inv c" "distinct (map fst es)" "set es \<subseteq> set (ca_snapshots c)"
  shows "cache_inv (fold (expire_entry now) es c) \<and>
    ca_snapshots (fold (expire_entry now) es c) =
      filter (\<lambda>e. fst e \<notin> fst ` {e' \<in> set es. expired (ca_ttlMs c) now (snd e')}) (ca_snapshots c) \<and>
    ca_maxEntries (fold (expire_entry now) es c) = ca_maxEntries c \<and> ca_ttlMs (fold (expire_entry now) es c) = ca_ttlMs c"
  using assms
proof (induction es arbitrary: c)
  case (Cons e es)
  show ?case
  proof (cases "expired (ca_ttlMs c) now (snd e)")
    case True
    have inv: "cache_inv (deleteSnapshot (fst e) (snd e) c)"
      using Cons.prems by (intro cache_inv_deleteSnapshot) auto
    have "set es \<subseteq> set (js_delete (fst e) (ca_snapshots c))"
    proof
      fix x assume x: "x \<in> set es"
      then have "fst x \<noteq> fst e" using Cons.prems(2) by (auto simp: image_iff)
      with x Cons.prems(3) show "x \<in> set (js_delete (fst e) (ca_snapshots c))" by (auto simp: js_delete_def)
    qed
    with Cons.IH [OF inv] Cons.prems True show ?thesis
      by (auto simp: expire_entry_def js_delete_def intro!: filter_cong)
  next
    case False
    with Cons.IH [OF Cons.prems(1)] Cons.prems show ?thesis
      by (auto simp: expire_entry_def intro!: filter_cong)
  qed
qed simp

definition fresh :: "borrower_cache \<Rightarrow> int \<Rightarrow> (string, borrower_snapshot) jsmap \<Rightarrow> (string, borrower_snapshot) jsmap" where
  "fresh c now m = filter (\<lambda>e. \<not> expired (ca_ttlMs c) now (snd e)) m"

lemma expire_all:
  assumes "cache_inv c"
  shows "cache_inv (fold (expire_entry now) (ca_snapshots c) c)"
    "ca_snapshots (fold (expire_entry now) (ca_snapshots c) c) = fresh c now (ca_snapshots c)"
    "ca_maxEntries (fold (expire_entry now) (ca_snapshots c) c) = ca_maxEntries c"
    "ca_ttlMs (fold (expire_entry now) (ca_snapshots c) c) = ca_ttlMs c"
proof -
  have wf: "js_wf (ca_snapshots c)" using assms by (simp add: cache_inv_def entries_ok_def)
  have "filter (\<lambda>e. fst e \<notin> fst ` {e' \<in> set m. P e'}) m = filter (\<lambda>e. \<not> P e) m" if "js_wf m"
    for m :: "(string, borrower_snapshot) jsmap" and P
    using that by (intro filter_cong refl) (force simp: js_wf_def distinct_map inj_on_def)
  with expire_fold [OF assms, of "ca_snapshots c" now] wf
  show "cache_inv (fold (expire_entry now) (ca_snapshots c) c)"
    "ca_snapshots (fold (expire_entry now) (ca_snapshots c) c) = fresh c now (ca_snapshots c)"
    "ca_maxEntries (fold (expire_entry now) (ca_snapshots c) c) = ca_maxEntries c"
    "ca_ttlMs (fold (expire_entry now) (ca_snapshots c) c) = ca_ttlMs c"
    by (simp_all add: fresh_def js_wf_def)
qed

lemma js_delete_first: "js_wf (e # m) \<Longrightarrow> js_delete (fst e) (e # m) = m"
  using js_delete_absent [of m "fst e"] by (simp add: js_delete_def js_wf_def js_get_None_iff js_keys_def)

lemma shrink_spec:
  assumes "cache_inv c"
  shows "cache_inv (shrink c) \<and> ca_snapshots (shrink c) = last_n (ca_maxEntries c) (ca_snapshots c) \<and>
    ca_maxEntries (shrink c) = ca_maxEntries c \<and> ca_ttlMs (shrink c) = ca_ttlMs c"
  using assms
proof (induction c rule: shrink.induct)
  case (1 c)
  show ?case
  proof (cases "ca_maxEntries c < length (ca_snapshots c)")
    case True
    then obtain k s m where m: "ca_snapshots c = (k, s) # m" by (cases "ca_snapshots c") auto
    have "js_wf (ca_snapshots c)" using "1.prems" by (simp add: cache_inv_def entries_ok_def)
    then have wf: "js_wf ((k, s) # m)" by (simp add: m)
    have inv: "cache_inv (deleteSnapshot k s c)" using "1.prems" m by (intro cache_inv_deleteSnapshot) auto
    have "last_n (ca_maxEntries c) ((k, s) # m) = last_n (ca_maxEntries c) m"
      using True m by (simp add: last_n_def Suc_diff_le)
    with "1.IH" [OF True m refl inv] True m js_delete_first [OF wf] show ?thesis
      by (simp add: shrink.simps [of c])
  next
    case False
    with "1.prems" show ?thesis by (simp add: shrink.simps)
  qed
qed

lemma prune_spec:
  assumes "cache_inv c"
  shows "cache_inv (prune now c)" "ca_snapshots (prune now c) = last_n (ca_maxEntries c) (fresh c now (ca_snapshots c))"
    "ca_maxEntries (prune now c) = ca_maxEntries c" "ca_ttlMs (prune now c) = ca_ttlMs c"
  using shrink_spec [OF expire_all(1) [OF assms], of now] expire_all [OF assms, of now] by (simp_all add: prune_def)

lemma cache_inv_upsert [wf_intros]: "cache_inv c \<Longrightarrow> chain_ok (bs_chain s) \<Longrightarrow> cache_inv (upsert now s c)"
  by (simp add: upsert_store prune_spec(1) cache_inv_store)

section \<open>Properties\<close>

text \<open>Any use of the cache: snapshots stored and lists read, each at its time.\<close>

datatype cache_op = CacheUpsert int borrower_snapshot | CacheList int string

fun cache_step :: "cache_op \<Rightarrow> borrower_cache \<Rightarrow> borrower_cache" where
  "cache_step (CacheUpsert now s) c = upsert now s c"
| "cache_step (CacheList now chain) c = snd (listSnapshots now chain c)"

fun op_chain_ok :: "cache_op \<Rightarrow> bool" where
  "op_chain_ok (CacheUpsert now s) = chain_ok (bs_chain s)"
| "op_chain_ok (CacheList now chain) = True"

lemma cache_inv_run:
  "cache_inv c \<Longrightarrow> \<forall>op \<in> set ops. op_chain_ok op \<Longrightarrow> cache_inv (fold cache_step ops c)"
proof (induction ops arbitrary: c)
  case (Cons op ops)
  have "cache_inv (cache_step op c)"
    using Cons.prems by (cases op) (simp_all add: cache_inv_upsert listSnapshots_def Let_def prune_spec(1))
  with Cons show ?case by simp
qed simp

lemma prune_config [simp]: "cache_inv c \<Longrightarrow> ca_maxEntries (prune now c) = ca_maxEntries c"
  by (rule prune_spec(3))

lemma holders_of_listed:
  assumes "entries_ok m" and "chain_ok chain" and "snapshots = map snd (filter (on_chain chain) m)"
  shows "holders m (reserveKey chain reserve) =
    bs_account ` {s \<in> set snapshots. to_lower reserve \<in> to_lower ` br_assetAddress ` set (bs_reserves s)}"
proof -
  have key: "reserveKey chain reserve \<in> set (snapshot_keys s) \<longleftrightarrow>
      bs_chain s = chain \<and> to_lower reserve \<in> to_lower ` br_assetAddress ` set (bs_reserves s)" if "(k, s) \<in> set m" for k s
    using that assms(1,2) by (auto simp: snapshot_keys_def entries_ok_def reserveKey_inj)
  have "x \<in> set snapshots \<longleftrightarrow> (\<exists>k. (k, x) \<in> set m \<and> bs_chain x = chain)" for x
    by (force simp: assms(3) on_chain_def image_iff)
  then have "{s \<in> set snapshots. to_lower reserve \<in> to_lower ` br_assetAddress ` set (bs_reserves s)} =
      {s. \<exists>k. (k, s) \<in> set m \<and> reserveKey chain reserve \<in> set (snapshot_keys s)}"
    using key by blast
  moreover have "holders m (reserveKey chain reserve) =
      bs_account ` {s. \<exists>k. (k, s) \<in> set m \<and> reserveKey chain reserve \<in> set (snapshot_keys s)}"
    unfolding holders_def by blast
  ultimately show ?thesis by (simp only:)
qed

lemma listed_accounts_distinct:
  assumes "entries_ok m" and "js_wf m" and "snapshots = map snd (filter (on_chain chain) m)"
  shows "distinct (map (to_lower \<circ> bs_account) snapshots)"
proof -
  have "inj_on (to_lower \<circ> bs_account \<circ> snd) (set (filter (on_chain chain) m))"
  proof (rule inj_onI)
    fix e e' assume e: "e \<in> set (filter (on_chain chain) m)" "e' \<in> set (filter (on_chain chain) m)"
      and same: "(to_lower \<circ> bs_account \<circ> snd) e = (to_lower \<circ> bs_account \<circ> snd) e'"
    have "fst x = snapshotKey chain (bs_account (snd x))" if "x \<in> set (filter (on_chain chain) m)" for x
      using that assms(1) by (auto simp: on_chain_def entries_ok_def case_prod_unfold)
    then have "fst e = fst e'" using e same by (simp add: snapshotKey_def)
    then show "e = e'" using e assms(2) by (auto simp: js_wf_def distinct_map dest: inj_onD)
  qed
  moreover have "distinct m" using assms(2) by (simp add: js_wf_def distinct_map)
  ultimately show ?thesis by (simp add: assms(3) distinct_map comp_assoc)
qed


text \<open>Two borrowers share a reserve; one is updated without it, one has expired at the reading.\<close>

definition reserve_of :: "address \<Rightarrow> int \<Rightarrow> int \<Rightarrow> borrower_reserve" where
  "reserve_of a collateral debt = \<lparr>br_assetAddress = a, br_asset = usdc_asset, br_collateralBalance = amount usdc_asset collateral,
     br_variableDebt = amount usdc_asset debt, br_stableDebt = amount usdc_asset 0, br_priceInQuote = amount usd_asset 100000000,
     br_usageAsCollateralEnabled = True, br_liquidationBonusBps = 500\<rparr>"

definition snapshot_of :: "address \<Rightarrow> borrower_reserve list \<Rightarrow> int \<Rightarrow> borrower_snapshot" where
  "snapshot_of account reserves t = \<lparr>bs_chain = ''base'', bs_account = account, bs_protocol = Some Aave,
     bs_healthFactor = 900000000000000000, bs_reserves = reserves, bs_updatedAtMs = t\<rparr>"

definition sample_ops :: "cache_op list" where
  "sample_ops =
     [CacheUpsert 1600000000000 (snapshot_of ''0xA'' [reserve_of ''0xR'' 1 1] 1600000000000),
      CacheUpsert 1600000001000 (snapshot_of ''0xb'' [reserve_of ''0xr'' 1 1] 1600000001000),
      CacheUpsert 1600000002000 (snapshot_of ''0xa'' [reserve_of ''0xq'' 1 1] 1600000002000)]"


text \<open>The cache drops the borrower it met first, not the one it heard of last the longest ago: with
  room for two, a borrower refreshed a moment ago makes way for a new one while an older snapshot stays.\<close>

theorem cache_evicts_refreshed:
  "map bs_account (fst (listSnapshots 1600000003000 ''base'' (fold cache_step
     [CacheUpsert 1600000000000 (snapshot_of ''0xa'' [] 1600000000000),
      CacheUpsert 1600000001000 (snapshot_of ''0xb'' [] 1600000001000),
      CacheUpsert 1600000002000 (snapshot_of ''0xa'' [] 1600000002000),
      CacheUpsert 1600000003000 (snapshot_of ''0xc'' [] 1600000003000)]
     (ca_new (Some 2) None)))) = [''0xb'', ''0xc'']"
  by code_simp

section \<open>Candidates\<close>

lemma traverse_Inr_iff: "traverse f xs = Inr ys \<longleftrightarrow> list_all2 (\<lambda>x y. f x = Inr y) xs ys"
proof (induction xs arbitrary: ys)
  case Nil
  then show ?case by auto
next
  case (Cons x xs)
  show ?case by (cases ys) (auto simp: Cons.IH [symmetric] split: sum.splits)
qed

lemma bestCollateral_max:
  assumes "bestCollateral rs = Inr (Some best)"
  shows "best \<in> set rs \<and> (\<forall>r \<in> set rs. quote_raw r \<le> quote_raw best)"
proof (cases "\<exists>r r' rs'. rs = r # r' # rs'")
  case True
  then have best: "best = hd (sort_key (\<lambda>r. - quote_raw r) rs)" and ne: "rs \<noteq> []"
    using assms by (auto simp: bestCollateral_def split: sum.splits)
  have ordered: "sorted (map (\<lambda>r. - quote_raw r) (sort_key (\<lambda>r. - quote_raw r) rs))" by (rule sorted_sort_key)
  obtain x xs where sort: "sort_key (\<lambda>r. - quote_raw r) rs = x # xs"
    using ne by (metis list.exhaust set_empty set_sort)
  then have "set rs = set (x # xs)" by (metis set_sort)
  with best ordered sort show ?thesis by auto
next
  case False
  then have "rs = [] \<or> (\<exists>r. rs = [r])" by (metis list.exhaust)
  with assms show ?thesis by (auto simp: bestCollateral_def)
qed

lemma bestCollateral_None: "bestCollateral rs = Inr None \<longleftrightarrow> rs = []"
  by (auto simp: bestCollateral_def split: sum.splits list.splits)

text \<open>The candidates of a borrower: none at a health factor of one or more, none without enabled
  collateral; otherwise exactly one for each reserve with debt, in the order of the reserves, for the
  borrower's account and whole debt, against an enabled collateral of the largest quoted value and
  with that collateral's bonus.\<close>

theorem candidates_cover_debts:
  assumes "toCandidates s = Inr cs"
  shows "(if liquidationHealthFactor \<le> bs_healthFactor s \<or> collaterals_of s = [] then cs = []
     else \<exists>best \<in> set (collaterals_of s).
       (\<forall>r \<in> set (collaterals_of s). quote_raw r \<le> quote_raw best) \<and>
       map (\<lambda>c. (lc_debtAsset c, lc_debtToCover c)) cs =
         map (\<lambda>r. (br_assetAddress r, debt_raw r)) (filter (\<lambda>r. 0 < debt_raw r) (bs_reserves s)) \<and>
       (\<forall>c \<in> set cs. lc_account c = bs_account s \<and> lc_healthFactor c = bs_healthFactor s \<and>
          lc_collateralAsset c = br_assetAddress best \<and> lc_liquidationBonusBps c = br_liquidationBonusBps best))"
proof (cases "liquidationHealthFactor \<le> bs_healthFactor s \<or> collaterals_of s = []")
  case True
  with assms show ?thesis by (auto simp: toCandidates_def bestCollateral_def split: sum.splits if_splits)
next
  case False
  with assms obtain best where best: "bestCollateral (collaterals_of s) = Inr (Some best)"
    and cs: "traverse (toCandidate s best) (filter (\<lambda>r. 0 < debt_raw r) (bs_reserves s)) = Inr cs"
    by (auto simp: toCandidates_def bestCollateral_None split: sum.splits option.splits)
  have one: "lc_debtAsset c = br_assetAddress r \<and> lc_debtToCover c = debt_raw r \<and> lc_account c = bs_account s \<and>
      lc_healthFactor c = bs_healthFactor s \<and> lc_collateralAsset c = br_assetAddress best \<and>
      lc_liquidationBonusBps c = br_liquidationBonusBps best" if "toCandidate s best r = Inr c" for r c
    using that by (auto simp: toCandidate_def totalDebt_def debt_raw_def createAssetAmount_Inr_iff split: sum.splits)
  have each: "list_all2 (\<lambda>r c. toCandidate s best r = Inr c) (filter (\<lambda>r. 0 < debt_raw r) (bs_reserves s)) cs"
    using cs by (simp add: traverse_Inr_iff)
  have "map (\<lambda>c. (lc_debtAsset c, lc_debtToCover c)) cs' = map (\<lambda>r. (br_assetAddress r, debt_raw r)) rs \<and>
      (\<forall>c \<in> set cs'. lc_account c = bs_account s \<and> lc_healthFactor c = bs_healthFactor s \<and>
          lc_collateralAsset c = br_assetAddress best \<and> lc_liquidationBonusBps c = br_liquidationBonusBps best)"
    if "list_all2 (\<lambda>r c. toCandidate s best r = Inr c) rs cs'" for rs cs'
    using that by (induction rule: list_all2_induct) (auto dest: one)
  from this [OF each] bestCollateral_max [OF best] False show ?thesis by auto
qed

definition sample_snapshot :: borrower_snapshot where
  "sample_snapshot = snapshot_of ''0xa'' [reserve_of ''0x1'' 5000000 0, reserve_of ''0x2'' 7000000 3000000, reserve_of ''0x3'' 0 2000000] 0"

theorem candidates_cover_debts_witness:
  "\<exists>cs. toCandidates sample_snapshot = Inr cs \<and> map lc_debtAsset cs = [''0x2'', ''0x3''] \<and> map lc_debtToCover cs = [3000000, 2000000]"
proof -
  have "\<not> isl (toCandidates sample_snapshot)" by code_simp
  then obtain cs where cs: "toCandidates sample_snapshot = Inr cs" by (cases "toCandidates sample_snapshot") auto
  have side: "\<not> liquidationHealthFactor \<le> bs_healthFactor sample_snapshot" "collaterals_of sample_snapshot \<noteq> []"
    "map (\<lambda>r. (br_assetAddress r, debt_raw r)) (filter (\<lambda>r. 0 < debt_raw r) (bs_reserves sample_snapshot)) = [(''0x2'', 3000000), (''0x3'', 2000000)]"
    by code_simp+
  have "map (\<lambda>c. (lc_debtAsset c, lc_debtToCover c)) cs = [(''0x2'', 3000000), (''0x3'', 2000000)]"
    using candidates_cover_debts [OF cs] by (auto simp: side)
  then have "map fst (map (\<lambda>c. (lc_debtAsset c, lc_debtToCover c)) cs) = [''0x2'', ''0x3'']"
    "map snd (map (\<lambda>c. (lc_debtAsset c, lc_debtToCover c)) cs) = [3000000, 2000000]"
    by simp_all
  then show ?thesis using cs by (simp add: comp_def)
qed

lemma adapter_snapshot_back:
  assumes "lc_healthFactor c < liquidationHealthFactor" "0 < lc_debtToCover c" "0 \<le> lc_liquidationBonusBps c"
  shows "\<exists>s. toSnapshot now chain c = Inr s \<and>
     toCandidates s = Inr [c\<lparr>lc_repayValueUsd := of_int (lc_debtToCover c * 100) / 10 ^ 8,
       lc_effectiveLiquidationBonusBps := None, lc_closeFactorBps := None, lc_collateralReceivedWei := None,
       lc_bonusPercentage := None, lc_gasEstimate := None, lc_gasPrice := None\<rparr>]"
proof -
  let ?raw = "lc_debtToCover c" let ?coll = "lc_debtToCover c + bdiv (lc_debtToCover c * lc_liquidationBonusBps c) 10000"
  have pos: "0 \<le> bdiv (?raw * lc_liquidationBonusBps c) 10000" using assms by (intro bdiv_nonneg) simp_all
  then have coll: "0 < ?coll" using assms by simp
  have scale: "bdiv (?raw * 100000000) 1000000 = ?raw * 100"
    using assms by (simp add: bdiv_nonneg_eq)
  have weth: "createAssetAmount weth_asset raw = Inr (amount weth_asset raw)"
    and usdc: "createAssetAmount usdc_asset raw = Inr (amount usdc_asset raw)"
    and usd: "createAssetAmount usd_asset raw = Inr (amount usd_asset raw)" if "0 \<le> raw" for raw
    using that by (simp_all add: createAssetAmount_def createAsset_def weth_asset_def usdc_asset_def usd_asset_def amount_def)
  obtain s where s: "toSnapshot now chain c = Inr s"
    using coll assms by (simp add: toSnapshot_def weth usdc Let_def)
  have debt: "totalDebt (bs_reserves s ! 1) = Inr (amount usdc_asset ?raw)"
    "convertToQuote (amount usdc_asset ?raw) (amount usd_asset 100000000) = Inr (amount usd_asset (?raw * 100))"
    "totalDebt (bs_reserves s ! 0) = Inr (amount weth_asset 0)"
    using s coll assms
    by (auto simp: toSnapshot_def weth usdc Let_def totalDebt_def convertToQuote_def usdc_asset_def usd_asset_def
      amount_def scale createAssetAmount_def createAsset_def weth_asset_def)
  show ?thesis
    using s assms coll debt
    by (auto simp: toSnapshot_def weth usdc Let_def toCandidates_def collaterals_of_def bestCollateral_def debt_raw_def
      toCandidate_def toDecimalNumber_def amount_def usd_asset_def)
qed


text \<open>A position of 1,000 dollars at a bonus of five percent.\<close>

definition sample_candidate :: liquidation_candidate where
  "sample_candidate = \<lparr>lc_account = ''0xa1'', lc_collateralAsset = ''0xc1'', lc_debtAsset = ''0xd1'', lc_debtToCover = 1000000000,
     lc_repayValueUsd = 1000, lc_liquidationBonusBps = 500, lc_effectiveLiquidationBonusBps = None, lc_closeFactorBps = None,
     lc_collateralReceivedWei = None, lc_bonusPercentage = None, lc_gasEstimate = None, lc_gasPrice = None,
     lc_healthFactor = 990000000000000000\<rparr>"


end
