(* ===== verification/Decimal.thy ===== *)
theory Decimal
  imports Prelude
begin

text \<open>
  Decimal numerals: \<open>BigInt.prototype.toString\<close>, and the conversion \<open>BigInt(text)\<close>, which trims the
  text, reads the empty text as zero, accepts a sign before decimal digits and the prefixes
  \<open>0x\<close>, \<open>0o\<close> and \<open>0b\<close>, and throws on anything else.
\<close>

function digits :: "int \<Rightarrow> string" where
  "digits i = (if i < 10 then [char_of (48 + i)] else digits (i div 10) @ [char_of (48 + i mod 10)])"
  by pat_completeness auto

termination by (relation "measure nat") auto

declare digits.simps [simp del]

definition int_string :: "int \<Rightarrow> string" where
  "int_string i = (if i < 0 then ''-'' @ digits (- i) else digits i)"

definition digit_value :: "char \<Rightarrow> int option" where
  "digit_value c =
     (let n = (of_char c :: int) in
      if 48 \<le> n \<and> n \<le> 57 then Some (n - 48)
      else if 97 \<le> n \<and> n \<le> 102 then Some (n - 87)
      else if 65 \<le> n \<and> n \<le> 70 then Some (n - 55)
      else None)"

text \<open>A sequence of digits below the radix, appended to what has been read.\<close>

fun read_digits :: "int \<Rightarrow> int \<Rightarrow> string \<Rightarrow> int option" where
  "read_digits radix n [] = Some n"
| "read_digits radix n (c # cs) =
     (case digit_value c of
        None \<Rightarrow> None
      | Some d \<Rightarrow> if d < radix then read_digits radix (n * radix + d) cs else None)"

definition read_number :: "int \<Rightarrow> string \<Rightarrow> int option" where
  "read_number radix s = (if s = [] then None else read_digits radix 0 s)"

text \<open>White space as \<open>trim\<close> knows it, among the characters of a byte.\<close>

definition is_space :: "char \<Rightarrow> bool" where
  "is_space c = (c \<in> {CHR 0x20, CHR 0x09, CHR 0x0A, CHR 0x0B, CHR 0x0C, CHR 0x0D, CHR 0xA0})"

definition str_trim :: "string \<Rightarrow> string" where
  "str_trim s = rev (dropWhile is_space (rev (dropWhile is_space s)))"

definition parse_integer :: "string \<Rightarrow> int option" where
  "parse_integer s =
     (case str_trim s of
        [] \<Rightarrow> Some 0
      | c # rest \<Rightarrow>
          if c = CHR ''-'' then map_option uminus (read_number 10 rest)
          else if c = CHR ''+'' then read_number 10 rest
          else (case rest of
                  x # body \<Rightarrow>
                    if c = CHR ''0'' \<and> (x = CHR ''x'' \<or> x = CHR ''X'') then read_number 16 body
                    else if c = CHR ''0'' \<and> (x = CHR ''o'' \<or> x = CHR ''O'') then read_number 8 body
                    else if c = CHR ''0'' \<and> (x = CHR ''b'' \<or> x = CHR ''B'') then read_number 2 body
                    else read_number 10 (c # rest)
                | [] \<Rightarrow> read_number 10 (c # rest)))"

definition bigint_of_string :: "string \<Rightarrow> exn + int" where
  "bigint_of_string s =
     (case parse_integer s of Some n \<Rightarrow> Inr n | None \<Rightarrow> Inl (Exn (''Cannot convert '' @ s @ '' to a BigInt'')))"

section \<open>The round trip\<close>

lemma digit_value_char: "0 \<le> d \<Longrightarrow> d < 10 \<Longrightarrow> digit_value (char_of (48 + d)) = Some d"
  by (simp add: digit_value_def Let_def take_bit_eq_mod)

lemma digits_not_Nil [simp]: "digits i \<noteq> []"
  by (simp add: digits.simps [of i])

lemma read_digits_append: "read_digits r n (s @ t) = (case read_digits r n s of None \<Rightarrow> None | Some m \<Rightarrow> read_digits r m t)"
  by (induction s arbitrary: n) (auto split: option.splits)

lemma read_digits_of_digits: "0 \<le> i \<Longrightarrow> read_digits 10 0 (digits i) = Some i"
proof (induction i rule: digits.induct)
  case (1 i)
  show ?case
  proof (cases "i < 10")
    case True
    with 1 show ?thesis by (simp add: digits.simps [of i] digit_value_char)
  next
    case False
    with 1 show ?thesis by (simp add: digits.simps [of i] read_digits_append digit_value_char)
  qed
qed

lemma small_digit:
  assumes "0 \<le> d" "d < (10::int)"
  shows "char_of (48 + d) \<in> set ''0123456789''"
proof -
  have "\<forall>n \<in> set [0..<10]. char_of (48 + int n) \<in> set ''0123456789''"
    by code_simp
  moreover have "nat d \<in> set [0..<10]" using assms by auto
  ultimately have "char_of (48 + int (nat d)) \<in> set ''0123456789''" by (rule bspec)
  then show ?thesis using assms by simp
qed

lemma digits_chars: "0 \<le> i \<Longrightarrow> set (digits i) \<subseteq> set ''0123456789''"
proof (induction i rule: digits.induct)
  case (1 i)
  show ?case
  proof (cases "i < 10")
    case True
    with 1 show ?thesis using small_digit [of i] by (simp add: digits.simps [of i])
  next
    case False
    with 1 have "set (digits (i div 10)) \<subseteq> set ''0123456789''" by simp
    with False show ?thesis using small_digit [of "i mod 10"] by (subst digits.simps) simp
  qed
qed

lemma digit_char_class:
  assumes "c \<in> set ''0123456789''"
  shows "\<not> is_space c" "c \<noteq> CHR ''-''" "c \<noteq> CHR ''+''" "c \<notin> {CHR ''x'', CHR ''X'', CHR ''o'', CHR ''O'', CHR ''b'', CHR ''B''}"
  using assms by (auto simp: is_space_def)

lemma trim_id:
  assumes "\<And>c. c \<in> set s \<Longrightarrow> \<not> is_space c"
  shows "str_trim s = s"
proof -
  have id: "dropWhile is_space t = t" if "set t \<subseteq> set s" for t
    using assms that by (cases t) auto
  show ?thesis by (simp add: str_trim_def id)
qed

lemma parse_digits:
  assumes "0 \<le> i"
  shows "parse_integer (digits i) = Some i"
proof -
  have chars: "c \<in> set ''0123456789''" if "c \<in> set (digits i)" for c using digits_chars [OF assms] that by blast
  have trim: "str_trim (digits i) = digits i" using chars by (intro trim_id digit_char_class(1))
  have read: "read_number 10 (digits i) = Some i" using read_digits_of_digits [OF assms] by (simp add: read_number_def)
  obtain c rest where split: "digits i = c # rest" by (cases "digits i") auto
  have "c \<in> set (digits i)" by (simp add: split)
  note c = digit_char_class(2,3) [OF chars [OF this]]
  have unfold: "parse_integer (c # rest) = (case rest of
                  x # body \<Rightarrow>
                    if c = CHR ''0'' \<and> (x = CHR ''x'' \<or> x = CHR ''X'') then read_number 16 body
                    else if c = CHR ''0'' \<and> (x = CHR ''o'' \<or> x = CHR ''O'') then read_number 8 body
                    else if c = CHR ''0'' \<and> (x = CHR ''b'' \<or> x = CHR ''B'') then read_number 2 body
                    else read_number 10 (c # rest)
                | [] \<Rightarrow> read_number 10 (c # rest))"
    using c trim by (simp add: parse_integer_def split)
  show ?thesis
  proof (cases rest)
    case Nil
    with unfold read show ?thesis by (simp add: split)
  next
    case (Cons x body)
    then have "x \<in> set (digits i)" by (simp add: split)
    from digit_char_class(4) [OF chars [OF this]] have "parse_integer (c # rest) = read_number 10 (c # rest)"
      using unfold by (simp add: Cons)
    with read show ?thesis by (simp add: split)
  qed
qed

lemma parse_int_string: "parse_integer (int_string i) = Some i"
proof (cases "i < 0")
  case True
  then have chars: "set (digits (- i)) \<subseteq> set ''0123456789''" by (intro digits_chars) simp
  have "\<not> is_space c" if "c \<in> set (''-'' @ digits (- i))" for c
  proof (cases "c = CHR ''-''")
    case False
    then have "c \<in> set (digits (- i))" using that by simp
    with chars show ?thesis by (intro digit_char_class(1)) blast
  qed (simp add: is_space_def)
  then have "str_trim (''-'' @ digits (- i)) = ''-'' @ digits (- i)" by (rule trim_id)
  with True show ?thesis
    by (simp add: int_string_def parse_integer_def read_number_def read_digits_of_digits)
next
  case False
  then show ?thesis by (simp add: int_string_def parse_digits)
qed

lemma bigint_round_trip: "bigint_of_string (int_string i) = Inr i"
  by (simp add: bigint_of_string_def parse_int_string)

end
