(* ===== verification/Aave_Protocol.thy ===== *)
theory Aave_Protocol
  imports Health_Factor Borrower_Cache Effects Decimal "HOL-Library.List_Lexorder" "HOL-Library.Char_ord"
begin

text \<open>
  \<open>src/config/chains.ts\<close> (the table of chains), \<open>src/config/aavePoolVersion.ts\<close> and the part of
  \<open>src/protocols/aaveV3.ts\<close> that enumerates borrowers through the subgraph and turns the unhealthy
  ones into candidates. The subgraph and the pool contract are services, arguments of the model:
  computations that may throw and change the world. The ABI constants, the parameter builders for
  viem and the event subscription are left out.

  The enumeration loop is a \<open>while (true)\<close>; it is a \<open>partial_function\<close>, whose value is \<open>None\<close> where it
  does not end, and that it ends is proved for a subgraph that answers the query.
\<close>

section \<open>Chains\<close>

record reserve_pair =
  rp_collateralAsset :: address
  rp_debtAsset :: address
  rp_defaultDebtToCoverWei :: int
  rp_repayValueUsd :: rat
  rp_liquidationBonusBps :: int

record chain_config =
  cc_name :: string
  cc_chainId :: nat
  cc_blockExplorerUrl :: string
  cc_pool :: address
  cc_poolAddressesProvider :: address
  cc_uiPoolDataProvider :: address
  cc_reservePairs :: "reserve_pair list"

text \<open>The configured pair is one dollar of USDC debt against WETH on every chain.\<close>

definition usdc_weth_pair :: "address \<Rightarrow> address \<Rightarrow> reserve_pair" where
  "usdc_weth_pair collateral debt = \<lparr>rp_collateralAsset = collateral, rp_debtAsset = debt, rp_defaultDebtToCoverWei = 1000000,
     rp_repayValueUsd = 1, rp_liquidationBonusBps = 500\<rparr>"

definition chainConfigs :: "(string, chain_config) jsmap" where
  "chainConfigs =
     [(''optimism'', \<lparr>cc_name = ''optimism'', cc_chainId = 10, cc_blockExplorerUrl = ''https://optimistic.etherscan.io'',
        cc_pool = ''0x794a61358d6845594f94dc1db02a252b5b4814ad'',
        cc_poolAddressesProvider = ''0xa97684ead0e402dc232d5a977953df7ecbab3cdb'',
        cc_uiPoolDataProvider = ''0x68100bD5345eA474D93577127C11F39FF8463e93'',
        cc_reservePairs = [usdc_weth_pair ''0x4200000000000000000000000000000000000006''
          ''0x0b2C639c533813f4Aa9D7837CAf62653d097Ff85'']\<rparr>),
      (''arbitrum'', \<lparr>cc_name = ''arbitrum'', cc_chainId = 42161, cc_blockExplorerUrl = ''https://arbiscan.io'',
        cc_pool = ''0x794a61358d6845594f94dc1db02a252b5b4814ad'',
        cc_poolAddressesProvider = ''0xa97684ead0e402dc232d5a977953df7ecbab3cdb'',
        cc_uiPoolDataProvider = ''0x91E04cf78e53aEBe609e8a7f2003e7EECD743F2B'',
        cc_reservePairs = [usdc_weth_pair ''0x82aF49447D8a07e3bd95BD0d56f35241523fBab1''
          ''0xaf88d065e77c8cC2239327C5EDb3A432268e5831'']\<rparr>),
      (''base'', \<lparr>cc_name = ''base'', cc_chainId = 8453, cc_blockExplorerUrl = ''https://basescan.org'',
        cc_pool = ''0xA238Dd80C259a72e81d7e4664a9801593F98d1c5'',
        cc_poolAddressesProvider = ''0xe20fCBdBfFC4Dd138cE8b2E6FBb6CB49777ad64D'',
        cc_uiPoolDataProvider = ''0x0C6BC4a12039788be08F87e87Cff87FEDbd1D386'',
        cc_reservePairs = [usdc_weth_pair ''0x4200000000000000000000000000000000000006''
          ''0x833589fCD6eDb6E08f4c7C32D4f71b54bdA02913'']\<rparr>)]"

definition getChainConfig :: "string \<Rightarrow> chain_config option" where
  "getChainConfig chain = js_get chainConfigs chain"

definition parseSupportedChain :: "string option \<Rightarrow> exn + string" where
  "parseSupportedChain v =
     (case v of
        None \<Rightarrow> Inr ''optimism''
      | Some s \<Rightarrow>
          (if str_trim s = [] then Inr ''optimism''
           else if s = ''optimism'' \<or> s = ''arbitrum'' \<or> s = ''base'' then Inr s
           else Inl (Exn (''Unsupported chain: '' @ s))))"

datatype pool_version = PoolV3 | PoolV4

text \<open>The environment variable is an argument.\<close>

definition resolveAavePoolVersion :: "string option \<Rightarrow> pool_version" where
  "resolveAavePoolVersion env =
     (if to_lower (str_trim (case env of Some s \<Rightarrow> s | None \<Rightarrow> ''v3'')) = ''v4'' then PoolV4 else PoolV3)"

definition defaultCloseFactorBps :: "pool_version \<Rightarrow> int \<Rightarrow> int" where
  "defaultCloseFactorBps v hf =
     (if v = PoolV4 then 10000 else if hf < 950000000000000000 then 10000 else 5000)"

section \<open>Accounts and candidates\<close>

record aave_user_account =
  ua_account :: address
  ua_totalCollateralBase :: int
  ua_totalDebtBase :: int
  ua_availableBorrowsBase :: int
  ua_currentLiquidationThreshold :: int
  ua_loanToValue :: int
  ua_healthFactor :: int

record 'w aave_client =
  ac_getUserAccountData :: "address \<Rightarrow> address \<Rightarrow> ('w, int \<times> int \<times> int \<times> int \<times> int \<times> int) io"
  ac_requestPage :: "nat \<Rightarrow> string \<Rightarrow> ('w, string list option) io"

definition ZERO_CURSOR_ID :: string where
  "ZERO_CURSOR_ID = ''0x0000000000000000000000000000000000000000''"

definition readUserAccount :: "'w aave_client \<Rightarrow> address \<Rightarrow> address \<Rightarrow> ('w, aave_user_account) io" where
  "readUserAccount client account pool =
     io_bind (ac_getUserAccountData client pool account) (\<lambda>(coll, debt, available, threshold, ltv, hf).
       io_return \<lparr>ua_account = account, ua_totalCollateralBase = coll, ua_totalDebtBase = debt,
         ua_availableBorrowsBase = available, ua_currentLiquidationThreshold = threshold,
         ua_loanToValue = ltv, ua_healthFactor = hf\<rparr>)"

definition account_health :: "aave_user_account \<Rightarrow> int" where
  "account_health u = calculateHealthFactor (ua_totalCollateralBase u) (ua_totalDebtBase u)
     (ua_currentLiquidationThreshold u) (Some (ua_healthFactor u))"

definition toLiquidationCandidate :: "aave_user_account \<Rightarrow> reserve_pair \<Rightarrow> liquidation_candidate" where
  "toLiquidationCandidate u pair =
     \<lparr>lc_account = ua_account u, lc_collateralAsset = rp_collateralAsset pair, lc_debtAsset = rp_debtAsset pair,
      lc_debtToCover = rp_defaultDebtToCoverWei pair, lc_repayValueUsd = rp_repayValueUsd pair,
      lc_liquidationBonusBps = rp_liquidationBonusBps pair, lc_effectiveLiquidationBonusBps = None,
      lc_closeFactorBps = None, lc_collateralReceivedWei = None, lc_bonusPercentage = None,
      lc_gasEstimate = None, lc_gasPrice = None, lc_healthFactor = account_health u\<rparr>"

definition firstReservePair :: "chain_config \<Rightarrow> exn + reserve_pair" where
  "firstReservePair chain =
     (case cc_reservePairs chain of
        [] \<Rightarrow> Inl (Exn (''No Aave reserve pairs configured for '' @ cc_name chain))
      | pair # _ \<Rightarrow> Inr pair)"

text \<open>Descending by bonus, then by repay value; the sort is stable.\<close>

definition selectBestReservePairForAccount :: "chain_config \<Rightarrow> aave_user_account \<Rightarrow> exn + reserve_pair" where
  "selectBestReservePairForAccount chain u =
     (case cc_reservePairs chain of
        [] \<Rightarrow> Inl (Exn (''No Aave reserve pairs configured for '' @ cc_name chain))
      | first # rest \<Rightarrow>
          (if ua_totalDebtBase u * 2 < ua_totalCollateralBase u
           then Inr (hd (sort_key (\<lambda>p. - rp_liquidationBonusBps p) (sort_key (\<lambda>p. - rp_repayValueUsd p) (first # rest))))
           else Inr first))"

section \<open>Paging\<close>

definition extractAddressFromPositionId :: "string \<Rightarrow> address" where
  "extractAddressFromPositionId positionId = takeWhile (\<lambda>c. c \<noteq> CHR ''-'') positionId"

text \<open>The test of the regular expression \<open>^0x[a-f0-9]{40}$\<close>.\<close>

definition is_hex_digit :: "char \<Rightarrow> bool" where
  "is_hex_digit c = (c \<in> set ''abcdef0123456789'')"

definition is_address :: "string \<Rightarrow> bool" where
  "is_address s \<longleftrightarrow> take 2 s = ''0x'' \<and> length s = 42 \<and> list_all is_hex_digit (drop 2 s)"

definition extractBorrowerAddresses :: "string list option \<Rightarrow> address list" where
  "extractBorrowerAddresses page =
     filter is_address (map (to_lower \<circ> extractAddressFromPositionId) (case page of None \<Rightarrow> [] | Some ps \<Rightarrow> ps))"

definition borrowerPageRowCount :: "string list option \<Rightarrow> nat" where
  "borrowerPageRowCount page = (case page of None \<Rightarrow> 0 | Some ps \<Rightarrow> length ps)"

definition lastBorrowerPageCursorId :: "string list option \<Rightarrow> string option" where
  "lastBorrowerPageCursorId page =
     (case page of None \<Rightarrow> None | Some ps \<Rightarrow> if ps = [] then None else Some (last ps))"

definition fetchBorrowerPage :: "'w aave_client \<Rightarrow> nat \<Rightarrow> string \<Rightarrow> ('w, string list option) io" where
  "fetchBorrowerPage client pageSize lastId = ac_requestPage client pageSize lastId"

partial_function (option) fetch_loop ::
  "'w aave_client \<Rightarrow> nat \<Rightarrow> string \<Rightarrow> address list \<Rightarrow> 'w \<Rightarrow> ((exn + address list) \<times> 'w) option" where
  "fetch_loop client pageSize lastId borrowers w =
     (case fetchBorrowerPage client pageSize lastId w of
        (Inl e, w') \<Rightarrow> Some (Inl e, w')
      | (Inr page, w') \<Rightarrow>
          (let positions = (case page of None \<Rightarrow> [] | Some ps \<Rightarrow> ps);
               borrowers' = fold js_add (map (to_lower \<circ> extractAddressFromPositionId) positions) borrowers
           in if positions = [] then Some (Inr borrowers, w')
              else if length positions < pageSize then Some (Inr borrowers', w')
              else fetch_loop client pageSize (last positions) borrowers' w'))"

definition fetchAllBorrowers :: "'w aave_client \<Rightarrow> nat \<Rightarrow> 'w \<Rightarrow> ((exn + address list) \<times> 'w) option" where
  "fetchAllBorrowers client pageSize w = fetch_loop client pageSize ZERO_CURSOR_ID [] w"

section \<open>The protocol object\<close>

record aave_protocol =
  ap_scanned :: nat
  ap_liquidatable :: nat
  ap_cursor :: string

definition ap_new :: aave_protocol where
  "ap_new = \<lparr>ap_scanned = 0, ap_liquidatable = 0, ap_cursor = ZERO_CURSOR_ID\<rparr>"

text \<open>The loop over the accounts of a page: each is read, and kept when its health factor is below one.\<close>

fun scan_accounts ::
  "'w aave_client \<Rightarrow> chain_config \<Rightarrow> address \<Rightarrow> address list \<Rightarrow> ('w, liquidation_candidate list) io" where
  "scan_accounts client chain pool [] = io_return []"
| "scan_accounts client chain pool (a # accounts) =
     io_bind (readUserAccount client a pool) (\<lambda>u.
       if account_health u < WAD
       then io_bind (io_lift (firstReservePair chain)) (\<lambda>pair.
              io_bind (scan_accounts client chain pool accounts) (\<lambda>rest. io_return (toLiquidationCandidate u pair # rest)))
       else scan_accounts client chain pool accounts)"

definition next_cursor :: "nat \<Rightarrow> string list option \<Rightarrow> string" where
  "next_cursor pageSize page =
     (if borrowerPageRowCount page < pageSize then ZERO_CURSOR_ID
      else (case lastBorrowerPageCursorId page of Some c \<Rightarrow> c | None \<Rightarrow> ZERO_CURSOR_ID))"

text \<open>
  One scan. The pool address is resolved for each account, and a chain that the registry does not
  know throws there: \<open>pool\<close> is the result of that lookup.
\<close>

definition scan_positions ::
  "'w aave_client \<Rightarrow> chain_config \<Rightarrow> exn + address \<Rightarrow> address list \<Rightarrow> ('w, liquidation_candidate list) io" where
  "scan_positions client chain pool borrowers =
     (case borrowers of
        [] \<Rightarrow> io_return []
      | _ \<Rightarrow> io_bind (io_lift pool) (\<lambda>p. scan_accounts client chain p borrowers))"

definition getLiquidatablePositions ::
  "'w aave_client \<Rightarrow> chain_config \<Rightarrow> exn + address \<Rightarrow> nat \<Rightarrow> aave_protocol \<Rightarrow> 'w \<Rightarrow>
   ((exn + liquidation_candidate list) \<times> aave_protocol) \<times> 'w" where
  "getLiquidatablePositions client chain pool pageSize st w =
     (case fetchBorrowerPage client pageSize (ap_cursor st) w of
        (Inl e, w1) \<Rightarrow> ((Inl e, st), w1)
      | (Inr page, w1) \<Rightarrow>
          (let borrowers = extractBorrowerAddresses page
           in case scan_positions client chain pool borrowers w1 of
                (Inl e, w2) \<Rightarrow> ((Inl e, st), w2)
              | (Inr positions, w2) \<Rightarrow>
                  ((Inr positions, \<lparr>ap_scanned = length borrowers, ap_liquidatable = length positions,
                     ap_cursor = next_cursor pageSize page\<rparr>), w2)))"

section \<open>A subgraph that answers the query\<close>

text \<open>
  The query asks for the first \<open>n\<close> positions in ascending order of their identifiers among those with
  an identifier above the cursor. \<open>serves ids\<close> says the service answers it over the positions \<open>ids\<close>.
\<close>

definition page_after :: "string list \<Rightarrow> nat \<Rightarrow> string \<Rightarrow> string list" where
  "page_after ids n lastId = take n (filter (\<lambda>x. lastId < x) ids)"

definition serves :: "string list \<Rightarrow> 'w aave_client \<Rightarrow> bool" where
  "serves ids client \<longleftrightarrow> (\<forall>n lastId w. ac_requestPage client n lastId w = (Inr (Some (page_after ids n lastId)), w))"

definition positions_ok :: "string list \<Rightarrow> bool" where
  "positions_ok ids \<longleftrightarrow> sorted_wrt (<) ids \<and> (\<forall>x \<in> set ids. ZERO_CURSOR_ID < x)"

lemma sorted_le_last: "sorted_wrt (<) xs \<Longrightarrow> x \<in> set xs \<Longrightarrow> x \<le> last xs" for xs :: "'a::linorder list"
  by (induction xs rule: rev_induct) (auto simp: sorted_wrt_append less_imp_le)

lemma filter_after_take:
  fixes rest :: "'a::linorder list"
  assumes "sorted_wrt (<) rest" "0 < n" "n \<le> length rest"
  shows "filter (\<lambda>x. last (take n rest) < x) rest = drop n rest"
proof -
  have ne: "take n rest \<noteq> []" using assms by auto
  have "sorted_wrt (<) (take n rest @ drop n rest)" using assms(1) by simp
  then have sep: "\<forall>x \<in> set (take n rest). \<forall>y \<in> set (drop n rest). x < y" and asc: "sorted_wrt (<) (take n rest)"
    unfolding sorted_wrt_append by auto
  have low: "\<forall>x \<in> set (take n rest). \<not> last (take n rest) < x"
    using sorted_le_last [OF asc] by (simp add: not_less)
  have "filter (\<lambda>x. last (take n rest) < x) (take n rest @ drop n rest) = drop n rest"
    using sep low ne by (simp only: filter_append) (simp add: filter_empty_conv)
  then show ?thesis by simp
qed

lemma filter_after_last:
  fixes ids :: "'a::linorder list"
  assumes "sorted_wrt (<) ids" "rest = filter (\<lambda>x. c < x) ids" "0 < n" "n \<le> length rest"
  shows "filter (\<lambda>x. last (take n rest) < x) ids = drop n rest"
proof -
  have sorted: "sorted_wrt (<) rest" using assms(1,2) by (simp add: sorted_wrt_filter)
  have "last (take n rest) \<in> set rest" using assms(3,4) by (metis in_set_takeD last_in_set length_greater_0_conv
    less_le_trans take_eq_Nil2 not_gr_zero)
  then have "c < last (take n rest)" using assms(2) by simp
  then have "filter (\<lambda>x. last (take n rest) < x) ids = filter (\<lambda>x. last (take n rest) < x) rest"
    unfolding assms(2) by (auto intro!: filter_cong dest: less_trans)
  also have "\<dots> = drop n rest" using sorted assms(3,4) by (rule filter_after_take)
  finally show ?thesis .
qed

definition borrower_key :: "string \<Rightarrow> address" where
  "borrower_key positionId = to_lower (extractAddressFromPositionId positionId)"

lemma fetch_loop_complete:
  assumes "serves ids client" "sorted_wrt (<) ids" "0 < n"
  shows "fetch_loop client n lastId borrowers w =
    Some (Inr (fold js_add (map borrower_key (filter (\<lambda>x. lastId < x) ids)) borrowers), w)"
proof (induction "length (filter (\<lambda>x. lastId < x) ids)" arbitrary: lastId borrowers rule: less_induct)
  case less
  let ?rest = "filter (\<lambda>x. lastId < x) ids"
  have page: "fetchBorrowerPage client n lastId w = (Inr (Some (take n ?rest)), w)"
    using assms(1) by (simp add: serves_def fetchBorrowerPage_def page_after_def)
  have key: "to_lower \<circ> extractAddressFromPositionId = borrower_key" by (auto simp: borrower_key_def)
  show ?case
  proof (cases "n \<le> length ?rest")
    case False
    then show ?thesis using assms(3) by (subst fetch_loop.simps) (auto simp: page key Let_def)
  next
    case True
    have after: "filter (\<lambda>x. last (take n ?rest) < x) ids = drop n ?rest"
      using filter_after_last [OF assms(2) refl assms(3) True] .
    have step: "fetch_loop client n lastId borrowers w =
        fetch_loop client n (last (take n ?rest)) (fold js_add (map borrower_key (take n ?rest)) borrowers) w"
      using True assms(3) by (subst fetch_loop.simps) (auto simp: page key Let_def)
    also have "\<dots> = Some (Inr (fold js_add (map borrower_key (drop n ?rest)) (fold js_add (map borrower_key (take n ?rest)) borrowers)), w)"
      using less [of "last (take n ?rest)"] True assms(3) unfolding after by simp
    also have "fold js_add (map borrower_key (drop n ?rest)) (fold js_add (map borrower_key (take n ?rest)) borrowers) =
        fold js_add (map borrower_key ?rest) borrowers"
      by (metis append_take_drop_id fold_append o_apply map_append)
    finally show ?thesis .
  qed
qed

section \<open>Properties\<close>

text \<open>C14. The enumeration of borrowers returns, and misses nobody: against a subgraph that answers the
  query over its positions, whatever the page size, \<open>fetchAllBorrowers\<close> ends with each account that
  has a position, in lower case and once.\<close>

theorem fetch_all_borrowers:
  assumes "serves ids client" "positions_ok ids" "0 < n"
  shows "\<exists>borrowers. fetchAllBorrowers client n w = Some (Inr borrowers, w) \<and> distinct borrowers \<and>
    set borrowers = borrower_key ` set ids"
proof -
  have all: "filter (\<lambda>x. ZERO_CURSOR_ID < x) ids = ids" using assms(2) by (simp add: positions_ok_def)
  show ?thesis
    using fetch_loop_complete [OF assms(1) _ assms(3), of ZERO_CURSOR_ID "[]" w] assms(2)
    by (simp add: fetchAllBorrowers_def positions_ok_def all fold_js_add)
qed

text \<open>A service over four positions of three accounts; every health factor it reads is 0.9.\<close>

definition sample_ids :: "string list" where
  "sample_ids = [''0x1-usdc'', ''0x1-weth'',
     ''0xa-usdc'', ''0xb-usdc'']"

definition sample_client :: "unit aave_client" where
  "sample_client = \<lparr>ac_getUserAccountData = (\<lambda>pool a w. (Inr (1000, 900, 0, 8000, 7500, 900000000000000000), w)),
     ac_requestPage = (\<lambda>n lastId w. (Inr (Some (page_after sample_ids n lastId)), w))\<rparr>"

lemma sample_client_ok: "serves sample_ids sample_client" "positions_ok sample_ids"
proof -
  show "serves sample_ids sample_client" by (simp add: serves_def sample_client_def)
  show "positions_ok sample_ids" by (simp add: positions_ok_def sample_ids_def ZERO_CURSOR_ID_def less_char_def)
qed

theorem fetch_all_borrowers_witness:
  "\<exists>borrowers. fetchAllBorrowers sample_client 2 () = Some (Inr borrowers, ()) \<and> set borrowers = {''0x1'', ''0xa'', ''0xb''}"
proof -
  have "map borrower_key sample_ids = [''0x1'', ''0x1'', ''0xa'', ''0xb'']" by code_simp
  then have "borrower_key ` set sample_ids = {''0x1'', ''0xa'', ''0xb''}" by (simp flip: list.set_map)
  then show ?thesis using fetch_all_borrowers [OF sample_client_ok, of 2 "()"] by auto
qed

text \<open>The cursors of successive scans, and what each scan reads.\<close>

fun cursor_after :: "string list \<Rightarrow> nat \<Rightarrow> nat \<Rightarrow> string \<Rightarrow> string" where
  "cursor_after ids n 0 c = c"
| "cursor_after ids n (Suc k) c = cursor_after ids n k (next_cursor n (Some (page_after ids n c)))"

lemma cursor_walk:
  assumes "sorted_wrt (<) ids" "0 < n" "i * n \<le> length (filter (\<lambda>x. c < x) ids)"
  shows "filter (\<lambda>x. cursor_after ids n i c < x) ids = drop (i * n) (filter (\<lambda>x. c < x) ids)"
  using assms(3)
proof (induction i arbitrary: c)
  case (Suc i)
  let ?rest = "filter (\<lambda>x. c < x) ids"
  have full: "n \<le> length ?rest" using Suc.prems by simp
  then have ne: "take n ?rest \<noteq> []" using assms(2) by auto
  have cursor: "next_cursor n (Some (page_after ids n c)) = last (take n ?rest)"
    using full ne by (simp add: next_cursor_def borrowerPageRowCount_def lastBorrowerPageCursorId_def page_after_def)
  have after: "filter (\<lambda>x. last (take n ?rest) < x) ids = drop n ?rest"
    using filter_after_last [OF assms(1) refl assms(2) full] .
  have "i * n \<le> length (filter (\<lambda>x. last (take n ?rest) < x) ids)" using Suc.prems by (simp add: after)
  from Suc.IH [OF this] show ?case by (simp add: cursor after add.commute)
qed simp

text \<open>From the zero cursor, each position is on the page of one of the first \<open>k\<close> cursors and the cursor is
  then back at zero, where \<open>k\<close> is the number of full pages plus one.\<close>

lemma cursor_round:
  assumes "positions_ok ids" "0 < n"
  shows "(\<forall>x \<in> set ids. \<exists>i \<le> length ids div n. x \<in> set (page_after ids n (cursor_after ids n i ZERO_CURSOR_ID))) \<and>
    cursor_after ids n (Suc (length ids div n)) ZERO_CURSOR_ID = ZERO_CURSOR_ID"
proof -
  let ?k = "length ids div n"
  have sorted: "sorted_wrt (<) ids" and all: "filter (\<lambda>x. ZERO_CURSOR_ID < x) ids = ids"
    using assms(1) by (simp_all add: positions_ok_def)
  have walk: "filter (\<lambda>x. cursor_after ids n i ZERO_CURSOR_ID < x) ids = drop (i * n) ids" if "i * n \<le> length ids" for i
    using cursor_walk [OF sorted assms(2), of i ZERO_CURSOR_ID] that by (simp add: all)
  have "\<exists>i \<le> ?k. x \<in> set (page_after ids n (cursor_after ids n i ZERO_CURSOR_ID))" if x: "x \<in> set ids" for x
  proof -
    obtain j where j: "j < length ids" "ids ! j = x" using x by (auto simp: in_set_conv_nth)
    have "j div n * n \<le> j" by (rule div_times_less_eq_dividend)
    then have le: "j div n \<le> ?k" "j div n * n \<le> length ids"
      using j(1) div_le_mono [of j "length ids" n] by linarith+
    have mod: "j mod n < n" "j div n * n + j mod n = j" using assms(2) by simp_all
    have "take n (drop (j div n * n) ids) ! (j mod n) = ids ! (j div n * n + j mod n)"
      using mod(1) le(2) by (simp only: nth_take nth_drop)
    then have "take n (drop (j div n * n) ids) ! (j mod n) = x" by (simp only: mod(2) j(2))
    moreover have "j mod n < length (take n (drop (j div n * n) ids))"
      using mod j(1) by (simp add: less_diff_conv add.commute)
    ultimately have "x \<in> set (take n (drop (j div n * n) ids))" by (metis nth_mem)
    then show ?thesis using le walk [OF le(2)] by (auto simp: page_after_def)
  qed
  moreover have "cursor_after ids n (Suc ?k) ZERO_CURSOR_ID = ZERO_CURSOR_ID"
  proof -
    have shift: "cursor_after ids n (Suc i) c = next_cursor n (Some (page_after ids n (cursor_after ids n i c)))" for i c
      by (induction i arbitrary: c) simp_all
    have "?k * n \<le> length ids" by simp
    then have "length (page_after ids n (cursor_after ids n ?k ZERO_CURSOR_ID)) = min n (length ids - ?k * n)"
      by (simp add: page_after_def walk)
    also have "\<dots> < n" using assms(2) by (simp add: minus_div_mult_eq_mod)
    finally show ?thesis unfolding shift by (simp add: next_cursor_def borrowerPageRowCount_def)
  qed
  ultimately show ?thesis by blast
qed

text \<open>A scan of one page, when the reads succeed.\<close>

lemma scan_accounts_reads:
  assumes reads: "\<And>a w. ac_getUserAccountData client pool a w = (Inr (x a, y a, z a, lt a, ltv a, hf a), w)"
    and pair: "firstReservePair chain = Inr pair"
  shows "\<exists>cs. scan_accounts client chain pool accounts w = (Inr cs, w) \<and>
    map lc_account cs = filter (\<lambda>a. hf a < WAD) accounts \<and>
    (\<forall>c \<in> set cs. lc_healthFactor c = hf (lc_account c) \<and> lc_debtToCover c = rp_defaultDebtToCoverWei pair \<and>
       lc_repayValueUsd c = rp_repayValueUsd pair)"
proof (induction accounts)
  case (Cons a accounts)
  then obtain cs where cs: "scan_accounts client chain pool accounts w = (Inr cs, w)"
    "map lc_account cs = filter (\<lambda>a. hf a < WAD) accounts"
    "\<forall>c \<in> set cs. lc_healthFactor c = hf (lc_account c) \<and> lc_debtToCover c = rp_defaultDebtToCoverWei pair \<and>
       lc_repayValueUsd c = rp_repayValueUsd pair" by blast
  then show ?case
    by (simp add: readUserAccount_def io_bind_def io_return_def io_lift_def reads pair account_health_def
      calculateHealthFactor_def toLiquidationCandidate_def)
qed (simp add: io_return_def)

lemma scan_page:
  assumes "serves ids client"
    and "\<And>a w. ac_getUserAccountData client pool a w = (Inr (x a, y a, z a, lt a, ltv a, hf a), w)"
    and "firstReservePair chain = Inr pair"
    and "accounts = extractBorrowerAddresses (Some (page_after ids n (ap_cursor st)))"
  shows "\<exists>cs. getLiquidatablePositions client chain (Inr pool) n st w =
      ((Inr cs, \<lparr>ap_scanned = length accounts, ap_liquidatable = length (filter (\<lambda>a. hf a < WAD) accounts),
         ap_cursor = cursor_after ids n 1 (ap_cursor st)\<rparr>), w) \<and>
    map lc_account cs = filter (\<lambda>a. hf a < WAD) accounts \<and>
    (\<forall>c \<in> set cs. lc_healthFactor c = hf (lc_account c) \<and> lc_debtToCover c = rp_defaultDebtToCoverWei pair \<and>
       lc_repayValueUsd c = rp_repayValueUsd pair)"
proof -
  obtain cs where cs: "scan_accounts client chain pool accounts w = (Inr cs, w)"
    "map lc_account cs = filter (\<lambda>a. hf a < WAD) accounts"
    and kept: "\<forall>c \<in> set cs. lc_healthFactor c = hf (lc_account c) \<and> lc_debtToCover c = rp_defaultDebtToCoverWei pair \<and>
       lc_repayValueUsd c = rp_repayValueUsd pair"
    using scan_accounts_reads [OF assms(2,3)] by blast
  have page: "fetchBorrowerPage client n (ap_cursor st) w = (Inr (Some (page_after ids n (ap_cursor st))), w)"
    using assms(1) by (simp add: serves_def fetchBorrowerPage_def)
  have positions: "scan_positions client chain (Inr pool) accounts w = (Inr cs, w)"
    using cs(1) by (cases accounts) (simp_all add: scan_positions_def io_bind_def io_lift_def)
  have "length cs = length (filter (\<lambda>a. hf a < WAD) accounts)" using cs(2) by (metis length_map)
  then have "getLiquidatablePositions client chain (Inr pool) n st w =
      ((Inr cs, \<lparr>ap_scanned = length accounts, ap_liquidatable = length (filter (\<lambda>a. hf a < WAD) accounts),
         ap_cursor = cursor_after ids n 1 (ap_cursor st)\<rparr>), w)"
    using positions by (simp add: getLiquidatablePositions_def page assms(4) [symmetric] Let_def)
  with cs(2) kept show ?thesis by blast
qed

text \<open>One scan of the broad search: with a subgraph that answers and reads that succeed, the
  candidates are the accounts of the page whose health factor on chain is below one, in order, the
  statistics count them and the cursor moves to the next page. Every candidate carries the configured
  amount and value of the chain's pair, whatever the account owes.\<close>

theorem scan_keeps_unhealthy:
  assumes "serves ids client"
    and "\<And>a w. ac_getUserAccountData client pool a w = (Inr (x a, y a, z a, lt a, ltv a, hf a), w)"
    and "firstReservePair chain = Inr pair"
    and "accounts = extractBorrowerAddresses (Some (page_after ids n (ap_cursor st)))"
  shows "\<exists>cs. getLiquidatablePositions client chain (Inr pool) n st w =
      ((Inr cs, \<lparr>ap_scanned = length accounts, ap_liquidatable = length (filter (\<lambda>a. hf a < WAD) accounts),
         ap_cursor = cursor_after ids n 1 (ap_cursor st)\<rparr>), w) \<and>
    map lc_account cs = filter (\<lambda>a. hf a < WAD) accounts \<and>
    (\<forall>c \<in> set cs. lc_healthFactor c = hf (lc_account c) \<and> lc_debtToCover c = rp_defaultDebtToCoverWei pair \<and>
       lc_repayValueUsd c = rp_repayValueUsd pair)"
  by (rule scan_page [OF assms])

text \<open>Successive scans with reads that succeed.\<close>

fun scans :: "'w aave_client \<Rightarrow> chain_config \<Rightarrow> address \<Rightarrow> nat \<Rightarrow> nat \<Rightarrow> aave_protocol \<Rightarrow> 'w \<Rightarrow> aave_protocol \<times> 'w" where
  "scans client chain pool n 0 st w = (st, w)"
| "scans client chain pool n (Suc k) st w =
     (case getLiquidatablePositions client chain (Inr pool) n st w of ((_, st'), w') \<Rightarrow> scans client chain pool n k st' w')"

lemma scans_cursor:
  assumes "serves ids client"
    and "\<And>a w. ac_getUserAccountData client pool a w = (Inr (x a, y a, z a, lt a, ltv a, hf a), w)"
    and "firstReservePair chain = Inr pair"
  shows "\<exists>st'. scans client chain pool n k st w = (st', w) \<and> ap_cursor st' = cursor_after ids n k (ap_cursor st)"
proof (induction k arbitrary: st)
  case (Suc k)
  obtain cs st1 where run: "getLiquidatablePositions client chain (Inr pool) n st w = ((Inr cs, st1), w)"
    and cursor: "ap_cursor st1 = cursor_after ids n 1 (ap_cursor st)"
    using scan_page [OF assms refl, of n st w] by force
  from Suc [of st1] show ?case by (simp add: run cursor)
qed simp

text \<open>C20. The rotating scan reaches everybody: from the zero cursor, every borrower of the subgraph whose
  health factor on chain is below one is a candidate of one of the first \<open>k\<close> scans, and the cursor is
  then back at zero, where \<open>k\<close> is the number of full pages plus one; so nobody waits longer than one round.\<close>

theorem scan_rotation:
  assumes "serves ids client" and "positions_ok ids" and "0 < n"
    and "\<And>a w. ac_getUserAccountData client pool a w = (Inr (x a, y a, z a, lt a, ltv a, hf a), w)"
    and "firstReservePair chain = Inr pair" and "ap_cursor st = ZERO_CURSOR_ID"
  shows "(\<forall>p \<in> set ids. is_address (borrower_key p) \<and> hf (borrower_key p) < WAD \<longrightarrow>
      (\<exists>i \<le> length ids div n. \<exists>st1 w1 cs st2. scans client chain pool n i st w = (st1, w1) \<and>
        getLiquidatablePositions client chain (Inr pool) n st1 w1 = ((Inr cs, st2), w1) \<and>
        borrower_key p \<in> lc_account ` set cs)) \<and>
    ap_cursor (fst (scans client chain pool n (Suc (length ids div n)) st w)) = ZERO_CURSOR_ID"
proof (intro conjI ballI impI)
  fix p assume p: "p \<in> set ids" and low: "is_address (borrower_key p) \<and> hf (borrower_key p) < WAD"
  from cursor_round [OF assms(2,3)] p obtain i where i: "i \<le> length ids div n"
    and page: "p \<in> set (page_after ids n (cursor_after ids n i ZERO_CURSOR_ID))" by blast
  obtain st1 where st1: "scans client chain pool n i st w = (st1, w)" "ap_cursor st1 = cursor_after ids n i ZERO_CURSOR_ID"
    using scans_cursor [OF assms(1,4,5), of n i st w] assms(6) by auto
  let ?accounts = "extractBorrowerAddresses (Some (page_after ids n (ap_cursor st1)))"
  obtain cs st2 where scan: "getLiquidatablePositions client chain (Inr pool) n st1 w = ((Inr cs, st2), w)"
    and kept: "map lc_account cs = filter (\<lambda>a. hf a < WAD) ?accounts"
    using scan_page [OF assms(1,4,5) refl, of n st1 w] by blast
  have "borrower_key p \<in> set ?accounts"
    using page low by (auto simp: extractBorrowerAddresses_def borrower_key_def st1(2))
  then have "borrower_key p \<in> set (map lc_account cs)" using low by (simp add: kept)
  then show "\<exists>i \<le> length ids div n. \<exists>st1 w1 cs st2. scans client chain pool n i st w = (st1, w1) \<and>
        getLiquidatablePositions client chain (Inr pool) n st1 w1 = ((Inr cs, st2), w1) \<and>
        borrower_key p \<in> lc_account ` set cs"
    using i st1(1) scan by auto
next
  show "ap_cursor (fst (scans client chain pool n (Suc (length ids div n)) st w)) = ZERO_CURSOR_ID"
    using scans_cursor [OF assms(1,4,5), of n "Suc (length ids div n)" st w] cursor_round [OF assms(2,3)] assms(6) by auto
qed

definition round_ids :: "string list" where
  "round_ids = [''0x00000000000000000000000000000000000000ab-usdc'',
     ''0x00000000000000000000000000000000000000cd-usdc'', ''0x00000000000000000000000000000000000000ef-usdc'']"

definition round_client :: "unit aave_client" where
  "round_client = sample_client\<lparr>ac_requestPage := (\<lambda>n lastId w. (Inr (Some (page_after round_ids n lastId)), w))\<rparr>"

theorem scan_rotation_witness:
  "\<exists>i \<le> 1. \<exists>st1 cs st2. scans round_client (the (getChainConfig ''base'')) ''0xpool'' 2 i ap_new () = (st1, ()) \<and>
     getLiquidatablePositions round_client (the (getChainConfig ''base'')) (Inr ''0xpool'') 2 st1 () = ((Inr cs, st2), ()) \<and>
     ''0x00000000000000000000000000000000000000ef'' \<in> lc_account ` set cs"
proof -
  let ?chain = "the (getChainConfig ''base'')" and ?p = "''0x00000000000000000000000000000000000000ef-usdc''"
  have serves: "serves round_ids round_client" by (simp add: serves_def round_client_def)
  have ids: "positions_ok round_ids" by (simp add: positions_ok_def round_ids_def ZERO_CURSOR_ID_def less_char_def)
  have reads: "ac_getUserAccountData round_client ''0xpool'' a w = (Inr (1000, 900, 0, 8000, 7500, 900000000000000000), w)" for a w
    by (simp add: round_client_def sample_client_def)
  obtain pair where pair: "firstReservePair ?chain = Inr pair"
    by (auto simp: getChainConfig_def chainConfigs_def js_get_def firstReservePair_def)
  have key: "borrower_key ?p = ''0x00000000000000000000000000000000000000ef''" by code_simp
  have address: "is_address ''0x00000000000000000000000000000000000000ef''" by code_simp
  have mem: "?p \<in> set round_ids" and len: "length round_ids div 2 = 1" by (simp_all add: round_ids_def)
  have low: "is_address (borrower_key ?p) \<and> (900000000000000000::int) < WAD"
    unfolding key using address by (simp add: WAD_def)
  have cursor: "ap_cursor ap_new = ZERO_CURSOR_ID" by (simp add: ap_new_def)
  note round = conjunct1 [OF scan_rotation [OF serves ids _ reads pair cursor, of 2 "()"]]
  from round mem low obtain i st1 w1 cs st2 where "i \<le> length round_ids div 2"
    "scans round_client ?chain ''0xpool'' 2 i ap_new () = (st1, w1)"
    "getLiquidatablePositions round_client ?chain (Inr ''0xpool'') 2 st1 w1 = ((Inr cs, st2), w1)"
    "borrower_key ?p \<in> lc_account ` set cs"
    by (metis zero_less_numeral)
  then show ?thesis unfolding key len by (intro exI conjI) (assumption | simp)+
qed

definition one_position :: "string list" where
  "one_position = [''0x00000000000000000000000000000000000000ab-usdc'']"

definition one_client :: "unit aave_client" where
  "one_client = sample_client\<lparr>ac_requestPage := (\<lambda>n lastId w. (Inr (Some (page_after one_position n lastId)), w))\<rparr>"

theorem scan_keeps_unhealthy_witness:
  "\<exists>cs st'. getLiquidatablePositions one_client (the (getChainConfig ''base'')) (Inr ''0xpool'') 50
      (ap_new\<lparr>ap_cursor := ''0x''\<rparr>) () = ((Inr cs, st'), ()) \<and>
     map lc_account cs = [''0x00000000000000000000000000000000000000ab''] \<and> map lc_repayValueUsd cs = [1]"
proof -
  let ?chain = "the (getChainConfig ''base'')" and ?st = "ap_new\<lparr>ap_cursor := ''0x''\<rparr>"
  obtain pair where pair: "firstReservePair ?chain = Inr pair" "rp_repayValueUsd pair = 1"
    by (auto simp: getChainConfig_def chainConfigs_def js_get_def firstReservePair_def usdc_weth_pair_def)
  have serves: "serves one_position one_client" by (simp add: serves_def one_client_def)
  have reads: "ac_getUserAccountData one_client ''0xpool'' a w = (Inr (1000, 900, 0, 8000, 7500, 900000000000000000), w)" for a w
    by (simp add: one_client_def sample_client_def)
  have page: "page_after one_position 50 (ap_cursor ?st) = one_position"
    by (simp add: page_after_def one_position_def less_char_def)
  have accounts: "[''0x00000000000000000000000000000000000000ab''] = extractBorrowerAddresses (Some (page_after one_position 50 (ap_cursor ?st)))"
    unfolding page by code_simp
  obtain cs st' where run: "getLiquidatablePositions one_client ?chain (Inr ''0xpool'') 50 ?st () = ((Inr cs, st'), ())"
    and cs: "map lc_account cs = filter (\<lambda>a. (900000000000000000::int) < WAD) [''0x00000000000000000000000000000000000000ab'']"
      "\<forall>c \<in> set cs. lc_repayValueUsd c = rp_repayValueUsd pair"
    using scan_keeps_unhealthy [OF serves reads pair(1) accounts] by blast
  have one: "map lc_account cs = [''0x00000000000000000000000000000000000000ab'']" using cs(1) by (simp add: WAD_def)
  then obtain c where "cs = [c]" by (cases cs) auto
  with cs(2) pair(2) have "map lc_repayValueUsd cs = [1]" by simp
  with run one show ?thesis by (intro exI conjI)
qed

end
