(* ===== verification/Liquidation_Request.thy ===== *)
theory Liquidation_Request
  imports Profitability Safe_Executor Aave_Protocol
begin

text \<open>
  How a liquidation candidate becomes an execution request, and whether it pays:
  \<open>src/executors/liquidationExecutionAdapter.ts\<close>, the expected-value functions of
  \<open>src/utils/evCalculator.ts\<close> that take dollars or wei, \<open>src/profitability/liquidationProfitabilityGate.ts\<close> and
  \<open>src/protocols/liquidationFlashLoanReceiver.ts\<close>.

  A \<open>Number\<close> of dollars or basis points is a rational: rounding of doubles, infinities and NaN are not
  modelled, so the \<open>isFinite\<close> tests always hold. The ABI encoders of viem are the fields of an argument
  of type \<open>abi_codec\<close>; they may throw.
\<close>

section \<open>Expected value\<close>

definition js_round :: "rat \<Rightarrow> int" where
  "js_round x = \<lfloor>x + 1 / 2\<rfloor>"

text \<open>\<open>BigInt(n)\<close> of a number throws unless it is an integer.\<close>

definition bigint_of :: "rat \<Rightarrow> exn + int" where
  "bigint_of x = (if of_int \<lfloor>x\<rfloor> = x then Inr \<lfloor>x\<rfloor> else Inl (Exn ''RangeError: not an integer''))"

definition js_trunc :: "rat \<Rightarrow> int" where
  "js_trunc x = (if 0 \<le> x then \<lfloor>x\<rfloor> else \<lceil>x\<rceil>)"

record liquidation_ev_input =
  le_repayValueUsd :: rat
  le_liquidationBonusBps :: rat
  le_gasCostUsd :: rat
  le_slippageBps :: rat
  le_minProfitUsd :: rat

record flash_ev_input = liquidation_ev_input +
  le_flashFeeBps :: rat

record liquidation_ev =
  lv_expectedProfitUsd :: rat
  lv_isProfitable :: bool

definition assertNonNegative :: "string \<Rightarrow> rat \<Rightarrow> exn + unit" where
  "assertNonNegative name v = (if v < 0 then Inl (Exn (name @ '' must be a non-negative finite number'')) else Inr ())"

definition assertNonNegativeBigint :: "string \<Rightarrow> int \<Rightarrow> exn + unit" where
  "assertNonNegativeBigint name v = (if v < 0 then Inl (Exn (name @ '' must be a non-negative bigint'')) else Inr ())"

text \<open>Assertions in sequence: the first that fails throws.\<close>

fun all_asserted :: "(exn + unit) list \<Rightarrow> exn + unit" where
  "all_asserted [] = Inr ()"
| "all_asserted (Inl e # rest) = Inl e"
| "all_asserted (Inr u # rest) = all_asserted rest"

definition calculateLiquidationEv :: "liquidation_ev_input \<Rightarrow> exn + liquidation_ev" where
  "calculateLiquidationEv i =
     (case all_asserted [assertNonNegative ''repayValueUsd'' (le_repayValueUsd i),
         assertNonNegative ''liquidationBonusBps'' (le_liquidationBonusBps i),
         assertNonNegative ''gasCostUsd'' (le_gasCostUsd i),
         assertNonNegative ''slippageBps'' (le_slippageBps i),
         assertNonNegative ''minProfitUsd'' (le_minProfitUsd i)] of
        Inl e \<Rightarrow> Inl e
      | Inr _ \<Rightarrow>
          (let bonusUsd = le_repayValueUsd i * (le_liquidationBonusBps i / 10000);
               slippageUsd = le_repayValueUsd i * (le_slippageBps i / 10000);
               expectedProfitUsd = bonusUsd - le_gasCostUsd i - slippageUsd
           in Inr \<lparr>lv_expectedProfitUsd = expectedProfitUsd, lv_isProfitable = (le_minProfitUsd i \<le> expectedProfitUsd)\<rparr>))"

definition calculateFlashWrappedLiquidationEv :: "flash_ev_input \<Rightarrow> exn + liquidation_ev" where
  "calculateFlashWrappedLiquidationEv i =
     (case assertNonNegative ''flashFeeBps'' (le_flashFeeBps i) of
        Inl e \<Rightarrow> Inl e
      | Inr _ \<Rightarrow>
          (let flashFeeUsd = le_repayValueUsd i * (le_flashFeeBps i / 10000)
           in calculateLiquidationEv
                \<lparr>le_repayValueUsd = le_repayValueUsd i, le_liquidationBonusBps = le_liquidationBonusBps i,
                 le_gasCostUsd = le_gasCostUsd i + flashFeeUsd, le_slippageBps = le_slippageBps i,
                 le_minProfitUsd = le_minProfitUsd i\<rparr>))"

record liquidation_ev_wei =
  lw_profitWei :: int
  lw_rawProfitWei :: int
  lw_gasCostWei :: int
  lw_slippageBufferWei :: int
  lw_isProfitable :: bool

definition MIN_PROFIT_THRESHOLD_WEI :: int where
  "MIN_PROFIT_THRESHOLD_WEI = 10000000000000000"

definition defaultSlippageBufferBps :: int where
  "defaultSlippageBufferBps = 100"

definition calculateLiquidationEV :: "int \<Rightarrow> int \<Rightarrow> rat \<Rightarrow> int \<Rightarrow> int \<Rightarrow> int option \<Rightarrow> exn + liquidation_ev_wei" where
  "calculateLiquidationEV debtToCover collateralReceived bonusPercentage gasEstimate gasPrice threshold =
     (let minProfitThreshold = (case threshold of Some t \<Rightarrow> t | None \<Rightarrow> MIN_PROFIT_THRESHOLD_WEI)
      in case all_asserted [assertNonNegativeBigint ''debtToCover'' debtToCover,
           assertNonNegativeBigint ''collateralReceived'' collateralReceived,
           assertNonNegativeBigint ''gasEstimate'' gasEstimate,
           assertNonNegativeBigint ''gasPrice'' gasPrice,
           assertNonNegativeBigint ''minProfitThreshold'' minProfitThreshold,
           assertNonNegative ''bonusPercentage'' bonusPercentage] of
          Inl e \<Rightarrow> Inl e
        | Inr _ \<Rightarrow>
            (let bonusWei = bdiv (collateralReceived * js_trunc bonusPercentage) BPS;
                 gasCostWei = gasEstimate * gasPrice;
                 slippageBufferWei = bdiv (collateralReceived * defaultSlippageBufferBps) BPS;
                 rawProfitWei = bonusWei - gasCostWei - slippageBufferWei;
                 profitable = (minProfitThreshold \<le> rawProfitWei)
             in Inr \<lparr>lw_profitWei = (if profitable then rawProfitWei else 0), lw_rawProfitWei = rawProfitWei,
                  lw_gasCostWei = gasCostWei, lw_slippageBufferWei = slippageBufferWei, lw_isProfitable = profitable\<rparr>))"

section \<open>The profitability gate\<close>

record profit_gate_input =
  pg_debtUsd :: rat
  pg_liquidationBonusBps :: rat
  pg_gasCostUsd :: rat
  pg_flashFeeBps :: rat
  pg_hardFloorUsd :: rat
  pg_safetyBufferMultiplier :: "rat option"

record profit_gate_result =
  pr_pass :: bool
  pr_dynamicFloor :: rat
  pr_hardFloor :: rat
  pr_effectiveFloor :: rat
  pr_gasCostUsd :: rat
  pr_flashFeeUsd :: rat
  pr_bonusRate :: rat
  pr_netProfitUsd :: rat

definition evaluateLiquidationProfitability :: "profit_gate_input \<Rightarrow> profit_gate_result" where
  "evaluateLiquidationProfitability i =
     (let bonusRate = pg_liquidationBonusBps i / 10000;
          effectiveBonusRate = (if 0 < bonusRate then bonusRate else 500 / 10000);
          flashFeeUsd = pg_debtUsd i * (pg_flashFeeBps i / 10000);
          buffer = (case pg_safetyBufferMultiplier i of Some b \<Rightarrow> b | None \<Rightarrow> 125 / 100);
          dynamicFloor = ((pg_gasCostUsd i + flashFeeUsd) / effectiveBonusRate) * buffer;
          hardFloor = pg_hardFloorUsd i;
          effectiveFloor = max dynamicFloor hardFloor;
          estimatedBonus = pg_debtUsd i * effectiveBonusRate;
          netProfitUsd = estimatedBonus - pg_gasCostUsd i - flashFeeUsd
      in \<lparr>pr_pass = (effectiveFloor \<le> pg_debtUsd i), pr_dynamicFloor = dynamicFloor, pr_hardFloor = hardFloor,
          pr_effectiveFloor = effectiveFloor, pr_gasCostUsd = pg_gasCostUsd i, pr_flashFeeUsd = flashFeeUsd,
          pr_bonusRate = effectiveBonusRate, pr_netProfitUsd = netProfitUsd\<rparr>)"

definition estimateLiquidationGasCostUsd :: "int \<Rightarrow> int \<Rightarrow> rat option \<Rightarrow> rat option \<Rightarrow> rat" where
  "estimateLiquidationGasCostUsd gasPriceWei nativePriceUsd8 gasUnits gasBufferMultiplier =
     (if nativePriceUsd8 \<le> 0 then 0
      else (let units = (case gasUnits of Some u \<Rightarrow> u | None \<Rightarrow> 420000);
                multiplier = (case gasBufferMultiplier of Some m \<Rightarrow> m | None \<Rightarrow> 15 / 10);
                bufferedGasUnits = \<lceil>units * multiplier\<rceil>;
                gasCostWei = gasPriceWei * bufferedGasUnits
            in of_int (bdiv (gasCostWei * nativePriceUsd8) 1000000000000000000) / 100000000))"

section \<open>Transactions\<close>

datatype abi_value = AbiAddress address | AbiUint int | AbiBool bool | AbiBytes string | AbiList "abi_value list"

record abi_codec =
  abi_call :: "string \<Rightarrow> abi_value list \<Rightarrow> exn + string"
  abi_params :: "abi_value list \<Rightarrow> exn + string"

record liquidation_route =
  lr_collateralAsset :: address
  lr_debtAsset :: address
  lr_user :: address
  lr_debtToCover :: int
  lr_minCollateralOut :: int
  lr_receiveAToken :: "bool option"

definition route_values :: "int \<Rightarrow> liquidation_route \<Rightarrow> abi_value list" where
  "route_values kind r =
     [AbiUint kind, AbiAddress (lr_collateralAsset r), AbiAddress (lr_debtAsset r), AbiAddress (lr_user r),
      AbiUint (lr_debtToCover r), AbiUint (lr_minCollateralOut r),
      AbiBool (case lr_receiveAToken r of Some b \<Rightarrow> b | None \<Rightarrow> False)]"

definition encodeLiquidationRoute :: "abi_codec \<Rightarrow> liquidation_route \<Rightarrow> exn + string" where
  "encodeLiquidationRoute abi r = abi_params abi (route_values 0 r)"

definition encodeMoonwellRoute :: "abi_codec \<Rightarrow> liquidation_route \<Rightarrow> exn + string" where
  "encodeMoonwellRoute abi r = abi_params abi (route_values 1 r)"

definition encodeMorphoRoute :: "abi_codec \<Rightarrow> liquidation_route \<Rightarrow> exn + string" where
  "encodeMorphoRoute abi r = abi_params abi (route_values 2 r)"

definition balancerVault :: address where
  "balancerVault = ''0xBA12222222228d8Ba445958a75a0704d566BF2C8''"

record flash_config =
  fc_pool :: address
  fc_receiver :: address
  fc_debtAsset :: address
  fc_debtToCover :: int
  fc_routeParams :: string
  fc_referralCode :: int

definition toFlashWrappedEnvelope :: "abi_codec \<Rightarrow> flash_provider \<Rightarrow> flash_config \<Rightarrow> exn + transaction" where
  "toFlashWrappedEnvelope abi provider c =
     (if provider = Balancer
      then map_sum id (\<lambda>d. \<lparr>tx_to = balancerVault, tx_data = d, tx_provider = provider\<rparr>)
        (abi_call abi ''flashLoan''
          [AbiAddress (fc_receiver c), AbiList [AbiAddress (fc_debtAsset c)], AbiList [AbiUint (fc_debtToCover c)],
           AbiBytes (fc_routeParams c)])
      else map_sum id (\<lambda>d. \<lparr>tx_to = fc_pool c, tx_data = d, tx_provider = provider\<rparr>)
        (abi_call abi ''flashLoanSimple''
          [AbiAddress (fc_receiver c), AbiAddress (fc_debtAsset c), AbiUint (fc_debtToCover c),
           AbiBytes (fc_routeParams c), AbiUint (fc_referralCode c)]))"

section \<open>The request\<close>

record adapter_config =
  ad_account :: address
  ad_minProfitUsd :: rat
  ad_gasCostUsd :: rat
  ad_slippageBps :: rat
  ad_minimumMarginBps :: rat
  ad_flashLoanReceiverAddress :: "address option"
  ad_flashLoanReferralCode :: "int option"
  ad_requireFlashLoanWrapper :: "bool option"
  ad_flashFeeBps :: "rat option"
  ad_slippageBufferFloorBps :: "rat option"
  ad_poolAddress :: "address option"

definition AAVE_V3_BASE_FLASH_FEE_BPS :: rat where
  "AAVE_V3_BASE_FLASH_FEE_BPS = 9"

definition usdRaw :: "rat \<Rightarrow> exn + asset_amount" where
  "usdRaw v = createAssetAmount usd_asset (max 0 (js_round (v * 10 ^ 8)))"

text \<open>The pool version comes from the environment.\<close>

definition estimateMinimumCollateralOut :: "pool_version \<Rightarrow> liquidation_candidate \<Rightarrow> rat \<Rightarrow> exn + int" where
  "estimateMinimumCollateralOut version c slippageBps =
     (let closeFactor = (case lc_closeFactorBps c of Some f \<Rightarrow> f | None \<Rightarrow> defaultCloseFactorBps version (lc_healthFactor c));
          bonusBps = (case lc_effectiveLiquidationBonusBps c of Some b \<Rightarrow> b | None \<Rightarrow> lc_liquidationBonusBps c);
          debtCovered = bdiv (lc_debtToCover c * closeFactor) 10000;
          grossCollateral = debtCovered + bdiv (debtCovered * bonusBps) 10000
      in case bigint_of slippageBps of
           Inl e \<Rightarrow> Inl e
         | Inr slippage \<Rightarrow>
             (let haircut = bdiv (grossCollateral * slippage) 10000
              in Inr (if haircut < grossCollateral then grossCollateral - haircut else 0)))"

definition effective_slippage :: "adapter_config \<Rightarrow> rat" where
  "effective_slippage cfg = max (ad_slippageBps cfg) (case ad_slippageBufferFloorBps cfg of Some f \<Rightarrow> f | None \<Rightarrow> 500)"

definition opportunity_id :: "string \<Rightarrow> liquidation_candidate \<Rightarrow> string" where
  "opportunity_id chain c = chain @ '':'' @ lc_account c @ '':'' @ lc_debtAsset c"

text \<open>The amounts of the route input, each in dollars with eight decimals.\<close>

definition request_route_input ::
  "string \<Rightarrow> liquidation_candidate \<Rightarrow> adapter_config \<Rightarrow> exn + route_selection_input" where
  "request_route_input chain c cfg =
     (case traverse usdRaw
         [lc_repayValueUsd c * (of_int (lc_liquidationBonusBps c) / 10000), lc_repayValueUsd c, ad_gasCostUsd cfg,
          lc_repayValueUsd c * effective_slippage cfg / 10000, ad_minProfitUsd cfg / 4, 0] of
        Inl e \<Rightarrow> Inl e
      | Inr amounts \<Rightarrow>
          Inr \<lparr>ri_chain = chain, ri_opportunityId = opportunity_id chain c, ri_revenue = amounts ! 0,
            ri_debt = amounts ! 1, ri_gas = amounts ! 2, ri_swapCost = amounts ! 5,
            ri_slippageBuffer = amounts ! 3, ri_safetyBuffer = amounts ! 4,
            ri_capitalAtRisk = (if ad_flashLoanReceiverAddress cfg = None then amounts ! 1 else amounts ! 2),
            ri_minimumMarginBps = ad_minimumMarginBps cfg\<rparr>)"

definition request_pool :: "string \<Rightarrow> adapter_config \<Rightarrow> exn + address" where
  "request_pool chain cfg =
     (case ad_poolAddress cfg of
        Some p \<Rightarrow> Inr p
      | None \<Rightarrow> (case getChainConfig chain of Some cc \<Rightarrow> Inr (cc_pool cc) | None \<Rightarrow> Inl (Exn ''TypeError: chain'')))"

definition flash_envelope ::
  "abi_codec \<Rightarrow> liquidation_candidate \<Rightarrow> adapter_config \<Rightarrow> address \<Rightarrow> address \<Rightarrow> string \<Rightarrow> route_result \<Rightarrow> exn + transaction" where
  "flash_envelope abi c cfg pool receiver routeParams route =
     toFlashWrappedEnvelope abi (route_provider route)
       \<lparr>fc_pool = pool, fc_receiver = receiver, fc_debtAsset = lc_debtAsset c, fc_debtToCover = lc_debtToCover c,
        fc_routeParams = routeParams, fc_referralCode = (case ad_flashLoanReferralCode cfg of Some r \<Rightarrow> r | None \<Rightarrow> 0)\<rparr>"

text \<open>\<open>liquidationCall\<close> sent to the pool by the bot's own account.\<close>

definition direct_envelope :: "abi_codec \<Rightarrow> liquidation_candidate \<Rightarrow> address \<Rightarrow> route_result \<Rightarrow> exn + transaction" where
  "direct_envelope abi c pool route =
     map_sum id (\<lambda>d. \<lparr>tx_to = pool, tx_data = d, tx_provider = route_provider route\<rparr>)
       (abi_call abi ''liquidationCall''
         [AbiAddress (lc_collateralAsset c), AbiAddress (lc_debtAsset c), AbiAddress (lc_account c),
          AbiUint (lc_debtToCover c), AbiBool False])"

definition request_ev_input :: "liquidation_candidate \<Rightarrow> adapter_config \<Rightarrow> flash_ev_input" where
  "request_ev_input c cfg =
     \<lparr>le_repayValueUsd = lc_repayValueUsd c, le_liquidationBonusBps = of_int (lc_liquidationBonusBps c),
      le_gasCostUsd = ad_gasCostUsd cfg, le_slippageBps = effective_slippage cfg, le_minProfitUsd = ad_minProfitUsd cfg,
      le_flashFeeBps = (case ad_flashFeeBps cfg of Some f \<Rightarrow> f | None \<Rightarrow> AAVE_V3_BASE_FLASH_FEE_BPS)\<rparr>"

text \<open>
  The steps in the order of the code: the expected value (only its assertions matter, the result is
  not used), the amounts, the pool, the receiver, the minimum collateral and the route parameters.
\<close>

definition buildLiquidationExecutionRequest ::
  "abi_codec \<Rightarrow> pool_version \<Rightarrow> string \<Rightarrow> liquidation_candidate \<Rightarrow> adapter_config \<Rightarrow> exn + exec_request" where
  "buildLiquidationExecutionRequest abi version chain c cfg =
     (case calculateFlashWrappedLiquidationEv (request_ev_input c cfg) of
        Inl e \<Rightarrow> Inl e
      | Inr _ \<Rightarrow>
     (case request_route_input chain c cfg of
        Inl e \<Rightarrow> Inl e
      | Inr routeInput \<Rightarrow>
     (case request_pool chain cfg of
        Inl e \<Rightarrow> Inl e
      | Inr pool \<Rightarrow>
     (if ad_requireFlashLoanWrapper cfg = Some True \<and> ad_flashLoanReceiverAddress cfg = None
      then Inl (Exn ''flashLoanReceiverAddress is required when flash-loan wrapper enforcement is enabled'')
      else
     (case estimateMinimumCollateralOut version c (effective_slippage cfg) of
        Inl e \<Rightarrow> Inl e
      | Inr minCollateralOut \<Rightarrow>
     (case encodeLiquidationRoute abi
         \<lparr>lr_collateralAsset = lc_collateralAsset c, lr_debtAsset = lc_debtAsset c, lr_user = lc_account c,
          lr_debtToCover = lc_debtToCover c, lr_minCollateralOut = minCollateralOut, lr_receiveAToken = Some False\<rparr> of
        Inl e \<Rightarrow> Inl e
      | Inr routeParams \<Rightarrow>
          Inr \<lparr>rq_chain = chain, rq_account = ad_account cfg, rq_opportunityId = opportunity_id chain c,
            rq_gasProfileKey = ''liq:'' @ to_lower (lc_collateralAsset c) @ '':'' @ to_lower (lc_debtAsset c),
            rq_routeInput = routeInput,
            rq_gasLimitHint = Some \<lparr>gh_collateralAsset = lc_collateralAsset c, gh_debtAsset = lc_debtAsset c,
              gh_usesFlashWrapper = (ad_flashLoanReceiverAddress cfg \<noteq> None)\<rparr>,
            rq_buildTransaction =
              (case ad_flashLoanReceiverAddress cfg of
                 None \<Rightarrow> direct_envelope abi c pool
               | Some receiver \<Rightarrow> flash_envelope abi c cfg pool receiver routeParams),
            rq_buildPreview =
              (case ad_flashLoanReceiverAddress cfg of
                 None \<Rightarrow> None
               | Some receiver \<Rightarrow> Some (flash_envelope abi c cfg pool receiver routeParams))\<rparr>))))))"

section \<open>Lemmas\<close>

lemma js_round_mono: "x \<le> y \<Longrightarrow> js_round x \<le> js_round y"
  by (simp add: js_round_def floor_mono)

lemma usd_amount_ok: "amount_ok \<lparr>am_asset = usd_asset, am_raw = max 0 n\<rparr>"
  by (simp add: amount_ok_def createAsset_def usd_asset_def)

lemma usdRaw_Inr: "usdRaw v = Inr \<lparr>am_asset = usd_asset, am_raw = max 0 (js_round (v * 10 ^ 8))\<rparr>"
  by (simp add: usdRaw_def createAssetAmount_def createAsset_def usd_asset_def)

lemma usdRaw_mono:
  assumes "usdRaw v = Inr a" "usdRaw w = Inr b" "v \<le> w"
  shows "am_raw a \<le> am_raw b"
proof -
  have "js_round (v * 10 ^ 8) \<le> js_round (w * 10 ^ 8)" by (rule js_round_mono) (simp add: assms(3))
  then show ?thesis using assms by (auto simp: usdRaw_Inr)
qed

lemma all_asserted_Inr: "all_asserted as = Inr u \<Longrightarrow> a \<in> set as \<Longrightarrow> \<not> isl a"
  by (induction as rule: all_asserted.induct) auto

lemma liquidation_ev_inputs:
  assumes "calculateLiquidationEv i = Inr r"
  shows "0 \<le> le_repayValueUsd i \<and> 0 \<le> le_liquidationBonusBps i"
proof -
  obtain u where u: "all_asserted [assertNonNegative ''repayValueUsd'' (le_repayValueUsd i),
         assertNonNegative ''liquidationBonusBps'' (le_liquidationBonusBps i),
         assertNonNegative ''gasCostUsd'' (le_gasCostUsd i), assertNonNegative ''slippageBps'' (le_slippageBps i),
         assertNonNegative ''minProfitUsd'' (le_minProfitUsd i)] = Inr u"
    using assms by (auto simp: calculateLiquidationEv_def split: sum.splits)
  show ?thesis
    using all_asserted_Inr [OF u, of "assertNonNegative ''repayValueUsd'' (le_repayValueUsd i)"]
      all_asserted_Inr [OF u, of "assertNonNegative ''liquidationBonusBps'' (le_liquidationBonusBps i)"]
    by (auto simp: assertNonNegative_def split: if_splits)
qed

lemma flash_ev_inputs:
  assumes "calculateFlashWrappedLiquidationEv i = Inr r"
  shows "0 \<le> le_repayValueUsd i \<and> 0 \<le> le_liquidationBonusBps i"
proof -
  let ?i = "\<lparr>le_repayValueUsd = le_repayValueUsd i, le_liquidationBonusBps = le_liquidationBonusBps i,
    le_gasCostUsd = le_gasCostUsd i + le_repayValueUsd i * (le_flashFeeBps i / 10000),
    le_slippageBps = le_slippageBps i, le_minProfitUsd = le_minProfitUsd i\<rparr>"
  have "calculateLiquidationEv ?i = Inr r"
    using assms unfolding calculateFlashWrappedLiquidationEv_def Let_def by (simp split: sum.splits)
  from liquidation_ev_inputs [OF this] show ?thesis by simp
qed

text \<open>What a built request says: the inputs were not negative, and its route input is the one computed.\<close>

lemma built_request:
  assumes "buildLiquidationExecutionRequest abi version chain c cfg = Inr req"
  shows "request_route_input chain c cfg = Inr (rq_routeInput req) \<and> 0 \<le> lc_repayValueUsd c \<and>
    0 \<le> lc_liquidationBonusBps c"
proof -
  obtain r where r: "calculateFlashWrappedLiquidationEv (request_ev_input c cfg) = Inr r"
    using assms by (auto simp: buildLiquidationExecutionRequest_def split: sum.splits)
  have "0 \<le> lc_repayValueUsd c \<and> 0 \<le> lc_liquidationBonusBps c"
    using flash_ev_inputs [OF r] by (simp add: request_ev_input_def)
  moreover have "request_route_input chain c cfg = Inr (rq_routeInput req)"
    using assms by (auto simp: buildLiquidationExecutionRequest_def split: sum.splits if_splits)
  ultimately show ?thesis by blast
qed

lemma route_input_fields:
  assumes "request_route_input chain c cfg = Inr i"
  shows "\<forall>a \<in> {ri_revenue i, ri_debt i, ri_gas i, ri_swapCost i, ri_slippageBuffer i, ri_safetyBuffer i, ri_capitalAtRisk i}.
      amount_ok a \<and> am_asset a = usd_asset"
    and "usdRaw (lc_repayValueUsd c * (of_int (lc_liquidationBonusBps c) / 10000)) = Inr (ri_revenue i)"
    and "usdRaw (lc_repayValueUsd c) = Inr (ri_debt i)"
    and "ri_chain i = chain" and "ri_minimumMarginBps i = ad_minimumMarginBps cfg"
  using assms by (auto simp: request_route_input_def usdRaw_Inr usd_amount_ok)

section \<open>Properties\<close>

lemma provider_rejects_loss:
  assumes "request_route_input chain c cfg = Inr i" and "am_raw (ri_revenue i) \<le> am_raw (ri_debt i)"
    and "ad_minimumMarginBps cfg = of_int margin" and "1 \<le> margin"
    and "registry_get registry chain = Inr rc" and "cb_status (cbs_execution (rc_circuitBreakers rc)) \<noteq> Open"
    and fee: "fr_providerFees rt p = Some fee" "amount_ok fee" "am_asset fee = usd_asset"
  shows "\<exists>si q n m r. toSimulationInput rt i p = Inr si \<and> evaluate registry simulate si = Inr (Rejected q r n m)"
proof -
  note fields = route_input_fields [OF assms(1)]
  define si where "si = route_selection_input.extend i (profit_simulation_input.fields p fee)"
  have si: "toSimulationInput rt i p = Inr si" using fee(1) by (simp add: toSimulationInput_def si_def)
  have costs: "set (np_costs (net_profit_of si)) =
      {ri_debt i, ri_gas i, fee, ri_swapCost i, ri_slippageBuffer i, ri_safetyBuffer i}"
    by (auto simp: si_def np_costs_def net_profit_of_def route_selection_input.defs profit_simulation_input.defs)
  have same: "ri_revenue si = ri_revenue i" "ri_capitalAtRisk si = ri_capitalAtRisk i"
    "ri_chain si = chain" "ri_minimumMarginBps si = of_int margin" "ps_provider si = p"
    using fields(4,5) assms(3) by (simp_all add: si_def route_selection_input.defs profit_simulation_input.defs)
  have "total_cost si = am_raw (ri_debt i) + (am_raw (ri_gas i) + am_raw fee + am_raw (ri_swapCost i)
      + am_raw (ri_slippageBuffer i) + am_raw (ri_safetyBuffer i))"
    by (simp add: total_cost_def si_def np_costs_def net_profit_of_def route_selection_input.defs profit_simulation_input.defs)
  moreover have "0 \<le> am_raw (ri_gas i)" "0 \<le> am_raw fee" "0 \<le> am_raw (ri_swapCost i)"
    "0 \<le> am_raw (ri_slippageBuffer i)" "0 \<le> am_raw (ri_safetyBuffer i)" "0 \<le> am_raw (ri_capitalAtRisk i)"
    using fields(1) fee(2) by (simp_all add: amount_ok_def)
  ultimately have cost: "am_raw (ri_revenue si) \<le> total_cost si" and capital: "0 \<le> am_raw (ri_capitalAtRisk si)"
    using assms(2) by (simp_all add: same)
  have ok: "input_ok si" and assets: "\<forall>a \<in> set (np_costs (net_profit_of si)). am_asset a = am_asset (ri_revenue si)"
    and asset: "am_asset (ri_capitalAtRisk si) = am_asset (ri_revenue si)"
    using fields(1) fee(2,3) by (simp_all add: input_ok_def costs same)
  have "registry_get registry (ri_chain si) = Inr rc" using assms(5) by (simp only: same)
  from evaluate_rejects_loss [OF this ok assets cost asset same(4) _ _ capital] assms(4,6) si
  show ?thesis by fastforce
qed

text \<open>C7. A request of the adapter never passes the router: the adapter passes the liquidation bonus as the
  revenue, without the repaid principal that the collateral returns, and the router subtracts the
  whole debt. With a bonus of at most 100 percent, a minimum margin of one basis point or more and
  fees in dollars, every provider is rejected, whatever the simulator answers.\<close>

theorem liquidation_requests_rejected:
  assumes "buildLiquidationExecutionRequest abi version chain c cfg = Inr req"
    and "lc_liquidationBonusBps c \<le> 10000"
    and "ad_minimumMarginBps cfg = of_int margin" and "1 \<le> margin"
    and "registry_get registry chain = Inr rc"
    and "cb_status (cbs_execution (rc_circuitBreakers rc)) \<noteq> Open"
    and "\<forall>p \<in> set (rc_flashLoanProviders rc). \<exists>fee. fr_providerFees rt p = Some fee \<and> amount_ok fee \<and> am_asset fee = usd_asset"
    and "js_get (fr_routeCache rt) (cacheKey (rq_routeInput req)) = None"
  shows "fst (selectBestRoute registry simulate now later (rq_routeInput req) rt) = Inr (RouteRejected NoProfitableProvider)"
proof -
  let ?i = "rq_routeInput req"
  have built: "request_route_input chain c cfg = Inr ?i" "0 \<le> lc_repayValueUsd c" "0 \<le> lc_liquidationBonusBps c"
    using built_request [OF assms(1)] by auto
  note fields = route_input_fields [OF built(1)]
  have "lc_repayValueUsd c * (of_int (lc_liquidationBonusBps c) / 10000) \<le> lc_repayValueUsd c * 1"
    using built(2) assms(2) by (intro mult_left_mono) (simp_all add: divide_le_eq)
  then have loss: "am_raw (ri_revenue ?i) \<le> am_raw (ri_debt ?i)"
    by (intro usdRaw_mono [OF fields(2,3)]) simp
  have "approved_routes registry simulate rt ?i (rc_flashLoanProviders rc) = Inr []"
  proof (rule approved_routes_none)
    fix p assume "p \<in> set (rc_flashLoanProviders rc)"
    with assms(7) obtain fee where fee: "fr_providerFees rt p = Some fee" "amount_ok fee" "am_asset fee = usd_asset"
      by blast
    show "\<exists>si q n m r. toSimulationInput rt ?i p = Inr si \<and> evaluate registry simulate si = Inr (Rejected q r n m)"
      by (rule provider_rejects_loss [OF built(1) loss assms(3-6) fee])
  qed
  moreover have "registry_get registry (ri_chain ?i) = Inr rc" using assms(5) by (simp only: fields(4))
  ultimately show ?thesis
    using assms(6) by (simp only: selectBestRoute_def Let_def assms(8) sum.case option.case if_False fst_conv sort_key_simps list.case)
qed


lemma div_10000:
  fixes x :: int
  assumes "0 \<le> x"
  shows "x div 10000 * 10000 \<le> x \<and> x < x div 10000 * 10000 + 10000 \<and> 0 \<le> x div 10000"
proof -
  have "x div 10000 * 10000 + x mod 10000 = x" by (rule div_mult_mod_eq)
  moreover have "0 \<le> x mod 10000" "x mod 10000 < 10000" "0 \<le> x div 10000"
    using assms by (simp_all add: pos_imp_zdiv_nonneg_iff)
  ultimately show ?thesis by linarith
qed

lemma haircut_bounds:
  fixes out :: int
  assumes "t = g * 10000 - x" "x \<le> g * 10000" "q * 10000 \<le> x" "x < q * 10000 + 10000" "0 \<le> q" "out = g - q"
  shows "0 \<le> out \<and> out \<le> g \<and> t \<le> out * 10000 \<and> out * 10000 < t + 10000"
  using assms by simp

text \<open>The minimum collateral is never negative, and for a slippage between zero and 100 percent it is
  the covered debt with its bonus less the slippage, rounded up.\<close>

theorem min_collateral_bounds:
  assumes "estimateMinimumCollateralOut version c slippage = Inr out"
    and "0 \<le> slippage" and "slippage \<le> 10000"
    and "gross = bdiv (lc_debtToCover c * f) 10000 + bdiv (bdiv (lc_debtToCover c * f) 10000 * b) 10000"
    and "f = (case lc_closeFactorBps c of Some f \<Rightarrow> f | None \<Rightarrow> defaultCloseFactorBps version (lc_healthFactor c))"
    and "b = (case lc_effectiveLiquidationBonusBps c of Some b \<Rightarrow> b | None \<Rightarrow> lc_liquidationBonusBps c)"
    and "0 \<le> gross"
  shows "0 \<le> out \<and> out \<le> gross \<and> gross * (10000 - \<lfloor>slippage\<rfloor>) \<le> out * 10000 \<and>
    out * 10000 < gross * (10000 - \<lfloor>slippage\<rfloor>) + 10000"
proof -
  let ?s = "\<lfloor>slippage\<rfloor>"
  have s: "0 \<le> ?s" "?s \<le> 10000" using assms(2,3) by (auto simp: floor_le_iff)
  have "gross * ?s \<le> gross * 10000" using s(2) assms(7) by (rule mult_left_mono)
  moreover have haircut: "bdiv (gross * ?s) 10000 = gross * ?s div 10000"
    using s assms(7) by (simp add: bdiv_nonneg_eq)
  moreover have "0 \<le> gross * ?s" using s assms(7) by simp
  ultimately have "0 \<le> bdiv (gross * ?s) 10000" "bdiv (gross * ?s) 10000 \<le> gross" by linarith+
  then have out: "out = gross - gross * ?s div 10000"
    using assms(1,4,5,6) haircut by (auto simp: estimateMinimumCollateralOut_def Let_def bigint_of_def split: if_splits)
  have le: "gross * ?s \<le> gross * 10000" using s(2) assms(7) by (rule mult_left_mono)
  have "0 \<le> gross * ?s" using s assms(7) by simp
  then have q: "gross * ?s div 10000 * 10000 \<le> gross * ?s \<and> gross * ?s < gross * ?s div 10000 * 10000 + 10000 \<and>
      0 \<le> gross * ?s div 10000" by (rule div_10000)
  show ?thesis by (rule haircut_bounds [OF right_diff_distrib le _ _ _ out]) (simp_all only: q)
qed

text \<open>The witnesses: a position of 1,000 dollars at a bonus of five percent, on Base.\<close>

definition sample_config :: adapter_config where
  "sample_config = \<lparr>ad_account = ''0xb0'', ad_minProfitUsd = 5, ad_gasCostUsd = 1 / 2, ad_slippageBps = 50,
     ad_minimumMarginBps = 75, ad_flashLoanReceiverAddress = Some ''0xf1'', ad_flashLoanReferralCode = None,
     ad_requireFlashLoanWrapper = Some True, ad_flashFeeBps = Some 5, ad_slippageBufferFloorBps = Some 50,
     ad_poolAddress = Some ''0xe1''\<rparr>"

definition sample_abi :: abi_codec where
  "sample_abi = \<lparr>abi_call = (\<lambda>f args. Inr (''0x'' @ f)), abi_params = (\<lambda>args. Inr ''0x'')\<rparr>"

definition sample_gate :: profit_gate_input where
  "sample_gate = \<lparr>pg_debtUsd = 1000, pg_liquidationBonusBps = 500, pg_gasCostUsd = 1 / 2, pg_flashFeeBps = 5,
     pg_hardFloorUsd = 100, pg_safetyBufferMultiplier = None\<rparr>"

definition usd_fees :: "flash_provider \<Rightarrow> asset_amount option" where
  "usd_fees p = Some \<lparr>am_asset = usd_asset, am_raw = 5000000\<rparr>"

theorem liquidation_requests_rejected_witness:
  "pr_pass (evaluateLiquidationProfitability sample_gate) \<and> pr_netProfitUsd (evaluateLiquidationProfitability sample_gate) = 49 \<and>
   (\<exists>req. buildLiquidationExecutionRequest sample_abi PoolV3 ''base'' sample_candidate sample_config = Inr req \<and>
     fst (selectBestRoute base_registry faithful_call 0 0 (rq_routeInput req) (new_router usd_fees)) =
       Inr (RouteRejected NoProfitableProvider))"
proof -
  have gate: "pr_pass (evaluateLiquidationProfitability sample_gate)" "pr_netProfitUsd (evaluateLiquidationProfitability sample_gate) = 49"
    by (simp_all add: evaluateLiquidationProfitability_def sample_gate_def Let_def)
  have "\<not> isl (buildLiquidationExecutionRequest sample_abi PoolV3 ''base'' sample_candidate sample_config)"
    by code_simp
  then obtain req where req: "buildLiquidationExecutionRequest sample_abi PoolV3 ''base'' sample_candidate sample_config = Inr req"
    by (cases "buildLiquidationExecutionRequest sample_abi PoolV3 ''base'' sample_candidate sample_config") auto
  have "fst (selectBestRoute base_registry faithful_call 0 0 (rq_routeInput req) (new_router usd_fees)) =
       Inr (RouteRejected NoProfitableProvider)"
    by (rule liquidation_requests_rejected [OF req _ _ _ base_registry_get, where margin = 75])
      (simp_all add: sample_candidate_def sample_config_def createRegisteredChain_def base_input_def or_else_def Let_def
        default_breakers_def closed_breaker_def usd_fees_def new_router_def amount_ok_def createAsset_def usd_asset_def)
  with gate req show ?thesis by blast
qed

theorem min_collateral_bounds_witness:
  "estimateMinimumCollateralOut PoolV3 sample_candidate 50 = Inr 522375000 \<and> 522375000 * 10000 < 525000000 * (10000 - 50) + (10000::int)"
proof -
  have run: "estimateMinimumCollateralOut PoolV3 sample_candidate 50 = Inr 522375000"
    by (simp add: estimateMinimumCollateralOut_def bigint_of_def Let_def sample_candidate_def defaultCloseFactorBps_def bdiv_def)
  have "525000000 = bdiv (lc_debtToCover sample_candidate * 5000) 10000 + bdiv (bdiv (lc_debtToCover sample_candidate * 5000) 10000 * 500) 10000"
    by (simp add: sample_candidate_def bdiv_def)
  note bounds = min_collateral_bounds [OF run _ _ this]
  have "0 \<le> (522375000 :: int) \<and> 522375000 \<le> (525000000 :: int) \<and> 525000000 * (10000 - \<lfloor>50 :: rat\<rfloor>) \<le> 522375000 * 10000 \<and>
      522375000 * 10000 < 525000000 * (10000 - \<lfloor>50 :: rat\<rfloor>) + 10000"
    by (rule bounds) (simp_all add: sample_candidate_def defaultCloseFactorBps_def)
  with run show ?thesis by simp
qed

end
