(* ===== verification/Cycle_Diagnostics.thy ===== *)
theory Cycle_Diagnostics
  imports Complex_Main Prelude
begin

text \<open>
  \<open>src/observability/cycleDiagnostics.ts\<close>, the rows and counters of one pipeline cycle, and
  \<open>src/utils/dustLogCooldown.ts\<close>, the limiter of the log lines on small positions. A dollar amount is
  a rational. A skip reason is a string in the code; here it is a constructor with the number that
  the string shows, so that equal constructors are equal strings. The module's one active collector
  is the argument of \<open>getCycleDiagnosticsCollector\<close>.
\<close>

section \<open>Rows\<close>

datatype row_kind = LiquidationRow | ArbitrageRow | ExecutionRow

text \<open>\<open>x.toFixed(n)\<close> as a number of units of ten to the minus n: rounded to nearest, halves away from zero.\<close>

definition to_fixed :: "nat \<Rightarrow> rat \<Rightarrow> int" where
  "to_fixed n x = (if x < 0 then - \<lfloor>- x * 10 ^ n + 1 / 2\<rfloor> else \<lfloor>x * 10 ^ n + 1 / 2\<rfloor>)"

datatype skip_reason = OracleSanityDeviation | BelowEffectiveFloor int | NearLiquidation int | HealthyHf int | OtherReason string

record diagnostic_row =
  dr_kind :: row_kind
  dr_account :: address
  dr_stage :: string
  dr_grossProfitUsd :: rat
  dr_gasCostUsd :: rat
  dr_netDeltaUsd :: rat
  dr_failureMarginBps :: int
  dr_skipReason :: "skip_reason option"
  dr_passed :: bool

section \<open>The collector\<close>

record diagnostics_collector =
  cd_rows :: "diagnostic_row list"
  cd_revenueUsd :: rat
  cd_evaluations :: int
  cd_sims :: int

definition cd_new :: diagnostics_collector where
  "cd_new = \<lparr>cd_rows = [], cd_revenueUsd = 0, cd_evaluations = 0, cd_sims = 0\<rparr>"

definition cd_record :: "diagnostic_row \<Rightarrow> diagnostics_collector \<Rightarrow> diagnostics_collector" where
  "cd_record row c =
     (let c1 = c\<lparr>cd_rows := cd_rows c @ [row], cd_evaluations := cd_evaluations c + 1\<rparr>
      in if dr_passed row then c1\<lparr>cd_revenueUsd := cd_revenueUsd c1 + dr_netDeltaUsd row\<rparr> else c1)"

definition cd_recordSim :: "diagnostics_collector \<Rightarrow> diagnostics_collector" where
  "cd_recordSim c = c\<lparr>cd_sims := cd_sims c + 1\<rparr>"

definition cd_reset :: "diagnostics_collector \<Rightarrow> diagnostics_collector" where
  "cd_reset c = c\<lparr>cd_rows := [], cd_revenueUsd := 0, cd_evaluations := 0, cd_sims := 0\<rparr>"

definition skip_key :: "diagnostic_row \<Rightarrow> skip_reason" where
  "skip_key row = (case dr_skipReason row of Some r \<Rightarrow> r | None \<Rightarrow> OtherReason ''unknown'')"

definition count_reason :: "skip_reason \<Rightarrow> (skip_reason, int) jsmap \<Rightarrow> (skip_reason, int) jsmap" where
  "count_reason key counts = js_set key ((case js_get counts key of Some n \<Rightarrow> n | None \<Rightarrow> 0) + 1) counts"

definition summarizeSkipReasons :: "diagnostic_row list \<Rightarrow> (skip_reason \<times> int) list" where
  "summarizeSkipReasons rows =
     take 5 (sort_key (\<lambda>e. - snd e) (fold (\<lambda>row. count_reason (skip_key row)) rows []))"

text \<open>The numbers and the top reasons that the summary line prints, and the other fields of a snapshot.\<close>

record diagnostics_snapshot =
  ds_passed :: int
  ds_skipped :: int
  ds_topReasons :: "(skip_reason \<times> int) list"
  ds_rows :: "diagnostic_row list"
  ds_revenue :: rat
  ds_evaluations :: int
  ds_sims :: int
  ds_sent :: int
  ds_oppsPerBlock :: rat

definition cd_snapshot :: "int \<Rightarrow> int \<Rightarrow> diagnostics_collector \<Rightarrow> diagnostics_snapshot" where
  "cd_snapshot sent blocksDelta c =
     (let skipped = filter (\<lambda>r. \<not> dr_passed r) (cd_rows c)
      in \<lparr>ds_passed = int (length (filter dr_passed (cd_rows c))), ds_skipped = int (length skipped),
          ds_topReasons = summarizeSkipReasons skipped, ds_rows = cd_rows c, ds_revenue = cd_revenueUsd c,
          ds_evaluations = cd_evaluations c, ds_sims = cd_sims c, ds_sent = sent,
          ds_oppsPerBlock = (if 0 < blocksDelta then of_int (cd_evaluations c) / of_int blocksDelta
                             else of_int (cd_evaluations c))\<rparr>)"

definition getCycleDiagnosticsCollector :: "diagnostics_collector option \<Rightarrow> diagnostics_collector \<times> diagnostics_collector option" where
  "getCycleDiagnosticsCollector active =
     (case active of None \<Rightarrow> (cd_new, Some cd_new) | Some c \<Rightarrow> (c, active))"

definition resetCycleDiagnosticsCollector :: "diagnostics_collector option \<Rightarrow> diagnostics_collector option" where
  "resetCycleDiagnosticsCollector active = None"

section \<open>The limiter of dust log lines\<close>

record dust_log_cooldown =
  dl_intervalMs :: int
  dl_maxEntries :: int
  dl_lastLoggedAtMs :: "(string, int) jsmap"

definition dl_new :: "int option \<Rightarrow> int option \<Rightarrow> dust_log_cooldown" where
  "dl_new intervalMs maxEntries =
     \<lparr>dl_intervalMs = (case intervalMs of Some i \<Rightarrow> i | None \<Rightarrow> 60000),
      dl_maxEntries = (case maxEntries of Some n \<Rightarrow> n | None \<Rightarrow> 10000), dl_lastLoggedAtMs = []\<rparr>"

definition shouldLog :: "string \<Rightarrow> int \<Rightarrow> dust_log_cooldown \<Rightarrow> bool \<times> dust_log_cooldown" where
  "shouldLog key nowMs d =
     (if (case js_get (dl_lastLoggedAtMs d) key of Some lastMs \<Rightarrow> nowMs - lastMs < dl_intervalMs d | None \<Rightarrow> False)
      then (False, d)
      else (let entries = (if dl_maxEntries d \<le> int (length (dl_lastLoggedAtMs d)) then [] else dl_lastLoggedAtMs d)
            in (True, d\<lparr>dl_lastLoggedAtMs := js_set key nowMs entries\<rparr>)))"

section \<open>Lemmas\<close>

definition reason_count :: "skip_reason \<Rightarrow> diagnostic_row list \<Rightarrow> int" where
  "reason_count r rows = int (length (filter (\<lambda>row. skip_key row = r) rows))"

lemma counts_wf: "js_wf m \<Longrightarrow> js_wf (fold (\<lambda>row. count_reason (skip_key row)) rows m)"
  by (induction rows arbitrary: m) (simp_all add: count_reason_def)

lemma counts_get:
  "js_get (fold (\<lambda>row. count_reason (skip_key row)) rows m) r =
     (if reason_count r rows = 0 then js_get m r
      else Some ((case js_get m r of Some n \<Rightarrow> n | None \<Rightarrow> 0) + reason_count r rows))"
  by (induction rows arbitrary: m) (auto simp: count_reason_def reason_count_def split: option.splits)

lemma counts_mem:
  "(r, n) \<in> set (fold (\<lambda>row. count_reason (skip_key row)) rows []) \<longleftrightarrow> n = reason_count r rows \<and> 0 < n"
proof -
  have "js_wf (fold (\<lambda>row. count_reason (skip_key row)) rows [])" by (rule counts_wf) simp
  from js_get_iff [OF this, of r n] show ?thesis
    by (auto simp: counts_get reason_count_def split: if_splits)
qed

lemma take_sorted_le:
  fixes f :: "'a \<Rightarrow> int"
  assumes "x \<in> set (take k (sort_key f xs))" "y \<in> set xs" "y \<notin> set (take k (sort_key f xs))"
  shows "f x \<le> f y"
proof -
  have "set (sort_key f xs) = set (take k (sort_key f xs)) \<union> set (drop k (sort_key f xs))"
    by (metis append_take_drop_id set_append)
  then have "y \<in> set (drop k (sort_key f xs))" using assms(2,3) by auto
  moreover have "sorted (map f (take k (sort_key f xs) @ drop k (sort_key f xs)))"
    unfolding append_take_drop_id by (rule sorted_sort_key)
  ultimately show ?thesis using assms(1) unfolding map_append sorted_append by auto
qed

text \<open>What the collector holds after a cycle of records and simulations.\<close>

definition cd_inv :: "diagnostics_collector \<Rightarrow> bool" where
  "cd_inv c \<longleftrightarrow> cd_evaluations c = int (length (cd_rows c)) \<and>
     cd_revenueUsd c = sum_list (map dr_netDeltaUsd (filter dr_passed (cd_rows c))) \<and> 0 \<le> cd_sims c"

lemma cd_inv_new [wf_intros]: "cd_inv cd_new"
  by (simp add: cd_inv_def cd_new_def)

lemma cd_inv_record [wf_intros]: "cd_inv c \<Longrightarrow> cd_inv (cd_record row c)"
  by (simp add: cd_inv_def cd_record_def Let_def)

lemma cd_inv_sim [wf_intros]: "cd_inv c \<Longrightarrow> cd_inv (cd_recordSim c)"
  by (simp add: cd_inv_def cd_recordSim_def)

lemma cd_inv_reset [wf_intros]: "cd_inv (cd_reset c)"
  by (simp add: cd_inv_def cd_reset_def)

section \<open>Properties\<close>

text \<open>The report of a cycle is exact: the numbers of passed and skipped rows add up to the evaluations,
  the revenue is that of the passed rows, each top reason carries the number of its skipped rows, and
  a reason that is left out occurs no more often than any that is listed.\<close>

theorem cycle_report_exact:
  assumes "cd_inv c" and "s = cd_snapshot sent blocks c"
  shows "ds_passed s + ds_skipped s = ds_evaluations s
    \<and> ds_revenue s = sum_list (map dr_netDeltaUsd (filter dr_passed (ds_rows s)))
    \<and> length (ds_topReasons s) \<le> 5
    \<and> (\<forall>(r, n) \<in> set (ds_topReasons s). n = reason_count r (filter (\<lambda>row. \<not> dr_passed row) (ds_rows s)) \<and> 0 < n)
    \<and> (\<forall>row \<in> set (ds_rows s). \<not> dr_passed row \<longrightarrow> skip_key row \<notin> fst ` set (ds_topReasons s) \<longrightarrow>
         (\<forall>(r, n) \<in> set (ds_topReasons s). reason_count (skip_key row) (filter (\<lambda>row. \<not> dr_passed row) (ds_rows s)) \<le> n))"
proof -
  let ?skipped = "filter (\<lambda>row. \<not> dr_passed row) (cd_rows c)"
  let ?counts = "fold (\<lambda>row. count_reason (skip_key row)) ?skipped []"
  have s: "ds_rows s = cd_rows c" "ds_topReasons s = take 5 (sort_key (\<lambda>e. - snd e) ?counts)"
    by (simp_all add: assms(2) cd_snapshot_def summarizeSkipReasons_def Let_def)
  have mem: "(r, n) \<in> set ?counts" if "(r, n) \<in> set (ds_topReasons s)" for r n
    using that unfolding s by (metis in_set_takeD set_sort)
  have numbers: "ds_passed s + ds_skipped s = ds_evaluations s"
    using assms sum_length_filter_compl [of dr_passed "cd_rows c"]
    by (simp add: cd_snapshot_def cd_inv_def Let_def flip: of_nat_add)
  have revenue: "ds_revenue s = sum_list (map dr_netDeltaUsd (filter dr_passed (ds_rows s)))"
    using assms by (simp add: cd_snapshot_def cd_inv_def Let_def)
  have counted: "\<forall>(r, n) \<in> set (ds_topReasons s). n = reason_count r ?skipped \<and> 0 < n"
    using mem counts_mem by blast
  have least: "reason_count (skip_key row) ?skipped \<le> n"
    if "row \<in> set (cd_rows c)" "\<not> dr_passed row" "skip_key row \<notin> fst ` set (ds_topReasons s)"
      "(r, n) \<in> set (ds_topReasons s)" for row r n
  proof -
    let ?e = "(skip_key row, reason_count (skip_key row) ?skipped)"
    have "row \<in> set (filter (\<lambda>r. skip_key r = skip_key row) ?skipped)" using that(1,2) by simp
    then have "0 < reason_count (skip_key row) ?skipped"
      unfolding reason_count_def by (metis length_pos_if_in_set of_nat_0_less_iff)
    then have "?e \<in> set ?counts" by (simp only: counts_mem simp_thms)
    moreover have "?e \<notin> set (ds_topReasons s)" using that(3) by force
    ultimately show ?thesis using take_sorted_le [of "(r, n)" 5 "\<lambda>e. - snd e" ?counts ?e] that(4) unfolding s by simp
  qed
  show ?thesis
    using numbers revenue counted least by (auto simp: s)
qed

definition sample_row :: "skip_reason option \<Rightarrow> diagnostic_row" where
  "sample_row skip = \<lparr>dr_kind = LiquidationRow, dr_account = ''0xa'', dr_stage = ''poll'', dr_grossProfitUsd = 5, dr_gasCostUsd = 1,
     dr_netDeltaUsd = 4, dr_failureMarginBps = 0, dr_skipReason = skip, dr_passed = (skip = None)\<rparr>"

definition sample_cycle :: diagnostics_collector where
  "sample_cycle = fold (\<lambda>skip. cd_record (sample_row skip))
     [None, Some (BelowEffectiveFloor 10000), Some OracleSanityDeviation, Some OracleSanityDeviation, None] cd_new"

theorem cycle_report_exact_witness:
  "ds_passed (cd_snapshot 0 1 sample_cycle) + ds_skipped (cd_snapshot 0 1 sample_cycle) = 5 \<and>
   ds_revenue (cd_snapshot 0 1 sample_cycle) = 8"
proof -
  have inv: "cd_inv sample_cycle" unfolding sample_cycle_def by (simp add: wf_intros)
  have "ds_evaluations (cd_snapshot 0 1 sample_cycle) = 5"
    "sum_list (map dr_netDeltaUsd (filter dr_passed (ds_rows (cd_snapshot 0 1 sample_cycle)))) = 8"
    by (simp_all add: cd_snapshot_def Let_def sample_cycle_def cd_record_def cd_new_def sample_row_def)
  with cycle_report_exact [OF inv refl, of 0 1] show ?thesis by metis
qed

text \<open>The limiter logs a key at most once per interval, unless it had to forget: with room for the
  keys, after a line at one time no line of that key passes before the interval is over.\<close>

theorem dust_log_rate_limited:
  assumes "shouldLog key t d = (True, d')" and "t2 - t < dl_intervalMs d"
    and "\<forall>(k, u) \<in> set others. k \<noteq> key" and "int (length (dl_lastLoggedAtMs d)) + int (length others) < dl_maxEntries d"
  shows "\<not> fst (shouldLog key t2 (fold (\<lambda>(k, u) d. snd (shouldLog k u d)) others d'))"
proof -
  have step: "dl_maxEntries (snd (shouldLog k u e)) = dl_maxEntries e \<and> dl_intervalMs (snd (shouldLog k u e)) = dl_intervalMs e
      \<and> length (dl_lastLoggedAtMs (snd (shouldLog k u e))) \<le> Suc (length (dl_lastLoggedAtMs e))
      \<and> (k \<noteq> key \<longrightarrow> int (length (dl_lastLoggedAtMs e)) < dl_maxEntries e \<longrightarrow>
           js_get (dl_lastLoggedAtMs (snd (shouldLog k u e))) key = js_get (dl_lastLoggedAtMs e) key)" for k u e
    by (auto simp: shouldLog_def Let_def length_js_set split: option.splits)
  have "js_get (dl_lastLoggedAtMs (fold (\<lambda>(k, u) d. snd (shouldLog k u d)) es e)) key = js_get (dl_lastLoggedAtMs e) key \<and>
      dl_intervalMs (fold (\<lambda>(k, u) d. snd (shouldLog k u d)) es e) = dl_intervalMs e"
    if "\<forall>(k, u) \<in> set es. k \<noteq> key" "int (length (dl_lastLoggedAtMs e)) + int (length es) \<le> dl_maxEntries e" for es e
    using that
  proof (induction es arbitrary: e)
    case (Cons x es)
    obtain k u where x: "x = (k, u)" by (cases x)
    have "int (length (dl_lastLoggedAtMs (snd (shouldLog k u e)))) + int (length es) \<le> dl_maxEntries (snd (shouldLog k u e))"
      using step [of k u e] Cons.prems(2) by auto
    then show ?case using Cons.IH [of "snd (shouldLog k u e)"] Cons.prems step [of k u e] by (simp add: x)
  qed simp
  moreover have "int (length (dl_lastLoggedAtMs d')) + int (length others) \<le> dl_maxEntries d'" "dl_intervalMs d' = dl_intervalMs d"
    using step [of key t d] assms(1,4) by auto
  moreover have "js_get (dl_lastLoggedAtMs d') key = Some t"
    using assms(1) by (auto simp: shouldLog_def Let_def split: if_splits)
  ultimately show ?thesis using assms(2,3) by (simp add: shouldLog_def)
qed

end
