(* ===== verification/Candidate_Gate.thy ===== *)
theory Candidate_Gate
  imports Liquidation_Request Cooldown Cycle_Diagnostics "HOL-Library.Sublist"
begin

text \<open>
  Which candidates go on to execution: \<open>src/orchestrator/liquidationCandidateGate.ts\<close> and
  \<open>src/protocols/liquidationCandidateFilter.ts\<close>. The gate's methods are effectful computations over its
  state: the registry of blocked borrowers, the limiter of dust log lines, the diagnostics of the
  cycle, the counters of the metrics and the world of its services. The services are those of its
  configuration: the estimates of gas and flash fee, the refresh of prices, the oracle sanity check
  and the clock. Of the log lines only those that the limiter guards are kept; a dollar amount is a
  rational.
\<close>

section \<open>The dust filter\<close>

datatype dust_reason = NonPositiveDebt | BelowMinDebt | BelowProfitabilityFloor | BelowGasMultiple | OracleUntrusted

record dust_filter_input =
  df_debtUsd :: rat
  df_minDebtUsd :: rat
  df_gasCostUsd :: "rat option"

record dust_filter_decision =
  dd_debtUsd :: rat
  dd_isDust :: bool
  dd_reason :: "dust_reason option"

definition computeDebtUsdFromWei :: "int \<Rightarrow> int \<Rightarrow> int \<Rightarrow> rat" where
  "computeDebtUsdFromWei debtRaw debtDecimals priceUsd8 =
     (if debtRaw \<le> 0 \<or> priceUsd8 \<le> 0 then 0
      else (let debtUnits = of_int debtRaw / (if 0 \<le> debtDecimals then 10 ^ nat debtDecimals else 1 / 10 ^ nat (- debtDecimals));
                priceUsd = of_int priceUsd8 / 10 ^ 8
            in debtUnits * priceUsd))"

definition evaluateDustFilter :: "dust_filter_input \<Rightarrow> dust_filter_decision" where
  "evaluateDustFilter i =
     (let debtUsd = df_debtUsd i; gasCostUsd = (case df_gasCostUsd i of Some g \<Rightarrow> g | None \<Rightarrow> 0)
      in if debtUsd \<le> 0 then \<lparr>dd_debtUsd = 0, dd_isDust = True, dd_reason = Some NonPositiveDebt\<rparr>
         else if debtUsd < df_minDebtUsd i then \<lparr>dd_debtUsd = debtUsd, dd_isDust = True, dd_reason = Some BelowMinDebt\<rparr>
         else if 0 < gasCostUsd \<and> debtUsd < gasCostUsd * 2
         then \<lparr>dd_debtUsd = debtUsd, dd_isDust = True, dd_reason = Some BelowGasMultiple\<rparr>
         else \<lparr>dd_debtUsd = debtUsd, dd_isDust = False, dd_reason = None\<rparr>)"

definition isDustLiquidationCandidate :: "dust_filter_input \<Rightarrow> bool" where
  "isDustLiquidationCandidate i = dd_isDust (evaluateDustFilter i)"

definition filterDustLiquidationCandidates ::
  "rat \<Rightarrow> rat \<Rightarrow> (liquidation_candidate \<Rightarrow> rat) \<Rightarrow> liquidation_candidate list \<Rightarrow> liquidation_candidate list" where
  "filterDustLiquidationCandidates minDebtUsd gasCostUsd resolveDebtUsd candidates =
     filter (\<lambda>c. \<not> isDustLiquidationCandidate
       \<lparr>df_debtUsd = resolveDebtUsd c, df_minDebtUsd = minDebtUsd, df_gasCostUsd = Some gasCostUsd\<rparr>) candidates"

section \<open>State and services of the gate\<close>

record 'w gate_state =
  gs_cooldown :: cooldown_registry
  gs_dustLog :: dust_log_cooldown
  gs_diagnostics :: "diagnostics_collector option"
  gs_cooldownBlocks :: nat
  gs_dustFiltered :: nat
  gs_log :: "(bool \<times> string \<times> address) list"
  gs_world :: 'w

record resolved_debt =
  rd_debtUsd :: rat
  rd_trusted :: bool

text \<open>The optional members of the configuration are options; the sanity check gets the chain, the
  account, the debt and the collateral.\<close>

record 'w gate_config =
  gc_minDebtUsd :: rat
  gc_resolveGasCostUsd :: "('w, rat) io"
  gc_resolveFlashFeeBps :: "('w, rat) io"
  gc_forceRefreshUsdPrices :: "(address list \<Rightarrow> ('w, (address, int) jsmap) io) option"
  gc_oracleSanityCheck :: "(string \<Rightarrow> address \<Rightarrow> address \<Rightarrow> address \<Rightarrow> ('w, bool) io) option"
  gc_resolveDebtDecimals :: "(address \<Rightarrow> int) option"
  gc_now :: "'w \<Rightarrow> int \<times> 'w"

type_synonym ('w, 'a) gate_io = "('w gate_state, 'a) io"

definition gate_call :: "('w, 'a) io \<Rightarrow> ('w, 'a) gate_io" where
  "gate_call m s = (case m (gs_world s) of (r, w) \<Rightarrow> (r, s\<lparr>gs_world := w\<rparr>))"

definition gate_clock :: "'w gate_config \<Rightarrow> ('w, int) gate_io" where
  "gate_clock cfg = gate_call (\<lambda>w. case gc_now cfg w of (t, w') \<Rightarrow> (Inr t, w'))"

text \<open>\<open>getCycleDiagnosticsCollector().record(row)\<close>\<close>

definition record_row :: "diagnostic_row \<Rightarrow> ('w, unit) gate_io" where
  "record_row row = io_modify (\<lambda>s. s\<lparr>gs_diagnostics :=
     Some (cd_record row (fst (getCycleDiagnosticsCollector (gs_diagnostics s))))\<rparr>)"

section \<open>LiquidationCandidateGate\<close>

definition gate_isBorrowerBlocked :: "'w gate_config \<Rightarrow> string \<Rightarrow> address \<Rightarrow> ('w, bool) gate_io" where
  "gate_isBorrowerBlocked cfg chain account =
     io_bind (gate_clock cfg) (\<lambda>now s.
       case isBorrowerBlocked now chain account (gs_cooldown s) of
         (False, r) \<Rightarrow> (Inr False, s\<lparr>gs_cooldown := r\<rparr>)
       | (True, r) \<Rightarrow> (Inr True, s\<lparr>gs_cooldown := r, gs_cooldownBlocks := gs_cooldownBlocks s + 1\<rparr>))"

definition recordDeadLetter :: "'w gate_config \<Rightarrow> string \<Rightarrow> address \<Rightarrow> string \<Rightarrow> ('w, unit) gate_io" where
  "recordDeadLetter cfg chain account reason =
     (if \<not> shouldApplyBorrowerCooldown reason then io_return ()
      else io_bind (gate_clock cfg) (\<lambda>now. io_modify (\<lambda>s. s\<lparr>gs_cooldown := blockBorrower now chain account reason (gs_cooldown s)\<rparr>)))"

definition str_endsWith :: "string \<Rightarrow> string \<Rightarrow> bool" where
  "str_endsWith sub s = str_startsWith (rev sub) (rev s)"

definition resolveDebtDecimals :: "'w gate_config \<Rightarrow> address \<Rightarrow> int" where
  "resolveDebtDecimals cfg asset =
     (case gc_resolveDebtDecimals cfg of
        Some f \<Rightarrow> f asset
      | None \<Rightarrow>
          (let lower = to_lower asset
           in if str_endsWith ''833589fcd6edb6e08f4c7c32d4f71b54bda02913'' lower then 6
              else if str_endsWith ''4200000000000000000000000000000000000006'' lower then 18 else 18))"

definition resolveFreshDebtUsd :: "'w gate_config \<Rightarrow> liquidation_candidate \<Rightarrow> ('w, resolved_debt) gate_io" where
  "resolveFreshDebtUsd cfg c =
     (case gc_forceRefreshUsdPrices cfg of
        None \<Rightarrow> io_return \<lparr>rd_debtUsd = lc_repayValueUsd c, rd_trusted = True\<rparr>
      | Some refresh \<Rightarrow>
          io_bind (gate_call (refresh [lc_debtAsset c, lc_collateralAsset c])) (\<lambda>prices.
            let debtPrice = (case js_get prices (lc_debtAsset c) of Some p \<Rightarrow> p | None \<Rightarrow> 0)
            in if debtPrice \<le> 0 then io_return \<lparr>rd_debtUsd = 0, rd_trusted = False\<rparr>
               else io_return \<lparr>rd_debtUsd = computeDebtUsdFromWei (lc_debtToCover c) (resolveDebtDecimals cfg (lc_debtAsset c)) debtPrice,
                      rd_trusted = True\<rparr>))"

definition buildFilterDecision :: "resolved_debt \<Rightarrow> bool \<Rightarrow> rat \<Rightarrow> dust_filter_decision" where
  "buildFilterDecision resolved profitabilityPass gasCostUsd =
     (if \<not> rd_trusted resolved then \<lparr>dd_debtUsd = rd_debtUsd resolved, dd_isDust = True, dd_reason = Some OracleUntrusted\<rparr>
      else if \<not> profitabilityPass
      then \<lparr>dd_debtUsd = rd_debtUsd resolved, dd_isDust = True, dd_reason = Some BelowProfitabilityFloor\<rparr>
      else evaluateDustFilter \<lparr>df_debtUsd = rd_debtUsd resolved, df_minDebtUsd = 0, df_gasCostUsd = Some gasCostUsd\<rparr>)"

text \<open>A line on dust is dropped while the limiter holds its borrower back.\<close>

definition logLiquidationDustDecision :: "'w gate_config \<Rightarrow> string \<Rightarrow> address \<Rightarrow> dust_filter_decision \<Rightarrow> ('w, unit) gate_io" where
  "logLiquidationDustDecision cfg chain account decision =
     (let emit = io_modify (\<lambda>s. s\<lparr>gs_log := gs_log s @ [(dd_isDust decision, chain, account)]\<rparr>)
      in if dd_isDust decision
         then io_bind (gate_clock cfg) (\<lambda>now s.
                case shouldLog (chain @ '':'' @ account) now (gs_dustLog s) of
                  (False, d) \<Rightarrow> (Inr (), s\<lparr>gs_dustLog := d\<rparr>)
                | (True, d) \<Rightarrow> emit (s\<lparr>gs_dustLog := d\<rparr>))
         else emit)"

definition gate_input :: "'w gate_config \<Rightarrow> liquidation_candidate \<Rightarrow> rat \<Rightarrow> rat \<Rightarrow> rat \<Rightarrow> profit_gate_input" where
  "gate_input cfg c debtUsd gasCostUsd flashFeeBps =
     \<lparr>pg_debtUsd = debtUsd, pg_liquidationBonusBps = of_int (lc_liquidationBonusBps c), pg_gasCostUsd = gasCostUsd,
      pg_flashFeeBps = flashFeeBps, pg_hardFloorUsd = gc_minDebtUsd cfg, pg_safetyBufferMultiplier = None\<rparr>"

definition evaluated_row ::
  "liquidation_candidate \<Rightarrow> string \<Rightarrow> rat \<Rightarrow> rat \<Rightarrow> profit_gate_result \<Rightarrow> bool \<Rightarrow> bool \<Rightarrow> diagnostic_row" where
  "evaluated_row c stage debtUsd gasCostUsd profitability sanityPass finalPass =
     \<lparr>dr_kind = LiquidationRow, dr_account = lc_account c, dr_stage = stage,
      dr_grossProfitUsd = debtUsd * (of_int (lc_liquidationBonusBps c) / 10000), dr_gasCostUsd = gasCostUsd,
      dr_netDeltaUsd = pr_netProfitUsd profitability,
      dr_failureMarginBps = (if 0 < pr_effectiveFloor profitability
         then js_round ((pr_netProfitUsd profitability / pr_effectiveFloor profitability) * 10000) else 0),
      dr_skipReason = (if finalPass then None
         else Some (if \<not> sanityPass then OracleSanityDeviation
                    else BelowEffectiveFloor (to_fixed 2 (pr_effectiveFloor profitability)))),
      dr_passed = finalPass\<rparr>"

definition sanity_check :: "'w gate_config \<Rightarrow> string \<Rightarrow> liquidation_candidate \<Rightarrow> ('w, bool) gate_io" where
  "sanity_check cfg chain c =
     (case gc_oracleSanityCheck cfg of
        None \<Rightarrow> io_return True
      | Some check \<Rightarrow> gate_call (check chain (lc_account c) (lc_debtAsset c) (lc_collateralAsset c)))"

text \<open>The body of the loop of \<open>filterCandidates\<close>: the candidate to keep, if any.\<close>

definition filter_candidate ::
  "'w gate_config \<Rightarrow> string \<Rightarrow> string \<Rightarrow> rat \<Rightarrow> rat \<Rightarrow> liquidation_candidate \<Rightarrow> ('w, liquidation_candidate option) gate_io" where
  "filter_candidate cfg chain stage gasCostUsd flashFeeBps c =
     io_bind (gate_isBorrowerBlocked cfg chain (lc_account c)) (\<lambda>blocked.
       if blocked then io_return None
       else io_bind (resolveFreshDebtUsd cfg c) (\<lambda>resolved.
         let profitability = evaluateLiquidationProfitability (gate_input cfg c (rd_debtUsd resolved) gasCostUsd flashFeeBps)
         in io_bind (sanity_check cfg chain c) (\<lambda>sanityPass.
              let finalPass = (rd_trusted resolved \<and> pr_pass profitability \<and> sanityPass);
                  decision = buildFilterDecision resolved (pr_pass profitability) gasCostUsd
              in io_then (record_row (evaluated_row c stage (rd_debtUsd resolved) gasCostUsd profitability sanityPass finalPass))
                (io_then (logLiquidationDustDecision cfg chain (lc_account c) decision)
                  (if dd_isDust decision \<or> \<not> sanityPass
                   then io_then (io_modify (\<lambda>s. s\<lparr>gs_dustFiltered := gs_dustFiltered s + 1\<rparr>)) (io_return None)
                   else io_return (Some (c\<lparr>lc_repayValueUsd := rd_debtUsd resolved\<rparr>)))))))"

fun filter_loop ::
  "'w gate_config \<Rightarrow> string \<Rightarrow> string \<Rightarrow> rat \<Rightarrow> rat \<Rightarrow> liquidation_candidate list \<Rightarrow> ('w, liquidation_candidate list) gate_io" where
  "filter_loop cfg chain stage gas fee [] = io_return []"
| "filter_loop cfg chain stage gas fee (c # cs) =
     io_bind (filter_candidate cfg chain stage gas fee c) (\<lambda>kept.
       io_bind (filter_loop cfg chain stage gas fee cs) (\<lambda>rest.
         io_return (case kept of None \<Rightarrow> rest | Some c' \<Rightarrow> c' # rest)))"

definition filterCandidates ::
  "'w gate_config \<Rightarrow> string \<Rightarrow> liquidation_candidate list \<Rightarrow> string \<Rightarrow> ('w, liquidation_candidate list) gate_io" where
  "filterCandidates cfg chain candidates stage =
     io_bind (gate_call (gc_resolveGasCostUsd cfg)) (\<lambda>gasCostUsd.
       io_bind (gate_call (gc_resolveFlashFeeBps cfg)) (\<lambda>flashFeeBps.
         filter_loop cfg chain stage gasCostUsd flashFeeBps candidates))"

definition nearLiquidationHf :: int where
  "nearLiquidationHf = 1050000000000000000"

definition diagnosticCapHf :: int where
  "diagnosticCapHf = 1500000000000000000"

definition hf_row :: "string \<Rightarrow> address \<times> int \<Rightarrow> diagnostic_row" where
  "hf_row stage r =
     (let hfFloat = of_int (snd r) / of_int WAD :: rat
      in \<lparr>dr_kind = LiquidationRow, dr_account = fst r, dr_stage = stage, dr_grossProfitUsd = 0, dr_gasCostUsd = 0,
          dr_netDeltaUsd = 0, dr_failureMarginBps = js_round ((1 - hfFloat) * 10000),
          dr_skipReason = Some (if snd r < nearLiquidationHf then NearLiquidation (to_fixed 4 hfFloat)
                                else HealthyHf (to_fixed 4 hfFloat)),
          dr_passed = False\<rparr>)"

fun recordHealthFactorDiagnostics :: "(address \<times> int) list \<Rightarrow> string \<Rightarrow> ('w, unit) gate_io" where
  "recordHealthFactorDiagnostics [] stage = io_return ()"
| "recordHealthFactorDiagnostics (r # reads) stage =
     (if diagnosticCapHf \<le> snd r then recordHealthFactorDiagnostics reads stage
      else io_then (record_row (hf_row stage r)) (recordHealthFactorDiagnostics reads stage))"

text \<open>The temporary cache takes the time of each snapshot's insertion from the clock.\<close>

fun upsert_all :: "('s, int) io \<Rightarrow> borrower_snapshot list \<Rightarrow> borrower_cache \<Rightarrow> ('s, borrower_cache) io" where
  "upsert_all clock [] cache = io_return cache"
| "upsert_all clock (s # ss) cache = io_bind clock (\<lambda>now. upsert_all clock ss (upsert now s cache))"

definition auditBorrowerSnapshots :: "'w gate_config \<Rightarrow> string \<Rightarrow> borrower_snapshot list \<Rightarrow> ('w, unit) gate_io" where
  "auditBorrowerSnapshots cfg chain snapshots =
     io_then (recordHealthFactorDiagnostics (map (\<lambda>s. (bs_account s, bs_healthFactor s)) snapshots) ''ws_reserve_event'')
       (io_bind (upsert_all (gate_clock cfg) (filter (\<lambda>s. bs_healthFactor s < nearLiquidationHf) snapshots) (ca_new None None)) (\<lambda>cache.
          io_bind (gate_clock cfg) (\<lambda>now.
            io_bind (io_lift (fst (createReserveAwareCandidates now chain cache))) (\<lambda>candidates.
              if candidates = [] then io_return ()
              else io_then (filterCandidates cfg chain candidates ''ws_reserve_event'') (io_return ())))))"

section \<open>Lemmas\<close>

lemma gate_call_Inr:
  "gate_call m s = (r, s') \<longleftrightarrow> (\<exists>w. m (gs_world s) = (r, w) \<and> s' = s\<lparr>gs_world := w\<rparr>)"
  by (auto simp: gate_call_def split: prod.splits)

lemma gate_clock_Inr:
  "gate_clock cfg s = (Inr t, s') \<longleftrightarrow> (\<exists>w. gc_now cfg (gs_world s) = (t, w) \<and> s' = s\<lparr>gs_world := w\<rparr>)"
  by (auto simp: gate_clock_def gate_call_Inr split: prod.splits)

text \<open>The counters that only the decisions of the gate move.\<close>

definition counters :: "'w gate_state \<Rightarrow> nat \<times> nat" where
  "counters s = (gs_cooldownBlocks s, gs_dustFiltered s)"

lemma counters_update [simp]:
  "counters (s\<lparr>gs_world := w\<rparr>) = counters s" "counters (s\<lparr>gs_diagnostics := d\<rparr>) = counters s"
  "counters (s\<lparr>gs_dustLog := l\<rparr>) = counters s" "counters (s\<lparr>gs_log := g\<rparr>) = counters s"
  "counters (s\<lparr>gs_cooldown := r\<rparr>) = counters s"
  by (simp_all add: counters_def)

lemma gate_clock_eq: "gc_now cfg (gs_world s) = (t, w) \<Longrightarrow> gate_clock cfg s = (Inr t, s\<lparr>gs_world := w\<rparr>)"
  by (simp add: gate_clock_Inr)

lemma blocked_eq:
  assumes "gc_now cfg (gs_world s) = (t, w)" and "isBorrowerBlocked t chain account (gs_cooldown s) = (b, r)"
  shows "gate_isBorrowerBlocked cfg chain account s =
    (Inr b, s\<lparr>gs_world := w, gs_cooldown := r, gs_cooldownBlocks := gs_cooldownBlocks s + (if b then 1 else 0)\<rparr>)"
  using assms(2) by (simp add: gate_isBorrowerBlocked_def io_bind_def gate_clock_eq [OF assms(1)] split: bool.splits)

lemma blocked_counters:
  assumes "gate_isBorrowerBlocked cfg chain account s = (Inr b, s')"
  shows "counters s' = (gs_cooldownBlocks s + (if b then 1 else 0), gs_dustFiltered s)"
proof -
  obtain t w where now: "gc_now cfg (gs_world s) = (t, w)" by (cases "gc_now cfg (gs_world s)")
  obtain b' r where query: "isBorrowerBlocked t chain account (gs_cooldown s) = (b', r)"
    by (cases "isBorrowerBlocked t chain account (gs_cooldown s)")
  from assms blocked_eq [OF now query] show ?thesis by (auto simp: counters_def)
qed

lemma resolve_counters:
  assumes "resolveFreshDebtUsd cfg c s = (Inr d, s')"
  shows "counters s' = counters s"
  using assms
  by (auto simp: resolveFreshDebtUsd_def io_bind_Inr gate_call_Inr io_simps Let_def split: option.splits if_splits)

lemma sanity_counters:
  assumes "sanity_check cfg chain c s = (Inr b, s')"
  shows "counters s' = counters s"
  using assms by (auto simp: sanity_check_def gate_call_Inr io_simps split: option.splits)

lemma record_counters: "record_row row s = (r, s') \<Longrightarrow> counters s' = counters s"
  by (auto simp: record_row_def io_simps)

lemma log_eq:
  assumes "gc_now cfg (gs_world s) = (t, w)" and "shouldLog (chain @ '':'' @ account) t (gs_dustLog s) = (b, d)"
  shows "logLiquidationDustDecision cfg chain account decision s =
    (Inr (), if \<not> dd_isDust decision then s\<lparr>gs_log := gs_log s @ [(False, chain, account)]\<rparr>
             else if b then s\<lparr>gs_world := w, gs_dustLog := d, gs_log := gs_log s @ [(True, chain, account)]\<rparr>
             else s\<lparr>gs_world := w, gs_dustLog := d\<rparr>)"
  using assms(2)
  by (simp add: logLiquidationDustDecision_def Let_def io_bind_def gate_clock_eq [OF assms(1)] io_simps split: bool.splits)

lemma log_counters:
  assumes "logLiquidationDustDecision cfg chain account decision s = (Inr u, s')"
  shows "counters s' = counters s"
proof -
  obtain t w where now: "gc_now cfg (gs_world s) = (t, w)" by (cases "gc_now cfg (gs_world s)")
  obtain b d where query: "shouldLog (chain @ '':'' @ account) t (gs_dustLog s) = (b, d)"
    by (cases "shouldLog (chain @ '':'' @ account) t (gs_dustLog s)")
  from assms log_eq [OF now query] show ?thesis by (auto split: if_splits)
qed

lemma filter_candidate_result:
  assumes "filter_candidate cfg chain stage gas fee c s = (Inr kept, s')"
  shows "case kept of
      None \<Rightarrow> fst (counters s') + snd (counters s') = fst (counters s) + snd (counters s) + 1
    | Some c' \<Rightarrow> counters s' = counters s \<and> c' = c\<lparr>lc_repayValueUsd := lc_repayValueUsd c'\<rparr> \<and>
        pr_pass (evaluateLiquidationProfitability (gate_input cfg c (lc_repayValueUsd c') gas fee)) \<and>
        0 < lc_repayValueUsd c' \<and> (0 < gas \<longrightarrow> gas * 2 \<le> lc_repayValueUsd c')"
proof -
  from assms obtain b s1 where blocked: "gate_isBorrowerBlocked cfg chain (lc_account c) s = (Inr b, s1)"
    and rest: "(if b then io_return None else io_bind (resolveFreshDebtUsd cfg c) (\<lambda>resolved.
         let profitability = evaluateLiquidationProfitability (gate_input cfg c (rd_debtUsd resolved) gas fee)
         in io_bind (sanity_check cfg chain c) (\<lambda>sanityPass.
              let finalPass = (rd_trusted resolved \<and> pr_pass profitability \<and> sanityPass);
                  decision = buildFilterDecision resolved (pr_pass profitability) gas
              in io_then (record_row (evaluated_row c stage (rd_debtUsd resolved) gas profitability sanityPass finalPass))
                (io_then (logLiquidationDustDecision cfg chain (lc_account c) decision)
                  (if dd_isDust decision \<or> \<not> sanityPass
                   then io_then (io_modify (\<lambda>s. s\<lparr>gs_dustFiltered := gs_dustFiltered s + 1\<rparr>)) (io_return None)
                   else io_return (Some (c\<lparr>lc_repayValueUsd := rd_debtUsd resolved\<rparr>))))))) s1 = (Inr kept, s')"
    unfolding filter_candidate_def io_bind_Inr by blast
  show ?thesis
  proof (cases b)
    case True
    with rest have "kept = None" "s' = s1" by (simp_all add: io_simps)
    with blocked_counters [OF blocked] True show ?thesis by (simp add: counters_def)
  next
    case False
    let ?p = "\<lambda>r. evaluateLiquidationProfitability (gate_input cfg c (rd_debtUsd r) gas fee)"
    from rest False obtain resolved s2 sane s3 u3 s4 u4 s5 where
      resolved: "resolveFreshDebtUsd cfg c s1 = (Inr resolved, s2)" and sane: "sanity_check cfg chain c s2 = (Inr sane, s3)"
      and row: "record_row (evaluated_row c stage (rd_debtUsd resolved) gas (?p resolved) sane
          (rd_trusted resolved \<and> pr_pass (?p resolved) \<and> sane)) s3 = (Inr u3, s4)"
      and log: "logLiquidationDustDecision cfg chain (lc_account c) (buildFilterDecision resolved (pr_pass (?p resolved)) gas) s4 = (Inr u4, s5)"
      and last: "(if dd_isDust (buildFilterDecision resolved (pr_pass (?p resolved)) gas) \<or> \<not> sane
          then io_then (io_modify (\<lambda>s. s\<lparr>gs_dustFiltered := gs_dustFiltered s + 1\<rparr>)) (io_return None)
          else io_return (Some (c\<lparr>lc_repayValueUsd := rd_debtUsd resolved\<rparr>))) s5 = (Inr kept, s')"
      by (simp only: if_False Let_def io_bind_Inr io_then_Inr) blast
    have same: "counters s5 = counters s"
      using blocked_counters [OF blocked] resolve_counters [OF resolved] sanity_counters [OF sane] record_counters [OF row]
        log_counters [OF log] False by (simp add: counters_def)
    show ?thesis
    proof (cases "dd_isDust (buildFilterDecision resolved (pr_pass (?p resolved)) gas) \<or> \<not> sane")
      case True
      with last have "kept = None" "s' = s5\<lparr>gs_dustFiltered := gs_dustFiltered s5 + 1\<rparr>"
        by (auto simp: io_then_Inr io_simps)
      with same show ?thesis by (simp add: counters_def)
    next
      case False
      with last have "kept = Some (c\<lparr>lc_repayValueUsd := rd_debtUsd resolved\<rparr>)" "s' = s5" by (auto simp: io_simps)
      with same False show ?thesis
        by (auto simp: buildFilterDecision_def evaluateDustFilter_def Let_def split: if_splits)
    qed
  qed
qed

lemma filter_loop_result:
  assumes "filter_loop cfg chain stage gas fee cs s = (Inr kept, s')"
  shows "length cs + fst (counters s) + snd (counters s) = length kept + fst (counters s') + snd (counters s')
    \<and> subseq (map lc_account kept) (map lc_account cs)
    \<and> (\<forall>c' \<in> set kept. \<exists>c \<in> set cs. c' = c\<lparr>lc_repayValueUsd := lc_repayValueUsd c'\<rparr> \<and>
        pr_pass (evaluateLiquidationProfitability (gate_input cfg c (lc_repayValueUsd c') gas fee)) \<and>
        0 < lc_repayValueUsd c' \<and> (0 < gas \<longrightarrow> gas * 2 \<le> lc_repayValueUsd c'))"
  using assms
proof (induction cs arbitrary: s kept)
  case (Cons c cs)
  from Cons.prems obtain k s1 rest where one: "filter_candidate cfg chain stage gas fee c s = (Inr k, s1)"
    and loop: "filter_loop cfg chain stage gas fee cs s1 = (Inr rest, s')"
    and kept: "kept = (case k of None \<Rightarrow> rest | Some c' \<Rightarrow> c' # rest)"
    by (auto simp: io_bind_Inr io_simps)
  note IH = Cons.IH [OF loop] and first = filter_candidate_result [OF one]
  show ?case
  proof (cases k)
    case None
    with IH first show ?thesis by (auto simp: kept intro: list_emb_Cons)
  next
    case (Some c')
    let ?kept = "\<lambda>c c'. c' = c\<lparr>lc_repayValueUsd := lc_repayValueUsd c'\<rparr> \<and>
        pr_pass (evaluateLiquidationProfitability (gate_input cfg c (lc_repayValueUsd c') gas fee)) \<and>
        0 < lc_repayValueUsd c' \<and> (0 < gas \<longrightarrow> gas * 2 \<le> lc_repayValueUsd c')"
    have same: "counters s1 = counters s" and c': "?kept c c'" using first unfolding Some option.case by blast+
    have account: "lc_account c' = lc_account c"
      using conjunct1 [OF c'] by (metis liquidation_candidate.select_convs(1) liquidation_candidate.surjective
        liquidation_candidate.update_convs(5))
    have "\<forall>x \<in> set (c' # rest). \<exists>c \<in> set (c # cs). ?kept c x"
    proof
      fix x assume "x \<in> set (c' # rest)"
      then consider "x = c'" | "x \<in> set rest" by auto
      then show "\<exists>c \<in> set (c # cs). ?kept c x"
      proof cases
        case 1
        have "?kept c x" using c' unfolding 1 .
        then show ?thesis by (rule bexI) simp
      next
        case 2
        with IH obtain y where "y \<in> set cs" "?kept y x" by blast
        then show ?thesis by (meson list.set_intros(2))
      qed
    qed
    moreover have "length (c # cs) + fst (counters s) + snd (counters s) = length (c' # rest) + fst (counters s') + snd (counters s')"
      and "subseq (map lc_account (c' # rest)) (map lc_account (c # cs))"
      using IH same account by simp_all
    ultimately show ?thesis unfolding kept Some option.case by blast
  qed
qed (simp add: io_simps)

lemma filterCandidates_run:
  assumes "filterCandidates cfg chain cs stage s = (Inr kept, s')"
  shows "\<exists>gas w1 fee w2. gc_resolveGasCostUsd cfg (gs_world s) = (Inr gas, w1) \<and> gc_resolveFlashFeeBps cfg w1 = (Inr fee, w2) \<and>
    filter_loop cfg chain stage gas fee cs (s\<lparr>gs_world := w2\<rparr>) = (Inr kept, s')"
  using assms by (auto simp: filterCandidates_def io_bind_Inr gate_call_Inr)

text \<open>The gate's verdict on a borrower that is not blocked: the fresh dollar value of the debt if it passes.\<close>

definition gate_verdict ::
  "'w gate_config \<Rightarrow> rat \<Rightarrow> rat \<Rightarrow> (address, int) jsmap \<Rightarrow> (address \<Rightarrow> bool) \<Rightarrow> liquidation_candidate \<Rightarrow> rat option" where
  "gate_verdict cfg gas fee prices sane c =
     (case js_get prices (lc_debtAsset c) of
        None \<Rightarrow> None
      | Some p \<Rightarrow>
          (let d = computeDebtUsdFromWei (lc_debtToCover c) (resolveDebtDecimals cfg (lc_debtAsset c)) p
           in if 0 < p \<and> pr_pass (evaluateLiquidationProfitability (gate_input cfg c d gas fee)) \<and> sane (lc_account c) \<and>
                 0 < d \<and> (0 < gas \<longrightarrow> gas * 2 \<le> d)
              then Some d else None))"

text \<open>Services that answer the same all through the call.\<close>

definition steady_services ::
  "'w gate_config \<Rightarrow> int \<Rightarrow> rat \<Rightarrow> rat \<Rightarrow> (address, int) jsmap \<Rightarrow> (address \<Rightarrow> bool) \<Rightarrow> bool" where
  "steady_services cfg now gas fee prices sane \<longleftrightarrow>
     gc_now cfg = Pair now \<and> gc_resolveGasCostUsd cfg = io_return gas \<and> gc_resolveFlashFeeBps cfg = io_return fee \<and>
     gc_forceRefreshUsdPrices cfg = Some (\<lambda>assets. io_return prices) \<and>
     gc_oracleSanityCheck cfg = Some (\<lambda>chain account debt collateral. io_return (sane account))"

lemma query_stable:
  "fst (isBorrowerBlocked now chain a (snd (isBorrowerBlocked now chain' b r))) = fst (isBorrowerBlocked now chain a r)"
proof -
  have blocked: "fst (isBorrowerBlocked now chain a r) = (case js_get (bc_blockedUntilMs r) (borrowerKey chain a) of None \<Rightarrow> False | Some u \<Rightarrow> now < u)"
    for r by (auto simp: isBorrowerBlocked_def Let_def split: option.splits)
  show ?thesis unfolding blocked query_get by (auto split: option.splits)
qed

lemma verdict_decision:
  assumes "d = (case js_get prices (lc_debtAsset c) of Some p \<Rightarrow> p | None \<Rightarrow> 0)"
    and "resolved = (if d \<le> 0 then \<lparr>rd_debtUsd = 0, rd_trusted = False\<rparr>
      else \<lparr>rd_debtUsd = computeDebtUsdFromWei (lc_debtToCover c) (resolveDebtDecimals cfg (lc_debtAsset c)) d, rd_trusted = True\<rparr>)"
  shows "gate_verdict cfg gas fee prices sane c =
    (if dd_isDust (buildFilterDecision resolved
          (pr_pass (evaluateLiquidationProfitability (gate_input cfg c (rd_debtUsd resolved) gas fee))) gas) \<or> \<not> sane (lc_account c)
     then None else Some (rd_debtUsd resolved))"
  using assms
  by (auto simp: gate_verdict_def buildFilterDecision_def evaluateDustFilter_def Let_def split: option.splits)

lemma steady_candidate:
  assumes "steady_services cfg now gas fee prices sane"
  shows "\<exists>s'. filter_candidate cfg chain stage gas fee c s =
      (Inr (if fst (isBorrowerBlocked now chain (lc_account c) (gs_cooldown s)) then None
            else map_option (\<lambda>d. c\<lparr>lc_repayValueUsd := d\<rparr>) (gate_verdict cfg gas fee prices sane c)), s') \<and>
    gs_cooldown s' = snd (isBorrowerBlocked now chain (lc_account c) (gs_cooldown s))"
proof -
  obtain b r where query: "isBorrowerBlocked now chain (lc_account c) (gs_cooldown s) = (b, r)"
    by (cases "isBorrowerBlocked now chain (lc_account c) (gs_cooldown s)")
  have now: "gc_now cfg w = (now, w)" for w using assms by (simp add: steady_services_def)
  note blocked = blocked_eq [OF now query]
  show ?thesis
  proof (cases b)
    case True
    with blocked query show ?thesis by (simp add: filter_candidate_def io_bind_def io_simps)
  next
    case False
    define d where "d = (case js_get prices (lc_debtAsset c) of Some p \<Rightarrow> p | None \<Rightarrow> 0)"
    define resolved where "resolved = (if d \<le> 0 then \<lparr>rd_debtUsd = 0, rd_trusted = False\<rparr>
      else \<lparr>rd_debtUsd = computeDebtUsdFromWei (lc_debtToCover c) (resolveDebtDecimals cfg (lc_debtAsset c)) d, rd_trusted = True\<rparr>)"
    have fresh: "resolveFreshDebtUsd cfg c s1 = (Inr resolved, s1)" for s1
      using assms by (simp add: resolveFreshDebtUsd_def steady_services_def io_bind_def gate_call_def io_simps Let_def
        resolved_def d_def split: option.splits)
    have sanity: "sanity_check cfg chain c s1 = (Inr (sane (lc_account c)), s1)" for s1
      using assms by (simp add: sanity_check_def steady_services_def gate_call_def io_simps)
    let ?pass = "pr_pass (evaluateLiquidationProfitability (gate_input cfg c (rd_debtUsd resolved) gas fee))"
    have log: "\<exists>s2. logLiquidationDustDecision cfg chain (lc_account c) decision s1 = (Inr (), s2) \<and> gs_cooldown s2 = gs_cooldown s1"
      for decision s1
      using log_eq [OF now, of chain "lc_account c" s1] by (cases "shouldLog (chain @ '':'' @ lc_account c) now (gs_dustLog s1)") auto
    let ?row = "evaluated_row c stage (rd_debtUsd resolved) gas
      (evaluateLiquidationProfitability (gate_input cfg c (rd_debtUsd resolved) gas fee)) (sane (lc_account c))
      (rd_trusted resolved \<and> ?pass \<and> sane (lc_account c))"
    define s1 where "s1 = s\<lparr>gs_world := gs_world s, gs_cooldown := r, gs_cooldownBlocks := gs_cooldownBlocks s + 0\<rparr>"
    obtain s2 where row: "record_row ?row s1 = (Inr (), s2)" "gs_cooldown s2 = r"
      by (simp add: record_row_def io_simps s1_def)
    obtain s3 where s3: "logLiquidationDustDecision cfg chain (lc_account c) (buildFilterDecision resolved ?pass gas) s2 = (Inr (), s3)"
      "gs_cooldown s3 = r"
      using log [of "buildFilterDecision resolved ?pass gas" s2] row(2) by auto
    have unblocked: "gate_isBorrowerBlocked cfg chain (lc_account c) s = (Inr False, s1)"
      using blocked False by (simp add: s1_def)
    have "filter_candidate cfg chain stage gas fee c s =
        (if dd_isDust (buildFilterDecision resolved ?pass gas) \<or> \<not> sane (lc_account c)
         then io_then (io_modify (\<lambda>s. s\<lparr>gs_dustFiltered := gs_dustFiltered s + 1\<rparr>)) (io_return None)
         else io_return (Some (c\<lparr>lc_repayValueUsd := rd_debtUsd resolved\<rparr>))) s3"
      by (simp add: filter_candidate_def io_bind_def io_then_def unblocked fresh sanity row(1) s3(1) Let_def)
    then show ?thesis
      using verdict_decision [OF d_def resolved_def, of gas fee sane] query False s3(2)
      by (simp add: io_then_Inr io_then_def io_bind_def io_simps)
  qed
qed

lemma steady_loop:
  assumes "steady_services cfg now gas fee prices sane"
  shows "\<exists>s'. filter_loop cfg chain stage gas fee cs s =
    (Inr (List.map_filter (\<lambda>c. if fst (isBorrowerBlocked now chain (lc_account c) (gs_cooldown s)) then None
        else map_option (\<lambda>d. c\<lparr>lc_repayValueUsd := d\<rparr>) (gate_verdict cfg gas fee prices sane c)) cs), s')"
proof (induction cs arbitrary: s)
  case (Cons c cs)
  from steady_candidate [OF assms, of chain stage c s] obtain s1 where one: "filter_candidate cfg chain stage gas fee c s =
      (Inr (if fst (isBorrowerBlocked now chain (lc_account c) (gs_cooldown s)) then None
            else map_option (\<lambda>d. c\<lparr>lc_repayValueUsd := d\<rparr>) (gate_verdict cfg gas fee prices sane c)), s1)"
    "gs_cooldown s1 = snd (isBorrowerBlocked now chain (lc_account c) (gs_cooldown s))" by blast
  show ?case
    using Cons.IH [of s1] one(1) by (auto simp: io_bind_def one(1) io_simps one(2) query_stable List.map_filter_simps split: option.splits)
qed (simp add: io_simps List.map_filter_simps)

section \<open>Properties\<close>

text \<open>C10. Every candidate that the gate lets through, whatever its services answer, is one of those it was
  given, with the repay value the gate found for it: at that value and the gas cost and flash fee of
  the call it passes the profitability floor, is positive and at least twice the gas. And every
  candidate is accounted for: it is kept, or counted as blocked or as filtered.\<close>

theorem gate_keeps_profitable:
  assumes "filterCandidates cfg chain cs stage s = (Inr kept, s')"
  shows "\<exists>gas w fee. gc_resolveGasCostUsd cfg (gs_world s) = (Inr gas, w) \<and> fst (gc_resolveFlashFeeBps cfg w) = Inr fee \<and>
    (\<forall>c' \<in> set kept. \<exists>c \<in> set cs. c' = c\<lparr>lc_repayValueUsd := lc_repayValueUsd c'\<rparr> \<and>
        pr_pass (evaluateLiquidationProfitability (gate_input cfg c (lc_repayValueUsd c') gas fee)) \<and>
        0 < lc_repayValueUsd c' \<and> (0 < gas \<longrightarrow> gas * 2 \<le> lc_repayValueUsd c')) \<and>
    subseq (map lc_account kept) (map lc_account cs) \<and>
    length cs + gs_cooldownBlocks s + gs_dustFiltered s = length kept + gs_cooldownBlocks s' + gs_dustFiltered s'"
proof -
  from filterCandidates_run [OF assms] obtain gas w1 fee w2 where
    run: "gc_resolveGasCostUsd cfg (gs_world s) = (Inr gas, w1)" "gc_resolveFlashFeeBps cfg w1 = (Inr fee, w2)"
    and loop: "filter_loop cfg chain stage gas fee cs (s\<lparr>gs_world := w2\<rparr>) = (Inr kept, s')" by blast
  have "fst (gc_resolveFlashFeeBps cfg w1) = Inr fee" by (simp add: run(2))
  with run(1) filter_loop_result [OF loop] show ?thesis
    by (intro exI [of _ gas] exI [of _ w1] exI [of _ fee]) (simp add: counters_def)
qed


text \<open>The witnesses: on Base, a good borrower, one below the floor and one whose oracle deviates.\<close>

definition sample_services :: "unit gate_config" where
  "sample_services = \<lparr>gc_minDebtUsd = 100, gc_resolveGasCostUsd = io_return (1 / 2), gc_resolveFlashFeeBps = io_return 5,
     gc_forceRefreshUsdPrices = Some (\<lambda>assets. io_return [(''0xd1'', 100000000)]),
     gc_oracleSanityCheck = Some (\<lambda>chain account debt collateral. io_return (account \<noteq> ''0xa3'')),
     gc_resolveDebtDecimals = Some (\<lambda>asset. 6), gc_now = Pair 1000\<rparr>"

definition sample_gate_state :: "unit gate_state" where
  "sample_gate_state = \<lparr>gs_cooldown = blockBorrower 900 ''base'' ''0xa4'' ''send_failed'' (bc_new None),
     gs_dustLog = dl_new None None, gs_diagnostics = None, gs_cooldownBlocks = 0, gs_dustFiltered = 0, gs_log = [], gs_world = ()\<rparr>"

definition sample_batch :: "liquidation_candidate list" where
  "sample_batch = [sample_candidate, sample_candidate\<lparr>lc_account := ''0xa2'', lc_debtToCover := 90000000\<rparr>,
     sample_candidate\<lparr>lc_account := ''0xa3''\<rparr>, sample_candidate\<lparr>lc_account := ''0xA4''\<rparr>]"

lemma sample_filtered:
  "map lc_account (projr (fst (filterCandidates sample_services ''base'' sample_batch ''poll'' sample_gate_state))) = [''0xa1''] \<and>
   \<not> isl (fst (filterCandidates sample_services ''base'' sample_batch ''poll'' sample_gate_state)) \<and>
   gs_cooldownBlocks (snd (filterCandidates sample_services ''base'' sample_batch ''poll'' sample_gate_state)) = 1 \<and>
   gs_dustFiltered (snd (filterCandidates sample_services ''base'' sample_batch ''poll'' sample_gate_state)) = 2"
  by code_simp

lemma sample_gate_run:
  "\<exists>kept s'. filterCandidates sample_services ''base'' sample_batch ''poll'' sample_gate_state = (Inr kept, s') \<and>
     map lc_account kept = [''0xa1''] \<and> gs_cooldownBlocks s' = 1 \<and> gs_dustFiltered s' = 2"
proof -
  obtain r s' where run: "filterCandidates sample_services ''base'' sample_batch ''poll'' sample_gate_state = (r, s')"
    by (cases "filterCandidates sample_services ''base'' sample_batch ''poll'' sample_gate_state")
  show ?thesis using sample_filtered unfolding run fst_conv snd_conv by (cases r) auto
qed

theorem gate_keeps_profitable_witness:
  "\<exists>kept s'. filterCandidates sample_services ''base'' sample_batch ''poll'' sample_gate_state = (Inr kept, s') \<and>
     map lc_account kept = [''0xa1''] \<and> (\<forall>c' \<in> set kept. 0 < lc_repayValueUsd c') \<and> 4 + 0 + 0 = length kept + 1 + 2"
proof -
  obtain kept s' where run: "filterCandidates sample_services ''base'' sample_batch ''poll'' sample_gate_state = (Inr kept, s')"
    and out: "map lc_account kept = [''0xa1'']" "gs_cooldownBlocks s' = 1" "gs_dustFiltered s' = 2"
    using sample_gate_run by (elim exE conjE)
  from gate_keeps_profitable [OF run] have "\<forall>c' \<in> set kept. 0 < lc_repayValueUsd c'"
    "length sample_batch + gs_cooldownBlocks sample_gate_state + gs_dustFiltered sample_gate_state =
      length kept + gs_cooldownBlocks s' + gs_dustFiltered s'" by blast+
  then have final: "(\<forall>c' \<in> set kept. 0 < lc_repayValueUsd c') \<and> 4 + 0 + 0 = length kept + 1 + 2"
    by (simp add: out sample_batch_def sample_gate_state_def)
  show ?thesis by (intro exI) (rule conjI [OF run conjI [OF out(1) final]])
qed


end
