(* ===== verification/Pool_Quotes.thy ===== *)
theory Pool_Quotes
  imports Complex_Main Effects
begin

text \<open>
  \<open>src/mirror/ammMirror.ts\<close>, the mirror of pool prices that swap events feed, and
  \<open>src/mirror/quoteEngine.ts\<close>, the quotes of the arbitrage scanner: from the mirror when it is used and
  warm, else from the contracts. The contract reads and the head of the chain are services. Log lines
  are left out.
\<close>

section \<open>AmmMirror\<close>

record pool_mirror_state =
  pp_pool :: address
  pp_sqrtPriceX96 :: int
  pp_liquidity :: int
  pp_tick :: int
  pp_updatedAtMs :: int

record amm_mirror =
  mi_pools :: "(address, pool_mirror_state) jsmap"
  mi_eventsReceived :: int
  mi_lastSwapTimestamp :: "int option"

definition mirror_new :: amm_mirror where
  "mirror_new = \<lparr>mi_pools = [], mi_eventsReceived = 0, mi_lastSwapTimestamp = None\<rparr>"

definition mirror_upsert :: "pool_mirror_state \<Rightarrow> amm_mirror \<Rightarrow> amm_mirror" where
  "mirror_upsert st m = m\<lparr>mi_pools := js_set (to_lower (pp_pool st)) st (mi_pools m),
     mi_eventsReceived := mi_eventsReceived m + 1, mi_lastSwapTimestamp := Some (pp_updatedAtMs st)\<rparr>"

definition recordSwapEvent :: "int \<Rightarrow> amm_mirror \<Rightarrow> amm_mirror" where
  "recordSwapEvent updatedAtMs m =
     m\<lparr>mi_eventsReceived := mi_eventsReceived m + 1, mi_lastSwapTimestamp := Some updatedAtMs\<rparr>"

definition mirror_get :: "address \<Rightarrow> amm_mirror \<Rightarrow> pool_mirror_state option" where
  "mirror_get pool m = js_get (mi_pools m) (to_lower pool)"

definition mirror_size :: "amm_mirror \<Rightarrow> nat" where
  "mirror_size m = length (mi_pools m)"

definition isWarm :: "amm_mirror \<Rightarrow> bool" where
  "isWarm m = (0 < length (mi_pools m))"

definition Q96 :: int where
  "Q96 = 2 ^ 96"

definition mirror_out :: "int \<Rightarrow> int \<Rightarrow> bool \<Rightarrow> int" where
  "mirror_out price amountIn zeroForOne =
     (let ratio = bdiv (price * price) Q96
      in if zeroForOne then bdiv (amountIn * ratio) Q96
         else bdiv (amountIn * Q96) (if ratio = 0 then 1 else ratio))"

definition quoteExactInputSingle :: "address \<Rightarrow> int \<Rightarrow> bool \<Rightarrow> amm_mirror \<Rightarrow> int option" where
  "quoteExactInputSingle pool amountIn zeroForOne m =
     (case mirror_get pool m of
        None \<Rightarrow> None
      | Some st \<Rightarrow>
          if amountIn \<le> 0 then None
          else if pp_sqrtPriceX96 st = 0 then None
          else let out = mirror_out (pp_sqrtPriceX96 st) amountIn zeroForOne
               in if 0 < out then Some out else None)"

text \<open>The mirror of the process, created at the first use.\<close>

definition getAmmMirror :: "amm_mirror option \<Rightarrow> amm_mirror \<times> amm_mirror option" where
  "getAmmMirror g = (case g of Some m \<Rightarrow> (m, g) | None \<Rightarrow> (mirror_new, Some mirror_new))"

definition resetAmmMirror :: "amm_mirror option \<Rightarrow> amm_mirror option" where
  "resetAmmMirror g = None"

section \<open>QuoteEngine\<close>

record dex_config =
  dx_name :: string
  dx_router :: address
  dx_feeBps :: rat
  dx_quoterV2 :: "address option"
  dx_quoterPoolFee :: "int option"

record 'w quote_services =
  qv_quoter :: "address \<Rightarrow> address \<Rightarrow> address \<Rightarrow> int \<Rightarrow> int \<Rightarrow> ('w, int) io"
  qv_getAmountsOut :: "address \<Rightarrow> int \<Rightarrow> address \<Rightarrow> address \<Rightarrow> ('w, int list) io"
  qv_chainHead :: "('w, int) io option"

record quote_config =
  qc_useLocalMirror :: bool
  qc_startBlock :: "int option"

record 'w quote_state =
  qs_world :: 'w
  qs_mirror :: "amm_mirror option"
  qs_resolvedStartBlock :: "int option"

type_synonym ('w, 'a) quote_io = "('w quote_state, 'a) io"

definition qcall :: "('w, 'a) io \<Rightarrow> ('w, 'a) quote_io" where
  "qcall m s = (case m (qs_world s) of (r, w) \<Rightarrow> (r, s\<lparr>qs_world := w\<rparr>))"

definition get_mirror :: "('w, amm_mirror) quote_io" where
  "get_mirror s = (case getAmmMirror (qs_mirror s) of (m, g) \<Rightarrow> (Inr m, s\<lparr>qs_mirror := g\<rparr>))"

definition MIRROR_COLD_RPC_FALLBACK_BLOCKS :: int where
  "MIRROR_COLD_RPC_FALLBACK_BLOCKS = 300"

definition blocksSinceStart :: "'w quote_services \<Rightarrow> quote_config \<Rightarrow> ('w, int) quote_io" where
  "blocksSinceStart sv cfg =
     (case qv_chainHead sv of
        None \<Rightarrow> io_return MIRROR_COLD_RPC_FALLBACK_BLOCKS
      | Some head \<Rightarrow>
          io_bind (qcall head) (\<lambda>h.
            io_bind (io_get (\<lambda>s. case qc_startBlock cfg of
                Some b \<Rightarrow> b | None \<Rightarrow> (case qs_resolvedStartBlock s of Some b \<Rightarrow> b | None \<Rightarrow> h))) (\<lambda>start.
              io_then (io_modify (\<lambda>s. if qc_startBlock cfg = None \<and> qs_resolvedStartBlock s = None
                  then s\<lparr>qs_resolvedStartBlock := Some h\<rparr> else s))
                (io_return (if start < h then h - start else 0)))))"

definition shouldForceRpcFallback :: "'w quote_services \<Rightarrow> quote_config \<Rightarrow> nat \<Rightarrow> ('w, bool) quote_io" where
  "shouldForceRpcFallback sv cfg mirrorStateSize =
     (if \<not> qc_useLocalMirror cfg then io_return True
      else if 0 < mirrorStateSize then io_return False
      else io_bind (blocksSinceStart sv cfg) (\<lambda>blocks.
        if blocks < MIRROR_COLD_RPC_FALLBACK_BLOCKS then io_return True else io_return True))"

definition quoteViaRpc :: "'w quote_services \<Rightarrow> dex_config \<Rightarrow> address \<Rightarrow> address \<Rightarrow> int \<Rightarrow> ('w, int) quote_io" where
  "quoteViaRpc sv dex tokenIn tokenOut amountIn =
     (case dx_quoterV2 dex of
        Some quoter \<Rightarrow> qcall (qv_quoter sv quoter tokenIn tokenOut amountIn
          (case dx_quoterPoolFee dex of Some f \<Rightarrow> f | None \<Rightarrow> 3000))
      | None \<Rightarrow> io_bind (qcall (qv_getAmountsOut sv (dx_router dex) amountIn tokenIn tokenOut)) (\<lambda>amounts.
          if length amounts < 2 then io_throw (Exn ''Malformed getAmountsOut output'') else io_return (amounts ! 1)))"

definition quoteAmountOut ::
  "'w quote_services \<Rightarrow> quote_config \<Rightarrow> dex_config \<Rightarrow> address \<Rightarrow> address \<Rightarrow> int \<Rightarrow> ('w, int) quote_io" where
  "quoteAmountOut sv cfg dex tokenIn tokenOut amountIn =
     io_bind get_mirror (\<lambda>mirror.
       io_bind (shouldForceRpcFallback sv cfg (mirror_size mirror)) (\<lambda>forceRpcFallback.
         case (if qc_useLocalMirror cfg \<and> \<not> forceRpcFallback \<and> isWarm mirror
               then quoteExactInputSingle (dx_router dex) amountIn True mirror else None) of
           Some mirrored \<Rightarrow> io_return mirrored
         | None \<Rightarrow> quoteViaRpc sv dex tokenIn tokenOut amountIn))"

text \<open>A probe that is not positive or whose quote fails is left out.\<close>

fun quote_probes ::
  "'w quote_services \<Rightarrow> quote_config \<Rightarrow> dex_config \<Rightarrow> address \<Rightarrow> address \<Rightarrow> int list \<Rightarrow> ('w, int list) quote_io" where
  "quote_probes sv cfg dex tokenIn tokenOut [] = io_return []"
| "quote_probes sv cfg dex tokenIn tokenOut (a # as) =
     (if a \<le> 0 then quote_probes sv cfg dex tokenIn tokenOut as
      else io_bind (io_catch (io_bind (quoteAmountOut sv cfg dex tokenIn tokenOut a) (\<lambda>q. io_return [q])) (\<lambda>_. io_return []))
        (\<lambda>out. io_bind (quote_probes sv cfg dex tokenIn tokenOut as) (\<lambda>outs. io_return (out @ outs))))"

definition getQuotesForPool ::
  "'w quote_services \<Rightarrow> quote_config \<Rightarrow> dex_config \<Rightarrow> address \<Rightarrow> address \<Rightarrow> int list \<Rightarrow> ('w, int list) quote_io" where
  "getQuotesForPool sv cfg dex tokenIn tokenOut amountsIn =
     io_bind get_mirror (\<lambda>mirror.
       io_bind (shouldForceRpcFallback sv cfg (mirror_size mirror)) (\<lambda>_.
         quote_probes sv cfg dex tokenIn tokenOut amountsIn))"

section \<open>Lemmas\<close>

lemma mirrored_quote:
  assumes "qs_mirror s = Some m" and "qc_useLocalMirror cfg" and "quoteExactInputSingle (dx_router dex) amountIn True m = Some out"
  shows "quoteAmountOut sv cfg dex tokenIn tokenOut amountIn s = (Inr out, s)"
proof -
  have "mi_pools m \<noteq> []" using assms(3) by (auto simp: quoteExactInputSingle_def mirror_get_def split: option.splits)
  then show ?thesis
    using assms by (simp add: quoteAmountOut_def get_mirror_def getAmmMirror_def io_bind_def io_simps shouldForceRpcFallback_def
      mirror_size_def isWarm_def)
qed

lemma mirror_out_bounds:
  assumes "0 < price" and "0 \<le> a"
  shows "mirror_out price a True * Q96 \<le> a * (price * price div Q96)"
    and "a * (price * price div Q96) < (mirror_out price a True + 1) * Q96"
proof -
  have q: "0 < Q96" by (simp add: Q96_def)
  have "0 \<le> price * price div Q96" using assms q by (intro pos_imp_zdiv_nonneg_iff [THEN iffD2]) auto
  then have eq: "mirror_out price a True = a * (price * price div Q96) div Q96"
    using assms q by (simp add: mirror_out_def Let_def bdiv_nonneg_eq)
  define x where "x = a * (price * price div Q96)"
  have split: "x div Q96 * Q96 + x mod Q96 = x" by (rule div_mult_mod_eq)
  have "0 \<le> x mod Q96" "x mod Q96 < Q96" using q by simp_all
  with split have "x div Q96 * Q96 \<le> x" "x < x div Q96 * Q96 + Q96" by linarith+
  then have "x div Q96 * Q96 \<le> x" "x < (x div Q96 + 1) * Q96" by (simp_all only: distrib_right mult_1)
  then show "mirror_out price a True * Q96 \<le> a * (price * price div Q96)"
    "a * (price * price div Q96) < (mirror_out price a True + 1) * Q96" by (simp_all add: eq x_def)
qed

section \<open>Properties\<close>

text \<open>Quotes from the warm mirror ignore the direction of the trade and look the pool up by the
  router: a round trip through one exchange multiplies by the same ratio twice. With a mirrored price
  ratio of two or more, the round trip of any positive amount seems to return at least four times the amount.\<close>

theorem mirror_round_trip_inflates:
  assumes "qs_mirror s = Some m" and "qc_useLocalMirror cfg"
    and "mirror_get (dx_router dex) m = Some st" and "pp_sqrtPriceX96 st = price"
    and "0 < price" and "2 * Q96 \<le> price * price div Q96" and "0 < amountIn"
  shows "\<exists>mid out. quoteAmountOut sv cfg dex tokenIn tokenOut amountIn s = (Inr mid, s) \<and>
    quoteAmountOut sv cfg dex tokenOut tokenIn mid s = (Inr out, s) \<and> 4 * amountIn \<le> out"
proof -
  have q: "0 < Q96" by (simp add: Q96_def)
  have double: "2 * a \<le> mirror_out price a True" if "0 < a" for a
  proof -
    have "a * (2 * Q96) \<le> a * (price * price div Q96)" using that assms(6) by (intro mult_left_mono) simp_all
    also have "\<dots> < (mirror_out price a True + 1) * Q96" using that by (intro mirror_out_bounds(2) [OF assms(5)]) simp
    finally have "2 * a * Q96 < (mirror_out price a True + 1) * Q96" by (simp only: ac_simps)
    then have "2 * a < mirror_out price a True + 1" using q by (simp only: mult_less_cancel_right_pos)
    then show ?thesis by simp
  qed
  let ?mid = "mirror_out price amountIn True"
  have mid: "2 * amountIn \<le> ?mid" "0 < ?mid" using double [OF assms(7)] assms(7) by linarith+
  have quote: "quoteExactInputSingle (dx_router dex) a True m = Some (mirror_out price a True)" if "0 < a" for a
    using that double [OF that] assms(3-5) by (simp add: quoteExactInputSingle_def Let_def)
  have "4 * amountIn \<le> mirror_out price ?mid True" using double [OF mid(2)] mid(1) by linarith
  with mirrored_quote [OF assms(1,2) quote [OF assms(7)]] mirrored_quote [OF assms(1,2) quote [OF mid(2)]]
  show ?thesis by blast
qed

definition sample_pool :: pool_mirror_state where
  "sample_pool = \<lparr>pp_pool = ''0xRouter'', pp_sqrtPriceX96 = 2 * Q96, pp_liquidity = 1, pp_tick = 0, pp_updatedAtMs = 1000\<rparr>"

definition sample_dex :: dex_config where
  "sample_dex = \<lparr>dx_name = ''dex'', dx_router = ''0xrouter'', dx_feeBps = 30, dx_quoterV2 = None, dx_quoterPoolFee = None\<rparr>"

definition no_quotes :: "unit quote_services" where
  "no_quotes = \<lparr>qv_quoter = (\<lambda>q a b x f. io_throw (Exn ''no quoter'')), qv_getAmountsOut = (\<lambda>r x a b. io_throw (Exn ''no router'')),
     qv_chainHead = None\<rparr>"

theorem mirror_round_trip_inflates_witness:
  "\<exists>mid out. quoteAmountOut no_quotes \<lparr>qc_useLocalMirror = True, qc_startBlock = None\<rparr> sample_dex ''0xa'' ''0xb'' 1000
       \<lparr>qs_world = (), qs_mirror = Some (mirror_upsert sample_pool mirror_new), qs_resolvedStartBlock = None\<rparr>
     = (Inr mid, \<lparr>qs_world = (), qs_mirror = Some (mirror_upsert sample_pool mirror_new), qs_resolvedStartBlock = None\<rparr>) \<and>
     fst (quoteAmountOut no_quotes \<lparr>qc_useLocalMirror = True, qc_startBlock = None\<rparr> sample_dex ''0xb'' ''0xa'' mid
       \<lparr>qs_world = (), qs_mirror = Some (mirror_upsert sample_pool mirror_new), qs_resolvedStartBlock = None\<rparr>) = Inr out \<and> 4000 \<le> out"
proof -
  let ?s = "\<lparr>qs_world = (), qs_mirror = Some (mirror_upsert sample_pool mirror_new), qs_resolvedStartBlock = None\<rparr>"
  have "mirror_get (dx_router sample_dex) (mirror_upsert sample_pool mirror_new) = Some sample_pool" by code_simp
  moreover have "0 < 2 * Q96" "2 * Q96 \<le> (2 * Q96) * (2 * Q96) div Q96" by (simp_all add: Q96_def)
  ultimately show ?thesis
    using mirror_round_trip_inflates [of ?s "mirror_upsert sample_pool mirror_new" "\<lparr>qc_useLocalMirror = True, qc_startBlock = None\<rparr>"
        sample_dex sample_pool "2 * Q96" 1000 no_quotes "''0xa''" "''0xb''"]
    by (auto simp: sample_pool_def)
qed

end
