(* ===== verification/Orchestrator.thy ===== *)
theory Orchestrator
  imports Candidate_Gate Pool_Quotes
begin

text \<open>
  \<open>src/orchestrator/pipelineOrchestrator.ts\<close>, one cycle of the pipeline: candidates, plans, execution and
  the record of the outcomes; with \<open>src/types/opportunity.ts\<close>. The state holds the objects the
  orchestrator calls that are part of the development: the gate's state, the dead-letter queue, the
  borrower cache of the detection, the chain registry and the simulation breaker. Everything else it
  is configured with is a service. The trace of the requests handed to the executor is kept for the
  statements. Log lines and latency metrics are left out; of the metrics the error count is kept.
\<close>

section \<open>Opportunities and plans\<close>

record arbitrage_opportunity = arb_opportunity +
  ab_buyDex :: dex_config
  ab_sellDex :: dex_config
  ab_tokenIn :: address
  ab_tokenOut :: address
  ab_amountIn :: int
  ab_expectedIntermediateOut :: int
  ab_expectedAmountOut :: int
  ab_expectedRevenue :: asset_amount
  ab_estimatedGas :: asset_amount
  ab_flashLoanFee :: asset_amount
  ab_slippageBuffer :: asset_amount
  ab_safetyBuffer :: asset_amount
  ab_capitalAtRisk :: asset_amount
  ab_provider :: flash_provider
  ab_minimumMarginBps :: rat

datatype opportunity = LiquidationOpportunity liquidation_candidate | ArbitrageOpportunity arbitrage_opportunity

definition fromLiquidationCandidate :: "liquidation_candidate \<Rightarrow> opportunity" where
  "fromLiquidationCandidate c = LiquidationOpportunity c"

definition fromArbitrageOpportunity :: "arbitrage_opportunity \<Rightarrow> opportunity" where
  "fromArbitrageOpportunity a = ArbitrageOpportunity a"

record execution_plan =
  pl_chain :: string
  pl_opportunity :: opportunity
  pl_request :: exec_request

datatype observed_outcome = Won | Missed | OutcomeReverted | LostToCompetitor

record learning_outcome =
  lo_chain :: string
  lo_opportunityId :: string
  lo_features :: "string list"
  lo_expectedProfitBps :: int
  lo_outcome :: observed_outcome

fun opportunityFeatures :: "opportunity \<Rightarrow> string list" where
  "opportunityFeatures (LiquidationOpportunity c) =
     [''type:liquidation'', ''collateral:'' @ to_lower (lc_collateralAsset c), ''debt:'' @ to_lower (lc_debtAsset c)]"
| "opportunityFeatures (ArbitrageOpportunity a) =
     [''type:arbitrage'', ''buyDex:'' @ dx_name (ab_buyDex a), ''sellDex:'' @ dx_name (ab_sellDex a),
      ''pair:'' @ to_lower (ab_tokenIn a) @ '':'' @ to_lower (ab_tokenOut a)]"

fun toLearningOutcome :: "exec_result \<Rightarrow> observed_outcome" where
  "toLearningOutcome (Sent hash) = Won"
| "toLearningOutcome (ExecFailed reason) = (if reason = FailReceiptReverted then OutcomeReverted else Missed)"
| "toLearningOutcome _ = Missed"

definition expectedProfitBps :: "route_selection_input \<Rightarrow> int" where
  "expectedProfitBps i =
     (let cost = am_raw (ri_debt i) + am_raw (ri_gas i) + am_raw (ri_swapCost i) + am_raw (ri_slippageBuffer i)
                 + am_raw (ri_safetyBuffer i)
      in if am_raw (ri_revenue i) \<le> cost \<or> am_raw (ri_capitalAtRisk i) = 0 then 0
         else bdiv ((am_raw (ri_revenue i) - cost) * 10000) (am_raw (ri_capitalAtRisk i)))"

text \<open>The reason strings of the executor's results.\<close>

fun reject_name :: "exec_reject \<Rightarrow> string" where
  "reject_name RejRouteRejected = ''route_rejected''"
| "reject_name RejTransactionMismatch = ''transaction_mismatch''"
| "reject_name RejFinalSimulationFailed = ''final_simulation_failed''"
| "reject_name RejCircuitOpen = ''circuit_open''"
| "reject_name RejDustFiltered = ''dust_filtered''"
| "reject_name RejBorrowerCooldown = ''borrower_cooldown''"

fun fail_name :: "exec_fail \<Rightarrow> string" where
  "fail_name FailReceiptReorged = ''receipt_reorged''"
| "fail_name FailReceiptReverted = ''receipt_reverted''"
| "fail_name FailSendFailed = ''send_failed''"

section \<open>State and configuration\<close>

record run_summary =
  rs_scanned :: nat
  rs_attempted :: nat
  rs_sent :: nat
  rs_simulated :: nat
  rs_rejected :: nat
  rs_failed :: nat

definition mutableSummary :: run_summary where
  "mutableSummary = \<lparr>rs_scanned = 0, rs_attempted = 0, rs_sent = 0, rs_simulated = 0, rs_rejected = 0, rs_failed = 0\<rparr>"

record frozen_summary = run_summary +
  fs_deadLetters :: nat
  fs_revenue :: rat
  fs_evaluations :: int
  fs_sims :: int
  fs_oppsPerBlock :: rat

definition freezeSummary :: "run_summary \<Rightarrow> diagnostics_snapshot \<Rightarrow> frozen_summary" where
  "freezeSummary s d = run_summary.extend s (frozen_summary.fields (rs_rejected s + rs_failed s) (ds_revenue d)
     (ds_evaluations d) (ds_sims d) (ds_oppsPerBlock d))"

record 'w pipeline_state =
  ps_gate :: "'w gate_state"
  ps_deadLetters :: dead_letter_queue
  ps_cache :: borrower_cache
  ps_registry :: registry
  ps_simCircuit :: sim_breaker
  ps_lastUpdate :: int
  ps_summary :: run_summary
  ps_errors :: nat
  ps_executed :: "exec_request list"

record 'w pipeline_config =
  pc_now :: "'w \<Rightarrow> int \<times> 'w"
  pc_gate :: "'w gate_config option"
  pc_maxDeadLetters :: "nat option"
  pc_maxCacheAgeMs :: "int option"
  pc_watchlistSweep :: "(string \<Rightarrow> ('w, unit) io) option"
  pc_maxStaleMs :: "int option"
  pc_sequencerIsUp :: "(string \<Rightarrow> ('w, bool) io) option"
  pc_startDetection :: "('w \<times> borrower_cache, unit) io"
  pc_pollFallback :: "string \<Rightarrow> ('w \<times> borrower_cache, unit) io"
  pc_breakerState :: "string \<Rightarrow> breaker_name \<Rightarrow> 'w \<Rightarrow> breaker_state"
  pc_collectExtra :: "(string \<Rightarrow> ('w, opportunity list) io) option"
  pc_rank :: "(string \<Rightarrow> execution_plan list \<Rightarrow> ('w, execution_plan list) io) option"
  pc_recordOutcome :: "(learning_outcome \<Rightarrow> ('w, unit) io) option"
  pc_execute :: "exec_request \<Rightarrow> ('w, exec_result) io"
  pc_buildExecutionRequest :: "liquidation_candidate \<Rightarrow> ('w, exec_request option) io"
  pc_buildForOpportunity :: "(opportunity \<Rightarrow> ('w, exec_request option) io) option"
  pc_simCircuit :: "(string \<times> nat option \<times> int option) option"
  pc_blocksPerCycle :: "('w \<Rightarrow> int) option"
  pc_diagnosticSample :: "(string \<Rightarrow> ('w, (address \<times> int) list) io) option"
  pc_cycleObserver :: "(frozen_summary \<Rightarrow> ('w, unit) io) option"

type_synonym ('w, 'a) pipe_io = "('w pipeline_state, 'a) io"

definition in_gate :: "('w, 'a) gate_io \<Rightarrow> ('w, 'a) pipe_io" where
  "in_gate m s = (case m (ps_gate s) of (r, g) \<Rightarrow> (r, s\<lparr>ps_gate := g\<rparr>))"

definition pipe_call :: "('w, 'a) io \<Rightarrow> ('w, 'a) pipe_io" where
  "pipe_call m = in_gate (gate_call m)"

text \<open>A service that also works on the detection's cache.\<close>

definition detection_call :: "('w \<times> borrower_cache, 'a) io \<Rightarrow> ('w, 'a) pipe_io" where
  "detection_call m s =
     (case m (gs_world (ps_gate s), ps_cache s) of
        (r, w, c) \<Rightarrow> (r, s\<lparr>ps_gate := (ps_gate s)\<lparr>gs_world := w\<rparr>, ps_cache := c\<rparr>))"

definition pipe_clock :: "'w pipeline_config \<Rightarrow> ('w, int) pipe_io" where
  "pipe_clock cfg = pipe_call (\<lambda>w. case pc_now cfg w of (t, w') \<Rightarrow> (Inr t, w'))"

definition pipe_error :: "('w, unit) pipe_io" where
  "pipe_error = io_modify (\<lambda>s. s\<lparr>ps_errors := ps_errors s + 1\<rparr>)"

definition on_summary :: "(run_summary \<Rightarrow> run_summary) \<Rightarrow> ('w, unit) pipe_io" where
  "on_summary f = io_modify (\<lambda>s. s\<lparr>ps_summary := f (ps_summary s)\<rparr>)"

section \<open>Dead letters\<close>

definition enqueue_letter :: "'w pipeline_config \<Rightarrow> string \<Rightarrow> string \<Rightarrow> address \<Rightarrow> string \<Rightarrow> ('w, unit) pipe_io" where
  "enqueue_letter cfg chain opportunityId account reason =
     io_bind (pipe_clock cfg) (\<lambda>now. io_modify (\<lambda>s. s\<lparr>ps_deadLetters := dq_enqueue (pc_maxDeadLetters cfg)
       \<lparr>dl_chain = chain, dl_opportunityId = opportunityId, dl_account = account, dl_reason = reason, dl_createdAtMs = now\<rparr>
       (ps_deadLetters s)\<rparr>))"

definition gate_dead_letter :: "'w pipeline_config \<Rightarrow> string \<Rightarrow> address \<Rightarrow> string \<Rightarrow> ('w, unit) pipe_io" where
  "gate_dead_letter cfg chain account reason =
     (case pc_gate cfg of None \<Rightarrow> io_return () | Some g \<Rightarrow> in_gate (recordDeadLetter g chain account reason))"

definition deadLetter :: "'w pipeline_config \<Rightarrow> exec_request \<Rightarrow> string \<Rightarrow> ('w, unit) pipe_io" where
  "deadLetter cfg req reason =
     (if reason = ''dust_filtered'' \<or> reason = ''borrower_cooldown'' then io_return ()
      else io_then (gate_dead_letter cfg (rq_chain req) (rq_account req) reason)
             (enqueue_letter cfg (rq_chain req) (rq_opportunityId req) (rq_account req) reason))"

definition deadLetterCandidate :: "'w pipeline_config \<Rightarrow> string \<Rightarrow> liquidation_candidate \<Rightarrow> string \<Rightarrow> ('w, unit) pipe_io" where
  "deadLetterCandidate cfg chain c reason =
     io_then (if reason \<noteq> ''dust_filtered'' then gate_dead_letter cfg chain (lc_account c) reason else io_return ())
       (enqueue_letter cfg chain (chain @ '':'' @ lc_account c @ '':'' @ lc_debtAsset c) (lc_account c) reason)"

fun deadLetterOpportunity :: "'w pipeline_config \<Rightarrow> string \<Rightarrow> opportunity \<Rightarrow> string \<Rightarrow> ('w, unit) pipe_io" where
  "deadLetterOpportunity cfg chain (LiquidationOpportunity c) reason = deadLetterCandidate cfg chain c reason"
| "deadLetterOpportunity cfg chain (ArbitrageOpportunity a) reason =
     enqueue_letter cfg chain (ao_opportunityId a) (ab_tokenIn a) reason"

section \<open>Plans\<close>

definition buildExecutionRequest :: "'w pipeline_config \<Rightarrow> opportunity \<Rightarrow> ('w, exec_request option) pipe_io" where
  "buildExecutionRequest cfg opportunity =
     (case pc_buildForOpportunity cfg of
        Some build \<Rightarrow> pipe_call (build opportunity)
      | None \<Rightarrow> (case opportunity of
           LiquidationOpportunity c \<Rightarrow> pipe_call (pc_buildExecutionRequest cfg c)
         | ArbitrageOpportunity a \<Rightarrow> io_return None))"

text \<open>A liquidation whose borrower the gate blocks is passed over.\<close>

definition opportunity_blocked :: "'w pipeline_config \<Rightarrow> string \<Rightarrow> opportunity \<Rightarrow> ('w, bool) pipe_io" where
  "opportunity_blocked cfg chain opportunity =
     (case (opportunity, pc_gate cfg) of
        (LiquidationOpportunity c, Some g) \<Rightarrow> in_gate (gate_isBorrowerBlocked g chain (lc_account c))
      | _ \<Rightarrow> io_return False)"

definition build_plan :: "'w pipeline_config \<Rightarrow> string \<Rightarrow> opportunity \<Rightarrow> ('w, execution_plan option) pipe_io" where
  "build_plan cfg chain opportunity =
     io_bind (opportunity_blocked cfg chain opportunity) (\<lambda>blocked.
       if blocked then io_return None
       else io_catch
         (io_bind (buildExecutionRequest cfg opportunity) (\<lambda>request. io_return
            (map_option (\<lambda>r. \<lparr>pl_chain = chain, pl_opportunity = opportunity, pl_request = r\<rparr>) request)))
         (\<lambda>_. io_then (on_summary (\<lambda>m. m\<lparr>rs_failed := rs_failed m + 1\<rparr>))
           (io_then pipe_error
             (io_then (deadLetterOpportunity cfg chain opportunity ''request_builder_exception'') (io_return None)))))"

fun buildExecutionPlans :: "'w pipeline_config \<Rightarrow> string \<Rightarrow> opportunity list \<Rightarrow> ('w, execution_plan list) pipe_io" where
  "buildExecutionPlans cfg chain [] = io_return []"
| "buildExecutionPlans cfg chain (opportunity # rest) =
     io_bind (build_plan cfg chain opportunity) (\<lambda>plan.
       io_bind (buildExecutionPlans cfg chain rest) (\<lambda>plans.
         io_return (case plan of None \<Rightarrow> plans | Some p \<Rightarrow> p # plans)))"

definition rankPlans :: "'w pipeline_config \<Rightarrow> string \<Rightarrow> execution_plan list \<Rightarrow> ('w, execution_plan list) pipe_io" where
  "rankPlans cfg chain plans =
     (case pc_rank cfg of
        None \<Rightarrow> io_return plans
      | Some rank \<Rightarrow> io_catch (pipe_call (rank chain plans)) (\<lambda>_. io_then pipe_error (io_return plans)))"

section \<open>Execution\<close>

definition recordLearningOutcome :: "'w pipeline_config \<Rightarrow> execution_plan \<Rightarrow> observed_outcome \<Rightarrow> ('w, unit) pipe_io" where
  "recordLearningOutcome cfg plan outcome =
     (case pc_recordOutcome cfg of
        None \<Rightarrow> io_return ()
      | Some observe \<Rightarrow>
          io_catch (pipe_call (observe \<lparr>lo_chain = pl_chain plan, lo_opportunityId = rq_opportunityId (pl_request plan),
              lo_features = opportunityFeatures (pl_opportunity plan),
              lo_expectedProfitBps = expectedProfitBps (rq_routeInput (pl_request plan)), lo_outcome = outcome\<rparr>))
            (\<lambda>_. pipe_error))"

text \<open>\<open>simFailureCircuit?.recordSimFailure(reason)\<close> and \<open>simFailureCircuit?.recordSuccess()\<close>\<close>

definition circuit_failure :: "'w pipeline_config \<Rightarrow> string \<Rightarrow> ('w, unit) pipe_io" where
  "circuit_failure cfg reason =
     (case pc_simCircuit cfg of
        None \<Rightarrow> io_return ()
      | Some (chain, threshold, openMs) \<Rightarrow>
          io_bind (pipe_clock cfg) (\<lambda>now s.
            case sim_recordSimFailure registry_get registry_setCircuitBreakerState chain threshold openMs now reason
                   (ps_simCircuit s) (ps_registry s) of
              (r, b, reg) \<Rightarrow> (r, s\<lparr>ps_simCircuit := b, ps_registry := reg\<rparr>)))"

definition circuit_success :: "'w pipeline_config \<Rightarrow> ('w, unit) pipe_io" where
  "circuit_success cfg =
     (case pc_simCircuit cfg of
        None \<Rightarrow> io_return ()
      | Some _ \<Rightarrow> io_modify (\<lambda>s. s\<lparr>ps_simCircuit := sim_recordSuccess (ps_simCircuit s)\<rparr>))"

definition record_sim :: "('w, unit) pipe_io" where
  "record_sim = in_gate (io_modify (\<lambda>g. g\<lparr>gs_diagnostics :=
     Some (cd_recordSim (fst (getCycleDiagnosticsCollector (gs_diagnostics g))))\<rparr>))"

fun recordExecutionResult :: "'w pipeline_config \<Rightarrow> exec_request \<Rightarrow> exec_result \<Rightarrow> ('w, unit) pipe_io" where
  "recordExecutionResult cfg req (Sent hash) = on_summary (\<lambda>m. m\<lparr>rs_sent := rs_sent m + 1\<rparr>)"
| "recordExecutionResult cfg req Simulated =
     io_then (on_summary (\<lambda>m. m\<lparr>rs_simulated := rs_simulated m + 1\<rparr>)) (io_then record_sim (circuit_success cfg))"
| "recordExecutionResult cfg req (ExecRejected reason) =
     io_then (on_summary (\<lambda>m. m\<lparr>rs_rejected := rs_rejected m + 1\<rparr>))
       (io_then (circuit_failure cfg (reject_name reason))
         (if reason = RejDustFiltered \<or> reason = RejBorrowerCooldown then io_return ()
          else deadLetter cfg req (reject_name reason)))"
| "recordExecutionResult cfg req (ExecFailed reason) =
     io_then (on_summary (\<lambda>m. m\<lparr>rs_failed := rs_failed m + 1\<rparr>))
       (io_then pipe_error
         (io_then (circuit_failure cfg (fail_name reason)) (deadLetter cfg req (fail_name reason))))"

definition call_executor :: "'w pipeline_config \<Rightarrow> exec_request \<Rightarrow> ('w, exec_result) pipe_io" where
  "call_executor cfg req =
     io_then (io_modify (\<lambda>s. s\<lparr>ps_executed := ps_executed s @ [req]\<rparr>)) (pipe_call (pc_execute cfg req))"

definition executePlan :: "'w pipeline_config \<Rightarrow> execution_plan \<Rightarrow> ('w, unit) pipe_io" where
  "executePlan cfg plan =
     io_bind (opportunity_blocked cfg (pl_chain plan) (pl_opportunity plan)) (\<lambda>blocked.
       if blocked then io_return ()
       else io_then (on_summary (\<lambda>m. m\<lparr>rs_attempted := rs_attempted m + 1\<rparr>))
         (io_catch
           (io_bind (call_executor cfg (pl_request plan)) (\<lambda>result.
              io_then (recordExecutionResult cfg (pl_request plan) result)
                (recordLearningOutcome cfg plan (toLearningOutcome result))))
           (\<lambda>_. io_then (on_summary (\<lambda>m. m\<lparr>rs_failed := rs_failed m + 1\<rparr>))
             (io_then pipe_error
               (io_then (deadLetter cfg (pl_request plan) ''executor_exception'') (recordLearningOutcome cfg plan Missed))))))"

fun executePlans :: "'w pipeline_config \<Rightarrow> execution_plan list \<Rightarrow> ('w, unit) pipe_io" where
  "executePlans cfg [] = io_return ()"
| "executePlans cfg (plan # rest) = io_then (executePlan cfg plan) (executePlans cfg rest)"

section \<open>One chain of a cycle\<close>

definition isCircuitOpen :: "'w pipeline_config \<Rightarrow> string \<Rightarrow> breaker_name \<Rightarrow> ('w, bool) pipe_io" where
  "isCircuitOpen cfg chain name =
     io_get (\<lambda>s. cb_status (pc_breakerState cfg chain name (gs_world (ps_gate s))) = Open)"

definition list_cached :: "'w pipeline_config \<Rightarrow> string \<Rightarrow> ('w, borrower_snapshot list) pipe_io" where
  "list_cached cfg chain =
     io_bind (pipe_clock cfg) (\<lambda>now s.
       case listSnapshots now chain (ps_cache s) of (snapshots, c) \<Rightarrow> (Inr snapshots, s\<lparr>ps_cache := c\<rparr>))"

definition maxCacheAgeMs :: "'w pipeline_config \<Rightarrow> int" where
  "maxCacheAgeMs cfg = (case pc_maxCacheAgeMs cfg of Some a \<Rightarrow> a | None \<Rightarrow> 30000)"

definition hasFreshCache :: "'w pipeline_config \<Rightarrow> string \<Rightarrow> ('w, bool) pipe_io" where
  "hasFreshCache cfg chain =
     io_bind (pipe_clock cfg) (\<lambda>now.
       io_bind (list_cached cfg chain) (\<lambda>snapshots.
         io_return (list_ex (\<lambda>s. now - maxCacheAgeMs cfg \<le> bs_updatedAtMs s) snapshots)))"

definition createFreshCandidates :: "'w pipeline_config \<Rightarrow> string \<Rightarrow> ('w, liquidation_candidate list) pipe_io" where
  "createFreshCandidates cfg chain =
     io_bind (pipe_clock cfg) (\<lambda>now.
       io_bind (list_cached cfg chain) (\<lambda>snapshots.
         io_bind (upsert_all (pipe_clock cfg) (filter (\<lambda>s. now - maxCacheAgeMs cfg \<le> bs_updatedAtMs s) snapshots)
                   (ca_new None None)) (\<lambda>freshCache.
           io_bind (pipe_clock cfg) (\<lambda>later. io_lift (fst (createReserveAwareCandidates later chain freshCache))))))"

definition cached_candidates :: "'w pipeline_config \<Rightarrow> string \<Rightarrow> ('w, liquidation_candidate list) pipe_io" where
  "cached_candidates cfg chain =
     io_bind (pipe_clock cfg) (\<lambda>now s.
       case createReserveAwareCandidates now chain (ps_cache s) of (r, c) \<Rightarrow> (r, s\<lparr>ps_cache := c\<rparr>))"

definition runDegradedPolling :: "'w pipeline_config \<Rightarrow> string \<Rightarrow> ('w, bool) pipe_io" where
  "runDegradedPolling cfg chain =
     io_catch (io_then (detection_call (pc_pollFallback cfg chain)) (io_return True))
       (\<lambda>_. io_then pipe_error (io_return False))"

text \<open>Whether the chain may execute in this cycle, and from which candidates: \<open>None\<close> for each early
  return of \<open>runChain\<close>.\<close>

definition check_staleness :: "'w pipeline_config \<Rightarrow> ('w, staleness_status option) pipe_io" where
  "check_staleness cfg =
     (case pc_maxStaleMs cfg of
        None \<Rightarrow> io_return None
      | Some maxStaleMs \<Rightarrow>
          io_bind (pipe_clock cfg) (\<lambda>now. io_get (\<lambda>s. Some (sg_check maxStaleMs (ps_lastUpdate s) now))))"

definition sweep_watchlist :: "'w pipeline_config \<Rightarrow> string \<Rightarrow> ('w, unit) pipe_io" where
  "sweep_watchlist cfg chain =
     (case pc_watchlistSweep cfg of
        None \<Rightarrow> io_return ()
      | Some sweep \<Rightarrow> io_catch (pipe_call (sweep chain)) (\<lambda>_. pipe_error))"

definition sequencer_up :: "'w pipeline_config \<Rightarrow> string \<Rightarrow> ('w, bool) pipe_io" where
  "sequencer_up cfg chain =
     (case pc_sequencerIsUp cfg of None \<Rightarrow> io_return True | Some isUp \<Rightarrow> pipe_call (isUp chain))"

definition execution_open :: "string \<Rightarrow> ('w, bool) pipe_io" where
  "execution_open chain =
     io_bind (io_get (\<lambda>s. registry_get (ps_registry s) chain)) (\<lambda>entry.
       io_bind (io_lift entry) (\<lambda>c. io_return (cb_status (cbs_execution (rc_circuitBreakers c)) = Open)))"

definition degraded_mode :: "'w pipeline_config \<Rightarrow> string \<Rightarrow> ('w, bool) pipe_io" where
  "degraded_mode cfg chain =
     io_bind (isCircuitOpen cfg chain BreakerRpc) (\<lambda>rpc. if rpc then io_return True else isCircuitOpen cfg chain BreakerSubgraph)"

text \<open>\<open>refreshed && hasFreshCache(chain)\<close>\<close>

definition refresh_degraded :: "'w pipeline_config \<Rightarrow> string \<Rightarrow> ('w, bool) pipe_io" where
  "refresh_degraded cfg chain =
     io_bind (runDegradedPolling cfg chain) (\<lambda>refreshed. if \<not> refreshed then io_return False else hasFreshCache cfg chain)"

definition admit_chain :: "'w pipeline_config \<Rightarrow> string \<Rightarrow> ('w, bool option) pipe_io" where
  "admit_chain cfg chain =
     io_then (sweep_watchlist cfg chain)
       (io_bind (check_staleness cfg) (\<lambda>staleness.
         if staleness = Some Critical then io_then pipe_error (io_return None)
         else io_bind (sequencer_up cfg chain) (\<lambda>up.
           if \<not> up then io_return None
           else io_bind (execution_open chain) (\<lambda>circuit_open.
             if circuit_open then io_return None
             else io_bind (degraded_mode cfg chain) (\<lambda>degraded.
               if \<not> degraded then io_return (Some False)
               else io_bind (refresh_degraded cfg chain) (\<lambda>usable.
                 io_return (if usable then Some True else None)))))))"

definition raw_candidates :: "'w pipeline_config \<Rightarrow> string \<Rightarrow> bool \<Rightarrow> ('w, liquidation_candidate list) pipe_io" where
  "raw_candidates cfg chain degraded =
     (if degraded then createFreshCandidates cfg chain else cached_candidates cfg chain)"

definition gated_candidates :: "'w pipeline_config \<Rightarrow> string \<Rightarrow> liquidation_candidate list \<Rightarrow> ('w, liquidation_candidate list) pipe_io" where
  "gated_candidates cfg chain raw =
     (case pc_gate cfg of
        None \<Rightarrow> io_return raw
      | Some g \<Rightarrow> in_gate (filterCandidates g chain raw ''pipeline_enqueue''))"

definition extra_opportunities :: "'w pipeline_config \<Rightarrow> string \<Rightarrow> ('w, opportunity list) pipe_io" where
  "extra_opportunities cfg chain =
     (case pc_collectExtra cfg of None \<Rightarrow> io_return [] | Some collect \<Rightarrow> pipe_call (collect chain))"

definition run_admitted :: "'w pipeline_config \<Rightarrow> string \<Rightarrow> bool \<Rightarrow> ('w, unit) pipe_io" where
  "run_admitted cfg chain degraded =
     io_bind (raw_candidates cfg chain degraded) (\<lambda>raw.
       io_bind (gated_candidates cfg chain raw) (\<lambda>base.
         io_bind (extra_opportunities cfg chain) (\<lambda>extra.
           io_bind (buildExecutionPlans cfg chain (map fromLiquidationCandidate base @ extra)) (\<lambda>plans.
             io_bind (rankPlans cfg chain plans) (\<lambda>ranked.
               io_then (on_summary (\<lambda>m. m\<lparr>rs_scanned := rs_scanned m + length ranked\<rparr>))
                 (executePlans cfg ranked))))))"

definition runChain :: "'w pipeline_config \<Rightarrow> string \<Rightarrow> ('w, unit) pipe_io" where
  "runChain cfg chain =
     io_bind (admit_chain cfg chain) (\<lambda>mode.
       case mode of None \<Rightarrow> io_return () | Some degraded \<Rightarrow> run_admitted cfg chain degraded)"

section \<open>A cycle and the loop\<close>

definition sample_diagnostics :: "'w pipeline_config \<Rightarrow> string \<Rightarrow> ('w, unit) pipe_io" where
  "sample_diagnostics cfg chain =
     (case (pc_diagnosticSample cfg, pc_gate cfg) of
        (Some sample, Some g) \<Rightarrow>
          io_bind (pipe_call (sample chain)) (\<lambda>reads.
            if reads = [] then io_return ()
            else in_gate (recordHealthFactorDiagnostics reads ''pipeline_cycle_sample''))
      | _ \<Rightarrow> io_return ())"

fun run_chains :: "'w pipeline_config \<Rightarrow> string list \<Rightarrow> ('w, unit) pipe_io" where
  "run_chains cfg [] = io_return ()"
| "run_chains cfg (chain # rest) =
     io_then (runChain cfg chain) (io_then (sample_diagnostics cfg chain) (run_chains cfg rest))"

definition with_diagnostics :: "(diagnostics_collector \<Rightarrow> diagnostics_collector) \<Rightarrow> ('w, diagnostics_collector) pipe_io" where
  "with_diagnostics f s =
     (let d = fst (getCycleDiagnosticsCollector (gs_diagnostics (ps_gate s)))
      in (Inr d, s\<lparr>ps_gate := (ps_gate s)\<lparr>gs_diagnostics := Some (f d)\<rparr>\<rparr>))"

definition finish_cycle :: "'w pipeline_config \<Rightarrow> ('w, frozen_summary) pipe_io" where
  "finish_cycle cfg =
     io_bind (io_get (\<lambda>s. max 1 (case pc_blocksPerCycle cfg of Some f \<Rightarrow> f (gs_world (ps_gate s)) | None \<Rightarrow> 1))) (\<lambda>blocksDelta.
       io_bind (with_diagnostics cd_reset) (\<lambda>diagnostics.
         io_bind (io_get ps_summary) (\<lambda>summary.
           let frozen = freezeSummary summary (cd_snapshot (int (rs_sent summary)) blocksDelta diagnostics)
           in io_then (case pc_cycleObserver cfg of None \<Rightarrow> io_return () | Some observe \<Rightarrow> pipe_call (observe frozen))
                (io_return frozen))))"

definition run_cycle :: "'w pipeline_config \<Rightarrow> ('w, frozen_summary) pipe_io" where
  "run_cycle cfg =
     io_bind (io_get (\<lambda>s. registry_listChains (ps_registry s))) (\<lambda>names.
       io_then (run_chains cfg names) (finish_cycle cfg))"

definition runOnce :: "'w pipeline_config \<Rightarrow> ('w, frozen_summary) pipe_io" where
  "runOnce cfg = io_then (on_summary (\<lambda>_. mutableSummary)) (run_cycle cfg)"

definition remainingDelayMs :: "int \<Rightarrow> int \<Rightarrow> int \<Rightarrow> int" where
  "remainingDelayMs startedAt pollIntervalMs now = max 0 (pollIntervalMs - (now - startedAt))"

text \<open>One turn of \<open>runLoop\<close>: an exception of the cycle is counted and the loop goes on. The abort signal
  and the sleep, which the signal cuts short, are services.\<close>

record 'w loop_services =
  ls_aborted :: "'w \<Rightarrow> bool"
  ls_sleep :: "int \<Rightarrow> 'w \<Rightarrow> 'w"

definition loop_turn :: "'w pipeline_config \<Rightarrow> 'w loop_services \<Rightarrow> int \<Rightarrow> ('w, unit) pipe_io" where
  "loop_turn cfg ls pollIntervalMs =
     io_bind (pipe_clock cfg) (\<lambda>startedAt.
       io_then (io_catch (io_then (runOnce cfg) (io_return ())) (\<lambda>_. pipe_error))
         (io_bind (pipe_clock cfg) (\<lambda>now.
           if remainingDelayMs startedAt pollIntervalMs now \<le> 0 then io_return ()
           else pipe_call (\<lambda>w. (Inr (), if ls_aborted ls w then w else ls_sleep ls (remainingDelayMs startedAt pollIntervalMs now) w)))))"

partial_function (option) loop_turns ::
  "'w pipeline_config \<Rightarrow> 'w loop_services \<Rightarrow> int \<Rightarrow> 'w pipeline_state \<Rightarrow> 'w pipeline_state option" where
  "loop_turns cfg ls pollIntervalMs s =
     (if ls_aborted ls (gs_world (ps_gate s)) then Some s
      else loop_turns cfg ls pollIntervalMs (snd (loop_turn cfg ls pollIntervalMs s)))"

text \<open>\<open>runLoop\<close> throws only if the detection does not start; \<open>stop\<close> only tells the detection.\<close>

definition runLoop ::
  "'w pipeline_config \<Rightarrow> 'w loop_services \<Rightarrow> int \<Rightarrow> 'w pipeline_state \<Rightarrow> ((exn + unit) \<times> 'w pipeline_state) option" where
  "runLoop cfg ls pollIntervalMs s =
     (case detection_call (pc_startDetection cfg) s of
        (Inl e, s1) \<Rightarrow> Some (Inl e, s1)
      | (Inr _, s1) \<Rightarrow> map_option (\<lambda>s2. (Inr (), s2)) (loop_turns cfg ls pollIntervalMs s1))"

end
