(* ===== verification/Orchestrator_Safety.thy ===== *)
theory Orchestrator_Safety
  imports Orchestrator
begin

text \<open>
  What a cycle of the pipeline keeps to: every plan is executed once and counted once, nothing is
  executed on a chain that is paused, only fresh snapshots are used while the endpoints are degraded,
  and the loop outlives every failed cycle; and how outcomes reach the cooldown, the dead letters and
  the simulation breaker.
\<close>

section \<open>Frames\<close>

lemma in_gate_keeps [io_rules]:
  assumes "\<And>s g. P s \<Longrightarrow> P (s\<lparr>ps_gate := g\<rparr>)"
  shows "io_keeps P (in_gate m)"
  using assms by (auto simp: io_keeps_def io_valid_def in_gate_def split: prod.splits sum.splits)

lemma pipe_call_keeps [io_rules]:
  "(\<And>s g. P s \<Longrightarrow> P (s\<lparr>ps_gate := g\<rparr>)) \<Longrightarrow> io_keeps P (pipe_call m)"
  unfolding pipe_call_def by (rule in_gate_keeps)

lemma pipe_clock_keeps [io_rules]:
  "(\<And>s g. P s \<Longrightarrow> P (s\<lparr>ps_gate := g\<rparr>)) \<Longrightarrow> io_keeps P (pipe_clock cfg)"
  unfolding pipe_clock_def by (rule pipe_call_keeps)

lemma detection_call_keeps [io_rules]:
  assumes "\<And>s g c. P s \<Longrightarrow> P (s\<lparr>ps_gate := g, ps_cache := c\<rparr>)"
  shows "io_keeps P (detection_call m)"
  using assms by (auto simp: io_keeps_def io_valid_def detection_call_def split: prod.splits sum.splits)

text \<open>Computations that keep a property and do not throw.\<close>

definition io_safe :: "('s \<Rightarrow> bool) \<Rightarrow> ('s, 'a) io \<Rightarrow> bool" where
  "io_safe P m \<longleftrightarrow> io_valid P m (\<lambda>_. P) (\<lambda>_ _. False)"

lemma io_valid_run:
  assumes "io_valid P m Q (\<lambda>_ _. False)" "P s"
  shows "\<exists>a s'. m s = (Inr a, s') \<and> Q a s'"
proof (cases "m s")
  case (Pair r s')
  with io_validD [OF assms] show ?thesis by (cases r) auto
qed

lemma io_safe_return: "io_safe P (io_return a)"
  by (simp add: io_safe_def io_valid_return)

lemma io_safe_modify: "(\<And>s. P s \<Longrightarrow> P (f s)) \<Longrightarrow> io_safe P (io_modify f)"
  by (simp add: io_safe_def io_valid_modify)

lemma io_safe_bind: "io_safe P m \<Longrightarrow> (\<And>a. io_safe P (f a)) \<Longrightarrow> io_safe P (io_bind m f)"
  unfolding io_safe_def by (rule io_valid_bind)

lemma io_safe_then: "io_safe P m \<Longrightarrow> io_safe P n \<Longrightarrow> io_safe P (io_then m n)"
  unfolding io_safe_def by (rule io_valid_then)

lemma io_safe_if: "(b \<Longrightarrow> io_safe P m) \<Longrightarrow> (\<not> b \<Longrightarrow> io_safe P n) \<Longrightarrow> io_safe P (if b then m else n)"
  by simp

lemma io_safe_option:
  "(x = None \<Longrightarrow> io_safe P m) \<Longrightarrow> (\<And>y. x = Some y \<Longrightarrow> io_safe P (f y)) \<Longrightarrow>
   io_safe P (case x of None \<Rightarrow> m | Some y \<Rightarrow> f y)"
  by (cases x) auto

lemma io_safe_catch: "io_keeps P m \<Longrightarrow> (\<And>e. io_safe P (h e)) \<Longrightarrow> io_safe P (io_catch m h)"
  unfolding io_safe_def io_keeps_def by (rule io_valid_catch)

lemma io_safe_keeps:
  assumes "io_safe P m"
  shows "io_keeps P m"
  unfolding io_keeps_def
  using assms [unfolded io_safe_def] by (intro io_validI) (blast dest: io_validD)+

lemma io_safe_gate:
  assumes "\<And>s g. P s \<Longrightarrow> P (s\<lparr>ps_gate := g\<rparr>)" and "\<And>g. \<not> isl (fst (m g))"
  shows "io_safe P (in_gate m)"
  unfolding io_safe_def
proof (rule io_validI)
  fix s e s' assume "in_gate m s = (Inl e, s')"
  then show False using assms(2) [of "ps_gate s"] by (auto simp: in_gate_def split: prod.splits)
qed (auto simp: in_gate_def assms(1) split: prod.splits)

lemmas io_safe_rules = io_safe_return io_safe_modify io_safe_bind io_safe_then io_safe_if io_safe_option io_safe_catch

lemma clock_returns: "\<not> isl (fst (gate_call (\<lambda>w. case now w of (t, w') \<Rightarrow> (Inr t, w')) g))"
  by (simp add: gate_call_def split: prod.splits)

lemma blocked_returns: "\<not> isl (fst (gate_isBorrowerBlocked c chain account g))"
proof -
  obtain t w where now: "gc_now c (gs_world g) = (t, w)" by (cases "gc_now c (gs_world g)")
  obtain b r where "isBorrowerBlocked t chain account (gs_cooldown g) = (b, r)"
    by (cases "isBorrowerBlocked t chain account (gs_cooldown g)")
  from blocked_eq [OF now this] show ?thesis by simp
qed

lemma deadLetter_returns: "\<not> isl (fst (recordDeadLetter c chain account reason g))"
proof -
  obtain t w where now: "gc_now c (gs_world g) = (t, w)" by (cases "gc_now c (gs_world g)")
  show ?thesis by (simp add: recordDeadLetter_def io_bind_def gate_clock_eq [OF now] io_simps)
qed

text \<open>What stays when only the gate's state, the dead letters and the error count move.\<close>

locale framed =
  fixes P :: "'w pipeline_state \<Rightarrow> bool"
  assumes frame: "P s \<Longrightarrow> P (s\<lparr>ps_gate := g\<rparr>)" "P s \<Longrightarrow> P (s\<lparr>ps_deadLetters := q\<rparr>)" "P s \<Longrightarrow> P (s\<lparr>ps_errors := n\<rparr>)"
begin

lemma safe_clock: "io_safe P (pipe_clock cfg)"
  unfolding pipe_clock_def pipe_call_def by (intro io_safe_gate frame clock_returns)

lemma safe_error: "io_safe P pipe_error"
  unfolding pipe_error_def by (intro io_safe_modify frame)

lemma safe_enqueue: "io_safe P (enqueue_letter cfg chain op account reason)"
  unfolding enqueue_letter_def by (intro io_safe_bind safe_clock io_safe_modify frame)

lemma safe_gate_letter: "io_safe P (gate_dead_letter cfg chain account reason)"
  unfolding gate_dead_letter_def by (intro io_safe_option io_safe_return io_safe_gate frame deadLetter_returns)

lemma safe_deadLetter: "io_safe P (deadLetter cfg req reason)"
  unfolding deadLetter_def by (intro io_safe_rules safe_gate_letter safe_enqueue)

lemma safe_deadLetterOpportunity: "io_safe P (deadLetterOpportunity cfg chain op reason)"
  by (cases op) (simp_all add: deadLetterCandidate_def safe_enqueue io_safe_then io_safe_return safe_gate_letter)

lemma safe_blocked: "io_safe P (opportunity_blocked cfg chain op)"
  by (auto simp: opportunity_blocked_def io_safe_return split: opportunity.split option.split
    intro!: io_safe_gate frame blocked_returns)

lemma safe_learning: "io_safe P (recordLearningOutcome cfg plan outcome)"
  unfolding recordLearningOutcome_def by (intro io_safe_rules pipe_call_keeps frame safe_error)

lemma safe_record_sim: "io_safe P record_sim"
  unfolding record_sim_def by (intro io_safe_gate frame) (simp_all add: io_simps)

lemma safe_rank: "io_safe P (rankPlans cfg chain plans)"
  unfolding rankPlans_def by (intro io_safe_rules pipe_call_keeps frame safe_error)

end

text \<open>The same where the borrower cache moves too: everything before the plans are built.\<close>

lemma upsert_all_keeps:
  assumes "io_keeps P clock"
  shows "io_keeps P (upsert_all clock ss cache)"
  using assms by (induction ss arbitrary: cache) (auto intro!: io_rules)

locale framed_cache = framed +
  assumes frame_cache: "P s \<Longrightarrow> P (s\<lparr>ps_cache := c\<rparr>)"
begin

lemma keeps_clock: "io_keeps P (pipe_clock cfg)"
  by (rule io_safe_keeps [OF safe_clock])

lemma framed_call: "io_keeps P (pipe_call m)"
  by (intro pipe_call_keeps frame)

lemma keeps_list: "io_keeps P (list_cached cfg chain)"
  unfolding list_cached_def
  by (intro io_keeps_bind keeps_clock) (auto simp: io_keeps_def io_valid_def frame_cache split: prod.splits)

lemma keeps_cached: "io_keeps P (cached_candidates cfg chain)"
  unfolding cached_candidates_def
  by (intro io_keeps_bind keeps_clock) (auto simp: io_keeps_def io_valid_def frame_cache split: prod.splits sum.splits)

lemma keeps_detection: "io_keeps P (detection_call m)"
  by (intro detection_call_keeps frame_cache frame)

lemma keeps_fresh: "io_keeps P (createFreshCandidates cfg chain)"
  unfolding createFreshCandidates_def by (intro io_rules keeps_clock keeps_list upsert_all_keeps)

lemma keeps_hasFresh: "io_keeps P (hasFreshCache cfg chain)"
  unfolding hasFreshCache_def by (intro io_rules keeps_clock keeps_list)

lemma keeps_refresh: "io_keeps P (refresh_degraded cfg chain)"
  unfolding refresh_degraded_def runDegradedPolling_def
  by (intro io_rules keeps_detection keeps_hasFresh io_safe_keeps [OF safe_error])

lemma keeps_sweep: "io_keeps P (sweep_watchlist cfg chain)"
  unfolding sweep_watchlist_def by (intro io_rules framed_call io_safe_keeps [OF safe_error])

lemma keeps_staleness: "io_keeps P (check_staleness cfg)"
  unfolding check_staleness_def by (intro io_rules keeps_clock)

lemma keeps_sequencer: "io_keeps P (sequencer_up cfg chain)"
  unfolding sequencer_up_def by (intro io_rules framed_call)

lemma keeps_open: "io_keeps P (execution_open chain)"
  unfolding execution_open_def by (intro io_rules)

lemma keeps_degraded: "io_keeps P (degraded_mode cfg chain)"
  unfolding degraded_mode_def isCircuitOpen_def by (intro io_rules)

lemma keeps_admit: "io_keeps P (admit_chain cfg chain)"
  unfolding admit_chain_def
  by (intro io_rules keeps_sweep keeps_staleness keeps_sequencer keeps_open keeps_degraded keeps_refresh io_safe_keeps [OF safe_error])

lemma keeps_raw: "io_keeps P (raw_candidates cfg chain degraded)"
  unfolding raw_candidates_def by (intro io_rules keeps_fresh keeps_cached)

lemma keeps_gated: "io_keeps P (gated_candidates cfg chain raw)"
  unfolding gated_candidates_def by (intro io_rules frame)

lemma keeps_extra: "io_keeps P (extra_opportunities cfg chain)"
  unfolding extra_opportunities_def by (intro io_rules framed_call)

lemma keeps_sample: "io_keeps P (sample_diagnostics cfg chain)"
  unfolding sample_diagnostics_def by (auto intro!: io_rules framed_call frame split: option.split)

end

section \<open>Accounting\<close>

definition tally :: "run_summary \<Rightarrow> nat" where
  "tally m = rs_sent m + rs_simulated m + rs_rejected m + rs_failed m"

text \<open>The chain of the simulation breaker is registered.\<close>

definition circuit_ok :: "'w pipeline_config \<Rightarrow> registry \<Rightarrow> bool" where
  "circuit_ok cfg r \<longleftrightarrow> (case pc_simCircuit cfg of None \<Rightarrow> True | Some (chain, _, _) \<Rightarrow> js_has r chain)"

definition acct :: "'w pipeline_config \<Rightarrow> nat \<Rightarrow> nat \<Rightarrow> exec_request list \<Rightarrow> 'w pipeline_state \<Rightarrow> bool" where
  "acct cfg a t es s \<longleftrightarrow> rs_attempted (ps_summary s) = a \<and> tally (ps_summary s) = t \<and> ps_executed s = es \<and> circuit_ok cfg (ps_registry s)"

interpretation accounts: framed "acct cfg a t es" for cfg a t es
  by unfold_locales (simp_all add: acct_def)

lemma set_breaker_state_keys:
  "registry_setCircuitBreakerState r chain name st = Inr r' \<Longrightarrow> js_has r' c = js_has r c"
  by (auto simp: registry_setCircuitBreakerState_def registry_get_def js_has_iff split: option.splits if_splits)

lemma sim_failure_total:
  assumes "js_has r chain"
  shows "\<exists>b' r'. sim_recordSimFailure registry_get registry_setCircuitBreakerState chain threshold openMs now reason b r = (Inr (), b', r')
    \<and> js_has r' chain"
proof -
  obtain c where c: "registry_get r chain = Inr c" using assms by (auto simp: js_has_iff)
  obtain r' where r': "registry_setCircuitBreakerState r chain BreakerExecution
      \<lparr>cb_status = Open, cb_failures = cb_failures (cbs_execution (rc_circuitBreakers c)) + 1, cb_openedAtMs = Some now\<rparr> = Inr r'"
    using c by (auto simp: registry_setCircuitBreakerState_def)
  show ?thesis
    unfolding sim_recordSimFailure_def sim_openCircuit_def Let_def c sum.case r'
    using assms set_breaker_state_keys [OF r', of chain] by simp
qed

lemma acct_circuit_failure: "io_safe (acct cfg a t es) (circuit_failure cfg reason)"
proof (cases "pc_simCircuit cfg")
  case None
  then show ?thesis by (simp add: circuit_failure_def io_safe_return)
next
  case (Some x)
  obtain chain threshold openMs where x: "x = (chain, threshold, openMs)" by (cases x)
  have "io_safe (acct cfg a t es) (\<lambda>s. case sim_recordSimFailure registry_get registry_setCircuitBreakerState chain threshold openMs now reason
      (ps_simCircuit s) (ps_registry s) of (r, b, reg) \<Rightarrow> (r, s\<lparr>ps_simCircuit := b, ps_registry := reg\<rparr>))" for now
    unfolding io_safe_def
  proof (rule io_validI)
    fix s u s'
    assume acct: "acct cfg a t es s" and run: "(case sim_recordSimFailure registry_get registry_setCircuitBreakerState chain threshold openMs now reason
      (ps_simCircuit s) (ps_registry s) of (r, b, reg) \<Rightarrow> (r, s\<lparr>ps_simCircuit := b, ps_registry := reg\<rparr>)) = (Inr u, s')"
    have "js_has (ps_registry s) chain" using acct Some x by (simp add: acct_def circuit_ok_def)
    from sim_failure_total [OF this, of threshold openMs now reason "ps_simCircuit s"] run acct Some x
    show "acct cfg a t es s'" by (auto simp: acct_def circuit_ok_def)
  next
    fix s e s'
    assume acct: "acct cfg a t es s" and run: "(case sim_recordSimFailure registry_get registry_setCircuitBreakerState chain threshold openMs now reason
      (ps_simCircuit s) (ps_registry s) of (r, b, reg) \<Rightarrow> (r, s\<lparr>ps_simCircuit := b, ps_registry := reg\<rparr>)) = (Inl e, s')"
    have "js_has (ps_registry s) chain" using acct Some x by (simp add: acct_def circuit_ok_def)
    from sim_failure_total [OF this, of threshold openMs now reason "ps_simCircuit s"] run show False by auto
  qed
  then show ?thesis
    by (simp add: circuit_failure_def Some x io_safe_bind accounts.safe_clock)
qed

lemma acct_circuit_success: "io_safe (acct cfg a t es) (circuit_success cfg)"
  unfolding circuit_success_def by (intro io_safe_option io_safe_return io_safe_modify) (simp add: acct_def)

text \<open>Recording a result counts it once and does not throw.\<close>

lemma acct_count:
  assumes "\<And>m. rs_attempted (f m) = rs_attempted m + i \<and> tally (f m) = tally m + j"
  shows "io_valid (acct cfg a t es) (on_summary f) (\<lambda>_. acct cfg (a + i) (t + j) es) (\<lambda>_ _. False)"
  unfolding on_summary_def using assms by (intro io_valid_modify) (simp add: acct_def)

lemma acct_record_result:
  fixes cfg :: "'w pipeline_config"
  shows "io_valid (acct cfg a t es) (recordExecutionResult cfg req result) (\<lambda>_. acct cfg a (t + 1) es) (\<lambda>_ _. False)"
proof -
  let ?Q = "\<lambda>_. acct cfg (a + 0) (t + 1) es" and ?E = "\<lambda>_ _. False"
  have after: "io_valid (acct cfg a t es) (io_then (on_summary f) m) ?Q ?E"
    if "\<And>s. rs_attempted (f s) = rs_attempted s + 0 \<and> tally (f s) = tally s + 1" "io_safe (acct cfg (a + 0) (t + 1) es) m"
    for f and m :: "('w, unit) pipe_io"
    using acct_count [OF that(1)] that(2) [unfolded io_safe_def] by (rule io_valid_then)
  have "io_valid (acct cfg a t es) (recordExecutionResult cfg req result) ?Q ?E"
  proof (cases result)
    case (Sent hash)
    show ?thesis unfolding Sent recordExecutionResult.simps by (rule acct_count) (simp add: tally_def)
  next
    case Simulated
    show ?thesis unfolding Simulated recordExecutionResult.simps
      by (rule after) (simp_all add: tally_def io_safe_then accounts.safe_record_sim acct_circuit_success)
  next
    case (ExecRejected reason)
    show ?thesis unfolding ExecRejected recordExecutionResult.simps
      by (rule after) (simp_all add: tally_def io_safe_then acct_circuit_failure io_safe_return accounts.safe_deadLetter)
  next
    case (ExecFailed reason)
    show ?thesis unfolding ExecFailed recordExecutionResult.simps
      by (rule after) (simp_all add: tally_def io_safe_then acct_circuit_failure accounts.safe_error accounts.safe_deadLetter)
  qed
  then show ?thesis by simp
qed

lemma acct_execute:
  "io_valid (acct cfg a t es) (call_executor cfg req) (\<lambda>_. acct cfg a t (es @ [req])) (\<lambda>_. acct cfg a t (es @ [req]))"
proof -
  have "io_keeps (acct cfg a t (es @ [req])) (pipe_call (pc_execute cfg req))"
    by (intro pipe_call_keeps) (simp add: acct_def)
  then show ?thesis
    unfolding call_executor_def io_keeps_def
    by (rule io_valid_then [rotated]) (intro io_valid_modify, simp add: acct_def)
qed

lemma acct_execute_plan:
  "io_valid (acct cfg a t es) (executePlan cfg plan)
     (\<lambda>_ s. acct cfg a t es s \<or> acct cfg (a + 1) (t + 1) (es @ [pl_request plan]) s) (\<lambda>_ _. False)"
proof -
  let ?es = "es @ [pl_request plan]"
  let ?attempt = "io_bind (call_executor cfg (pl_request plan)) (\<lambda>result.
      io_then (recordExecutionResult cfg (pl_request plan) result) (recordLearningOutcome cfg plan (toLearningOutcome result)))"
  let ?handler = "io_then (on_summary (\<lambda>m. m\<lparr>rs_failed := rs_failed m + 1\<rparr>))
      (io_then pipe_error (io_then (deadLetter cfg (pl_request plan) ''executor_exception'') (recordLearningOutcome cfg plan Missed)))"
  have attempt: "io_valid (acct cfg a t es) (on_summary (\<lambda>m. m\<lparr>rs_attempted := rs_attempted m + 1\<rparr>))
      (\<lambda>_. acct cfg (a + 1) (t + 0) es) (\<lambda>_ _. False)"
    by (rule acct_count) (simp add: tally_def)
  have learn: "io_valid (acct cfg (a + 1) (t + 1) ?es) (recordLearningOutcome cfg plan outcome)
      (\<lambda>_. acct cfg (a + 1) (t + 1) ?es) (\<lambda>_. acct cfg (a + 1) t ?es)" for outcome
    using accounts.safe_learning [unfolded io_safe_def] by (rule io_valid_weaken) auto
  have recorded: "io_valid (acct cfg (a + 1) t ?es) (recordExecutionResult cfg (pl_request plan) result)
      (\<lambda>_. acct cfg (a + 1) (t + 1) ?es) (\<lambda>_. acct cfg (a + 1) t ?es)" for result
    using acct_record_result by (rule io_valid_weaken) auto
  have "io_valid (acct cfg (a + 1) t es) ?attempt (\<lambda>_. acct cfg (a + 1) (t + 1) ?es) (\<lambda>_. acct cfg (a + 1) t ?es)"
    by (rule io_valid_bind [OF acct_execute io_valid_then [OF recorded learn]])
  moreover have "io_valid (acct cfg (a + 1) t ?es) (on_summary (\<lambda>m. m\<lparr>rs_failed := rs_failed m + 1\<rparr>))
      (\<lambda>_. acct cfg (a + 1 + 0) (t + 1) ?es) (\<lambda>_ _. False)"
    by (rule acct_count) (simp add: tally_def)
  then have "io_valid (acct cfg (a + 1) t ?es) ?handler (\<lambda>_. acct cfg (a + 1) (t + 1) ?es) (\<lambda>_ _. False)"
    by (rule io_valid_then) (use io_safe_then [OF accounts.safe_error io_safe_then [OF accounts.safe_deadLetter accounts.safe_learning]]
      in \<open>simp add: io_safe_def\<close>)
  ultimately have "io_valid (acct cfg (a + 1) t es) (io_catch ?attempt (\<lambda>_. ?handler)) (\<lambda>_. acct cfg (a + 1) (t + 1) ?es) (\<lambda>_ _. False)"
    by (rule io_valid_catch)
  then have run: "io_valid (acct cfg a t es) (io_then (on_summary (\<lambda>m. m\<lparr>rs_attempted := rs_attempted m + 1\<rparr>))
      (io_catch ?attempt (\<lambda>_. ?handler))) (\<lambda>_. acct cfg (a + 1) (t + 1) ?es) (\<lambda>_ _. False)"
    using io_valid_then [OF attempt] by simp
  show ?thesis
    unfolding executePlan_def
  proof (rule io_valid_bind)
    show "io_valid (acct cfg a t es) (opportunity_blocked cfg (pl_chain plan) (pl_opportunity plan)) (\<lambda>_. acct cfg a t es) (\<lambda>_ _. False)"
      using accounts.safe_blocked by (simp add: io_safe_def)
    show "io_valid (acct cfg a t es) (if b then io_return () else io_then (on_summary (\<lambda>m. m\<lparr>rs_attempted := rs_attempted m + 1\<rparr>))
        (io_catch ?attempt (\<lambda>_. ?handler))) (\<lambda>_ s. acct cfg a t es s \<or> acct cfg (a + 1) (t + 1) ?es s) (\<lambda>_ _. False)" for b
      using run by (cases b) (auto intro: io_valid_return elim!: io_valid_weaken)
  qed
qed

text \<open>The books of a cycle: as many attempts as requests handed to the executor since its start, and
  every attempt counted as sent, simulated, rejected or failed.\<close>

definition books :: "'w pipeline_config \<Rightarrow> exec_request list \<Rightarrow> 'w pipeline_state \<Rightarrow> bool" where
  "books cfg before s \<longleftrightarrow> (\<exists>executed. ps_executed s = before @ executed \<and> rs_attempted (ps_summary s) = length executed \<and>
     rs_attempted (ps_summary s) \<le> tally (ps_summary s) \<and> circuit_ok cfg (ps_registry s))"

interpretation accounted: framed_cache "books cfg before" for cfg before
  by unfold_locales (simp_all add: books_def)

lemma books_execute_plan: "io_safe (books cfg before) (executePlan cfg plan)"
  unfolding io_safe_def
proof (rule io_validI)
  fix s u s' assume books: "books cfg before s" and run: "executePlan cfg plan s = (Inr u, s')"
  then have "acct cfg (rs_attempted (ps_summary s)) (tally (ps_summary s)) (ps_executed s) s" by (auto simp: acct_def books_def)
  from io_validD(1) [OF acct_execute_plan this run] books show "books cfg before s'"
    by (auto simp: acct_def books_def)
next
  fix s e s' assume books: "books cfg before s" and run: "executePlan cfg plan s = (Inl e, s')"
  then have "acct cfg (rs_attempted (ps_summary s)) (tally (ps_summary s)) (ps_executed s) s" by (auto simp: acct_def books_def)
  from io_validD(2) [OF acct_execute_plan this run] show False .
qed

lemma books_execute_plans: "io_safe (books cfg before) (executePlans cfg plans)"
  by (induction plans) (simp_all add: io_safe_return io_safe_then books_execute_plan)

lemma books_build_plan: "io_keeps (books cfg before) (build_plan cfg chain op)"
proof -
  have failed: "io_keeps (books cfg before) (on_summary (\<lambda>m. m\<lparr>rs_failed := rs_failed m + 1\<rparr>))"
    unfolding on_summary_def by (intro io_rules) (auto simp: books_def tally_def)
  have build: "io_keeps (books cfg before) (buildExecutionRequest cfg op)"
    unfolding buildExecutionRequest_def
    by (auto intro!: io_rules accounted.frame split: option.split opportunity.split)
  show ?thesis
    unfolding build_plan_def
    by (intro io_rules failed build io_safe_keeps [OF accounted.safe_blocked] io_safe_keeps [OF accounted.safe_error]
      io_safe_keeps [OF accounted.safe_deadLetterOpportunity])
qed

lemma books_build_plans: "io_keeps (books cfg before) (buildExecutionPlans cfg chain ops)"
  by (induction ops) (simp_all, (intro io_rules books_build_plan | assumption)+)

lemma books_scanned: "io_keeps (books cfg before) (on_summary (\<lambda>m. m\<lparr>rs_scanned := n m\<rparr>))"
  unfolding on_summary_def by (intro io_rules) (auto simp: books_def tally_def)

lemma books_run_admitted: "io_keeps (books cfg before) (run_admitted cfg chain degraded)"
  unfolding run_admitted_def
  by (intro io_rules books_scanned accounted.keeps_raw accounted.keeps_gated accounted.keeps_extra books_build_plans
    io_safe_keeps [OF accounted.safe_rank] io_safe_keeps [OF books_execute_plans])

lemma books_run_chain: "io_keeps (books cfg before) (runChain cfg chain)"
  unfolding runChain_def by (intro io_rules accounted.keeps_admit books_run_admitted)

lemma books_run_chains: "io_keeps (books cfg before) (run_chains cfg names)"
proof (induction names)
  case (Cons chain rest)
  then show ?case
    unfolding run_chains.simps by (intro io_keeps_then books_run_chain accounted.keeps_sample)
qed (simp add: io_keeps_return)

lemma books_diagnostics: "io_keeps (books cfg before) (with_diagnostics f)"
  by (simp add: io_keeps_def io_valid_def with_diagnostics_def Let_def accounted.frame)

lemma books_start: "books cfg (ps_executed s) (s\<lparr>ps_summary := mutableSummary\<rparr>) = circuit_ok cfg (ps_registry s)"
  by (simp add: books_def mutableSummary_def tally_def)

lemma books_finish: "io_keeps (books cfg before) (finish_cycle cfg)"
  unfolding finish_cycle_def Let_def by (intro io_rules books_diagnostics accounted.framed_call)

lemma books_run_cycle: "io_keeps (books cfg before) (run_cycle cfg)"
  unfolding run_cycle_def by (intro io_rules books_run_chains books_finish)

lemma runOnce_eq: "runOnce cfg s = run_cycle cfg (s\<lparr>ps_summary := mutableSummary\<rparr>)"
  by (simp add: runOnce_def on_summary_def io_then_def io_bind_def io_simps)

section \<open>What admits a chain\<close>

definition same_registry :: "registry \<Rightarrow> int \<Rightarrow> 'w pipeline_state \<Rightarrow> bool" where
  "same_registry r u s \<longleftrightarrow> ps_registry s = r \<and> ps_lastUpdate s = u"

definition same_trace :: "exec_request list \<Rightarrow> 'w pipeline_state \<Rightarrow> bool" where
  "same_trace es s \<longleftrightarrow> ps_executed s = es"

interpretation registry_kept: framed_cache "same_registry r u" for r u
  by unfold_locales (simp_all add: same_registry_def)

interpretation trace_kept: framed_cache "same_trace es" for es
  by unfold_locales (simp_all add: same_trace_def)

lemma keeps_Inr:
  assumes "io_keeps P m" "P s" "m s = (r, s')"
  shows "P s'"
  using io_keepsD [OF assms(1,2)] assms(3) by simp

lemma admit_Some:
  assumes "admit_chain cfg chain s = (Inr (Some degraded), s')"
  shows "\<exists>s1 s2 s3 s4 s5 st. check_staleness cfg s1 = (Inr st, s2) \<and> same_registry (ps_registry s) (ps_lastUpdate s) s1 \<and> st \<noteq> Some Critical \<and>
    sequencer_up cfg chain s2 = (Inr True, s3) \<and> execution_open chain s3 = (Inr False, s4) \<and>
    same_registry (ps_registry s) (ps_lastUpdate s) s3 \<and> degraded_mode cfg chain s4 = (Inr degraded, s5) \<and>
    (degraded \<longrightarrow> refresh_degraded cfg chain s5 = (Inr True, s'))"
proof -
  let ?P = "same_registry (ps_registry s) (ps_lastUpdate s)"
  have start: "?P s" by (simp add: same_registry_def)
  from assms obtain u s1 where s1: "sweep_watchlist cfg chain s = (Inr u, s1)"
    and run: "io_bind (check_staleness cfg) (\<lambda>staleness.
         if staleness = Some Critical then io_then pipe_error (io_return None)
         else io_bind (sequencer_up cfg chain) (\<lambda>up.
           if \<not> up then io_return None
           else io_bind (execution_open chain) (\<lambda>circuit_open.
             if circuit_open then io_return None
             else io_bind (degraded_mode cfg chain) (\<lambda>degraded.
               if \<not> degraded then io_return (Some False)
               else io_bind (refresh_degraded cfg chain) (\<lambda>usable.
                 io_return (if usable then Some True else None)))))) s1 = (Inr (Some degraded), s')"
    unfolding admit_chain_def io_then_Inr by blast
  have p1: "?P s1" by (rule keeps_Inr [OF registry_kept.keeps_sweep start s1])
  from run obtain st s2 where s2: "check_staleness cfg s1 = (Inr st, s2)" and st: "st \<noteq> Some Critical"
    and run2: "io_bind (sequencer_up cfg chain) (\<lambda>up.
           if \<not> up then io_return None
           else io_bind (execution_open chain) (\<lambda>circuit_open.
             if circuit_open then io_return None
             else io_bind (degraded_mode cfg chain) (\<lambda>degraded.
               if \<not> degraded then io_return (Some False)
               else io_bind (refresh_degraded cfg chain) (\<lambda>usable.
                 io_return (if usable then Some True else None))))) s2 = (Inr (Some degraded), s')"
    by (auto simp: io_bind_Inr [of "check_staleness cfg"] io_then_Inr io_simps split: if_splits)
  have p2: "?P s2" by (rule keeps_Inr [OF registry_kept.keeps_staleness p1 s2])
  from run2 obtain s3 where s3: "sequencer_up cfg chain s2 = (Inr True, s3)"
    and run3: "io_bind (execution_open chain) (\<lambda>circuit_open.
             if circuit_open then io_return None
             else io_bind (degraded_mode cfg chain) (\<lambda>degraded.
               if \<not> degraded then io_return (Some False)
               else io_bind (refresh_degraded cfg chain) (\<lambda>usable.
                 io_return (if usable then Some True else None)))) s3 = (Inr (Some degraded), s')"
    by (auto simp: io_bind_Inr [of "sequencer_up cfg chain"] io_simps split: if_splits)
  have p3: "?P s3" by (rule keeps_Inr [OF registry_kept.keeps_sequencer p2 s3])
  from run3 obtain s4 where s4: "execution_open chain s3 = (Inr False, s4)"
    and run4: "io_bind (degraded_mode cfg chain) (\<lambda>degraded.
               if \<not> degraded then io_return (Some False)
               else io_bind (refresh_degraded cfg chain) (\<lambda>usable.
                 io_return (if usable then Some True else None))) s4 = (Inr (Some degraded), s')"
    by (auto simp: io_bind_Inr [of "execution_open chain"] io_simps split: if_splits)
  from run4 obtain s5 where s5: "degraded_mode cfg chain s4 = (Inr degraded, s5)"
    and "degraded \<longrightarrow> refresh_degraded cfg chain s5 = (Inr True, s')"
    by (auto simp: io_bind_Inr io_simps split: if_splits)
  with s2 st s3 s4 p1 p3 show ?thesis by blast
qed

lemma staleness_Inr:
  assumes "check_staleness cfg s1 = (Inr st, s2)" and "pc_maxStaleMs cfg = Some m"
  shows "\<exists>w. st = Some (sg_check m (ps_lastUpdate s1) (fst (pc_now cfg w)))"
  using assms by (auto simp: check_staleness_def io_bind_Inr io_simps pipe_clock_def pipe_call_def in_gate_def
      gate_call_def split: prod.splits)
    (metis fst_conv)

lemma sequencer_Inr:
  assumes "sequencer_up cfg chain s2 = (Inr True, s3)" and "pc_sequencerIsUp cfg = Some isUp"
  shows "\<exists>w. fst (isUp chain w) = Inr True"
  using assms by (auto simp: sequencer_up_def pipe_call_def in_gate_def gate_call_def split: prod.splits) (metis fst_conv)

lemma open_Inr:
  assumes "execution_open chain s3 = (Inr False, s4)"
  shows "\<exists>c. js_get (ps_registry s3) chain = Some c \<and> cb_status (cbs_execution (rc_circuitBreakers c)) \<noteq> Open"
  using assms by (auto simp: execution_open_def io_bind_Inr io_simps)

lemma runChain_trace:
  assumes "runChain cfg chain s = (r, s')" and "ps_executed s' \<noteq> ps_executed s"
  shows "\<exists>degraded s1. admit_chain cfg chain s = (Inr (Some degraded), s1) \<and> run_admitted cfg chain degraded s1 = (r, s')"
proof -
  have start: "same_trace (ps_executed s) s" by (simp add: same_trace_def)
  obtain a s1 where admit: "admit_chain cfg chain s = (a, s1)" by (cases "admit_chain cfg chain s")
  from keeps_Inr [OF trace_kept.keeps_admit start admit] have "ps_executed s1 = ps_executed s" by (simp add: same_trace_def)
  with admit assms show ?thesis
    by (auto simp: runChain_def io_bind_def io_simps split: sum.splits option.splits)
qed

lemma pipe_clock_Inr:
  assumes "pipe_clock cfg s = (Inr t, s')"
  shows "\<exists>w. t = fst (pc_now cfg w) \<and> ps_cache s' = ps_cache s"
  using assms by (cases "pc_now cfg (gs_world (ps_gate s))")
    (auto simp: pipe_clock_def pipe_call_def in_gate_def gate_call_def intro!: exI [of _ "gs_world (ps_gate s)"])

lemma set_shrink: "set (ca_snapshots (shrink c)) \<subseteq> set (ca_snapshots c)"
proof (induction c rule: shrink.induct)
  case (1 c)
  show ?case
  proof (cases "ca_maxEntries c < length (ca_snapshots c)")
    case True
    then obtain k x m where m: "ca_snapshots c = (k, x) # m" by (cases "ca_snapshots c") auto
    from "1.IH" [OF True m refl] have "set (ca_snapshots (shrink (deleteSnapshot k x c))) \<subseteq> set (ca_snapshots c)"
      using js_delete_subset [of k "ca_snapshots c"] by simp
    then show ?thesis using True m by (subst shrink.simps) simp
  next
    case False
    then show ?thesis by (subst shrink.simps) simp
  qed
qed

lemma set_expire: "set (ca_snapshots (expire_entry now e c)) \<subseteq> set (ca_snapshots c)"
  using js_delete_subset [of "fst e" "ca_snapshots c"] by (simp add: expire_entry_def)

lemma set_prune: "set (ca_snapshots (prune now c)) \<subseteq> set (ca_snapshots c)"
proof -
  have "set (ca_snapshots (fold (expire_entry now) es c)) \<subseteq> set (ca_snapshots c)" for es
  proof (induction es arbitrary: c)
    case (Cons e es)
    show ?case using Cons.IH [of "expire_entry now e c"] set_expire [of now e c] by simp
  qed simp
  then show ?thesis unfolding prune_def using set_shrink by (rule subset_trans [rotated])
qed

lemma prune_values: "set (js_values (ca_snapshots (prune now c))) \<subseteq> set (js_values (ca_snapshots c))"
  using image_mono [OF set_prune [of now c], of snd] by (simp add: js_values_def)

lemma list_cached_Inr:
  assumes "list_cached cfg chain s = (Inr snapshots, s')"
  shows "\<forall>x \<in> set snapshots. bs_chain x = chain \<and> x \<in> set (js_values (ca_snapshots (ps_cache s))) \<and>
    x \<in> set (js_values (ca_snapshots (ps_cache s')))"
proof -
  from assms obtain t s1 where s1: "pipe_clock cfg s = (Inr t, s1)"
    and "(case listSnapshots t chain (ps_cache s1) of (l, c) \<Rightarrow> (Inr l :: exn + _, s1\<lparr>ps_cache := c\<rparr>)) = (Inr snapshots, s')"
    unfolding list_cached_def io_bind_Inr by (elim exE conjE)
  then have run: "listSnapshots t chain (ps_cache s1) = (snapshots, ps_cache s')"
    by (cases "listSnapshots t chain (ps_cache s1)") auto
  have "ps_cache s1 = ps_cache s" using pipe_clock_Inr [OF s1] by blast
  then have "snapshots = filter (\<lambda>x. bs_chain x = chain) (js_values (ca_snapshots (prune t (ps_cache s))))"
    "ps_cache s' = prune t (ps_cache s)"
    using run by (auto simp: listSnapshots_def Let_def)
  then show ?thesis using prune_values [of t "ps_cache s"] by auto
qed

lemma fresh_Inr:
  assumes "hasFreshCache cfg chain s = (Inr True, s')"
  shows "\<exists>w. \<exists>x \<in> set (js_values (ca_snapshots (ps_cache s'))). bs_chain x = chain \<and>
    fst (pc_now cfg w) - maxCacheAgeMs cfg \<le> bs_updatedAtMs x"
proof -
  from assms obtain t s1 snapshots where s1: "pipe_clock cfg s = (Inr t, s1)"
    and run: "list_cached cfg chain s1 = (Inr snapshots, s')" and ex: "list_ex (\<lambda>x. t - maxCacheAgeMs cfg \<le> bs_updatedAtMs x) snapshots"
    by (auto simp: hasFreshCache_def io_bind_Inr io_simps)
  from pipe_clock_Inr [OF s1] obtain w where "t = fst (pc_now cfg w)" by blast
  with list_cached_Inr [OF run] ex show ?thesis by (auto simp: list_ex_iff)
qed

section \<open>A failed borrower\<close>

text \<open>The block of a key can lapse, but it is not set.\<close>

definition not_blocked_anew :: "string \<Rightarrow> int option \<Rightarrow> 'w gate_state \<Rightarrow> bool" where
  "not_blocked_anew k old g \<longleftrightarrow> js_get (bc_blockedUntilMs (gs_cooldown g)) k \<in> {None, old}"

lemma lift_gate_keeps: "io_keeps G m \<Longrightarrow> io_keeps (\<lambda>s. G (ps_gate s)) (in_gate m)"
  by (auto simp: io_keeps_def io_valid_def in_gate_def split: prod.splits sum.splits)

lemma anew_gate_call [io_rules]: "io_keeps (not_blocked_anew k old) (gate_call m)"
  by (auto simp: io_keeps_def io_valid_def gate_call_def not_blocked_anew_def split: prod.splits sum.splits)

lemma anew_blocked [io_rules]: "io_keeps (not_blocked_anew k old) (gate_isBorrowerBlocked g chain account)"
  unfolding io_keeps_def
proof (rule io_validI)
  fix s b s' assume start: "not_blocked_anew k old s" and run: "gate_isBorrowerBlocked g chain account s = (Inr b, s')"
  obtain t w where now: "gc_now g (gs_world s) = (t, w)" by (cases "gc_now g (gs_world s)")
  obtain b' r where query: "isBorrowerBlocked t chain account (gs_cooldown s) = (b', r)"
    by (cases "isBorrowerBlocked t chain account (gs_cooldown s)")
  have "gs_cooldown s' = r" using blocked_eq [OF now query] run by auto
  moreover have "js_get (bc_blockedUntilMs r) k \<in> {None, js_get (bc_blockedUntilMs (gs_cooldown s)) k}"
    using query_get [of t chain account "gs_cooldown s" k] query by (auto split: option.splits)
  ultimately show "not_blocked_anew k old s'" using start by (auto simp: not_blocked_anew_def)
next
  fix s e s' assume "gate_isBorrowerBlocked g chain account s = (Inl e, s')"
  with blocked_returns [of g chain account s] show "not_blocked_anew k old s'" by simp
qed

lemma anew_dead_letter:
  assumes "borrowerKey chain account \<noteq> k"
  shows "io_keeps (not_blocked_anew k old) (recordDeadLetter g chain account reason)"
  unfolding recordDeadLetter_def gate_clock_def
  using assms by (intro io_rules) (auto simp: not_blocked_anew_def blockBorrower_def Let_def)

lemma anew_clock: "io_keeps (\<lambda>s. not_blocked_anew k old (ps_gate s)) (pipe_clock cfg)"
  unfolding pipe_clock_def pipe_call_def by (intro lift_gate_keeps io_rules)

lemma anew_modify:
  "(\<And>s. ps_gate (f s) = ps_gate s) \<Longrightarrow> io_keeps (\<lambda>s. not_blocked_anew k old (ps_gate s)) (io_modify f)"
  by (rule io_keeps_modify) simp

lemma anew_letter:
  assumes "borrowerKey (rq_chain req) (rq_account req) \<noteq> k"
  shows "io_keeps (\<lambda>s. not_blocked_anew k old (ps_gate s)) (deadLetter cfg req reason)"
  unfolding deadLetter_def gate_dead_letter_def enqueue_letter_def
  by (intro io_keeps_if io_keeps_then io_keeps_return io_keeps_option lift_gate_keeps anew_dead_letter assms io_keeps_bind
    anew_clock anew_modify) simp_all

lemma anew_failure: "io_keeps (\<lambda>s. not_blocked_anew k old (ps_gate s)) (circuit_failure cfg reason)"
  unfolding circuit_failure_def
  by (auto intro!: io_keeps_return io_keeps_bind anew_clock split: option.split)
    (auto simp: io_keeps_def io_valid_def split: prod.splits sum.splits)

lemma anew_record:
  assumes "borrowerKey (rq_chain req) (rq_account req) \<noteq> k"
  shows "io_keeps (\<lambda>s. not_blocked_anew k old (ps_gate s)) (recordExecutionResult cfg req result)"
proof -
  have sim: "io_keeps (\<lambda>s. not_blocked_anew k old (ps_gate s)) record_sim"
    unfolding record_sim_def by (intro lift_gate_keeps io_keeps_modify) (simp add: not_blocked_anew_def)
  show ?thesis
    by (cases result) (simp_all only: recordExecutionResult.simps on_summary_def pipe_error_def circuit_success_def,
      (intro io_keeps_then io_keeps_if io_keeps_return io_keeps_option anew_failure anew_letter assms sim anew_modify; simp)+)
qed

lemma anew_execute:
  assumes "borrowerKey (rq_chain (pl_request plan)) (rq_account (pl_request plan)) \<noteq> k"
  shows "io_keeps (\<lambda>s. not_blocked_anew k old (ps_gate s)) (executePlan cfg plan)"
proof -
  let ?P = "\<lambda>s. not_blocked_anew k old (ps_gate s)"
  have call: "io_keeps ?P (pipe_call m)" for m :: "('a, 'b) io"
    unfolding pipe_call_def by (intro lift_gate_keeps io_rules)
  have learn: "io_keeps ?P (recordLearningOutcome cfg plan outcome)" for outcome
    unfolding recordLearningOutcome_def pipe_error_def pipe_call_def
    by (intro io_keeps_option io_keeps_return io_keeps_catch lift_gate_keeps anew_gate_call anew_modify) simp
  have blocked: "io_keeps ?P (opportunity_blocked cfg (pl_chain plan) (pl_opportunity plan))"
    unfolding opportunity_blocked_def
    by (auto intro!: io_keeps_return lift_gate_keeps anew_blocked split: opportunity.split option.split)
  have exec: "io_keeps ?P (call_executor cfg (pl_request plan))"
    unfolding call_executor_def pipe_call_def by (intro io_keeps_then anew_modify lift_gate_keeps anew_gate_call) simp
  show ?thesis
    unfolding executePlan_def on_summary_def pipe_error_def
    by (intro io_keeps_bind io_keeps_if io_keeps_return io_keeps_then io_keeps_catch blocked exec learn anew_record
      anew_letter assms anew_modify) simp_all
qed

section \<open>Fresh candidates\<close>

lemma set_js_values_set: "set (js_values (js_set k v m)) \<subseteq> insert v (set (js_values m))"
  using js_set_subset [of k v m] by (auto simp: js_values_def)

lemma upsert_values: "set (js_values (ca_snapshots (upsert now x c))) \<subseteq> insert x (set (js_values (ca_snapshots c)))"
proof -
  have "set (js_values (ca_snapshots (upsert now x c))) \<subseteq> set (js_values (ca_snapshots (store x c)))"
    unfolding upsert_store by (rule prune_values)
  also have "\<dots> \<subseteq> insert x (set (js_values (ca_snapshots c)))" by (simp add: set_js_values_set)
  finally show ?thesis .
qed

lemma upsert_all_values:
  assumes "upsert_all clock xs c s = (Inr c', s')"
  shows "set (js_values (ca_snapshots c')) \<subseteq> set xs \<union> set (js_values (ca_snapshots c))"
  using assms
proof (induction xs arbitrary: c s)
  case (Cons x xs)
  then obtain t s1 where "upsert_all clock xs (upsert t x c) s1 = (Inr c', s')" by (auto simp: io_bind_Inr)
  from Cons.IH [OF this] upsert_values [of t x c] show ?case by auto
qed (simp add: io_simps)

lemma reserve_aware_candidates_Inr:
  assumes "fst (createReserveAwareCandidates now chain c) = Inr cs" "candidate \<in> set cs"
  shows "\<exists>x \<in> set (js_values (ca_snapshots c)). \<exists>l. toCandidates x = Inr l \<and> candidate \<in> set l"
proof -
  obtain xs c1 where xs: "listSnapshots now chain c = (xs, c1)" by (cases "listSnapshots now chain c")
  with assms obtain ls where "traverse toCandidates xs = Inr ls" and cs: "cs = concat ls"
    by (auto simp: createReserveAwareCandidates_def map_sum_def split: sum.splits)
  then have all2: "list_all2 (\<lambda>x l. toCandidates x = Inr l) xs ls" by (simp add: traverse_Inr_iff)
  from assms(2) cs obtain l where l: "l \<in> set ls" "candidate \<in> set l" by auto
  have "\<exists>x \<in> set xs. toCandidates x = Inr l" using all2 l(1) by (induction rule: list_all2_induct) auto
  moreover have "set xs \<subseteq> set (js_values (ca_snapshots c))"
    using xs prune_values [of now c] by (auto simp: listSnapshots_def Let_def)
  ultimately show ?thesis using l(2) by blast
qed

lemma finish_summary:
  assumes "finish_cycle cfg s = (Inr f, s')"
  shows "run_summary.truncate f = ps_summary s'"
proof -
  let ?observe = "\<lambda>frozen. case pc_cycleObserver cfg of None \<Rightarrow> io_return () | Some observe \<Rightarrow> pipe_call (observe frozen)"
  define d where "d = fst (getCycleDiagnosticsCollector (gs_diagnostics (ps_gate s)))"
  define s1 where "s1 = s\<lparr>ps_gate := (ps_gate s)\<lparr>gs_diagnostics := Some (cd_reset d)\<rparr>\<rparr>"
  define frozen where "frozen = freezeSummary (ps_summary s) (cd_snapshot (int (rs_sent (ps_summary s)))
      (max 1 (case pc_blocksPerCycle cfg of Some f \<Rightarrow> f (gs_world (ps_gate s)) | None \<Rightarrow> 1)) d)"
  have same: "ps_summary s1 = ps_summary s" by (simp add: s1_def)
  have run: "finish_cycle cfg s = io_then (?observe frozen) (io_return frozen) s1"
    unfolding finish_cycle_def io_bind_def io_simps with_diagnostics_def Let_def prod.case sum.case
      d_def [symmetric] s1_def [symmetric] same frozen_def [symmetric] ..
  from assms obtain u where observed: "?observe frozen s1 = (Inr u, s')" and f: "f = frozen"
    unfolding run by (auto simp: io_then_Inr io_simps)
  have "io_keeps (\<lambda>s'. ps_summary s' = ps_summary s) (?observe frozen)" by (auto intro!: io_rules split: option.split)
  from keeps_Inr [OF this same observed] show ?thesis
    by (simp add: f frozen_def freezeSummary_def run_summary.defs frozen_summary.defs)
qed

section \<open>Properties\<close>



text \<open>While an endpoint is degraded the candidates come from snapshots young enough, and from no others.\<close>

theorem degraded_candidates_fresh:
  assumes "createFreshCandidates cfg chain s = (Inr cs, s')"
  shows "\<exists>w. \<forall>candidate \<in> set cs. \<exists>x \<in> set (js_values (ca_snapshots (ps_cache s))). \<exists>l. bs_chain x = chain \<and>
    fst (pc_now cfg w) - maxCacheAgeMs cfg \<le> bs_updatedAtMs x \<and> toCandidates x = Inr l \<and> candidate \<in> set l"
proof -
  from assms obtain t s1 xs s2 c s3 t2 s4 where clock: "pipe_clock cfg s = (Inr t, s1)"
    and listed: "list_cached cfg chain s1 = (Inr xs, s2)"
    and cache: "upsert_all (pipe_clock cfg) (filter (\<lambda>x. t - maxCacheAgeMs cfg \<le> bs_updatedAtMs x) xs) (ca_new None None) s2 = (Inr c, s3)"
    and made: "fst (createReserveAwareCandidates t2 chain c) = Inr cs"
    by (auto simp: createFreshCandidates_def io_bind_Inr io_simps)
  from pipe_clock_Inr [OF clock] obtain w where w: "t = fst (pc_now cfg w)" and same: "ps_cache s1 = ps_cache s" by blast
  have "set (js_values (ca_snapshots c)) \<subseteq> set (filter (\<lambda>x. t - maxCacheAgeMs cfg \<le> bs_updatedAtMs x) xs)"
    using upsert_all_values [OF cache] by (simp add: ca_new_def js_values_def)
  with list_cached_Inr [OF listed] same reserve_aware_candidates_Inr [OF made] w show ?thesis by fastforce
qed

section \<open>The loop\<close>

definition turned :: "'w pipeline_config \<Rightarrow> 'w loop_services \<Rightarrow> int \<Rightarrow> nat \<Rightarrow> 'w pipeline_state \<Rightarrow> 'w pipeline_state" where
  "turned cfg ls poll n = (\<lambda>s. snd (loop_turn cfg ls poll s)) ^^ n"

definition stops :: "'w loop_services \<Rightarrow> 'w pipeline_state \<Rightarrow> bool" where
  "stops ls s \<longleftrightarrow> ls_aborted ls (gs_world (ps_gate s))"

lemma turned_0: "turned cfg ls poll 0 s = s"
  by (simp add: turned_def)

lemma turned_Suc: "turned cfg ls poll (Suc n) s = turned cfg ls poll n (snd (loop_turn cfg ls poll s))"
  unfolding turned_def funpow_Suc_right o_apply ..

lemma loop_turns_steps:
  assumes "stops ls (turned cfg ls poll n s)" and "\<forall>k < n. \<not> stops ls (turned cfg ls poll k s)"
  shows "loop_turns cfg ls poll s = Some (turned cfg ls poll n s)"
  using assms
proof (induction n arbitrary: s)
  case 0
  then show ?case by (subst loop_turns.simps) (simp add: turned_0 stops_def)
next
  case (Suc n)
  let ?s = "snd (loop_turn cfg ls poll s)"
  have "\<not> stops ls s" using spec [OF Suc.prems(2), of 0] by (simp add: turned_0)
  moreover have "\<forall>k < n. \<not> stops ls (turned cfg ls poll k ?s)"
    using spec [OF Suc.prems(2), of "Suc k" for k] by (simp add: turned_Suc)
  then have "loop_turns cfg ls poll ?s = Some (turned cfg ls poll n ?s)"
    using Suc.prems(1) by (intro Suc.IH) (simp_all add: turned_Suc)
  ultimately show ?case by (subst loop_turns.simps) (simp add: turned_Suc stops_def)
qed

lemma loop_turns_result:
  assumes "loop_turns cfg ls poll s = Some s'"
  shows "\<exists>n. (\<forall>k < n. \<not> stops ls (turned cfg ls poll k s)) \<and> stops ls s' \<and> s' = turned cfg ls poll n s"
proof (rule loop_turns.raw_induct [OF _ assms], goal_cases)
  case (1 loop cfg ls poll s s')
  show ?case
  proof (cases "stops ls s")
    case True
    with 1(2) show ?thesis by (intro exI [of _ 0]) (simp add: turned_0 stops_def)
  next
    case False
    with 1(2) have "loop cfg ls poll (snd (loop_turn cfg ls poll s)) = Some s'" by (simp add: stops_def)
    from 1(1) [OF this] obtain n where n: "\<forall>k < n. \<not> stops ls (turned cfg ls poll k (snd (loop_turn cfg ls poll s)))"
      "stops ls s'" "s' = turned cfg ls poll n (snd (loop_turn cfg ls poll s))"
      by (elim exE conjE)
    have "\<not> stops ls (turned cfg ls poll k s)" if "k < Suc n" for k
      using that n(1) False by (cases k) (simp_all add: turned_0 turned_Suc)
    with n(2,3) show ?thesis by (intro exI [of _ "Suc n"]) (simp add: turned_Suc)
  qed
qed

lemma loop_turn_returns: "fst (loop_turn cfg ls poll s) = Inr ()"
proof -
  have clock: "\<exists>t s'. pipe_clock cfg s = (Inr t, s')" for s
    by (simp add: pipe_clock_def pipe_call_def in_gate_def gate_call_def split: prod.splits)
  have "\<exists>s'. io_catch m (\<lambda>_. pipe_error) s = (Inr (), s')" for m :: "('a, unit) pipe_io" and s
    by (cases "m s"; cases "fst (m s)") (auto simp: io_catch_def pipe_error_def io_simps)
  then obtain s2 where cycle: "io_catch (io_then (runOnce cfg) (io_return ())) (\<lambda>_. pipe_error) (snd (pipe_clock cfg s)) = (Inr (), s2)"
    by blast
  obtain t s1 where s1: "pipe_clock cfg s = (Inr t, s1)" using clock by blast
  obtain t' s3 where s3: "pipe_clock cfg s2 = (Inr t', s3)" using clock by blast
  show ?thesis
    using cycle s1 s3
    by (simp add: loop_turn_def io_then_def [of "io_catch m h" for m h] io_bind_def io_simps pipe_call_def in_gate_def gate_call_def)
qed


lemma built_request_ids:
  assumes "buildLiquidationExecutionRequest abi version chain c acfg = Inr req"
  shows "rq_chain req = chain \<and> rq_account req = ad_account acfg"
  using assms by (auto simp: buildLiquidationExecutionRequest_def split: sum.splits if_splits)

text \<open>C21. A failed execution never blocks its borrower. The dead letter of an execution blocks the account
  of the request, and the request builder sets that to the bot's own account; so whatever the result,
  a borrower who was not blocked before is not blocked after, and is tried again in the next cycle.\<close>

theorem failed_borrower_not_cooled:
  assumes "buildLiquidationExecutionRequest abi version (pl_chain plan) c acfg = Inr (pl_request plan)"
    and "to_lower (ad_account acfg) \<noteq> to_lower (lc_account c)"
    and "\<not> fst (isBorrowerBlocked t (pl_chain plan) (lc_account c) (gs_cooldown (ps_gate s)))"
  shows "\<not> fst (isBorrowerBlocked t (pl_chain plan) (lc_account c) (gs_cooldown (ps_gate (snd (executePlan cfg plan s)))))"
proof -
  let ?k = "borrowerKey (pl_chain plan) (lc_account c)"
  have "rq_chain (pl_request plan) = pl_chain plan \<and> rq_account (pl_request plan) = ad_account acfg"
    by (rule built_request_ids [OF assms(1)])
  then have "borrowerKey (rq_chain (pl_request plan)) (rq_account (pl_request plan)) \<noteq> ?k"
    using assms(2) by (simp add: borrowerKey_def)
  from io_keepsD [OF anew_execute [OF this, of "js_get (bc_blockedUntilMs (gs_cooldown (ps_gate s))) ?k" cfg]]
  have "not_blocked_anew ?k (js_get (bc_blockedUntilMs (gs_cooldown (ps_gate s))) ?k) (ps_gate (snd (executePlan cfg plan s)))"
    by (simp add: not_blocked_anew_def)
  with assms(3) show ?thesis
    by (auto simp: not_blocked_anew_def isBorrowerBlocked_def Let_def split: option.splits if_splits)
qed

text \<open>An execution that the executor's guards pass over is counted among the cycle's dead letters, but
  no letter is queued for it.\<close>

theorem guard_skips_counted_as_letters:
  assumes "circuit_ok cfg (ps_registry s)" and "reason \<in> {RejDustFiltered, RejBorrowerCooldown}"
  shows "\<exists>s'. recordExecutionResult cfg req (ExecRejected reason) s = (Inr (), s') \<and> ps_deadLetters s' = ps_deadLetters s \<and>
    fs_deadLetters (freezeSummary (ps_summary s') d) = fs_deadLetters (freezeSummary (ps_summary s) d) + 1"
proof -
  let ?P = "\<lambda>s'. ps_deadLetters s' = ps_deadLetters s \<and> rs_rejected (ps_summary s') + rs_failed (ps_summary s') =
    rs_rejected (ps_summary s) + rs_failed (ps_summary s) + 1"
  have acct: "acct cfg (rs_attempted (ps_summary s)) (tally (ps_summary s)) (ps_executed s) s"
    using assms(1) by (simp add: acct_def)
  obtain r s' where run: "recordExecutionResult cfg req (ExecRejected reason) s = (r, s')"
    by (cases "recordExecutionResult cfg req (ExecRejected reason) s")
  obtain u where r: "r = Inr u"
  proof (cases r)
    case (Inl e)
    from io_validD(2) [OF acct_record_result acct run [unfolded Inl]] show thesis by (rule FalseE)
  qed
  have "io_keeps ?P (circuit_failure cfg (reject_name reason))"
    unfolding circuit_failure_def
    by (auto intro!: io_keeps_return io_keeps_bind pipe_clock_keeps split: option.split)
      (auto simp: io_keeps_def io_valid_def split: prod.splits sum.splits)
  then have "io_keeps ?P (io_then (circuit_failure cfg (reject_name reason)) (io_return ()))"
    by (intro io_keeps_then io_keeps_return)
  moreover have "?P (s\<lparr>ps_summary := (ps_summary s)\<lparr>rs_rejected := rs_rejected (ps_summary s) + 1\<rparr>\<rparr>)" by simp
  moreover have "io_then (circuit_failure cfg (reject_name reason)) (io_return ())
      (s\<lparr>ps_summary := (ps_summary s)\<lparr>rs_rejected := rs_rejected (ps_summary s) + 1\<rparr>\<rparr>) = (r, s')"
    using run assms(2)
    by (auto simp: on_summary_def io_then_def [of "io_modify f" for f] io_bind_def [of "io_modify f" for f] io_simps)
  ultimately have "?P s'" by (rule keeps_Inr)
  with run r show ?thesis by (simp add: freezeSummary_def run_summary.defs frozen_summary.defs)
qed

section \<open>The simulation breaker\<close>

fun record_results :: "'w pipeline_config \<Rightarrow> exec_request \<Rightarrow> exec_result list \<Rightarrow> ('w, unit) pipe_io" where
  "record_results cfg req [] = io_return ()"
| "record_results cfg req (r # rs) = io_then (recordExecutionResult cfg req r) (record_results cfg req rs)"

abbreviation sim_failed :: exec_result where
  "sim_failed \<equiv> ExecRejected RejFinalSimulationFailed"

definition failures_are :: "string \<Rightarrow> nat \<Rightarrow> 'w pipeline_state \<Rightarrow> bool" where
  "failures_are chain n s \<longleftrightarrow> sb_consecutive (ps_simCircuit s) = n \<and> js_has (ps_registry s) chain"

definition breaker_open :: "string \<Rightarrow> 'w pipeline_state \<Rightarrow> bool" where
  "breaker_open chain s \<longleftrightarrow> exec_status registry_get (ps_registry s) chain = Some Open"

interpretation failures: framed "failures_are chain n" for chain n
  by unfold_locales (simp_all add: failures_are_def)

interpretation opened: framed "breaker_open chain" for chain
  by unfold_locales (simp_all add: breaker_open_def)

lemma circuit_failure_counts:
  assumes "pc_simCircuit cfg = Some (chain, threshold, openMs)"
    and "reason = ''final_simulation_failed'' \<Longrightarrow> n + 1 < or_else threshold 3"
  shows "io_valid (failures_are chain n) (circuit_failure cfg reason)
    (\<lambda>_. failures_are chain (n + (if reason = ''final_simulation_failed'' then 1 else 0))) (\<lambda>_ _. False)"
  unfolding circuit_failure_def assms(1) option.case prod.case
  by (rule io_valid_bind [OF failures.safe_clock [unfolded io_safe_def]])
    (use assms(2) in \<open>auto simp: io_valid_def failures_are_def sim_recordSimFailure_def Let_def split: prod.splits\<close>)

lemma circuit_failure_opens:
  assumes "pc_simCircuit cfg = Some (chain, threshold, openMs)" and "or_else threshold 3 \<le> n + 1"
  shows "io_valid (failures_are chain n) (circuit_failure cfg ''final_simulation_failed'') (\<lambda>_. breaker_open chain) (\<lambda>_ _. False)"
  unfolding circuit_failure_def assms(1) option.case prod.case
proof (rule io_valid_bind [OF failures.safe_clock [unfolded io_safe_def]], rule io_validI, goal_cases)
  case (1 now s u s')
  then have n: "sb_consecutive (ps_simCircuit s) = n" and "js_has (ps_registry s) chain" by (simp_all add: failures_are_def)
  then obtain c where c: "registry_get (ps_registry s) chain = Inr c" by (auto simp: js_has_iff)
  let ?b = "\<lparr>cb_status = Open, cb_failures = cb_failures (cbs_execution (rc_circuitBreakers c)) + 1, cb_openedAtMs = Some now\<rparr>"
  from c obtain r' where r': "registry_setCircuitBreakerState (ps_registry s) chain BreakerExecution ?b = Inr r'"
    "registry_get r' chain = Inr (updateCircuitBreakerState c BreakerExecution ?b)"
    by (auto simp: registry_setCircuitBreakerState_def)
  have "ps_registry s' = r'"
    using 1(2) assms(2) n
    unfolding sim_recordSimFailure_def sim_openCircuit_def Let_def c sum.case r'(1) by auto
  then show ?case
    unfolding breaker_open_def exec_status_def \<open>ps_registry s' = r'\<close> r'(2) by (simp add: updateCircuitBreakerState_def)
next
  case (2 now s e s')
  then have "js_has (ps_registry s) chain" by (simp add: failures_are_def)
  from sim_failure_total [OF this, of threshold openMs now "''final_simulation_failed''" "ps_simCircuit s"] 2(2) show ?case by auto
qed

lemma reject_name_sim: "reject_name reason = ''final_simulation_failed'' \<longleftrightarrow> reason = RejFinalSimulationFailed"
  by (cases reason) simp_all

lemma fail_name_sim: "fail_name reason \<noteq> ''final_simulation_failed''"
  by (cases reason) simp_all

lemma record_result_counts:
  fixes cfg :: "'w pipeline_config"
  assumes "pc_simCircuit cfg = Some (chain, threshold, openMs)" and "result \<noteq> Simulated"
    and "result = sim_failed \<Longrightarrow> n + 1 < or_else threshold 3"
  shows "io_valid (failures_are chain n) (recordExecutionResult cfg req result)
    (\<lambda>_. failures_are chain (n + (if result = sim_failed then 1 else 0))) (\<lambda>_ _. False)"
proof -
  have count: "io_safe (failures_are chain m) (on_summary f)" for m f
    unfolding on_summary_def by (intro io_safe_modify) (simp add: failures_are_def)
  show ?thesis
  proof (cases result)
    case (Sent hash)
    then show ?thesis using count by (simp add: io_safe_def)
  next
    case (ExecRejected reason)
    let ?n = "n + (if result = sim_failed then 1 else 0)"
    have "io_safe (failures_are chain ?n) (if reason = RejDustFiltered \<or> reason = RejBorrowerCooldown then io_return ()
        else deadLetter cfg req (reject_name reason))"
      by (intro io_safe_if io_safe_return failures.safe_deadLetter)
    moreover have "io_valid (failures_are chain n) (circuit_failure cfg (reject_name reason)) (\<lambda>_. failures_are chain ?n) (\<lambda>_ _. False)"
      using circuit_failure_counts [OF assms(1), of "reject_name reason" n] assms(3) by (simp add: reject_name_sim ExecRejected)
    ultimately show ?thesis
      unfolding ExecRejected recordExecutionResult.simps
      using count by (intro io_valid_then) (auto simp: io_safe_def ExecRejected)
  next
    case (ExecFailed reason)
    have "io_valid (failures_are chain n) (circuit_failure cfg (fail_name reason)) (\<lambda>_. failures_are chain n) (\<lambda>_ _. False)"
      using circuit_failure_counts [OF assms(1), of "fail_name reason" n] by (simp add: fail_name_sim)
    moreover have "io_safe (failures_are chain n) (deadLetter cfg req (fail_name reason))" by (rule failures.safe_deadLetter)
    ultimately have "io_safe (failures_are chain n) (recordExecutionResult cfg req result)"
      unfolding ExecFailed recordExecutionResult.simps
      using count failures.safe_error by (intro io_safe_then) (simp_all add: io_safe_def)
    then show ?thesis by (simp add: io_safe_def ExecFailed)
  qed (use assms(2) in simp)
qed

lemma record_results_count:
  assumes "pc_simCircuit cfg = Some (chain, threshold, openMs)" and "Simulated \<notin> set results"
    and "n + count_list results sim_failed < or_else threshold 3"
  shows "io_valid (failures_are chain n) (record_results cfg req results)
    (\<lambda>_. failures_are chain (n + count_list results sim_failed)) (\<lambda>_ _. False)"
  using assms(2,3)
proof (induction results arbitrary: n)
  case (Cons r rs)
  let ?n = "n + (if r = sim_failed then 1 else 0)"
  have "io_valid (failures_are chain n) (recordExecutionResult cfg req r) (\<lambda>_. failures_are chain ?n) (\<lambda>_ _. False)"
    by (rule record_result_counts [OF assms(1)]) (use Cons.prems in auto)
  moreover have "io_valid (failures_are chain ?n) (record_results cfg req rs) (\<lambda>_. failures_are chain (?n + count_list rs sim_failed)) (\<lambda>_ _. False)"
    using Cons.prems by (intro Cons.IH) (auto split: if_splits)
  moreover have "?n + count_list rs sim_failed = n + count_list (r # rs) sim_failed" by simp
  ultimately show ?case unfolding record_results.simps by (metis io_valid_then)
qed (simp add: io_valid_return)

lemma record_failure_opens:
  assumes "pc_simCircuit cfg = Some (chain, threshold, openMs)" and "or_else threshold 3 \<le> n + 1"
  shows "io_valid (failures_are chain n) (recordExecutionResult cfg req sim_failed) (\<lambda>_. breaker_open chain) (\<lambda>_ _. False)"
proof -
  have count: "io_safe (failures_are chain n) (on_summary f)" for f
    unfolding on_summary_def by (intro io_safe_modify) (simp add: failures_are_def)
  show ?thesis
    unfolding recordExecutionResult.simps reject_name.simps
    using count circuit_failure_opens [OF assms] opened.safe_deadLetter
    by (intro io_valid_then) (auto simp: io_safe_def)
qed

text \<open>Only a simulated result clears the count of failed simulations; a transaction that was sent and
  included does not. In live mode, where no result is \<open>simulated\<close>, the breaker therefore opens at the
  threshold of failures since it was last closed, however many transactions were sent in between.\<close>

theorem sent_does_not_reset:
  assumes "pc_simCircuit cfg = Some (chain, threshold, openMs)" and "js_has (ps_registry s) chain"
    and "Simulated \<notin> set results"
    and "sb_consecutive (ps_simCircuit s) + count_list results sim_failed + 1 = or_else threshold 3"
  shows "sb_consecutive (ps_simCircuit (snd (record_results cfg req results s))) + 1 = or_else threshold 3 \<and>
    exec_status registry_get (ps_registry (snd (io_then (record_results cfg req results) (recordExecutionResult cfg req sim_failed) s))) chain
      = Some Open"
proof -
  let ?n = "sb_consecutive (ps_simCircuit s)"
  have start: "failures_are chain ?n s" using assms(2) by (simp add: failures_are_def)
  have counted: "io_valid (failures_are chain ?n) (record_results cfg req results)
      (\<lambda>_. failures_are chain (?n + count_list results sim_failed)) (\<lambda>_ _. False)"
    using assms(4) by (intro record_results_count [OF assms(1,3)]) simp
  from io_valid_run [OF this start] obtain u s' where run: "record_results cfg req results s = (Inr u, s')"
    and after: "failures_are chain (?n + count_list results sim_failed) s'" by blast
  have "or_else threshold 3 \<le> ?n + count_list results sim_failed + 1" using assms(4) by simp
  from io_valid_run [OF record_failure_opens [OF assms(1) this, of req] after]
  obtain v s'' where step: "recordExecutionResult cfg req sim_failed s' = (Inr v, s'')" and "breaker_open chain s''" by blast
  then show ?thesis
    using run after assms(4) by (simp add: io_then_def io_bind_def failures_are_def breaker_open_def)
qed

section \<open>A concrete pipeline\<close>

text \<open>Base with one borrower in the cache; the executor answers from a script, which is the world.\<close>

definition scripted_gate :: "exec_result list gate_config" where
  "scripted_gate = \<lparr>gc_minDebtUsd = 100, gc_resolveGasCostUsd = io_return (1 / 2), gc_resolveFlashFeeBps = io_return 5,
     gc_forceRefreshUsdPrices = None, gc_oracleSanityCheck = None, gc_resolveDebtDecimals = None, gc_now = Pair 1000\<rparr>"

definition scripted_execute :: "exec_request \<Rightarrow> (exec_result list, exec_result) io" where
  "scripted_execute req script = (case script of [] \<Rightarrow> (Inl (Exn ''no answer''), []) | r # rest \<Rightarrow> (Inr r, rest))"

definition scripted_pipeline :: "exec_result list pipeline_config" where
  "scripted_pipeline = \<lparr>pc_now = Pair 1000, pc_gate = Some scripted_gate, pc_maxDeadLetters = None, pc_maxCacheAgeMs = None,
     pc_watchlistSweep = None, pc_maxStaleMs = Some 5000, pc_sequencerIsUp = None, pc_startDetection = io_return (),
     pc_pollFallback = (\<lambda>_. io_return ()), pc_breakerState = (\<lambda>_ _ _. closed_breaker), pc_collectExtra = None, pc_rank = None,
     pc_recordOutcome = None, pc_execute = scripted_execute,
     pc_buildExecutionRequest = (\<lambda>c. io_lift (map_sum id Some (buildLiquidationExecutionRequest sample_abi PoolV3 ''base'' c sample_config))),
     pc_buildForOpportunity = None, pc_simCircuit = Some (''base'', None, None), pc_blocksPerCycle = None,
     pc_diagnosticSample = None, pc_cycleObserver = None\<rparr>"

definition scripted_state :: "exec_result list \<Rightarrow> exec_result list pipeline_state" where
  "scripted_state script = \<lparr>ps_gate = \<lparr>gs_cooldown = bc_new None, gs_dustLog = dl_new None None, gs_diagnostics = None,
       gs_cooldownBlocks = 0, gs_dustFiltered = 0, gs_log = [], gs_world = script\<rparr>,
     ps_deadLetters = \<lparr>dq_entries = [], dq_dropped = 0\<rparr>,
     ps_cache = upsert 1000 (projr (toSnapshot 1000 ''base'' sample_candidate)) (ca_new (Some 5) None),
     ps_registry = base_registry, ps_simCircuit = sb_new, ps_lastUpdate = 900, ps_summary = mutableSummary, ps_errors = 0,
     ps_executed = []\<rparr>"

lemma scripted_circuit: "circuit_ok scripted_pipeline (ps_registry (scripted_state script))"
  by (simp add: circuit_ok_def scripted_pipeline_def scripted_state_def base_registry_def js_has_def)

definition cycle_view :: "(exn + frozen_summary) \<times> 'w pipeline_state \<Rightarrow> string list \<times> address list \<times> nat \<times> bool" where
  "cycle_view r = (map rq_opportunityId (ps_executed (snd r)), map dl_account (dq_entries (ps_deadLetters (snd r))),
     rs_failed (ps_summary (snd r)), isl (fst r))"

lemma scripted_cycle:
  "cycle_view (runOnce scripted_pipeline (scripted_state [ExecFailed FailReceiptReverted])) = ([''base:0xa1:0xd1''], [''0xb0''], 1, False)"
  by code_simp

lemma scripted_summary: "(scripted_state script)\<lparr>ps_summary := mutableSummary\<rparr> = scripted_state script"
  by (simp add: scripted_state_def)

lemma scripted_run:
  "\<exists>f s'. runOnce scripted_pipeline (scripted_state [ExecFailed FailReceiptReverted]) = (Inr f, s') \<and>
     map rq_opportunityId (ps_executed s') = [''base:0xa1:0xd1''] \<and> rs_failed (ps_summary s') = 1"
  using scripted_cycle
  by (cases "runOnce scripted_pipeline (scripted_state [ExecFailed FailReceiptReverted])";
      cases "fst (runOnce scripted_pipeline (scripted_state [ExecFailed FailReceiptReverted]))") (auto simp: cycle_view_def)


lemma finish_trace: "io_keeps (same_trace es) (finish_cycle cfg)"
proof -
  have "io_keeps (same_trace es) (with_diagnostics f)" for f
    by (simp add: io_keeps_def io_valid_def with_diagnostics_def Let_def trace_kept.frame)
  then show ?thesis
    unfolding finish_cycle_def Let_def by (intro io_rules trace_kept.framed_call)
qed

lemma scripted_chain:
  "\<exists>r s'. runChain scripted_pipeline ''base'' (scripted_state [ExecFailed FailReceiptReverted]) = (r, s') \<and> ps_executed s' \<noteq> []"
proof -
  let ?s = "scripted_state [ExecFailed FailReceiptReverted]"
  have names: "registry_listChains (ps_registry ?s) = [''base'']"
    by (simp add: scripted_state_def base_registry_def registry_listChains_def js_keys_def)
  obtain r s' where chain: "runChain scripted_pipeline ''base'' ?s = (r, s')" by (cases "runChain scripted_pipeline ''base'' ?s")
  have "ps_executed s' \<noteq> []"
  proof
    assume "ps_executed s' = []"
    then have start: "same_trace [] s'" by (simp add: same_trace_def)
    have "io_keeps (same_trace []) (io_then (io_then (sample_diagnostics scripted_pipeline ''base'') (io_return ())) (finish_cycle scripted_pipeline))"
      by (intro io_rules trace_kept.keeps_sample finish_trace)
    from io_keepsD [OF this start] have rest: "same_trace [] (snd (io_then (io_then (sample_diagnostics scripted_pipeline ''base'') (io_return ()))
        (finish_cycle scripted_pipeline) s'))" .
    have "same_trace [] (snd (runOnce scripted_pipeline ?s))"
      using chain rest start
      by (cases r) (simp_all add: runOnce_eq scripted_summary run_cycle_def io_bind_def io_then_def io_simps names)
    with scripted_cycle show False by (auto simp: cycle_view_def same_trace_def)
  qed
  with chain show ?thesis by blast
qed


theorem failed_borrower_not_cooled_witness:
  "\<exists>req. buildLiquidationExecutionRequest sample_abi PoolV3 ''base'' sample_candidate sample_config = Inr req \<and>
     \<not> fst (isBorrowerBlocked 1000 ''base'' ''0xa1'' (gs_cooldown (ps_gate (snd (executePlan scripted_pipeline
        \<lparr>pl_chain = ''base'', pl_opportunity = LiquidationOpportunity sample_candidate, pl_request = req\<rparr>
        (scripted_state [ExecFailed FailReceiptReverted]))))))"
proof -
  have "\<not> isl (buildLiquidationExecutionRequest sample_abi PoolV3 ''base'' sample_candidate sample_config)" by code_simp
  then obtain req where req: "buildLiquidationExecutionRequest sample_abi PoolV3 ''base'' sample_candidate sample_config = Inr req"
    by (cases "buildLiquidationExecutionRequest sample_abi PoolV3 ''base'' sample_candidate sample_config") auto
  let ?plan = "\<lparr>pl_chain = ''base'', pl_opportunity = LiquidationOpportunity sample_candidate, pl_request = req\<rparr>"
  have "buildLiquidationExecutionRequest sample_abi PoolV3 (pl_chain ?plan) sample_candidate sample_config = Inr (pl_request ?plan)"
    using req by simp
  moreover have "to_lower (ad_account sample_config) \<noteq> to_lower (lc_account sample_candidate)" by code_simp
  moreover have "\<not> fst (isBorrowerBlocked 1000 (pl_chain ?plan) (lc_account sample_candidate)
      (gs_cooldown (ps_gate (scripted_state [ExecFailed FailReceiptReverted]))))"
    by (simp add: scripted_state_def bc_new_def isBorrowerBlocked_def Let_def)
  ultimately have "\<not> fst (isBorrowerBlocked 1000 (pl_chain ?plan) (lc_account sample_candidate)
      (gs_cooldown (ps_gate (snd (executePlan scripted_pipeline ?plan (scripted_state [ExecFailed FailReceiptReverted]))))))"
    by (rule failed_borrower_not_cooled)
  with req show ?thesis by (simp add: sample_candidate_def)
qed

definition scripted_request :: exec_request where
  "scripted_request = \<lparr>rq_chain = ''base'', rq_account = ''0xA'', rq_opportunityId = ''op-1'',
     rq_gasProfileKey = ''liq'', rq_routeInput = sample_request 50, rq_gasLimitHint = None,
     rq_buildTransaction = (\<lambda>route. Inr \<lparr>tx_to = ''0xPool'', tx_data = ''0x'', tx_provider = Balancer\<rparr>), rq_buildPreview = None\<rparr>"

theorem guard_skips_counted_as_letters_witness:
  "\<exists>s'. recordExecutionResult scripted_pipeline scripted_request (ExecRejected RejDustFiltered) (scripted_state []) = (Inr (), s') \<and>
     dq_entries (ps_deadLetters s') = [] \<and> fs_deadLetters (freezeSummary (ps_summary s') (cd_snapshot 0 1 cd_new)) = 1"
  using guard_skips_counted_as_letters [OF scripted_circuit, of RejDustFiltered scripted_request "[]" "cd_snapshot 0 1 cd_new"]
  by (auto simp: scripted_state_def freezeSummary_def run_summary.defs frozen_summary.defs mutableSummary_def)

theorem sent_does_not_reset_witness:
  "exec_status registry_get (ps_registry (snd (io_then (record_results scripted_pipeline scripted_request [sim_failed, Sent ''0x1'', sim_failed, Sent ''0x2''])
     (recordExecutionResult scripted_pipeline scripted_request sim_failed) (scripted_state [])))) ''base'' = Some Open"
proof -
  have circuit: "pc_simCircuit scripted_pipeline = Some (''base'', None, None)" by (simp add: scripted_pipeline_def)
  have "js_has (ps_registry (scripted_state [])) ''base''"
    by (simp add: scripted_state_def base_registry_def js_has_def)
  from sent_does_not_reset [OF circuit this, of "[sim_failed, Sent ''0x1'', sim_failed, Sent ''0x2'']" scripted_request]
  show ?thesis by (simp add: scripted_state_def sb_new_def or_else_def)
qed

definition script_loop :: "exec_result list loop_services" where
  "script_loop = \<lparr>ls_aborted = (\<lambda>script. script = []), ls_sleep = (\<lambda>_. id)\<rparr>"


text \<open>A cache with one snapshot that has not expired.\<close>

lemma upsert_single:
  assumes "chain_ok (bs_chain x)" "\<not> expired (ca_ttlMs (ca_new m t)) now x" "0 < ca_maxEntries (ca_new m t)"
  shows "fst (listSnapshots now (bs_chain x) (upsert now x (ca_new m t))) = [x]"
proof -
  let ?c = "ca_new m t" and ?k = "snapshotKey (bs_chain x) (bs_account x)"
  have stored: "cache_inv (store x ?c)" using assms(1) by (intro cache_inv_store) (simp_all add: wf_intros)
  have one: "ca_snapshots (upsert now x ?c) = [(?k, x)]"
    using prune_spec(2) [OF stored, of now] assms(2,3) by (simp add: upsert_store fresh_def js_set_def ca_new_def last_n_def)
  have config: "ca_maxEntries (upsert now x ?c) = ca_maxEntries ?c" "ca_ttlMs (upsert now x ?c) = ca_ttlMs ?c"
    using prune_spec(3,4) [OF stored, of now] by (simp_all add: upsert_store)
  have "cache_inv (upsert now x ?c)" using assms(1) by (intro cache_inv_upsert) (simp_all add: wf_intros)
  from prune_spec(2) [OF this, of now] show ?thesis
    using assms(2,3) by (simp add: listSnapshots_def Let_def js_values_def one config fresh_def last_n_def)
qed

definition sample_snapshot_1000 :: borrower_snapshot where
  "sample_snapshot_1000 = projr (toSnapshot 1000 ''base'' sample_candidate)"

lemma scripted_fresh:
  "\<exists>cs s'. createFreshCandidates scripted_pipeline ''base'' (scripted_state []) = (Inr cs, s') \<and> length cs = 1"
proof -
  let ?x = sample_snapshot_1000
  have "lc_healthFactor sample_candidate < liquidationHealthFactor" "0 < lc_debtToCover sample_candidate"
    "0 \<le> lc_liquidationBonusBps sample_candidate"
    by (simp_all add: sample_candidate_def liquidationHealthFactor_def)
  from adapter_snapshot_back [OF this, of 1000 "''base''"] obtain x c where x: "toSnapshot 1000 ''base'' sample_candidate = Inr x"
    "toCandidates x = Inr [c]" by blast
  have x_is: "?x = x" by (simp add: sample_snapshot_1000_def x(1))
  have chain: "bs_chain x = ''base''" "bs_updatedAtMs x = 1000"
    using x(1) by (auto simp: toSnapshot_def Let_def split: sum.splits if_splits)
  have side: "chain_ok (bs_chain x)" "\<not> expired ttl 1000 x" for ttl
    by (simp_all add: chain chain_ok_def expired_def ttlEligibleFloorMs_def)
  have single: "fst (listSnapshots 1000 ''base'' (upsert 1000 x (ca_new m None))) = [x]" if "m = None \<or> m = Some 5" for m
    using upsert_single [of x m None 1000] side that by (auto simp: chain ca_new_def)
  have clock: "pipe_clock scripted_pipeline s = (Inr 1000, s)" for s
    by (simp add: pipe_clock_def pipe_call_def in_gate_def gate_call_def scripted_pipeline_def)
  have listed: "\<exists>c. listSnapshots 1000 ''base'' (upsert 1000 x (ca_new m None)) = ([x], c)" if "m = None \<or> m = Some 5" for m
    using single [OF that] by (metis prod.collapse)
  obtain c1 where l1: "listSnapshots 1000 ''base'' (ps_cache (scripted_state [])) = ([x], c1)"
    using listed [of "Some 5"] by (auto simp: scripted_state_def x(1))
  obtain c2 where l2: "listSnapshots 1000 ''base'' (upsert 1000 x (ca_new None None)) = ([x], c2)"
    using listed [of None] by auto
  show ?thesis
    by (simp add: createFreshCandidates_def list_cached_def io_bind_def clock l1 io_simps maxCacheAgeMs_def chain
      scripted_pipeline_def [THEN arg_cong [where f = pc_maxCacheAgeMs]] createReserveAwareCandidates_def l2 x(2))
qed

theorem degraded_candidates_fresh_witness:
  "\<exists>x \<in> set (js_values (ca_snapshots (ps_cache (scripted_state [])))). bs_chain x = ''base'' \<and> 1000 - 30000 \<le> bs_updatedAtMs x"
proof -
  obtain cs s' where run: "createFreshCandidates scripted_pipeline ''base'' (scripted_state []) = (Inr cs, s')" and "length cs = 1"
    using scripted_fresh by (elim exE conjE)
  then obtain c where "c \<in> set cs" by (cases cs) auto
  with degraded_candidates_fresh [OF run] show ?thesis
    by (force simp: maxCacheAgeMs_def scripted_pipeline_def)
qed

end
