(* ===== verification/Price_Oracle.thy ===== *)
theory Price_Oracle
  imports Complex_Main Effects "HOL-Library.Sublist"
begin

text \<open>
  \<open>src/utils/priceOracleCache.ts\<close>: dollar prices from Chainlink rounds, with the Aave oracle as the
  fallback, behind a cache; and \<open>src/oracles/oracleSanityGate.ts\<close>. The RPC reads, the clock and the
  address functions of viem are services. Each public method is one step of the model: the promises
  of reads in flight, which a second caller of \<open>getUsdPrice\<close> would share, exist only inside such a
  step. Log lines and the freshness callback are left out.
\<close>

section \<open>Configuration and state\<close>

record feed_config =
  fd_feed :: address
  fd_priceDecimals :: "int option"

datatype price_origin = Chainlink | AaveOracle

record price_entry =
  pe_price :: int
  pe_updatedAtMs :: int
  pe_oracleUpdatedAtSec :: int
  pe_source :: price_origin
  pe_freshnessMs :: int

text \<open>A round is the answer and the time of its update; a multicall has an entry per contract, which is
  missing where the call failed.\<close>

record 'w oracle_services =
  ov_latestRoundData :: "address \<Rightarrow> ('w, int \<times> int) io"
  ov_multicallRounds :: "address list \<Rightarrow> ('w, (int \<times> int) option list) io"
  ov_decimals :: "address \<Rightarrow> ('w, int) io"
  ov_getAssetPrice :: "address \<Rightarrow> address \<Rightarrow> ('w, int) io"
  ov_nowMs :: "'w \<Rightarrow> int \<times> 'w"
  ov_isAddress :: "string \<Rightarrow> bool"
  ov_getAddress :: "string \<Rightarrow> address option"

record oracle_config =
  og_feeds :: "(address, feed_config) jsmap"
  og_cacheTtlMs :: "int option"
  og_maxStaleMs :: "int option"
  og_aaveOracle :: "address option"

record 'w oracle_state =
  os_world :: 'w
  os_cache :: "(address, price_entry) jsmap"
  os_feedDecimals :: "(address, int) jsmap"

type_synonym ('w, 'a) oracle_io = "('w oracle_state, 'a) io"

definition ocall :: "('w, 'a) io \<Rightarrow> ('w, 'a) oracle_io" where
  "ocall m s = (case m (os_world s) of (r, w) \<Rightarrow> (r, s\<lparr>os_world := w\<rparr>))"

definition oracle_now :: "'w oracle_services \<Rightarrow> ('w, int) oracle_io" where
  "oracle_now sv = ocall (\<lambda>w. case ov_nowMs sv w of (t, w') \<Rightarrow> (Inr t, w'))"

definition cacheTtlMs :: "oracle_config \<Rightarrow> int" where
  "cacheTtlMs cfg = (case og_cacheTtlMs cfg of Some t \<Rightarrow> t | None \<Rightarrow> 5000)"

definition maxStaleMs :: "oracle_config \<Rightarrow> int" where
  "maxStaleMs cfg = (case og_maxStaleMs cfg of Some t \<Rightarrow> t | None \<Rightarrow> 900000)"

section \<open>Feed addresses\<close>

definition BASE_PROTOCOL_DATA_PROVIDER :: address where
  "BASE_PROTOCOL_DATA_PROVIDER = ''0x2d8A3C5677189723C4cB8873CfC9C8976dfe292C''"

definition canonicalBaseAaveOracleAddress :: address where
  "canonicalBaseAaveOracleAddress = ''0x2Cc0Fc26eD4563A5ce5e8bdcfe1A2878676Ae156''"

definition NON_CHAINLINK_FEED_ADDRESSES :: "string list" where
  "NON_CHAINLINK_FEED_ADDRESSES = js_of_list [to_lower BASE_PROTOCOL_DATA_PROVIDER, to_lower canonicalBaseAaveOracleAddress]"

definition validateAndNormalizeFeedAddress :: "'w oracle_services \<Rightarrow> string option \<Rightarrow> address option" where
  "validateAndNormalizeFeedAddress sv feed =
     (case feed of
        None \<Rightarrow> None
      | Some f \<Rightarrow>
          if f = [] \<or> \<not> ov_isAddress sv f then None
          else (case ov_getAddress sv f of
                  None \<Rightarrow> None
                | Some normalized \<Rightarrow>
                    if to_lower normalized \<in> set NON_CHAINLINK_FEED_ADDRESSES then None else Some normalized))"

definition sanitizeFeedsByToken :: "'w oracle_services \<Rightarrow> (address, feed_config) jsmap \<Rightarrow> (address, feed_config) jsmap" where
  "sanitizeFeedsByToken sv raw =
     List.map_filter (\<lambda>(token, config). case validateAndNormalizeFeedAddress sv (Some (fd_feed config)) of
        None \<Rightarrow> None
      | Some normalized \<Rightarrow> Some (token, config\<lparr>fd_feed := normalized\<rparr>)) raw"

definition feedsByToken :: "'w oracle_services \<Rightarrow> oracle_config \<Rightarrow> (address, feed_config) jsmap" where
  "feedsByToken sv cfg = sanitizeFeedsByToken sv (og_feeds cfg)"

definition resolveValidatedFeedConfig :: "'w oracle_services \<Rightarrow> oracle_config \<Rightarrow> address \<Rightarrow> feed_config option" where
  "resolveValidatedFeedConfig sv cfg token =
     (case js_get (feedsByToken sv cfg) token of
        None \<Rightarrow> None
      | Some config \<Rightarrow>
          (case validateAndNormalizeFeedAddress sv (Some (fd_feed config)) of
             None \<Rightarrow> None
           | Some normalized \<Rightarrow> Some (if normalized = fd_feed config then config else config\<lparr>fd_feed := normalized\<rparr>)))"

section \<open>Reads\<close>

definition sanitizeOraclePrice :: "int \<Rightarrow> int" where
  "sanitizeOraclePrice price = (if 0 < price then price else 0)"

definition resolveFeedDecimals :: "'w oracle_services \<Rightarrow> feed_config \<Rightarrow> ('w, int) oracle_io" where
  "resolveFeedDecimals sv feed =
     (case fd_priceDecimals feed of
        Some d \<Rightarrow> io_return d
      | None \<Rightarrow>
          (case validateAndNormalizeFeedAddress sv (Some (fd_feed feed)) of
             None \<Rightarrow> io_return 8
           | Some normalized \<Rightarrow>
               io_bind (io_get (\<lambda>s. js_get (os_feedDecimals s) normalized)) (\<lambda>cached.
                 case cached of
                   Some d \<Rightarrow> io_return d
                 | None \<Rightarrow> io_catch
                     (io_bind (ocall (ov_decimals sv normalized)) (\<lambda>d.
                        io_then (io_modify (\<lambda>s. s\<lparr>os_feedDecimals := js_set normalized d (os_feedDecimals s)\<rparr>)) (io_return d)))
                     (\<lambda>_. io_return 8))))"

definition scaleToUsd8 :: "'w oracle_services \<Rightarrow> feed_config \<Rightarrow> int \<Rightarrow> ('w, int) oracle_io" where
  "scaleToUsd8 sv feed rawPrice =
     io_bind (resolveFeedDecimals sv feed) (\<lambda>feedDecimals. io_return
       (if feedDecimals = 8 then rawPrice
        else if 8 < feedDecimals then bdiv rawPrice (10 ^ nat (feedDecimals - 8))
        else rawPrice * 10 ^ nat (8 - feedDecimals)))"

text \<open>The freshness is the one the caller has computed, or is computed here.\<close>

definition storePrice ::
  "'w oracle_services \<Rightarrow> address \<Rightarrow> int \<Rightarrow> int \<Rightarrow> price_origin \<Rightarrow> int option \<Rightarrow> ('w, int) oracle_io" where
  "storePrice sv token price updatedAtSec source freshness =
     io_bind (case freshness of
         Some f \<Rightarrow> io_return f
       | None \<Rightarrow> io_bind (oracle_now sv) (\<lambda>now. io_return (now - updatedAtSec * 1000))) (\<lambda>freshnessMs.
       if price \<le> 0 then io_return 0
       else io_bind (oracle_now sv) (\<lambda>now.
         io_then (io_modify (\<lambda>s. s\<lparr>os_cache := js_set token
             \<lparr>pe_price = price, pe_updatedAtMs = now, pe_oracleUpdatedAtSec = updatedAtSec, pe_source = source,
              pe_freshnessMs = freshnessMs\<rparr> (os_cache s)\<rparr>))
           (io_return price)))"

definition guardFreshness ::
  "'w oracle_services \<Rightarrow> oracle_config \<Rightarrow> int \<Rightarrow> int \<Rightarrow> address \<Rightarrow> price_origin \<Rightarrow> ('w, int) oracle_io" where
  "guardFreshness sv cfg price updatedAtSec token source =
     (if price \<le> 0 then io_return 0
      else if updatedAtSec \<le> 0 then io_return 0
      else io_bind (oracle_now sv) (\<lambda>now.
        let freshnessMs = now - updatedAtSec * 1000
        in if maxStaleMs cfg < freshnessMs then io_return 0
           else storePrice sv token price updatedAtSec source (Some freshnessMs)))"

definition readAaveFallback :: "'w oracle_services \<Rightarrow> oracle_config \<Rightarrow> address \<Rightarrow> ('w, int) oracle_io" where
  "readAaveFallback sv cfg token =
     (case og_aaveOracle cfg of
        None \<Rightarrow> io_return 0
      | Some oracle \<Rightarrow> io_catch
          (io_bind (ocall (ov_getAssetPrice sv oracle token)) (\<lambda>raw.
             let sanitized = sanitizeOraclePrice raw
             in if sanitized \<le> 0 then io_return 0
                else io_bind (oracle_now sv) (\<lambda>now. storePrice sv token sanitized (now div 1000) AaveOracle None)))
          (\<lambda>_. io_return 0))"

text \<open>A round that is not positive or not fresh gives way to the fallback.\<close>

definition round_price :: "'w oracle_services \<Rightarrow> oracle_config \<Rightarrow> address \<Rightarrow> feed_config \<Rightarrow> int \<times> int \<Rightarrow> ('w, int) oracle_io" where
  "round_price sv cfg token feed r =
     io_bind (scaleToUsd8 sv feed (sanitizeOraclePrice (fst r))) (\<lambda>scaled.
       io_bind (guardFreshness sv cfg scaled (snd r) token Chainlink) (\<lambda>fresh.
         if 0 < fresh then io_return fresh else readAaveFallback sv cfg token))"

definition fetchOne :: "'w oracle_services \<Rightarrow> oracle_config \<Rightarrow> address \<Rightarrow> ('w, int) oracle_io" where
  "fetchOne sv cfg token =
     (case resolveValidatedFeedConfig sv cfg token of
        None \<Rightarrow> readAaveFallback sv cfg token
      | Some feed \<Rightarrow> io_catch
          (io_bind (ocall (ov_latestRoundData sv (fd_feed feed))) (round_price sv cfg token feed))
          (\<lambda>_. readAaveFallback sv cfg token))"

text \<open>Writing the prices of several tokens into the result object.\<close>

fun fetch_each :: "(address \<Rightarrow> ('s, int) io) \<Rightarrow> address list \<Rightarrow> (address, int) jsmap \<Rightarrow> ('s, (address, int) jsmap) io" where
  "fetch_each fetch [] sink = io_return sink"
| "fetch_each fetch (token # tokens) sink =
     io_bind (fetch token) (\<lambda>price. fetch_each fetch tokens (js_set token price sink))"

definition feed_entries :: "'w oracle_services \<Rightarrow> oracle_config \<Rightarrow> address list \<Rightarrow> (address \<times> feed_config) list" where
  "feed_entries sv cfg tokens =
     List.map_filter (\<lambda>token. map_option (Pair token) (resolveValidatedFeedConfig sv cfg token)) tokens"

fun store_rounds ::
  "'w oracle_services \<Rightarrow> oracle_config \<Rightarrow> (address \<times> feed_config) list \<Rightarrow> (int \<times> int) option list \<Rightarrow> (address, int) jsmap \<Rightarrow>
   ('w, (address, int) jsmap) oracle_io" where
  "store_rounds sv cfg [] responses sink = io_return sink"
| "store_rounds sv cfg ((token, feed) # entries) responses sink =
     io_bind (case responses of
         Some r # _ \<Rightarrow> round_price sv cfg token feed r
       | _ \<Rightarrow> readAaveFallback sv cfg token)
       (\<lambda>price. store_rounds sv cfg entries (tl responses) (js_set token price sink))"

definition fetchMany ::
  "'w oracle_services \<Rightarrow> oracle_config \<Rightarrow> address list \<Rightarrow> (address, int) jsmap \<Rightarrow> ('w, (address, int) jsmap) oracle_io" where
  "fetchMany sv cfg tokens sink =
     (let entries = feed_entries sv cfg tokens
      in if entries = [] then fetch_each (readAaveFallback sv cfg) tokens sink
         else io_bind (fetch_each (readAaveFallback sv cfg)
                (filter (\<lambda>t. resolveValidatedFeedConfig sv cfg t = None) tokens) sink) (\<lambda>sink1.
           io_catch
             (io_bind (ocall (ov_multicallRounds sv (map (fd_feed \<circ> snd) entries))) (\<lambda>responses.
                store_rounds sv cfg entries responses sink1))
             (\<lambda>_. fetch_each (fetchOne sv cfg) (map fst entries) sink1)))"

section \<open>The cache\<close>

definition getFreshCached :: "'w oracle_services \<Rightarrow> oracle_config \<Rightarrow> address \<Rightarrow> ('w, int option) oracle_io" where
  "getFreshCached sv cfg token =
     io_bind (io_get (\<lambda>s. js_get (os_cache s) token)) (\<lambda>cached.
       case cached of
         None \<Rightarrow> io_return None
       | Some e \<Rightarrow> io_bind (oracle_now sv) (\<lambda>now.
           io_return (if cacheTtlMs cfg \<le> now - pe_updatedAtMs e then None else Some (pe_price e))))"

definition getUsdPrice :: "'w oracle_services \<Rightarrow> oracle_config \<Rightarrow> address \<Rightarrow> ('w, int) oracle_io" where
  "getUsdPrice sv cfg token =
     io_bind (getFreshCached sv cfg token) (\<lambda>cached.
       case cached of Some price \<Rightarrow> io_return price | None \<Rightarrow> fetchOne sv cfg token)"

fun split_cached ::
  "'w oracle_services \<Rightarrow> oracle_config \<Rightarrow> address list \<Rightarrow> (address, int) jsmap \<Rightarrow> address list \<Rightarrow>
   ('w, (address, int) jsmap \<times> address list) oracle_io" where
  "split_cached sv cfg [] result missing = io_return (result, missing)"
| "split_cached sv cfg (token # tokens) result missing =
     io_bind (getFreshCached sv cfg token) (\<lambda>cached.
       case cached of
         Some price \<Rightarrow> split_cached sv cfg tokens (js_set token price result) missing
       | None \<Rightarrow> split_cached sv cfg tokens result (missing @ [token]))"

definition batchGetUsdPrices :: "'w oracle_services \<Rightarrow> oracle_config \<Rightarrow> address list \<Rightarrow> ('w, (address, int) jsmap) oracle_io" where
  "batchGetUsdPrices sv cfg tokens =
     (if js_of_list tokens = [] then io_return []
      else io_bind (split_cached sv cfg (js_of_list tokens) [] []) (\<lambda>(result, missing).
        if missing = [] then io_return result else fetchMany sv cfg missing result))"

definition forget_prices :: "address list \<Rightarrow> 'w oracle_state \<Rightarrow> 'w oracle_state" where
  "forget_prices tokens s = s\<lparr>os_cache := fold js_delete tokens (os_cache s)\<rparr>"

definition forceRefreshUsdPrices :: "'w oracle_services \<Rightarrow> oracle_config \<Rightarrow> address list \<Rightarrow> ('w, (address, int) jsmap) oracle_io" where
  "forceRefreshUsdPrices sv cfg tokens =
     io_then (io_modify (forget_prices (js_of_list tokens))) (batchGetUsdPrices sv cfg tokens)"

definition getOracleFreshnessMs :: "address \<Rightarrow> 'w oracle_state \<Rightarrow> int option" where
  "getOracleFreshnessMs token s = map_option pe_freshnessMs (js_get (os_cache s) token)"

definition oracle_clear :: "'w oracle_state \<Rightarrow> 'w oracle_state" where
  "oracle_clear s = s\<lparr>os_cache := []\<rparr>"

section \<open>The feed registry of Base\<close>

definition CRITICAL_BASE_FEED_EXPECTATIONS :: "(address \<times> address) list" where
  "CRITICAL_BASE_FEED_EXPECTATIONS =
     [(''0x4200000000000000000000000000000000000006'', ''0x71041dddad3595F9CEd3DcCFBe3D1F4b0a16Bb70''),
      (''0x833589fCD6eDb6E08f4c7C32D4f71b54bdA02913'', ''0x7e860098F58bBFC8648a4311b374B1D669a2bc6B''),
      (''0xcbB7C0000aB88B473b1f5aFd9ef808440eed33Bf'', ''0x07DA0E54543a844a80ABE69c8A12F22B3aA59f9D'')]"

fun assert_feeds :: "'w oracle_services \<Rightarrow> (address, feed_config) jsmap \<Rightarrow> (address \<times> address) list \<Rightarrow> exn + unit" where
  "assert_feeds sv feeds [] = Inr ()"
| "assert_feeds sv feeds ((token, expectedFeed) # rest) =
     (case js_get feeds token of
        None \<Rightarrow> Inl (Exn (''Base feed is missing from price feed registry for token '' @ token))
      | Some config \<Rightarrow>
          (case validateAndNormalizeFeedAddress sv (Some (fd_feed config)) of
             None \<Rightarrow> Inl (Exn (''Base feed address is invalid for token '' @ token @ '': '' @ fd_feed config))
           | Some normalized \<Rightarrow>
               if to_lower normalized \<noteq> to_lower expectedFeed
               then Inl (Exn (''Base feed for '' @ token @ '' must be '' @ expectedFeed @ '', got '' @ fd_feed config))
               else assert_feeds sv feeds rest))"

definition assertBaseFeedRegistry :: "'w oracle_services \<Rightarrow> (address, feed_config) jsmap option \<Rightarrow> exn + unit" where
  "assertBaseFeedRegistry sv baseFeeds =
     (case baseFeeds of
        None \<Rightarrow> Inl (Exn ''Base price feed registry is required'')
      | Some feeds \<Rightarrow> assert_feeds sv feeds CRITICAL_BASE_FEED_EXPECTATIONS)"

section \<open>The sanity gate\<close>

text \<open>The deviation in percent; \<open>None\<close> stands for infinity.\<close>

definition evaluateOracleSanity :: "int \<Rightarrow> int \<Rightarrow> rat option \<Rightarrow> bool \<times> rat option" where
  "evaluateOracleSanity chainlinkPriceRaw twapPriceRaw thresholdPct =
     (if chainlinkPriceRaw \<le> 0 \<or> twapPriceRaw \<le> 0 then (False, None)
      else let deviationPct = of_int (bdiv (\<bar>chainlinkPriceRaw - twapPriceRaw\<bar> * 10000) chainlinkPriceRaw) / 100
           in (deviationPct \<le> (case thresholdPct of Some t \<Rightarrow> t | None \<Rightarrow> 2), Some deviationPct))"

section \<open>Reads that do not look at the cache\<close>

text \<open>Every read stores what it finds, but none looks at what is stored.\<close>

definition blind :: "('w, 'a) oracle_io \<Rightarrow> bool" where
  "blind m \<longleftrightarrow> (\<forall>s c. \<exists>c'. m (s\<lparr>os_cache := c\<rparr>) = (fst (m s), (snd (m s))\<lparr>os_cache := c'\<rparr>))"

named_theorems blind_rules \<open>computations that do not look at the price cache\<close>

lemma blind_return [blind_rules]: "blind (io_return a)"
  by (auto simp: blind_def io_return_def)

lemma blind_call [blind_rules]: "blind (ocall m)"
  unfolding blind_def by (intro allI, rename_tac s c, rule_tac x = c in exI) (simp add: ocall_def split: prod.split)

lemma blind_now [blind_rules]: "blind (oracle_now sv)"
  unfolding oracle_now_def by (rule blind_call)

lemma blind_decimals [blind_rules]: "blind (io_get (\<lambda>s. js_get (os_feedDecimals s) f))"
  by (auto simp: blind_def io_get_def)

lemma blind_store [blind_rules]: "blind (io_modify (\<lambda>s. s\<lparr>os_cache := js_set t (e s) (os_cache s)\<rparr>))"
  by (auto simp: blind_def io_modify_def)

lemma blind_store_decimals [blind_rules]: "blind (io_modify (\<lambda>s. s\<lparr>os_feedDecimals := js_set f d (os_feedDecimals s)\<rparr>))"
  unfolding blind_def by (intro allI, rename_tac s c, rule_tac x = c in exI) (simp add: io_modify_def)

lemma blind_bind [blind_rules]:
  assumes "blind m" and "\<And>a. blind (f a)"
  shows "blind (io_bind m f)"
  unfolding blind_def
proof (intro allI)
  fix s c
  obtain c1 where c1: "m (s\<lparr>os_cache := c\<rparr>) = (fst (m s), (snd (m s))\<lparr>os_cache := c1\<rparr>)" using assms(1) by (auto simp: blind_def)
  show "\<exists>c'. io_bind m f (s\<lparr>os_cache := c\<rparr>) = (fst (io_bind m f s), (snd (io_bind m f s))\<lparr>os_cache := c'\<rparr>)"
  proof (cases "m s")
    case (Pair r s1)
    show ?thesis
    proof (cases r)
      case (Inr a)
      with assms(2) [of a] c1 show ?thesis by (simp add: io_bind_def Pair blind_def)
    qed (use c1 in \<open>auto simp: io_bind_def Pair\<close>)
  qed
qed

lemma blind_then [blind_rules]: "blind m \<Longrightarrow> blind n \<Longrightarrow> blind (io_then m n)"
  unfolding io_then_def by (rule blind_bind)

lemma blind_catch [blind_rules]:
  assumes "blind m" and "\<And>e. blind (h e)"
  shows "blind (io_catch m h)"
  unfolding blind_def
proof (intro allI)
  fix s c
  obtain c1 where c1: "m (s\<lparr>os_cache := c\<rparr>) = (fst (m s), (snd (m s))\<lparr>os_cache := c1\<rparr>)" using assms(1) by (auto simp: blind_def)
  show "\<exists>c'. io_catch m h (s\<lparr>os_cache := c\<rparr>) = (fst (io_catch m h s), (snd (io_catch m h s))\<lparr>os_cache := c'\<rparr>)"
  proof (cases "m s")
    case (Pair r s1)
    show ?thesis
    proof (cases r)
      case (Inl e)
      with assms(2) [of e] c1 show ?thesis by (simp add: io_catch_def Pair blind_def)
    qed (use c1 in \<open>auto simp: io_catch_def Pair\<close>)
  qed
qed

lemma blind_if [blind_rules]: "(b \<Longrightarrow> blind m) \<Longrightarrow> (\<not> b \<Longrightarrow> blind n) \<Longrightarrow> blind (if b then m else n)"
  by simp

lemma blind_option [blind_rules]: "blind m \<Longrightarrow> (\<And>a. blind (f a)) \<Longrightarrow> blind (case x of None \<Rightarrow> m | Some a \<Rightarrow> f a)"
  by (cases x) auto

lemma blind_feed_decimals [blind_rules]: "blind (resolveFeedDecimals sv feed)"
  unfolding resolveFeedDecimals_def by (intro blind_rules)

lemma blind_scale [blind_rules]: "blind (scaleToUsd8 sv feed p)"
  unfolding scaleToUsd8_def by (intro blind_rules)

lemma blind_storePrice [blind_rules]: "blind (storePrice sv token p u src f)"
  unfolding storePrice_def by (intro blind_rules)

lemma blind_guard [blind_rules]: "blind (guardFreshness sv cfg p u token src)"
  unfolding guardFreshness_def Let_def by (intro blind_rules)

lemma blind_fallback [blind_rules]: "blind (readAaveFallback sv cfg token)"
  unfolding readAaveFallback_def Let_def by (intro blind_rules)

lemma blind_round [blind_rules]: "blind (round_price sv cfg token feed r)"
  unfolding round_price_def by (intro blind_rules)

lemma blind_fetchOne [blind_rules]: "blind (fetchOne sv cfg token)"
  unfolding fetchOne_def by (intro blind_rules)

lemma blind_fetch_each [blind_rules]: "(\<And>t. blind (f t)) \<Longrightarrow> blind (fetch_each f tokens sink)"
  by (induction f tokens sink rule: fetch_each.induct) (auto intro!: blind_rules)

lemma blind_store_rounds [blind_rules]: "blind (store_rounds sv cfg entries responses sink)"
proof (induction sv cfg entries responses sink rule: store_rounds.induct)
  case (2 sv cfg token feed entries responses sink)
  then show ?case by (auto intro!: blind_rules split: list.split option.split)
qed (simp add: blind_return)

lemma blind_fetchMany [blind_rules]: "blind (fetchMany sv cfg tokens sink)"
  unfolding fetchMany_def Let_def by (intro blind_rules)

lemma get_forgotten: "js_get (fold js_delete ts m) t = (if t \<in> set ts then None else js_get m t)"
  by (induction ts arbitrary: m) auto

lemma split_absent:
  "(\<forall>t \<in> set tokens. js_get (os_cache s) t = None) \<Longrightarrow>
   split_cached sv cfg tokens result missing s = (Inr (result, missing @ tokens), s)"
proof (induction tokens arbitrary: missing)
  case (Cons t tokens)
  then have "getFreshCached sv cfg t s = (Inr None, s)" by (simp add: getFreshCached_def io_bind_def io_simps)
  with Cons show ?case by (simp add: io_bind_def)
qed (simp add: io_return_def)

lemma forced_reads:
  "forceRefreshUsdPrices sv cfg tokens s =
     (if tokens = [] then (Inr [], s)
      else fetchMany sv cfg (js_of_list tokens) [] (forget_prices (js_of_list tokens) s))"
proof (cases "tokens = []")
  case True
  then show ?thesis
    by (simp add: forceRefreshUsdPrices_def io_then_def io_bind_def io_simps forget_prices_def batchGetUsdPrices_def js_of_list_def)
next
  case False
  then have ne: "js_of_list tokens \<noteq> []" by (metis set_empty set_js_of_list)
  have absent: "\<forall>t \<in> set (js_of_list tokens). js_get (os_cache (forget_prices (js_of_list tokens) s)) t = None"
    by (simp add: forget_prices_def get_forgotten)
  show ?thesis
    using False ne by (simp add: forceRefreshUsdPrices_def io_then_def io_bind_def io_simps batchGetUsdPrices_def split_absent [OF absent])
qed

section \<open>What a read leaves in the cache\<close>

text \<open>An entry that a read may leave: a round of the configured feed that was fresh when it was read, or
  a price of the configured Aave oracle.\<close>

definition trusted :: "'w oracle_services \<Rightarrow> oracle_config \<Rightarrow> address \<Rightarrow> price_entry \<Rightarrow> bool" where
  "trusted sv cfg token e \<longleftrightarrow> 0 < pe_price e \<and>
     (case pe_source e of
        Chainlink \<Rightarrow> resolveValidatedFeedConfig sv cfg token \<noteq> None \<and> pe_freshnessMs e \<le> maxStaleMs cfg
      | AaveOracle \<Rightarrow> og_aaveOracle cfg \<noteq> None)"

definition price_ok :: "'w oracle_services \<Rightarrow> oracle_config \<Rightarrow> 'w oracle_state \<Rightarrow> address \<Rightarrow> int \<Rightarrow> bool" where
  "price_ok sv cfg s token p \<longleftrightarrow>
     p = 0 \<or> (\<exists>e. js_get (os_cache s) token = Some e \<and> pe_price e = p \<and> trusted sv cfg token e)"

text \<open>The entries of other tokens stay.\<close>

definition others :: "address \<Rightarrow> (address, price_entry) jsmap \<Rightarrow> 'w oracle_state \<Rightarrow> bool" where
  "others token c s \<longleftrightarrow> (\<forall>t. t \<noteq> token \<longrightarrow> js_get (os_cache s) t = js_get c t)"

abbreviation fetches ::
  "'w oracle_services \<Rightarrow> oracle_config \<Rightarrow> address \<Rightarrow> (address, price_entry) jsmap \<Rightarrow> ('w, int) oracle_io \<Rightarrow> bool" where
  "fetches sv cfg token c m \<equiv>
     io_valid (others token c) m (\<lambda>p s. others token c s \<and> price_ok sv cfg s token p) (\<lambda>_ _. False)"

lemma others_call: "io_valid (others t c) (ocall m) (\<lambda>_. others t c) (\<lambda>_. others t c)"
  by (auto simp: io_valid_def ocall_def others_def split: prod.splits sum.splits)

lemma others_now: "io_valid (others t c) (oracle_now sv) (\<lambda>_. others t c) (\<lambda>_ _. False)"
  by (auto simp: io_valid_def oracle_now_def ocall_def others_def split: prod.splits)

lemma others_decimals: "io_valid (others t c) (resolveFeedDecimals sv feed) (\<lambda>_. others t c) (\<lambda>_ _. False)"
  unfolding resolveFeedDecimals_def
proof (intro io_valid_option io_valid_return, goal_cases)
  case (2 f)
  have "io_valid (others t c) (io_bind (ocall (ov_decimals sv f)) (\<lambda>d. io_then
      (io_modify (\<lambda>s. s\<lparr>os_feedDecimals := js_set f d (os_feedDecimals s)\<rparr>)) (io_return d))) (\<lambda>_. others t c) (\<lambda>_. others t c)"
    by (intro io_valid_bind [OF others_call] io_valid_then [OF io_valid_modify [where Q = "\<lambda>_. others t c"]] io_valid_return)
      (simp_all add: others_def)
  then have "io_valid (others t c) (io_catch (io_bind (ocall (ov_decimals sv f)) (\<lambda>d. io_then
      (io_modify (\<lambda>s. s\<lparr>os_feedDecimals := js_set f d (os_feedDecimals s)\<rparr>)) (io_return d))) (\<lambda>_. io_return 8))
      (\<lambda>_. others t c) (\<lambda>_ _. False)"
    by (rule io_valid_catch) (simp add: io_valid_return)
  then show ?case by (intro io_valid_bind [OF io_valid_get [where Q = "\<lambda>_. others t c"]] io_valid_option io_valid_return) simp_all
qed simp_all

lemma others_scale: "io_valid (others t c) (scaleToUsd8 sv feed p) (\<lambda>_. others t c) (\<lambda>_ _. False)"
  unfolding scaleToUsd8_def by (rule io_valid_bind [OF others_decimals io_valid_return])

lemma fetches_0: "fetches sv cfg t c (io_return 0)"
  by (intro io_valid_return) (simp add: price_ok_def)

lemma fetches_store:
  assumes "src = Chainlink \<Longrightarrow> \<exists>f. freshness = Some f \<and> f \<le> maxStaleMs cfg \<and> resolveValidatedFeedConfig sv cfg t \<noteq> None"
    and "src = AaveOracle \<Longrightarrow> og_aaveOracle cfg \<noteq> None"
  shows "fetches sv cfg t c (storePrice sv t p u src freshness)"
  unfolding storePrice_def
proof (rule io_valid_bind)
  show "io_valid (others t c) (case freshness of Some f \<Rightarrow> io_return f
      | None \<Rightarrow> io_bind (oracle_now sv) (\<lambda>now. io_return (now - u * 1000)))
      (\<lambda>f s. others t c s \<and> (src = Chainlink \<longrightarrow> freshness = Some f)) (\<lambda>_ _. False)"
    using assms(1) by (intro io_valid_option io_valid_return io_valid_bind [OF others_now]) auto
next
  fix f
  show "io_valid (\<lambda>s. others t c s \<and> (src = Chainlink \<longrightarrow> freshness = Some f))
      (if p \<le> 0 then io_return 0
       else io_bind (oracle_now sv) (\<lambda>now. io_then (io_modify (\<lambda>s. s\<lparr>os_cache := js_set t
         \<lparr>pe_price = p, pe_updatedAtMs = now, pe_oracleUpdatedAtSec = u, pe_source = src, pe_freshnessMs = f\<rparr> (os_cache s)\<rparr>))
         (io_return p)))
      (\<lambda>p s. others t c s \<and> price_ok sv cfg s t p) (\<lambda>_ _. False)"
  proof (cases "src = Chainlink \<longrightarrow> freshness = Some f")
    case True
    show ?thesis
    proof (intro io_valid_if)
      assume pos: "\<not> p \<le> 0"
      have "io_valid (\<lambda>s. others t c s \<and> (src = Chainlink \<longrightarrow> freshness = Some f)) (oracle_now sv) (\<lambda>_. others t c) (\<lambda>_ _. False)"
        by (rule io_valid_weaken [OF others_now]) auto
      then show "io_valid (\<lambda>s. others t c s \<and> (src = Chainlink \<longrightarrow> freshness = Some f))
        (io_bind (oracle_now sv) (\<lambda>now. io_then (io_modify (\<lambda>s. s\<lparr>os_cache := js_set t
         \<lparr>pe_price = p, pe_updatedAtMs = now, pe_oracleUpdatedAtSec = u, pe_source = src, pe_freshnessMs = f\<rparr> (os_cache s)\<rparr>))
         (io_return p))) (\<lambda>p s. others t c s \<and> price_ok sv cfg s t p) (\<lambda>_ _. False)"
      proof (rule io_valid_bind)
        fix now
        show "io_valid (others t c) (io_then (io_modify (\<lambda>s. s\<lparr>os_cache := js_set t
           \<lparr>pe_price = p, pe_updatedAtMs = now, pe_oracleUpdatedAtSec = u, pe_source = src, pe_freshnessMs = f\<rparr> (os_cache s)\<rparr>))
           (io_return p)) (\<lambda>p s. others t c s \<and> price_ok sv cfg s t p) (\<lambda>_ _. False)"
          using True pos assms
          by (cases src) (auto simp: io_valid_def io_then_def io_bind_def io_simps others_def price_ok_def trusted_def)
      qed
    qed (auto intro!: io_valid_return simp: price_ok_def)
  next
    case False
    then show ?thesis by (auto simp: io_valid_def)
  qed
qed

lemma fetches_fallback: "fetches sv cfg t c (readAaveFallback sv cfg t)"
  unfolding readAaveFallback_def Let_def
proof (intro io_valid_option fetches_0)
  fix feed assume aave: "og_aaveOracle cfg = Some feed"
  let ?read = "io_bind (ocall (ov_getAssetPrice sv feed t)) (\<lambda>raw.
      if sanitizeOraclePrice raw \<le> 0 then io_return 0
      else io_bind (oracle_now sv) (\<lambda>now. storePrice sv t (sanitizeOraclePrice raw) (now div 1000) AaveOracle None))"
  have "io_valid (others t c) ?read (\<lambda>p s. others t c s \<and> price_ok sv cfg s t p) (\<lambda>_. others t c)"
    by (intro io_valid_bind [OF others_call] io_valid_if io_valid_weaken [OF fetches_0]
        io_valid_bind [OF io_valid_weaken [OF others_now]] io_valid_weaken [OF fetches_store]) (auto simp: aave)
  then show "fetches sv cfg t c (io_catch ?read (\<lambda>_. io_return 0))"
    by (rule io_valid_catch [OF _ fetches_0])
qed

lemma fetches_round:
  assumes "resolveValidatedFeedConfig sv cfg t \<noteq> None"
  shows "fetches sv cfg t c (round_price sv cfg t feed r)"
  unfolding round_price_def
proof (intro io_valid_bind [OF others_scale])
  fix scaled
  have "fetches sv cfg t c (guardFreshness sv cfg scaled (snd r) t Chainlink)"
    unfolding guardFreshness_def Let_def
    by (intro io_valid_if fetches_0 io_valid_bind [OF others_now] fetches_store) (auto simp: assms)
  then show "fetches sv cfg t c (io_bind (guardFreshness sv cfg scaled (snd r) t Chainlink)
      (\<lambda>fresh. if 0 < fresh then io_return fresh else readAaveFallback sv cfg t))"
  proof (rule io_valid_bind)
    fix fresh
    show "io_valid (\<lambda>s. others t c s \<and> price_ok sv cfg s t fresh)
        (if 0 < fresh then io_return fresh else readAaveFallback sv cfg t)
        (\<lambda>p s. others t c s \<and> price_ok sv cfg s t p) (\<lambda>_ _. False)"
      by (intro io_valid_if io_valid_return io_valid_weaken [OF fetches_fallback]) auto
  qed
qed

lemma fetches_one: "fetches sv cfg t c (fetchOne sv cfg t)"
  unfolding fetchOne_def
proof (intro io_valid_option fetches_fallback)
  fix feed assume "resolveValidatedFeedConfig sv cfg t = Some feed"
  then have "io_valid (others t c) (io_bind (ocall (ov_latestRoundData sv (fd_feed feed))) (round_price sv cfg t feed))
      (\<lambda>p s. others t c s \<and> price_ok sv cfg s t p) (\<lambda>_. others t c)"
    by (intro io_valid_bind [OF others_call] io_valid_weaken [OF fetches_round]) auto
  then show "fetches sv cfg t c (io_catch (io_bind (ocall (ov_latestRoundData sv (fd_feed feed))) (round_price sv cfg t feed))
      (\<lambda>_. readAaveFallback sv cfg t))"
    by (rule io_valid_catch [OF _ fetches_fallback])
qed

text \<open>The result object: every price in it is acceptable in the present state.\<close>

definition priced :: "'w oracle_services \<Rightarrow> oracle_config \<Rightarrow> (address, int) jsmap \<Rightarrow> 'w oracle_state \<Rightarrow> bool" where
  "priced sv cfg sink s \<longleftrightarrow> (\<forall>(t, p) \<in> set sink. price_ok sv cfg s t p)"

lemma priced_fetch:
  assumes "\<And>c. fetches sv cfg t c m" and "t \<notin> set (js_keys sink)"
  shows "io_valid (priced sv cfg sink) m (\<lambda>p. priced sv cfg (js_set t p sink)) (\<lambda>_ _. False)"
proof (rule io_validI)
  fix s p s' assume before: "priced sv cfg sink s" and run: "m s = (Inr p, s')"
  have start: "others t (os_cache s) s" by (simp add: others_def)
  from io_validD(1) [OF assms(1) start run] have kept: "others t (os_cache s) s'" and new: "price_ok sv cfg s' t p" by simp_all
  have "price_ok sv cfg s' t' p'" if "(t', p') \<in> set sink" for t' p'
  proof -
    have "t' \<noteq> t" using assms(2) that by (force simp: js_keys_def)
    then have "js_get (os_cache s') t' = js_get (os_cache s) t'" using kept by (simp add: others_def)
    moreover have "price_ok sv cfg s t' p'" using before that by (auto simp: priced_def)
    ultimately show ?thesis by (simp add: price_ok_def)
  qed
  with new show "priced sv cfg (js_set t p sink) s'"
    using js_set_subset [of t p sink] by (auto simp: priced_def)
next
  fix s e s' assume run: "m s = (Inl e, s')"
  have start: "others t (os_cache s) s" by (simp add: others_def)
  from io_validD(2) [OF assms(1) start run] show False .
qed

abbreviation fills ::
  "'w oracle_services \<Rightarrow> oracle_config \<Rightarrow> (address, int) jsmap \<Rightarrow> address set \<Rightarrow> ('w, (address, int) jsmap) oracle_io \<Rightarrow> bool" where
  "fills sv cfg sink ts m \<equiv> io_valid (priced sv cfg sink) m
     (\<lambda>r s. priced sv cfg r s \<and> set (js_keys r) = set (js_keys sink) \<union> ts) (\<lambda>_ _. False)"

lemma fills_each:
  assumes "\<And>t c. t \<in> set ts \<Longrightarrow> fetches sv cfg t c (f t)" and "distinct ts" and "set ts \<inter> set (js_keys sink) = {}"
  shows "fills sv cfg sink (set ts) (fetch_each f ts sink)"
  using assms
proof (induction ts arbitrary: sink)
  case (Cons t ts)
  have new: "t \<notin> set (js_keys sink)" using Cons.prems(3) by simp
  have "fills sv cfg (js_set t p sink) (set ts) (fetch_each f ts (js_set t p sink))" for p
    using Cons.prems by (intro Cons.IH) (auto simp: js_keys_set)
  then have rest: "io_valid (priced sv cfg (js_set t p sink)) (fetch_each f ts (js_set t p sink))
      (\<lambda>r s. priced sv cfg r s \<and> set (js_keys r) = set (js_keys sink) \<union> set (t # ts)) (\<lambda>_ _. False)" for p
    by (simp add: js_keys_set)
  have first: "fetches sv cfg t c (f t)" for c by (rule Cons.prems(1)) simp
  show ?case unfolding fetch_each.simps by (rule io_valid_bind [OF priced_fetch [OF first new] rest])
qed (auto intro!: io_valid_return)

lemma fills_rounds:
  assumes "\<forall>(t, feed) \<in> set entries. resolveValidatedFeedConfig sv cfg t \<noteq> None"
    and "distinct (map fst entries)" and "fst ` set entries \<inter> set (js_keys sink) = {}"
  shows "fills sv cfg sink (fst ` set entries) (store_rounds sv cfg entries responses sink)"
  using assms
proof (induction entries arbitrary: sink responses)
  case (Cons e entries)
  obtain t feed where e: "e = (t, feed)" by (cases e)
  have new: "t \<notin> set (js_keys sink)" using Cons.prems(3) by (simp add: e)
  have "resolveValidatedFeedConfig sv cfg t \<noteq> None" using Cons.prems(1) by (auto simp: e)
  then have first: "fetches sv cfg t c (case responses of Some r # _ \<Rightarrow> round_price sv cfg t feed r | _ \<Rightarrow> readAaveFallback sv cfg t)" for c
    by (auto split: list.split option.split intro: fetches_round fetches_fallback)
  have "fills sv cfg (js_set t p sink) (fst ` set entries) (store_rounds sv cfg entries (tl responses) (js_set t p sink))" for p
    using Cons.prems by (intro Cons.IH) (auto simp: js_keys_set e)
  then have rest: "io_valid (priced sv cfg (js_set t p sink)) (store_rounds sv cfg entries (tl responses) (js_set t p sink))
      (\<lambda>r s. priced sv cfg r s \<and> set (js_keys r) = set (js_keys sink) \<union> fst ` set (e # entries)) (\<lambda>_ _. False)" for p
    by (simp add: js_keys_set e)
  show ?case unfolding e store_rounds.simps by (rule io_valid_bind [OF priced_fetch [OF first new] rest [unfolded e]])
qed (auto intro!: io_valid_return)

lemma feed_entries_tokens: "map fst (feed_entries sv cfg ts) = filter (\<lambda>t. resolveValidatedFeedConfig sv cfg t \<noteq> None) ts"
  unfolding feed_entries_def by (induction ts) (auto simp: List.map_filter_simps split: option.split)

lemma feed_entries_resolved: "(t, feed) \<in> set (feed_entries sv cfg ts) \<Longrightarrow> resolveValidatedFeedConfig sv cfg t \<noteq> None"
  unfolding feed_entries_def by (auto simp: List.map_filter_def)

lemma fills_many:
  assumes "distinct ts"
  shows "fills sv cfg [] (set ts) (fetchMany sv cfg ts [])"
proof (cases "feed_entries sv cfg ts = []")
  case True
  then show ?thesis
    unfolding fetchMany_def Let_def using fills_each [OF fetches_fallback assms, of "[]"] by (simp add: js_keys_def)
next
  case False
  let ?entries = "feed_entries sv cfg ts" and ?rest = "filter (\<lambda>t. resolveValidatedFeedConfig sv cfg t = None) ts"
  have tokens: "fst ` set ?entries = {t \<in> set ts. resolveValidatedFeedConfig sv cfg t \<noteq> None}"
    using feed_entries_tokens [of sv cfg ts] by (metis list.set_map set_filter)
  have distinct: "distinct (map fst ?entries)" unfolding feed_entries_tokens using assms by simp
  have "fills sv cfg sink (set ts) (io_catch
      (io_bind (ocall (ov_multicallRounds sv (map (fd_feed \<circ> snd) ?entries))) (\<lambda>responses. store_rounds sv cfg ?entries responses sink))
      (\<lambda>_. fetch_each (fetchOne sv cfg) (map fst ?entries) sink))"
    if keys: "set (js_keys sink) = set ?rest" for sink
  proof (rule io_valid_catch)
    have disjoint: "fst ` set ?entries \<inter> set (js_keys sink) = {}" by (auto simp: keys tokens)
    have whole: "set (js_keys sink) \<union> fst ` set ?entries = set (js_keys sink) \<union> set ts" by (auto simp: keys tokens)
    have call: "io_valid (priced sv cfg sink) (ocall m) (\<lambda>_. priced sv cfg sink) (\<lambda>_. priced sv cfg sink)" for m :: "('a, 'b) io"
      by (auto simp: io_valid_def ocall_def priced_def price_ok_def split: prod.splits sum.splits)
    show "io_valid (priced sv cfg sink)
        (io_bind (ocall (ov_multicallRounds sv (map (fd_feed \<circ> snd) ?entries))) (\<lambda>responses. store_rounds sv cfg ?entries responses sink))
        (\<lambda>r s. priced sv cfg r s \<and> set (js_keys r) = set (js_keys sink) \<union> set ts) (\<lambda>_. priced sv cfg sink)"
      using fills_rounds [OF _ distinct disjoint] feed_entries_resolved
      by (intro io_valid_bind [OF call] io_valid_weaken [OF fills_rounds [OF _ distinct disjoint]]) (auto simp: whole)
    show "io_valid (priced sv cfg sink) (fetch_each (fetchOne sv cfg) (map fst ?entries) sink)
        (\<lambda>r s. priced sv cfg r s \<and> set (js_keys r) = set (js_keys sink) \<union> set ts) (\<lambda>_ _. False)"
      by (rule io_valid_weaken [OF fills_each [OF fetches_one distinct]]) (use disjoint whole in auto)
  qed
  note fill = this
  have rest: "fills sv cfg [] (set ?rest) (fetch_each (readAaveFallback sv cfg) ?rest [])"
    by (rule fills_each [OF fetches_fallback]) (use assms in \<open>auto simp: js_keys_def\<close>)
  show ?thesis
    unfolding fetchMany_def Let_def if_not_P [OF False]
  proof (rule io_valid_bind [OF rest])
    fix sink
    show "io_valid (\<lambda>s. priced sv cfg sink s \<and> set (js_keys sink) = set (js_keys ([] :: (address, int) jsmap)) \<union> set ?rest)
      (io_catch (io_bind (ocall (ov_multicallRounds sv (map (fd_feed \<circ> snd) ?entries))) (\<lambda>responses. store_rounds sv cfg ?entries responses sink))
      (\<lambda>_. fetch_each (fetchOne sv cfg) (map fst ?entries) sink))
      (\<lambda>r s. priced sv cfg r s \<and> set (js_keys r) = set (js_keys ([] :: (address, int) jsmap)) \<union> set ts) (\<lambda>_ _. False)"
    proof (cases "set (js_keys sink) = set ?rest")
      case True
      then show ?thesis by (intro io_valid_weaken [OF fill [OF True]]) (auto simp: js_keys_def)
    qed (simp add: io_valid_def js_keys_def)
  qed
qed

lemma refreshed_prices_trusted_fact:
  assumes "forceRefreshUsdPrices sv cfg tokens s = (r, s')"
  shows "\<exists>prices. r = Inr prices \<and> set (js_keys prices) = set tokens \<and>
    (\<forall>(t, p) \<in> set prices. p = 0 \<or> (\<exists>e. js_get (os_cache s') t = Some e \<and> pe_price e = p \<and> trusted sv cfg t e)) \<and>
    fst (forceRefreshUsdPrices sv cfg tokens (s\<lparr>os_cache := c\<rparr>)) = r"
proof -
  let ?s0 = "forget_prices (js_of_list tokens) s"
  have "\<exists>prices. r = Inr prices \<and> set (js_keys prices) = set tokens \<and> priced sv cfg prices s'"
  proof (cases "tokens = []")
    case False
    with assms have run: "fetchMany sv cfg (js_of_list tokens) [] ?s0 = (r, s')" by (simp add: forced_reads)
    have start: "priced sv cfg [] ?s0" by (simp add: priced_def)
    note ok = io_validD [OF fills_many [OF distinct_js_of_list] start]
    show ?thesis
    proof (cases r)
      case (Inl e)
      with ok(2) [OF run [unfolded Inl]] show ?thesis by simp
    next
      case (Inr prices)
      with ok(1) [OF run [unfolded Inr]] show ?thesis by (simp add: js_keys_def)
    qed
  qed (use assms in \<open>simp add: forced_reads js_keys_def priced_def\<close>)
  moreover have "fst (forceRefreshUsdPrices sv cfg tokens (s\<lparr>os_cache := c\<rparr>)) = r"
  proof -
    have "forget_prices (js_of_list tokens) (s\<lparr>os_cache := c\<rparr>)
        = ?s0\<lparr>os_cache := os_cache (forget_prices (js_of_list tokens) (s\<lparr>os_cache := c\<rparr>))\<rparr>" by (simp add: forget_prices_def)
    moreover have "\<exists>c'. fetchMany sv cfg ts [] (?s0\<lparr>os_cache := c2\<rparr>)
        = (fst (fetchMany sv cfg ts [] ?s0), (snd (fetchMany sv cfg ts [] ?s0))\<lparr>os_cache := c'\<rparr>)" for ts c2
      using blind_fetchMany [of sv cfg ts "[]"] unfolding blind_def by blast
    ultimately have "fst (fetchMany sv cfg (js_of_list tokens) [] (forget_prices (js_of_list tokens) (s\<lparr>os_cache := c\<rparr>)))
        = fst (fetchMany sv cfg (js_of_list tokens) [] ?s0)" by (metis fst_conv)
    with assms show ?thesis by (auto simp: forced_reads)
  qed
  ultimately show ?thesis unfolding priced_def price_ok_def by blast
qed

section \<open>Properties\<close>

text \<open>A forced refresh never throws and answers every token asked for, and every positive price it
  gives has been stored in this call from a Chainlink round of the configured feed no older than the
  allowed age or from the configured Aave oracle. What the cache held before has no influence on the answer.\<close>

theorem refreshed_prices_trusted:
  assumes "forceRefreshUsdPrices sv cfg tokens s = (r, s')"
  shows "\<exists>prices. r = Inr prices \<and> set (js_keys prices) = set tokens \<and>
    (\<forall>(t, p) \<in> set prices. p = 0 \<or> (\<exists>e. js_get (os_cache s') t = Some e \<and> pe_price e = p \<and> trusted sv cfg t e)) \<and>
    fst (forceRefreshUsdPrices sv cfg tokens (s\<lparr>os_cache := c\<rparr>)) = r"
  by (rule refreshed_prices_trusted_fact [OF assms])

text \<open>A token with a feed whose round is 100 seconds old, and one without a feed.\<close>

definition sample_oracle :: "unit oracle_services" where
  "sample_oracle = \<lparr>ov_latestRoundData = (\<lambda>f w. (Inr (3000, 900), w)),
     ov_multicallRounds = (\<lambda>fs w. (Inr (map (\<lambda>_. Some (3000, 900)) fs), w)), ov_decimals = (\<lambda>f w. (Inr 8, w)),
     ov_getAssetPrice = (\<lambda>o_addr t w. (Inr 100, w)), ov_nowMs = (\<lambda>w. (1000000, w)),
     ov_isAddress = (\<lambda>s. take 2 s = ''0x''), ov_getAddress = Some\<rparr>"

definition sample_oracle_config :: oracle_config where
  "sample_oracle_config = \<lparr>og_feeds = [(''0xweth'', \<lparr>fd_feed = ''0xfeed'', fd_priceDecimals = None\<rparr>)],
     og_cacheTtlMs = None, og_maxStaleMs = None, og_aaveOracle = Some ''0xaave''\<rparr>"

definition sample_oracle_state :: "unit oracle_state" where
  "sample_oracle_state = \<lparr>os_world = (), os_cache = [], os_feedDecimals = []\<rparr>"

lemma sample_refresh:
  "fst (forceRefreshUsdPrices sample_oracle sample_oracle_config [''0xweth'', ''0xusdc'', ''0xweth''] sample_oracle_state)
     = Inr [(''0xusdc'', 100), (''0xweth'', 3000)]"
  by code_simp

theorem refreshed_prices_trusted_witness:
  "\<exists>e. js_get (os_cache (snd (forceRefreshUsdPrices sample_oracle sample_oracle_config [''0xweth'', ''0xusdc'', ''0xweth''] sample_oracle_state)))
       ''0xweth'' = Some e \<and> pe_price e = 3000 \<and> trusted sample_oracle sample_oracle_config ''0xweth'' e"
proof -
  obtain s' where run: "forceRefreshUsdPrices sample_oracle sample_oracle_config [''0xweth'', ''0xusdc'', ''0xweth''] sample_oracle_state
      = (Inr [(''0xusdc'', 100), (''0xweth'', 3000)], s')"
    using sample_refresh by (metis prod.collapse)
  from refreshed_prices_trusted [OF run] show ?thesis unfolding run by auto
qed

end
