(* ===== verification/Gate_Prices.thy ===== *)
theory Gate_Prices
  imports Candidate_Gate Price_Oracle
begin

text \<open>
  The candidate gate on top of the price oracle: with the oracle as its source of prices, whatever it
  keeps is valued at a trusted price that was read for that candidate.
\<close>

lemma filter_candidate_kept:
  assumes "filter_candidate cfg chain stage gas fee c s = (Inr (Some c'), s')"
  shows "\<exists>s1 s2 d. resolveFreshDebtUsd cfg c s1 = (Inr d, s2) \<and> rd_trusted d \<and> c' = c\<lparr>lc_repayValueUsd := rd_debtUsd d\<rparr>"
proof -
  from assms obtain b s0 where rest: "(if b then io_return None else io_bind (resolveFreshDebtUsd cfg c) (\<lambda>resolved.
         let profitability = evaluateLiquidationProfitability (gate_input cfg c (rd_debtUsd resolved) gas fee)
         in io_bind (sanity_check cfg chain c) (\<lambda>sanityPass.
              let finalPass = (rd_trusted resolved \<and> pr_pass profitability \<and> sanityPass);
                  decision = buildFilterDecision resolved (pr_pass profitability) gas
              in io_then (record_row (evaluated_row c stage (rd_debtUsd resolved) gas profitability sanityPass finalPass))
                (io_then (logLiquidationDustDecision cfg chain (lc_account c) decision)
                  (if dd_isDust decision \<or> \<not> sanityPass
                   then io_then (io_modify (\<lambda>s. s\<lparr>gs_dustFiltered := gs_dustFiltered s + 1\<rparr>)) (io_return None)
                   else io_return (Some (c\<lparr>lc_repayValueUsd := rd_debtUsd resolved\<rparr>))))))) s0 = (Inr (Some c'), s')"
    unfolding filter_candidate_def io_bind_Inr by blast
  let ?p = "\<lambda>r. evaluateLiquidationProfitability (gate_input cfg c (rd_debtUsd r) gas fee)"
  have "\<not> b" using rest by (auto simp: io_simps)
  with rest obtain d s2 sane s5 where resolved: "resolveFreshDebtUsd cfg c s0 = (Inr d, s2)"
    and last: "(if dd_isDust (buildFilterDecision d (pr_pass (?p d)) gas) \<or> \<not> sane
          then io_then (io_modify (\<lambda>s. s\<lparr>gs_dustFiltered := gs_dustFiltered s + 1\<rparr>)) (io_return None)
          else io_return (Some (c\<lparr>lc_repayValueUsd := rd_debtUsd d\<rparr>))) s5 = (Inr (Some c'), s')"
    by (simp only: if_False Let_def io_bind_Inr io_then_Inr) blast
  then have "\<not> dd_isDust (buildFilterDecision d (pr_pass (?p d)) gas)" "c' = c\<lparr>lc_repayValueUsd := rd_debtUsd d\<rparr>"
    by (auto simp: io_then_Inr io_simps split: if_splits)
  moreover from this have "rd_trusted d" by (auto simp: buildFilterDecision_def split: if_splits)
  ultimately show ?thesis using resolved by blast
qed

lemma filter_loop_kept:
  assumes "filter_loop cfg chain stage gas fee cs s = (Inr kept, s')" and "c' \<in> set kept"
  shows "\<exists>c \<in> set cs. \<exists>s1 s2 d. resolveFreshDebtUsd cfg c s1 = (Inr d, s2) \<and> rd_trusted d \<and> c' = c\<lparr>lc_repayValueUsd := rd_debtUsd d\<rparr>"
  using assms
proof (induction cs arbitrary: s kept)
  case (Cons c cs)
  from Cons.prems(1) obtain k s1 rest where one: "filter_candidate cfg chain stage gas fee c s = (Inr k, s1)"
    and loop: "filter_loop cfg chain stage gas fee cs s1 = (Inr rest, s')"
    and kept: "kept = (case k of None \<Rightarrow> rest | Some c' \<Rightarrow> c' # rest)"
    by (auto simp: io_bind_Inr io_simps)
  show ?case
  proof (cases "k = Some c'")
    case True
    from filter_candidate_kept [OF one [unfolded True]] show ?thesis by (rule bexI) simp
  next
    case False
    then have "c' \<in> set rest" using Cons.prems(2) by (auto simp: kept split: option.splits)
    from Cons.IH [OF loop this] show ?thesis by (meson list.set_intros(2))
  qed
qed (simp add: io_simps)

lemma resolved_at_trusted_price:
  assumes "gc_forceRefreshUsdPrices cfg = Some (forceRefreshUsdPrices sv og)"
    and "resolveFreshDebtUsd cfg c s = (Inr d, s')" and "rd_trusted d"
  shows "\<exists>e. js_get (os_cache (gs_world s')) (lc_debtAsset c) = Some e \<and> trusted sv og (lc_debtAsset c) e \<and>
    rd_debtUsd d = computeDebtUsdFromWei (lc_debtToCover c) (resolveDebtDecimals cfg (lc_debtAsset c)) (pe_price e) \<and>
    (\<exists>w prices. forceRefreshUsdPrices sv og [lc_debtAsset c, lc_collateralAsset c] w = (Inr prices, gs_world s'))"
proof -
  from assms obtain prices w where run: "forceRefreshUsdPrices sv og [lc_debtAsset c, lc_collateralAsset c] (gs_world s) = (Inr prices, w)"
    and s': "s' = s\<lparr>gs_world := w\<rparr>"
    and price: "0 < (case js_get prices (lc_debtAsset c) of Some p \<Rightarrow> p | None \<Rightarrow> 0)"
    and worth: "rd_debtUsd d = computeDebtUsdFromWei (lc_debtToCover c) (resolveDebtDecimals cfg (lc_debtAsset c))
      (case js_get prices (lc_debtAsset c) of Some p \<Rightarrow> p | None \<Rightarrow> 0)"
    by (auto simp: resolveFreshDebtUsd_def Let_def io_bind_Inr io_simps gate_call_Inr split: if_splits)
  from price obtain p where p: "js_get prices (lc_debtAsset c) = Some p" "p \<noteq> 0" by (auto split: option.splits)
  from js_get_SomeD [OF p(1)] refreshed_prices_trusted_fact [OF run] p(2) obtain e where
    "js_get (os_cache w) (lc_debtAsset c) = Some e" "pe_price e = p" "trusted sv og (lc_debtAsset c) e" by blast
  with worth run show ?thesis by (auto simp: s' p(1))
qed

section \<open>Properties\<close>


text \<open>The gate of the sample services on the sample oracle: 1,000 tokens of six decimals at three dollars.\<close>

definition priced_services :: "unit oracle_state gate_config" where
  "priced_services = \<lparr>gc_minDebtUsd = 100, gc_resolveGasCostUsd = io_return (1 / 2), gc_resolveFlashFeeBps = io_return 5,
     gc_forceRefreshUsdPrices = Some (forceRefreshUsdPrices
       (sample_oracle\<lparr>ov_getAssetPrice := (\<lambda>o_addr t w. (Inr 300000000, w))\<rparr>) sample_oracle_config),
     gc_oracleSanityCheck = None, gc_resolveDebtDecimals = Some (\<lambda>asset. 6), gc_now = Pair 1000\<rparr>"

definition priced_state :: "unit oracle_state gate_state" where
  "priced_state = \<lparr>gs_cooldown = bc_new None,
     gs_dustLog = dl_new None None, gs_diagnostics = None, gs_cooldownBlocks = 0, gs_dustFiltered = 0, gs_log = [],
     gs_world = sample_oracle_state\<rparr>"

lemma priced_filtered:
  "map lc_account (projr (fst (filterCandidates priced_services ''base'' [sample_candidate] ''poll'' priced_state))) = [''0xa1''] \<and>
   \<not> isl (fst (filterCandidates priced_services ''base'' [sample_candidate] ''poll'' priced_state))"
  by code_simp


end
