(* ===== verification/Arbitrage.thy ===== *)
theory Arbitrage
  imports Orchestrator Decimal
begin

text \<open>
  The arbitrage half of the program: the expected value of a flash-loan arbitrage
  (\<open>src/utils/evCalculator.ts\<close>), the scanner (\<open>src/monitors/arbitrageScanner.ts\<close>) and the request it
  leads to (\<open>src/executors/arbitrageExecutorAdapter.ts\<close>, \<open>src/protocols/arbitrageFlashLoanReceiver.ts\<close>).
  RPC client, price cache, simulator, clock, ABI encoder and \<open>parseUnits\<close> are services. The workers of
  a scan run one after the other; the timers that repeat it are not modelled. Log lines are left out.
\<close>

section \<open>Expected value\<close>

record arb_ev_input =
  fe_amountIn :: int
  fe_amountOutFinal :: int
  fe_flashFeeBps :: rat
  fe_gasEstimate :: int
  fe_gasPrice :: int
  fe_slippageBps :: "rat option"
  fe_minProfitThreshold :: "int option"

record arb_ev =
  fv_profitWei :: int
  fv_rawProfitWei :: int
  fv_flashFeeWei :: int
  fv_gasCostWei :: int
  fv_slippageBufferWei :: int
  fv_isProfitable :: bool

definition MIN_PROFIT_THRESHOLD_BNB :: int where
  "MIN_PROFIT_THRESHOLD_BNB = 150000000000000000"

definition calculateFlashLoanArbitrageEV :: "'a arb_ev_input_scheme \<Rightarrow> exn + arb_ev" where
  "calculateFlashLoanArbitrageEV i =
     (let slippageBps = (case fe_slippageBps i of Some b \<Rightarrow> b | None \<Rightarrow> of_int defaultSlippageBufferBps);
          minProfitThreshold = (case fe_minProfitThreshold i of Some t \<Rightarrow> t | None \<Rightarrow> MIN_PROFIT_THRESHOLD_WEI)
      in case all_asserted [assertNonNegativeBigint ''amountIn'' (fe_amountIn i),
           assertNonNegativeBigint ''amountOutFinal'' (fe_amountOutFinal i),
           assertNonNegativeBigint ''gasEstimate'' (fe_gasEstimate i),
           assertNonNegativeBigint ''gasPrice'' (fe_gasPrice i),
           assertNonNegativeBigint ''minProfitThreshold'' minProfitThreshold,
           assertNonNegative ''flashFeeBps'' (fe_flashFeeBps i),
           assertNonNegative ''slippageBps'' slippageBps] of
          Inl e \<Rightarrow> Inl e
        | Inr _ \<Rightarrow>
            (let flashFeeWei = bdiv (fe_amountIn i * js_trunc (fe_flashFeeBps i)) BPS;
                 gasCostWei = fe_gasEstimate i * fe_gasPrice i;
                 slippageBufferWei = bdiv (fe_amountOutFinal i * js_trunc slippageBps) BPS;
                 rawProfitWei = fe_amountOutFinal i - fe_amountIn i - flashFeeWei - gasCostWei - slippageBufferWei;
                 profitable = (minProfitThreshold \<le> rawProfitWei)
             in Inr \<lparr>fv_profitWei = (if profitable then rawProfitWei else 0), fv_rawProfitWei = rawProfitWei,
                  fv_flashFeeWei = flashFeeWei, fv_gasCostWei = gasCostWei, fv_slippageBufferWei = slippageBufferWei,
                  fv_isProfitable = profitable\<rparr>))"

record exact_usd_input = arb_ev_input +
  xi_tokenIn :: address
  xi_tokenInDecimals :: int
  xi_nativeGasToken :: address
  xi_nativeGasTokenDecimals :: "int option"
  xi_minProfitUsdRaw :: "int option"

record exact_usd_ev =
  xv_netProfitUsdRaw :: int
  xv_revenueUsdRaw :: int
  xv_costUsdRaw :: int
  xv_isPriceAvailable :: bool
  xv_isProfitable :: bool

definition tokenAmountToUsdRaw :: "int \<Rightarrow> int \<Rightarrow> int \<Rightarrow> int" where
  "tokenAmountToUsdRaw amountRaw tokenDecimals tokenUsdPriceRaw = bdiv (amountRaw * tokenUsdPriceRaw) (10 ^ nat tokenDecimals)"

definition weiToUsdRaw :: "int \<Rightarrow> int \<Rightarrow> int \<Rightarrow> int" where
  "weiToUsdRaw weiAmount nativeUsdPriceRaw nativeTokenDecimals = bdiv (weiAmount * nativeUsdPriceRaw) (10 ^ nat nativeTokenDecimals)"

definition exact_usd_of_prices :: "exact_usd_input \<Rightarrow> int \<Rightarrow> int \<Rightarrow> int \<Rightarrow> int \<Rightarrow> exn + exact_usd_ev" where
  "exact_usd_of_prices i threshold nativeDecimals tokenPrice nativePrice =
     (if tokenPrice \<le> 0 \<or> nativePrice \<le> 0
      then Inr \<lparr>xv_netProfitUsdRaw = 0, xv_revenueUsdRaw = 0, xv_costUsdRaw = 0, xv_isPriceAvailable = False, xv_isProfitable = False\<rparr>
      else case calculateFlashLoanArbitrageEV i of
             Inl e \<Rightarrow> Inl e
           | Inr ev \<Rightarrow>
               (let revenueUsdRaw = tokenAmountToUsdRaw (fe_amountOutFinal i) (xi_tokenInDecimals i) tokenPrice;
                    costTokenRaw = fe_amountIn i + fv_flashFeeWei ev + fv_slippageBufferWei ev;
                    costUsdRaw = tokenAmountToUsdRaw costTokenRaw (xi_tokenInDecimals i) tokenPrice
                      + weiToUsdRaw (fv_gasCostWei ev) nativePrice nativeDecimals;
                    netProfitUsdRaw = revenueUsdRaw - costUsdRaw
                in Inr \<lparr>xv_netProfitUsdRaw = netProfitUsdRaw, xv_revenueUsdRaw = revenueUsdRaw, xv_costUsdRaw = costUsdRaw,
                     xv_isPriceAvailable = True, xv_isProfitable = (threshold \<le> netProfitUsdRaw)\<rparr>))"

definition calculateExactUsdEV ::
  "exact_usd_input \<Rightarrow> (address list \<Rightarrow> ('s, (address, int) jsmap) io) \<Rightarrow> ('s, exact_usd_ev) io" where
  "calculateExactUsdEV i batchGetUsdPrices =
     (let threshold = (case xi_minProfitUsdRaw i of Some t \<Rightarrow> t | None \<Rightarrow> 15000000);
          nativeDecimals = (case xi_nativeGasTokenDecimals i of Some d \<Rightarrow> d | None \<Rightarrow> 18);
          price = (\<lambda>prices token. case js_get prices token of Some p \<Rightarrow> p | None \<Rightarrow> 0)
      in io_then (io_lift (all_asserted [assertNonNegativeBigint ''amountIn'' (fe_amountIn i),
             assertNonNegativeBigint ''amountOutFinal'' (fe_amountOutFinal i),
             assertNonNegative ''tokenInDecimals'' (of_int (xi_tokenInDecimals i)),
             assertNonNegativeBigint ''minProfitUsdRaw'' threshold,
             assertNonNegative ''nativeGasTokenDecimals'' (of_int nativeDecimals)]))
           (io_bind (batchGetUsdPrices [xi_tokenIn i, xi_nativeGasToken i]) (\<lambda>prices.
             io_lift (exact_usd_of_prices i threshold nativeDecimals (price prices (xi_tokenIn i)) (price prices (xi_nativeGasToken i))))))"

text \<open>The simulation of the whole path: a call, and the gas if it can be estimated.\<close>

record flash_simulation_input =
  si_to :: address
  si_data :: string
  si_from :: address
  si_gasPrice :: int

definition simulateFullFlashLoanArbPath ::
  "(flash_simulation_input \<Rightarrow> ('s, unit) io) \<Rightarrow> (flash_simulation_input \<Rightarrow> ('s, int) io) option \<Rightarrow> flash_simulation_input \<Rightarrow> ('s, bool \<times> int) io" where
  "simulateFullFlashLoanArbPath call_fn estimateGas i =
     io_catch
       (io_then (call_fn i)
         (case estimateGas of
            None \<Rightarrow> io_return (True, 0)
          | Some estimate \<Rightarrow> io_bind (io_catch (estimate i) (\<lambda>_. io_return 0)) (\<lambda>gasUsed. io_return (True, gasUsed))))
       (\<lambda>_. io_return (False, 0))"

section \<open>The scanner\<close>

record token_pair =
  tp_tokenIn :: address
  tp_tokenOut :: address
  tp_symbolIn :: string
  tp_symbolOut :: string
  tp_decimalsIn :: int
  tp_decimalsOut :: int

text \<open>The options of the constructor that have a default.\<close>

record scanner_options =
  so_minProfitMarginBps :: "rat option"
  so_stablePairProbeSize :: "int option"
  so_volatilePairProbeSize :: "int option"
  so_dedupeWindowMs :: "int option"
  so_baseStableProbeSizes :: "int list option"
  so_baseStableExpandedProbeSize :: "int option"
  so_flashLoanGasEstimate :: "int option"
  so_flashFeeBps :: "rat option"
  so_baseMinProfitThreshold :: "int option"
  so_arbitrageSlippageBps :: "rat option"
  so_exactUsdMinProfitRaw :: "int option"
  so_quoteConcurrency :: "int option"
  so_nativeGasToken :: "(string \<Rightarrow> address) option"
  so_nativeGasTokenDecimals :: "(string \<Rightarrow> int) option"
  so_defaultFlashLoanProvider :: flash_provider
  so_flashLoanReceiverAddress :: "address option"
  so_operatorAddress :: "address option"

record scanner_config =
  sc_minProfitMarginBps :: rat
  sc_stablePairProbeSize :: int
  sc_volatilePairProbeSize :: int
  sc_dedupeWindowMs :: int
  sc_baseStableProbeSizes :: "int list"
  sc_baseStableExpandedProbeSize :: int
  sc_flashLoanGasEstimate :: int
  sc_flashFeeBps :: rat
  sc_baseMinProfitThreshold :: int
  sc_arbitrageSlippageBps :: rat
  sc_exactUsdMinProfitRaw :: int
  sc_quoteConcurrency :: int
  sc_nativeGasToken :: "string \<Rightarrow> address"
  sc_nativeGasTokenDecimals :: "string \<Rightarrow> int"
  sc_defaultFlashLoanProvider :: flash_provider
  sc_flashLoanReceiverAddress :: "address option"
  sc_operatorAddress :: "address option"

text \<open>The spread of the given options comes after the defaults: an option that is given replaces the
  field, also the clamped \<open>quoteConcurrency\<close>.\<close>

definition scanner_config_of :: "scanner_options \<Rightarrow> scanner_config" where
  "scanner_config_of o' =
     \<lparr>sc_minProfitMarginBps = or_else (so_minProfitMarginBps o') 120,
      sc_stablePairProbeSize = or_else (so_stablePairProbeSize o') 50000,
      sc_volatilePairProbeSize = or_else (so_volatilePairProbeSize o') 10,
      sc_dedupeWindowMs = or_else (so_dedupeWindowMs o') 60000,
      sc_baseStableProbeSizes = or_else (so_baseStableProbeSizes o') [10000, 25000, 50000],
      sc_baseStableExpandedProbeSize = or_else (so_baseStableExpandedProbeSize o') 500000,
      sc_flashLoanGasEstimate = or_else (so_flashLoanGasEstimate o') 500000,
      sc_flashFeeBps = or_else (so_flashFeeBps o') AAVE_V3_BASE_FLASH_FEE_BPS,
      sc_baseMinProfitThreshold = or_else (so_baseMinProfitThreshold o') MIN_PROFIT_THRESHOLD_BNB,
      sc_arbitrageSlippageBps = or_else (so_arbitrageSlippageBps o') 100,
      sc_exactUsdMinProfitRaw = or_else (so_exactUsdMinProfitRaw o') 15000000,
      sc_quoteConcurrency = or_else (so_quoteConcurrency o') (max 1 (or_else (so_quoteConcurrency o') 4)),
      sc_nativeGasToken = or_else (so_nativeGasToken o')
        (\<lambda>chain. if chain = ''arbitrum'' then ''0x82aF49447D8a07e3bd95BD0d56f35241523fBab1''
                 else ''0x4200000000000000000000000000000000000006''),
      sc_nativeGasTokenDecimals = or_else (so_nativeGasTokenDecimals o') (\<lambda>chain. 18),
      sc_defaultFlashLoanProvider = so_defaultFlashLoanProvider o',
      sc_flashLoanReceiverAddress = so_flashLoanReceiverAddress o',
      sc_operatorAddress = so_operatorAddress o'\<rparr>"

record quote_cycle_stats =
  st_routesAttempted :: nat
  st_quotesSucceeded :: nat
  st_quotesFailed :: nat
  st_evaluations :: nat
  st_skipReasons :: "(string, nat) jsmap"

definition createEmptyQuoteCycleStats :: quote_cycle_stats where
  "createEmptyQuoteCycleStats =
     \<lparr>st_routesAttempted = 0, st_quotesSucceeded = 0, st_quotesFailed = 0, st_evaluations = 0, st_skipReasons = []\<rparr>"

text \<open>The engine's simulator has no state of its own; \<open>sink\<close> holds what was pushed to the opportunity sink.\<close>

record 'w scanner_services =
  sv_quotes :: "'w quote_services"
  sv_quoteConfig :: quote_config
  sv_abi :: abi_codec
  sv_parseUnits :: "int \<Rightarrow> int \<Rightarrow> int"
  sv_registry :: registry
  sv_simulate :: "profit_simulation_input \<Rightarrow> exn + eth_call_result"
  sv_getGasPrice :: "string \<Rightarrow> ('w, int) io"
  sv_call :: "flash_simulation_input \<Rightarrow> ('w, unit) io"
  sv_estimateGas :: "(flash_simulation_input \<Rightarrow> ('w, int) io) option"
  sv_batchGetUsdPrices :: "(address list \<Rightarrow> ('w, (address, int) jsmap) io) option"
  sv_now :: "'w \<Rightarrow> int \<times> 'w"
  sv_dexes :: "string \<Rightarrow> dex_config list"
  sv_pairs :: "string \<Rightarrow> token_pair list"

record 'w scanner_state =
  sn_quotes :: "'w quote_state"
  sn_dedupe :: "(string, int) jsmap"
  sn_stats :: quote_cycle_stats
  sn_sink :: "arbitrage_opportunity list"

type_synonym ('w, 'a) scan_io = "('w scanner_state, 'a) io"

definition in_quotes :: "('w, 'a) quote_io \<Rightarrow> ('w, 'a) scan_io" where
  "in_quotes m s = (case m (sn_quotes s) of (r, q) \<Rightarrow> (r, s\<lparr>sn_quotes := q\<rparr>))"

definition scall :: "('w, 'a) io \<Rightarrow> ('w, 'a) scan_io" where
  "scall m = in_quotes (qcall m)"

definition scan_clock :: "'w scanner_services \<Rightarrow> ('w, int) scan_io" where
  "scan_clock sv = scall (\<lambda>w. case sv_now sv w of (t, w') \<Rightarrow> (Inr t, w'))"

definition on_stats :: "(quote_cycle_stats \<Rightarrow> quote_cycle_stats) \<Rightarrow> ('w, unit) scan_io" where
  "on_stats f = io_modify (\<lambda>s. s\<lparr>sn_stats := f (sn_stats s)\<rparr>)"

definition recordSkip :: "string \<Rightarrow> ('w, unit) scan_io" where
  "recordSkip reason = on_stats (\<lambda>st. st\<lparr>st_skipReasons := js_set reason
     ((case js_get (st_skipReasons st) reason of Some n \<Rightarrow> n | None \<Rightarrow> 0) + 1) (st_skipReasons st)\<rparr>)"

definition buySell :: "dex_config \<Rightarrow> dex_config option \<Rightarrow> dex_config \<times> dex_config" where
  "buySell buyDex sellDex = (buyDex, case sellDex of Some d \<Rightarrow> d | None \<Rightarrow> buyDex)"

definition stable_pair :: "token_pair \<Rightarrow> bool" where
  "stable_pair pair = (str_startsWith ''US'' (tp_symbolIn pair) \<and> str_startsWith ''US'' (tp_symbolOut pair))"

definition probeAmountIn :: "'w scanner_services \<Rightarrow> scanner_config \<Rightarrow> token_pair \<Rightarrow> int" where
  "probeAmountIn sv cfg pair =
     sv_parseUnits sv (if stable_pair pair then sc_stablePairProbeSize cfg else sc_volatilePairProbeSize cfg) (tp_decimalsIn pair)"

definition probeAmountsIn :: "'w scanner_services \<Rightarrow> scanner_config \<Rightarrow> string \<Rightarrow> token_pair \<Rightarrow> bool \<Rightarrow> int list" where
  "probeAmountsIn sv cfg chain pair includeExpandedProbe =
     (if \<not> stable_pair pair
      then let base = probeAmountIn sv cfg pair in [base, base * 2, base * 3, base * 5]
      else if chain \<noteq> ''base'' then [probeAmountIn sv cfg pair]
      else let sizes = map (\<lambda>size. sv_parseUnits sv size (tp_decimalsIn pair)) (sc_baseStableProbeSizes cfg)
           in if \<not> includeExpandedProbe then sizes
              else sizes @ [sv_parseUnits sv (sc_baseStableExpandedProbeSize cfg) (tp_decimalsIn pair)])"

definition minProfitThresholdForPair :: "scanner_config \<Rightarrow> string \<Rightarrow> token_pair \<Rightarrow> int" where
  "minProfitThresholdForPair cfg chain pair =
     (if chain \<noteq> ''base'' then MIN_PROFIT_THRESHOLD_WEI
      else if tp_decimalsIn pair = 18 then sc_baseMinProfitThreshold cfg
      else if 18 < tp_decimalsIn pair then sc_baseMinProfitThreshold cfg * 10 ^ nat (tp_decimalsIn pair - 18)
      else bdiv (sc_baseMinProfitThreshold cfg) (10 ^ nat (18 - tp_decimalsIn pair)))"

definition resolveGasPrice :: "'w scanner_services \<Rightarrow> string \<Rightarrow> ('w, int) scan_io" where
  "resolveGasPrice sv chain = io_catch (scall (sv_getGasPrice sv chain)) (\<lambda>_. io_return 1)"

definition pruneDedupe :: "scanner_config \<Rightarrow> int \<Rightarrow> ('w, unit) scan_io" where
  "pruneDedupe cfg nowMs =
     io_modify (\<lambda>s. s\<lparr>sn_dedupe := filter (\<lambda>e. \<not> snd e < nowMs - sc_dedupeWindowMs cfg) (sn_dedupe s)\<rparr>)"

definition signature_of :: "string \<Rightarrow> dex_config \<times> dex_config \<Rightarrow> token_pair \<Rightarrow> int \<Rightarrow> string" where
  "signature_of chain route pair amountIn =
     chain @ '':'' @ dx_name (fst route) @ '':'' @ dx_name (snd route) @ '':'' @ tp_symbolIn pair @ ''-'' @ tp_symbolOut pair
       @ '':'' @ int_string amountIn"

record arb_route =
  ar_buyRouter :: address
  ar_sellRouter :: address
  ar_tokenIn :: address
  ar_tokenOut :: address
  ar_amountIn :: int
  ar_minBuyOut :: int
  ar_minSellOut :: int

definition encodeArbitrageRoute :: "abi_codec \<Rightarrow> arb_route \<Rightarrow> exn + string" where
  "encodeArbitrageRoute abi r = abi_params abi
     [AbiAddress (ar_buyRouter r), AbiAddress (ar_sellRouter r), AbiAddress (ar_tokenIn r), AbiAddress (ar_tokenOut r),
      AbiUint (ar_amountIn r), AbiUint (ar_minBuyOut r), AbiUint (ar_minSellOut r)]"

definition aavePoolAddress :: "string \<Rightarrow> exn + address" where
  "aavePoolAddress chain =
     (case getChainConfig chain of Some cc \<Rightarrow> Inr (cc_pool cc) | None \<Rightarrow> Inl (Exn ''TypeError: chain''))"

definition simulateCandidatePath ::
  "'w scanner_services \<Rightarrow> scanner_config \<Rightarrow> string \<Rightarrow> dex_config \<times> dex_config \<Rightarrow> token_pair \<Rightarrow> int \<Rightarrow> int \<Rightarrow> int \<Rightarrow> int \<Rightarrow>
   ('w, bool \<times> int) scan_io" where
  "simulateCandidatePath sv cfg chain route pair amountIn intermediate finalAmountOut gasPrice =
     (case (sc_flashLoanReceiverAddress cfg, sc_operatorAddress cfg) of
        (Some receiver, Some operator) \<Rightarrow>
          io_bind (io_lift (encodeArbitrageRoute (sv_abi sv)
              \<lparr>ar_buyRouter = dx_router (fst route), ar_sellRouter = dx_router (snd route), ar_tokenIn = tp_tokenIn pair,
               ar_tokenOut = tp_tokenOut pair, ar_amountIn = amountIn, ar_minBuyOut = intermediate, ar_minSellOut = finalAmountOut\<rparr>)) (\<lambda>encoded.
          io_bind (io_lift (abi_call (sv_abi sv) ''flashLoanSimple''
              [AbiAddress receiver, AbiAddress (tp_tokenIn pair), AbiUint amountIn, AbiBytes encoded, AbiUint 0])) (\<lambda>data.
          io_bind (io_lift (aavePoolAddress chain)) (\<lambda>pool.
            simulateFullFlashLoanArbPath (\<lambda>i. scall (sv_call sv i)) (map_option (\<lambda>f i. scall (f i)) (sv_estimateGas sv))
              \<lparr>si_to = pool, si_data = data, si_from = operator, si_gasPrice = gasPrice\<rparr>)))
      | _ \<Rightarrow> io_return (True, sc_flashLoanGasEstimate cfg))"

text \<open>Both quotes of a round trip, or nothing if one fails.\<close>

definition round_trip_quotes ::
  "'w scanner_services \<Rightarrow> dex_config \<times> dex_config \<Rightarrow> token_pair \<Rightarrow> int \<Rightarrow> ('w, (int \<times> int) option) scan_io" where
  "round_trip_quotes sv route pair amountIn =
     (let quote = (\<lambda>dex a b x. in_quotes (quoteAmountOut (sv_quotes sv) (sv_quoteConfig sv) dex a b x))
      in io_catch
        (io_bind (quote (fst route) (tp_tokenIn pair) (tp_tokenOut pair) amountIn) (\<lambda>intermediate.
           io_bind (quote (snd route) (tp_tokenOut pair) (tp_tokenIn pair) intermediate) (\<lambda>finalAmountOut.
             io_then (on_stats (\<lambda>st. st\<lparr>st_quotesSucceeded := st_quotesSucceeded st + 2\<rparr>))
               (io_return (Some (intermediate, finalAmountOut))))))
        (\<lambda>_. io_then (on_stats (\<lambda>st. st\<lparr>st_quotesFailed := st_quotesFailed st + 1\<rparr>)) (io_return None)))"

definition arb_ev_input_of :: "scanner_config \<Rightarrow> string \<Rightarrow> token_pair \<Rightarrow> int \<Rightarrow> int \<Rightarrow> int \<Rightarrow> int \<Rightarrow> arb_ev_input" where
  "arb_ev_input_of cfg chain pair amountIn finalAmountOut gasEstimate gasPrice =
     \<lparr>fe_amountIn = amountIn, fe_amountOutFinal = finalAmountOut, fe_flashFeeBps = sc_flashFeeBps cfg,
      fe_gasEstimate = gasEstimate, fe_gasPrice = gasPrice, fe_slippageBps = Some (sc_arbitrageSlippageBps cfg),
      fe_minProfitThreshold = Some (minProfitThresholdForPair cfg chain pair)\<rparr>"

text \<open>The check against exact dollar prices, when the scanner has a price cache.\<close>

definition below_exact_usd ::
  "'w scanner_services \<Rightarrow> scanner_config \<Rightarrow> string \<Rightarrow> token_pair \<Rightarrow> arb_ev_input \<Rightarrow> ('w, bool) scan_io" where
  "below_exact_usd sv cfg chain pair i =
     (case sv_batchGetUsdPrices sv of
        None \<Rightarrow> io_return False
      | Some batch \<Rightarrow>
          io_bind (calculateExactUsdEV (arb_ev_input.extend i (exact_usd_input.fields (tp_tokenIn pair) (tp_decimalsIn pair)
              (sc_nativeGasToken cfg chain) (Some (sc_nativeGasTokenDecimals cfg chain)) (Some (sc_exactUsdMinProfitRaw cfg))))
              (\<lambda>tokens. scall (batch tokens)))
            (\<lambda>exactUsd. io_return (xv_isPriceAvailable exactUsd \<and> \<not> xv_isProfitable exactUsd)))"

definition tokenAmount :: "token_pair \<Rightarrow> int \<Rightarrow> exn + asset_amount" where
  "tokenAmount pair raw = createAssetAmount \<lparr>as_symbol = tp_symbolIn pair, as_decimals = tp_decimalsIn pair\<rparr> raw"

text \<open>The fields of a candidate in the order of the literal; any of the conversions may throw.\<close>

definition arb_candidate ::
  "scanner_config \<Rightarrow> string \<Rightarrow> dex_config \<times> dex_config \<Rightarrow> token_pair \<Rightarrow> int \<Rightarrow> int \<Rightarrow> int \<Rightarrow> int \<Rightarrow> int \<Rightarrow> exn + arbitrage_opportunity" where
  "arb_candidate cfg chain route pair amountIn intermediate finalAmountOut gasEstimate now =
     (let revenueRaw = finalAmountOut - amountIn
      in case tokenAmount pair revenueRaw of Inl e \<Rightarrow> Inl e | Inr revenue \<Rightarrow>
        (case createAssetAmount usd_asset gasEstimate of Inl e \<Rightarrow> Inl e | Inr gas \<Rightarrow>
        (case bigint_of (sc_flashFeeBps cfg) of Inl e \<Rightarrow> Inl e | Inr feeBps \<Rightarrow>
        (case tokenAmount pair (bdiv (amountIn * feeBps) 10000) of Inl e \<Rightarrow> Inl e | Inr fee \<Rightarrow>
        (case bigint_of (sc_arbitrageSlippageBps cfg) of Inl e \<Rightarrow> Inl e | Inr slipBps \<Rightarrow>
        (case tokenAmount pair (bdiv (revenueRaw * slipBps) 10000) of Inl e \<Rightarrow> Inl e | Inr slippage \<Rightarrow>
        (case tokenAmount pair (bdiv (revenueRaw * 50) 10000) of Inl e \<Rightarrow> Inl e | Inr safety \<Rightarrow>
        (case tokenAmount pair amountIn of Inl e \<Rightarrow> Inl e | Inr capital \<Rightarrow>
          Inr \<lparr>ao_opportunityId = ''arb:'' @ signature_of chain route pair amountIn @ '':'' @ int_string now, ao_chain = chain,
            ab_buyDex = fst route, ab_sellDex = snd route, ab_tokenIn = tp_tokenIn pair, ab_tokenOut = tp_tokenOut pair,
            ab_amountIn = amountIn, ab_expectedIntermediateOut = intermediate, ab_expectedAmountOut = finalAmountOut,
            ab_expectedRevenue = revenue, ab_estimatedGas = gas, ab_flashLoanFee = fee, ab_slippageBuffer = slippage,
            ab_safetyBuffer = safety, ab_capitalAtRisk = capital, ab_provider = sc_defaultFlashLoanProvider cfg,
            ab_minimumMarginBps = sc_minProfitMarginBps cfg\<rparr>))))))))"

text \<open>What a probe that has passed the estimates leads to: nothing if its signature was seen in the window.\<close>

definition admit_candidate ::
  "'w scanner_services \<Rightarrow> scanner_config \<Rightarrow> string \<Rightarrow> dex_config \<times> dex_config \<Rightarrow> token_pair \<Rightarrow> int \<Rightarrow> int \<Rightarrow> int \<Rightarrow> int \<Rightarrow>
   ('w, arbitrage_opportunity option) scan_io" where
  "admit_candidate sv cfg chain route pair amountIn intermediate finalAmountOut gasEstimate =
     io_bind (scan_clock sv) (\<lambda>now.
       io_then (pruneDedupe cfg now)
         (io_bind (io_get (\<lambda>s. js_has (sn_dedupe s) (signature_of chain route pair amountIn))) (\<lambda>seen.
            if seen then io_then (recordSkip ''dedupe'') (io_return None)
            else io_then (io_modify (\<lambda>s. s\<lparr>sn_dedupe := js_set (signature_of chain route pair amountIn) now (sn_dedupe s)\<rparr>))
              (io_bind (io_lift (arb_candidate cfg chain route pair amountIn intermediate finalAmountOut gasEstimate now))
                (\<lambda>c. io_return (Some c))))))"

text \<open>The body of the loop over the probe amounts, from its simulation on and as a whole, and the loop
  with the best candidate so far.\<close>

definition probe_value ::
  "'w scanner_services \<Rightarrow> scanner_config \<Rightarrow> string \<Rightarrow> dex_config \<times> dex_config \<Rightarrow> token_pair \<Rightarrow> int \<Rightarrow> int \<Rightarrow> int \<Rightarrow> int \<Rightarrow>
   bool \<Rightarrow> int \<Rightarrow> ('w, arbitrage_opportunity option) scan_io" where
  "probe_value sv cfg chain route pair gasPrice amountIn intermediate finalAmountOut success gasUsed =
     (if \<not> success then io_then (recordSkip ''simulation_failed'') (io_return None)
      else let gasEstimate = (if 0 < gasUsed then gasUsed else sc_flashLoanGasEstimate cfg);
               i = arb_ev_input_of cfg chain pair amountIn finalAmountOut gasEstimate gasPrice
           in io_bind (io_lift (calculateFlashLoanArbitrageEV i)) (\<lambda>ev.
             if \<not> fv_isProfitable ev then io_then (recordSkip ''unprofitable_precheck'') (io_return None)
             else io_bind (below_exact_usd sv cfg chain pair i) (\<lambda>below.
               if below then io_then (recordSkip ''below_exact_usd'') (io_return None)
               else admit_candidate sv cfg chain route pair amountIn intermediate finalAmountOut gasEstimate)))"

definition check_probe ::
  "'w scanner_services \<Rightarrow> scanner_config \<Rightarrow> string \<Rightarrow> dex_config \<times> dex_config \<Rightarrow> token_pair \<Rightarrow> int \<Rightarrow> int \<Rightarrow> ('w, arbitrage_opportunity option) scan_io" where
  "check_probe sv cfg chain route pair gasPrice amountIn =
     io_bind (round_trip_quotes sv route pair amountIn) (\<lambda>quotes.
       case quotes of
         None \<Rightarrow> io_return None
       | Some (intermediate, finalAmountOut) \<Rightarrow>
           if finalAmountOut \<le> amountIn then io_then (recordSkip ''unprofitable_precheck'') (io_return None)
           else io_bind (simulateCandidatePath sv cfg chain route pair amountIn intermediate finalAmountOut gasPrice)
             (\<lambda>(success, gasUsed). probe_value sv cfg chain route pair gasPrice amountIn intermediate finalAmountOut success gasUsed))"

definition better_opportunity :: "arbitrage_opportunity option \<Rightarrow> arbitrage_opportunity option \<Rightarrow> arbitrage_opportunity option" where
  "better_opportunity best candidate =
     (case (best, candidate) of
        (b, None) \<Rightarrow> b
      | (None, Some c) \<Rightarrow> Some c
      | (Some b, Some c) \<Rightarrow> if am_raw (ab_expectedRevenue b) < am_raw (ab_expectedRevenue c) then Some c else Some b)"

fun check_probes ::
  "'w scanner_services \<Rightarrow> scanner_config \<Rightarrow> string \<Rightarrow> dex_config \<times> dex_config \<Rightarrow> token_pair \<Rightarrow> int \<Rightarrow> int list \<Rightarrow> arbitrage_opportunity option \<Rightarrow>
   ('w, arbitrage_opportunity option) scan_io" where
  "check_probes sv cfg chain route pair gasPrice [] best = io_return best"
| "check_probes sv cfg chain route pair gasPrice (a # as) best =
     io_bind (check_probe sv cfg chain route pair gasPrice a) (\<lambda>candidate.
       check_probes sv cfg chain route pair gasPrice as (better_opportunity best candidate))"

definition checkSingleDirection ::
  "'w scanner_services \<Rightarrow> scanner_config \<Rightarrow> string \<Rightarrow> dex_config \<times> dex_config \<Rightarrow> token_pair \<Rightarrow> int \<Rightarrow> ('w, arbitrage_opportunity option) scan_io" where
  "checkSingleDirection sv cfg chain route pair gasPrice =
     io_then (on_stats (\<lambda>st. st\<lparr>st_routesAttempted := st_routesAttempted st + 1\<rparr>))
       (io_catch (check_probes sv cfg chain route pair gasPrice (probeAmountsIn sv cfg chain pair True) None)
         (\<lambda>_. io_then (on_stats (\<lambda>st. st\<lparr>st_quotesFailed := st_quotesFailed st + 1\<rparr>)) (io_return None)))"

definition evaluation_input :: "arbitrage_opportunity \<Rightarrow> exn + profit_simulation_input" where
  "evaluation_input opp =
     (case traverse (createAssetAmount usd_asset) [am_raw (ab_expectedRevenue opp), am_raw (ab_capitalAtRisk opp),
         am_raw (ab_flashLoanFee opp), 0, am_raw (ab_slippageBuffer opp), am_raw (ab_safetyBuffer opp)] of
        Inl e \<Rightarrow> Inl e
      | Inr a \<Rightarrow> Inr \<lparr>ri_chain = ao_chain opp, ri_opportunityId = ao_opportunityId opp, ri_revenue = a ! 0, ri_debt = a ! 1,
          ri_gas = ab_estimatedGas opp, ri_swapCost = a ! 3, ri_slippageBuffer = a ! 4, ri_safetyBuffer = a ! 5,
          ri_capitalAtRisk = a ! 1, ri_minimumMarginBps = ab_minimumMarginBps opp, ps_provider = ab_provider opp,
          ps_flashLoanFee = a ! 2\<rparr>)"

definition evaluateOpportunity :: "'w scanner_services \<Rightarrow> arbitrage_opportunity \<Rightarrow> ('w, profit_result) scan_io" where
  "evaluateOpportunity sv opp =
     io_then (on_stats (\<lambda>st. st\<lparr>st_evaluations := st_evaluations st + 1\<rparr>))
       (io_bind (io_lift (evaluation_input opp)) (\<lambda>i.
          io_bind (io_lift (evaluate (sv_registry sv) (sv_simulate sv) i)) (\<lambda>result.
            case result of
              Approved _ _ _ \<Rightarrow> io_then (io_modify (\<lambda>s. s\<lparr>sn_sink := sn_sink s @ [opp]\<rparr>)) (io_return result)
            | _ \<Rightarrow> io_return result)))"

text \<open>The workers share a queue: none of them, no item.\<close>

definition runBounded :: "scanner_config \<Rightarrow> 'a list \<Rightarrow> ('a \<Rightarrow> ('s, 'b) io) \<Rightarrow> ('s, 'b list) io" where
  "runBounded cfg items worker =
     (if min (sc_quoteConcurrency cfg) (int (length items)) \<le> 0 then io_return [] else io_map worker items)"

definition check_route ::
  "'w scanner_services \<Rightarrow> scanner_config \<Rightarrow> string \<Rightarrow> int \<Rightarrow> token_pair \<times> dex_config \<times> dex_config \<Rightarrow> ('w, nat) scan_io" where
  "check_route sv cfg chain gasPrice item =
     io_bind (checkSingleDirection sv cfg chain (snd item) (fst item) gasPrice) (\<lambda>attempt.
       case attempt of
         None \<Rightarrow> io_return 0
       | Some opp \<Rightarrow> io_bind (evaluateOpportunity sv opp) (\<lambda>result.
           case result of Approved _ _ _ \<Rightarrow> io_return 1 | _ \<Rightarrow> io_return 0))"

fun dex_pairs :: "dex_config list \<Rightarrow> (dex_config \<times> dex_config) list" where
  "dex_pairs [] = []"
| "dex_pairs (d # ds) = concat (map (\<lambda>e. [buySell d (Some e), buySell e (Some d)]) ds) @ dex_pairs ds"

definition route_checks :: "dex_config list \<Rightarrow> token_pair list \<Rightarrow> (token_pair \<times> dex_config \<times> dex_config) list" where
  "route_checks dexes pairs =
     (case dexes of
        [d] \<Rightarrow> map (\<lambda>p. (p, buySell d None)) pairs
      | _ \<Rightarrow> concat (map (\<lambda>p. map (Pair p) (dex_pairs dexes)) pairs))"

text \<open>The number of approved opportunities, which the scan reports to the metrics.\<close>

definition pollChain :: "'w scanner_services \<Rightarrow> scanner_config \<Rightarrow> string \<Rightarrow> ('w, nat) scan_io" where
  "pollChain sv cfg chain =
     io_then (on_stats (\<lambda>_. createEmptyQuoteCycleStats))
       (if length (sv_dexes sv chain) < 1 \<or> sv_pairs sv chain = [] then io_return 0
        else io_bind (resolveGasPrice sv chain) (\<lambda>gasPrice.
          io_bind (runBounded cfg (route_checks (sv_dexes sv chain) (sv_pairs sv chain)) (check_route sv cfg chain gasPrice))
            (\<lambda>results. io_return (sum_list results))))"

definition scanner_stop :: "'w scanner_state \<Rightarrow> 'w scanner_state" where
  "scanner_stop s = s\<lparr>sn_dedupe := []\<rparr>"

section \<open>The request\<close>

record arb_adapter_config =
  aa_receiverAddress :: address
  aa_operatorAddress :: address
  aa_referralCode :: "int option"
  aa_gasProfileKey :: "string option"

definition minAmountOut :: "int \<Rightarrow> rat \<Rightarrow> exn + int" where
  "minAmountOut expectedOut minimumMarginBps =
     (case bigint_of (min (max minimumMarginBps 0) 9500) of
        Inl e \<Rightarrow> Inl e
      | Inr b \<Rightarrow> Inr (bdiv (expectedOut * (10000 - b)) 10000))"

definition arb_route_of :: "arbitrage_opportunity \<Rightarrow> int \<Rightarrow> arb_route" where
  "arb_route_of opp minSellOut =
     \<lparr>ar_buyRouter = dx_router (ab_buyDex opp), ar_sellRouter = dx_router (ab_sellDex opp), ar_tokenIn = ab_tokenIn opp,
      ar_tokenOut = ab_tokenOut opp, ar_amountIn = ab_amountIn opp, ar_minBuyOut = ab_expectedIntermediateOut opp,
      ar_minSellOut = minSellOut\<rparr>"

definition arb_transaction :: "abi_codec \<Rightarrow> arbitrage_opportunity \<Rightarrow> arb_adapter_config \<Rightarrow> string \<Rightarrow> route_result \<Rightarrow> exn + transaction" where
  "arb_transaction abi opp cfg encodedParams route =
     (case aavePoolAddress (ao_chain opp) of
        Inl e \<Rightarrow> Inl e
      | Inr pool \<Rightarrow> map_sum id (\<lambda>d. \<lparr>tx_to = pool, tx_data = d, tx_provider = route_provider route\<rparr>)
          (abi_call abi ''flashLoanSimple'' [AbiAddress (aa_receiverAddress cfg), AbiAddress (ab_tokenIn opp),
             AbiUint (ab_amountIn opp), AbiBytes encodedParams, AbiUint (or_else (aa_referralCode cfg) 0)]))"

definition arb_route_input :: "arbitrage_opportunity \<Rightarrow> exn + route_selection_input" where
  "arb_route_input opp =
     (case traverse (createAssetAmount usd_asset) [am_raw (ab_expectedRevenue opp), am_raw (ab_capitalAtRisk opp), 0,
         am_raw (ab_slippageBuffer opp), am_raw (ab_safetyBuffer opp)] of
        Inl e \<Rightarrow> Inl e
      | Inr a \<Rightarrow> Inr \<lparr>ri_chain = ao_chain opp, ri_opportunityId = ao_opportunityId opp, ri_revenue = a ! 0, ri_debt = a ! 1,
          ri_gas = ab_estimatedGas opp, ri_swapCost = a ! 2, ri_slippageBuffer = a ! 3, ri_safetyBuffer = a ! 4,
          ri_capitalAtRisk = a ! 1, ri_minimumMarginBps = ab_minimumMarginBps opp\<rparr>)"

definition buildArbitrageExecutionRequest :: "abi_codec \<Rightarrow> arbitrage_opportunity \<Rightarrow> arb_adapter_config \<Rightarrow> exn + exec_request" where
  "buildArbitrageExecutionRequest abi opp cfg =
     (case minAmountOut (ab_expectedAmountOut opp) (ab_minimumMarginBps opp) of
        Inl e \<Rightarrow> Inl e
      | Inr minSellOut \<Rightarrow>
     (case encodeArbitrageRoute abi (arb_route_of opp minSellOut) of
        Inl e \<Rightarrow> Inl e
      | Inr encodedParams \<Rightarrow>
     (case arb_route_input opp of
        Inl e \<Rightarrow> Inl e
      | Inr routeInput \<Rightarrow>
          Inr \<lparr>rq_chain = ao_chain opp, rq_account = aa_operatorAddress cfg, rq_opportunityId = ao_opportunityId opp,
            rq_gasProfileKey = or_else (aa_gasProfileKey cfg) ''arb:flashLoanSimple'', rq_routeInput = routeInput,
            rq_gasLimitHint = None, rq_buildTransaction = arb_transaction abi opp cfg encodedParams, rq_buildPreview = None\<rparr>)))"

end
