(* ===== verification/Arbitrage_Safety.thy ===== *)
theory Arbitrage_Safety
  imports Arbitrage
begin

text \<open>
  What the arbitrage scanner guarantees: the conditions every opportunity it finds has met, the
  window in which a signature is not found again, and what the engine answers to what it finds.
\<close>

section \<open>Opportunities of a direction\<close>

text \<open>The raw profit of the expected value, as the scanner computes it for a probe.\<close>

definition ev_raw_profit :: "scanner_config \<Rightarrow> int \<Rightarrow> int \<Rightarrow> int \<Rightarrow> int \<Rightarrow> int" where
  "ev_raw_profit cfg amountIn amountOut gas gasPrice =
     amountOut - amountIn - bdiv (amountIn * js_trunc (sc_flashFeeBps cfg)) BPS - gas * gasPrice
       - bdiv (amountOut * js_trunc (sc_arbitrageSlippageBps cfg)) BPS"

definition amounts_ok :: "token_pair \<Rightarrow> arbitrage_opportunity \<Rightarrow> bool" where
  "amounts_ok pair opp \<longleftrightarrow>
     (\<forall>a \<in> {ab_expectedRevenue opp, ab_flashLoanFee opp, ab_slippageBuffer opp, ab_safetyBuffer opp, ab_capitalAtRisk opp}.
        amount_ok a \<and> am_asset a = \<lparr>as_symbol = tp_symbolIn pair, as_decimals = tp_decimalsIn pair\<rparr>) \<and>
     amount_ok (ab_estimatedGas opp) \<and> am_asset (ab_estimatedGas opp) = usd_asset \<and>
     am_raw (ab_expectedRevenue opp) = ab_expectedAmountOut opp - ab_amountIn opp \<and>
     am_raw (ab_capitalAtRisk opp) = ab_amountIn opp"

definition opportunity_ok :: "scanner_config \<Rightarrow> string \<Rightarrow> token_pair \<Rightarrow> int \<Rightarrow> int \<Rightarrow> arbitrage_opportunity \<Rightarrow> bool" where
  "opportunity_ok cfg chain pair gasPrice amountIn opp \<longleftrightarrow>
     amounts_ok pair opp \<and> ab_amountIn opp = amountIn \<and> ao_chain opp = chain \<and>
     amountIn < ab_expectedAmountOut opp \<and> ab_minimumMarginBps opp = sc_minProfitMarginBps cfg \<and>
     minProfitThresholdForPair cfg chain pair
       \<le> ev_raw_profit cfg amountIn (ab_expectedAmountOut opp) (am_raw (ab_estimatedGas opp)) gasPrice"

lemma arb_candidate_fields:
  assumes "arb_candidate cfg chain route pair amountIn intermediate out gas now = Inr opp"
  shows "amounts_ok pair opp \<and> ab_amountIn opp = amountIn \<and> ab_expectedAmountOut opp = out \<and> ao_chain opp = chain \<and>
    am_raw (ab_estimatedGas opp) = gas \<and> ab_minimumMarginBps opp = sc_minProfitMarginBps cfg"
  using assms by (auto simp: arb_candidate_def tokenAmount_def Let_def createAssetAmount_Inr_iff amounts_ok_def amount_ok_def
      arb_opportunity.defs split: sum.splits)

lemma admit_candidate_Some:
  assumes "admit_candidate sv cfg chain route pair amountIn intermediate out gas s = (Inr (Some opp), s')"
  shows "\<exists>now. arb_candidate cfg chain route pair amountIn intermediate out gas now = Inr opp"
  using assms
  by (auto simp: admit_candidate_def io_bind_Inr io_then_Inr io_return_def io_lift_def split: if_splits)

lemma arbitrage_ev_Inr:
  assumes "calculateFlashLoanArbitrageEV i = Inr v"
  shows "fv_isProfitable v \<longleftrightarrow>
      (case fe_minProfitThreshold i of Some t \<Rightarrow> t | None \<Rightarrow> MIN_PROFIT_THRESHOLD_WEI) \<le> fv_rawProfitWei v"
    and "fv_rawProfitWei v = fe_amountOutFinal i - fe_amountIn i - bdiv (fe_amountIn i * js_trunc (fe_flashFeeBps i)) BPS
      - fe_gasEstimate i * fe_gasPrice i - bdiv (fe_amountOutFinal i *
          js_trunc (case fe_slippageBps i of Some b \<Rightarrow> b | None \<Rightarrow> of_int defaultSlippageBufferBps)) BPS"
  using assms by (auto simp: calculateFlashLoanArbitrageEV_def Let_def split: sum.splits)

lemma probe_value_Some:
  assumes "probe_value sv cfg chain route pair gasPrice amountIn intermediate out success gasUsed s = (Inr (Some opp), s')"
  obtains gas ev s1 where
    "calculateFlashLoanArbitrageEV (arb_ev_input_of cfg chain pair amountIn out gas gasPrice) = Inr ev" "fv_isProfitable ev"
    "admit_candidate sv cfg chain route pair amountIn intermediate out gas s1 = (Inr (Some opp), s')"
proof -
  define gas where "gas = (if 0 < gasUsed then gasUsed else sc_flashLoanGasEstimate cfg)"
  show thesis
    using assms that [of gas] unfolding probe_value_def gas_def [symmetric] Let_def
    by (auto simp: io_bind_Inr io_then_Inr io_return_def io_lift_def split: if_splits)
qed

lemma check_probe_Some:
  assumes "check_probe sv cfg chain route pair gasPrice amountIn s = (Inr (Some opp), s')"
  shows "opportunity_ok cfg chain pair gasPrice amountIn opp"
proof -
  obtain q s1 where q: "(case q of None \<Rightarrow> io_return None | Some (intermediate, out) \<Rightarrow>
      if out \<le> amountIn then io_then (recordSkip ''unprofitable_precheck'') (io_return None)
      else io_bind (simulateCandidatePath sv cfg chain route pair amountIn intermediate out gasPrice) (\<lambda>(success, gasUsed).
        probe_value sv cfg chain route pair gasPrice amountIn intermediate out success gasUsed)) s1 = (Inr (Some opp), s')"
    using assms unfolding check_probe_def io_bind_Inr by blast
  then obtain intermediate out where out: "\<not> out \<le> amountIn" and
      "io_bind (simulateCandidatePath sv cfg chain route pair amountIn intermediate out gasPrice) (\<lambda>(success, gasUsed).
        probe_value sv cfg chain route pair gasPrice amountIn intermediate out success gasUsed) s1 = (Inr (Some opp), s')"
    by (cases q) (auto simp: io_return_def io_then_Inr split: if_splits)
  then obtain success gasUsed s2 where
      "probe_value sv cfg chain route pair gasPrice amountIn intermediate out success gasUsed s2 = (Inr (Some opp), s')"
    by (auto simp: io_bind_Inr)
  then obtain gas ev s3 where
      ev: "calculateFlashLoanArbitrageEV (arb_ev_input_of cfg chain pair amountIn out gas gasPrice) = Inr ev" "fv_isProfitable ev"
      and admit: "admit_candidate sv cfg chain route pair amountIn intermediate out gas s3 = (Inr (Some opp), s')"
    by (rule probe_value_Some)
  obtain now where "arb_candidate cfg chain route pair amountIn intermediate out gas now = Inr opp"
    using admit_candidate_Some [OF admit] ..
  from arb_candidate_fields [OF this] show ?thesis
    using out ev(2) arbitrage_ev_Inr [OF ev(1)]
    by (simp add: opportunity_ok_def ev_raw_profit_def arb_ev_input_of_def)
qed

text \<open>The loop keeps the better of what it has and what a probe gives.\<close>

definition from_probes :: "scanner_config \<Rightarrow> string \<Rightarrow> token_pair \<Rightarrow> int \<Rightarrow> int set \<Rightarrow> arbitrage_opportunity option \<Rightarrow> bool" where
  "from_probes cfg chain pair gasPrice A r \<longleftrightarrow>
     (\<forall>opp. r = Some opp \<longrightarrow> (\<exists>a \<in> A. opportunity_ok cfg chain pair gasPrice a opp))"

lemma better_opportunity_cases:
  "better_opportunity b c = b \<or> better_opportunity b c = c"
  by (auto simp: better_opportunity_def split: option.splits)

lemma check_probes_from:
  assumes "check_probes sv cfg chain route pair gasPrice as best s = (Inr r, s')"
    and "from_probes cfg chain pair gasPrice A best" and "set as \<subseteq> A"
  shows "from_probes cfg chain pair gasPrice A r"
  using assms
proof (induction as arbitrary: best s)
  case Nil
  then show ?case by (simp add: io_return_def)
next
  case (Cons a as)
  from Cons.prems(1) obtain c s1 where probe: "check_probe sv cfg chain route pair gasPrice a s = (Inr c, s1)"
    and rest: "check_probes sv cfg chain route pair gasPrice as (better_opportunity best c) s1 = (Inr r, s')"
    by (auto simp: io_bind_Inr)
  have "from_probes cfg chain pair gasPrice A c"
    using probe Cons.prems(3) by (auto simp: from_probes_def intro!: bexI [of _ a] dest: check_probe_Some)
  then have "from_probes cfg chain pair gasPrice A (better_opportunity best c)"
    using better_opportunity_cases [of best c] Cons.prems(2) by auto
  from Cons.IH [OF rest this] Cons.prems(3) show ?case by simp
qed

lemma check_direction_Some:
  assumes "checkSingleDirection sv cfg chain route pair gasPrice s = (Inr (Some opp), s')"
  shows "\<exists>a \<in> set (probeAmountsIn sv cfg chain pair True). opportunity_ok cfg chain pair gasPrice a opp"
proof -
  obtain s0 where "check_probes sv cfg chain route pair gasPrice (probeAmountsIn sv cfg chain pair True) None s0 = (Inr (Some opp), s')"
    using assms by (auto simp: checkSingleDirection_def io_then_Inr io_catch_def on_stats_def io_modify_def io_return_def
        io_bind_def io_then_def split: prod.splits sum.splits)
  from check_probes_from [OF this, of "set (probeAmountsIn sv cfg chain pair True)"] show ?thesis
    by (simp add: from_probes_def)
qed

section \<open>What the engine answers\<close>

lemma usd_of_nonneg: "0 \<le> n \<Longrightarrow> createAssetAmount usd_asset n = Inr \<lparr>am_asset = usd_asset, am_raw = n\<rparr>"
  by (simp add: createAssetAmount_Inr_iff createAsset_def usd_asset_def)

lemma evaluation_input_of:
  assumes "amounts_ok pair opp"
  defines "usd \<equiv> \<lambda>n. \<lparr>am_asset = usd_asset, am_raw = n\<rparr>"
  shows "evaluation_input opp = Inr \<lparr>ri_chain = ao_chain opp, ri_opportunityId = ao_opportunityId opp,
    ri_revenue = usd (am_raw (ab_expectedRevenue opp)), ri_debt = usd (ab_amountIn opp), ri_gas = ab_estimatedGas opp,
    ri_swapCost = usd 0, ri_slippageBuffer = usd (am_raw (ab_slippageBuffer opp)), ri_safetyBuffer = usd (am_raw (ab_safetyBuffer opp)),
    ri_capitalAtRisk = usd (ab_amountIn opp), ri_minimumMarginBps = ab_minimumMarginBps opp, ps_provider = ab_provider opp,
    ps_flashLoanFee = usd (am_raw (ab_flashLoanFee opp))\<rparr>"
  using assms(1)
  by (simp add: evaluation_input_def amounts_ok_def amount_ok_def usd_of_nonneg usd_def)

lemma loss_rejected:
  assumes "amounts_ok pair opp" and "ab_expectedAmountOut opp \<le> 2 * ab_amountIn opp"
    and "ab_minimumMarginBps opp = of_int margin" and "1 \<le> margin"
    and "registry_get (sv_registry sv) (ao_chain opp) = Inr rc" and "evaluation_input opp = Inr i"
  shows "\<exists>m. evaluate (sv_registry sv) simulate i =
    Inr (Rejected (ab_provider opp) BelowMinProfitMargin \<lparr>am_asset = usd_asset, am_raw = 0\<rparr> m)"
proof -
  have usd: "amount_ok \<lparr>am_asset = usd_asset, am_raw = n\<rparr> \<longleftrightarrow> 0 \<le> n" for n
    by (simp add: amount_ok_def createAsset_def usd_asset_def)
  have i: "i = \<lparr>ri_chain = ao_chain opp, ri_opportunityId = ao_opportunityId opp,
    ri_revenue = \<lparr>am_asset = usd_asset, am_raw = am_raw (ab_expectedRevenue opp)\<rparr>,
    ri_debt = \<lparr>am_asset = usd_asset, am_raw = ab_amountIn opp\<rparr>, ri_gas = ab_estimatedGas opp,
    ri_swapCost = \<lparr>am_asset = usd_asset, am_raw = 0\<rparr>, ri_slippageBuffer = \<lparr>am_asset = usd_asset, am_raw = am_raw (ab_slippageBuffer opp)\<rparr>,
    ri_safetyBuffer = \<lparr>am_asset = usd_asset, am_raw = am_raw (ab_safetyBuffer opp)\<rparr>,
    ri_capitalAtRisk = \<lparr>am_asset = usd_asset, am_raw = ab_amountIn opp\<rparr>, ri_minimumMarginBps = ab_minimumMarginBps opp,
    ps_provider = ab_provider opp, ps_flashLoanFee = \<lparr>am_asset = usd_asset, am_raw = am_raw (ab_flashLoanFee opp)\<rparr>\<rparr>"
    using evaluation_input_of [OF assms(1)] assms(6) by simp
  have reg: "registry_get (sv_registry sv) (ri_chain i) = Inr rc" using assms(5) by (simp only: i route_selection_input.simps)
  have nonneg: "0 \<le> am_raw (ab_expectedRevenue opp)" "0 \<le> am_raw (ab_flashLoanFee opp)" "0 \<le> am_raw (ab_slippageBuffer opp)"
    "0 \<le> am_raw (ab_safetyBuffer opp)" "0 \<le> ab_amountIn opp" "amount_ok (ab_estimatedGas opp)" "am_asset (ab_estimatedGas opp) = usd_asset"
    "0 \<le> am_raw (ab_estimatedGas opp)" "am_raw (ab_expectedRevenue opp) \<le> ab_amountIn opp"
    using assms(1,2) by (auto simp: amounts_ok_def amount_ok_def)
  have ok: "input_ok i" "\<forall>a \<in> set (np_costs (net_profit_of i)). am_asset a = am_asset (ri_revenue i)"
    using nonneg by (simp_all add: input_ok_def np_costs_def net_profit_of_def i usd)
  moreover have "am_raw (ri_revenue i) \<le> total_cost i"
    using nonneg by (simp add: total_cost_def np_costs_def net_profit_of_def i)
  moreover have "am_asset (ri_capitalAtRisk i) = am_asset (ri_revenue i)" "ri_minimumMarginBps i = of_int margin"
    "0 \<le> am_raw (ri_capitalAtRisk i)"
    using assms(3) nonneg by (simp_all add: i)
  ultimately obtain m where "evaluate (sv_registry sv) simulate i =
      Inr (Rejected (ps_provider i) BelowMinProfitMargin \<lparr>am_asset = am_asset (ri_revenue i), am_raw = 0\<rparr> m)"
    using evaluate_rejects_loss [OF reg ok(1)] assms(4) by fastforce
  then show ?thesis by (auto simp: i)
qed

section \<open>Properties\<close>

text \<open>What the scanner returns for a direction is worth trying by its own estimate: the amount is one
  of the probes, the round trip returns more than it takes, and after flash fee, gas and slippage the
  raw profit reaches the threshold of the pair on that chain. The revenue is the profit of the round
  trip, the capital at risk its input.\<close>

theorem arbitrage_opportunity_sound:
  assumes "checkSingleDirection sv cfg chain route pair gasPrice s = (Inr (Some opp), s')"
  shows "ab_amountIn opp \<in> set (probeAmountsIn sv cfg chain pair True) \<and> ab_amountIn opp < ab_expectedAmountOut opp \<and>
    minProfitThresholdForPair cfg chain pair \<le>
      ab_expectedAmountOut opp - ab_amountIn opp - bdiv (ab_amountIn opp * js_trunc (sc_flashFeeBps cfg)) BPS
        - am_raw (ab_estimatedGas opp) * gasPrice
        - bdiv (ab_expectedAmountOut opp * js_trunc (sc_arbitrageSlippageBps cfg)) BPS \<and>
    am_raw (ab_expectedRevenue opp) = ab_expectedAmountOut opp - ab_amountIn opp \<and>
    am_raw (ab_capitalAtRisk opp) = ab_amountIn opp \<and>
    ao_chain opp = chain \<and> ab_minimumMarginBps opp = sc_minProfitMarginBps cfg"
  using check_direction_Some [OF assms] by (auto simp: opportunity_ok_def amounts_ok_def ev_raw_profit_def)

text \<open>C16. An opportunity of the scanner that does not double its input is never approved. The scanner
  passes the profit of the round trip as the revenue and its input as the debt, so the engine takes the
  principal off once more: whatever the simulator answers, the evaluation is a rejection and nothing
  reaches the opportunity sink.\<close>

theorem arbitrage_always_rejected:
  assumes "checkSingleDirection sv cfg chain route pair gasPrice s = (Inr (Some opp), s')"
    and "ab_expectedAmountOut opp \<le> 2 * ab_amountIn opp"
    and "sc_minProfitMarginBps cfg = of_int margin" and "1 \<le> margin"
    and "registry_get (sv_registry sv) chain = Inr rc"
  shows "\<exists>m. fst (evaluateOpportunity sv opp t) =
      Inr (Rejected (ab_provider opp) BelowMinProfitMargin \<lparr>am_asset = usd_asset, am_raw = 0\<rparr> m) \<and>
    sn_sink (snd (evaluateOpportunity sv opp t)) = sn_sink t"
proof -
  from check_direction_Some [OF assms(1)] have opp: "amounts_ok pair opp" "ao_chain opp = chain"
      "ab_minimumMarginBps opp = of_int margin"
    using assms(3) by (auto simp: opportunity_ok_def)
  obtain i where i: "evaluation_input opp = Inr i" using evaluation_input_of [OF opp(1)] by blast
  have "registry_get (sv_registry sv) (ao_chain opp) = Inr rc" using assms(5) by (simp only: opp(2))
  from loss_rejected [OF opp(1) assms(2) opp(3) assms(4) this i] obtain m where
    "evaluate (sv_registry sv) (sv_simulate sv) i =
      Inr (Rejected (ab_provider opp) BelowMinProfitMargin \<lparr>am_asset = usd_asset, am_raw = 0\<rparr> m)" ..
  then have "evaluateOpportunity sv opp t =
      (Inr (Rejected (ab_provider opp) BelowMinProfitMargin \<lparr>am_asset = usd_asset, am_raw = 0\<rparr> m),
       t\<lparr>sn_stats := sn_stats t\<lparr>st_evaluations := st_evaluations (sn_stats t) + 1\<rparr>\<rparr>)"
    by (simp add: evaluateOpportunity_def io_then_def io_bind_def on_stats_def io_modify_def io_lift_def io_return_def i)
  then show ?thesis by simp
qed

text \<open>The window of the duplicates: a candidate is admitted only if its signature was not recorded
  within \<open>dedupeWindowMs\<close> before, and admitting it records the signature with the time.\<close>

theorem dedupe_window_respected:
  assumes "admit_candidate sv cfg chain route pair amountIn intermediate out gas s = (Inr (Some opp), s')"
    and "scan_clock sv s = (Inr now, s1)"
  shows "(\<forall>t. js_get (sn_dedupe s) (signature_of chain route pair amountIn) = Some t \<longrightarrow>
      t < now - sc_dedupeWindowMs cfg) \<and>
    js_get (sn_dedupe s') (signature_of chain route pair amountIn) = Some now"
proof -
  let ?sig = "signature_of chain route pair amountIn"
  have same: "sn_dedupe s1 = sn_dedupe s"
    using assms(2) by (auto simp: scan_clock_def scall_def in_quotes_def split: prod.splits)
  have "\<not> js_has (filter (\<lambda>e. \<not> snd e < now - sc_dedupeWindowMs cfg) (sn_dedupe s)) ?sig"
    and "js_get (sn_dedupe s') ?sig = Some now"
    using assms(1) unfolding admit_candidate_def pruneDedupe_def io_bind_Inr io_then_Inr assms(2)
    by (auto simp: io_simps io_bind_Inr io_then_Inr same split: if_splits)
  moreover have "t < now - sc_dedupeWindowMs cfg" if "js_get (sn_dedupe s) ?sig = Some t" for t
    using js_get_SomeD [OF that] calculation(1) by (force simp: js_has_iff js_get_None_iff js_keys_def)
  ultimately show ?thesis by blast
qed

text \<open>A configured concurrency of zero or less switches the scanner off: the constructor clamps the
  value to one, but the spread of the options puts the given one back, and without workers no route
  is checked, whatever the services do.\<close>

theorem zero_concurrency_scans_nothing:
  assumes "so_quoteConcurrency opts = Some n" and "n \<le> 0"
  shows "fst (pollChain sv (scanner_config_of opts) chain s) = Inr 0 \<and>
    sn_stats (snd (pollChain sv (scanner_config_of opts) chain s)) = createEmptyQuoteCycleStats \<and>
    sn_sink (snd (pollChain sv (scanner_config_of opts) chain s)) = sn_sink s"
proof -
  have bounded: "runBounded (scanner_config_of opts) items worker = io_return []" for items and worker :: "'b \<Rightarrow> ('a scanner_state, nat) io"
    using assms by (simp add: runBounded_def scanner_config_of_def or_else_def)
  have gas: "\<exists>g q. resolveGasPrice sv chain t = (Inr g, t\<lparr>sn_quotes := q\<rparr>)" for t
    by (auto simp: resolveGasPrice_def io_catch_def scall_def in_quotes_def io_return_def split: prod.splits sum.splits)
  define t where "t = s\<lparr>sn_stats := createEmptyQuoteCycleStats\<rparr>"
  obtain g q where g: "resolveGasPrice sv chain t = (Inr g, t\<lparr>sn_quotes := q\<rparr>)" using gas by blast
  have start: "on_stats (\<lambda>_. createEmptyQuoteCycleStats) s = (Inr (), t)" by (simp add: on_stats_def io_modify_def t_def)
  have "pollChain sv (scanner_config_of opts) chain s = (Inr 0, t) \<or> pollChain sv (scanner_config_of opts) chain s = (Inr 0, t\<lparr>sn_quotes := q\<rparr>)"
    by (simp add: pollChain_def io_then_def io_bind_def start bounded g io_return_def)
  then show ?thesis by (auto simp: t_def)
qed

section \<open>Witnesses\<close>

text \<open>A stable pair on Base whose quotes gain one percent on each leg, with the default configuration but
  for the probes: one of 500,000 dollars.\<close>

definition gaining_quotes :: "unit quote_services" where
  "gaining_quotes = \<lparr>qv_quoter = (\<lambda>q a b x f. io_throw (Exn ''no quoter'')),
     qv_getAmountsOut = (\<lambda>r x a b. io_return [x, bdiv (x * 101) 100]), qv_chainHead = None\<rparr>"

definition sample_scanner :: "unit scanner_services" where
  "sample_scanner = \<lparr>sv_quotes = gaining_quotes, sv_quoteConfig = \<lparr>qc_useLocalMirror = False, qc_startBlock = None\<rparr>,
     sv_abi = sample_abi, sv_parseUnits = (\<lambda>x d. x * 10 ^ nat d), sv_registry = base_registry, sv_simulate = faithful_call,
     sv_getGasPrice = (\<lambda>c. io_return 1000), sv_call = (\<lambda>i. io_return ()), sv_estimateGas = None, sv_batchGetUsdPrices = None,
     sv_now = (\<lambda>w. (1000000, w)), sv_dexes = (\<lambda>c. [sample_dex]),
     sv_pairs = (\<lambda>c. [\<lparr>tp_tokenIn = ''0xA'', tp_tokenOut = ''0xB'', tp_symbolIn = ''USDC'', tp_symbolOut = ''USDbC'',
       tp_decimalsIn = 6, tp_decimalsOut = 6\<rparr>])\<rparr>"

definition sample_options :: scanner_options where
  "sample_options = \<lparr>so_minProfitMarginBps = None, so_stablePairProbeSize = None, so_volatilePairProbeSize = None,
     so_dedupeWindowMs = None, so_baseStableProbeSizes = Some [], so_baseStableExpandedProbeSize = None,
     so_flashLoanGasEstimate = None, so_flashFeeBps = None, so_baseMinProfitThreshold = None, so_arbitrageSlippageBps = None,
     so_exactUsdMinProfitRaw = None, so_quoteConcurrency = None, so_nativeGasToken = None, so_nativeGasTokenDecimals = None,
     so_defaultFlashLoanProvider = AaveV3, so_flashLoanReceiverAddress = None, so_operatorAddress = None\<rparr>"

definition sample_scan :: "unit scanner_state" where
  "sample_scan = \<lparr>sn_quotes = \<lparr>qs_world = (), qs_mirror = Some mirror_new, qs_resolvedStartBlock = None\<rparr>, sn_dedupe = [],
     sn_stats = createEmptyQuoteCycleStats, sn_sink = []\<rparr>"

definition sample_pair :: token_pair where
  "sample_pair = \<lparr>tp_tokenIn = ''0xA'', tp_tokenOut = ''0xB'', tp_symbolIn = ''USDC'', tp_symbolOut = ''USDbC'',
     tp_decimalsIn = 6, tp_decimalsOut = 6\<rparr>"

definition found_view :: "exn + arbitrage_opportunity option \<Rightarrow> (int \<times> int \<times> int) option" where
  "found_view r = (case r of Inr (Some opp) \<Rightarrow>
     Some (ab_amountIn opp, ab_expectedAmountOut opp, am_raw (ab_expectedRevenue opp)) | _ \<Rightarrow> None)"

lemma sample_found:
  "found_view (fst (checkSingleDirection sample_scanner (scanner_config_of sample_options) ''base''
     (buySell sample_dex None) sample_pair 1000 sample_scan)) = Some (500000000000, 510050000000, 10050000000)"
  by code_simp

lemma sample_found_run:
  obtains opp s' where "checkSingleDirection sample_scanner (scanner_config_of sample_options) ''base''
      (buySell sample_dex None) sample_pair 1000 sample_scan = (Inr (Some opp), s')"
    and "ab_amountIn opp = 500000000000" and "ab_expectedAmountOut opp = 510050000000"
proof (cases "checkSingleDirection sample_scanner (scanner_config_of sample_options) ''base''
    (buySell sample_dex None) sample_pair 1000 sample_scan")
  case (Pair r s')
  with sample_found that show thesis by (auto simp: found_view_def split: sum.splits option.splits)
qed

theorem arbitrage_opportunity_sound_witness:
  "\<exists>opp s'. checkSingleDirection sample_scanner (scanner_config_of sample_options) ''base''
      (buySell sample_dex None) sample_pair 1000 sample_scan = (Inr (Some opp), s') \<and>
     am_raw (ab_expectedRevenue opp) = 10050000000 \<and> am_raw (ab_capitalAtRisk opp) = 500000000000"
proof (rule sample_found_run)
  fix opp s'
  assume run: "checkSingleDirection sample_scanner (scanner_config_of sample_options) ''base''
      (buySell sample_dex None) sample_pair 1000 sample_scan = (Inr (Some opp), s')"
    and amounts: "ab_amountIn opp = 500000000000" "ab_expectedAmountOut opp = 510050000000"
  from arbitrage_opportunity_sound [OF run] amounts
  have "am_raw (ab_expectedRevenue opp) = 10050000000 \<and> am_raw (ab_capitalAtRisk opp) = 500000000000" by linarith
  with run show ?thesis by blast
qed

theorem arbitrage_always_rejected_witness:
  "\<exists>opp s' m. checkSingleDirection sample_scanner (scanner_config_of sample_options) ''base''
      (buySell sample_dex None) sample_pair 1000 sample_scan = (Inr (Some opp), s') \<and>
     fst (evaluateOpportunity sample_scanner opp s') =
       Inr (Rejected (ab_provider opp) BelowMinProfitMargin \<lparr>am_asset = usd_asset, am_raw = 0\<rparr> m)"
proof (rule sample_found_run)
  fix opp s'
  assume run: "checkSingleDirection sample_scanner (scanner_config_of sample_options) ''base''
      (buySell sample_dex None) sample_pair 1000 sample_scan = (Inr (Some opp), s')"
    and amounts: "ab_amountIn opp = 500000000000" "ab_expectedAmountOut opp = 510050000000"
  have margin: "sc_minProfitMarginBps (scanner_config_of sample_options) = of_int 120"
    by (simp add: scanner_config_of_def sample_options_def or_else_def)
  have reg: "registry_get (sv_registry sample_scanner) ''base'' = Inr (createRegisteredChain zero_aave base_input)"
    using base_registry_get by (simp add: sample_scanner_def)
  from arbitrage_always_rejected [OF run _ margin _ reg, of s'] amounts run show ?thesis by auto
qed

theorem dedupe_window_respected_witness:
  "\<exists>opp s'. admit_candidate sample_scanner (scanner_config_of sample_options) ''base'' (buySell sample_dex None) sample_pair
      10 11 12 1 (sample_scan\<lparr>sn_dedupe := [(signature_of ''base'' (buySell sample_dex None) sample_pair 10, 900000)]\<rparr>)
      = (Inr (Some opp), s') \<and> 900000 < (1000000::int) - sc_dedupeWindowMs (scanner_config_of sample_options)"
    (is "\<exists>opp s'. ?run = _ \<and> _")
proof -
  have "found_view (fst ?run) = Some (10, 12, 2)" by code_simp
  then obtain opp s' where run: "?run = (Inr (Some opp), s')"
    by (cases ?run) (auto simp: found_view_def split: sum.splits option.splits)
  have clock: "scan_clock sample_scanner s = (Inr 1000000, s)" for s
    by (simp add: scan_clock_def scall_def in_quotes_def qcall_def sample_scanner_def)
  from dedupe_window_respected [OF run clock] run show ?thesis by (auto simp: js_get_def)
qed

theorem zero_concurrency_scans_nothing_witness:
  "fst (pollChain sample_scanner (scanner_config_of (sample_options\<lparr>so_quoteConcurrency := Some 0\<rparr>)) ''base'' sample_scan) = Inr 0 \<and>
   st_routesAttempted (sn_stats (snd (pollChain sample_scanner (scanner_config_of sample_options) ''base'' sample_scan))) = 1"
proof (intro conjI)
  show "fst (pollChain sample_scanner (scanner_config_of (sample_options\<lparr>so_quoteConcurrency := Some 0\<rparr>)) ''base'' sample_scan) = Inr 0"
    by (rule zero_concurrency_scans_nothing [of _ 0, THEN conjunct1]) simp_all
qed code_simp+

end
