(* ===== verification/Block_Cursor.thy ===== *)
theory Block_Cursor
  imports Effects Decimal
begin

text \<open>
  \<open>src/utils/blockCursor.ts\<close>: the block up to which the logs of the pool were processed, kept in a
  key-value store: Redis, or the memory of the process when no Redis can be reached. The Redis client
  is a service. What a store promises is the locale \<open>key_value_store\<close>; the store in memory is an
  instance of it. Log lines are left out.
\<close>

record 's cursor_store =
  kv_get :: "string \<Rightarrow> ('s, string option) io"
  kv_set :: "string \<Rightarrow> string \<Rightarrow> ('s, unit) io"
  kv_close :: "('s, unit) io option"

datatype cursor_backend = RedisBackend | MemoryBackend

record 's block_cursor =
  bk_store :: "'s cursor_store"
  bk_key :: string
  bk_backend :: cursor_backend

definition cursor_load :: "'s block_cursor \<Rightarrow> ('s, int) io" where
  "cursor_load c = io_bind (kv_get (bk_store c) (bk_key c)) (\<lambda>val.
     case val of None \<Rightarrow> io_return 0 | Some v \<Rightarrow> io_lift (bigint_of_string v))"

definition cursor_save :: "'s block_cursor \<Rightarrow> int \<Rightarrow> ('s, unit) io" where
  "cursor_save c blockNumber = kv_set (bk_store c) (bk_key c) (int_string blockNumber)"

definition cursor_close :: "'s block_cursor \<Rightarrow> ('s, unit) io" where
  "cursor_close c = (case kv_close (bk_store c) of None \<Rightarrow> io_return () | Some close \<Rightarrow> close)"

text \<open>The state: the world of the Redis client, and the values of the store in memory.\<close>

record 'w cursor_world =
  cw_redis :: 'w
  cw_values :: "(string, string) jsmap"

definition memory_store :: "'w cursor_world cursor_store" where
  "memory_store = \<lparr>kv_get = (\<lambda>key. io_get (\<lambda>s. js_get (cw_values s) key)),
     kv_set = (\<lambda>key v. io_modify (\<lambda>s. s\<lparr>cw_values := js_set key v (cw_values s)\<rparr>)), kv_close = None\<rparr>"

record 'w redis_services =
  rd_connect :: "string \<Rightarrow> ('w, unit) io"
  rd_ping :: "string \<Rightarrow> ('w, string) io"
  rd_get :: "string \<Rightarrow> string \<Rightarrow> ('w, string option) io"
  rd_set :: "string \<Rightarrow> string \<Rightarrow> string \<Rightarrow> ('w, unit) io"
  rd_quit :: "string \<Rightarrow> ('w, unit) io"

definition on_redis :: "('w, 'a) io \<Rightarrow> ('w cursor_world, 'a) io" where
  "on_redis m s = (case m (cw_redis s) of (r, w) \<Rightarrow> (r, s\<lparr>cw_redis := w\<rparr>))"

definition redis_store :: "'w redis_services \<Rightarrow> string \<Rightarrow> 'w cursor_world cursor_store" where
  "redis_store sv url = \<lparr>kv_get = (\<lambda>key. on_redis (rd_get sv url key)), kv_set = (\<lambda>key v. on_redis (rd_set sv url key v)),
     kv_close = Some (on_redis (rd_quit sv url))\<rparr>"

definition redis_ping :: "'w redis_services \<Rightarrow> string \<Rightarrow> ('w cursor_world, unit) io" where
  "redis_ping sv url = on_redis (io_then (rd_connect sv url) (io_bind (rd_ping sv url) (\<lambda>pong.
     if pong \<noteq> ''PONG'' then io_throw (Exn (''Redis ping failed: '' @ pong)) else io_return ())))"

definition cursor_key :: "string \<Rightarrow> string" where
  "cursor_key chain = ''bot:lastProcessedBlock:'' @ chain"

definition createBlockCursor :: "'w redis_services \<Rightarrow> string \<Rightarrow> string option \<Rightarrow> ('w cursor_world, 'w cursor_world block_cursor) io" where
  "createBlockCursor sv chain redisUrl =
     (let key = cursor_key chain;
          memory = \<lparr>bk_store = memory_store, bk_key = key, bk_backend = MemoryBackend\<rparr>
      in case map_option str_trim redisUrl of
           None \<Rightarrow> io_return memory
         | Some url \<Rightarrow>
             if url = [] then io_return memory
             else io_catch
               (io_then (redis_ping sv url) (io_return \<lparr>bk_store = redis_store sv url, bk_key = key, bk_backend = RedisBackend\<rparr>))
               (\<lambda>_. io_then (io_catch (on_redis (rd_quit sv url)) (\<lambda>_. io_return ())) (io_return memory)))"

section \<open>What a store promises\<close>

text \<open>A value that was set is read back, and setting one key leaves the others.\<close>

locale key_value_store =
  fixes get :: "string \<Rightarrow> ('s, string option) io" and set :: "string \<Rightarrow> string \<Rightarrow> ('s, unit) io"
  assumes get_after_set: "set k v s = (Inr (), s') \<Longrightarrow> fst (get k s') = Inr (Some v)"
    and get_other: "set k v s = (Inr (), s') \<Longrightarrow> k' \<noteq> k \<Longrightarrow> fst (get k' s') = fst (get k' s)"
begin

lemma load_after_save:
  assumes "kv_get (bk_store c) = get" and "kv_set (bk_store c) = set" and "cursor_save c n s = (Inr (), s')"
  shows "fst (cursor_load c s') = Inr n"
proof -
  have "fst (get (bk_key c) s') = Inr (Some (int_string n))"
    using get_after_set assms(2,3) by (simp add: cursor_save_def)
  with assms(1) show ?thesis
    by (cases "get (bk_key c) s'") (simp add: cursor_load_def io_bind_def io_lift_def bigint_round_trip)
qed

lemma load_other_chain:
  assumes "kv_get (bk_store c) = get" and "kv_set (bk_store c) = set" and "bk_store c' = bk_store c"
    and "bk_key c' \<noteq> bk_key c" and "cursor_save c n s = (Inr (), s')"
  shows "fst (cursor_load c' s') = fst (cursor_load c' s)"
proof -
  have "fst (get (bk_key c') s') = fst (get (bk_key c') s)"
    using get_other assms(2,4,5) by (simp add: cursor_save_def)
  with assms(1,3) show ?thesis
    by (cases "get (bk_key c') s'"; cases "get (bk_key c') s")
      (auto simp: cursor_load_def io_bind_def io_lift_def io_return_def split: sum.splits option.splits)
qed

end

interpretation memory: key_value_store "kv_get memory_store" "kv_set memory_store"
  by unfold_locales (auto simp: memory_store_def io_get_def io_modify_def)

lemma cursor_key_inj: "cursor_key a = cursor_key b \<longleftrightarrow> a = b"
  by (simp add: cursor_key_def)

section \<open>Properties\<close>

text \<open>Without Redis the cursor of a chain is kept in memory: what was saved is loaded, whatever the
  number, and the cursors of other chains are as before; a cursor that was never saved is zero.\<close>

theorem cursor_round_trip:
  assumes "createBlockCursor sv chain None s0 = (Inr c, s1)" and "createBlockCursor sv other None s0 = (Inr d, s2)"
    and "other \<noteq> chain" and "cursor_save c n s = (Inr (), s')"
  shows "fst (cursor_load c s') = Inr n \<and> fst (cursor_load d s') = fst (cursor_load d s) \<and>
    (js_get (cw_values s) (cursor_key other) = None \<longrightarrow> fst (cursor_load d s) = Inr 0)"
proof -
  have c: "c = \<lparr>bk_store = memory_store, bk_key = cursor_key chain, bk_backend = MemoryBackend\<rparr>"
    and d: "d = \<lparr>bk_store = memory_store, bk_key = cursor_key other, bk_backend = MemoryBackend\<rparr>"
    using assms(1,2) by (auto simp: createBlockCursor_def io_return_def)
  have "fst (cursor_load d s) = Inr 0" if "js_get (cw_values s) (cursor_key other) = None"
    using that by (simp add: d cursor_load_def memory_store_def io_bind_def io_get_def io_return_def)
  moreover have "fst (cursor_load c s') = Inr n" using assms(4) by (intro memory.load_after_save [of c]) (simp_all add: c)
  moreover have "fst (cursor_load d s') = fst (cursor_load d s)"
    using assms(3,4) by (intro memory.load_other_chain [of c]) (simp_all add: c d cursor_key_inj)
  ultimately show ?thesis by blast
qed

text \<open>Any services: without an address of Redis they are not called.\<close>

definition no_redis :: "unit redis_services" where
  "no_redis = \<lparr>rd_connect = (\<lambda>u. io_throw (Exn ''refused'')), rd_ping = (\<lambda>u. io_return ''PONG''), rd_get = (\<lambda>u k. io_return None),
     rd_set = (\<lambda>u k v. io_return ()), rd_quit = (\<lambda>u. io_return ())\<rparr>"

theorem cursor_round_trip_witness:
  "\<exists>c s'. createBlockCursor no_redis ''base'' None \<lparr>cw_redis = (), cw_values = []\<rparr> = (Inr c, \<lparr>cw_redis = (), cw_values = []\<rparr>) \<and>
     cursor_save c 31415926 \<lparr>cw_redis = (), cw_values = []\<rparr> = (Inr (), s') \<and> fst (cursor_load c s') = Inr 31415926"
proof -
  let ?s = "\<lparr>cw_redis = (), cw_values = []\<rparr> :: unit cursor_world"
  have create: "createBlockCursor no_redis k None ?s = (Inr \<lparr>bk_store = memory_store, bk_key = cursor_key k, bk_backend = MemoryBackend\<rparr>, ?s)" for k
    by (simp add: createBlockCursor_def io_return_def)
  obtain s' where save: "cursor_save \<lparr>bk_store = memory_store, bk_key = cursor_key ''base'', bk_backend = MemoryBackend\<rparr> 31415926 ?s = (Inr (), s')"
    by (auto simp: cursor_save_def memory_store_def io_modify_def)
  from cursor_round_trip [OF create [of "''base''"] create [of "''optimism''"] _ save] create [of "''base''"] save show ?thesis by auto
qed

end
