(* ===== verification/Event_Watchlist.thy ===== *)
theory Event_Watchlist
  imports Bounded_Buffers Block_Cursor
begin

text \<open>
  The borrowers that the logs of the pool name: \<open>src/monitors/borrowerLogExtract.ts\<close> and
  \<open>src/monitors/eventDrivenWatchlist.ts\<close>, which adds them to the bounded watchlist, replays the blocks
  since the cursor after a start or an error, and moves the cursor. Block number, logs, sleeping and the
  store of the cursor are services. The two callbacks are recorded in the order of their calls. The
  subscription itself is not modelled: a log that it delivers is a call of \<open>handleLogs\<close>. Log lines and
  metrics are left out.
\<close>

section \<open>Logs\<close>

record log_args =
  la_user :: "address option"
  la_onBehalfOf :: "address option"
  la_repayer :: "address option"
  la_to :: "address option"

record pool_log =
  pl_args :: "log_args option"
  pl_blockNumber :: "int option"

definition extractBorrowerAddressesFromLog :: "pool_log \<Rightarrow> address list" where
  "extractBorrowerAddressesFromLog log =
     (case pl_args log of
        None \<Rightarrow> []
      | Some args \<Rightarrow>
          (case la_onBehalfOf args of Some a \<Rightarrow> [a] | None \<Rightarrow> []) @
          (case la_user args of Some u \<Rightarrow> (if la_onBehalfOf args \<noteq> Some u then [u] else []) | None \<Rightarrow> []))"

definition extractBorrowerFromLog :: "pool_log \<Rightarrow> address option" where
  "extractBorrowerFromLog log =
     (case extractBorrowerAddressesFromLog log of [] \<Rightarrow> None | a # _ \<Rightarrow> Some a)"

definition extractUserAddressesFromAavePoolLog :: "pool_log \<Rightarrow> address list" where
  "extractUserAddressesFromAavePoolLog log =
     (case pl_args log of
        None \<Rightarrow> []
      | Some args \<Rightarrow>
          fold (\<lambda>c out. case c of
                  None \<Rightarrow> out
                | Some a \<Rightarrow> if list_ex (\<lambda>existing. to_lower existing = to_lower a) out then out else out @ [a])
            [la_onBehalfOf args, la_user args, la_repayer args, la_to args] [])"

section \<open>State and services\<close>

record 'w log_services =
  lw_getBlockNumber :: "('w, int) io"
  lw_getLogs :: "int \<Rightarrow> int \<Rightarrow> ('w, pool_log list) io"
  lw_sleep :: "int \<Rightarrow> 'w \<Rightarrow> 'w"
  lw_cursor :: "'w block_cursor"

record watch_config =
  wc_maxSize :: nat
  wc_staleBlocks :: int
  wc_reorgSafeDepth :: "int option"
  wc_gapChunkBlocks :: "int option"
  wc_gapChunkDelayMs :: "int option"

record 'w watch_state =
  wa_world :: 'w
  wa_watchlist :: watchlist
  wa_gapReplayInFlight :: bool
  wa_activity :: nat
  wa_accountsActivity :: "address list list"

type_synonym ('w, 'a) watch_io = "('w watch_state, 'a) io"

definition wcall :: "('w, 'a) io \<Rightarrow> ('w, 'a) watch_io" where
  "wcall m s = (case m (wa_world s) of (r, w) \<Rightarrow> (r, s\<lparr>wa_world := w\<rparr>))"

definition reorg_depth :: "watch_config \<Rightarrow> int" where
  "reorg_depth cfg = (case wc_reorgSafeDepth cfg of Some d \<Rightarrow> d | None \<Rightarrow> 10)"

definition safe_head :: "watch_config \<Rightarrow> int \<Rightarrow> int" where
  "safe_head cfg head = (if reorg_depth cfg < head then head - reorg_depth cfg else 0)"

section \<open>Handling logs\<close>

text \<open>The block of a log without a number counts as zero: its borrower is not added.\<close>

definition log_block :: "pool_log \<Rightarrow> int" where
  "log_block log = (case pl_blockNumber log of Some b \<Rightarrow> b | None \<Rightarrow> 0)"

definition log_entry :: "pool_log \<Rightarrow> (address \<times> int) option" where
  "log_entry log =
     (case extractBorrowerFromLog log of
        Some user \<Rightarrow> if 0 < log_block log then Some (user, log_block log) else None
      | None \<Rightarrow> None)"

definition set_add :: "'a \<Rightarrow> 'a list \<Rightarrow> 'a list" where
  "set_add x xs = (if x \<in> set xs then xs else xs @ [x])"

definition handle_log :: "watch_config \<Rightarrow> pool_log \<Rightarrow> watchlist \<times> address list \<times> int \<Rightarrow> watchlist \<times> address list \<times> int" where
  "handle_log cfg log acc =
     (case acc of (w, touched, maxBlock) \<Rightarrow>
        (case log_entry log of
           Some (user, block) \<Rightarrow> (wl_add (wc_maxSize cfg) (wc_staleBlocks cfg) user block None w, set_add user touched, max maxBlock block)
         | None \<Rightarrow> (w, touched, max maxBlock (log_block log))))"

definition handleLogs :: "'w log_services \<Rightarrow> watch_config \<Rightarrow> pool_log list \<Rightarrow> ('w, unit) watch_io" where
  "handleLogs sv cfg logs =
     (if logs = [] then io_return ()
      else io_bind (wcall (lw_getBlockNumber sv)) (\<lambda>head.
        io_bind (io_get (\<lambda>s. fold (handle_log cfg) logs (wa_watchlist s, [], 0))) (\<lambda>(w, touched, maxBlock).
          io_then (io_modify (\<lambda>s. s\<lparr>wa_watchlist := w\<rparr>))
            (io_then (if 0 < maxBlock \<and> maxBlock \<le> safe_head cfg head then wcall (cursor_save (lw_cursor sv) maxBlock) else io_return ())
              (io_then (io_modify (\<lambda>s. s\<lparr>wa_activity := wa_activity s + 1\<rparr>))
                (if touched \<noteq> [] then io_modify (\<lambda>s. s\<lparr>wa_accountsActivity := wa_accountsActivity s @ [touched]\<rparr>)
                 else io_return ()))))))"

section \<open>Replaying a gap\<close>

definition MAX_RETRIES :: nat where
  "MAX_RETRIES = 5"

definition range_too_large :: "exn \<Rightarrow> bool" where
  "range_too_large e = (str_includes ''response too large'' (exn_message e) \<or> str_includes ''limit'' (exn_message e))"

text \<open>The attempts that are left, and the delay before the next one. A range that is refused as too
  large is split in two halves, each with all its attempts; the last failure of a range is thrown.\<close>

function fetch_attempts :: "'w log_services \<Rightarrow> watch_config \<Rightarrow> nat \<Rightarrow> int \<Rightarrow> int \<Rightarrow> int \<Rightarrow> ('w, unit) watch_io" where
  "fetch_attempts sv cfg n delayMs lo hi =
     (if n = 0 then io_return ()
      else io_catch (io_bind (wcall (lw_getLogs sv lo hi)) (handleLogs sv cfg)) (\<lambda>e.
        if range_too_large e \<and> lo < hi
        then let mid = lo + (hi - lo) div 2
             in io_then (fetch_attempts sv cfg MAX_RETRIES 250 lo mid) (fetch_attempts sv cfg MAX_RETRIES 250 (mid + 1) hi)
        else if n = 1 then io_throw e
        else io_then (io_modify (\<lambda>s. s\<lparr>wa_world := lw_sleep sv delayMs (wa_world s)\<rparr>))
          (fetch_attempts sv cfg (n - 1) (min (delayMs * 2) 2000) lo hi)))"
  by pat_completeness auto

termination
  by (relation "measures [\<lambda>(sv, cfg, n, delayMs, lo, hi). nat (hi - lo), \<lambda>(sv, cfg, n, delayMs, lo, hi). n]") auto

declare fetch_attempts.simps [simp del]

definition fetchChunkWithBackoff :: "'w log_services \<Rightarrow> watch_config \<Rightarrow> int \<Rightarrow> int \<Rightarrow> ('w, unit) watch_io" where
  "fetchChunkWithBackoff sv cfg lo hi = fetch_attempts sv cfg MAX_RETRIES 250 lo hi"

text \<open>The ranges of the loop over the blocks. The size of a chunk is at least one: the environment is
  read with \<open>parseMinNumber\<close>.\<close>

function block_ranges :: "int \<Rightarrow> int \<Rightarrow> int \<Rightarrow> (int \<times> int) list" where
  "block_ranges chunk lo hi =
     (if 0 < chunk \<and> lo \<le> hi then (lo, if lo + chunk - 1 < hi then lo + chunk - 1 else hi) # block_ranges chunk (lo + chunk) hi else [])"
  by pat_completeness auto

termination by (relation "measure (\<lambda>(chunk, lo, hi). nat (hi - lo + 1))") auto

declare block_ranges.simps [simp del]

fun replay_ranges :: "'w log_services \<Rightarrow> watch_config \<Rightarrow> (int \<times> int) list \<Rightarrow> ('w, unit) watch_io" where
  "replay_ranges sv cfg [] = io_return ()"
| "replay_ranges sv cfg ((lo, hi) # rest) =
     io_then (fetchChunkWithBackoff sv cfg lo hi)
       (io_then (case wc_gapChunkDelayMs cfg of
                   Some d \<Rightarrow> if 0 < d then io_modify (\<lambda>s. s\<lparr>wa_world := lw_sleep sv d (wa_world s)\<rparr>) else io_return ()
                 | None \<Rightarrow> io_return ())
         (replay_ranges sv cfg rest))"

definition gap_chunk :: "watch_config \<Rightarrow> int" where
  "gap_chunk cfg = (case wc_gapChunkBlocks cfg of Some c \<Rightarrow> c | None \<Rightarrow> 2000)"

definition replayGap :: "'w log_services \<Rightarrow> watch_config \<Rightarrow> int \<Rightarrow> ('w, unit) watch_io" where
  "replayGap sv cfg fromBlock s =
     (if wa_gapReplayInFlight s then (Inr (), s)
      else io_finally
        (io_bind (wcall (lw_getBlockNumber sv)) (\<lambda>head.
           let safeHead = safe_head cfg head
           in if fromBlock = 0 \<or> safeHead \<le> fromBlock then io_return ()
              else replay_ranges sv cfg (block_ranges (gap_chunk cfg) (fromBlock + 1) safeHead)))
        (\<lambda>s'. s'\<lparr>wa_gapReplayInFlight := False\<rparr>) (s\<lparr>wa_gapReplayInFlight := True\<rparr>))"

definition replayGapFromCursor :: "'w log_services \<Rightarrow> watch_config \<Rightarrow> ('w, unit) watch_io" where
  "replayGapFromCursor sv cfg = io_bind (wcall (cursor_load (lw_cursor sv))) (replayGap sv cfg)"

definition coldStartFromLogs :: "'w log_services \<Rightarrow> watch_config \<Rightarrow> int \<Rightarrow> ('w, unit) watch_io" where
  "coldStartFromLogs sv cfg lookbackBlocks =
     io_bind (wcall (lw_getBlockNumber sv)) (\<lambda>head.
       replayGap sv cfg (if lookbackBlocks < head then head - lookbackBlocks else 0))"

section \<open>What a replay reports\<close>

text \<open>An endpoint that answers for a range of blocks with the logs of its blocks, in their order.\<close>

definition serves_logs :: "'w log_services \<Rightarrow> (int \<Rightarrow> pool_log list) \<Rightarrow> bool" where
  "serves_logs sv L \<longleftrightarrow>
     (\<forall>lo hi w logs w'. lw_getLogs sv lo hi w = (Inr logs, w') \<longrightarrow> logs = concat (map L [lo..hi])) \<and>
     (\<forall>b. \<forall>log \<in> set (L b). pl_blockNumber log = Some b)"

definition borrowers_of :: "(int \<Rightarrow> pool_log list) \<Rightarrow> int \<Rightarrow> int \<Rightarrow> address set" where
  "borrowers_of L lo hi = (\<Union>b \<in> {lo..hi}. {u. \<exists>log \<in> set (L b). extractBorrowerFromLog log = Some u})"

definition entries :: "pool_log list \<Rightarrow> address set" where
  "entries logs = {u. \<exists>log \<in> set logs. \<exists>b. log_entry log = Some (u, b)}"

definition reported :: "'w watch_state \<Rightarrow> address set" where
  "reported s = \<Union> (set ` set (wa_accountsActivity s))"

lemma set_set_add [simp]: "set (set_add x xs) = insert x (set xs)"
  by (auto simp: set_add_def)

lemma entries_simps [simp]:
  "entries [] = {}" "entries (log # logs) = {u. \<exists>b. log_entry log = Some (u, b)} \<union> entries logs"
  by (auto simp: entries_def)

lemma touched_by_logs: "set (fst (snd (fold (handle_log cfg) logs (w, touched, m)))) = set touched \<union> entries logs"
proof (induction logs arbitrary: w touched m)
  case (Cons log logs)
  obtain w' t' m' where step: "handle_log cfg log (w, touched, m) = (w', t', m')" by (rule prod_cases3)
  then have "set t' = set touched \<union> {u. \<exists>b. log_entry log = Some (u, b)}"
    by (cases "log_entry log") (auto simp: handle_log_def)
  then show ?case by (auto simp: step Cons.IH)
qed simp

text \<open>The outcome of \<open>handleLogs\<close>: all the borrowers of the logs are reported, or none.\<close>

lemma wcall_frame: "wcall m s = (r, s') \<Longrightarrow> wa_accountsActivity s' = wa_accountsActivity s"
  by (auto simp: wcall_def split: prod.splits)

lemma handleLogs_outcome:
  assumes "handleLogs sv cfg logs s = (r, s')"
  shows "reported s' = (case r of Inr _ \<Rightarrow> reported s \<union> entries logs | Inl _ \<Rightarrow> reported s)"
proof (cases "logs = []")
  case True
  with assms show ?thesis by (auto simp: handleLogs_def io_return_def)
next
  case False
  define acc where "acc = (\<lambda>w. fold (handle_log cfg) logs (w, [], 0))"
  obtain r1 s1 where head: "wcall (lw_getBlockNumber sv) s = (r1, s1)" by fastforce
  obtain w touched m where acc: "acc (wa_watchlist s1) = (w, touched, m)" by (cases "acc (wa_watchlist s1)")
  have touched: "set touched = entries logs"
    using touched_by_logs [of cfg logs "wa_watchlist s1" "[]" 0] acc by (simp add: acc_def)
  show ?thesis
  proof (cases r1)
    case (Inl e)
    with assms head False wcall_frame [OF head] show ?thesis by (auto simp: handleLogs_def io_bind_def reported_def)
  next
    case (Inr head')
    define s2 where "s2 = s1\<lparr>wa_watchlist := w\<rparr>"
    define save where "save = (if 0 < m \<and> m \<le> safe_head cfg head' then wcall (cursor_save (lw_cursor sv) m) else io_return ())"
    obtain r3 s3 where r3: "save s2 = (r3, s3)" by fastforce
    have same: "wa_accountsActivity s3 = wa_accountsActivity s"
      using r3 wcall_frame [OF head] by (auto simp: save_def s2_def io_return_def split: if_splits dest: wcall_frame)
    have "handleLogs sv cfg logs s = (case r3 of Inl e \<Rightarrow> (Inl e, s3)
        | Inr _ \<Rightarrow> (Inr (), (if touched \<noteq> [] then (s3\<lparr>wa_activity := wa_activity s3 + 1\<rparr>)
            \<lparr>wa_accountsActivity := wa_accountsActivity s3 @ [touched]\<rparr> else s3\<lparr>wa_activity := wa_activity s3 + 1\<rparr>)))"
      using False head Inr acc r3
      by (simp add: handleLogs_def io_bind_def io_then_def io_get_def io_modify_def io_return_def acc_def s2_def [symmetric] save_def
          split: sum.splits)
    with assms same touched show ?thesis
      by (auto simp: reported_def split: sum.splits if_splits)
  qed
qed

lemma entries_are_borrowers:
  assumes "serves_logs sv L" and "lw_getLogs sv lo hi w = (Inr logs, w')" and "0 < lo"
  shows "entries logs = borrowers_of L lo hi"
proof -
  have "logs = concat (map L [lo..hi])" using assms(1,2) unfolding serves_logs_def by blast
  moreover have block: "log_block log = b" if "log \<in> set (L b)" for log b
    using that assms(1) by (simp add: serves_logs_def log_block_def)
  moreover have "entries (concat (map L bs)) = (\<Union>b \<in> set bs. {u. \<exists>log \<in> set (L b). extractBorrowerFromLog log = Some u})"
    if "\<forall>b \<in> set bs. 0 < b" for bs
  proof -
    have "(\<exists>c. log_entry log = Some (u, c)) \<longleftrightarrow> extractBorrowerFromLog log = Some u" if "log \<in> set (L b)" "b \<in> set bs" for log u b
      using that \<open>\<forall>b \<in> set bs. 0 < b\<close> block [of log b] by (auto simp: log_entry_def split: option.splits)
    then show ?thesis by (fastforce simp: entries_def)
  qed
  ultimately show ?thesis using assms(3) by (simp add: borrowers_of_def)
qed

lemma borrowers_split:
  assumes "lo \<le> mid" "mid \<le> hi"
  shows "borrowers_of L lo mid \<union> borrowers_of L (mid + 1) hi = borrowers_of L lo hi"
proof -
  have "{lo..mid} \<union> {mid + 1..hi} = {lo..hi}" using assms by auto
  then show ?thesis by (simp add: borrowers_of_def UN_Un [symmetric])
qed

text \<open>One attempt: the logs of the range, handled.\<close>

lemma attempt_outcome:
  assumes "serves_logs sv L" and "0 < lo" and "io_bind (wcall (lw_getLogs sv lo hi)) (handleLogs sv cfg) s = (r, s')"
  shows "reported s' = (case r of Inr _ \<Rightarrow> reported s \<union> borrowers_of L lo hi | Inl _ \<Rightarrow> reported s)"
proof -
  obtain r1 s1 where logs: "wcall (lw_getLogs sv lo hi) s = (r1, s1)" by fastforce
  have same: "reported s1 = reported s" using wcall_frame [OF logs] by (simp add: reported_def)
  show ?thesis
  proof (cases r1)
    case (Inl e)
    have "r = Inl e" "s' = s1" using assms(3) logs Inl by (simp_all add: io_bind_def)
    with same show ?thesis by simp
  next
    case (Inr ls)
    obtain w' where "lw_getLogs sv lo hi (wa_world s) = (Inr ls, w')"
      using logs Inr by (auto simp: wcall_def split: prod.splits)
    from entries_are_borrowers [OF assms(1) this assms(2)] have entries: "entries ls = borrowers_of L lo hi" .
    have "handleLogs sv cfg ls s1 = (r, s')" using assms(3) logs Inr by (simp add: io_bind_def)
    from handleLogs_outcome [OF this] show ?thesis by (cases r) (simp_all add: entries same)
  qed
qed

lemma fetch_attempts_reports:
  assumes "serves_logs sv L" and "fetch_attempts sv cfg n delayMs lo hi s = (Inr (), s')" and "0 < n" and "0 < lo" and "lo \<le> hi"
  shows "reported s' = reported s \<union> borrowers_of L lo hi"
  using assms
proof (induction sv cfg n delayMs lo hi arbitrary: s s' rule: fetch_attempts.induct)
  case (1 sv cfg n delayMs lo hi)
  obtain r s1 where attempt: "io_bind (wcall (lw_getLogs sv lo hi)) (handleLogs sv cfg) s = (r, s1)" by fastforce
  note outcome = attempt_outcome [OF "1.prems"(1,4) attempt]
  show ?case
  proof (cases r)
    case (Inr u)
    with "1.prems"(2,3) attempt outcome show ?thesis by (subst (asm) fetch_attempts.simps) (simp add: io_catch_def)
  next
    case (Inl e)
    define mid where "mid = lo + (hi - lo) div 2"
    show ?thesis
    proof (cases "range_too_large e \<and> lo < hi")
      case True
      then have mid: "lo \<le> mid" "mid < hi" by (auto simp: mid_def)
      obtain s2 where left: "fetch_attempts sv cfg MAX_RETRIES 250 lo mid s1 = (Inr (), s2)"
        and right: "fetch_attempts sv cfg MAX_RETRIES 250 (mid + 1) hi s2 = (Inr (), s')"
        using "1.prems"(2,3) attempt Inl True
        by (subst (asm) fetch_attempts.simps) (auto simp: io_catch_def Let_def mid_def [symmetric] io_then_Inr)
      have "reported s2 = reported s1 \<union> borrowers_of L lo mid"
        using "1.IH"(1) [OF _ True mid_def "1.prems"(1) left] "1.prems"(3,4) mid by (simp add: MAX_RETRIES_def)
      moreover have "reported s' = reported s2 \<union> borrowers_of L (mid + 1) hi"
        using "1.IH"(2) [OF _ True mid_def "1.prems"(1) right] "1.prems"(3,4) mid by (simp add: MAX_RETRIES_def)
      ultimately show ?thesis using outcome Inl borrowers_split [of lo mid hi L] mid by auto
    next
      case False
      then have "n \<noteq> 1" and "fetch_attempts sv cfg (n - 1) (min (delayMs * 2) 2000) lo hi
          (s1\<lparr>wa_world := lw_sleep sv delayMs (wa_world s1)\<rparr>) = (Inr (), s')"
        using "1.prems"(2,3) attempt Inl
        by (subst (asm) (1) fetch_attempts.simps; auto simp: io_catch_def io_throw_def io_then_Inr io_modify_def split: if_splits)+
      from "1.IH"(3) [OF _ False this(1) "1.prems"(1) this(2)] "1.prems"(3-5) this(1) have
        "reported s' = reported (s1\<lparr>wa_world := lw_sleep sv delayMs (wa_world s1)\<rparr>) \<union> borrowers_of L lo hi" by simp
      with outcome Inl show ?thesis by (simp add: reported_def)
    qed
  qed
qed

lemma block_ranges_cover:
  "\<lbrakk>0 < chunk; 0 < lo; lo \<le> hi\<rbrakk> \<Longrightarrow> borrowers_of L lo hi = (\<Union>(a, b) \<in> set (block_ranges chunk lo hi). borrowers_of L a b)"
proof (induction chunk lo hi rule: block_ranges.induct)
  case (1 chunk lo hi)
  show ?case
  proof (cases "lo + chunk - 1 < hi")
    case True
    have "borrowers_of L lo hi = borrowers_of L lo (lo + chunk - 1) \<union> borrowers_of L (lo + chunk) hi"
      using borrowers_split [of lo "lo + chunk - 1" hi L] True 1(2) by simp
    with 1 True show ?thesis by (subst block_ranges.simps) simp
  next
    case False
    then have "block_ranges chunk (lo + chunk) hi = []" by (subst block_ranges.simps) simp
    with 1 False show ?thesis by (subst block_ranges.simps) simp
  qed
qed

lemma block_ranges_bounds:
  "(a, b) \<in> set (block_ranges chunk lo hi) \<Longrightarrow> lo \<le> a \<and> a \<le> b \<and> b \<le> hi"
proof (induction chunk lo hi rule: block_ranges.induct)
  case (1 chunk lo hi)
  from 1(2) have "0 < chunk \<and> lo \<le> hi" and
      "(a, b) = (lo, if lo + chunk - 1 < hi then lo + chunk - 1 else hi) \<or> (a, b) \<in> set (block_ranges chunk (lo + chunk) hi)"
    by (simp_all add: block_ranges.simps [of chunk lo hi] split: if_splits)
  with 1(1) show ?case by (auto split: if_splits)
qed

lemma replay_ranges_reports:
  assumes "serves_logs sv L" and "replay_ranges sv cfg rs s = (Inr (), s')" and "\<forall>(a, b) \<in> set rs. 0 < a \<and> a \<le> b"
  shows "reported s' = reported s \<union> (\<Union>(a, b) \<in> set rs. borrowers_of L a b)"
  using assms(2,3)
proof (induction rs arbitrary: s)
  case Nil
  then show ?case by (simp add: io_return_def)
next
  case (Cons r rs)
  obtain a b where r: "r = (a, b)" by (cases r)
  obtain s1 where fetch: "fetchChunkWithBackoff sv cfg a b s = (Inr (), s1)" and
      "io_then (case wc_gapChunkDelayMs cfg of
                   Some d \<Rightarrow> if 0 < d then io_modify (\<lambda>s. s\<lparr>wa_world := lw_sleep sv d (wa_world s)\<rparr>) else io_return ()
                 | None \<Rightarrow> io_return ()) (replay_ranges sv cfg rs) s1 = (Inr (), s')"
    using Cons.prems(1) by (auto simp: r io_then_Inr)
  moreover from this(2) obtain s2 where pause: "(case wc_gapChunkDelayMs cfg of
                   Some d \<Rightarrow> if 0 < d then io_modify (\<lambda>s. s\<lparr>wa_world := lw_sleep sv d (wa_world s)\<rparr>) else io_return ()
                 | None \<Rightarrow> io_return ()) s1 = (Inr (), s2)"
      and rest: "replay_ranges sv cfg rs s2 = (Inr (), s')"
    by (auto simp: io_then_Inr)
  moreover have pause: "wa_accountsActivity s2 = wa_accountsActivity s1"
    using pause by (auto simp: io_modify_def io_return_def split: option.splits if_splits)
  have "reported s1 = reported s \<union> borrowers_of L a b"
    using fetch_attempts_reports [OF assms(1) fetch [unfolded fetchChunkWithBackoff_def]] Cons.prems(2) by (simp add: r MAX_RETRIES_def)
  moreover have "reported s2 = reported s1" using pause by (simp add: reported_def)
  moreover have "reported s' = reported s2 \<union> (\<Union>(a, b) \<in> set rs. borrowers_of L a b)"
    using Cons.IH [OF rest] Cons.prems(2) by simp
  ultimately show ?case by (simp add: r Un_assoc)
qed

text \<open>An endpoint that refuses long ranges and answers the others: no computation of a replay throws.\<close>

lemma replayGap_total:
  fixes sv :: "'a log_services"
  assumes "0 < most"
    and "\<And>lo hi w. hi - lo < most \<Longrightarrow> \<exists>logs w'. lw_getLogs sv lo hi w = (Inr logs, w')"
    and "\<And>lo hi w. most \<le> hi - lo \<Longrightarrow> \<exists>e w'. lw_getLogs sv lo hi w = (Inl e, w') \<and> range_too_large e"
    and "\<And>w. \<exists>h w'. lw_getBlockNumber sv w = (Inr h, w')"
    and "\<And>n w. \<exists>w'. cursor_save (lw_cursor sv) n w = (Inr (), w')"
  shows "io_total (replayGap sv cfg fromBlock)"
proof -
  have node: "io_total (wcall (lw_getBlockNumber sv))" and save: "io_total (wcall (cursor_save (lw_cursor sv) n))" for n
    using assms(4,5) by (auto simp: io_total_def wcall_def split: prod.split) (metis fst_conv sum.disc(2))+
  have handle: "io_total (handleLogs sv cfg logs)" for logs
    unfolding handleLogs_def by (intro total_rules node save)
  have attempts: "io_total (fetch_attempts sv cfg n delayMs lo hi)" if "0 < n" for n delayMs lo hi
    using that
  proof (induction "nat (hi - lo)" arbitrary: n delayMs lo hi rule: less_induct)
    case less
    let ?attempt = "io_bind (wcall (lw_getLogs sv lo hi)) (handleLogs sv cfg)"
    show ?case
    proof (cases "hi - lo < most")
      case True
      then have "io_total (wcall (lw_getLogs sv lo hi))"
        using assms(2) by (auto simp: io_total_def wcall_def split: prod.split) (metis fst_conv sum.disc(2))
      then have "io_total ?attempt" by (intro total_rules handle)
      with less.prems show ?thesis by (subst fetch_attempts.simps) (simp add: io_total_catch_body)
    next
      case False
      define mid where "mid = lo + (hi - lo) div 2"
      have lt: "lo < hi" using False assms(1) by linarith
      then have mid: "nat (mid - lo) < nat (hi - lo)" "nat (hi - (mid + 1)) < nat (hi - lo)" by (auto simp: mid_def)
      have halves: "io_total (io_then (fetch_attempts sv cfg MAX_RETRIES 250 lo mid) (fetch_attempts sv cfg MAX_RETRIES 250 (mid + 1) hi))"
        using mid by (intro total_rules less.hyps) (simp_all add: MAX_RETRIES_def)
      show ?thesis
      proof (rule io_totalI)
        fix s :: "'a watch_state"
        obtain e w' where "lw_getLogs sv lo hi (wa_world s) = (Inl e, w')" "range_too_large e"
          using assms(3) [of hi lo "wa_world s"] False by auto
        then have "fetch_attempts sv cfg n delayMs lo hi s = io_then (fetch_attempts sv cfg MAX_RETRIES 250 lo mid)
            (fetch_attempts sv cfg MAX_RETRIES 250 (mid + 1) hi) (s\<lparr>wa_world := w'\<rparr>)"
          using less.prems lt by (subst fetch_attempts.simps) (simp add: io_catch_def io_bind_def wcall_def Let_def mid_def)
        then show "\<exists>a s'. fetch_attempts sv cfg n delayMs lo hi s = (Inr a, s')"
          using io_totalD [OF halves] by simp
      qed
    qed
  qed
  have ranges: "io_total (replay_ranges sv cfg rs)" for rs
  proof (induction rs)
    case (Cons r rs)
    then show ?case
      by (cases r) (auto simp: fetchChunkWithBackoff_def MAX_RETRIES_def intro!: total_rules attempts)
  qed (simp add: io_total_return)
  have "io_total (io_bind (wcall (lw_getBlockNumber sv)) (\<lambda>head.
           let safeHead = safe_head cfg head
           in if fromBlock = 0 \<or> safeHead \<le> fromBlock then io_return ()
              else replay_ranges sv cfg (block_ranges (gap_chunk cfg) (fromBlock + 1) safeHead)))"
    unfolding Let_def by (intro total_rules node ranges)
  from io_total_finally [OF this] show ?thesis by (simp add: io_total_def replayGap_def)
qed

section \<open>Properties\<close>

text \<open>C24. A replay that returns has left no gap: every borrower that a log of the blocks after the cursor up
  to the safe head names, and no other, has been reported to the callback, however the ranges were split
  and however often a request had to be repeated; and the next replay is not locked out.\<close>

theorem gap_replay_complete:
  assumes "serves_logs sv L" and "replayGap sv cfg fromBlock s = (Inr (), s')" and "\<not> wa_gapReplayInFlight s"
    and "lw_getBlockNumber sv (wa_world s) = (Inr head, w)" and "0 < fromBlock" and "fromBlock < safe_head cfg head"
    and "0 < gap_chunk cfg"
  shows "reported s' = reported s \<union> borrowers_of L (fromBlock + 1) (safe_head cfg head) \<and> \<not> wa_gapReplayInFlight s'"
proof -
  define s1 where "s1 = s\<lparr>wa_gapReplayInFlight := True, wa_world := w\<rparr>"
  obtain s2 where replay: "replay_ranges sv cfg (block_ranges (gap_chunk cfg) (fromBlock + 1) (safe_head cfg head)) s1 = (Inr (), s2)"
    and s': "s' = s2\<lparr>wa_gapReplayInFlight := False\<rparr>"
    using assms(2-6) by (auto simp: replayGap_def io_finally_def io_bind_def wcall_def Let_def s1_def split: prod.splits)
  have "\<forall>(a, b) \<in> set (block_ranges (gap_chunk cfg) (fromBlock + 1) (safe_head cfg head)). 0 < a \<and> a \<le> b"
    using assms(5) by (auto dest: block_ranges_bounds)
  from replay_ranges_reports [OF assms(1) replay this]
  have "reported s2 = reported s1 \<union> borrowers_of L (fromBlock + 1) (safe_head cfg head)"
    using block_ranges_cover [of "gap_chunk cfg" "fromBlock + 1" "safe_head cfg head" L] assms(5-7) by simp
  then show ?thesis by (simp add: reported_def s' s1_def)
qed

text \<open>Against an endpoint that refuses every range of more than a number of blocks as too large, and
  answers every other, a replay returns: the ranges are split until they are accepted.\<close>

theorem gap_replay_succeeds:
  fixes sv :: "'a log_services"
  assumes "0 < most"
    and "\<And>lo hi w. hi - lo < most \<Longrightarrow> \<exists>logs w'. lw_getLogs sv lo hi w = (Inr logs, w')"
    and "\<And>lo hi w. most \<le> hi - lo \<Longrightarrow> \<exists>e w'. lw_getLogs sv lo hi w = (Inl e, w') \<and> range_too_large e"
    and "\<And>w. \<exists>h w'. lw_getBlockNumber sv w = (Inr h, w')"
    and "\<And>n w. \<exists>w'. cursor_save (lw_cursor sv) n w = (Inr (), w')"
  shows "\<exists>s'. replayGap sv cfg fromBlock s = (Inr (), s')"
  using io_totalD [OF replayGap_total [OF assms]] by auto

section \<open>Witnesses\<close>

text \<open>An endpoint at block 130 that serves at most eight blocks at a time, with two logs.\<close>

definition borrow_log :: "address \<Rightarrow> int \<Rightarrow> pool_log" where
  "borrow_log user block = \<lparr>pl_args = Some \<lparr>la_user = Some user, la_onBehalfOf = None, la_repayer = None, la_to = None\<rparr>,
     pl_blockNumber = Some block\<rparr>"

definition sample_logs :: "int \<Rightarrow> pool_log list" where
  "sample_logs b = (if b = 105 then [borrow_log ''0xA1'' 105] else if b = 119 then [borrow_log ''0xB2'' 119] else [])"

definition sample_node :: "unit cursor_world log_services" where
  "sample_node = \<lparr>lw_getBlockNumber = io_return 130,
     lw_getLogs = (\<lambda>lo hi. if hi - lo < 8 then io_return (concat (map sample_logs [lo..hi])) else io_throw (Exn ''response too large'')),
     lw_sleep = (\<lambda>d w. w), lw_cursor = \<lparr>bk_store = memory_store, bk_key = cursor_key ''base'', bk_backend = MemoryBackend\<rparr>\<rparr>"

definition sample_watch :: watch_config where
  "sample_watch = \<lparr>wc_maxSize = 2, wc_staleBlocks = 50400, wc_reorgSafeDepth = None, wc_gapChunkBlocks = Some 20, wc_gapChunkDelayMs = None\<rparr>"

definition empty_watch :: "unit cursor_world watch_state" where
  "empty_watch = \<lparr>wa_world = \<lparr>cw_redis = (), cw_values = []\<rparr>, wa_watchlist = [], wa_gapReplayInFlight = False, wa_activity = 0,
     wa_accountsActivity = []\<rparr>"

lemma sample_node_simps:
  "hi - lo < 8 \<Longrightarrow> lw_getLogs sample_node lo hi w = (Inr (concat (map sample_logs [lo..hi])), w)"
  "8 \<le> hi - lo \<Longrightarrow> lw_getLogs sample_node lo hi w = (Inl (Exn ''response too large''), w)"
  "lw_getBlockNumber sample_node w = (Inr 130, w)"
  "\<exists>w'. cursor_save (lw_cursor sample_node) n w = (Inr (), w')"
  by (simp_all add: sample_node_def io_return_def io_throw_def cursor_save_def memory_store_def io_modify_def)

lemma sample_range_too_large: "range_too_large (Exn ''response too large'')"
  by code_simp

theorem gap_replay_succeeds_witness:
  "\<exists>s'. replayGap sample_node sample_watch 100 empty_watch = (Inr (), s')"
  by (rule gap_replay_succeeds [where most = 8]) (auto simp: sample_node_simps sample_range_too_large)

theorem gap_replay_complete_witness:
  "\<exists>s'. replayGap sample_node sample_watch 100 empty_watch = (Inr (), s') \<and> reported s' = {''0xA1'', ''0xB2''}"
proof -
  have "io_total (replayGap sample_node sample_watch 100)"
    by (rule replayGap_total [where most = 8]) (auto simp: sample_node_simps sample_range_too_large)
  then obtain s' where run: "replayGap sample_node sample_watch 100 empty_watch = (Inr (), s')"
    using io_totalD by (metis (full_types) old.unit.exhaust)
  have serves: "serves_logs sample_node sample_logs"
    by (auto simp: serves_logs_def sample_node_def sample_logs_def borrow_log_def io_return_def io_throw_def split: if_splits)
  have logs: "b \<in> {101..120} \<and> (\<exists>log \<in> set (sample_logs b). extractBorrowerFromLog log = Some u) \<longleftrightarrow> (b = 105 \<and> u = ''0xA1'') \<or> (b = 119 \<and> u = ''0xB2'')" for b u
    by (auto simp: sample_logs_def borrow_log_def extractBorrowerFromLog_def extractBorrowerAddressesFromLog_def)
  have "borrowers_of sample_logs 101 120 = {''0xA1'', ''0xB2''}"
  proof (rule set_eqI)
    fix u
    have "u \<in> borrowers_of sample_logs 101 120 \<longleftrightarrow> (\<exists>b::int. (b = 105 \<and> u = ''0xA1'') \<or> (b = 119 \<and> u = ''0xB2''))"
      unfolding borrowers_of_def UN_iff mem_Collect_eq Bex_def [of "{101..120}"] logs ..
    then show "u \<in> borrowers_of sample_logs 101 120 \<longleftrightarrow> u \<in> {''0xA1'', ''0xB2''}" by (simp only: ex_disj_distrib) simp
  qed
  with gap_replay_complete [OF serves run] have "reported s' = {''0xA1'', ''0xB2''}"
    by (simp add: empty_watch_def sample_node_simps sample_watch_def safe_head_def reorg_depth_def gap_chunk_def reported_def)
  with run show ?thesis by blast
qed

end
