(* ===== verification/Watchlist_Sweep.thy ===== *)
theory Watchlist_Sweep
  imports Aave_Protocol Chain_Registry Event_Watchlist
begin

text \<open>
  What the watchlist coordinator is made of: batched reads of health factors
  (\<open>src/monitors/healthFactorSweep.ts\<close>), snapshots of single borrowers
  (\<open>src/monitors/aaveSnapshotProvider.ts\<close>), the discovery of borrowers in past logs
  (\<open>src/monitors/onChainBorrowerDiscovery.ts\<close>) and the reserve allowlist
  (\<open>src/config/watchlistReserveFilter.ts\<close>, \<open>watchlistReserveAllowlist.ts\<close>). Multicalls, single
  reads and logs are services. A multicall answers for each address with the row it read, or nothing
  if that call failed; an answer that is too short fails for the addresses that are left.
\<close>

section \<open>Batches\<close>

text \<open>The slices of a loop that advances by the size of a batch. The size is at least one: the environment
  is read with \<open>parseMinNumber\<close>, the other sizes are constants.\<close>

function batches :: "nat \<Rightarrow> 'a list \<Rightarrow> 'a list list" where
  "batches n xs = (if n = 0 \<or> xs = [] then [] else take n xs # batches n (drop n xs))"
  by pat_completeness auto

termination by (relation "measure (\<lambda>(n, xs). length xs)") auto

declare batches.simps [simp del]

lemma concat_batches: "0 < n \<Longrightarrow> concat (batches n xs) = xs"
  by (induction n xs rule: batches.induct) (subst batches.simps, simp)

type_synonym account_data = "int \<times> int \<times> int \<times> int \<times> int \<times> int"

definition data_debt :: "account_data \<Rightarrow> int" where
  "data_debt d = (case d of (collateral, debt, available, threshold, ltv, hf) \<Rightarrow> debt)"

definition data_health :: "account_data \<Rightarrow> int" where
  "data_health d = (case d of (collateral, debt, available, threshold, ltv, hf) \<Rightarrow> hf)"

text \<open>The rows that were read, each with its address.\<close>

definition read_rows :: "address list \<Rightarrow> 'r option list \<Rightarrow> (address \<times> 'r) list" where
  "read_rows batch results = List.map_filter (\<lambda>(a, r). map_option (Pair a) r) (zip batch results)"

section \<open>Health factor sweep\<close>

record hf_read =
  hr_address :: address
  hr_healthFactor :: int
  hr_totalDebtBase :: int

definition PRE_LIQUIDATABLE_WAD :: int where
  "PRE_LIQUIDATABLE_WAD = 1150000000000000000"

definition PIPELINE_DIAGNOSTIC_HF_WAD :: int where
  "PIPELINE_DIAGNOSTIC_HF_WAD = 1500000000000000000"

definition hf_read_of :: "address \<times> account_data \<Rightarrow> hf_read" where
  "hf_read_of row = \<lparr>hr_address = fst row, hr_healthFactor = data_health (snd row), hr_totalDebtBase = data_debt (snd row)\<rparr>"

text \<open>The computations change the world of the services and the watchlist; every read that succeeds is
  recorded there.\<close>

type_synonym ('w, 'a) sweep_io = "('w \<times> watchlist, 'a) io"

definition in_world :: "('w, 'a) io \<Rightarrow> ('w \<times> watchlist, 'a) io" where
  "in_world m s = (case m (fst s) of (r, w) \<Rightarrow> (r, (w, snd s)))"

definition record_reads :: "hf_read list \<Rightarrow> watchlist \<Rightarrow> watchlist" where
  "record_reads reads = fold (\<lambda>r. wl_updateHealthFactor (hr_address r) (hr_healthFactor r)) reads"

definition read_batch :: "(address list \<Rightarrow> ('w, account_data option list) io) \<Rightarrow> address list \<Rightarrow> ('w, hf_read list) sweep_io" where
  "read_batch multicall batch =
     io_bind (in_world (multicall batch)) (\<lambda>results.
       let reads = map hf_read_of (read_rows batch results)
       in io_then (io_modify (\<lambda>s. (fst s, record_reads reads (snd s)))) (io_return reads))"

definition readHealthFactors ::
  "(address list \<Rightarrow> ('w, account_data option list) io) \<Rightarrow> nat option \<Rightarrow> address list \<Rightarrow> ('w, hf_read list) sweep_io" where
  "readHealthFactors multicall batchSize addresses =
     io_bind (io_map (read_batch multicall) (batches (case batchSize of Some n \<Rightarrow> n | None \<Rightarrow> 250) addresses))
       (\<lambda>reads. io_return (concat reads))"

definition filterReadsBelowHealthFactor :: "hf_read list \<Rightarrow> int \<Rightarrow> int \<Rightarrow> hf_read list" where
  "filterReadsBelowHealthFactor reads maxHealthFactorWad minDebtBase =
     filter (\<lambda>r. hr_healthFactor r < maxHealthFactorWad \<and> minDebtBase < hr_totalDebtBase r) reads"

definition sweepHealthFactors ::
  "(address list \<Rightarrow> ('w, account_data option list) io) \<Rightarrow> nat option \<Rightarrow> int \<Rightarrow> address list \<Rightarrow> ('w, hf_read list) sweep_io" where
  "sweepHealthFactors multicall batchSize minDebt addresses =
     io_bind (readHealthFactors multicall batchSize addresses) (\<lambda>reads.
       io_return (filter (\<lambda>r. hr_healthFactor r < WAD \<and> minDebt < hr_totalDebtBase r) reads))"

text \<open>The addresses of a sweep: the unknown and the risky ones always, the others every so many blocks.\<close>

definition known_safe :: "watchlist \<Rightarrow> address \<Rightarrow> bool" where
  "known_safe w a =
     (case js_get w (to_lower a) of
        None \<Rightarrow> False
      | Some e \<Rightarrow> (case we_lastHealthFactor e of None \<Rightarrow> False | Some hf \<Rightarrow> PRE_LIQUIDATABLE_WAD \<le> hf))"

definition filterAddressesForSweep :: "watchlist \<Rightarrow> int \<Rightarrow> int \<Rightarrow> address list" where
  "filterAddressesForSweep w currentBlock lowTierEveryBlocks =
     (let runLowTier = (0 < lowTierEveryBlocks \<and> currentBlock mod lowTierEveryBlocks = 0)
      in filter (\<lambda>a. \<not> known_safe w a) (wl_addresses w)
         @ (if runLowTier then filter (known_safe w) (wl_addresses w) else []))"

section \<open>Snapshots of borrowers\<close>

text \<open>\<open>ViemAaveV3Protocol.getBestLiquidationPair\<close>: the configured pair, whatever the account owes.\<close>

definition getBestLiquidationPair :: "chain_config \<Rightarrow> aave_user_account \<Rightarrow> exn + liquidation_candidate" where
  "getBestLiquidationPair chain account =
     (case selectBestReservePairForAccount chain account of
        Inl e \<Rightarrow> Inl e
      | Inr pair \<Rightarrow> Inr \<lparr>lc_account = ua_account account, lc_collateralAsset = rp_collateralAsset pair, lc_debtAsset = rp_debtAsset pair,
          lc_debtToCover = rp_defaultDebtToCoverWei pair, lc_repayValueUsd = rp_repayValueUsd pair,
          lc_liquidationBonusBps = rp_liquidationBonusBps pair, lc_effectiveLiquidationBonusBps = None, lc_closeFactorBps = None,
          lc_collateralReceivedWei = None, lc_bonusPercentage = None, lc_gasEstimate = None, lc_gasPrice = None,
          lc_healthFactor = ua_healthFactor account\<rparr>)"

definition preLiquidatableHealthFactor :: int where
  "preLiquidatableHealthFactor = 1050000000000000000"

definition pipelineDiagnosticHealthFactor :: int where
  "pipelineDiagnosticHealthFactor = 1500000000000000000"

record 'w snapshot_services =
  sp_client :: "'w aave_client"
  sp_registry :: registry
  sp_chain :: chain_config
  sp_getLiquidatablePositions :: "('w, liquidation_candidate list) io"
  sp_now :: "'w \<Rightarrow> int \<times> 'w"

definition sp_clock :: "'w snapshot_services \<Rightarrow> ('w, int) io" where
  "sp_clock sv w = (case sp_now sv w of (t, w') \<Rightarrow> (Inr t, w'))"

definition resolved_pool :: "'w snapshot_services \<Rightarrow> exn + address" where
  "resolved_pool sv = map_sum id aa_pool (registry_getResolvedAave (sp_registry sv) (cc_name (sp_chain sv)))"

text \<open>The snapshot is the one of the detection adapter.\<close>

definition provider_snapshot :: "int \<Rightarrow> string \<Rightarrow> liquidation_candidate \<Rightarrow> exn + borrower_snapshot" where
  "provider_snapshot now chain candidate = toSnapshot now chain candidate"

definition refreshBorrower :: "'w snapshot_services \<Rightarrow> int \<Rightarrow> address \<Rightarrow> ('w, borrower_snapshot option) io" where
  "refreshBorrower sv hfThreshold account =
     io_bind (io_lift (resolved_pool sv)) (\<lambda>pool.
       io_bind (readUserAccount (sp_client sv) account pool) (\<lambda>userAccount.
         if hfThreshold \<le> ua_healthFactor userAccount \<or> ua_totalDebtBase userAccount \<le> 0 then io_return None
         else io_bind (io_lift (getBestLiquidationPair (sp_chain sv) userAccount)) (\<lambda>candidate.
           io_bind (sp_clock sv) (\<lambda>now.
             io_bind (io_lift (provider_snapshot now (cc_name (sp_chain sv)) candidate)) (\<lambda>snapshot.
               io_return (Some snapshot))))))"

definition refreshBorrowersWithThreshold :: "'w snapshot_services \<Rightarrow> address list \<Rightarrow> int \<Rightarrow> ('w, borrower_snapshot list) io" where
  "refreshBorrowersWithThreshold sv accounts hfThreshold =
     io_then (io_lift (resolved_pool sv))
       (io_bind (io_map (refreshBorrower sv hfThreshold) accounts) (\<lambda>snapshots.
         io_return (List.map_filter id snapshots)))"

definition refreshBorrowers :: "'w snapshot_services \<Rightarrow> address list \<Rightarrow> ('w, borrower_snapshot list) io" where
  "refreshBorrowers sv accounts = refreshBorrowersWithThreshold sv accounts liquidationHealthFactor"

definition refreshWatchlistBorrowers :: "'w snapshot_services \<Rightarrow> address list \<Rightarrow> ('w, borrower_snapshot list) io" where
  "refreshWatchlistBorrowers sv accounts = refreshBorrowersWithThreshold sv accounts preLiquidatableHealthFactor"

definition refreshBorrowersForDiagnostics :: "'w snapshot_services \<Rightarrow> address list \<Rightarrow> ('w, borrower_snapshot list) io" where
  "refreshBorrowersForDiagnostics sv accounts = refreshBorrowersWithThreshold sv accounts pipelineDiagnosticHealthFactor"

definition getBorrowersForReserve :: "'w snapshot_services \<Rightarrow> address \<Rightarrow> ('w, address list) io" where
  "getBorrowersForReserve sv reserve =
     io_bind (sp_getLiquidatablePositions sv) (\<lambda>candidates.
       io_return (fold (\<lambda>c accounts. if to_lower (lc_collateralAsset c) = to_lower reserve \<or> to_lower (lc_debtAsset c) = to_lower reserve
           then set_add (lc_account c) accounts else accounts) candidates []))"

definition provider_pollBorrowers :: "'w snapshot_services \<Rightarrow> ('w, borrower_snapshot list) io" where
  "provider_pollBorrowers sv =
     io_then (io_lift (resolved_pool sv))
       (io_bind (sp_getLiquidatablePositions sv) (io_map (\<lambda>c.
          io_bind (sp_clock sv) (\<lambda>now. io_lift (provider_snapshot now (cc_name (sp_chain sv)) c)))))"

definition liquidationSafetyEstimateUsd :: "aave_user_account \<Rightarrow> rat \<Rightarrow> rat" where
  "liquidationSafetyEstimateUsd account liquidationBonusBps =
     of_int (ua_totalDebtBase account) / 100000000 * (liquidationBonusBps / 10000)"

section \<open>Borrowers in past logs\<close>

record 'w discovery_services =
  dv_getBlockNumber :: "('w, int) io"
  dv_getBorrowLogs :: "int \<Rightarrow> int \<Rightarrow> ('w, pool_log list) io"
  dv_getLiquidationLogs :: "int \<Rightarrow> int \<Rightarrow> ('w, pool_log list) io"

record discovery =
  di_accounts :: "address list"
  di_blocksScanned :: int
  di_borrowLogs :: nat

definition liquidated_user :: "pool_log \<Rightarrow> address list" where
  "liquidated_user entry = (case pl_args entry of None \<Rightarrow> [] | Some args \<Rightarrow> (case la_user args of None \<Rightarrow> [] | Some u \<Rightarrow> [u]))"

definition discover_range :: "'w discovery_services \<Rightarrow> int \<times> int \<Rightarrow> ('w, address list \<times> nat) io" where
  "discover_range sv rng =
     io_bind (dv_getBorrowLogs sv (fst rng) (snd rng)) (\<lambda>logs.
       io_bind (dv_getLiquidationLogs sv (fst rng) (snd rng)) (\<lambda>liqLogs.
         io_return (concat (map extractBorrowerAddressesFromLog logs) @ concat (map liquidated_user liqLogs), length logs)))"

definition discoverBorrowersFromLogs :: "'w discovery_services \<Rightarrow> int \<Rightarrow> int option \<Rightarrow> int option \<Rightarrow> ('w, discovery) io" where
  "discoverBorrowersFromLogs sv lookback maxBlocks chunkBlocks =
     io_bind (dv_getBlockNumber sv) (\<lambda>head.
       let most = or_else maxBlocks lookback;
           blocksToScan = (if most < lookback then most else lookback);
           from = (if blocksToScan < head then head - blocksToScan else 0)
       in io_bind (io_map (discover_range sv) (block_ranges (or_else chunkBlocks 5000) from head)) (\<lambda>found.
            io_return \<lparr>di_accounts = fold set_add (concat (map fst found)) [], di_blocksScanned = head - from,
              di_borrowLogs = sum_list (map snd found)\<rparr>))"

definition debt_batch :: "(address list \<Rightarrow> ('w, account_data option list) io) \<Rightarrow> address list \<Rightarrow> ('w, address list) io" where
  "debt_batch multicall batch =
     io_bind (multicall batch) (\<lambda>results.
       io_return (map fst (filter (\<lambda>row. 0 < data_debt (snd row)) (read_rows batch results))))"

definition filterAccountsWithDebt :: "(address list \<Rightarrow> ('w, account_data option list) io) \<Rightarrow> address list \<Rightarrow> ('w, address list) io" where
  "filterAccountsWithDebt multicall accounts =
     io_bind (io_map (debt_batch multicall) (batches 250 accounts)) (\<lambda>found. io_return (concat found))"

section \<open>The reserve allowlist\<close>

record allowlist_reserve_row =
  aw_asset :: address
  aw_scaledCollateral :: int
  aw_scaledDebt :: int

definition reservesTouchAllowlist :: "allowlist_reserve_row list \<Rightarrow> address list \<Rightarrow> bool" where
  "reservesTouchAllowlist reserves allowlist =
     (allowlist = [] \<or>
      list_ex (\<lambda>r. (0 < aw_scaledDebt r \<or> 0 < aw_scaledCollateral r) \<and> to_lower (aw_asset r) \<in> set (map to_lower allowlist)) reserves)"

definition snapshotTouchesAllowlist :: "borrower_snapshot \<Rightarrow> string list \<Rightarrow> bool" where
  "snapshotTouchesAllowlist snapshot allowlist =
     (allowlist = [] \<or>
      list_ex (\<lambda>r. (0 < am_raw (br_variableDebt r) \<or> 0 < am_raw (br_stableDebt r) \<or> 0 < am_raw (br_collateralBalance r))
        \<and> to_lower (br_assetAddress r) \<in> set allowlist) (bs_reserves snapshot))"

definition filterSnapshotsByAllowlist :: "borrower_snapshot list \<Rightarrow> address list \<Rightarrow> borrower_snapshot list" where
  "filterSnapshotsByAllowlist snapshots allowlist =
     (if allowlist = [] then snapshots else filter (\<lambda>s. snapshotTouchesAllowlist s (map to_lower allowlist)) snapshots)"

record user_reserve =
  ur_underlyingAsset :: address
  ur_scaledATokenBalance :: int
  ur_usageAsCollateralEnabledOnUser :: bool
  ur_scaledVariableDebt :: int

definition allowlist_rows :: "user_reserve list \<Rightarrow> allowlist_reserve_row list" where
  "allowlist_rows rows =
     map (\<lambda>r. \<lparr>aw_asset = ur_underlyingAsset r,
            aw_scaledCollateral = (if ur_usageAsCollateralEnabledOnUser r then ur_scaledATokenBalance r else 0),
            aw_scaledDebt = ur_scaledVariableDebt r\<rparr>)
       (filter (\<lambda>r. \<not> (ur_scaledATokenBalance r = 0 \<and> ur_scaledVariableDebt r = 0)) rows)"

definition allowlist_batch ::
  "(address list \<Rightarrow> ('w, user_reserve list option list) io) \<Rightarrow> address list \<Rightarrow> address list \<Rightarrow> ('w, string list) io" where
  "allowlist_batch multicall allowlist batch =
     io_bind (multicall batch) (\<lambda>results.
       io_return (map (to_lower \<circ> fst)
         (filter (\<lambda>row. reservesTouchAllowlist (allowlist_rows (snd row)) allowlist) (read_rows batch results))))"

definition filterAccountsTouchingReserveAllowlist ::
  "(address list \<Rightarrow> ('w, user_reserve list option list) io) \<Rightarrow> nat option \<Rightarrow> address list \<Rightarrow> address list \<Rightarrow> ('w, string set) io" where
  "filterAccountsTouchingReserveAllowlist multicall batchSize accounts allowlist =
     (if allowlist = [] then io_return (set (map to_lower accounts))
      else io_bind (io_map (allowlist_batch multicall allowlist) (batches (or_else batchSize 250) accounts))
        (\<lambda>allowed. io_return (set (concat allowed))))"

definition symbolToBaseAddress :: "(string \<times> address) list" where
  "symbolToBaseAddress =
     [(''WETH'', ''0x4200000000000000000000000000000000000006''), (''USDC'', ''0x833589fCD6eDb6E08f4c7C32D4f71b54bdA02913''),
      (''USDT'', ''0xfde4C96c8593536E31F229EA8f37b2ADa2699bb2''), (''USDBC'', ''0xd9aaEC86B65d86f6A7B5B1b0c42FFA531710B6CA''),
      (''CBBTC'', ''0xcbB7C0000aB88B473b1f5aFd9ef808440eed33Bf''), (''BTC'', ''0xcbB7C0000aB88B473b1f5aFd9ef808440eed33Bf''),
      (''CBETH'', ''0x2Ae3F1Ec7F1F5012CFEab0185bfc7aa3cf0DEc22''), (''WSTETH'', ''0xc1CBa3fCea344f92D9239c08C0568f6F2F0ee452''),
      (''WEETH'', ''0x04C0599Ae5A44757c0af6F9eC3b93da8976c150A''), (''GHO'', ''0x6Bb7a212910682DCFdbd5BCBb3e28FB4E8da10Ee''),
      (''EURC'', ''0x60a3E35Cc302bFA44Cb288Bc5a4F316Fdb1adb42''), (''AAVE'', ''0x63706e401c06ac8513145b7687a14804d17f814b''),
      (''TBTC'', ''0x236aa50979d5f3de3bd1eeb40e81137f22ab794b''), (''SYRUPUSDC'', ''0x660975730059246a68521a3e2fbd4740173100f5''),
      (''LBTC'', ''0xecac9c5f704e954931349da37f60e39f515c11c1'')]"

definition defaultAllowlistForChain :: "string \<Rightarrow> address list" where
  "defaultAllowlistForChain chain =
     (if chain \<noteq> ''base'' then []
      else case getChainConfig chain of
             None \<Rightarrow> []
           | Some config \<Rightarrow> fold set_add
               (concat (map (\<lambda>p. [rp_collateralAsset p, rp_debtAsset p]) (cc_reservePairs config))
                 @ [''0xfde4C96c8593536E31F229EA8f37b2ADa2699bb2'', ''0xcbB7C0000aB88B473b1f5aFd9ef808440eed33Bf'']) [])"

definition upper_char :: "char \<Rightarrow> char" where
  "upper_char c = (let n = (of_char c :: nat) in if 97 \<le> n \<and> n \<le> 122 then char_of (n - 32) else c)"

fun str_split :: "char \<Rightarrow> string \<Rightarrow> string list" where
  "str_split sep [] = [[]]"
| "str_split sep (c # cs) =
     (if c = sep then [] # str_split sep cs else (case str_split sep cs of [] \<Rightarrow> [[c]] | part # rest \<Rightarrow> (c # part) # rest))"

definition parseWatchlistReserveAllowlist :: "string option \<Rightarrow> string \<Rightarrow> address list" where
  "parseWatchlistReserveAllowlist raw chain =
     (case raw of
        None \<Rightarrow> defaultAllowlistForChain chain
      | Some text \<Rightarrow>
          if str_trim text = [] then defaultAllowlistForChain chain
          else let symbols = filter (\<lambda>p. p \<noteq> []) (map (\<lambda>p. map upper_char (str_trim p)) (str_split (CHR '','') text));
                   addresses = List.map_filter (map_of symbolToBaseAddress) symbols
               in if addresses \<noteq> [] then addresses else defaultAllowlistForChain chain)"

section \<open>Lemmas\<close>

text \<open>A multicall that answers each address with a fixed row, or with the failure of that call.\<close>

definition answers :: "(address list \<Rightarrow> ('w, 'r option list) io) \<Rightarrow> (address \<Rightarrow> 'r option) \<Rightarrow> bool" where
  "answers multicall f \<longleftrightarrow> (\<forall>batch w. \<exists>w'. multicall batch w = (Inr (map f batch), w'))"

definition rows_of :: "(address \<Rightarrow> 'r option) \<Rightarrow> address list \<Rightarrow> (address \<times> 'r) list" where
  "rows_of f addresses = List.map_filter (\<lambda>a. map_option (Pair a) (f a)) addresses"

lemma read_rows_answers: "read_rows batch (map f batch) = rows_of f batch"
  by (induction batch) (auto simp: read_rows_def rows_of_def map_filter_simps split: option.splits)

lemma rows_of_append: "rows_of f (xs @ ys) = rows_of f xs @ rows_of f ys"
  by (induction xs) (auto simp: rows_of_def map_filter_simps split: option.splits)

lemma rows_of_concat: "rows_of f (concat bs) = concat (map (rows_of f) bs)"
proof (induction bs)
  case Nil
  then show ?case by (simp add: rows_of_def map_filter_simps)
qed (simp add: rows_of_append)

lemma read_batches:
  assumes "answers multicall f"
  shows "\<exists>w'. io_map (read_batch multicall) bs (w, wl) =
    (Inr (map (\<lambda>b. map hf_read_of (rows_of f b)) bs), (w', record_reads (map hf_read_of (rows_of f (concat bs))) wl))"
proof (induction bs arbitrary: w wl)
  case Nil
  then show ?case by (simp add: io_return_def record_reads_def rows_of_def map_filter_simps)
next
  case (Cons b bs)
  obtain w1 where "multicall b w = (Inr (map f b), w1)" using assms unfolding answers_def by blast
  then have "read_batch multicall b (w, wl) = (Inr (map hf_read_of (rows_of f b)), (w1, record_reads (map hf_read_of (rows_of f b)) wl))"
    by (simp add: read_batch_def in_world_def io_bind_def io_then_def io_modify_def io_return_def Let_def read_rows_answers)
  moreover obtain w2 where "io_map (read_batch multicall) bs (w1, record_reads (map hf_read_of (rows_of f b)) wl) =
      (Inr (map (\<lambda>b. map hf_read_of (rows_of f b)) bs),
       (w2, record_reads (map hf_read_of (rows_of f (concat bs))) (record_reads (map hf_read_of (rows_of f b)) wl)))"
    using Cons.IH by blast
  ultimately show ?case
    by (simp add: io_bind_def io_return_def record_reads_def rows_of_append)
qed

lemma block_ranges_union:
  "0 < chunk \<Longrightarrow> (\<Union>(a, b) \<in> set (block_ranges chunk lo hi). {a..b}) = {lo..hi}"
proof (induction chunk lo hi rule: block_ranges.induct)
  case (1 chunk lo hi)
  show ?case
  proof (cases "lo \<le> hi")
    case True
    have "(\<Union>(a, b) \<in> set (block_ranges chunk (lo + chunk) hi). {a..b}) = {lo + chunk..hi}" using 1 True by simp
    then have "(\<Union>(a, b) \<in> set (block_ranges chunk lo hi). {a..b}) =
        {lo..(if lo + chunk - 1 < hi then lo + chunk - 1 else hi)} \<union> {lo + chunk..hi}"
      using 1(2) True by (subst block_ranges.simps) simp
    also have "\<dots> = {lo..hi}" using 1(2) True by auto
    finally show ?thesis .
  qed (subst block_ranges.simps, simp)
qed

text \<open>Every chain has the pair of one dollar configured.\<close>

lemma configured_pair:
  assumes "getChainConfig chain = Some cc" and "selectBestReservePairForAccount cc u = Inr pair"
  shows "rp_defaultDebtToCoverWei pair = 1000000 \<and> rp_repayValueUsd pair = 1 \<and> rp_liquidationBonusBps pair = 500"
proof -
  have "(chain, cc) \<in> set chainConfigs" using assms(1) by (auto simp: getChainConfig_def dest: js_get_SomeD)
  then obtain a b where "cc_reservePairs cc = [usdc_weth_pair a b]" by (auto simp: chainConfigs_def)
  with assms(2) show ?thesis by (auto simp: selectBestReservePairForAccount_def usdc_weth_pair_def split: if_splits)
qed

lemma block_ranges_UN:
  assumes "0 < chunk"
  shows "(\<Union>r \<in> set (block_ranges chunk lo hi). \<Union>c \<in> {fst r..snd r}. H c) = (\<Union>c \<in> {lo..hi}. H c)"
proof -
  have "(\<Union>r \<in> set (block_ranges chunk lo hi). {fst r..snd r}) = {lo..hi}"
    using block_ranges_union [OF assms] by (simp add: case_prod_beta)
  then show ?thesis by (simp flip: UN_UN_flatten)
qed

lemma set_fold_set_add: "set (fold set_add xs ys) = set ys \<union> set xs"
  by (induction xs arbitrary: ys) auto

lemma distinct_fold_set_add: "distinct ys \<Longrightarrow> distinct (fold set_add xs ys)"
  by (induction xs arbitrary: ys) (auto simp: set_add_def)

section \<open>Properties\<close>

text \<open>C25. The sweep is a filter of what the pool answers: whatever the size of the batches, it returns
  exactly the addresses that were read with a health factor below one and a debt above the minimum, in
  their order, and the watchlist has recorded every health factor that was read, and no other.\<close>

theorem sweep_is_filter:
  assumes "answers multicall f" and "batchSize \<noteq> Some 0"
  shows "\<exists>w'. sweepHealthFactors multicall batchSize minDebt addresses (w, wl) =
    (Inr (filter (\<lambda>r. hr_healthFactor r < WAD \<and> minDebt < hr_totalDebtBase r) (map hf_read_of (rows_of f addresses))),
     (w', record_reads (map hf_read_of (rows_of f addresses)) wl))"
proof -
  define n where "n = (case batchSize of Some n \<Rightarrow> n | None \<Rightarrow> 250)"
  have n: "concat (batches n addresses) = addresses"
    using assms(2) by (intro concat_batches) (auto simp: n_def split: option.splits)
  have "concat (map (\<lambda>b. map hf_read_of (rows_of f b)) bs) = map hf_read_of (rows_of f (concat bs))" for bs
    by (simp add: rows_of_concat map_concat comp_def)
  with read_batches [OF assms(1), of "batches n addresses" w wl] show ?thesis
    by (auto simp: sweepHealthFactors_def readHealthFactors_def io_bind_def io_return_def n n_def [symmetric])
qed

text \<open>Every snapshot that the provider builds is of the configured pair with one million units of the
  debt token: whatever the account owes, a candidate made from it covers 1000000 units, valued at one
  dollar. The threshold of the refresh holds for the health factor of the snapshot.\<close>

theorem swept_candidates_worth_a_dollar:
  assumes "refreshBorrower sv hfThreshold account w = (Inr (Some snapshot), w')"
    and "getChainConfig chain = Some (sp_chain sv)"
  shows "bs_healthFactor snapshot < hfThreshold \<and>
    (\<forall>cs. toCandidates snapshot = Inr cs \<longrightarrow> (\<forall>c \<in> set cs. lc_debtToCover c = 1000000 \<and> lc_repayValueUsd c = 1))"
proof -
  obtain ua c now where ua: "\<not> hfThreshold \<le> ua_healthFactor ua" and cand: "getBestLiquidationPair (sp_chain sv) ua = Inr c"
    and snap: "toSnapshot now (cc_name (sp_chain sv)) c = Inr snapshot"
    using assms(1) by (auto simp: refreshBorrower_def provider_snapshot_def io_bind_Inr io_return_def io_lift_def split: if_splits)
  have pair: "lc_debtToCover c = 1000000" "lc_liquidationBonusBps c = 500" "lc_healthFactor c = ua_healthFactor ua"
    using cand configured_pair [OF assms(2)] by (auto simp: getBestLiquidationPair_def split: sum.splits)
  have hf: "bs_healthFactor snapshot = ua_healthFactor ua"
    using snap pair(3) by (auto simp: toSnapshot_def Let_def split: sum.splits)
  have "lc_debtToCover d = 1000000 \<and> lc_repayValueUsd d = 1" if "toCandidates snapshot = Inr cs" "d \<in> set cs" for cs d
  proof (cases "lc_healthFactor c < liquidationHealthFactor")
    case True
    with adapter_snapshot_back [OF True, of now "cc_name (sp_chain sv)"] snap pair that show ?thesis by auto
  next
    case False
    with that hf pair(3) show ?thesis by (simp add: toCandidates_def)
  qed
  with ua hf show ?thesis by simp
qed

text \<open>The discovery finds everyone: the accounts it returns are the borrowers of the borrow logs and the
  users of the liquidation logs of all the blocks it looks back, each once, whatever the size of the
  chunks; and it looks back as far as asked, up to the maximum and the first block.\<close>

theorem discovery_complete:
  assumes "\<And>lo hi w logs w'. dv_getBorrowLogs sv lo hi w = (Inr logs, w') \<Longrightarrow> set logs = (\<Union>b \<in> {lo..hi}. set (B b))"
    and "\<And>lo hi w logs w'. dv_getLiquidationLogs sv lo hi w = (Inr logs, w') \<Longrightarrow> set logs = (\<Union>b \<in> {lo..hi}. set (Q b))"
    and "dv_getBlockNumber sv w = (Inr head, w1)" and "0 \<le> head"
    and "discoverBorrowersFromLogs sv lookback maxBlocks chunkBlocks w = (Inr d, w')"
    and "case chunkBlocks of Some c \<Rightarrow> 0 < c | None \<Rightarrow> True"
  defines "from \<equiv> max 0 (head - min (or_else maxBlocks lookback) lookback)"
  shows "distinct (di_accounts d) \<and> di_blocksScanned d = head - from \<and>
    set (di_accounts d) = (\<Union>b \<in> {from..head}. \<Union>entry \<in> set (B b). set (extractBorrowerAddressesFromLog entry))
      \<union> (\<Union>b \<in> {from..head}. \<Union>entry \<in> set (Q b). set (liquidated_user entry))"
proof -
  define ranges where "ranges = block_ranges (or_else chunkBlocks 5000) from head"
  have chunk: "0 < or_else chunkBlocks 5000" using assms(6) by (auto simp: or_else_def split: option.splits)
  have start: "(let most = or_else maxBlocks lookback; blocksToScan = (if most < lookback then most else lookback)
      in if blocksToScan < head then head - blocksToScan else 0) = from"
    using assms(4) by (auto simp: from_def Let_def)
  obtain found where found: "io_map (discover_range sv) ranges w1 = (Inr found, w')"
    and d: "d = \<lparr>di_accounts = fold set_add (concat (map fst found)) [], di_blocksScanned = head - from,
              di_borrowLogs = sum_list (map snd found)\<rparr>"
    using assms(5) start unfolding discoverBorrowersFromLogs_def io_bind_def assms(3) Let_def
    by (auto simp: ranges_def io_return_def split: prod.splits sum.splits)
  define H where "H = (\<lambda>b. (\<Union>entry \<in> set (B b). set (extractBorrowerAddressesFromLog entry)) \<union> (\<Union>entry \<in> set (Q b). set (liquidated_user entry)))"
  have one: "set (fst x) = (\<Union>c \<in> {fst r..snd r}. H c)" if "discover_range sv r v = (Inr x, v')" for r v x v'
  proof -
    from that obtain l v2 q where l: "dv_getBorrowLogs sv (fst r) (snd r) v = (Inr l, v2)"
      and q: "dv_getLiquidationLogs sv (fst r) (snd r) v2 = (Inr q, v')"
      and x: "fst x = concat (map extractBorrowerAddressesFromLog l) @ concat (map liquidated_user q)"
      by (auto simp: discover_range_def io_bind_Inr io_return_def)
    show ?thesis by (simp add: x H_def assms(1) [OF l] assms(2) [OF q] UN_UN_flatten UN_Un_distrib)
  qed
  have "set (concat (map fst found)) = (\<Union>r \<in> set rs. \<Union>c \<in> {fst r..snd r}. H c)"
    if "io_map (discover_range sv) rs v = (Inr found, v')" for rs v v' found
    using that
  proof (induction rs arbitrary: v found)
    case Nil
    then show ?case by (simp add: io_return_def)
  next
    case (Cons r rs)
    then obtain x v1 rest where x: "discover_range sv r v = (Inr x, v1)" and rest: "io_map (discover_range sv) rs v1 = (Inr rest, v')"
      and f: "found = x # rest"
      by (auto simp: io_bind_Inr io_return_def)
    show ?case using one [OF x] Cons.IH [OF rest] by (simp add: f)
  qed
  from this [OF found] have "set (di_accounts d) = (\<Union>r \<in> set ranges. \<Union>c \<in> {fst r..snd r}. H c)"
    by (simp add: d set_fold_set_add)
  also have "\<dots> = (\<Union>c \<in> {from..head}. H c)" unfolding ranges_def by (rule block_ranges_UN [OF chunk])
  also have "\<dots> = (\<Union>b \<in> {from..head}. \<Union>entry \<in> set (B b). set (extractBorrowerAddressesFromLog entry))
      \<union> (\<Union>b \<in> {from..head}. \<Union>entry \<in> set (Q b). set (liquidated_user entry))"
    by (simp add: H_def UN_Un_distrib)
  finally show ?thesis by (simp add: d distinct_fold_set_add)
qed

section \<open>Witnesses\<close>

text \<open>Three accounts: one below one, one whose read fails, one that is safe.\<close>

definition sample_rows :: "address \<Rightarrow> account_data option" where
  "sample_rows a = (if a = ''0xa1'' then Some (900, 1000, 0, 8000, 7500, 900000000000000000)
     else if a = ''0xa2'' then None else Some (9000, 1000, 0, 8000, 7500, 7200000000000000000))"

definition sample_multicall :: "address list \<Rightarrow> (unit, account_data option list) io" where
  "sample_multicall batch = io_return (map sample_rows batch)"

theorem sweep_is_filter_witness:
  "fst (sweepHealthFactors sample_multicall (Some 2) 100 [''0xa1'', ''0xa2'', ''0xa3''] ((), [])) =
     Inr [\<lparr>hr_address = ''0xa1'', hr_healthFactor = 900000000000000000, hr_totalDebtBase = 1000\<rparr>]"
proof -
  have "answers sample_multicall sample_rows" by (simp add: answers_def sample_multicall_def io_return_def)
  from sweep_is_filter [OF this, of "Some 2" 100 "[''0xa1'', ''0xa2'', ''0xa3'']" "()" "[]"] show ?thesis
    by (auto simp: rows_of_def sample_rows_def map_filter_simps hf_read_of_def data_health_def data_debt_def WAD_def)
qed

definition base_chain :: chain_config where
  "base_chain = snd (chainConfigs ! 2)"

definition sample_snapshots :: "unit snapshot_services" where
  "sample_snapshots = \<lparr>sp_client = \<lparr>ac_getUserAccountData = (\<lambda>pool a. io_return (900, 1000, 0, 8000, 7500, 900000000000000000)),
       ac_requestPage = (\<lambda>n c. io_return None)\<rparr>,
     sp_registry = base_registry, sp_chain = base_chain, sp_getLiquidatablePositions = io_return [], sp_now = (\<lambda>w. (1000, w))\<rparr>"

theorem swept_candidates_worth_a_dollar_witness:
  "\<exists>snapshot w' cs. refreshBorrower sample_snapshots liquidationHealthFactor ''0xa1'' () = (Inr (Some snapshot), w') \<and>
     toCandidates snapshot = Inr cs \<and> map lc_repayValueUsd cs = [1]"
proof -
  let ?c = "\<lparr>lc_account = ''0xa1'', lc_collateralAsset = ''0x4200000000000000000000000000000000000006'',
    lc_debtAsset = ''0x833589fCD6eDb6E08f4c7C32D4f71b54bdA02913'', lc_debtToCover = 1000000, lc_repayValueUsd = 1,
    lc_liquidationBonusBps = 500, lc_effectiveLiquidationBonusBps = None, lc_closeFactorBps = None,
    lc_collateralReceivedWei = None, lc_bonusPercentage = None, lc_gasEstimate = None, lc_gasPrice = None,
    lc_healthFactor = 900000000000000000\<rparr>"
  obtain snapshot where snap: "toSnapshot 1000 ''base'' ?c = Inr snapshot" and "toCandidates snapshot = Inr [?c]"
    using adapter_snapshot_back [of ?c 1000 "''base''"] by (auto simp: liquidationHealthFactor_def)
  moreover have "registry_get base_registry ''base'' = Inr (createRegisteredChain zero_aave base_input)"
    by (simp add: base_registry_def js_get_def)
  then have "resolved_pool sample_snapshots = Inr (aa_pool (rc_aave (createRegisteredChain zero_aave base_input)))"
    unfolding resolved_pool_def registry_getResolvedAave_def sample_snapshots_def base_chain_def chainConfigs_def
    by (simp del: registry_get_iff)
  ultimately have run: "refreshBorrower sample_snapshots liquidationHealthFactor ''0xa1'' () = (Inr (Some snapshot), ())"
      and cs: "toCandidates snapshot = Inr [?c]"
    by (simp_all add: refreshBorrower_def io_bind_def io_lift_def readUserAccount_def io_return_def sample_snapshots_def base_chain_def
        chainConfigs_def getBestLiquidationPair_def selectBestReservePairForAccount_def usdc_weth_pair_def sp_clock_def
        provider_snapshot_def liquidationHealthFactor_def)
  have "getChainConfig ''base'' = Some (sp_chain sample_snapshots)"
    by (simp add: getChainConfig_def chainConfigs_def sample_snapshots_def base_chain_def js_get_def)
  from swept_candidates_worth_a_dollar [OF run this] cs have "\<forall>c \<in> set [?c]. lc_repayValueUsd c = 1" by blast
  then have "map lc_repayValueUsd [?c] = [1]" by simp
  with run cs show ?thesis by (intro exI conjI)
qed

definition sample_discovery :: "unit discovery_services" where
  "sample_discovery = \<lparr>dv_getBlockNumber = io_return 130, dv_getBorrowLogs = (\<lambda>lo hi. io_return (concat (map sample_logs [lo..hi]))),
     dv_getLiquidationLogs = (\<lambda>lo hi. io_return [])\<rparr>"

theorem discovery_complete_witness:
  "\<exists>d. discoverBorrowersFromLogs sample_discovery 30 None (Some 10) () = (Inr d, ()) \<and> distinct (di_accounts d) \<and> di_blocksScanned d = 30"
proof -
  have "\<not> isl (fst (discoverBorrowersFromLogs sample_discovery 30 None (Some 10) ()))" by code_simp
  then obtain d where run: "discoverBorrowersFromLogs sample_discovery 30 None (Some 10) () = (Inr d, ())"
    by (cases "fst (discoverBorrowersFromLogs sample_discovery 30 None (Some 10) ())") (auto simp: prod_eq_iff)
  have "distinct (di_accounts d) \<and> di_blocksScanned d = 130 - max 0 (130 - min (or_else None 30) 30)"
    using discovery_complete [of sample_discovery sample_logs "\<lambda>_. []", OF _ _ _ _ run]
    by (simp add: sample_discovery_def io_return_def)
  with run show ?thesis by (simp add: or_else_def)
qed

end
