(* ===== verification/Watchlist_Coordinator.thy ===== *)
theory Watchlist_Coordinator
  imports Watchlist_Sweep
begin

text \<open>
  \<open>src/monitors/watchlistCoordinator.ts\<close>: it seeds the watchlist at the start, keeps it in step with the
  logs, sweeps the health factors of its borrowers and hands snapshots of the risky ones on. The state
  holds the one of the event-driven watchlist, whose callbacks it serves. The callback for snapshots is
  recorded in the order of its calls. What the code starts without waiting for it (the full sweep and
  the pruning of a deferred cold start, the refresh for a log) is an operation of its own. Timers,
  metrics and log lines are left out.
\<close>

section \<open>State and services\<close>

record 'w coord_services =
  cv_logs :: "'w log_services"
  cv_multicall :: "address list \<Rightarrow> ('w, account_data option list) io"
  cv_userReserves :: "address list \<Rightarrow> ('w, user_reserve list option list) io"
  cv_snapshots :: "'w snapshot_services"
  cv_coldStart :: "'w discovery_services"
  cv_seedIndex :: "('w, address list) io"

record coord_config =
  cq_chain :: string
  cq_watch :: watch_config
  cq_minDebtBase :: int
  cq_multicallBatchSize :: "nat option"
  cq_lowTierEveryBlocks :: "int option"
  cq_coldStartLookbackBlocks :: "int option"
  cq_onChainColdStartLookbackBlocks :: "int option"
  cq_onChainColdStartMaxBlocks :: "int option"
  cq_reserveAllowlist :: "address list option"
  cq_allowlistVariable :: "string option"
  cq_coldStartIndexer :: "string option"
  cq_skipColdStartFullSweep :: bool
  cq_deferToEventPurityStack :: bool

record 'w coord_state =
  co_watch :: "'w watch_state"
  co_lastUpdate :: int
  co_borrowersDiscovered :: int
  co_diagnosticSampleCursor :: nat
  co_started :: bool
  co_sweepInFlight :: bool
  co_onSnapshots :: "borrower_snapshot list list"

type_synonym ('w, 'a) coord_io = "('w coord_state, 'a) io"

definition in_watch :: "('w, 'a) watch_io \<Rightarrow> ('w, 'a) coord_io" where
  "in_watch m s = (case m (co_watch s) of (r, w) \<Rightarrow> (r, s\<lparr>co_watch := w\<rparr>))"

definition ccall :: "('w, 'a) io \<Rightarrow> ('w, 'a) coord_io" where
  "ccall m = in_watch (wcall m)"

definition in_sweep :: "('w, 'a) sweep_io \<Rightarrow> ('w, 'a) coord_io" where
  "in_sweep m = in_watch (\<lambda>s. case m (wa_world s, wa_watchlist s) of
     (r, (w, wl)) \<Rightarrow> (r, s\<lparr>wa_world := w, wa_watchlist := wl\<rparr>))"

definition coord_watchlist :: "'w coord_state \<Rightarrow> watchlist" where
  "coord_watchlist s = wa_watchlist (co_watch s)"

definition set_watchlist :: "(watchlist \<Rightarrow> watchlist) \<Rightarrow> ('w, unit) coord_io" where
  "set_watchlist f = in_watch (io_modify (\<lambda>s. s\<lparr>wa_watchlist := f (wa_watchlist s)\<rparr>))"

definition add_to_watchlist :: "coord_config \<Rightarrow> int \<Rightarrow> address \<Rightarrow> watchlist \<Rightarrow> watchlist" where
  "add_to_watchlist cfg block a = wl_add (wc_maxSize (cq_watch cfg)) (wc_staleBlocks (cq_watch cfg)) a block None"

text \<open>\<open>stalenessGuard.record\<close>\<close>

definition record_update :: "'w coord_services \<Rightarrow> ('w, unit) coord_io" where
  "record_update sv = io_bind (ccall (sp_clock (cv_snapshots sv))) (\<lambda>now. io_modify (\<lambda>s. s\<lparr>co_lastUpdate := now\<rparr>))"

section \<open>Sweeps\<close>

text \<open>The rotating sample for the diagnostics.\<close>

definition rotated :: "nat \<Rightarrow> nat \<Rightarrow> 'a list \<Rightarrow> 'a list" where
  "rotated start k xs = map (\<lambda>i. xs ! ((start + i) mod length xs)) [0..<k]"

definition sample_batch :: "nat \<Rightarrow> 'w coord_state \<Rightarrow> address list" where
  "sample_batch batchSize s =
     (let addresses = wl_addresses (coord_watchlist s)
      in rotated (co_diagnosticSampleCursor s mod length addresses) (min batchSize (length addresses)) addresses)"

definition sampleDiagnosticHealthFactors :: "'w coord_services \<Rightarrow> coord_config \<Rightarrow> nat \<Rightarrow> ('w, hf_read list) coord_io" where
  "sampleDiagnosticHealthFactors sv cfg batchSize =
     io_bind (io_get (\<lambda>s. (wl_addresses (coord_watchlist s), sample_batch batchSize s))) (\<lambda>(addresses, batch).
       if addresses = [] then io_return []
       else let size = min batchSize (length addresses)
            in io_then (io_modify (\<lambda>s. s\<lparr>co_diagnosticSampleCursor := (co_diagnosticSampleCursor s mod length addresses + size) mod length addresses\<rparr>))
              (io_bind (in_sweep (readHealthFactors (cv_multicall sv) (cq_multicallBatchSize cfg) batch)) (\<lambda>reads.
                io_return (filterReadsBelowHealthFactor reads PIPELINE_DIAGNOSTIC_HF_WAD (cq_minDebtBase cfg)))))"

text \<open>Health factors of the targets, then a snapshot of each account that can be liquidated.\<close>

definition sweep_targets :: "'w coord_services \<Rightarrow> coord_config \<Rightarrow> address list \<Rightarrow> ('w, borrower_snapshot list) coord_io" where
  "sweep_targets sv cfg targets =
     io_bind (in_sweep (sweepHealthFactors (cv_multicall sv) (cq_multicallBatchSize cfg) (cq_minDebtBase cfg) targets)) (\<lambda>liquidatable.
       io_bind (io_map (\<lambda>r. ccall (refreshBorrowers (cv_snapshots sv) [hr_address r])) liquidatable) (\<lambda>snapshots.
         io_then (record_update sv) (io_return (concat snapshots))))"

definition runTieredSweep :: "'w coord_services \<Rightarrow> coord_config \<Rightarrow> int option \<Rightarrow> ('w, borrower_snapshot list) coord_io" where
  "runTieredSweep sv cfg blockNumber =
     io_bind (case blockNumber of Some b \<Rightarrow> io_return b | None \<Rightarrow> ccall (lw_getBlockNumber (cv_logs sv))) (\<lambda>block.
       io_bind (io_get (\<lambda>s. filterAddressesForSweep (coord_watchlist s) block (or_else (cq_lowTierEveryBlocks cfg) 100))) (\<lambda>targets.
         if targets = [] then io_then (record_update sv) (io_return [])
         else sweep_targets sv cfg targets))"

definition runColdStartFullSweep :: "'w coord_services \<Rightarrow> coord_config \<Rightarrow> ('w, borrower_snapshot list) coord_io" where
  "runColdStartFullSweep sv cfg =
     io_bind (io_get (\<lambda>s. wl_addresses (coord_watchlist s))) (\<lambda>targets.
       if targets = [] then io_then (record_update sv) (io_return [])
       else sweep_targets sv cfg targets)"

definition sweepAndRefresh :: "'w coord_services \<Rightarrow> coord_config \<Rightarrow> int option \<Rightarrow> ('w, unit) coord_io" where
  "sweepAndRefresh sv cfg blockNumber s =
     (if \<not> co_started s \<or> co_sweepInFlight s then (Inr (), s)
      else io_finally (io_then (runTieredSweep sv cfg blockNumber) (io_return ()))
        (\<lambda>s'. s'\<lparr>co_sweepInFlight := False\<rparr>) (s\<lparr>co_sweepInFlight := True\<rparr>))"

definition pollBorrowers :: "'w coord_services \<Rightarrow> coord_config \<Rightarrow> ('w, borrower_snapshot list) coord_io" where
  "pollBorrowers sv cfg = runTieredSweep sv cfg None"

section \<open>Accounts that are announced\<close>

definition refreshActiveAccounts :: "'w coord_services \<Rightarrow> address list \<Rightarrow> ('w, unit) coord_io" where
  "refreshActiveAccounts sv accounts =
     io_bind (io_get co_started) (\<lambda>started.
       if \<not> started \<or> accounts = [] then io_return ()
       else io_bind (ccall (refreshWatchlistBorrowers (cv_snapshots sv) accounts)) (\<lambda>snapshots.
         if snapshots = [] then io_return ()
         else io_modify (\<lambda>s. s\<lparr>co_onSnapshots := co_onSnapshots s @ [snapshots]\<rparr>)))"

definition refreshPriorityAccounts :: "'w coord_services \<Rightarrow> address list \<Rightarrow> ('w, unit) coord_io" where
  "refreshPriorityAccounts sv accounts = refreshActiveAccounts sv accounts"

definition register_one :: "coord_config \<Rightarrow> int \<Rightarrow> address \<Rightarrow> watchlist \<times> int \<Rightarrow> watchlist \<times> int" where
  "register_one cfg block a acc =
     (let w' = add_to_watchlist cfg block a (fst acc)
      in (w', if wl_size (fst acc) < wl_size w' then snd acc + 1 else snd acc))"

definition registerBorrowers :: "'w coord_services \<Rightarrow> coord_config \<Rightarrow> address list \<Rightarrow> int option \<Rightarrow> ('w, int) coord_io" where
  "registerBorrowers sv cfg accounts blockNumber =
     (if accounts = [] then io_return 0
      else io_bind (io_get (\<lambda>s. fold (register_one cfg (or_else blockNumber 0)) accounts (coord_watchlist s, 0))) (\<lambda>(w, added).
        io_then (set_watchlist (\<lambda>_. w))
          (io_then (io_modify (\<lambda>s. s\<lparr>co_borrowersDiscovered := co_borrowersDiscovered s + added\<rparr>))
            (io_then (if 0 < added then record_update sv else io_return ()) (io_return added)))))"

definition getWatchlistStats :: "'w coord_state \<Rightarrow> nat \<times> int" where
  "getWatchlistStats s = (wl_size (coord_watchlist s), co_borrowersDiscovered s)"

text \<open>Logs that the subscription delivers: the two callbacks, the second of them not awaited.\<close>

definition watch_activity :: "'w coord_services \<Rightarrow> ('w, unit) watch_io \<Rightarrow> ('w, unit) coord_io" where
  "watch_activity sv m =
     io_bind (io_get (\<lambda>s. wa_activity (co_watch s))) (\<lambda>before.
       io_then (in_watch m)
         (io_bind (io_get (\<lambda>s. wa_activity (co_watch s))) (\<lambda>after.
           if before < after then record_update sv else io_return ())))"

definition deliver_logs :: "'w coord_services \<Rightarrow> coord_config \<Rightarrow> pool_log list \<Rightarrow> ('w, unit) coord_io" where
  "deliver_logs sv cfg logs =
     io_bind (io_get (\<lambda>s. length (wa_accountsActivity (co_watch s)))) (\<lambda>calls.
       io_then (watch_activity sv (handleLogs (cv_logs sv) (cq_watch cfg) logs))
         (io_bind (io_get (\<lambda>s. concat (drop calls (wa_accountsActivity (co_watch s))))) (refreshActiveAccounts sv)))"

section \<open>The cold start\<close>

definition prune_allowlist :: "coord_config \<Rightarrow> address list" where
  "prune_allowlist cfg = (case cq_reserveAllowlist cfg of Some l \<Rightarrow> l
     | None \<Rightarrow> parseWatchlistReserveAllowlist (cq_allowlistVariable cfg) (cq_chain cfg))"

definition pruneWatchlistByReserveAllowlist :: "'w coord_services \<Rightarrow> coord_config \<Rightarrow> ('w, unit) coord_io" where
  "pruneWatchlistByReserveAllowlist sv cfg =
     (let allowlist = prune_allowlist cfg
      in if allowlist = [] then io_return ()
         else io_bind (io_get (\<lambda>s. wl_addresses (coord_watchlist s))) (\<lambda>accounts.
           if accounts = [] then io_return ()
           else io_bind (ccall (filterAccountsTouchingReserveAllowlist (cv_userReserves sv) (cq_multicallBatchSize cfg) accounts allowlist)) (\<lambda>allowed.
             set_watchlist (fold (\<lambda>a w. if to_lower a \<notin> allowed then snd (wl_remove a w) else w) accounts))))"

definition runReservePrune :: "'w coord_services \<Rightarrow> coord_config \<Rightarrow> address list \<Rightarrow> int \<Rightarrow> ('w, unit) coord_io" where
  "runReservePrune sv cfg beforePrune blockNumber =
     io_then (pruneWatchlistByReserveAllowlist sv cfg)
       (io_bind (io_get (\<lambda>s. wl_size (coord_watchlist s))) (\<lambda>size.
         if size < 100 \<and> 100 \<le> length beforePrune
         then set_watchlist (fold (add_to_watchlist cfg blockNumber) beforePrune)
         else io_return ()))"

text \<open>The seed from an index: whether it found anyone.\<close>

definition seed_from_index :: "'w coord_services \<Rightarrow> coord_config \<Rightarrow> ('w, bool) coord_io" where
  "seed_from_index sv cfg =
     io_bind (ccall (cv_seedIndex sv)) (\<lambda>addresses.
       if addresses = [] then io_return False
       else io_bind (ccall (lw_getBlockNumber (cv_logs sv))) (\<lambda>blockNumber.
         io_then (set_watchlist (fold (add_to_watchlist cfg blockNumber) addresses)) (io_return True)))"

definition cold_start_lookback :: "coord_config \<Rightarrow> int" where
  "cold_start_lookback cfg =
     (case cq_onChainColdStartLookbackBlocks cfg of
        Some b \<Rightarrow> b | None \<Rightarrow> (case cq_coldStartLookbackBlocks cfg of Some b \<Rightarrow> b | None \<Rightarrow> 200000))"

definition seed_on_chain :: "'w coord_services \<Rightarrow> coord_config \<Rightarrow> ('w, unit) coord_io" where
  "seed_on_chain sv cfg =
     io_bind (ccall (discoverBorrowersFromLogs (cv_coldStart sv) (cold_start_lookback cfg)
         (Some (or_else (cq_onChainColdStartMaxBlocks cfg) 200000)) (Some 5000))) (\<lambda>discovery.
     io_bind (ccall (filterAccountsWithDebt (cv_multicall sv) (di_accounts discovery))) (\<lambda>withDebt.
     io_bind (ccall (lw_getBlockNumber (cv_logs sv))) (\<lambda>blockNumber.
     io_then (set_watchlist (fold (add_to_watchlist cfg blockNumber) withDebt))
       (io_bind (io_get (\<lambda>s. wl_size (coord_watchlist s))) (\<lambda>size0.
       io_then (if size0 = 0 then watch_activity sv (coldStartFromLogs (cv_logs sv) (cq_watch cfg) (cold_start_lookback cfg)) else io_return ())
         (io_bind (io_get (\<lambda>s. wl_size (coord_watchlist s))) (\<lambda>size.
           if size = 0 then io_throw (Exn ''on-chain and log cold-start returned zero borrowers'')
           else io_then (io_modify (\<lambda>s. s\<lparr>co_borrowersDiscovered := int size\<rparr>))
             (if cq_skipColdStartFullSweep cfg then io_return () else runReservePrune sv cfg withDebt blockNumber))))))))"

definition seedColdStart :: "'w coord_services \<Rightarrow> coord_config \<Rightarrow> ('w, unit) coord_io" where
  "seedColdStart sv cfg =
     (let indexer = to_lower (str_trim (or_else (cq_coldStartIndexer cfg) ''onchain''))
      in io_bind (if indexer = ''onchain'' then io_return False else io_catch (seed_from_index sv cfg) (\<lambda>_. io_return False)) (\<lambda>seeded.
           if seeded then io_return ()
           else io_catch (seed_on_chain sv cfg) (\<lambda>_. io_return ())))"

definition coordinator_start :: "'w coord_services \<Rightarrow> coord_config \<Rightarrow> ('w, unit) coord_io" where
  "coordinator_start sv cfg =
     io_bind (io_get co_started) (\<lambda>started.
       if started then io_return ()
       else io_then (seedColdStart sv cfg)
         (io_then (if cq_skipColdStartFullSweep cfg then io_return () else io_then (runColdStartFullSweep sv cfg) (io_return ()))
           (io_then (if cq_deferToEventPurityStack cfg then io_return ()
                     else watch_activity sv (replayGapFromCursor (cv_logs sv) (cq_watch cfg)))
             (io_then (record_update sv) (io_modify (\<lambda>s. s\<lparr>co_started := True\<rparr>))))))"

definition coordinator_stop :: "'w coord_services \<Rightarrow> ('w, unit) coord_io" where
  "coordinator_stop sv = io_then (ccall (cursor_close (lw_cursor (cv_logs sv)))) (io_modify (\<lambda>s. s\<lparr>co_started := False\<rparr>))"

section \<open>Lemmas\<close>

lemma wl_addresses_record_reads: "wl_addresses (record_reads reads w) = wl_addresses w"
proof -
  have "js_keys (wl_updateHealthFactor a h w) = js_keys w" for a h and w :: watchlist
    by (auto simp: wl_updateHealthFactor_def js_keys_set_eq js_has_iff split: option.splits)
  then show ?thesis unfolding record_reads_def wl_addresses_def by (induction reads arbitrary: w) simp_all
qed

text \<open>What keeps the snapshots announced so far.\<close>

lemma io_keeps_in_watch [io_rules]: "(\<And>s w. P s \<Longrightarrow> P (s\<lparr>co_watch := w\<rparr>)) \<Longrightarrow> io_keeps P (in_watch m)"
  by (auto simp: io_keeps_def io_valid_def in_watch_def split: prod.splits sum.splits)

lemma sweeps_keep:
  assumes "\<And>s w. P s \<Longrightarrow> P (s\<lparr>co_watch := w\<rparr>)" "\<And>s t. P s \<Longrightarrow> P (s\<lparr>co_lastUpdate := t\<rparr>)"
  shows "io_keeps P (runTieredSweep sv cfg blockNumber)"
  unfolding runTieredSweep_def sweep_targets_def record_update_def ccall_def in_sweep_def
  by (intro io_rules) (auto intro: assms io_rules)

lemma keeps_in_world: "io_keeps (\<lambda>s. wl_addresses (snd s) = A) (in_world m)"
  by (auto simp: io_keeps_def io_valid_def in_world_def split: prod.splits sum.splits)

lemma read_keeps_addresses: "io_keeps (\<lambda>s. wl_addresses (snd s) = A) (readHealthFactors multicall batchSize addresses)"
  unfolding readHealthFactors_def read_batch_def Let_def
  by (intro io_rules keeps_in_world) (simp_all add: wl_addresses_record_reads)

lemma sample_step:
  fixes s :: "'w coord_state"
  assumes "wl_addresses (coord_watchlist s) = addresses" and "addresses \<noteq> []"
  shows "wl_addresses (coord_watchlist (snd (sampleDiagnosticHealthFactors sv cfg batchSize s))) = addresses \<and>
    co_diagnosticSampleCursor (snd (sampleDiagnosticHealthFactors sv cfg batchSize s)) =
      (co_diagnosticSampleCursor s mod length addresses + min batchSize (length addresses)) mod length addresses"
proof -
  define batch where "batch = sample_batch batchSize s"
  define s1 where "s1 = s\<lparr>co_diagnosticSampleCursor := (co_diagnosticSampleCursor s mod length addresses + min batchSize (length addresses)) mod length addresses\<rparr>"
  let ?reads = "readHealthFactors (cv_multicall sv) (cq_multicallBatchSize cfg) batch"
  obtain r w wl where run: "?reads (wa_world (co_watch s), wa_watchlist (co_watch s)) = (r, (w, wl))" by (metis surj_pair)
  have "wl_addresses wl = addresses"
    using io_keepsD [OF read_keeps_addresses, of "(wa_world (co_watch s), wa_watchlist (co_watch s))" addresses "cv_multicall sv"
        "cq_multicallBatchSize cfg" batch] assms(1) run by (simp add: coord_watchlist_def)
  moreover have "snd (sampleDiagnosticHealthFactors sv cfg batchSize s) = s1\<lparr>co_watch := (co_watch s)\<lparr>wa_world := w, wa_watchlist := wl\<rparr>\<rparr>"
    using assms run by (auto simp: sampleDiagnosticHealthFactors_def io_bind_def io_then_def io_get_def io_modify_def io_return_def Let_def
        in_sweep_def in_watch_def batch_def s1_def split: sum.splits)
  ultimately show ?thesis by (simp add: coord_watchlist_def s1_def)
qed

lemma blocks_cover: "(\<Union>i \<in> {..<k}. (\<lambda>j. i * sz + j) ` {..<sz}) = {..<k * sz :: nat}"
proof (rule set_eqI)
  fix m
  have "m < k * sz \<longleftrightarrow> (\<exists>i < k. \<exists>j < sz. m = i * sz + j)"
  proof
    assume m: "m < k * sz"
    then have sz: "0 < sz" by (cases sz) auto
    have "m div sz < k" using m sz by (simp add: less_mult_imp_div_less)
    moreover have "m mod sz < sz" using sz by simp
    moreover have "m = m div sz * sz + m mod sz" by simp
    ultimately show "\<exists>i < k. \<exists>j < sz. m = i * sz + j" by blast
  next
    assume "\<exists>i < k. \<exists>j < sz. m = i * sz + j"
    then obtain i j where "i < k" "j < sz" "m = i * sz + j" by blast
    then have "m < Suc i * sz" "Suc i * sz \<le> k * sz"
      using mult_le_mono1 [of "Suc i" k sz] by (simp_all add: Suc_leI)
    then show "m < k * sz" by linarith
  qed
  then show "m \<in> (\<Union>i \<in> {..<k}. (\<lambda>j. i * sz + j) ` {..<sz}) \<longleftrightarrow> m \<in> {..<k * sz}" by auto
qed

lemma residues_cover:
  assumes "0 < n" and "n \<le> m"
  shows "(\<lambda>i. (c + i) mod n) ` {..<m} = {..<n :: nat}"
proof
  show "(\<lambda>i. (c + i) mod n) ` {..<m} \<subseteq> {..<n}" using assms(1) by auto
  show "{..<n} \<subseteq> (\<lambda>i. (c + i) mod n) ` {..<m}"
  proof
    fix x assume x: "x \<in> {..<n}"
    define i where "i = (x + (n - c mod n)) mod n"
    have "(c + i) mod n = (c mod n + (x + (n - c mod n))) mod n" unfolding i_def by (simp add: mod_simps)
    also have "c mod n + (x + (n - c mod n)) = x + n"
      using mod_less_divisor [OF assms(1), of c] by linarith
    also have "(x + n) mod n = x" using x by simp
    finally have "(c + i) mod n = x" .
    moreover have "i < m" using assms unfolding i_def by (meson less_le_trans mod_less_divisor)
    ultimately show "x \<in> (\<lambda>i. (c + i) mod n) ` {..<m}" by (intro image_eqI [of _ _ i]) simp_all
  qed
qed

lemma set_rows_of: "set (rows_of f xs) = {(a, r). a \<in> set xs \<and> f a = Some r}"
  by (induction xs) (auto simp: rows_of_def map_filter_simps split: option.splits)

text \<open>The accounts that the reserves allow.\<close>

definition touching :: "(address \<Rightarrow> user_reserve list option) \<Rightarrow> address list \<Rightarrow> address \<Rightarrow> bool" where
  "touching f allowlist a = (case f a of None \<Rightarrow> False | Some rows \<Rightarrow> reservesTouchAllowlist (allowlist_rows rows) allowlist)"

lemma touching_rows:
  "map fst (filter (\<lambda>row. reservesTouchAllowlist (allowlist_rows (snd row)) allowlist) (rows_of f b)) = filter (touching f allowlist) b"
  by (induction b) (auto simp: rows_of_def map_filter_simps touching_def split: option.splits)

lemma allowlist_batches:
  assumes "answers multicall f"
  shows "\<exists>w'. io_map (allowlist_batch multicall allowlist) bs w = (Inr (map (\<lambda>b. map to_lower (filter (touching f allowlist) b)) bs), w')"
proof (induction bs arbitrary: w)
  case Nil
  then show ?case by (simp add: io_return_def)
next
  case (Cons b bs)
  obtain w1 where "multicall b w = (Inr (map f b), w1)" using assms unfolding answers_def by blast
  then have one: "allowlist_batch multicall allowlist b w = (Inr (map to_lower (filter (touching f allowlist) b)), w1)"
    unfolding touching_rows [symmetric] by (simp add: allowlist_batch_def io_bind_def io_return_def read_rows_answers)
  obtain w2 where "io_map (allowlist_batch multicall allowlist) bs w1 =
      (Inr (map (\<lambda>b. map to_lower (filter (touching f allowlist) b)) bs), w2)"
    using Cons.IH by blast
  with one show ?case by (simp add: io_bind_def io_return_def)
qed

lemma prune_fold:
  "set (wl_addresses (fold (\<lambda>a w. if to_lower a \<notin> allowed then snd (wl_remove a w) else w) xs w)) =
   set (wl_addresses w) - {to_lower a | a. a \<in> set xs \<and> to_lower a \<notin> allowed}"
  by (induction xs arbitrary: w) (auto simp: wl_addresses_def wl_remove_def js_keys_delete)

section \<open>Properties\<close>

text \<open>A block sweep tells nobody what it found: \<open>sweepAndRefresh\<close> reads the health factors, builds the
  snapshots of the accounts that can be liquidated, and drops them. Whatever the services answer, the
  callback for snapshots has not been called, and the sweep has released its lock.\<close>

theorem block_sweep_reports_nothing:
  assumes "co_started s" and "\<not> co_sweepInFlight s" and "sweepAndRefresh sv cfg blockNumber s = (r, s')"
  shows "co_onSnapshots s' = co_onSnapshots s \<and> co_started s' \<and> \<not> co_sweepInFlight s' \<and> (case r of Inr u \<Rightarrow> u = () | Inl _ \<Rightarrow> True)"
proof -
  let ?P = "\<lambda>t. co_onSnapshots t = co_onSnapshots s \<and> co_started t"
  have keeps: "io_keeps ?P (io_then (runTieredSweep sv cfg blockNumber) (io_return ()))"
    by (intro io_rules sweeps_keep) auto
  obtain r' s1 where run: "io_then (runTieredSweep sv cfg blockNumber) (io_return ()) (s\<lparr>co_sweepInFlight := True\<rparr>) = (r', s1)"
    by fastforce
  have "?P s1" using io_keepsD [OF keeps, of "s\<lparr>co_sweepInFlight := True\<rparr>"] run assms(1) by simp
  then show ?thesis
    using assms run by (auto simp: sweepAndRefresh_def io_finally_def split: sum.splits)
qed

text \<open>The sample for the diagnostics rotates through the watchlist: as long as the watchlist names the
  same addresses, every one of them is read in every series of samples that together are as long as the
  watchlist, wherever the series starts and whether the reads succeed or fail.\<close>

theorem diagnostic_sample_rotates:
  fixes sv :: "'w coord_services"
  assumes "addresses \<noteq> []" and "0 < batchSize" and "length addresses \<le> k * min batchSize (length addresses)"
    and "wl_addresses (coord_watchlist s) = addresses"
  shows "(\<Union>i \<in> {..<k}. set (sample_batch batchSize (((\<lambda>t. snd (sampleDiagnosticHealthFactors sv cfg batchSize t)) ^^ i) s))) = set addresses"
proof -
  define n where "n = length addresses"
  define sz where "sz = min batchSize n"
  define state where "state = (\<lambda>i. ((\<lambda>t. snd (sampleDiagnosticHealthFactors sv cfg batchSize t)) ^^ i) s)"
  define c where "c = co_diagnosticSampleCursor s mod n"
  have n: "0 < n" using assms(1) by (simp add: n_def)
  have "wl_addresses (coord_watchlist (state i)) = addresses \<and> co_diagnosticSampleCursor (state i) mod n = (c + i * sz) mod n" for i
  proof (induction i)
    case 0
    then show ?case using assms(4) by (simp add: state_def c_def)
  next
    case (Suc i)
    have "state (Suc i) = snd (sampleDiagnosticHealthFactors sv cfg batchSize (state i))" by (simp add: state_def)
    with sample_step [of "state i" addresses sv cfg batchSize] Suc assms(1) show ?case
      by (simp add: n_def [symmetric] sz_def [symmetric] mod_simps ac_simps)
  qed
  then have listed: "wl_addresses (coord_watchlist (state i)) = addresses"
    and cursor: "(co_diagnosticSampleCursor (state i) + j) mod n = (c + i * sz + j) mod n" for i j
    by (auto intro: mod_add_cong)
  then have batch: "set (sample_batch batchSize (state i)) = (\<lambda>j. addresses ! ((c + i * sz + j) mod n)) ` {..<sz}" for i
    by (simp add: sample_batch_def rotated_def Let_def n_def [symmetric] sz_def [symmetric] mod_add_left_eq lessThan_atLeast0 listed cursor)
  have "(\<Union>i \<in> {..<k}. set (sample_batch batchSize (state i))) = (\<lambda>m. addresses ! ((c + m) mod n)) ` (\<Union>i \<in> {..<k}. (\<lambda>j. i * sz + j) ` {..<sz})"
    by (simp add: batch image_UN image_image ac_simps)
  also have "(\<Union>i \<in> {..<k}. (\<lambda>j. i * sz + j) ` {..<sz}) = {..<k * sz}" by (rule blocks_cover)
  also have "(\<lambda>m. addresses ! ((c + m) mod n)) ` {..<k * sz} = set addresses"
  proof -
    have "(\<lambda>m. addresses ! ((c + m) mod n)) ` {..<k * sz} = (!) addresses ` ((\<lambda>m. (c + m) mod n) ` {..<k * sz})" by (simp add: image_image)
    also have "\<dots> = (!) addresses ` {..<n}" using residues_cover [OF n, of "k * sz" c] assms(3) by (simp add: n_def sz_def)
    finally show ?thesis by (simp add: n_def set_conv_nth lessThan_def image_Collect)
  qed
  finally show ?thesis by (simp add: state_def)
qed

text \<open>The pruning by reserves keeps exactly the borrowers whose reserves it could read and that hold or
  owe a reserve of the allowlist, whatever the size of the batches: an account whose read failed is
  dropped from the watchlist as if it had none of them.\<close>

theorem prune_drops_unread:
  assumes "answers (cv_userReserves sv) f" and "cq_multicallBatchSize cfg \<noteq> Some 0" and "prune_allowlist cfg \<noteq> []"
    and "\<forall>a \<in> set (wl_addresses (coord_watchlist s)). to_lower a = a"
  shows "\<exists>s'. pruneWatchlistByReserveAllowlist sv cfg s = (Inr (), s') \<and>
    set (wl_addresses (coord_watchlist s')) = {a \<in> set (wl_addresses (coord_watchlist s)).
      \<exists>rows. f a = Some rows \<and> reservesTouchAllowlist (allowlist_rows rows) (prune_allowlist cfg)}"
proof (cases "wl_addresses (coord_watchlist s) = []")
  case True
  then show ?thesis
    using assms(3) by (simp add: pruneWatchlistByReserveAllowlist_def Let_def io_bind_def io_get_def io_return_def)
next
  case False
  define xs where "xs = wl_addresses (coord_watchlist s)"
  define n where "n = or_else (cq_multicallBatchSize cfg) 250"
  have n: "concat (batches n xs) = xs"
    using assms(2) by (intro concat_batches) (auto simp: n_def or_else_def split: option.splits)
  define allowed where "allowed = map (\<lambda>b. map to_lower (filter (touching f (prune_allowlist cfg)) b)) (batches n xs)"
  obtain w' where run: "io_map (allowlist_batch (cv_userReserves sv) (prune_allowlist cfg)) (batches n xs) (wa_world (co_watch s)) = (Inr allowed, w')"
    using allowlist_batches [OF assms(1)] unfolding allowed_def by blast
  have "concat (map (\<lambda>b. map to_lower (filter p b)) bs) = map to_lower (filter p (concat bs))" for p and bs :: "string list list"
    by (induction bs) simp_all
  then have allowed: "set (concat allowed) = to_lower ` {a \<in> set xs. touching f (prune_allowlist cfg) a}"
    unfolding allowed_def by (simp add: n)
  let ?keep = "fold (\<lambda>a w. if to_lower a \<notin> set (concat allowed) then snd (wl_remove a w) else w) xs"
  have "pruneWatchlistByReserveAllowlist sv cfg s =
      (Inr (), s\<lparr>co_watch := (co_watch s)\<lparr>wa_world := w', wa_watchlist := ?keep (coord_watchlist s)\<rparr>\<rparr>)"
    using False assms(3) run
    by (simp add: pruneWatchlistByReserveAllowlist_def filterAccountsTouchingReserveAllowlist_def Let_def io_bind_def io_get_def io_return_def
        ccall_def wcall_def in_watch_def set_watchlist_def io_modify_def xs_def n_def coord_watchlist_def)
  moreover have "set (wl_addresses (?keep (coord_watchlist s))) =
      {a \<in> set xs. \<exists>rows. f a = Some rows \<and> reservesTouchAllowlist (allowlist_rows rows) (prune_allowlist cfg)}"
    unfolding prune_fold allowed using assms(4) by (force simp: xs_def touching_def split: option.splits)
  ultimately show ?thesis by (simp add: xs_def coord_watchlist_def)
qed

text \<open>A cold start that finds nobody starts all the same: if the discovery fails, the coordinator
  returns as started, with an empty watchlist and a staleness guard that has just been refreshed.\<close>

theorem failed_cold_start_starts_empty:
  assumes "\<not> co_started s" and "coord_watchlist s = []" and "to_lower (str_trim (or_else (cq_coldStartIndexer cfg) ''onchain'')) = ''onchain''"
    and "\<And>w. \<exists>e w'. dv_getBlockNumber (cv_coldStart sv) w = (Inl e, w')" and "cq_deferToEventPurityStack cfg"
  shows "\<exists>s' w. coordinator_start sv cfg s = (Inr (), s') \<and> co_started s' \<and> coord_watchlist s' = [] \<and>
    co_lastUpdate s' = fst (sp_now (cv_snapshots sv) w)"
proof -
  obtain e w1 where "dv_getBlockNumber (cv_coldStart sv) (wa_world (co_watch s)) = (Inl e, w1)" using assms(4) by blast
  then have seed: "seedColdStart sv cfg s = (Inr (), s\<lparr>co_watch := (co_watch s)\<lparr>wa_world := w1\<rparr>\<rparr>)"
    using assms(3) by (simp add: seedColdStart_def seed_on_chain_def discoverBorrowersFromLogs_def io_catch_def io_bind_def io_return_def Let_def
        ccall_def wcall_def in_watch_def)
  have update: "record_update sv u = (case sp_now (cv_snapshots sv) (wa_world (co_watch u)) of (t, w2) \<Rightarrow>
      (Inr (), u\<lparr>co_watch := (co_watch u)\<lparr>wa_world := w2\<rparr>, co_lastUpdate := t\<rparr>))" for u
    by (simp add: record_update_def io_bind_def io_modify_def ccall_def wcall_def in_watch_def sp_clock_def split: prod.splits)
  define s1 where "s1 = s\<lparr>co_watch := (co_watch s)\<lparr>wa_world := w1\<rparr>\<rparr>"
  have empty: "coord_watchlist s1 = []" using assms(2) by (simp add: s1_def coord_watchlist_def)
  obtain s2 where sweep: "(if cq_skipColdStartFullSweep cfg then io_return () else io_then (runColdStartFullSweep sv cfg) (io_return ())) s1 = (Inr (), s2)"
    and s2: "coord_watchlist s2 = []"
  proof (cases "cq_skipColdStartFullSweep cfg")
    case True
    with empty that show ?thesis by (simp add: io_return_def)
  next
    case False
    with empty that show ?thesis
      by (cases "sp_now (cv_snapshots sv) (wa_world (co_watch s1))") (simp add: update runColdStartFullSweep_def io_bind_def io_then_def io_get_def io_return_def wl_addresses_def js_keys_def coord_watchlist_def)
  qed
  obtain t w2 where now: "sp_now (cv_snapshots sv) (wa_world (co_watch s2)) = (t, w2)" by fastforce
  have "coordinator_start sv cfg s = (Inr (), s2\<lparr>co_watch := (co_watch s2)\<lparr>wa_world := w2\<rparr>, co_lastUpdate := t, co_started := True\<rparr>)"
    using assms(1, 5) seed sweep now unfolding s1_def [symmetric]
    by (simp add: update coordinator_start_def io_bind_def io_then_def io_get_def io_return_def io_modify_def)
  moreover have "t = fst (sp_now (cv_snapshots sv) (wa_world (co_watch s2)))" using now by simp
  ultimately show ?thesis using s2 by (intro exI conjI) (assumption | simp add: coord_watchlist_def)+
qed

section \<open>Witnesses\<close>

text \<open>Two borrowers on a node that answers, one of whom cannot be read.\<close>

definition no_cursor :: "unit block_cursor" where
  "no_cursor = \<lparr>bk_store = \<lparr>kv_get = (\<lambda>key. io_return None), kv_set = (\<lambda>key v. io_return ()), kv_close = None\<rparr>,
     bk_key = [], bk_backend = MemoryBackend\<rparr>"

definition sample_reserves :: "address \<Rightarrow> user_reserve list option" where
  "sample_reserves a = (if a = ''0xa1'' then Some [\<lparr>ur_underlyingAsset = ''0xEE'', ur_scaledATokenBalance = 5,
     ur_usageAsCollateralEnabledOnUser = True, ur_scaledVariableDebt = 0\<rparr>] else None)"

definition sample_coord_services :: "unit coord_services" where
  "sample_coord_services = \<lparr>cv_logs = \<lparr>lw_getBlockNumber = io_return 130, lw_getLogs = (\<lambda>lo hi. io_return []), lw_sleep = (\<lambda>ms w. w), lw_cursor = no_cursor\<rparr>,
     cv_multicall = sample_multicall, cv_userReserves = (\<lambda>batch. io_return (map sample_reserves batch)), cv_snapshots = sample_snapshots,
     cv_coldStart = sample_discovery\<lparr>dv_getBlockNumber := io_throw (Exn ''no node'')\<rparr>, cv_seedIndex = io_return []\<rparr>"

definition sample_coord_config :: coord_config where
  "sample_coord_config = \<lparr>cq_chain = ''base'', cq_watch = sample_watch, cq_minDebtBase = 100, cq_multicallBatchSize = Some 1,
     cq_lowTierEveryBlocks = None, cq_coldStartLookbackBlocks = None, cq_onChainColdStartLookbackBlocks = None,
     cq_onChainColdStartMaxBlocks = None, cq_reserveAllowlist = Some [''0xee''], cq_allowlistVariable = None,
     cq_coldStartIndexer = None, cq_skipColdStartFullSweep = False, cq_deferToEventPurityStack = True\<rparr>"

definition sample_coord :: "unit coord_state" where
  "sample_coord = \<lparr>co_watch = \<lparr>wa_world = (), wa_watchlist = [], wa_gapReplayInFlight = False, wa_activity = 0, wa_accountsActivity = []\<rparr>,
     co_lastUpdate = 0, co_borrowersDiscovered = 0, co_diagnosticSampleCursor = 0, co_started = False, co_sweepInFlight = False, co_onSnapshots = []\<rparr>"

definition sample_coord_watching :: "unit coord_state" where
  "sample_coord_watching = sample_coord\<lparr>co_started := True, co_watch := (co_watch sample_coord)\<lparr>wa_watchlist :=
     [(''0xa1'', \<lparr>we_lastSeen = 120, we_lastHealthFactor = None\<rparr>), (''0xa2'', \<lparr>we_lastSeen = 121, we_lastHealthFactor = None\<rparr>)]\<rparr>\<rparr>"

lemma sample_coord_addresses: "wl_addresses (coord_watchlist sample_coord_watching) = [''0xa1'', ''0xa2'']"
  by (simp add: coord_watchlist_def sample_coord_watching_def wl_addresses_def js_keys_def)

theorem block_sweep_reports_nothing_witness:
  "\<exists>r s'. sweepAndRefresh sample_coord_services sample_coord_config None sample_coord_watching = (r, s') \<and> co_onSnapshots s' = []"
proof -
  obtain r s' where run: "sweepAndRefresh sample_coord_services sample_coord_config None sample_coord_watching = (r, s')" by fastforce
  with block_sweep_reports_nothing [OF _ _ run] show ?thesis by (simp add: sample_coord_watching_def sample_coord_def)
qed

theorem diagnostic_sample_rotates_witness:
  "(\<Union>i \<in> {..<2}. set (sample_batch 1 (((\<lambda>t. snd (sampleDiagnosticHealthFactors sample_coord_services sample_coord_config 1 t)) ^^ i)
     sample_coord_watching))) = {''0xa1'', ''0xa2''}"
  using diagnostic_sample_rotates [of "[''0xa1'', ''0xa2'']" 1 2 sample_coord_watching sample_coord_services sample_coord_config]
  by (simp add: sample_coord_addresses)

theorem prune_drops_unread_witness:
  "\<exists>s'. pruneWatchlistByReserveAllowlist sample_coord_services sample_coord_config sample_coord_watching = (Inr (), s') \<and>
     set (wl_addresses (coord_watchlist s')) = {''0xa1''}"
proof -
  have lower: "to_lower ''0xa1'' = ''0xa1''" "to_lower ''0xa2'' = ''0xa2''" "to_lower ''0xEE'' = ''0xee''" "to_lower ''0xee'' = ''0xee''" by code_simp+
  have "answers (cv_userReserves sample_coord_services) sample_reserves"
    by (simp add: answers_def sample_coord_services_def io_return_def)
  moreover have allowlist: "prune_allowlist sample_coord_config = [''0xee'']" by (simp add: prune_allowlist_def sample_coord_config_def)
  ultimately obtain s' where run: "pruneWatchlistByReserveAllowlist sample_coord_services sample_coord_config sample_coord_watching = (Inr (), s')"
    and kept: "set (wl_addresses (coord_watchlist s')) = {a \<in> {''0xa1'', ''0xa2''}.
      \<exists>rows. sample_reserves a = Some rows \<and> reservesTouchAllowlist (allowlist_rows rows) [''0xee'']}"
    using prune_drops_unread [of sample_coord_services sample_reserves sample_coord_config sample_coord_watching]
    by (auto simp: sample_coord_addresses sample_coord_config_def lower)
  have "{a \<in> {''0xa1'', ''0xa2''}. \<exists>rows. sample_reserves a = Some rows \<and> reservesTouchAllowlist (allowlist_rows rows) [''0xee'']} = {''0xa1''}"
    by (auto simp: sample_reserves_def reservesTouchAllowlist_def allowlist_rows_def lower)
  with run kept show ?thesis by auto
qed

theorem failed_cold_start_starts_empty_witness:
  "\<exists>s'. coordinator_start sample_coord_services sample_coord_config sample_coord = (Inr (), s') \<and> co_started s' \<and>
     coord_watchlist s' = [] \<and> co_lastUpdate s' = 1000"
proof -
  have "to_lower (str_trim (or_else (cq_coldStartIndexer sample_coord_config) ''onchain'')) = ''onchain''"
    unfolding sample_coord_config_def by code_simp
  from failed_cold_start_starts_empty [OF _ _ this, of sample_coord sample_coord_services] show ?thesis
    by (auto simp: sample_coord_def sample_coord_services_def sample_coord_config_def sample_snapshots_def coord_watchlist_def io_throw_def)
qed

end
