(* ===== verification/Detection.thy ===== *)
theory Detection
  imports Candidate_Gate Chain_Registry
begin

text \<open>
  \<open>src/monitors/hybridDetectionPipeline.ts\<close>: the snapshots of borrowers are refreshed by the events of a
  reserve and by polls, and the failures of both are counted per chain in circuit breakers. The state
  holds that of the candidate gate with its world, the snapshot cache, the breakers and the rescan
  breaker of the configuration; event source and snapshot provider are services. An event is handled
  from its first to its last step: the interleaving of the tasks in \<open>pendingWork\<close> is not modelled, nor
  are log lines and latencies.
\<close>

section \<open>State and services\<close>

record 'w detection_state =
  dt_gate :: "'w gate_state"
  dt_cache :: borrower_cache
  dt_breakers :: "(string, breaker_state) jsmap"
  dt_rescan :: rescan_breaker
  dt_fresh :: rescan_breaker
  dt_errors :: nat
  dt_onFailures :: nat
  dt_listening :: bool

record 'w detection_config =
  dq_registry :: registry
  dq_failureThreshold :: "nat option"
  dq_gate :: "'w gate_config option"
  dq_rescan :: "(nat option \<times> int option) option"
  dq_reserveEventRefreshEnabled :: "bool option"
  dq_startEvents :: "('w, unit) io"
  dq_stopEvents :: "'w \<Rightarrow> 'w"
  dq_getBorrowersForReserve :: "string \<Rightarrow> address \<Rightarrow> ('w, address list) io"
  dq_refreshBorrowers :: "string \<Rightarrow> address list \<Rightarrow> ('w, borrower_snapshot list) io"
  dq_refreshBorrowersForDiagnostics :: "(string \<Rightarrow> address list \<Rightarrow> ('w, borrower_snapshot list) io) option"
  dq_pollBorrowers :: "string \<Rightarrow> ('w, borrower_snapshot list) io"
  dq_now :: "'w \<Rightarrow> int \<times> 'w"

type_synonym ('w, 'a) detection_io = "('w detection_state, 'a) io"

definition det_gate :: "('w, 'a) gate_io \<Rightarrow> ('w, 'a) detection_io" where
  "det_gate m s = (case m (dt_gate s) of (r, g) \<Rightarrow> (r, s\<lparr>dt_gate := g\<rparr>))"

definition det_call :: "('w, 'a) io \<Rightarrow> ('w, 'a) detection_io" where
  "det_call m = det_gate (gate_call m)"

definition det_clock :: "'w detection_config \<Rightarrow> ('w, int) detection_io" where
  "det_clock cfg = det_call (\<lambda>w. case dq_now cfg w of (t, w') \<Rightarrow> (Inr t, w'))"

section \<open>Circuit breakers\<close>

fun breaker_string :: "breaker_name \<Rightarrow> string" where
  "breaker_string BreakerRpc = ''rpc''"
| "breaker_string BreakerSubgraph = ''subgraph''"
| "breaker_string BreakerExecution = ''execution''"

definition circuitKey :: "string \<Rightarrow> breaker_name \<Rightarrow> string" where
  "circuitKey chain name = chain @ '':'' @ breaker_string name"

fun register_breakers :: "registry \<Rightarrow> string list \<Rightarrow> (string, breaker_state) jsmap \<Rightarrow> exn + (string, breaker_state) jsmap" where
  "register_breakers r [] m = Inr m"
| "register_breakers r (chain # names) m =
     (case registry_get r chain of
        Inl e \<Rightarrow> Inl e
      | Inr entry \<Rightarrow> register_breakers r names
          (fold (\<lambda>name. js_set (circuitKey chain name) (breaker name (rc_circuitBreakers entry)))
             [BreakerRpc, BreakerSubgraph, BreakerExecution] m))"

definition detection_new :: "'w detection_config \<Rightarrow> 'w gate_state \<Rightarrow> exn + 'w detection_state" where
  "detection_new cfg gate =
     (case register_breakers (dq_registry cfg) (registry_listChains (dq_registry cfg)) [] of
        Inl e \<Rightarrow> Inl e
      | Inr breakers \<Rightarrow> Inr \<lparr>dt_gate = gate, dt_cache = ca_new None None, dt_breakers = breakers, dt_rescan = rb_new, dt_fresh = rb_new,
          dt_errors = 0, dt_onFailures = 0, dt_listening = False\<rparr>)"

definition getCircuitBreakerState :: "string \<Rightarrow> breaker_name \<Rightarrow> ('w, breaker_state) detection_io" where
  "getCircuitBreakerState chain name =
     io_bind (io_get (\<lambda>s. js_get (dt_breakers s) (circuitKey chain name))) (\<lambda>state.
       case state of
         None \<Rightarrow> io_throw (Exn (''Circuit breaker is not registered: '' @ circuitKey chain name))
       | Some b \<Rightarrow> io_return b)"

definition recordFailure :: "'w detection_config \<Rightarrow> string \<Rightarrow> breaker_name \<Rightarrow> ('w, unit) detection_io" where
  "recordFailure cfg chain name =
     io_bind (getCircuitBreakerState chain name) (\<lambda>current.
       let failures = cb_failures current + 1
       in io_bind (if or_else (dq_failureThreshold cfg) 3 \<le> failures
            then io_bind (det_clock cfg) (\<lambda>now. io_return \<lparr>cb_status = Open, cb_failures = failures, cb_openedAtMs = Some now\<rparr>)
            else io_return \<lparr>cb_status = cb_status current, cb_failures = failures, cb_openedAtMs = None\<rparr>) (\<lambda>nextState.
          io_modify (\<lambda>s. s\<lparr>dt_breakers := js_set (circuitKey chain name) nextState (dt_breakers s),
            dt_errors := dt_errors s + 1, dt_onFailures := dt_onFailures s + 1\<rparr>)))"

definition handleEventSourceError :: "'w detection_config \<Rightarrow> string \<Rightarrow> ('w, unit) detection_io" where
  "handleEventSourceError cfg chain = recordFailure cfg chain BreakerRpc"

text \<open>\<open>RescanCircuitBreaker.execute\<close> around the work, on a breaker that the state holds.\<close>

definition rescan_execute ::
  "('s \<Rightarrow> rescan_breaker) \<Rightarrow> ((rescan_breaker \<Rightarrow> rescan_breaker) \<Rightarrow> 's \<Rightarrow> 's) \<Rightarrow> ('s, int) io \<Rightarrow> nat option \<Rightarrow> int option \<Rightarrow>
   ('s, unit) io \<Rightarrow> (exn \<Rightarrow> ('s, unit) io) \<Rightarrow> ('s, unit) io" where
  "rescan_execute get upd clock threshold cooldownMs work onFailure =
     io_bind (io_get (\<lambda>s. rb_begin (get s))) (\<lambda>admitted.
       if \<not> admitted then io_return ()
       else io_catch (io_then work (io_modify (upd (\<lambda>b. b\<lparr>rb_failures := 0\<rparr>)))) (\<lambda>e.
         io_then (io_modify (upd (\<lambda>b. b\<lparr>rb_failures := rb_failures b + 1\<rparr>)))
           (io_bind (io_get (\<lambda>s. rb_failures (get s))) (\<lambda>failures.
             io_then (if failures \<le> or_else threshold 3 then onFailure e else io_return ())
               (if or_else threshold 3 \<le> failures
                then io_bind clock (\<lambda>now. io_modify (upd (rb_openCircuit cooldownMs now)))
                else io_return ())))))"

section \<open>Refreshes\<close>

definition upsertSnapshots :: "'w detection_config \<Rightarrow> borrower_snapshot list \<Rightarrow> ('w, unit) detection_io" where
  "upsertSnapshots cfg snapshots =
     io_bind (io_get dt_cache) (\<lambda>cache.
       io_bind (upsert_all (det_clock cfg) snapshots cache) (\<lambda>cache'. io_modify (\<lambda>s. s\<lparr>dt_cache := cache'\<rparr>)))"

definition getCachedBorrowersForReserve :: "'w detection_config \<Rightarrow> string \<Rightarrow> address \<Rightarrow> ('w, address list) detection_io" where
  "getCachedBorrowersForReserve cfg chain token =
     io_bind (det_clock cfg) (\<lambda>now s.
       case listAccountsForReserve now chain token (dt_cache s) of (accounts, c) \<Rightarrow> (Inr accounts, s\<lparr>dt_cache := c\<rparr>))"

definition refresh_targets :: "'w detection_config \<Rightarrow> string \<Rightarrow> address list \<Rightarrow> ('w, unit) detection_io" where
  "refresh_targets cfg chain targets =
     io_bind (det_call (case dq_refreshBorrowersForDiagnostics cfg of
                          Some refresh \<Rightarrow> refresh chain targets
                        | None \<Rightarrow> dq_refreshBorrowers cfg chain targets)) (\<lambda>snapshots.
       io_then (upsertSnapshots cfg snapshots)
         (case dq_gate cfg of
            Some gate \<Rightarrow> if snapshots \<noteq> [] then det_gate (auditBorrowerSnapshots gate chain snapshots) else io_return ()
          | None \<Rightarrow> io_return ()))"

definition handleReserveUpdated :: "'w detection_config \<Rightarrow> string \<Rightarrow> address \<Rightarrow> ('w, unit) detection_io" where
  "handleReserveUpdated cfg chain token =
     (if dq_reserveEventRefreshEnabled cfg = Some False then io_return ()
      else io_bind (io_lift (registry_getResolvedAave (dq_registry cfg) chain)) (\<lambda>_.
        io_catch
          (io_bind (getCachedBorrowersForReserve cfg chain token) (\<lambda>borrowers.
             io_bind (if borrowers \<noteq> [] then io_return borrowers else det_call (dq_getBorrowersForReserve cfg chain token)) (\<lambda>targets.
               if targets = [] then io_return () else refresh_targets cfg chain targets)))
          (\<lambda>_. recordFailure cfg chain BreakerRpc)))"

definition poll_work :: "'w detection_config \<Rightarrow> string \<Rightarrow> ('w, unit) detection_io" where
  "poll_work cfg chain = io_bind (det_call (dq_pollBorrowers cfg chain)) (upsertSnapshots cfg)"

text \<open>Without a breaker in the configuration every poll has a breaker of its own.\<close>

definition pollFallback :: "'w detection_config \<Rightarrow> string \<Rightarrow> ('w, unit) detection_io" where
  "pollFallback cfg chain =
     io_bind (io_lift (registry_getResolvedAave (dq_registry cfg) chain)) (\<lambda>_.
       case dq_rescan cfg of
         Some (threshold, cooldownMs) \<Rightarrow>
           rescan_execute dt_rescan (\<lambda>f s. s\<lparr>dt_rescan := f (dt_rescan s)\<rparr>) (det_clock cfg) threshold cooldownMs
             (poll_work cfg chain) (\<lambda>_. recordFailure cfg chain BreakerSubgraph)
       | None \<Rightarrow>
           io_then (io_modify (\<lambda>s. s\<lparr>dt_fresh := rb_new\<rparr>))
             (rescan_execute dt_fresh (\<lambda>f s. s\<lparr>dt_fresh := f (dt_fresh s)\<rparr>) (det_clock cfg) None None
               (poll_work cfg chain) (\<lambda>_. recordFailure cfg chain BreakerSubgraph)))"

definition detection_start :: "'w detection_config \<Rightarrow> ('w, unit) detection_io" where
  "detection_start cfg =
     io_bind (io_get dt_listening) (\<lambda>listening.
       if listening \<or> dq_reserveEventRefreshEnabled cfg = Some False then io_return ()
       else io_then (det_call (dq_startEvents cfg)) (io_modify (\<lambda>s. s\<lparr>dt_listening := True\<rparr>)))"

definition detection_stop :: "'w detection_config \<Rightarrow> ('w, unit) detection_io" where
  "detection_stop cfg =
     io_bind (io_get dt_listening) (\<lambda>listening.
       io_then (if listening then det_call (\<lambda>w. (Inr (), dq_stopEvents cfg w)) else io_return ())
         (io_modify (\<lambda>s. s\<lparr>dt_listening := False\<rparr>)))"

section \<open>Histories\<close>

datatype detection_op = ReserveUpdated string address | EventSourceError string | PollFallback string | RescanCooldownEnds
  | StartDetection | StopDetection

fun detection_step :: "'w detection_config \<Rightarrow> detection_op \<Rightarrow> ('w, unit) detection_io" where
  "detection_step cfg (ReserveUpdated chain token) = handleReserveUpdated cfg chain token"
| "detection_step cfg (EventSourceError chain) = handleEventSourceError cfg chain"
| "detection_step cfg (PollFallback chain) = pollFallback cfg chain"
| "detection_step cfg RescanCooldownEnds = io_modify (\<lambda>s. s\<lparr>dt_rescan := rb_timer (dt_rescan s)\<rparr>)"
| "detection_step cfg StartDetection = detection_start cfg"
| "detection_step cfg StopDetection = detection_stop cfg"

definition run_detection :: "'w detection_config \<Rightarrow> detection_op list \<Rightarrow> 'w detection_state \<Rightarrow> 'w detection_state" where
  "run_detection cfg ops s = fold (\<lambda>op t. snd (detection_step cfg op t)) ops s"

section \<open>Lemmas\<close>

lemma io_keeps_det_gate [io_rules]: "(\<And>s g. P s \<Longrightarrow> P (s\<lparr>dt_gate := g\<rparr>)) \<Longrightarrow> io_keeps P (det_gate m)"
  by (auto simp: io_keeps_def io_valid_def det_gate_def split: prod.splits sum.splits)

lemma io_keeps_upsert_all: "io_keeps P clock \<Longrightarrow> io_keeps P (upsert_all clock ss c)"
  by (induction ss arbitrary: c) (auto intro!: io_rules)

lemma io_keeps_fun_prod: "(\<And>s. P s \<Longrightarrow> P (snd (f s))) \<Longrightarrow> io_keeps P f"
  by (auto simp: io_keeps_def io_valid_def split: prod.splits sum.splits) (metis snd_conv)+

lemma det_clock_run: "\<exists>t g. det_clock cfg s = (Inr t, s\<lparr>dt_gate := g\<rparr>)"
  by (auto simp: det_clock_def det_call_def det_gate_def gate_call_def split: prod.splits)

lemma io_keeps_det_clock [io_rules]: "(\<And>s g. P s \<Longrightarrow> P (s\<lparr>dt_gate := g\<rparr>)) \<Longrightarrow> io_keeps P (det_clock cfg)"
  unfolding det_clock_def det_call_def by (rule io_keeps_det_gate)

text \<open>A breaker with at least \<open>n\<close> counted failures, which is open as soon as they reach the threshold.\<close>

definition counted :: "'w detection_config \<Rightarrow> string \<Rightarrow> nat \<Rightarrow> 'w detection_state \<Rightarrow> bool" where
  "counted cfg key n s \<longleftrightarrow> (\<exists>b. js_get (dt_breakers s) key = Some b \<and> n \<le> cb_failures b \<and>
     (or_else (dq_failureThreshold cfg) 3 \<le> cb_failures b \<longrightarrow> cb_status b = Open))"

lemma recordFailure_run:
  assumes "js_get (dt_breakers s) (circuitKey chain name) = Some b"
  shows "\<exists>g opened. recordFailure cfg chain name s = (Inr (), s\<lparr>dt_gate := g,
    dt_breakers := js_set (circuitKey chain name) opened (dt_breakers s), dt_errors := dt_errors s + 1, dt_onFailures := dt_onFailures s + 1\<rparr>) \<and>
    cb_failures opened = cb_failures b + 1 \<and> cb_status opened = (if or_else (dq_failureThreshold cfg) 3 \<le> cb_failures b + 1 then Open else cb_status b)"
proof (cases "or_else (dq_failureThreshold cfg) 3 \<le> cb_failures b + 1")
  case True
  obtain t g where "det_clock cfg s = (Inr t, s\<lparr>dt_gate := g\<rparr>)" using det_clock_run by blast
  with True assms show ?thesis
    by (intro exI [of _ g] exI [of _ "\<lparr>cb_status = Open, cb_failures = cb_failures b + 1, cb_openedAtMs = Some t\<rparr>"])
       (simp add: recordFailure_def getCircuitBreakerState_def io_bind_def io_get_def io_return_def io_modify_def Let_def)
next
  case False
  with assms show ?thesis
    by (intro exI [of _ "dt_gate s"] exI [of _ "\<lparr>cb_status = cb_status b, cb_failures = cb_failures b + 1, cb_openedAtMs = None\<rparr>"])
       (simp add: recordFailure_def getCircuitBreakerState_def io_bind_def io_get_def io_return_def io_modify_def Let_def)
qed

lemma recordFailure_unregistered:
  assumes "js_get (dt_breakers s) (circuitKey chain name) = None"
  shows "\<exists>e. recordFailure cfg chain name s = (Inl e, s)"
  using assms by (simp add: recordFailure_def getCircuitBreakerState_def io_bind_def io_get_def io_throw_def)

lemma io_keeps_recordFailure [io_rules]:
  fixes cfg :: "'w detection_config"
  shows "io_keeps (counted cfg key n) (recordFailure cfg chain name)"
proof (rule io_keeps_fun_prod)
  fix s :: "'w detection_state"
  assume counted: "counted cfg key n s"
  show "counted cfg key n (snd (recordFailure cfg chain name s))"
  proof (cases "js_get (dt_breakers s) (circuitKey chain name)")
    case None
    then show ?thesis using recordFailure_unregistered [OF None, of cfg] counted by auto
  next
    case (Some b)
    from recordFailure_run [OF this, of cfg] counted Some show ?thesis by (auto simp: counted_def)
  qed
qed

lemma recordFailure_counts:
  "counted cfg (circuitKey chain name) n s \<Longrightarrow> counted cfg (circuitKey chain name) (n + 1) (snd (recordFailure cfg chain name s))"
proof -
  assume "counted cfg (circuitKey chain name) n s"
  then obtain b where b: "js_get (dt_breakers s) (circuitKey chain name) = Some b" and "n \<le> cb_failures b" by (auto simp: counted_def)
  with recordFailure_run [OF b, of cfg] show ?thesis by (auto simp: counted_def)
qed

lemma counted_updates [simp]:
  "counted cfg key n (s\<lparr>dt_gate := g\<rparr>) = counted cfg key n s" "counted cfg key n (s\<lparr>dt_cache := c\<rparr>) = counted cfg key n s"
  "counted cfg key n (s\<lparr>dt_rescan := b\<rparr>) = counted cfg key n s" "counted cfg key n (s\<lparr>dt_fresh := b\<rparr>) = counted cfg key n s"
  "counted cfg key n (s\<lparr>dt_listening := l\<rparr>) = counted cfg key n s"
  by (simp_all add: counted_def)

lemma io_keeps_upsertSnapshots [io_rules]: "io_keeps (counted cfg key n) (upsertSnapshots cfg snapshots)"
  unfolding upsertSnapshots_def by (intro io_rules io_keeps_upsert_all) simp_all

lemma io_keeps_rescan [io_rules]:
  assumes "\<And>s f. P s \<Longrightarrow> P (upd f s)" "io_keeps P clock" "io_keeps P work" "\<And>e. io_keeps P (onFailure e)"
  shows "io_keeps P (rescan_execute get upd clock threshold cooldownMs work onFailure)"
  unfolding rescan_execute_def by (intro io_rules) (auto intro!: assms io_rules)

lemma io_keeps_cached [io_rules]: "io_keeps (counted cfg key n) (getCachedBorrowersForReserve cfg chain token)"
  unfolding getCachedBorrowersForReserve_def
  by (intro io_rules) (auto intro!: io_keeps_fun_prod split: prod.splits)

lemma io_keeps_step: "io_keeps (counted cfg key n) (detection_step cfg op)"
  by (cases op)
     (auto simp: handleReserveUpdated_def refresh_targets_def handleEventSourceError_def pollFallback_def poll_work_def detection_start_def
       detection_stop_def det_call_def split: option.splits intro!: io_rules)

section \<open>Properties\<close>

text \<open>The breakers of the detection never close: once as many failures of the event source as the
  threshold have been reported for a chain, its breaker for the RPC is open, whatever else happened before,
  in between and afterwards; a refresh that succeeds resets nothing.\<close>

theorem detection_breaker_latches:
  assumes "js_get (dt_breakers s) (circuitKey chain BreakerRpc) = Some closed_breaker"
    and "0 < or_else (dq_failureThreshold cfg) 3"
    and "or_else (dq_failureThreshold cfg) 3 \<le> length (filter (\<lambda>op. op = EventSourceError chain) ops)"
  shows "\<exists>b. js_get (dt_breakers (run_detection cfg ops s)) (circuitKey chain BreakerRpc) = Some b \<and> cb_status b = Open"
proof -
  have "counted cfg (circuitKey chain BreakerRpc) (n + length (filter (\<lambda>op. op = EventSourceError chain) ops)) (run_detection cfg ops t)"
    if "counted cfg (circuitKey chain BreakerRpc) n t" for n t
    using that
  proof (induction ops arbitrary: n t)
    case Nil
    then show ?case by (simp add: run_detection_def)
  next
    case (Cons op ops)
    have step: "run_detection cfg (op # ops) t = run_detection cfg ops (snd (detection_step cfg op t))" by (simp add: run_detection_def)
    show ?case
    proof (cases "op = EventSourceError chain")
      case True
      then show ?thesis using Cons.IH [OF recordFailure_counts [OF Cons.prems]] unfolding step by (simp add: handleEventSourceError_def)
    next
      case False
      then show ?thesis using Cons.IH [OF io_keepsD [OF io_keeps_step Cons.prems]] by (simp add: step)
    qed
  qed
  from this [of 0 s] assms have "counted cfg (circuitKey chain BreakerRpc) (length (filter (\<lambda>op. op = EventSourceError chain) ops)) (run_detection cfg ops s)"
    by (simp add: counted_def closed_breaker_def)
  with assms(3) show ?thesis by (auto simp: counted_def)
qed

text \<open>Without a shared breaker a failing poll is never shed: each of them makes a new breaker with no
  failure counted, asks the provider, and counts its failure on the breaker of the subgraph.\<close>

theorem fresh_breaker_never_sheds:
  assumes "dq_rescan cfg = None" and "registry_getResolvedAave (dq_registry cfg) chain = Inr aave"
    and "\<And>w. \<exists>e w'. dq_pollBorrowers cfg chain w = (Inl e, w')"
    and "js_get (dt_breakers s) (circuitKey chain BreakerSubgraph) = Some b"
  shows "\<exists>b'. js_get (dt_breakers (run_detection cfg (replicate k (PollFallback chain)) s)) (circuitKey chain BreakerSubgraph) = Some b' \<and>
    cb_failures b' = cb_failures b + k"
  using assms(4)
proof (induction k arbitrary: s b)
  case 0
  then show ?case by (simp add: run_detection_def)
next
  case (Suc k)
  define s0 where "s0 = s\<lparr>dt_fresh := rb_new\<rparr>"
  obtain e w' where poll: "dq_pollBorrowers cfg chain (gs_world (dt_gate s0)) = (Inl e, w')" using assms(3) by blast
  define s1 where "s1 = s0\<lparr>dt_gate := (dt_gate s0)\<lparr>gs_world := w'\<rparr>, dt_fresh := rb_new\<lparr>rb_failures := 1\<rparr>\<rparr>"
  have b: "js_get (dt_breakers s1) (circuitKey chain BreakerSubgraph) = Some b" using Suc.prems by (simp add: s1_def s0_def)
  obtain s2 b2 where rec: "recordFailure cfg chain BreakerSubgraph s1 = (Inr (), s2)"
    and b2: "js_get (dt_breakers s2) (circuitKey chain BreakerSubgraph) = Some b2" "cb_failures b2 = cb_failures b + 1"
    using recordFailure_run [OF b, of cfg] by auto
  have "poll_work cfg chain s0 = (Inl e, s0\<lparr>dt_gate := (dt_gate s0)\<lparr>gs_world := w'\<rparr>\<rparr>)"
    using poll by (simp add: poll_work_def io_bind_def det_call_def det_gate_def gate_call_def)
  then have "pollFallback cfg chain s = (Inr (), s2)"
    using assms(1, 2) rec
    by (simp add: pollFallback_def rescan_execute_def io_bind_def io_then_def io_catch_def io_lift_def io_get_def io_modify_def io_return_def
        s0_def s1_def rb_new_def rb_begin_def or_else_def)
  with Suc.IH [OF b2(1)] b2(2) show ?case by (simp add: run_detection_def)
qed

section \<open>Witnesses\<close>

definition sample_detection :: "unit detection_config" where
  "sample_detection = \<lparr>dq_registry = base_registry, dq_failureThreshold = None, dq_gate = None, dq_rescan = None,
     dq_reserveEventRefreshEnabled = None, dq_startEvents = io_return (), dq_stopEvents = (\<lambda>w. w),
     dq_getBorrowersForReserve = (\<lambda>chain token. io_return []), dq_refreshBorrowers = (\<lambda>chain accounts. io_return []),
     dq_refreshBorrowersForDiagnostics = None, dq_pollBorrowers = (\<lambda>chain. io_throw (Exn ''quota'')), dq_now = (\<lambda>w. (1000, w))\<rparr>"

definition sample_detection_state :: "unit detection_state" where
  "sample_detection_state = \<lparr>dt_gate = sample_gate_state, dt_cache = ca_new None None,
     dt_breakers = [(circuitKey ''base'' BreakerRpc, closed_breaker), (circuitKey ''base'' BreakerSubgraph, closed_breaker)],
     dt_rescan = rb_new, dt_fresh = rb_new, dt_errors = 0, dt_onFailures = 0, dt_listening = True\<rparr>"

lemma sample_breakers:
  "js_get (dt_breakers sample_detection_state) (circuitKey ''base'' BreakerRpc) = Some closed_breaker"
  "js_get (dt_breakers sample_detection_state) (circuitKey ''base'' BreakerSubgraph) = Some closed_breaker"
  by (simp_all add: sample_detection_state_def circuitKey_def js_get_def)

theorem detection_breaker_latches_witness:
  "\<exists>b. js_get (dt_breakers (run_detection sample_detection [EventSourceError ''base'', PollFallback ''base'', EventSourceError ''base'',
     ReserveUpdated ''base'' ''0xee'', EventSourceError ''base'', StopDetection] sample_detection_state)) (circuitKey ''base'' BreakerRpc) = Some b \<and>
     cb_status b = Open"
  by (rule detection_breaker_latches [OF sample_breakers(1)]) (simp_all add: sample_detection_def or_else_def)

theorem fresh_breaker_never_sheds_witness:
  "\<exists>b. js_get (dt_breakers (run_detection sample_detection (replicate 5 (PollFallback ''base'')) sample_detection_state)) (circuitKey ''base'' BreakerSubgraph) =
     Some b \<and> cb_failures b = 5"
proof -
  have "registry_get base_registry ''base'' = Inr (createRegisteredChain zero_aave base_input)"
    by (simp add: base_registry_def js_get_def)
  then have "registry_getResolvedAave (dq_registry sample_detection) ''base'' = Inr (rc_aave (createRegisteredChain zero_aave base_input))"
    by (simp add: registry_getResolvedAave_def sample_detection_def del: registry_get_iff)
  from fresh_breaker_never_sheds [OF _ this _ sample_breakers(2), of 5] show ?thesis
    by (simp add: sample_detection_def io_throw_def closed_breaker_def)
qed

end
