(* ===== verification/Scan_Monitor.thy ===== *)
theory Scan_Monitor
  imports Detection Liquidation_Request
begin

text \<open>
  Two scanners of positions. \<open>src/monitors/healthFactorMonitor.ts\<close> scans the protocol for candidates that
  can be executed and holds each of them back for a while; \<open>src/monitors/borrowerWatchlistRescanner.ts\<close>
  refreshes the borrowers near liquidation, behind the lag check of \<open>src/utils/subgraphMeta.ts\<close>, the
  rescan breaker, and a debounce of the block events. The protocol and the subgraph are services. A
  number that a service may answer as \<open>NaN\<close> or infinite is an option. Log lines, with the limiter of
  dust logs that only drops some of them, and latencies are left out.
\<close>

section \<open>HealthFactorMonitor\<close>

record 'w monitor_config =
  mq_getLiquidatablePositions :: "('w, liquidation_candidate list) io"
  mq_getLastScanStats :: "('w \<Rightarrow> nat \<times> nat) option"
  mq_subscribe :: "('w, unit) io option"
  mq_unsubscribe :: "'w \<Rightarrow> 'w"
  mq_candidateCooldownMs :: int
  mq_minProfitUsd :: rat
  mq_gasCostUsd :: rat
  mq_resolveDynamicGasCostUsd :: "('w, rat option) io option"
  mq_slippageBps :: rat
  mq_resolveDynamicSlippageBps :: "('w, rat option) io option"
  mq_minLiquidationDebtUsd :: "rat option"
  mq_resolveDebtUsd :: "(liquidation_candidate \<Rightarrow> ('w, rat) io) option"

record 'w monitor_state =
  ms_world :: 'w
  ms_lastCandidateAt :: "(string, int) jsmap"
  ms_lastScanStats :: "nat \<times> nat"
  ms_subscribed :: bool

type_synonym ('w, 'a) monitor_io = "('w monitor_state, 'a) io"

definition mon_call :: "('w, 'a) io \<Rightarrow> ('w, 'a) monitor_io" where
  "mon_call m s = (case m (ms_world s) of (r, w) \<Rightarrow> (r, s\<lparr>ms_world := w\<rparr>))"

definition candidateKey :: "liquidation_candidate \<Rightarrow> string" where
  "candidateKey c = lc_account c @ '':'' @ lc_collateralAsset c @ '':'' @ lc_debtAsset c"

text \<open>A service that fails, or answers no finite number from zero on, leaves the configured value.\<close>

definition resolve_dynamic :: "('w, rat option) io option \<Rightarrow> rat \<Rightarrow> ('w, rat) monitor_io" where
  "resolve_dynamic service configured =
     (case service of
        None \<Rightarrow> io_return configured
      | Some m \<Rightarrow> io_catch (io_bind (mon_call m) (\<lambda>resolved.
          case resolved of
            Some v \<Rightarrow> io_return (if 0 \<le> v then v else configured)
          | None \<Rightarrow> io_return configured)) (\<lambda>_. io_return configured))"

definition resolveGasCostUsd :: "'w monitor_config \<Rightarrow> ('w, rat) monitor_io" where
  "resolveGasCostUsd cfg = resolve_dynamic (mq_resolveDynamicGasCostUsd cfg) (mq_gasCostUsd cfg)"

definition resolveSlippageBps :: "'w monitor_config \<Rightarrow> ('w, rat) monitor_io" where
  "resolveSlippageBps cfg = resolve_dynamic (mq_resolveDynamicSlippageBps cfg) (mq_slippageBps cfg)"

definition isCoolingDown :: "'w monitor_config \<Rightarrow> liquidation_candidate \<Rightarrow> int \<Rightarrow> 'w monitor_state \<Rightarrow> bool" where
  "isCoolingDown cfg c now s =
     (case js_get (ms_lastCandidateAt s) (candidateKey c) of
        None \<Rightarrow> False
      | Some lastSeen \<Rightarrow> now - lastSeen < mq_candidateCooldownMs cfg)"

definition dust_check :: "'w monitor_config \<Rightarrow> liquidation_candidate \<Rightarrow> rat \<Rightarrow> ('w, bool) monitor_io" where
  "dust_check cfg c gasCostUsd =
     (case mq_minLiquidationDebtUsd cfg of
        None \<Rightarrow> io_return False
      | Some minDebt \<Rightarrow>
          io_bind (case mq_resolveDebtUsd cfg of None \<Rightarrow> io_return (lc_repayValueUsd c) | Some f \<Rightarrow> mon_call (f c)) (\<lambda>debtUsd.
            io_return (dd_isDust (evaluateDustFilter \<lparr>df_debtUsd = debtUsd, df_minDebtUsd = minDebt, df_gasCostUsd = Some gasCostUsd\<rparr>))))"

definition monitor_ev :: "'w monitor_config \<Rightarrow> liquidation_candidate \<Rightarrow> rat \<Rightarrow> rat \<Rightarrow> exn + liquidation_ev" where
  "monitor_ev cfg c gasCostUsd slippageBps =
     calculateLiquidationEv \<lparr>le_repayValueUsd = lc_repayValueUsd c, le_liquidationBonusBps = of_int (lc_liquidationBonusBps c),
       le_gasCostUsd = gasCostUsd, le_slippageBps = slippageBps, le_minProfitUsd = mq_minProfitUsd cfg\<rparr>"

definition isExecutableCandidate :: "'w monitor_config \<Rightarrow> liquidation_candidate \<Rightarrow> int \<Rightarrow> rat \<Rightarrow> rat \<Rightarrow> ('w, bool) monitor_io" where
  "isExecutableCandidate cfg c now gasCostUsd slippageBps =
     io_bind (io_get (isCoolingDown cfg c now)) (\<lambda>cooling.
       if liquidationHealthFactor \<le> lc_healthFactor c \<or> cooling then io_return False
       else io_bind (dust_check cfg c gasCostUsd) (\<lambda>dust.
         if dust then io_return False
         else io_bind (io_lift (monitor_ev cfg c gasCostUsd slippageBps)) (\<lambda>ev. io_return (lv_isProfitable ev))))"

fun executable_candidates :: "'w monitor_config \<Rightarrow> int \<Rightarrow> rat \<Rightarrow> rat \<Rightarrow> liquidation_candidate list \<Rightarrow> ('w, liquidation_candidate list) monitor_io" where
  "executable_candidates cfg now gasCostUsd slippageBps [] = io_return []"
| "executable_candidates cfg now gasCostUsd slippageBps (p # positions) =
     io_bind (isExecutableCandidate cfg p now gasCostUsd slippageBps) (\<lambda>executable.
       io_bind (executable_candidates cfg now gasCostUsd slippageBps positions) (\<lambda>candidates.
         io_return (if executable then p # candidates else candidates)))"

definition scanOnce :: "'w monitor_config \<Rightarrow> int \<Rightarrow> ('w, liquidation_candidate list) monitor_io" where
  "scanOnce cfg now =
     io_bind (resolveGasCostUsd cfg) (\<lambda>gasCostUsd.
     io_bind (resolveSlippageBps cfg) (\<lambda>slippageBps.
     io_bind (mon_call (mq_getLiquidatablePositions cfg)) (\<lambda>positions.
     io_bind (executable_candidates cfg now gasCostUsd slippageBps positions) (\<lambda>candidates.
     io_bind (io_get (\<lambda>s. case mq_getLastScanStats cfg of Some f \<Rightarrow> f (ms_world s) | None \<Rightarrow> (length positions, length positions))) (\<lambda>stats.
     io_then (io_modify (\<lambda>s. s\<lparr>ms_lastScanStats := stats,
         ms_lastCandidateAt := fold (\<lambda>c. js_set (candidateKey c) now) candidates (ms_lastCandidateAt s)\<rparr>))
       (io_return candidates))))))"

definition startReserveDataUpdatedSubscription :: "'w monitor_config \<Rightarrow> ('w, unit) monitor_io" where
  "startReserveDataUpdatedSubscription cfg =
     io_bind (io_get ms_subscribed) (\<lambda>subscribed.
       if subscribed then io_return ()
       else case mq_subscribe cfg of
              None \<Rightarrow> io_return ()
            | Some m \<Rightarrow> io_then (mon_call m) (io_modify (\<lambda>s. s\<lparr>ms_subscribed := True\<rparr>)))"

definition stopReserveDataUpdatedSubscription :: "'w monitor_config \<Rightarrow> ('w, unit) monitor_io" where
  "stopReserveDataUpdatedSubscription cfg =
     io_modify (\<lambda>s. s\<lparr>ms_world := (if ms_subscribed s then mq_unsubscribe cfg (ms_world s) else ms_world s), ms_subscribed := False\<rparr>)"

section \<open>The lag of the subgraph\<close>

text \<open>What the subgraph answers: the status, the messages of its errors, and the number of the block.\<close>

datatype meta_number = MetaNumber rat | MetaString string

record meta_response =
  mr_ok :: bool
  mr_status :: string
  mr_errors :: "string option list option"
  mr_block :: "meta_number option"

definition join_with :: "string \<Rightarrow> string list \<Rightarrow> string" where
  "join_with sep parts = concat (case parts of [] \<Rightarrow> [] | p # ps \<Rightarrow> p # map (\<lambda>q. sep @ q) ps)"

definition fetchSubgraphIndexedBlock :: "('w, meta_response) io \<Rightarrow> (string \<Rightarrow> exn + int) \<Rightarrow> ('w, int) io" where
  "fetchSubgraphIndexedBlock fetch parse =
     io_bind fetch (\<lambda>response.
       if \<not> mr_ok response then io_throw (Exn (''subgraph_meta_http_'' @ mr_status response))
       else case mr_errors response of
              Some (e # errors) \<Rightarrow> io_throw (Exn (join_with ''; '' (map (\<lambda>m. case m of None \<Rightarrow> ''unknown'' | Some t \<Rightarrow> t) (e # errors))))
            | _ \<Rightarrow> (case mr_block response of
                      None \<Rightarrow> io_throw (Exn ''subgraph_meta_missing_block_number'')
                    | Some (MetaNumber n) \<Rightarrow> io_lift (bigint_of n)
                    | Some (MetaString t) \<Rightarrow> io_lift (parse t)))"

definition computeSubgraphLag :: "int \<Rightarrow> int \<Rightarrow> int" where
  "computeSubgraphLag currentBlock indexedBlock = (if indexedBlock < currentBlock then currentBlock - indexedBlock else 0)"

section \<open>The rescanner\<close>

record 'w lag_check =
  lk_indexedBlock :: "('w, int) io"
  lk_getChainBlockNumber :: "('w, int) io"
  lk_maxLagBlocks :: "int option"
  lk_skipRescanWhenLagExceeds :: "int option"

record 'w rescan_config =
  rq_chain :: string
  rq_listBorrowerAddresses :: "('w, address list) io option"
  rq_getUserAccount :: "(address \<Rightarrow> ('w, aave_user_account) io) option"
  rq_refreshBorrowers :: "string \<Rightarrow> address list \<Rightarrow> ('w, borrower_snapshot list) io"
  rq_refreshWatchlistBorrowers :: "(string \<Rightarrow> address list \<Rightarrow> ('w, borrower_snapshot list) io) option"
  rq_fetchBorrowers :: "('w, address list) io option"
  rq_lagCheck :: "'w lag_check option"
  rq_threshold :: "nat option"
  rq_cooldownMs :: "int option"
  rq_now :: "'w \<Rightarrow> int \<times> 'w"

record 'w rescan_state =
  rs_world :: 'w
  rs_cache :: borrower_cache
  rs_breaker :: rescan_breaker
  rs_lagRecorded :: "int list"
  rs_errors :: nat

type_synonym ('w, 'a) rescan_io = "('w rescan_state, 'a) io"

definition res_call :: "('w, 'a) io \<Rightarrow> ('w, 'a) rescan_io" where
  "res_call m s = (case m (rs_world s) of (r, w) \<Rightarrow> (r, s\<lparr>rs_world := w\<rparr>))"

definition res_clock :: "'w rescan_config \<Rightarrow> ('w, int) rescan_io" where
  "res_clock cfg = res_call (\<lambda>w. case rq_now cfg w of (t, w') \<Rightarrow> (Inr t, w'))"

definition preLiquidatableHealthFactorWad :: int where
  "preLiquidatableHealthFactorWad = 1050000000000000000"

definition evaluateSubgraphLag :: "'w lag_check \<Rightarrow> ('w, int \<times> bool) rescan_io" where
  "evaluateSubgraphLag lag =
     io_bind (res_call (lk_indexedBlock lag)) (\<lambda>indexedBlock.
     io_bind (res_call (lk_getChainBlockNumber lag)) (\<lambda>currentBlock.
       let blocksBehind = computeSubgraphLag currentBlock indexedBlock
       in io_then (if or_else (lk_maxLagBlocks lag) 10 < blocksBehind
                   then io_modify (\<lambda>s. s\<lparr>rs_lagRecorded := rs_lagRecorded s @ [blocksBehind]\<rparr>) else io_return ())
            (io_return (blocksBehind, or_else (lk_skipRescanWhenLagExceeds lag) 50 < blocksBehind))))"

fun near_liquidation :: "(address \<Rightarrow> ('w, aave_user_account) io) \<Rightarrow> int \<Rightarrow> address list \<Rightarrow> ('w, address list) io" where
  "near_liquidation getUserAccount hfThresholdWad [] = io_return []"
| "near_liquidation getUserAccount hfThresholdWad (a # addresses) =
     io_bind (getUserAccount a) (\<lambda>user.
       io_bind (near_liquidation getUserAccount hfThresholdWad addresses) (\<lambda>matched.
         io_return (if 0 < ua_totalDebtBase user \<and> ua_healthFactor user \<le> hfThresholdWad then a # matched else matched)))"

definition fetchBorrowersNearLiquidation :: "'w rescan_config \<Rightarrow> int \<Rightarrow> ('w, address list) io" where
  "fetchBorrowersNearLiquidation cfg hfThresholdWad =
     (case (rq_listBorrowerAddresses cfg, rq_getUserAccount cfg) of
        (Some listing, Some getUserAccount) \<Rightarrow> io_bind listing (near_liquidation getUserAccount hfThresholdWad)
      | _ \<Rightarrow> io_return [])"

definition rescan_accounts :: "'w rescan_config \<Rightarrow> ('w, nat \<times> nat) rescan_io" where
  "rescan_accounts cfg =
     io_bind (res_call (case rq_fetchBorrowers cfg of
                          None \<Rightarrow> fetchBorrowersNearLiquidation cfg preLiquidatableHealthFactorWad
                        | Some fetch \<Rightarrow> fetch)) (\<lambda>accounts.
       if accounts = [] then io_return (0, 0)
       else io_bind (res_call (case rq_refreshWatchlistBorrowers cfg of
                                 None \<Rightarrow> rq_refreshBorrowers cfg (rq_chain cfg) accounts
                               | Some refresh \<Rightarrow> refresh (rq_chain cfg) accounts)) (\<lambda>snapshots.
         io_bind (io_get rs_cache) (\<lambda>cache.
           io_bind (upsert_all (res_clock cfg) snapshots cache) (\<lambda>cache'.
             io_then (io_modify (\<lambda>s. s\<lparr>rs_cache := cache'\<rparr>)) (io_return (length accounts, length snapshots))))))"

definition rescanBorrowerWatchlist :: "'w rescan_config \<Rightarrow> ('w, nat \<times> nat) rescan_io" where
  "rescanBorrowerWatchlist cfg =
     (case rq_lagCheck cfg of
        None \<Rightarrow> rescan_accounts cfg
      | Some lag \<Rightarrow> io_bind (evaluateSubgraphLag lag) (\<lambda>(blocksBehind, skipRescan).
          if skipRescan then io_return (0, 0) else rescan_accounts cfg))"

text \<open>One run of the started rescanner, of the timer or triggered.\<close>

definition run_rescan :: "'w rescan_config \<Rightarrow> ('w, unit) rescan_io" where
  "run_rescan cfg =
     rescan_execute rs_breaker (\<lambda>f s. s\<lparr>rs_breaker := f (rs_breaker s)\<rparr>) (res_clock cfg) (rq_threshold cfg) (rq_cooldownMs cfg)
       (io_then (rescanBorrowerWatchlist cfg) (io_return ()))
       (\<lambda>_. io_modify (\<lambda>s. s\<lparr>rs_errors := rs_errors s + 1\<rparr>))"

definition stop_rescanner :: "('w, unit) rescan_io" where
  "stop_rescanner = io_modify (\<lambda>s. s\<lparr>rs_breaker := rb_stop (rs_breaker s)\<rparr>)"

section \<open>The debounce of block events\<close>

text \<open>\<open>createDebouncedBlockRescan\<close>: the time of the last run, the due time of the pending timer, and the
  block it would trigger with. Times are those of the clock.\<close>

record debounce =
  db_lastRunMs :: int
  db_pending :: "int option"
  db_pendingBlock :: "int option"

definition db_new :: debounce where
  "db_new = \<lparr>db_lastRunMs = 0, db_pending = None, db_pendingBlock = None\<rparr>"

definition db_block :: "int \<Rightarrow> int \<Rightarrow> int \<Rightarrow> debounce \<Rightarrow> debounce" where
  "db_block debounceMs now blockNumber d =
     d\<lparr>db_pendingBlock := Some blockNumber, db_pending := Some (now + max 0 (debounceMs - (now - db_lastRunMs d)))\<rparr>"

text \<open>The timer fires: the block it triggers with, if any.\<close>

definition db_fire :: "int \<Rightarrow> debounce \<Rightarrow> int option \<times> debounce" where
  "db_fire now d =
     (case db_pendingBlock d of
        None \<Rightarrow> (None, d\<lparr>db_pending := None\<rparr>)
      | Some b \<Rightarrow> (Some b, \<lparr>db_lastRunMs = now, db_pending = None, db_pendingBlock = None\<rparr>))"

text \<open>The runs of the debounce: time passes, a block arrives, or the timer fires at its due time or later.
  The triggers are listed with their times, the newest first.\<close>

inductive debounced :: "int \<Rightarrow> int \<Rightarrow> debounce \<Rightarrow> (int \<times> int) list \<Rightarrow> bool" for debounceMs :: int where
  debounce_start: "debounced debounceMs now db_new []"
| debounce_wait: "debounced debounceMs now d triggers \<Longrightarrow> now \<le> now' \<Longrightarrow> debounced debounceMs now' d triggers"
| debounce_block: "debounced debounceMs now d triggers \<Longrightarrow> debounced debounceMs now (db_block debounceMs now b d) triggers"
| debounce_fire: "debounced debounceMs now d triggers \<Longrightarrow> db_pending d = Some due \<Longrightarrow> due \<le> now \<Longrightarrow> db_fire now d = (Some b, d') \<Longrightarrow>
    debounced debounceMs now d' ((now, b) # triggers)"

section \<open>Lemmas\<close>

definition unseen :: "'w monitor_config \<Rightarrow> int \<Rightarrow> 'w monitor_state \<Rightarrow> liquidation_candidate \<Rightarrow> bool" where
  "unseen cfg now s c \<longleftrightarrow> lc_healthFactor c < liquidationHealthFactor \<and> \<not> isCoolingDown cfg c now s"

lemma mon_call_last: "ms_lastCandidateAt (snd (mon_call m s)) = ms_lastCandidateAt s"
  by (simp add: mon_call_def split: prod.splits)

lemma io_keeps_mon_call [io_rules]: "(\<And>s w. P s \<Longrightarrow> P (s\<lparr>ms_world := w\<rparr>)) \<Longrightarrow> io_keeps P (mon_call m)"
  by (auto simp: io_keeps_def io_valid_def mon_call_def split: prod.splits sum.splits)

lemma io_keeps_resolve [io_rules]: "(\<And>s w. P s \<Longrightarrow> P (s\<lparr>ms_world := w\<rparr>)) \<Longrightarrow> io_keeps P (resolve_dynamic service configured)"
  unfolding resolve_dynamic_def by (cases service) (auto intro!: io_rules)

lemma io_keeps_executable [io_rules]: "(\<And>s w. P s \<Longrightarrow> P (s\<lparr>ms_world := w\<rparr>)) \<Longrightarrow> io_keeps P (isExecutableCandidate cfg c now gas slip)"
  unfolding isExecutableCandidate_def dust_check_def
  by (cases "mq_minLiquidationDebtUsd cfg"; cases "mq_resolveDebtUsd cfg") (auto intro!: io_rules)

lemma executable_unseen:
  assumes "isExecutableCandidate cfg c now gas slip s = (Inr True, s')"
  shows "unseen cfg now s c"
  using assms by (auto simp: isExecutableCandidate_def unseen_def io_bind_def io_get_def io_return_def split: if_splits)

lemma unseen_last: "ms_lastCandidateAt s' = ms_lastCandidateAt s \<Longrightarrow> unseen cfg now s' = unseen cfg now s"
  by (simp add: unseen_def isCoolingDown_def fun_eq_iff)

lemma executable_candidates_unseen:
  "executable_candidates cfg now gas slip positions s = (r, s') \<Longrightarrow>
   ms_lastCandidateAt s' = ms_lastCandidateAt s \<and> (\<forall>cs. r = Inr cs \<longrightarrow> (\<forall>c \<in> set cs. c \<in> set positions \<and> unseen cfg now s c))"
proof (induction positions arbitrary: s r s')
  case Nil
  then show ?case by (auto simp: io_return_def)
next
  case (Cons p positions)
  obtain r1 s1 where one: "isExecutableCandidate cfg p now gas slip s = (r1, s1)" by fastforce
  have last: "ms_lastCandidateAt s1 = ms_lastCandidateAt s"
    using io_keepsD [OF io_keeps_executable, of "\<lambda>t. ms_lastCandidateAt t = ms_lastCandidateAt s" s cfg p now gas slip] one by simp
  show ?case
  proof (cases r1)
    case (Inl e)
    with Cons.prems one last show ?thesis by (auto simp: io_bind_def)
  next
    case (Inr executable)
    obtain r2 s2 where rest: "executable_candidates cfg now gas slip positions s1 = (r2, s2)" by fastforce
    from Cons.IH [OF rest] Cons.prems one rest Inr last executable_unseen [of cfg p now gas slip s s1] unseen_last [OF last, of cfg now]
    show ?thesis by (cases r2) (auto simp: io_bind_def io_return_def split: if_splits)
  qed
qed

lemma scanOnce_result:
  assumes "scanOnce cfg now s = (r, s')"
  shows "case r of
      Inl e \<Rightarrow> ms_lastCandidateAt s' = ms_lastCandidateAt s
    | Inr cs \<Rightarrow> ms_lastCandidateAt s' = fold (\<lambda>c. js_set (candidateKey c) now) cs (ms_lastCandidateAt s) \<and> (\<forall>c \<in> set cs. unseen cfg now s c)"
proof -
  let ?P = "\<lambda>t. ms_lastCandidateAt t = ms_lastCandidateAt s"
  obtain r1 s1 where gas: "resolveGasCostUsd cfg s = (r1, s1)" by fastforce
  have 1: "?P s1" using io_keepsD [OF io_keeps_resolve, of ?P s] gas by (simp add: resolveGasCostUsd_def) (metis snd_conv)
  obtain r2 s2 where slip: "resolveSlippageBps cfg s1 = (r2, s2)" by fastforce
  have 2: "?P s2" using io_keepsD [OF io_keeps_resolve, of ?P s1] slip 1 by (simp add: resolveSlippageBps_def) (metis snd_conv)
  obtain r3 s3 where positions: "mon_call (mq_getLiquidatablePositions cfg) s2 = (r3, s3)" by fastforce
  have 3: "?P s3" using mon_call_last [of "mq_getLiquidatablePositions cfg" s2] positions 2 by simp
  show ?thesis
  proof (cases "\<exists>gasCost slippage ps. r1 = Inr gasCost \<and> r2 = Inr slippage \<and> r3 = Inr ps")
    case False
    then show ?thesis
      using assms gas slip positions 1 2 3 by (cases r1; cases r2; cases r3) (auto simp: scanOnce_def io_bind_def)
  next
    case True
    then obtain gasCost slippage ps where r: "r1 = Inr gasCost" "r2 = Inr slippage" "r3 = Inr ps" by blast
    obtain r4 s4 where cands: "executable_candidates cfg now gasCost slippage ps s3 = (r4, s4)" by fastforce
    from executable_candidates_unseen [OF cands] unseen_last [OF 3, of cfg now] 3 show ?thesis
      using assms gas slip positions cands r
      by (cases r4) (auto simp: scanOnce_def io_bind_def io_then_def io_get_def io_modify_def io_return_def)
  qed
qed

lemma js_get_fold_set:
  "js_get (fold (\<lambda>c. js_set (f c) v) cs m) k = (if k \<in> f ` set cs then Some v else js_get m k)"
  by (induction cs arbitrary: m) auto

section \<open>Properties\<close>

text \<open>The scans at the given times, each with the candidates it returned; a scan that throws returns none.\<close>

fun scan_history :: "'w monitor_config \<Rightarrow> int list \<Rightarrow> 'w monitor_state \<Rightarrow> (int \<times> liquidation_candidate list) list" where
  "scan_history cfg [] s = []"
| "scan_history cfg (t # ts) s =
     (case scanOnce cfg t s of
        (Inl e, s') \<Rightarrow> (t, []) # scan_history cfg ts s'
      | (Inr cs, s') \<Rightarrow> (t, cs) # scan_history cfg ts s')"

lemma history_times: "map fst (scan_history cfg ts s) = ts"
  by (induction ts arbitrary: s) (auto split: prod.splits sum.splits)

lemma history_after:
  assumes "js_get (ms_lastCandidateAt s) key = Some seen" "sorted ts" "\<forall>t \<in> set ts. seen \<le> t"
    and "(t, cs) \<in> set (scan_history cfg ts s)" "c \<in> set cs" "candidateKey c = key"
  shows "seen + mq_candidateCooldownMs cfg \<le> t"
  using assms
proof (induction ts arbitrary: s seen)
  case Nil
  then show ?case by simp
next
  case (Cons t0 ts)
  obtain r s' where scan: "scanOnce cfg t0 s = (r, s')" by fastforce
  define found where "found = (case r of Inl _ \<Rightarrow> [] | Inr cs0 \<Rightarrow> cs0)"
  have hist: "scan_history cfg (t0 # ts) s = (t0, found) # scan_history cfg ts s'" using scan by (simp add: found_def split: sum.splits)
  have last: "js_get (ms_lastCandidateAt s') key = (if key \<in> candidateKey ` set found then Some t0 else Some seen)"
    and cool: "\<forall>d \<in> set found. \<not> isCoolingDown cfg d t0 s"
    using scanOnce_result [OF scan] Cons.prems(1) by (auto simp: found_def js_get_fold_set unseen_def split: sum.splits)
  have now: "seen + mq_candidateCooldownMs cfg \<le> t0" if "key \<in> candidateKey ` set found"
    using that cool Cons.prems(1) by (auto simp: isCoolingDown_def)
  show ?case
  proof (cases "(t, cs) = (t0, found)")
    case True
    with now Cons.prems(5, 6) show ?thesis by auto
  next
    case False
    then have later: "(t, cs) \<in> set (scan_history cfg ts s')" using Cons.prems(4) unfolding hist by auto
    show ?thesis
    proof (cases "key \<in> candidateKey ` set found")
      case True
      then have "t0 + mq_candidateCooldownMs cfg \<le> t"
        using Cons.IH [of s' t0] last later Cons.prems by auto
      moreover have "seen \<le> t0" using Cons.prems(3) by simp
      ultimately show ?thesis by linarith
    next
      case False
      then show ?thesis using Cons.IH [of s' seen] last later Cons.prems by auto
    qed
  qed
qed

text \<open>A candidate is never handed out twice within the cooldown: in every history of scans at increasing
  times, two scans that return candidates of the same account and assets lie at least the cooldown apart,
  and every candidate returned has a health factor below one.\<close>

theorem scan_respects_cooldown:
  assumes "sorted ts"
  shows "sorted_wrt (\<lambda>(t, cs) (t', cs'). \<forall>c \<in> set cs. \<forall>c' \<in> set cs'. candidateKey c = candidateKey c' \<longrightarrow>
      t + mq_candidateCooldownMs cfg \<le> t') (scan_history cfg ts s) \<and>
    (\<forall>(t, cs) \<in> set (scan_history cfg ts s). \<forall>c \<in> set cs. lc_healthFactor c < liquidationHealthFactor)"
  using assms
proof (induction ts arbitrary: s)
  case Nil
  then show ?case by simp
next
  case (Cons t0 ts)
  obtain r s' where scan: "scanOnce cfg t0 s = (r, s')" by fastforce
  define found where "found = (case r of Inl _ \<Rightarrow> [] | Inr cs0 \<Rightarrow> cs0)"
  have hist: "scan_history cfg (t0 # ts) s = (t0, found) # scan_history cfg ts s'" using scan by (simp add: found_def split: sum.splits)
  have last: "c \<in> set found \<Longrightarrow> js_get (ms_lastCandidateAt s') (candidateKey c) = Some t0 \<and> lc_healthFactor c < liquidationHealthFactor" for c
    using scanOnce_result [OF scan] by (auto simp: found_def js_get_fold_set unseen_def split: sum.splits)
  have "t0 + mq_candidateCooldownMs cfg \<le> t" if "c \<in> set found" "(t, cs) \<in> set (scan_history cfg ts s')" "c' \<in> set cs"
      "candidateKey c = candidateKey c'" for c t cs c'
  proof (rule history_after [OF _ _ _ that(2, 3)])
    show "js_get (ms_lastCandidateAt s') (candidateKey c) = Some t0" using last [OF that(1)] by (rule conjunct1)
    show "candidateKey c' = candidateKey c" using that(4) by (rule sym)
  qed (use Cons.prems in simp_all)
  then have first: "\<forall>y \<in> set (scan_history cfg ts s'). case y of (t', cs') \<Rightarrow> \<forall>c \<in> set found. \<forall>c' \<in> set cs'.
      candidateKey c = candidateKey c' \<longrightarrow> t0 + mq_candidateCooldownMs cfg \<le> t'"
    by blast
  have "sorted ts" using Cons.prems by simp
  from Cons.IH [OF this, of s'] first last show ?case unfolding hist by simp
qed

text \<open>The debounce spaces the rescans and never starves them: in every run, any two triggers are at
  least the debounce time apart, and a block that waits has a timer, due as soon as the debounce time
  since the last run is over, however many blocks arrive in the meantime.\<close>

theorem debounce_spaces_and_fires:
  assumes "debounced debounceMs now d triggers" and "0 \<le> debounceMs"
  shows "sorted_wrt (\<lambda>(t, b) (t', b'). t' + debounceMs \<le> t) triggers \<and>
    (db_pendingBlock d \<noteq> None \<longrightarrow> (\<exists>due. db_pending d = Some due \<and> due \<le> max now (db_lastRunMs d + debounceMs)))"
proof -
  have "sorted_wrt (\<lambda>(t, b) (t', b'). t' + debounceMs \<le> t) triggers \<and> (\<forall>(t, b) \<in> set triggers. t \<le> db_lastRunMs d) \<and>
    (db_pendingBlock d \<noteq> None \<longrightarrow> db_pending d \<noteq> None) \<and>
    (\<forall>due. db_pending d = Some due \<longrightarrow> db_lastRunMs d + debounceMs \<le> due \<and> due \<le> max now (db_lastRunMs d + debounceMs))"
    using assms(1)
  proof (induction rule: debounced.induct)
    case (debounce_start now)
    then show ?case by (simp add: db_new_def)
  next
    case (debounce_wait now d triggers now')
    then show ?case by fastforce
  next
    case (debounce_block now d triggers b)
    then show ?case by (auto simp: db_block_def)
  next
    case (debounce_fire now d triggers due b d')
    then have "db_lastRunMs d + debounceMs \<le> now" by fastforce
    with debounce_fire assms(2) show ?case by (fastforce simp: db_fire_def split: option.splits)
  qed
  then show ?thesis by blast
qed

section \<open>Witnesses\<close>

definition sample_monitor :: "unit monitor_config" where
  "sample_monitor = \<lparr>mq_getLiquidatablePositions = io_return [sample_candidate], mq_getLastScanStats = None, mq_subscribe = None,
     mq_unsubscribe = (\<lambda>w. w), mq_candidateCooldownMs = 100, mq_minProfitUsd = 1, mq_gasCostUsd = 1 / 2, mq_resolveDynamicGasCostUsd = None,
     mq_slippageBps = 0, mq_resolveDynamicSlippageBps = Some (io_return None), mq_minLiquidationDebtUsd = Some 10, mq_resolveDebtUsd = None\<rparr>"

definition sample_monitor_state :: "unit monitor_state" where
  "sample_monitor_state = \<lparr>ms_world = (), ms_lastCandidateAt = [], ms_lastScanStats = (0, 0), ms_subscribed = False\<rparr>"

theorem scan_respects_cooldown_witness:
  "map (\<lambda>(t, cs). (t, length cs)) (scan_history sample_monitor [5, 6, 7] sample_monitor_state) = [(5, 1), (6, 0), (7, 0)] \<and>
   sorted_wrt (\<lambda>(t, cs) (t', cs'). \<forall>c \<in> set cs. \<forall>c' \<in> set cs'. candidateKey c = candidateKey c' \<longrightarrow>
      t + mq_candidateCooldownMs sample_monitor \<le> t') (scan_history sample_monitor [5, 6, 7] sample_monitor_state)"
proof -
  have "map (\<lambda>(t, cs). (t, length cs)) (scan_history sample_monitor [5, 6, 7] sample_monitor_state) = [(5, 1), (6, 0), (7, 0)]" by code_simp
  moreover have "sorted [5, 6, 7 :: int]" by simp
  ultimately show ?thesis using scan_respects_cooldown [of "[5, 6, 7]" sample_monitor sample_monitor_state] by blast
qed

theorem debounce_spaces_and_fires_witness:
  "\<exists>d. debounced 10 25 d [(25, 7), (12, 5)] \<and> (12 :: int) + 10 \<le> 25 \<and> db_pendingBlock d = None"
proof -
  have "debounced 10 12 db_new []" by (rule debounce_start)
  from debounce_block [OF this, of 5] have "debounced 10 12 \<lparr>db_lastRunMs = 0, db_pending = Some 12, db_pendingBlock = Some 5\<rparr> []"
    by (simp add: db_block_def db_new_def)
  from debounce_fire [OF this, of 12 5] have "debounced 10 12 \<lparr>db_lastRunMs = 12, db_pending = None, db_pendingBlock = None\<rparr> [(12, 5)]"
    by (simp add: db_fire_def)
  from debounce_wait [OF debounce_block [OF this, of 7], of 25]
  have "debounced 10 25 \<lparr>db_lastRunMs = 12, db_pending = Some 22, db_pendingBlock = Some 7\<rparr> [(12, 5)]"
    by (simp add: db_block_def)
  from debounce_fire [OF this, of 22 7] have run: "debounced 10 25 \<lparr>db_lastRunMs = 25, db_pending = None, db_pendingBlock = None\<rparr> [(25, 7), (12, 5)]"
    by (simp add: db_fire_def)
  from debounce_spaces_and_fires [OF this] have "(12 :: int) + 10 \<le> 25" by simp
  with run show ?thesis by (intro exI [of _ "\<lparr>db_lastRunMs = 25, db_pending = None, db_pendingBlock = None\<rparr>"]) simp
qed

end
