(* ===== verification/Liquidation_Bot.thy ===== *)
theory Liquidation_Bot
  imports Scan_Monitor
begin

text \<open>
  The bot without the pipeline: \<open>src/bot.ts\<close> scans, executes every candidate and counts what happened;
  \<open>src/executors/liquidationExecutor.ts\<close> decides in dollars or in wei whether a candidate pays,
  simulates it and sends it; \<open>src/executors/liquidationHfPreflight.ts\<close> checks a health factor before a
  liquidation. Clients, monitor and alert are services. Of the metrics the counters of \<open>snapshot\<close> are
  modelled, not the Prometheus registry, nor its HTTP server and the logger.
\<close>

section \<open>Call parameters\<close>

record liquidation_call_params =
  cp_address :: address
  cp_collateralAsset :: address
  cp_debtAsset :: address
  cp_user :: address
  cp_debtToCover :: int
  cp_receiveAToken :: bool

definition buildLiquidationCallParams :: "liquidation_candidate \<Rightarrow> address \<Rightarrow> liquidation_call_params" where
  "buildLiquidationCallParams position pool =
     \<lparr>cp_address = pool, cp_collateralAsset = lc_collateralAsset position, cp_debtAsset = lc_debtAsset position,
      cp_user = lc_account position, cp_debtToCover = lc_debtToCover position, cp_receiveAToken = False\<rparr>"

record flash_loan_request =
  fr_receiverAddress :: address
  fr_asset :: address
  fr_amount :: int
  fr_encodedParams :: string
  fr_referralCode :: int

record flash_loan_params = flash_loan_request +
  fr_address :: address

definition buildFlashLoanSimpleParams :: "address \<Rightarrow> flash_loan_request \<Rightarrow> flash_loan_params" where
  "buildFlashLoanSimpleParams pool r = flash_loan_request.extend r \<lparr>fr_address = pool\<rparr>"

record tx_overrides =
  to_gas :: int
  to_gasPrice :: int
  to_nonce :: int

record 'w action_clients =
  al_pool :: address
  al_account :: address
  al_simulateLiquidation :: "address \<Rightarrow> liquidation_call_params \<Rightarrow> tx_overrides option \<Rightarrow> ('w, unit) io"
  al_writeLiquidation :: "address \<Rightarrow> liquidation_call_params \<Rightarrow> tx_overrides option \<Rightarrow> ('w, string) io"
  al_simulateFlashLoan :: "address \<Rightarrow> flash_loan_params \<Rightarrow> ('w, unit) io"
  al_writeFlashLoan :: "address \<Rightarrow> flash_loan_params \<Rightarrow> ('w, string) io"

definition createLiquidationActions ::
  "'w action_clients \<Rightarrow> (liquidation_candidate \<Rightarrow> tx_overrides option \<Rightarrow> ('w, unit) io) \<times> (liquidation_candidate \<Rightarrow> tx_overrides option \<Rightarrow> ('w, string) io)" where
  "createLiquidationActions cl =
     ((\<lambda>c ov. al_simulateLiquidation cl (al_account cl) (buildLiquidationCallParams c (al_pool cl)) ov),
      (\<lambda>c ov. al_writeLiquidation cl (al_account cl) (buildLiquidationCallParams c (al_pool cl)) ov))"

definition createFlashLoanActions ::
  "'w action_clients \<Rightarrow> (flash_loan_request \<Rightarrow> ('w, unit) io) \<times> (flash_loan_request \<Rightarrow> ('w, string) io)" where
  "createFlashLoanActions cl =
     ((\<lambda>r. al_simulateFlashLoan cl (al_account cl) (buildFlashLoanSimpleParams (al_pool cl) r)),
      (\<lambda>r. al_writeFlashLoan cl (al_account cl) (buildFlashLoanSimpleParams (al_pool cl) r)))"

section \<open>LiquidationExecutor\<close>

datatype bot_result =
    LxSent string "rat option" "int option"
  | LxSimulated int
  | LxSkipped string rat
  | LxFailed string rat

record 'w executor_config =
  lx_minProfitUsd :: "rat option"
  lx_gasCostUsd :: "rat option"
  lx_slippageBps :: "rat option"
  lx_minProfitWei :: "int option"
  lx_simulationMode :: "bool option"
  lx_estimateGas :: "(liquidation_candidate \<Rightarrow> ('w, int) io) option"
  lx_getGasPrice :: "('w, int) io option"
  lx_getNonce :: "('w, int) io option"
  lx_simulate :: "liquidation_candidate \<Rightarrow> tx_overrides option \<Rightarrow> ('w, unit) io"
  lx_send :: "liquidation_candidate \<Rightarrow> tx_overrides option \<Rightarrow> ('w, string) io"

definition usesEthEv :: "'w executor_config \<Rightarrow> liquidation_candidate \<Rightarrow> bool" where
  "usesEthEv cfg c \<longleftrightarrow> lx_minProfitWei cfg \<noteq> None \<or> lc_collateralReceivedWei c \<noteq> None \<or> lc_gasEstimate c \<noteq> None \<or> lc_gasPrice c \<noteq> None"

definition getGasEstimate :: "'w executor_config \<Rightarrow> liquidation_candidate \<Rightarrow> ('w, int) io" where
  "getGasEstimate cfg c =
     (case lx_estimateGas cfg of
        Some f \<Rightarrow> f c
      | None \<Rightarrow> (case lc_gasEstimate c of
                   Some g \<Rightarrow> io_return g
                 | None \<Rightarrow> io_throw (Exn ''estimateGas is required for ETH-denominated EV execution'')))"

definition getGasPrice :: "'w executor_config \<Rightarrow> ('w, int) io" where
  "getGasPrice cfg =
     (case lx_getGasPrice cfg of Some m \<Rightarrow> m | None \<Rightarrow> io_throw (Exn ''getGasPrice is required for ETH-denominated EV execution''))"

definition getNonce :: "'w executor_config \<Rightarrow> ('w, int) io" where
  "getNonce cfg =
     (case lx_getNonce cfg of Some m \<Rightarrow> m | None \<Rightarrow> io_throw (Exn ''getNonce is required for ETH-denominated EV execution''))"

definition addOptimismGasBuffer :: "int \<Rightarrow> int" where
  "addOptimismGasBuffer gasEstimate = bdiv (gasEstimate * 120) 100"

definition usd_ev :: "'w executor_config \<Rightarrow> liquidation_candidate \<Rightarrow> exn + liquidation_ev" where
  "usd_ev cfg c =
     calculateLiquidationEv \<lparr>le_repayValueUsd = lc_repayValueUsd c, le_liquidationBonusBps = of_int (lc_liquidationBonusBps c),
       le_gasCostUsd = or_else (lx_gasCostUsd cfg) 0, le_slippageBps = or_else (lx_slippageBps cfg) 0,
       le_minProfitUsd = or_else (lx_minProfitUsd cfg) 0\<rparr>"

definition wei_ev :: "'w executor_config \<Rightarrow> liquidation_candidate \<Rightarrow> int \<Rightarrow> int \<Rightarrow> exn + liquidation_ev_wei" where
  "wei_ev cfg c gasEstimate gasPrice =
     calculateLiquidationEV (lc_debtToCover c) (or_else (lc_collateralReceivedWei c) (lc_debtToCover c))
       (or_else (lc_bonusPercentage c) (of_int (lc_liquidationBonusBps c))) gasEstimate gasPrice
       (Some (or_else (lx_minProfitWei cfg) MIN_PROFIT_THRESHOLD_WEI))"

definition executeWithEthEv :: "'w executor_config \<Rightarrow> liquidation_candidate \<Rightarrow> ('w, bot_result) io" where
  "executeWithEthEv cfg c =
     io_bind (getGasEstimate cfg c) (\<lambda>gasEstimate.
     io_bind (getGasPrice cfg) (\<lambda>gasPrice.
     io_bind (getNonce cfg) (\<lambda>nonce.
     io_bind (io_lift (wei_ev cfg c gasEstimate gasPrice)) (\<lambda>ev.
       if \<not> lw_isProfitable ev then io_return (LxSkipped ''below_min_profit'' 0)
       else let overrides = Some \<lparr>to_gas = addOptimismGasBuffer gasEstimate, to_gasPrice = gasPrice, to_nonce = nonce\<rparr>
            in io_then (lx_simulate cfg c overrides)
                 (if or_else (lx_simulationMode cfg) True then io_return (LxSimulated (lw_profitWei ev))
                  else io_bind (lx_send cfg c overrides) (\<lambda>txHash. io_return (LxSent txHash None (Some (lw_profitWei ev)))))))))"

definition simulateAndSend :: "'w executor_config \<Rightarrow> liquidation_candidate \<Rightarrow> rat \<Rightarrow> ('w, bot_result) io" where
  "simulateAndSend cfg c expectedProfitUsd =
     io_catch (io_then (lx_simulate cfg c None) (io_bind (lx_send cfg c None) (\<lambda>txHash.
         io_return (LxSent txHash (Some expectedProfitUsd) None))))
       (\<lambda>e. io_return (LxFailed (exn_message e) expectedProfitUsd))"

definition lx_execute :: "'w executor_config \<Rightarrow> liquidation_candidate \<Rightarrow> ('w, bot_result) io" where
  "lx_execute cfg c =
     (if usesEthEv cfg c then executeWithEthEv cfg c
      else io_bind (io_lift (usd_ev cfg c)) (\<lambda>ev.
        if \<not> lv_isProfitable ev then io_return (LxSkipped ''below_min_profit'' (lv_expectedProfitUsd ev))
        else simulateAndSend cfg c (lv_expectedProfitUsd ev)))"

section \<open>The preflight\<close>

datatype preflight_result = PreflightOk int int | PreflightStale int | PreflightHealthy int int

definition validateLiquidatableHealthFactor :: "('w, int) io \<Rightarrow> (address \<Rightarrow> ('w, int \<times> int \<times> int \<times> int \<times> int \<times> int) io) \<Rightarrow> address \<Rightarrow> int option \<Rightarrow> ('w, preflight_result) io" where
  "validateLiquidatableHealthFactor getBlockNumber readAccount account detectionBlock =
     io_bind getBlockNumber (\<lambda>head.
       if (case detectionBlock of Some b \<Rightarrow> b < head - 1 | None \<Rightarrow> False) then io_return (PreflightStale head)
       else io_bind (readAccount account) (\<lambda>(collateral, debt, available, threshold, ltv, healthFactor).
         if WAD \<le> healthFactor then io_return (PreflightHealthy healthFactor head) else io_return (PreflightOk healthFactor head)))"

section \<open>Metrics\<close>

record bot_metrics =
  bm_positionsScanned :: nat
  bm_liquidationsAttempted :: nat
  bm_liquidationsExecuted :: nat
  bm_totalProfitEth :: rat
  bm_errorsTotal :: nat
  bm_arbitrageOpportunitiesScanned :: nat
  bm_arbitrageApproved :: nat
  bm_arbitrageExecuted :: nat
  bm_netProfitUsd :: rat
  bm_publicRpcSubmissions :: nat
  bm_privateBundleSubmissions :: nat
  bm_bootstrapSource :: "string option"
  bm_usersSeeded :: "nat option"
  bm_positionCacheSize :: "nat option"

definition createBotMetrics :: bot_metrics where
  "createBotMetrics = \<lparr>bm_positionsScanned = 0, bm_liquidationsAttempted = 0, bm_liquidationsExecuted = 0, bm_totalProfitEth = 0,
     bm_errorsTotal = 0, bm_arbitrageOpportunitiesScanned = 0, bm_arbitrageApproved = 0, bm_arbitrageExecuted = 0, bm_netProfitUsd = 0,
     bm_publicRpcSubmissions = 0, bm_privateBundleSubmissions = 0, bm_bootstrapSource = None, bm_usersSeeded = None, bm_positionCacheSize = None\<rparr>"

definition recordPositionsScanned :: "nat \<Rightarrow> bot_metrics \<Rightarrow> bot_metrics" where
  "recordPositionsScanned n m = m\<lparr>bm_positionsScanned := bm_positionsScanned m + n\<rparr>"

definition recordLiquidationAttempt :: "bot_metrics \<Rightarrow> bot_metrics" where
  "recordLiquidationAttempt m = m\<lparr>bm_liquidationsAttempted := bm_liquidationsAttempted m + 1\<rparr>"

definition recordLiquidationExecuted :: "bot_metrics \<Rightarrow> bot_metrics" where
  "recordLiquidationExecuted m = m\<lparr>bm_liquidationsExecuted := bm_liquidationsExecuted m + 1\<rparr>"

definition recordProfit :: "int \<Rightarrow> bot_metrics \<Rightarrow> bot_metrics" where
  "recordProfit profitWei m = m\<lparr>bm_totalProfitEth := bm_totalProfitEth m + of_int profitWei / 10 ^ 18\<rparr>"

definition recordArbitrageOpportunityScanned :: "nat \<Rightarrow> bot_metrics \<Rightarrow> bot_metrics" where
  "recordArbitrageOpportunityScanned n m = m\<lparr>bm_arbitrageOpportunitiesScanned := bm_arbitrageOpportunitiesScanned m + n\<rparr>"

definition recordArbitrageApproved :: "nat \<Rightarrow> bot_metrics \<Rightarrow> bot_metrics" where
  "recordArbitrageApproved n m = m\<lparr>bm_arbitrageApproved := bm_arbitrageApproved m + n\<rparr>"

definition recordArbitrageExecuted :: "nat \<Rightarrow> bot_metrics \<Rightarrow> bot_metrics" where
  "recordArbitrageExecuted n m = m\<lparr>bm_arbitrageExecuted := bm_arbitrageExecuted m + n\<rparr>"

definition recordNetProfitUsd :: "rat \<Rightarrow> bot_metrics \<Rightarrow> bot_metrics" where
  "recordNetProfitUsd amountUsd m = m\<lparr>bm_netProfitUsd := bm_netProfitUsd m + amountUsd\<rparr>"

definition recordBundleSubmission :: "bool \<Rightarrow> bot_metrics \<Rightarrow> bot_metrics" where
  "recordBundleSubmission private_bundle m =
     (if private_bundle then m\<lparr>bm_privateBundleSubmissions := bm_privateBundleSubmissions m + 1\<rparr>
      else m\<lparr>bm_publicRpcSubmissions := bm_publicRpcSubmissions m + 1\<rparr>)"

definition recordError :: "bot_metrics \<Rightarrow> bot_metrics" where
  "recordError m = m\<lparr>bm_errorsTotal := bm_errorsTotal m + 1\<rparr>"

definition setBootstrapStatus :: "string \<Rightarrow> nat \<Rightarrow> nat \<Rightarrow> bot_metrics \<Rightarrow> bot_metrics" where
  "setBootstrapStatus source usersSeeded positionCacheSize m =
     m\<lparr>bm_bootstrapSource := Some source, bm_usersSeeded := Some usersSeeded, bm_positionCacheSize := Some positionCacheSize\<rparr>"

section \<open>LiquidationBot\<close>

record alert_event =
  ae_executed :: bool
  ae_candidate :: liquidation_candidate
  ae_evProfitWei :: int
  ae_txHash :: "string option"

record 'w bot_dependencies =
  bd_startSubscription :: "('w, unit) io option"
  bd_stopSubscription :: "'w \<Rightarrow> 'w"
  bd_scanOnce :: "('w, liquidation_candidate list) io"
  bd_lastScanned :: "('w \<Rightarrow> nat) option"
  bd_execute :: "liquidation_candidate \<Rightarrow> ('w, bot_result) io"
  bd_minProfitWei :: "int option"
  bd_alert :: "(alert_event \<Rightarrow> ('w, unit) io) option"
  bd_now :: "'w \<Rightarrow> int \<times> 'w"
  bd_aborted :: "'w \<Rightarrow> bool"
  bd_sleep :: "int \<Rightarrow> 'w \<Rightarrow> 'w"

record 'w bot_state =
  bo_world :: 'w
  bo_metrics :: bot_metrics

type_synonym ('w, 'a) bot_io = "('w bot_state, 'a) io"

definition bot_call :: "('w, 'a) io \<Rightarrow> ('w, 'a) bot_io" where
  "bot_call m s = (case m (bo_world s) of (r, w) \<Rightarrow> (r, s\<lparr>bo_world := w\<rparr>))"

definition bot_metric :: "(bot_metrics \<Rightarrow> bot_metrics) \<Rightarrow> ('w, unit) bot_io" where
  "bot_metric f = io_modify (\<lambda>s. s\<lparr>bo_metrics := f (bo_metrics s)\<rparr>)"

definition hasPositiveEv :: "'w bot_dependencies \<Rightarrow> liquidation_candidate \<Rightarrow> exn + bool" where
  "hasPositiveEv deps c =
     (case (bd_minProfitWei deps, lc_collateralReceivedWei c, lc_gasEstimate c, lc_gasPrice c) of
        (Some minProfit, Some collateral, Some gasEstimate, Some gasPrice) \<Rightarrow>
          map_sum id lw_isProfitable (calculateLiquidationEV (lc_debtToCover c) collateral
            (or_else (lc_bonusPercentage c) (of_int (lc_liquidationBonusBps c))) gasEstimate gasPrice (Some minProfit))
      | _ \<Rightarrow> Inr True)"

definition executeSafely :: "'w bot_dependencies \<Rightarrow> liquidation_candidate \<Rightarrow> ('w, bot_result) bot_io" where
  "executeSafely deps c =
     io_catch (bot_call (bd_execute deps c))
       (\<lambda>_. io_then (bot_metric recordError) (io_return (LxFailed ''uncaught_executor_error'' 0)))"

definition report_profit :: "'w bot_dependencies \<Rightarrow> liquidation_candidate \<Rightarrow> int \<Rightarrow> string option \<Rightarrow> ('w, unit) bot_io" where
  "report_profit deps c evProfitWei txHash =
     io_then (bot_metric (recordProfit evProfitWei))
       (case bd_alert deps of
          None \<Rightarrow> io_return ()
        | Some alert \<Rightarrow> bot_call (alert \<lparr>ae_executed = (txHash \<noteq> None), ae_candidate = c, ae_evProfitWei = evProfitWei, ae_txHash = txHash\<rparr>))"

fun afterExecution :: "'w bot_dependencies \<Rightarrow> liquidation_candidate \<Rightarrow> bot_result \<Rightarrow> ('w, unit) bot_io" where
  "afterExecution deps c (LxFailed reason profit) = bot_metric recordError"
| "afterExecution deps c (LxSkipped reason profit) = io_return ()"
| "afterExecution deps c (LxSent txHash usd wei) =
     io_then (bot_metric recordLiquidationExecuted) (report_profit deps c (or_else wei 0) (Some txHash))"
| "afterExecution deps c (LxSimulated wei) = report_profit deps c wei None"

record cycle_counts =
  cc_executed :: nat
  cc_skipped :: nat
  cc_failed :: nat

fun count_result :: "bot_result \<Rightarrow> cycle_counts \<Rightarrow> cycle_counts" where
  "count_result (LxSent h u w) n = n\<lparr>cc_executed := cc_executed n + 1\<rparr>"
| "count_result (LxSimulated w) n = n\<lparr>cc_executed := cc_executed n + 1\<rparr>"
| "count_result (LxSkipped r u) n = n\<lparr>cc_skipped := cc_skipped n + 1\<rparr>"
| "count_result (LxFailed r u) n = n\<lparr>cc_failed := cc_failed n + 1\<rparr>"

fun run_candidates :: "'w bot_dependencies \<Rightarrow> liquidation_candidate list \<Rightarrow> cycle_counts \<Rightarrow> ('w, cycle_counts) bot_io" where
  "run_candidates deps [] n = io_return n"
| "run_candidates deps (c # candidates) n =
     io_bind (io_lift (hasPositiveEv deps c)) (\<lambda>positive.
       if \<not> positive then run_candidates deps candidates (n\<lparr>cc_skipped := cc_skipped n + 1\<rparr>)
       else io_bind (executeSafely deps c) (\<lambda>result.
         io_then (bot_metric recordLiquidationAttempt)
           (io_then (afterExecution deps c result) (run_candidates deps candidates (count_result result n)))))"

definition bot_runOnce :: "'w bot_dependencies \<Rightarrow> ('w, nat \<times> cycle_counts) bot_io" where
  "bot_runOnce deps =
     io_bind (bot_call (bd_scanOnce deps)) (\<lambda>candidates.
       io_bind (io_get (\<lambda>s. case bd_lastScanned deps of Some f \<Rightarrow> f (bo_world s) | None \<Rightarrow> length candidates)) (\<lambda>scanned.
         io_then (bot_metric (recordPositionsScanned scanned))
           (io_bind (run_candidates deps candidates \<lparr>cc_executed = 0, cc_skipped = 0, cc_failed = 0\<rparr>) (\<lambda>n. io_return (scanned, n)))))"

definition runPollingCycle :: "'w bot_dependencies \<Rightarrow> ('w, unit) bot_io" where
  "runPollingCycle deps = io_catch (io_then (bot_runOnce deps) (io_return ())) (\<lambda>_. bot_metric recordError)"

definition bot_clock :: "'w bot_dependencies \<Rightarrow> ('w, int) bot_io" where
  "bot_clock deps = bot_call (\<lambda>w. case bd_now deps w of (t, w') \<Rightarrow> (Inr t, w'))"

definition polling_turn :: "'w bot_dependencies \<Rightarrow> int \<Rightarrow> ('w, unit) bot_io" where
  "polling_turn deps pollIntervalMs =
     io_bind (bot_clock deps) (\<lambda>startedAt.
       io_then (runPollingCycle deps)
         (io_bind (bot_clock deps) (\<lambda>now.
           let delay = max 0 (pollIntervalMs - (now - startedAt))
           in bot_call (\<lambda>w. (Inr (), if delay \<le> 0 \<or> bd_aborted deps w then w else bd_sleep deps delay w)))))"

partial_function (option) polling_turns :: "'w bot_dependencies \<Rightarrow> int \<Rightarrow> 'w bot_state \<Rightarrow> 'w bot_state option" where
  "polling_turns deps pollIntervalMs s =
     (if bd_aborted deps (bo_world s) then Some s else polling_turns deps pollIntervalMs (snd (polling_turn deps pollIntervalMs s)))"

definition runPollingLoop :: "'w bot_dependencies \<Rightarrow> int \<Rightarrow> 'w bot_state \<Rightarrow> ((exn + unit) \<times> 'w bot_state) option" where
  "runPollingLoop deps pollIntervalMs s =
     (case (case bd_startSubscription deps of None \<Rightarrow> (Inr (), s) | Some m \<Rightarrow> bot_call m s) of
        (Inl e, s1) \<Rightarrow> Some (Inl e, s1)
      | (Inr _, s1) \<Rightarrow> map_option (\<lambda>s2. (Inr (), s2\<lparr>bo_world := bd_stopSubscription deps (bo_world s2)\<rparr>)) (polling_turns deps pollIntervalMs s1))"

section \<open>The bot without the pipeline, as it is put together\<close>

text \<open>\<open>buildBot\<close> of \<open>src/index.ts\<close>: monitor, executor and alert from the configuration. The world of the bot
  is the state of its monitor. \<open>None\<close> stands for the bot with the pipeline.\<close>

record 'w legacy_config =
  lg_usePipelineOrchestrator :: bool
  lg_simulationMode :: bool
  lg_minProfitWei :: int
  lg_minProfitUsd :: rat
  lg_gasCostUsd :: rat
  lg_slippageBps :: rat
  lg_candidateCooldownMs :: int
  lg_clients :: "'w action_clients"
  lg_estimateGas :: "address \<Rightarrow> liquidation_call_params \<Rightarrow> ('w, int) io"
  lg_getGasPrice :: "('w, int) io"
  lg_getTransactionCount :: "address \<Rightarrow> ('w, int) io"
  lg_getLiquidatablePositions :: "('w, liquidation_candidate list) io"
  lg_getLastScanStats :: "'w \<Rightarrow> nat \<times> nat"
  lg_subscribe :: "('w, unit) io"
  lg_unsubscribe :: "'w \<Rightarrow> 'w"
  lg_alert :: "alert_event \<Rightarrow> ('w, unit) io"
  lg_now :: "'w \<Rightarrow> int \<times> 'w"
  lg_aborted :: "'w \<Rightarrow> bool"
  lg_sleep :: "int \<Rightarrow> 'w \<Rightarrow> 'w"

definition legacy_monitor :: "'w legacy_config \<Rightarrow> 'w monitor_config" where
  "legacy_monitor cfg = \<lparr>mq_getLiquidatablePositions = lg_getLiquidatablePositions cfg, mq_getLastScanStats = Some (lg_getLastScanStats cfg),
     mq_subscribe = Some (lg_subscribe cfg), mq_unsubscribe = lg_unsubscribe cfg, mq_candidateCooldownMs = lg_candidateCooldownMs cfg,
     mq_minProfitUsd = lg_minProfitUsd cfg, mq_gasCostUsd = lg_gasCostUsd cfg, mq_resolveDynamicGasCostUsd = None,
     mq_slippageBps = lg_slippageBps cfg, mq_resolveDynamicSlippageBps = None, mq_minLiquidationDebtUsd = None, mq_resolveDebtUsd = None\<rparr>"

definition legacy_executor :: "'w legacy_config \<Rightarrow> 'w executor_config" where
  "legacy_executor cfg =
     (let actions = createLiquidationActions (lg_clients cfg)
      in \<lparr>lx_minProfitUsd = None, lx_gasCostUsd = None, lx_slippageBps = None, lx_minProfitWei = Some (lg_minProfitWei cfg),
          lx_simulationMode = Some (lg_simulationMode cfg),
          lx_estimateGas = Some (\<lambda>c. lg_estimateGas cfg (al_account (lg_clients cfg)) (buildLiquidationCallParams c (al_pool (lg_clients cfg)))),
          lx_getGasPrice = Some (lg_getGasPrice cfg), lx_getNonce = Some (lg_getTransactionCount cfg (al_account (lg_clients cfg))),
          lx_simulate = fst actions, lx_send = snd actions\<rparr>)"

definition legacy_bot :: "'w legacy_config \<Rightarrow> 'w monitor_state bot_dependencies" where
  "legacy_bot cfg = \<lparr>bd_startSubscription = Some (startReserveDataUpdatedSubscription (legacy_monitor cfg)),
     bd_stopSubscription = (\<lambda>s. snd (stopReserveDataUpdatedSubscription (legacy_monitor cfg) s)),
     bd_scanOnce = io_bind (mon_call (\<lambda>w. case lg_now cfg w of (t, w') \<Rightarrow> (Inr t, w'))) (scanOnce (legacy_monitor cfg)),
     bd_lastScanned = Some (\<lambda>s. fst (ms_lastScanStats s)), bd_execute = (\<lambda>c. mon_call (lx_execute (legacy_executor cfg) c)),
     bd_minProfitWei = Some (lg_minProfitWei cfg), bd_alert = Some (\<lambda>ev. mon_call (lg_alert cfg ev)),
     bd_now = (\<lambda>s. case lg_now cfg (ms_world s) of (t, w) \<Rightarrow> (t, s\<lparr>ms_world := w\<rparr>)),
     bd_aborted = (\<lambda>s. lg_aborted cfg (ms_world s)), bd_sleep = (\<lambda>ms s. s\<lparr>ms_world := lg_sleep cfg ms (ms_world s)\<rparr>)\<rparr>"

definition buildBot :: "'w legacy_config \<Rightarrow> exn + 'w monitor_state bot_dependencies option" where
  "buildBot cfg =
     (if \<not> lg_usePipelineOrchestrator cfg \<and> \<not> lg_simulationMode cfg
      then Inl (Exn ''Live mode requires USE_PIPELINE_ORCHESTRATOR=true to enforce flash-loan-first execution'')
      else if lg_usePipelineOrchestrator cfg then Inr None
      else Inr (Some (legacy_bot cfg)))"

section \<open>Lemmas\<close>

lemma simulated_execution_ignores_send:
  assumes "lx_minProfitWei cfg \<noteq> None" and "or_else (lx_simulationMode cfg) True"
  shows "lx_execute (cfg\<lparr>lx_send := f\<rparr>) = lx_execute cfg"
  using assms
  by (intro ext) (simp add: lx_execute_def usesEthEv_def executeWithEthEv_def getGasEstimate_def getGasPrice_def getNonce_def wei_ev_def Let_def cong: if_cong)

text \<open>The counts of a run over candidates, and what it adds to the metrics.\<close>

definition total_of :: "cycle_counts \<Rightarrow> nat" where
  "total_of n = cc_executed n + cc_skipped n + cc_failed n"

lemma bot_call_metrics: "bo_metrics (snd (bot_call m s)) = bo_metrics s"
  by (simp add: bot_call_def split: prod.splits)

lemma executeSafely_run:
  "\<exists>result w. executeSafely deps c s = (Inr result, \<lparr>bo_world = w, bo_metrics =
      (case fst (bd_execute deps c (bo_world s)) of Inl _ \<Rightarrow> recordError (bo_metrics s) | Inr _ \<Rightarrow> bo_metrics s)\<rparr>) \<and>
    (case fst (bd_execute deps c (bo_world s)) of Inl _ \<Rightarrow> result = LxFailed ''uncaught_executor_error'' 0 | Inr r \<Rightarrow> result = r)"
proof -
  obtain w m where s: "s = \<lparr>bo_world = w, bo_metrics = m\<rparr>" by (cases s) simp
  obtain r w' where "bd_execute deps c w = (r, w')" by fastforce
  then show ?thesis
    by (cases r) (auto simp: s executeSafely_def io_catch_def bot_call_def bot_metric_def io_then_def io_bind_def io_modify_def io_return_def)
qed

lemma afterExecution_metrics:
  assumes "afterExecution deps c result s = (Inr (), s')"
  shows "bm_errorsTotal (bo_metrics s') = bm_errorsTotal (bo_metrics s) + cc_failed (count_result result \<lparr>cc_executed = 0, cc_skipped = 0, cc_failed = 0\<rparr>) \<and>
    bm_liquidationsAttempted (bo_metrics s') = bm_liquidationsAttempted (bo_metrics s)"
  using assms bot_call_metrics
  by (cases result)
     (auto simp: report_profit_def bot_metric_def recordError_def recordLiquidationExecuted_def recordProfit_def io_then_def io_bind_def io_modify_def
       io_return_def bot_call_def split: option.splits prod.splits sum.splits)

lemma count_result_total: "total_of (count_result r n) = total_of n + 1"
  by (cases r) (simp_all add: total_of_def)

lemma count_result_failed:
  "cc_failed (count_result r n) = cc_failed n + cc_failed (count_result r \<lparr>cc_executed = 0, cc_skipped = 0, cc_failed = 0\<rparr>)"
  by (cases r) simp_all

lemma run_candidates_counts:
  assumes "run_candidates deps cs n s = (Inr n', s')"
  shows "total_of n' = total_of n + length cs \<and>
    bm_liquidationsAttempted (bo_metrics s') = bm_liquidationsAttempted (bo_metrics s) + length (filter (\<lambda>c. hasPositiveEv deps c = Inr True) cs) \<and>
    cc_failed n + bm_errorsTotal (bo_metrics s') \<ge> bm_errorsTotal (bo_metrics s) + cc_failed n' \<and>
    2 * cc_failed n + bm_errorsTotal (bo_metrics s') \<le> bm_errorsTotal (bo_metrics s) + 2 * cc_failed n' \<and>
    ((\<forall>c w. isl (fst (bd_execute deps c w))) \<longrightarrow> 2 * cc_failed n + bm_errorsTotal (bo_metrics s') = bm_errorsTotal (bo_metrics s) + 2 * cc_failed n')"
  using assms
proof (induction cs arbitrary: n s)
  case Nil
  then show ?case by (simp add: io_return_def)
next
  case (Cons c cs)
  then obtain positive where p: "hasPositiveEv deps c = Inr positive" by (auto simp: io_bind_Inr io_lift_def)
  show ?case
  proof (cases positive)
    case False
    with Cons.prems p have "run_candidates deps cs (n\<lparr>cc_skipped := cc_skipped n + 1\<rparr>) s = (Inr n', s')" by (simp add: io_bind_def io_lift_def)
    from Cons.IH [OF this] p False show ?thesis by (simp add: total_of_def)
  next
    case True
    define m where "m = bo_metrics s"
    obtain result w where exec: "executeSafely deps c s = (Inr result, \<lparr>bo_world = w, bo_metrics =
        (case fst (bd_execute deps c (bo_world s)) of Inl _ \<Rightarrow> recordError m | Inr _ \<Rightarrow> m)\<rparr>)"
      and result: "case fst (bd_execute deps c (bo_world s)) of Inl _ \<Rightarrow> result = LxFailed ''uncaught_executor_error'' 0 | Inr r \<Rightarrow> result = r"
      unfolding m_def using executeSafely_run [of deps c s] by blast
    define m1 where "m1 = (case fst (bd_execute deps c (bo_world s)) of Inl _ \<Rightarrow> recordError m | Inr _ \<Rightarrow> m)"
    define s1 where "s1 = \<lparr>bo_world = w, bo_metrics = recordLiquidationAttempt m1\<rparr>"
    from Cons.prems p True exec obtain s2 where after: "afterExecution deps c result s1 = (Inr (), s2)"
      and rest: "run_candidates deps cs (count_result result n) s2 = (Inr n', s')"
      by (auto simp: io_bind_def io_lift_def io_then_def bot_metric_def io_modify_def m1_def s1_def split: prod.splits sum.splits)
    define uncaught where "uncaught = (if isl (fst (bd_execute deps c (bo_world s))) then 1 else 0 :: nat)"
    define failed where "failed = cc_failed (count_result result \<lparr>cc_executed = 0, cc_skipped = 0, cc_failed = 0\<rparr>)"
    have m1: "bm_liquidationsAttempted m1 = bm_liquidationsAttempted m" "bm_errorsTotal m1 = bm_errorsTotal m + uncaught"
      by (simp_all add: m1_def uncaught_def recordError_def split: sum.splits)
    have failed: "uncaught \<le> failed" "uncaught = 1 \<Longrightarrow> failed = 1" using result by (auto simp: uncaught_def failed_def split: sum.splits if_splits)
    have s2: "bm_errorsTotal (bo_metrics s2) = bm_errorsTotal m + uncaught + failed" "bm_liquidationsAttempted (bo_metrics s2) = bm_liquidationsAttempted m + 1"
      using afterExecution_metrics [OF after] m1 by (simp_all add: s1_def failed_def recordLiquidationAttempt_def)
    have n: "total_of (count_result result n) = total_of n + 1" "cc_failed (count_result result n) = cc_failed n + failed"
      by (simp_all add: count_result_total failed_def count_result_failed [of result n])
    have "uncaught = 1" if "\<forall>c w. isl (fst (bd_execute deps c w))" using that by (simp add: uncaught_def)
    with Cons.IH [OF rest] failed show ?thesis
      unfolding s2 n m_def using p True by auto
  qed
qed

section \<open>Properties\<close>

text \<open>The bot without the pipeline cannot send: what \<open>buildBot\<close> builds does not depend on the function that
  writes transactions at all, for every configuration; live mode without the pipeline is refused.\<close>

theorem legacy_bot_never_sends:
  "buildBot (cfg\<lparr>lg_clients := (lg_clients cfg)\<lparr>al_writeLiquidation := f, al_writeFlashLoan := g\<rparr>\<rparr>) = buildBot cfg"
proof (cases "lg_simulationMode cfg")
  case False
  then show ?thesis by (simp add: buildBot_def)
next
  case True
  let ?cfg = "cfg\<lparr>lg_clients := (lg_clients cfg)\<lparr>al_writeLiquidation := f, al_writeFlashLoan := g\<rparr>\<rparr>"
  have "legacy_executor ?cfg = (legacy_executor cfg)\<lparr>lx_send := snd (createLiquidationActions (lg_clients ?cfg))\<rparr>"
    by (simp add: legacy_executor_def createLiquidationActions_def Let_def)
  moreover have "lx_execute ((legacy_executor cfg)\<lparr>lx_send := send\<rparr>) = lx_execute (legacy_executor cfg)" for send
    by (rule simulated_execution_ignores_send) (simp_all add: legacy_executor_def or_else_def True Let_def)
  ultimately have "lx_execute (legacy_executor ?cfg) = lx_execute (legacy_executor cfg)" by simp
  moreover have "legacy_monitor ?cfg = legacy_monitor cfg" by (simp add: legacy_monitor_def)
  ultimately have "legacy_bot ?cfg = legacy_bot cfg" by (simp add: legacy_bot_def)
  then show ?thesis by (simp add: buildBot_def)
qed

text \<open>C26. What the executor reports as sent paid in its own terms and was simulated just before, with the same
  parameters: for a candidate valued in wei outside the simulation mode, with gas increased by a fifth,
  and otherwise for its dollar value.\<close>

theorem executor_sends_only_simulated:
  assumes "lx_execute cfg c w = (Inr (LxSent txHash usd wei), w')"
  shows "\<exists>overrides w1 w2. lx_simulate cfg c overrides w1 = (Inr (), w2) \<and> lx_send cfg c overrides w2 = (Inr txHash, w') \<and>
    (if usesEthEv cfg c
     then lx_simulationMode cfg = Some False \<and>
       (\<exists>gas price nonce ev. wei_ev cfg c gas price = Inr ev \<and> lw_isProfitable ev \<and> wei = Some (lw_profitWei ev) \<and>
          overrides = Some \<lparr>to_gas = bdiv (gas * 120) 100, to_gasPrice = price, to_nonce = nonce\<rparr>)
     else overrides = None \<and> (\<exists>ev. usd_ev cfg c = Inr ev \<and> lv_isProfitable ev \<and> usd = Some (lv_expectedProfitUsd ev)))"
proof (cases "usesEthEv cfg c")
  case True
  with assms have "executeWithEthEv cfg c w = (Inr (LxSent txHash usd wei), w')" by (simp add: lx_execute_def)
  then obtain gas w0 price w1 nonce w2 ev w3 where "wei_ev cfg c gas price = Inr ev" "lw_isProfitable ev"
      "lx_simulate cfg c (Some \<lparr>to_gas = addOptimismGasBuffer gas, to_gasPrice = price, to_nonce = nonce\<rparr>) w2 = (Inr (), w3)"
      "\<not> or_else (lx_simulationMode cfg) True"
      "lx_send cfg c (Some \<lparr>to_gas = addOptimismGasBuffer gas, to_gasPrice = price, to_nonce = nonce\<rparr>) w3 = (Inr txHash, w')"
      "wei = Some (lw_profitWei ev)"
    by (auto simp: executeWithEthEv_def io_bind_Inr io_then_Inr io_lift_def io_return_def Let_def split: if_splits)
  then show ?thesis using True unfolding addOptimismGasBuffer_def
    by (intro exI [of _ "Some \<lparr>to_gas = bdiv (gas * 120) 100, to_gasPrice = price, to_nonce = nonce\<rparr>"] exI [of _ w2] exI [of _ w3])
       (auto simp: or_else_def split: option.splits)
next
  case False
  with assms obtain ev where ev: "usd_ev cfg c = Inr ev" "lv_isProfitable ev"
    and send: "simulateAndSend cfg c (lv_expectedProfitUsd ev) w = (Inr (LxSent txHash usd wei), w')"
    by (auto simp: lx_execute_def io_bind_Inr io_lift_def io_return_def split: if_splits)
  from send obtain w2 where "lx_simulate cfg c None w = (Inr (), w2)" "lx_send cfg c None w2 = (Inr txHash, w')" "usd = Some (lv_expectedProfitUsd ev)"
    by (auto simp: simulateAndSend_def io_catch_def io_then_def io_bind_def io_return_def split: prod.splits sum.splits)
  with False ev show ?thesis by (intro exI [of _ None] exI [of _ w] exI [of _ w2]) auto
qed

text \<open>The simulation mode guards only the way through wei: a candidate without wei fields that pays in
  dollars is sent, whatever the simulation mode of the executor is.\<close>

theorem usd_path_ignores_simulation_mode:
  assumes "\<not> usesEthEv cfg c" and "usd_ev cfg c = Inr ev" and "lv_isProfitable ev"
    and "lx_simulate cfg c None w = (Inr (), w1)" and "lx_send cfg c None w1 = (Inr txHash, w2)"
  shows "lx_execute (cfg\<lparr>lx_simulationMode := mode\<rparr>) c w = (Inr (LxSent txHash (Some (lv_expectedProfitUsd ev)) None), w2)"
  using assms
  by (simp add: lx_execute_def usesEthEv_def usd_ev_def simulateAndSend_def io_bind_def io_lift_def io_catch_def io_then_def io_return_def)

text \<open>The books of a cycle: every candidate of the scan is executed, skipped or failed, an attempt is counted
  for each that passes the test of its expected value, and at least one error for each failure, but two
  for an exception of the executor: if it always throws, the errors counted are twice the failures.\<close>

theorem bot_cycle_accounting:
  assumes "bot_runOnce deps s = (Inr (scanned, n), s')"
  shows "\<exists>candidates w. bd_scanOnce deps (bo_world s) = (Inr candidates, w) \<and>
    cc_executed n + cc_skipped n + cc_failed n = length candidates \<and>
    bm_liquidationsAttempted (bo_metrics s') = bm_liquidationsAttempted (bo_metrics s) + length (filter (\<lambda>c. hasPositiveEv deps c = Inr True) candidates) \<and>
    bm_errorsTotal (bo_metrics s) + cc_failed n \<le> bm_errorsTotal (bo_metrics s') \<and>
    bm_errorsTotal (bo_metrics s') \<le> bm_errorsTotal (bo_metrics s) + 2 * cc_failed n \<and>
    ((\<forall>c w. isl (fst (bd_execute deps c w))) \<longrightarrow> bm_errorsTotal (bo_metrics s') = bm_errorsTotal (bo_metrics s) + 2 * cc_failed n)"
proof -
  obtain candidates w where scan: "bd_scanOnce deps (bo_world s) = (Inr candidates, w)"
    and run: "run_candidates deps candidates \<lparr>cc_executed = 0, cc_skipped = 0, cc_failed = 0\<rparr>
      \<lparr>bo_world = w, bo_metrics = recordPositionsScanned scanned (bo_metrics s)\<rparr> = (Inr n, s')"
    using assms
    by (cases s) (auto simp: bot_runOnce_def io_bind_def io_then_def io_get_def bot_metric_def io_modify_def io_return_def bot_call_def
        split: prod.splits sum.splits)
  from run_candidates_counts [OF run] scan show ?thesis by (simp add: total_of_def recordPositionsScanned_def)
qed

text \<open>A failing alert ends the cycle: after a candidate was sent, an exception of the alert leaves the loop,
  and the candidates behind it are not tried, whichever they are.\<close>

theorem alert_failure_ends_cycle:
  assumes "hasPositiveEv deps c = Inr True" and "bd_execute deps c (bo_world s) = (Inr (LxSent txHash usd wei), w)"
    and "bd_alert deps = Some alert" and "\<And>ev v. \<exists>e v'. alert ev v = (Inl e, v')"
  shows "\<exists>e s'. \<forall>rest n. run_candidates deps (c # rest) n s = (Inl e, s')"
proof -
  obtain e v where "alert \<lparr>ae_executed = True, ae_candidate = c, ae_evProfitWei = or_else wei 0, ae_txHash = Some txHash\<rparr> w = (Inl e, v)"
    using assms(4) by blast
  with assms(1-3) show ?thesis
    by (intro exI allI) (simp add: executeSafely_def report_profit_def io_bind_def io_lift_def io_catch_def io_then_def bot_call_def bot_metric_def
        io_modify_def)
qed

section \<open>Witnesses\<close>

text \<open>A candidate of forty dollars with a bonus of five percent, an executor that answers, and a bot whose
  executor throws.\<close>

definition bot_candidate :: liquidation_candidate where
  "bot_candidate = sample_candidate\<lparr>lc_repayValueUsd := 40, lc_liquidationBonusBps := 500, lc_collateralReceivedWei := None,
     lc_gasEstimate := None, lc_gasPrice := None, lc_bonusPercentage := None\<rparr>"

definition sample_executor :: "unit executor_config" where
  "sample_executor = \<lparr>lx_minProfitUsd = Some 1, lx_gasCostUsd = None, lx_slippageBps = None, lx_minProfitWei = None, lx_simulationMode = None,
     lx_estimateGas = None, lx_getGasPrice = None, lx_getNonce = None, lx_simulate = (\<lambda>c ov. io_return ()), lx_send = (\<lambda>c ov. io_return ''0xh1'')\<rparr>"

lemma sample_executor_ev: "usd_ev sample_executor bot_candidate = Inr \<lparr>lv_expectedProfitUsd = 2, lv_isProfitable = True\<rparr>"
  by (simp add: usd_ev_def sample_executor_def bot_candidate_def calculateLiquidationEv_def assertNonNegative_def or_else_def)

lemma sample_executor_usd: "\<not> usesEthEv sample_executor bot_candidate"
  by (simp add: usesEthEv_def sample_executor_def bot_candidate_def)

theorem usd_path_ignores_simulation_mode_witness:
  "lx_execute (sample_executor\<lparr>lx_simulationMode := Some True\<rparr>) bot_candidate () = (Inr (LxSent ''0xh1'' (Some 2) None), ())"
  using usd_path_ignores_simulation_mode [OF sample_executor_usd sample_executor_ev, of "()" "()" "''0xh1''" "()" "Some True"]
  by (simp add: sample_executor_def io_return_def)

theorem executor_sends_only_simulated_witness:
  "\<exists>overrides w1 w2. lx_simulate sample_executor bot_candidate overrides w1 = (Inr (), w2) \<and>
     lx_send sample_executor bot_candidate overrides w2 = (Inr ''0xh1'', ())"
proof -
  have "lx_execute sample_executor bot_candidate () = (Inr (LxSent ''0xh1'' (Some 2) None), ())"
    by (simp add: lx_execute_def sample_executor_usd sample_executor_ev simulateAndSend_def io_bind_def io_lift_def io_catch_def io_then_def io_return_def)
       (simp add: sample_executor_def io_return_def)
  from executor_sends_only_simulated [OF this] show ?thesis by blast
qed

definition sample_bot :: "unit bot_dependencies" where
  "sample_bot = \<lparr>bd_startSubscription = None, bd_stopSubscription = (\<lambda>w. w), bd_scanOnce = io_return [bot_candidate, bot_candidate],
     bd_lastScanned = None, bd_execute = (\<lambda>c. io_throw (Exn ''no gas price'')), bd_minProfitWei = None,
     bd_alert = Some (\<lambda>ev. io_throw (Exn ''Telegram liquidation alert failed'')), bd_now = (\<lambda>w. (0, w)), bd_aborted = (\<lambda>w. False), bd_sleep = (\<lambda>ms w. w)\<rparr>"

theorem bot_cycle_accounting_witness:
  "\<exists>n s'. bot_runOnce sample_bot \<lparr>bo_world = (), bo_metrics = createBotMetrics\<rparr> = (Inr (2, n), s') \<and> cc_failed n = 2 \<and> bm_errorsTotal (bo_metrics s') = 4"
proof -
  define s :: "unit bot_state" where "s = \<lparr>bo_world = (), bo_metrics = createBotMetrics\<rparr>"
  obtain n s' where run: "bot_runOnce sample_bot s = (Inr (2, n), s')" and failed: "cc_failed n = 2"
    by (simp add: s_def sample_bot_def bot_runOnce_def io_bind_def io_then_def io_get_def io_return_def io_lift_def bot_call_def bot_metric_def
        io_modify_def executeSafely_def io_catch_def io_throw_def hasPositiveEv_def)
  from bot_cycle_accounting [OF run] failed have "bm_errorsTotal (bo_metrics s') = bm_errorsTotal (bo_metrics s) + 2 * 2"
    by (auto simp: sample_bot_def io_throw_def)
  with run failed show ?thesis unfolding s_def by (auto simp: createBotMetrics_def)
qed

theorem alert_failure_ends_cycle_witness:
  "\<exists>e s'. run_candidates (sample_bot\<lparr>bd_execute := lx_execute sample_executor\<rparr>) [bot_candidate, bot_candidate, bot_candidate]
     \<lparr>cc_executed = 0, cc_skipped = 0, cc_failed = 0\<rparr> \<lparr>bo_world = (), bo_metrics = createBotMetrics\<rparr> = (Inl e, s')"
proof -
  have exec: "lx_execute sample_executor bot_candidate () = (Inr (LxSent ''0xh1'' (Some 2) None), ())"
    by (simp add: lx_execute_def sample_executor_usd sample_executor_ev simulateAndSend_def io_bind_def io_lift_def io_catch_def io_then_def io_return_def)
       (simp add: sample_executor_def io_return_def)
  have "\<exists>e s'. \<forall>rest n. run_candidates (sample_bot\<lparr>bd_execute := lx_execute sample_executor\<rparr>) (bot_candidate # rest) n
      \<lparr>bo_world = (), bo_metrics = createBotMetrics\<rparr> = (Inl e, s')"
    by (rule alert_failure_ends_cycle) (auto simp: sample_bot_def hasPositiveEv_def exec io_throw_def)
  then show ?thesis by blast
qed

end
