(* ===== verification/Event_Ingestion.thy ===== *)
theory Event_Ingestion
  imports Event_Watchlist Chain_Registry Position_Invariants "HOL-Library.Countable"
begin

text \<open>
  The way from the logs of the node to the events of the position model:
  \<open>src/monitors/aaveEventParser.ts\<close> turns logs into events,
  \<open>src/monitors/positionCheckpointStore.ts\<close> keeps the block up to which they were processed, and
  \<open>src/monitors/wsEventLayer.ts\<close> drops what it has seen, hands the rest to its callback and fills the
  gap since the checkpoint. The ABI decoder of viem is a parameter; node, callback, Redis and file
  system are services. A lg that the subscription delivers is one step that runs to its end: the
  interleaving of handlers that wait for a service is not modelled, nor are the socket and lg lines.
\<close>

section \<open>Logs and events\<close>

datatype event_source = FromPending | FromConfirmed | FromGapFill

text \<open>The index of a log is a number; parsed from a string it may be no number at all.\<close>

datatype log_index = LogIndex int | LogIndexNaN

record ingestion_meta =
  im_blockNumber :: int
  im_flashblockIndex :: "int option"
  im_txHash :: string
  im_logIndex :: log_index
  im_source :: event_source

datatype ingestion_event = AavePoolEvent ingestion_meta pool_event | ChainlinkPriceEvent ingestion_meta price_event

fun event_meta :: "ingestion_event \<Rightarrow> ingestion_meta" where
  "event_meta (AavePoolEvent m e) = m"
| "event_meta (ChainlinkPriceEvent m e) = m"

fun log_index_string :: "log_index \<Rightarrow> string" where
  "log_index_string (LogIndex i) = int_string i"
| "log_index_string LogIndexNaN = ''NaN''"

definition ingestionDedupKey :: "ingestion_meta \<Rightarrow> string" where
  "ingestionDedupKey m =
     int_string (im_blockNumber m)
     @ (case im_flashblockIndex m of None \<Rightarrow> [] | Some i \<Rightarrow> '':'' @ int_string i)
     @ '':'' @ im_txHash m @ '':'' @ log_index_string (im_logIndex m)"

text \<open>A log as the node answers it, and a message of the socket before it is one. Of both only the fields
  that are read are kept; the numbers of a message are whole.\<close>

record ingest_log =
  il_address :: "address option"
  il_blockNumber :: "int option"
  il_data :: string
  il_topics :: "string list"
  il_transactionHash :: "string option"
  il_logIndex :: "log_index option"

datatype raw_quantity = RawString string | RawNumber int

record raw_log =
  rl_address :: "address option"
  rl_blockNumber :: "raw_quantity option"
  rl_data :: "string option"
  rl_topics :: "string list option"
  rl_transactionHash :: "string option"
  rl_logIndex :: "raw_quantity option"

text \<open>\<open>Number.parseInt(s, 16)\<close>: the longest prefix of digits, after white space, a sign and \<open>0x\<close>.\<close>

definition parse_hex_prefix :: "string \<Rightarrow> log_index" where
  "parse_hex_prefix s =
     (let t = dropWhile is_space s;
          negative = (take 1 t = ''-'');
          u = (if take 1 t \<in> {''-'', ''+''} then drop 1 t else t);
          v = (if take 2 u \<in> {''0x'', ''0X''} then drop 2 u else u)
      in case read_number 16 (takeWhile (\<lambda>c. digit_value c \<noteq> None) v) of
           None \<Rightarrow> LogIndexNaN
         | Some n \<Rightarrow> LogIndex (if negative then - n else n))"

definition rawLogToViemLog :: "raw_log \<Rightarrow> exn + ingest_log" where
  "rawLogToViemLog raw =
     (case (case rl_blockNumber raw of
              Some (RawString s) \<Rightarrow> bigint_of_string s
            | Some (RawNumber n) \<Rightarrow> Inr n
            | None \<Rightarrow> Inr 0) of
        Inl e \<Rightarrow> Inl e
      | Inr blockNumber \<Rightarrow> Inr
          \<lparr>il_address = Some (or_else (rl_address raw) ZERO_ADDRESS),
           il_blockNumber = Some blockNumber,
           il_data = or_else (rl_data raw) ''0x'',
           il_topics = or_else (rl_topics raw) [],
           il_transactionHash = Some (or_else (rl_transactionHash raw) ''0x''),
           il_logIndex = Some (case rl_logIndex raw of
             Some (RawNumber n) \<Rightarrow> LogIndex n
           | Some (RawString s) \<Rightarrow> parse_hex_prefix s
           | None \<Rightarrow> LogIndex 0)\<rparr>)"

section \<open>Parsing\<close>

text \<open>The arguments of a decoded event, by their names in the ABI.\<close>

record pool_args =
  pg_reserve :: "address option"
  pg_collateralAsset :: "address option"
  pg_debtAsset :: "address option"
  pg_user :: "address option"
  pg_onBehalfOf :: "address option"
  pg_amount :: "int option"
  pg_debtToCover :: "int option"
  pg_liquidatedCollateralAmount :: "int option"
  pg_liquidityIndex :: "int option"
  pg_variableBorrowIndex :: "int option"

text \<open>\<open>decodeEventLog\<close> of viem for the ABI of the pool and of a feed: nothing where it throws. For a feed
  it answers the price and the time of the round.\<close>

record log_decoder =
  dc_pool :: "pool_event_name \<Rightarrow> string \<Rightarrow> string list \<Rightarrow> pool_args option"
  dc_answer :: "string \<Rightarrow> string list \<Rightarrow> (int \<times> int) option"

definition pool_event_names :: "pool_event_name list" where
  "pool_event_names = [Supply, Withdraw, Borrow, Repay, LiquidationCall, ReserveDataUpdated]"

definition first_some :: "'a option list \<Rightarrow> 'a option" where
  "first_some xs = (case dropWhile (\<lambda>x. x = None) xs of [] \<Rightarrow> None | x # _ \<Rightarrow> x)"

text \<open>Every event of the ABI names a reserve or a collateral asset; the empty address stands for an event
  without any, which the decoder does not answer.\<close>

definition pool_event_of :: "pool_event_name \<Rightarrow> int \<Rightarrow> pool_args \<Rightarrow> pool_event" where
  "pool_event_of name blockNumber args =
     \<lparr>ev_name = name, ev_blockNumber = blockNumber,
      ev_reserve = or_else (first_some [pg_reserve args, pg_collateralAsset args, pg_debtAsset args]) [],
      ev_collateralAsset = (if name = LiquidationCall then pg_collateralAsset args else None),
      ev_debtAsset = (if name = LiquidationCall then pg_debtAsset args else None),
      ev_user = pg_user args, ev_onBehalfOf = pg_onBehalfOf args, ev_amount = pg_amount args,
      ev_debtToCover = pg_debtToCover args, ev_liquidatedCollateralAmount = pg_liquidatedCollateralAmount args,
      ev_liquidityIndex = pg_liquidityIndex args, ev_variableBorrowIndex = pg_variableBorrowIndex args\<rparr>"

definition parsed_meta :: "ingest_log \<Rightarrow> ingestion_meta \<Rightarrow> ingestion_meta" where
  "parsed_meta lg meta = meta\<lparr>im_txHash := or_else (il_transactionHash lg) ''0x'', im_logIndex := or_else (il_logIndex lg) (LogIndex 0)\<rparr>"

definition parseAavePoolLog :: "log_decoder \<Rightarrow> ingest_log \<Rightarrow> ingestion_meta \<Rightarrow> ingestion_event option" where
  "parseAavePoolLog dc lg meta =
     first_some (map (\<lambda>name. map_option (\<lambda>args. AavePoolEvent (parsed_meta lg meta) (pool_event_of name (im_blockNumber meta) args))
                               (dc_pool dc name (il_data lg) (il_topics lg)))
                 pool_event_names)"

definition parseChainlinkAnswerUpdatedLog :: "log_decoder \<Rightarrow> ingest_log \<Rightarrow> address \<Rightarrow> ingestion_meta \<Rightarrow> ingestion_event option" where
  "parseChainlinkAnswerUpdatedLog dc lg a meta =
     (case dc_answer dc (il_data lg) (il_topics lg) of
        None \<Rightarrow> None
      | Some (price, updatedAt) \<Rightarrow>
          if price \<le> 0 then None
          else if updatedAt \<le> 0 then None
          else Some (ChainlinkPriceEvent (parsed_meta lg meta)
                 \<lparr>pe_feed = or_else (il_address lg) [], pe_asset = a, pe_price = price, pe_oracleUpdatedAtSec = updatedAt\<rparr>))"

section \<open>The checkpoint store\<close>

record 's checkpoint_store =
  ck_store :: "'s cursor_store"
  ck_lastProcessedKey :: string
  ck_bootstrapKey :: string

definition checkpoint_new :: "'s cursor_store \<Rightarrow> string \<Rightarrow> 's checkpoint_store" where
  "checkpoint_new store chain = \<lparr>ck_store = store, ck_lastProcessedKey = ''bot:lastProcessedBlock:'' @ chain,
     ck_bootstrapKey = ''bot:bootstrapChunkCursor:'' @ chain\<rparr>"

definition load_key :: "'s cursor_store \<Rightarrow> string \<Rightarrow> ('s, int) io" where
  "load_key store key = io_bind (kv_get store key) (\<lambda>val.
     case val of None \<Rightarrow> io_return 0 | Some v \<Rightarrow> io_lift (bigint_of_string v))"

definition loadLastProcessedBlock :: "'s checkpoint_store \<Rightarrow> ('s, int) io" where
  "loadLastProcessedBlock c = load_key (ck_store c) (ck_lastProcessedKey c)"

definition saveLastProcessedBlock :: "'s checkpoint_store \<Rightarrow> int \<Rightarrow> ('s, unit) io" where
  "saveLastProcessedBlock c blockNumber = kv_set (ck_store c) (ck_lastProcessedKey c) (int_string blockNumber)"

definition loadBootstrapChunkCursor :: "'s checkpoint_store \<Rightarrow> ('s, int) io" where
  "loadBootstrapChunkCursor c = load_key (ck_store c) (ck_bootstrapKey c)"

definition saveBootstrapChunkCursor :: "'s checkpoint_store \<Rightarrow> int \<Rightarrow> ('s, unit) io" where
  "saveBootstrapChunkCursor c blockNumber = kv_set (ck_store c) (ck_bootstrapKey c) (int_string blockNumber)"

definition checkpoint_close :: "'s checkpoint_store \<Rightarrow> ('s, unit) io" where
  "checkpoint_close c = (case kv_close (ck_store c) of None \<Rightarrow> io_return () | Some close \<Rightarrow> close)"

text \<open>The store in a file. Reading and writing the file are services, and so is making its directory; the
  text of the file is read and printed by the JSON functions of the language, which are parameters.\<close>

record 's file_services =
  fl_read :: "string \<Rightarrow> ('s, string) io"
  fl_write :: "string \<Rightarrow> string \<Rightarrow> ('s, unit) io"
  fl_mkdirFor :: "string \<Rightarrow> ('s, unit) io"
  fl_parse :: "string \<Rightarrow> exn + (string, string) jsmap"
  fl_print :: "(string, string) jsmap \<Rightarrow> string"

definition read_entries :: "'s file_services \<Rightarrow> string \<Rightarrow> ('s, (string, string) jsmap) io" where
  "read_entries fl path = io_bind (fl_read fl path) (\<lambda>raw. io_lift (fl_parse fl raw))"

definition disk_get :: "'s file_services \<Rightarrow> string \<Rightarrow> string \<Rightarrow> ('s, string option) io" where
  "disk_get fl path key = io_catch (io_bind (read_entries fl path) (\<lambda>m. io_return (js_get m key))) (\<lambda>_. io_return None)"

definition disk_set :: "'s file_services \<Rightarrow> string \<Rightarrow> string \<Rightarrow> string \<Rightarrow> ('s, unit) io" where
  "disk_set fl path key val =
     io_bind (io_catch (read_entries fl path) (\<lambda>_. io_return [])) (\<lambda>existing.
       io_then (fl_mkdirFor fl path) (fl_write fl path (fl_print fl (js_set key val existing))))"

definition disk_store :: "'s file_services \<Rightarrow> string \<Rightarrow> 's cursor_store" where
  "disk_store fl path = \<lparr>kv_get = disk_get fl path, kv_set = disk_set fl path, kv_close = None\<rparr>"

definition redis_checkpoint :: "'s redis_services \<Rightarrow> string \<Rightarrow> 's cursor_store" where
  "redis_checkpoint sv url = \<lparr>kv_get = rd_get sv url, kv_set = rd_set sv url, kv_close = Some (rd_quit sv url)\<rparr>"

definition checkpoint_create ::
  "'s redis_services \<Rightarrow> 's file_services \<Rightarrow> string \<Rightarrow> string option \<Rightarrow> string option \<Rightarrow> ('s, 's checkpoint_store) io" where
  "checkpoint_create sv fl chain redisUrl diskPath =
     (let path = or_else diskPath (''.cache/position-checkpoint-'' @ chain @ ''.json'');
          disk = io_return (checkpoint_new (disk_store fl path) chain)
      in case map_option str_trim redisUrl of
           None \<Rightarrow> disk
         | Some url \<Rightarrow>
             if url = [] then disk
             else io_catch
               (io_then (rd_connect sv url) (io_then (io_bind (rd_ping sv url) (\<lambda>_. io_return ()))
                 (io_return (checkpoint_new (redis_checkpoint sv url) chain))))
               (\<lambda>_. io_then (io_catch (rd_quit sv url) (\<lambda>_. io_return ())) disk))"

section \<open>The event layer\<close>

definition MAX_DEDUP :: nat where
  "MAX_DEDUP = 15000"

definition DEFAULT_CHUNK :: int where
  "DEFAULT_CHUNK = 2000"

record 'w ingestion_config =
  ic_decoder :: log_decoder
  ic_feeds :: "(address \<times> address option) list"
  ic_checkpoint :: "'w checkpoint_store"
  ic_getBlockNumber :: "('w, int) io"
  ic_getLogs :: "int \<Rightarrow> int \<Rightarrow> ('w, ingest_log list) io"
  ic_bootstrapFromBlock :: "int option"
  ic_onEvent :: "ingestion_event \<Rightarrow> ('w, unit) io"
  ic_onFlashblockTick :: "int \<Rightarrow> ('w, unit) io"
  ic_onGapFillComplete :: "'w \<Rightarrow> 'w"
  ic_connect :: "('w, unit) io"
  ic_disconnect :: "'w \<Rightarrow> 'w"

record 'w ingestion_state =
  ig_world :: 'w
  ig_seen :: "string list"
  ig_seenOrder :: "string list"
  ig_started :: bool
  ig_lastFlashblockBlock :: int

type_synonym ('w, 'a) ingestion_io = "('w ingestion_state, 'a) io"

definition ingestion_new :: "'w \<Rightarrow> 'w ingestion_state" where
  "ingestion_new w = \<lparr>ig_world = w, ig_seen = [], ig_seenOrder = [], ig_started = False, ig_lastFlashblockBlock = 0\<rparr>"

definition ig_call :: "('w, 'a) io \<Rightarrow> ('w, 'a) ingestion_io" where
  "ig_call m s = (case m (ig_world s) of (r, w) \<Rightarrow> (r, s\<lparr>ig_world := w\<rparr>))"

definition log_meta :: "int \<Rightarrow> ingest_log \<Rightarrow> event_source \<Rightarrow> ingestion_meta" where
  "log_meta lastFlashblock lg source =
     \<lparr>im_blockNumber = or_else (il_blockNumber lg) lastFlashblock, im_flashblockIndex = None,
      im_txHash = or_else (il_transactionHash lg) ''0x'', im_logIndex = or_else (il_logIndex lg) (LogIndex 0), im_source = source\<rparr>"

definition mark_key :: "string \<Rightarrow> 'w ingestion_state \<Rightarrow> bool \<times> 'w ingestion_state" where
  "mark_key key s =
     (if key \<in> set (ig_seen s) then (False, s)
      else (let seen = js_add key (ig_seen s); order = ig_seenOrder s @ [key]
            in (True, if MAX_DEDUP < length order
                      then s\<lparr>ig_seen := js_remove (hd order) seen, ig_seenOrder := tl order\<rparr>
                      else s\<lparr>ig_seen := seen, ig_seenOrder := order\<rparr>)))"

definition markSeen :: "ingestion_meta \<Rightarrow> ('w, bool) ingestion_io" where
  "markSeen meta s = (case mark_key (ingestionDedupKey meta) s of (fresh, s') \<Rightarrow> (Inr fresh, s'))"

definition price_of_feed :: "'w ingestion_config \<Rightarrow> ingest_log \<Rightarrow> ingestion_meta \<Rightarrow> address \<times> address option \<Rightarrow> ('w, unit) io" where
  "price_of_feed cfg lg meta entry =
     (case snd entry of
        None \<Rightarrow> io_return ()
      | Some feed \<Rightarrow>
          if map_option to_lower (il_address lg) \<noteq> Some (to_lower feed) then io_return ()
          else (case parseChainlinkAnswerUpdatedLog (ic_decoder cfg) lg (fst entry) meta of
                  None \<Rightarrow> io_return ()
                | Some ev \<Rightarrow> ic_onEvent cfg ev))"

definition process_log :: "'w ingestion_config \<Rightarrow> ingest_log \<Rightarrow> ingestion_meta \<Rightarrow> ('w, unit) io" where
  "process_log cfg lg meta =
     (case parseAavePoolLog (ic_decoder cfg) lg meta of
        Some ev \<Rightarrow> io_then (ic_onEvent cfg ev)
          (if im_source meta \<noteq> FromPending \<and> 0 < im_blockNumber meta
           then saveLastProcessedBlock (ic_checkpoint cfg) (im_blockNumber meta) else io_return ())
      | None \<Rightarrow> io_each (price_of_feed cfg lg meta) (ic_feeds cfg))"

definition handleViemLog :: "'w ingestion_config \<Rightarrow> event_source \<Rightarrow> ingest_log \<Rightarrow> ('w, unit) ingestion_io" where
  "handleViemLog cfg source lg =
     io_bind (io_get (\<lambda>s. log_meta (ig_lastFlashblockBlock s) lg source)) (\<lambda>meta.
       io_bind (markSeen meta) (\<lambda>fresh.
         if \<not> fresh then io_return () else ig_call (process_log cfg lg meta)))"

definition handleRawLog :: "'w ingestion_config \<Rightarrow> event_source \<Rightarrow> raw_log \<Rightarrow> ('w, unit) ingestion_io" where
  "handleRawLog cfg source raw = io_bind (io_lift (rawLogToViemLog raw)) (handleViemLog cfg source)"

definition gap_fill_chunk :: "'w ingestion_config \<Rightarrow> int \<times> int \<Rightarrow> ('w, unit) ingestion_io" where
  "gap_fill_chunk cfg chunk =
     io_bind (ig_call (ic_getLogs cfg (fst chunk) (snd chunk))) (\<lambda>logs.
       io_then (io_each (handleViemLog cfg FromGapFill) logs)
         (ig_call (saveLastProcessedBlock (ic_checkpoint cfg) (snd chunk))))"

definition gap_fill_start :: "'w ingestion_config \<Rightarrow> int \<Rightarrow> int" where
  "gap_fill_start cfg last_processed = (if 0 < last_processed then last_processed + 1 else or_else (ic_bootstrapFromBlock cfg) 0)"

definition runBootstrapOrGapFill :: "'w ingestion_config \<Rightarrow> ('w, unit) ingestion_io" where
  "runBootstrapOrGapFill cfg =
     io_bind (ig_call (loadLastProcessedBlock (ic_checkpoint cfg))) (\<lambda>last_processed.
       io_bind (ig_call (ic_getBlockNumber cfg)) (\<lambda>head.
         if head < gap_fill_start cfg last_processed then io_return ()
         else io_then (io_each (gap_fill_chunk cfg) (block_ranges DEFAULT_CHUNK (gap_fill_start cfg last_processed) head))
           (io_modify (\<lambda>s. s\<lparr>ig_world := ic_onGapFillComplete cfg (ig_world s)\<rparr>))))"

text \<open>The subscription is a service: connecting may throw; what it delivers later are the steps below.\<close>

definition ingestion_start :: "'w ingestion_config \<Rightarrow> ('w, unit) ingestion_io" where
  "ingestion_start cfg =
     io_bind (io_get ig_started) (\<lambda>started.
       if started then io_return ()
       else io_then (io_modify (\<lambda>s. s\<lparr>ig_started := True\<rparr>))
         (io_then (runBootstrapOrGapFill cfg) (ig_call (ic_connect cfg))))"

definition ingestion_stop :: "'w ingestion_config \<Rightarrow> ('w, unit) ingestion_io" where
  "ingestion_stop cfg = io_modify (\<lambda>s. s\<lparr>ig_started := False, ig_world := ic_disconnect cfg (ig_world s)\<rparr>)"

definition new_flashblock :: "'w ingestion_config \<Rightarrow> int \<Rightarrow> ('w, unit) ingestion_io" where
  "new_flashblock cfg blockNumber =
     io_then (io_modify (\<lambda>s. s\<lparr>ig_lastFlashblockBlock := blockNumber\<rparr>)) (ig_call (ic_onFlashblockTick cfg blockNumber))"

datatype ingestion_step = LogDelivered event_source raw_log | NewFlashblock int | Reconnected | StartIngestion | StopIngestion

fun ingest :: "'w ingestion_config \<Rightarrow> ingestion_step \<Rightarrow> ('w, unit) ingestion_io" where
  "ingest cfg (LogDelivered source raw) = handleRawLog cfg source raw"
| "ingest cfg (NewFlashblock n) = new_flashblock cfg n"
| "ingest cfg Reconnected = runBootstrapOrGapFill cfg"
| "ingest cfg StartIngestion = ingestion_start cfg"
| "ingest cfg StopIngestion = ingestion_stop cfg"

section \<open>Lemmas\<close>

text \<open>The two containers of the keys hold the same, each key once, and stay within their limit.\<close>

definition dedup_ok :: "'w ingestion_state \<Rightarrow> bool" where
  "dedup_ok s \<longleftrightarrow> set (ig_seenOrder s) = set (ig_seen s) \<and> distinct (ig_seenOrder s) \<and> length (ig_seenOrder s) \<le> MAX_DEDUP"

lemma dedup_ok_world [simp]: "dedup_ok (s\<lparr>ig_world := w\<rparr>) = dedup_ok s"
  by (simp add: dedup_ok_def)

lemma MAX_DEDUP_pos: "0 < MAX_DEDUP"
  by (simp add: MAX_DEDUP_def)

lemma mark_key_ok:
  assumes "dedup_ok s"
  shows "dedup_ok (snd (mark_key key s))"
proof (cases "key \<in> set (ig_seen s)")
  case False
  then have fresh: "key \<notin> set (ig_seenOrder s)" using assms by (simp add: dedup_ok_def)
  show ?thesis
  proof (cases "MAX_DEDUP < length (ig_seenOrder s @ [key])")
    case True
    then obtain k ks where order: "ig_seenOrder s = k # ks" using MAX_DEDUP_pos by (cases "ig_seenOrder s") auto
    with assms fresh True False show ?thesis by (auto simp: dedup_ok_def mark_key_def Let_def)
  qed (use assms fresh False in \<open>auto simp: dedup_ok_def mark_key_def Let_def\<close>)
qed (simp add: mark_key_def assms)

lemma mark_key_marks:
  assumes "dedup_ok s"
  shows "key \<in> set (ig_seen (snd (mark_key key s)))"
proof (cases "key \<in> set (ig_seen s) \<or> length (ig_seenOrder s) < MAX_DEDUP")
  case False
  then obtain k ks where "ig_seenOrder s = k # ks" using MAX_DEDUP_pos by (cases "ig_seenOrder s") auto
  with False assms show ?thesis by (auto simp: dedup_ok_def mark_key_def Let_def)
qed (auto simp: mark_key_def Let_def)

lemma mark_key_seen: "key \<in> set (ig_seen s) \<Longrightarrow> mark_key key s = (False, s)"
  by (simp add: mark_key_def)

lemma mark_key_room:
  "key \<notin> set (ig_seen s) \<Longrightarrow> length (ig_seenOrder s) < MAX_DEDUP \<Longrightarrow>
   mark_key key s = (True, s\<lparr>ig_seen := js_add key (ig_seen s), ig_seenOrder := ig_seenOrder s @ [key]\<rparr>)"
  by (simp add: mark_key_def Let_def)

lemma mark_key_frame [simp]:
  "ig_world (snd (mark_key key s)) = ig_world s" "ig_lastFlashblockBlock (snd (mark_key key s)) = ig_lastFlashblockBlock s"
  by (simp_all add: mark_key_def Let_def)

lemma io_keeps_ig_call [io_rules]: "(\<And>s w. P s \<Longrightarrow> P (s\<lparr>ig_world := w\<rparr>)) \<Longrightarrow> io_keeps P (ig_call m)"
  by (auto simp: io_keeps_def io_valid_def ig_call_def split: prod.splits sum.splits)

lemma io_keeps_markSeen [io_rules]: "io_keeps dedup_ok (markSeen meta)"
  by (auto simp: io_keeps_def io_valid_def markSeen_def split: prod.splits) (metis mark_key_ok snd_conv)

lemma io_keeps_handleViemLog [io_rules]: "io_keeps dedup_ok (handleViemLog cfg source lg)"
  by (auto simp: handleViemLog_def intro!: io_rules)

lemma io_keeps_gap_fill [io_rules]: "io_keeps dedup_ok (runBootstrapOrGapFill cfg)"
  by (auto simp: runBootstrapOrGapFill_def gap_fill_chunk_def intro!: io_rules)

lemma io_keeps_ingest: "io_keeps dedup_ok (ingest cfg step)"
  by (cases step)
     (auto simp: handleRawLog_def new_flashblock_def ingestion_start_def ingestion_stop_def dedup_ok_def
       intro!: io_rules io_keeps_ig_call [of dedup_ok, unfolded dedup_ok_def] io_keeps_gap_fill [unfolded dedup_ok_def]
         io_keeps_handleViemLog [unfolded dedup_ok_def])

text \<open>A log whose key is new runs its handler, and its key is kept whether the handler returns or throws.\<close>

definition log_key :: "'w ingestion_state \<Rightarrow> event_source \<Rightarrow> ingest_log \<Rightarrow> string" where
  "log_key s source lg = ingestionDedupKey (log_meta (ig_lastFlashblockBlock s) lg source)"

lemma handle_seen: "log_key s source lg \<in> set (ig_seen s) \<Longrightarrow> handleViemLog cfg source lg s = (Inr (), s)"
  by (simp add: handleViemLog_def io_bind_def io_get_def markSeen_def mark_key_seen log_key_def io_return_def)

lemma handle_fresh:
  assumes "log_key s source lg \<notin> set (ig_seen s)"
  shows "handleViemLog cfg source lg s =
    ig_call (process_log cfg lg (log_meta (ig_lastFlashblockBlock s) lg source)) (snd (mark_key (log_key s source lg) s))"
  using assms by (simp add: handleViemLog_def io_bind_def io_get_def markSeen_def mark_key_def Let_def log_key_def)

lemma handle_fresh_run:
  assumes "log_key s source lg \<notin> set (ig_seen s)"
    and "process_log cfg lg (log_meta (ig_lastFlashblockBlock s) lg source) (ig_world s) = (r, w)"
  shows "\<exists>s'. handleViemLog cfg source lg s = (r, s') \<and> ig_world s' = w"
  using assms(2) unfolding handle_fresh [OF assms(1)] by (simp add: ig_call_def)

lemma handle_marks:
  assumes "dedup_ok s"
  shows "log_key s source lg \<in> set (ig_seen (snd (handleViemLog cfg source lg s)))"
proof (cases "log_key s source lg \<in> set (ig_seen s)")
  case False
  then show ?thesis
    unfolding handle_fresh [OF False] using mark_key_marks [OF assms] by (simp add: ig_call_def split: prod.split)
qed (simp add: handle_seen)

lemma handle_flashblock [simp]: "ig_lastFlashblockBlock (snd (handleViemLog cfg source lg s)) = ig_lastFlashblockBlock s"
  by (cases "log_key s source lg \<in> set (ig_seen s)") (simp_all add: handle_seen handle_fresh ig_call_def split: prod.split)

lemma log_key_block: "ig_lastFlashblockBlock s' = ig_lastFlashblockBlock s \<Longrightarrow> log_key s' = log_key s"
  by (intro ext) (simp add: log_key_def)

text \<open>The source of a log is not part of its key.\<close>

lemma log_key_source: "log_key s source lg = log_key s source' lg"
  by (simp add: log_key_def log_meta_def ingestionDedupKey_def)

section \<open>Lemmas on the checkpoint\<close>

lemma io_each_last: "xs \<noteq> [] \<Longrightarrow> io_each f xs s = (Inr (), s') \<Longrightarrow> \<exists>s1. f (last xs) s1 = (Inr (), s')"
proof (induction xs arbitrary: s)
  case (Cons x xs)
  show ?case
  proof (cases xs)
    case Nil
    with Cons.prems have "f x s = (Inr (), s')" by (auto simp: io_then_def io_bind_def io_return_def split: prod.splits sum.splits)
    with Nil show ?thesis by auto
  next
    case (Cons y ys)
    with Cons.prems obtain s1 where "io_each f xs s1 = (Inr (), s')" by (auto simp: io_then_Inr)
    with Cons.IH Cons show ?thesis by simp
  qed
qed simp

lemma last_block_range:
  "0 < chunk \<Longrightarrow> lo \<le> hi \<Longrightarrow> block_ranges chunk lo hi \<noteq> [] \<and> snd (last (block_ranges chunk lo hi)) = hi"
proof (induction chunk lo hi rule: block_ranges.induct)
  case (1 chunk lo hi)
  show ?case
  proof (cases "lo + chunk \<le> hi")
    case True
    with 1 have "block_ranges chunk (lo + chunk) hi \<noteq> []" "snd (last (block_ranges chunk (lo + chunk) hi)) = hi" by auto
    with 1(2,3) show ?thesis by (subst (1 2) block_ranges.simps) simp
  next
    case False
    then have "block_ranges chunk (lo + chunk) hi = []" by (subst block_ranges.simps) simp
    with 1(2,3) False show ?thesis by (subst (1 2) block_ranges.simps) auto
  qed
qed

text \<open>Saving and loading through the laws of a key-value store.\<close>

definition lawful_checkpoint :: "'s checkpoint_store \<Rightarrow> bool" where
  "lawful_checkpoint c \<longleftrightarrow> key_value_store (kv_get (ck_store c)) (kv_set (ck_store c))"

lemma load_key_of_get:
  "fst (kv_get store key s) = Inr (Some (int_string n)) \<Longrightarrow> fst (load_key store key s) = Inr n"
  by (cases "kv_get store key s") (simp add: load_key_def io_bind_def io_lift_def bigint_round_trip)

lemma load_key_cong: "fst (kv_get store key s') = fst (kv_get store key s) \<Longrightarrow> fst (load_key store key s') = fst (load_key store key s)"
  by (cases "kv_get store key s'"; cases "kv_get store key s")
     (auto simp: load_key_def io_bind_def io_lift_def io_return_def split: sum.splits option.splits)

lemma checkpoint_load_after_save:
  assumes "lawful_checkpoint c" and "saveLastProcessedBlock c n s = (Inr (), s')"
  shows "fst (loadLastProcessedBlock c s') = Inr n"
  using key_value_store.get_after_set [of "kv_get (ck_store c)" "kv_set (ck_store c)"] assms
  by (auto simp: lawful_checkpoint_def saveLastProcessedBlock_def loadLastProcessedBlock_def intro: load_key_of_get)

lemma load_key_keeps_world: "fst (ig_call (loadLastProcessedBlock c) s) = fst (loadLastProcessedBlock c (ig_world s))"
  by (simp add: ig_call_def split: prod.split)

lemma ig_call_Inr: "ig_call m s = (Inr a, s') \<longleftrightarrow> (\<exists>w. m (ig_world s) = (Inr a, w) \<and> s' = s\<lparr>ig_world := w\<rparr>)"
  by (auto simp: ig_call_def split: prod.splits)

lemma handle_pool_event_saves:
  assumes "lawful_checkpoint (ic_checkpoint cfg)" and "log_key s source lg \<notin> set (ig_seen s)" and "source \<noteq> FromPending"
    and "il_blockNumber lg = Some b" and "0 < b"
    and "parseAavePoolLog (ic_decoder cfg) lg (log_meta (ig_lastFlashblockBlock s) lg source) = Some ev"
    and "handleViemLog cfg source lg s = (Inr (), s')"
  shows "fst (loadLastProcessedBlock (ic_checkpoint cfg) (ig_world s')) = Inr b"
proof -
  obtain w w' where "saveLastProcessedBlock (ic_checkpoint cfg) b w = (Inr (), w')" "ig_world s' = w'"
    using assms(3-7) by (auto simp: handle_fresh [OF assms(2)] ig_call_Inr process_log_def io_then_Inr log_meta_def or_else_def)
  with checkpoint_load_after_save [OF assms(1)] show ?thesis by simp
qed

section \<open>The reference: each key once\<close>

text \<open>The deliveries that are the first of their key.\<close>

fun first_by :: "('a \<Rightarrow> 'k) \<Rightarrow> 'k list \<Rightarrow> 'a list \<Rightarrow> 'a list" where
  "first_by f seen [] = []"
| "first_by f seen (x # xs) = (if f x \<in> set seen then first_by f seen xs else x # first_by f (f x # seen) xs)"

definition deliver_all :: "'w ingestion_config \<Rightarrow> (event_source \<times> ingest_log) list \<Rightarrow> 'w ingestion_state \<Rightarrow> 'w ingestion_state" where
  "deliver_all cfg ds s = fold (\<lambda>d t. snd (handleViemLog cfg (fst d) (snd d) t)) ds s"

definition process_all :: "'w ingestion_config \<Rightarrow> int \<Rightarrow> (event_source \<times> ingest_log) list \<Rightarrow> 'w \<Rightarrow> 'w" where
  "process_all cfg lastFlashblock ds w = fold (\<lambda>d v. snd (process_log cfg (snd d) (log_meta lastFlashblock (snd d) (fst d)) v)) ds w"

lemma first_by_cong: "set seen = set seen' \<Longrightarrow> first_by f seen xs = first_by f seen' xs"
  by (induction f seen xs arbitrary: seen' rule: first_by.induct) auto

lemma deliver_equals_reference:
  fixes s :: "'w ingestion_state"
  defines "key \<equiv> \<lambda>d. ingestionDedupKey (log_meta (ig_lastFlashblockBlock s) (snd d) (fst d))"
  assumes "dedup_ok s" and "card (set (ig_seen s) \<union> key ` set ds) \<le> MAX_DEDUP"
  shows "ig_world (deliver_all cfg ds s) = process_all cfg (ig_lastFlashblockBlock s) (first_by key (ig_seen s) ds) (ig_world s)"
  using assms(2,3) unfolding key_def
proof (induction ds arbitrary: s)
  case Nil
  then show ?case by (simp add: deliver_all_def process_all_def)
next
  case (Cons d ds)
  let ?key = "\<lambda>d. ingestionDedupKey (log_meta (ig_lastFlashblockBlock s) (snd d) (fst d))"
  let ?s' = "snd (handleViemLog cfg (fst d) (snd d) s)"
  have step: "deliver_all cfg (d # ds) s = deliver_all cfg ds ?s'" by (simp add: deliver_all_def)
  have ok: "dedup_ok ?s'" by (rule io_keepsD [OF io_keeps_handleViemLog Cons.prems(1)])
  show ?case
  proof (cases "?key d \<in> set (ig_seen s)")
    case True
    then have "?s' = s" by (simp add: handle_seen log_key_def)
    moreover have "card (set (ig_seen s) \<union> ?key ` set ds) \<le> MAX_DEDUP" using Cons.prems(2) True by (simp add: insert_absorb)
    ultimately show ?thesis using step True Cons.IH [OF Cons.prems(1)] by simp
  next
    case False
    have "length (ig_seenOrder s) = card (set (ig_seen s))"
      using Cons.prems(1) by (metis dedup_ok_def distinct_card)
    also have "\<dots> < card (insert (?key d) (set (ig_seen s)))" using False by simp
    also have "\<dots> \<le> card (set (ig_seen s) \<union> ?key ` set (d # ds))" by (rule card_mono) auto
    finally have room: "length (ig_seenOrder s) < MAX_DEDUP" using Cons.prems(2) by simp
    let ?run = "process_log cfg (snd d) (log_meta (ig_lastFlashblockBlock s) (snd d) (fst d)) (ig_world s)"
    have s': "ig_world ?s' = snd ?run" "set (ig_seen ?s') = insert (?key d) (set (ig_seen s))"
      using False room
      by (simp_all add: handle_fresh log_key_def mark_key_room ig_call_def split: prod.split)
    have "card (set (ig_seen ?s') \<union> ?key ` set ds) \<le> MAX_DEDUP" using Cons.prems(2) by (simp add: s'(2))
    then have "ig_world (deliver_all cfg ds ?s') =
        process_all cfg (ig_lastFlashblockBlock s) (first_by ?key (ig_seen ?s') ds) (snd ?run)"
      using Cons.IH [OF ok] by (simp add: s'(1))
    also have "first_by ?key (ig_seen ?s') ds = first_by ?key (?key d # ig_seen s) ds" by (rule first_by_cong) (simp add: s'(2))
    finally show ?thesis using step False by (simp add: process_all_def)
  qed
qed

section \<open>Properties\<close>

text \<open>C30. Dropping what was seen is the same as handling each log once: as long as not more keys than the limit
  are in play, any sequence of deliveries, in any order and with any repetitions between the socket and
  the gap fill, has the effect of handling the first delivery of each key, in their order, exceptions of
  the handler included.\<close>

theorem dedup_equiv:
  assumes "card ((\<lambda>d. ingestionDedupKey (log_meta 0 (snd d) (fst d))) ` set ds) \<le> MAX_DEDUP"
  shows "ig_world (deliver_all cfg ds (ingestion_new w)) =
    process_all cfg 0 (first_by (\<lambda>d. ingestionDedupKey (log_meta 0 (snd d) (fst d))) [] ds) w"
  using deliver_equals_reference [of "ingestion_new w" ds cfg] assms by (simp add: ingestion_new_def dedup_ok_def)


text \<open>A pending log that does not name its block is handled again when it is confirmed: the missing block
  counts as zero, so the confirmed log has another key, and its event reaches the callback twice.\<close>

theorem pending_log_handled_twice:
  assumes "rl_blockNumber raw = None" and "bigint_of_string b = Inr n" and "n \<noteq> 0"
    and "rawLogToViemLog raw = Inr pending" and "rawLogToViemLog (raw\<lparr>rl_blockNumber := Some (RawString b)\<rparr>) = Inr confirmed"
    and "process_log cfg pending (log_meta 0 pending FromPending) w = (Inr (), w1)"
    and "process_log cfg confirmed (log_meta 0 confirmed FromConfirmed) w1 = (Inr (), w2)"
  shows "ig_world (snd (io_then (handleRawLog cfg FromPending raw)
      (handleRawLog cfg FromConfirmed (raw\<lparr>rl_blockNumber := Some (RawString b)\<rparr>)) (ingestion_new w))) = w2"
proof -
  let ?s = "ingestion_new w"
  have pending: "il_blockNumber pending = Some 0" "il_blockNumber confirmed = Some n"
    "il_transactionHash confirmed = il_transactionHash pending" "il_logIndex confirmed = il_logIndex pending"
    using assms(1,2,4,5) by (auto simp: rawLogToViemLog_def)
  have "int_string n \<noteq> int_string 0" using assms(3) by (metis option.inject parse_int_string)
  with pending have keys: "log_key ?s FromConfirmed confirmed \<noteq> log_key ?s FromPending pending"
    by (simp add: log_key_def ingestionDedupKey_def log_meta_def or_else_def)
  define s1 where "s1 = ?s\<lparr>ig_world := w1, ig_seen := [log_key ?s FromPending pending], ig_seenOrder := [log_key ?s FromPending pending]\<rparr>"
  have "handleViemLog cfg FromPending pending ?s = (Inr (), s1)"
    using assms(6) MAX_DEDUP_pos
    by (subst handle_fresh) (simp_all add: ingestion_new_def mark_key_room ig_call_def s1_def js_add_def)
  then have first: "handleRawLog cfg FromPending raw ?s = (Inr (), s1)"
    by (simp add: handleRawLog_def assms(4) io_bind_def io_lift_def)
  have "log_key s1 FromConfirmed confirmed = log_key ?s FromConfirmed confirmed" by (simp add: log_key_def s1_def)
  with keys have "log_key s1 FromConfirmed confirmed \<notin> set (ig_seen s1)" by (simp add: s1_def)
  from handle_fresh [OF this, of cfg] assms(7) have "ig_world (snd (handleViemLog cfg FromConfirmed confirmed s1)) = w2"
    by (simp add: s1_def ingestion_new_def ig_call_def)
  with first show ?thesis by (simp add: io_then_def io_bind_def handleRawLog_def assms(5) io_lift_def)
qed

text \<open>A gap fill that returns leaves the checkpoint at the head of the chain, whatever the events in between
  did to it, if the store keeps what it is given and the callback at the end leaves the store alone.\<close>

theorem gap_fill_reaches_head:
  assumes "lawful_checkpoint (ic_checkpoint cfg)"
    and "\<And>w. fst (loadLastProcessedBlock (ic_checkpoint cfg) (ic_onGapFillComplete cfg w)) = fst (loadLastProcessedBlock (ic_checkpoint cfg) w)"
    and "loadLastProcessedBlock (ic_checkpoint cfg) (ig_world s) = (Inr n, w1)" and "ic_getBlockNumber cfg w1 = (Inr head, w2)"
    and "gap_fill_start cfg n \<le> head" and "runBootstrapOrGapFill cfg s = (Inr (), s')"
  shows "fst (loadLastProcessedBlock (ic_checkpoint cfg) (ig_world s')) = Inr head"
proof -
  let ?ranges = "block_ranges DEFAULT_CHUNK (gap_fill_start cfg n) head"
  have ranges: "?ranges \<noteq> []" "snd (last ?ranges) = head" using last_block_range [OF _ assms(5)] by (simp_all add: DEFAULT_CHUNK_def)
  obtain s3 where loop: "io_each (gap_fill_chunk cfg) ?ranges (s\<lparr>ig_world := w2\<rparr>) = (Inr (), s3)"
    and s': "ig_world s' = ic_onGapFillComplete cfg (ig_world s3)"
    using assms(3-6) by (auto simp: runBootstrapOrGapFill_def io_bind_Inr io_then_Inr ig_call_Inr io_modify_def)
  obtain s2 where "gap_fill_chunk cfg (last ?ranges) s2 = (Inr (), s3)" using io_each_last [OF ranges(1) loop] by blast
  then obtain w w' where "saveLastProcessedBlock (ic_checkpoint cfg) head w = (Inr (), w')" "ig_world s3 = w'"
    by (auto simp: gap_fill_chunk_def io_bind_Inr io_then_Inr ig_call_Inr ranges(2))
  with checkpoint_load_after_save [OF assms(1)] show ?thesis by (simp add: s' assms(2))
qed

text \<open>A crash in the middle of a block skips the rest of it: the first event of a block moves the checkpoint
  to that block, so when the handler of the next event throws, the gap fill after a restart asks for
  no block before the next one, and the remaining events are never processed.\<close>

theorem crash_skips_rest_of_block:
  assumes "lawful_checkpoint (ic_checkpoint cfg)" and "log_key s FromGapFill first \<notin> set (ig_seen s)"
    and "il_blockNumber first = Some b" and "0 < b"
    and "parseAavePoolLog (ic_decoder cfg) first (log_meta (ig_lastFlashblockBlock s) first FromGapFill) = Some ev"
    and "handleViemLog cfg FromGapFill first s = (Inr (), s1)" and "handleViemLog cfg FromGapFill second s1 = (Inl e, s2)"
    and "fst (loadLastProcessedBlock (ic_checkpoint cfg) (ig_world s2)) = fst (loadLastProcessedBlock (ic_checkpoint cfg) (ig_world s1))"
  shows "io_each (handleViemLog cfg FromGapFill) (first # second # others) s = (Inl e, s2) \<and>
    fst (loadLastProcessedBlock (ic_checkpoint cfg) (ig_world s2)) = Inr b \<and>
    (\<forall>head. \<forall>(lo, hi) \<in> set (block_ranges DEFAULT_CHUNK (gap_fill_start cfg b) head). b < lo)"
proof -
  have "io_each (handleViemLog cfg FromGapFill) (first # second # others) s = (Inl e, s2)"
    using assms(6,7) by (simp add: io_then_def io_bind_def)
  moreover have "fst (loadLastProcessedBlock (ic_checkpoint cfg) (ig_world s1)) = Inr b"
    by (rule handle_pool_event_saves [OF assms(1,2) _ assms(3-6)]) simp
  ultimately show ?thesis
    using assms(4,8) by (auto simp: gap_fill_start_def dest!: block_ranges_bounds)
qed

text \<open>The file keeps what was saved: after a save of the checkpoint of a chain, both a load of it and a load
  of the cursor of the bootstrap answer right, for every number and every earlier content, also none.\<close>

theorem disk_checkpoint_round_trip:
  assumes "\<And>s t s'. fl_write fl path t s = (Inr (), s') \<Longrightarrow> fl_read fl path s' = (Inr t, s')"
    and "\<And>m. fl_parse fl (fl_print fl m) = Inr m"
    and "\<And>s. snd (fl_read fl path s) = s"
    and "c = checkpoint_new (disk_store fl path) chain" and "saveLastProcessedBlock c n s = (Inr (), s')"
  shows "fst (loadLastProcessedBlock c s') = Inr n \<and>
    fst (loadBootstrapChunkCursor c s') = fst (loadBootstrapChunkCursor c s)"
proof -
  let ?key = "''bot:lastProcessedBlock:'' @ chain" and ?boot = "''bot:bootstrapChunkCursor:'' @ chain"
  define m where "m = (case fst (read_entries fl path s) of Inr m \<Rightarrow> m | Inl _ \<Rightarrow> [])"
  obtain r where r: "fl_read fl path s = (r, s)" using assms(3) by (metis surj_pair snd_conv)
  have entries: "read_entries fl path s = (case r of Inl e \<Rightarrow> Inl e | Inr raw \<Rightarrow> fl_parse fl raw, s)"
    by (cases r) (simp_all add: read_entries_def io_bind_def io_lift_def r)
  have existing: "io_catch (read_entries fl path) (\<lambda>_. io_return []) s = (Inr m, s)"
    by (auto simp: m_def entries io_catch_def io_return_def split: sum.splits)
  from assms(5) existing obtain t where
    "fl_write fl path (fl_print fl (js_set ?key (int_string n) m)) t = (Inr (), s')"
    by (auto simp: assms(4) saveLastProcessedBlock_def checkpoint_new_def disk_store_def disk_set_def io_bind_def io_then_def split: prod.splits sum.splits)
  from assms(1) [OF this] have "read_entries fl path s' = (Inr (js_set ?key (int_string n) m), s')"
    by (simp add: read_entries_def io_bind_def io_lift_def assms(2))
  then have after: "disk_get fl path k s' = (Inr (js_get (js_set ?key (int_string n) m) k), s')" for k
    by (simp add: disk_get_def io_catch_def io_bind_def io_return_def)
  have before: "fst (disk_get fl path k s) = Inr (js_get m k)" for k
    by (auto simp: disk_get_def io_catch_def io_bind_def io_return_def entries m_def split: sum.splits)
  have "fst (loadLastProcessedBlock c s') = Inr n"
    unfolding loadLastProcessedBlock_def by (rule load_key_of_get) (simp add: assms(4) checkpoint_new_def disk_store_def after)
  moreover have "fst (loadBootstrapChunkCursor c s') = fst (loadBootstrapChunkCursor c s)"
    unfolding loadBootstrapChunkCursor_def
    by (rule load_key_cong) (simp add: assms(4) checkpoint_new_def disk_store_def after before)
  ultimately show ?thesis by simp
qed

section \<open>Witnesses\<close>

text \<open>A world of the events received and of the entries of a store; a node whose logs are all supplies.\<close>

type_synonym sample_world = "ingestion_event list \<times> (string, string) jsmap"

definition sample_store :: "sample_world cursor_store" where
  "sample_store = \<lparr>kv_get = (\<lambda>k w. (Inr (js_get (snd w) k), w)), kv_set = (\<lambda>k v w. (Inr (), (fst w, js_set k v (snd w)))), kv_close = None\<rparr>"

interpretation sample_kv: key_value_store "kv_get sample_store" "kv_set sample_store"
  by unfold_locales (auto simp: sample_store_def)

definition supply_args :: pool_args where
  "supply_args = \<lparr>pg_reserve = Some ''0xr'', pg_collateralAsset = None, pg_debtAsset = None, pg_user = Some ''0xa'', pg_onBehalfOf = None,
     pg_amount = Some 5, pg_debtToCover = None, pg_liquidatedCollateralAmount = None, pg_liquidityIndex = None, pg_variableBorrowIndex = None\<rparr>"

definition supply_decoder :: log_decoder where
  "supply_decoder = \<lparr>dc_pool = (\<lambda>name d t. if name = Supply then Some supply_args else None), dc_answer = (\<lambda>d t. None)\<rparr>"

definition sample_log :: "int \<Rightarrow> ingest_log" where
  "sample_log i = \<lparr>il_address = Some ''0xp'', il_blockNumber = Some 7, il_data = ''0x'', il_topics = [], il_transactionHash = Some ''0xt'',
     il_logIndex = Some (LogIndex i)\<rparr>"

definition sample_ingestion :: "sample_world ingestion_config" where
  "sample_ingestion = \<lparr>ic_decoder = supply_decoder, ic_feeds = [], ic_checkpoint = checkpoint_new sample_store ''base'',
     ic_getBlockNumber = io_return 7, ic_getLogs = (\<lambda>lo hi. io_return [sample_log 0]), ic_bootstrapFromBlock = Some 5,
     ic_onEvent = (\<lambda>ev w. if length (fst w) < 2 then (Inr (), (fst w @ [ev], snd w)) else (Inl (Exn ''handler''), w)),
     ic_onFlashblockTick = (\<lambda>n. io_return ()), ic_onGapFillComplete = (\<lambda>w. w), ic_connect = io_return (), ic_disconnect = (\<lambda>w. w)\<rparr>"

lemma sample_parse:
  "parseAavePoolLog supply_decoder lg meta = Some (AavePoolEvent (parsed_meta lg meta) (pool_event_of Supply (im_blockNumber meta) supply_args))"
  by (simp add: parseAavePoolLog_def pool_event_names_def supply_decoder_def first_some_def)

lemma sample_process:
  "process_log sample_ingestion lg meta w =
     (if length (fst w) < 2
      then (Inr (), (fst w @ [AavePoolEvent (parsed_meta lg meta) (pool_event_of Supply (im_blockNumber meta) supply_args)],
        if im_source meta \<noteq> FromPending \<and> 0 < im_blockNumber meta
        then js_set ''bot:lastProcessedBlock:base'' (int_string (im_blockNumber meta)) (snd w) else snd w))
      else (Inl (Exn ''handler''), w))"
  by (simp add: process_log_def sample_ingestion_def sample_parse saveLastProcessedBlock_def checkpoint_new_def sample_store_def
      io_then_def io_bind_def io_return_def)

lemma sample_lawful: "lawful_checkpoint (ic_checkpoint sample_ingestion)"
  by (simp add: lawful_checkpoint_def sample_ingestion_def checkpoint_new_def sample_kv.key_value_store_axioms)

theorem dedup_equiv_witness:
  "length (fst (ig_world (deliver_all sample_ingestion [(FromConfirmed, sample_log 0), (FromGapFill, sample_log 0), (FromConfirmed, sample_log 0)]
     (ingestion_new ([], []))))) = 1"
proof -
  let ?ds = "[(FromConfirmed, sample_log 0), (FromGapFill, sample_log 0), (FromConfirmed, sample_log 0)]"
  have "card ((\<lambda>d. ingestionDedupKey (log_meta 0 (snd d) (fst d))) ` set ?ds) \<le> MAX_DEDUP"
    by (simp add: MAX_DEDUP_def log_meta_def ingestionDedupKey_def)
  from dedup_equiv [OF this, of sample_ingestion "([], [])"] show ?thesis
    by (simp add: process_all_def sample_process log_meta_def ingestionDedupKey_def)
qed

definition full_state :: "sample_world ingestion_state" where
  "full_state = ingestion_new ([undefined, undefined], [])"

lemma full_state_fails: "\<exists>s'. handleViemLog sample_ingestion FromConfirmed (sample_log 0) full_state = (Inl (Exn ''handler''), s')"
proof -
  have "log_key full_state FromConfirmed (sample_log 0) \<notin> set (ig_seen full_state)" by (simp add: full_state_def ingestion_new_def)
  from handle_fresh_run [OF this, of sample_ingestion] show ?thesis by (auto simp: sample_process full_state_def ingestion_new_def)
qed


definition pending_raw :: raw_log where
  "pending_raw = \<lparr>rl_address = Some ''0xp'', rl_blockNumber = None, rl_data = None, rl_topics = None, rl_transactionHash = Some ''0xt'',
     rl_logIndex = Some (RawString ''0x1'')\<rparr>"

theorem pending_log_handled_twice_witness:
  "length (fst (ig_world (snd (io_then (handleRawLog sample_ingestion FromPending pending_raw)
     (handleRawLog sample_ingestion FromConfirmed (pending_raw\<lparr>rl_blockNumber := Some (RawString ''0x7'')\<rparr>)) (ingestion_new ([], [])))))) = 2"
proof -
  have b: "bigint_of_string ''0x7'' = Inr 7" by code_simp
  obtain p c where logs: "rawLogToViemLog pending_raw = Inr p" "rawLogToViemLog (pending_raw\<lparr>rl_blockNumber := Some (RawString ''0x7'')\<rparr>) = Inr c"
    by (simp add: rawLogToViemLog_def pending_raw_def b)
  obtain w1 where one: "process_log sample_ingestion p (log_meta 0 p FromPending) ([], []) = (Inr (), w1)" "length (fst w1) = 1"
    by (simp add: sample_process)
  obtain w2 where two: "process_log sample_ingestion c (log_meta 0 c FromConfirmed) w1 = (Inr (), w2)" "length (fst w2) = 2"
    using one(2) by (simp add: sample_process)
  have "rl_blockNumber pending_raw = None" by (simp add: pending_raw_def)
  from pending_log_handled_twice [OF this b _ logs one(1) two(1)] two(2) show ?thesis by simp
qed

lemma sample_load: "loadLastProcessedBlock (ic_checkpoint sample_ingestion) (ev, kv) =
    (case js_get kv ''bot:lastProcessedBlock:base'' of None \<Rightarrow> Inr 0 | Some v \<Rightarrow> bigint_of_string v, (ev, kv))"
  by (simp add: loadLastProcessedBlock_def load_key_def sample_ingestion_def checkpoint_new_def sample_store_def io_bind_def io_lift_def io_return_def
      split: option.split)

lemma sample_gap_fill: "\<exists>s'. runBootstrapOrGapFill sample_ingestion (ingestion_new ([], [])) = (Inr (), s')"
proof -
  have ranges: "block_ranges DEFAULT_CHUNK 5 7 = [(5, 7)]" by (simp add: block_ranges.simps DEFAULT_CHUNK_def)
  have logs: "ic_getLogs sample_ingestion 5 7 = io_return [sample_log 0]" "ic_getBlockNumber sample_ingestion = io_return 7"
    "gap_fill_start sample_ingestion 0 = 5"
    by (simp_all add: sample_ingestion_def gap_fill_start_def or_else_def)
  have "log_key (ingestion_new ([], [])) FromGapFill (sample_log 0) \<notin> set (ig_seen (ingestion_new ([], [])))" by (simp add: ingestion_new_def)
  from handle_fresh_run [OF this, of sample_ingestion]
  obtain w where handle: "handleViemLog sample_ingestion FromGapFill (sample_log 0) (ingestion_new ([], [])) = (Inr (), w)"
    by (auto simp: sample_process ingestion_new_def)
  have save: "\<exists>w'. ig_call (saveLastProcessedBlock (ic_checkpoint sample_ingestion) 7) t = (Inr (), w')" for t
    by (simp add: ig_call_def saveLastProcessedBlock_def sample_ingestion_def checkpoint_new_def sample_store_def)
  have load: "ig_call (loadLastProcessedBlock (ic_checkpoint sample_ingestion)) (ingestion_new ([], [])) = (Inr 0, ingestion_new ([], []))"
    by (simp add: ig_call_def ingestion_new_def sample_load)
  show ?thesis
    using save [of w] handle
    by (auto simp: runBootstrapOrGapFill_def gap_fill_chunk_def ranges logs load io_bind_def io_then_def io_return_def ig_call_def [of "io_return _"]
        ig_call_def [of "\<lambda>s. (Inr _, s)"] io_modify_def)
qed

theorem gap_fill_reaches_head_witness:
  "\<exists>s'. runBootstrapOrGapFill sample_ingestion (ingestion_new ([], [])) = (Inr (), s') \<and>
     fst (loadLastProcessedBlock (ic_checkpoint sample_ingestion) (ig_world s')) = Inr 7"
proof -
  obtain s' where run: "runBootstrapOrGapFill sample_ingestion (ingestion_new ([], [])) = (Inr (), s')" using sample_gap_fill by blast
  have "fst (loadLastProcessedBlock (ic_checkpoint sample_ingestion) (ig_world s')) = Inr 7"
    by (rule gap_fill_reaches_head [OF sample_lawful _ _ _ _ run])
       (simp_all add: ingestion_new_def sample_load, simp_all add: sample_ingestion_def io_return_def gap_fill_start_def or_else_def)
  with run show ?thesis by blast
qed

definition busy_state :: "sample_world ingestion_state" where
  "busy_state = ingestion_new ([undefined], [])"

theorem crash_skips_rest_of_block_witness:
  "\<exists>s2. io_each (handleViemLog sample_ingestion FromGapFill) [sample_log 0, sample_log 1, sample_log 2] busy_state = (Inl (Exn ''handler''), s2) \<and>
     fst (loadLastProcessedBlock (ic_checkpoint sample_ingestion) (ig_world s2)) = Inr 7"
proof -
  obtain s1 where one: "handleViemLog sample_ingestion FromGapFill (sample_log 0) busy_state = (Inr (), s1)" and
    s1: "length (fst (ig_world s1)) = 2" "ig_seen s1 = [log_key busy_state FromGapFill (sample_log 0)]" "ig_lastFlashblockBlock s1 = 0" "ig_seenOrder s1 = ig_seen s1"
    using MAX_DEDUP_pos by (subst (asm) handle_fresh) (simp_all add: busy_state_def ingestion_new_def ig_call_def sample_process mark_key_room js_add_def)
  have "int_string 1 \<noteq> int_string 0" by (metis option.inject parse_int_string zero_neq_one)
  then have fresh: "log_key s1 FromGapFill (sample_log 1) \<notin> set (ig_seen s1)"
    by (simp add: s1 log_key_def ingestionDedupKey_def log_meta_def sample_log_def or_else_def busy_state_def ingestion_new_def)
  obtain s2 where two: "handleViemLog sample_ingestion FromGapFill (sample_log 1) s1 = (Inl (Exn ''handler''), s2)" "ig_world s2 = ig_world s1"
    using s1(1) by (simp add: handle_fresh [OF fresh] ig_call_def sample_process)
  have "io_each (handleViemLog sample_ingestion FromGapFill) (sample_log 0 # sample_log 1 # [sample_log 2]) busy_state = (Inl (Exn ''handler''), s2) \<and>
    fst (loadLastProcessedBlock (ic_checkpoint sample_ingestion) (ig_world s2)) = Inr 7 \<and>
    (\<forall>head. \<forall>(lo, hi) \<in> set (block_ranges DEFAULT_CHUNK (gap_fill_start sample_ingestion 7) head). 7 < lo)"
    by (rule crash_skips_rest_of_block [OF sample_lawful _ _ _ _ one two(1)])
       (simp_all add: two(2), simp_all add: busy_state_def ingestion_new_def sample_log_def sample_ingestion_def sample_parse)
  then show ?thesis by auto
qed

text \<open>A file system that holds one file, whose text numbers its entries.\<close>

definition sample_files :: "string file_services" where
  "sample_files = \<lparr>fl_read = (\<lambda>p s. (Inr s, s)), fl_write = (\<lambda>p t s. (Inr (), t)), fl_mkdirFor = (\<lambda>p. io_return ()),
     fl_parse = (\<lambda>t. Inr (from_nat (length t))), fl_print = (\<lambda>m. replicate (to_nat m) CHR ''x'')\<rparr>"

theorem disk_checkpoint_round_trip_witness:
  "\<exists>s'. saveLastProcessedBlock (checkpoint_new (disk_store sample_files ''p'') ''base'') 12345 ''xxx'' = (Inr (), s') \<and>
     fst (loadLastProcessedBlock (checkpoint_new (disk_store sample_files ''p'') ''base'') s') = Inr 12345"
proof -
  let ?c = "checkpoint_new (disk_store sample_files ''p'') ''base''"
  obtain s' where save: "saveLastProcessedBlock ?c 12345 ''xxx'' = (Inr (), s')"
    by (simp add: saveLastProcessedBlock_def checkpoint_new_def disk_store_def disk_set_def read_entries_def sample_files_def io_bind_def io_then_def
        io_catch_def io_lift_def io_return_def)
  have "fst (loadLastProcessedBlock ?c s') = Inr 12345 \<and> fst (loadBootstrapChunkCursor ?c s') = fst (loadBootstrapChunkCursor ?c ''xxx'')"
    by (rule disk_checkpoint_round_trip [OF _ _ _ refl save]) (auto simp: sample_files_def)
  with save show ?thesis by blast
qed

end
