(* ===== verification/Event_Purity.thy ===== *)
theory Event_Purity
  imports Event_Ingestion Watchlist_Sweep
begin

text \<open>
  \<open>src/monitors/eventPurityStack.ts\<close>: the events of the pool and of the feeds drive the position
  model; the tiers it reports fill a queue of accounts (\<open>src/monitors/tieredConfirmQueue.ts\<close>) that are
  read on chain, and an account whose health factor there is below one is handed to the callback. An
  account seen for the first time is seeded from the chain
  (\<open>src/monitors/positionOnChainReconcile.ts\<close>), the feeds are polled
  (\<open>src/monitors/localFeedFreshnessPoll.ts\<close>), and a counter of flashblocks triggers the refresh of the
  reserve indices and of the accounts at risk. Contract reads, clock, callbacks and the sampling of the
  shadow validator are services.

  A handler runs from its first to its last step: what other handlers do while it waits for a service
  is not modelled. The model operations are those of \<open>Position_Model\<close>; that they return is proved
  there, so the branch where one does not is never taken.
\<close>

section \<open>State and services\<close>

record confirm_result =
  cr_address :: address
  cr_healthFactor :: int
  cr_totalDebtBase :: int
  cr_totalCollateralBase :: int
  cr_liquidationThreshold :: int
  cr_eModeCategoryId :: int

record account_snapshot =
  as_account :: address
  as_eModeCategoryId :: int
  as_healthFactorWad :: int
  as_totalCollateralBase :: int
  as_totalDebtBase :: int
  as_liquidationThreshold :: int
  as_reserves :: "seed_row list"

record 'w purity_config =
  pc_model :: model_config
  pc_reserveAllowlist :: "address list option"
  pc_enableWatchTier :: bool
  pc_batchSize :: "nat option"
  pc_feeds :: "(address \<times> address option) list"
  pc_now :: "'w \<Rightarrow> int \<times> 'w"
  pc_multicallAccounts :: "address list \<Rightarrow> ('w, account_data option list) io"
  pc_multicallEmode :: "address list \<Rightarrow> ('w, int option list) io"
  pc_readAccount :: "address \<Rightarrow> ('w, account_data) io"
  pc_readUserReserves :: "address \<Rightarrow> ('w, user_reserve list \<times> int) io"
  pc_readReserveIndices :: "address \<Rightarrow> ('w, int \<times> int) io"
  pc_multicallFeeds :: "address list \<Rightarrow> ('w, ((int \<times> int) option \<times> int option) list) io"
  pc_checkpoint :: "'w checkpoint_store"
  pc_sample :: "address \<Rightarrow> int \<Rightarrow> position_model \<Rightarrow> 'w \<Rightarrow> 'w"
  pc_onBlockObserved :: "int \<Rightarrow> 'w \<Rightarrow> 'w"
  pc_onLiquidatable :: "confirm_result \<Rightarrow> ('w, unit) io"

record 'w purity_state =
  ps_world :: 'w
  ps_model :: position_model
  ps_urgent :: "string list"
  ps_watch :: "string list"
  ps_indexRefreshInFlight :: bool
  ps_aggregateRefreshInFlight :: bool
  ps_flashblockTickCount :: int
  ps_pricesBootstrapped :: bool

type_synonym ('w, 'a) purity_io = "('w purity_state, 'a) io"

definition ep_call :: "('w, 'a) io \<Rightarrow> ('w, 'a) purity_io" where
  "ep_call m s = (case m (ps_world s) of (r, w) \<Rightarrow> (r, s\<lparr>ps_world := w\<rparr>))"

definition ep_effect :: "('w \<Rightarrow> 'w) \<Rightarrow> ('w, unit) purity_io" where
  "ep_effect f = io_modify (\<lambda>s. s\<lparr>ps_world := f (ps_world s)\<rparr>)"

definition ep_clock :: "'w purity_config \<Rightarrow> ('w, int) purity_io" where
  "ep_clock cfg = ep_call (\<lambda>w. case pc_now cfg w of (t, w') \<Rightarrow> (Inr t, w'))"

definition on_model :: "(position_model \<Rightarrow> position_model) \<Rightarrow> ('w, unit) purity_io" where
  "on_model f = io_modify (\<lambda>s. s\<lparr>ps_model := f (ps_model s)\<rparr>)"

definition model_result :: "(position_model \<Rightarrow> ('a \<times> position_model) option) \<Rightarrow> ('w, 'a) purity_io" where
  "model_result f s =
     (case f (ps_model s) of
        None \<Rightarrow> (Inl (Exn ''Maximum call stack size exceeded''), s)
      | Some (a, m) \<Rightarrow> (Inr a, s\<lparr>ps_model := m\<rparr>))"

text \<open>The constructor: the model knows the feeds of the chain, each with the price one.\<close>

definition purity_new :: "'w purity_config \<Rightarrow> int \<Rightarrow> 'w \<Rightarrow> 'w purity_state" where
  "purity_new cfg nowMs w =
     \<lparr>ps_world = w,
      ps_model = fold (\<lambda>(a, feed) m. case feed of None \<Rightarrow> m | Some f \<Rightarrow> registerPriceFeed f a 1 m) (pc_feeds cfg) (new_model nowMs),
      ps_urgent = [], ps_watch = [], ps_indexRefreshInFlight = False, ps_aggregateRefreshInFlight = False,
      ps_flashblockTickCount = 0, ps_pricesBootstrapped = False\<rparr>"

section \<open>The confirmation queue\<close>

definition enqueueUrgent :: "address \<Rightarrow> 'w purity_state \<Rightarrow> 'w purity_state" where
  "enqueueUrgent account s = s\<lparr>ps_urgent := js_add (to_lower account) (ps_urgent s)\<rparr>"

definition enqueueWatch :: "'w purity_config \<Rightarrow> address \<Rightarrow> 'w purity_state \<Rightarrow> 'w purity_state" where
  "enqueueWatch cfg account s = (if \<not> pc_enableWatchTier cfg then s else s\<lparr>ps_watch := js_add (to_lower account) (ps_watch s)\<rparr>)"

definition confirm_result_of :: "address \<Rightarrow> account_data \<Rightarrow> int option \<Rightarrow> confirm_result" where
  "confirm_result_of account data emode =
     (case data of (collateral, debt, available, threshold, ltv, hf) \<Rightarrow>
        \<lparr>cr_address = account, cr_healthFactor = hf, cr_totalDebtBase = debt, cr_totalCollateralBase = collateral,
         cr_liquidationThreshold = threshold, cr_eModeCategoryId = or_else emode 0\<rparr>)"

text \<open>The results of two multicalls over a batch, row by row; a result that is missing has failed.\<close>

fun confirm_rows :: "address list \<Rightarrow> account_data option list \<Rightarrow> int option list \<Rightarrow> confirm_result list" where
  "confirm_rows [] rows emodes = []"
| "confirm_rows (account # batch) rows emodes =
     (case rows of
        Some data # _ \<Rightarrow> [confirm_result_of account data (case emodes of [] \<Rightarrow> None | m # _ \<Rightarrow> m)]
      | _ \<Rightarrow> []) @ confirm_rows batch (tl rows) (tl emodes)"

definition confirm_one_batch :: "'w purity_config \<Rightarrow> address list \<Rightarrow> ('w, confirm_result list) purity_io" where
  "confirm_one_batch cfg batch =
     io_bind (ep_call (pc_multicallAccounts cfg batch)) (\<lambda>rows.
       io_bind (ep_call (pc_multicallEmode cfg batch)) (\<lambda>emodes. io_return (confirm_rows batch rows emodes)))"

definition confirmBatch :: "'w purity_config \<Rightarrow> address list \<Rightarrow> ('w, confirm_result list) purity_io" where
  "confirmBatch cfg addresses =
     io_bind (io_map (confirm_one_batch cfg) (batches (or_else (pc_batchSize cfg) 200) addresses)) (\<lambda>results. io_return (concat results))"

definition flushUrgent :: "'w purity_config \<Rightarrow> ('w, confirm_result list) purity_io" where
  "flushUrgent cfg =
     io_bind (io_get ps_urgent) (\<lambda>urgent.
       if urgent = [] then io_return []
       else io_then (io_modify (\<lambda>s. s\<lparr>ps_urgent := []\<rparr>)) (confirmBatch cfg urgent))"

definition flushWatch :: "'w purity_config \<Rightarrow> nat \<Rightarrow> ('w, confirm_result list) purity_io" where
  "flushWatch cfg maxBatch =
     io_bind (io_get ps_watch) (\<lambda>watch.
       if \<not> pc_enableWatchTier cfg \<or> watch = [] then io_return []
       else io_then (io_modify (\<lambda>s. s\<lparr>ps_watch := fold js_remove (map to_lower (take maxBatch watch)) (ps_watch s)\<rparr>))
         (confirmBatch cfg (take maxBatch watch)))"

section \<open>Reconciliation\<close>

definition snapshot_rows :: "user_reserve list \<Rightarrow> seed_row list" where
  "snapshot_rows rows =
     map (\<lambda>r. \<lparr>sr_asset = ur_underlyingAsset r,
               sr_scaledCollateral = (if ur_usageAsCollateralEnabledOnUser r then ur_scaledATokenBalance r else 0),
               sr_scaledDebt = ur_scaledVariableDebt r\<rparr>)
       (filter (\<lambda>r. \<not> (ur_scaledATokenBalance r = 0 \<and> ur_scaledVariableDebt r = 0)) rows)"

definition account_snapshot_of :: "address \<Rightarrow> account_data \<Rightarrow> user_reserve list \<times> int \<Rightarrow> account_snapshot option" where
  "account_snapshot_of account data reserves =
     (case data of (collateral, debt, available, threshold, ltv, hf) \<Rightarrow>
        if debt = 0 then None
        else Some \<lparr>as_account = account, as_eModeCategoryId = snd reserves, as_healthFactorWad = hf, as_totalCollateralBase = collateral,
          as_totalDebtBase = debt, as_liquidationThreshold = threshold, as_reserves = snapshot_rows (fst reserves)\<rparr>)"

definition fetchOnChainAccountSnapshot :: "'w purity_config \<Rightarrow> address \<Rightarrow> ('w, account_snapshot option) purity_io" where
  "fetchOnChainAccountSnapshot cfg account =
     io_bind (ep_call (pc_readAccount cfg account)) (\<lambda>data.
       io_bind (ep_call (pc_readUserReserves cfg account)) (\<lambda>reserves. io_return (account_snapshot_of account data reserves)))"

definition seed_of_snapshot :: "account_snapshot \<Rightarrow> int \<Rightarrow> seed_input" where
  "seed_of_snapshot snap blockNumber =
     \<lparr>si_account = as_account snap, si_blockNumber = blockNumber, si_eModeCategoryId = as_eModeCategoryId snap,
      si_healthFactorWad = as_healthFactorWad snap, si_totalCollateralBase = as_totalCollateralBase snap,
      si_totalDebtBase = as_totalDebtBase snap, si_liquidationThreshold = as_liquidationThreshold snap, si_reserves = as_reserves snap\<rparr>"

definition seedModelFromAccountSnapshot :: "model_config \<Rightarrow> account_snapshot \<Rightarrow> int \<Rightarrow> position_model \<Rightarrow> position_model" where
  "seedModelFromAccountSnapshot cfg snap blockNumber m =
     seedFromOnChainSnapshot cfg (seed_of_snapshot snap blockNumber)
       (fold (\<lambda>row. registerReserve (sr_asset row) BASE_LT_BPS) (as_reserves snap) m)"

definition outside_allowlist :: "address list option \<Rightarrow> account_snapshot \<Rightarrow> bool" where
  "outside_allowlist allow snap \<longleftrightarrow>
     (case allow of None \<Rightarrow> False | Some l \<Rightarrow> l \<noteq> [] \<and>
        \<not> reservesTouchAllowlist (map (\<lambda>r. \<lparr>aw_asset = sr_asset r, aw_scaledCollateral = sr_scaledCollateral r, aw_scaledDebt = sr_scaledDebt r\<rparr>) (as_reserves snap)) l)"

definition reconcileAndSeedPosition :: "'w purity_config \<Rightarrow> address \<Rightarrow> int \<Rightarrow> ('w, bool) purity_io" where
  "reconcileAndSeedPosition cfg account blockNumber =
     io_catch
       (io_bind (fetchOnChainAccountSnapshot cfg account) (\<lambda>snapshot.
          case snapshot of
            None \<Rightarrow> io_then (on_model (removePosition account)) (io_return False)
          | Some snap \<Rightarrow>
              if outside_allowlist (pc_reserveAllowlist cfg) snap
              then io_then (on_model (removePosition account)) (io_return False)
              else io_then (on_model (seedModelFromAccountSnapshot (pc_model cfg) snap blockNumber)) (io_return True)))
       (\<lambda>_. io_return False)"

section \<open>Tier changes and events\<close>

definition enqueue_change :: "'w purity_config \<Rightarrow> int \<Rightarrow> tier_change \<Rightarrow> ('w, unit) purity_io" where
  "enqueue_change cfg blockNumber c =
     (if \<not> tc_isFullySeeded c then io_return ()
      else if to_lower (tc_account c) = ZERO_ADDRESS then io_return ()
      else io_then
        (if tc_isNew c \<and> tc_tier c \<noteq> Healthy then io_modify (enqueueUrgent (tc_account c))
         else if tc_tier c = Urgent then io_modify (enqueueUrgent (tc_account c))
         else if tc_tier c = Watch then io_modify (enqueueWatch cfg (tc_account c))
         else io_return ())
        (io_modify (\<lambda>s. s\<lparr>ps_world := pc_sample cfg (tc_account c) blockNumber (ps_model s) (ps_world s)\<rparr>)))"

definition confirm_row :: "'w purity_config \<Rightarrow> int \<Rightarrow> confirm_result \<Rightarrow> ('w, unit) purity_io" where
  "confirm_row cfg blockNumber row =
     io_then (on_model (confirmOnChain (cr_address row) (cr_totalCollateralBase row) (cr_totalDebtBase row) (cr_liquidationThreshold row)
         (cr_healthFactor row) blockNumber (cr_eModeCategoryId row)))
       (io_bind (io_get (\<lambda>s. isFullySeeded (cr_address row) (ps_model s))) (\<lambda>seeded.
          if cr_healthFactor row < WAD \<and> seeded then ep_call (pc_onLiquidatable cfg row) else io_return ()))"

definition handleTierChanges :: "'w purity_config \<Rightarrow> tier_change list \<Rightarrow> int \<Rightarrow> ('w, unit) purity_io" where
  "handleTierChanges cfg changes blockNumber =
     io_bind (io_get (\<lambda>s. pm_pricesBootstrapped (ps_model s))) (\<lambda>bootstrapped.
       if \<not> bootstrapped then io_return ()
       else io_then (io_each (enqueue_change cfg blockNumber) changes)
         (io_bind (flushUrgent cfg) (io_each (confirm_row cfg blockNumber))))"

definition reconcileFirstTouch :: "'w purity_config \<Rightarrow> address \<Rightarrow> int \<Rightarrow> ('w, unit) purity_io" where
  "reconcileFirstTouch cfg account blockNumber =
     io_bind (reconcileAndSeedPosition cfg account blockNumber) (\<lambda>seeded.
       if \<not> seeded then io_return ()
       else io_bind (io_get (\<lambda>s. (tierChangeForAccount (pc_model cfg) account True (ps_model s), pm_pricesBootstrapped (ps_model s)))) (\<lambda>(change, bootstrapped).
         case change of
           Some c \<Rightarrow> if bootstrapped then handleTierChanges cfg [c] blockNumber else io_return ()
         | None \<Rightarrow> io_return ()))"

definition handleEvent :: "'w purity_config \<Rightarrow> ingestion_event \<Rightarrow> ('w, unit) purity_io" where
  "handleEvent cfg ev =
     (let blockNumber = im_blockNumber (event_meta ev)
      in io_then (if 0 < blockNumber then ep_effect (pc_onBlockObserved cfg blockNumber) else io_return ())
        (io_bind (ep_clock cfg) (\<lambda>nowMs.
          case ev of
            ChainlinkPriceEvent meta e \<Rightarrow>
              io_bind (model_result (applyPriceEvent (pc_model cfg) nowMs e)) (\<lambda>changes. handleTierChanges cfg changes blockNumber)
          | AavePoolEvent meta e \<Rightarrow>
              io_bind (model_result (applyAaveEvent (pc_model cfg) nowMs e)) (\<lambda>result.
                io_then (case ar_firstTouchReconcile result of None \<Rightarrow> io_return () | Some account \<Rightarrow> reconcileFirstTouch cfg account blockNumber)
                  (handleTierChanges cfg (ar_changes result) blockNumber)))))"

section \<open>Feeds, indices and aggregates\<close>

definition isChainlinkRoundFresh :: "address \<Rightarrow> int \<Rightarrow> int \<Rightarrow> bool" where
  "isChainlinkRoundFresh feed updatedAtSec nowSec \<longleftrightarrow> rat_of_int (nowSec - updatedAtSec) \<le> rat_of_int (feed_heartbeat feed) * (3 / 2)"

text \<open>A round counts if both reads succeeded and its answer is positive.\<close>

definition poll_feed ::
  "'w purity_config \<Rightarrow> int \<Rightarrow> (address \<times> address) \<times> (int \<times> int) option \<times> int option \<Rightarrow> ('w, tier_change list) purity_io" where
  "poll_feed cfg nowMs row =
     (case row of
        ((a, feed), Some (answer, updatedAt), Some decimals) \<Rightarrow>
          if answer \<le> 0 then io_return []
          else if \<not> isChainlinkRoundFresh feed updatedAt (nowMs div 1000) then io_return []
          else model_result (applyFeedPriceUpdate (pc_model cfg) nowMs a feed answer decimals updatedAt)
      | _ \<Rightarrow> io_return [])"

definition polled_feeds :: "'w purity_config \<Rightarrow> (address \<times> address) list" where
  "polled_feeds cfg = List.map_filter (\<lambda>(a, feed). map_option (Pair a) feed) (pc_feeds cfg)"

fun pad_to :: "nat \<Rightarrow> 'a \<Rightarrow> 'a list \<Rightarrow> 'a list" where
  "pad_to 0 d xs = []"
| "pad_to (Suc n) d [] = d # pad_to n d []"
| "pad_to (Suc n) d (x # xs) = x # pad_to n d xs"

definition pollLocalFeedFreshness :: "'w purity_config \<Rightarrow> ('w, tier_change list) purity_io" where
  "pollLocalFeedFreshness cfg =
     io_bind (io_get (\<lambda>s. pm_pricesBootstrapped (ps_model s))) (\<lambda>bootstrapped.
       if \<not> bootstrapped \<or> polled_feeds cfg = [] then io_return []
       else io_bind (ep_call (pc_multicallFeeds cfg (map snd (polled_feeds cfg)))) (\<lambda>results.
         io_bind (ep_clock cfg) (\<lambda>nowMs.
           io_bind (io_map (poll_feed cfg nowMs) (zip (polled_feeds cfg) (pad_to (length (polled_feeds cfg)) (None, None) results)))
             (\<lambda>changes. io_return (concat changes)))))"

definition refreshFeedFreshness :: "'w purity_config \<Rightarrow> int \<Rightarrow> ('w, unit) purity_io" where
  "refreshFeedFreshness cfg blockNumber =
     io_bind (io_get ps_pricesBootstrapped) (\<lambda>bootstrapped.
       if blockNumber = 0 \<or> \<not> bootstrapped then io_return ()
       else io_bind (pollLocalFeedFreshness cfg) (\<lambda>changes. handleTierChanges cfg changes blockNumber))"

definition refresh_reserve :: "'w purity_config \<Rightarrow> reserve_config \<Rightarrow> ('w, unit) purity_io" where
  "refresh_reserve cfg r =
     io_catch
       (io_bind (ep_call (pc_readReserveIndices cfg (rs_asset r))) (\<lambda>(liquidityIndex, variableBorrowIndex).
          on_model (\<lambda>m. m\<lparr>pm_reserveConfig := js_set (to_lower (rs_asset r))
            (r\<lparr>rs_liquidityIndex := liquidityIndex, rs_variableBorrowIndex := variableBorrowIndex, rs_indexUpdatedAtBlock := 0\<rparr>)
            (pm_reserveConfig m)\<rparr>)))
       (\<lambda>_. io_return ())"

definition refreshReserveIndices :: "'w purity_config \<Rightarrow> ('w, unit) purity_io" where
  "refreshReserveIndices cfg =
     io_bind (io_get (\<lambda>s. js_values (pm_reserveConfig (ps_model s)))) (io_each (refresh_reserve cfg))"

definition collectUrgentWatchAccounts :: "model_config \<Rightarrow> position_model \<Rightarrow> address list" where
  "collectUrgentWatchAccounts cfg m =
     map up_account (filter (\<lambda>p. up_isFullySeeded p \<and> classifyTier cfg (up_cachedHfWad p) \<in> {Urgent, Watch, Liquidatable})
       (js_values (pm_positions m)))"

definition confirm_aggregate :: "int \<Rightarrow> confirm_result \<Rightarrow> position_model \<Rightarrow> position_model" where
  "confirm_aggregate blockNumber row =
     confirmOnChain (cr_address row) (cr_totalCollateralBase row) (cr_totalDebtBase row) (cr_liquidationThreshold row)
       (cr_healthFactor row) blockNumber (cr_eModeCategoryId row)"

definition refresh_batch :: "'w purity_config \<Rightarrow> int \<Rightarrow> address list \<Rightarrow> ('w, unit) purity_io" where
  "refresh_batch cfg blockNumber batch =
     io_bind (confirm_one_batch cfg batch) (\<lambda>rows. on_model (fold (confirm_aggregate blockNumber) rows))"

definition refreshUrgentWatchAggregates :: "'w purity_config \<Rightarrow> int \<Rightarrow> ('w, unit) purity_io" where
  "refreshUrgentWatchAggregates cfg blockNumber =
     io_bind (io_get (\<lambda>s. (ps_aggregateRefreshInFlight s, collectUrgentWatchAccounts (pc_model cfg) (ps_model s)))) (\<lambda>(inFlight, accounts).
       if inFlight \<or> accounts = [] then io_return ()
       else io_then (io_modify (\<lambda>s. s\<lparr>ps_aggregateRefreshInFlight := True\<rparr>))
         (io_finally (io_each (refresh_batch cfg blockNumber) (batches 250 accounts))
           (\<lambda>s. s\<lparr>ps_aggregateRefreshInFlight := False\<rparr>)))"

definition model_tick :: "'w purity_config \<Rightarrow> ('w, bool) purity_io" where
  "model_tick cfg s = (case onFlashblockTick (pc_model cfg) (ps_model s) of (due, m) \<Rightarrow> (Inr due, s\<lparr>ps_model := m\<rparr>))"

definition handleFlashblockTick :: "'w purity_config \<Rightarrow> int \<Rightarrow> ('w, unit) purity_io" where
  "handleFlashblockTick cfg blockNumber =
     io_then (ep_effect (pc_onBlockObserved cfg blockNumber))
       (io_then (io_modify (\<lambda>s. s\<lparr>ps_flashblockTickCount := ps_flashblockTickCount s + 1\<rparr>))
         (io_then (io_bind (io_get ps_flashblockTickCount) (\<lambda>n.
             if n mod 1800 = 0 then io_catch (refreshUrgentWatchAggregates cfg blockNumber) (\<lambda>_. io_return ()) else io_return ()))
           (io_bind (model_tick cfg) (\<lambda>shouldRefresh.
             io_bind (io_get ps_indexRefreshInFlight) (\<lambda>inFlight.
               if \<not> shouldRefresh \<or> inFlight then io_return ()
               else io_then (io_modify (\<lambda>s. s\<lparr>ps_indexRefreshInFlight := True\<rparr>))
                 (io_finally (io_then (refreshReserveIndices cfg) (ep_call (saveLastProcessedBlock (pc_checkpoint cfg) blockNumber)))
                   (\<lambda>s. s\<lparr>ps_indexRefreshInFlight := False\<rparr>)))))))"

definition flushSurvivalState :: "'w purity_config \<Rightarrow> int \<Rightarrow> ('w, unit) purity_io" where
  "flushSurvivalState cfg blockNumber =
     (if 0 < blockNumber then ep_call (saveLastProcessedBlock (pc_checkpoint cfg) blockNumber) else io_return ())"

end
