(* ===== verification/Purity_Safety.thy ===== *)
theory Purity_Safety
  imports Event_Purity
begin

text \<open>
  What the event-purity stack keeps and what it misses: the model stays consistent through every handler,
  only accounts that are liquidatable on chain reach the callback, and the flags of running refreshes
  are always reset; but an account that a price makes liquidatable at once is never read, a failed
  read empties the queue, and a tick moves the checkpoint past events that have not arrived.
\<close>

section \<open>Frames\<close>

lemma io_keeps_ep_call [io_rules]: "(\<And>s w. P s \<Longrightarrow> P (s\<lparr>ps_world := w\<rparr>)) \<Longrightarrow> io_keeps P (ep_call m)"
  by (auto simp: io_keeps_def io_valid_def ep_call_def split: prod.splits sum.splits)

lemma io_keeps_ep_clock [io_rules]: "(\<And>s w. P s \<Longrightarrow> P (s\<lparr>ps_world := w\<rparr>)) \<Longrightarrow> io_keeps P (ep_clock cfg)"
  unfolding ep_clock_def by (rule io_keeps_ep_call)

lemma io_keeps_ep_effect [io_rules]: "(\<And>s w. P s \<Longrightarrow> P (s\<lparr>ps_world := w\<rparr>)) \<Longrightarrow> io_keeps P (ep_effect f)"
  unfolding ep_effect_def by (auto intro!: io_rules)

lemma io_keeps_model_result [io_rules]:
  "(\<And>s a m. P s \<Longrightarrow> f (ps_model s) = Some (a, m) \<Longrightarrow> P (s\<lparr>ps_model := m\<rparr>)) \<Longrightarrow> io_keeps P (model_result f)"
  by (auto simp: io_keeps_def io_valid_def model_result_def split: option.splits sum.splits)

lemma io_keeps_on_model [io_rules]: "(\<And>s. P s \<Longrightarrow> P (s\<lparr>ps_model := f (ps_model s)\<rparr>)) \<Longrightarrow> io_keeps P (on_model f)"
  unfolding on_model_def by (rule io_keeps_modify)

text \<open>A property of the model alone.\<close>

definition on_wf :: "'w purity_state \<Rightarrow> bool" where
  "on_wf s \<longleftrightarrow> model_wf (ps_model s)"

lemma on_wf_simps [simp]:
  "on_wf (s\<lparr>ps_world := w\<rparr>) = on_wf s" "on_wf (s\<lparr>ps_urgent := u\<rparr>) = on_wf s" "on_wf (s\<lparr>ps_watch := v\<rparr>) = on_wf s"
  "on_wf (s\<lparr>ps_indexRefreshInFlight := b\<rparr>) = on_wf s" "on_wf (s\<lparr>ps_aggregateRefreshInFlight := b\<rparr>) = on_wf s"
  "on_wf (s\<lparr>ps_flashblockTickCount := n\<rparr>) = on_wf s" "on_wf (s\<lparr>ps_model := m\<rparr>) = model_wf m"
  by (simp_all add: on_wf_def)

lemma enqueue_frame [simp]:
  "on_wf (enqueueUrgent a s) = on_wf s" "on_wf (enqueueWatch cfg a s) = on_wf s"
  "ps_model (enqueueUrgent a s) = ps_model s" "ps_model (enqueueWatch cfg a s) = ps_model s"
  by (simp_all add: on_wf_def enqueueUrgent_def enqueueWatch_def)

lemma confirmBatch_keeps [io_rules]: "(\<And>s w. P s \<Longrightarrow> P (s\<lparr>ps_world := w\<rparr>)) \<Longrightarrow> io_keeps P (confirmBatch cfg l)"
  by (auto simp: confirmBatch_def confirm_one_batch_def intro!: io_rules)

lemma confirm_aggregates_wf: "model_wf m \<Longrightarrow> model_wf (fold (confirm_aggregate b) rows m)"
  by (induction rows arbitrary: m) (auto simp: confirm_aggregate_def intro: confirmOnChain_wf)

lemma on_wfD: "on_wf s \<Longrightarrow> model_wf (ps_model s)"
  by (simp add: on_wf_def)

lemma enqueue_change_keeps_wf [io_rules]: "io_keeps on_wf (enqueue_change cfg b c)"
  unfolding enqueue_change_def by (intro io_rules) simp_all

lemma confirm_row_keeps_wf [io_rules]: "io_keeps on_wf (confirm_row cfg b row)"
  unfolding confirm_row_def by (intro io_rules) (simp_all add: confirmOnChain_wf on_wfD)

lemma flushUrgent_keeps_wf [io_rules]: "io_keeps on_wf (flushUrgent cfg)"
  unfolding flushUrgent_def by (intro io_rules) simp_all

lemma handleTierChanges_keeps_wf [io_rules]: "io_keeps on_wf (handleTierChanges cfg changes b)"
  unfolding handleTierChanges_def by (intro io_rules)

lemma removePosition_wf: "model_wf m \<Longrightarrow> model_wf (removePosition account m)"
  unfolding removePosition_def by (rule shrinks_wf [OF _ drop_shrinks])

lemma register_all_wf: "model_wf m \<Longrightarrow> model_wf (fold (\<lambda>row. registerReserve (sr_asset row) BASE_LT_BPS) rows m)"
  by (induction rows arbitrary: m) (auto intro: registerReserve_wf)

lemma seedModel_wf: "model_wf m \<Longrightarrow> model_wf (seedModelFromAccountSnapshot cfg snap b m)"
  unfolding seedModelFromAccountSnapshot_def by (intro seedFromOnChainSnapshot_wf register_all_wf)

lemma fetchSnapshot_keeps [io_rules]: "(\<And>s w. P s \<Longrightarrow> P (s\<lparr>ps_world := w\<rparr>)) \<Longrightarrow> io_keeps P (fetchOnChainAccountSnapshot cfg account)"
  unfolding fetchOnChainAccountSnapshot_def by (intro io_rules)

lemma reconcile_keeps_wf [io_rules]: "io_keeps on_wf (reconcileAndSeedPosition cfg account b)"
  unfolding reconcileAndSeedPosition_def
  by (intro io_rules) (simp_all add: removePosition_wf seedModel_wf on_wfD)

lemma firstTouch_keeps_wf [io_rules]: "io_keeps on_wf (reconcileFirstTouch cfg account b)"
  unfolding reconcileFirstTouch_def by (intro io_rules)

text \<open>Events of the pool have amounts that are not negative.\<close>

definition ingestion_ok :: "ingestion_event \<Rightarrow> bool" where
  "ingestion_ok ev \<longleftrightarrow> (case ev of AavePoolEvent meta e \<Rightarrow> event_ok e | ChainlinkPriceEvent meta e \<Rightarrow> True)"

lemma handleEvent_keeps_wf:
  assumes "ingestion_ok ev"
  shows "io_keeps on_wf (handleEvent cfg ev)"
proof (cases ev)
  case (AavePoolEvent meta e)
  then have "event_ok e" using assms by (simp add: ingestion_ok_def)
  then show ?thesis
    unfolding AavePoolEvent handleEvent_def Let_def ingestion_event.case
    by (intro io_rules) (auto dest: on_wfD intro: applyAaveEvent_wf)
next
  case (ChainlinkPriceEvent meta e)
  show ?thesis
    unfolding ChainlinkPriceEvent handleEvent_def Let_def ingestion_event.case
    by (intro io_rules) (auto dest: on_wfD intro: hf_only_wf applyPriceEvent_hf_only)
qed

lemma poll_keeps_wf [io_rules]: "io_keeps on_wf (pollLocalFeedFreshness cfg)"
proof -
  have "io_keeps on_wf (poll_feed cfg nowMs row)" for nowMs row
    unfolding poll_feed_def by (intro io_rules) (auto dest: on_wfD intro: hf_only_wf applyFeedPriceUpdate_hf_only)
  then show ?thesis unfolding pollLocalFeedFreshness_def by (intro io_rules) simp_all
qed

lemma refreshFeed_keeps_wf [io_rules]: "io_keeps on_wf (refreshFeedFreshness cfg b)"
  unfolding refreshFeedFreshness_def by (intro io_rules)

lemma reserve_values_wf:
  assumes "model_wf m"
  shows "model_wf (m\<lparr>pm_reserveConfig := js_set k r (pm_reserveConfig m)\<rparr>)"
proof -
  have "entry_ok (js_set k r (pm_reserveConfig m)) k' p" if "(k', p) \<in> set (pm_positions m)" for k' p
    by (rule entry_ok_mono [of "pm_reserveConfig m"]) (use assms that in \<open>auto simp: model_wf_def js_keys_set\<close>)
  with assms show ?thesis by (simp add: model_wf_def case_prod_unfold)
qed

lemma refreshIndices_keeps_wf [io_rules]: "io_keeps on_wf (refreshReserveIndices cfg)"
  unfolding refreshReserveIndices_def refresh_reserve_def
  by (intro io_rules) (simp_all add: reserve_values_wf on_wfD)

lemma aggregates_keeps_wf [io_rules]: "io_keeps on_wf (refreshUrgentWatchAggregates cfg b)"
  unfolding refreshUrgentWatchAggregates_def refresh_batch_def confirm_one_batch_def
  by (intro io_rules) (simp_all add: confirm_aggregates_wf on_wfD)

lemma tick_keeps_wf: "io_keeps on_wf (handleFlashblockTick cfg b)"
proof -
  have "io_keeps on_wf (model_tick cfg)"
    by (auto simp: io_keeps_def io_valid_def model_tick_def onFlashblockTick_def Let_def dest!: on_wfD intro: model_wf_same)
  then show ?thesis unfolding handleFlashblockTick_def by (intro io_rules) simp_all
qed

section \<open>Tier changes of a price\<close>

definition old_accounts :: "tier_change list \<Rightarrow> bool" where
  "old_accounts cs \<longleftrightarrow> (\<forall>c \<in> set cs. \<not> tc_isNew c)"

lemma tier_loop_old:
  "tier_loop next cfg nowMs nowSec a keys changes m = Some (cs, m') \<Longrightarrow> old_accounts changes \<Longrightarrow> old_accounts cs"
proof (induction keys arbitrary: changes m)
  case (Cons key keys)
  show ?case
  proof (cases "\<exists>p. js_get (pm_positions m) key = Some p \<and> up_isFullySeeded p \<and> positionTouchesAsset p a")
    case False
    then have "tier_loop next cfg nowMs nowSec a (key # keys) changes m = tier_loop next cfg nowMs nowSec a keys changes m"
      by (auto split: option.splits)
    with Cons show ?thesis by simp
  next
    case True
    then obtain p where p: "js_get (pm_positions m) key = Some p" "up_isFullySeeded p" "positionTouchesAsset p a" by blast
    with Cons.prems(1) obtain r m1 where r: "next p m = Some (r, m1)" by (auto split: option.splits)
    obtain c m2 where c: "commitHfFromRecompute key r m1 = (c, m2)" by fastforce
    define changes' where "changes' = (case (c, js_get (pm_positions m2) key) of
      (Some _, Some p') \<Rightarrow> changes @ [toTierChange cfg p' False] | _ \<Rightarrow> changes)"
    have "old_accounts changes'"
      using Cons.prems(2) by (simp add: changes'_def old_accounts_def toTierChange_def split: option.splits)
    moreover have "tier_loop next cfg nowMs nowSec a keys changes' (report_gap cfg nowMs nowSec (up_account p) r m2) = Some (cs, m')"
      using Cons.prems(1) p r c by (simp add: changes'_def Let_def)
    ultimately show ?thesis using Cons.IH by blast
  qed
qed simp

lemma recompute_tier_old: "recompute_tier n cfg nowMs nowSec a m = Some (cs, m') \<Longrightarrow> old_accounts cs"
  by (cases n) (auto simp: old_accounts_def dest!: tier_loop_old)

lemma sync_loop_old:
  assumes "\<And>a m cs m'. next a m = Some (cs, m') \<Longrightarrow> old_accounts cs"
    and "sync_loop next nowSec pegs changes m = Some (cs, m')" and "old_accounts changes"
  shows "old_accounts cs"
  using assms(2,3)
proof (induction pegs arbitrary: changes m)
  case (Cons peg pegs)
  have "old_accounts (changes @ nested)" if "old_accounts nested" for nested
    using that Cons.prems(2) by (auto simp: old_accounts_def)
  with Cons assms(1) show ?case by (auto split: option.splits if_splits)
qed simp

lemma merge_changes_old: "old_accounts merged \<Longrightarrow> old_accounts cs \<Longrightarrow> old_accounts (merge_changes seen merged cs)"
  using merge_changes_sound [of seen merged cs] by (auto simp: old_accounts_def)

lemma price_changes_old:
  assumes "applyPriceEvent cfg nowMs e m = Some (cs, m')"
  shows "old_accounts cs"
proof -
  have "old_accounts pegChanges" if "syncDerivedPegPrices cfg nowMs nowSec x n = Some (pegChanges, n')" for nowSec x n pegChanges n'
    using that sync_loop_old [OF recompute_tier_old]
    by (auto simp: syncDerivedPegPrices_def syncDerivedPegPrices_with_def recomputeTierChangesForAsset_def old_accounts_def Let_def)
  moreover have "old_accounts cs" if "recomputeTierChangesForAsset cfg nowMs nowSec a n = Some (cs, n')" for nowSec a n cs n'
    using that recompute_tier_old by (auto simp: recomputeTierChangesForAsset_def)
  ultimately show ?thesis using assms
    by (auto simp: applyPriceEvent_def applyFeedPriceUpdate_def Let_def old_accounts_def [of "[]"] split: if_splits option.splits)
       (blast intro: merge_changes_old)+
qed

text \<open>Changes that fill nothing but the watch queue.\<close>

lemma enqueue_no_urgent:
  assumes "\<not> tc_isNew c" and "tc_tier c \<noteq> Urgent"
  shows "\<exists>w q. enqueue_change cfg b c s = (Inr (), s\<lparr>ps_world := w, ps_watch := q\<rparr>)"
proof -
  let ?q = "if tc_tier c = Watch then ps_watch (enqueueWatch cfg (tc_account c) s) else ps_watch s"
  let ?w = "pc_sample cfg (tc_account c) b (ps_model s) (ps_world s)"
  show ?thesis
  proof (cases "\<not> tc_isFullySeeded c \<or> to_lower (tc_account c) = ZERO_ADDRESS")
    case True
    then have "enqueue_change cfg b c s = (Inr (), s\<lparr>ps_world := ps_world s, ps_watch := ps_watch s\<rparr>)"
      by (auto simp: enqueue_change_def io_return_def)
    then show ?thesis by blast
  next
    case False
    with assms have "enqueue_change cfg b c s = (Inr (), s\<lparr>ps_world := ?w, ps_watch := ?q\<rparr>)"
      by (simp add: enqueue_change_def io_return_def io_then_def io_bind_def io_modify_def enqueueWatch_def)
    then show ?thesis by blast
  qed
qed

lemma enqueue_all_no_urgent:
  assumes "\<forall>c \<in> set cs. \<not> tc_isNew c \<and> tc_tier c \<noteq> Urgent"
  shows "\<exists>w q. io_each (enqueue_change cfg b) cs s = (Inr (), s\<lparr>ps_world := w, ps_watch := q\<rparr>)"
  using assms
proof (induction cs arbitrary: s)
  case Nil
  show ?case by (intro exI [of _ "ps_world s"] exI [of _ "ps_watch s"]) (simp add: io_return_def)
next
  case (Cons c cs)
  then obtain w q where "enqueue_change cfg b c s = (Inr (), s\<lparr>ps_world := w, ps_watch := q\<rparr>)" using enqueue_no_urgent [of c cfg b s] by auto
  moreover obtain w' q' where "io_each (enqueue_change cfg b) cs (s\<lparr>ps_world := w, ps_watch := q\<rparr>)
      = (Inr (), s\<lparr>ps_world := w, ps_watch := q\<rparr>\<lparr>ps_world := w', ps_watch := q'\<rparr>)"
    using Cons by (metis list.set_intros(2))
  ultimately show ?case by (auto simp: io_then_run)
qed

lemma handle_no_urgent:
  assumes "\<forall>c \<in> set cs. \<not> tc_isNew c \<and> tc_tier c \<noteq> Urgent" and "ps_urgent s = []"
  shows "\<exists>w q. \<forall>accounts emodes callback.
    handleTierChanges (cfg\<lparr>pc_multicallAccounts := accounts, pc_multicallEmode := emodes, pc_onLiquidatable := callback\<rparr>) cs b s
      = (Inr (), s\<lparr>ps_world := w, ps_watch := q\<rparr>)"
proof (cases "pm_pricesBootstrapped (ps_model s)")
  case False
  then have "handleTierChanges c cs b s = (Inr (), s\<lparr>ps_world := ps_world s, ps_watch := ps_watch s\<rparr>)" for c :: "'a purity_config"
    by (simp add: handleTierChanges_def io_bind_def io_get_def io_return_def)
  then show ?thesis by blast
next
  case True
  have same: "enqueue_change (cfg\<lparr>pc_multicallAccounts := accounts, pc_multicallEmode := emodes, pc_onLiquidatable := callback\<rparr>) b = enqueue_change cfg b"
    for accounts emodes callback
  proof -
    have "enqueueWatch (cfg\<lparr>pc_multicallAccounts := accounts, pc_multicallEmode := emodes, pc_onLiquidatable := callback\<rparr>) = enqueueWatch cfg"
      by (intro ext) (simp add: enqueueWatch_def)
    then show ?thesis by (intro ext) (simp add: enqueue_change_def)
  qed
  obtain w q where "io_each (enqueue_change cfg b) cs s = (Inr (), s\<lparr>ps_world := w, ps_watch := q\<rparr>)"
    using enqueue_all_no_urgent [OF assms(1), of cfg b s] by (elim exE)
  with True assms(2) have "handleTierChanges (cfg\<lparr>pc_multicallAccounts := accounts, pc_multicallEmode := emodes, pc_onLiquidatable := callback\<rparr>) cs b s
      = (Inr (), s\<lparr>ps_world := w, ps_watch := q\<rparr>)" for accounts emodes callback
    by (simp add: handleTierChanges_def same io_bind_def io_then_def io_get_def flushUrgent_def io_return_def)
  then show ?thesis by blast
qed

section \<open>Who reaches the callback\<close>

text \<open>Two callbacks that agree on the accounts below one.\<close>

definition same_below_one :: "(confirm_result \<Rightarrow> ('w, unit) io) \<Rightarrow> (confirm_result \<Rightarrow> ('w, unit) io) \<Rightarrow> bool" where
  "same_below_one f g \<longleftrightarrow> (\<forall>row. cr_healthFactor row < WAD \<longrightarrow> f row = g row)"

lemma callback_irrelevant [simp]:
  "enqueueWatch (cfg\<lparr>pc_onLiquidatable := f\<rparr>) = enqueueWatch cfg" "enqueue_change (cfg\<lparr>pc_onLiquidatable := f\<rparr>) = enqueue_change cfg"
  "flushUrgent (cfg\<lparr>pc_onLiquidatable := f\<rparr>) = flushUrgent cfg" "ep_clock (cfg\<lparr>pc_onLiquidatable := f\<rparr>) = ep_clock cfg"
  "reconcileAndSeedPosition (cfg\<lparr>pc_onLiquidatable := f\<rparr>) = reconcileAndSeedPosition cfg"
proof -
  show one: "enqueueWatch (cfg\<lparr>pc_onLiquidatable := f\<rparr>) = enqueueWatch cfg" by (intro ext) (simp add: enqueueWatch_def)
  show "enqueue_change (cfg\<lparr>pc_onLiquidatable := f\<rparr>) = enqueue_change cfg" by (intro ext) (simp add: enqueue_change_def one)
  have "confirm_one_batch (cfg\<lparr>pc_onLiquidatable := f\<rparr>) = confirm_one_batch cfg" by (intro ext) (simp add: confirm_one_batch_def)
  then have "confirmBatch (cfg\<lparr>pc_onLiquidatable := f\<rparr>) = confirmBatch cfg" by (intro ext) (simp add: confirmBatch_def)
  then show "flushUrgent (cfg\<lparr>pc_onLiquidatable := f\<rparr>) = flushUrgent cfg" by (simp add: flushUrgent_def cong: if_cong)
  show "ep_clock (cfg\<lparr>pc_onLiquidatable := f\<rparr>) = ep_clock cfg" by (simp add: ep_clock_def)
  have "fetchOnChainAccountSnapshot (cfg\<lparr>pc_onLiquidatable := f\<rparr>) = fetchOnChainAccountSnapshot cfg"
    by (intro ext) (simp add: fetchOnChainAccountSnapshot_def)
  then show "reconcileAndSeedPosition (cfg\<lparr>pc_onLiquidatable := f\<rparr>) = reconcileAndSeedPosition cfg"
    by (intro ext) (simp add: reconcileAndSeedPosition_def cong: if_cong option.case_cong)
qed

lemma confirm_row_same:
  assumes "same_below_one f g"
  shows "confirm_row (cfg\<lparr>pc_onLiquidatable := f\<rparr>) b = confirm_row (cfg\<lparr>pc_onLiquidatable := g\<rparr>) b"
proof (rule ext)
  fix row
  show "confirm_row (cfg\<lparr>pc_onLiquidatable := f\<rparr>) b row = confirm_row (cfg\<lparr>pc_onLiquidatable := g\<rparr>) b row"
    using assms by (cases "cr_healthFactor row < WAD") (simp_all add: confirm_row_def same_below_one_def cong: if_cong)
qed

lemma handleTierChanges_same:
  assumes "same_below_one f g"
  shows "handleTierChanges (cfg\<lparr>pc_onLiquidatable := f\<rparr>) = handleTierChanges (cfg\<lparr>pc_onLiquidatable := g\<rparr>)"
  by (intro ext) (simp add: handleTierChanges_def confirm_row_same [OF assms] cong: if_cong)

lemma firstTouch_same:
  assumes "same_below_one f g"
  shows "reconcileFirstTouch (cfg\<lparr>pc_onLiquidatable := f\<rparr>) = reconcileFirstTouch (cfg\<lparr>pc_onLiquidatable := g\<rparr>)"
  by (intro ext) (simp add: reconcileFirstTouch_def handleTierChanges_same [OF assms] cong: if_cong option.case_cong)

lemma handleEvent_same:
  assumes "same_below_one f g"
  shows "handleEvent (cfg\<lparr>pc_onLiquidatable := f\<rparr>) = handleEvent (cfg\<lparr>pc_onLiquidatable := g\<rparr>)"
  by (intro ext) (simp add: handleEvent_def handleTierChanges_same [OF assms] firstTouch_same [OF assms] Let_def
      cong: if_cong option.case_cong ingestion_event.case_cong)

section \<open>Flags\<close>

text \<open>A property of the flags alone: every other part of the state may change.\<close>

definition flag_property :: "('w purity_state \<Rightarrow> bool) \<Rightarrow> bool" where
  "flag_property P \<longleftrightarrow> (\<forall>s w m u v n. P s \<longrightarrow>
     P (s\<lparr>ps_world := w\<rparr>) \<and> P (s\<lparr>ps_model := m\<rparr>) \<and> P (s\<lparr>ps_urgent := u\<rparr>) \<and> P (s\<lparr>ps_watch := v\<rparr>) \<and> P (s\<lparr>ps_flashblockTickCount := n\<rparr>))"

lemma flag_propertyD:
  assumes "flag_property P" "P s"
  shows "P (s\<lparr>ps_world := w\<rparr>)" "P (s\<lparr>ps_model := m\<rparr>)" "P (s\<lparr>ps_urgent := u\<rparr>)" "P (s\<lparr>ps_watch := v\<rparr>)" "P (s\<lparr>ps_flashblockTickCount := n\<rparr>)"
  using assms unfolding flag_property_def by blast+

lemma flags_of_stack:
  fixes P :: "'w purity_state \<Rightarrow> bool"
  assumes "flag_property P"
  shows "io_keeps P (handleTierChanges cfg cs b)" "io_keeps P (handleEvent cfg ev)" "io_keeps P (refreshFeedFreshness cfg b)"
    "io_keeps P (refreshReserveIndices cfg)" "io_keeps P (refresh_batch cfg b l)" "io_keeps P (model_tick cfg)" "io_keeps P (flushSurvivalState cfg b)"
proof -
  note D = flag_propertyD [OF assms]
  have enqueue: "io_keeps P (enqueue_change cfg b c)" for b c
    unfolding enqueue_change_def enqueueUrgent_def enqueueWatch_def by (intro io_rules) (auto intro: D)
  have row: "io_keeps P (confirm_row cfg b r)" for b r unfolding confirm_row_def by (intro io_rules) (auto intro: D)
  have flush: "io_keeps P (flushUrgent cfg)" unfolding flushUrgent_def by (intro io_rules) (auto intro: D)
  show changes: "io_keeps P (handleTierChanges cfg cs b)" for cs b
    unfolding handleTierChanges_def by (intro io_rules enqueue row flush)
  have reconcile: "io_keeps P (reconcileAndSeedPosition cfg a b)" for a b
    unfolding reconcileAndSeedPosition_def by (intro io_rules) (auto intro: D)
  have first: "io_keeps P (reconcileFirstTouch cfg a b)" for a b
    unfolding reconcileFirstTouch_def by (intro io_rules reconcile changes)
  show "io_keeps P (handleEvent cfg ev)"
  proof (cases ev)
    case (AavePoolEvent meta e)
    show ?thesis
      unfolding AavePoolEvent handleEvent_def Let_def ingestion_event.case by (intro io_rules first changes) (auto intro: D)
  next
    case (ChainlinkPriceEvent meta e)
    show ?thesis
      unfolding ChainlinkPriceEvent handleEvent_def Let_def ingestion_event.case by (intro io_rules changes) (auto intro: D)
  qed
  have feed: "io_keeps P (poll_feed cfg nowMs row)" for nowMs row unfolding poll_feed_def by (intro io_rules) (auto intro: D)
  show "io_keeps P (refreshFeedFreshness cfg b)"
    unfolding refreshFeedFreshness_def pollLocalFeedFreshness_def by (intro io_rules feed changes) (auto intro: D)
  show "io_keeps P (refreshReserveIndices cfg)"
    unfolding refreshReserveIndices_def refresh_reserve_def by (intro io_rules) (auto intro: D)
  show "io_keeps P (refresh_batch cfg b l)"
    unfolding refresh_batch_def confirm_one_batch_def by (intro io_rules) (auto intro: D)
  show "io_keeps P (model_tick cfg)"
    by (auto simp: io_keeps_def io_valid_def model_tick_def intro: D split: prod.split)
  show "io_keeps P (flushSurvivalState cfg b)"
    unfolding flushSurvivalState_def by (intro io_rules) (auto intro: D)
qed

definition idle_index :: "'w purity_state \<Rightarrow> bool" where
  "idle_index s \<longleftrightarrow> \<not> ps_indexRefreshInFlight s"

definition idle_aggregate :: "'w purity_state \<Rightarrow> bool" where
  "idle_aggregate s \<longleftrightarrow> \<not> ps_aggregateRefreshInFlight s"

lemma idle_properties: "flag_property idle_index" "flag_property idle_aggregate"
  by (simp_all add: flag_property_def idle_index_def idle_aggregate_def)

lemma index_section_idle:
  "io_keeps idle_index (io_then (io_modify (\<lambda>s. s\<lparr>ps_indexRefreshInFlight := True\<rparr>)) (io_finally m (\<lambda>s. s\<lparr>ps_indexRefreshInFlight := False\<rparr>)))"
  by (auto simp: io_keeps_def io_valid_def io_then_def io_bind_def io_modify_def io_finally_def idle_index_def split: prod.splits sum.splits)

lemma aggregate_section_idle:
  "io_keeps idle_aggregate (io_then (io_modify (\<lambda>s. s\<lparr>ps_aggregateRefreshInFlight := True\<rparr>)) (io_finally m (\<lambda>s. s\<lparr>ps_aggregateRefreshInFlight := False\<rparr>)))"
  by (auto simp: io_keeps_def io_valid_def io_then_def io_bind_def io_modify_def io_finally_def idle_aggregate_def split: prod.splits sum.splits)

lemma aggregates_idle: "io_keeps idle_aggregate (refreshUrgentWatchAggregates cfg b)" "io_keeps idle_index (refreshUrgentWatchAggregates cfg b)"
proof -
  show "io_keeps idle_aggregate (refreshUrgentWatchAggregates cfg b)"
    unfolding refreshUrgentWatchAggregates_def
    by (rule io_keeps_bind, rule io_keeps_get, rule io_keeps_prod, rule io_keeps_if, rule io_keeps_return, rule aggregate_section_idle)
  show "io_keeps idle_index (refreshUrgentWatchAggregates cfg b)"
    unfolding refreshUrgentWatchAggregates_def
    by (intro io_rules flags_of_stack(5) [OF idle_properties(1)]) (simp_all add: idle_index_def)
qed

lemma tick_idle: "io_keeps idle_aggregate (handleFlashblockTick cfg b)" "io_keeps idle_index (handleFlashblockTick cfg b)"
proof -
  show "io_keeps idle_aggregate (handleFlashblockTick cfg b)"
    unfolding handleFlashblockTick_def
    by (intro io_rules aggregates_idle flags_of_stack [OF idle_properties(2)]) (simp_all add: idle_aggregate_def)
  show "io_keeps idle_index (handleFlashblockTick cfg b)"
    unfolding handleFlashblockTick_def
    by (rule index_section_idle aggregates_idle(2) flags_of_stack(6) [OF idle_properties(1)] io_keeps_ep_effect io_keeps_modify io_keeps_get
        io_keeps_return io_keeps_catch io_keeps_then io_keeps_bind io_keeps_if | simp add: idle_index_def)+
qed

section \<open>Histories of the stack\<close>

datatype purity_step = OnIngestion ingestion_event | OnTick int | OnFeedPoll int | OnAggregates int | OnSurvival int

fun purity_do :: "'w purity_config \<Rightarrow> purity_step \<Rightarrow> ('w, unit) purity_io" where
  "purity_do cfg (OnIngestion ev) = handleEvent cfg ev"
| "purity_do cfg (OnTick b) = handleFlashblockTick cfg b"
| "purity_do cfg (OnFeedPoll b) = refreshFeedFreshness cfg b"
| "purity_do cfg (OnAggregates b) = refreshUrgentWatchAggregates cfg b"
| "purity_do cfg (OnSurvival b) = flushSurvivalState cfg b"

definition purity_history :: "'w purity_config \<Rightarrow> purity_step list \<Rightarrow> 'w purity_state \<Rightarrow> 'w purity_state" where
  "purity_history cfg steps s = fold (\<lambda>step t. snd (purity_do cfg step t)) steps s"

definition step_ok :: "purity_step \<Rightarrow> bool" where
  "step_ok step \<longleftrightarrow> (case step of OnIngestion ev \<Rightarrow> ingestion_ok ev | _ \<Rightarrow> True)"

lemma survival_keeps_wf: "io_keeps on_wf (flushSurvivalState cfg b)"
  unfolding flushSurvivalState_def by (intro io_rules) simp_all

lemma purity_do_wf: "step_ok step \<Longrightarrow> io_keeps on_wf (purity_do cfg step)"
  by (cases step) (simp_all add: step_ok_def handleEvent_keeps_wf tick_keeps_wf refreshFeed_keeps_wf aggregates_keeps_wf survival_keeps_wf)

lemma purity_do_idle: "io_keeps idle_index (purity_do cfg step)" "io_keeps idle_aggregate (purity_do cfg step)"
  by (cases step; simp add: flags_of_stack idle_properties tick_idle aggregates_idle)+

lemma purity_history_keeps:
  assumes "\<And>step. step \<in> set steps \<Longrightarrow> io_keeps P (purity_do cfg step)" and "P s"
  shows "P (purity_history cfg steps s)"
  using assms unfolding purity_history_def
  by (induction steps arbitrary: s) (auto intro: io_keepsD)

lemma model_wf_prices [simp]: "model_wf (m\<lparr>pm_prices := x\<rparr>) = model_wf m"
  by (simp add: model_wf_def)

lemma purity_new_wf: "on_wf (purity_new cfg nowMs w)"
proof -
  have "model_wf (fold (\<lambda>(a, feed) m. case feed of None \<Rightarrow> m | Some f \<Rightarrow> registerPriceFeed f a 1 m) feeds m)" if "model_wf m" for feeds m
    using that by (induction feeds arbitrary: m) (auto simp: registerPriceFeed_def split: option.split)
  then show ?thesis by (simp add: on_wf_def purity_new_def new_model_def model_wf_def)
qed

section \<open>Seeding\<close>

text \<open>The last positive amount that the rows name for an asset.\<close>

definition chain_amount :: "(seed_row \<Rightarrow> int) \<Rightarrow> seed_row list \<Rightarrow> int option \<Rightarrow> address \<Rightarrow> int option" where
  "chain_amount f rows start k = fold (\<lambda>r acc. if to_lower (sr_asset r) = k \<and> 0 < f r then Some (f r) else acc) rows start"

lemma seed_rows_amounts:
  "fold seed_row_into rows (p, m) = (p', m') \<Longrightarrow>
   js_get (up_debt p') k = chain_amount sr_scaledDebt rows (js_get (up_debt p) k) k \<and>
   js_get (up_collateral p') k = chain_amount sr_scaledCollateral rows (js_get (up_collateral p) k) k"
proof (induction rows arbitrary: p m)
  case (Cons row rows)
  obtain p1 m1 where step: "seed_row_into row (p, m) = (p1, m1)" by fastforce
  have "js_get (pm_reserveConfig (registerReserve (sr_asset row) BASE_LT_BPS m)) (to_lower (sr_asset row)) \<noteq> None"
    by (simp add: registerReserve_def js_has_iff)
  with step have "js_get (up_debt p1) k = (if to_lower (sr_asset row) = k \<and> 0 < sr_scaledDebt row then Some (sr_scaledDebt row) else js_get (up_debt p) k)"
    "js_get (up_collateral p1) k = (if to_lower (sr_asset row) = k \<and> 0 < sr_scaledCollateral row then Some (sr_scaledCollateral row) else js_get (up_collateral p) k)"
    by (auto simp: seed_row_into_def Let_def split: option.splits if_splits)
  with Cons.IH [of p1 m1] Cons.prems step show ?case by (simp add: chain_amount_def)
qed (simp add: chain_amount_def)

lemma shrinks_get:
  assumes "model_wf m" "shrinks m m'" "js_get (pm_positions m') k = Some p"
  shows "js_get (pm_positions m) k = Some p"
proof -
  have "js_wf (pm_positions m)" using assms(1) by (simp add: model_wf_def)
  moreover have "(k, p) \<in> set (pm_positions m)" using assms(2) js_get_SomeD [OF assms(3)] by (auto simp: shrinks_def)
  ultimately show ?thesis by (simp add: js_get_iff)
qed

lemma seeded_position:
  assumes "model_wf m" and "js_get (pm_positions (seedFromOnChainSnapshot cfg input m)) (to_lower (si_account input)) = Some p"
  shows "js_get (up_debt p) k = chain_amount sr_scaledDebt (si_reserves input) None k \<and>
    js_get (up_collateral p) k = chain_amount sr_scaledCollateral (si_reserves input) None k \<and> up_isFullySeeded p"
proof -
  obtain p0 m1 where p0: "getOrCreate (si_account input) (si_blockNumber input) m = (p0, m1)" by fastforce
  note ok = getOrCreate_ok [OF assms(1) p0]
  let ?cleared = "p0\<lparr>up_collateral := [], up_debt := [], up_collateralIndexAtUpdate := [], up_debtIndexAtUpdate := []\<rparr>"
  obtain p2 m2 where rows: "fold seed_row_into (si_reserves input) (?cleared, m1) = (p2, m2)" by fastforce
  have "entry_ok (pm_reserveConfig m1) (to_lower (si_account input)) ?cleared"
    using ok(2) by (simp add: entry_ok_def pos_wf_def js_keys_def)
  note two = seed_rows_ok [OF ok(1) this rows]
  obtain p3 where p3: "seedFromOnChainSnapshot cfg input m = enforceHardCap cfg (si_blockNumber input) (put_position (to_lower (si_account input)) p3 m2)"
    and fields: "up_debt p3 = up_debt p2" "up_collateral p3 = up_collateral p2" "up_isFullySeeded p3" "entry_ok (pm_reserveConfig m2) (to_lower (si_account input)) p3"
    using two unfolding seedFromOnChainSnapshot_def p0 Let_def prod.case rows
    by (auto simp: entry_ok_def pos_wf_def)
  have "js_get (pm_positions (put_position (to_lower (si_account input)) p3 m2)) (to_lower (si_account input)) = Some p"
    using assms(2) two fields(4) unfolding p3
    by (intro shrinks_get [OF model_wf_put enforceHardCap_shrinks]) auto
  then have "p = p3" by (simp add: put_position_def)
  with fields seed_rows_amounts [OF rows] show ?thesis by simp
qed

section \<open>Properties\<close>

text \<open>C28. The stack keeps the model consistent and its flags down: after every history of events with amounts
  that are not negative, ticks, polls and refreshes, whatever the services answer and whichever
  handlers throw, the maps of the model agree and no refresh is marked as running.\<close>

theorem stack_stays_consistent:
  assumes "list_all step_ok steps"
  shows "model_wf (ps_model (purity_history cfg steps (purity_new cfg nowMs w))) \<and>
    \<not> ps_indexRefreshInFlight (purity_history cfg steps (purity_new cfg nowMs w)) \<and>
    \<not> ps_aggregateRefreshInFlight (purity_history cfg steps (purity_new cfg nowMs w))"
proof -
  let ?s = "purity_new cfg nowMs w"
  have "on_wf (purity_history cfg steps ?s)"
    by (rule purity_history_keeps [where P = on_wf]) (use assms purity_do_wf purity_new_wf in \<open>auto simp: list_all_iff\<close>)
  moreover have "idle_index (purity_history cfg steps ?s)"
    by (rule purity_history_keeps [where P = idle_index]) (simp_all add: purity_do_idle idle_index_def purity_new_def)
  moreover have "idle_aggregate (purity_history cfg steps ?s)"
    by (rule purity_history_keeps [where P = idle_aggregate]) (simp_all add: purity_do_idle idle_aggregate_def purity_new_def)
  ultimately show ?thesis by (simp add: on_wf_def idle_index_def idle_aggregate_def)
qed

text \<open>C29. Only accounts that the chain shows below one reach the callback: two callbacks that agree on those
  give the same handler for every event, so what a callback does with any other account is irrelevant.\<close>

theorem only_below_one_reported:
  assumes "\<And>row. cr_healthFactor row < WAD \<Longrightarrow> f row = g row"
  shows "handleEvent (cfg\<lparr>pc_onLiquidatable := f\<rparr>) ev s = handleEvent (cfg\<lparr>pc_onLiquidatable := g\<rparr>) ev s"
  using handleEvent_same [of f g cfg] assms by (simp add: same_below_one_def)


text \<open>The queue is emptied before its accounts are read and nothing fills it again: after the tier changes
  were handled, also if a read or a callback threw, no account waits for another attempt.\<close>

theorem no_account_waits_for_retry:
  assumes "pm_pricesBootstrapped (ps_model s)"
  shows "ps_urgent (snd (handleTierChanges cfg cs b s)) = []"
proof -
  have enqueue: "\<exists>u. io_each (enqueue_change cfg b) cs s = (Inr (), u)" for s
    by (rule io_totalD [THEN exE, of "io_each (enqueue_change cfg b) cs" s])
       (auto simp: enqueue_change_def intro!: total_rules)
  have keep: "io_keeps (\<lambda>t. ps_urgent t = []) (io_each (confirm_row cfg b) rows)" for rows
    unfolding confirm_row_def by (intro io_rules) simp_all
  have batch: "io_keeps (\<lambda>t. ps_urgent t = []) (confirmBatch cfg l)" for l by (rule confirmBatch_keeps) simp
  obtain u where u: "io_each (enqueue_change cfg b) cs s = (Inr (), u)" using enqueue by blast
  have "ps_urgent (snd (flushUrgent cfg u)) = []"
  proof (cases "ps_urgent u = []")
    case False
    have "ps_urgent (snd (confirmBatch cfg (ps_urgent u) (u\<lparr>ps_urgent := []\<rparr>))) = []" by (rule io_keepsD [OF batch]) simp
    with False show ?thesis by (simp add: flushUrgent_def io_bind_def io_then_def io_get_def io_modify_def)
  qed (simp add: flushUrgent_def io_bind_def io_get_def io_return_def)
  then have "ps_urgent (snd (io_bind (flushUrgent cfg) (io_each (confirm_row cfg b)) u)) = []"
    using io_keepsD [OF keep] by (auto simp: io_bind_def split: prod.splits sum.splits)
  with u assms show ?thesis by (simp add: handleTierChanges_def io_bind_def io_then_def io_get_def)
qed

text \<open>A tick that refreshes the indices moves the checkpoint to its block, whatever events have been
  processed until then: a gap fill that starts from this checkpoint asks for later blocks only, so
  events at or before the block of the tick that have not arrived are never processed.\<close>

theorem tick_checkpoint_skips_gap:
  assumes "lawful_checkpoint (pc_checkpoint cfg)" and "\<not> ps_indexRefreshInFlight s" and "(ps_flashblockTickCount s + 1) mod 1800 \<noteq> 0"
    and "fst (onFlashblockTick (pc_model cfg) (ps_model s))" and "0 < b" and "handleFlashblockTick cfg b s = (Inr (), s')"
  shows "fst (loadLastProcessedBlock (pc_checkpoint cfg) (ps_world s')) = Inr b \<and>
    (\<forall>head. \<forall>(lo, hi) \<in> set (block_ranges DEFAULT_CHUNK (gap_fill_start ic b) head). b < lo)"
proof -
  obtain m where tick: "onFlashblockTick (pc_model cfg) (ps_model s) = (True, m)" using assms(4) by (metis prod.collapse)
  from assms(2,3,6) tick obtain v w where "saveLastProcessedBlock (pc_checkpoint cfg) b v = (Inr (), w)" "ps_world s' = w"
    by (auto simp: handleFlashblockTick_def io_bind_def io_then_def io_get_def io_modify_def ep_effect_def model_tick_def io_finally_def
        io_return_def ep_call_def split: prod.splits sum.splits)
  with checkpoint_load_after_save [OF assms(1)] have "fst (loadLastProcessedBlock (pc_checkpoint cfg) (ps_world s')) = Inr b" by simp
  then show ?thesis using assms(5) by (auto simp: gap_fill_start_def dest!: block_ranges_bounds)
qed

text \<open>A reconciled account mirrors the chain: if reconciling an account answers true, then unless the cache
  has evicted it again its position is marked as seeded and holds, for each asset, exactly the amounts
  that the chain answered, and nothing of what the model held before, the first event included.\<close>

theorem reconcile_mirrors_chain:
  assumes "model_wf (ps_model s)" and "reconcileAndSeedPosition cfg account b s = (Inr True, s')"
    and "js_get (pm_positions (ps_model s')) (to_lower account) = Some p"
  shows "\<exists>data reserves w1 w2. pc_readAccount cfg account (ps_world s) = (Inr data, w1) \<and> data_debt data \<noteq> 0 \<and>
    pc_readUserReserves cfg account w1 = (Inr reserves, w2) \<and> up_isFullySeeded p \<and>
    (\<forall>k. js_get (up_debt p) k = chain_amount sr_scaledDebt (snapshot_rows (fst reserves)) None k \<and>
         js_get (up_collateral p) k = chain_amount sr_scaledCollateral (snapshot_rows (fst reserves)) None k)"
proof -
  obtain snap t where fetch: "fetchOnChainAccountSnapshot cfg account s = (Inr (Some snap), t)"
    and s': "s' = t\<lparr>ps_model := seedModelFromAccountSnapshot (pc_model cfg) snap b (ps_model t)\<rparr>"
    using assms(2)
    by (auto simp: reconcileAndSeedPosition_def io_catch_def io_bind_def io_then_def io_return_def on_model_def io_modify_def
        split: prod.splits sum.splits option.splits if_splits)
  from fetch obtain data w1 reserves w2 where reads: "pc_readAccount cfg account (ps_world s) = (Inr data, w1)"
    "pc_readUserReserves cfg account w1 = (Inr reserves, w2)" "account_snapshot_of account data reserves = Some snap" "t = s\<lparr>ps_world := w2\<rparr>"
    by (auto simp: fetchOnChainAccountSnapshot_def io_bind_Inr io_return_def ep_call_def split: prod.splits)
  then have snap: "as_account snap = account" "as_reserves snap = snapshot_rows (fst reserves)" "data_debt data \<noteq> 0"
    by (auto simp: account_snapshot_of_def data_debt_def split: prod.splits if_splits)
  let ?m = "fold (\<lambda>row. registerReserve (sr_asset row) BASE_LT_BPS) (as_reserves snap) (ps_model s)"
  have "js_get (pm_positions (seedFromOnChainSnapshot (pc_model cfg) (seed_of_snapshot snap b) ?m)) (to_lower (si_account (seed_of_snapshot snap b))) = Some p"
    using assms(3) reads(4) by (simp add: s' seedModelFromAccountSnapshot_def seed_of_snapshot_def snap(1))
  from seeded_position [OF register_all_wf [OF assms(1)] this] reads(1,2) snap show ?thesis
    by (simp add: seed_of_snapshot_def)
qed

section \<open>Witnesses\<close>

text \<open>A stack whose reads and callbacks answer; its world counts the calls of the callback.\<close>

definition sample_purity :: "nat purity_config" where
  "sample_purity = \<lparr>pc_model = sample_cfg, pc_reserveAllowlist = None, pc_enableWatchTier = False, pc_batchSize = None,
     pc_feeds = [(''weth'', Some ''feed'')], pc_now = (\<lambda>w. (0, w)),
     pc_multicallAccounts = (\<lambda>l. io_return (map (\<lambda>_. Some (100, 90, 0, 8000, 0, WAD div 2)) l)), pc_multicallEmode = (\<lambda>l. io_return []),
     pc_readAccount = (\<lambda>a. io_return (100, 90, 0, 8000, 0, WAD div 2)),
     pc_readUserReserves = (\<lambda>a. io_return ([\<lparr>ur_underlyingAsset = ''dai'', ur_scaledATokenBalance = 0,
       ur_usageAsCollateralEnabledOnUser = False, ur_scaledVariableDebt = 90\<rparr>], 0)),
     pc_readReserveIndices = (\<lambda>a. io_return (WAD, WAD)), pc_multicallFeeds = (\<lambda>l. io_return []),
     pc_checkpoint = checkpoint_new \<lparr>kv_get = (\<lambda>k w. (Inr (Some (int_string (int w))), w)), kv_set = (\<lambda>k v w. (Inl (Exn ''full''), w)), kv_close = None\<rparr> ''base'',
     pc_sample = (\<lambda>a b m w. w), pc_onBlockObserved = (\<lambda>b w. w), pc_onLiquidatable = (\<lambda>r w. (Inr (), w + 1))\<rparr>"

definition sample_stack :: "nat purity_state" where
  "sample_stack = \<lparr>ps_world = 0, ps_model = sample_model, ps_urgent = [], ps_watch = [], ps_indexRefreshInFlight = False,
     ps_aggregateRefreshInFlight = False, ps_flashblockTickCount = 0, ps_pricesBootstrapped = True\<rparr>"

definition price_drop :: price_event where
  "price_drop = \<lparr>pe_feed = ''feed'', pe_asset = ''weth'', pe_price = 1200000000, pe_oracleUpdatedAtSec = 0\<rparr>"

definition sample_meta :: ingestion_meta where
  "sample_meta = \<lparr>im_blockNumber = 0, im_flashblockIndex = None, im_txHash = ''0xt'', im_logIndex = LogIndex 0, im_source = FromPending\<rparr>"

theorem stack_stays_consistent_witness:
  "model_wf (ps_model (purity_history sample_purity [OnIngestion (ChainlinkPriceEvent sample_meta price_drop), OnTick 5] (purity_new sample_purity 0 0)))"
  using stack_stays_consistent [of "[OnIngestion (ChainlinkPriceEvent sample_meta price_drop), OnTick 5]" sample_purity 0 0]
  by (simp add: step_ok_def ingestion_ok_def)

theorem only_below_one_reported_witness:
  "handleEvent (sample_purity\<lparr>pc_onLiquidatable := \<lambda>row. if WAD \<le> cr_healthFactor row then io_throw (Exn ''healthy'') else io_return ()\<rparr>)
     (ChainlinkPriceEvent sample_meta price_drop) sample_stack =
   handleEvent (sample_purity\<lparr>pc_onLiquidatable := \<lambda>row. io_return ()\<rparr>) (ChainlinkPriceEvent sample_meta price_drop) sample_stack"
  by (rule only_below_one_reported) simp


theorem no_account_waits_for_retry_witness:
  "ps_urgent (snd (handleTierChanges (sample_purity\<lparr>pc_multicallAccounts := \<lambda>l. io_throw (Exn ''timeout'')\<rparr>)
     [\<lparr>tc_account = ''0xA'', tc_tier = Urgent, tc_localHfWad = WAD, tc_isNew = False, tc_isFullySeeded = True\<rparr>] 7 sample_stack)) = []"
  by (rule no_account_waits_for_retry) (simp add: sample_stack_def sample_model_def)

definition sample_checkpoint :: "(string, string) jsmap checkpoint_store" where
  "sample_checkpoint = checkpoint_new \<lparr>kv_get = (\<lambda>k w. (Inr (js_get w k), w)), kv_set = (\<lambda>k v w. (Inr (), js_set k v w)), kv_close = None\<rparr> ''base''"

definition tick_purity :: "(string, string) jsmap purity_config" where
  "tick_purity = \<lparr>pc_model = sample_cfg\<lparr>mc_reserveIndexRefreshBlocks := 1\<rparr>, pc_reserveAllowlist = None, pc_enableWatchTier = False, pc_batchSize = None,
     pc_feeds = [], pc_now = (\<lambda>w. (0, w)), pc_multicallAccounts = (\<lambda>l. io_return []), pc_multicallEmode = (\<lambda>l. io_return []),
     pc_readAccount = (\<lambda>a. io_throw (Exn ''read'')), pc_readUserReserves = (\<lambda>a. io_throw (Exn ''read'')),
     pc_readReserveIndices = (\<lambda>a. io_throw (Exn ''read'')), pc_multicallFeeds = (\<lambda>l. io_return []), pc_checkpoint = sample_checkpoint,
     pc_sample = (\<lambda>a b m w. w), pc_onBlockObserved = (\<lambda>b w. w), pc_onLiquidatable = (\<lambda>r. io_return ())\<rparr>"

theorem tick_checkpoint_skips_gap_witness:
  "\<exists>s'. handleFlashblockTick tick_purity 42 (purity_new tick_purity 0 []) = (Inr (), s') \<and>
     fst (loadLastProcessedBlock sample_checkpoint (ps_world s')) = Inr 42"
proof -
  have lawful: "lawful_checkpoint (pc_checkpoint tick_purity)"
    by (simp add: lawful_checkpoint_def tick_purity_def sample_checkpoint_def checkpoint_new_def) (unfold_locales; auto)
  obtain s' where run: "handleFlashblockTick tick_purity 42 (purity_new tick_purity 0 []) = (Inr (), s')"
    by (simp add: handleFlashblockTick_def purity_new_def tick_purity_def io_bind_def io_then_def io_get_def io_modify_def ep_effect_def
        model_tick_def onFlashblockTick_def Let_def new_model_def io_return_def refreshReserveIndices_def js_values_def io_finally_def ep_call_def
        saveLastProcessedBlock_def sample_checkpoint_def checkpoint_new_def)
  have "fst (loadLastProcessedBlock (pc_checkpoint tick_purity) (ps_world s')) = Inr 42 \<and>
      (\<forall>head. \<forall>(lo, hi) \<in> set (block_ranges DEFAULT_CHUNK (gap_fill_start sample_ingestion 42) head). 42 < lo)"
    by (rule tick_checkpoint_skips_gap [OF lawful _ _ _ _ run])
       (simp_all add: purity_new_def tick_purity_def onFlashblockTick_def Let_def new_model_def)
  with run show ?thesis by (auto simp: tick_purity_def)
qed

theorem reconcile_mirrors_chain_witness:
  "\<exists>s' p. reconcileAndSeedPosition sample_purity ''0xN'' 7 (purity_new sample_purity 0 0) = (Inr True, s') \<and>
     js_get (pm_positions (ps_model s')) (to_lower ''0xN'') = Some p \<and> js_get (up_debt p) ''dai'' = Some 90"
proof -
  let ?s = "purity_new sample_purity 0 0"
  have eval: "case reconcileAndSeedPosition sample_purity ''0xN'' 7 ?s of
      (Inr True, s') \<Rightarrow> js_get (pm_positions (ps_model s')) (to_lower ''0xN'') \<noteq> None | _ \<Rightarrow> False"
    by code_simp
  then obtain s' p where run: "reconcileAndSeedPosition sample_purity ''0xN'' 7 ?s = (Inr True, s')"
    and p: "js_get (pm_positions (ps_model s')) (to_lower ''0xN'') = Some p"
    by (auto split: prod.splits sum.splits bool.splits)
  have wf: "model_wf (ps_model ?s)" using purity_new_wf by (simp add: on_wf_def)
  from reconcile_mirrors_chain [OF wf run p] have "js_get (up_debt p) ''dai'' =
      chain_amount sr_scaledDebt (snapshot_rows [\<lparr>ur_underlyingAsset = ''dai'', ur_scaledATokenBalance = 0,
       ur_usageAsCollateralEnabledOnUser = False, ur_scaledVariableDebt = 90\<rparr>]) None ''dai''"
    by (auto simp: sample_purity_def io_return_def)
  also have "\<dots> = Some 90" by code_simp
  finally show ?thesis using run p by blast
qed

end
