(* ===== verification/Oracle_Bootstrap.thy ===== *)
theory Oracle_Bootstrap
  imports Position_Invariants Watchlist_Sweep "HOL-Library.Char_ord" "HOL-Library.List_Lexorder"
begin

text \<open>
  The first prices of the position model: \<open>runOraclePriceBootstrap\<close> of
  \<open>src/monitors/eventPurityStack.ts\<close> waits for the sequencer and reads the Chainlink feeds and the
  bonuses of the reserves; \<open>src/oracle/aaveOraclePrice.ts\<close> fills the assets without a price from the
  Aave oracle or from the peg, once and later again, and \<open>src/oracle/oracleCoverage.ts\<close> measures which
  assets are left without one. Contract reads and sleeping are services; what the checks of a feed log
  is the value that \<open>cross_check\<close> returns. Numbers that a contract answers are whole.
\<close>

section \<open>Constants and services\<close>

definition CRITICAL_FEEDS :: "address list" where
  "CRITICAL_FEEDS = [''0x71041dddad3595F9CEd3dCCFBe3D1F4b0a16Bb70'', ''0x7e860098F58bBFC8648a4311b374B1D669a2bc6B'']"

definition SEQUENCER_GRACE_PERIOD_SECONDS :: int where
  "SEQUENCER_GRACE_PERIOD_SECONDS = 3600"

definition BOOTSTRAP_MAX_RETRIES :: nat where
  "BOOTSTRAP_MAX_RETRIES = 5"

definition BOOTSTRAP_RETRY_DELAY_MS :: int where
  "BOOTSTRAP_RETRY_DELAY_MS = 60000"

text \<open>The result of \<open>latestRoundData\<close>: nothing if it is neither a tuple nor an object, otherwise its answer,
  nothing if that is no \<open>bigint\<close>, and the times at which the round started and was updated.\<close>

type_synonym round_result = "(int option \<times> int \<times> int) option"

datatype oracle_call = CallRound address address | CallDecimals address address | CallReserve address

datatype oracle_response = RoundResponse round_result | DecimalsResponse "int option" | ReserveResponse "int option"

record 'w bootstrap_reads =
  or_readSequencer :: "('w, round_result) io"
  or_blockTimestamp :: "('w, int) io"
  or_sleep :: "int \<Rightarrow> 'w \<Rightarrow> 'w"
  or_multicall :: "oracle_call list \<Rightarrow> ('w, oracle_response option list) io"
  or_readRound :: "address \<Rightarrow> ('w, round_result) io"
  or_readDecimals :: "address \<Rightarrow> ('w, int option) io"
  or_multicallPrices :: "address \<Rightarrow> address list \<Rightarrow> ('w, int option list) io"
  or_now :: "'w \<Rightarrow> int \<times> 'w"

text \<open>The world of the services and the model.\<close>

type_synonym ('w, 'a) boot_io = "('w \<times> position_model, 'a) io"

definition or_call :: "('w, 'a) io \<Rightarrow> ('w, 'a) boot_io" where
  "or_call m s = (case m (fst s) of (r, w) \<Rightarrow> (r, (w, snd s)))"

definition or_model :: "(position_model \<Rightarrow> position_model) \<Rightarrow> ('w, unit) boot_io" where
  "or_model f = io_modify (\<lambda>s. (fst s, f (snd s)))"

section \<open>The sequencer\<close>

definition parseSequencerRound :: "round_result \<Rightarrow> (int \<times> int) option" where
  "parseSequencerRound r = (case r of Some (Some answer, startedAt, updatedAt) \<Rightarrow> Some (answer, startedAt) | _ \<Rightarrow> None)"

definition parseLatestRoundData :: "round_result \<Rightarrow> (int \<times> int) option" where
  "parseLatestRoundData r = (case r of Some (Some answer, startedAt, updatedAt) \<Rightarrow> Some (answer, updatedAt) | _ \<Rightarrow> None)"

text \<open>One reading: whether the sequencer is healthy, and the time of the block.\<close>

definition read_sequencer :: "'w bootstrap_reads \<Rightarrow> ('w, bool \<times> int) io" where
  "read_sequencer sv =
     io_bind (or_readSequencer sv) (\<lambda>seqResult.
       io_bind (or_blockTimestamp sv) (\<lambda>blockTimestamp.
         case parseSequencerRound seqResult of
           None \<Rightarrow> io_throw (Exn ''sequencer_check_parse_failed'')
         | Some (answer, startedAt) \<Rightarrow>
             io_return (answer = 0 \<and> SEQUENCER_GRACE_PERIOD_SECONDS \<le> blockTimestamp - startedAt, blockTimestamp)))"

definition retry_pause :: "'w bootstrap_reads \<Rightarrow> ('w, unit) io" where
  "retry_pause sv = io_modify (or_sleep sv BOOTSTRAP_RETRY_DELAY_MS)"

text \<open>The attempts that are left, and the time of the last block that was read.\<close>

fun sequencer_attempts :: "'w bootstrap_reads \<Rightarrow> nat \<Rightarrow> ('w, int) io" where
  "sequencer_attempts sv 0 = io_throw (Exn ''SEQUENCER_DOWN_OR_IN_GRACE_PERIOD: bootstrap aborted after 5 attempts'')"
| "sequencer_attempts sv (Suc left) =
     io_bind (io_catch (io_bind (read_sequencer sv) (\<lambda>r. io_return (Inr r))) (\<lambda>e. io_return (Inl e))) (\<lambda>r.
       case r of
         Inr (True, blockTimestamp) \<Rightarrow> io_return blockTimestamp
       | Inr (False, _) \<Rightarrow>
           if left = 0 then io_throw (Exn ''SEQUENCER_DOWN_OR_IN_GRACE_PERIOD: bootstrap aborted after 5 attempts'')
           else io_then (retry_pause sv) (sequencer_attempts sv left)
       | Inl e \<Rightarrow> if left = 0 then io_throw e else io_then (retry_pause sv) (sequencer_attempts sv left))"

section \<open>The feeds\<close>

definition oracle_calls :: "(address \<times> address option) list \<Rightarrow> oracle_call list" where
  "oracle_calls feeds =
     concat (map (\<lambda>(a, feed). case feed of None \<Rightarrow> [] | Some f \<Rightarrow> [CallRound a f, CallDecimals a f]) feeds)
     @ map (\<lambda>(a, feed). CallReserve a) feeds"

definition feed_key :: "address \<Rightarrow> address \<Rightarrow> string" where
  "feed_key a feed = to_lower a @ '':'' @ to_lower feed"

record feed_readings =
  fr_model :: position_model
  fr_rounds :: "(string, int \<times> int) jsmap"
  fr_decimals :: "(string, int) jsmap"

text \<open>A response that is missing is skipped; one that failed, or does not parse, clears the bonus of a reserve.\<close>

fun process_response :: "oracle_call \<times> oracle_response option option \<Rightarrow> feed_readings \<Rightarrow> feed_readings" where
  "process_response (call, None) fr = fr"
| "process_response (CallReserve a, Some response) fr =
     (case response of
        Some (ReserveResponse (Some bonus)) \<Rightarrow>
          fr\<lparr>fr_model := setReserveLiquidationBonus a (Some bonus) (registerReserve a BASE_LT_BPS (fr_model fr))\<rparr>
      | _ \<Rightarrow> fr\<lparr>fr_model := setReserveLiquidationBonus a None (fr_model fr)\<rparr>)"
| "process_response (CallRound a feed, Some response) fr =
     (case response of
        Some (RoundResponse r) \<Rightarrow> (case parseLatestRoundData r of
            Some lrd \<Rightarrow> fr\<lparr>fr_rounds := js_set (feed_key a feed) lrd (fr_rounds fr)\<rparr> | None \<Rightarrow> fr)
      | _ \<Rightarrow> fr)"
| "process_response (CallDecimals a feed, Some response) fr =
     (case response of
        Some (DecimalsResponse (Some d)) \<Rightarrow> fr\<lparr>fr_decimals := js_set (feed_key a feed) d (fr_decimals fr)\<rparr>
      | _ \<Rightarrow> fr)"

definition with_responses :: "oracle_call list \<Rightarrow> oracle_response option list \<Rightarrow> (oracle_call \<times> oracle_response option option) list" where
  "with_responses calls responses = zip calls (map Some responses @ replicate (length calls - length responses) None)"

definition readFeedPair :: "'w bootstrap_reads \<Rightarrow> address \<Rightarrow> ('w, (int \<times> int \<times> int) option) io" where
  "readFeedPair sv feed =
     io_catch
       (io_bind (or_readRound sv feed) (\<lambda>lrdRaw. io_bind (or_readDecimals sv feed) (\<lambda>decRaw.
          io_return (case (parseLatestRoundData lrdRaw, decRaw) of
            (Some (answer, updatedAt), Some decimals) \<Rightarrow> Some (answer, updatedAt, decimals) | _ \<Rightarrow> None))))
       (\<lambda>_. io_return None)"

record warm_feeds =
  wf_critical :: "string list"
  wf_prices :: "(address, address \<times> int \<times> int) jsmap"

definition is_critical :: "address \<Rightarrow> bool" where
  "is_critical feed \<longleftrightarrow> to_lower feed \<in> set (map to_lower CRITICAL_FEEDS)"

definition round_is_stale :: "address \<Rightarrow> int \<Rightarrow> int \<Rightarrow> bool" where
  "round_is_stale feed blockTimestamp updatedAt \<longleftrightarrow> rat_of_int (feed_heartbeat feed) * (3 / 2) < rat_of_int (blockTimestamp - updatedAt)"

definition registerFeedIfWarm ::
  "address \<Rightarrow> address \<Rightarrow> int \<times> int \<times> int \<Rightarrow> int \<Rightarrow> position_model \<times> warm_feeds \<Rightarrow> position_model \<times> warm_feeds" where
  "registerFeedIfWarm a feed reading blockTimestamp mw =
     (case (reading, mw) of ((answer, updatedAt, decimals), (m, warm)) \<Rightarrow>
        if answer \<le> 0 then mw
        else if 18 < decimals then mw
        else if round_is_stale feed blockTimestamp updatedAt then mw
        else (let price = answer * 10 ^ nat (18 - decimals)
              in (registerBootstrapPrice a price
                    \<lparr>fs_answer = answer, fs_decimals = decimals, fs_updatedAt = updatedAt, fs_feedAddress = feed, fs_asset = a, fs_source = None\<rparr> m,
                  \<lparr>wf_critical = (if is_critical feed then js_add (to_lower feed) (wf_critical warm) else wf_critical warm),
                   wf_prices = js_set a (feed, price, decimals) (wf_prices warm)\<rparr>)))"

definition known_reading :: "feed_readings \<Rightarrow> address \<Rightarrow> address \<Rightarrow> (int \<times> int \<times> int) option" where
  "known_reading fr a feed =
     (case (js_get (fr_rounds fr) (feed_key a feed), js_get (fr_decimals fr) (feed_key a feed)) of
        (Some (answer, updatedAt), Some decimals) \<Rightarrow> Some (answer, updatedAt, decimals)
      | _ \<Rightarrow> None)"

definition warm_feed ::
  "'w bootstrap_reads \<Rightarrow> feed_readings \<Rightarrow> int \<Rightarrow> address \<times> address option \<Rightarrow> warm_feeds \<Rightarrow> ('w, warm_feeds) boot_io" where
  "warm_feed sv fr blockTimestamp entry warm =
     (case snd entry of
        None \<Rightarrow> io_return warm
      | Some feed \<Rightarrow>
          io_bind (case known_reading fr (fst entry) feed of
                     Some reading \<Rightarrow> io_return (Some reading)
                   | None \<Rightarrow> or_call (readFeedPair sv feed)) (\<lambda>reading.
            case reading of
              None \<Rightarrow> io_return warm
            | Some r \<Rightarrow> (\<lambda>s. case registerFeedIfWarm (fst entry) feed r blockTimestamp (snd s, warm) of (m, warm') \<Rightarrow> (Inr warm', (fst s, m)))))"

fun warm_all :: "'w bootstrap_reads \<Rightarrow> feed_readings \<Rightarrow> int \<Rightarrow> (address \<times> address option) list \<Rightarrow> warm_feeds \<Rightarrow> ('w, warm_feeds) boot_io" where
  "warm_all sv fr blockTimestamp [] warm = io_return warm"
| "warm_all sv fr blockTimestamp (entry # feeds) warm =
     io_bind (warm_feed sv fr blockTimestamp entry warm) (warm_all sv fr blockTimestamp feeds)"

datatype cross_report = CrossOk int | CrossMismatch int | CrossFailed

definition price_gap_bps :: "int \<Rightarrow> int \<Rightarrow> int" where
  "price_gap_bps price direct =
     (let delta = (if direct < price then price - direct else direct - price)
      in if direct = 0 then 0 else bdiv (delta * 10000) direct)"

definition cross_check :: "'w bootstrap_reads \<Rightarrow> address \<times> address \<times> int \<times> int \<Rightarrow> ('w, (address \<times> cross_report) list) io" where
  "cross_check sv row =
     (case row of (a, feed, price, decimals) \<Rightarrow>
        if \<not> is_critical feed then io_return []
        else io_catch
          (io_bind (or_readRound sv feed) (\<lambda>raw.
             case parseLatestRoundData raw of
               None \<Rightarrow> io_return [(a, CrossFailed)]
             | Some (answer, _) \<Rightarrow>
                 (let pct = price_gap_bps price (answer * 10 ^ nat (18 - decimals))
                  in io_return [(a, if 200 < pct then CrossMismatch pct else CrossOk pct)])))
          (\<lambda>_. io_return [(a, CrossFailed)]))"

record bootstrap_result =
  br_pricesBootstrapped :: bool
  br_sequencerHealthy :: bool
  br_warmCriticalFeeds :: "string list"

definition critical_feeds_ok :: "warm_feeds \<Rightarrow> bool" where
  "critical_feeds_ok warm \<longleftrightarrow> list_all (\<lambda>f. to_lower f \<in> set (wf_critical warm)) CRITICAL_FEEDS"

text \<open>The attempts leave the loop only with a healthy sequencer or an exception.\<close>

definition runOraclePriceBootstrap :: "'w bootstrap_reads \<Rightarrow> (address \<times> address option) list \<Rightarrow> ('w, bootstrap_result) boot_io" where
  "runOraclePriceBootstrap sv feeds =
     io_bind (or_call (sequencer_attempts sv BOOTSTRAP_MAX_RETRIES)) (\<lambda>blockTimestamp.
       io_bind (or_call (or_multicall sv (oracle_calls feeds))) (\<lambda>responses.
         io_bind (io_get (\<lambda>s. fold process_response (with_responses (oracle_calls feeds) responses)
             \<lparr>fr_model = snd s, fr_rounds = [], fr_decimals = []\<rparr>)) (\<lambda>fr.
           io_then (or_model (\<lambda>_. fr_model fr))
             (io_bind (warm_all sv fr blockTimestamp feeds \<lparr>wf_critical = [], wf_prices = []\<rparr>) (\<lambda>warm.
                if critical_feeds_ok warm
                then io_then (or_model markPricesBootstrapped)
                  (io_then (or_call (io_bind (io_map (cross_check sv) (wf_prices warm)) (\<lambda>_. io_return ())))
                    (io_return \<lparr>br_pricesBootstrapped = True, br_sequencerHealthy = True, br_warmCriticalFeeds = wf_critical warm\<rparr>))
                else io_return \<lparr>br_pricesBootstrapped = False, br_sequencerHealthy = True, br_warmCriticalFeeds = wf_critical warm\<rparr>)))))"

section \<open>Coverage\<close>

definition placeholder_or_none :: "position_model \<Rightarrow> address \<Rightarrow> bool" where
  "placeholder_or_none m key \<longleftrightarrow> (case js_get (pm_prices m) key of None \<Rightarrow> True | Some price \<Rightarrow> price = 1)"

definition position_keys :: "user_position \<Rightarrow> address list" where
  "position_keys p = js_keys (up_collateral p) @ js_keys (up_debt p)"

definition collectAssetsNeedingGapFill :: "position_model \<Rightarrow> address list" where
  "collectAssetsNeedingGapFill m =
     fold (\<lambda>key needed. if placeholder_or_none m key then js_add key needed else needed)
       (js_keys (pm_reserveConfig m) @ concat (map position_keys (js_values (pm_positions m)))) []"

definition slot_in_use :: "user_position \<Rightarrow> address \<Rightarrow> bool" where
  "slot_in_use p key \<longleftrightarrow> \<not> (get_or 0 (js_get (up_collateral p) key) = 0 \<and> get_or 0 (js_get (up_debt p) key) = 0)"

definition blind_slots :: "position_model \<Rightarrow> (address, nat) jsmap" where
  "blind_slots m =
     fold (\<lambda>key counts. js_set key (or_else (js_get counts key) 0 + 1) counts)
       (concat (map (\<lambda>p. filter (\<lambda>key. slot_in_use p key \<and> placeholder_or_none m key) (position_keys p))
          (filter up_isFullySeeded (js_values (pm_positions m))))) []"

text \<open>Sorted by the number of slots, the most first, and by the address among equals; addresses are in lower
  case, where \<open>localeCompare\<close> is the order of the characters.\<close>

definition collectBlindAssetAddresses :: "position_model \<Rightarrow> nat \<Rightarrow> address list" where
  "collectBlindAssetAddresses m limit =
     map fst (take limit (sort_key (\<lambda>e. - int (snd e)) (sort_key fst (blind_slots m))))"

record coverage =
  cv_totalPositionAssets :: nat
  cv_coveredAssets :: nat
  cv_blindAssets :: nat
  cv_coveredPct :: rat
  cv_blindPositionCount :: nat
  cv_blindAssetAddresses :: "address list"

definition used_assets :: "user_position \<Rightarrow> address list" where
  "used_assets p = filter (slot_in_use p) (js_of_list (position_keys p))"

definition covered_asset :: "position_model \<Rightarrow> address \<Rightarrow> bool" where
  "covered_asset m key \<longleftrightarrow> (case js_get (pm_prices m) key of None \<Rightarrow> False | Some price \<Rightarrow> 1 < price)"

definition computeOracleCoverage :: "position_model \<Rightarrow> coverage" where
  "computeOracleCoverage m =
     (let ps = filter up_isFullySeeded (js_values (pm_positions m));
          total_assets = sum_list (map (\<lambda>p. length (used_assets p)) ps);
          covered = sum_list (map (\<lambda>p. length (filter (covered_asset m) (used_assets p))) ps);
          blindPositions = length (filter (\<lambda>p. \<not> list_all (covered_asset m) (used_assets p)) ps)
      in \<lparr>cv_totalPositionAssets = total_assets, cv_coveredAssets = covered, cv_blindAssets = total_assets - covered,
          cv_coveredPct = (if total_assets = 0 then 100 else of_nat covered / of_nat total_assets * 100),
          cv_blindPositionCount = blindPositions, cv_blindAssetAddresses = collectBlindAssetAddresses m 20\<rparr>)"

section \<open>Prices from the Aave oracle\<close>

definition AAVE_PRICE_DECIMALS :: int where
  "AAVE_PRICE_DECIMALS = 8"

definition BASE_GAP_FILL_ASSETS :: "address list" where
  "BASE_GAP_FILL_ASSETS =
     [''0x2Ae3F1Ec7F1F5012CFEab0185bfc7aa3cf0DEc22'', ''0x6Bb7a212910682DCFdbd5BCBb3e28FB4E8da10Ee'',
      ''0x60a3E35Cc302bFA44Cb288Bc5a4F316Fdb1adb42'', ''0xc1CBa3fCea344f92D9239c08C0568f6F2F0ee452'',
      ''0x04C0599Ae5A44757c0af6F9eC3b93da8976c150A'', ''0x63706e401c06ac8513145b7687a14804d17f814b'',
      ''0x236aa50979d5f3de3bd1eeb40e81137f22ab794b'', ''0x660975730059246a68521a3e2fbd4740173100f5'',
      ''0xecac9c5f704e954931349da37f60e39f515c11c1'', BASE_USDBC]"

definition normalizeAavePriceToWad18 :: "int \<Rightarrow> int" where
  "normalizeAavePriceToWad18 priceBase8 = (if priceBase8 \<le> 0 then 0 else priceBase8 * 10 ^ 10)"

text \<open>The positive prices of one batch; a result that is missing or failed gives none.\<close>

fun price_rows :: "address list \<Rightarrow> int option list \<Rightarrow> (string, int) jsmap \<Rightarrow> (string, int) jsmap" where
  "price_rows [] results out = out"
| "price_rows (a # batch) results out =
     price_rows batch (tl results)
       (case results of Some price # _ \<Rightarrow> if 0 < price then js_set (to_lower a) price out else out | _ \<Rightarrow> out)"

fun fetch_price_batches :: "'w bootstrap_reads \<Rightarrow> address \<Rightarrow> address list list \<Rightarrow> (string, int) jsmap \<Rightarrow> ('w, (string, int) jsmap) io" where
  "fetch_price_batches sv feed [] out = io_return out"
| "fetch_price_batches sv feed (batch # rest) out =
     io_bind (or_multicallPrices sv feed batch) (\<lambda>results. fetch_price_batches sv feed rest (price_rows batch results out))"

definition fetchAaveAssetPrices :: "'w bootstrap_reads \<Rightarrow> address \<Rightarrow> address list \<Rightarrow> ('w, (string, int) jsmap) io" where
  "fetchAaveAssetPrices sv feed assets = fetch_price_batches sv feed (batches 250 assets) []"

definition registerAavePrice :: "address \<Rightarrow> int \<Rightarrow> address \<Rightarrow> int \<Rightarrow> position_model \<Rightarrow> position_model" where
  "registerAavePrice a priceBase8 feed nowSec m =
     (if normalizeAavePriceToWad18 priceBase8 = 0 then m
      else registerBootstrapPrice a (normalizeAavePriceToWad18 priceBase8)
        \<lparr>fs_answer = priceBase8, fs_decimals = AAVE_PRICE_DECIMALS, fs_updatedAt = nowSec, fs_feedAddress = feed, fs_asset = a,
         fs_source = Some FromAave\<rparr> m)"

definition registerPegPrice :: "address \<Rightarrow> int \<Rightarrow> address \<Rightarrow> int \<Rightarrow> position_model \<Rightarrow> position_model" where
  "registerPegPrice a pegPriceWad18 pegOf nowSec =
     registerBootstrapPrice a pegPriceWad18
       \<lparr>fs_answer = bdiv pegPriceWad18 (10 ^ 10), fs_decimals = AAVE_PRICE_DECIMALS, fs_updatedAt = nowSec, fs_feedAddress = pegOf, fs_asset = a,
        fs_source = Some FromPeg\<rparr>"

record fill_result =
  fi_warmed :: nat
  fi_failed :: "address list"

definition count_warmed :: "fill_result \<Rightarrow> fill_result" where
  "count_warmed r = r\<lparr>fi_warmed := fi_warmed r + 1\<rparr>"

definition count_unpriced :: "address \<Rightarrow> fill_result \<Rightarrow> fill_result" where
  "count_unpriced a r = r\<lparr>fi_failed := fi_failed r @ [a]\<rparr>"

definition fill_from_aave :: "(string, int) jsmap \<Rightarrow> address \<Rightarrow> int \<Rightarrow> address \<Rightarrow> fill_result \<Rightarrow> ('w, fill_result) boot_io" where
  "fill_from_aave prices feed nowSec a r =
     (case js_get prices (to_lower a) of
        None \<Rightarrow> io_return (count_unpriced a r)
      | Some price \<Rightarrow> io_then (or_model (registerAavePrice a price feed nowSec)) (io_return (count_warmed r)))"

text \<open>USDbC takes the price of a healthy USDC; otherwise any USDC price above the placeholder, and the price of
  the Aave oracle is read only to log a divergence.\<close>

definition fill_from_peg :: "'w bootstrap_reads \<Rightarrow> model_config \<Rightarrow> address \<Rightarrow> int \<Rightarrow> address \<Rightarrow> fill_result \<Rightarrow> ('w, fill_result) boot_io" where
  "fill_from_peg sv cfg feed nowSec a r =
     io_bind (io_get snd) (\<lambda>m.
       case pegUsdbcPriceFromHealthyReference (pegHealthInput cfg nowSec m) of
         Some price \<Rightarrow> io_then (or_model (registerPegPrice a price BASE_USDC nowSec)) (io_return (count_warmed r))
       | None \<Rightarrow>
           (case js_get (pm_prices m) (to_lower BASE_USDC) of
              None \<Rightarrow> io_return (count_unpriced a r)
            | Some usdcPrice \<Rightarrow>
                if usdcPrice \<le> 1 then io_return (count_unpriced a r)
                else io_bind (or_call (fetchAaveAssetPrices sv feed [a])) (\<lambda>_.
                  io_then (or_model (registerPegPrice a (pegUsdbcFromUsdcPrice usdcPrice) BASE_USDC nowSec)) (io_return (count_warmed r)))))"

fun fill_each :: "(address \<Rightarrow> fill_result \<Rightarrow> ('w, fill_result) boot_io) \<Rightarrow> address list \<Rightarrow> fill_result \<Rightarrow> ('w, fill_result) boot_io" where
  "fill_each f [] r = io_return r"
| "fill_each f (a # assets) r = io_bind (f a r) (fill_each f assets)"

definition fill_assets :: "'w bootstrap_reads \<Rightarrow> model_config \<Rightarrow> address \<Rightarrow> int \<Rightarrow> address list \<Rightarrow> ('w, fill_result) boot_io" where
  "fill_assets sv cfg feed nowSec assets =
     io_bind (or_call (fetchAaveAssetPrices sv feed (filter (\<lambda>a. \<not> isUsdbcAsset a) assets))) (\<lambda>prices.
       io_bind (fill_each (fill_from_aave prices feed nowSec) (filter (\<lambda>a. \<not> isUsdbcAsset a) assets) \<lparr>fi_warmed = 0, fi_failed = []\<rparr>)
         (fill_each (fill_from_peg sv cfg feed nowSec) (filter isUsdbcAsset assets)))"

definition now_seconds :: "'w bootstrap_reads \<Rightarrow> int option \<Rightarrow> ('w, int) boot_io" where
  "now_seconds sv nowSec =
     (case nowSec of Some t \<Rightarrow> io_return t
      | None \<Rightarrow> or_call (\<lambda>w. case or_now sv w of (t, w') \<Rightarrow> (Inr (t div 1000), w')))"

definition bootstrapAaveOracleGapFill :: "'w bootstrap_reads \<Rightarrow> model_config \<Rightarrow> address \<Rightarrow> int option \<Rightarrow> ('w, fill_result) boot_io" where
  "bootstrapAaveOracleGapFill sv cfg feed nowSec0 =
     io_bind (now_seconds sv nowSec0) (\<lambda>nowSec.
       io_bind (io_get (\<lambda>s. collectAssetsNeedingGapFill (snd s))) (\<lambda>needed.
         if needed = [] then io_return \<lparr>fi_warmed = 0, fi_failed = []\<rparr>
         else io_then (or_model (fold (\<lambda>a. registerReserve a BASE_LT_BPS) needed)) (fill_assets sv cfg feed nowSec needed)))"

definition refreshGapFillPrices :: "'w bootstrap_reads \<Rightarrow> model_config \<Rightarrow> address \<Rightarrow> int option \<Rightarrow> ('w, fill_result \<times> nat) boot_io" where
  "refreshGapFillPrices sv cfg feed nowSec0 =
     io_bind (now_seconds sv nowSec0) (\<lambda>nowSec.
       io_bind (io_get (\<lambda>s. filter (\<lambda>a. js_has (pm_reserveConfig (snd s)) (to_lower a)) BASE_GAP_FILL_ASSETS)) (\<lambda>assets.
         if assets = [] then io_return (\<lparr>fi_warmed = 0, fi_failed = []\<rparr>, 0)
         else io_catch
           (io_bind (fill_assets sv cfg feed nowSec assets) (\<lambda>r. io_return (r, length assets)))
           (\<lambda>_. io_return (\<lparr>fi_warmed = 0, fi_failed = assets\<rparr>, length assets))))"

end
