(* ===== verification/Oracle_Safety.thy ===== *)
theory Oracle_Safety
  imports Oracle_Bootstrap
begin

text \<open>
  What the first prices are worth: prices are declared bootstrapped only from a healthy sequencer and
  fresh critical feeds, a gap fill accounts for every asset and a complete one leaves none without a
  price, and a refresh changes prices but no health factor.
\<close>

section \<open>Frames\<close>

lemma io_keeps_or_call [io_rules]: "(\<And>s w. P s \<Longrightarrow> P (w, snd s)) \<Longrightarrow> io_keeps P (or_call m)"
  by (auto simp: io_keeps_def io_valid_def or_call_def split: prod.splits sum.splits)

lemma io_keeps_or_model [io_rules]: "(\<And>s. P s \<Longrightarrow> P (fst s, f (snd s))) \<Longrightarrow> io_keeps P (or_model f)"
  unfolding or_model_def by (rule io_keeps_modify)

lemma or_call_model: "or_call m s = (r, s') \<Longrightarrow> snd s' = snd s"
  by (auto simp: or_call_def split: prod.splits)

lemma io_keeps_now [io_rules]: "(\<And>s w. P s \<Longrightarrow> P (w, snd s)) \<Longrightarrow> io_keeps P (now_seconds sv t)"
  unfolding now_seconds_def by (intro io_rules)

lemma io_keeps_fill_each [io_rules]: "(\<And>a r. io_keeps P (f a r)) \<Longrightarrow> io_keeps P (fill_each f l r)"
  by (induction l arbitrary: r) (auto intro!: io_rules)

lemma io_keeps_fill_assets:
  assumes "\<And>s w. P s \<Longrightarrow> P (w, snd s)" and "\<And>s a price fs. P s \<Longrightarrow> P (fst s, registerBootstrapPrice a price fs (snd s))"
  shows "io_keeps P (fill_assets sv cfg feed t l)"
proof -
  have "io_keeps P (fill_from_aave prices feed t a r)" for prices a r
    unfolding fill_from_aave_def registerAavePrice_def by (intro io_rules) (use assms(2) in auto)
  moreover have "io_keeps P (fill_from_peg sv cfg feed t a r)" for a r
    unfolding fill_from_peg_def registerPegPrice_def by (intro io_rules) (use assms in auto)
  ultimately show ?thesis unfolding fill_assets_def by (intro io_rules assms(1))
qed

section \<open>The sequencer\<close>

lemma no_healthy_reading:
  assumes "\<And>w t w'. read_sequencer sv w \<noteq> (Inr (True, t), w')"
  shows "\<exists>e w'. sequencer_attempts sv n w = (Inl e, w')"
proof (induction n arbitrary: w)
  case (Suc n)
  let ?read = "io_catch (io_bind (read_sequencer sv) (\<lambda>r. io_return (Inr r))) (\<lambda>e. io_return (Inl e))"
  obtain r w1 where read: "read_sequencer sv w = (r, w1)" by fastforce
  show ?case
  proof (cases r)
    case (Inl e)
    then have "?read w = (Inr (Inl e), w1)" using read by (simp add: io_catch_def io_bind_def io_return_def)
    with Suc show ?thesis
      by (cases "n = 0") (auto simp: io_bind_def io_then_def io_throw_def retry_pause_def io_modify_def)
  next
    case (Inr p)
    then obtain t where p: "p = (False, t)" using read assms [of w] by (cases p) auto
    with Inr have "?read w = (Inr (Inr (False, t)), w1)" using read by (simp add: io_catch_def io_bind_def io_return_def)
    with Suc show ?thesis
      by (cases "n = 0") (auto simp: io_bind_def io_then_def io_throw_def retry_pause_def io_modify_def)
  qed
qed (simp add: io_throw_def)

lemma attempts_healthy:
  "sequencer_attempts sv n w = (Inr t, w') \<Longrightarrow> \<exists>w1. read_sequencer sv w1 = (Inr (True, t), w')"
proof (induction n arbitrary: w)
  case (Suc n)
  let ?read = "io_catch (io_bind (read_sequencer sv) (\<lambda>r. io_return (Inr r))) (\<lambda>e. io_return (Inl e))"
  obtain r w1 where read: "read_sequencer sv w = (r, w1)" by fastforce
  show ?case
  proof (cases r)
    case (Inl e)
    then have "?read w = (Inr (Inl e), w1)" using read by (simp add: io_catch_def io_bind_def io_return_def)
    with Suc.prems have "\<exists>v. sequencer_attempts sv n v = (Inr t, w')"
      by (auto simp: io_bind_def io_then_def io_throw_def retry_pause_def io_modify_def split: if_splits)
    with Suc.IH show ?thesis by blast
  next
    case (Inr p)
    then obtain h u where p: "p = (h, u)" by fastforce
    with Inr have run: "?read w = (Inr (Inr (h, u)), w1)" using read by (simp add: io_catch_def io_bind_def io_return_def)
    show ?thesis
    proof (cases h)
      case True
      with run Suc.prems have "u = t" "w1 = w'" by (simp_all add: io_bind_def io_return_def)
      with read Inr p True have "read_sequencer sv w = (Inr (True, t), w')" by simp
      then show ?thesis by blast
    next
      case False
      with run Suc.prems have "\<exists>v. sequencer_attempts sv n v = (Inr t, w')"
        by (auto simp: io_bind_def io_then_def io_throw_def retry_pause_def io_modify_def split: if_splits)
      with Suc.IH show ?thesis by blast
    qed
  qed
qed (simp add: io_throw_def)

section \<open>Warm feeds\<close>

definition trusted_price :: "(address \<times> address option) list \<Rightarrow> int \<Rightarrow> position_model \<Rightarrow> string \<Rightarrow> bool" where
  "trusted_price feeds t m key \<longleftrightarrow> (\<exists>a feed answer updatedAt decimals.
     (a, Some feed) \<in> set feeds \<and> to_lower feed = key \<and> 0 < answer \<and> decimals \<le> 18 \<and>
     rat_of_int (t - updatedAt) \<le> rat_of_int (feed_heartbeat feed) * (3 / 2) \<and>
     js_get (pm_prices m) (to_lower a) = Some (answer * 10 ^ nat (18 - decimals)))"

lemma trusted_price_grows:
  "trusted_price done_feeds t m key \<Longrightarrow> set done_feeds \<subseteq> set feeds \<Longrightarrow> trusted_price feeds t m key"
  unfolding trusted_price_def by blast

lemma trusted_after_register:
  assumes "trusted_price feeds t m key" and "to_lower a \<notin> to_lower ` fst ` set feeds"
  shows "trusted_price feeds t (registerBootstrapPrice a price fs m) key"
proof -
  from assms(1) obtain b feed answer updatedAt decimals where *: "(b, Some feed) \<in> set feeds" "to_lower feed = key" "0 < answer" "decimals \<le> 18"
    "rat_of_int (t - updatedAt) \<le> rat_of_int (feed_heartbeat feed) * (3 / 2)"
    "js_get (pm_prices m) (to_lower b) = Some (answer * 10 ^ nat (18 - decimals))"
    unfolding trusted_price_def by blast
  have "to_lower b \<in> to_lower ` fst ` set feeds" using *(1) by (metis fst_conv image_eqI)
  with assms(2) have "to_lower b \<noteq> to_lower a" by metis
  with * show ?thesis unfolding trusted_price_def registerBootstrapPrice_def by fastforce
qed

lemma registerFeedIfWarm_trusted:
  assumes "registerFeedIfWarm a feed reading t (m, warm) = (m', warm')"
    and "\<forall>key \<in> set (wf_critical warm). trusted_price feeds t m key"
    and "to_lower a \<notin> to_lower ` fst ` set feeds"
  shows "\<forall>key \<in> set (wf_critical warm'). trusted_price (feeds @ [(a, Some feed)]) t m' key"
proof -
  obtain answer updatedAt decimals where r: "reading = (answer, updatedAt, decimals)" by (cases reading)
  have old: "trusted_price (feeds @ [(a, Some feed)]) t n key" if "trusted_price feeds t n key" for n key
    by (rule trusted_price_grows [OF that]) auto
  show ?thesis
  proof (cases "answer \<le> 0 \<or> 18 < decimals \<or> round_is_stale feed t updatedAt")
    case True
    with assms(1,2) show ?thesis by (auto simp: registerFeedIfWarm_def r old split: if_splits)
  next
    case False
    let ?fs = "\<lparr>fs_answer = answer, fs_decimals = decimals, fs_updatedAt = updatedAt, fs_feedAddress = feed, fs_asset = a, fs_source = None\<rparr>"
    let ?m = "registerBootstrapPrice a (answer * 10 ^ nat (18 - decimals)) ?fs m"
    have m': "m' = ?m" and keys: "set (wf_critical warm') \<subseteq> insert (to_lower feed) (set (wf_critical warm))"
      using assms(1) False by (auto simp: registerFeedIfWarm_def r Let_def split: if_splits)
    have "trusted_price (feeds @ [(a, Some feed)]) t ?m (to_lower feed)"
      unfolding trusted_price_def
      by (intro exI [of _ a] exI [of _ feed] exI [of _ answer] exI [of _ updatedAt] exI [of _ decimals])
         (use False in \<open>simp add: round_is_stale_def registerBootstrapPrice_def\<close>)
    moreover have "trusted_price (feeds @ [(a, Some feed)]) t ?m key" if "key \<in> set (wf_critical warm)" for key
      by (rule old, rule trusted_after_register) (use assms(2,3) that in auto)
    ultimately show ?thesis using keys m' by auto
  qed
qed

lemma feed_pair_returns: "\<exists>r s'. or_call (readFeedPair sv feed) s = (Inr r, s') \<and> snd s' = snd s"
proof -
  obtain r w where "readFeedPair sv feed (fst s) = (r, w)" by fastforce
  moreover from this obtain p where "r = Inr p"
    by (auto simp: readFeedPair_def io_catch_def io_return_def split: prod.splits sum.splits)
  ultimately show ?thesis by (simp add: or_call_def)
qed

lemma warm_all_trusted:
  assumes "warm_all sv fr t feeds warm s = (Inr warm', s')"
    and "\<forall>key \<in> set (wf_critical warm). trusted_price done_feeds t (snd s) key"
    and "distinct (map (to_lower \<circ> fst) (done_feeds @ feeds))"
  shows "\<forall>key \<in> set (wf_critical warm'). trusted_price (done_feeds @ feeds) t (snd s') key"
  using assms
proof (induction feeds arbitrary: warm s done_feeds)
  case Nil
  then show ?case by (simp add: io_return_def)
next
  case (Cons entry feeds)
  obtain a f where entry: "entry = (a, f)" by fastforce
  from Cons.prems(1) obtain warm1 s1 where one: "warm_feed sv fr t entry warm s = (Inr warm1, s1)"
    and rest: "warm_all sv fr t feeds warm1 s1 = (Inr warm', s')"
    by (auto simp: io_bind_Inr)
  have fresh: "to_lower a \<notin> to_lower ` fst ` set done_feeds" using Cons.prems(3) by (auto simp: entry)
  have skip: "\<forall>key \<in> set (wf_critical warm). trusted_price (done_feeds @ [entry]) t (snd s) key"
    using Cons.prems(2) by (auto intro: trusted_price_grows [of done_feeds])
  have "\<forall>key \<in> set (wf_critical warm1). trusted_price (done_feeds @ [entry]) t (snd s1) key"
  proof (cases f)
    case None
    with one skip show ?thesis by (simp add: warm_feed_def entry io_return_def)
  next
    case (Some feed)
    let ?read = "case known_reading fr a feed of Some reading \<Rightarrow> io_return (Some reading) | None \<Rightarrow> or_call (readFeedPair sv feed)"
    obtain r s0 where read: "?read s = (Inr r, s0)" and model: "snd s0 = snd s"
      using feed_pair_returns [of sv feed s] by (cases "known_reading fr a feed") (auto simp: io_return_def)
    show ?thesis
    proof (cases r)
      case None
      with one read model skip show ?thesis by (simp add: warm_feed_def entry Some io_bind_def io_return_def)
    next
      case (Some reading)
      obtain m w where reg: "registerFeedIfWarm a feed reading t (snd s0, warm) = (m, w)" by fastforce
      have "warm1 = w" "snd s1 = m"
        using one read reg by (auto simp: warm_feed_def entry \<open>f = Some feed\<close> io_bind_def Some)
      with registerFeedIfWarm_trusted [OF reg] Cons.prems(2) fresh model show ?thesis by (simp add: entry \<open>f = Some feed\<close>)
    qed
  qed
  then have "\<forall>key \<in> set (wf_critical warm'). trusted_price ((done_feeds @ [entry]) @ feeds) t (snd s') key"
    by (intro Cons.IH [OF rest]) (use Cons.prems(3) in auto)
  then show ?case by simp
qed

section \<open>Accounts of a gap fill\<close>

definition priced :: "position_model \<Rightarrow> address \<Rightarrow> bool" where
  "priced m a \<longleftrightarrow> (\<exists>price. js_get (pm_prices m) (to_lower a) = Some price \<and> 1 < price)"

text \<open>What filling keeps of a model: everything but prices and feed states, and no priced asset is lost.\<close>

definition filled :: "position_model \<Rightarrow> position_model \<Rightarrow> bool" where
  "filled m m' \<longleftrightarrow> pm_positions m' = pm_positions m \<and> pm_reserveConfig m' = pm_reserveConfig m \<and>
     (\<forall>a. priced m a \<longrightarrow> priced m' a) \<and>
     (\<forall>k price. js_get (pm_prices m') k = Some price \<longrightarrow> js_get (pm_prices m) k = Some price \<or> 1 < price)"

lemma filled_refl [simp]: "filled m m"
  by (simp add: filled_def)

lemma filled_trans: "filled m m1 \<Longrightarrow> filled m1 m2 \<Longrightarrow> filled m m2"
  unfolding filled_def by metis

lemma filled_register: "1 < price \<Longrightarrow> filled m (registerBootstrapPrice a price fs m) \<and> priced (registerBootstrapPrice a price fs m) a"
  by (auto simp: filled_def priced_def registerBootstrapPrice_def)

lemma filled_priced: "filled m m' \<Longrightarrow> priced m a \<Longrightarrow> priced m' a"
  by (simp add: filled_def)

text \<open>What one step of a fill does: it counts its asset once, and if not as failed, the asset is priced.\<close>

definition fills :: "(address \<Rightarrow> fill_result \<Rightarrow> ('w, fill_result) boot_io) \<Rightarrow> address \<Rightarrow> bool" where
  "fills f a \<longleftrightarrow> (\<forall>r s r' s'. f a r s = (Inr r', s') \<longrightarrow> filled (snd s) (snd s') \<and>
     (r' = count_unpriced a r \<or> r' = count_warmed r \<and> priced (snd s') a))"

lemma fills_aave:
  assumes "\<forall>k price. js_get prices k = Some price \<longrightarrow> 0 < price"
  shows "fills (fill_from_aave prices feed t) a"
  unfolding fills_def
proof (intro allI impI)
  fix r s r' s' assume run: "fill_from_aave prices feed t a r s = (Inr r', s')"
  show "filled (snd s) (snd s') \<and> (r' = count_unpriced a r \<or> r' = count_warmed r \<and> priced (snd s') a)"
  proof (cases "js_get prices (to_lower a)")
    case None
    with run show ?thesis by (simp add: fill_from_aave_def io_return_def)
  next
    case (Some price)
    then have "0 < price" using assms by blast
    then have "normalizeAavePriceToWad18 price \<noteq> 0" "1 < normalizeAavePriceToWad18 price"
      by (simp_all add: normalizeAavePriceToWad18_def)
    with Some run filled_register show ?thesis
      by (auto simp: fill_from_aave_def io_then_def io_bind_def or_model_def io_modify_def io_return_def registerAavePrice_def)
  qed
qed

lemma fills_peg: "fills (fill_from_peg sv cfg feed t) a"
  unfolding fills_def
proof (intro allI impI)
  fix r s r' s' assume run: "fill_from_peg sv cfg feed t a r s = (Inr r', s')"
  let ?m = "snd s"
  have peg: "filled m (registerPegPrice a price BASE_USDC t m) \<and> priced (registerPegPrice a price BASE_USDC t m) a" if "1 < price" for price m
    unfolding registerPegPrice_def by (rule filled_register [OF that])
  show "filled ?m (snd s') \<and> (r' = count_unpriced a r \<or> r' = count_warmed r \<and> priced (snd s') a)"
  proof (cases "pegUsdbcPriceFromHealthyReference (pegHealthInput cfg t ?m)")
    case (Some price)
    with healthyReference_price [OF Some] run peg show ?thesis
      by (auto simp: fill_from_peg_def io_bind_def io_then_def io_get_def or_model_def io_modify_def io_return_def)
  next
    case None
    note none = None
    show ?thesis
    proof (cases "js_get (pm_prices ?m) (to_lower BASE_USDC)")
      case None
      with none run show ?thesis by (simp add: fill_from_peg_def io_bind_def io_get_def io_return_def)
    next
      case (Some usdc)
      show ?thesis
      proof (cases "usdc \<le> 1")
        case True
        with Some none run show ?thesis by (simp add: fill_from_peg_def io_bind_def io_get_def io_return_def)
      next
        case False
        with Some none run obtain x s1 where "or_call (fetchAaveAssetPrices sv feed [a]) s = (Inr x, s1)"
          and s': "snd s' = registerPegPrice a (pegUsdbcFromUsdcPrice usdc) BASE_USDC t (snd s1)" "r' = count_warmed r"
          by (auto simp: fill_from_peg_def io_bind_def io_then_def io_get_def or_model_def io_modify_def io_return_def split: prod.splits sum.splits)
        then have "snd s1 = ?m" by (simp add: or_call_model)
        with s' False peg [of usdc ?m] show ?thesis by (simp add: pegUsdbcFromUsdcPrice_def)
      qed
    qed
  qed
qed

lemma fill_each_accounts:
  assumes "\<And>a. a \<in> set assets \<Longrightarrow> fills f a" and "fill_each f assets r s = (Inr r', s')"
  shows "filled (snd s) (snd s') \<and> fi_warmed r' + length (fi_failed r') = fi_warmed r + length (fi_failed r) + length assets \<and>
    set (fi_failed r) \<subseteq> set (fi_failed r') \<and> (\<forall>a \<in> set assets. a \<in> set (fi_failed r') \<or> priced (snd s') a)"
  using assms
proof (induction assets arbitrary: r s)
  case (Cons a assets)
  from Cons.prems(2) obtain r1 s1 where one: "f a r s = (Inr r1, s1)" and rest: "fill_each f assets r1 s1 = (Inr r', s')"
    by (auto simp: io_bind_Inr)
  have first: "filled (snd s) (snd s1)" "r1 = count_unpriced a r \<or> r1 = count_warmed r \<and> priced (snd s1) a"
    using Cons.prems(1) [of a] one unfolding fills_def by (metis list.set_intros(1))+
  have IH: "filled (snd s1) (snd s')" "fi_warmed r' + length (fi_failed r') = fi_warmed r1 + length (fi_failed r1) + length assets"
    "set (fi_failed r1) \<subseteq> set (fi_failed r')" "\<forall>a \<in> set assets. a \<in> set (fi_failed r') \<or> priced (snd s') a"
    using Cons.IH [OF _ rest] Cons.prems(1) by simp_all
  have counts: "fi_warmed r1 + length (fi_failed r1) = Suc (fi_warmed r + length (fi_failed r))" "set (fi_failed r) \<subseteq> set (fi_failed r1)"
    using first(2) by (elim disjE; simp add: count_unpriced_def count_warmed_def subset_insertI)+
  have "a \<in> set (fi_failed r') \<or> priced (snd s') a"
    using first(2)
  proof
    assume "r1 = count_unpriced a r"
    then have "a \<in> set (fi_failed r1)" by (simp add: count_unpriced_def)
    with IH(3) show ?thesis by blast
  next
    assume "r1 = count_warmed r \<and> priced (snd s1) a"
    with filled_priced [OF IH(1)] show ?thesis by blast
  qed
  moreover have "set (fi_failed r) \<subseteq> set (fi_failed r')" using counts(2) IH(3) by blast
  ultimately show ?case using filled_trans [OF first(1) IH(1)] IH(2,4) counts(1) by simp
qed (simp add: io_return_def)

lemma price_rows_positive:
  assumes "\<forall>k price. js_get out k = Some price \<longrightarrow> 0 < price"
  shows "\<forall>k price. js_get (price_rows batch results out) k = Some price \<longrightarrow> (0 :: int) < price"
  using assms
proof (induction batch arbitrary: results out)
  case (Cons a batch)
  let ?out = "case results of Some price # _ \<Rightarrow> if 0 < price then js_set (to_lower a) price out else out | _ \<Rightarrow> out"
  have "\<forall>k price. js_get ?out k = Some price \<longrightarrow> 0 < price"
  proof (cases "\<exists>price rest. results = Some price # rest \<and> 0 < price")
    case True
    then obtain price rest where "results = Some price # rest" "0 < price" by blast
    with Cons.prems show ?thesis by simp
  next
    case False
    then have "?out = out" by (auto split: list.split option.split)
    with Cons.prems show ?thesis by simp
  qed
  then show ?case unfolding price_rows.simps by (rule Cons.IH)
qed simp

lemma fetch_prices_positive:
  "fetch_price_batches sv feed bs out w = (Inr prices, w') \<Longrightarrow> \<forall>k price. js_get out k = Some price \<longrightarrow> 0 < price \<Longrightarrow>
   \<forall>k price. js_get prices k = Some price \<longrightarrow> 0 < price"
proof (induction bs arbitrary: out w)
  case (Cons b bs)
  then obtain results w1 where rest: "fetch_price_batches sv feed bs (price_rows b results out) w1 = (Inr prices, w')"
    by (auto simp: io_bind_Inr)
  show ?case by (rule Cons.IH [OF rest price_rows_positive [OF Cons.prems(2)]])
qed (simp add: io_return_def)

lemma fill_assets_accounts:
  assumes "fill_assets sv cfg feed t assets s = (Inr r, s')"
  shows "filled (snd s) (snd s') \<and> fi_warmed r + length (fi_failed r) = length assets \<and>
    (\<forall>a \<in> set assets. a \<in> set (fi_failed r) \<or> priced (snd s') a)"
proof -
  let ?aave = "filter (\<lambda>a. \<not> isUsdbcAsset a) assets" and ?peg = "filter isUsdbcAsset assets"
  obtain prices s0 r1 s1 where fetch: "or_call (fetchAaveAssetPrices sv feed ?aave) s = (Inr prices, s0)"
    and aave: "fill_each (fill_from_aave prices feed t) ?aave \<lparr>fi_warmed = 0, fi_failed = []\<rparr> s0 = (Inr r1, s1)"
    and peg: "fill_each (fill_from_peg sv cfg feed t) ?peg r1 s1 = (Inr r, s')"
    using assms by (auto simp: fill_assets_def io_bind_Inr)
  obtain w' where "fetchAaveAssetPrices sv feed ?aave (fst s) = (Inr prices, w')"
    using fetch by (auto simp: or_call_def split: prod.splits)
  then have "\<forall>k price. js_get prices k = Some price \<longrightarrow> 0 < price"
    unfolding fetchAaveAssetPrices_def by (rule fetch_prices_positive) simp
  note one = fill_each_accounts [OF fills_aave [OF this] aave]
  note two = fill_each_accounts [OF fills_peg peg]
  have "length ?aave + length ?peg = length assets" using sum_length_filter_compl [of isUsdbcAsset assets] by simp
  moreover have "a \<in> set (fi_failed r) \<or> priced (snd s') a" if "a \<in> set assets" for a
    using that one two filled_priced [of "snd s1" "snd s'" a] by (cases "isUsdbcAsset a") auto
  ultimately show ?thesis
    using one two or_call_model [OF fetch] filled_trans by auto
qed

section \<open>What is left to fill\<close>

definition asset_keys :: "position_model \<Rightarrow> address set" where
  "asset_keys m = set (js_keys (pm_reserveConfig m)) \<union> (\<Union>p \<in> set (js_values (pm_positions m)). set (position_keys p))"

lemma fold_needed:
  "set (fold (\<lambda>k acc. if P k then js_add k acc else acc) l acc) = set acc \<union> {k \<in> set l. P k}"
  by (induction l arbitrary: acc) auto

lemma set_needed: "set (collectAssetsNeedingGapFill m) = {k \<in> asset_keys m. placeholder_or_none m k}"
  unfolding collectAssetsNeedingGapFill_def fold_needed by (auto simp: asset_keys_def)

lemma fold_registerReserve:
  "pm_prices (fold (\<lambda>a. registerReserve a lt) l m) = pm_prices m \<and> pm_positions (fold (\<lambda>a. registerReserve a lt) l m) = pm_positions m \<and>
   set (js_keys (pm_reserveConfig (fold (\<lambda>a. registerReserve a lt) l m))) = set (js_keys (pm_reserveConfig m)) \<union> to_lower ` set l"
proof (induction l arbitrary: m)
  case (Cons a l)
  have "pm_prices (registerReserve a lt m) = pm_prices m" "pm_positions (registerReserve a lt m) = pm_positions m"
    "set (js_keys (pm_reserveConfig (registerReserve a lt m))) = insert (to_lower a) (set (js_keys (pm_reserveConfig m)))"
    by (auto simp: registerReserve_def js_keys_set js_has_iff js_get_None_iff)
  with Cons [of "registerReserve a lt m"] show ?case by simp
qed simp

lemma now_seconds_runs: "\<exists>n w. now_seconds sv t s = (Inr n, (w, snd s))"
  by (auto simp: now_seconds_def or_call_def io_return_def split: option.splits prod.splits)
     (metis prod.collapse)

text \<open>The assets of a model are in lower case and its prices at least the placeholder.\<close>

definition prices_ok :: "position_model \<Rightarrow> bool" where
  "prices_ok m \<longleftrightarrow> (\<forall>k \<in> asset_keys m. to_lower k = k) \<and> (\<forall>k price. js_get (pm_prices m) k = Some price \<longrightarrow> 1 \<le> price)"

lemma filled_asset_keys: "filled m m' \<Longrightarrow> asset_keys m' = asset_keys m"
  by (simp add: filled_def asset_keys_def)

lemma filled_prices_ok: "filled m m' \<Longrightarrow> prices_ok m \<Longrightarrow> prices_ok m'"
  unfolding prices_ok_def filled_asset_keys by (fastforce simp: filled_def)

lemma priced_not_placeholder: "priced m k \<Longrightarrow> to_lower k = k \<Longrightarrow> \<not> placeholder_or_none m k"
  by (auto simp: priced_def placeholder_or_none_def)

lemma not_placeholder_priced: "prices_ok m \<Longrightarrow> k \<in> asset_keys m \<Longrightarrow> \<not> placeholder_or_none m k \<Longrightarrow> priced m k"
  by (force simp: prices_ok_def priced_def placeholder_or_none_def split: option.splits)

lemma gap_fill_leaves:
  assumes run: "bootstrapAaveOracleGapFill sv cfg feed t s = (Inr r, s')" and ok: "prices_ok (snd s)"
  shows "fi_warmed r + length (fi_failed r) = length (collectAssetsNeedingGapFill (snd s)) \<and>
    prices_ok (snd s') \<and> set (collectAssetsNeedingGapFill (snd s')) \<subseteq> set (fi_failed r)"
proof -
  let ?needed = "collectAssetsNeedingGapFill (snd s)"
  obtain n w where now: "now_seconds sv t s = (Inr n, (w, snd s))" using now_seconds_runs [of sv t s] by metis
  show ?thesis
  proof (cases "?needed = []")
    case True
    with run now ok show ?thesis by (auto simp: bootstrapAaveOracleGapFill_def io_bind_def io_get_def io_return_def)
  next
    case False
    define m where "m = fold (\<lambda>a. registerReserve a BASE_LT_BPS) ?needed (snd s)"
    note m = fold_registerReserve [of BASE_LT_BPS ?needed "snd s", folded m_def]
    have "fill_assets sv cfg feed n ?needed (w, m) = (Inr r, s')"
      using run now False by (simp add: bootstrapAaveOracleGapFill_def io_bind_def io_then_def io_get_def or_model_def io_modify_def m_def)
    note fill = fill_assets_accounts [OF this, unfolded snd_conv]
    have lower: "to_lower k = k" if "k \<in> set ?needed" for k using that ok by (auto simp: set_needed prices_ok_def)
    then have "to_lower ` set ?needed = set ?needed" by (simp add: image_cong [where g = id])
    then have keys: "asset_keys m = asset_keys (snd s)" using m by (auto simp: asset_keys_def set_needed)
    with ok m have ok_m: "prices_ok m" by (simp add: prices_ok_def)
    have "k \<in> set (fi_failed r)" if "k \<in> asset_keys (snd s')" "placeholder_or_none (snd s') k" for k
    proof (rule ccontr)
      assume not_failed: "k \<notin> set (fi_failed r)"
      have k: "k \<in> asset_keys (snd s)" using that(1) filled_asset_keys fill keys by blast
      have "priced (snd s') k"
      proof (cases "k \<in> set ?needed")
        case True
        with fill not_failed show ?thesis by blast
      next
        case False
        with k have "\<not> placeholder_or_none m k" using m by (simp add: set_needed placeholder_or_none_def)
        with not_placeholder_priced [OF ok_m] keys k have "priced m k" by blast
        with fill filled_priced show ?thesis by blast
      qed
      with priced_not_placeholder that(2) k ok show False by (auto simp: prices_ok_def)
    qed
    with fill filled_prices_ok [OF _ ok_m] show ?thesis by (auto simp: set_needed)
  qed
qed

lemma nothing_needed_covers:
  assumes "prices_ok m" and "collectAssetsNeedingGapFill m = []"
  shows "cv_blindAssets (computeOracleCoverage m) = 0 \<and> cv_coveredPct (computeOracleCoverage m) = 100"
proof -
  have "covered_asset m k" if "p \<in> set (filter up_isFullySeeded (js_values (pm_positions m)))" "k \<in> set (used_assets p)" for p k
  proof -
    from that have k: "k \<in> asset_keys m" by (auto simp: used_assets_def asset_keys_def)
    with assms set_needed [of m] have "\<not> placeholder_or_none m k" by auto
    from not_placeholder_priced [OF assms(1) k this] assms(1) k show ?thesis
      by (auto simp: priced_def covered_asset_def prices_ok_def)
  qed
  then have "sum_list (map (\<lambda>p. length (filter (covered_asset m) (used_assets p))) (filter up_isFullySeeded (js_values (pm_positions m)))) =
    sum_list (map (\<lambda>p. length (used_assets p)) (filter up_isFullySeeded (js_values (pm_positions m))))"
    by (intro arg_cong [where f = sum_list] map_cong refl arg_cong [where f = length] filter_True) blast
  then show ?thesis unfolding computeOracleCoverage_def Let_def by simp
qed

section \<open>Properties\<close>

lemma healthy_reading:
  "read_sequencer sv w = (Inr (True, t), w') \<Longrightarrow> \<exists>startedAt updatedAt w1.
     or_readSequencer sv w = (Inr (Some (Some 0, startedAt, updatedAt)), w1) \<and> or_blockTimestamp sv w1 = (Inr t, w') \<and> startedAt + 3600 \<le> t"
  by (fastforce simp: read_sequencer_def io_bind_Inr parseSequencerRound_def SEQUENCER_GRACE_PERIOD_SECONDS_def io_return_def io_throw_def
      split: option.splits prod.splits)


text \<open>As long as no reading finds the sequencer up for an hour, whether it is down, in its grace period or
  not to be read, the bootstrap ends after its attempts with an exception and has changed nothing in the
  model; in particular it never returns a result that says the sequencer is unhealthy.\<close>

theorem sequencer_down_aborts:
  assumes "\<And>w t w'. read_sequencer sv w \<noteq> (Inr (True, t), w')"
  shows "\<exists>e w'. runOraclePriceBootstrap sv feeds s = (Inl e, (w', snd s))"
proof -
  obtain e w' where "sequencer_attempts sv BOOTSTRAP_MAX_RETRIES (fst s) = (Inl e, w')"
    using no_healthy_reading [OF assms] by blast
  then show ?thesis by (simp add: runOraclePriceBootstrap_def io_bind_def or_call_def)
qed

text \<open>A gap fill that returns accounts for every asset that needed a price, as warmed or as failed, and
  whatever still needs one afterwards is among the failed. If none failed then no asset of a seeded
  position is without a price, and the coverage is full.\<close>

theorem gap_fill_covers:
  assumes "bootstrapAaveOracleGapFill sv cfg feed t s = (Inr r, s')" and "prices_ok (snd s)"
  shows "fi_warmed r + length (fi_failed r) = length (collectAssetsNeedingGapFill (snd s)) \<and>
    set (collectAssetsNeedingGapFill (snd s')) \<subseteq> set (fi_failed r) \<and>
    (fi_failed r = [] \<longrightarrow> cv_blindAssets (computeOracleCoverage (snd s')) = 0 \<and> cv_coveredPct (computeOracleCoverage (snd s')) = 100)"
  using gap_fill_leaves [OF assms] nothing_needed_covers [of "snd s'"] by auto

text \<open>A refresh of the gap prices always returns, whatever its services do, and leaves every position with
  the health factor and the tier that it had.\<close>

theorem refresh_moves_no_tier:
  "\<exists>r w' m'. refreshGapFillPrices sv cfg feed t s = (Inr r, (w', m')) \<and> pm_positions m' = pm_positions (snd s)"
proof -
  obtain n w where now: "now_seconds sv t s = (Inr n, (w, snd s))" using now_seconds_runs [of sv t s] by metis
  let ?assets = "filter (\<lambda>a. js_has (pm_reserveConfig (snd s)) (to_lower a)) BASE_GAP_FILL_ASSETS"
  obtain r s1 where fill: "fill_assets sv cfg feed n ?assets (w, snd s) = (r, s1)" by (meson surj_pair)
  have "io_keeps (\<lambda>s'. pm_positions (snd s') = pm_positions (snd s)) (fill_assets sv cfg feed n ?assets)"
    by (rule io_keeps_fill_assets) (simp_all add: registerBootstrapPrice_def)
  from io_keepsD [OF this, of "(w, snd s)"] fill have "pm_positions (snd s1) = pm_positions (snd s)" by simp
  with now fill show ?thesis
    by (cases r) (cases s1; auto simp: refreshGapFillPrices_def io_bind_def io_get_def io_catch_def io_return_def)+
qed

section \<open>Witnesses\<close>

text \<open>A sequencer that has been up since the start of time, feeds that answer one dollar, and no answer to the
  batched calls, so that every feed is read by itself.\<close>

definition sample_reads :: "int \<Rightarrow> 'w bootstrap_reads" where
  "sample_reads answer =
     \<lparr>or_readSequencer = io_return (Some (Some answer, 0, 0)), or_blockTimestamp = io_return 4000, or_sleep = (\<lambda>ms w. w),
      or_multicall = (\<lambda>calls. io_return []), or_readRound = (\<lambda>feed. io_return (Some (Some 100000000, 0, 4000))),
      or_readDecimals = (\<lambda>feed. io_return (Some 8)),
      or_multicallPrices = (\<lambda>feed batch. io_return (map (\<lambda>a. Some 100000000) batch)), or_now = (\<lambda>w. (0, w))\<rparr>"

definition sample_feeds :: "(address \<times> address option) list" where
  "sample_feeds = zip [''a'', ''b''] (map Some CRITICAL_FEEDS)"

lemma heartbeat_pos: "0 \<le> feed_heartbeat feed"
proof -
  have "list_all (\<lambda>e. 0 \<le> snd e) FEED_HEARTBEATS" by code_simp
  then show ?thesis by (auto simp: feed_heartbeat_def js_get_def list_all_iff split: option.splits dest!: map_of_SomeD)
qed

lemma sample_reading: "read_sequencer (sample_reads answer) () = (Inr (answer = 0, 4000), ())"
  by (simp add: read_sequencer_def sample_reads_def parseSequencerRound_def SEQUENCER_GRACE_PERIOD_SECONDS_def io_bind_def io_return_def)

lemma sample_fresh: "\<not> round_is_stale feed 4000 4000"
  using heartbeat_pos [of feed] by (simp add: round_is_stale_def not_less)

lemma sample_warm:
  "\<exists>m. warm_feed (sample_reads answer) \<lparr>fr_model = n, fr_rounds = [], fr_decimals = []\<rparr> 4000 (a, Some feed) warm ((), model) =
    (Inr \<lparr>wf_critical = (if is_critical feed then js_add (to_lower feed) (wf_critical warm) else wf_critical warm),
          wf_prices = js_set a (feed, 10 ^ 18, 8) (wf_prices warm)\<rparr>, ((), m))"
  using sample_fresh [of feed]
  by (simp add: warm_feed_def known_reading_def js_get_def readFeedPair_def or_call_def io_catch_def io_bind_def io_return_def
      sample_reads_def parseLatestRoundData_def registerFeedIfWarm_def Let_def)

lemma sample_cross: "\<exists>rs. io_map (cross_check (sample_reads answer)) rows () = (Inr rs, ())"
proof (induction rows)
  case (Cons row rows)
  obtain a feed price decimals where row: "row = (a, feed, price, decimals)" by (cases row)
  have "\<exists>rs. cross_check (sample_reads answer) row () = (Inr rs, ())"
    by (simp add: row cross_check_def sample_reads_def io_catch_def io_bind_def io_return_def parseLatestRoundData_def Let_def)
  with Cons show ?case by (auto simp: io_bind_def io_return_def)
qed (simp add: io_return_def)

lemma sample_skips: "fold process_response (with_responses calls []) fr = fr"
proof -
  have "fold process_response (zip calls (replicate n None)) fr = fr" for n
    by (induction calls arbitrary: n) (case_tac n; simp)+
  then show ?thesis by (simp add: with_responses_def)
qed

lemma sample_warm_all:
  "\<exists>m prices. warm_all (sample_reads answer) \<lparr>fr_model = n, fr_rounds = [], fr_decimals = []\<rparr> 4000 sample_feeds
     \<lparr>wf_critical = [], wf_prices = []\<rparr> ((), model) = (Inr \<lparr>wf_critical = js_add (to_lower (CRITICAL_FEEDS ! 1)) [to_lower (CRITICAL_FEEDS ! 0)], wf_prices = prices\<rparr>, ((), m))"
proof -
  define c where "c i = CRITICAL_FEEDS ! i" for i
  have feeds: "sample_feeds = [(''a'', Some (c 0)), (''b'', Some (c 1))]" and crit: "is_critical (c 0)" "is_critical (c 1)"
    by (simp_all add: sample_feeds_def c_def CRITICAL_FEEDS_def is_critical_def)
  let ?fr = "\<lparr>fr_model = n, fr_rounds = [], fr_decimals = []\<rparr>"
  obtain m1 where one: "warm_feed (sample_reads answer) ?fr 4000 (''a'', Some (c 0)) \<lparr>wf_critical = [], wf_prices = []\<rparr> ((), model) =
      (Inr \<lparr>wf_critical = [to_lower (c 0)], wf_prices = js_set ''a'' (c 0, 10 ^ 18, 8) []\<rparr>, ((), m1))"
    using sample_warm [of answer n "''a''" "c 0" "\<lparr>wf_critical = [], wf_prices = []\<rparr>" model] crit by (auto simp: js_add_def)
  from sample_warm [of answer n "''b''" "c 1" "\<lparr>wf_critical = [to_lower (c 0)], wf_prices = js_set ''a'' (c 0, 10 ^ 18, 8) []\<rparr>" m1] crit
  show ?thesis by (auto simp: feeds io_bind_def io_return_def one [unfolded c_def] c_def)
qed


theorem sequencer_down_aborts_witness:
  "\<exists>e. runOraclePriceBootstrap (sample_reads 1) sample_feeds ((), new_model 0) = (Inl e, ((), new_model 0))"
  using sequencer_down_aborts [of "sample_reads 1" sample_feeds "((), new_model 0)"] sample_reading [of 1] by auto

theorem gap_fill_covers_witness:
  "\<exists>r s'. bootstrapAaveOracleGapFill (sample_reads 0) sample_cfg ''0xO'' None ((), registerReserve ''dai'' 8000 (new_model 0)) = (Inr r, s') \<and>
    fi_warmed r + length (fi_failed r) = 1 \<and> set (collectAssetsNeedingGapFill (snd s')) \<subseteq> set (fi_failed r)"
proof -
  let ?m = "registerReserve ''dai'' 8000 (new_model 0)"
  have low: "to_lower ''dai'' = ''dai''" "isUsdbcAsset ''dai'' = False" by code_simp+
  have m: "?m = (new_model 0)\<lparr>pm_reserveConfig := [(''dai'', fresh_reserve ''dai'' 8000 None)]\<rparr>"
    by (simp add: registerReserve_def new_model_def js_has_iff js_get_def js_set_def low)
  have needed: "collectAssetsNeedingGapFill ?m = [''dai'']"
    unfolding m by (simp add: collectAssetsNeedingGapFill_def js_keys_def js_values_def new_model_def placeholder_or_none_def js_get_def js_add_def)
  have ok: "prices_ok ?m"
    unfolding m by (simp add: prices_ok_def asset_keys_def js_keys_def js_values_def new_model_def js_get_def low)
  have "\<exists>r s'. bootstrapAaveOracleGapFill (sample_reads 0) sample_cfg ''0xO'' None ((), ?m) = (Inr r, s')"
    by (simp add: bootstrapAaveOracleGapFill_def needed now_seconds_def or_call_def io_bind_def io_then_def io_get_def or_model_def io_modify_def
        io_return_def fill_assets_def fetchAaveAssetPrices_def batches.simps low sample_reads_def fill_from_aave_def)
  then obtain r s' where run: "bootstrapAaveOracleGapFill (sample_reads 0) sample_cfg ''0xO'' None ((), ?m) = (Inr r, s')" by blast
  from gap_fill_covers [OF run, unfolded snd_conv, OF ok] run show ?thesis by (auto simp: needed)
qed

end
