(* ===== verification/Bootstrap_Sweep.thy ===== *)
theory Bootstrap_Sweep
  imports Event_Purity Oracle_Bootstrap Price_Oracle
begin

text \<open>
  How the position model is filled at the start: \<open>src/monitors/partialBootstrapSweep.ts\<close> looks for the
  borrowers in the logs of the last days, or in a subgraph, keeps those with debt, and seeds them from
  the chain; \<open>bootstrapSnapshotStore.ts\<close> and \<open>bootstrapDiscoveryCache.ts\<close> keep the results in files for the
  next start; \<open>start\<close> of \<open>eventPurityStack.ts\<close> composes the sweep, the first prices and the ingestion of
  events. Contract reads, logs, the subgraph, sleeping, the clock and the files with their JSON are
  services. The amounts of a file are strings of digits there and integers here; sizes of batches and
  chunks are at least one. Log lines and metrics are left out.
\<close>

section \<open>Files and services\<close>

datatype bootstrap_source = FromLogs | FromSubgraph | FromCache

record snapshot_file =
  sf_version :: nat
  sf_chain :: string
  sf_source :: bootstrap_source
  sf_savedAtMs :: int
  sf_blockNumber :: int
  sf_usersSeeded :: nat
  sf_positions :: "seed_input list"

record discovery_file =
  df_version :: nat
  df_chain :: string
  df_savedAtMs :: int
  df_blockNumber :: int
  df_source :: bootstrap_source
  df_accounts :: "address list"
  df_withDebt :: "address list"

record 'w boot_services =
  bt_getBlockNumber :: "('w, int) io"
  bt_now :: "'w \<Rightarrow> int \<times> 'w"
  bt_sleep :: "int \<Rightarrow> 'w \<Rightarrow> 'w"
  bt_getLogs :: "string \<Rightarrow> pool_event_name \<Rightarrow> int \<Rightarrow> int \<Rightarrow> ('w, pool_log list) io"
  bt_subgraph :: "string \<Rightarrow> ('w, address list) io"
  bt_multicallAccounts :: "address list \<Rightarrow> ('w, account_data option list) io"
  bt_multicallReserves :: "address list \<Rightarrow> ('w, (user_reserve list \<times> int) option list) io"
  bt_readSnapshot :: "('w, snapshot_file) io"
  bt_writeSnapshot :: "snapshot_file \<Rightarrow> ('w, unit) io"
  bt_readDiscovery :: "('w, discovery_file) io"
  bt_writeDiscovery :: "discovery_file \<Rightarrow> ('w, unit) io"
  bt_forceRefresh :: bool

record boot_config =
  bc_chain :: string
  bc_model :: model_config
  bc_lookbackDays :: rat
  bc_chunkBlocks :: "int option"
  bc_accountBatchSize :: "nat option"
  bc_reserveBatchSize :: "nat option"
  bc_subgraphUrl :: "string option"
  bc_skipLogDiscovery :: bool
  bc_discoveredAccounts :: "address list option"
  bc_forcedSource :: "bootstrap_source option"
  bc_logClients :: "string list option"
  bc_cacheEnabled :: "bool option"
  bc_cacheTtlHours :: "rat option"
  bc_reserveAllowlist :: "address list option"

definition bt_clock :: "'w boot_services \<Rightarrow> ('w, int) io" where
  "bt_clock sv w = (case bt_now sv w of (t, w') \<Rightarrow> (Inr t, w'))"

definition BOOTSTRAP_SNAPSHOT_VERSION :: nat where
  "BOOTSTRAP_SNAPSHOT_VERSION = 2"

definition DISCOVERY_CACHE_VERSION :: nat where
  "DISCOVERY_CACHE_VERSION = 1"

definition BASE_BLOCKS_PER_DAY :: int where
  "BASE_BLOCKS_PER_DAY = 43200"

definition BOOTSTRAP_EVENT_NAMES :: "pool_event_name list" where
  "BOOTSTRAP_EVENT_NAMES = [Supply, Borrow, Repay, Withdraw, LiquidationCall]"

definition GETLOGS_ATTEMPTS_PER_RPC :: int where
  "GETLOGS_ATTEMPTS_PER_RPC = 3"

section \<open>The snapshot store\<close>

definition within_ttl :: "rat \<Rightarrow> int \<Rightarrow> int \<Rightarrow> bool" where
  "within_ttl ttlHours savedAtMs nowMs \<longleftrightarrow> rat_of_int (nowMs - savedAtMs) \<le> ttlHours * 3600000"

definition snapshot_loadIfFresh :: "'w boot_services \<Rightarrow> string \<Rightarrow> rat \<Rightarrow> ('w, snapshot_file option) io" where
  "snapshot_loadIfFresh sv chain ttlHours =
     io_catch
       (io_bind (bt_readSnapshot sv) (\<lambda>parsed.
          if sf_version parsed \<noteq> BOOTSTRAP_SNAPSHOT_VERSION \<or> sf_chain parsed \<noteq> chain then io_return None
          else io_bind (bt_clock sv) (\<lambda>nowMs.
            io_return (if within_ttl ttlHours (sf_savedAtMs parsed) nowMs then Some parsed else None))))
       (\<lambda>_. io_return None)"

definition applyToModel :: "model_config \<Rightarrow> snapshot_file \<Rightarrow> position_model \<Rightarrow> position_model" where
  "applyToModel cfg file m = fold (\<lambda>row. seedFromOnChainSnapshot cfg (row\<lparr>si_blockNumber := sf_blockNumber file\<rparr>)) (sf_positions file) m"

definition buildSnapshotFromModel :: "string \<Rightarrow> bootstrap_source \<Rightarrow> int \<Rightarrow> int \<Rightarrow> position_model \<Rightarrow> snapshot_file" where
  "buildSnapshotFromModel chain source blockNumber nowMs m =
     \<lparr>sf_version = BOOTSTRAP_SNAPSHOT_VERSION, sf_chain = chain, sf_source = source, sf_savedAtMs = nowMs, sf_blockNumber = blockNumber,
      sf_usersSeeded = length (exportBootstrapSnapshots m), sf_positions = exportBootstrapSnapshots m\<rparr>"

section \<open>The discovery cache\<close>

definition discovery_loadIfFresh :: "'w boot_services \<Rightarrow> string \<Rightarrow> rat \<Rightarrow> int \<Rightarrow> ('w, discovery_file option) io" where
  "discovery_loadIfFresh sv chain ttlHours blockNumber =
     io_catch
       (io_bind (bt_readDiscovery sv) (\<lambda>parsed.
          if df_version parsed \<noteq> DISCOVERY_CACHE_VERSION \<or> df_chain parsed \<noteq> chain then io_return None
          else io_bind (bt_clock sv) (\<lambda>nowMs.
            io_return (if within_ttl ttlHours (df_savedAtMs parsed) nowMs \<and> df_blockNumber parsed = blockNumber then Some parsed else None))))
       (\<lambda>_. io_return None)"

section \<open>Logs with rotation of the endpoints\<close>

definition dedupeRpcUrls :: "string list \<Rightarrow> string list" where
  "dedupeRpcUrls urls = js_of_list (filter (\<lambda>u. u \<noteq> []) (map str_trim urls))"

definition isRetryableRpcError :: "exn \<Rightarrow> bool" where
  "isRetryableRpcError e \<longleftrightarrow>
     list_ex (\<lambda>word. str_includes word (to_lower (exn_message e)))
       [''limit'', ''capacity'', ''429'', ''timeout'', ''eai_again'', ''fetch failed'']"

text \<open>The attempts at one endpoint: the logs, or the last error. An error that is not worth a retry is thrown.\<close>

fun endpoint_attempts ::
  "'w boot_services \<Rightarrow> string \<Rightarrow> pool_event_name \<Rightarrow> int \<times> int \<Rightarrow> int list \<Rightarrow> exn option \<Rightarrow> ('w, exn option + pool_log list) io" where
  "endpoint_attempts sv host ev rng [] lastError = io_return (Inl lastError)"
| "endpoint_attempts sv host ev rng (attempt # attempts) lastError =
     io_bind (io_catch (io_bind (bt_getLogs sv host ev (fst rng) (snd rng)) (\<lambda>logs. io_return (Inr logs))) (\<lambda>e. io_return (Inl e))) (\<lambda>r.
       case r of
         Inr logs \<Rightarrow> io_return (Inr logs)
       | Inl e \<Rightarrow>
           if \<not> isRetryableRpcError e then io_throw e
           else io_then (if attempt < GETLOGS_ATTEMPTS_PER_RPC then io_modify (bt_sleep sv (attempt * 2000)) else io_return ())
             (endpoint_attempts sv host ev rng attempts (Some e)))"

fun rotate_endpoints ::
  "'w boot_services \<Rightarrow> pool_event_name \<Rightarrow> int \<times> int \<Rightarrow> string list \<Rightarrow> exn option \<Rightarrow> ('w, pool_log list) io" where
  "rotate_endpoints sv ev rng [] lastError = io_throw (or_else lastError (Exn ''undefined''))"
| "rotate_endpoints sv ev rng (host # hosts) lastError =
     io_bind (endpoint_attempts sv host ev rng [1..GETLOGS_ATTEMPTS_PER_RPC] lastError) (\<lambda>r.
       case r of Inr logs \<Rightarrow> io_return logs | Inl e \<Rightarrow> rotate_endpoints sv ev rng hosts e)"

definition getLogsWithRpcRotation :: "'w boot_services \<Rightarrow> string list \<Rightarrow> pool_event_name \<Rightarrow> int \<times> int \<Rightarrow> ('w, pool_log list) io" where
  "getLogsWithRpcRotation sv hosts ev rng =
     (if hosts = [] then io_throw (Exn ''partial_bootstrap_no_rpc_clients'') else rotate_endpoints sv ev rng hosts None)"

section \<open>Discovery\<close>

record log_discovery =
  ld_accounts :: "address list"
  ld_borrowAccounts :: "address list"
  ld_blocksScanned :: int
  ld_totalLogs :: nat

definition log_users :: "pool_event_name \<Rightarrow> pool_log \<Rightarrow> string list" where
  "log_users ev lg = map to_lower (if ev = Borrow then extractBorrowerAddressesFromLog lg else extractUserAddressesFromAavePoolLog lg)"

definition log_requests :: "int \<Rightarrow> int \<Rightarrow> int \<Rightarrow> (pool_event_name \<times> int \<times> int) list" where
  "log_requests chunk from to = concat (map (\<lambda>ev. map (Pair ev) (block_ranges chunk from to)) BOOTSTRAP_EVENT_NAMES)"

definition found_users :: "(pool_event_name \<times> pool_log list) list \<Rightarrow> string list" where
  "found_users served = js_of_list (concat (map (\<lambda>(ev, logs). concat (map (log_users ev) logs)) served))"

definition discoverUsersFromPoolLogs :: "'w boot_services \<Rightarrow> string list \<Rightarrow> int \<Rightarrow> int \<Rightarrow> int \<Rightarrow> ('w, log_discovery) io" where
  "discoverUsersFromPoolLogs sv hosts chunk from to =
     io_bind (io_map (\<lambda>(ev, rng). io_bind (getLogsWithRpcRotation sv hosts ev rng) (\<lambda>logs. io_return (ev, logs))) (log_requests chunk from to)) (\<lambda>served.
       io_return \<lparr>ld_accounts = found_users served, ld_borrowAccounts = found_users (filter (\<lambda>a. fst a = Borrow) served),
         ld_blocksScanned = to - from, ld_totalLogs = sum_list (map (length \<circ> snd) served)\<rparr>)"

text \<open>What is known without logs: the accounts of a list, of the subgraph or of a file.\<close>

definition known_accounts :: "address list \<Rightarrow> int \<Rightarrow> int \<Rightarrow> log_discovery" where
  "known_accounts accounts from head = \<lparr>ld_accounts = accounts, ld_borrowAccounts = [], ld_blocksScanned = head - from, ld_totalLogs = 0\<rparr>"

definition discover_accounts :: "'w boot_services \<Rightarrow> boot_config \<Rightarrow> int \<Rightarrow> int \<Rightarrow> ('w, log_discovery \<times> bootstrap_source) io" where
  "discover_accounts sv cfg from head =
     (let source = or_else (bc_forcedSource cfg) FromLogs
      in case (bc_skipLogDiscovery cfg, bc_discoveredAccounts cfg) of
           (True, Some accounts) \<Rightarrow> io_return (known_accounts accounts from head, source)
         | _ \<Rightarrow>
             io_catch
               (io_bind (discoverUsersFromPoolLogs sv (or_else (bc_logClients cfg) [''primary'']) (or_else (bc_chunkBlocks cfg) 2000) from head)
                 (\<lambda>found. io_return (found, source)))
               (\<lambda>e. case bc_subgraphUrl cfg of
                  None \<Rightarrow> io_throw e
                | Some url \<Rightarrow>
                    if str_trim url = [] then io_throw e
                    else io_bind (bt_subgraph sv url) (\<lambda>accounts. io_return (known_accounts accounts from head, FromSubgraph))))"

definition discoverAccountsWithDebt ::
  "'w boot_services \<Rightarrow> boot_config \<Rightarrow> int \<Rightarrow> int \<Rightarrow> ('w, log_discovery \<times> bootstrap_source \<times> address list) io" where
  "discoverAccountsWithDebt sv cfg from head =
     io_bind (discover_accounts sv cfg from head) (\<lambda>(found, source).
       io_bind (io_map (debt_batch (bt_multicallAccounts sv)) (batches (or_else (bc_accountBatchSize cfg) 250) (ld_accounts found))) (\<lambda>withDebt.
         io_return (found, source, concat withDebt)))"

text \<open>Through the cache, which answers only for the block of the head.\<close>

definition discover_cached ::
  "'w boot_services \<Rightarrow> boot_config \<Rightarrow> int \<Rightarrow> int \<Rightarrow> ('w, log_discovery \<times> bootstrap_source \<times> address list \<times> bool) io" where
  "discover_cached sv cfg from head =
     (let ttl = or_else (bc_cacheTtlHours cfg) 24;
          fresh = io_bind (discoverAccountsWithDebt sv cfg from head) (\<lambda>(found, source, withDebt).
            io_bind (bt_clock sv) (\<lambda>nowMs.
              io_then (bt_writeDiscovery sv
                  \<lparr>df_version = DISCOVERY_CACHE_VERSION, df_chain = bc_chain cfg, df_savedAtMs = nowMs, df_blockNumber = head, df_source = source,
                   df_accounts = map to_lower (ld_accounts found), df_withDebt = map to_lower withDebt\<rparr>)
                (io_return (found, source, withDebt, False))))
      in if bt_forceRefresh sv then fresh
         else io_bind (discovery_loadIfFresh sv (bc_chain cfg) ttl head) (\<lambda>cached.
           case cached of
             Some file \<Rightarrow> io_return (known_accounts (df_accounts file) from head, df_source file, df_withDebt file, True)
           | None \<Rightarrow> fresh))"

section \<open>Seeding\<close>

record seed_counts =
  sd_seeded :: nat
  sd_errors :: nat
  sd_matched :: nat

definition seed_account ::
  "boot_config \<Rightarrow> int \<Rightarrow> address \<times> account_data option \<times> (user_reserve list \<times> int) option \<Rightarrow> seed_counts \<times> position_model \<Rightarrow> seed_counts \<times> position_model" where
  "seed_account cfg blockNumber row cm =
     (case (row, cm) of ((account, data, reserves), (c, m)) \<Rightarrow>
        (case data of
           None \<Rightarrow> (c\<lparr>sd_errors := sd_errors c + 1\<rparr>, m)
         | Some d \<Rightarrow>
             (case account_snapshot_of account d (or_else reserves ([], 0)) of
                None \<Rightarrow> (c, m)
              | Some snap \<Rightarrow>
                  (let m1 = fold (\<lambda>r. registerReserve (sr_asset r) BASE_LT_BPS) (as_reserves snap) m
                   in if outside_allowlist (bc_reserveAllowlist cfg) snap then (c, m1)
                      else (c\<lparr>sd_matched := sd_matched c + 1, sd_seeded := sd_seeded c + 1\<rparr>,
                            seedModelFromAccountSnapshot (bc_model cfg) snap blockNumber m1)))))"

definition padded :: "nat \<Rightarrow> 'a option list \<Rightarrow> 'a option list" where
  "padded n rows = take n (rows @ replicate n None)"

definition seed_batch :: "'w boot_services \<Rightarrow> boot_config \<Rightarrow> int \<Rightarrow> seed_counts \<Rightarrow> address list \<Rightarrow> ('w, seed_counts) boot_io" where
  "seed_batch sv cfg blockNumber c batch =
     io_bind (or_call (bt_multicallAccounts sv batch)) (\<lambda>accounts.
       io_bind (or_call (bt_multicallReserves sv batch)) (\<lambda>reserves. \<lambda>s.
         case fold (seed_account cfg blockNumber) (zip batch (zip (padded (length batch) accounts) (padded (length batch) reserves))) (c, snd s) of
           (c', m) \<Rightarrow> (Inr c', (fst s, m))))"

fun seed_batches :: "'w boot_services \<Rightarrow> boot_config \<Rightarrow> int \<Rightarrow> address list list \<Rightarrow> seed_counts \<Rightarrow> ('w, seed_counts) boot_io" where
  "seed_batches sv cfg blockNumber [] c = io_return c"
| "seed_batches sv cfg blockNumber (batch # bs) c =
     io_bind (seed_batch sv cfg blockNumber c batch) (seed_batches sv cfg blockNumber bs)"

definition seedModelFromOnChain :: "'w boot_services \<Rightarrow> boot_config \<Rightarrow> int \<Rightarrow> address list \<Rightarrow> ('w, seed_counts) boot_io" where
  "seedModelFromOnChain sv cfg blockNumber accounts =
     seed_batches sv cfg blockNumber (batches (or_else (bc_reserveBatchSize cfg) 50) accounts) \<lparr>sd_seeded = 0, sd_errors = 0, sd_matched = 0\<rparr>"

section \<open>The sweep\<close>

record boot_coverage =
  bo_source :: bootstrap_source
  bo_uniqueUsers :: nat
  bo_borrowUsers :: nat
  bo_usersWithDebt :: nat
  bo_usersSeeded :: nat
  bo_seedErrors :: nat
  bo_allowlistMatched :: nat
  bo_blocksScanned :: int
  bo_lookbackDays :: rat
  bo_elapsedMs :: int
  bo_positionCacheSize :: nat
  bo_coveragePct :: rat
  bo_cacheHit :: bool
  bo_discoveryCacheHit :: bool

definition buildCoverage ::
  "'w boot_services \<Rightarrow> boot_config \<Rightarrow> int \<Rightarrow> bootstrap_source \<Rightarrow> log_discovery \<Rightarrow> nat \<Rightarrow> seed_counts \<Rightarrow> bool \<Rightarrow> bool \<Rightarrow> ('w, boot_coverage) boot_io" where
  "buildCoverage sv cfg startedAt source found withDebtCount c cacheHit discoveryCacheHit =
     io_bind (or_call (bt_clock sv)) (\<lambda>nowMs.
       io_get (\<lambda>s. \<lparr>bo_source = source, bo_uniqueUsers = length (ld_accounts found), bo_borrowUsers = length (ld_borrowAccounts found),
         bo_usersWithDebt = withDebtCount, bo_usersSeeded = sd_seeded c, bo_seedErrors = sd_errors c, bo_allowlistMatched = sd_matched c,
         bo_blocksScanned = ld_blocksScanned found, bo_lookbackDays = bc_lookbackDays cfg, bo_elapsedMs = nowMs - startedAt,
         bo_positionCacheSize = length (pm_positions (snd s)),
         bo_coveragePct = (if ld_accounts found = [] then 0 else of_nat withDebtCount / of_nat (length (ld_accounts found)) * 100),
         bo_cacheHit = cacheHit, bo_discoveryCacheHit = discoveryCacheHit\<rparr>))"

text \<open>\<open>BigInt\<close> of a number that is not whole is an error.\<close>

definition lookback_blocks :: "rat \<Rightarrow> ('w, int) io" where
  "lookback_blocks days =
     (if days = rat_of_int \<lfloor>days\<rfloor> then io_return (\<lfloor>days\<rfloor> * BASE_BLOCKS_PER_DAY)
      else io_throw (Exn ''The number cannot be converted to a BigInt because it is not an integer''))"

definition lookback_start :: "int \<Rightarrow> int \<Rightarrow> int" where
  "lookback_start head lookback = (if lookback < head then head - lookback else 0)"

definition sweep_from_snapshot :: "'w boot_services \<Rightarrow> boot_config \<Rightarrow> int \<Rightarrow> int \<Rightarrow> int \<Rightarrow> snapshot_file \<Rightarrow> ('w, boot_coverage) boot_io" where
  "sweep_from_snapshot sv cfg startedAt from head file =
     (let seeded = length (sf_positions file)
      in io_then (or_model (applyToModel (bc_model cfg) file))
           (buildCoverage sv cfg startedAt FromCache (known_accounts (map si_account (sf_positions file)) from head) seeded
             \<lparr>sd_seeded = seeded, sd_errors = 0, sd_matched = seeded\<rparr> True False))"

definition sweep_from_chain :: "'w boot_services \<Rightarrow> boot_config \<Rightarrow> int \<Rightarrow> int \<Rightarrow> int \<Rightarrow> ('w, boot_coverage) boot_io" where
  "sweep_from_chain sv cfg startedAt from head =
     io_bind (or_call (discover_cached sv cfg from head)) (\<lambda>(found, source, withDebt, hit).
       io_bind (seedModelFromOnChain sv cfg head withDebt) (\<lambda>c.
         io_bind (buildCoverage sv cfg startedAt source found (length withDebt) c False hit) (\<lambda>coverage.
           io_then
             (if bc_cacheEnabled cfg \<noteq> Some False \<and> 0 < sd_seeded c
              then io_bind (or_call (bt_clock sv)) (\<lambda>nowMs.
                io_bind (io_get (\<lambda>s. buildSnapshotFromModel (bc_chain cfg) source head nowMs (snd s))) (\<lambda>file. or_call (bt_writeSnapshot sv file)))
              else io_return ())
             (io_return coverage))))"

definition runPartialBootstrapSweep :: "'w boot_services \<Rightarrow> boot_config \<Rightarrow> ('w, boot_coverage) boot_io" where
  "runPartialBootstrapSweep sv cfg =
     io_bind (or_call (bt_clock sv)) (\<lambda>startedAt.
       io_bind (or_call (bt_getBlockNumber sv)) (\<lambda>head.
         io_bind (lookback_blocks (bc_lookbackDays cfg)) (\<lambda>lookback.
           let from = lookback_start head lookback
           in io_bind (if bc_cacheEnabled cfg = Some False then io_return None
                       else or_call (snapshot_loadIfFresh sv (bc_chain cfg) (or_else (bc_cacheTtlHours cfg) 24))) (\<lambda>cached.
                case cached of
                  Some file \<Rightarrow> sweep_from_snapshot sv cfg startedAt from head file
                | None \<Rightarrow> sweep_from_chain sv cfg startedAt from head))))"

section \<open>The start\<close>

definition in_oracle :: "('w, 'a) boot_io \<Rightarrow> ('w, 'a) purity_io" where
  "in_oracle m s = (case m (ps_world s, ps_model s) of (r, (w, model)) \<Rightarrow> (r, s\<lparr>ps_world := w, ps_model := model\<rparr>))"

record 'w start_config =
  st_purity :: "'w purity_config"
  st_boot :: "'w boot_services"
  st_bootConfig :: boot_config
  st_bootstrapEnabled :: bool
  st_oracle :: "'w bootstrap_reads"
  st_ingestion :: "'w purity_state ingestion_config"
  st_publish :: "boot_coverage \<Rightarrow> 'w \<Rightarrow> 'w"

definition start_sweep :: "'w start_config \<Rightarrow> ('w, unit) purity_io" where
  "start_sweep cfg =
     (if st_bootstrapEnabled cfg
      then io_bind (in_oracle (runPartialBootstrapSweep (st_boot cfg) (st_bootConfig cfg))) (\<lambda>coverage.
        io_then (ep_effect (st_publish cfg coverage))
          (if bo_cacheHit coverage then refreshReserveIndices (st_purity cfg) else io_return ()))
      else io_return ())"

definition start_prices :: "'w start_config \<Rightarrow> ('w, unit) purity_io" where
  "start_prices cfg =
     io_bind (in_oracle (runOraclePriceBootstrap (st_oracle cfg) (pc_feeds (st_purity cfg)))) (\<lambda>result.
       io_bind (in_oracle (bootstrapAaveOracleGapFill (st_oracle cfg) (pc_model (st_purity cfg)) canonicalBaseAaveOracleAddress None)) (\<lambda>_.
         io_modify (\<lambda>s. s\<lparr>ps_pricesBootstrapped := br_pricesBootstrapped result\<rparr>)))"

text \<open>The block from which a stack without a checkpoint ingests: the one that is configured, or the start of the lookback.\<close>

definition start_from :: "'w start_config \<Rightarrow> int \<Rightarrow> int \<Rightarrow> int" where
  "start_from cfg head lookback = or_else (ic_bootstrapFromBlock (st_ingestion cfg)) (lookback_start head lookback)"

definition ws_layer :: "'w start_config \<Rightarrow> int \<Rightarrow> 'w purity_state ingestion_config" where
  "ws_layer cfg from = (st_ingestion cfg)\<lparr>ic_bootstrapFromBlock := Some from, ic_onEvent := handleEvent (st_purity cfg),
     ic_onFlashblockTick := handleFlashblockTick (st_purity cfg)\<rparr>"

definition purity_start :: "'w start_config \<Rightarrow> ('w purity_state, unit) ingestion_io" where
  "purity_start cfg =
     io_then (ig_call (start_sweep cfg)) (io_then (ig_call (start_prices cfg))
       (io_bind (ig_call (ep_call (bt_getBlockNumber (st_boot cfg)))) (\<lambda>head.
         io_bind (lookback_blocks (bc_lookbackDays (st_bootConfig cfg))) (\<lambda>lookback.
           ingestion_start (ws_layer cfg (start_from cfg head lookback))))))"

definition poll_gap_prices :: "'w start_config \<Rightarrow> ('w, unit) purity_io" where
  "poll_gap_prices cfg =
     io_bind (io_get ps_pricesBootstrapped) (\<lambda>ready.
       if \<not> ready then io_return ()
       else io_bind (in_oracle (refreshGapFillPrices (st_oracle cfg) (pc_model (st_purity cfg)) canonicalBaseAaveOracleAddress None)) (\<lambda>_. io_return ()))"

end
