(* ===== verification/Snapshot_Store.thy ===== *)
theory Snapshot_Store
  imports Bootstrap_Sweep
begin

text \<open>
  The snapshot file of \<open>src/monitors/bootstrapSnapshotStore.ts\<close> as a copy of the model: what is exported,
  saved and applied to an empty model is exported again as the same rows.
\<close>

section \<open>Maps in order\<close>

lemma js_set_fresh: "k \<notin> set (js_keys l) \<Longrightarrow> js_set k v l = l @ [(k, v)]"
  unfolding js_set_def js_keys_def by (induction l) auto

lemma js_set_last: "k \<notin> set (js_keys l) \<Longrightarrow> js_set k v (l @ [(k, u)]) = l @ [(k, v)]"
  unfolding js_set_def js_keys_def by (induction l) auto

lemma fold_js_add_distinct: "distinct xs \<Longrightarrow> fold js_add xs acc = acc @ filter (\<lambda>x. x \<notin> set acc) xs"
proof (induction xs arbitrary: acc)
  case (Cons x xs)
  then show ?case by (auto simp: js_add_def intro!: filter_cong)
qed simp

lemma js_of_list_two: "distinct xs \<Longrightarrow> distinct ys \<Longrightarrow> js_of_list (xs @ ys) = xs @ filter (\<lambda>y. y \<notin> set xs) ys"
  by (simp add: js_of_list_def fold_js_add_distinct filter_True)

lemma map_of_keys: "js_wf l \<Longrightarrow> map (\<lambda>k. (k, get_or 0 (js_get l k))) (js_keys l) = l"
  by (auto simp: js_keys_def get_or_def js_get_iff [symmetric] intro!: map_idI)

lemma js_get_keys_map: "js_get (map (\<lambda>k. (k, f k)) ks) k = (if k \<in> set ks then Some (f k) else None)"
  by (induction ks) (auto simp: js_get_def)

section \<open>Seeding one row after the other\<close>

lemma seed_rows_append:
  assumes "fold seed_row_into rows (p, m) = (p', m')" and "distinct (map sr_asset rows)" and "\<forall>r \<in> set rows. to_lower (sr_asset r) = sr_asset r"
    and "set (map sr_asset rows) \<inter> (set (js_keys (up_collateral p)) \<union> set (js_keys (up_debt p))) = {}"
  shows "up_collateral p' = up_collateral p @ map (\<lambda>r. (sr_asset r, sr_scaledCollateral r)) (filter (\<lambda>r. 0 < sr_scaledCollateral r) rows) \<and>
    up_debt p' = up_debt p @ map (\<lambda>r. (sr_asset r, sr_scaledDebt r)) (filter (\<lambda>r. 0 < sr_scaledDebt r) rows) \<and>
    up_account p' = up_account p \<and> pm_positions m' = pm_positions m"
  using assms
proof (induction rows arbitrary: p m)
  case (Cons row rows)
  let ?k = "sr_asset row"
  obtain p1 m1 where step: "seed_row_into row (p, m) = (p1, m1)" by fastforce
  have "js_get (pm_reserveConfig (registerReserve ?k BASE_LT_BPS m)) (to_lower ?k) \<noteq> None"
    by (auto simp: registerReserve_def js_has_iff)
  with step Cons.prems(3,4) have one: "up_collateral p1 = up_collateral p @ (if 0 < sr_scaledCollateral row then [(?k, sr_scaledCollateral row)] else [])"
    "up_debt p1 = up_debt p @ (if 0 < sr_scaledDebt row then [(?k, sr_scaledDebt row)] else [])"
    "up_account p1 = up_account p" "pm_positions m1 = pm_positions m"
    by (auto simp: seed_row_into_def Let_def js_set_fresh split: option.splits if_splits)
  have "set (map sr_asset rows) \<inter> (set (js_keys (up_collateral p1)) \<union> set (js_keys (up_debt p1))) = {}"
    using Cons.prems(2,4) by (auto simp: one js_keys_def rev_image_eqI)
  with Cons.IH [of p1 m1] Cons.prems step one show ?case by auto
qed simp

text \<open>A position that a file can hold: maps with lower-case keys and positive amounts, and a positive health factor.\<close>

definition storable :: "user_position \<Rightarrow> bool" where
  "storable p \<longleftrightarrow> pos_wf p \<and> (\<forall>v \<in> set (js_values (up_collateral p)) \<union> set (js_values (up_debt p)). 0 < v) \<and>
     (\<forall>k \<in> set (js_keys (up_collateral p)) \<union> set (js_keys (up_debt p)). to_lower k = k) \<and> 0 < up_cachedHfWad p"

lemma js_get_in_values: "js_get l k = Some v \<Longrightarrow> v \<in> set (js_values l)"
  by (auto simp: js_get_def js_values_def dest!: map_of_SomeD intro: rev_image_eqI)

lemma stored_positive:
  "\<forall>v \<in> set (js_values l). 0 < v \<Longrightarrow> 0 < get_or 0 (js_get l k) \<longleftrightarrow> k \<in> set (js_keys l)"
proof (cases "js_get l k")
  case (Some v)
  then have "k \<in> set (js_keys l)" using js_get_None_iff [of l k] by simp
  with Some js_get_in_values [OF Some] show "\<forall>v \<in> set (js_values l). 0 < v \<Longrightarrow> ?thesis" by (simp add: get_or_def)
qed (simp add: get_or_def js_get_None_iff [symmetric])

lemma active_assets_storable:
  assumes "js_wf C" and "js_wf D" and "\<forall>v \<in> set (js_values C) \<union> set (js_values D). (0::int) < v"
    and "up_collateral p = C" and "up_debt p = D"
  shows "active_assets p = js_keys C @ filter (\<lambda>k. k \<notin> set (js_keys C)) (js_keys D)"
proof -
  have "distinct (js_keys C)" "distinct (js_keys D)" using assms(1,2) by (simp_all add: js_wf_def js_keys_def)
  note keys = js_of_list_two [OF this]
  have "get_or 0 (js_get C k) \<noteq> 0 \<or> get_or 0 (js_get D k) \<noteq> 0" if "k \<in> set (js_keys C) \<union> set (js_keys D)" for k
    using that assms(3) stored_positive [of C k] stored_positive [of D k] by auto
  then show ?thesis unfolding active_assets_def assms(4,5) keys by (intro filter_True) auto
qed

lemma stored_rows_back:
  assumes "storable p"
    and C: "up_collateral q = map (\<lambda>r. (sr_asset r, sr_scaledCollateral r)) (filter (\<lambda>r. 0 < sr_scaledCollateral r) (exported_rows p))"
    and D: "up_debt q = map (\<lambda>r. (sr_asset r, sr_scaledDebt r)) (filter (\<lambda>r. 0 < sr_scaledDebt r) (exported_rows p))"
  shows "exported_rows q = exported_rows p \<and> (up_debt q = [] \<longleftrightarrow> up_debt p = [])"
proof -
  let ?C = "up_collateral p" and ?D = "up_debt p"
  let ?new = "filter (\<lambda>k. k \<notin> set (js_keys ?C)) (js_keys ?D)"
  have wf: "js_wf ?C" "js_wf ?D" and pos: "\<forall>v \<in> set (js_values ?C) \<union> set (js_values ?D). 0 < v"
    using assms(1) by (auto simp: storable_def pos_wf_def)
  have act: "active_assets p = js_keys ?C @ ?new" by (rule active_assets_storable [OF wf pos refl refl])
  have pC: "0 < get_or 0 (js_get ?C k) \<longleftrightarrow> k \<in> set (js_keys ?C)" and pD: "0 < get_or 0 (js_get ?D k) \<longleftrightarrow> k \<in> set (js_keys ?D)" for k
    using pos by (auto intro!: stored_positive)
  let ?B = "filter (\<lambda>k. k \<in> set (js_keys ?D)) (js_keys ?C) @ ?new"
  have "up_collateral q = map (\<lambda>k. (k, get_or 0 (js_get ?C k))) (filter (\<lambda>k. 0 < get_or 0 (js_get ?C k)) (js_keys ?C @ ?new))"
    by (simp add: C exported_rows_def act filter_map comp_def)
  also have "\<dots> = ?C" by (simp add: pC filter_True filter_False map_of_keys [OF wf(1)])
  finally have q_coll: "up_collateral q = ?C" .
  have "up_debt q = map (\<lambda>k. (k, get_or 0 (js_get ?D k))) (filter (\<lambda>k. 0 < get_or 0 (js_get ?D k)) (js_keys ?C @ ?new))"
    by (simp add: D exported_rows_def act filter_map comp_def)
  also have "\<dots> = map (\<lambda>k. (k, get_or 0 (js_get ?D k))) ?B" by (simp add: pD conj_commute cong: filter_cong)
  finally have q_debt: "up_debt q = map (\<lambda>k. (k, get_or 0 (js_get ?D k))) ?B" .
  have B_set: "set ?B = set (js_keys ?D)" by auto
  have keys_q: "js_keys (up_debt q) = ?B" by (simp add: q_debt js_keys_def comp_def)
  have get_q: "get_or 0 (js_get (up_debt q) k) = get_or 0 (js_get ?D k)" for k
    unfolding q_debt js_get_keys_map B_set by (auto simp: get_or_def js_get_None_iff [symmetric])
  have "distinct ?B" using wf by (auto simp: js_wf_def js_keys_def)
  then have wf_q: "js_wf (up_debt q)" using keys_q by (simp add: js_wf_def js_keys_def)
  have "\<forall>v \<in> set (js_values (up_debt q)). 0 < v" using pD by (auto simp: q_debt js_values_def)
  with pos have pos_q: "\<forall>v \<in> set (js_values ?C) \<union> set (js_values (up_debt q)). 0 < v" by auto
  have "active_assets q = active_assets p"
    unfolding active_assets_storable [OF wf(1) wf_q pos_q q_coll refl] act keys_q by simp
  then have "exported_rows q = exported_rows p" by (simp add: exported_rows_def q_coll get_q)
  moreover have "up_debt q = [] \<longleftrightarrow> ?D = []" using B_set keys_q by (metis js_keys_def list.set(1) list.map_disc_iff set_empty)
  ultimately show ?thesis by blast
qed

section \<open>Seeding a file\<close>

lemma hard_cap_idle:
  assumes "length (pm_positions m) \<le> mc_hardCap cfg" and "js_wf (pm_positions m)" and "0 < mc_evictionInactiveBlocks cfg"
    and "\<forall>p \<in> set (js_values (pm_positions m)). up_lastActivityBlock p = b"
  shows "pm_positions (enforceHardCap cfg b m) = pm_positions m"
proof -
  have "\<not> inactive_healthy cfg b p" if "(k, p) \<in> set (pm_positions m)" for k p
    using assms(3,4) that by (force simp: inactive_healthy_def js_values_def)
  then show ?thesis using assms(1) by (auto simp: enforceHardCap_def evictInactive_positions [OF assms(2)] intro!: filter_True)
qed

text \<open>The copy of a position that was exported, applied and stored.\<close>

definition copies :: "int \<Rightarrow> address \<times> user_position \<Rightarrow> user_position \<Rightarrow> bool" where
  "copies b e q \<longleftrightarrow> fst e = to_lower (up_account q) \<and> export_position (snd e) = export_position q \<and> up_isFullySeeded (snd e) \<and>
     (up_debt (snd e) = [] \<longleftrightarrow> up_debt q = []) \<and> up_lastActivityBlock (snd e) = b"

lemma seed_copy:
  assumes "storable q" and "to_lower (up_account q) \<notin> set (js_keys (pm_positions m))" and "js_wf (pm_positions m)"
    and "length (pm_positions m) < mc_hardCap cfg" and "0 < mc_evictionInactiveBlocks cfg"
    and "\<forall>p \<in> set (js_values (pm_positions m)). up_lastActivityBlock p = b"
  shows "\<exists>e. pm_positions (seedFromOnChainSnapshot cfg ((export_position q)\<lparr>si_blockNumber := b\<rparr>) m) = pm_positions m @ [e] \<and> copies b e q"
proof -
  let ?row = "(export_position q)\<lparr>si_blockNumber := b\<rparr>" and ?k = "to_lower (up_account q)"
  obtain p m1 where create: "getOrCreate (up_account q) b m = (p, m1)" by fastforce
  have "js_get (pm_positions m) ?k = None" using assms(2) by (simp add: js_get_None_iff)
  with create have p: "up_account p = up_account q" and m1: "pm_positions m1 = pm_positions m @ [(?k, p)]"
    by (auto simp: getOrCreate_def Let_def js_set_fresh [OF assms(2)])
  let ?cleared = "p\<lparr>up_collateral := [], up_debt := [], up_collateralIndexAtUpdate := [], up_debtIndexAtUpdate := []\<rparr>"
  obtain p2 m2 where rows: "fold seed_row_into (exported_rows q) (?cleared, m1) = (p2, m2)" by fastforce
  have "js_wf (up_collateral q)" "js_wf (up_debt q)" "\<forall>v \<in> set (js_values (up_collateral q)) \<union> set (js_values (up_debt q)). 0 < v"
    using assms(1) by (auto simp: storable_def pos_wf_def)
  note act = active_assets_storable [OF this refl refl]
  have "map sr_asset (exported_rows q) = active_assets q" by (simp add: exported_rows_def comp_def)
  moreover have "distinct (active_assets q)" by (simp add: active_assets_def)
  moreover have "to_lower k = k" if "k \<in> set (active_assets q)" for k using that assms(1) by (auto simp: act storable_def)
  ultimately have "distinct (map sr_asset (exported_rows q))" "\<forall>r \<in> set (exported_rows q). to_lower (sr_asset r) = sr_asset r"
    by (auto simp: exported_rows_def)
  note appended = seed_rows_append [OF rows this]
  define p3 where "p3 = p2\<lparr>up_eModeCategoryId := up_eModeCategoryId q, up_confidence := HighConfidence, up_isFullySeeded := True,
    up_lastConfirmedBlock := b, up_lastActivityBlock := b, up_lastTotalCollateralBase := Some (get_or 0 (up_lastTotalCollateralBase q)),
    up_lastTotalDebtBase := Some (get_or 1 (up_lastTotalDebtBase q)), up_lastLiquidationThreshold := Some (get_or 0 (up_lastLiquidationThreshold q)),
    up_cachedHfWad := up_cachedHfWad q\<rparr>"
  have hf: "0 < up_cachedHfWad q" using assms(1) by (simp add: storable_def)
  have seed: "seedFromOnChainSnapshot cfg ?row m = enforceHardCap cfg b (put_position ?k p3 m2)"
    using create rows hf by (simp add: seedFromOnChainSnapshot_def export_position_def p3_def)
  have rows_back: "exported_rows p3 = exported_rows q \<and> (up_debt p3 = [] \<longleftrightarrow> up_debt q = [])"
    by (rule stored_rows_back [OF assms(1)]) (use appended in \<open>simp_all add: p3_def js_keys_def\<close>)
  have account: "up_account p3 = up_account q" using appended p by (simp add: p3_def js_keys_def)
  have put: "pm_positions (put_position ?k p3 m2) = pm_positions m @ [(?k, p3)]"
    using appended m1 js_set_last [OF assms(2)] by (simp add: put_position_def js_keys_def)
  have active: "up_lastActivityBlock p3 = b" by (simp add: p3_def)
  have "pm_positions (enforceHardCap cfg b (put_position ?k p3 m2)) = pm_positions (put_position ?k p3 m2)"
    using assms(2-6) active by (intro hard_cap_idle) (auto simp: put js_wf_def js_keys_def js_values_def)
  then have "pm_positions (seedFromOnChainSnapshot cfg ?row m) = pm_positions m @ [(?k, p3)]" by (simp add: seed put)
  moreover have "copies b (?k, p3) q"
    using rows_back account by (simp add: copies_def export_position_def) (simp add: p3_def get_or_def)
  ultimately show ?thesis by blast
qed

lemma seed_copies:
  assumes "\<forall>q \<in> set qs. storable q" and "distinct (map (\<lambda>q. to_lower (up_account q)) qs)" and "js_wf (pm_positions m)"
    and "set (map (\<lambda>q. to_lower (up_account q)) qs) \<inter> set (js_keys (pm_positions m)) = {}"
    and "length (pm_positions m) + length qs \<le> mc_hardCap cfg" and "0 < mc_evictionInactiveBlocks cfg"
    and "\<forall>p \<in> set (js_values (pm_positions m)). up_lastActivityBlock p = b"
  shows "\<exists>es. pm_positions (fold (\<lambda>row. seedFromOnChainSnapshot cfg (row\<lparr>si_blockNumber := b\<rparr>)) (map export_position qs) m) = pm_positions m @ es \<and>
    list_all2 (copies b) es qs"
  using assms
proof (induction qs arbitrary: m)
  case (Cons q qs)
  let ?m = "seedFromOnChainSnapshot cfg ((export_position q)\<lparr>si_blockNumber := b\<rparr>) m"
  obtain e where e: "pm_positions ?m = pm_positions m @ [e]" "copies b e q"
    using seed_copy [of q m cfg b] Cons.prems by auto
  have "\<exists>es. pm_positions (fold (\<lambda>row. seedFromOnChainSnapshot cfg (row\<lparr>si_blockNumber := b\<rparr>)) (map export_position qs) ?m) = pm_positions ?m @ es \<and>
    list_all2 (copies b) es qs"
    using Cons.prems e by (intro Cons.IH) (auto simp: copies_def js_wf_def js_keys_def js_values_def)
  with e show ?case by auto
qed simp

lemma copies_export:
  "list_all2 (copies b) es qs \<Longrightarrow> \<forall>q \<in> set qs. up_debt q \<noteq> [] \<Longrightarrow>
   map export_position (filter (\<lambda>p. up_isFullySeeded p \<and> up_debt p \<noteq> []) (map snd es)) = map export_position qs"
  by (induction rule: list_all2_induct) (auto simp: copies_def)

text \<open>C33. The snapshot file is a faithful copy: what is exported from a model whose amounts and health factors
  are positive, saved, and applied to a model without positions, within the hard cap, is exported again
  as the same rows in the same order.\<close>

theorem snapshot_round_trip:
  assumes "model_wf m" and "\<forall>p \<in> set (js_values (pm_positions m)). storable p" and "pm_positions m0 = []"
    and "length (pm_positions m) \<le> mc_hardCap cfg" and "0 < mc_evictionInactiveBlocks cfg"
  shows "exportBootstrapSnapshots (applyToModel cfg (buildSnapshotFromModel chain source b t m) m0) = exportBootstrapSnapshots m"
proof -
  define qs where "qs = filter (\<lambda>p. up_isFullySeeded p \<and> up_debt p \<noteq> []) (js_values (pm_positions m))"
  have "map (\<lambda>q. to_lower (up_account q)) (js_values (pm_positions m)) = js_keys (pm_positions m)"
    using assms(1) by (auto simp: model_wf_def entry_ok_def js_values_def js_keys_def)
  then have "distinct (map (\<lambda>q. to_lower (up_account q)) (js_values (pm_positions m)))"
    using assms(1) by (simp add: model_wf_def js_wf_def js_keys_def)
  then have "distinct (map (\<lambda>q. to_lower (up_account q)) qs)" unfolding qs_def by (rule distinct_map_filter)
  moreover have "length qs \<le> mc_hardCap cfg"
    unfolding qs_def by (rule order_trans [OF length_filter_le]) (use assms(4) in \<open>simp add: js_values_def\<close>)
  moreover have "\<forall>q \<in> set qs. storable q" using assms(2) by (simp add: qs_def)
  ultimately have "\<exists>es. pm_positions (fold (\<lambda>row. seedFromOnChainSnapshot cfg (row\<lparr>si_blockNumber := b\<rparr>)) (map export_position qs) m0) = pm_positions m0 @ es \<and>
    list_all2 (copies b) es qs"
    by (intro seed_copies) (use assms(3,5) in \<open>simp_all add: js_wf_def js_keys_def js_values_def\<close>)
  moreover have "applyToModel cfg (buildSnapshotFromModel chain source b t m) m0 =
      fold (\<lambda>row. seedFromOnChainSnapshot cfg (row\<lparr>si_blockNumber := b\<rparr>)) (map export_position qs) m0"
    by (simp add: applyToModel_def buildSnapshotFromModel_def exportBootstrapSnapshots_def qs_def)
  ultimately obtain es where es: "pm_positions (applyToModel cfg (buildSnapshotFromModel chain source b t m) m0) = es"
      and copied: "list_all2 (copies b) es qs"
    using assms(3) by auto
  have "exportBootstrapSnapshots (applyToModel cfg (buildSnapshotFromModel chain source b t m) m0) =
      map export_position (filter (\<lambda>p. up_isFullySeeded p \<and> up_debt p \<noteq> []) (map snd es))"
    unfolding exportBootstrapSnapshots_def [of "applyToModel _ _ _"] js_values_def es ..
  also have "\<dots> = map export_position qs" by (rule copies_export [OF copied]) (simp add: qs_def)
  also have "\<dots> = exportBootstrapSnapshots m" unfolding exportBootstrapSnapshots_def qs_def ..
  finally show ?thesis .
qed

end
