(* ===== verification/Bootstrap_Safety.thy ===== *)
theory Bootstrap_Safety
  imports Bootstrap_Sweep Purity_Safety Oracle_Safety Snapshot_Store
begin

text \<open>
  What the start of the position model achieves: the rotation of endpoints finds every borrower as long
  as one of them answers, the seeding takes exactly the accounts whose reserves could be read, a model
  comes back from its snapshot file, and the events since the start of the lookback are counted again
  on top of what was seeded from the head.
\<close>

section \<open>Rotation\<close>

text \<open>What any endpoint answers is a fixed function of the request, and no error ends the rotation.\<close>

definition endpoints_agree :: "'w boot_services \<Rightarrow> string list \<Rightarrow> (pool_event_name \<Rightarrow> int \<Rightarrow> int \<Rightarrow> pool_log list) \<Rightarrow> bool" where
  "endpoints_agree sv hosts logs \<longleftrightarrow> (\<forall>host \<in> set hosts. \<forall>ev lo hi w.
     (case fst (bt_getLogs sv host ev lo hi w) of Inl e \<Rightarrow> isRetryableRpcError e | Inr l \<Rightarrow> l = logs ev lo hi))"

definition always_answers :: "'w boot_services \<Rightarrow> string \<Rightarrow> bool" where
  "always_answers sv host \<longleftrightarrow> (\<forall>ev lo hi w. \<exists>l w'. bt_getLogs sv host ev lo hi w = (Inr l, w'))"

lemma attempts_at:
  assumes "endpoints_agree sv hosts logs" and "host \<in> set hosts"
  shows "\<exists>r w'. endpoint_attempts sv host ev (lo, hi) attempts le w = (Inr r, w') \<and>
    (case r of Inl e \<Rightarrow> attempts = [] \<or> \<not> always_answers sv host | Inr l \<Rightarrow> l = logs ev lo hi)"
proof (induction attempts arbitrary: le w)
  case (Cons attempt attempts)
  obtain r w1 where get: "bt_getLogs sv host ev lo hi w = (r, w1)" by fastforce
  have ok: "case r of Inl e \<Rightarrow> isRetryableRpcError e | Inr l \<Rightarrow> l = logs ev lo hi"
    using assms get unfolding endpoints_agree_def by (metis fst_conv)
  show ?case
  proof (cases r)
    case (Inr l)
    with ok get show ?thesis by (simp add: io_bind_def io_catch_def io_return_def)
  next
    case (Inl e)
    with get have "\<not> always_answers sv host" unfolding always_answers_def by (metis prod.inject sum.distinct(1))
    moreover obtain w2 where "endpoint_attempts sv host ev (lo, hi) (attempt # attempts) le w = endpoint_attempts sv host ev (lo, hi) attempts (Some e) w2"
      using Inl ok get
      by (cases "attempt < GETLOGS_ATTEMPTS_PER_RPC") (auto simp: io_bind_def io_catch_def io_return_def io_then_def io_modify_def)
    ultimately show ?thesis using Cons.IH [of "Some e" w2] by (auto split: sum.splits)
  qed
qed (simp add: io_return_def)

lemma rotate_finds:
  assumes "endpoints_agree sv all_hosts logs" and "set hosts \<subseteq> set all_hosts" and "\<exists>host \<in> set hosts. always_answers sv host"
  shows "\<exists>w'. rotate_endpoints sv ev (lo, hi) hosts le w = (Inr (logs ev lo hi), w')"
  using assms(2,3)
proof (induction hosts arbitrary: le w)
  case (Cons host hosts)
  obtain r w1 where run: "endpoint_attempts sv host ev (lo, hi) [1..GETLOGS_ATTEMPTS_PER_RPC] le w = (Inr r, w1)"
    and r: "case r of Inl e \<Rightarrow> [1..GETLOGS_ATTEMPTS_PER_RPC] = [] \<or> \<not> always_answers sv host | Inr l \<Rightarrow> l = logs ev lo hi"
    using attempts_at [OF assms(1), of host ev lo hi "[1..GETLOGS_ATTEMPTS_PER_RPC]" le w] Cons.prems(1) by auto
  show ?case
  proof (cases r)
    case (Inr l)
    with run r show ?thesis by (simp add: io_bind_def io_return_def)
  next
    case (Inl e)
    with r have "\<not> always_answers sv host" by (simp add: GETLOGS_ATTEMPTS_PER_RPC_def upto_rec1)
    with Cons.prems Cons.IH [of e w1] run Inl show ?thesis by (auto simp: io_bind_def)
  qed
qed simp

lemma requests_served:
  assumes "endpoints_agree sv hosts logs" and "\<exists>host \<in> set hosts. always_answers sv host"
  shows "\<exists>w'. io_map (\<lambda>(ev, rng). io_bind (getLogsWithRpcRotation sv hosts ev rng) (\<lambda>l. io_return (ev, l))) reqs w =
    (Inr (map (\<lambda>(ev, lo, hi). (ev, logs ev lo hi)) reqs), w')"
proof (induction reqs arbitrary: w)
  case (Cons req reqs)
  obtain ev lo hi where req: "req = (ev, lo, hi)" by (cases req)
  from assms(2) have "hosts \<noteq> []" by auto
  then obtain w1 where "getLogsWithRpcRotation sv hosts ev (lo, hi) w = (Inr (logs ev lo hi), w1)"
    using rotate_finds [OF assms(1) subset_refl assms(2), of ev lo hi None w] by (auto simp: getLogsWithRpcRotation_def)
  with Cons.IH [of w1] show ?case by (auto simp: req io_bind_def io_return_def)
qed (simp add: io_return_def)

text \<open>The history of the pool: the logs of each event with their blocks.\<close>

definition logs_between :: "(pool_event_name \<times> int \<times> pool_log) list \<Rightarrow> pool_event_name \<Rightarrow> int \<Rightarrow> int \<Rightarrow> pool_log list" where
  "logs_between history ev lo hi = map (snd \<circ> snd) (filter (\<lambda>(n, b, l). n = ev \<and> lo \<le> b \<and> b \<le> hi) history)"

definition users_between :: "(pool_event_name \<times> int \<times> pool_log) list \<Rightarrow> int \<Rightarrow> int \<Rightarrow> string set" where
  "users_between history lo hi =
     {u. \<exists>(ev, b, l) \<in> set history. ev \<in> set BOOTSTRAP_EVENT_NAMES \<and> lo \<le> b \<and> b \<le> hi \<and> u \<in> set (log_users ev l)}"

lemma set_found_users: "set (found_users served) = (\<Union>(ev, ls) \<in> set served. \<Union>l \<in> set ls. set (log_users ev l))"
  by (simp add: found_users_def case_prod_unfold)

lemma found_users_ranges:
  assumes "0 < chunk"
  shows "set (found_users (map (\<lambda>(ev, lo, hi). (ev, logs_between history ev lo hi)) (log_requests chunk from to))) = users_between history from to"
proof -
  have range: "(\<exists>(lo, hi) \<in> set (block_ranges chunk from to). lo \<le> b \<and> b \<le> hi) \<longleftrightarrow> from \<le> b \<and> b \<le> to" for b
  proof -
    have "b \<in> (\<Union>(lo, hi) \<in> set (block_ranges chunk from to). {lo..hi}) \<longleftrightarrow> b \<in> {from..to}"
      using block_ranges_union [OF assms, of "from" to] by simp
    then show ?thesis by (auto simp: case_prod_unfold)
  qed
  let ?R = "set (block_ranges chunk from to)"
  have "set (found_users (map (\<lambda>(ev, lo, hi). (ev, logs_between history ev lo hi)) (log_requests chunk from to))) =
    (\<Union>(ev, lo, hi) \<in> set (log_requests chunk from to). \<Union>l \<in> set (logs_between history ev lo hi). set (log_users ev l))"
    by (simp add: set_found_users case_prod_unfold)
  also have "\<dots> = (\<Union>ev \<in> set BOOTSTRAP_EVENT_NAMES. \<Union>(lo, hi) \<in> ?R. \<Union>l \<in> set (logs_between history ev lo hi). set (log_users ev l))"
    unfolding log_requests_def by auto
  also have "\<dots> = users_between history from to"
  proof (rule set_eqI)
    fix u
    have "u \<in> (\<Union>(lo, hi) \<in> ?R. \<Union>l \<in> set (logs_between history ev lo hi). set (log_users ev l)) \<longleftrightarrow>
      (\<exists>(n, b, l) \<in> set history. n = ev \<and> u \<in> set (log_users ev l) \<and> (\<exists>(lo, hi) \<in> ?R. lo \<le> b \<and> b \<le> hi))" for ev
      by (auto simp: logs_between_def Bex_def)
    then show "u \<in> (\<Union>ev \<in> set BOOTSTRAP_EVENT_NAMES. \<Union>(lo, hi) \<in> ?R. \<Union>l \<in> set (logs_between history ev lo hi). set (log_users ev l)) \<longleftrightarrow>
      u \<in> users_between history from to"
      unfolding users_between_def range by auto
  qed
  finally show ?thesis .
qed

text \<open>C34. The discovery in the logs is complete as long as one of the endpoints always answers, in spite of all
  others failing with errors that are worth a retry: it returns, and the accounts are exactly the users
  of the logs of the five events in the blocks it looks at.\<close>

theorem rotation_discovers_all:
  assumes "endpoints_agree sv hosts (logs_between history)" and "\<exists>host \<in> set hosts. always_answers sv host" and "0 < chunk"
  shows "\<exists>found w'. discoverUsersFromPoolLogs sv hosts chunk from to w = (Inr found, w') \<and>
    set (ld_accounts found) = users_between history from to \<and> distinct (ld_accounts found)"
proof -
  obtain w' where "io_map (\<lambda>(ev, rng). io_bind (getLogsWithRpcRotation sv hosts ev rng) (\<lambda>l. io_return (ev, l))) (log_requests chunk from to) w =
    (Inr (map (\<lambda>(ev, lo, hi). (ev, logs_between history ev lo hi)) (log_requests chunk from to)), w')"
    using requests_served [OF assms(1,2)] by blast
  then show ?thesis
    using found_users_ranges [OF assms(3)] by (simp add: discoverUsersFromPoolLogs_def io_bind_def io_return_def) (simp add: found_users_def)
qed

section \<open>Seeding\<close>

lemma padded_map [simp]: "padded (length xs) (map f xs) = map f xs"
  by (simp add: padded_def)

lemma seed_batches_fold:
  assumes "answers (bt_multicallAccounts sv) f" and "answers (bt_multicallReserves sv) g"
  shows "\<exists>w'. seed_batches sv cfg b bs c (w, m) =
    (case fold (seed_account cfg b) (map (\<lambda>a. (a, f a, g a)) (concat bs)) (c, m) of (c', m') \<Rightarrow> (Inr c', (w', m')))"
proof (induction bs arbitrary: c w m)
  case (Cons batch bs)
  obtain w1 w2 where "bt_multicallAccounts sv batch w = (Inr (map f batch), w1)" "bt_multicallReserves sv batch w1 = (Inr (map g batch), w2)"
    using assms unfolding answers_def by blast
  moreover obtain c1 m1 where step: "fold (seed_account cfg b) (map (\<lambda>a. (a, f a, g a)) batch) (c, m) = (c1, m1)" by fastforce
  moreover have "zip batch (zip (map f batch) (map g batch)) = map (\<lambda>a. (a, f a, g a)) batch" by (induction batch) auto
  ultimately have "seed_batch sv cfg b c batch (w, m) = (Inr c1, (w2, m1))"
    by (simp add: seed_batch_def io_bind_def or_call_def)
  with Cons.IH [of c1 w2 m1] step show ?case by (simp add: io_bind_def)
qed (simp add: io_return_def)

text \<open>The accounts that are seeded: with debt, and with reserves that were read and are on the list.\<close>

definition seedable :: "(address \<Rightarrow> account_data option) \<Rightarrow> (address \<Rightarrow> (user_reserve list \<times> int) option) \<Rightarrow> address list \<Rightarrow> address \<Rightarrow> bool" where
  "seedable f g allow a \<longleftrightarrow> (case (f a, g a) of (Some d, Some (rows, emode)) \<Rightarrow> data_debt d \<noteq> 0 \<and> reservesTouchAllowlist (allowlist_rows rows) allow | _ \<Rightarrow> False)"

lemma outside_rows:
  "allow \<noteq> [] \<Longrightarrow> as_reserves snap = snapshot_rows rows \<Longrightarrow> outside_allowlist (Some allow) snap \<longleftrightarrow> \<not> reservesTouchAllowlist (allowlist_rows rows) allow"
  by (simp add: outside_allowlist_def snapshot_rows_def allowlist_rows_def comp_def)

lemma seed_account_counts:
  assumes "bc_reserveAllowlist cfg = Some allow" and "allow \<noteq> []"
  shows "fst (seed_account cfg b (a, f a, g a) (c, m)) =
    c\<lparr>sd_errors := sd_errors c + (if f a = None then 1 else 0),
      sd_seeded := sd_seeded c + (if seedable f g allow a then 1 else 0),
      sd_matched := sd_matched c + (if seedable f g allow a then 1 else 0)\<rparr>"
proof (cases "f a")
  case None
  then show ?thesis by (simp add: seed_account_def seedable_def)
next
  case (Some d)
  obtain rows emode where rows: "or_else (g a) ([], 0) = (rows, emode)" by fastforce
  show ?thesis
  proof (cases "data_debt d = 0")
    case True
    then have "account_snapshot_of a d (rows, emode) = None" by (simp add: account_snapshot_of_def data_debt_def split: prod.splits)
    with Some rows True show ?thesis by (simp add: seed_account_def seedable_def split: option.splits prod.splits)
  next
    case False
    then obtain snap where snap: "account_snapshot_of a d (rows, emode) = Some snap" "as_reserves snap = snapshot_rows rows"
      by (auto simp: account_snapshot_of_def data_debt_def split: prod.splits)
    have "seedable f g allow a \<longleftrightarrow> \<not> outside_allowlist (Some allow) snap"
      using Some False rows assms(2) unfolding outside_rows [OF assms(2) snap(2)]
      by (cases "g a") (auto simp: seedable_def or_else_def reservesTouchAllowlist_def allowlist_rows_def)
    with Some rows snap(1) assms(1) show ?thesis by (simp add: seed_account_def Let_def)
  qed
qed

lemma seed_fold_counts:
  assumes "bc_reserveAllowlist cfg = Some allow" and "allow \<noteq> []"
  shows "fst (fold (seed_account cfg b) (map (\<lambda>a. (a, f a, g a)) l) (c, m)) =
    c\<lparr>sd_errors := sd_errors c + length (filter (\<lambda>a. f a = None) l),
      sd_seeded := sd_seeded c + length (filter (seedable f g allow) l),
      sd_matched := sd_matched c + length (filter (seedable f g allow) l)\<rparr>"
proof (induction l arbitrary: c m)
  case (Cons a l)
  obtain c1 m1 where step: "seed_account cfg b (a, f a, g a) (c, m) = (c1, m1)" by fastforce
  with seed_account_counts [OF assms, of b a f g c m] Cons.IH [of c1 m1] show ?case by simp
qed simp

text \<open>The numbers of a seeding with an allowlist: an account whose data could not be read is an error, one
  with debt whose reserves were read and are on the list is seeded, and no other account is counted. An
  account with debt whose reserves could not be read is left out, and reported nowhere.\<close>

theorem seeding_skips_unread:
  assumes "answers (bt_multicallAccounts sv) f" and "answers (bt_multicallReserves sv) g"
    and "bc_reserveAllowlist cfg = Some allow" and "allow \<noteq> []" and "bc_reserveBatchSize cfg \<noteq> Some 0"
  shows "\<exists>c s'. seedModelFromOnChain sv cfg b accounts s = (Inr c, s') \<and>
    sd_errors c = length (filter (\<lambda>a. f a = None) accounts) \<and>
    sd_seeded c = length (filter (seedable f g allow) accounts) \<and>
    (\<forall>a. g a = None \<longrightarrow> \<not> seedable f g allow a)"
proof -
  let ?n = "or_else (bc_reserveBatchSize cfg) 50" and ?c = "\<lparr>sd_seeded = 0, sd_errors = 0, sd_matched = 0\<rparr>"
  have all: "concat (batches ?n accounts) = accounts"
    using assms(5) by (intro concat_batches) (auto simp: or_else_def split: option.splits)
  obtain c m where run: "fold (seed_account cfg b) (map (\<lambda>a. (a, f a, g a)) accounts) (?c, snd s) = (c, m)" by fastforce
  obtain w' where "seed_batches sv cfg b (batches ?n accounts) ?c (fst s, snd s) = (Inr c, (w', m))"
    using seed_batches_fold [OF assms(1,2), of cfg b "batches ?n accounts" ?c "fst s" "snd s"] run by (auto simp: all)
  moreover have "\<not> seedable f g allow a" if "g a = None" for a using that by (simp add: seedable_def split: option.splits)
  ultimately show ?thesis
    using seed_fold_counts [OF assms(3,4), of b f g accounts ?c "snd s"] run by (simp add: seedModelFromOnChain_def)
qed

section \<open>Events before the head\<close>

lemma up_debt_hf_only:
  assumes "hf_only m m'" and "js_get (pm_positions m') k = Some p'" and "js_get (pm_positions m) k = Some p"
  shows "up_debt p' = up_debt p"
proof -
  have "forget_hf p' = forget_hf p" using hf_only_get [OF assms(1), of k] assms(2,3) by simp
  then have "up_debt (forget_hf p') = up_debt (forget_hf p)" by simp
  then show ?thesis by (simp add: forget_hf_def)
qed

text \<open>A borrow of a seeded account adds its amount, whatever its block is.\<close>

lemma borrow_adds:
  assumes "model_wf m" and "js_get (pm_positions m) (to_lower account) = Some p" and "up_isFullySeeded p"
    and "ev_name e = Borrow" and "ev_amount e = Some x" and "resolveUserAddress e = Some account"
    and "applyAaveEvent cfg nowMs e m = Some (r, m')" and "js_get (pm_positions m') (to_lower account) = Some p'"
  shows "js_get (up_debt p') (to_lower (ev_reserve e)) = Some (get_or 0 (js_get (up_debt p) (to_lower (ev_reserve e))) + x)"
proof -
  let ?k = "to_lower account" and ?m1 = "registerReserve (ev_reserve e) BASE_LT_BPS m"
  let ?p = "addDebt ?m1 (ev_reserve e) x (p\<lparr>up_lastActivityBlock := ev_blockNumber e\<rparr>)"
  let ?m2 = "put_position ?k ?p ?m1"
  have "getOrCreate account (ev_blockNumber e) ?m1 = (p, ?m1)" using assms(2) by (simp add: getOrCreate_def)
  with assms(2,4-7) have "after_user_event cfg nowMs e account False ?m2 = Some (r, m')"
    by (simp add: applyAaveEvent_def Let_def apply_user_event_def with_amount_def)
  moreover have get: "js_get (pm_positions ?m2) ?k = Some ?p" by (simp add: put_position_def)
  moreover have "up_isFullySeeded ?p" using assms(3) by (simp add: addDebt_def Let_def)
  ultimately obtain m3 where hf: "applyHfResult cfg nowMs ?k ?p False ?m2 = Some (r, m3)" and m': "m' = enforceHardCap cfg (ev_blockNumber e) m3"
    by (auto simp: after_user_event_def split: option.splits)
  note hf = applyHfResult_hf_only [OF hf]
  have "js_wf (pm_positions ?m2)" using assms(1) by (simp add: model_wf_def put_position_def wf_intros)
  then have "js_wf (pm_positions m3)" by (simp add: js_wf_hf_only [OF hf])
  moreover have "(?k, p') \<in> set (pm_positions m3)"
    using js_get_SomeD [OF assms(8)] enforceHardCap_shrinks [of m3 cfg "ev_blockNumber e"] by (auto simp: m' shrinks_def)
  ultimately have "js_get (pm_positions m3) ?k = Some p'" by (simp add: js_get_iff)
  from up_debt_hf_only [OF hf this get] show ?thesis by (simp add: addDebt_def Let_def)
qed


section \<open>Witnesses\<close>

text \<open>A pool with one borrow, an endpoint that is over its limit and one that answers, and accounts with a debt
  of which the first cannot be read in full.\<close>

definition borrow_log :: pool_log where
  "borrow_log = \<lparr>pl_args = Some \<lparr>la_user = Some ''0xa1'', la_onBehalfOf = None, la_repayer = None, la_to = None\<rparr>, pl_blockNumber = Some 60\<rparr>"

definition sample_history_logs :: "(pool_event_name \<times> int \<times> pool_log) list" where
  "sample_history_logs = [(Borrow, 60, borrow_log)]"

definition sample_data :: "address \<Rightarrow> account_data option" where
  "sample_data a = Some (100, 90, 0, 8000, 0, WAD)"

definition sample_reserves :: "address \<Rightarrow> (user_reserve list \<times> int) option" where
  "sample_reserves a = (if a = ''0xa1'' then None else
     Some ([\<lparr>ur_underlyingAsset = ''dai'', ur_scaledATokenBalance = 0, ur_usageAsCollateralEnabledOnUser = False, ur_scaledVariableDebt = 90\<rparr>], 0))"

definition sample_boot :: "'w boot_services" where
  "sample_boot =
     \<lparr>bt_getBlockNumber = io_return 100, bt_now = (\<lambda>w. (0, w)), bt_sleep = (\<lambda>ms w. w),
      bt_getLogs = (\<lambda>host ev lo hi. if host = ''up'' then io_return (logs_between sample_history_logs ev lo hi) else io_throw (Exn ''429'')),
      bt_subgraph = (\<lambda>url. io_return []), bt_multicallAccounts = (\<lambda>batch. io_return (map sample_data batch)),
      bt_multicallReserves = (\<lambda>batch. io_return (map sample_reserves batch)),
      bt_readSnapshot = io_throw (Exn ''ENOENT''), bt_writeSnapshot = (\<lambda>file. io_return ()), bt_readDiscovery = io_throw (Exn ''ENOENT''),
      bt_writeDiscovery = (\<lambda>file. io_return ()), bt_forceRefresh = False\<rparr>"

definition sample_bootConfig :: boot_config where
  "sample_bootConfig =
     \<lparr>bc_chain = ''base'', bc_model = sample_cfg, bc_lookbackDays = 30, bc_chunkBlocks = None, bc_accountBatchSize = None, bc_reserveBatchSize = None,
      bc_subgraphUrl = None, bc_skipLogDiscovery = False, bc_discoveredAccounts = None, bc_forcedSource = None, bc_logClients = Some [''down'', ''up''],
      bc_cacheEnabled = None, bc_cacheTtlHours = None, bc_reserveAllowlist = Some [''dai'']\<rparr>"

lemma sample_endpoints:
  "endpoints_agree sample_boot [''down'', ''up''] (logs_between sample_history_logs)" "always_answers sample_boot ''up''"
proof -
  have "isRetryableRpcError (Exn ''429'')" by code_simp
  then show "endpoints_agree sample_boot [''down'', ''up''] (logs_between sample_history_logs)" "always_answers sample_boot ''up''"
    by (simp_all add: endpoints_agree_def always_answers_def sample_boot_def io_return_def io_throw_def)
qed

theorem rotation_discovers_all_witness:
  "\<exists>found. discoverUsersFromPoolLogs sample_boot [''down'', ''up''] 20 50 100 () = (Inr found, ()) \<and> ''0xa1'' \<in> set (ld_accounts found)"
proof -
  have "''0xa1'' \<in> set (log_users Borrow borrow_log)" by code_simp
  then have "''0xa1'' \<in> users_between sample_history_logs 50 100"
    by (simp add: users_between_def sample_history_logs_def BOOTSTRAP_EVENT_NAMES_def)
  with rotation_discovers_all [OF sample_endpoints(1), of 20 50 100 "()"] sample_endpoints(2) show ?thesis by auto
qed

theorem seeding_skips_unread_witness:
  "\<exists>c s'. seedModelFromOnChain sample_boot sample_bootConfig 100 [''0xa1'', ''0xa2''] ((), new_model 0) = (Inr c, s') \<and>
    sd_errors c = 0 \<and> sd_seeded c = 1"
proof -
  have "answers (bt_multicallAccounts (sample_boot :: unit boot_services)) sample_data" "answers (bt_multicallReserves (sample_boot :: unit boot_services)) sample_reserves"
    by (simp_all add: answers_def sample_boot_def io_return_def)
  note run = seeding_skips_unread [OF this, of sample_bootConfig "[''dai'']" 100 "[''0xa1'', ''0xa2'']" "((), new_model 0)"]
  have "filter (\<lambda>a. sample_data a = None) [''0xa1'', ''0xa2''] = []" "filter (seedable sample_data sample_reserves [''dai'']) [''0xa1'', ''0xa2''] = [''0xa2'']"
    by code_simp+
  moreover have "bc_reserveAllowlist sample_bootConfig = Some [''dai'']" "bc_reserveBatchSize sample_bootConfig \<noteq> Some 0"
    by (simp_all add: sample_bootConfig_def)
  ultimately show ?thesis using run by (elim meta_impE) force+
qed

definition sample_layer :: "nat purity_state ingestion_config" where
  "sample_layer = \<lparr>ic_decoder = supply_decoder, ic_feeds = [], ic_checkpoint = checkpoint_new \<lparr>kv_get = (\<lambda>k. io_return None), kv_set = (\<lambda>k v. io_return ()), kv_close = None\<rparr> ''base'',
     ic_getBlockNumber = io_return 100, ic_getLogs = (\<lambda>lo hi. io_return []), ic_bootstrapFromBlock = None, ic_onEvent = (\<lambda>ev. io_return ()),
     ic_onFlashblockTick = (\<lambda>n. io_return ()), ic_onGapFillComplete = (\<lambda>w. w), ic_connect = io_return (), ic_disconnect = (\<lambda>w. w)\<rparr>"

definition sample_start :: "nat start_config" where
  "sample_start = \<lparr>st_purity = sample_purity, st_boot = sample_boot, st_bootConfig = sample_bootConfig, st_bootstrapEnabled = True,
     st_oracle = sample_reads 0, st_ingestion = sample_layer, st_publish = (\<lambda>coverage w. w)\<rparr>"

definition sample_seed :: seed_input where
  "sample_seed = \<lparr>si_account = ''0xA'', si_blockNumber = 100, si_eModeCategoryId = 0, si_healthFactorWad = WAD, si_totalCollateralBase = 100,
     si_totalDebtBase = 90, si_liquidationThreshold = 8000, si_reserves = [\<lparr>sr_asset = ''dai'', sr_scaledCollateral = 0, sr_scaledDebt = 90\<rparr>]\<rparr>"

definition old_borrow :: pool_event where
  "old_borrow = (supply_event ''0xA'' 90 60)\<lparr>ev_name := Borrow, ev_reserve := ''dai''\<rparr>"


theorem snapshot_round_trip_witness:
  "exportBootstrapSnapshots (applyToModel sample_cfg (buildSnapshotFromModel ''base'' FromLogs 100 0 sample_model) (new_model 5)) = exportBootstrapSnapshots sample_model \<and>
   length (exportBootstrapSnapshots sample_model) = 1"
proof
  have low: "to_lower ''0xA'' = ''0xa''" "to_lower ''weth'' = ''weth''" "to_lower ''dai'' = ''dai''" by code_simp+
  show "exportBootstrapSnapshots (applyToModel sample_cfg (buildSnapshotFromModel ''base'' FromLogs 100 0 sample_model) (new_model 5)) = exportBootstrapSnapshots sample_model"
    by (rule snapshot_round_trip)
       (simp_all add: sample_model_def borrower_def model_wf_def entry_ok_def pos_wf_def js_wf_def js_keys_def js_values_def storable_def low new_model_def sample_cfg_def WAD_def)
  show "length (exportBootstrapSnapshots sample_model) = 1"
    by (simp add: exportBootstrapSnapshots_def sample_model_def borrower_def js_values_def)
qed

end
