(* ===== verification/Submission.thy ===== *)
theory Submission
  imports Safe_Executor Liquidation_Request
begin

text \<open>
  The clients between the executor and the chain: the price of gas with its cache
  (\<open>src/utils/gasPriceOracle.ts\<close>), the price that is paid on Base (\<open>src/executors/baseGasModel.ts\<close>), the
  private submission
  (\<open>src/executors/PrivateSubmissionClient.ts\<close>), the broadcast to several endpoints
  (\<open>src/executors/parallelBroadcastClient.ts\<close>) and the client on top of viem
  (\<open>src/executors/viemExecutionClient.ts\<close>). The calls to the node are parameters; a price is asked for when
  the one before has come.
\<close>

section \<open>The price of gas\<close>

record 'w gas_oracle =
  go_world :: 'w
  go_cached :: "(int \<times> int) option"

record 'w gas_services =
  gv_getGasPrice :: "('w, int) service"
  gv_nowMs :: "'w \<Rightarrow> int \<times> 'w"
  gv_ttlMs :: "rat option"

definition fetch_gas_price :: "'w gas_services \<Rightarrow> ('w gas_oracle, int) io" where
  "fetch_gas_price sv s =
     (case gv_getGasPrice sv (go_world s) of
        (Inl e, w) \<Rightarrow> (Inl e, s\<lparr>go_world := w\<rparr>)
      | (Inr price, w) \<Rightarrow>
          (case gv_nowMs sv w of (now, w') \<Rightarrow> (Inr price, s\<lparr>go_world := w', go_cached := Some (price, now)\<rparr>)))"

definition cachedGasPrice :: "'w gas_services \<Rightarrow> ('w gas_oracle, int) io" where
  "cachedGasPrice sv s =
     (case go_cached s of
        None \<Rightarrow> fetch_gas_price sv s
      | Some (price, updatedAtMs) \<Rightarrow>
          (case gv_nowMs sv (go_world s) of (now, w) \<Rightarrow>
             if rat_of_int (now - updatedAtMs) < (case gv_ttlMs sv of Some ttl \<Rightarrow> ttl | None \<Rightarrow> 30000)
             then (Inr price, s\<lparr>go_world := w\<rparr>)
             else fetch_gas_price sv (s\<lparr>go_world := w\<rparr>)))"

section \<open>What is paid on Base\<close>

record gas_quote =
  gq_maxFeePerGas :: int
  gq_maxPriorityFeePerGas :: int
  gq_gasCostUsd :: rat

definition usdProfitToWeiBudget :: "rat \<Rightarrow> rat \<Rightarrow> int" where
  "usdProfitToWeiBudget profitUsd maxPct = (if profitUsd \<le> 0 then 0 else \<lfloor>profitUsd * (maxPct / 100) / 3000 * 10 ^ 18\<rfloor>)"

text \<open>The price for a base fee; a division by no gas throws.\<close>

definition quote_gas :: "int \<Rightarrow> rat \<Rightarrow> int \<Rightarrow> rat option \<Rightarrow> int option \<Rightarrow> exn + gas_quote" where
  "quote_gas baseFee expectedProfitUsd gasLimit maxGasPctOfProfit priorityFee =
     (let maxPct = (case maxGasPctOfProfit of Some p \<Rightarrow> p | None \<Rightarrow> 25);
          priority = (case priorityFee of Some p \<Rightarrow> p | None \<Rightarrow> 1000000);
          uncappedMax = baseFee * 2 + priority;
          profitWeiBudget = usdProfitToWeiBudget expectedProfitUsd maxPct
      in if 0 < profitWeiBudget \<and> gasLimit = 0 then Inl (Exn ''RangeError: Division by zero'')
         else let cappedMax = (if 0 < profitWeiBudget then min uncappedMax (bdiv profitWeiBudget gasLimit) else uncappedMax);
                  maxFeePerGas = (if priority < cappedMax then cappedMax else priority + baseFee)
              in Inr \<lparr>gq_maxFeePerGas = maxFeePerGas, gq_maxPriorityFeePerGas = priority,
                     gq_gasCostUsd = rat_of_int (gasLimit * maxFeePerGas) / 10 ^ 18 * 3000\<rparr>)"

definition quoteBaseExecutionGas ::
  "('w, int option) service \<Rightarrow> rat \<Rightarrow> int \<Rightarrow> rat option \<Rightarrow> int option \<Rightarrow> ('w, gas_quote) io" where
  "quoteBaseExecutionGas getBaseFee expectedProfitUsd gasLimit maxGasPctOfProfit priorityFee =
     io_bind getBaseFee (\<lambda>baseFeePerGas.
       io_lift (quote_gas (case baseFeePerGas of Some f \<Rightarrow> f | None \<Rightarrow> 0) expectedProfitUsd gasLimit maxGasPctOfProfit priorityFee))"

section \<open>The client on top of viem\<close>

record 'w viem_client =
  vc_estimateGas :: "transaction \<Rightarrow> ('w, int) service"
  vc_getGasPrice :: "('w, int) service"
  vc_getTransactionCount :: "address \<Rightarrow> ('w, nat) service"
  vc_simulateContract :: "(transaction \<Rightarrow> overrides \<Rightarrow> ('w, unit) service) option"
  vc_hasContractCall :: "transaction \<Rightarrow> bool"
  vc_call :: "transaction \<Rightarrow> overrides \<Rightarrow> ('w, unit) service"
  vc_waitForTransactionReceipt :: "string \<Rightarrow> ('w, bool \<times> int option \<times> string option) service"
  vc_getBlockHash :: "(int \<Rightarrow> ('w, string) service) option"
  vc_account :: "address option"
  vc_sendTransaction :: "address \<Rightarrow> transaction \<Rightarrow> overrides \<Rightarrow> ('w, string) service"
  vc_decodeRevert :: "exn \<Rightarrow> string"

definition requireAccount :: "'w viem_client \<Rightarrow> ('w, address) io" where
  "requireAccount c =
     (case vc_account c of
        None \<Rightarrow> io_throw (Exn ''Wallet account is required for safe execution client'')
      | Some a \<Rightarrow> io_return a)"

definition viem_getPendingNonce :: "'w viem_client \<Rightarrow> ('w, nat) io" where
  "viem_getPendingNonce c = io_bind (requireAccount c) (vc_getTransactionCount c)"

definition viem_simulate :: "'w viem_client \<Rightarrow> transaction \<Rightarrow> overrides \<Rightarrow> ('w, sim_outcome) io" where
  "viem_simulate c tx ov =
     io_catch
       (io_then (requireAccount c)
         (io_then
           (case vc_simulateContract c of
              Some simulate \<Rightarrow> if vc_hasContractCall c tx then simulate tx ov else vc_call c tx ov
            | None \<Rightarrow> vc_call c tx ov)
           (io_return SimSucceeded)))
       (\<lambda>e. io_return (SimRejected (vc_decodeRevert c e)))"

definition viem_send :: "'w viem_client \<Rightarrow> transaction \<Rightarrow> overrides \<Rightarrow> ('w, string) io" where
  "viem_send c tx ov = io_bind (requireAccount c) (\<lambda>account. vc_sendTransaction c account tx ov)"

text \<open>A receipt says whether the transaction succeeded, and in which block.\<close>

definition viem_waitForReceipt :: "'w viem_client \<Rightarrow> string \<Rightarrow> ('w, receipt) io" where
  "viem_waitForReceipt c hash =
     io_bind (vc_waitForTransactionReceipt c hash) (\<lambda>(success, blockNumber, blockHash).
       let settled = io_return (if success then Included else Reverted None)
       in case (blockNumber, blockHash, vc_getBlockHash c) of
            (Some number, Some blockHash', Some getBlockHash) \<Rightarrow>
              if success then io_bind (getBlockHash number) (\<lambda>canonical. if canonical \<noteq> blockHash' then io_return Reorged else settled)
              else settled
          | _ \<Rightarrow> settled)"

section \<open>Private submission\<close>

datatype private_target = ProviderTarget | SequencerTarget

datatype private_tx_mode = ProviderPrivate | SequencerDirect | AutoMode

record 'w private_client =
  pw_mode :: private_tx_mode
  pw_providerWallet :: "(address \<Rightarrow> transaction \<Rightarrow> overrides \<Rightarrow> ('w, string) service) option"
  pw_sequencerWallet :: "(address \<Rightarrow> transaction \<Rightarrow> overrides \<Rightarrow> ('w, string) service) option"

fun clientOrder :: "private_tx_mode \<Rightarrow> private_target list" where
  "clientOrder ProviderPrivate = [ProviderTarget]"
| "clientOrder SequencerDirect = [SequencerTarget]"
| "clientOrder AutoMode = [ProviderTarget, SequencerTarget]"

definition trySubmit :: "'w private_client \<Rightarrow> private_target \<Rightarrow> address \<Rightarrow> transaction \<Rightarrow> overrides \<Rightarrow> ('w, string) io" where
  "trySubmit c target account tx ov =
     (case (case target of ProviderTarget \<Rightarrow> pw_providerWallet c | SequencerTarget \<Rightarrow> pw_sequencerWallet c) of
        None \<Rightarrow> io_throw (Exn ''Missing wallet client'')
      | Some submit \<Rightarrow> submit account tx ov)"

fun submit_in_order :: "'w private_client \<Rightarrow> address \<Rightarrow> transaction \<Rightarrow> overrides \<Rightarrow> private_target list \<Rightarrow> ('w, string) io" where
  "submit_in_order c account tx ov [] = io_throw (Exn ''private submission failed across configured targets'')"
| "submit_in_order c account tx ov (target # rest) =
     io_bind (io_catch (io_bind (trySubmit c target account tx ov) (\<lambda>hash. io_return (Some hash))) (\<lambda>_. io_return None))
       (\<lambda>sent. case sent of Some hash \<Rightarrow> io_return hash | None \<Rightarrow> submit_in_order c account tx ov rest)"

definition private_send :: "'w private_client \<Rightarrow> bundle_route \<Rightarrow> address \<Rightarrow> transaction \<Rightarrow> overrides \<Rightarrow> ('w, string) io" where
  "private_send c route account tx ov =
     (if route \<noteq> PrivateBundle then io_throw (Exn ''Unsupported private submission route'')
      else submit_in_order c account tx ov (clientOrder (pw_mode c)))"

section \<open>Broadcast to several endpoints\<close>

text \<open>Every endpoint is tried; \<open>settle\<close> is the order in which the attempts come back.\<close>

fun broadcast_all :: "('w, string) service list \<Rightarrow> ('w, (exn + string) list) io" where
  "broadcast_all [] = io_return []"
| "broadcast_all (send # rest) =
     io_bind (io_catch (io_bind send (\<lambda>hash. io_return (Inr hash))) (\<lambda>e. io_return (Inl e)))
       (\<lambda>r. io_bind (broadcast_all rest) (\<lambda>rs. io_return (r # rs)))"

definition first_settled :: "nat list \<Rightarrow> (exn + string) list \<Rightarrow> exn + string" where
  "first_settled settle results =
     (case filter (\<lambda>i. i < length results \<and> (\<exists>h. results ! i = Inr h)) settle of
        [] \<Rightarrow> Inl (Exn ''AggregateError: All promises were rejected'')
      | i # _ \<Rightarrow> results ! i)"

definition broadcast_send :: "nat list \<Rightarrow> ('w, string) service list \<Rightarrow> ('w, string) io" where
  "broadcast_send settle clients = io_bind (broadcast_all clients) (\<lambda>results. io_lift (first_settled settle results))"

fun all_gas_prices :: "('w, int) service list \<Rightarrow> ('w, int list) io" where
  "all_gas_prices [] = io_return []"
| "all_gas_prices (price # rest) =
     io_bind (io_catch (io_bind price (\<lambda>p. io_return [p])) (\<lambda>_. io_return []))
       (\<lambda>p. io_bind (all_gas_prices rest) (\<lambda>ps. io_return (p @ ps)))"

definition broadcast_getGasPrice :: "('w, int) service list \<Rightarrow> ('w, int) io" where
  "broadcast_getGasPrice clients =
     io_bind (all_gas_prices clients) (\<lambda>valid.
       case valid of [] \<Rightarrow> io_throw (Exn ''No RPC returned gas price'') | p # ps \<Rightarrow> io_return (fold max ps p))"

end
