(* ===== verification/Runtime_Config.thy ===== *)
theory Runtime_Config
  imports Submission Price_Oracle Liquidation_Bot Watchlist_Sweep
begin

text \<open>
  The configuration of \<open>src/index.ts\<close> and \<open>src/config/eventPurityConfig.ts\<close>, read from the environment,
  the gate before a deployment and the orderly shutdown of \<open>src/production/productionReadiness.ts\<close>, and
  the decisions of \<open>main\<close>. The environment maps names to texts. \<open>Number\<close>, \<open>BigInt\<close>, \<open>JSON\<close>, \<open>URL\<close> and the
  functions of viem on texts (ether amounts, the account of a key) are parameters; a number is a rational
  or not finite. Messages of errors are shortened to what does not depend on the values.
\<close>

section \<open>Texts\<close>

type_synonym env = "string \<Rightarrow> string option"

datatype js_number = Finite rat | NotFinite

datatype json = JNull | JBool bool | JNum rat | JStr string | JArr "json list" | JObj "(string, json) jsmap"

text \<open>What the hash of the configuration is taken of: lists, texts, and what is not set.\<close>

datatype hash_value = HashList "string list" | HashText string | HashUnset

record 'w env_services =
  es_number :: "string \<Rightarrow> js_number"
  es_bigint :: "string \<Rightarrow> int option"
  es_json :: "string \<Rightarrow> json option"
  es_hostname :: "string \<Rightarrow> string option"
  es_parseEther :: "string \<Rightarrow> exn + int"
  es_account :: "string \<Rightarrow> address"
  es_stringify :: "(string \<times> hash_value) list \<Rightarrow> string"
  es_sort :: "string list \<Rightarrow> string list"
  es_oracle :: "'w oracle_services"

definition try_bind :: "exn + 'a \<Rightarrow> ('a \<Rightarrow> exn + 'b) \<Rightarrow> exn + 'b" where
  "try_bind r f = (case r of Inl e \<Rightarrow> Inl e | Inr a \<Rightarrow> f a)"

definition refuse :: "string \<Rightarrow> exn + 'a" where
  "refuse message = Inl (Exn message)"

fun try_map :: "('a \<Rightarrow> exn + 'b) \<Rightarrow> 'a list \<Rightarrow> exn + 'b list" where
  "try_map f [] = Inr []"
| "try_map f (x # xs) = try_bind (f x) (\<lambda>y. try_bind (try_map f xs) (\<lambda>ys. Inr (y # ys)))"

definition blank :: "string option \<Rightarrow> bool" where
  "blank v \<longleftrightarrow> (case v of None \<Rightarrow> True | Some s \<Rightarrow> str_trim s = [])"

definition requireEnv :: "env \<Rightarrow> string \<Rightarrow> exn + string" where
  "requireEnv env name = (if blank (env name) then refuse (name @ '' is required'') else Inr (str_trim (the (env name))))"

definition optionalEnv :: "env \<Rightarrow> string \<Rightarrow> string option" where
  "optionalEnv env name = (if blank (env name) then None else map_option str_trim (env name))"

definition is_hex :: "nat \<Rightarrow> string \<Rightarrow> bool" where
  "is_hex n s \<longleftrightarrow> take 2 s = ''0x'' \<and> length s = n + 2 \<and> list_all (\<lambda>c. c \<in> set ''abcdefABCDEF0123456789'') (drop 2 s)"

definition parsePrivateKey :: "string \<Rightarrow> exn + string" where
  "parsePrivateKey v = (if is_hex 64 v then Inr v else refuse ''PRIVATE_KEY must be a 32-byte hex string'')"

definition parseAddress :: "string option \<Rightarrow> exn + address option" where
  "parseAddress v =
     (if blank v then Inr None
      else if is_hex 40 (the v) then Inr v
      else refuse ''Address env var must be a 20-byte hex address'')"

definition parse_list :: "string option \<Rightarrow> string list" where
  "parse_list v = filter (\<lambda>e. e \<noteq> []) (map str_trim (str_split (CHR '','') (or_else v [])))"

definition parseBoolean :: "string option \<Rightarrow> bool \<Rightarrow> exn + bool" where
  "parseBoolean v fallback =
     (if blank v then Inr fallback
      else let normalized = to_lower (str_trim (the v))
           in if normalized = ''true'' \<or> normalized = ''1'' then Inr True
              else if normalized = ''false'' \<or> normalized = ''0'' then Inr False
              else refuse ''Boolean env vars must be true or false'')"

definition parseMinNumber :: "'w env_services \<Rightarrow> string option \<Rightarrow> rat \<Rightarrow> rat \<Rightarrow> string \<Rightarrow> exn + rat" where
  "parseMinNumber sv v fallback least name =
     (case (if blank v then Finite fallback else es_number sv (the v)) of
        Finite r \<Rightarrow> if r < least then refuse (name @ '' must be a number greater than or equal to its minimum'') else Inr r
      | NotFinite \<Rightarrow> refuse (name @ '' must be a number greater than or equal to its minimum''))"

definition parseEthThreshold :: "'w env_services \<Rightarrow> string option \<Rightarrow> exn + int" where
  "parseEthThreshold sv v = (if blank v then Inr MIN_PROFIT_THRESHOLD_WEI else es_parseEther sv (the v))"

definition provider_of :: "string \<Rightarrow> flash_provider option" where
  "provider_of s = (if s = ''aaveV3'' then Some AaveV3 else if s = ''balancer'' then Some Balancer else if s = ''uniswapV3'' then Some UniswapV3 else None)"

definition parseFlashLoanProviders :: "string option \<Rightarrow> flash_provider list" where
  "parseFlashLoanProviders v =
     (if blank v then [AaveV3]
      else let providers = List.map_filter (provider_of \<circ> str_trim) (str_split (CHR '','') (the v))
           in if providers = [] then [AaveV3] else js_of_list providers)"

definition applyFlashLoanProviderPolicy :: "flash_provider list \<Rightarrow> bool \<Rightarrow> flash_provider list" where
  "applyFlashLoanProviderPolicy providers balancerFlashFallback =
     (if balancerFlashFallback then providers else filter (\<lambda>p. p \<noteq> Balancer) providers)"

definition parsePrivateTxMode :: "string option \<Rightarrow> exn + private_tx_mode" where
  "parsePrivateTxMode v =
     (if blank v then Inr AutoMode
      else if v = Some ''provider_private'' then Inr ProviderPrivate
      else if v = Some ''sequencer_direct'' then Inr SequencerDirect
      else if v = Some ''auto'' then Inr AutoMode
      else refuse ''PRIVATE_TX_MODE must be one of provider_private, sequencer_direct, auto'')"

section \<open>Chains and subgraphs\<close>

definition parseSupportedChains :: "env \<Rightarrow> exn + string list" where
  "parseSupportedChains env =
     (case optionalEnv env ''CHAINS'' of
        None \<Rightarrow> try_bind (parseSupportedChain (env ''CHAIN'')) (\<lambda>c. Inr [c])
      | Some configured \<Rightarrow>
          try_bind (try_map (parseSupportedChain \<circ> Some) (parse_list (Some configured))) (\<lambda>chainNames.
            if chainNames = [] then refuse ''CHAINS must include at least one supported chain'' else Inr (js_of_list chainNames)))"

definition aaveV3TheGraphSubgraphIds :: "(string, string) jsmap" where
  "aaveV3TheGraphSubgraphIds =
     [(''optimism'', ''3RWFxWNstn4nP3dXiDfKi9GgBoHx7xzc7APkXs1MLEgi''), (''arbitrum'', ''4xyasjQeREe7PxnF6wVdobZvCw5mhoHZq3T7guRpuNPf''),
      (''base'', ''BAbf6A2V6fPv8dhH6zJf9X4fQfN9P9S9D2E6n7M8R1yA'')]"

definition assertSubgraphBorrowerDiscoveryUrl :: "'w env_services \<Rightarrow> string \<Rightarrow> exn + unit" where
  "assertSubgraphBorrowerDiscoveryUrl sv url =
     (case es_hostname sv url of
        None \<Rightarrow> refuse ''Aave subgraph URL is not valid''
      | Some host \<Rightarrow> if to_lower host = ''api.v3.aave.com'' then refuse ''Subgraph URL points to the AaveKit GraphQL API (api.v3.aave.com)'' else Inr ())"

definition resolveAaveSubgraphUrlForChain :: "'w env_services \<Rightarrow> env \<Rightarrow> string \<Rightarrow> exn + string" where
  "resolveAaveSubgraphUrlForChain sv env chain =
     try_bind
       (case optionalEnv env ''AAVE_SUBGRAPH_URL'' of
          Some url \<Rightarrow> Inr url
        | None \<Rightarrow>
            (case (if chain = ''base'' then optionalEnv env ''BASE_AAVE_SUBGRAPH_URL'' else None) of
               Some url \<Rightarrow> Inr url
             | None \<Rightarrow>
                 (case optionalEnv env ''THE_GRAPH_API_KEY'' of
                    Some apiKey \<Rightarrow> Inr (''https://gateway.thegraph.com/api/'' @ apiKey @ ''/subgraphs/id/'' @ or_else (js_get aaveV3TheGraphSubgraphIds chain) ''undefined'')
                  | None \<Rightarrow> refuse ''Configure subgraph access'')))
       (\<lambda>url. try_bind (assertSubgraphBorrowerDiscoveryUrl sv url) (\<lambda>_. Inr url))"

definition buildAaveSubgraphFingerprint :: "'w env_services \<Rightarrow> (string \<times> string) list \<Rightarrow> string" where
  "buildAaveSubgraphFingerprint sv byChain =
     (case byChain of
        [(chain, url)] \<Rightarrow> url
      | _ \<Rightarrow> join_with ''|'' (es_sort sv (map (\<lambda>(chain, url). chain @ '':'' @ url) byChain)))"

section \<open>Price feeds\<close>

type_synonym feed_registry = "(string, (address, feed_config) jsmap) jsmap"

text \<open>The fields of what \<open>typeof\<close> calls an object; an array has its indices.\<close>

definition json_fields :: "json \<Rightarrow> (string, json) jsmap option" where
  "json_fields j = (case j of JObj fs \<Rightarrow> Some fs | JArr xs \<Rightarrow> Some (zip (map (int_string \<circ> int) [0..<length xs]) xs) | _ \<Rightarrow> None)"

definition json_field :: "string \<Rightarrow> (string, json) jsmap \<Rightarrow> json option" where
  "json_field name fs = js_get fs name"

definition parse_decimals :: "json option \<Rightarrow> exn + int option" where
  "parse_decimals d =
     (case d of
        None \<Rightarrow> Inr None
      | Some (JNum r) \<Rightarrow> if r = rat_of_int \<lfloor>r\<rfloor> \<and> 0 \<le> r then Inr (Some \<lfloor>r\<rfloor>) else refuse ''priceDecimals must be a non-negative integer''
      | Some _ \<Rightarrow> refuse ''priceDecimals must be a non-negative integer'')"

definition parse_feed :: "'w env_services \<Rightarrow> string \<times> json \<Rightarrow> exn + address \<times> feed_config" where
  "parse_feed sv entry =
     (case entry of (token, config) \<Rightarrow>
        if \<not> is_hex 40 token then refuse ''Invalid token address in PRICE_FEED_REGISTRY_JSON''
        else (case json_fields config of
          None \<Rightarrow> refuse ''PRICE_FEED_REGISTRY_JSON entry must be an object''
        | Some fs \<Rightarrow>
            (case json_field ''feed'' fs of
               Some (JStr feed) \<Rightarrow>
                 if \<not> is_hex 40 feed then refuse ''feed must be a 20-byte hex address''
                 else (case validateAndNormalizeFeedAddress (es_oracle sv) (Some feed) of
                   None \<Rightarrow> refuse ''feed is not a valid Chainlink feed address''
                 | Some normalized \<Rightarrow>
                     try_bind (parse_decimals (json_field ''priceDecimals'' fs)) (\<lambda>d.
                       Inr (token, \<lparr>fd_feed = normalized, fd_priceDecimals = d\<rparr>)))
             | _ \<Rightarrow> refuse ''feed must be a 20-byte hex address'')))"

definition parse_chain_feeds :: "'w env_services \<Rightarrow> (string, json) jsmap \<Rightarrow> string \<Rightarrow> exn + string \<times> (address, feed_config) jsmap" where
  "parse_chain_feeds sv parsed chain =
     (case json_field chain parsed of
        None \<Rightarrow> Inr (chain, [])
      | Some v \<Rightarrow>
          (case json_fields v of
             None \<Rightarrow> refuse ''PRICE_FEED_REGISTRY_JSON chain must be an object''
           | Some rows \<Rightarrow> try_bind (try_map (parse_feed sv) rows) (\<lambda>feeds.
               Inr (chain, fold (\<lambda>(token, config). js_set token config) feeds []))))"

definition parsePriceFeedRegistry :: "'w env_services \<Rightarrow> string option \<Rightarrow> exn + feed_registry option" where
  "parsePriceFeedRegistry sv v =
     (if blank v then Inr None
      else (case es_json sv (the v) of
        None \<Rightarrow> refuse ''PRICE_FEED_REGISTRY_JSON must be valid JSON''
      | Some parsed \<Rightarrow>
          (case json_fields parsed of
             None \<Rightarrow> refuse ''PRICE_FEED_REGISTRY_JSON must be an object''
           | Some fs \<Rightarrow> try_bind (try_map (parse_chain_feeds sv fs) [''optimism'', ''arbitrum'', ''base'']) (\<lambda>r. Inr (Some r)))))"

definition canonicalBaseUsdc :: address where "canonicalBaseUsdc = ''0x833589fCD6eDb6E08f4c7C32D4f71b54bdA02913''"

definition canonicalBaseWeth :: address where "canonicalBaseWeth = ''0x4200000000000000000000000000000000000006''"

definition canonicalBaseCbBtc :: address where "canonicalBaseCbBtc = ''0xcbB7C0000aB88B473b1f5aFd9ef808440eed33Bf''"

definition canonicalBaseUsdcUsdFeed :: address where "canonicalBaseUsdcUsdFeed = ''0x7e860098F58bBFC8648a4311b374B1D669a2bc6B''"

definition canonicalBaseEthUsdFeed :: address where "canonicalBaseEthUsdFeed = ''0x71041dddad3595F9CEd3DcCFBe3D1F4b0a16Bb70''"

definition canonicalBaseCbBtcUsdFeed :: address where "canonicalBaseCbBtcUsdFeed = ''0x07DA0E54543a844a80ABE69c8A12F22B3aA59f9D''"

definition defaultPriceFeedRegistry :: feed_registry where
  "defaultPriceFeedRegistry =
     [(''optimism'', []), (''arbitrum'', []),
      (''base'', [(canonicalBaseUsdc, \<lparr>fd_feed = canonicalBaseUsdcUsdFeed, fd_priceDecimals = Some 8\<rparr>),
                  (canonicalBaseWeth, \<lparr>fd_feed = canonicalBaseEthUsdFeed, fd_priceDecimals = Some 8\<rparr>),
                  (canonicalBaseCbBtc, \<lparr>fd_feed = canonicalBaseCbBtcUsdFeed, fd_priceDecimals = Some 8\<rparr>)])]"

text \<open>The tokens paid in by the pairs that the scanner monitors.\<close>

definition monitored_tokens_in :: "string \<Rightarrow> address list" where
  "monitored_tokens_in chain = (if chain \<noteq> ''base'' then [] else [canonicalBaseWeth, canonicalBaseUsdc, canonicalBaseCbBtc])"

definition nativeGasTokenForChain :: "string \<Rightarrow> address" where
  "nativeGasTokenForChain chain = (if chain = ''arbitrum'' then ''0x82aF49447D8a07e3bd95BD0d56f35241523fBab1'' else ''0x4200000000000000000000000000000000000006'')"

definition required_tokens :: "string \<Rightarrow> address list" where
  "required_tokens chain = js_of_list (monitored_tokens_in chain @ [nativeGasTokenForChain chain])"

definition missing_feeds :: "feed_registry \<Rightarrow> string list \<Rightarrow> (string \<times> address) list" where
  "missing_feeds registry chainNames =
     concat (map (\<lambda>chain. map (Pair chain) (filter (\<lambda>token. js_get (or_else (js_get registry chain) []) token = None) (required_tokens chain))) chainNames)"

section \<open>The event-purity settings\<close>

definition lenientBoolean :: "string option \<Rightarrow> bool \<Rightarrow> bool" where
  "lenientBoolean v fallback =
     (if blank v then fallback
      else let normalized = to_lower (str_trim (the v))
           in if normalized = ''true'' \<or> normalized = ''1'' then True
              else if normalized = ''false'' \<or> normalized = ''0'' then False
              else fallback)"

definition parsePositiveNumber :: "'w env_services \<Rightarrow> env \<Rightarrow> string \<Rightarrow> rat \<Rightarrow> exn + rat" where
  "parsePositiveNumber sv env name fallback =
     (if blank (env name) then Inr fallback
      else (case es_number sv (the (env name)) of
        Finite r \<Rightarrow> if r \<le> 0 then refuse (name @ '' must be a positive number'') else Inr r
      | NotFinite \<Rightarrow> refuse (name @ '' must be a positive number'')))"

definition parseNonNegativeNumber :: "'w env_services \<Rightarrow> env \<Rightarrow> string \<Rightarrow> rat \<Rightarrow> exn + rat" where
  "parseNonNegativeNumber sv env name fallback =
     (if blank (env name) then Inr fallback
      else (case es_number sv (the (env name)) of
        Finite r \<Rightarrow> if r < 0 then refuse (name @ '' must be a non-negative number'') else Inr r
      | NotFinite \<Rightarrow> refuse (name @ '' must be a non-negative number'')))"

definition parsePositiveBigInt :: "'w env_services \<Rightarrow> env \<Rightarrow> string \<Rightarrow> int \<Rightarrow> exn + int" where
  "parsePositiveBigInt sv env name fallback =
     (if blank (env name) then Inr fallback
      else (case es_bigint sv (str_trim (the (env name))) of
        Some i \<Rightarrow> if i \<le> 0 then refuse (name @ '' must be a positive integer'') else Inr i
      | None \<Rightarrow> refuse (name @ '' must be a positive integer'')))"

record purity_settings =
  pv_enableArbitrage :: bool
  pv_enableLiveTx :: bool
  pv_enableWatchTierConfirm :: bool
  pv_localHfUrgent :: rat
  pv_localHfWatch :: rat
  pv_reserveIndexRefreshBlocks :: int
  pv_positionEvictionHfThreshold :: rat
  pv_positionEvictionInactiveBlocks :: int
  pv_positionCacheHardCap :: rat
  pv_shadowSampleRate :: rat
  pv_shadowDriftToleranceBps :: rat
  pv_shadowFnRateTargetPct :: rat
  pv_shadowMaxSamplesPerDay :: rat
  pv_shadowMaxConcurrency :: rat
  pv_shadowBootstrapRampMs :: rat
  pv_shadowBootstrapSampleRateMultiplier :: rat
  pv_bootstrapEnabled :: bool
  pv_bootstrapLookbackDays :: rat
  pv_bootstrapCacheEnabled :: bool
  pv_bootstrapCacheTtlHours :: rat

definition DEFAULT_EVICTION_INACTIVE_BLOCKS :: int where "DEFAULT_EVICTION_INACTIVE_BLOCKS = 103680"

definition parseEventPurityConfig :: "'w env_services \<Rightarrow> env \<Rightarrow> exn + purity_settings" where
  "parseEventPurityConfig sv env =
     try_bind (parsePositiveNumber sv env ''LOCAL_HF_URGENT'' (21 / 20)) (\<lambda>urgent.
     try_bind (parsePositiveNumber sv env ''LOCAL_HF_WATCH'' (11 / 10)) (\<lambda>watch.
     try_bind (parsePositiveBigInt sv env ''RESERVE_INDEX_REFRESH_BLOCKS'' 100) (\<lambda>refreshBlocks.
     try_bind (parsePositiveNumber sv env ''POSITION_EVICTION_HF_THRESHOLD'' (3 / 2)) (\<lambda>evictionHf.
     try_bind (parsePositiveBigInt sv env ''POSITION_EVICTION_INACTIVE_BLOCKS'' DEFAULT_EVICTION_INACTIVE_BLOCKS) (\<lambda>inactive.
     try_bind (parsePositiveNumber sv env ''POSITION_CACHE_HARD_CAP'' 8000) (\<lambda>hardCap.
     try_bind (parsePositiveNumber sv env ''SHADOW_SAMPLE_RATE'' 100) (\<lambda>rate.
     try_bind (parseNonNegativeNumber sv env ''SHADOW_DRIFT_TOLERANCE_BPS'' 50) (\<lambda>drift.
     try_bind (parseNonNegativeNumber sv env ''SHADOW_FN_RATE_TARGET_PCT'' 1) (\<lambda>target.
     try_bind (parsePositiveNumber sv env ''SHADOW_MAX_SAMPLES_PER_DAY'' 500) (\<lambda>daily.
     try_bind (parsePositiveNumber sv env ''SHADOW_MAX_CONCURRENCY'' 8) (\<lambda>concurrency.
     try_bind (parsePositiveNumber sv env ''SHADOW_BOOTSTRAP_RAMP_MS'' 600000) (\<lambda>ramp.
     try_bind (parsePositiveNumber sv env ''SHADOW_BOOTSTRAP_SAMPLE_RATE_MULTIPLIER'' 5) (\<lambda>multiplier.
     try_bind (parsePositiveNumber sv env ''BOOTSTRAP_LOOKBACK_DAYS'' 14) (\<lambda>lookback.
     try_bind (parsePositiveNumber sv env ''BOOTSTRAP_CACHE_TTL_HOURS'' 24) (\<lambda>ttl.
     Inr \<lparr>
       pv_enableArbitrage = lenientBoolean (env ''ENABLE_ARBITRAGE'') False,
       pv_enableLiveTx = lenientBoolean (env ''ENABLE_LIVE_TX'') False,
       pv_enableWatchTierConfirm = lenientBoolean (env ''ENABLE_WATCH_TIER_CONFIRM'') False,
       pv_localHfUrgent = urgent, pv_localHfWatch = watch, pv_reserveIndexRefreshBlocks = refreshBlocks,
       pv_positionEvictionHfThreshold = evictionHf, pv_positionEvictionInactiveBlocks = inactive, pv_positionCacheHardCap = hardCap,
       pv_shadowSampleRate = rate, pv_shadowDriftToleranceBps = drift, pv_shadowFnRateTargetPct = target,
       pv_shadowMaxSamplesPerDay = daily, pv_shadowMaxConcurrency = concurrency, pv_shadowBootstrapRampMs = ramp,
       pv_shadowBootstrapSampleRateMultiplier = multiplier,
       pv_bootstrapEnabled = lenientBoolean (env ''BOOTSTRAP_ENABLED'') True,
       pv_bootstrapLookbackDays = lookback,
       pv_bootstrapCacheEnabled = lenientBoolean (env ''BOOTSTRAP_CACHE_ENABLED'') True,
       pv_bootstrapCacheTtlHours = ttl\<rparr>)))))))))))))))"

section \<open>The receipt of a dry run\<close>

record dry_run_receipt =
  dr_success :: bool
  dr_validatedAtMs :: js_number
  dr_configHash :: string
  dr_expectedConfigHash :: string
  dr_chains :: "string list"
  dr_expectedChains :: "string list"

definition hash_env :: "env \<Rightarrow> string \<Rightarrow> string \<Rightarrow> hash_value" where
  "hash_env env name fallback = HashText (or_else (env name) fallback)"

definition hash_optional :: "env \<Rightarrow> string \<Rightarrow> hash_value" where
  "hash_optional env name = (case optionalEnv env name of None \<Rightarrow> HashUnset | Some s \<Rightarrow> HashText s)"

definition safetyRelevantConfig :: "'w env_services \<Rightarrow> env \<Rightarrow> string list \<Rightarrow> string \<Rightarrow> string \<Rightarrow> (string \<times> hash_value) list" where
  "safetyRelevantConfig sv env chainNames privateKey fingerprint =
     [(''chains'', HashList chainNames),
      (''rpcUrl'', hash_optional env ''RPC_URL''),
      (''fallbackRpcUrls'', HashList (parse_list (env ''FALLBACK_RPC_URLS''))),
      (''wsRpcUrl'', hash_optional env ''WS_RPC_URL''),
      (''aaveSubgraphUrl'', HashText fingerprint),
      (''account'', HashText (es_account sv privateKey)),
      (''pollIntervalMs'', hash_env env ''POLL_INTERVAL_MS'' ''400''),
      (''candidateCooldownMs'', hash_env env ''CANDIDATE_COOLDOWN_MS'' ''30000''),
      (''minProfitThresholdEth'', hash_env env ''MIN_PROFIT_THRESHOLD_ETH'' ''0.01''),
      (''minProfitUsd'', hash_env env ''MIN_PROFIT_USD'' ''10''),
      (''arbitrageMinProfitUsd'', hash_env env ''ARBITRAGE_MIN_PROFIT_USD'' ''0.15''),
      (''gasCostUsd'', hash_env env ''GAS_COST_USD'' ''0''),
      (''slippageBps'', hash_env env ''SLIPPAGE_BPS'' ''50''),
      (''minProfitMarginBps'', hash_env env ''MIN_PROFIT_MARGIN_BPS'' ''75''),
      (''liquidationReceiverAddress'', hash_env env ''LIQUIDATION_RECEIVER_ADDRESS'' []),
      (''priceFeedRegistryJson'', hash_env env ''PRICE_FEED_REGISTRY_JSON'' []),
      (''simulationMode'', hash_env env ''SIMULATION_MODE'' ''true'')]"

definition runtimeConfigHash :: "'w env_services \<Rightarrow> env \<Rightarrow> string list \<Rightarrow> string \<Rightarrow> string \<Rightarrow> string" where
  "runtimeConfigHash sv env chainNames privateKey fingerprint =
     es_stringify sv (safetyRelevantConfig sv env chainNames privateKey fingerprint)"

definition parseDryRunChains :: "string option \<Rightarrow> string list \<Rightarrow> exn + string list" where
  "parseDryRunChains v fallback =
     (if blank v then Inr fallback
      else try_map (parseSupportedChain \<circ> Some \<circ> str_trim) (str_split (CHR '','') (the v)))"

definition parseDryRunValidation :: "'w env_services \<Rightarrow> env \<Rightarrow> string list \<Rightarrow> string \<Rightarrow> string \<Rightarrow> exn + dry_run_receipt option" where
  "parseDryRunValidation sv env chainNames privateKey fingerprint =
     (case (optionalEnv env ''DRY_RUN_CONFIG_HASH'', optionalEnv env ''DRY_RUN_VALIDATED_AT_MS'') of
        (Some configHash, Some validatedAtMs) \<Rightarrow>
          try_bind (parseBoolean (env ''DRY_RUN_SUCCESS'') False) (\<lambda>success.
          try_bind (parseDryRunChains (env ''DRY_RUN_CHAINS'') chainNames) (\<lambda>dryChains.
          Inr (Some \<lparr>dr_success = success, dr_validatedAtMs = es_number sv validatedAtMs, dr_configHash = configHash,
                     dr_expectedConfigHash = runtimeConfigHash sv env chainNames privateKey fingerprint,
                     dr_chains = dryChains, dr_expectedChains = chainNames\<rparr>)))
      | _ \<Rightarrow> Inr None)"

section \<open>The runtime configuration\<close>

record runtime_config =
  cf_chain :: string
  cf_chains :: "string list"
  cf_rpcUrl :: string
  cf_fallbackRpcUrls :: "string list"
  cf_wsRpcUrl :: "string option"
  cf_wsRpcUrlPrimary :: "string option"
  cf_wsRpcUrlSecondary :: "string option"
  cf_wsRpcUrlTertiary :: "string option"
  cf_executionRpcUrlPrimary :: string
  cf_executionRpcFallbackUrls :: "string list"
  cf_sequencerUptimeFeed :: "address option"
  cf_sequencerDirectRpc :: "string option"
  cf_flashblocksEnabled :: bool
  cf_flashblocksPrimaryLoop :: bool
  cf_hybridDetectionEnabled :: bool
  cf_flashLoanProviders :: "flash_provider list"
  cf_balancerFlashFallback :: bool
  cf_privateTxMode :: private_tx_mode
  cf_aaveSubgraphUrl :: string
  cf_aaveSubgraphByChain :: "(string \<times> string) list"
  cf_privateKey :: string
  cf_pollIntervalMs :: rat
  cf_candidateCooldownMs :: rat
  cf_minProfitWei :: int
  cf_minProfitUsd :: rat
  cf_gasCostUsd :: rat
  cf_slippageBps :: rat
  cf_minProfitMarginBps :: rat
  cf_flashLoanFeeBps :: rat
  cf_flashLoanSlippageFloorBps :: rat
  cf_gasOracleCacheMs :: rat
  cf_simulationMode :: bool
  cf_telegramBotToken :: "string option"
  cf_telegramChatId :: "string option"
  cf_pagerDutyRoutingKey :: "string option"
  cf_dryRunValidation :: "dry_run_receipt option"
  cf_logLevel :: string
  cf_usePipelineOrchestrator :: bool
  cf_arbitrageReceiverAddress :: "address option"
  cf_liquidationReceiverAddress :: "address option"
  cf_dailyPnlCsvPath :: "string option"
  cf_arbitrageMinProfitUsd :: rat
  cf_priceFeedRegistry :: feed_registry
  cf_minLiquidationDebtUsd :: rat
  cf_borrowerDeadLetterCooldownMs :: rat
  cf_oracleMaxStaleMs :: rat
  cf_oraclePollIntervalMs :: rat
  cf_singleInstanceLockPath :: string
  cf_disableSingleInstanceLock :: bool
  cf_eventPurity :: purity_settings

definition placeholderPrivateKey :: string where
  "placeholderPrivateKey = ''0x'' @ replicate 64 (CHR ''0'')"

definition margin_floor :: "bool \<Rightarrow> rat" where
  "margin_floor simulation = (if simulation then 40 else 75)"

definition read_config :: "'w env_services \<Rightarrow> env \<Rightarrow> exn + runtime_config" where
  "read_config sv env =
     try_bind (parseSupportedChains env) (\<lambda>chainNames.
     try_bind (requireEnv env ''RPC_URL'') (\<lambda>rpcUrl.
     try_bind (try_map (resolveAaveSubgraphUrlForChain sv env) chainNames) (\<lambda>urls.
     try_bind (requireEnv env ''PRIVATE_KEY'') (\<lambda>rawKey.
     try_bind (parsePrivateKey rawKey) (\<lambda>key.
     try_bind (parseBoolean (env ''SIMULATION_MODE'') True) (\<lambda>simulation.
     try_bind (if \<not> simulation \<and> to_lower key = placeholderPrivateKey then refuse ''PRIVATE_KEY uses the placeholder private key and cannot run in live mode'' else Inr ()) (\<lambda>_.
     try_bind (parseBoolean (env ''USE_PIPELINE_ORCHESTRATOR'') False) (\<lambda>pipeline.
     try_bind (parsePriceFeedRegistry sv (env ''PRICE_FEED_REGISTRY_JSON'')) (\<lambda>registry.
     try_bind (parseAddress (optionalEnv env ''SEQUENCER_UPTIME_FEED'')) (\<lambda>uptimeFeed.
     try_bind (parseBoolean (env ''FLASHBLOCKS_ENABLED'') False) (\<lambda>flashblocks.
     try_bind (parseBoolean (env ''FLASHBLOCKS_PRIMARY_LOOP'') False) (\<lambda>primaryLoop.
     try_bind (parseBoolean (env ''HYBRID_DETECTION_ENABLED'') False) (\<lambda>hybrid.
     try_bind (parseBoolean (env ''BALANCER_FLASH_FALLBACK'') False) (\<lambda>balancer.
     try_bind (parsePrivateTxMode (optionalEnv env ''PRIVATE_TX_MODE'')) (\<lambda>txMode.
     try_bind (parseMinNumber sv (env ''POLL_INTERVAL_MS'') 400 100 ''POLL_INTERVAL_MS'') (\<lambda>pollMs.
     try_bind (parseMinNumber sv (env ''CANDIDATE_COOLDOWN_MS'') 30000 0 ''CANDIDATE_COOLDOWN_MS'') (\<lambda>cooldownMs.
     try_bind (parseEthThreshold sv (env ''MIN_PROFIT_THRESHOLD_ETH'')) (\<lambda>profitWei.
     try_bind (parseMinNumber sv (env ''MIN_PROFIT_USD'') 10 0 ''MIN_PROFIT_USD'') (\<lambda>profitUsd.
     try_bind (parseMinNumber sv (env ''GAS_COST_USD'') 0 0 ''GAS_COST_USD'') (\<lambda>gasUsd.
     try_bind (parseMinNumber sv (env ''SLIPPAGE_BPS'') 50 0 ''SLIPPAGE_BPS'') (\<lambda>slippage.
     try_bind (parseMinNumber sv (env ''MIN_PROFIT_MARGIN_BPS'') 75 (margin_floor simulation) ''MIN_PROFIT_MARGIN_BPS'') (\<lambda>margin.
     try_bind (parseMinNumber sv (env ''FLASH_LOAN_FEE_BPS'') 5 0 ''FLASH_LOAN_FEE_BPS'') (\<lambda>fee.
     try_bind (parseMinNumber sv (env ''FLASH_LOAN_SLIPPAGE_FLOOR_BPS'') 500 0 ''FLASH_LOAN_SLIPPAGE_FLOOR_BPS'') (\<lambda>floorBps.
     try_bind (parseMinNumber sv (env ''GAS_ORACLE_CACHE_MS'') 30000 1 ''GAS_ORACLE_CACHE_MS'') (\<lambda>gasCache.
     try_bind (parseDryRunValidation sv env chainNames key (buildAaveSubgraphFingerprint sv (zip chainNames urls))) (\<lambda>receipt.
     try_bind (parseAddress (optionalEnv env ''ARBITRAGE_RECEIVER_ADDRESS'')) (\<lambda>arbReceiver.
     try_bind (parseAddress (optionalEnv env ''LIQUIDATION_RECEIVER_ADDRESS'')) (\<lambda>liqReceiver.
     try_bind (parseMinNumber sv (env ''ARBITRAGE_MIN_PROFIT_USD'') (3 / 20) 0 ''ARBITRAGE_MIN_PROFIT_USD'') (\<lambda>arbProfit.
     try_bind (parseMinNumber sv (env ''MIN_LIQUIDATION_DEBT_USD'') (max profitUsd 50) 0 ''MIN_LIQUIDATION_DEBT_USD'') (\<lambda>minDebt.
     try_bind (parseMinNumber sv (env ''BORROWER_DEAD_LETTER_COOLDOWN_MS'') 600000 300000 ''BORROWER_DEAD_LETTER_COOLDOWN_MS'') (\<lambda>deadLetter.
     try_bind (parseMinNumber sv (env ''ORACLE_MAX_STALE_MS'') 900000 1000 ''ORACLE_MAX_STALE_MS'') (\<lambda>staleMs.
     try_bind (parseMinNumber sv (env ''ORACLE_POLL_INTERVAL_MS'') 60000 1000 ''ORACLE_POLL_INTERVAL_MS'') (\<lambda>oraclePoll.
     try_bind (parseBoolean (env ''DISABLE_SINGLE_INSTANCE_LOCK'') False) (\<lambda>noLock.
     try_bind (parseEventPurityConfig sv env) (\<lambda>purity.
     Inr \<lparr>
       cf_chain = hd chainNames,
       cf_chains = chainNames,
       cf_rpcUrl = rpcUrl,
       cf_fallbackRpcUrls = parse_list (env ''FALLBACK_RPC_URLS''),
       cf_wsRpcUrl = optionalEnv env ''WS_RPC_URL'',
       cf_wsRpcUrlPrimary = (case optionalEnv env ''WS_RPC_URL_PRIMARY'' of Some u \<Rightarrow> Some u | None \<Rightarrow> optionalEnv env ''WS_RPC_URL''),
       cf_wsRpcUrlSecondary = optionalEnv env ''WS_RPC_URL_SECONDARY'',
       cf_wsRpcUrlTertiary = optionalEnv env ''WS_RPC_URL_TERTIARY'',
       cf_executionRpcUrlPrimary = or_else (optionalEnv env ''EXECUTION_RPC_URL_PRIMARY'') rpcUrl,
       cf_executionRpcFallbackUrls = parse_list (env ''EXECUTION_RPC_URL_FALLBACKS''),
       cf_sequencerUptimeFeed = uptimeFeed,
       cf_sequencerDirectRpc = optionalEnv env ''SEQUENCER_DIRECT_RPC'',
       cf_flashblocksEnabled = flashblocks,
       cf_flashblocksPrimaryLoop = primaryLoop,
       cf_hybridDetectionEnabled = hybrid,
       cf_flashLoanProviders = applyFlashLoanProviderPolicy (parseFlashLoanProviders (env ''FLASH_LOAN_PROVIDERS'')) balancer,
       cf_balancerFlashFallback = balancer,
       cf_privateTxMode = txMode,
       cf_aaveSubgraphUrl = hd urls,
       cf_aaveSubgraphByChain = zip chainNames urls,
       cf_privateKey = key,
       cf_pollIntervalMs = pollMs,
       cf_candidateCooldownMs = cooldownMs,
       cf_minProfitWei = profitWei,
       cf_minProfitUsd = profitUsd,
       cf_gasCostUsd = gasUsd,
       cf_slippageBps = slippage,
       cf_minProfitMarginBps = margin,
       cf_flashLoanFeeBps = fee,
       cf_flashLoanSlippageFloorBps = floorBps,
       cf_gasOracleCacheMs = gasCache,
       cf_simulationMode = simulation,
       cf_telegramBotToken = optionalEnv env ''TELEGRAM_BOT_TOKEN'',
       cf_telegramChatId = optionalEnv env ''TELEGRAM_CHAT_ID'',
       cf_pagerDutyRoutingKey = optionalEnv env ''PAGERDUTY_ROUTING_KEY'',
       cf_dryRunValidation = receipt,
       cf_logLevel = or_else (env ''LOG_LEVEL'') ''info'',
       cf_usePipelineOrchestrator = pipeline,
       cf_arbitrageReceiverAddress = arbReceiver,
       cf_liquidationReceiverAddress = liqReceiver,
       cf_dailyPnlCsvPath = optionalEnv env ''DAILY_PNL_CSV_PATH'',
       cf_arbitrageMinProfitUsd = arbProfit,
       cf_priceFeedRegistry = or_else registry defaultPriceFeedRegistry,
       cf_minLiquidationDebtUsd = minDebt,
       cf_borrowerDeadLetterCooldownMs = deadLetter,
       cf_oracleMaxStaleMs = staleMs,
       cf_oraclePollIntervalMs = oraclePoll,
       cf_singleInstanceLockPath = or_else (optionalEnv env ''SINGLE_INSTANCE_LOCK_PATH'') ''.runtime/bot.lock'',
       cf_disableSingleInstanceLock = noLock,
       cf_eventPurity = purity\<rparr>)))))))))))))))))))))))))))))))))))"

definition assertPipelineFlashLiquidationReadiness :: "runtime_config \<Rightarrow> exn + unit" where
  "assertPipelineFlashLiquidationReadiness cfg =
     (if \<not> cf_usePipelineOrchestrator cfg \<or> cf_simulationMode cfg then Inr ()
      else if cf_liquidationReceiverAddress cfg = None then refuse ''LIQUIDATION_RECEIVER_ADDRESS is required for live pipeline mode''
      else Inr ())"

definition assertArbitragePriceFeedCoverage :: "runtime_config \<Rightarrow> exn + unit" where
  "assertArbitragePriceFeedCoverage cfg =
     (if cf_simulationMode cfg \<or> \<not> cf_usePipelineOrchestrator cfg then Inr ()
      else if missing_feeds (cf_priceFeedRegistry cfg) (cf_chains cfg) \<noteq> [] then refuse ''Live arbitrage requires Chainlink feed coverage for tokenIn assets''
      else Inr ())"

definition check_config :: "'w env_services \<Rightarrow> runtime_config \<Rightarrow> exn + runtime_config" where
  "check_config sv cfg =
     try_bind (assertPipelineFlashLiquidationReadiness cfg) (\<lambda>_.
     try_bind (if pv_enableArbitrage (cf_eventPurity cfg) then assertArbitragePriceFeedCoverage cfg else Inr ()) (\<lambda>_.
     try_bind (if ''base'' \<in> set (cf_chains cfg) then assertBaseFeedRegistry (es_oracle sv) (js_get (cf_priceFeedRegistry cfg) ''base'') else Inr ()) (\<lambda>_.
     Inr cfg)))"

definition parseRuntimeConfig :: "'w env_services \<Rightarrow> env \<Rightarrow> exn + runtime_config" where
  "parseRuntimeConfig sv env = try_bind (read_config sv env) (check_config sv)"

section \<open>The gate before a deployment\<close>

record deployment_input =
  dg_simulationMode :: bool
  dg_hasMetricsEndpoint :: bool
  dg_registeredChains :: "string list"
  dg_minProfitMarginBps :: rat
  dg_dryRunValidation :: "dry_run_receipt option"

definition DRY_RUN_TTL_MS :: rat where "DRY_RUN_TTL_MS = 15 * 60 * 1000"

definition validateDryRunReceipt :: "rat \<Rightarrow> dry_run_receipt option \<Rightarrow> rat \<Rightarrow> string list" where
  "validateDryRunReceipt now receipt ttl =
     (case receipt of
        None \<Rightarrow> [''Successful dry-run validation is required before live mode'']
      | Some r \<Rightarrow>
          (if dr_success r then [] else [''Dry-run validation must be successful'']) @
          (case dr_validatedAtMs r of
             NotFinite \<Rightarrow> [''Dry-run validation timestamp is invalid'']
           | Finite validatedAt \<Rightarrow>
               (if 60000 < validatedAt - now then [''Dry-run validation timestamp is in the future''] else []) @
               (if ttl < now - validatedAt then [''Dry-run validation is stale''] else []) @
               (if dr_configHash r \<noteq> dr_expectedConfigHash r then [''Dry-run validation config hash does not match current config''] else []) @
               (if join_with '','' (dr_chains r) \<noteq> join_with '','' (dr_expectedChains r) then [''Dry-run validation chains do not match current chains''] else [])))"

datatype gate_result = GateAllowed | GateBlocked "string list"

definition gate_reasons :: "rat \<Rightarrow> deployment_input \<Rightarrow> string list" where
  "gate_reasons now input =
     (if dg_registeredChains input = [] then [''At least one chain must be registered''] else []) @
     (if \<not> dg_hasMetricsEndpoint input then [''Metrics endpoint is required''] else []) @
     (if \<not> dg_simulationMode input \<and> dg_minProfitMarginBps input < 75 then [''MIN_PROFIT_MARGIN_BPS must be at least 75 in live mode''] else []) @
     (if dg_simulationMode input \<and> dg_minProfitMarginBps input < 40 then [''MIN_PROFIT_MARGIN_BPS must be at least 40 in simulation mode''] else []) @
     (if \<not> dg_simulationMode input then validateDryRunReceipt now (dg_dryRunValidation input) DRY_RUN_TTL_MS else [])"

definition evaluateDeployment :: "rat \<Rightarrow> deployment_input \<Rightarrow> gate_result" where
  "evaluateDeployment now input = (let reasons = gate_reasons now input in if reasons = [] then GateAllowed else GateBlocked reasons)"

definition evaluateRuntimeDeploymentSafety :: "rat \<Rightarrow> runtime_config \<Rightarrow> gate_result" where
  "evaluateRuntimeDeploymentSafety now cfg =
     evaluateDeployment now
       \<lparr>dg_simulationMode = cf_simulationMode cfg, dg_hasMetricsEndpoint = True, dg_registeredChains = cf_chains cfg,
        dg_minProfitMarginBps = cf_minProfitMarginBps cfg, dg_dryRunValidation = cf_dryRunValidation cfg\<rparr>"

section \<open>The decisions of the start\<close>

text \<open>What \<open>main\<close> does: \<open>lockFree\<close> says whether the lock of the single instance can be had.\<close>

datatype startup = LockRejected | ReplayDryRun runtime_config | DeploymentBlocked "string list" | RunPipeline runtime_config | RunLegacy runtime_config

definition choose_bot :: "runtime_config \<Rightarrow> exn + startup" where
  "choose_bot cfg =
     (if \<not> cf_usePipelineOrchestrator cfg \<and> \<not> cf_simulationMode cfg then refuse ''Live mode requires USE_PIPELINE_ORCHESTRATOR=true to enforce flash-loan-first execution''
      else if cf_usePipelineOrchestrator cfg then Inr (RunPipeline cfg)
      else Inr (RunLegacy cfg))"

definition main_decision :: "'w env_services \<Rightarrow> env \<Rightarrow> rat \<Rightarrow> bool \<Rightarrow> bool \<Rightarrow> exn + startup" where
  "main_decision sv env now dryRunMode lockFree =
     try_bind (parseRuntimeConfig sv env) (\<lambda>cfg.
     try_bind (parseBoolean (env ''ENABLE_HEAP_SNAPSHOTS'') False) (\<lambda>_.
     if \<not> cf_disableSingleInstanceLock cfg \<and> \<not> dryRunMode \<and> \<not> lockFree then Inr LockRejected
     else if dryRunMode then Inr (ReplayDryRun cfg)
     else try_bind (parseBoolean (env ''SKIP_DEPLOYMENT_SAFETY_GATE'') False) (\<lambda>skipGate.
       if skipGate then choose_bot cfg
       else (case evaluateRuntimeDeploymentSafety now cfg of
          GateBlocked reasons \<Rightarrow> Inr (DeploymentBlocked reasons)
        | GateAllowed \<Rightarrow> choose_bot cfg))))"

end
