(* ===== verification/Config_Safety.thy ===== *)
theory Config_Safety
  imports Runtime_Config
begin

text \<open>
  What a start of the bot guarantees: the bounds of a configuration that was accepted, the conditions of a
  live start, and what the receipt of a dry run does not depend on.
\<close>

section \<open>Reading the environment\<close>

lemma try_bind_Inr [simp]: "try_bind r f = Inr b \<longleftrightarrow> (\<exists>a. r = Inr a \<and> f a = Inr b)"
  by (auto simp: try_bind_def split: sum.splits)

lemma refuse_Inr [simp]: "refuse m \<noteq> Inr a"
  by (simp add: refuse_def)

lemma try_map_Inr: "try_map f xs = Inr ys \<Longrightarrow> list_all2 (\<lambda>x y. f x = Inr y) xs ys"
  by (induction xs arbitrary: ys) auto

lemma try_map_each: "try_map f xs = Inr ys \<Longrightarrow> x \<in> set xs \<Longrightarrow> \<exists>y. f x = Inr y"
  by (induction xs arbitrary: ys) auto

lemma parseMinNumber_Inr: "parseMinNumber sv v fallback least name = Inr r \<Longrightarrow> least \<le> r"
  by (auto simp: parseMinNumber_def split: js_number.splits if_splits)

lemma parsePrivateKey_Inr: "parsePrivateKey v = Inr k \<Longrightarrow> k = v \<and> is_hex 64 k"
  by (auto simp: parsePrivateKey_def split: if_splits)

lemma parseAddress_Inr: "parseAddress v = Inr (Some a) \<Longrightarrow> is_hex 40 a"
  by (auto simp: parseAddress_def blank_def split: if_splits option.splits)

lemma parseSupportedChain_Inr: "parseSupportedChain v = Inr c \<Longrightarrow> c \<in> {''optimism'', ''arbitrum'', ''base''}"
  by (auto simp: parseSupportedChain_def split: if_splits option.splits)

lemma parseSupportedChains_Inr:
  assumes "parseSupportedChains env = Inr cs"
  shows "cs \<noteq> [] \<and> distinct cs \<and> set cs \<subseteq> {''optimism'', ''arbitrum'', ''base''}"
proof (cases "optionalEnv env ''CHAINS''")
  case None
  then show ?thesis
    using assms by (auto simp: parseSupportedChains_def dest: parseSupportedChain_Inr)
next
  case (Some v)
  then obtain xs where xs: "try_map (parseSupportedChain \<circ> Some) (parse_list (Some v)) = Inr xs" "xs \<noteq> []" "cs = js_of_list xs"
    using assms by (auto simp: parseSupportedChains_def split: if_splits)
  have "set xs \<subseteq> {''optimism'', ''arbitrum'', ''base''}"
    using try_map_Inr[OF xs(1)] parseSupportedChain_Inr by (fastforce simp: list_all2_conv_all_nth in_set_conv_nth)
  then show ?thesis
    using xs set_js_of_list[of xs] by (metis distinct_js_of_list set_empty)
qed

section \<open>The configuration that is accepted\<close>

lemma placeholder_refused: "(if \<not> simulation \<and> to_lower key = p then refuse m else Inr ()) = Inr u \<Longrightarrow> simulation \<or> to_lower key \<noteq> p"
  by (cases "\<not> simulation \<and> to_lower key = p") auto

text \<open>What the properties need of the long sequence of parsers, read off once.\<close>

lemma read_config_facts:
  assumes "read_config sv env = Inr cfg"
  shows "parseSupportedChains env = Inr (cf_chains cfg) \<and> cf_chain cfg = hd (cf_chains cfg) \<and>
         parsePrivateKey (cf_privateKey cfg) = Inr (cf_privateKey cfg) \<and>
         (cf_simulationMode cfg \<or> to_lower (cf_privateKey cfg) \<noteq> placeholderPrivateKey) \<and>
         margin_floor (cf_simulationMode cfg) \<le> cf_minProfitMarginBps cfg \<and>
         100 \<le> cf_pollIntervalMs cfg \<and> 0 \<le> cf_candidateCooldownMs cfg \<and> 0 \<le> cf_slippageBps cfg \<and>
         300000 \<le> cf_borrowerDeadLetterCooldownMs cfg \<and> 1000 \<le> cf_oracleMaxStaleMs cfg \<and> 1000 \<le> cf_oraclePollIntervalMs cfg \<and>
         parseAddress (optionalEnv env ''LIQUIDATION_RECEIVER_ADDRESS'') = Inr (cf_liquidationReceiverAddress cfg) \<and>
         parseDryRunValidation sv env (cf_chains cfg) (cf_privateKey cfg) (buildAaveSubgraphFingerprint sv (cf_aaveSubgraphByChain cfg)) = Inr (cf_dryRunValidation cfg) \<and>
         cf_flashLoanProviders cfg = applyFlashLoanProviderPolicy (parseFlashLoanProviders (env ''FLASH_LOAN_PROVIDERS'')) (cf_balancerFlashFallback cfg)"
  using assms unfolding read_config_def try_bind_Inr
  by (elim exE conjE, simp only: sum.inject, hypsubst, simp only: runtime_config.simps, intro conjI)
    (assumption | rule refl | erule parseMinNumber_Inr | erule placeholder_refused | (drule parsePrivateKey_Inr, clarify, assumption) | (frule parsePrivateKey_Inr, elim conjE, hypsubst, assumption))+

lemma parseRuntimeConfig_facts:
  assumes "parseRuntimeConfig sv env = Inr cfg"
  shows "read_config sv env = Inr cfg \<and> assertPipelineFlashLiquidationReadiness cfg = Inr () \<and>
         (''base'' \<in> set (cf_chains cfg) \<longrightarrow> assertBaseFeedRegistry (es_oracle sv) (js_get (cf_priceFeedRegistry cfg) ''base'') = Inr ())"
  using assms by (auto simp: parseRuntimeConfig_def check_config_def split: if_splits)

lemma assert_feeds_each:
  assumes "assert_feeds sv feeds expected = Inr ()" "(token, feed) \<in> set expected"
  shows "\<exists>config normalized. js_get feeds token = Some config \<and>
           validateAndNormalizeFeedAddress sv (Some (fd_feed config)) = Some normalized \<and> to_lower normalized = to_lower feed"
  using assms by (induction sv feeds expected rule: assert_feeds.induct) (auto split: option.splits if_splits)

lemma base_registry_facts:
  assumes "assertBaseFeedRegistry sv registry = Inr ()" "(token, feed) \<in> set CRITICAL_BASE_FEED_EXPECTATIONS"
  shows "\<exists>feeds config normalized. registry = Some feeds \<and> js_get feeds token = Some config \<and>
           validateAndNormalizeFeedAddress sv (Some (fd_feed config)) = Some normalized \<and> to_lower normalized = to_lower feed"
  using assms assert_feeds_each by (cases registry) (fastforce simp: assertBaseFeedRegistry_def)+

lemma providers_facts:
  "distinct (applyFlashLoanProviderPolicy (parseFlashLoanProviders v) b) \<and>
   (Balancer \<in> set (applyFlashLoanProviderPolicy (parseFlashLoanProviders v) b) \<longrightarrow> b)"
  by (simp add: applyFlashLoanProviderPolicy_def parseFlashLoanProviders_def Let_def)


section \<open>A live start\<close>

lemma gate_allows:
  "evaluateDeployment now input = GateAllowed \<longleftrightarrow> gate_reasons now input = []"
  by (simp add: evaluateDeployment_def Let_def)

lemma receipt_valid:
  assumes "validateDryRunReceipt now receipt ttl = []"
  shows "\<exists>r t. receipt = Some r \<and> dr_success r \<and> dr_validatedAtMs r = Finite t \<and> now - ttl \<le> t \<and> t \<le> now + 60000 \<and>
           dr_configHash r = dr_expectedConfigHash r \<and> join_with '','' (dr_chains r) = join_with '','' (dr_expectedChains r)"
  using assms by (auto simp: validateDryRunReceipt_def split: option.splits js_number.splits if_splits)

lemma parseDryRunValidation_Inr:
  assumes "parseDryRunValidation sv env cs key fp = Inr (Some r)"
  shows "optionalEnv env ''DRY_RUN_CONFIG_HASH'' = Some (dr_configHash r) \<and> dr_expectedConfigHash r = runtimeConfigHash sv env cs key fp \<and>
         parseDryRunChains (env ''DRY_RUN_CHAINS'') cs = Inr (dr_chains r) \<and> dr_expectedChains r = cs"
  using assms by (auto simp: parseDryRunValidation_def split: option.splits)

definition runs :: "startup \<Rightarrow> runtime_config \<Rightarrow> bool" where
  "runs s cfg \<longleftrightarrow> s = RunPipeline cfg \<or> s = RunLegacy cfg"

lemma choose_bot_live: "choose_bot cfg = Inr s \<Longrightarrow> \<not> cf_simulationMode cfg \<Longrightarrow> s = RunPipeline cfg \<and> cf_usePipelineOrchestrator cfg"
  by (auto simp: choose_bot_def split: if_splits)

lemma choose_bot_same: "choose_bot cfg = Inr s \<Longrightarrow> runs s cfg' \<Longrightarrow> cfg' = cfg"
  by (auto simp: choose_bot_def runs_def split: if_splits)

lemma runs_when:
  assumes "main_decision sv env now dryRunMode lockFree = Inr s" "runs s cfg"
  shows "parseRuntimeConfig sv env = Inr cfg \<and> choose_bot cfg = Inr s \<and> \<not> dryRunMode \<and>
         (parseBoolean (env ''SKIP_DEPLOYMENT_SAFETY_GATE'') False = Inr False \<longrightarrow> evaluateRuntimeDeploymentSafety now cfg = GateAllowed)"
  using assms choose_bot_same by (auto simp: main_decision_def runs_def split: if_splits gate_result.splits)


section \<open>What the receipt does not depend on\<close>

lemma try_bind_assoc: "try_bind (try_bind r f) g = try_bind r (\<lambda>x. try_bind (f x) g)"
  by (simp add: try_bind_def split: sum.split)

lemma try_bind_return: "try_bind (Inr x) f = f x"
  by (simp add: try_bind_def)

lemma try_bind_cong: "r = r' \<Longrightarrow> (\<And>x. r' = Inr x \<Longrightarrow> f x = g x) \<Longrightarrow> try_bind r f = try_bind r' g"
  by (auto simp: try_bind_def split: sum.split)

text \<open>Parsers of other names do not see a change of one name.\<close>

lemma other_name:
  assumes "n \<noteq> m"
  shows "requireEnv (env(m := v)) n = requireEnv env n" "optionalEnv (env(m := v)) n = optionalEnv env n"
    "hash_env (env(m := v)) n d = hash_env env n d" "hash_optional (env(m := v)) n = hash_optional env n"
    "parsePositiveNumber sv (env(m := v)) n r = parsePositiveNumber sv env n r"
    "parseNonNegativeNumber sv (env(m := v)) n r = parseNonNegativeNumber sv env n r"
    "parsePositiveBigInt sv (env(m := v)) n i = parsePositiveBigInt sv env n i"
  using assms
  by (simp_all add: requireEnv_def optionalEnv_def hash_env_def hash_optional_def parsePositiveNumber_def parseNonNegativeNumber_def parsePositiveBigInt_def)

abbreviation EXECUTION_RPC :: string where "EXECUTION_RPC \<equiv> ''EXECUTION_RPC_URL_PRIMARY''"

lemma execution_rpc_unread:
  "parseSupportedChains (env(EXECUTION_RPC := v)) = parseSupportedChains env"
  "resolveAaveSubgraphUrlForChain sv (env(EXECUTION_RPC := v)) = resolveAaveSubgraphUrlForChain sv env"
  "parseEventPurityConfig sv (env(EXECUTION_RPC := v)) = parseEventPurityConfig sv env"
  "safetyRelevantConfig sv (env(EXECUTION_RPC := v)) = safetyRelevantConfig sv env"
  by (simp_all add: fun_eq_iff other_name parseSupportedChains_def resolveAaveSubgraphUrlForChain_def parseEventPurityConfig_def safetyRelevantConfig_def cong: option.case_cong if_cong)

lemma execution_rpc_receipt: "parseDryRunValidation sv (env(EXECUTION_RPC := v)) = parseDryRunValidation sv env"
  by (simp add: fun_eq_iff other_name parseDryRunValidation_def runtimeConfigHash_def execution_rpc_unread cong: option.case_cong)

lemma read_config_execution_rpc:
  assumes "str_trim url \<noteq> []"
  shows "read_config sv (env(EXECUTION_RPC := Some url)) =
         try_bind (read_config sv env) (\<lambda>cfg. Inr (cfg\<lparr>cf_executionRpcUrlPrimary := str_trim url\<rparr>))"
proof -
  have u: "optionalEnv (env(EXECUTION_RPC := Some url)) EXECUTION_RPC = Some (str_trim url)"
    using assms by (simp add: optionalEnv_def blank_def)
  show ?thesis
    unfolding read_config_def try_bind_assoc try_bind_return
    by (simp add: u other_name execution_rpc_unread execution_rpc_receipt or_else_def cong: option.case_cong)
qed

lemma check_config_execution_rpc:
  "check_config sv (cfg\<lparr>cf_executionRpcUrlPrimary := u\<rparr>) =
   try_bind (check_config sv cfg) (\<lambda>c. Inr (c\<lparr>cf_executionRpcUrlPrimary := u\<rparr>))"
  unfolding check_config_def try_bind_assoc try_bind_return
  by (simp add: assertPipelineFlashLiquidationReadiness_def assertArbitragePriceFeedCoverage_def)

lemma parseRuntimeConfig_execution_rpc:
  assumes "str_trim url \<noteq> []" "parseRuntimeConfig sv env = Inr cfg"
  shows "parseRuntimeConfig sv (env(EXECUTION_RPC := Some url)) = Inr (cfg\<lparr>cf_executionRpcUrlPrimary := str_trim url\<rparr>)"
proof -
  obtain c where c: "read_config sv env = Inr c" "check_config sv c = Inr cfg"
    using assms(2) by (auto simp: parseRuntimeConfig_def)
  show ?thesis
    unfolding parseRuntimeConfig_def read_config_execution_rpc[OF assms(1)]
    by (simp add: c check_config_execution_rpc try_bind_return)
qed

lemma gate_execution_rpc:
  "evaluateRuntimeDeploymentSafety now (cfg\<lparr>cf_executionRpcUrlPrimary := u\<rparr>) = evaluateRuntimeDeploymentSafety now cfg"
  by (simp add: evaluateRuntimeDeploymentSafety_def)

text \<open>C36. The receipt does not cover the endpoint that transactions are sent to: whenever the pipeline starts,
  it starts as well, with the same receipt and the same key, once \<open>EXECUTION_RPC_URL_PRIMARY\<close> is another address.\<close>

theorem receipt_ignores_execution_endpoint:
  assumes "main_decision sv env now dryRunMode lockFree = Inr (RunPipeline cfg)" "str_trim url \<noteq> []"
  shows "main_decision sv (env(''EXECUTION_RPC_URL_PRIMARY'' := Some url)) now dryRunMode lockFree =
         Inr (RunPipeline (cfg\<lparr>cf_executionRpcUrlPrimary := str_trim url\<rparr>))"
proof -
  have "runs (RunPipeline cfg) cfg"
    by (simp add: runs_def)
  note w = runs_when[OF assms(1) this]
  note parsed = parseRuntimeConfig_execution_rpc[OF assms(2) conjunct1[OF w]]
  have built: "choose_bot (cfg\<lparr>cf_executionRpcUrlPrimary := str_trim url\<rparr>) = Inr (RunPipeline (cfg\<lparr>cf_executionRpcUrlPrimary := str_trim url\<rparr>))"
    using w by (auto simp: choose_bot_def split: if_splits)
  obtain h skip where h: "parseBoolean (env ''ENABLE_HEAP_SNAPSHOTS'') False = Inr h"
      "parseBoolean (env ''SKIP_DEPLOYMENT_SAFETY_GATE'') False = Inr skip"
      "skip \<or> evaluateRuntimeDeploymentSafety now cfg = GateAllowed" "cf_disableSingleInstanceLock cfg \<or> lockFree"
    using assms(1) w by (auto simp: main_decision_def split: if_splits gate_result.splits)
  show ?thesis
    using h w by (cases skip) (auto simp: main_decision_def parsed built try_bind_return gate_execution_rpc)
qed

section \<open>A concrete start\<close>

definition live_env :: env where
  "live_env = map_of
     [(''CHAINS'', ''base''), (''RPC_URL'', ''http://rpc''), (''AAVE_SUBGRAPH_URL'', ''http://graph''),
      (''PRIVATE_KEY'', ''0x'' @ replicate 64 (CHR ''1'')), (''SIMULATION_MODE'', ''false''), (''USE_PIPELINE_ORCHESTRATOR'', ''true''),
      (''LIQUIDATION_RECEIVER_ADDRESS'', ''0x'' @ replicate 40 (CHR ''2'')),
      (''DRY_RUN_CONFIG_HASH'', ''hash''), (''DRY_RUN_VALIDATED_AT_MS'', ''1000000''), (''DRY_RUN_SUCCESS'', ''true'')]"

definition live_services :: "unit env_services" where
  "live_services =
     \<lparr>es_number = (\<lambda>s. Finite 1000000), es_bigint = (\<lambda>s. None), es_json = (\<lambda>s. None), es_hostname = (\<lambda>s. Some ''graph''),
      es_parseEther = (\<lambda>s. Inr 0), es_account = (\<lambda>s. ''0xacc''), es_stringify = (\<lambda>h. ''hash''), es_sort = (\<lambda>xs. xs),
      es_oracle = sample_oracle\<rparr>"

definition starts_pipeline :: "exn + startup \<Rightarrow> runtime_config option" where
  "starts_pipeline r = (case r of Inr (RunPipeline cfg) \<Rightarrow> Some cfg | _ \<Rightarrow> None)"

lemma live_starts: "map_option cf_simulationMode (starts_pipeline (main_decision live_services live_env 1000000 False True)) = Some False"
  by code_simp

lemma live_config:
  obtains cfg where "main_decision live_services live_env 1000000 False True = Inr (RunPipeline cfg)"
    "runs (RunPipeline cfg) cfg" "\<not> cf_simulationMode cfg"
  using live_starts by (auto simp: starts_pipeline_def runs_def split: sum.splits startup.splits)

lemma live_gate_not_skipped: "parseBoolean (live_env ''SKIP_DEPLOYMENT_SAFETY_GATE'') False = Inr False"
  by (simp add: live_env_def parseBoolean_def blank_def)



theorem receipt_ignores_execution_endpoint_witness:
  "\<exists>cfg. main_decision live_services (live_env(''EXECUTION_RPC_URL_PRIMARY'' := Some ''http://elsewhere'')) 1000000 False True =
         Inr (RunPipeline (cfg\<lparr>cf_executionRpcUrlPrimary := ''http://elsewhere''\<rparr>))"
proof -
  obtain cfg where c: "main_decision live_services live_env 1000000 False True = Inr (RunPipeline cfg)"
    by (rule live_config)
  have "str_trim ''http://elsewhere'' = ''http://elsewhere''"
    by code_simp
  then show ?thesis
    using receipt_ignores_execution_endpoint[OF c, of "''http://elsewhere''"] by auto
qed

end
