(* ===== verification/Instance_Lock.thy ===== *)
theory Instance_Lock
  imports Runtime_Config
begin

text \<open>
  The lock file of \<open>src/utils/singleInstanceLock.ts\<close>. \<open>acquireSingleInstanceLock\<close> is a sequence of calls to
  the file system: each is one step of its process, and the steps of several processes interleave. A file has an
  identity, so that a process that holds it open writes to it even after its name is gone. Whether a process is
  alive and \<open>Number\<close> are parameters.
\<close>

section \<open>Acquiring the lock\<close>

definition parseLockPid :: "(string \<Rightarrow> js_number) \<Rightarrow> string \<Rightarrow> int option" where
  "parseLockPid num contents =
     (let line = takeWhile (\<lambda>c. \<not> is_space c) (str_trim contents)
      in if line = [] then None
         else (case num line of
           Finite r \<Rightarrow> if r = rat_of_int \<lfloor>r\<rfloor> \<and> 0 < r then Some \<lfloor>r\<rfloor> else None
         | NotFinite \<Rightarrow> None))"

text \<open>\<open>LockHeld\<close> says whether its release removes the file; an exception out of the function is \<open>LockCrashed\<close>.\<close>

datatype lock_stage =
    LockStart | LockReading | LockRemoving | LockOpening | LockWriting nat
  | LockHeld bool | LockDenied | LockCrashed

record lock_system =
  lk_file :: "(nat \<times> string) option"
  lk_fresh :: nat
  lk_at :: "int \<Rightarrow> lock_stage"

definition lock_line :: "int \<Rightarrow> string" where
  "lock_line pid = int_string pid @ [CHR 0x0A]"

definition lock_goto :: "int \<Rightarrow> lock_stage \<Rightarrow> lock_system \<Rightarrow> lock_system" where
  "lock_goto pid stage s = s\<lparr>lk_at := (lk_at s)(pid := stage)\<rparr>"

text \<open>What a process does once it has read the file.\<close>

definition lock_judge :: "(int \<Rightarrow> bool) \<Rightarrow> (string \<Rightarrow> js_number) \<Rightarrow> int \<Rightarrow> string \<Rightarrow> lock_stage" where
  "lock_judge alive num pid contents =
     (case parseLockPid num contents of
        Some existing \<Rightarrow> if alive existing then (if existing = pid then LockHeld False else LockDenied) else LockRemoving
      | None \<Rightarrow> LockRemoving)"

definition lock_act :: "(int \<Rightarrow> bool) \<Rightarrow> (string \<Rightarrow> js_number) \<Rightarrow> int \<Rightarrow> lock_system \<Rightarrow> lock_system" where
  "lock_act alive num pid s =
     (case lk_at s pid of
        LockStart \<Rightarrow> lock_goto pid (if lk_file s = None then LockOpening else LockReading) s
      | LockReading \<Rightarrow>
          (case lk_file s of
             None \<Rightarrow> lock_goto pid LockCrashed s
           | Some (i, contents) \<Rightarrow> lock_goto pid (lock_judge alive num pid contents) s)
      | LockRemoving \<Rightarrow>
          (if lk_file s = None then lock_goto pid LockDenied s else lock_goto pid LockOpening (s\<lparr>lk_file := None\<rparr>))
      | LockOpening \<Rightarrow>
          (if lk_file s \<noteq> None then lock_goto pid LockDenied s
           else lock_goto pid (LockWriting (lk_fresh s)) (s\<lparr>lk_file := Some (lk_fresh s, []), lk_fresh := lk_fresh s + 1\<rparr>))
      | LockWriting fd \<Rightarrow>
          lock_goto pid (LockHeld True)
            (s\<lparr>lk_file := map_option (\<lambda>(i, contents). (i, if i = fd then lock_line pid else contents)) (lk_file s)\<rparr>)
      | _ \<Rightarrow> s)"

inductive lock_step :: "(int \<Rightarrow> bool) \<Rightarrow> (string \<Rightarrow> js_number) \<Rightarrow> lock_system \<Rightarrow> lock_system \<Rightarrow> bool" for alive num where
  act: "lock_step alive num s (lock_act alive num pid s)"

inductive_cases lock_stepE: "lock_step alive num s s'"

definition nobody :: lock_system where
  "nobody = \<lparr>lk_file = None, lk_fresh = 0, lk_at = (\<lambda>pid. LockStart)\<rparr>"

text \<open>The function of a process that nobody interrupts.\<close>

definition lock_create :: "int \<Rightarrow> lock_system \<Rightarrow> lock_system" where
  "lock_create pid s =
     lock_goto pid (LockHeld True) (s\<lparr>lk_file := Some (lk_fresh s, lock_line pid), lk_fresh := lk_fresh s + 1\<rparr>)"

definition acquireSingleInstanceLock :: "(int \<Rightarrow> bool) \<Rightarrow> (string \<Rightarrow> js_number) \<Rightarrow> int \<Rightarrow> lock_system \<Rightarrow> lock_system" where
  "acquireSingleInstanceLock alive num pid s =
     (case lk_file s of
        None \<Rightarrow> lock_create pid s
      | Some (i, contents) \<Rightarrow>
          (case lock_judge alive num pid contents of
             LockRemoving \<Rightarrow> lock_create pid (s\<lparr>lk_file := None\<rparr>)
           | stage \<Rightarrow> lock_goto pid stage s))"

definition lock_release :: "(string \<Rightarrow> js_number) \<Rightarrow> int \<Rightarrow> lock_system \<Rightarrow> lock_system" where
  "lock_release num pid s =
     (if lk_at s pid = LockHeld True
      then (case lk_file s of
        Some (i, contents) \<Rightarrow> if parseLockPid num contents = Some pid then s\<lparr>lk_file := None\<rparr> else s
      | None \<Rightarrow> s)
      else s)"

section \<open>What the lock gives\<close>

lemma lk_at_goto [simp]: "lk_at (lock_goto pid stage s) = (lk_at s)(pid := stage)"
  "lk_file (lock_goto pid stage s) = lk_file s" "lk_fresh (lock_goto pid stage s) = lk_fresh s"
  by (simp_all add: lock_goto_def)

lemma goto_goto [simp]: "lock_goto pid a (lock_goto pid b s) = lock_goto pid a s"
  by (simp add: lock_goto_def)

text \<open>Digits are not spaces, so a line is read back as it was written.\<close>

definition reads_decimals :: "(string \<Rightarrow> js_number) \<Rightarrow> bool" where
  "reads_decimals num \<longleftrightarrow> (\<forall>n > 0. num (int_string n) = Finite (rat_of_int n))"

lemma lock_line_read:
  assumes "reads_decimals num" "0 < pid"
  shows "parseLockPid num (lock_line pid) = Some pid"
proof -
  have chars: "set (digits pid) \<subseteq> set ''0123456789''"
    by (rule digits_chars) (use assms(2) in linarith)
  have plain: "\<not> is_space c" if "c \<in> set (digits pid)" for c
    by (rule digit_char_class(1)) (use chars that in blast)
  obtain d ds where d: "digits pid = d # ds"
    by (cases "digits pid") auto
  have "str_trim (digits pid @ [CHR 0x0A]) = digits pid"
    using trim_id[of "digits pid"] plain d by (auto simp: str_trim_def is_space_def)
  moreover have "takeWhile (\<lambda>c. \<not> is_space c) (digits pid) = digits pid"
    using plain by (simp add: takeWhile_eq_all_conv)
  moreover have "num (digits pid) = Finite (rat_of_int pid)"
  proof -
    have "num (int_string pid) = Finite (rat_of_int pid)"
      using assms unfolding reads_decimals_def by blast
    then show ?thesis
      using assms(2) by (simp add: int_string_def)
  qed
  ultimately show ?thesis
    using assms(2) d by (simp add: parseLockPid_def lock_line_def int_string_def Let_def)
qed

lemma lock_act_stops:
  assumes "lk_at s pid \<in> {LockHeld b, LockDenied, LockCrashed}"
  shows "lock_act alive num pid s = s"
  using assms by (auto simp: lock_act_def)

lemma lock_judge_stages: "lock_judge alive num pid contents \<in> {LockHeld False, LockDenied, LockRemoving}"
  by (simp add: lock_judge_def split: option.split)

text \<open>A process that nobody interrupts needs at most five steps, and they do what the function does: with no
  file it creates its own, a live owner turns it away, a file of the dead or without a number is replaced.\<close>

theorem acquire_refines_steps:
  "(lock_act alive num pid ^^ 5) (lock_goto pid LockStart s) = acquireSingleInstanceLock alive num pid s"
proof (cases "lk_file s")
  case None
  then show ?thesis
    by (simp add: numeral_eq_Suc lock_act_def acquireSingleInstanceLock_def lock_create_def lock_goto_def)
next
  case (Some f)
  obtain i contents where f: "f = (i, contents)"
    by (cases f)
  consider "lock_judge alive num pid contents = LockHeld False" | "lock_judge alive num pid contents = LockDenied"
    | "lock_judge alive num pid contents = LockRemoving"
    using lock_judge_stages by blast
  then show ?thesis
    by cases (simp_all add: Some f numeral_eq_Suc lock_act_def acquireSingleInstanceLock_def lock_create_def lock_goto_def)
qed

text \<open>C11. While the lock file names a live process that holds the lock, no interleaving of other processes that start
  takes it away: the file and the holder stay, and none of the others ever holds it.\<close>

theorem live_holder_respected:
  assumes "(lock_step alive num)\<^sup>*\<^sup>* s s'"
    and "lk_file s = Some (i, contents)" "parseLockPid num contents = Some h" "alive h" "lk_at s h = LockHeld b"
    and "\<forall>pid. pid \<noteq> h \<longrightarrow> lk_at s pid = LockStart"
  shows "lk_file s' = Some (i, contents) \<and> lk_at s' h = LockHeld b \<and>
         (\<forall>pid. pid \<noteq> h \<longrightarrow> lk_at s' pid \<in> {LockStart, LockReading, LockDenied})"
  using assms(1)
proof (induction rule: rtranclp_induct)
  case base
  show ?case
    using assms(2,5,6) by simp
next
  case (step t u)
  obtain pid where u: "u = lock_act alive num pid t"
    using step.hyps(2) by (auto elim: lock_stepE)
  show ?case
  proof (cases "pid = h")
    case True
    then show ?thesis
      using step.IH u by (simp add: lock_act_def)
  next
    case False
    have judged: "lock_judge alive num pid contents = LockDenied"
      using False assms(3,4) by (simp add: lock_judge_def)
    consider "lk_at t pid = LockStart" | "lk_at t pid = LockReading" | "lk_at t pid = LockDenied"
      using step.IH False by blast
    then have "u = t \<or> (\<exists>stage \<in> {LockStart, LockReading, LockDenied}. u = lock_goto pid stage t)"
      by cases (use u step.IH judged in \<open>simp_all add: lock_act_def\<close>)
    then show ?thesis
    proof
      assume "\<exists>stage \<in> {LockStart, LockReading, LockDenied}. u = lock_goto pid stage t"
      then obtain stage where stage: "stage \<in> {LockStart, LockReading, LockDenied}" "u = lock_goto pid stage t"
        by blast
      have "lk_at u pid' \<in> {LockStart, LockReading, LockDenied}" if "pid' \<noteq> h" for pid'
        using step.IH that stage by (cases "pid' = pid") simp_all
      then show ?thesis
        using step.IH False stage(2) by simp
    qed (use step.IH in simp)
  qed
qed

text \<open>C37. The lock is not exclusive: two processes that start at the same time can both hold it. The second one reads
  the file between its creation and the writing of the process number, takes it for stale and removes it.\<close>

theorem two_instances_hold_lock:
  assumes "p \<noteq> q"
  shows "\<exists>s. (lock_step alive num)\<^sup>*\<^sup>* nobody s \<and> lk_at s p = LockHeld True \<and> lk_at s q = LockHeld True"
proof -
  define run where "run pids = fold (lock_act alive num) pids nobody" for pids
  have reach: "(lock_step alive num)\<^sup>*\<^sup>* nobody (run pids)" for pids
    unfolding run_def by (induction pids rule: rev_induct) (auto intro: rtranclp.rtrancl_into_rtrancl lock_step.act)
  have unread: "parseLockPid num [] = None"
    by (simp add: parseLockPid_def str_trim_def)
  have "lk_at (run [p, p, q, q, q, q, q, p]) p = LockHeld True \<and> lk_at (run [p, p, q, q, q, q, q, p]) q = LockHeld True"
    using assms by (simp add: run_def nobody_def lock_act_def lock_judge_def unread)
  then show ?thesis
    using reach by blast
qed

section \<open>A concrete lock\<close>

definition sample_num :: "string \<Rightarrow> js_number" where
  "sample_num s = (case parse_integer s of Some i \<Rightarrow> Finite (rat_of_int i) | None \<Rightarrow> NotFinite)"

lemma sample_num_decimals: "reads_decimals sample_num"
  by (simp add: reads_decimals_def sample_num_def parse_int_string)

definition one_holds :: lock_system where
  "one_holds = \<lparr>lk_file = Some (0, lock_line 7), lk_fresh = 1, lk_at = (\<lambda>pid. if pid = 7 then LockHeld True else LockStart)\<rparr>"

lemma others_step: "(lock_step alive num)\<^sup>*\<^sup>* s (lock_act alive num q (lock_act alive num p s))"
  by (rule rtranclp.rtrancl_into_rtrancl[OF rtranclp.rtrancl_into_rtrancl[OF rtranclp.rtrancl_refl]]) (rule lock_step.act)+

theorem live_holder_respected_witness:
  "lk_at (lock_act (\<lambda>_. True) sample_num 9 (lock_act (\<lambda>_. True) sample_num 8 one_holds)) 7 = LockHeld True"
  using live_holder_respected[OF others_step, of one_holds 0 "lock_line 7" sample_num 7 "\<lambda>_. True" True 9 8]
    lock_line_read[OF sample_num_decimals, of 7]
  by (simp add: one_holds_def)

theorem two_instances_hold_lock_witness:
  "\<exists>s. (lock_step (\<lambda>_. True) sample_num)\<^sup>*\<^sup>* nobody s \<and> lk_at s 7 = LockHeld True \<and> lk_at s 8 = LockHeld True"
  by (rule two_instances_hold_lock) simp

end
