(* ===== verification/Pipeline_Wiring.thy ===== *)
theory Pipeline_Wiring
  imports Runtime_Config Orchestrator Arbitrage
begin

text \<open>
  How \<open>buildPipelineBot\<close> of \<open>src/index.ts\<close> wires the parts of the pipeline: the services it builds for the
  candidate gate and for the executor, the guard of the start, the run of the bot, and the orderly shutdown and
  the reloading of the configuration of \<open>src/production/productionReadiness.ts\<close>. The variables that its closures
  share are the fields of \<open>wired\<close>; the gate works on them, and the executor on the state of the gate. Calls to
  the node are parameters, lines of the log are left out.
\<close>

section \<open>What the closures share\<close>

record resolved_aave =
  rv_pool :: "address option"
  rv_poolAddressesProvider :: "address option"
  rv_uiPoolDataProvider :: "address option"

record 'w wired =
  wr_oracle :: "'w oracle_state"
  wr_gasCached :: "(int \<times> int) option"
  wr_flashFeeBps :: "rat option"
  wr_chainConfig :: chain_config
  wr_latestBlock :: int
  wr_aaveFile :: "(string, resolved_aave) jsmap option"
  wr_router :: router

record 'w wired_services =
  wv_oracle :: "'w oracle_services"
  wv_getGasPrice :: "('w, int) service"
  wv_nowMs :: "'w \<Rightarrow> int \<times> 'w"
  wv_readPremium :: "address \<Rightarrow> ('w, js_number) service"
  wv_getPool :: "address \<Rightarrow> ('w, address) service"
  wv_readAnswer :: "address \<Rightarrow> ('w, int) service"
  wv_getBlockNumber :: "('w, int) service"
  wv_readAccountData :: "address \<Rightarrow> address \<Rightarrow> ('w, int \<times> int \<times> int \<times> int \<times> int \<times> int) service"
  wv_getBaseFee :: "('w, int option) service"

type_synonym ('w, 'a) wired_io = "('w wired, 'a) io"

definition on_oracle :: "('w, 'a) oracle_io \<Rightarrow> ('w, 'a) wired_io" where
  "on_oracle m s = (case m (wr_oracle s) of (r, oracle) \<Rightarrow> (r, s\<lparr>wr_oracle := oracle\<rparr>))"

definition on_node :: "('w, 'a) service \<Rightarrow> ('w, 'a) wired_io" where
  "on_node m = on_oracle (ocall m)"

definition wired_oracle_config :: "runtime_config \<Rightarrow> oracle_config" where
  "wired_oracle_config cfg =
     \<lparr>og_feeds = or_else (js_get (cf_priceFeedRegistry cfg) (cf_chain cfg)) [], og_cacheTtlMs = None,
      og_maxStaleMs = Some \<lfloor>cf_oracleMaxStaleMs cfg\<rfloor>,
      og_aaveOracle = (if cf_chain cfg = ''base'' then Some canonicalBaseAaveOracleAddress else None)\<rparr>"

section \<open>Costs\<close>

definition wired_gas_services :: "'w wired_services \<Rightarrow> runtime_config \<Rightarrow> 'w gas_services" where
  "wired_gas_services sv cfg =
     \<lparr>gv_getGasPrice = wv_getGasPrice sv, gv_nowMs = wv_nowMs sv, gv_ttlMs = Some (cf_gasOracleCacheMs cfg)\<rparr>"

definition wired_gasPrice :: "'w wired_services \<Rightarrow> runtime_config \<Rightarrow> ('w, int) wired_io" where
  "wired_gasPrice sv cfg s =
     (case cachedGasPrice (wired_gas_services sv cfg) \<lparr>go_world = os_world (wr_oracle s), go_cached = wr_gasCached s\<rparr> of
        (r, g) \<Rightarrow> (r, s\<lparr>wr_oracle := (wr_oracle s)\<lparr>os_world := go_world g\<rparr>, wr_gasCached := go_cached g\<rparr>))"

definition readFlashLoanPremiumBps :: "'w wired_services \<Rightarrow> address \<Rightarrow> rat \<Rightarrow> ('w, rat) wired_io" where
  "readFlashLoanPremiumBps sv pool fallbackBps =
     io_catch
       (io_bind (on_node (wv_readPremium sv pool)) (\<lambda>premium.
          case premium of
            Finite r \<Rightarrow> if r < 0 then io_throw (Exn ''Invalid flash-loan premium value'') else io_return r
          | NotFinite \<Rightarrow> io_throw (Exn ''Invalid flash-loan premium value'')))
       (\<lambda>_. io_return fallbackBps)"

text \<open>The promise of the first call is kept for all later ones; it reads the pool of the start.\<close>

definition resolveFlashLoanFeeBps :: "'w wired_services \<Rightarrow> runtime_config \<Rightarrow> address \<Rightarrow> ('w, rat) wired_io" where
  "resolveFlashLoanFeeBps sv cfg pool =
     io_bind (io_get wr_flashFeeBps) (\<lambda>kept.
       case kept of
         Some bps \<Rightarrow> io_return bps
       | None \<Rightarrow>
           io_bind (readFlashLoanPremiumBps sv pool (cf_flashLoanFeeBps cfg)) (\<lambda>bps.
             io_then (io_modify (\<lambda>s. s\<lparr>wr_flashFeeBps := Some bps\<rparr>)) (io_return bps)))"

definition resolveDynamicGasCostUsd :: "'w wired_services \<Rightarrow> runtime_config \<Rightarrow> ('w, rat) wired_io" where
  "resolveDynamicGasCostUsd sv cfg =
     io_bind (wired_gasPrice sv cfg) (\<lambda>gasPrice.
       let nativeToken = nativeGasTokenForChain (cf_chain cfg)
       in io_bind (on_oracle (batchGetUsdPrices (wv_oracle sv) (wired_oracle_config cfg) [nativeToken])) (\<lambda>prices.
            let nativePriceRaw = or_else (js_get prices nativeToken) 0
            in if nativePriceRaw \<le> 0 then io_return (cf_gasCostUsd cfg)
               else io_return (rat_of_int (bdiv (gasPrice * 500000 * nativePriceRaw) (10 ^ 18)) / 10 ^ 8)))"

definition resolveDynamicSlippageBps :: "'w wired_services \<Rightarrow> runtime_config \<Rightarrow> ('w, rat) wired_io" where
  "resolveDynamicSlippageBps sv cfg =
     io_bind (wired_gasPrice sv cfg) (\<lambda>gasPrice.
       let gasGwei = rat_of_int gasPrice / 10 ^ 9
       in io_return (if 10 \<le> gasGwei then cf_slippageBps cfg + 120
                     else if 3 \<le> gasGwei then cf_slippageBps cfg + 60
                     else cf_slippageBps cfg))"

section \<open>The services of the gate\<close>

definition oracleSanityCheck :: "'w wired_services \<Rightarrow> runtime_config \<Rightarrow> address \<Rightarrow> ('w, bool) wired_io" where
  "oracleSanityCheck sv cfg debtAsset =
     io_bind (on_oracle (forceRefreshUsdPrices (wv_oracle sv) (wired_oracle_config cfg) [debtAsset])) (\<lambda>chainlink.
     io_bind (on_oracle (forceRefreshUsdPrices (wv_oracle sv) (wired_oracle_config cfg) [debtAsset])) (\<lambda>twap.
       io_return (fst (evaluateOracleSanity (or_else (js_get chainlink debtAsset) 0) (or_else (js_get twap debtAsset) 0) (Some 2)))))"

definition wired_now :: "'w wired_services \<Rightarrow> 'w wired \<Rightarrow> int \<times> 'w wired" where
  "wired_now sv s =
     (case wv_nowMs sv (os_world (wr_oracle s)) of (now, w) \<Rightarrow> (now, s\<lparr>wr_oracle := (wr_oracle s)\<lparr>os_world := w\<rparr>\<rparr>))"

definition wired_gate :: "'w wired_services \<Rightarrow> runtime_config \<Rightarrow> address \<Rightarrow> 'w wired gate_config" where
  "wired_gate sv cfg pool =
     \<lparr>gc_minDebtUsd = cf_minLiquidationDebtUsd cfg,
      gc_resolveGasCostUsd = resolveDynamicGasCostUsd sv cfg,
      gc_resolveFlashFeeBps = resolveFlashLoanFeeBps sv cfg pool,
      gc_forceRefreshUsdPrices = Some (\<lambda>assets. on_oracle (forceRefreshUsdPrices (wv_oracle sv) (wired_oracle_config cfg) assets)),
      gc_oracleSanityCheck = Some (\<lambda>chain account debtAsset collateralAsset. oracleSanityCheck sv cfg debtAsset),
      gc_resolveDebtDecimals = None,
      gc_now = wired_now sv\<rparr>"

section \<open>The services of the executor\<close>

text \<open>The simulation of the router gives back what it is given.\<close>

definition wired_simulate :: "profit_simulation_input \<Rightarrow> exn + eth_call_result" where
  "wired_simulate i = Inr (EthCallOk (ri_revenue i) (ri_gas i) (ri_swapCost i))"

definition dust_reason_text :: "dust_reason \<Rightarrow> string" where
  "dust_reason_text r = 
     (case r of NonPositiveDebt \<Rightarrow> ''non_positive_debt'' | BelowMinDebt \<Rightarrow> ''below_min_debt''
      | BelowProfitabilityFloor \<Rightarrow> ''below_profitability_floor''
      | BelowGasMultiple \<Rightarrow> ''below_gas_multiple''
      | OracleUntrusted \<Rightarrow> ''oracle_untrusted'')"

definition rejectBeforePreview ::
  "'w wired_services \<Rightarrow> runtime_config \<Rightarrow> address \<Rightarrow> exec_request \<Rightarrow> ('w wired gate_state, string option) io" where
  "rejectBeforePreview sv cfg pool req =
     io_bind (gate_isBorrowerBlocked (wired_gate sv cfg pool) (exec_request.rq_chain req) (exec_request.rq_account req)) (\<lambda>blocked.
       if blocked then io_return (Some ''borrower_cooldown'')
       else let debtUsd = rat_of_int (am_raw (ri_debt (exec_request.rq_routeInput req))) / 10 ^ 8
            in io_bind (gate_call (resolveDynamicGasCostUsd sv cfg)) (\<lambda>gasCostUsd.
                 let dust = evaluateDustFilter \<lparr>df_debtUsd = debtUsd, df_minDebtUsd = cf_minLiquidationDebtUsd cfg, df_gasCostUsd = Some gasCostUsd\<rparr>
                 in io_return (if dd_isDust dust
                               then Some (''dust:'' @ (case dd_reason dust of Some r \<Rightarrow> dust_reason_text r | None \<Rightarrow> ''filtered''))
                               else None)))"

definition preflight_reason :: "preflight_result \<Rightarrow> string option" where
  "preflight_reason r = (case r of PreflightOk h head \<Rightarrow> None | PreflightStale head \<Rightarrow> Some ''detection_block_stale'' | PreflightHealthy h head \<Rightarrow> Some ''hf_not_liquidatable'')"

definition rejectBeforeBroadcast :: "'w wired_services \<Rightarrow> exec_request \<Rightarrow> ('w wired gate_state, string option) io" where
  "rejectBeforeBroadcast sv req =
     gate_call (io_bind (io_get (\<lambda>s. (cc_pool (wr_chainConfig s), wr_latestBlock s))) (\<lambda>(pool, latestKnownBlock).
       io_bind (on_node (validateLiquidatableHealthFactor (wv_getBlockNumber sv) (wv_readAccountData sv pool) (exec_request.rq_account req)
                           (if 0 < latestKnownBlock then Some latestKnownBlock else None))) (\<lambda>result.
         io_return (preflight_reason result))))"

text \<open>The settings of the executor that \<open>buildPipelineBot\<close> fixes; the client and the submission are those of \<open>env\<close>.\<close>

definition wired_executor ::
  "'w wired_services \<Rightarrow> runtime_config \<Rightarrow> address \<Rightarrow> rat \<Rightarrow> 'w wired gate_state exec_env \<Rightarrow> 'w wired gate_state exec_env" where
  "wired_executor sv cfg pool maxGasPctOfProfit env =
     env\<lparr>ee_rejectBeforePreview := Some (rejectBeforePreview sv cfg pool),
        ee_rejectBeforeBroadcast := Some (rejectBeforeBroadcast sv),
        ee_quoteExecutionGasCap := Some (\<lambda>expectedProfitUsd gasLimit.
          io_bind (gate_call (on_node (quoteBaseExecutionGas (wv_getBaseFee sv) expectedProfitUsd gasLimit (Some maxGasPctOfProfit) None)))
            (\<lambda>q. io_return (gq_maxFeePerGas q))),
        ee_privateBundleRiskThresholdBps := Some 7000,
        ee_allowPublicFallback := True,
        ee_privateFirstChains := (if cf_chain cfg = ''base'' then [''base''] else []),
        ee_dryRunMode := cf_simulationMode cfg \<or> \<not> pv_enableLiveTx (cf_eventPurity cfg)\<rparr>"

section \<open>Requests of the orchestrator\<close>

definition liquidation_settings :: "runtime_config \<Rightarrow> address \<Rightarrow> rat \<Rightarrow> rat \<Rightarrow> address \<Rightarrow> adapter_config" where
  "liquidation_settings cfg account gasCostUsd flashFeeBps activePool =
     \<lparr>ad_account = account, ad_minProfitUsd = cf_minProfitUsd cfg, ad_gasCostUsd = gasCostUsd, ad_slippageBps = cf_slippageBps cfg,
      ad_minimumMarginBps = cf_minProfitMarginBps cfg, ad_flashLoanReceiverAddress = cf_liquidationReceiverAddress cfg,
      ad_flashLoanReferralCode = None, ad_requireFlashLoanWrapper = Some True, ad_flashFeeBps = Some flashFeeBps,
      ad_slippageBufferFloorBps = Some (cf_flashLoanSlippageFloorBps cfg), ad_poolAddress = Some activePool\<rparr>"

definition wired_liquidation_request ::
  "'w wired_services \<Rightarrow> runtime_config \<Rightarrow> address \<Rightarrow> abi_codec \<Rightarrow> pool_version \<Rightarrow> address \<Rightarrow> liquidation_candidate \<Rightarrow> ('w, exec_request) wired_io" where
  "wired_liquidation_request sv cfg pool abi version account candidate =
     io_bind (resolveDynamicGasCostUsd sv cfg) (\<lambda>gasCostUsd.
     io_bind (resolveFlashLoanFeeBps sv cfg pool) (\<lambda>flashFeeBps.
     io_bind (io_get (\<lambda>s. cc_pool (wr_chainConfig s))) (\<lambda>activePool.
       io_lift (buildLiquidationExecutionRequest abi version (cf_chain cfg) candidate
         (liquidation_settings cfg account gasCostUsd flashFeeBps activePool)))))"

definition buildExecutionRequestForOpportunity ::
  "'w wired_services \<Rightarrow> runtime_config \<Rightarrow> address \<Rightarrow> abi_codec \<Rightarrow> pool_version \<Rightarrow> address \<Rightarrow> opportunity \<Rightarrow> ('w, exec_request option) wired_io" where
  "buildExecutionRequestForOpportunity sv cfg pool abi version account opportunity =
     (case opportunity of
        LiquidationOpportunity candidate \<Rightarrow>
          io_bind (wired_liquidation_request sv cfg pool abi version account candidate) (\<lambda>req. io_return (Some req))
      | ArbitrageOpportunity opp \<Rightarrow>
          (case cf_arbitrageReceiverAddress cfg of
             None \<Rightarrow> io_return None
           | Some receiver \<Rightarrow>
               io_bind (io_lift (buildArbitrageExecutionRequest abi opp
                 \<lparr>aa_receiverAddress = receiver, aa_operatorAddress = account, aa_referralCode = None, aa_gasProfileKey = None\<rparr>))
                 (\<lambda>req. io_return (Some req))))"

definition ranker_features :: "opportunity \<Rightarrow> string list" where
  "ranker_features opportunity =
     (case opportunity of
        LiquidationOpportunity c \<Rightarrow>
          [''liquidation'', ''debt:'' @ to_lower (lc_debtAsset c), ''collateral:'' @ to_lower (lc_collateralAsset c)]
      | ArbitrageOpportunity o' \<Rightarrow>
          [''arbitrage'', ''buy:'' @ dx_name (ab_buyDex o'), ''sell:'' @ dx_name (ab_sellDex o'),
           to_lower (ab_tokenIn o') @ '':'' @ to_lower (ab_tokenOut o')])"

definition estimateOpportunityProfitBps :: "opportunity \<Rightarrow> int" where
  "estimateOpportunityProfitBps opportunity =
     (case opportunity of
        LiquidationOpportunity c \<Rightarrow>
          (let repayUsd = max 1 (lc_repayValueUsd c);
               grossUsd = repayUsd * (rat_of_int (lc_liquidationBonusBps c) / 10000)
           in max 1 (js_round (grossUsd / repayUsd * 10000)))
      | ArbitrageOpportunity o' \<Rightarrow>
          (let base = ab_amountIn o'
           in if base \<le> 0 then 1
              else let raw = bdiv ((ab_expectedAmountOut o' - base) * 10000) base in if 0 < raw then raw else 1))"

text \<open>A candidate confirmed by the event-purity stack; alerts are left out. The candidate itself is not passed on.\<close>

definition onLiquidatableCandidate :: "runtime_config \<Rightarrow> ('s, unit) io \<Rightarrow> address \<Rightarrow> ('s, unit) io" where
  "onLiquidatableCandidate cfg runCycle account =
     (if \<not> pv_enableLiveTx (cf_eventPurity cfg) then io_return ()
      else if cf_simulationMode cfg then io_return ()
      else runCycle)"

definition isSequencerUp :: "'w wired_services \<Rightarrow> address option \<Rightarrow> ('w, bool) wired_io" where
  "isSequencerUp sv feed =
     (case feed of
        None \<Rightarrow> io_return True
      | Some f \<Rightarrow> io_catch (io_bind (on_node (wv_readAnswer sv f)) (\<lambda>answer. io_return (answer = 0))) (\<lambda>_. io_return True))"

section \<open>The guard of the start\<close>

definition withResolvedAave :: "chain_config \<Rightarrow> resolved_aave option \<Rightarrow> chain_config" where
  "withResolvedAave config resolved =
     (case resolved of
        None \<Rightarrow> config
      | Some r \<Rightarrow> config\<lparr>cc_pool := or_else (rv_pool r) (cc_pool config),
                        cc_poolAddressesProvider := or_else (rv_poolAddressesProvider r) (cc_poolAddressesProvider config),
                        cc_uiPoolDataProvider := or_else (rv_uiPoolDataProvider r) (cc_uiPoolDataProvider config)\<rparr>)"

definition loadResolvedAaveAddressCache :: "'w wired \<Rightarrow> (string, resolved_aave) jsmap" where
  "loadResolvedAaveAddressCache s =
     (case wr_aaveFile s of
        None \<Rightarrow> []
      | Some parsed \<Rightarrow> List.map_filter (\<lambda>chain. map_option (Pair chain) (js_get parsed chain)) [''optimism'', ''arbitrum'', ''base''])"

definition resolve_chain :: "'w wired_services \<Rightarrow> string \<Rightarrow> (string, resolved_aave) jsmap \<Rightarrow> ('w, (string, resolved_aave) jsmap) wired_io" where
  "resolve_chain sv chain resolved =
     (case getChainConfig chain of
        None \<Rightarrow> io_throw (Exn ''TypeError: chain'')
      | Some defaults \<Rightarrow>
          io_catch
            (io_bind (on_node (wv_getPool sv (cc_poolAddressesProvider defaults))) (\<lambda>pool.
               io_return (js_set chain \<lparr>rv_pool = Some pool, rv_poolAddressesProvider = Some (cc_poolAddressesProvider defaults),
                                       rv_uiPoolDataProvider = Some (cc_uiPoolDataProvider defaults)\<rparr> resolved)))
            (\<lambda>_. io_return (if js_get resolved chain = None
                            then js_set chain \<lparr>rv_pool = Some (cc_pool defaults), rv_poolAddressesProvider = Some (cc_poolAddressesProvider defaults),
                                              rv_uiPoolDataProvider = Some (cc_uiPoolDataProvider defaults)\<rparr> resolved
                            else resolved)))"

fun resolve_chains :: "'w wired_services \<Rightarrow> string list \<Rightarrow> (string, resolved_aave) jsmap \<Rightarrow> ('w, (string, resolved_aave) jsmap) wired_io" where
  "resolve_chains sv [] resolved = io_return resolved"
| "resolve_chains sv (chain # rest) resolved = io_bind (resolve_chain sv chain resolved) (resolve_chains sv rest)"

definition resolveAndPersistAaveAddresses :: "'w wired_services \<Rightarrow> string list \<Rightarrow> ('w, (string, resolved_aave) jsmap) wired_io" where
  "resolveAndPersistAaveAddresses sv chainNames =
     io_bind (io_get loadResolvedAaveAddressCache) (\<lambda>kept.
     io_bind (resolve_chains sv chainNames kept) (\<lambda>resolved.
     io_then (io_modify (\<lambda>s. s\<lparr>wr_aaveFile := Some resolved\<rparr>)) (io_return resolved)))"

text \<open>The fee is a fixed amount of dollars with eight decimals.\<close>

definition store_provider_fee :: "flash_provider \<Rightarrow> rat \<Rightarrow> ('w, unit) wired_io" where
  "store_provider_fee provider bps =
     io_bind (io_lift (createAssetAmount usd_asset (js_trunc (bps * 1000000)))) (\<lambda>fee.
       io_modify (\<lambda>s. s\<lparr>wr_router := setProviderFee provider fee (wr_router s)\<rparr>))"

fun unpriced_tokens :: "(address, int) jsmap \<Rightarrow> string \<Rightarrow> address list \<Rightarrow> (string \<times> address) list" where
  "unpriced_tokens prices chain [] = []"
| "unpriced_tokens prices chain (token # rest) =
     (if or_else (js_get prices token) 0 \<le> 0 then (chain, token) # unpriced_tokens prices chain rest else unpriced_tokens prices chain rest)"

fun readiness_failures :: "'w wired_services \<Rightarrow> runtime_config \<Rightarrow> string list \<Rightarrow> ('w, (string \<times> address) list) wired_io" where
  "readiness_failures sv cfg [] = io_return []"
| "readiness_failures sv cfg (chain # rest) =
     io_bind (on_oracle (batchGetUsdPrices (wv_oracle sv) (wired_oracle_config cfg) (required_tokens chain))) (\<lambda>prices.
     io_bind (readiness_failures sv cfg rest) (\<lambda>failures.
       io_return (unpriced_tokens prices chain (required_tokens chain) @ failures)))"

definition assertArbitrageOracleReadiness :: "'w wired_services \<Rightarrow> runtime_config \<Rightarrow> ('w, unit) wired_io" where
  "assertArbitrageOracleReadiness sv cfg =
     (if cf_simulationMode cfg \<or> \<not> cf_usePipelineOrchestrator cfg then io_return ()
      else io_bind (readiness_failures sv cfg (cf_chains cfg)) (\<lambda>failures.
        if failures \<noteq> [] then io_throw (Exn ''Live arbitrage startup rejected: missing/stale/non-positive oracle prices'') else io_return ()))"

text \<open>The parts that are there, with what starts or checks them.\<close>

record 'w startup_parts =
  sp_watchlist :: "('w, unit) wired_io option"
  sp_purity :: "('w, unit) wired_io option"
  sp_flashblockLoop :: "('w, unit) wired_io option"
  sp_mirror :: "('w, unit) wired_io option"
  sp_nearLiquidation :: "('w, unit) wired_io"
  sp_receiver :: "('w, unit) wired_io option"

definition if_there :: "('w, unit) wired_io option \<Rightarrow> ('w, unit) wired_io" where
  "if_there part = (case part of None \<Rightarrow> io_return () | Some m \<Rightarrow> m)"

definition startupGuard :: "'w wired_services \<Rightarrow> runtime_config \<Rightarrow> address \<Rightarrow> 'w startup_parts \<Rightarrow> ('w, unit) wired_io" where
  "startupGuard sv cfg pool parts =
     io_bind (resolveAndPersistAaveAddresses sv (cf_chains cfg)) (\<lambda>resolvedByChain.
     io_then (io_modify (\<lambda>s. s\<lparr>wr_chainConfig := withResolvedAave (wr_chainConfig s) (js_get resolvedByChain (cf_chain cfg))\<rparr>))
     (io_bind (resolveFlashLoanFeeBps sv cfg pool) (\<lambda>bps.
     io_then (store_provider_fee AaveV3 bps)
     (io_then (if cf_balancerFlashFallback cfg then store_provider_fee Balancer (cf_flashLoanFeeBps cfg) else io_return ())
     (io_then (if_there (sp_watchlist parts))
     (io_then (if_there (sp_purity parts))
     (io_then (if \<not> pv_enableArbitrage (cf_eventPurity cfg) \<and> cf_flashblocksPrimaryLoop cfg then io_return () else if_there (sp_flashblockLoop parts))
     (io_then (if_there (sp_mirror parts))
     (io_then (if sp_watchlist parts \<noteq> None \<and> sp_purity parts = None then sp_nearLiquidation parts else io_return ())
     (io_then (if_there (sp_receiver parts))
     (if pv_enableArbitrage (cf_eventPurity cfg) then assertArbitrageOracleReadiness sv cfg else io_return ())))))))))))"

section \<open>The run and the shutdown\<close>

text \<open>\<open>finally\<close> with an effect: its exception replaces the outcome.\<close>

definition io_ensure :: "('s, 'a) io \<Rightarrow> ('s, unit) io \<Rightarrow> ('s, 'a) io" where
  "io_ensure m f s =
     (case m s of (r, s') \<Rightarrow> (case f s' of (Inl e, s'') \<Rightarrow> (Inl e, s'') | (Inr _, s'') \<Rightarrow> (r, s'')))"

record 's bot_runner =
  br_startupGuard :: "('s, unit) io option"
  br_startScanner :: "('s, unit) io"
  br_stopScanner :: "('s, unit) io"
  br_runLoop :: "('s, unit) io"
  br_waitForAbort :: "('s, unit) io"
  br_onShutdown :: "('s, unit) io option"
  br_enableArbitrage :: bool
  br_eventPurityMode :: bool

definition pipeline_runPollingLoop :: "'s bot_runner \<Rightarrow> ('s, unit) io" where
  "pipeline_runPollingLoop b =
     io_then (case br_startupGuard b of None \<Rightarrow> io_return () | Some guard \<Rightarrow> guard)
     (io_then (if br_enableArbitrage b then br_startScanner b else io_return ())
     (io_ensure (if br_eventPurityMode b then br_waitForAbort b else br_runLoop b)
       (io_then (if br_enableArbitrage b then br_stopScanner b else io_return ())
         (case br_onShutdown b of None \<Rightarrow> io_return () | Some f \<Rightarrow> f))))"

datatype shutdown_result = ShutdownCompleted | ShutdownWithErrors "exn list" | AlreadyCompleted

text \<open>A hook that takes too long is one that throws.\<close>

record 'w shutdown_state =
  sh_world :: 'w
  sh_hooks :: "(string \<times> ('w, unit) io) list"
  sh_completed :: bool
  sh_metricErrors :: nat

definition addHook :: "string \<Rightarrow> ('w, unit) io \<Rightarrow> 'w shutdown_state \<Rightarrow> 'w shutdown_state" where
  "addHook name run s = s\<lparr>sh_hooks := sh_hooks s @ [(name, run)]\<rparr>"

fun run_hooks :: "(string \<times> ('w, unit) io) list \<Rightarrow> 'w \<Rightarrow> exn list \<times> 'w" where
  "run_hooks [] w = ([], w)"
| "run_hooks ((name, run) # rest) w =
     (case run w of
        (Inl e, w') \<Rightarrow> (case run_hooks rest w' of (es, w'') \<Rightarrow> (e # es, w''))
      | (Inr _, w') \<Rightarrow> run_hooks rest w')"

definition shutdown :: "'w shutdown_state \<Rightarrow> shutdown_result \<times> 'w shutdown_state" where
  "shutdown s =
     (if sh_completed s then (AlreadyCompleted, s)
      else case run_hooks (sh_hooks s) (sh_world s) of (errors, w) \<Rightarrow>
        (if errors = [] then ShutdownCompleted else ShutdownWithErrors errors,
         s\<lparr>sh_world := w, sh_completed := True, sh_metricErrors := sh_metricErrors s + length errors\<rparr>))"

record 'c config_reloader =
  rl_active :: 'c
  rl_errors :: nat

datatype reload_result = Reloaded | ReloadRejected exn

definition config_reload :: "(string \<Rightarrow> exn + 'c) \<Rightarrow> string \<Rightarrow> 'c config_reloader \<Rightarrow> reload_result \<times> 'c config_reloader" where
  "config_reload parse raw s =
     (case parse raw of
        Inr c \<Rightarrow> (Reloaded, s\<lparr>rl_active := c\<rparr>)
      | Inl e \<Rightarrow> (ReloadRejected e, s\<lparr>rl_errors := rl_errors s + 1\<rparr>))"

end
