(* ===== verification/Hazard_Ranking.thy ===== *)
theory Hazard_Ranking
  imports Pipeline_Wiring
begin

text \<open>
  The ranking of opportunities of \<open>src/optimization/hazardPrediction.ts\<close>: the model that learns from outcomes how
  often a feature succeeds, and the ranker that orders opportunities by what it expects of them. Numbers are
  rationals, and the square root is a parameter; a state that is read before it was written has its initial
  values, whether or not the code stores them at the read. The last section is about the two sets of features that
  the pipeline uses.
\<close>

section \<open>The model of the features\<close>

record feature_state =
  fs_successes :: rat
  fs_failures :: rat
  fs_weightBps :: rat

record hazard_model =
  hm_states :: "(string, feature_state) jsmap"
  hm_priorSuccesses :: rat
  hm_priorFailures :: rat
  hm_learningRateBps :: rat

record rank_input =
  rk_chain :: string
  rk_features :: "string list"
  rk_expectedProfitBps :: rat

record hazard_prediction =
  hp_successProbabilityBps :: int
  hp_hazardBps :: int
  hp_utilityScore :: int

definition hazard_new :: "rat option \<Rightarrow> rat option \<Rightarrow> rat option \<Rightarrow> hazard_model" where
  "hazard_new successes failures rate =
     \<lparr>hm_states = [], hm_priorSuccesses = or_else successes 1, hm_priorFailures = or_else failures 1, hm_learningRateBps = or_else rate 1000\<rparr>"

definition featureKeys :: "string \<Rightarrow> string list \<Rightarrow> string list" where
  "featureKeys chain features = map (\<lambda>feature. chain @ '':'' @ feature) (if features = [] then [''global''] else features)"

definition stateFor :: "hazard_model \<Rightarrow> string \<Rightarrow> feature_state" where
  "stateFor m key =
     or_else (js_get (hm_states m) key) \<lparr>fs_successes = hm_priorSuccesses m, fs_failures = hm_priorFailures m, fs_weightBps = 10000\<rparr>"

definition featureSuccessBps :: "feature_state \<Rightarrow> rat" where
  "featureSuccessBps st = fs_successes st * 10000 / (fs_successes st + fs_failures st)"

definition average :: "rat list \<Rightarrow> rat" where
  "average xs = sum_list xs / rat_of_nat (length xs)"

definition predict :: "hazard_model \<Rightarrow> 'a rank_input_scheme \<Rightarrow> hazard_prediction" where
  "predict m input =
     (let states = map (stateFor m) (featureKeys (rk_chain input) (rk_features input));
          successBps = rat_of_int (js_round (average (map featureSuccessBps states)));
          weightBps = rat_of_int (js_round (average (map fs_weightBps states)));
          adjusted = max 0 (min 10000 (successBps * weightBps / 10000))
      in \<lparr>hp_successProbabilityBps = js_round adjusted, hp_hazardBps = js_round (10000 - adjusted),
          hp_utilityScore = js_round (rk_expectedProfitBps input * adjusted / 10000)\<rparr>)"

definition learn_feature :: "observed_outcome \<Rightarrow> string \<Rightarrow> hazard_model \<Rightarrow> hazard_model" where
  "learn_feature outcome key m =
     (let st = stateFor m key
      in m\<lparr>hm_states := js_set key
           (if outcome = Won
            then st\<lparr>fs_successes := fs_successes st + 1, fs_weightBps := min 15000 (fs_weightBps st + hm_learningRateBps m)\<rparr>
            else st\<lparr>fs_failures := fs_failures st + 1, fs_weightBps := max 1000 (fs_weightBps st - hm_learningRateBps m)\<rparr>)
           (hm_states m)\<rparr>)"

definition hazard_recordOutcome :: "'a rank_input_scheme \<Rightarrow> observed_outcome \<Rightarrow> hazard_model \<Rightarrow> hazard_model" where
  "hazard_recordOutcome input outcome m = fold (learn_feature outcome) (featureKeys (rk_chain input) (rk_features input)) m"

section \<open>The ranker\<close>

record ftrl_state =
  ft_n :: rat
  ft_z :: rat

record ranker =
  rr_model :: hazard_model
  rr_states :: "(string, ftrl_state) jsmap"
  rr_cumulativeRegret :: rat
  rr_alpha :: rat
  rr_beta :: rat
  rr_l2 :: rat

definition ranker_new :: "hazard_model \<Rightarrow> rat option \<Rightarrow> rat option \<Rightarrow> rat option \<Rightarrow> ranker" where
  "ranker_new m alpha beta l2 =
     \<lparr>rr_model = m, rr_states = [], rr_cumulativeRegret = 0, rr_alpha = or_else alpha (1 / 2), rr_beta = or_else beta 1, rr_l2 = or_else l2 1\<rparr>"

definition ftrl_stateFor :: "ranker \<Rightarrow> string \<Rightarrow> ftrl_state" where
  "ftrl_stateFor r key = or_else (js_get (rr_states r) key) \<lparr>ft_n = 0, ft_z = 0\<rparr>"

definition weightFor :: "(rat \<Rightarrow> rat) \<Rightarrow> ranker \<Rightarrow> ftrl_state \<Rightarrow> rat" where
  "weightFor sq r st =
     (if \<bar>ft_z st\<bar> \<le> rr_l2 r then 0
      else - ((ft_z st - (if ft_z st < 0 then - 1 else 1) * rr_l2 r) / ((rr_beta r + sq (ft_n st)) / rr_alpha r + rr_l2 r)))"

definition score :: "(rat \<Rightarrow> rat) \<Rightarrow> ranker \<Rightarrow> 'a rank_input_scheme \<Rightarrow> rat" where
  "score sq r input =
     rat_of_int (hp_utilityScore (predict (rr_model r) input)) +
     sum_list (map (\<lambda>key. weightFor sq r (ftrl_stateFor r key)) (featureKeys (rk_chain input) (rk_features input))) * rk_expectedProfitBps input"

definition rank :: "(rat \<Rightarrow> rat) \<Rightarrow> ranker \<Rightarrow> 'a rank_input_scheme list \<Rightarrow> 'a rank_input_scheme list" where
  "rank sq r inputs = sort_key (\<lambda>input. - score sq r input) inputs"

definition probability :: "ranker \<Rightarrow> 'a rank_input_scheme \<Rightarrow> rat" where
  "probability r input = max 0 (min 1 (rat_of_int (hp_successProbabilityBps (predict (rr_model r) input)) / 10000))"

fun outcomeReward :: "observed_outcome \<Rightarrow> rat" where
  "outcomeReward Won = 1"
| "outcomeReward Missed = 2 / 5"
| "outcomeReward _ = 0"

definition observe_feature :: "(rat \<Rightarrow> rat) \<Rightarrow> rat \<Rightarrow> string \<Rightarrow> ranker \<Rightarrow> ranker" where
  "observe_feature sq gradient key r =
     (let st = ftrl_stateFor r key;
          sigma = (sq (ft_n st + gradient * gradient) - sq (ft_n st)) / rr_alpha r
      in r\<lparr>rr_states := js_set key \<lparr>ft_n = ft_n st + gradient * gradient, ft_z = ft_z st + (gradient - sigma * weightFor sq r st)\<rparr> (rr_states r)\<rparr>)"

definition observe :: "(rat \<Rightarrow> rat) \<Rightarrow> 'a rank_input_scheme \<Rightarrow> observed_outcome \<Rightarrow> ranker \<Rightarrow> ranker" where
  "observe sq input outcome r =
     (let prediction = probability r input; reward = outcomeReward outcome
      in fold (observe_feature sq (prediction - reward)) (featureKeys (rk_chain input) (rk_features input))
           (r\<lparr>rr_cumulativeRegret := rr_cumulativeRegret r + \<bar>reward - prediction\<bar>\<rparr>))"

definition ranker_recordOutcome :: "(rat \<Rightarrow> rat) \<Rightarrow> 'a rank_input_scheme \<Rightarrow> observed_outcome \<Rightarrow> ranker \<Rightarrow> ranker" where
  "ranker_recordOutcome sq input outcome r = observe sq input outcome (r\<lparr>rr_model := hazard_recordOutcome input outcome (rr_model r)\<rparr>)"

section \<open>What the ranking gives\<close>

lemma rank_orders:
  "mset (rank sq r inputs) = mset inputs \<and> sorted (map (\<lambda>input. - score sq r input) (rank sq r inputs))"
  by (simp add: rank_def)

text \<open>A prediction is a share of ten thousand, whatever has been learned.\<close>

lemma predict_bounds: "0 \<le> hp_successProbabilityBps (predict m input) \<and> hp_successProbabilityBps (predict m input) \<le> 10000"
  by (auto simp: predict_def Let_def js_round_def le_floor_iff floor_le_iff)

section \<open>What is never learned\<close>

text \<open>Keys that no recorded outcome touches keep their states.\<close>

definition same_at :: "string set \<Rightarrow> ranker \<Rightarrow> ranker \<Rightarrow> bool" where
  "same_at K r r' \<longleftrightarrow>
     (\<forall>key \<in> K. stateFor (rr_model r') key = stateFor (rr_model r) key \<and> ftrl_stateFor r' key = ftrl_stateFor r key) \<and>
     rr_alpha r' = rr_alpha r \<and> rr_beta r' = rr_beta r \<and> rr_l2 r' = rr_l2 r \<and>
     hm_priorSuccesses (rr_model r') = hm_priorSuccesses (rr_model r) \<and> hm_priorFailures (rr_model r') = hm_priorFailures (rr_model r)"

lemma same_at_refl: "same_at K r r"
  by (simp add: same_at_def)

lemma same_at_trans: "same_at K r r' \<Longrightarrow> same_at K r' r'' \<Longrightarrow> same_at K r r''"
  by (simp add: same_at_def)

lemma learn_other: "key \<notin> K \<Longrightarrow> same_at K r (r\<lparr>rr_model := learn_feature outcome key (rr_model r)\<rparr>)"
  by (auto simp: same_at_def learn_feature_def stateFor_def ftrl_stateFor_def Let_def)

lemma observe_other: "key \<notin> K \<Longrightarrow> same_at K r (observe_feature sq g key r)"
  by (auto simp: same_at_def observe_feature_def stateFor_def ftrl_stateFor_def Let_def)

lemma record_other:
  assumes "set (featureKeys (rk_chain input) (rk_features input)) \<inter> K = {}"
  shows "same_at K r (ranker_recordOutcome sq input outcome r)"
proof -
  let ?keys = "featureKeys (rk_chain input) (rk_features input)"
  have learn: "same_at K r (r\<lparr>rr_model := fold (learn_feature outcome) keys m\<rparr>)"
    if "set keys \<inter> K = {}" "same_at K r (r\<lparr>rr_model := m\<rparr>)" for keys m
    using that
  proof (induction keys arbitrary: m)
    case (Cons key keys)
    then have "same_at K r (r\<lparr>rr_model := learn_feature outcome key m\<rparr>)"
      using same_at_trans [OF Cons.prems(2) learn_other [of key K "r\<lparr>rr_model := m\<rparr>"]] by simp
    then show ?case
      using Cons by simp
  qed simp
  have watch: "same_at K r (fold (observe_feature sq g) keys r')"
    if "set keys \<inter> K = {}" "same_at K r r'" for keys g r'
    using that
  proof (induction keys arbitrary: r')
    case (Cons key keys)
    then show ?case
      using same_at_trans [OF Cons.prems(2) observe_other [of key K r' sq g]] by simp
  qed simp
  have start: "same_at K r (r\<lparr>rr_model := hazard_recordOutcome input outcome (rr_model r), rr_cumulativeRegret := c\<rparr>)" for c
    using learn [OF assms, of "rr_model r"] by (simp add: hazard_recordOutcome_def same_at_def ftrl_stateFor_def)
  show ?thesis
    using watch [OF assms start] by (simp add: ranker_recordOutcome_def observe_def Let_def)
qed

lemma same_score:
  assumes "same_at (set (featureKeys (rk_chain input) (rk_features input))) r r'"
  shows "score sq r' input = score sq r input"
proof -
  let ?keys = "featureKeys (rk_chain input) (rk_features input)"
  have states: "map (stateFor (rr_model r')) ?keys = map (stateFor (rr_model r)) ?keys"
    using assms by (auto simp: same_at_def)
  have weights: "map (\<lambda>key. weightFor sq r' (ftrl_stateFor r' key)) ?keys = map (\<lambda>key. weightFor sq r (ftrl_stateFor r key)) ?keys"
    using assms by (auto simp: same_at_def weightFor_def)
  show ?thesis
    unfolding score_def predict_def Let_def states weights by simp
qed

definition rank_entry :: "string \<Rightarrow> opportunity \<Rightarrow> rank_input" where
  "rank_entry chain opportunity =
     \<lparr>rk_chain = chain, rk_features = ranker_features opportunity, rk_expectedProfitBps = rat_of_int (estimateOpportunityProfitBps opportunity)\<rparr>"

definition outcome_entry :: "string \<Rightarrow> opportunity \<Rightarrow> int \<Rightarrow> rank_input" where
  "outcome_entry chain opportunity profitBps =
     \<lparr>rk_chain = chain, rk_features = opportunityFeatures opportunity, rk_expectedProfitBps = rat_of_int profitBps\<rparr>"

lemma key_parts:
  assumes "chain @ '':'' @ f = chain' @ '':'' @ f'" "CHR '':'' \<notin> set chain" "CHR '':'' \<notin> set chain'"
  shows "chain = chain' \<and> f = f'"
proof -
  have "takeWhile (\<lambda>c. c \<noteq> CHR '':'') (ch @ '':'' @ g) = ch" if "CHR '':'' \<notin> set ch" for ch g
    using that by (induction ch) auto
  then have "chain = chain'"
    using assms by metis
  then show ?thesis
    using assms(1) by simp
qed

lemma arbitrage_features_apart:
  assumes "take 2 (ab_tokenIn a) = ''0x''"
  shows "set (ranker_features (ArbitrageOpportunity a)) \<inter> set (opportunityFeatures opportunity) = {}"
proof -
  obtain rest where token: "ab_tokenIn a = ''0x'' @ rest"
    using assms by (metis append_take_drop_id)
  have "to_lower (ab_tokenIn a) = ''0x'' @ to_lower rest"
    by (simp add: token to_lower_def lower_char_def)
  then show ?thesis
    by (cases opportunity) (simp_all add: ranker_features_def)
qed

lemma arbitrage_keys_apart:
  assumes "take 2 (ab_tokenIn a) = ''0x''" "CHR '':'' \<notin> set chain" "CHR '':'' \<notin> set chain'"
  shows "set (featureKeys chain' (opportunityFeatures opportunity)) \<inter> set (featureKeys chain (ranker_features (ArbitrageOpportunity a))) = {}"
proof -
  have "opportunityFeatures opportunity \<noteq> []" "ranker_features (ArbitrageOpportunity a) \<noteq> []"
    by (cases opportunity; simp add: ranker_features_def)+
  then show ?thesis
    using arbitrage_features_apart [OF assms(1), of opportunity] key_parts [OF _ assms(2,3)]
    by (auto simp: featureKeys_def) (metis IntI empty_iff)+
qed

lemma insort_key_same: "(\<And>y. y \<in> insert x (set ys) \<Longrightarrow> f y = g y) \<Longrightarrow> insort_key f x ys = insort_key g x ys"
  by (induction ys) auto

lemma sort_key_same: "(\<And>x. x \<in> set xs \<Longrightarrow> f x = g x) \<Longrightarrow> sort_key f xs = sort_key g xs"
  by (induction xs) (auto intro: insort_key_same)

text \<open>C39. The ranking of arbitrage never learns: outcomes are recorded under the features of the orchestrator, and
  arbitrages are ranked by those of the wiring, which have none in common with them. After every history of outcomes
  the order of the arbitrages of a chain is that of the ranker that has seen nothing.\<close>

theorem ranking_never_learns_arbitrage:
  assumes "\<forall>(chain', opportunity, profitBps, outcome) \<in> set outcomes. CHR '':'' \<notin> set chain'" "CHR '':'' \<notin> set chain"
    and "\<forall>a \<in> set arbitrages. take 2 (ab_tokenIn a) = ''0x''"
  shows "rank sq (fold (\<lambda>(chain', opportunity, profitBps, outcome). ranker_recordOutcome sq (outcome_entry chain' opportunity profitBps) outcome) outcomes r)
             (map (\<lambda>a. rank_entry chain (ArbitrageOpportunity a)) arbitrages) =
         rank sq r (map (\<lambda>a. rank_entry chain (ArbitrageOpportunity a)) arbitrages)"
proof -
  let ?entries = "map (\<lambda>a. rank_entry chain (ArbitrageOpportunity a)) arbitrages"
  let ?learn = "\<lambda>(chain', opportunity, profitBps, outcome). ranker_recordOutcome sq (outcome_entry chain' opportunity profitBps) outcome"
  have same: "same_at (set (featureKeys chain (ranker_features (ArbitrageOpportunity a)))) r (fold ?learn os r)"
    if "set os \<subseteq> set outcomes" "a \<in> set arbitrages" for a os
    using that(1)
  proof (induction os rule: rev_induct)
    case (snoc last_one os)
    obtain chain' opportunity profitBps outcome where l: "last_one = (chain', opportunity, profitBps, outcome)"
      by (cases last_one)
    then have "CHR '':'' \<notin> set chain'"
      using snoc.prems assms(1) by auto
    then have "set (featureKeys (rk_chain (outcome_entry chain' opportunity profitBps)) (rk_features (outcome_entry chain' opportunity profitBps)))
        \<inter> set (featureKeys chain (ranker_features (ArbitrageOpportunity a))) = {}"
      using arbitrage_keys_apart [of a chain chain' opportunity] assms(2,3) that(2) by (simp add: outcome_entry_def)
    from same_at_trans [OF _ record_other [OF this]] show ?case
      using snoc by (simp add: l)
  qed (simp add: same_at_refl)
  have "score sq (fold ?learn outcomes r) e = score sq r e" if "e \<in> set ?entries" for e
    using that same by (auto intro!: same_score simp: rank_entry_def)
  then show ?thesis
    unfolding rank_def by (intro sort_key_same) simp
qed

definition sample_arbitrage :: arbitrage_opportunity where
  "sample_arbitrage =
     (let dex = \<lparr>dx_name = ''A'', dx_router = ''0xa'', dx_feeBps = 5, dx_quoterV2 = None, dx_quoterPoolFee = None\<rparr>;
          nothing = \<lparr>am_asset = usd_asset, am_raw = 0\<rparr>
      in \<lparr>ao_opportunityId = ''a'', ao_chain = ''base'', ab_buyDex = dex, ab_sellDex = dex, ab_tokenIn = ''0x1'', ab_tokenOut = ''0x2'',
          ab_amountIn = 100, ab_expectedIntermediateOut = 100, ab_expectedAmountOut = 110, ab_expectedRevenue = nothing,
          ab_estimatedGas = nothing, ab_flashLoanFee = nothing, ab_slippageBuffer = nothing, ab_safetyBuffer = nothing,
          ab_capitalAtRisk = nothing, ab_provider = AaveV3, ab_minimumMarginBps = 75\<rparr>)"

definition dearer_arbitrage :: arbitrage_opportunity where
  "dearer_arbitrage = sample_arbitrage\<lparr>ab_expectedAmountOut := 150\<rparr>"

theorem ranking_never_learns_arbitrage_witness:
  "rank (\<lambda>x. x) (ranker_recordOutcome (\<lambda>x. x) (outcome_entry ''base'' (ArbitrageOpportunity sample_arbitrage) 5) OutcomeReverted (ranker_new (hazard_new None None None) None None None))
     [rank_entry ''base'' (ArbitrageOpportunity sample_arbitrage), rank_entry ''base'' (ArbitrageOpportunity dearer_arbitrage)] =
   rank (\<lambda>x. x) (ranker_new (hazard_new None None None) None None None)
     [rank_entry ''base'' (ArbitrageOpportunity sample_arbitrage), rank_entry ''base'' (ArbitrageOpportunity dearer_arbitrage)]"
  using ranking_never_learns_arbitrage [of "[(''base'', ArbitrageOpportunity sample_arbitrage, 5, OutcomeReverted)]" "''base''"
      "[sample_arbitrage, dearer_arbitrage]" "\<lambda>x. x" "ranker_new (hazard_new None None None) None None None"]
  by (simp add: sample_arbitrage_def dearer_arbitrage_def Let_def)

end
