(* ===== verification/Wiring_Safety.thy ===== *)
theory Wiring_Safety
  imports Pipeline_Wiring Config_Safety
begin

text \<open>
  What the wiring of the pipeline gives: nothing is broadcast without the last check, what the last check and
  the cooldown look at, the price of gas that is paid, and the endpoints that a transaction reaches.
\<close>

section \<open>Nothing is broadcast without the last check\<close>

text \<open>The last check never lets the request pass, or the executor does not send at all.\<close>

definition never_cleared :: "'w exec_env \<Rightarrow> exec_request \<Rightarrow> bool" where
  "never_cleared env req \<longleftrightarrow>
     ee_dryRunMode env \<or> (\<exists>f. ee_rejectBeforeBroadcast env = Some f \<and> (\<forall>w w'. f req w \<noteq> (Inr None, w')))"

lemma hook_not_cleared:
  assumes "never_cleared env req" "\<not> ee_dryRunMode env"
  shows "io_valid P (hook (ee_rejectBeforeBroadcast env) req) (\<lambda>reason s. reason \<noteq> None) (\<lambda>_ _. True)"
proof -
  obtain f where f: "ee_rejectBeforeBroadcast env = Some f" "\<And>w w'. f req w \<noteq> (Inr None, w')"
    using assms by (auto simp: never_cleared_def)
  show ?thesis
    by (rule io_validI) (use f in \<open>auto simp: hook_def call_def split: prod.splits, metis option.exhaust\<close>)
qed

lemma not_cleared_not_submitted:
  assumes "never_cleared env req"
  shows "io_valid (\<lambda>s. xs_submitted s = old) (simulate_and_submit ops env req tx ov)
     (\<lambda>_ s. xs_submitted s = old) (\<lambda>_ s. xs_submitted s = old)"
proof -
  let ?P = "\<lambda>s :: ('b, 'a) exec_state. xs_submitted s = old"
  note unsent = log_unsent_after_simulation [OF log_property_submitted [of old]]
  have log: "io_valid ?P (io_modify (\<lambda>s. s\<lparr>xs_simulatedOk := xs_simulatedOk s @ [(tx, ov)]\<rparr>)) (\<lambda>_. ?P) (\<lambda>_. ?P)"
    by (rule io_valid_modify) simp
  have ret: "io_valid ?P (io_return a) (\<lambda>_. ?P) (\<lambda>_. ?P)" for a :: exec_result
    by (rule io_valid_return)
  have passed: "io_valid ?P (if ee_dryRunMode env then io_then (releaseNonce ops req (ov_nonce ov)) (io_return Simulated)
      else io_bind (hook (ee_rejectBeforeBroadcast env) req) (\<lambda>reason. case reason of
             Some _ \<Rightarrow> reject_with ops req (ov_nonce ov) RejFinalSimulationFailed
           | None \<Rightarrow> submitWithReplacement ops env req tx ov)) (\<lambda>_. ?P) (\<lambda>_. ?P)"
  proof (rule io_valid_if)
    show "io_valid ?P (io_then (releaseNonce ops req (ov_nonce ov)) (io_return Simulated)) (\<lambda>_. ?P) (\<lambda>_. ?P)"
      by (rule io_valid_then [OF unsent(5) ret])
  next
    assume live: "\<not> ee_dryRunMode env"
    have "io_valid (\<lambda>s. ?P s \<and> ?P s) (hook (ee_rejectBeforeBroadcast env) req)
        (\<lambda>reason s. ?P s \<and> reason \<noteq> None) (\<lambda>_ s. ?P s \<and> True)"
      by (rule io_valid_conj [OF unsent(4) hook_not_cleared [OF assms live]])
    then have hook: "io_valid ?P (hook (ee_rejectBeforeBroadcast env) req) (\<lambda>reason s. ?P s \<and> reason \<noteq> None) (\<lambda>_. ?P)"
      by (rule io_valid_weaken) auto
    show "io_valid ?P (io_bind (hook (ee_rejectBeforeBroadcast env) req) (\<lambda>reason. case reason of
             Some _ \<Rightarrow> reject_with ops req (ov_nonce ov) RejFinalSimulationFailed
           | None \<Rightarrow> submitWithReplacement ops env req tx ov)) (\<lambda>_. ?P) (\<lambda>_. ?P)"
    proof (rule io_valid_bind [OF hook], rule io_valid_option)
      fix reason :: "string option"
      assume "reason = None"
      then show "io_valid (\<lambda>s. ?P s \<and> reason \<noteq> None) (submitWithReplacement ops env req tx ov) (\<lambda>_. ?P) (\<lambda>_. ?P)"
        by (simp add: io_valid_def)
    next
      fix reason :: "string option" and r
      show "io_valid (\<lambda>s. ?P s \<and> reason \<noteq> None) (reject_with ops req (ov_nonce ov) RejFinalSimulationFailed) (\<lambda>_. ?P) (\<lambda>_. ?P)"
        by (rule io_valid_weaken [OF unsent(1)]) simp_all
    qed
  qed
  show ?thesis
    unfolding simulate_and_submit_def
    by (intro io_valid_bind [OF unsent(3)] verdict_valid unsent(1) io_valid_then [OF log] passed)
qed

lemma not_cleared_execute:
  assumes "never_cleared env req"
  shows "io_valid (\<lambda>s. xs_submitted s = old) (execute ops env req) (\<lambda>_ s. xs_submitted s = old) (\<lambda>_ s. xs_submitted s = old)"
proof (rule execute_valid [where P = "\<lambda>_ s. xs_submitted s = old"])
  note unsent = log_unsent_after_simulation [OF log_property_submitted [of old]]
  show "io_valid (\<lambda>s. xs_submitted s = old) (runPreflight ops env req) (\<lambda>(route, gasPrice, n) s. xs_submitted s = old) (\<lambda>_ s. xs_submitted s = old)"
    by (rule io_valid_weaken [OF unsent(2)]) auto
  show "io_valid (\<lambda>s. xs_submitted s = old) (reject_with ops req n r) (\<lambda>_ s. xs_submitted s = old) (\<lambda>_ s. xs_submitted s = old)" for n r
    by (rule unsent(1))
qed (auto intro: log_quiet log_property_submitted not_cleared_not_submitted [OF assms])

lemma not_cleared_nothing_sent:
  assumes "never_cleared env req" "execute ops env req s = (r, s')"
  shows "xs_submitted s' = xs_submitted s"
proof (cases r)
  case (Inl e)
  with assms(2) show ?thesis
    by (intro io_validD(2) [OF not_cleared_execute [OF assms(1)] refl]) simp
next
  case (Inr a)
  with assms(2) show ?thesis
    by (intro io_validD(1) [OF not_cleared_execute [OF assms(1)] refl]) simp
qed

section \<open>The last check looks at the wrong account\<close>

lemma request_of_the_bot:
  assumes "buildLiquidationExecutionRequest abi version chain c acfg = Inr req"
  shows "exec_request.rq_chain req = chain" "exec_request.rq_account req = ad_account acfg"
  using assms by (auto simp: buildLiquidationExecutionRequest_def split: sum.splits if_splits)

text \<open>The node never shows the account below one.\<close>

definition always_healthy :: "'w wired_services \<Rightarrow> address \<Rightarrow> bool" where
  "always_healthy sv account \<longleftrightarrow>
     (\<forall>pool w collateral debt available threshold ltv h w'.
        wv_readAccountData sv pool account w = (Inr (collateral, debt, available, threshold, ltv, h), w') \<longrightarrow> WAD \<le> h)"

lemma validate_not_ok:
  assumes "always_healthy sv account"
  shows "validateLiquidatableHealthFactor blockNumber (wv_readAccountData sv pool) account detected w \<noteq> (Inr (PreflightOk h head), w')"
proof
  assume "validateLiquidatableHealthFactor blockNumber (wv_readAccountData sv pool) account detected w = (Inr (PreflightOk h head), w')"
  then obtain hd1 w1 where "blockNumber w = (Inr hd1, w1)"
      "(if (case detected of Some b \<Rightarrow> b < hd1 - 1 | None \<Rightarrow> False) then io_return (PreflightStale hd1)
        else io_bind (wv_readAccountData sv pool account) (\<lambda>(collateral, debt, available, threshold, ltv, healthFactor).
          if WAD \<le> healthFactor then io_return (PreflightHealthy healthFactor hd1) else io_return (PreflightOk healthFactor hd1))) w1
       = (Inr (PreflightOk h head), w')"
    unfolding validateLiquidatableHealthFactor_def io_bind_Inr by blast
  then obtain d w2 where d: "wv_readAccountData sv pool account w1 = (Inr d, w2)"
      "(case d of (collateral, debt, available, threshold, ltv, healthFactor) \<Rightarrow>
          if WAD \<le> healthFactor then io_return (PreflightHealthy healthFactor hd1) else io_return (PreflightOk healthFactor hd1)) w2
       = (Inr (PreflightOk h head), w')"
    by (auto simp: io_bind_Inr io_simps split: if_splits)
  obtain collateral debt available threshold ltv hf where "d = (collateral, debt, available, threshold, ltv, hf)"
    by (cases d)
  then show False
    using d assms unfolding always_healthy_def by (auto simp: io_simps)
qed

lemma healthy_account_not_cleared:
  assumes "always_healthy sv (exec_request.rq_account req)"
  shows "rejectBeforeBroadcast sv req g \<noteq> (Inr None, g')"
proof
  assume "rejectBeforeBroadcast sv req g = (Inr None, g')"
  then obtain pool latest s s' where
    "io_bind (on_node (validateLiquidatableHealthFactor (wv_getBlockNumber sv) (wv_readAccountData sv pool) (exec_request.rq_account req)
        (if 0 < latest then Some latest else None))) (\<lambda>result. io_return (preflight_reason result)) s = (Inr None, s')"
    unfolding rejectBeforeBroadcast_def gate_call_def io_bind_Inr
    by (auto simp: io_bind_Inr io_simps split: prod.splits)
  then obtain r s1 where r: "on_node (validateLiquidatableHealthFactor (wv_getBlockNumber sv) (wv_readAccountData sv pool) (exec_request.rq_account req)
        (if 0 < latest then Some latest else None)) s = (Inr r, s1)" "preflight_reason r = None"
    by (auto simp: io_bind_Inr io_simps)
  obtain w where v: "validateLiquidatableHealthFactor (wv_getBlockNumber sv) (wv_readAccountData sv pool) (exec_request.rq_account req)
        (if 0 < latest then Some latest else None) (os_world (wr_oracle s)) = (Inr r, w)"
    using r(1) by (auto simp: on_node_def on_oracle_def ocall_def split: prod.splits)
  obtain h head where "r = PreflightOk h head"
    using r(2) by (auto simp: preflight_reason_def split: preflight_result.splits)
  with v show False
    using validate_not_ok [OF assms] by blast
qed

lemma wired_request_built:
  assumes "wired_liquidation_request sv cfg pool abi version account c s0 = (Inr req, s1)"
  shows "\<exists>gas fee activePool. buildLiquidationExecutionRequest abi version (cf_chain cfg) c
           (liquidation_settings cfg account gas fee activePool) = Inr req"
proof -
  have "\<exists>gas fee activePool s2. io_lift (buildLiquidationExecutionRequest abi version (cf_chain cfg) c
      (liquidation_settings cfg account gas fee activePool)) s2 = (Inr req, s1)"
    using assms unfolding wired_liquidation_request_def io_bind_Inr by blast
  then show ?thesis
    by (simp add: io_lift_def split: sum.splits)
qed

lemma built_request_account:
  assumes "buildExecutionRequestForOpportunity sv cfg pool abi version account opportunity s0 = (Inr (Some req), s1)"
  shows "exec_request.rq_account req = account"
proof (cases opportunity)
  case (LiquidationOpportunity c)
  have "wired_liquidation_request sv cfg pool abi version account c s0 = (Inr req, s1)"
    using assms by (auto simp: LiquidationOpportunity buildExecutionRequestForOpportunity_def io_bind_Inr io_return_def)
  then obtain gas fee activePool where
    "buildLiquidationExecutionRequest abi version (cf_chain cfg) c (liquidation_settings cfg account gas fee activePool) = Inr req"
    using wired_request_built by blast
  then show ?thesis
    using request_of_the_bot(2) by (fastforce simp: liquidation_settings_def)
next
  case (ArbitrageOpportunity o')
  then show ?thesis
    using assms
    by (auto simp: buildExecutionRequestForOpportunity_def io_bind_Inr io_return_def io_lift_def buildArbitrageExecutionRequest_def
      split: option.splits sum.splits)
qed

text \<open>C5. The last check before a broadcast reads the health factor of the account of the request, which for every
  opportunity, a liquidation or an arbitrage, is the account of the bot: as long as the bot itself is not liquidatable,
  no request that the pipeline builds is ever sent, whatever the health factor of the borrower.\<close>

theorem nothing_is_ever_broadcast:
  assumes "buildExecutionRequestForOpportunity sv cfg pool abi version account opportunity s0 = (Inr (Some req), s1)"
    and "always_healthy sv account"
    and "execute ops (wired_executor sv cfg pool maxGas env) req s = (r, s')"
  shows "xs_submitted s' = xs_submitted s"
proof (rule not_cleared_nothing_sent [OF _ assms(3)])
  have "always_healthy sv (exec_request.rq_account req)"
    using assms(2) built_request_account [OF assms(1)] by simp
  then show "never_cleared (wired_executor sv cfg pool maxGas env) req"
    unfolding never_cleared_def wired_executor_def using healthy_account_not_cleared [of sv req] by auto
qed

section \<open>One dead letter blocks all\<close>

definition same_cooldown :: "'w gate_state \<Rightarrow> 'w gate_state \<Rightarrow> bool" where
  "same_cooldown g g' \<longleftrightarrow> gs_cooldown g' = gs_cooldown g"

lemma blocked_until:
  "isBorrowerBlocked t chain account (blockBorrower t0 chain account reason r) =
     (if t < t0 + bc_cooldownMs r then (True, blockBorrower t0 chain account reason r)
      else isBorrowerBlocked t chain account (blockBorrower t0 chain account reason r))"
  by (simp add: isBorrowerBlocked_def blockBorrower_def Let_def)


section \<open>The sanity check compares a price with itself\<close>

text \<open>The sanity check of the oracle reads the same feed twice, so as long as the feed answers the same both
  times, it passes exactly if there is a positive price: no deviation can be found.\<close>

theorem sanity_check_is_vacuous:
  assumes "on_oracle (forceRefreshUsdPrices (wv_oracle sv) (wired_oracle_config cfg) [a]) s = (Inr prices, s1)"
    and "on_oracle (forceRefreshUsdPrices (wv_oracle sv) (wired_oracle_config cfg) [a]) s1 = (Inr prices, s2)"
  shows "oracleSanityCheck sv cfg a s = (Inr (0 < or_else (js_get prices a) 0), s2)"
  using assms by (auto simp: oracleSanityCheck_def io_bind_def io_simps evaluateOracleSanity_def Let_def)

section \<open>A provider without a fee\<close>

definition unpriced_provider :: "flash_provider \<Rightarrow> 'w wired \<Rightarrow> bool" where
  "unpriced_provider p s \<longleftrightarrow> fr_providerFees (wr_router s) p = None"

lemma missing_fee_throws:
  assumes "p \<in> set ps" "fr_providerFees rt p = None"
  shows "\<exists>e. approved_routes registry simulate rt i ps = Inl e"
  using assms
proof (induction ps)
  case (Cons q ps)
  show ?case
  proof (cases "toSimulationInput rt i q")
    case (Inr si)
    then have "q \<noteq> p"
      using Cons.prems(2) by (auto simp: toSimulationInput_def)
    then obtain e where "approved_routes registry simulate rt i ps = Inl e"
      using Cons by auto
    then show ?thesis
      using Inr by (auto split: sum.split profit_result.split)
  qed simp
qed simp

lemma keeps_on_oracle [io_rules]: "io_keeps (unpriced_provider p) (on_oracle m)"
  unfolding io_keeps_def by (rule io_validI) (auto simp: on_oracle_def unpriced_provider_def split: prod.splits)

lemma keeps_on_node [io_rules]: "io_keeps (unpriced_provider p) (on_node m)"
  unfolding on_node_def by (rule keeps_on_oracle)

lemma keeps_resolve_chains [io_rules]: "io_keeps (unpriced_provider p) (resolve_chains sv chainNames resolved)"
  by (induction chainNames arbitrary: resolved)
    (auto simp: resolve_chain_def intro!: io_rules split: option.split)

lemma keeps_resolve [io_rules]: "io_keeps (unpriced_provider p) (resolveAndPersistAaveAddresses sv chainNames)"
  unfolding resolveAndPersistAaveAddresses_def by (intro io_rules) (auto simp: unpriced_provider_def)

lemma keeps_flash_fee [io_rules]: "io_keeps (unpriced_provider p) (resolveFlashLoanFeeBps sv cfg pool)"
  unfolding resolveFlashLoanFeeBps_def readFlashLoanPremiumBps_def
  by (intro io_rules) (auto simp: unpriced_provider_def intro!: io_rules split: option.split js_number.split)

lemma keeps_store_fee: "q \<noteq> p \<Longrightarrow> io_keeps (unpriced_provider p) (store_provider_fee q bps)"
  unfolding store_provider_fee_def by (intro io_rules) (auto simp: unpriced_provider_def setProviderFee_def)

lemma keeps_readiness [io_rules]: "io_keeps (unpriced_provider p) (readiness_failures sv cfg chainNames)"
  by (induction chainNames) (auto intro!: io_rules)

lemma keeps_part: "(\<And>m. part = Some m \<Longrightarrow> io_keeps (unpriced_provider p) m) \<Longrightarrow> io_keeps (unpriced_provider p) (if_there part)"
  by (cases part) (auto simp: if_there_def intro: io_rules)

text \<open>The parts that are started leave the router alone.\<close>

definition parts_leave_router :: "'w startup_parts \<Rightarrow> bool" where
  "parts_leave_router parts \<longleftrightarrow>
     (\<forall>p. io_keeps (unpriced_provider p) (sp_nearLiquidation parts) \<and>
       (\<forall>part \<in> {sp_watchlist parts, sp_purity parts, sp_flashblockLoop parts, sp_mirror parts, sp_receiver parts}.
          io_keeps (unpriced_provider p) (if_there part)))"

lemma keeps_guard:
  assumes "parts_leave_router parts"
  shows "io_keeps (unpriced_provider UniswapV3) (startupGuard sv cfg pool parts)"
proof -
  have parts: "io_keeps (unpriced_provider UniswapV3) (sp_nearLiquidation parts)"
    "io_keeps (unpriced_provider UniswapV3) (if_there (sp_watchlist parts))"
    "io_keeps (unpriced_provider UniswapV3) (if_there (sp_purity parts))"
    "io_keeps (unpriced_provider UniswapV3) (if_there (sp_flashblockLoop parts))"
    "io_keeps (unpriced_provider UniswapV3) (if_there (sp_mirror parts))"
    "io_keeps (unpriced_provider UniswapV3) (if_there (sp_receiver parts))"
    using assms by (simp_all add: parts_leave_router_def)
  show ?thesis
    unfolding startupGuard_def assertArbitrageOracleReadiness_def
    by (intro io_rules parts keeps_store_fee) (simp_all add: unpriced_provider_def)
qed


section \<open>The price of gas\<close>

text \<open>C40. The cap on the price of gas holds only while it leaves more than the priority fee: then the whole gas costs
  at most the part of the profit that is meant for it. When the budget is smaller, the cap is dropped and the
  transaction pays the base fee and the priority fee, which exceed the budget.\<close>

theorem gas_cap_dropped_when_small:
  assumes "quote_gas baseFee profitUsd gasLimit maxPct priorityFee = Inr q"
    and "budget = usdProfitToWeiBudget profitUsd (case maxPct of Some p \<Rightarrow> p | None \<Rightarrow> 25)"
    and "priority = (case priorityFee of Some p \<Rightarrow> p | None \<Rightarrow> 1000000)"
    and "0 < budget" "0 < gasLimit" "0 < baseFee"
  shows "(priority < bdiv budget gasLimit \<longrightarrow> gasLimit * gq_maxFeePerGas q \<le> budget) \<and>
         (\<not> priority < bdiv budget gasLimit \<longrightarrow> gq_maxFeePerGas q = priority + baseFee \<and> budget < gasLimit * gq_maxFeePerGas q)"
proof -
  let ?cap = "bdiv budget gasLimit"
  have cap: "?cap * gasLimit \<le> budget" "budget < (?cap + 1) * gasLimit"
    using assms(4,5) bdiv_mult_le [of budget gasLimit] bdiv_less_iff [of budget gasLimit "?cap + 1"] by simp_all
  have fee: "gq_maxFeePerGas q = (if priority < min (baseFee * 2 + priority) ?cap then min (baseFee * 2 + priority) ?cap else priority + baseFee)"
    using assms by (auto simp: quote_gas_def Let_def)
  show ?thesis
  proof (intro conjI impI)
    assume "priority < ?cap"
    then have "gq_maxFeePerGas q \<le> ?cap"
      using fee assms(6) by auto
    then have "gasLimit * gq_maxFeePerGas q \<le> gasLimit * ?cap"
      using assms(5) by simp
    then show "gasLimit * gq_maxFeePerGas q \<le> budget"
      using cap(1) by (simp add: mult.commute)
  next
    assume small: "\<not> priority < ?cap"
    then show "gq_maxFeePerGas q = priority + baseFee"
      using fee by auto
    then have "(?cap + 1) * gasLimit \<le> gq_maxFeePerGas q * gasLimit"
      using small assms(5,6) by (intro mult_right_mono) linarith+
    then show "budget < gasLimit * gq_maxFeePerGas q"
      using cap(2) by (simp add: mult.commute)
  qed
qed

section \<open>Broadcast to several endpoints\<close>

lemma broadcast_all_total: "\<exists>results w'. broadcast_all sends w = (Inr results, w') \<and> length results = length sends"
proof (induction sends arbitrary: w)
  case (Cons send sends)
  obtain r w1 where r: "send w = (r, w1)"
    by fastforce
  obtain results w' where "broadcast_all sends w1 = (Inr results, w')" "length results = length sends"
    using Cons by blast
  then show ?case
    using r by (cases r) (simp_all add: io_bind_def io_catch_def io_simps)
qed (simp add: io_simps)

text \<open>A broadcast tries every endpoint, fails exactly if all of them fail, and otherwise answers the hash of one
  that accepted, whatever the order in which they answer.\<close>

theorem broadcast_reaches_all:
  assumes "broadcast_all sends w = (Inr results, w')" "set settle = {..<length sends}"
  shows "broadcast_send settle sends w = (first_settled settle results, w') \<and> length results = length sends \<and>
         (isl (first_settled settle results) \<longleftrightarrow> (\<forall>r \<in> set results. isl r)) \<and>
         (\<not> isl (first_settled settle results) \<longrightarrow> first_settled settle results \<in> set results)"
proof -
  have len: "length results = length sends"
    using broadcast_all_total [of sends w] assms(1) by auto
  let ?ok = "\<lambda>i. i < length results \<and> (\<exists>h. results ! i = Inr h)"
  have run: "broadcast_send settle sends w = (first_settled settle results, w')"
    using assms(1) by (simp add: broadcast_send_def io_bind_def io_simps)
  show ?thesis
  proof (cases "filter ?ok settle")
    case Nil
    have "isl r" if r: "r \<in> set results" for r
    proof (cases r)
      case (Inr h)
      then obtain i where i: "i < length results" "results ! i = Inr h"
        using r by (metis in_set_conv_nth)
      then have "i \<in> set settle"
        using assms(2) len by simp
      then show ?thesis
        using Nil i by (auto simp: filter_empty_conv)
    qed simp
    then show ?thesis
      using run len Nil by (simp add: first_settled_def)
  next
    case (Cons i rest)
    then have "i \<in> set (filter ?ok settle)"
      by simp
    then have "?ok i"
      unfolding set_filter by blast
    then obtain h where h: "i < length results" "results ! i = Inr h"
      by blast
    have first: "first_settled settle results = Inr h"
      using Cons h(2) by (simp add: first_settled_def)
    have "Inr h \<in> set results"
      using h nth_mem [OF h(1)] by simp
    then have "\<not> (\<forall>r \<in> set results. isl r)"
      by force
    then show ?thesis
      using run len first \<open>Inr h \<in> set results\<close> by simp
  qed
qed

text \<open>A hash of the private submission comes from a wallet of the mode; in the mode of one target the other is never used.\<close>

lemma private_target_of_mode:
  assumes "submit_in_order c account tx ov targets w = (Inr hash, w')"
  shows "\<exists>target \<in> set targets. \<exists>w1. trySubmit c target account tx ov w1 = (Inr hash, w')"
  using assms
proof (induction targets arbitrary: w)
  case (Cons target rest)
  obtain r w1 where r: "trySubmit c target account tx ov w = (r, w1)"
    by fastforce
  then show ?case
    using Cons by (cases r) (auto simp: io_bind_def io_catch_def io_simps)
qed (simp add: io_simps)

section \<open>The run and the shutdown\<close>

text \<open>A guard that fails leaves the bot without any of the hooks of the shutdown; after one that succeeds the scanner
  stops and the hooks run, whatever the loop does.\<close>

lemma failed_guard_skips_shutdown:
  assumes "br_startupGuard b = Some guard" "guard s = (Inl e, s')"
  shows "pipeline_runPollingLoop b s = (Inl e, s')"
  using assms by (simp add: pipeline_runPollingLoop_def io_then_def io_bind_def)

lemma run_hooks_all: "run_hooks (hooks @ hooks') w = (case run_hooks hooks w of (es, w1) \<Rightarrow> (case run_hooks hooks' w1 of (es', w2) \<Rightarrow> (es @ es', w2)))"
  by (induction hooks w rule: run_hooks.induct) (auto split: prod.split sum.split)

lemma second_shutdown: "shutdown (snd (shutdown s)) = (AlreadyCompleted, snd (shutdown s))"
  by (simp add: shutdown_def split: prod.split)

text \<open>Whatever a hook of the shutdown does, the hooks after it run: the shutdown ends as completed or with the
  exceptions of the hooks that failed, in their order, and counts them; a second shutdown changes nothing.\<close>

theorem shutdown_runs_every_hook:
  assumes "\<not> sh_completed s" "sh_hooks s = before @ (name, run) # after" "run_hooks before (sh_world s) = (errors, w)"
    and "run w = (outcome, w1)" "run_hooks after w1 = (errors', w2)"
  shows "let all = errors @ (case outcome of Inl e \<Rightarrow> [e] | Inr _ \<Rightarrow> []) @ errors' in
         shutdown s = (if all = [] then ShutdownCompleted else ShutdownWithErrors all,
           s\<lparr>sh_world := w2, sh_completed := True, sh_metricErrors := sh_metricErrors s + length all\<rparr>) \<and>
         shutdown (snd (shutdown s)) = (AlreadyCompleted, snd (shutdown s))"
  using assms by (cases outcome) (auto simp: shutdown_def run_hooks_all Let_def)

section \<open>Concrete runs\<close>

definition sample_wired_services :: "unit wired_services" where
  "sample_wired_services =
     \<lparr>wv_oracle = sample_oracle, wv_getGasPrice = (\<lambda>w. (Inr 1000000000, w)), wv_nowMs = (\<lambda>w. (1000000, w)),
      wv_readPremium = (\<lambda>pool w. (Inr (Finite 5), w)), wv_getPool = (\<lambda>provider w. (Inr ''0xpool'', w)),
      wv_readAnswer = (\<lambda>feed w. (Inr 0, w)), wv_getBlockNumber = (\<lambda>w. (Inr 100, w)),
      wv_readAccountData = (\<lambda>pool account w. (Inr (0, 0, 0, 0, 0, 2 * WAD), w)), wv_getBaseFee = (\<lambda>w. (Inr (Some 5000000), w))\<rparr>"

definition sample_wired :: "unit wired" where
  "sample_wired =
     \<lparr>wr_oracle = sample_oracle_state, wr_gasCached = None, wr_flashFeeBps = None,
      wr_chainConfig = \<lparr>cc_name = ''base'', cc_chainId = 8453, cc_blockExplorerUrl = [], cc_pool = ''0xpool'',
        cc_poolAddressesProvider = ''0xprovider'', cc_uiPoolDataProvider = ''0xdata'', cc_reservePairs = []\<rparr>,
      wr_latestBlock = 100, wr_aaveFile = None, wr_router = new_router (\<lambda>_. None)\<rparr>"

definition sample_wired_gate :: "unit wired gate_state" where
  "sample_wired_gate =
     \<lparr>gs_cooldown = bc_new None, gs_dustLog = dl_new None None, gs_diagnostics = None, gs_cooldownBlocks = 0,
      gs_dustFiltered = 0, gs_log = [], gs_world = sample_wired\<rparr>"

definition nothing_to_start :: "unit startup_parts" where
  "nothing_to_start = \<lparr>sp_watchlist = None, sp_purity = None, sp_flashblockLoop = None, sp_mirror = None,
     sp_nearLiquidation = io_return (), sp_receiver = None\<rparr>"

lemma sample_request:
  obtains req where "buildLiquidationExecutionRequest sample_abi PoolV3 ''base'' sample_candidate sample_config = Inr req"
proof -
  have "\<not> isl (buildLiquidationExecutionRequest sample_abi PoolV3 ''base'' sample_candidate sample_config)"
    by code_simp
  then show thesis
    using that by (cases "buildLiquidationExecutionRequest sample_abi PoolV3 ''base'' sample_candidate sample_config") auto
qed

definition builds_live_request :: "runtime_config \<Rightarrow> bool" where
  "builds_live_request cfg \<longleftrightarrow> \<not> cf_simulationMode cfg \<and>
     (case fst (buildExecutionRequestForOpportunity sample_wired_services cfg ''0xpool'' sample_abi PoolV3 ''0xbot''
                  (LiquidationOpportunity sample_candidate) sample_wired) of
        Inr (Some req) \<Rightarrow> True | _ \<Rightarrow> False)"

lemma live_builds: "map_option builds_live_request (starts_pipeline (main_decision live_services live_env 1000000 False True)) = Some True"
  by code_simp

theorem nothing_is_ever_broadcast_witness:
  "\<exists>cfg req s1. \<not> cf_simulationMode cfg \<and>
     buildExecutionRequestForOpportunity sample_wired_services cfg ''0xpool'' sample_abi PoolV3 ''0xbot''
       (LiquidationOpportunity sample_candidate) sample_wired = (Inr (Some req), s1) \<and>
     (\<forall>ops :: unit nonce_ops. \<forall>maxGas env s.
        xs_submitted (snd (execute ops (wired_executor sample_wired_services cfg ''0xpool'' maxGas env) req s)) = xs_submitted s)"
proof -
  obtain cfg where cfg: "builds_live_request cfg"
    using live_builds by auto
  then obtain req s1 where req: "buildExecutionRequestForOpportunity sample_wired_services cfg ''0xpool'' sample_abi PoolV3 ''0xbot''
       (LiquidationOpportunity sample_candidate) sample_wired = (Inr (Some req), s1)"
    by (auto simp: builds_live_request_def prod_eq_iff split: sum.splits option.splits)
  have "always_healthy sample_wired_services ''0xbot''"
    by (simp add: always_healthy_def sample_wired_services_def WAD_def)
  then show ?thesis
    using cfg req nothing_is_ever_broadcast [OF req] by (metis builds_live_request_def prod.collapse)
qed


definition refreshes_alike :: "runtime_config \<Rightarrow> bool" where
  "refreshes_alike cfg =
     (let refresh = on_oracle (forceRefreshUsdPrices (wv_oracle sample_wired_services) (wired_oracle_config cfg) [canonicalBaseWeth])
      in case refresh sample_wired of
           (Inr prices, s1) \<Rightarrow> fst (refresh s1) = Inr prices \<and> 0 < or_else (js_get prices canonicalBaseWeth) 0
         | _ \<Rightarrow> False)"

lemma live_refreshes_alike: "map_option refreshes_alike (starts_pipeline (main_decision live_services live_env 1000000 False True)) = Some True"
  by code_simp

theorem sanity_check_is_vacuous_witness:
  "\<exists>cfg. fst (oracleSanityCheck sample_wired_services cfg canonicalBaseWeth sample_wired) = Inr True"
proof -
  obtain cfg where "refreshes_alike cfg"
    using live_refreshes_alike by auto
  then obtain prices s1 s2 where "on_oracle (forceRefreshUsdPrices (wv_oracle sample_wired_services) (wired_oracle_config cfg) [canonicalBaseWeth]) sample_wired = (Inr prices, s1)"
      "on_oracle (forceRefreshUsdPrices (wv_oracle sample_wired_services) (wired_oracle_config cfg) [canonicalBaseWeth]) s1 = (Inr prices, s2)"
      "0 < or_else (js_get prices canonicalBaseWeth) 0"
    by (auto simp: refreshes_alike_def Let_def prod_eq_iff split: prod.splits sum.splits)
  then have "oracleSanityCheck sample_wired_services cfg canonicalBaseWeth sample_wired = (Inr True, s2)"
    using sanity_check_is_vacuous [of sample_wired_services cfg canonicalBaseWeth sample_wired prices s1 s2] by simp
  then show ?thesis
    by (intro exI [of _ cfg]) simp
qed


theorem gas_cap_dropped_when_small_witness:
  "\<exists>q. quote_gas 5000000 (1 / 1000) 500000 (Some 30) None = Inr q \<and> usdProfitToWeiBudget (1 / 1000) 30 < 500000 * gq_maxFeePerGas q"
proof -
  have budget: "usdProfitToWeiBudget (1 / 1000) 30 = 100000000000"
    by (simp add: usdProfitToWeiBudget_def)
  obtain q where q: "quote_gas 5000000 (1 / 1000) 500000 (Some 30) None = Inr q"
    by (simp add: quote_gas_def Let_def)
  have "\<not> (1000000 :: int) < bdiv 100000000000 500000"
    by (simp add: bdiv_def)
  then show ?thesis
    using gas_cap_dropped_when_small [OF q, of 100000000000 1000000] q budget by simp
qed

theorem broadcast_reaches_all_witness:
  "fst (broadcast_send [1, 0] [\<lambda>w :: unit. (Inl (Exn ''down''), w), \<lambda>w. (Inr ''0xhash'', w)] ()) = Inr ''0xhash''"
proof -
  let ?sends = "[\<lambda>w :: unit. (Inl (Exn ''down'') :: exn + string, w), \<lambda>w. (Inr ''0xhash'', w)]"
  have "broadcast_all ?sends () = (Inr [Inl (Exn ''down''), Inr ''0xhash''], ())"
    by (simp add: io_bind_def io_catch_def io_simps)
  moreover have "set [1, 0] = {..<length ?sends}"
    by auto
  ultimately show ?thesis
    using broadcast_reaches_all [of ?sends "()" "[Inl (Exn ''down''), Inr ''0xhash'']" "()" "[1, 0]"] by (simp add: first_settled_def)
qed

theorem shutdown_runs_every_hook_witness:
  "fst (shutdown \<lparr>sh_world = (0 :: nat), sh_hooks = [(''a'', \<lambda>w. (Inl (Exn ''late''), w + 1)), (''b'', \<lambda>w. (Inr (), w + 1))],
     sh_completed = False, sh_metricErrors = 0\<rparr>) = ShutdownWithErrors [Exn ''late'']"
  using shutdown_runs_every_hook [of "\<lparr>sh_world = (0 :: nat), sh_hooks = [(''a'', \<lambda>w. (Inl (Exn ''late''), w + 1)), (''b'', \<lambda>w. (Inr (), w + 1))],
     sh_completed = False, sh_metricErrors = 0\<rparr>" "[]" "''a''" "\<lambda>w. (Inl (Exn ''late''), w + 1)" "[(''b'', \<lambda>w. (Inr (), w + 1))]"
     "[]" 0 "Inl (Exn ''late'')" 1 "[]" 2]
  by simp

end
