(* ===== verification/Spec2Isabelle.thy ===== *)
theory Spec2Isabelle
  imports Executor_Safety Bounded_Buffers Chain_Registry Position_Recompute Position_Invariants Cooldown Orchestrator_Safety Gate_Prices Arbitrage_Safety
    Watchlist_Coordinator Liquidation_Bot Purity_Safety Oracle_Safety Bootstrap_Safety Config_Safety Instance_Lock Hazard_Ranking Wiring_Safety
begin

text \<open>
  Verification of the liquidation bot: a TypeScript program that watches the borrowers of Aave V3 on
  layer-2 chains, decides which liquidations and which flash-loan arbitrages pay, and executes them.
  The theories model the files under \<open>src/src/\<close>; a path below is relative to that directory. A
  definition has the name of the function, method or class that it translates wherever HOL allows it.

  \<^bold>\<open>The program and its parts.\<close> \<open>index.ts\<close> reads the configuration, passes the deployment gate, takes
  the lock of the instance and builds the pipeline. The pipeline has four stages.
  \<^item> Detection: the watchlist of borrowers is filled from subgraphs, contract logs and websocket events; the
    health factors are swept in batches, or are followed locally in a model of all positions that is driven by the
    events of the pool and of the price feeds. What falls below one goes into a cache of snapshots.
  \<^item> Selection: each cycle of the orchestrator turns snapshots into candidates, and the candidate gate drops
    borrowers that cool down, dust, untrusted prices and candidates that do not pay. Beside it the
    arbitrage scanner probes pairs of exchanges.
  \<^item> Execution: a request builder encodes a candidate, the router chooses the flash loan, and the executor
    reserves a nonce, builds, simulates, checks again, sends and replaces the transaction.
  \<^item> Feedback: outcomes reach the cooldown of borrowers, the breaker of failed simulations, the dead
    letters, the ranking of opportunities and the summary of the cycle.

  \<^bold>\<open>How the code is represented.\<close> A \<open>Map\<close> or \<open>Set\<close> is a list in insertion order (Prelude), because the program
  iterates, slices and sorts. A \<open>bigint\<close> is an \<open>int\<close> with the truncating division \<open>bdiv\<close>; a \<open>number\<close> is an
  \<open>int\<close> where it counts and a \<open>rat\<close> where it is a fraction, so rounding errors of doubles are not modelled,
  while the values that are not finite are. A class is a record, a method a function on it. A method that
  awaits or throws is an effectful computation \<open>('s, 'a) io\<close> (Effects): it returns an exception or a value,
  and in both cases the state it leaves, so whatever was changed before a \<open>throw\<close> stays changed. Whatever lies
  outside the repository (nodes, viem with its ABI encoder, Redis, the file system, clocks, subgraphs,
  environment and JSON parsing) is a service: a field of a record of functions on a world \<open>'w\<close>, about
  which nothing is assumed unless a theorem says so.

  \<^bold>\<open>Theories and sources.\<close>
  \<^item> Prelude, Effects, Decimal: shared data types, the triples \<open>io_valid\<close> and \<open>io_keeps\<close> with their rules,
    decimal numerals and the parsing of numbers.
  \<^item> Asset_Math (\<open>utils/typedAssetMath.ts\<close>), Profitability (\<open>profitability/profitabilityEngine.ts\<close>,
    \<open>flashLoanProviderRouter.ts\<close>, \<open>config/liquidationGasLimits.ts\<close>): amounts with units, the net profit with
    every rejection, the choice of the best approved route and its cache.
  \<^item> Bounded_Buffers (\<open>utils/fixedSizeDedupe.ts\<close>, \<open>monitors/arbitrageOpportunityQueue.ts\<close>, \<open>boundedWatchlist.ts\<close>,
    \<open>stalenessGuard.ts\<close>, the dead letters), Chain_Registry (\<open>config/chainRegistry.ts\<close> and the two circuit breakers),
    Cooldown (\<open>utils/borrowerCooldown.ts\<close>), Cycle_Diagnostics, Block_Cursor (\<open>utils/blockCursor.ts\<close>):
    the small stateful parts.
  \<^item> Nonce_Manager (\<open>executors/nonceManager.ts\<close>): the operations, a step relation with the pending initialisation as
    a step of its own, and its reachable states.
  \<^item> Safe_Executor, Executor_Safety (\<open>executors/safeTransactionExecutor.ts\<close>): one execution from the
    preflight to the last replacement; which nonces it gives back and what it may send.
  \<^item> Aave_Protocol (\<open>protocols/aaveV3.ts\<close>, \<open>config/chains.ts\<close>), Health_Factor (\<open>monitors/localPositionHfPolicy.ts\<close>),
    Borrower_Cache (\<open>monitors/reserveAwareBorrowerCache.ts\<close>, \<open>orchestrator/pipelineDetectionAdapter.ts\<close>).
  \<^item> Liquidation_Request (\<open>utils/evCalculator.ts\<close>, \<open>profitability/liquidationProfitabilityGate.ts\<close>,
    \<open>executors/liquidationExecutionAdapter.ts\<close>), Candidate_Gate (\<open>orchestrator/liquidationCandidateGate.ts\<close>,
    \<open>protocols/liquidationCandidateFilter.ts\<close>), Price_Oracle (\<open>utils/priceOracleCache.ts\<close>), Gate_Prices (the gate
    on top of that cache).
  \<^item> Pool_Quotes (\<open>mirror/\<close>), Arbitrage, Arbitrage_Safety (\<open>monitors/arbitrageScanner.ts\<close>,
    \<open>executors/arbitrageExecutorAdapter.ts\<close>).
  \<^item> Orchestrator, Orchestrator_Safety (\<open>orchestrator/pipelineOrchestrator.ts\<close>): loop, cycle, turn of a chain, plans,
    outcomes.
  \<^item> Event_Watchlist, Watchlist_Sweep, Watchlist_Coordinator (\<open>monitors/eventDrivenWatchlist.ts\<close>,
    \<open>healthFactorSweep.ts\<close>, \<open>aaveSnapshotProvider.ts\<close>, \<open>onChainBorrowerDiscovery.ts\<close>, \<open>watchlistCoordinator.ts\<close>, the
    reserve allowlist): the watchlist and what reads it.
  \<^item> Detection, Scan_Monitor (\<open>monitors/hybridDetectionPipeline.ts\<close>, \<open>healthFactorMonitor.ts\<close>,
    \<open>borrowerWatchlistRescanner.ts\<close>), Liquidation_Bot (\<open>bot.ts\<close>, \<open>executors/liquidationExecutor.ts\<close>): the bot without
    the pipeline.
  \<^item> Peg_Prices (\<open>oracle/pegPriceNormalizer.ts\<close>), Position_Model, Position_Recompute, Position_Invariants
    (\<open>monitors/localPositionModel.ts\<close>): the local model of all positions.
  \<^item> Event_Ingestion (\<open>monitors/aaveEventParser.ts\<close>, \<open>wsEventLayer.ts\<close>, \<open>positionCheckpointStore.ts\<close>),
    Event_Purity, Purity_Safety (\<open>monitors/eventPurityStack.ts\<close>, \<open>tieredConfirmQueue.ts\<close>,
    \<open>positionOnChainReconcile.ts\<close>): the events that drive that model, and the confirmation on chain of what it reports.
  \<^item> Oracle_Bootstrap, Oracle_Safety (\<open>oracle/\<close>, \<open>runOraclePriceBootstrap\<close>), Bootstrap_Sweep, Snapshot_Store,
    Bootstrap_Safety (\<open>monitors/partialBootstrapSweep.ts\<close>, \<open>bootstrapSnapshotStore.ts\<close>,
    \<open>bootstrapDiscoveryCache.ts\<close>): how prices and positions are filled at the start.
  \<^item> Submission (\<open>utils/gasPriceOracle.ts\<close>, \<open>executors/baseGasModel.ts\<close>, \<open>viemExecutionClient.ts\<close>,
    \<open>PrivateSubmissionClient.ts\<close>, \<open>parallelBroadcastClient.ts\<close>), Runtime_Config, Config_Safety (the parsers of
    \<open>index.ts\<close>, \<open>config/eventPurityConfig.ts\<close>, \<open>production/productionReadiness.ts\<close>), Instance_Lock
    (\<open>utils/singleInstanceLock.ts\<close>), Pipeline_Wiring, Wiring_Safety (\<open>buildPipelineBot\<close> of \<open>index.ts\<close>), Hazard_Ranking
    (\<open>optimization/hazardPrediction.ts\<close>).

  \<^bold>\<open>Interfaces.\<close> A locale states what a client relies on, and is interpreted on the model of the code:
  \<open>bounded_fifo\<close> (the ring and the dead letters), \<open>key_value_store\<close> (the stores of the block cursor and of the checkpoint),
  \<open>breaker_registry\<close> (the chain registry), \<open>borrower_gate\<close> (the cooldown), \<open>nonce_provider\<close> (the nonce manager),
  \<open>framed\<close> and \<open>framed_cache\<close> (assertions that the services leave alone, used for the accounting of a
  cycle, for the registry and for the trace of executions).

  \<^bold>\<open>What is shown.\<close>
  \<^item> Execution: the counts of a cycle balance even if it ends with an exception; every reserved nonce is
    kept or given back exactly as the outcome says; only what was just simulated is sent; a paused chain
    gets no execution; the loop outlives failed cycles and ends exactly on the abort signal.
  \<^item> Selection: with steady services the gate is a pure filter, and whatever the services answer it keeps only
    given candidates above the floor at a trusted price; the chosen route is the best; the cache answers
    from its snapshots; scans and enumerations reach every borrower.
  \<^item> Local model: the recomputation terminates, its maps stay consistent through every history of handlers,
    dropping duplicates equals handling first deliveries, replays and discoveries are complete, snapshots come back from
    their file, and the first prices are fresh and from a healthy sequencer.
  \<^item> Start: bounds of every accepted configuration, the conditions of a live start, and the lock as a system of
    interleaving steps in which a recorded live holder is respected.
  \<^item> What the code does against its purpose is stated as it is: the last check before a broadcast reads the account of the
    bot, so nothing is ever sent; every liquidation request is rejected as unprofitable by the router; a cooldown
    is taken for the bot instead of the borrower; two processes can hold the lock; the events of the lookback
    are counted on top of the seeded amounts; and others.

  \<^bold>\<open>Loops, bounds and fuel.\<close> Loops over data are structural or have a measure (splitting of block ranges, batches, shrinking
  of the cache). Loops that may run forever are \<open>partial_function (option)\<close>: the enumeration of borrowers, which
  is shown to end against any finite list, and the two polling loops, shown to return exactly when aborted.
  The mutual recursion of price updates and derived peg prices runs with \<open>recompute_fuel = 2\<close> rounds: a call
  that finds a stale peg price stores the new one before it goes round, and in a model with settled peg prices nothing
  goes round, so two rounds always return and more fuel gives the same result (Position_Recompute).

  \<^bold>\<open>What is not modelled.\<close> Log lines, latency metrics, the Prometheus server and alerts, which have no influence on what is
  executed; sockets, timers and reconnection (their callbacks are steps or arguments); the interleaving of
  handlers while they await, except for the nonce manager and the lock, where it matters and is a step
  relation; the text of JSON files and ABI encodings; \<open>MultiWsEventSource\<close>, \<open>flashblocksWsClient\<close>, \<open>shadowValidator\<close>
  and \<open>nearLiquidationAcceleratedPoller\<close>, which are I/O around modelled parts; the adapters of other
  protocols, which nothing imports; back-testing and the replay of the dry run; the contracts in Solidity, the native
  helper in Rust and the operator scripts. The reason a dust rejection gives is shortened to the kind of dust, since
  the executor looks only at its prefix.
\<close>

end
